(* ===== verification/Firmware_Prelude.thy ===== *)
theory Firmware_Prelude
  imports Main "HOL-Library.Word" "HOL-Library.Monad_Syntax"
begin

text \<open>
  Shared vocabulary of the development: the machine types of the firmware, its memory
  accesses, its \<open>for\<close> loops, and the lemmas about lists, options and words that the
  component theories use.

  A C function that may stop in \<open>furi_check\<close> (firmware/furi/core/check.h) or that
  could touch memory outside the object it was given is a function into \<open>option\<close>:
  \<open>None\<close> means that the call does not return normally. A theorem that such a
  function equals \<open>Some r\<close> therefore also says that it passes its checks and stays
  inside its buffers. Buffers are lists of bytes; \<open>size_t\<close> values are natural
  numbers, with the 32-bit wrap-around of the target written out where a subtraction can
  go below zero.
\<close>

unbundle bit_operations_syntax

subsection \<open>Machine types\<close>

type_synonym u8 = "8 word"
type_synonym u16 = "16 word"
type_synonym u32 = "32 word"
type_synonym u64 = "64 word"
type_synonym bytes = "u8 list"

named_theorems mem_simps \<open>simplification rules for memory accesses inside their object\<close>
named_theorems len_simps \<open>lengths of buffers after an operation\<close>

subsection \<open>Checks and memory accesses\<close>

text \<open>\<open>furi_check\<close> stops the firmware when its condition is false.\<close>

definition furi_check :: "bool \<Rightarrow> unit option" where
  "furi_check c = (if c then Some () else None)"

text \<open>\<open>furi_assert\<close> checks only when the firmware is compiled with \<open>FURI_DEBUG\<close>.\<close>

definition furi_assert :: "bool \<Rightarrow> bool \<Rightarrow> unit option" where
  "furi_assert furi_debug c = (if furi_debug \<and> \<not> c then None else Some ())"

definition rd :: "'a list \<Rightarrow> nat \<Rightarrow> 'a option" where
  "rd xs i = (if i < length xs then Some (xs ! i) else None)"

definition wr :: "'a list \<Rightarrow> nat \<Rightarrow> 'a \<Rightarrow> 'a list option" where
  "wr xs i v = (if i < length xs then Some (xs[i := v]) else None)"

text \<open>\<open>memcpy(dst + doff, src + soff, n)\<close> on two different objects.\<close>

definition memcpy :: "'a list \<Rightarrow> nat \<Rightarrow> 'a list \<Rightarrow> nat \<Rightarrow> nat \<Rightarrow> 'a list option" where
  "memcpy dst doff src soff n =
     (if doff + n \<le> length dst \<and> soff + n \<le> length src
      then Some (take doff dst @ take n (drop soff src) @ drop (doff + n) dst)
      else None)"

text \<open>Subtraction of two \<open>size_t\<close> values wraps at 32 bits.\<close>

definition size_sub :: "nat \<Rightarrow> nat \<Rightarrow> nat" where
  "size_sub a b = (a + (2 ^ 32 - b mod 2 ^ 32)) mod 2 ^ 32"

definition size_add :: "nat \<Rightarrow> nat \<Rightarrow> nat" where
  "size_add a b = (a + b) mod 2 ^ 32"

lemma furi_check_simps [simp]:
  "furi_check True = Some ()" "furi_check False = None"
  by (simp_all add: furi_check_def)

lemma furi_check_Some_iff [simp]: "furi_check c = Some u \<longleftrightarrow> c"
  by (simp add: furi_check_def)

lemma furi_check_bind [simp]: "Option.bind (furi_check c) f = (if c then f () else None)"
  by (simp add: furi_check_def)

lemma furi_assert_simps [simp]:
  "furi_assert d True = Some ()" "furi_assert False c = Some ()" "furi_assert True False = None"
  by (simp_all add: furi_assert_def)

lemma furi_assert_bind [simp]:
  "Option.bind (furi_assert d c) f = (if d \<and> \<not> c then None else f ())"
  by (simp add: furi_assert_def)

lemma rd_ok [mem_simps]: "i < length xs \<Longrightarrow> rd xs i = Some (xs ! i)"
  by (simp add: rd_def)

lemma wr_ok [mem_simps]: "i < length xs \<Longrightarrow> wr xs i v = Some (xs[i := v])"
  by (simp add: wr_def)

lemma memcpy_ok [mem_simps]:
  "doff + n \<le> length dst \<Longrightarrow> soff + n \<le> length src \<Longrightarrow>
   memcpy dst doff src soff n = Some (take doff dst @ take n (drop soff src) @ drop (doff + n) dst)"
  by (simp add: memcpy_def)

lemma rd_Some_iff: "rd xs i = Some x \<longleftrightarrow> i < length xs \<and> x = xs ! i"
  by (auto simp: rd_def)

lemma wr_Some_iff: "wr xs i v = Some ys \<longleftrightarrow> i < length xs \<and> ys = xs[i := v]"
  by (auto simp: wr_def)

lemma memcpy_Some_iff:
  "memcpy dst doff src soff n = Some ys \<longleftrightarrow>
     doff + n \<le> length dst \<and> soff + n \<le> length src \<and>
     ys = take doff dst @ take n (drop soff src) @ drop (doff + n) dst"
  by (auto simp: memcpy_def)

lemma memcpy_length [len_simps]: "memcpy dst doff src soff n = Some ys \<Longrightarrow> length ys = length dst"
  by (auto simp: memcpy_Some_iff)

lemma size_sub_le: "b \<le> a \<Longrightarrow> a < 2 ^ 32 \<Longrightarrow> size_sub a b = a - b"
proof -
  assume "b \<le> a" "a < 2 ^ 32"
  then have "b mod 2 ^ 32 = b" and "a + (2 ^ 32 - b) = (a - b) + 2 ^ 32" and "a - b < 2 ^ 32"
    by auto
  then show ?thesis by (simp only: size_sub_def mod_add_self2 mod_less)
qed

lemma size_sub_0: "a < 2 ^ 32 \<Longrightarrow> size_sub a 0 = a"
  by (simp add: size_sub_le)

subsection \<open>Loops\<close>

text \<open>
  \<open>for(i = 0; i < n; i++) body\<close> is \<open>ofold body [0..<n]\<close>: the body takes the
  index and the state the loop changes, and may stop the firmware.
\<close>

fun ofold :: "('a \<Rightarrow> 's \<Rightarrow> 's option) \<Rightarrow> 'a list \<Rightarrow> 's \<Rightarrow> 's option" where
  "ofold f [] s = Some s"
| "ofold f (x # xs) s = Option.bind (f x s) (ofold f xs)"

lemma ofold_append: "ofold f (xs @ ys) s = Option.bind (ofold f xs s) (ofold f ys)"
proof (induction xs arbitrary: s)
  case Nil
  then show ?case by simp
next
  case (Cons x xs)
  then show ?case by (cases "f x s") auto
qed

lemma ofold_cong [fundef_cong]:
  "xs = ys \<Longrightarrow> s = t \<Longrightarrow> (\<And>x s. x \<in> set ys \<Longrightarrow> f x s = g x s) \<Longrightarrow> ofold f xs s = ofold g ys t"
proof (induction ys arbitrary: xs s t)
  case Nil
  then show ?case by simp
next
  case (Cons y ys)
  then have "Option.bind (f y t) (ofold f ys) = Option.bind (g y t) (ofold g ys)"
    by (intro Option.bind_cong) auto
  with Cons.prems show ?case by simp
qed

text \<open>Total correctness of a counting loop from an invariant indexed by the counter.\<close>

lemma ofold_upt_inv:
  assumes start: "I 0 s"
    and step: "\<And>k t. k < n \<Longrightarrow> I k t \<Longrightarrow> \<exists>t'. f k t = Some t' \<and> I (Suc k) t'"
  shows "\<exists>t. ofold f [0..<n] s = Some t \<and> I n t"
  using step
proof (induction n)
  case 0
  with start show ?case by simp
next
  case (Suc n)
  then obtain t where "ofold f [0..<n] s = Some t" "I n t"
    by (metis less_SucI)
  with Suc.prems[of n t] show ?case
    by (auto simp: ofold_append)
qed

lemma ofold_pure: "ofold (\<lambda>x s. Some (f x s)) xs s = Some (fold f xs s)"
  by (induction xs arbitrary: s) auto

lemma ofold_inv:
  assumes "ofold f xs s = Some t" and "I s"
    and "\<And>x s s'. x \<in> set xs \<Longrightarrow> I s \<Longrightarrow> f x s = Some s' \<Longrightarrow> I s'"
  shows "I t"
  using assms
proof (induction xs arbitrary: s)
  case Nil
  then show ?case by simp
next
  case (Cons x xs)
  then obtain s' where "f x s = Some s'" "ofold f xs s' = Some t"
    by (auto simp: bind_eq_Some_conv)
  with Cons.IH[of s'] Cons.prems show ?case by auto
qed

subsection \<open>Bits of words\<close>

text \<open>
  Two words are equal when they agree on the bits below their length; for a concrete
  width the bits are checked one at a time.
\<close>

declare push_bit_Suc [simp del] drop_bit_Suc [simp del] One_nat_def [simp del]

lemma word_eq_bits: "(x :: 'a::len word) = y \<longleftrightarrow> (\<forall>k < LENGTH('a). bit x k = bit y k)"
  by (auto intro: bit_word_eqI)

lemma all_less_8:
  "(\<forall>k < (8::nat). P k) \<longleftrightarrow> P 0 \<and> P 1 \<and> P 2 \<and> P 3 \<and> P 4 \<and> P 5 \<and> P 6 \<and> P 7"
  by (simp add: numeral_eq_Suc All_less_Suc conj_ac One_nat_def)

lemma all_less_16:
  "(\<forall>k < (16::nat). P k) \<longleftrightarrow>
     P 0 \<and> P 1 \<and> P 2 \<and> P 3 \<and> P 4 \<and> P 5 \<and> P 6 \<and> P 7 \<and>
     P 8 \<and> P 9 \<and> P 10 \<and> P 11 \<and> P 12 \<and> P 13 \<and> P 14 \<and> P 15"
  by (auto simp: numeral_eq_Suc All_less_Suc One_nat_def)

lemma bit_u8_high: "bit (x :: u8) k \<Longrightarrow> k < 8"
  by (drule bit_imp_le_length) simp

lemma and_1_eq_of_bool: "(x :: 'a::len word) AND 1 = of_bool (bit x 0)"
  by (simp add: and_one_eq mod_2_eq_odd bit_0)

lemma and_1_neq_0 [simp]: "((x :: 'a::len word) AND 1 \<noteq> 0) = bit x 0"
  by (simp add: and_1_eq_of_bool)

lemma drop_and_1: "drop_bit n (x :: 'a::len word) AND 1 = of_bool (bit x n)"
  by (simp add: and_1_eq_of_bool bit_drop_bit_eq)

lemma and_exp_neq_0: "((x :: 'a::len word) AND push_bit n 1 \<noteq> 0) = bit x n"
proof (cases "n < LENGTH('a)")
  case True
  then show ?thesis
    by (auto simp: word_eq_bits bit_simps)
next
  case False
  then have "push_bit n 1 = (0 :: 'a word)" by (intro bit_word_eqI) (simp add: bit_simps)
  moreover have "\<not> bit x n" using False by (auto dest: bit_imp_le_length)
  ultimately show ?thesis by (simp only: bit.conj_zero_right simp_thms)
qed

lemma unat_ucast_up:
  "LENGTH('a) \<le> LENGTH('b) \<Longrightarrow> unat (ucast (x :: 'a::len word) :: 'b::len word) = unat x"
proof -
  assume "LENGTH('a) \<le> LENGTH('b)"
  then have "(2::nat) ^ LENGTH('a) \<le> 2 ^ LENGTH('b)" by (intro power_increasing) auto
  then have "unat x < 2 ^ LENGTH('b)" using unsigned_less [of x] by (metis order_less_le_trans)
  then show ?thesis by (simp add: unsigned_ucast_eq take_bit_nat_eq_self)
qed

text \<open>The number of one bits, as \<open>__builtin_popcount\<close> counts them.\<close>

definition pop_count :: "'a::len word \<Rightarrow> nat" where
  "pop_count w = length (filter (bit w) [0..<LENGTH('a)])"

lemma pop_count_le: "pop_count (w :: 'a::len word) \<le> LENGTH('a)"
  unfolding pop_count_def by (rule order_trans [OF length_filter_le]) simp

lemma bit_nat_less: "bit (n :: nat) k \<Longrightarrow> n < 2 ^ j \<Longrightarrow> k < j"
proof (rule ccontr)
  assume "bit n k" "n < 2 ^ j" "\<not> k < j"
  moreover then have "(2::nat) ^ j \<le> 2 ^ k" by (intro power_increasing) auto
  ultimately show False by (auto simp: bit_nat_def)
qed

subsection \<open>Lists\<close>

lemma nth_list_update_if: "i < length xs \<Longrightarrow> xs[i := v] ! j = (if i = j then v else xs ! j)"
  by (simp add: nth_list_update)

lemma diff_less_width [simp]: "7 - j < (8::nat)" "15 - j < (16::nat)"
  by simp_all

lemma ofold_map: "ofold f (map g xs) s = ofold (\<lambda>x. f (g x)) xs s"
  by (induction xs arbitrary: s) (auto intro: Option.bind_cong)

lemma rev_upt_map: "rev [0..<n] = map (\<lambda>k. n - 1 - k) [0..<n]"
  by (rule nth_equalityI) (auto simp: rev_nth)

lemma div_8_less: "p < 8 * n \<Longrightarrow> p div 8 < (n::nat)"
  by (simp add: less_mult_imp_div_less mult.commute)

lemma div_mod_8_eq: "(p::nat) div 8 = q div 8 \<Longrightarrow> 7 - p mod 8 = 7 - q mod 8 \<Longrightarrow> p = q"
proof -
  assume "p div 8 = q div 8" and "7 - p mod 8 = 7 - q mod 8"
  then have "p div 8 = q div 8" and "p mod 8 = q mod 8"
    by arith+
  then show "p = q" by (metis div_mult_mod_eq)
qed

end
