(* ===== verification/Subghz_Math.thy ===== *)
theory Subghz_Math
  imports Firmware_Prelude
begin

text \<open>
  The arithmetic blocks of the sub-GHz protocols (firmware/lib/subghz/blocks/math.c and math.h):
  bit reversal, parities, checksums, cyclic redundancy checks in both bit orders, and the LFSR
  digests. A function on a message takes the buffer and the number of bytes it reads; reading
  past the buffer is \<open>None\<close>. The lemmas relate the two bit orders and state what a receiver
  may rely on.
\<close>

subsection \<open>Operations\<close>

definition bit_read :: "'a::len word \<Rightarrow> nat \<Rightarrow> 'a word" where
  "bit_read value n = drop_bit n value AND 1"

definition bit_set :: "'a::len word \<Rightarrow> nat \<Rightarrow> 'a word" where
  "bit_set value n = value OR push_bit n 1"

definition bit_clear :: "'a::len word \<Rightarrow> nat \<Rightarrow> 'a word" where
  "bit_clear value n = value AND NOT (push_bit n 1)"

definition bit_write :: "'a::len word \<Rightarrow> nat \<Rightarrow> bool \<Rightarrow> 'a word" where
  "bit_write value n bitvalue = (if bitvalue then bit_set value n else bit_clear value n)"

definition DURATION_DIFF :: "u32 \<Rightarrow> u32 \<Rightarrow> u32" where
  "DURATION_DIFF x y = (if x < y then y - x else x - y)"

definition subghz_protocol_blocks_reverse_key :: "u64 \<Rightarrow> u8 \<Rightarrow> u64" where
  "subghz_protocol_blocks_reverse_key key bit_count =
     fold (\<lambda>i reverse_key. push_bit 1 reverse_key OR bit_read key i) [0..<unat bit_count] 0"

definition subghz_protocol_blocks_get_parity :: "u64 \<Rightarrow> u8 \<Rightarrow> u8" where
  "subghz_protocol_blocks_get_parity key bit_count =
     fold (\<lambda>i parity. parity + ucast (bit_read key i)) [0..<unat bit_count] 0 AND 1"

text \<open>A loop over the bytes of a message.\<close>

definition each_byte :: "(u8 \<Rightarrow> 's \<Rightarrow> 's) \<Rightarrow> bytes \<Rightarrow> nat \<Rightarrow> 's \<Rightarrow> 's option" where
  "each_byte f message n s = ofold (\<lambda>i s. do { b \<leftarrow> rd message i; Some (f b s) }) [0..<n] s"

text \<open>One bit of the division, most significant and least significant bit first.\<close>

definition crc_bit_8 :: "u8 \<Rightarrow> u8 \<Rightarrow> u8" where
  "crc_bit_8 poly r = (if r AND 0x80 \<noteq> 0 then push_bit 1 r XOR poly else push_bit 1 r)"

definition crc_bit_8le :: "u8 \<Rightarrow> u8 \<Rightarrow> u8" where
  "crc_bit_8le poly r = (if r AND 1 \<noteq> 0 then drop_bit 1 r XOR poly else drop_bit 1 r)"

definition crc_bit_16 :: "u16 \<Rightarrow> u16 \<Rightarrow> u16" where
  "crc_bit_16 poly r = (if r AND 0x8000 \<noteq> 0 then push_bit 1 r XOR poly else push_bit 1 r)"

definition crc_bit_16lsb :: "u16 \<Rightarrow> u16 \<Rightarrow> u16" where
  "crc_bit_16lsb poly r = (if r AND 1 \<noteq> 0 then drop_bit 1 r XOR poly else drop_bit 1 r)"

definition subghz_protocol_blocks_crc4 :: "bytes \<Rightarrow> nat \<Rightarrow> u8 \<Rightarrow> u8 \<Rightarrow> u8 option" where
  "subghz_protocol_blocks_crc4 message n polynomial init = do {
     let poly = push_bit 4 polynomial;
     remainder \<leftarrow> each_byte (\<lambda>b r. (crc_bit_8 poly ^^ 8) (r XOR b)) message n (push_bit 4 init);
     Some (drop_bit 4 remainder AND 0x0f)
   }"

definition subghz_protocol_blocks_crc7 :: "bytes \<Rightarrow> nat \<Rightarrow> u8 \<Rightarrow> u8 \<Rightarrow> u8 option" where
  "subghz_protocol_blocks_crc7 message n polynomial init = do {
     let poly = push_bit 1 polynomial;
     remainder \<leftarrow> each_byte (\<lambda>b r. (crc_bit_8 poly ^^ 8) (r XOR b)) message n (push_bit 1 init);
     Some (drop_bit 1 remainder AND 0x7f)
   }"

definition subghz_protocol_blocks_crc8 :: "bytes \<Rightarrow> nat \<Rightarrow> u8 \<Rightarrow> u8 \<Rightarrow> u8 option" where
  "subghz_protocol_blocks_crc8 message n polynomial init =
     each_byte (\<lambda>b r. (crc_bit_8 polynomial ^^ 8) (r XOR b)) message n init"

definition subghz_protocol_blocks_crc8le :: "bytes \<Rightarrow> nat \<Rightarrow> u8 \<Rightarrow> u8 \<Rightarrow> u8 option" where
  "subghz_protocol_blocks_crc8le message n polynomial init = do {
     let remainder = ucast (subghz_protocol_blocks_reverse_key (ucast init) 8);
     let polynomial = ucast (subghz_protocol_blocks_reverse_key (ucast polynomial) 8);
     each_byte (\<lambda>b r. (crc_bit_8le polynomial ^^ 8) (r XOR b)) message n remainder
   }"

definition subghz_protocol_blocks_crc16lsb :: "bytes \<Rightarrow> nat \<Rightarrow> u16 \<Rightarrow> u16 \<Rightarrow> u16 option" where
  "subghz_protocol_blocks_crc16lsb message n polynomial init =
     each_byte (\<lambda>b r. (crc_bit_16lsb polynomial ^^ 8) (r XOR ucast b)) message n init"

definition subghz_protocol_blocks_crc16 :: "bytes \<Rightarrow> nat \<Rightarrow> u16 \<Rightarrow> u16 \<Rightarrow> u16 option" where
  "subghz_protocol_blocks_crc16 message n polynomial init =
     each_byte (\<lambda>b r. (crc_bit_16 polynomial ^^ 8) (r XOR push_bit 8 (ucast b))) message n init"

text \<open>The digests carry the running sum and the rolling key.\<close>

definition lfsr_bit_8 :: "u8 \<Rightarrow> u8 \<Rightarrow> nat \<Rightarrow> u8 \<times> u8 \<Rightarrow> u8 \<times> u8" where
  "lfsr_bit_8 gen data i = (\<lambda>(sum, k).
     (if drop_bit i data AND 1 \<noteq> 0 then sum XOR k else sum,
      if k AND 1 \<noteq> 0 then drop_bit 1 k XOR gen else drop_bit 1 k))"

definition subghz_protocol_blocks_lfsr_digest8 :: "bytes \<Rightarrow> nat \<Rightarrow> u8 \<Rightarrow> u8 \<Rightarrow> u8 option" where
  "subghz_protocol_blocks_lfsr_digest8 message n gen k = do {
     (sum, k) \<leftarrow> each_byte (\<lambda>data. fold (lfsr_bit_8 gen data) (rev [0..<8])) message n (0, k);
     Some sum
   }"

definition lfsr_bit_8_reflect :: "u8 \<Rightarrow> u8 \<Rightarrow> nat \<Rightarrow> u8 \<times> u8 \<Rightarrow> u8 \<times> u8" where
  "lfsr_bit_8_reflect gen data i = (\<lambda>(sum, k).
     (if drop_bit i data AND 1 \<noteq> 0 then sum XOR k else sum,
      if k AND 0x80 \<noteq> 0 then push_bit 1 k XOR gen else push_bit 1 k))"

definition subghz_protocol_blocks_lfsr_digest8_reflect :: "bytes \<Rightarrow> nat \<Rightarrow> u8 \<Rightarrow> u8 \<Rightarrow> u8 option" where
  "subghz_protocol_blocks_lfsr_digest8_reflect message n gen k = do {
     (sum, k) \<leftarrow> ofold (\<lambda>i s. do {
         data \<leftarrow> rd message i;
         Some (fold (lfsr_bit_8_reflect gen data) [0..<8] s)
       }) (rev [0..<n]) (0, k);
     Some sum
   }"

definition lfsr_bit_16 :: "u16 \<Rightarrow> u8 \<Rightarrow> nat \<Rightarrow> u16 \<times> u16 \<Rightarrow> u16 \<times> u16" where
  "lfsr_bit_16 gen data i = (\<lambda>(sum, k).
     (if drop_bit i data AND 1 \<noteq> 0 then sum XOR k else sum,
      if k AND 1 \<noteq> 0 then drop_bit 1 k XOR gen else drop_bit 1 k))"

definition subghz_protocol_blocks_lfsr_digest16 :: "bytes \<Rightarrow> nat \<Rightarrow> u16 \<Rightarrow> u16 \<Rightarrow> u16 option" where
  "subghz_protocol_blocks_lfsr_digest16 message n gen k = do {
     (sum, k) \<leftarrow> each_byte (\<lambda>data. fold (lfsr_bit_16 gen data) (rev [0..<8])) message n (0, k);
     Some sum
   }"

definition subghz_protocol_blocks_add_bytes :: "bytes \<Rightarrow> nat \<Rightarrow> u8 option" where
  "subghz_protocol_blocks_add_bytes message n = do {
     result \<leftarrow> each_byte (\<lambda>b r. r + (ucast b :: u32)) message n 0;
     Some (ucast result)
   }"

definition subghz_protocol_blocks_parity8 :: "u8 \<Rightarrow> u8" where
  "subghz_protocol_blocks_parity8 byte =
     (let byte = byte XOR drop_bit 4 byte;
          byte = byte AND 0xf
      in ucast (drop_bit (unat byte) (0x6996 :: u32) AND 1))"

definition subghz_protocol_blocks_parity_bytes :: "bytes \<Rightarrow> nat \<Rightarrow> u8 option" where
  "subghz_protocol_blocks_parity_bytes message n =
     each_byte (\<lambda>b r. r XOR subghz_protocol_blocks_parity8 b) message n 0"

definition subghz_protocol_blocks_xor_bytes :: "bytes \<Rightarrow> nat \<Rightarrow> u8 option" where
  "subghz_protocol_blocks_xor_bytes message n = each_byte (\<lambda>b r. r XOR b) message n 0"

subsection \<open>Loops over messages\<close>

lemma each_byte_take: "n \<le> length message \<Longrightarrow> each_byte f message n s = Some (fold f (take n message) s)"
proof -
  assume le: "n \<le> length message"
  have "each_byte f message n s = ofold (\<lambda>i s. Some (f (message ! i) s)) [0..<n] s"
    unfolding each_byte_def using le by (intro ofold_cong) (auto simp: rd_ok)
  also have "\<dots> = Some (fold (\<lambda>i. f (message ! i)) [0..<n] s)" by (rule ofold_pure)
  also have "fold (\<lambda>i. f (message ! i)) [0..<n] = fold f (map (\<lambda>i. message ! i) [0..<n])"
    by (simp add: fold_map comp_def)
  also have "map (\<lambda>i. message ! i) [0..<n] = take n message"
    using le by (intro nth_equalityI) auto
  finally show ?thesis .
qed

lemma each_byte_fold: "each_byte f message (length message) s = Some (fold f message s)"
  by (simp add: each_byte_take)

subsection \<open>Reversal\<close>

lemma bit_read_eq: "bit_read x n = of_bool (bit x n)"
  by (simp add: bit_read_def drop_and_1)

lemma shift_in_eq: "bit (push_bit 1 x OR of_bool b) k = (if k = 0 then b else k < LENGTH('a) \<and> bit x (k - 1))"
  for x :: "'a::len word"
  by (cases k) (auto simp: bit_simps One_nat_def)

lemma reverse_loop_bit:
  "bit (fold (\<lambda>i r. push_bit 1 r OR bit_read (key :: u64) i) [0..<n] 0) k =
     (k < n \<and> k < 64 \<and> bit key (n - 1 - k))"
proof (induction n arbitrary: k)
  case 0
  then show ?case by simp
next
  case (Suc n)
  show ?case
    unfolding upt_Suc_append [OF le0] fold_append comp_apply fold.simps id_apply bit_read_eq
    by (subst shift_in_eq) (auto simp: Suc.IH [unfolded bit_read_eq])
qed

lemma reverse_key_bit:
  "bit (subghz_protocol_blocks_reverse_key key n) k = (k < unat n \<and> k < 64 \<and> bit key (unat n - 1 - k))"
  unfolding subghz_protocol_blocks_reverse_key_def by (rule reverse_loop_bit)

text \<open>Reversing the low bits of a key puts bit \<open>k\<close> at place \<open>n - 1 - k\<close>; doing it twice
  gives the low \<open>n\<close> bits of the key back.\<close>

theorem reverse_key_involutive:
  assumes "n \<le> 64"
  shows "subghz_protocol_blocks_reverse_key (subghz_protocol_blocks_reverse_key key n) n = take_bit (unat n) key \<and>
    (\<forall>k. bit (subghz_protocol_blocks_reverse_key key n) k = (k < unat n \<and> bit key (unat n - 1 - k)))"
proof -
  have n: "unat n \<le> 64" using assms by (simp add: word_le_nat_alt)
  then show ?thesis by (auto intro!: bit_word_eqI simp: reverse_key_bit bit_simps)
qed

theorem reverse_key_involutive_witness:
  "(24 :: u8) \<le> 64 \<and>
   subghz_protocol_blocks_reverse_key (subghz_protocol_blocks_reverse_key 0xA1B2C3D4 24) 24 = take_bit 24 0xA1B2C3D4"
proof -
  have "(24 :: u8) \<le> 64" by simp
  with reverse_key_involutive [OF this, of "0xA1B2C3D4"] show ?thesis by simp
qed

subsection \<open>Mirror images\<close>

definition mirror8 :: "u8 \<Rightarrow> u8" where
  "mirror8 x = ucast (subghz_protocol_blocks_reverse_key (ucast x) 8)"

lemma bit_mirror8: "bit (mirror8 x) k = (k < 8 \<and> bit x (7 - k))"
  by (auto simp: mirror8_def bit_simps reverse_key_bit)

lemma mirror8_mirror8 [simp]: "mirror8 (mirror8 x) = x"
  by (rule bit_word_eqI) (auto simp: bit_mirror8)

lemma mirror8_xor: "mirror8 (x XOR y) = mirror8 x XOR mirror8 y"
  by (rule bit_word_eqI) (auto simp: bit_mirror8 bit_simps)

lemma mirror8_0 [simp]: "mirror8 0 = 0"
  by (rule bit_word_eqI) (simp add: bit_mirror8)

lemma mirror8_shift: "mirror8 (push_bit 1 x) = drop_bit 1 (mirror8 x)"
proof (rule bit_word_eqI)
  fix k assume "k < LENGTH(8)"
  then show "bit (mirror8 (push_bit 1 x)) k = bit (drop_bit 1 (mirror8 x)) k"
    by (cases "k = 7") (auto simp: bit_mirror8 bit_simps)
qed

lemma top_bit_8: "((x :: u8) AND 0x80 \<noteq> 0) = bit x 7"
proof -
  have "(0x80 :: u8) = push_bit 7 1" by simp
  then show ?thesis by (simp only: and_exp_neq_0)
qed

lemma top_bit_16: "((x :: u16) AND 0x8000 \<noteq> 0) = bit x 15"
proof -
  have "(0x8000 :: u16) = push_bit 15 1" by simp
  then show ?thesis by (simp only: and_exp_neq_0)
qed

lemma crc_bit_8le_mirror: "crc_bit_8le (mirror8 p) (mirror8 r) = mirror8 (crc_bit_8 p r)"
  by (simp add: crc_bit_8le_def crc_bit_8_def top_bit_8 bit_mirror8 mirror8_xor mirror8_shift del: bit_0)

lemma crc_bits_8le_mirror: "(crc_bit_8le (mirror8 p) ^^ k) (mirror8 r) = mirror8 ((crc_bit_8 p ^^ k) r)"
  by (induction k) (simp_all add: crc_bit_8le_mirror)

lemma fold_mirror:
  assumes "\<And>b r. g (h b) (m r) = m (f b r)"
  shows "fold g (map h xs) (m r) = m (fold f xs r)"
  using assms by (induction xs arbitrary: r) simp_all

lemma lfsr_bit_mirror:
  assumes "i < 8"
  shows "lfsr_bit_8_reflect (mirror8 gen) (mirror8 d) (7 - i) (map_prod mirror8 mirror8 s) =
     map_prod mirror8 mirror8 (lfsr_bit_8 gen d i s)"
proof -
  have sh: "push_bit 1 (mirror8 x) = mirror8 (drop_bit 1 x)" for x
    using mirror8_shift [of "mirror8 x"] by (metis mirror8_mirror8)
  show ?thesis using assms
    by (cases s) (simp add: lfsr_bit_8_reflect_def lfsr_bit_8_def top_bit_8 bit_mirror8 mirror8_xor sh
        bit_drop_bit_eq del: bit_0)
qed

lemma lfsr_byte_mirror:
  "fold (lfsr_bit_8_reflect (mirror8 gen) (mirror8 d)) [0..<8] (map_prod mirror8 mirror8 s) =
   map_prod mirror8 mirror8 (fold (lfsr_bit_8 gen d) (rev [0..<8]) s)"
proof -
  let ?F = "\<lambda>l. fold (lfsr_bit_8_reflect (mirror8 gen) (mirror8 d)) l (map_prod mirror8 mirror8 s)"
  have "[0..<8] = map (\<lambda>i. 7 - i) (rev [0..<8::nat])" by code_simp
  then have "?F [0..<8] = ?F (map (\<lambda>i. 7 - i) (rev [0..<8]))" by (rule arg_cong)
  also have "\<dots> = fold (\<lambda>i. lfsr_bit_8_reflect (mirror8 gen) (mirror8 d) (7 - i)) (rev [0..<8]) (map_prod mirror8 mirror8 s)"
    by (simp only: fold_map comp_def)
  also have "\<dots> = map_prod mirror8 mirror8 (fold (lfsr_bit_8 gen d) is s)" if "set is \<subseteq> {..<8}" "rev [0..<8] = is" for "is"
    using that(1) unfolding that(2) by (induction "is" arbitrary: s) (simp_all add: lfsr_bit_mirror)
  finally show ?thesis by (simp add: atLeast0LessThan)
qed

lemma digest8_reflect_fold:
  assumes "n \<le> length m"
  shows "subghz_protocol_blocks_lfsr_digest8_reflect m n gen k =
    Some (fst (fold (\<lambda>d. fold (lfsr_bit_8_reflect gen d) [0..<8]) (rev (take n m)) (0, k)))"
proof -
  have "ofold (\<lambda>i s. do { data \<leftarrow> rd m i; Some (fold (lfsr_bit_8_reflect gen data) [0..<8] s) }) (rev [0..<n]) s =
      ofold (\<lambda>i s. Some (fold (lfsr_bit_8_reflect gen (m ! i)) [0..<8] s)) (rev [0..<n]) s" for s
    using assms by (intro ofold_cong) (auto simp: rd_ok)
  moreover have "ofold (\<lambda>i s. Some (fold (lfsr_bit_8_reflect gen (m ! i)) [0..<8] s)) (rev [0..<n]) s =
      Some (fold (\<lambda>i. fold (lfsr_bit_8_reflect gen (m ! i)) [0..<8]) (rev [0..<n]) s)" for s
    by (rule ofold_pure)
  moreover have "map ((!) m) (rev [0..<n]) = rev (take n m)"
    using assms by (simp add: rev_map [symmetric]) (intro nth_equalityI, auto)
  then have "fold (\<lambda>i. fold (lfsr_bit_8_reflect gen (m ! i)) [0..<8]) (rev [0..<n]) s =
      fold (\<lambda>d. fold (lfsr_bit_8_reflect gen d) [0..<8]) (rev (take n m)) s" for s
    by (simp only: fold_map comp_def flip: \<open>map ((!) m) (rev [0..<n]) = rev (take n m)\<close>)
  ultimately show ?thesis by (simp add: subghz_protocol_blocks_lfsr_digest8_reflect_def case_prod_unfold)
qed

text \<open>The routines that work from the least significant bit are mirror images of those
  that work from the most significant one: the little-endian CRC-8 of a message is the bit
  reversal of the CRC-8 of the message with every byte reversed, under the same polynomial and
  initial value; and the reflected digest is the bit reversal of the digest of the bytes
  reversed and taken in the opposite order, with generator and key reversed.\<close>

theorem crc_digest_mirror:
  assumes "n \<le> length message"
  shows "subghz_protocol_blocks_crc8le message n polynomial init =
      map_option mirror8 (subghz_protocol_blocks_crc8 (map mirror8 message) n polynomial init) \<and>
    subghz_protocol_blocks_lfsr_digest8_reflect message n gen k =
      map_option mirror8 (subghz_protocol_blocks_lfsr_digest8 (rev (take n (map mirror8 message))) n (mirror8 gen) (mirror8 k))"
proof -
  have step: "(crc_bit_8le (mirror8 polynomial) ^^ 8) (mirror8 r XOR b) =
      mirror8 ((crc_bit_8 polynomial ^^ 8) (r XOR mirror8 b))" for b r
    using crc_bits_8le_mirror [where p = polynomial and k = 8 and r = "r XOR mirror8 b"] by (simp add: mirror8_xor)
  have "fold (\<lambda>b r. (crc_bit_8le (mirror8 polynomial) ^^ 8) (r XOR b)) (map (\<lambda>b. b) xs) (mirror8 r) =
      mirror8 (fold (\<lambda>b r. (crc_bit_8 polynomial ^^ 8) (r XOR mirror8 b)) xs r)" for xs r
    by (rule fold_mirror) (rule step)
  then have "subghz_protocol_blocks_crc8le message n polynomial init =
      map_option mirror8 (subghz_protocol_blocks_crc8 (map mirror8 message) n polynomial init)"
    using assms
    by (simp add: subghz_protocol_blocks_crc8le_def subghz_protocol_blocks_crc8_def each_byte_take Let_def
        mirror8_def [symmetric] take_map fold_map comp_def)
  moreover have "fold (\<lambda>d. fold (lfsr_bit_8_reflect gen d) [0..<8]) (map mirror8 ys) (map_prod mirror8 mirror8 (0, mirror8 k)) =
      map_prod mirror8 mirror8 (fold (\<lambda>d. fold (lfsr_bit_8 (mirror8 gen) d) (rev [0..<8])) ys (0, mirror8 k))" for ys
    by (rule fold_mirror) (metis lfsr_byte_mirror mirror8_mirror8)
  from this [of "rev (map mirror8 (take n message))"]
  have "fold (\<lambda>d. fold (lfsr_bit_8_reflect gen d) [0..<8]) (rev (take n message)) (0, k) =
      map_prod mirror8 mirror8
        (fold (\<lambda>d. fold (lfsr_bit_8 (mirror8 gen) d) (rev [0..<8])) (rev (map mirror8 (take n message))) (0, mirror8 k))"
    by (simp add: rev_map comp_def)
  then have "subghz_protocol_blocks_lfsr_digest8_reflect message n gen k =
      map_option mirror8 (subghz_protocol_blocks_lfsr_digest8 (rev (take n (map mirror8 message))) n (mirror8 gen) (mirror8 k))"
    using assms
    by (simp add: digest8_reflect_fold subghz_protocol_blocks_lfsr_digest8_def each_byte_take take_map case_prod_unfold)
  ultimately show ?thesis by (rule conjI)
qed

theorem crc_digest_mirror_witness:
  "subghz_protocol_blocks_crc8le [0x31, 0x32, 0x33] 3 0x31 0 =
     map_option mirror8 (subghz_protocol_blocks_crc8 (map mirror8 [0x31, 0x32, 0x33]) 3 0x31 0)"
  by (rule conjunct1 [OF crc_digest_mirror]) simp

subsection \<open>Residues\<close>

lemma crc_bit_shift:
  "\<not> bit r 7 \<Longrightarrow> crc_bit_8 p r = push_bit 1 r"
  "\<not> bit r' 0 \<Longrightarrow> crc_bit_8le p r' = drop_bit 1 r'"
  "\<not> bit s 15 \<Longrightarrow> crc_bit_16 q s = push_bit 1 s"
  "\<not> bit s' 0 \<Longrightarrow> crc_bit_16lsb q s' = drop_bit 1 s'"
  by (simp_all add: crc_bit_8_def crc_bit_8le_def crc_bit_16_def crc_bit_16lsb_def top_bit_8 top_bit_16)

lemma crc_bits_push:
  "k \<le> 8 \<Longrightarrow> (\<And>i. 8 - k \<le> i \<Longrightarrow> \<not> bit r i) \<Longrightarrow> (crc_bit_8 p ^^ k) r = push_bit k r"
proof (induction k)
  case (Suc k)
  then have r: "(crc_bit_8 p ^^ k) r = push_bit k r" by simp
  have "\<not> bit (push_bit k r) 7" using Suc.prems by (simp add: bit_simps)
  then show ?case by (simp add: r crc_bit_shift push_bit_push_bit plus_1_eq_Suc)
qed simp

lemma crc_bits_16_push:
  "k \<le> 16 \<Longrightarrow> (\<And>i. 16 - k \<le> i \<Longrightarrow> \<not> bit r i) \<Longrightarrow> (crc_bit_16 p ^^ k) r = push_bit k r"
proof (induction k)
  case (Suc k)
  then have r: "(crc_bit_16 p ^^ k) r = push_bit k r" by simp
  have "\<not> bit (push_bit k r) 15" using Suc.prems by (simp add: bit_simps)
  then show ?case by (simp add: r crc_bit_shift push_bit_push_bit plus_1_eq_Suc)
qed simp

lemma crc_bits_16lsb_drop:
  "(\<And>i. i < k \<Longrightarrow> \<not> bit r i) \<Longrightarrow> (crc_bit_16lsb p ^^ k) r = drop_bit k r"
proof (induction k)
  case (Suc k)
  then have r: "(crc_bit_16lsb p ^^ k) r = drop_bit k r" by simp
  have "\<not> bit (drop_bit k r) 0" using Suc.prems by (simp add: bit_drop_bit_eq)
  then show ?case by (simp add: r crc_bit_shift drop_bit_drop_bit plus_1_eq_Suc)
qed simp

lemma crc_bits_0 [simp]:
  "(crc_bit_8 p ^^ k) 0 = 0" "(crc_bit_8le p ^^ k) 0 = 0"
  by (induction k) (simp_all add: crc_bit_8_def crc_bit_8le_def)

text \<open>A polynomial shifted left leaves the low bits of the register clear after a byte.\<close>

lemma crc_bits_low:
  "i < j \<Longrightarrow> i < k \<Longrightarrow> \<not> bit ((crc_bit_8 (push_bit j p) ^^ k) r) i"
proof (induction k arbitrary: i)
  case (Suc k)
  let ?r = "(crc_bit_8 (push_bit j p) ^^ k) r"
  have "bit (crc_bit_8 (push_bit j p) ?r) i = bit (push_bit 1 ?r) i"
    using Suc.prems by (auto simp: crc_bit_8_def bit_simps)
  moreover have "\<not> bit (push_bit 1 ?r) i"
    using Suc.IH [of "i - 1"] Suc.prems by (cases i) (auto simp: bit_simps One_nat_def)
  ultimately show ?case by simp
qed simp

lemma shifted_register:
  fixes r :: u8
  assumes "\<And>i. i < j \<Longrightarrow> \<not> bit r i" and "m = mask (8 - j)" and "j \<le> 8"
  shows "push_bit j (drop_bit j r AND m) = r"
proof (rule bit_word_eqI)
  fix k assume "k < LENGTH(8)"
  with assms show "bit (push_bit j (drop_bit j r AND m)) k = bit r k"
    by (cases "k < j") (auto simp: bit_simps bit_mask_iff not_less)
qed

text \<open>A message followed by its own checksum has checksum zero, for every polynomial
  and every initial value: one byte for CRC-8 in both bit orders, the four or seven bits moved
  to the top of a byte for CRC-4 and CRC-7, the high byte first for CRC-16 and the low byte
  first for its least-significant-bit-first variant. This is the test a receiver makes.\<close>

theorem crc_residues:
  assumes "message \<noteq> []"
  shows "(\<forall>c. subghz_protocol_blocks_crc8 message (length message) poly start = Some c \<longrightarrow>
      subghz_protocol_blocks_crc8 (message @ [c]) (length message + 1) poly start = Some 0) \<and>
    (\<forall>c. subghz_protocol_blocks_crc8le message (length message) poly start = Some c \<longrightarrow>
      subghz_protocol_blocks_crc8le (message @ [c]) (length message + 1) poly start = Some 0) \<and>
    (\<forall>c. subghz_protocol_blocks_crc4 message (length message) poly start = Some c \<longrightarrow>
      subghz_protocol_blocks_crc4 (message @ [push_bit 4 c]) (length message + 1) poly start = Some 0) \<and>
    (\<forall>c. subghz_protocol_blocks_crc7 message (length message) poly start = Some c \<longrightarrow>
      subghz_protocol_blocks_crc7 (message @ [push_bit 1 c]) (length message + 1) poly start = Some 0) \<and>
    (\<forall>c. subghz_protocol_blocks_crc16 message (length message) wpoly wstart = Some c \<longrightarrow>
      subghz_protocol_blocks_crc16 (message @ [ucast (drop_bit 8 c), ucast c]) (length message + 2) wpoly wstart = Some 0) \<and>
    (\<forall>c. subghz_protocol_blocks_crc16lsb message (length message) wpoly wstart = Some c \<longrightarrow>
      subghz_protocol_blocks_crc16lsb (message @ [ucast c, ucast (drop_bit 8 c)]) (length message + 2) wpoly wstart = Some 0)"
proof (intro conjI allI impI)
  fix c assume "subghz_protocol_blocks_crc8 message (length message) poly start = Some c"
  then show "subghz_protocol_blocks_crc8 (message @ [c]) (length message + 1) poly start = Some 0"
    by (simp add: subghz_protocol_blocks_crc8_def each_byte_take)
next
  fix c assume "subghz_protocol_blocks_crc8le message (length message) poly start = Some c"
  then show "subghz_protocol_blocks_crc8le (message @ [c]) (length message + 1) poly start = Some 0"
    by (simp add: subghz_protocol_blocks_crc8le_def each_byte_take Let_def)
next
  fix c assume c: "subghz_protocol_blocks_crc4 message (length message) poly start = Some c"
  let ?f = "\<lambda>b r. (crc_bit_8 (push_bit 4 poly) ^^ 8) (r XOR b)"
  let ?r = "fold ?f message (push_bit 4 start)"
  obtain xs x where "message = xs @ [x]" using assms by (metis rev_exhaust)
  then have "\<not> bit ?r i" if "i < 4" for i using crc_bits_low [of i 4 8] that by simp
  moreover have "(0x0f :: u8) = mask (8 - 4)" by code_simp
  ultimately have "push_bit 4 (drop_bit 4 ?r AND 0x0f) = ?r" by (intro shifted_register) auto
  with c show "subghz_protocol_blocks_crc4 (message @ [push_bit 4 c]) (length message + 1) poly start = Some 0"
    by (auto simp: subghz_protocol_blocks_crc4_def each_byte_take Let_def)
next
  fix c assume c: "subghz_protocol_blocks_crc7 message (length message) poly start = Some c"
  let ?f = "\<lambda>b r. (crc_bit_8 (push_bit 1 poly) ^^ 8) (r XOR b)"
  let ?r = "fold ?f message (push_bit 1 start)"
  obtain xs x where "message = xs @ [x]" using assms by (metis rev_exhaust)
  then have "\<not> bit ?r i" if "i < 1" for i using crc_bits_low [of i 1 8] that by simp
  moreover have "(0x7f :: u8) = mask (8 - 1)" by code_simp
  ultimately have "push_bit 1 (drop_bit 1 ?r AND 0x7f) = ?r" by (intro shifted_register) auto
  with c show "subghz_protocol_blocks_crc7 (message @ [push_bit 1 c]) (length message + 1) poly start = Some 0"
    by (auto simp: subghz_protocol_blocks_crc7_def each_byte_take Let_def)
next
  fix c assume c: "subghz_protocol_blocks_crc16 message (length message) wpoly wstart = Some c"
  have hi: "(crc_bit_16 wpoly ^^ 8) (c XOR push_bit 8 (ucast (ucast (drop_bit 8 c) :: u8))) = push_bit 8 c"
    by (subst crc_bits_16_push) (auto simp: bit_simps intro!: bit_word_eqI dest: bit_imp_le_length)
  have lo: "(crc_bit_16 wpoly ^^ 8) (push_bit 8 c XOR push_bit 8 (ucast (ucast c :: u8))) = 0"
    by (subst crc_bits_16_push) (auto simp: bit_simps intro!: bit_word_eqI)
  from c show "subghz_protocol_blocks_crc16 (message @ [ucast (drop_bit 8 c), ucast c]) (length message + 2) wpoly wstart = Some 0"
    by (simp add: subghz_protocol_blocks_crc16_def each_byte_take hi lo)
next
  fix c assume c: "subghz_protocol_blocks_crc16lsb message (length message) wpoly wstart = Some c"
  have lo: "(crc_bit_16lsb wpoly ^^ 8) (c XOR ucast (ucast c :: u8)) = drop_bit 8 c"
    by (subst crc_bits_16lsb_drop) (auto simp: bit_simps intro!: bit_word_eqI)
  have hi: "(crc_bit_16lsb wpoly ^^ 8) (drop_bit 8 c XOR ucast (ucast (drop_bit 8 c) :: u8)) = 0"
    by (subst crc_bits_16lsb_drop) (auto simp: bit_simps intro!: bit_word_eqI dest: bit_imp_le_length)
  from c show "subghz_protocol_blocks_crc16lsb (message @ [ucast c, ucast (drop_bit 8 c)]) (length message + 2) wpoly wstart = Some 0"
    by (simp add: subghz_protocol_blocks_crc16lsb_def each_byte_take hi lo)
qed

theorem crc_residues_witness:
  "subghz_protocol_blocks_crc8 ([0x31] @ [0x27]) 2 0x07 0x51 = Some 0"
proof -
  have c: "subghz_protocol_blocks_crc8 [0x31] (length [0x31 :: u8]) 0x07 0x51 = Some 0x27" by code_simp
  have "[0x31 :: u8] \<noteq> []" by simp
  from conjunct1 [OF crc_residues [OF this, where poly = "0x07" and start = "0x51"], rule_format, OF c]
  show ?thesis by (simp add: numeral_eq_Suc)
qed

end
