(* ===== verification/Subghz_Blocks.thy ===== *)
theory Subghz_Blocks
  imports Subghz_Math
begin

text \<open>
  What the sub-GHz protocols share: level-duration pairs (firmware/lib/toolbox/level\_duration.h),
  the bit collector of the decoders and the bit arrays of the encoders
  (firmware/lib/subghz/blocks), the decoded message with the counter and button overrides of
  the signal editor (blocks/generic.c), the custom buttons (blocks/custom\_btn.c), and the common
  encoder and decoder operations (protocols/common.c). A decoder calls its callback with the
  instance; the calls are kept as the list of the messages they see. The parser step of a
  decoder is a type parameter: each protocol has its own enumeration.
\<close>

subsection \<open>Level and duration\<close>

record LevelDuration =
  ld_duration :: "30 word"
  ld_level :: "2 word"

definition LEVEL_DURATION_RESET :: "2 word" where "LEVEL_DURATION_RESET = 0"
definition LEVEL_DURATION_LEVEL_LOW :: "2 word" where "LEVEL_DURATION_LEVEL_LOW = 1"
definition LEVEL_DURATION_LEVEL_HIGH :: "2 word" where "LEVEL_DURATION_LEVEL_HIGH = 2"
definition LEVEL_DURATION_WAIT :: "2 word" where "LEVEL_DURATION_WAIT = 3"

definition level_duration_make :: "bool \<Rightarrow> u32 \<Rightarrow> LevelDuration" where
  "level_duration_make level duration =
     \<lparr>ld_duration = ucast duration,
      ld_level = (if level then LEVEL_DURATION_LEVEL_HIGH else LEVEL_DURATION_LEVEL_LOW)\<rparr>"

text \<open>The duration of a reset or wait marker is not set by the code; nothing reads it.\<close>

definition level_duration_reset :: LevelDuration where
  "level_duration_reset = \<lparr>ld_duration = 0, ld_level = LEVEL_DURATION_RESET\<rparr>"

definition level_duration_wait :: LevelDuration where
  "level_duration_wait = \<lparr>ld_duration = 0, ld_level = LEVEL_DURATION_WAIT\<rparr>"

definition level_duration_is_reset :: "LevelDuration \<Rightarrow> bool" where
  "level_duration_is_reset ld = (ld_level ld = LEVEL_DURATION_RESET)"

definition level_duration_is_wait :: "LevelDuration \<Rightarrow> bool" where
  "level_duration_is_wait ld = (ld_level ld = LEVEL_DURATION_WAIT)"

definition level_duration_get_level :: "LevelDuration \<Rightarrow> bool" where
  "level_duration_get_level ld = (ld_level ld = LEVEL_DURATION_LEVEL_HIGH)"

definition level_duration_get_duration :: "LevelDuration \<Rightarrow> u32" where
  "level_duration_get_duration ld = ucast (ld_duration ld)"

subsection \<open>The bit collector\<close>

record SubGhzBlockConst =
  te_long :: u16
  te_short :: u16
  te_delta :: u16
  min_count_bit_for_found :: u8

text \<open>The times of a protocol in computations: C promotes them to a wider type.\<close>

definition us :: "u16 \<Rightarrow> u32" where "us t = ucast t"

record 'st SubGhzBlockDecoder =
  parser_step :: 'st
  te_last :: u32
  decode_data :: u64
  decode_count_bit :: u8

definition subghz_protocol_blocks_add_bit :: "'st SubGhzBlockDecoder \<Rightarrow> u8 \<Rightarrow> 'st SubGhzBlockDecoder" where
  "subghz_protocol_blocks_add_bit d b =
     d\<lparr>decode_data := push_bit 1 (decode_data d) OR ucast b, decode_count_bit := decode_count_bit d + 1\<rparr>"

definition subghz_protocol_blocks_add_to_128_bit ::
    "'st SubGhzBlockDecoder \<Rightarrow> u8 \<Rightarrow> u64 \<Rightarrow> 'st SubGhzBlockDecoder \<times> u64" where
  "subghz_protocol_blocks_add_to_128_bit d b head_64_bit =
     (let d = d\<lparr>decode_count_bit := decode_count_bit d + 1\<rparr>;
          head_64_bit = (if 64 < decode_count_bit d
            then push_bit 1 head_64_bit OR drop_bit 63 (decode_data d) else head_64_bit)
      in (d\<lparr>decode_data := push_bit 1 (decode_data d) OR ucast b\<rparr>, head_64_bit))"

definition subghz_protocol_blocks_get_hash_data :: "'st SubGhzBlockDecoder \<Rightarrow> nat \<Rightarrow> u8 option" where
  "subghz_protocol_blocks_get_hash_data d len =
     (let p = map (\<lambda>i. ucast (drop_bit (8 * i) (decode_data d)) :: u8) [0..<8]
      in ofold (\<lambda>i h. do { b \<leftarrow> rd p i; Some ((h XOR b) * 31) }) [0..<len] 0)"

subsection \<open>Bit arrays and uploads\<close>

datatype SubGhzProtocolBlockAlignBit = SubGhzProtocolBlockAlignBitLeft | SubGhzProtocolBlockAlignBitRight

definition subghz_protocol_blocks_set_bit_array :: "bool \<Rightarrow> bytes \<Rightarrow> nat \<Rightarrow> nat \<Rightarrow> bytes option" where
  "subghz_protocol_blocks_set_bit_array bit_value data_array set_index_bit max_size_array = do {
     furi_check (set_index_bit < max_size_array * 8);
     b \<leftarrow> rd data_array (set_index_bit div 8);
     wr data_array (set_index_bit div 8) (bit_write b (7 - set_index_bit mod 8) bit_value)
   }"

definition subghz_protocol_blocks_get_bit_array :: "bytes \<Rightarrow> nat \<Rightarrow> bool option" where
  "subghz_protocol_blocks_get_bit_array data_array read_index_bit = do {
     b \<leftarrow> rd data_array (read_index_bit div 8);
     Some (bit_read b (7 - read_index_bit mod 8) \<noteq> 0)
   }"

text \<open>\<open>upload[index++] = ld\<close> on an upload buffer.\<close>

definition put :: "LevelDuration \<Rightarrow> nat \<times> LevelDuration list \<Rightarrow> (nat \<times> LevelDuration list) option" where
  "put ld = (\<lambda>(index, upload). do { upload \<leftarrow> wr upload index ld; Some (index + 1, upload) })"

record upload_run =
  ur_index_bit :: nat
  ur_last_bit :: bool
  ur_duration :: u32
  ur_size :: nat
  ur_upload :: "LevelDuration list"

definition upload_bit_array_step :: "bytes \<Rightarrow> nat \<Rightarrow> u32 \<Rightarrow> upload_run \<Rightarrow> upload_run option" where
  "upload_bit_array_step data_array max_size_upload duration_bit s = do {
     b \<leftarrow> subghz_protocol_blocks_get_bit_array data_array (ur_index_bit s);
     s \<leftarrow> (if ur_last_bit s = b then Some (s\<lparr>ur_duration := ur_duration s + duration_bit\<rparr>)
          else do {
            furi_check (ur_size s < max_size_upload);
            v \<leftarrow> subghz_protocol_blocks_get_bit_array data_array (ur_index_bit s - 1);
            (n, upload) \<leftarrow> put (level_duration_make v (ur_duration s)) (ur_size s, ur_upload s);
            Some (s\<lparr>ur_size := n, ur_upload := upload, ur_last_bit := \<not> ur_last_bit s, ur_duration := duration_bit\<rparr>)
          });
     Some (s\<lparr>ur_index_bit := ur_index_bit s + 1\<rparr>)
   }"

definition subghz_protocol_blocks_get_upload_from_bit_array ::
    "bytes \<Rightarrow> nat \<Rightarrow> LevelDuration list \<Rightarrow> nat \<Rightarrow> u32 \<Rightarrow> SubGhzProtocolBlockAlignBit \<Rightarrow>
     (nat \<times> LevelDuration list) option" where
  "subghz_protocol_blocks_get_upload_from_bit_array
     data_array count_bit_data_array upload max_size_upload duration_bit align_bit = do {
     let bias_bit = (if align_bit = SubGhzProtocolBlockAlignBitRight \<and> count_bit_data_array mod 8 \<noteq> 0
       then 8 - count_bit_data_array mod 8 else 0);
     last_bit \<leftarrow> subghz_protocol_blocks_get_bit_array data_array bias_bit;
     s \<leftarrow> ofold (\<lambda>_. upload_bit_array_step data_array max_size_upload duration_bit)
           [1 + bias_bit..<count_bit_data_array + bias_bit]
           \<lparr>ur_index_bit = bias_bit + 1, ur_last_bit = last_bit, ur_duration = duration_bit,
            ur_size = 0, ur_upload = upload\<rparr>;
     furi_check (ur_size s < max_size_upload);
     v \<leftarrow> subghz_protocol_blocks_get_bit_array data_array (ur_index_bit s - 1);
     put (level_duration_make v (ur_duration s)) (ur_size s, ur_upload s)
   }"

subsection \<open>The decoded message and the editor overrides\<close>

record SubGhzBlockGeneric =
  protocol_name :: string
  generic_data :: u64
  data_2 :: u64
  serial :: u32
  data_count_bit :: u16
  btn :: u8
  cnt :: u32
  cnt_2 :: u8
  seed :: u32

record SubGhzBlockGenericGlobal =
  current_cnt :: u32
  new_cnt :: u32
  cnt_need_override :: bool
  cnt_length_bit :: u8
  cnt_is_available :: bool
  current_btn :: u8
  new_btn :: u8
  btn_need_override :: bool
  btn_length_bit :: u8
  btn_is_available :: bool
  endless_tx :: bool

definition subghz_block_generic_global_counter_override_set ::
    "u32 \<Rightarrow> SubGhzBlockGenericGlobal \<Rightarrow> SubGhzBlockGenericGlobal" where
  "subghz_block_generic_global_counter_override_set counter g = g\<lparr>new_cnt := counter, cnt_need_override := True\<rparr>"

text \<open>Shifting a 32-bit value by 32 or more is undefined in C, so a length of zero bits (or more
  than 32) is an error here.\<close>

definition subghz_block_generic_global_counter_override_get ::
    "u32 \<Rightarrow> SubGhzBlockGenericGlobal \<Rightarrow> (bool \<times> u32 \<times> SubGhzBlockGenericGlobal) option" where
  "subghz_block_generic_global_counter_override_get counter g =
     (if cnt_need_override g then
        if 0 < cnt_length_bit g \<and> cnt_length_bit g \<le> 32 then
          Some (True, new_cnt g AND drop_bit (32 - unat (cnt_length_bit g)) 0xFFFFFFFF,
            g\<lparr>cnt_need_override := False\<rparr>)
        else None
      else Some (False, counter, g))"

definition subghz_block_generic_global_button_override_set ::
    "u8 \<Rightarrow> SubGhzBlockGenericGlobal \<Rightarrow> SubGhzBlockGenericGlobal" where
  "subghz_block_generic_global_button_override_set button g = g\<lparr>new_btn := button, btn_need_override := True\<rparr>"

text \<open>Here the shifted value is an \<open>int\<close>: a length of zero gives the mask zero, and only a
  length above eight is a negative shift.\<close>

definition subghz_block_generic_global_button_override_get ::
    "u8 \<Rightarrow> SubGhzBlockGenericGlobal \<Rightarrow> (bool \<times> u8 \<times> SubGhzBlockGenericGlobal) option" where
  "subghz_block_generic_global_button_override_get button g =
     (if btn_need_override g then
        if btn_length_bit g \<le> 8 then
          Some (True, new_btn g AND drop_bit (8 - unat (btn_length_bit g)) 0xFF, g\<lparr>btn_need_override := False\<rparr>)
        else None
      else Some (False, button, g))"

definition subghz_block_generic_global_reset :: "SubGhzBlockGenericGlobal \<Rightarrow> SubGhzBlockGenericGlobal" where
  "subghz_block_generic_global_reset g =
     \<lparr>current_cnt = 0, new_cnt = 0, cnt_need_override = False, cnt_length_bit = 0, cnt_is_available = False,
      current_btn = 0, new_btn = 0, btn_need_override = False, btn_length_bit = 0, btn_is_available = False,
      endless_tx = endless_tx g\<rparr>"

definition subghz_block_generic_get_preset_name :: "string \<Rightarrow> string" where
  "subghz_block_generic_get_preset_name preset_name =
     (if preset_name = ''AM270'' then ''FuriHalSubGhzPresetOok270Async''
      else if preset_name = ''AM650'' then ''FuriHalSubGhzPresetOok650Async''
      else if preset_name = ''FM238'' then ''FuriHalSubGhzPreset2FSKDev238Async''
      else if preset_name = ''FM12K'' then ''FuriHalSubGhzPreset2FSKDev12KAsync''
      else if preset_name = ''FM476'' then ''FuriHalSubGhzPreset2FSKDev476Async''
      else ''FuriHalSubGhzPresetCustom'')"

subsection \<open>Custom buttons\<close>

record custom_btn =
  custom_btn_id :: u8
  custom_btn_original :: u8
  custom_btn_max_btns :: u8
  controller_programming_mode :: u8

definition SUBGHZ_CUSTOM_BTN_OK :: u8 where "SUBGHZ_CUSTOM_BTN_OK = 0"
definition SUBGHZ_CUSTOM_BTN_UP :: u8 where "SUBGHZ_CUSTOM_BTN_UP = 1"
definition SUBGHZ_CUSTOM_BTN_DOWN :: u8 where "SUBGHZ_CUSTOM_BTN_DOWN = 2"
definition SUBGHZ_CUSTOM_BTN_LEFT :: u8 where "SUBGHZ_CUSTOM_BTN_LEFT = 3"
definition SUBGHZ_CUSTOM_BTN_RIGHT :: u8 where "SUBGHZ_CUSTOM_BTN_RIGHT = 4"
definition PROG_MODE_OFF :: u8 where "PROG_MODE_OFF = 0"

definition subghz_custom_btn_set :: "u8 \<Rightarrow> custom_btn \<Rightarrow> bool \<times> custom_btn" where
  "subghz_custom_btn_set btn_id c =
     (if custom_btn_max_btns c < btn_id then (False, c\<lparr>custom_btn_id := SUBGHZ_CUSTOM_BTN_OK\<rparr>)
      else (True, c\<lparr>custom_btn_id := btn_id\<rparr>))"

definition subghz_custom_btn_get :: "custom_btn \<Rightarrow> u8" where
  "subghz_custom_btn_get c = custom_btn_id c"

definition subghz_custom_btn_set_original :: "u8 \<Rightarrow> custom_btn \<Rightarrow> custom_btn" where
  "subghz_custom_btn_set_original btn_code c = c\<lparr>custom_btn_original := btn_code\<rparr>"

definition subghz_custom_btn_get_original :: "custom_btn \<Rightarrow> u8" where
  "subghz_custom_btn_get_original c = custom_btn_original c"

definition subghz_custom_btn_set_max :: "u8 \<Rightarrow> custom_btn \<Rightarrow> custom_btn" where
  "subghz_custom_btn_set_max b c = c\<lparr>custom_btn_max_btns := b\<rparr>"

definition subghz_custom_btns_reset :: "custom_btn \<Rightarrow> custom_btn" where
  "subghz_custom_btns_reset c =
     c\<lparr>custom_btn_original := 0, custom_btn_max_btns := 0, controller_programming_mode := PROG_MODE_OFF,
       custom_btn_id := SUBGHZ_CUSTOM_BTN_OK\<rparr>"

definition subghz_custom_btn_is_allowed :: "custom_btn \<Rightarrow> bool" where
  "subghz_custom_btn_is_allowed c = (custom_btn_max_btns c \<noteq> 0)"

definition subghz_custom_btn_set_prog_mode :: "u8 \<Rightarrow> custom_btn \<Rightarrow> custom_btn" where
  "subghz_custom_btn_set_prog_mode prog_mode c = c\<lparr>controller_programming_mode := prog_mode\<rparr>"

definition subghz_custom_btn_get_prog_mode :: "custom_btn \<Rightarrow> u8" where
  "subghz_custom_btn_get_prog_mode c = controller_programming_mode c"

end
