(* ===== verification/Toolbox_Manchester.thy ===== *)
theory Toolbox_Manchester
  imports Subghz_Blocks
begin

text \<open>
  Manchester coding (firmware/lib/toolbox/manchester\_decoder.c and manchester\_encoder.c). The locale
  \<open>manchester_receiver\<close> is the contract of a decoder that classifies pulses and hands their bits on: what it hears of a
  line are the bits that were sent, for all durations inside its windows.
\<close>

subsection \<open>The decoder\<close>

datatype ManchesterEvent = ManchesterEventShortLow | ManchesterEventShortHigh | ManchesterEventLongLow |
  ManchesterEventLongHigh | ManchesterEventReset

datatype ManchesterState = ManchesterStateStart1 | ManchesterStateMid1 | ManchesterStateMid0 | ManchesterStateStart0

text \<open>The values of the enumerations.\<close>

definition event_value :: "ManchesterEvent \<Rightarrow> nat" where
  "event_value event = (case event of ManchesterEventShortLow \<Rightarrow> 0 | ManchesterEventShortHigh \<Rightarrow> 2 |
     ManchesterEventLongLow \<Rightarrow> 4 | ManchesterEventLongHigh \<Rightarrow> 6 | ManchesterEventReset \<Rightarrow> 8)"

definition state_value :: "ManchesterState \<Rightarrow> nat" where
  "state_value state = (case state of ManchesterStateStart1 \<Rightarrow> 0 | ManchesterStateMid1 \<Rightarrow> 1 |
     ManchesterStateMid0 \<Rightarrow> 2 | ManchesterStateStart0 \<Rightarrow> 3)"

definition state_of_value :: "u8 \<Rightarrow> ManchesterState" where
  "state_of_value v = (if v = 0 then ManchesterStateStart1 else if v = 1 then ManchesterStateMid1
     else if v = 2 then ManchesterStateMid0 else ManchesterStateStart0)"

definition manchester_transitions :: "u8 list" where
  "manchester_transitions = [0x01, 0x91, 0x9B, 0xFB]"

text \<open>The next state and the decoded bit, if there is one.\<close>

definition manchester_advance :: "ManchesterState \<Rightarrow> ManchesterEvent \<Rightarrow> ManchesterState \<times> bool option" where
  "manchester_advance state event =
     (if event = ManchesterEventReset then (ManchesterStateMid1, None)
      else
        let new_state = state_of_value (drop_bit (event_value event) (manchester_transitions ! state_value state) AND 3) in
        if new_state = state then (ManchesterStateMid1, None)
        else if new_state = ManchesterStateMid0 then (new_state, Some False)
        else if new_state = ManchesterStateMid1 then (new_state, Some True)
        else (new_state, None))"

lemma manchester_advance_simps [simp]:
  "manchester_advance s ManchesterEventReset = (ManchesterStateMid1, None)"
  "manchester_advance ManchesterStateMid1 ManchesterEventShortLow = (ManchesterStateMid1, None)"
  "manchester_advance ManchesterStateMid1 ManchesterEventShortHigh = (ManchesterStateStart1, None)"
  "manchester_advance ManchesterStateMid1 ManchesterEventLongHigh = (ManchesterStateMid0, Some False)"
  "manchester_advance ManchesterStateMid0 ManchesterEventShortLow = (ManchesterStateStart0, None)"
  "manchester_advance ManchesterStateMid0 ManchesterEventLongLow = (ManchesterStateMid1, Some True)"
  "manchester_advance ManchesterStateStart1 ManchesterEventShortLow = (ManchesterStateMid1, Some True)"
  "manchester_advance ManchesterStateStart0 ManchesterEventShortHigh = (ManchesterStateMid0, Some False)"
  by (simp add: manchester_advance_def) code_simp+

subsection \<open>The encoder\<close>

record ManchesterEncoderState =
  prev_bit :: bool
  me_step :: u8

datatype ManchesterEncoderResult = ManchesterEncoderResultShortLow | ManchesterEncoderResultLongLow |
  ManchesterEncoderResultLongHigh | ManchesterEncoderResultShortHigh

text \<open>The result with the value \<open>(prev_bit << 1) + curr_bit\<close>.\<close>

definition encoder_result :: "bool \<Rightarrow> bool \<Rightarrow> ManchesterEncoderResult" where
  "encoder_result prev cur =
     (if prev then if cur then ManchesterEncoderResultShortHigh else ManchesterEncoderResultLongHigh
      else if cur then ManchesterEncoderResultLongLow else ManchesterEncoderResultShortLow)"

definition manchester_encoder_reset :: "ManchesterEncoderState \<Rightarrow> ManchesterEncoderState" where
  "manchester_encoder_reset state = state\<lparr>me_step := 0\<rparr>"

definition manchester_encoder_advance ::
    "ManchesterEncoderState \<Rightarrow> bool \<Rightarrow> (bool \<times> ManchesterEncoderState \<times> ManchesterEncoderResult) option" where
  "manchester_encoder_advance state curr_bit =
     (if me_step state = 0 then
        Some (True, state\<lparr>prev_bit := curr_bit, me_step := 1\<rparr>,
          if curr_bit then ManchesterEncoderResultShortLow else ManchesterEncoderResultShortHigh)
      else if me_step state = 1 then
        (if curr_bit = prev_bit state then Some (False, state\<lparr>me_step := 2\<rparr>, encoder_result (prev_bit state) curr_bit)
         else Some (True, state\<lparr>prev_bit := curr_bit\<rparr>, encoder_result (prev_bit state) curr_bit))
      else if me_step state = 2 then
        Some (True, state\<lparr>prev_bit := curr_bit, me_step := 1\<rparr>,
          if curr_bit then ManchesterEncoderResultShortLow else ManchesterEncoderResultShortHigh)
      else None)"

definition manchester_encoder_finish :: "ManchesterEncoderState \<Rightarrow> ManchesterEncoderState \<times> ManchesterEncoderResult" where
  "manchester_encoder_finish state = (state\<lparr>me_step := 0\<rparr>, encoder_result (prev_bit state) (prev_bit state))"

text \<open>A protocol asks for the result of a bit until the encoder advances.\<close>

definition encode_bit :: "bool \<Rightarrow> ManchesterEncoderState \<times> ManchesterEncoderResult list \<Rightarrow>
    (ManchesterEncoderState \<times> ManchesterEncoderResult list) option" where
  "encode_bit b = (\<lambda>(state, results). do {
     (advance, state, result) \<leftarrow> manchester_encoder_advance state b;
     if advance then Some (state, results @ [result])
     else do {
       (_, state, result2) \<leftarrow> manchester_encoder_advance state b;
       Some (state, results @ [result, result2])
     }
   })"

definition event_of :: "ManchesterEncoderResult \<Rightarrow> ManchesterEvent" where
  "event_of r = (case r of ManchesterEncoderResultShortLow \<Rightarrow> ManchesterEventShortLow
     | ManchesterEncoderResultLongLow \<Rightarrow> ManchesterEventLongLow
     | ManchesterEncoderResultLongHigh \<Rightarrow> ManchesterEventLongHigh
     | ManchesterEncoderResultShortHigh \<Rightarrow> ManchesterEventShortHigh)"

fun decode_events :: "ManchesterEvent list \<Rightarrow> ManchesterState \<Rightarrow> ManchesterState \<times> bool list" where
  "decode_events [] s = (s, [])"
| "decode_events (e # es) s =
     (let (s, b) = manchester_advance s e; (s, bs) = decode_events es s
      in (s, (case b of None \<Rightarrow> bs | Some b \<Rightarrow> b # bs)))"

lemma decode_events_append:
  "decode_events (xs @ ys) s = (let (t, bs) = decode_events xs s; (u, cs) = decode_events ys t in (u, bs @ cs))"
  by (induction xs arbitrary: s) (auto simp: Let_def split: prod.splits option.splits)

text \<open>The state of the decoder after a bit.\<close>

definition mid_state :: "bool \<Rightarrow> ManchesterState" where
  "mid_state b = (if b then ManchesterStateMid1 else ManchesterStateMid0)"

text \<open>After the first bit a decoder that is in step with the encoder decodes what is encoded.\<close>

lemma encoded_bits_decoded:
  assumes "me_step state = 1" "decode_events (map event_of results) s = (mid_state (prev_bit state), bs)"
  shows "\<exists>state' results'. ofold encode_bit cs (state, results) = Some (state', results') \<and>
    decode_events (map event_of results') s = (mid_state (prev_bit state'), bs @ cs) \<and> me_step state' = 1"
  using assms
proof (induction cs arbitrary: state results bs)
  case Nil
  then show ?case by simp
next
  case (Cons c cs)
  obtain state1 results1 where one: "encode_bit c (state, results) = Some (state1, results1)" "me_step state1 = 1"
    "decode_events (map event_of results1) s = (mid_state (prev_bit state1), bs @ [c])"
    using Cons.prems
    by (cases c; cases "prev_bit state")
      (auto simp: encode_bit_def manchester_encoder_advance_def encoder_result_def event_of_def decode_events_append mid_state_def)
  show ?case using Cons.IH [OF one(2,3)] one(1) by simp
qed

subsection \<open>Pulses\<close>

text \<open>The levels of the halves of the bits that a protocol sends, and the runs of one level: their level and length.\<close>

definition half_bits :: "bool list \<Rightarrow> bool list" where
  "half_bits bs = concat (map (\<lambda>b. [b, \<not> b]) bs)"

fun level_runs :: "bool list \<Rightarrow> (bool \<times> nat) list" where
  "level_runs [] = []"
| "level_runs (l # ls) = (case level_runs ls of
     (m, n) # rs \<Rightarrow> if m = l then (l, Suc n) # rs else (l, 1) # (m, n) # rs
   | [] \<Rightarrow> [(l, 1)])"

lemma half_bits_simps [simp]: "half_bits [] = []" "half_bits (b # bs) = b # (\<not> b) # half_bits bs"
  by (simp_all add: half_bits_def)

lemma level_runs_change: "level_runs (l # (\<not> l) # ls) = (l, 1) # level_runs ((\<not> l) # ls)"
  by (auto split: list.split prod.split if_splits)

lemma level_runs_two: "level_runs (l # l # (\<not> l) # ls) = (l, 2) # level_runs ((\<not> l) # ls)"
  by (auto split: list.split prod.split if_splits simp: numeral_2_eq_2 One_nat_def)

text \<open>What a reader measures of a line: the level of every run with a duration for its length.\<close>

definition measured :: "(u32 \<Rightarrow> bool) \<Rightarrow> (u32 \<Rightarrow> bool) \<Rightarrow> bool list \<Rightarrow> (bool \<times> u32) list \<Rightarrow> bool" where
  "measured short long levels pulses =
     list_all2 (\<lambda>(l, n) (m, d). l = m \<and> (n = 1 \<and> short d \<or> n = 2 \<and> long d)) (level_runs levels) pulses"

text \<open>A decoder hears pulses; the cards that it reports are collected.\<close>

fun hear_pulses :: "('p \<Rightarrow> bool \<Rightarrow> u32 \<Rightarrow> ('p \<times> bool) option) \<Rightarrow> (bool \<times> u32) list \<Rightarrow> 'p \<Rightarrow> ('p \<times> 'p list) option" where
  "hear_pulses feed [] p = Some (p, [])"
| "hear_pulses feed ((l, d) # ps) p = do {
     (p, r) \<leftarrow> feed p l d;
     (q, rs) \<leftarrow> hear_pulses feed ps p;
     Some (q, if r then p # rs else rs)
   }"

fun hear_bits :: "('p \<Rightarrow> bool \<Rightarrow> ('p \<times> bool) option) \<Rightarrow> bool list \<Rightarrow> 'p \<Rightarrow> ('p \<times> 'p list) option" where
  "hear_bits on_bit [] p = Some (p, [])"
| "hear_bits on_bit (b # bs) p = do {
     (p, r) \<leftarrow> on_bit p b;
     (q, rs) \<leftarrow> hear_bits on_bit bs p;
     Some (q, if r then p # rs else rs)
   }"

locale manchester_receiver =
  fixes feed :: "'p \<Rightarrow> bool \<Rightarrow> u32 \<Rightarrow> ('p \<times> bool) option"
    and state :: "'p \<Rightarrow> ManchesterState" and rest :: "'p \<Rightarrow> 'r"
    and on_bit :: "'r \<Rightarrow> bool \<Rightarrow> ('r \<times> bool) option"
    and short long :: "'r \<Rightarrow> u32 \<Rightarrow> bool"
  assumes feed_silent: "short (rest p) d \<and> e = (if l then ManchesterEventShortLow else ManchesterEventShortHigh) \<or>
       long (rest p) d \<and> e = (if l then ManchesterEventLongLow else ManchesterEventLongHigh) \<Longrightarrow>
     manchester_advance (state p) e = (s, None) \<Longrightarrow> \<exists>q. feed p l d = Some (q, False) \<and> state q = s \<and> rest q = rest p"
    and feed_bit: "short (rest p) d \<and> e = (if l then ManchesterEventShortLow else ManchesterEventShortHigh) \<or>
       long (rest p) d \<and> e = (if l then ManchesterEventLongLow else ManchesterEventLongHigh) \<Longrightarrow>
     manchester_advance (state p) e = (s, Some b) \<Longrightarrow> on_bit (rest p) b = Some (r, v) \<Longrightarrow>
     \<exists>q. feed p l d = Some (q, v) \<and> state q = s \<and> rest q = r"
    and windows: "on_bit r b = Some (r', v) \<Longrightarrow> short r' = short r \<and> long r' = long r"
begin

lemma hear_second_half:
  assumes "state p = mid_state b" "short (rest p) d"
  shows "\<exists>q. feed p (\<not> b) d = Some (q, False) \<and> rest q = rest p \<and>
    state q = (if b then ManchesterStateStart1 else ManchesterStateStart0)"
  using assms feed_silent [of p d ManchesterEventShortHigh False ManchesterStateStart1]
    feed_silent [of p d ManchesterEventShortLow True ManchesterStateStart0] by (cases b) (auto simp: mid_state_def)

lemma hear_first_half:
  assumes "state p = (if b then ManchesterStateStart1 else ManchesterStateStart0)" "short (rest p) d"
    "on_bit (rest p) b = Some (r, v)"
  shows "\<exists>q. feed p b d = Some (q, v) \<and> rest q = r \<and> state q = mid_state b"
  using assms feed_bit [of p d ManchesterEventShortLow True ManchesterStateMid1 True r v]
    feed_bit [of p d ManchesterEventShortHigh False ManchesterStateMid0 False r v] by (cases b) (auto simp: mid_state_def)

lemma hear_both_halves:
  assumes "state p = mid_state (\<not> b)" "long (rest p) d" "on_bit (rest p) b = Some (r, v)"
  shows "\<exists>q. feed p b d = Some (q, v) \<and> rest q = r \<and> state q = mid_state b"
  using assms feed_bit [of p d ManchesterEventLongLow True ManchesterStateMid1 True r v]
    feed_bit [of p d ManchesterEventLongHigh False ManchesterStateMid0 False r v] by (cases b) (auto simp: mid_state_def)

text \<open>From the middle of a bit on, the pulses bring the bits that follow.\<close>

lemma hear_stream:
  assumes "state p = mid_state b" "measured (short (rest p)) (long (rest p)) ((\<not> b) # half_bits bs) pulses"
    "hear_bits on_bit bs (rest p) = Some (r, rs)"
  shows "\<exists>q ps. hear_pulses feed pulses p = Some (q, ps) \<and> map rest ps = rs \<and> rest q = r"
  using assms
proof (induction bs arbitrary: p b pulses rs)
  case Nil
  obtain d where d: "pulses = [(\<not> b, d)]" "short (rest p) d"
    using Nil(2) by (auto simp: measured_def list_all2_Cons1)
  obtain q where "feed p (\<not> b) d = Some (q, False)" "rest q = rest p"
    using hear_second_half [OF Nil(1) d(2)] by blast
  then show ?case using d(1) Nil(3) by simp
next
  case (Cons c bs)
  obtain r1 v rs1 where bit: "on_bit (rest p) c = Some (r1, v)" "hear_bits on_bit bs r1 = Some (r, rs1)"
    "rs = (if v then r1 # rs1 else rs1)"
    using Cons.prems(3) by (auto simp: bind_eq_Some_conv)
  note win = windows [OF bit(1)]
  show ?case
  proof (cases "c = b")
    case True
    have "level_runs ((\<not> b) # half_bits (c # bs)) = (\<not> b, 1) # (b, 1) # level_runs ((\<not> b) # half_bits bs)"
      using level_runs_change [of "\<not> b" "(\<not> b) # half_bits bs"] level_runs_change [of b "half_bits bs"] True by simp
    then obtain d1 d2 ps where d: "pulses = (\<not> b, d1) # (b, d2) # ps" "short (rest p) d1" "short (rest p) d2"
      "measured (short (rest p)) (long (rest p)) ((\<not> b) # half_bits bs) ps"
      using Cons.prems(2) by (auto simp: measured_def list_all2_Cons1)
    obtain q1 where q1: "feed p (\<not> b) d1 = Some (q1, False)" "rest q1 = rest p"
      "state q1 = (if b then ManchesterStateStart1 else ManchesterStateStart0)"
      using hear_second_half [OF Cons.prems(1) d(2)] by blast
    obtain q2 where q2: "feed q1 b d2 = Some (q2, v)" "rest q2 = r1" "state q2 = mid_state b"
      using hear_first_half [OF q1(3), of d2 r1 v] q1(2) d(3) bit(1) True by auto
    obtain q ps' where "hear_pulses feed ps q2 = Some (q, ps')" "map rest ps' = rs1" "rest q = r"
      using Cons.IH [OF q2(3), of ps rs1] d(4) win q2(2) bit(2) by auto
    then show ?thesis using d(1) q1(1) q2(1,2) bit(3) by (cases v) simp_all
  next
    case False
    then have c: "c = (\<not> b)" by simp
    have "level_runs ((\<not> b) # half_bits (c # bs)) = (c, 2) # level_runs ((\<not> c) # half_bits bs)"
      using level_runs_two [of c "half_bits bs"] c by simp
    then obtain d ps where d: "pulses = (c, d) # ps" "long (rest p) d"
      "measured (short (rest p)) (long (rest p)) ((\<not> c) # half_bits bs) ps"
      using Cons.prems(2) by (auto simp: measured_def list_all2_Cons1)
    obtain q2 where q2: "feed p c d = Some (q2, v)" "rest q2 = r1" "state q2 = mid_state c"
      using hear_both_halves [of p c d r1 v] Cons.prems(1) d(2) bit(1) c by auto
    obtain q ps' where "hear_pulses feed ps q2 = Some (q, ps')" "map rest ps' = rs1" "rest q = r"
      using Cons.IH [OF q2(3), of ps rs1] d(3) win q2(2) bit(2) by auto
    then show ?thesis using d(1) q2(1,2) bit(3) by (cases v) simp_all
  qed
qed

text \<open>A fresh decoder misses the first bit of a line when it is set, and hears all others.\<close>

lemma hear_line:
  assumes "state p = ManchesterStateMid1" "measured (short (rest p)) (long (rest p)) (half_bits (True # bs)) pulses"
    "hear_bits on_bit bs (rest p) = Some (r, rs)"
  shows "\<exists>q ps. hear_pulses feed pulses p = Some (q, ps) \<and> map rest ps = rs \<and> rest q = r"
proof -
  have "level_runs (half_bits (True # bs)) = (True, 1) # level_runs (False # half_bits bs)"
    using level_runs_change [of True "half_bits bs"] by simp
  then obtain d ps where d: "pulses = (True, d) # ps" "short (rest p) d"
    "measured (short (rest p)) (long (rest p)) (False # half_bits bs) ps"
    using assms(2) by (auto simp: measured_def list_all2_Cons1)
  obtain q where q: "feed p True d = Some (q, False)" "state q = mid_state True" "rest q = rest p"
    using feed_silent [of p d ManchesterEventShortLow True ManchesterStateMid1] assms(1) d(2) by (auto simp: mid_state_def)
  obtain q' ps' where "hear_pulses feed ps q = Some (q', ps')" "map rest ps' = rs" "rest q' = r"
    using hear_stream [OF q(2), of bs ps r rs] d(3) q(3) assms(3) by auto
  then show ?thesis using d(1) q(1) by simp
qed

end

end
