(* ===== verification/Lfrfid_Em4100.thy ===== *)
theory Lfrfid_Em4100
  imports Toolbox_Manchester Bit_Lib
begin

text \<open>
  The LF RFID protocol EM4100 (firmware/lib/lfrfid/protocols/protocol\_em4100.c): the frame of a card number with its row and
  column parities, the decoder over Manchester coded pulses, the encoder that plays the frame, and the requests that
  write it to programmable cards. The pointers to the frame that the code casts to bytes and back are the frame itself.
\<close>

record ProtocolEM4100 =
  em_data :: bytes
  encoded_data :: u64
  encoded_epilogue :: u64
  encoded_data_index :: u8
  encoded_polarity :: bool
  decoder_manchester_state :: ManchesterState
  clock_per_bit :: u8

definition protocol_em4100_get_time_divisor :: "ProtocolEM4100 \<Rightarrow> u16" where
  "protocol_em4100_get_time_divisor proto =
     (if clock_per_bit proto = 64 then 1 else if clock_per_bit proto = 32 then 2 else if clock_per_bit proto = 16 then 4 else 1)"

definition protocol_em4100_get_t5577_bitrate :: "ProtocolEM4100 \<Rightarrow> u32" where
  "protocol_em4100_get_t5577_bitrate proto =
     (if clock_per_bit proto = 64 then 0x00140000 else if clock_per_bit proto = 32 then 0x00080000
      else if clock_per_bit proto = 16 then 0x00040000 else 0x00140000)"

definition EM4x05_SET_BITRATE :: "u32 \<Rightarrow> u32" where
  "EM4x05_SET_BITRATE x = (x - 2) div 2"

definition protocol_em4100_get_em4305_bitrate :: "ProtocolEM4100 \<Rightarrow> u32" where
  "protocol_em4100_get_em4305_bitrate proto =
     (if clock_per_bit proto = 64 then EM4x05_SET_BITRATE 64 else if clock_per_bit proto = 32 then EM4x05_SET_BITRATE 32
      else if clock_per_bit proto = 16 then EM4x05_SET_BITRATE 16 else EM4x05_SET_BITRATE 64)"

definition protocol_em4100_get_short_time_low :: "ProtocolEM4100 \<Rightarrow> u16" where
  "protocol_em4100_get_short_time_low proto =
     256 div protocol_em4100_get_time_divisor proto - 100 div protocol_em4100_get_time_divisor proto"

definition protocol_em4100_get_short_time_high :: "ProtocolEM4100 \<Rightarrow> u16" where
  "protocol_em4100_get_short_time_high proto =
     256 div protocol_em4100_get_time_divisor proto + 100 div protocol_em4100_get_time_divisor proto"

definition protocol_em4100_get_long_time_low :: "ProtocolEM4100 \<Rightarrow> u16" where
  "protocol_em4100_get_long_time_low proto =
     512 div protocol_em4100_get_time_divisor proto - 100 div protocol_em4100_get_time_divisor proto"

definition protocol_em4100_get_long_time_high :: "ProtocolEM4100 \<Rightarrow> u16" where
  "protocol_em4100_get_long_time_high proto =
     512 div protocol_em4100_get_time_divisor proto + 100 div protocol_em4100_get_time_divisor proto"

text \<open>The memory that the allocator returns is an argument.\<close>

definition protocol_em4100_alloc :: "ProtocolEM4100 \<Rightarrow> ProtocolEM4100" where
  "protocol_em4100_alloc memory = memory\<lparr>clock_per_bit := 64\<rparr>"

definition protocol_em4100_16_alloc :: "ProtocolEM4100 \<Rightarrow> ProtocolEM4100" where
  "protocol_em4100_16_alloc memory = memory\<lparr>clock_per_bit := 16\<rparr>"

definition protocol_em4100_32_alloc :: "ProtocolEM4100 \<Rightarrow> ProtocolEM4100" where
  "protocol_em4100_32_alloc memory = memory\<lparr>clock_per_bit := 32\<rparr>"

definition protocol_em4100_get_data :: "ProtocolEM4100 \<Rightarrow> bytes" where
  "protocol_em4100_get_data proto = em_data proto"

subsection \<open>Decoding\<close>

text \<open>One row: its four bits, and the parity bit that is passed over.\<close>

definition decode_row :: "u64 \<Rightarrow> u64 \<times> u8" where
  "decode_row card_data =
     fold (\<lambda>i (card_data, nibble). (push_bit 1 card_data,
         if i < 4 then push_bit 1 nibble OR (if card_data AND push_bit 63 1 \<noteq> 0 then 1 else 0) else nibble))
       [0..<5 :: nat] (card_data, 0)"

definition em4100_decode :: "u64 \<Rightarrow> bytes \<Rightarrow> bytes option" where
  "em4100_decode card_data decoded_data = do {
     furi_check (5 \<le> length decoded_data);
     let decoded_data = replicate (length decoded_data) 0;
     let card_data = fold (\<lambda>i. push_bit 1) [0..<9 :: nat] card_data;
     (_, _, _, decoded_data) \<leftarrow> ofold (\<lambda>r (card_data, value, decoded_data_index, decoded_data). do {
         let (card_data, nibble) = decode_row card_data;
         let value = push_bit 4 value OR nibble;
         if r mod 2 \<noteq> 0 then do {
           x \<leftarrow> rd decoded_data decoded_data_index;
           decoded_data \<leftarrow> wr decoded_data decoded_data_index (x OR value);
           Some (card_data, 0, decoded_data_index + 1, decoded_data)
         } else Some (card_data, value, decoded_data_index, decoded_data)
       }) [0..<10 :: nat] (card_data, 0 :: u8, 0 :: nat, decoded_data);
     Some decoded_data
   }"

text \<open>The sums of the parity checks.\<close>

definition row_sum :: "u64 \<Rightarrow> nat \<Rightarrow> u8" where
  "row_sum card_data i = fold (\<lambda>j parity_sum. parity_sum + ucast (drop_bit (50 - i * 5 + j) card_data AND 1)) [0..<5] 0"

definition column_sum :: "u64 \<Rightarrow> nat \<Rightarrow> u8" where
  "column_sum card_data i = fold (\<lambda>j parity_sum. parity_sum + ucast (drop_bit (4 - i + j * 5) card_data AND 1)) [0..<11] 0"

definition em4100_can_be_decoded :: "u64 \<Rightarrow> u64 \<Rightarrow> bool" where
  "em4100_can_be_decoded card_data epilogue =
     (if epilogue AND 0x1FF \<noteq> 0x1FF then False
      else if card_data AND (push_bit 55 0x1FF OR 1) \<noteq> push_bit 55 0x1FF then False
      else if list_ex (\<lambda>i. row_sum card_data i mod 2 \<noteq> 0) [0..<10] then False
      else if list_ex (\<lambda>i. column_sum card_data i mod 2 \<noteq> 0) [0..<4] then False
      else True)"

definition protocol_em4100_decoder_start :: "ProtocolEM4100 \<Rightarrow> ProtocolEM4100" where
  "protocol_em4100_decoder_start proto = proto\<lparr>em_data := replicate 5 0, encoded_data := 0, encoded_epilogue := 0,
     decoder_manchester_state := fst (manchester_advance (decoder_manchester_state proto) ManchesterEventReset)\<rparr>"

definition em4100_short :: "ProtocolEM4100 \<Rightarrow> u32 \<Rightarrow> bool" where
  "em4100_short proto duration \<longleftrightarrow> ucast (protocol_em4100_get_short_time_low proto) < duration \<and>
     duration < ucast (protocol_em4100_get_short_time_high proto)"

definition em4100_long :: "ProtocolEM4100 \<Rightarrow> u32 \<Rightarrow> bool" where
  "em4100_long proto duration \<longleftrightarrow> ucast (protocol_em4100_get_long_time_low proto) < duration \<and>
     duration < ucast (protocol_em4100_get_long_time_high proto)"

text \<open>What a decoded bit does: the frame lags the newest bit by the nine bits of the epilogue.\<close>

definition em4100_on_bit :: "ProtocolEM4100 \<Rightarrow> bool \<Rightarrow> (ProtocolEM4100 \<times> bool) option" where
  "em4100_on_bit proto data = do {
     let carry = drop_bit 8 (encoded_epilogue proto) AND 1;
     let proto = proto\<lparr>encoded_data := push_bit 1 (encoded_data proto) OR carry,
       encoded_epilogue := (push_bit 1 (encoded_epilogue proto) OR of_bool data) AND 0x1FF\<rparr>;
     if em4100_can_be_decoded (encoded_data proto) (encoded_epilogue proto) then do {
       data \<leftarrow> em4100_decode (encoded_data proto) (em_data proto);
       Some (proto\<lparr>em_data := data\<rparr>, True)
     } else Some (proto, False)
   }"

definition protocol_em4100_decoder_feed :: "ProtocolEM4100 \<Rightarrow> bool \<Rightarrow> u32 \<Rightarrow> (ProtocolEM4100 \<times> bool) option" where
  "protocol_em4100_decoder_feed proto level duration =
     (let event =
        (if em4100_short proto duration then (if \<not> level then ManchesterEventShortHigh else ManchesterEventShortLow)
         else if em4100_long proto duration then (if \<not> level then ManchesterEventLongHigh else ManchesterEventLongLow)
         else ManchesterEventReset)
      in if event = ManchesterEventReset then Some (proto, False)
      else case manchester_advance (decoder_manchester_state proto) event of
          (state, None) \<Rightarrow> Some (proto\<lparr>decoder_manchester_state := state\<rparr>, False)
        | (state, Some data) \<Rightarrow> em4100_on_bit (proto\<lparr>decoder_manchester_state := state\<rparr>) data)"

subsection \<open>Encoding\<close>

definition em4100_write_nibble :: "bool \<Rightarrow> u8 \<Rightarrow> u64 \<Rightarrow> u64" where
  "em4100_write_nibble low_nibble data frame =
     (let start = (if \<not> low_nibble then 4 else 0 :: nat);
          (parity_sum, frame) = fold (\<lambda>i (parity_sum, frame).
              (parity_sum + (drop_bit i data AND 1), push_bit 1 frame OR ucast (drop_bit i data AND 1)))
            (rev [start..<start + 4]) (0 :: u8, frame)
      in push_bit 1 frame OR ucast (parity_sum mod 2 AND 1))"

definition parity_column :: "u64 \<Rightarrow> u64" where
  "parity_column frame =
     (let parity_sum = fold (\<lambda>i parity_sum. parity_sum + ucast (drop_bit (i * 5 - 1) frame AND 1)) [1..<11] (0 :: u8)
      in push_bit 1 frame OR ucast (parity_sum mod 2 AND 1))"

definition protocol_em4100_encoder_start :: "ProtocolEM4100 \<Rightarrow> ProtocolEM4100 option" where
  "protocol_em4100_encoder_start proto = do {
     frame \<leftarrow> ofold (\<lambda>i frame. do {
         x \<leftarrow> rd (em_data proto) i;
         Some (em4100_write_nibble True x (em4100_write_nibble False x frame))
       }) [0..<5] 0x1FF;
     let frame = fold (\<lambda>c. parity_column) [0..<4 :: nat] frame;
     let frame = push_bit 1 frame OR 0;
     Some (proto\<lparr>encoded_data := frame, encoded_data_index := 0, encoded_polarity := True\<rparr>)
   }"

definition protocol_em4100_encoder_yield :: "ProtocolEM4100 \<Rightarrow> (LevelDuration \<times> ProtocolEM4100) option" where
  "protocol_em4100_encoder_yield proto =
     (if 63 < encoded_data_index proto then None
      else
        let level = (drop_bit (63 - unat (encoded_data_index proto)) (encoded_data proto) AND 1 \<noteq> 0);
            duration = ucast (clock_per_bit proto) div 2
        in if encoded_polarity proto then Some (level_duration_make level duration, proto\<lparr>encoded_polarity := False\<rparr>)
        else Some (level_duration_make (\<not> level) duration, proto\<lparr>encoded_polarity := True,
          encoded_data_index := (if 64 \<le> encoded_data_index proto + 1 then 0 else encoded_data_index proto + 1)\<rparr>))"

subsection \<open>Writing to programmable cards\<close>

datatype LFRFIDWriteType = LFRFIDWriteTypeT5577 | LFRFIDWriteTypeEM4305 | LFRFIDWriteTypeHitagMicro | LFRFIDWriteTypeHitagS

record LFRFIDT5577 =
  t5577_block :: "u32 list"
  blocks_to_write :: u32
  t5577_mask :: u8

record LFRFIDEM4305 =
  em4305_word :: "u32 list"
  em4305_mask :: u16

record LFRFIDHitagMicro =
  hm_block0 :: bytes
  hm_block1 :: bytes
  hm_config :: bytes

record LFRFIDHitagS =
  page4 :: bytes
  page5 :: bytes

text \<open>The members of the union are kept apart: only the one that the type of the request names is written or read.\<close>

record LFRFIDWriteRequest =
  write_type :: LFRFIDWriteType
  rq_t5577 :: LFRFIDT5577
  rq_em4305 :: LFRFIDEM4305
  rq_hitagmicro :: LFRFIDHitagMicro
  rq_hitags :: LFRFIDHitagS

definition protocol_em4100_split_frame :: "u64 \<Rightarrow> bytes \<Rightarrow> bytes \<Rightarrow> (bytes \<times> bytes) option" where
  "protocol_em4100_split_frame frame high low = do {
     high \<leftarrow> bit_lib_num_to_bytes_be (drop_bit 32 frame) 4 high;
     low \<leftarrow> bit_lib_num_to_bytes_be frame 4 low;
     Some (high, low)
   }"

definition reversed_frame :: "u64 \<Rightarrow> u64" where
  "reversed_frame frame = fold (\<lambda>i reversed. push_bit 1 reversed OR (drop_bit i frame AND 1)) [0..<64] 0"

definition protocol_em4100_write_data ::
    "ProtocolEM4100 \<Rightarrow> LFRFIDWriteRequest \<Rightarrow> (bool \<times> ProtocolEM4100 \<times> LFRFIDWriteRequest) option" where
  "protocol_em4100_write_data protocol request = do {
     protocol \<leftarrow> protocol_em4100_encoder_start protocol;
     data \<leftarrow> em4100_decode (encoded_data protocol) (em_data protocol);
     protocol \<leftarrow> protocol_em4100_encoder_start (protocol\<lparr>em_data := data\<rparr>);
     let frame = encoded_data protocol;
     (case write_type request of
        LFRFIDWriteTypeT5577 \<Rightarrow> do {
          block \<leftarrow> wr (t5577_block (rq_t5577 request)) 0
            (0x00008000 OR protocol_em4100_get_t5577_bitrate protocol OR push_bit 5 2);
          block \<leftarrow> wr block 1 (ucast (drop_bit 32 frame));
          block \<leftarrow> wr block 2 (ucast frame);
          Some (True, protocol, request\<lparr>rq_t5577 := (rq_t5577 request)\<lparr>t5577_block := block, blocks_to_write := 3\<rparr>\<rparr>)
        }
      | LFRFIDWriteTypeEM4305 \<Rightarrow> do {
          word \<leftarrow> wr (em4305_word (rq_em4305 request)) 4
            (0x00000040 OR protocol_em4100_get_em4305_bitrate protocol OR push_bit 14 6);
          word \<leftarrow> wr word 5 (ucast (reversed_frame frame));
          word \<leftarrow> wr word 6 (ucast (drop_bit 32 (reversed_frame frame)));
          Some (True, protocol, request\<lparr>rq_em4305 := (rq_em4305 request)\<lparr>em4305_word := word, em4305_mask := 0x70\<rparr>\<rparr>)
        }
      | LFRFIDWriteTypeHitagMicro \<Rightarrow> do {
          let hm = rq_hitagmicro request;
          (block0, block1) \<leftarrow> protocol_em4100_split_frame frame (hm_block0 hm) (hm_block1 hm);
          config \<leftarrow> wr (hm_config hm) 0
            (if clock_per_bit protocol = 32 then 0x85 else if clock_per_bit protocol = 16 then 0x45 else 0x05);
          config \<leftarrow> wr config 1 0;
          config \<leftarrow> wr config 2 0;
          config \<leftarrow> wr config 3 0;
          Some (True, protocol, request\<lparr>rq_hitagmicro := \<lparr>hm_block0 = block0, hm_block1 = block1, hm_config = config\<rparr>\<rparr>)
        }
      | LFRFIDWriteTypeHitagS \<Rightarrow>
          if clock_per_bit protocol = 64 then do {
            (high, low) \<leftarrow> protocol_em4100_split_frame frame (page4 (rq_hitags request)) (page5 (rq_hitags request));
            Some (True, protocol, request\<lparr>rq_hitags := \<lparr>page4 = high, page5 = low\<rparr>\<rparr>)
          } else Some (False, protocol, request))
   }"

end
