(* ===== verification/Lfrfid_Em4100_Facts.thy ===== *)
theory Lfrfid_Em4100_Facts
  imports Lfrfid_Em4100
begin

text \<open>
  The frame of EM4100 as a list of bits; what the encoder builds, what the decoder reads off it, and why it is found in
  the stream of repeated frames at its own place only.
\<close>

subsection \<open>The frame\<close>

definition xor_all :: "bool list \<Rightarrow> bool" where
  "xor_all bs = foldr (\<noteq>) bs False"

lemma xor_all_simps [simp]: "xor_all [] = False" "xor_all (b # bs) = (b \<noteq> xor_all bs)"
  by (simp_all add: xor_all_def)

lemma xor_all_append [simp]: "xor_all (bs @ cs) = (xor_all bs \<noteq> xor_all cs)"
  by (induction bs) auto

lemma xor_all_rev [simp]: "xor_all (rev bs) = xor_all bs"
  by (induction bs) auto

text \<open>Bit \<open>i\<close> of row \<open>r\<close> of a card number.\<close>

definition card_bit :: "bytes \<Rightarrow> nat \<Rightarrow> nat \<Rightarrow> bool" where
  "card_bit d r i = bit (d ! (r div 2)) ((if even r then 7 else 3) - i)"

definition em_row :: "bytes \<Rightarrow> nat \<Rightarrow> bool list" where
  "em_row d r = map (card_bit d r) [0..<4] @ [xor_all (map (card_bit d r) [0..<4])]"

definition em_column :: "bytes \<Rightarrow> nat \<Rightarrow> bool" where
  "em_column d c = xor_all (map (\<lambda>r. card_bit d r c) [0..<10])"

definition em_frame :: "bytes \<Rightarrow> bool list" where
  "em_frame d = replicate 9 True @ concat (map (em_row d) [0..<10]) @ map (em_column d) [0..<4] @ [False]"

lemma length_em_row [simp]: "length (em_row d r) = 5"
  by (simp add: em_row_def)

lemma concat_rows: "length (concat (map (em_row d) [0..<n])) = 5 * n"
  by (induction n) simp_all

lemma nth_rows: "r < n \<Longrightarrow> i < 5 \<Longrightarrow> concat (map (em_row d) [0..<n]) ! (5 * r + i) = em_row d r ! i"
proof (induction n)
  case (Suc n)
  then show ?case by (cases "r = n") (simp_all add: nth_append concat_rows less_Suc_eq)
qed simp

lemma length_em_frame [simp]: "length (em_frame d) = 64"
  by (simp add: em_frame_def concat_rows)

lemma frame_header: "k < 9 \<Longrightarrow> em_frame d ! k"
  by (simp add: em_frame_def nth_append)

lemma frame_row: "r < 10 \<Longrightarrow> i < 5 \<Longrightarrow> em_frame d ! (9 + 5 * r + i) = em_row d r ! i"
  using nth_rows [of r 10 i d] by (simp add: em_frame_def nth_append concat_rows)

lemma frame_column: "c < 4 \<Longrightarrow> em_frame d ! (59 + c) = em_column d c"
  by (simp add: em_frame_def nth_append concat_rows)

lemma frame_stop: "\<not> em_frame d ! 63"
  by (simp add: em_frame_def nth_append concat_rows)

lemma row_even: "\<not> xor_all (em_row d r)"
  by (simp add: em_row_def)

lemma row_not_full: "\<exists>i < 5. \<not> em_row d r ! i"
proof (rule ccontr)
  assume "\<not> (\<exists>i < 5. \<not> em_row d r ! i)"
  then have "em_row d r = replicate 5 True" by (intro nth_equalityI) simp_all
  then have "xor_all (em_row d r)" by (simp add: numeral_eq_Suc)
  with row_even show False by blast
qed

subsection \<open>Words of bits\<close>

text \<open>The bits that were shifted into a word, the last one at the lowest place.\<close>

definition shifted_in :: "u64 \<Rightarrow> bool list \<Rightarrow> bool" where
  "shifted_in w bs \<longleftrightarrow> (\<forall>i < 64. bit w i = (i < length bs \<and> rev bs ! i))"

lemma shift_in: "shifted_in w bs \<Longrightarrow> shifted_in (push_bit 1 w OR of_bool b) (bs @ [b])"
  by (auto simp: shifted_in_def bit_simps nth_Cons split: nat.splits)

lemma and_1_of_bool: "drop_bit i (w :: u64) AND 1 = of_bool (bit w i)" "drop_bit i (x :: u8) AND 1 = of_bool (bit x i)"
  by (simp_all add: drop_and_1)

lemma ucast_of_bool [simp]: "ucast (of_bool b :: 'a::len word) = (of_bool b :: 'b::len word)"
  by (cases b) simp_all

lemma sum_parity: "odd (fold (\<lambda>i s. s + of_bool (P i)) xs (s :: u8)) = (odd s \<noteq> xor_all (map P xs))"
  by (induction xs arbitrary: s) auto

lemma mod_2_and_1: "(s :: u8) mod 2 AND 1 = of_bool (odd s)" "((s :: u8) mod 2 \<noteq> 0) = odd s"
  by (simp_all add: mod_2_eq_odd and_1_eq_of_bool bit_0)

lemma row_sum_parity: "odd (row_sum w i) = xor_all (map (\<lambda>j. bit w (50 - i * 5 + j)) [0..<5])"
  by (simp add: row_sum_def and_1_of_bool sum_parity)

lemma column_sum_parity: "odd (column_sum w i) = xor_all (map (\<lambda>j. bit w (4 - i + j * 5)) [0..<11])"
  by (simp add: column_sum_def and_1_of_bool sum_parity)

subsection \<open>The encoder\<close>

lemma shift_bits:
  assumes "shifted_in w bs"
  shows "\<exists>t v. fold (\<lambda>i (parity_sum, frame). (parity_sum + (drop_bit i x AND 1), push_bit 1 frame OR ucast (drop_bit i x AND 1)))
      xs (s :: u8, w) = (t, v) \<and> odd t = (odd s \<noteq> xor_all (map (bit (x :: u8)) xs)) \<and> shifted_in v (bs @ map (bit x) xs)"
  using assms
proof (induction xs arbitrary: s w bs)
  case (Cons i xs)
  have step: "shifted_in (push_bit 1 w OR of_bool (bit x i)) (bs @ [bit x i])" by (rule shift_in [OF Cons.prems])
  have "odd (s + of_bool (bit x i)) = (odd s \<noteq> bit x i)" by simp
  then show ?case using Cons.IH [OF step, of "s + of_bool (bit x i)"] by (auto simp: and_1_of_bool)
qed simp

lemma nibble_shifted:
  assumes "shifted_in w bs"
  shows "shifted_in (em4100_write_nibble low x w)
    (bs @ (let ns = map (\<lambda>i. bit x ((if low then 3 else 7) - i)) [0..<4] in ns @ [xor_all ns]))"
proof -
  let ?s = "if \<not> low then 4 else 0 :: nat"
  let ?xs = "rev [?s..<?s + 4]" and ?ns = "map (\<lambda>i. bit x ((if low then 3 else 7) - i)) [0..<4]"
  have ns: "map (bit x) ?xs = ?ns"
    by (rule nth_equalityI) (auto simp: rev_nth numeral_eq_Suc less_Suc_eq split: if_splits)
  obtain t v where tv: "fold (\<lambda>i (parity_sum, frame). (parity_sum + (drop_bit i x AND 1), push_bit 1 frame OR ucast (drop_bit i x AND 1)))
      ?xs (0 :: u8, w) = (t, v)" "odd t = xor_all ?ns" "shifted_in v (bs @ ?ns)"
    using shift_bits [OF assms, of x ?xs 0] unfolding ns by auto
  have "em4100_write_nibble low x w = push_bit 1 v OR of_bool (xor_all ?ns)"
    by (simp only: em4100_write_nibble_def Let_def tv(1) prod.case mod_2_and_1 tv(2) ucast_of_bool)
  with shift_in [OF tv(3)] show ?thesis by (simp only: Let_def append_assoc)
qed

lemma column_shifted:
  assumes "shifted_in w bs" "length bs \<le> 63" "49 < length bs"
  shows "shifted_in (parity_column w) (bs @ [xor_all (map (\<lambda>i. rev bs ! (i * 5 - 1)) [1..<11])])"
proof -
  have bits: "map (\<lambda>i. bit w (i * 5 - 1)) [1..<11] = map (\<lambda>i. rev bs ! (i * 5 - 1)) [1..<11]"
    using assms by (intro map_cong refl) (auto simp: shifted_in_def)
  have "parity_column w = push_bit 1 w OR of_bool (xor_all (map (\<lambda>i. bit w (i * 5 - 1)) [1..<11]))"
    by (simp only: parity_column_def Let_def and_1_of_bool ucast_of_bool mod_2_and_1 sum_parity) simp
  with shift_in [OF assms(1)] show ?thesis by (simp only: bits)
qed

lemma row_nibbles:
  "em_row d (2 * i) = (let ns = map (\<lambda>k. bit (d ! i) (7 - k)) [0..<4] in ns @ [xor_all ns])"
  "em_row d (2 * i + 1) = (let ns = map (\<lambda>k. bit (d ! i) (3 - k)) [0..<4] in ns @ [xor_all ns])"
proof -
  have "card_bit d (2 * i) = (\<lambda>k. bit (d ! i) (7 - k))" "card_bit d (2 * i + 1) = (\<lambda>k. bit (d ! i) (3 - k))"
    by (simp_all add: card_bit_def fun_eq_iff)
  then show "em_row d (2 * i) = (let ns = map (\<lambda>k. bit (d ! i) (7 - k)) [0..<4] in ns @ [xor_all ns])"
    "em_row d (2 * i + 1) = (let ns = map (\<lambda>k. bit (d ! i) (3 - k)) [0..<4] in ns @ [xor_all ns])"
    by (simp_all only: em_row_def Let_def)
qed

lemma rows_shifted:
  assumes "length d = 5" "n \<le> 5"
  shows "\<exists>w. ofold (\<lambda>i frame. do { x \<leftarrow> rd d i; Some (em4100_write_nibble True x (em4100_write_nibble False x frame)) })
      [0..<n] 0x1FF = Some w \<and> shifted_in w (replicate 9 True @ concat (map (em_row d) [0..<2 * n]))"
  using assms(2)
proof (induction n)
  case 0
  have "bit (0x1FF :: u64) i = (i < 9)" if "i < 64" for i
  proof -
    have "(0x1FF :: u64) = mask 9" by (simp add: mask_eq_exp_minus_1)
    then show ?thesis using that by (simp only: bit_mask_iff) simp
  qed
  then show ?case by (auto simp: shifted_in_def nth_replicate)
next
  case (Suc n)
  then obtain w where w: "ofold (\<lambda>i frame. do { x \<leftarrow> rd d i; Some (em4100_write_nibble True x (em4100_write_nibble False x frame)) })
      [0..<n] 0x1FF = Some w" "shifted_in w (replicate 9 True @ concat (map (em_row d) [0..<2 * n]))"
    by auto
  have rows: "concat (map (em_row d) [0..<2 * Suc n]) = concat (map (em_row d) [0..<2 * n]) @ em_row d (2 * n) @ em_row d (2 * n + 1)"
    by (simp flip: Suc_eq_plus1)
  show ?case
    using nibble_shifted [OF nibble_shifted [OF w(2), of False "d ! n"], of True "d ! n"] w(1) Suc.prems assms(1)
    unfolding rows by (simp add: ofold_append rd_ok row_nibbles)
qed

lemma column_of_rows:
  assumes bs: "bs = replicate 9 True @ concat (map (em_row d) [0..<10]) @ cs" "length cs = c" "c < 4"
  shows "xor_all (map (\<lambda>i. rev bs ! (i * 5 - 1)) [1..<11]) = em_column d c"
proof -
  have len: "length bs = 59 + c" using bs by (simp add: concat_rows)
  have "rev bs ! (i * 5 - 1) = card_bit d (10 - i) c" if i: "i \<in> set [1..<11]" for i
  proof -
    have i': "1 \<le> i" "i \<le> 10" using i by auto
    then have k: "59 + c - i * 5 = 9 + 5 * (10 - i) + c" "5 * (10 - i) + c < 50" using assms(3) by simp_all
    have "rev bs ! (i * 5 - 1) = bs ! (9 + 5 * (10 - i) + c)" using i' k len bs(3) by (simp add: rev_nth)
    also have "\<dots> = em_row d (10 - i) ! c"
      using nth_rows [of "10 - i" 10 c d] i' k(2) bs by (simp add: nth_append concat_rows)
    also have "\<dots> = card_bit d (10 - i) c" using bs(3) by (simp add: em_row_def nth_append)
    finally show ?thesis .
  qed
  then have "map (\<lambda>i. rev bs ! (i * 5 - 1)) [1..<11] = map (\<lambda>i. card_bit d (10 - i) c) [1..<11]" by (intro map_cong refl) auto
  also have "\<dots> = rev (map (\<lambda>r. card_bit d r c) [0..<10])"
  proof -
    have "[0..<10] ! (9 - i) = 9 - i" for i by (subst nth_upt) simp_all
    then show ?thesis by (intro nth_equalityI) (simp_all add: rev_nth)
  qed
  finally show ?thesis by (simp only: xor_all_rev em_column_def)
qed

text \<open>The encoder builds the frame.\<close>

lemma encoder_start_frame:
  assumes "length (em_data p) = 5"
  shows "\<exists>w. protocol_em4100_encoder_start p = Some (p\<lparr>encoded_data := w, encoded_data_index := 0, encoded_polarity := True\<rparr>) \<and>
    shifted_in w (em_frame (em_data p))"
proof -
  let ?d = "em_data p"
  let ?rows = "replicate 9 True @ concat (map (em_row ?d) [0..<10])"
  obtain w where w: "ofold (\<lambda>i frame. do { x \<leftarrow> rd ?d i; Some (em4100_write_nibble True x (em4100_write_nibble False x frame)) })
      [0..<5] 0x1FF = Some w" "shifted_in w ?rows"
    using rows_shifted [OF assms order_refl] by auto
  have columns: "shifted_in (fold (\<lambda>c. parity_column) [0..<n] w) (?rows @ map (em_column ?d) [0..<n])" if "n \<le> 4" for n
    using that
  proof (induction n)
    case (Suc n)
    let ?bs = "?rows @ map (em_column ?d) [0..<n]"
    have "shifted_in (fold (\<lambda>c. parity_column) [0..<n] w) ?bs" "length ?bs \<le> 63" "49 < length ?bs"
      using Suc by (simp_all add: concat_rows)
    from column_shifted [OF this] column_of_rows [of ?bs ?d "map (em_column ?d) [0..<n]" n] Suc.prems show ?case by simp
  qed (use w(2) in simp)
  have "shifted_in (push_bit 1 (fold (\<lambda>c. parity_column) [0..<4] w) OR of_bool False) (em_frame ?d)"
    using shift_in [OF columns [of 4], of False] by (simp add: em_frame_def)
  then show ?thesis
    by (intro exI [of _ "push_bit 1 (fold (\<lambda>c. parity_column) [0..<4] w)"])
      (simp add: protocol_em4100_encoder_start_def w(1))
qed

lemma frame_bit: "shifted_in w (em_frame d) \<Longrightarrow> k < 64 \<Longrightarrow> bit w (63 - k) = em_frame d ! k"
  by (simp add: shifted_in_def rev_nth)

subsection \<open>The decoder\<close>

text \<open>The card data while it is shifted out.\<close>

lemma decode_row_bits:
  "decode_row w = (push_bit 5 w, let b = \<lambda>i. of_bool (bit w (63 - i)) in
     push_bit 1 (push_bit 1 (push_bit 1 (b 0) OR b 1) OR b 2) OR b 3)"
proof -
  have "[0..<5 :: nat] = [0, 1, 2, 3, 4]" by code_simp
  moreover have "(v AND 9223372036854775808 = 0) = (\<not> bit v 63)" for v :: u64
    using and_exp_neq_0 [of v 63] by auto
  ultimately show ?thesis
    by (simp add: decode_row_def bit_simps Let_def)
qed

definition nibble_of :: "bool \<Rightarrow> bool \<Rightarrow> bool \<Rightarrow> bool \<Rightarrow> u8" where
  "nibble_of a b c d = push_bit 1 (push_bit 1 (push_bit 1 (of_bool a) OR of_bool b) OR of_bool c) OR of_bool d"

lemma nibbles_byte:
  "push_bit 4 (nibble_of (bit x 7) (bit x 6) (bit x 5) (bit x 4)) OR nibble_of (bit x 3) (bit x 2) (bit x 1) (bit x 0) = (x :: u8)"
  unfolding word_eq_bits by (simp add: all_less_8 nibble_of_def bit_simps)

lemma decode_row_frame:
  assumes w: "shifted_in w (em_frame d)" and r: "r < 10"
  shows "decode_row (push_bit (9 + 5 * r) w) =
    (push_bit (9 + 5 * Suc r) w, nibble_of (card_bit d r 0) (card_bit d r 1) (card_bit d r 2) (card_bit d r 3))"
proof -
  have "bit (push_bit (9 + 5 * r) w) (63 - i) = card_bit d r i" if "i < 4" for i
  proof -
    have k: "9 + 5 * r + i < 64" "63 - i < (64 :: nat)" "63 - i - (9 + 5 * r) = 63 - (9 + 5 * r + i)" "9 + 5 * r \<le> 63 - i" using r that by simp_all
    have "em_frame d ! (9 + 5 * r + i) = card_bit d r i"
      using frame_row [OF r, of i d] that by (simp add: em_row_def nth_append)
    then show ?thesis using k frame_bit [OF w k(1)] that by (simp add: bit_push_bit_iff)
  qed
  from this [of 0] this [of 1] this [of 2] this [of 3] show ?thesis
    by (simp add: decode_row_bits nibble_of_def push_bit_push_bit Let_def add_ac)
qed

lemma decode_frame:
  assumes w: "shifted_in w (em_frame d)" and d: "length d = 5" "length e = 5"
  shows "em4100_decode w e = Some d"
proof -
  let ?body = "\<lambda>r (card_data, value, decoded_data_index, decoded_data). do {
         let (card_data, nibble) = decode_row card_data;
         let value = push_bit 4 value OR nibble;
         if r mod 2 \<noteq> 0 then do {
           x \<leftarrow> rd decoded_data decoded_data_index;
           decoded_data \<leftarrow> wr decoded_data decoded_data_index (x OR value);
           Some (card_data, 0, decoded_data_index + 1, decoded_data)
         } else Some (card_data, value, decoded_data_index, decoded_data)
       }"
  have "ofold ?body [0..<2 * n] (push_bit 9 w, 0 :: u8, 0 :: nat, replicate 5 0) =
      Some (push_bit (9 + 5 * (2 * n)) w, 0, n, take n d @ replicate (5 - n) 0)" if "n \<le> 5" for n
    using that
  proof (induction n)
    case (Suc n)
    have upt: "[0..<2 * Suc n] = [0..<2 * n] @ [2 * n, 2 * n + 1]" by (simp flip: Suc_eq_plus1)
    have byte: "push_bit 4 (nibble_of (card_bit d (2 * n) 0) (card_bit d (2 * n) 1) (card_bit d (2 * n) 2) (card_bit d (2 * n) 3)) OR
        nibble_of (card_bit d (2 * n + 1) 0) (card_bit d (2 * n + 1) 1) (card_bit d (2 * n + 1) 2) (card_bit d (2 * n + 1) 3) = d ! n"
      using nibbles_byte [of "d ! n"] by (simp add: card_bit_def flip: One_nat_def)
    have rows: "decode_row (push_bit (9 + 5 * (2 * n)) w) = (push_bit (9 + 5 * (2 * n + 1)) w,
        nibble_of (card_bit d (2 * n) 0) (card_bit d (2 * n) 1) (card_bit d (2 * n) 2) (card_bit d (2 * n) 3))"
      "decode_row (push_bit (9 + 5 * (2 * n + 1)) w) = (push_bit (9 + 5 * (2 * Suc n)) w,
        nibble_of (card_bit d (2 * n + 1) 0) (card_bit d (2 * n + 1) 1) (card_bit d (2 * n + 1) 2) (card_bit d (2 * n + 1) 3))"
      using decode_row_frame [OF w, of "2 * n"] decode_row_frame [OF w, of "2 * n + 1"] Suc.prems by simp_all
    have k: "5 - n = Suc (4 - n)" using Suc.prems by simp
    have out: "(take n d @ replicate (5 - n) 0)[n := d ! n] = take (Suc n) d @ replicate (5 - Suc n) 0"
      "rd (take n d @ replicate (5 - n) 0) n = Some 0" "n < length (take n d @ replicate (5 - n) 0)"
      using Suc.prems d(1) k by (auto simp: rd_def nth_append list_update_append take_Suc_conv_app_nth)
    show ?case
      unfolding upt ofold_append Suc.IH [OF Suc_leD [OF Suc.prems]]
      by (simp add: rows [simplified] byte [simplified] out [simplified] wr_ok)
  qed simp
  from this [of 5] have "ofold ?body [0..<10] (push_bit 9 w, 0 :: u8, 0 :: nat, replicate 5 0) =
      Some (push_bit 59 w, 0, 5, d)"
    using d(1) by simp
  moreover have "fold (\<lambda>i. push_bit 1) [0..<9 :: nat] w = push_bit 9 w"
  proof -
    have "fold (\<lambda>i. push_bit 1) [0..<n] w = push_bit n w" for n :: nat
      by (induction n) (simp_all add: push_bit_push_bit flip: Suc_eq_plus1_left)
    then show ?thesis .
  qed
  ultimately show ?thesis by (simp add: em4100_decode_def d(2))
qed

end
