(* ===== verification/Lfrfid_Em4100_Line.thy ===== *)
theory Lfrfid_Em4100_Line
  imports Lfrfid_Em4100_Facts
begin

text \<open>
  EM4100 over the line: where in the stream of repeated frames the decoder finds the card, what the encoder plays, and the
  number of cards reported for a number of frames.
\<close>

subsection \<open>Where the frame is found\<close>

lemma rev_map_upt: "rev (map f [0..<n]) = map (\<lambda>i. f (n - 1 - i)) [0..<n]"
  by (rule nth_equalityI) (simp_all add: rev_nth flip: Suc_eq_plus1_left)

text \<open>What the tests of the decoder say of the sixty-four bits of a window.\<close>

lemma epilogue_test: "(e AND 0x1FF = (0x1FF :: u64)) = (\<forall>i < 9. bit e i)"
proof -
  have "(0x1FF :: u64) = mask 9" by (simp add: mask_eq_exp_minus_1)
  then have "(e AND 0x1FF = (0x1FF :: u64)) = (\<forall>i < 64. (bit e i \<and> i < 9) = (i < 9))"
    by (simp only: word_eq_bits bit_and_iff bit_mask_iff) simp
  also have "\<dots> = (\<forall>i < 9. bit e i)" by (meson less_trans numeral_less_iff semiring_norm(76,78,81))
  finally show ?thesis .
qed

lemma header_test: "(w AND (push_bit 55 0x1FF OR 1) = (push_bit 55 0x1FF :: u64)) = ((\<forall>k < 9. bit w (63 - k)) \<and> \<not> bit w 0)"
proof -
  have "(0x1FF :: u64) = mask 9" by (simp add: mask_eq_exp_minus_1)
  then have "(w AND (push_bit 55 0x1FF OR 1) = (push_bit 55 0x1FF :: u64)) =
      (\<forall>i < 64. (bit w i \<and> (55 \<le> i \<or> i = 0)) = (55 \<le> i))"
    by (simp only: word_eq_bits bit_and_iff bit_or_iff bit_push_bit_iff bit_mask_iff bit_1_iff) (auto simp: less_diff_conv2)
  also have "\<dots> = ((\<forall>k < 9. bit w (63 - k)) \<and> \<not> bit w 0)" (is "?l = ?r")
  proof
    assume l: ?l
    have "bit w (63 - k)" if "k < 9" for k
    proof -
      have "63 - k < (64 :: nat)" "55 \<le> 63 - k" using that by simp_all
      then show ?thesis using l by blast
    qed
    moreover have "\<not> bit w 0" using l [rule_format, of 0] by simp
    ultimately show ?r by blast
  next
    assume r: ?r
    show ?l
    proof (intro allI impI)
      fix i :: nat
      assume "i < 64"
      moreover have "bit w i" if "55 \<le> i" "i < 64"
      proof -
        have "bit w (63 - (63 - i))" using r that by (intro mp [OF spec [OF conjunct1 [OF r]]]) simp
        then show ?thesis using that by simp
      qed
      ultimately show "(bit w i \<and> (55 \<le> i \<or> i = 0)) = (55 \<le> i)" using r by auto
    qed
  qed
  finally show ?thesis .
qed

definition window :: "u64 \<Rightarrow> (nat \<Rightarrow> bool) \<Rightarrow> bool" where
  "window w f \<longleftrightarrow> (\<forall>k < 64. bit w (63 - k) = f k)"

lemma window_row: "window w f \<Longrightarrow> i < 10 \<Longrightarrow> odd (row_sum w i) = xor_all (map (\<lambda>j. f (9 + 5 * i + j)) [0..<5])"
proof -
  assume w: "window w f" and i: "i < 10"
  have "bit w (50 - i * 5 + j) = f (9 + 5 * i + (4 - j))" if "j < 5" for j
  proof -
    have "63 - (9 + 5 * i + (4 - j)) = 50 - i * 5 + j" "9 + 5 * i + (4 - j) < 64" using i that by simp_all
    then show ?thesis using w by (metis window_def)
  qed
  then have "map (\<lambda>j. bit w (50 - i * 5 + j)) [0..<5] = rev (map (\<lambda>j. f (9 + 5 * i + j)) [0..<5])"
    unfolding rev_map_upt by (intro map_cong refl) simp
  then show ?thesis by (simp only: row_sum_parity xor_all_rev)
qed

lemma window_column: "window w f \<Longrightarrow> i < 4 \<Longrightarrow>
    odd (column_sum w i) = (f (59 + i) \<noteq> xor_all (map (\<lambda>r. f (9 + 5 * r + i)) [0..<10]))"
proof -
  assume w: "window w f" and i: "i < 4"
  have bits: "bit w (4 - i + j * 5) = f (59 + i - 5 * j)" if "j < 11" for j
  proof -
    have "63 - (59 + i - 5 * j) = 4 - i + j * 5" "59 + i - 5 * j < 64" using i that by simp_all
    then show ?thesis using w by (metis window_def)
  qed
  have "map (\<lambda>j. bit w (4 - i + j * 5)) [0..<11] = rev (map (\<lambda>r. f (9 + 5 * r + i)) [0..<10] @ [f (59 + i)])"
  proof (rule nth_equalityI)
    fix j
    assume "j < length (map (\<lambda>j. bit w (4 - i + j * 5)) [0..<11])"
    then have j: "j < 11" by simp
    show "map (\<lambda>j. bit w (4 - i + j * 5)) [0..<11] ! j = rev (map (\<lambda>r. f (9 + 5 * r + i)) [0..<10] @ [f (59 + i)]) ! j"
    proof (cases j)
      case 0
      then show ?thesis using bits [of 0] by simp
    next
      case (Suc m)
      have "59 + i - 5 * j = 9 + 5 * (9 - m) + i" using Suc j by simp
      then show ?thesis using bits [OF j] j Suc unfolding rev_append rev_map_upt by simp
    qed
  qed simp
  then show ?thesis by (simp only: column_sum_parity xor_all_rev) auto
qed

lemma can_be_decoded_window:
  assumes "window w f"
  shows "em4100_can_be_decoded w e = ((\<forall>i < 9. bit e i) \<and> (\<forall>k < 9. f k) \<and> \<not> f 63 \<and>
    (\<forall>i < 10. \<not> xor_all (map (\<lambda>j. f (9 + 5 * i + j)) [0..<5])) \<and>
    (\<forall>i < 4. f (59 + i) = xor_all (map (\<lambda>r. f (9 + 5 * r + i)) [0..<10])))"
proof -
  have "(\<forall>k < 9. bit w (63 - k)) = (\<forall>k < 9. f k)" "bit w 0 = f 63"
  proof -
    have w: "bit w (63 - k) = f k" if "k < 64" for k using assms that by (simp add: window_def)
    then show "(\<forall>k < 9. bit w (63 - k)) = (\<forall>k < 9. f k)" by (intro all_cong1 imp_cong refl) (simp add: w)
    show "bit w 0 = f 63" using w [of 63] by simp
  qed
  moreover have "list_ex (\<lambda>i. row_sum w i mod 2 \<noteq> 0) [0..<10] = (\<exists>i < 10. xor_all (map (\<lambda>j. f (9 + 5 * i + j)) [0..<5]))"
    using window_row [OF assms] by (simp only: mod_2_and_1 list_ex_iff set_upt) auto
  moreover have "list_ex (\<lambda>i. column_sum w i mod 2 \<noteq> 0) [0..<4] =
      (\<exists>i < 4. f (59 + i) \<noteq> xor_all (map (\<lambda>r. f (9 + 5 * r + i)) [0..<10]))"
    using window_column [OF assms] by (simp only: mod_2_and_1 list_ex_iff set_upt) auto
  ultimately show ?thesis
    unfolding em4100_can_be_decoded_def epilogue_test header_test by auto
qed

text \<open>The stream of repeated frames.\<close>

definition em_stream :: "bytes \<Rightarrow> nat \<Rightarrow> bool" where
  "em_stream d k = em_frame d ! (k mod 64)"

lemma frame_accepted:
  assumes "window w ((!) (em_frame d))" "\<forall>i < 9. bit e i"
  shows "em4100_can_be_decoded w e"
proof -
  have "map (\<lambda>j. em_frame d ! (9 + 5 * i + j)) [0..<5] = em_row d i" if "i < 10" for i
    using that by (intro nth_equalityI) (simp_all add: frame_row)
  moreover have "map (\<lambda>r. em_frame d ! (9 + 5 * r + i)) [0..<10] = map (\<lambda>r. card_bit d r i) [0..<10]" if "i < 4" for i
    using that by (intro map_cong refl) (simp add: frame_row em_row_def nth_append)
  ultimately show ?thesis
    using assms(2) by (simp del: map_eq_conv add: can_be_decoded_window [OF assms(1)] frame_header frame_stop frame_column row_even em_column_def)
qed

text \<open>A window at another place has a one for its stop bit or a zero among its nine ones.\<close>

lemma other_places_rejected:
  assumes "window w (\<lambda>k. em_stream d (q + k))" "em4100_can_be_decoded w e"
  shows "q mod 64 = 0"
proof (rule ccontr)
  assume q: "q mod 64 \<noteq> 0"
  define m where "m = q mod 64"
  have m: "1 \<le> m" "m < 64" using q by (simp_all add: m_def)
  have ones: "em_stream d (q + k)" if "k < 9" for k using assms that by (simp add: can_be_decoded_window)
  have stop: "\<not> em_stream d (q + 63)" using assms by (simp add: can_be_decoded_window)
  have at: "em_stream d (q + k) = em_frame d ! (m + k)" if "m + k < 64" for k
  proof -
    have "(q + k) mod 64 = (m + k) mod 64" unfolding m_def by (rule mod_add_left_eq [symmetric])
    with that show ?thesis by (simp only: em_stream_def mod_less)
  qed
  have "(q + 63) mod 64 = m - 1"
  proof -
    have "(q + 63) mod 64 = (m + 63) mod 64" unfolding m_def by (rule mod_add_left_eq [symmetric])
    also have "m + 63 = (m - 1) + 64" using m by simp
    also have "((m - 1) + 64) mod 64 = m - 1" using m by (simp only: mod_add_self2) simp
    finally show ?thesis .
  qed
  then have m9: "10 \<le> m" using stop frame_header [of "m - 1" d] m(1) by (cases "10 \<le> m") (auto simp: em_stream_def)
  consider "55 \<le> m" | "m < 55" by linarith
  then show False
  proof cases
    case 1
    then have "em_frame d ! 63" using ones [of "63 - m"] at [of "63 - m"] m by simp
    then show False using frame_stop by blast
  next
    case 2
    define r where "r = (m - 5) div 5"
    have r: "r < 10" "m \<le> 9 + 5 * r" "9 + 5 * r + 4 \<le> m + 8" using m9 2 unfolding r_def by presburger+
    have "em_row d r ! i" if "i < 5" for i
      using ones [of "9 + 5 * r + i - m"] at [of "9 + 5 * r + i - m"] frame_row [OF r(1) that, of d] r that 2 by simp
    then show False using row_not_full [of d r] by blast
  qed
qed

subsection \<open>What the decoder hears\<close>

text \<open>The registers after the bits \<open>bs\<close>: the epilogue holds the last nine, the frame those before.\<close>

definition registers :: "ProtocolEM4100 \<Rightarrow> bool list \<Rightarrow> bool" where
  "registers p bs \<longleftrightarrow> (\<forall>i < 64. bit (encoded_epilogue p) i = (i < 9 \<and> i < length bs \<and> rev bs ! i) \<and>
     bit (encoded_data p) i = (i + 9 < length bs \<and> rev bs ! (i + 9)))"

lemma registers_shift:
  assumes "registers p bs"
  shows "registers (p\<lparr>encoded_data := push_bit 1 (encoded_data p) OR (drop_bit 8 (encoded_epilogue p) AND 1),
    encoded_epilogue := (push_bit 1 (encoded_epilogue p) OR of_bool b) AND 0x1FF\<rparr>) (bs @ [b])"
proof -
  have mask: "(0x1FF :: u64) = mask 9" by (simp add: mask_eq_exp_minus_1)
  have carry: "drop_bit 8 (encoded_epilogue p) AND 1 = of_bool (8 < length bs \<and> rev bs ! 8)"
    using assms by (simp add: and_1_of_bool registers_def)
  have "bit ((push_bit 1 (encoded_epilogue p) OR of_bool b) AND 0x1FF) i = (i < 9 \<and> i < length (bs @ [b]) \<and> rev (bs @ [b]) ! i)"
    if "i < 64" for i
    using assms that by (cases i) (auto simp: mask bit_simps registers_def)
  moreover have "bit (push_bit 1 (encoded_data p) OR of_bool (8 < length bs \<and> rev bs ! 8)) i =
      (i + 9 < length (bs @ [b]) \<and> rev (bs @ [b]) ! (i + 9))" if "i < 64" for i
  proof (cases i)
    case (Suc j)
    then have "j < 64" using that by simp
    then have "bit (encoded_data p) j = (j + 9 < length bs \<and> rev bs ! (j + 9))" using assms by (simp add: registers_def)
    moreover have "rev (bs @ [b]) ! (i + 9) = rev bs ! (j + 9)" using Suc by (simp add: nth_Cons' add.commute)
    ultimately show ?thesis using Suc that by (simp add: bit_simps add.commute)
  qed (simp add: bit_simps nth_Cons')
  ultimately show ?thesis by (simp add: registers_def carry)
qed

text \<open>The bits of the stream from the second on.\<close>

definition heard :: "bytes \<Rightarrow> nat \<Rightarrow> bool list" where
  "heard d t = map (\<lambda>k. em_stream d (k + 1)) [0..<t]"

lemma heard_simps: "length (heard d t) = t" "i < t \<Longrightarrow> rev (heard d t) ! i = em_stream d (t - i)"
  "heard d (Suc t) = heard d t @ [em_stream d (Suc t)]"
  by (simp_all add: heard_def rev_nth Suc_diff_Suc flip: Suc_eq_plus1)

lemma found_exactly:
  assumes "registers p (heard d t)"
  shows "em4100_can_be_decoded (encoded_data p) (encoded_epilogue p) = (73 \<le> t \<and> (t - 72) mod 64 = 0)"
    (is "?found = _")
proof (cases "73 \<le> t")
  case False
  have "window (encoded_data p) (\<lambda>k. bit (encoded_data p) (63 - k))" by (simp add: window_def)
  moreover have "\<not> bit (encoded_data p) 63" using assms False by (simp add: registers_def heard_simps)
  ultimately have "\<not> ?found" by (metis can_be_decoded_window diff_zero zero_less_numeral)
  with False show ?thesis by simp
next
  case True
  have w: "window (encoded_data p) (\<lambda>k. em_stream d (t - 72 + k))"
    unfolding window_def
  proof (intro allI impI)
    fix k :: nat
    assume k: "k < 64"
    then have "63 - k < (64 :: nat)" "63 - k + 9 < t" "t - (63 - k + 9) = t - 72 + k" using True by simp_all
    then show "bit (encoded_data p) (63 - k) = em_stream d (t - 72 + k)"
      using assms by (metis registers_def heard_simps(1,2))
  qed
  have "?found" if q: "(t - 72) mod 64 = 0"
  proof (rule frame_accepted)
    have "(t - 72 + k) mod 64 = k" if "k < 64" for k
      using q that by (metis add_0 mod_add_left_eq mod_less)
    then show "window (encoded_data p) ((!) (em_frame d))" using w by (simp add: window_def em_stream_def)
    have "bit (encoded_epilogue p) i" if i: "i < 9" for i
    proof -
      have "(t - i) mod 64 = (t - 72 + (72 - i)) mod 64" using True i by simp
      also have "\<dots> = (72 - i) mod 64" using q by (metis add_0 mod_add_left_eq)
      also have "72 - i = (8 - i) + 64" using i by simp
      also have "(8 - i + 64) mod 64 = 8 - i" using i by (simp only: mod_add_self2) simp
      finally have "em_stream d (t - i)" using frame_header [of "8 - i" d] i by (simp add: em_stream_def)
      moreover have "i < 64" "i < t" using i True by simp_all
      ultimately show ?thesis using assms i by (simp add: registers_def heard_simps)
    qed
    then show "\<forall>i < 9. bit (encoded_epilogue p) i" by blast
  qed
  with other_places_rejected [OF w, of "encoded_epilogue p"] True show ?thesis by auto
qed

text \<open>One bit: the registers follow, and the card is reported when its frame is complete.\<close>

definition hearing :: "bytes \<Rightarrow> ProtocolEM4100 \<Rightarrow> nat \<Rightarrow> bool" where
  "hearing d p t \<longleftrightarrow> registers p (heard d t) \<and> length (em_data p) = 5"

lemma hear_next_bit:
  assumes "hearing d p t" "length d = 5"
  shows "\<exists>q v. em4100_on_bit p (em_stream d (Suc t)) = Some (q, v) \<and> hearing d q (Suc t) \<and>
    v = (73 \<le> Suc t \<and> (Suc t - 72) mod 64 = 0) \<and> (v \<longrightarrow> em_data q = d)"
proof -
  let ?q = "p\<lparr>encoded_data := push_bit 1 (encoded_data p) OR (drop_bit 8 (encoded_epilogue p) AND 1),
    encoded_epilogue := (push_bit 1 (encoded_epilogue p) OR of_bool (em_stream d (Suc t))) AND 0x1FF\<rparr>"
  have q: "registers ?q (heard d (Suc t))"
    using registers_shift [of p "heard d t" "em_stream d (Suc t)"] assms(1) unfolding heard_simps(3) hearing_def by blast
  note found = found_exactly [OF q]
  have len: "length (em_data ?q) = 5" using assms(1) by (simp add: hearing_def)
  show ?thesis
  proof (cases "em4100_can_be_decoded (encoded_data ?q) (encoded_epilogue ?q)")
    case False
    then have "em4100_on_bit p (em_stream d (Suc t)) = Some (?q, False)" by (simp add: em4100_on_bit_def Let_def)
    then show ?thesis using q found False len by (auto simp: hearing_def)
  next
    case True
    have frame: "shifted_in (encoded_data ?q) (em_frame d)"
      unfolding shifted_in_def
    proof (intro allI impI)
      fix i :: nat
      assume i: "i < 64"
      have t: "73 \<le> Suc t" "(Suc t - 72) mod 64 = 0" using found True by simp_all
      have "Suc t - (i + 9) = (Suc t - 72) + (63 - i)" using t(1) i by simp
      also have "\<dots> mod 64 = (63 - i) mod 64" using t(2) by (metis add_0 mod_add_left_eq)
      also have "\<dots> = 63 - i" by (rule mod_less) simp
      finally have "(Suc t - (i + 9)) mod 64 = 63 - i" .
      moreover have lt: "i + 9 < Suc t" using t(1) i by simp
      moreover have "bit (encoded_data ?q) i = (i + 9 < Suc t \<and> rev (heard d (Suc t)) ! (i + 9))"
        using q i unfolding registers_def heard_simps(1) by blast
      ultimately have "bit (encoded_data ?q) i = em_frame d ! (63 - i)"
        unfolding heard_simps(2) [OF lt] em_stream_def by simp
      then show "bit (encoded_data ?q) i = (i < length (em_frame d) \<and> rev (em_frame d) ! i)"
        using i by (simp add: rev_nth)
    qed
    have "em4100_on_bit p (em_stream d (Suc t)) = Some (?q\<lparr>em_data := d\<rparr>, True)"
      using decode_frame [OF frame assms(2) len] True by (simp add: em4100_on_bit_def Let_def)
    moreover have "registers (?q\<lparr>em_data := d\<rparr>) (heard d (Suc t))" using q by (simp add: registers_def)
    ultimately show ?thesis using found True assms(2) by (auto simp: hearing_def)
  qed
qed

lemma hear_bits_append:
  "hear_bits f (xs @ ys) p = do { (q, rs) \<leftarrow> hear_bits f xs p; (r, ss) \<leftarrow> hear_bits f ys q; Some (r, rs @ ss) }"
  by (induction xs arbitrary: p) (auto split: bind_splits prod.splits simp: bind_eq_Some_conv)

lemma hear_heard:
  assumes "hearing d p 0" "length d = 5"
  shows "\<exists>q rs. hear_bits em4100_on_bit (heard d t) p = Some (q, rs) \<and> hearing d q t \<and>
    length rs = (t - 72) div 64 \<and> (\<forall>r \<in> set rs. em_data r = d)"
proof (induction t)
  case 0
  then show ?case using assms by (simp add: heard_def)
next
  case (Suc t)
  then obtain q rs where q: "hear_bits em4100_on_bit (heard d t) p = Some (q, rs)" "hearing d q t"
    "length rs = (t - 72) div 64" "\<forall>r \<in> set rs. em_data r = d" by blast
  obtain q' v where v: "em4100_on_bit q (em_stream d (Suc t)) = Some (q', v)" "hearing d q' (Suc t)"
    "v = (73 \<le> Suc t \<and> (Suc t - 72) mod 64 = 0)" "v \<longrightarrow> em_data q' = d"
    using hear_next_bit [OF q(2) assms(2)] by blast
  have "(Suc t - 72) div 64 = (t - 72) div 64 + (if v then 1 else 0)"
  proof (cases "72 \<le> t")
    case True
    then have "Suc t - 72 = Suc (t - 72)" by simp
    then show ?thesis using True v(3) by (simp add: div_Suc One_nat_def)
  qed (use v(3) in simp)
  then show ?case
    using q v(1,2,4) by (auto simp: heard_simps(3) hear_bits_append)
qed

subsection \<open>The decoder as a receiver of Manchester code\<close>

lemma windows_disjoint: "em4100_long p d \<Longrightarrow> \<not> em4100_short p d"
proof -
  have "protocol_em4100_get_time_divisor p \<in> {1, 2, 4}" by (simp add: protocol_em4100_get_time_divisor_def)
  then show "em4100_long p d \<Longrightarrow> \<not> em4100_short p d"
    by (elim insertE emptyE)
      (simp_all add: em4100_long_def em4100_short_def protocol_em4100_get_short_time_low_def protocol_em4100_get_short_time_high_def
        protocol_em4100_get_long_time_low_def protocol_em4100_get_long_time_high_def word_less_nat_alt)
qed

lemma windows_kept:
  "clock_per_bit q = clock_per_bit p \<Longrightarrow> em4100_short q = em4100_short p \<and> em4100_long q = em4100_long p"
  by (simp add: fun_eq_iff em4100_long_def em4100_short_def protocol_em4100_get_short_time_low_def protocol_em4100_get_short_time_high_def
    protocol_em4100_get_long_time_low_def protocol_em4100_get_long_time_high_def protocol_em4100_get_time_divisor_def)

lemma on_bit_manchester:
  "em4100_on_bit (p\<lparr>decoder_manchester_state := s\<rparr>) b =
    map_option (\<lambda>(q, v). (q\<lparr>decoder_manchester_state := s\<rparr>, v)) (em4100_on_bit (p\<lparr>decoder_manchester_state := ManchesterStateMid1\<rparr>) b)"
  by (cases p) (simp add: em4100_on_bit_def Let_def map_option_bind comp_def)

lemma on_bit_keeps:
  "em4100_on_bit p b = Some (q, v) \<Longrightarrow> clock_per_bit q = clock_per_bit p \<and> decoder_manchester_state q = decoder_manchester_state p"
  by (auto simp: em4100_on_bit_def Let_def bind_eq_Some_conv split: if_splits)

interpretation em4100: manchester_receiver protocol_em4100_decoder_feed decoder_manchester_state
  "\<lambda>p. p\<lparr>decoder_manchester_state := ManchesterStateMid1\<rparr>" em4100_on_bit em4100_short em4100_long
proof
  fix p :: ProtocolEM4100 and d :: u32 and e and l :: bool and s
  let ?rest = "\<lambda>p. p\<lparr>decoder_manchester_state := ManchesterStateMid1\<rparr>"
  assume e: "em4100_short (?rest p) d \<and> e = (if l then ManchesterEventShortLow else ManchesterEventShortHigh) \<or>
    em4100_long (?rest p) d \<and> e = (if l then ManchesterEventLongLow else ManchesterEventLongHigh)"
  have "em4100_short (?rest p) = em4100_short p" "em4100_long (?rest p) = em4100_long p" using windows_kept [of "?rest p" p] by simp_all
  then have feed: "protocol_em4100_decoder_feed p l d =
      (case manchester_advance (decoder_manchester_state p) e of
          (state, None) \<Rightarrow> Some (p\<lparr>decoder_manchester_state := state\<rparr>, False)
        | (state, Some data) \<Rightarrow> em4100_on_bit (p\<lparr>decoder_manchester_state := state\<rparr>) data)"
    using e windows_disjoint [of p d] by (cases l) (auto simp: protocol_em4100_decoder_feed_def Let_def)
  {
    assume "manchester_advance (decoder_manchester_state p) e = (s, None)"
    with feed show "\<exists>q. protocol_em4100_decoder_feed p l d = Some (q, False) \<and> decoder_manchester_state q = s \<and> ?rest q = ?rest p"
      by simp
  }
  {
    fix b r v
    assume "manchester_advance (decoder_manchester_state p) e = (s, Some b)" "em4100_on_bit (?rest p) b = Some (r, v)"
    with feed show "\<exists>q. protocol_em4100_decoder_feed p l d = Some (q, v) \<and> decoder_manchester_state q = s \<and> ?rest q = r"
      using on_bit_keeps [of "?rest p" b r v] by (simp add: on_bit_manchester [where p = p and s = s])
  }
next
  fix r b r' v
  assume "em4100_on_bit r b = Some (r', v)"
  then show "em4100_short r' = em4100_short r \<and> em4100_long r' = em4100_long r" by (intro windows_kept) (simp add: on_bit_keeps)
qed

subsection \<open>What the encoder plays\<close>

text \<open>The levels and durations of so many steps of the encoder.\<close>

fun em4100_play :: "nat \<Rightarrow> ProtocolEM4100 \<Rightarrow> LevelDuration list option" where
  "em4100_play 0 p = Some []"
| "em4100_play (Suc n) p = do {
     (ld, p) \<leftarrow> protocol_em4100_encoder_yield p;
     lds \<leftarrow> em4100_play n p;
     Some (ld # lds)
   }"

lemma play_bit:
  assumes w: "shifted_in (encoded_data p) (em_frame d)" and k: "encoded_data_index p = of_nat (k mod 64)" "encoded_polarity p"
  shows "\<exists>q. encoded_data q = encoded_data p \<and> encoded_data_index q = of_nat (Suc k mod 64) \<and> encoded_polarity q \<and>
    clock_per_bit q = clock_per_bit p \<and> em4100_play (Suc (Suc n)) p = (do {
      lds \<leftarrow> em4100_play n q;
      Some (map (\<lambda>l. level_duration_make l (ucast (clock_per_bit p) div 2)) [em_stream d k, \<not> em_stream d k] @ lds) })"
proof -
  define q where "q = p\<lparr>encoded_polarity := True, encoded_data_index := of_nat (Suc k mod 64)\<rparr>"
  have m: "k mod 64 < 64" by simp
  have u: "unat (of_nat (k mod 64) :: u8) = k mod 64" by (simp add: unat_of_nat)
  have "\<not> 63 < (of_nat (k mod 64) :: u8)" by (simp add: word_less_nat_alt u)
  moreover have "bit (encoded_data p) (63 - k mod 64) = em_stream d k"
    using frame_bit [OF w m] by (simp only: em_stream_def)
  moreover have "(if 64 \<le> (of_nat (k mod 64) :: u8) + 1 then 0 else of_nat (k mod 64) + 1) = (of_nat (Suc k mod 64) :: u8)"
  proof -
    have one: "(of_nat (k mod 64) :: u8) + 1 = of_nat (Suc (k mod 64))" by simp
    have "unat (of_nat (Suc (k mod 64)) :: u8) = Suc (k mod 64)" using m by (simp only: unat_of_nat) simp
    moreover have "Suc k mod 64 = (if Suc (k mod 64) = 64 then 0 else Suc (k mod 64))" by (simp add: mod_Suc)
    moreover have "k mod 64 \<noteq> 63 \<Longrightarrow> \<not> 63 \<le> k mod 64" using m by linarith
    ultimately show ?thesis unfolding one word_le_nat_alt by simp
  qed
  ultimately have "em4100_play (Suc (Suc n)) p = (do {
      lds \<leftarrow> em4100_play n q;
      Some (map (\<lambda>l. level_duration_make l (ucast (clock_per_bit p) div 2)) [em_stream d k, \<not> em_stream d k] @ lds) })"
    using k by (simp add: protocol_em4100_encoder_yield_def Let_def and_1_of_bool u q_def split del: if_split cong: if_cong)
  then show ?thesis using k by (intro exI [of _ q]) (simp add: q_def)
qed

lemma play_stream:
  assumes "shifted_in (encoded_data p) (em_frame d)" "encoded_data_index p = of_nat (k mod 64)" "encoded_polarity p"
  shows "em4100_play (2 * n) p =
    Some (map (\<lambda>l. level_duration_make l (ucast (clock_per_bit p) div 2)) (half_bits (map (em_stream d) [k..<k + n])))"
  using assms
proof (induction n arbitrary: p k)
  case (Suc n)
  obtain q where q: "encoded_data q = encoded_data p" "encoded_data_index q = of_nat (Suc k mod 64)" "encoded_polarity q"
    "clock_per_bit q = clock_per_bit p" "em4100_play (Suc (Suc (2 * n))) p = (do {
      lds \<leftarrow> em4100_play (2 * n) q;
      Some (map (\<lambda>l. level_duration_make l (ucast (clock_per_bit p) div 2)) [em_stream d k, \<not> em_stream d k] @ lds) })"
    using play_bit [OF Suc.prems] by blast
  have "[k..<k + Suc n] = k # [Suc k..<Suc k + n]" by (simp add: upt_conv_Cons)
  then show ?case using q(5) Suc.IH [of q "Suc k"] q(1-4) Suc.prems(1) by simp
qed simp

lemma get_level_of_make: "level_duration_get_level (level_duration_make l t) = l"
  by (simp add: level_duration_get_level_def level_duration_make_def LEVEL_DURATION_LEVEL_HIGH_def LEVEL_DURATION_LEVEL_LOW_def)

subsection \<open>From the encoder to the decoder\<close>

text \<open>C10: An encoder that plays \<open>n + 2\<close> frames of a card number and a decoder that measures the pulses of the line, each
  inside its windows for one or two halves of a bit: the decoder reports a card \<open>n\<close> times, each time the card number. It
  misses the first bit of the line and needs the header of the frame behind the one that it reports; the nine ones of
  another place of the stream are never taken for a header.\<close>

theorem em4100_transmission:
  assumes "length (em_data e) = 5" "length (em_data p) = 5"
    and "do { e \<leftarrow> protocol_em4100_encoder_start e; em4100_play (128 * (n + 2)) e } = Some line"
    and "measured (em4100_short p) (em4100_long p) (map level_duration_get_level line) pulses"
  shows "\<exists>q reports. hear_pulses protocol_em4100_decoder_feed pulses (protocol_em4100_decoder_start p) = Some (q, reports) \<and>
    length reports = n \<and> (\<forall>r \<in> set reports. protocol_em4100_get_data r = em_data e)"
proof -
  let ?d = "em_data e" and ?p = "protocol_em4100_decoder_start p"
  let ?rest = "\<lambda>p. p\<lparr>decoder_manchester_state := ManchesterStateMid1\<rparr>"
  obtain w where w: "protocol_em4100_encoder_start e = Some (e\<lparr>encoded_data := w, encoded_data_index := 0, encoded_polarity := True\<rparr>)"
    "shifted_in w (em_frame ?d)"
    using encoder_start_frame [OF assms(1)] by blast
  have "em4100_play (2 * (64 * (n + 2))) (e\<lparr>encoded_data := w, encoded_data_index := 0, encoded_polarity := True\<rparr>) =
      Some (map (\<lambda>l. level_duration_make l (ucast (clock_per_bit e) div 2)) (half_bits (map (em_stream ?d) [0..<0 + 64 * (n + 2)])))"
    using play_stream [of "e\<lparr>encoded_data := w, encoded_data_index := 0, encoded_polarity := True\<rparr>" ?d 0 "64 * (n + 2)"] w(2) by simp
  moreover have "2 * (64 * (n + 2)) = 128 * (n + 2)" by simp
  ultimately have levels: "map level_duration_get_level line = half_bits (map (em_stream ?d) [0..<64 * (n + 2)])"
    using assms(3) w(1) by (auto simp: comp_def get_level_of_make)
  define t where "t = 64 * n + 127"
  have "[0..<64 * (n + 2)] = 0 # map Suc [0..<t]"
    by (simp add: t_def upt_conv_Cons map_Suc_upt del: upt_Suc)
  moreover have "em_stream ?d 0" by (simp add: em_stream_def frame_header)
  ultimately have bits: "map (em_stream ?d) [0..<64 * (n + 2)] = True # heard ?d t"
    by (simp add: heard_def comp_def flip: Suc_eq_plus1)
  have state: "decoder_manchester_state ?p = ManchesterStateMid1" and rest: "?rest ?p = ?p"
    by (simp_all add: protocol_em4100_decoder_start_def)
  have "hearing ?d ?p 0" by (simp add: hearing_def registers_def heard_def protocol_em4100_decoder_start_def)
  then obtain q rs where q: "hear_bits em4100_on_bit (heard ?d t) ?p = Some (q, rs)" "length rs = (t - 72) div 64"
    "\<forall>r \<in> set rs. em_data r = ?d"
    using hear_heard [of ?d ?p t] assms(1) by blast
  have win: "em4100_short ?p = em4100_short p \<and> em4100_long ?p = em4100_long p"
    by (rule windows_kept) (simp add: protocol_em4100_decoder_start_def)
  obtain q' ps where ps: "hear_pulses protocol_em4100_decoder_feed pulses ?p = Some (q', ps)" "map ?rest ps = rs"
    using em4100.hear_line [OF state, of "heard ?d t" pulses q rs] assms(4) q(1) unfolding levels bits rest by (auto simp: win)
  have "(t - 72) div 64 = n" by (simp add: t_def)
  moreover have "\<forall>r \<in> set ps. em_data r = ?d" using q(3) unfolding ps(2) [symmetric] by simp
  ultimately show ?thesis using ps q(2) by (intro exI [of _ q'] exI [of _ ps]) (auto simp: protocol_em4100_get_data_def)
qed

text \<open>The runs of a Manchester line are of one or two halves, so every line can be measured.\<close>

lemma half_runs: "list_all (\<lambda>(l, n). n = 1 \<or> n = 2) (level_runs ((\<not> b) # half_bits bs))"
proof (induction bs arbitrary: b)
  case (Cons c bs)
  show ?case
  proof (cases "c = b")
    case True
    have "level_runs ((\<not> b) # half_bits (c # bs)) = (\<not> b, 1) # (b, 1) # level_runs ((\<not> b) # half_bits bs)"
      using level_runs_change [of "\<not> b" "(\<not> b) # half_bits bs"] level_runs_change [of b "half_bits bs"] True by simp
    with Cons [of b] show ?thesis by simp
  next
    case False
    then have "level_runs ((\<not> b) # half_bits (c # bs)) = (c, 2) # level_runs ((\<not> c) # half_bits bs)"
      using level_runs_two [of c "half_bits bs"] by simp
    with Cons [of c] show ?thesis by simp
  qed
qed simp

lemma nominal_measured:
  assumes "short (256 :: u32)" "long (512 :: u32)"
  shows "measured short long (half_bits (b # bs)) (map (\<lambda>(l, n). (l, if n = 1 then 256 else 512)) (level_runs (half_bits (b # bs))))"
proof -
  have "level_runs (half_bits (b # bs)) = (b, 1) # level_runs ((\<not> b) # half_bits bs)"
    using level_runs_change [of b "half_bits bs"] by simp
  with half_runs [of b bs] assms show ?thesis
    by (auto simp: measured_def list_all2_map2 list_all2_same list_all_iff split: prod.splits)
qed

definition sample_card :: ProtocolEM4100 where
  "sample_card = \<lparr>em_data = [0x12, 0x34, 0x56, 0x78, 0x9A], encoded_data = 0, encoded_epilogue = 0, encoded_data_index = 0,
     encoded_polarity = False, decoder_manchester_state = ManchesterStateStart0, clock_per_bit = 64\<rparr>"

theorem em4100_transmission_witness:
  "\<exists>line pulses q reports.
     do { e \<leftarrow> protocol_em4100_encoder_start sample_card; em4100_play (128 * (3 + 2)) e } = Some line \<and>
     measured (em4100_short sample_card) (em4100_long sample_card) (map level_duration_get_level line) pulses \<and>
     hear_pulses protocol_em4100_decoder_feed pulses (protocol_em4100_decoder_start sample_card) = Some (q, reports) \<and>
     length reports = 3 \<and> (\<forall>r \<in> set reports. protocol_em4100_get_data r = [0x12, 0x34, 0x56, 0x78, 0x9A])"
proof -
  let ?d = "em_data sample_card"
  have d: "?d = [0x12, 0x34, 0x56, 0x78, 0x9A]" by (simp add: sample_card_def)
  have len: "length ?d = 5" by (simp add: d)
  obtain w where w: "protocol_em4100_encoder_start sample_card =
      Some (sample_card\<lparr>encoded_data := w, encoded_data_index := 0, encoded_polarity := True\<rparr>)"
    "shifted_in w (em_frame ?d)"
    using encoder_start_frame [OF len] by blast
  let ?e = "sample_card\<lparr>encoded_data := w, encoded_data_index := 0, encoded_polarity := True\<rparr>"
  let ?bits = "map (em_stream ?d) [0..<0 + 320]"
  define line where "line = map (\<lambda>l. level_duration_make l (ucast (clock_per_bit ?e) div 2)) (half_bits ?bits)"
  have line: "do { e \<leftarrow> protocol_em4100_encoder_start sample_card; em4100_play (128 * (3 + 2)) e } = Some line"
    using play_stream [of ?e ?d 0 320] w by (simp add: line_def)
  have levels: "map level_duration_get_level line = half_bits ?bits" by (simp add: line_def comp_def get_level_of_make)
  have windows: "em4100_short sample_card 256" "em4100_long sample_card 512"
    by (simp_all add: em4100_short_def em4100_long_def protocol_em4100_get_short_time_low_def protocol_em4100_get_short_time_high_def
      protocol_em4100_get_long_time_low_def protocol_em4100_get_long_time_high_def protocol_em4100_get_time_divisor_def sample_card_def)
  obtain b bs where "?bits = b # bs" by (cases ?bits) simp_all
  with nominal_measured [of "em4100_short sample_card" "em4100_long sample_card" b bs] windows
  obtain pulses where pulses: "measured (em4100_short sample_card) (em4100_long sample_card) (map level_duration_get_level line) pulses"
    unfolding levels by auto
  from em4100_transmission [OF len len line pulses] line pulses show ?thesis unfolding d by blast
qed

end
