(* ===== verification/Datetime.thy ===== *)
theory Datetime
  imports Firmware_Prelude
begin

text \<open>
  Dates and timestamps (firmware/lib/datetime/datetime.c). Both conversions are loops over years and months; they undo each
  other up to the end of the year 2038. The seconds of the years before a date are computed in a signed 32-bit \<open>int\<close>;
  from 2039 on they do not fit it, which is undefined in C: the conversion has no result there (\<^const>\<open>None\<close>).
\<close>

record DateTime =
  dt_hour :: u8
  dt_minute :: u8
  dt_second :: u8
  dt_day :: u8
  dt_month :: u8
  dt_year :: u16
  dt_weekday :: u8

definition datetime_days_per_month :: "u8 list list" where
  "datetime_days_per_month =
     [[31, 28, 31, 30, 31, 30, 31, 31, 30, 31, 30, 31],
      [31, 29, 31, 30, 31, 30, 31, 31, 30, 31, 30, 31]]"

definition datetime_days_per_year :: "u16 list" where
  "datetime_days_per_year = [365, 366]"

definition datetime_validate_datetime :: "DateTime \<Rightarrow> bool" where
  "datetime_validate_datetime datetime =
     (\<not> (59 < dt_second datetime \<or> 59 < dt_minute datetime \<or> 23 < dt_hour datetime \<or>
         dt_year datetime < 2000 \<or> 2099 < dt_year datetime \<or>
         dt_month datetime = 0 \<or> 12 < dt_month datetime \<or>
         dt_day datetime = 0 \<or> 31 < dt_day datetime \<or>
         dt_weekday datetime = 0 \<or> 7 < dt_weekday datetime))"

definition datetime_is_leap_year :: "u16 \<Rightarrow> bool" where
  "datetime_is_leap_year year \<longleftrightarrow> year mod 4 = 0 \<and> year mod 100 \<noteq> 0 \<or> year mod 400 = 0"

definition datetime_get_days_per_year :: "u16 \<Rightarrow> u16" where
  "datetime_get_days_per_year year = datetime_days_per_year ! (if datetime_is_leap_year year then 1 else 0)"

definition datetime_get_days_per_month :: "bool \<Rightarrow> u8 \<Rightarrow> u8 option" where
  "datetime_get_days_per_month leap_year month =
     (if month = 0 then None
      else do {
        days \<leftarrow> rd datetime_days_per_month (if leap_year then 1 else 0);
        rd days (unat month - 1)
      })"

definition datetime_datetime_to_timestamp :: "DateTime \<Rightarrow> u32 option" where
  "datetime_datetime_to_timestamp datetime = do {
     let (years, leap_years) = fold (\<lambda>y (years, leap_years).
         if datetime_is_leap_year (of_nat y) then (years, leap_years + 1) else (years + 1, leap_years))
       [1970..<unat (dt_year datetime)] (0 :: u8, 0 :: u8);
     let seconds = (unat years * unat (datetime_days_per_year ! 0) + unat leap_years * unat (datetime_days_per_year ! 1)) * 86400;
     timestamp \<leftarrow> (if 2 ^ 31 \<le> seconds then None else Some (of_nat seconds));
     let leap_year = datetime_is_leap_year (dt_year datetime);
     timestamp \<leftarrow> ofold (\<lambda>m timestamp. do {
         days \<leftarrow> datetime_get_days_per_month leap_year (of_nat m);
         Some (timestamp + ucast days * 86400)
       }) [1..<unat (dt_month datetime)] timestamp;
     Some (timestamp + (ucast (dt_day datetime) - 1) * 86400 + ucast (dt_hour datetime) * 3600 +
       ucast (dt_minute datetime) * 60 + ucast (dt_second datetime))
   }"

lemma word_diff_less: "n \<noteq> 0 \<Longrightarrow> n \<le> (w :: u32) \<Longrightarrow> unat (w - n) < unat w"
  by (simp add: unat_sub word_le_nat_alt) (metis diff_less gr_zeroI le_zero_eq unat_eq_zero)

lemma days_per_year_range: "datetime_get_days_per_year year = (if datetime_is_leap_year year then 366 else 365)"
  by (simp add: datetime_get_days_per_year_def datetime_days_per_year_def)

lemma days_per_month_positive:
  assumes "datetime_get_days_per_month leap_year month = Some n"
  shows "n \<noteq> 0"
proof -
  obtain days where days: "rd datetime_days_per_month (if leap_year then 1 else 0) = Some days" "rd days (unat month - 1) = Some n"
    using assms by (auto simp: datetime_get_days_per_month_def bind_eq_Some_conv split: if_splits)
  then have "n \<in> set days" by (simp add: rd_Some_iff)
  moreover have "days \<in> set datetime_days_per_month" using days(1) by (simp add: rd_Some_iff)
  moreover have "\<forall>days \<in> set datetime_days_per_month. \<forall>n \<in> set days. n \<noteq> 0" by (simp add: datetime_days_per_month_def)
  ultimately show ?thesis by blast
qed

function year_loop :: "u32 \<Rightarrow> u16 \<Rightarrow> u32 \<times> u16" where
  "year_loop days year =
     (if ucast (datetime_get_days_per_year year) \<le> days
      then year_loop (days - ucast (datetime_get_days_per_year year)) (year + 1)
      else (days, year))"
  by auto
termination
  by (relation "measure (\<lambda>(days, year). unat days)") (simp_all add: word_diff_less days_per_year_range)

text \<open>The loop leaves the table after December.\<close>

function month_loop :: "u32 \<Rightarrow> bool \<Rightarrow> u8 \<Rightarrow> (u32 \<times> u8) option" where
  "month_loop days leap_year month =
     (case datetime_get_days_per_month leap_year month of
        None \<Rightarrow> None
      | Some n \<Rightarrow> if ucast n \<le> days then month_loop (days - ucast n) leap_year (month + 1) else Some (days, month))"
  by auto
termination
proof (relation "measure (\<lambda>(days, leap_year, month). unat days)")
  fix days :: u32 and leap_year :: bool and month n :: u8
  assume n: "datetime_get_days_per_month leap_year month = Some n" and le: "ucast n \<le> days"
  have "unat (ucast n :: u32) = unat n" by (rule unat_ucast_up) simp
  then have "(ucast n :: u32) \<noteq> 0" using days_per_month_positive [OF n] by (metis unat_0 unat_eq_zero)
  with le show "((days - ucast n, leap_year, month + 1), days, leap_year, month) \<in> measure (\<lambda>(days, leap_year, month). unat days)"
    by (simp add: word_diff_less)
qed simp

declare year_loop.simps [simp del] month_loop.simps [simp del]

definition datetime_timestamp_to_datetime :: "u32 \<Rightarrow> DateTime option" where
  "datetime_timestamp_to_datetime timestamp = do {
     let days = timestamp div 86400;
     let seconds_in_day = timestamp mod 86400;
     let weekday = (days + 3) mod 7 + 1;
     let (days, year) = year_loop days 1970;
     (days, month) \<leftarrow> month_loop days (datetime_is_leap_year year) 1;
     Some \<lparr>dt_hour = ucast (seconds_in_day div 3600), dt_minute = ucast (seconds_in_day mod 3600 div 60),
       dt_second = ucast (seconds_in_day mod 60), dt_day = ucast (days + 1), dt_month = month, dt_year = year,
       dt_weekday = ucast weekday\<rparr>
   }"

subsection \<open>Days before a date\<close>

definition year_days :: "nat \<Rightarrow> nat" where
  "year_days y = (if datetime_is_leap_year (of_nat y) then 366 else 365)"

definition month_days :: "bool \<Rightarrow> nat \<Rightarrow> nat" where
  "month_days leap m = (if m = 2 then if leap then 29 else 28 else if m \<in> {4, 6, 9, 11} then 30 else 31)"

definition before_year :: "nat \<Rightarrow> nat" where
  "before_year y = sum year_days {1970..<y}"

definition before_month :: "bool \<Rightarrow> nat \<Rightarrow> nat" where
  "before_month leap m = sum (month_days leap) {1..<m}"

lemma days_per_month_eq:
  assumes "1 \<le> m" "m \<le> 12"
  shows "datetime_get_days_per_month leap (of_nat m) = Some (of_nat (month_days leap m))"
proof -
  have "m \<in> {1, 2, 3, 4, 5, 6, 7, 8, 9, 10, 11, 12}" using assms by simp arith
  then show ?thesis
    by (elim insertE emptyE; cases leap)
      (simp_all add: datetime_get_days_per_month_def datetime_days_per_month_def rd_def month_days_def)
qed

lemma year_days_bounds: "365 \<le> year_days y" "year_days y \<le> 366"
  by (simp_all add: year_days_def)

lemma days_per_year_eq: "(ucast (datetime_get_days_per_year (of_nat y)) :: u32) = of_nat (year_days y)"
  by (simp add: days_per_year_range year_days_def)

lemma month_days_bounds: "28 \<le> month_days leap m" "month_days leap m \<le> 31"
  by (simp_all add: month_days_def)

lemma month_cast: "(ucast (of_nat (month_days leap m) :: u8) :: u32) = of_nat (month_days leap m)"
  by (simp add: month_days_def)

lemma split_sum:
  fixes a :: nat
  assumes "\<And>k. 0 < f k"
  shows "\<exists>y \<ge> a. \<exists>r < f y. (n :: nat) = sum f {a..<y} + r"
proof (induction n)
  case 0
  have "a \<le> a \<and> 0 < f a \<and> 0 = sum f {a..<a} + 0" using assms by simp
  then show ?case by blast
next
  case (Suc n)
  then obtain y r where y: "a \<le> y" "r < f y" "n = sum f {a..<y} + r" by blast
  show ?case
  proof (cases "Suc r < f y")
    case True
    then show ?thesis using y by (intro exI [of _ y]) auto
  next
    case False
    then have "Suc n = sum f {a..<Suc y} + 0" using y by simp
    then show ?thesis using y(1) assms by (intro exI [of _ "Suc y"]) auto
  qed
qed

lemma u32_le: "a < 2 ^ 32 \<Longrightarrow> b < 2 ^ 32 \<Longrightarrow> (of_nat a \<le> (of_nat b :: u32)) = (a \<le> b)"
  by (simp add: word_le_nat_alt unat_of_nat)

lemma year_loop_exact:
  assumes "r < year_days y'" "y \<le> y'" "y' < 2 ^ 16" "n = sum year_days {y..<y'} + r" "n < 2 ^ 32"
  shows "year_loop (of_nat n) (of_nat y) = (of_nat r, of_nat y')"
  using assms
proof (induction "y' - y" arbitrary: y n)
  case 0
  then have "y = y'" "n = r" by simp_all
  then show ?case using 0(2,6) year_days_bounds [of y']
    by (subst year_loop.simps) (simp add: days_per_year_eq u32_le)
next
  case (Suc d)
  then have y: "y < y'" by simp
  have n: "n = year_days y + (sum year_days {Suc y..<y'} + r)"
    using Suc.prems(4) y by (simp add: sum.atLeast_Suc_lessThan)
  have le: "of_nat (year_days y) \<le> (of_nat n :: u32)" using n Suc.prems(5) by (subst u32_le) simp_all
  have "of_nat n - (of_nat (year_days y) :: u32) = of_nat (sum year_days {Suc y..<y'} + r)" by (simp add: n)
  moreover have "(of_nat y + 1 :: u16) = of_nat (Suc y)" by simp
  ultimately have "year_loop (of_nat n) (of_nat y) = year_loop (of_nat (sum year_days {Suc y..<y'} + r)) (of_nat (Suc y))"
    using le by (subst year_loop.simps) (simp only: days_per_year_eq if_True)
  also have "\<dots> = (of_nat r, of_nat y')"
    using Suc.hyps(2) Suc.prems(1,3,5) n y by (intro Suc.hyps(1)) simp_all
  finally show ?case .
qed

lemma month_loop_exact:
  assumes "r < month_days leap m'" "1 \<le> m" "m \<le> m'" "m' \<le> 12" "n = sum (month_days leap) {m..<m'} + r" "n < 2 ^ 32"
  shows "month_loop (of_nat n) leap (of_nat m) = Some (of_nat r, of_nat m')"
  using assms
proof (induction "m' - m" arbitrary: m n)
  case 0
  then have m: "m = m'" "n = r" by simp_all
  have "datetime_get_days_per_month leap (of_nat m) = Some (of_nat (month_days leap m))"
    using 0 by (intro days_per_month_eq) simp_all
  moreover have "\<not> of_nat (month_days leap m) \<le> (of_nat n :: u32)" using 0(2) m month_days_bounds [of leap m] by (subst u32_le) simp_all
  ultimately show ?case using m by (subst month_loop.simps) (simp only: option.case month_cast if_False)
next
  case (Suc d)
  then have m: "m < m'" by simp
  have days: "datetime_get_days_per_month leap (of_nat m) = Some (of_nat (month_days leap m))"
    using Suc.prems m by (intro days_per_month_eq) simp_all
  have n: "n = month_days leap m + (sum (month_days leap) {Suc m..<m'} + r)"
    using Suc.prems(5) m by (simp add: sum.atLeast_Suc_lessThan)
  have le: "of_nat (month_days leap m) \<le> (of_nat n :: u32)" using n Suc.prems(6) by (subst u32_le) simp_all
  have "of_nat n - (of_nat (month_days leap m) :: u32) = of_nat (sum (month_days leap) {Suc m..<m'} + r)" by (simp add: n)
  moreover have "(of_nat m + 1 :: u8) = of_nat (Suc m)" by simp
  ultimately have "month_loop (of_nat n) leap (of_nat m) = month_loop (of_nat (sum (month_days leap) {Suc m..<m'} + r)) leap (of_nat (Suc m))"
    using le by (subst month_loop.simps) (simp only: days option.case month_cast if_True)
  also have "\<dots> = Some (of_nat r, of_nat m')"
    using Suc.hyps(2) Suc.prems n m by (intro Suc.hyps(1)) simp_all
  finally show ?case .
qed

lemma year_counts:
  assumes "y \<le> 2200"
  shows "\<exists>a b. fold (\<lambda>y (years, leap_years).
      if datetime_is_leap_year (of_nat y) then (years, leap_years + 1) else (years + 1, leap_years)) [1970..<y] (0 :: u8, 0 :: u8) =
      (of_nat a, of_nat b) \<and> a + b = y - 1970 \<and> 365 * a + 366 * b = before_year y"
  using assms
proof (induction y)
  case 0
  then show ?case by (simp add: before_year_def)
next
  case (Suc y)
  show ?case
  proof (cases "1970 \<le> y")
    case False
    then show ?thesis by (simp add: before_year_def)
  next
    case True
    obtain a b where ab: "fold (\<lambda>y (years, leap_years).
      if datetime_is_leap_year (of_nat y) then (years, leap_years + 1) else (years + 1, leap_years)) [1970..<y] (0 :: u8, 0 :: u8) =
      (of_nat a, of_nat b)" "a + b = y - 1970" "365 * a + 366 * b = before_year y"
      using Suc by auto
    have days: "before_year (Suc y) = before_year y + year_days y" using True by (simp add: before_year_def)
    show ?thesis
    proof (cases "datetime_is_leap_year (of_nat y)")
      case leap: True
      then show ?thesis using True ab days
        by (intro exI [of _ a] exI [of _ "Suc b"]) (simp add: year_days_def)
    next
      case leap: False
      then show ?thesis using True ab days
        by (intro exI [of _ "Suc a"] exI [of _ b]) (simp add: year_days_def)
    qed
  qed
qed

lemma month_sum:
  assumes "m \<le> 13"
  shows "ofold (\<lambda>m timestamp. do { days \<leftarrow> datetime_get_days_per_month leap (of_nat m); Some (timestamp + ucast days * 86400) })
     [1..<m] t = Some (t + of_nat (before_month leap m) * (86400 :: u32))"
  using assms
proof (induction m)
  case 0
  then show ?case by (simp add: before_month_def)
next
  case (Suc m)
  show ?case
  proof (cases "1 \<le> m")
    case False
    then have "[1..<Suc m] = []" "{1..<Suc m} = {}" by auto
    then show ?thesis by (simp add: before_month_def)
  next
    case True
    have "datetime_get_days_per_month leap (of_nat m) = Some (of_nat (month_days leap m))"
      using True Suc.prems by (intro days_per_month_eq) simp_all
    then show ?thesis using True Suc by (simp add: ofold_append before_month_def month_cast algebra_simps)
  qed
qed

text \<open>The date of a day and a second of it.\<close>

definition days_of :: "DateTime \<Rightarrow> nat" where
  "days_of dt = before_year (unat (dt_year dt)) + before_month (datetime_is_leap_year (dt_year dt)) (unat (dt_month dt)) +
     (unat (dt_day dt) - 1)"

definition seconds_of :: "DateTime \<Rightarrow> nat" where
  "seconds_of dt = days_of dt * 86400 + unat (dt_hour dt) * 3600 + unat (dt_minute dt) * 60 + unat (dt_second dt)"

lemma to_timestamp_eq:
  assumes "unat (dt_year dt) \<le> 2200" "unat (dt_month dt) \<le> 12" "1 \<le> unat (dt_day dt)"
  shows "datetime_datetime_to_timestamp dt =
    (if 2 ^ 31 \<le> before_year (unat (dt_year dt)) * 86400 then None else Some (of_nat (seconds_of dt)))"
proof -
  let ?y = "unat (dt_year dt)"
  obtain a b where ab: "fold (\<lambda>y (years, leap_years).
      if datetime_is_leap_year (of_nat y) then (years, leap_years + 1) else (years + 1, leap_years)) [1970..<?y] (0 :: u8, 0 :: u8) =
      (of_nat a, of_nat b)" "a + b = ?y - 1970" "365 * a + 366 * b = before_year ?y"
    using year_counts [OF assms(1)] by blast
  have cast: "unat (of_nat a :: u8) = a" "unat (of_nat b :: u8) = b"
    using ab(2) assms(1) by (simp_all add: unat_of_nat)
  have years: "(a * unat (datetime_days_per_year ! 0) + b * unat (datetime_days_per_year ! 1)) * 86400 = before_year ?y * 86400"
    using ab(3) by (simp add: datetime_days_per_year_def algebra_simps)
  define d where "d = unat (dt_day dt) - 1"
  have day: "ucast (dt_day dt) - 1 = (of_nat d :: u32)"
    using assms(3) by (simp add: d_def of_nat_diff unsigned_of_nat)
  have m: "unat (dt_month dt) \<le> 13" using assms(2) by simp
  have "seconds_of dt = (before_year ?y + before_month (datetime_is_leap_year (dt_year dt)) (unat (dt_month dt)) + d) * 86400 +
      unat (dt_hour dt) * 3600 + unat (dt_minute dt) * 60 + unat (dt_second dt)"
    by (simp only: seconds_of_def days_of_def d_def)
  then have "of_nat (before_year ?y * 86400) + of_nat (before_month (datetime_is_leap_year (dt_year dt)) (unat (dt_month dt))) * 86400 +
      of_nat d * 86400 + ucast (dt_hour dt) * 3600 + ucast (dt_minute dt) * 60 + ucast (dt_second dt) = (of_nat (seconds_of dt) :: u32)"
    by (simp add: algebra_simps)
  then show ?thesis
    by (simp only: datetime_datetime_to_timestamp_def Let_def ab(1) prod.case cast years month_sum [OF m] day) simp
qed

lemma before_year_lower: "1970 \<le> y \<Longrightarrow> 365 * (y - 1970) \<le> before_year y"
proof (induction y)
  case (Suc y)
  then show ?case using year_days_bounds(1) [of y] by (cases "1970 \<le> y") (simp_all add: before_year_def)
qed simp

lemma before_month_end: "before_month leap 13 = (if leap then 366 else 365)"
proof -
  have "{1..<13 :: nat} = {1, 2, 3, 4, 5, 6, 7, 8, 9, 10, 11, 12}" by auto arith
  then show ?thesis by (simp add: before_month_def month_days_def)
qed

lemma before_month_mono: "m \<le> m' \<Longrightarrow> before_month leap m \<le> before_month leap m'"
  unfolding before_month_def by (rule sum_mono2) auto

text \<open>Every day has a date.\<close>

lemma day_split:
  obtains y m d where "1970 \<le> y" "1 \<le> m" "m \<le> 12" "d < month_days (datetime_is_leap_year (of_nat y)) m"
    "n = before_year y + before_month (datetime_is_leap_year (of_nat y)) m + d"
    "before_month (datetime_is_leap_year (of_nat y)) m + d < year_days y"
proof -
  have pos: "0 < year_days k" for k using year_days_bounds(1) [of k] by simp
  have mpos: "0 < month_days l k" for l k using month_days_bounds(1) [of l k] by simp
  obtain y r where y: "1970 \<le> y" "r < year_days y" "n = before_year y + r"
    using split_sum [of year_days 1970 n, OF pos] by (auto simp: before_year_def)
  let ?l = "datetime_is_leap_year (of_nat y)"
  obtain m d where m: "1 \<le> m" "d < month_days ?l m" "r = before_month ?l m + d"
    using split_sum [of "month_days ?l" 1 r, OF mpos] by (auto simp: before_month_def)
  have "m \<le> 12"
  proof (rule ccontr)
    assume "\<not> m \<le> 12"
    then have "before_month ?l 13 \<le> before_month ?l m" by (intro before_month_mono) simp
    then show False using y(2) m(3) by (simp add: before_month_end year_days_def split: if_splits)
  qed
  with y m show thesis by (intro that [of y m d]) simp_all
qed

text \<open>A date of the calendar with a time of the day.\<close>

definition calendar :: "DateTime \<Rightarrow> bool" where
  "calendar dt \<longleftrightarrow> 1970 \<le> unat (dt_year dt) \<and> 1 \<le> unat (dt_month dt) \<and> unat (dt_month dt) \<le> 12 \<and>
     1 \<le> unat (dt_day dt) \<and> unat (dt_day dt) \<le> month_days (datetime_is_leap_year (dt_year dt)) (unat (dt_month dt)) \<and>
     unat (dt_hour dt) < 24 \<and> unat (dt_minute dt) < 60 \<and> unat (dt_second dt) < 60"

lemma ucast_of_nat_u32: "(ucast (of_nat n :: u32) :: u8) = of_nat n"
  by (rule bit_word_eqI) (simp add: bit_simps)

lemma from_timestamp_eq:
  assumes y: "1970 \<le> y" "y < 2 ^ 16" and m: "1 \<le> m" "m \<le> 12" and d: "d < month_days (datetime_is_leap_year (of_nat y)) m"
    and n: "n = before_year y + before_month (datetime_is_leap_year (of_nat y)) m + d"
    and r: "before_month (datetime_is_leap_year (of_nat y)) m + d < year_days y"
    and s: "s < 86400" and t: "n * 86400 + s < 2 ^ 32"
  shows "datetime_timestamp_to_datetime (of_nat (n * 86400 + s)) = Some \<lparr>dt_hour = of_nat (s div 3600),
    dt_minute = of_nat (s mod 3600 div 60), dt_second = of_nat (s mod 60), dt_day = of_nat (d + 1), dt_month = of_nat m,
    dt_year = of_nat y, dt_weekday = of_nat ((n + 3) mod 7 + 1)\<rparr>"
proof -
  let ?t = "of_nat (n * 86400 + s) :: u32" and ?l = "datetime_is_leap_year (of_nat y)"
  have u: "unat ?t = n * 86400 + s" by (subst unat_of_nat) (use t in simp)
  have small: "unat (of_nat k :: u32) = k" if "k < 2 ^ 32" for k using that by (simp add: unat_of_nat)
  have div: "?t div 86400 = of_nat n" and mod: "?t mod 86400 = of_nat s"
    using u s t by (simp_all add: word_unat_eq_iff unat_div unat_mod small)
  have r32: "before_month ?l m + d < 2 ^ 32" using r year_days_bounds(2) [of y] by simp
  have "n = sum year_days {1970..<y} + (before_month ?l m + d)" using n by (simp add: before_year_def)
  then have years: "year_loop (of_nat n) 1970 = (of_nat (before_month ?l m + d), of_nat y)"
    using year_loop_exact [OF r y(1,2) _, of n] t by simp
  have months: "month_loop (of_nat (before_month ?l m + d)) ?l 1 = Some (of_nat d, of_nat m)"
    using month_loop_exact [OF d _ m _ r32] by (simp add: before_month_def)
  have s32: "s < 2 ^ 32" "n < 2 ^ 32 - 10" using s t by simp_all
  have "(of_nat s :: u32) div 3600 = of_nat (s div 3600)" "(of_nat s :: u32) mod 3600 div 60 = of_nat (s mod 3600 div 60)"
    "(of_nat s :: u32) mod 60 = of_nat (s mod 60)" "((of_nat n :: u32) + 3) mod 7 + 1 = of_nat ((n + 3) mod 7 + 1)"
    using s32 by (simp_all add: word_unat_eq_iff unat_div unat_mod small unat_word_ariths)
  moreover have "ucast (of_nat d + 1 :: u32) = (of_nat (d + 1) :: u8)"
    using ucast_of_nat_u32 [of "d + 1"] by (simp only: of_nat_add of_nat_1)
  ultimately show ?thesis
    by (simp only: datetime_timestamp_to_datetime_def Let_def div mod years months prod.case bind.bind_lunit ucast_of_nat_u32)
qed

lemma year_reached: "before_year y * 86400 < 2 ^ 32 \<Longrightarrow> y \<le> 2200"
proof (rule ccontr)
  assume small: "before_year y * 86400 < 2 ^ 32" and y: "\<not> y \<le> 2200"
  then have "365 * (y - 1970) \<le> before_year y" by (intro before_year_lower) simp
  with small y show False by simp
qed

lemma before_lists:
  "before_year y = sum_list (map year_days [1970..<y])" "before_month leap m = sum_list (map (month_days leap) [1..<m])"
  by (simp_all add: before_year_def before_month_def interv_sum_list_conv_sum_set_nat)

lemma year_days_nat: "y < 65536 \<Longrightarrow> year_days y = (if y mod 4 = 0 \<and> y mod 100 \<noteq> 0 \<or> y mod 400 = 0 then 366 else 365)"
  by (simp add: year_days_def datetime_is_leap_year_def word_unat_eq_iff unat_mod unat_of_nat)

lemma before_2039: "before_year 2038 = 24837" "before_year 2039 = 25202"
  by (simp_all add: before_lists upt_rec_numeral year_days_nat)

lemma before_year_mono: "y \<le> y' \<Longrightarrow> before_year y \<le> before_year y'"
  unfolding before_year_def by (rule sum_mono2) auto

lemma int_fits: "before_year y * 86400 < 2 ^ 31 \<longleftrightarrow> y \<le> 2038"
  using before_year_mono [of y 2038] before_year_mono [of 2039 y] before_2039 by (cases "y \<le> 2038") simp_all

text \<open>C33: Every 32-bit timestamp is turned into the date and time of the calendar that it counts the seconds to: the
  loops over years and months end and stay inside their tables. Before the year 2039 (second 2177452800) that date is
  turned back into the timestamp; from there on the way back has no defined result, since the product of line 55
  overflows a signed \<open>int\<close>.\<close>

theorem timestamp_roundtrip:
  "\<exists>dt. datetime_timestamp_to_datetime t = Some dt \<and> calendar dt \<and> seconds_of dt = unat t \<and>
     datetime_datetime_to_timestamp dt = (if t < 2177452800 then Some t else None)"
proof -
  define n s where "n = unat t div 86400" and "s = unat t mod 86400"
  have t: "unat t = n * 86400 + s" "s < 86400" by (simp_all add: n_def s_def)
  have "unat t < 2 ^ LENGTH(32)" by (rule unsigned_less)
  then have t32: "n * 86400 + s < 2 ^ 32" by (simp only: t(1)) simp
  obtain y m d where y: "1970 \<le> y" and m: "1 \<le> m" "m \<le> 12" and d: "d < month_days (datetime_is_leap_year (of_nat y)) m"
    and n: "n = before_year y + before_month (datetime_is_leap_year (of_nat y)) m + d"
    and r: "before_month (datetime_is_leap_year (of_nat y)) m + d < year_days y"
    by (rule day_split [of n])
  have y2: "y \<le> 2200" using n t32 by (intro year_reached) simp
  let ?dt = "\<lparr>dt_hour = of_nat (s div 3600), dt_minute = of_nat (s mod 3600 div 60), dt_second = of_nat (s mod 60),
    dt_day = of_nat (d + 1), dt_month = of_nat m, dt_year = of_nat y, dt_weekday = of_nat ((n + 3) mod 7 + 1)\<rparr>"
  have dt: "datetime_timestamp_to_datetime t = Some ?dt"
    using from_timestamp_eq [OF y _ m d n r t(2) t32] y2 t(1) [symmetric] by simp
  have d31: "d < 31" using d month_days_bounds(2) by (rule less_le_trans)
  have hour: "s div 3600 < 24" "s mod 3600 div 60 < 60" using t(2) by (simp_all add: less_mult_imp_div_less)
  have fields: "unat (dt_year ?dt) = y" "unat (dt_month ?dt) = m" "unat (dt_day ?dt) = d + 1" "unat (dt_hour ?dt) = s div 3600"
    "unat (dt_minute ?dt) = s mod 3600 div 60" "unat (dt_second ?dt) = s mod 60"
    using y2 m d31 hour by (simp_all add: unat_of_nat del: of_nat_add of_nat_Suc)
  have cal: "calendar ?dt" unfolding calendar_def fields using y m d hour by simp
  have "s mod 3600 mod 60 = s mod 60" by (simp add: mod_mod_cancel)
  then have "s = s div 3600 * 3600 + s mod 3600 div 60 * 60 + s mod 60"
    using div_mult_mod_eq [of s 3600] div_mult_mod_eq [of "s mod 3600" 60] by linarith
  moreover have "days_of ?dt = n" 
    by (simp only: days_of_def fields) (simp only: DateTime.select_convs add_diff_cancel_right' n [symmetric])
  ultimately have sec: "seconds_of ?dt = unat t" by (simp only: seconds_of_def fields t(1))
  have "before_year y \<le> n" "n < before_year (Suc y)" using n r y by (simp_all add: before_year_def)
  moreover have "unat (of_nat 2177452800 :: u32) = 2177452800" by (simp only: unat_of_nat) simp
  then have "unat (2177452800 :: u32) = 2177452800" by (simp only: of_nat_numeral)
  then have "t < 2177452800 \<longleftrightarrow> n < 25202" using t by (simp only: word_less_nat_alt) linarith
  ultimately have "t < 2177452800 \<longleftrightarrow> y \<le> 2038"
    using before_year_mono [of 2039 y] before_year_mono [of "Suc y" 2039] before_2039 by (cases "y \<le> 2038") simp_all
  moreover have "datetime_datetime_to_timestamp ?dt =
      (if 2 ^ 31 \<le> before_year (unat (dt_year ?dt)) * 86400 then None else Some (of_nat (seconds_of ?dt)))"
    by (rule to_timestamp_eq) (use y2 m fields in simp_all)
  then have "datetime_datetime_to_timestamp ?dt = (if 2 ^ 31 \<le> before_year y * 86400 then None else Some t)"
    by (simp only: sec fields(1) of_nat_unat ucast_id)
  ultimately have "datetime_datetime_to_timestamp ?dt = (if t < 2177452800 then Some t else None)"
    using int_fits [of y] by (metis not_less)
  with dt cal sec show ?thesis by blast
qed

lemma month_fits:
  assumes "m \<le> 12" "1 \<le> m" "d < month_days leap m"
  shows "before_month leap m + d < (if leap then 366 else 365)"
proof -
  have "before_month leap m + month_days leap m = before_month leap (Suc m)" using assms(2) by (simp add: before_month_def)
  also have "\<dots> \<le> before_month leap 13" using assms(1) by (intro before_month_mono) simp
  finally show ?thesis using assms(3) by (simp add: before_month_end)
qed

lemma clock:
  assumes "m < 60" "s < (60 :: nat)"
  shows "(h * 3600 + m * 60 + s) div 3600 = h" "(h * 3600 + m * 60 + s) mod 3600 div 60 = m" "(h * 3600 + m * 60 + s) mod 60 = s"
proof -
  have r: "m * 60 + s < 3600" using assms by simp
  then show "(h * 3600 + m * 60 + s) div 3600 = h" by (simp add: add.assoc)
  have "(h * 3600 + m * 60 + s) mod 3600 = m * 60 + s" using r by (simp add: add.assoc)
  then show "(h * 3600 + m * 60 + s) mod 3600 div 60 = m" using assms by simp
  have "h * 3600 + m * 60 + s = (h * 60 + m) * 60 + s" by simp
  then show "(h * 3600 + m * 60 + s) mod 60 = s" using assms by (simp only: mod_mult_self3 mod_less)
qed

text \<open>A date of the calendar up to the year 2038 is turned into a timestamp and back into the same date and time; the
  day of the week is computed from the count of the days.\<close>

theorem date_roundtrip:
  assumes c: "calendar dt" and y: "unat (dt_year dt) \<le> 2038"
  shows "\<exists>t. datetime_datetime_to_timestamp dt = Some t \<and>
    datetime_timestamp_to_datetime t = Some (dt\<lparr>dt_weekday := of_nat ((days_of dt + 3) mod 7 + 1)\<rparr>)"
proof -
  let ?y = "unat (dt_year dt)" and ?m = "unat (dt_month dt)" and ?d = "unat (dt_day dt) - 1"
    and ?s = "unat (dt_hour dt) * 3600 + unat (dt_minute dt) * 60 + unat (dt_second dt)"
  let ?l = "datetime_is_leap_year (dt_year dt)"
  have y1: "1970 \<le> ?y" "?y < 2 ^ 16" and m: "1 \<le> ?m" "?m \<le> 12" and d: "?d < month_days ?l ?m" "1 \<le> unat (dt_day dt)"
    and h: "unat (dt_hour dt) < 24" "unat (dt_minute dt) < 60" "unat (dt_second dt) < 60"
    using c y by (auto simp: calendar_def)
  have l: "datetime_is_leap_year (of_nat ?y) = ?l" by simp
  have s: "?s < 86400" using h by linarith
  have r: "before_month ?l ?m + ?d < year_days ?y"
    using month_fits [OF m(2,1) d(1)] by (simp add: year_days_def)
  have "before_year ?y + year_days ?y = before_year (Suc ?y)" using y1 by (simp add: before_year_def)
  also have "\<dots> \<le> 25202" using before_year_mono [of "Suc ?y" 2039] y by (simp add: before_2039)
  finally have days: "days_of dt < 25202" using r by (simp add: days_of_def)
  have t: "seconds_of dt = days_of dt * 86400 + ?s" by (simp add: seconds_of_def)
  have t32: "days_of dt * 86400 + ?s < 2 ^ 32" using days s by simp
  have to: "datetime_datetime_to_timestamp dt = Some (of_nat (seconds_of dt))"
    using to_timestamp_eq [of dt] y m d int_fits [of ?y] by simp
  have "?s div 3600 = unat (dt_hour dt)" "?s mod 3600 div 60 = unat (dt_minute dt)" "?s mod 60 = unat (dt_second dt)"
    using h clock by simp_all
  then have "datetime_timestamp_to_datetime (of_nat (seconds_of dt)) = Some (dt\<lparr>dt_weekday := of_nat ((days_of dt + 3) mod 7 + 1)\<rparr>)"
    using from_timestamp_eq [OF y1 m, unfolded l, OF d(1) days_of_def r s t32] d(2) by (simp add: t)
  with to show ?thesis by blast
qed

theorem date_roundtrip_witness:
  "\<exists>t. datetime_datetime_to_timestamp \<lparr>dt_hour = 23, dt_minute = 59, dt_second = 58, dt_day = 29, dt_month = 2, dt_year = 2036,
      dt_weekday = 1\<rparr> = Some t \<and>
    datetime_timestamp_to_datetime t = Some \<lparr>dt_hour = 23, dt_minute = 59, dt_second = 58, dt_day = 29, dt_month = 2,
      dt_year = 2036, dt_weekday = 5\<rparr>"
proof -
  let ?dt = "\<lparr>dt_hour = 23, dt_minute = 59, dt_second = 58, dt_day = 29, dt_month = 2, dt_year = 2036, dt_weekday = 1\<rparr>"
  have "calendar ?dt" by code_simp
  moreover have "unat (dt_year ?dt) \<le> 2038" by simp
  moreover have "(of_nat ((days_of ?dt + 3) mod 7 + 1) :: u8) = 5"
    by (simp add: days_of_def before_lists upt_rec_numeral upt_conv_Cons year_days_nat month_days_def)
  ultimately show ?thesis using date_roundtrip [of ?dt] by simp
qed

end
