(* ===== verification/Bit_Lib_Facts.thy ===== *)
theory Bit_Lib_Facts
  imports Bit_Lib
begin

text \<open>
  Correctness of the bit library: the accessor contract \<open>bit_store\<close> and its
  interpretation on \<open>bit_lib_get_bit\<close> / \<open>bit_lib_set_bit\<close>, the functional
  specification of every buffer routine in terms of \<open>msb_bit\<close>, the CRC residue
  theorem and the number/byte round trips.
\<close>

subsection \<open>The accessor contract\<close>

text \<open>
  A store of bits: a reader and a writer that succeed exactly on the positions of the
  store, the writer changing the bit it is given and no other. The bit library's MSB-first
  accessors are one instance; other components provide theirs.
\<close>

locale bit_store =
  fixes get :: "'d \<Rightarrow> nat \<Rightarrow> bool option"
    and set_b :: "'d \<Rightarrow> nat \<Rightarrow> bool \<Rightarrow> 'd option"
    and size_b :: "'d \<Rightarrow> nat"
    and view :: "'d \<Rightarrow> nat \<Rightarrow> bool"
  assumes get_ok: "p < size_b d \<Longrightarrow> get d p = Some (view d p)"
    and set_ok: "p < size_b d \<Longrightarrow>
      \<exists>d'. set_b d p b = Some d' \<and> size_b d' = size_b d \<and>
           (\<forall>q < size_b d. view d' q = (if q = p then b else view d q))"
begin

text \<open>Writing a run of bits one by one from a source that is fixed before the loop.\<close>

lemma write_run:
  assumes "pos + n \<le> size_b d"
  shows "\<exists>d'. ofold (\<lambda>i d. set_b d (pos + i) (f i)) [0..<n] d = Some d' \<and> size_b d' = size_b d \<and>
    (\<forall>q < size_b d. view d' q = (if pos \<le> q \<and> q < pos + n then f (q - pos) else view d q))"
proof -
  let ?I = "\<lambda>k e. size_b e = size_b d \<and>
    (\<forall>q < size_b d. view e q = (if pos \<le> q \<and> q < pos + k then f (q - pos) else view d q))"
  have "\<exists>d'. ofold (\<lambda>i d. set_b d (pos + i) (f i)) [0..<n] d = Some d' \<and> ?I n d'"
  proof (rule ofold_upt_inv)
    show "?I 0 d" by auto
  next
    fix k e
    assume k: "k < n" and I: "?I k e"
    with assms have "pos + k < size_b e" by simp
    from set_ok [OF this, of "f k"] obtain e' where e':
      "set_b e (pos + k) (f k) = Some e'" "size_b e' = size_b e"
      "\<forall>q < size_b e. view e' q = (if q = pos + k then f k else view e q)"
      by blast
    moreover have "?I (Suc k) e'"
      using I e' by (auto simp: less_Suc_eq)
    ultimately show "\<exists>t'. set_b e (pos + k) (f k) = Some t' \<and> ?I (Suc k) t'"
      by blast
  qed
  then show ?thesis by blast
qed

text \<open>Exchanging two bits.\<close>

lemma swap_bits:
  assumes "p < size_b d" "q < size_b d"
  shows "\<exists>d'. do { x \<leftarrow> get d p; y \<leftarrow> get d q; d1 \<leftarrow> set_b d p y; set_b d1 q x } = Some d' \<and>
    size_b d' = size_b d \<and>
    (\<forall>r < size_b d. view d' r = (if r = p then view d q else if r = q then view d p else view d r))"
proof -
  obtain d1 where d1: "set_b d p (view d q) = Some d1" "size_b d1 = size_b d"
      "\<forall>r < size_b d. view d1 r = (if r = p then view d q else view d r)"
    using set_ok [OF assms(1)] by blast
  moreover obtain d2 where "set_b d1 q (view d p) = Some d2" "size_b d2 = size_b d1"
      "\<forall>r < size_b d1. view d2 r = (if r = q then view d p else view d1 r)"
    using set_ok [of q d1] assms d1 by metis
  ultimately show ?thesis
    using assms by (auto simp: get_ok)
qed

end

subsection \<open>Single bits\<close>

lemma set_bit_msb:
  assumes "p < 8 * length d"
  shows "\<exists>d'. bit_lib_set_bit d p b = Some d' \<and> length d' = length d \<and>
    (\<forall>q < 8 * length d. msb_bit d' q = (if q = p then b else msb_bit d q))"
proof -
  let ?i = "p div 8" and ?k = "7 - p mod 8"
  let ?v = "if b then d ! ?i OR push_bit ?k 1 else d ! ?i AND NOT (push_bit ?k 1)"
  from assms have i: "?i < length d" by (rule div_8_less)
  have bits: "bit ?v j = (if j = ?k then b else bit (d ! ?i) j)" if "j < 8" for j
    using that by (auto simp: bit_simps)
  have "msb_bit (d[?i := ?v]) q = (if q = p then b else msb_bit d q)" for q
  proof (cases "q div 8 = ?i")
    case True
    have "7 - q mod 8 < 8" by simp
    then show ?thesis
      using True i bits [of "7 - q mod 8"] div_mod_8_eq [of q p]
      by (auto simp: msb_bit_def)
  next
    case False
    then show ?thesis by (auto simp: msb_bit_def)
  qed
  then show ?thesis
    using i by (auto simp: bit_lib_set_bit_def rd_def wr_def)
qed

lemma get_bit_msb: "p < 8 * length d \<Longrightarrow> bit_lib_get_bit d p = Some (msb_bit d p)"
  using div_8_less [of p "length d"]
  by (simp add: bit_lib_get_bit_def msb_bit_def rd_def bit_drop_bit_eq)

interpretation msb: bit_store bit_lib_get_bit bit_lib_set_bit "\<lambda>d. 8 * length d" msb_bit
proof unfold_locales
  show "bit_lib_get_bit d p = Some (msb_bit d p)" if "p < 8 * length d" for p d
    using that by (rule get_bit_msb)
  show "\<exists>d'. bit_lib_set_bit d p b = Some d' \<and> 8 * length d' = 8 * length d \<and>
      (\<forall>q < 8 * length d. msb_bit d' q = (if q = p then b else msb_bit d q))"
    if "p < 8 * length d" for p d b
    using set_bit_msb [OF that, of b] by auto
qed

lemma msb_bit_update_other:
  "i < length d \<Longrightarrow> q div 8 \<noteq> i \<Longrightarrow> msb_bit (d[i := v]) q = msb_bit d q"
  by (auto simp: msb_bit_def)

lemma msb_bit_at: "m < 8 \<Longrightarrow> msb_bit d (8 * i + m) = bit (d ! i) (7 - m)"
  by (simp add: msb_bit_def)

lemma bytes_eq_msbI:
  assumes "length xs = length ys" and "\<And>p. p < 8 * length ys \<Longrightarrow> msb_bit xs p = msb_bit ys p"
  shows "xs = ys"
proof (rule nth_equalityI [OF assms(1)])
  fix i
  assume i: "i < length xs"
  show "xs ! i = ys ! i"
  proof (rule bit_word_eqI)
    fix n
    assume "n < LENGTH(8)"
    then have m: "7 - n < 8" "7 - (7 - n) = n" by auto
    from assms(2) [of "8 * i + (7 - n)"] assms(1) i m(1)
    have "msb_bit xs (8 * i + (7 - n)) = msb_bit ys (8 * i + (7 - n))" by simp
    then show "bit (xs ! i) n = bit (ys ! i) n"
      using m by (simp only: msb_bit_at)
  qed
qed

lemma set_bits_msb:
  assumes "0 < n" "n \<le> 8" "pos + n \<le> 8 * length d"
  shows "\<exists>d'. bit_lib_set_bits d pos byte n = Some d' \<and> length d' = length d \<and>
    (\<forall>q < 8 * length d.
       msb_bit d' q = (if pos \<le> q \<and> q < pos + n then bit byte (n - 1 - (q - pos)) else msb_bit d q))"
  using msb.write_run [OF assms(3), of "\<lambda>i. bit byte (n - 1 - i)"] assms
  by (auto simp: bit_lib_set_bits_def bit_drop_bit_eq)


lemma shift_in_bit: "m < 8 \<Longrightarrow> bit (push_bit 1 (x :: u8) OR of_bool c) m = (if m = 0 then c else bit x (m - 1))"
  by (auto simp: bit_simps)

lemma shift_in_msb:
  assumes "p div 8 < length d" and "e ! (p div 8) = push_bit 1 (d ! (p div 8)) OR of_bool c"
  shows "msb_bit e p = (if p mod 8 = 7 then c else msb_bit d (p + 1))"
proof (cases "p mod 8 = 7")
  case True
  with assms(2) show ?thesis
    by (simp add: msb_bit_def shift_in_bit)
next
  case False
  define i s where "i = p div 8" and "s = p mod 8"
  then have p: "p = 8 * i + s" and s: "s < 7" using False by simp_all
  have "msb_bit d (p + 1) = bit (d ! i) (7 - (s + 1))"
    using s msb_bit_at [of "s + 1" d i] by (simp add: p add.assoc)
  moreover have "msb_bit e p = bit (e ! i) (7 - s)"
    using s msb_bit_at [of s e i] by (simp add: p)
  ultimately show ?thesis
    using False assms(2) s by (simp add: shift_in_bit i_def [symmetric])
qed

lemma bit_lib_push_bit_bytes:
  assumes "0 < n" "n \<le> length d"
  shows "\<exists>e. bit_lib_push_bit d n b = Some e \<and> length e = length d \<and>
    (\<forall>j < length d. e ! j =
      (if j + 1 < n then push_bit 1 (d ! j) OR of_bool (bit (d ! (j + 1)) 7)
       else if j + 1 = n then push_bit 1 (d ! j) OR of_bool b else d ! j))"
proof -
  let ?I = "\<lambda>k e. length e = length d \<and>
    (\<forall>j < length d. e ! j =
      (if j < k then push_bit 1 (d ! j) OR of_bool (bit (d ! (j + 1)) 7) else d ! j))"
  let ?f = "\<lambda>i e. do { x \<leftarrow> rd e i; y \<leftarrow> rd e (i + 1);
                       wr e i (push_bit 1 x OR (drop_bit 7 y AND 1)) }"
  have "\<exists>e. ofold ?f [0..<n - 1] d = Some e \<and> ?I (n - 1) e"
  proof (rule ofold_upt_inv)
    show "?I 0 d" by simp
  next
    fix k e
    assume k: "k < n - 1" and I: "?I k e"
    with assms have "k + 1 < length e" by simp
    then show "\<exists>e'. ?f k e = Some e' \<and> ?I (Suc k) e'"
      using I by (auto simp: rd_def wr_def drop_and_1 nth_list_update less_Suc_eq)
  qed
  then obtain e where e: "ofold ?f [0..<n - 1] d = Some e" "?I (n - 1) e" by blast
  moreover have "n - 1 < length e" using e assms by simp
  ultimately have "bit_lib_push_bit d n b = Some (e[n - 1 := push_bit 1 (e ! (n - 1)) OR of_bool b])"
    using assms by (simp add: bit_lib_push_bit_def rd_def wr_def Let_def)
  moreover have "e[n - 1 := push_bit 1 (e ! (n - 1)) OR of_bool b] ! j =
      (if j + 1 < n then push_bit 1 (d ! j) OR of_bool (bit (d ! (j + 1)) 7)
       else if j + 1 = n then push_bit 1 (d ! j) OR of_bool b else d ! j)" if "j < length d" for j
  proof -
    consider "j + 1 < n" | "j = n - 1" | "n \<le> j" using assms(1) by linarith
    then show ?thesis
      using that e(2) assms(1) by cases (auto simp: nth_list_update)
  qed
  ultimately show ?thesis using e(2) by auto
qed

lemma push_bit_msb:
  assumes "0 < n" "n \<le> length d"
  shows "\<exists>e. bit_lib_push_bit d n b = Some e \<and> length e = length d \<and>
    (\<forall>p < 8 * length d. msb_bit e p =
       (if p + 1 < 8 * n then msb_bit d (p + 1) else if p + 1 = 8 * n then b else msb_bit d p))"
proof -
  obtain e where e: "bit_lib_push_bit d n b = Some e" "length e = length d"
    and bytes: "\<And>j. j < length d \<Longrightarrow> e ! j =
      (if j + 1 < n then push_bit 1 (d ! j) OR of_bool (bit (d ! (j + 1)) 7)
       else if j + 1 = n then push_bit 1 (d ! j) OR of_bool b else d ! j)"
    using bit_lib_push_bit_bytes [OF assms, of b] by blast
  have "msb_bit e p =
      (if p + 1 < 8 * n then msb_bit d (p + 1) else if p + 1 = 8 * n then b else msb_bit d p)"
    if p: "p < 8 * length d" for p
  proof -
    have j: "p div 8 < length d" using p by (rule div_8_less)
    consider "p div 8 + 1 < n" | "p div 8 + 1 = n" | "n \<le> p div 8" by linarith
    then show ?thesis
    proof cases
      case 1
      with bytes [OF j] have ej: "e ! (p div 8) = push_bit 1 (d ! (p div 8)) OR of_bool (bit (d ! (p div 8 + 1)) 7)"
        by simp
      from shift_in_msb [OF j ej] 1 show ?thesis
      proof (cases "p mod 8 = 7")
        case True
        then have "(p + 1) div 8 = p div 8 + 1" "(p + 1) mod 8 = 0" by presburger+
        then have "msb_bit d (p + 1) = bit (d ! (p div 8 + 1)) 7" by (simp add: msb_bit_def)
        moreover have "p + 1 < 8 * n" using 1 by linarith
        ultimately show ?thesis
          using True shift_in_msb [OF j ej] by simp
      qed auto
    next
      case 2
      with bytes [OF j] have "e ! (p div 8) = push_bit 1 (d ! (p div 8)) OR of_bool b" by simp
      moreover have "p mod 8 = 7 \<longleftrightarrow> p + 1 = 8 * n" and "p mod 8 \<noteq> 7 \<longrightarrow> p + 1 < 8 * n"
        using 2 by presburger+
      ultimately show ?thesis using shift_in_msb [OF j, of e b] by auto
    next
      case 3
      with bytes [OF j] have "e ! (p div 8) = d ! (p div 8)" by simp
      moreover have "\<not> p + 1 < 8 * n" "p + 1 \<noteq> 8 * n" using 3 by linarith+
      ultimately show ?thesis by (simp add: msb_bit_def)
    qed
  qed
  with e show ?thesis by blast
qed

subsection \<open>Bit fields\<close>

text \<open>\<open>is_field v d pos n\<close>: the word \<open>v\<close> holds the \<open>n\<close> bits of the buffer
  that start at \<open>pos\<close>, the first of them as its most significant.\<close>

definition is_field :: "'a::len word \<Rightarrow> bytes \<Rightarrow> nat \<Rightarrow> nat \<Rightarrow> bool" where
  "is_field v d pos n \<longleftrightarrow> (\<forall>k. bit v k \<longleftrightarrow> k < n \<and> msb_bit d (pos + (n - 1 - k)))"


lemma get_bits_field:
  assumes n: "n \<le> 8" and fits: "pos + n \<le> 8 * length d" "pos < 8 * length d"
  shows "\<exists>v. bit_lib_get_bits d pos n = Some v \<and> is_field v d pos n"
proof -
  define i s where "i = pos div 8" and "s = pos mod 8"
  then have pos: "pos = 8 * i + s" and s: "s < 8" by simp_all
  have i: "i < length d" using fits(2) pos by linarith
  have low: "msb_bit d (pos + m) = bit (d ! i) (7 - (s + m))" if "s + m < 8" for m
    using msb_bit_at [OF that, of d i] by (simp add: pos add.assoc)
  have high: "msb_bit d (pos + m) = bit (d ! (i + 1)) (7 - (s + m - 8))" if "8 \<le> s + m" "m < 8" for m
  proof -
    have "s + m - 8 < 8" "8 * (i + 1) + (s + m - 8) = pos + m" using that s pos by simp_all
    then show ?thesis using msb_bit_at [of "s + m - 8" d "i + 1"] by simp
  qed
  have zero: "\<not> bit (drop_bit (8 - n) x) k" if "\<not> k < n" for x :: u8 and k
    using that n by (auto simp: bit_drop_bit_eq dest: bit_u8_high)
  have small: "bit (drop_bit (8 - n) (push_bit s (d ! i))) k \<longleftrightarrow> msb_bit d (pos + (n - 1 - k))"
    if "k < n" "s + n \<le> 8" for k
  proof -
    define m where "m = 8 - n + k"
    have m: "m < 8" "s \<le> m" "m - s = 7 - (s + (n - 1 - k))" "s + (n - 1 - k) < 8"
      using that n unfolding m_def by linarith+
    have "bit (drop_bit (8 - n) (push_bit s (d ! i))) k = bit (push_bit s (d ! i)) m"
      by (simp only: bit_drop_bit_eq comp_def m_def)
    then show ?thesis
      using m low [of "n - 1 - k"] by (simp add: bit_push_bit_iff)
  qed
  show ?thesis
  proof (cases "s + n \<le> 8")
    case True
    then have "is_field (drop_bit (8 - n) (push_bit s (d ! i))) d pos n"
      unfolding is_field_def using zero small [OF _ True] by blast
    then show ?thesis
      using True n i by (auto simp: bit_lib_get_bits_def rd_def i_def [symmetric] s_def [symmetric])
  next
    case False
    have i1: "i + 1 < length d" using False fits pos by linarith
    have "bit (drop_bit (8 - n) (push_bit s (d ! i) OR drop_bit (8 - s) (d ! (i + 1)))) k
        \<longleftrightarrow> msb_bit d (pos + (n - 1 - k))" if k: "k < n" for k
    proof -
      define m where "m = 8 - n + k"
      have m: "m < 8" using k n unfolding m_def by linarith
      have "bit (drop_bit (8 - n) (push_bit s (d ! i) OR drop_bit (8 - s) (d ! (i + 1)))) k
          = bit (push_bit s (d ! i) OR drop_bit (8 - s) (d ! (i + 1))) m"
        by (simp only: bit_drop_bit_eq comp_def m_def)
      also have "\<dots> = (s \<le> m \<and> bit (d ! i) (m - s) \<or> bit (d ! (i + 1)) (8 - s + m))"
        using m by (simp add: bit_drop_bit_eq bit_push_bit_iff bit_or_iff)
      also have "\<dots> = msb_bit d (pos + (n - 1 - k))"
      proof (cases "s \<le> m")
        case True
        then have "\<not> bit (d ! (i + 1)) (8 - s + m)" "m - s = 7 - (s + (n - 1 - k))" "s + (n - 1 - k) < 8"
          using k n s by (auto dest!: bit_u8_high simp: m_def)
        with True show ?thesis using low [of "n - 1 - k"] by simp
      next
        case F: False
        then have "8 - s + m = 7 - (s + (n - 1 - k) - 8)" "8 \<le> s + (n - 1 - k)" "n - 1 - k < 8"
          using k n s unfolding m_def by linarith+
        with F show ?thesis using high [of "n - 1 - k"] by simp
      qed
      finally show ?thesis .
    qed
    then have "is_field (drop_bit (8 - n) (push_bit s (d ! i) OR drop_bit (8 - s) (d ! (i + 1)))) d pos n"
      unfolding is_field_def using zero by blast
    then show ?thesis
      using False n s i i1 by (auto simp: bit_lib_get_bits_def rd_def i_def [symmetric] s_def [symmetric])
  qed
qed


text \<open>The word assembled so far: the field's bits from position \<open>a\<close> of the word
  upwards, zeros below.\<close>

definition is_part :: "'a::len word \<Rightarrow> bytes \<Rightarrow> nat \<Rightarrow> nat \<Rightarrow> nat \<Rightarrow> bool" where
  "is_part v d pos len a \<longleftrightarrow> (\<forall>k. bit v k \<longleftrightarrow> a \<le> k \<and> k < len \<and> msb_bit d (pos + (len - 1 - k)))"

lemma is_part_0: "is_part 0 d pos len len"
  by (simp add: is_part_def)

lemma is_field_8: "is_field (v :: u8) d pos n \<Longrightarrow> bit v k \<Longrightarrow> k < n"
  by (simp add: is_field_def)

lemma bit_ucast_8: "LENGTH('a) \<ge> 8 \<Longrightarrow> bit (ucast (x :: u8) :: 'a::len word) k = bit x k"
  by (auto simp: bit_ucast_iff dest: bit_u8_high)

lemma is_part_step:
  fixes v :: "'a::len word" and x :: u8
  assumes "is_part v d pos len a" "8 \<le> a" "a \<le> len" "len \<le> LENGTH('a)"
    "is_field x d (pos + (len - a)) 8"
  shows "is_part (v OR push_bit (a - 8) (ucast x)) d pos len (a - 8)"
proof -
  have L: "8 \<le> LENGTH('a)" using assms by linarith
  have "bit (v OR push_bit (a - 8) (ucast x)) k \<longleftrightarrow>
      a - 8 \<le> k \<and> k < len \<and> msb_bit d (pos + (len - 1 - k))" for k
  proof (cases "a - 8 \<le> k \<and> k < a")
    case True
    then have "k - (a - 8) < 8" "pos + (len - a) + (8 - 1 - (k - (a - 8))) = pos + (len - 1 - k)"
      "k < LENGTH('a)" "k < len"
      using assms(2,3,4) by linarith+
    moreover have "\<not> bit v k" using True assms(1) by (simp add: is_part_def)
    moreover have "bit x (k - (a - 8)) = msb_bit d (pos + (len - a) + (8 - 1 - (k - (a - 8))))"
      using assms(5) \<open>k - (a - 8) < 8\<close> unfolding is_field_def by blast
    ultimately show ?thesis
      using True L by (simp only: bit_or_iff bit_push_bit_iff bit_ucast_8) auto
  next
    case False
    moreover have "\<not> bit x (k - (a - 8))" if "a \<le> k"
      using that assms(2) is_field_8 [OF assms(5), of "k - (a - 8)"] by auto
    moreover have "bit v k \<longleftrightarrow> a \<le> k \<and> k < len \<and> msb_bit d (pos + (len - 1 - k))"
      using assms(1) by (simp only: is_part_def)
    ultimately show ?thesis
      using L by (auto simp add: bit_or_iff bit_push_bit_iff bit_ucast_8)
  qed
  then show ?thesis unfolding is_part_def by blast
qed

lemma is_part_last:
  fixes v :: "'a::len word" and x :: u8
  assumes "is_part v d pos len a" "a \<le> len" "8 \<le> LENGTH('a)" "is_field x d (pos + (len - a)) a"
  shows "is_field (v OR ucast x) d pos len"
proof -
  have "bit (v OR ucast x) k \<longleftrightarrow> k < len \<and> msb_bit d (pos + (len - 1 - k))" for k
  proof (cases "k < a")
    case True
    then have "pos + (len - a) + (a - 1 - k) = pos + (len - 1 - k)" using assms(2) by linarith
    moreover have "bit x k = msb_bit d (pos + (len - a) + (a - 1 - k))"
      using assms(4) True unfolding is_field_def by blast
    ultimately show ?thesis
      using True assms by (auto simp: bit_or_iff bit_ucast_8 is_part_def)
  next
    case False
    then have "\<not> bit x k" using is_field_8 [OF assms(4)] by blast
    moreover have "bit v k \<longleftrightarrow> a \<le> k \<and> k < len \<and> msb_bit d (pos + (len - 1 - k))"
      using assms(1) by (simp only: is_part_def)
    ultimately show ?thesis
      using False assms(3) by (simp add: bit_or_iff bit_ucast_8)
  qed
  then show ?thesis unfolding is_field_def by blast
qed

lemma get_bits_parts_field:
  assumes "8 * k < len" "len \<le> 8 * k + 8" "len \<le> 64" "pos + len \<le> 8 * length d"
  shows "\<exists>v. get_bits_parts k d pos len = Some v \<and> is_field v d pos len"
proof -
  let ?f = "\<lambda>i v. do { x \<leftarrow> bit_lib_get_bits d (pos + 8 * i) 8;
                       Some (v OR push_bit (len - 8 * (i + 1)) (ucast x :: u64)) }"
  have "\<exists>v. ofold ?f [0..<k] (0 :: u64) = Some v \<and> is_part v d pos len (len - 8 * k)"
  proof (rule ofold_upt_inv)
    show "is_part 0 d pos len (len - 8 * 0)" by (simp add: is_part_0)
  next
    fix i and v :: u64
    assume i: "i < k" and v: "is_part v d pos len (len - 8 * i)"
    have a: "8 \<le> len - 8 * i" "len - 8 * i \<le> len" "len - (len - 8 * i) = 8 * i"
      "len - 8 * i - 8 = len - 8 * (i + 1)" "pos + 8 * i + 8 \<le> 8 * length d"
      using i assms by auto
    then obtain x where x: "bit_lib_get_bits d (pos + 8 * i) 8 = Some x" "is_field x d (pos + 8 * i) 8"
      using get_bits_field [of 8 "pos + 8 * i" d] by auto
    from is_part_step [OF v a(1,2), of x] x(2) assms(3)
    have "is_part (v OR push_bit (len - 8 * (i + 1)) (ucast x)) d pos len (len - 8 * (i + 1))"
      by (simp only: a(3,4)) simp
    with x(1) show "\<exists>v'. ?f i v = Some v' \<and> is_part v' d pos len (len - 8 * Suc i)"
      by (simp add: add.commute)
  qed
  then obtain v where v: "ofold ?f [0..<k] 0 = Some v" "is_part v d pos len (len - 8 * k)" by blast
  have a: "len - 8 * k \<le> 8" "pos + 8 * k + (len - 8 * k) \<le> 8 * length d" "pos + 8 * k < 8 * length d"
    "len - (len - 8 * k) = 8 * k"
    using assms by linarith+
  then obtain x where x: "bit_lib_get_bits d (pos + 8 * k) (len - 8 * k) = Some x"
      "is_field x d (pos + 8 * k) (len - 8 * k)"
    using get_bits_field by blast
  have "is_field (v OR ucast x) d pos len"
    by (rule is_part_last [OF v(2)]) (use x(2) a(4) in simp_all)
  with v(1) x(1) show ?thesis by (simp add: get_bits_parts_def)
qed

lemma get_bits_64_field:
  assumes "0 < len" "len \<le> 64" "pos + len \<le> 8 * length d"
  shows "\<exists>v. bit_lib_get_bits_64 d pos len = Some v \<and> is_field v d pos len"
proof -
  consider "len \<le> 8" | "8 < len" "len \<le> 16" | "16 < len" "len \<le> 24" | "24 < len" "len \<le> 32"
    | "32 < len" "len \<le> 40" | "40 < len" "len \<le> 48" | "48 < len" "len \<le> 56" | "56 < len"
    by linarith
  then show ?thesis
  proof cases
    case 1
    with get_bits_parts_field [of 0 len pos d] assms show ?thesis
      by (simp add: bit_lib_get_bits_64_def)
  next
    case 2
    with get_bits_parts_field [of 1 len pos d] assms show ?thesis
      by (simp add: bit_lib_get_bits_64_def)
  next
    case 3
    with get_bits_parts_field [of 2 len pos d] assms show ?thesis
      by (simp add: bit_lib_get_bits_64_def)
  next
    case 4
    with get_bits_parts_field [of 3 len pos d] assms show ?thesis
      by (simp add: bit_lib_get_bits_64_def)
  next
    case 5
    with get_bits_parts_field [of 4 len pos d] assms show ?thesis
      by (simp add: bit_lib_get_bits_64_def)
  next
    case 6
    with get_bits_parts_field [of 5 len pos d] assms show ?thesis
      by (simp add: bit_lib_get_bits_64_def)
  next
    case 7
    with get_bits_parts_field [of 6 len pos d] assms show ?thesis
      by (simp add: bit_lib_get_bits_64_def)
  next
    case 8
    with get_bits_parts_field [of 7 len pos d] assms show ?thesis
      by (simp add: bit_lib_get_bits_64_def)
  qed
qed

lemma get_bits_32_field:
  assumes "0 < len" "len \<le> 32" "pos + len \<le> 8 * length d"
  shows "\<exists>v. bit_lib_get_bits_32 d pos len = Some v \<and> is_field v d pos len"
proof -
  have fld: "\<exists>x. bit_lib_get_bits d (pos + j) n = Some x \<and> is_field x d (pos + j) n"
    if "0 < n" "n \<le> 8" "j + n \<le> len" for j n
    using that assms by (intro get_bits_field) linarith+
  have one: "is_part (push_bit (len - 8) (ucast x) :: u32) d pos len (len - 8)"
    if "is_field x d pos 8" "8 \<le> len" for x :: u8
    using is_part_step [of "0 :: u32" d pos len len x, OF is_part_0] that assms by simp
  have next_part: "is_part (v OR push_bit (len - (j + 8)) (ucast x) :: u32) d pos len (len - (j + 8))"
    if "is_part v d pos len (len - j)" "is_field x d (pos + j) 8" "j + 8 \<le> len" for v and x :: u8 and j
    using is_part_step [OF that(1), of x] that assms by simp
  have last_part: "is_field (v OR ucast x :: u32) d pos len"
    if "is_part v d pos len (len - j)" "is_field x d (pos + j) (len - j)" "j \<le> len" for v and x :: u8 and j
    using is_part_last [OF that(1), of x] that by simp
  consider "len \<le> 8" | "8 < len" "len \<le> 16" | "16 < len" "len \<le> 24" | "24 < len" by linarith
  then show ?thesis
  proof cases
    case 1
    with fld [of len 0] assms(1) last_part [of 0 0] show ?thesis
      by (auto simp: bit_lib_get_bits_32_def is_part_0)
  next
    case 2
    then obtain x y where "bit_lib_get_bits d pos 8 = Some x" "is_field x d pos 8"
      "bit_lib_get_bits d (pos + 8) (len - 8) = Some y" "is_field y d (pos + 8) (len - 8)"
      using fld [of 8 0] fld [of "len - 8" 8] by auto
    with 2 last_part [OF one] show ?thesis by (auto simp: bit_lib_get_bits_32_def or.assoc)
  next
    case 3
    then obtain x y z where "bit_lib_get_bits d pos 8 = Some x" "is_field x d pos 8"
      "bit_lib_get_bits d (pos + 8) 8 = Some y" "is_field y d (pos + 8) 8"
      "bit_lib_get_bits d (pos + 16) (len - 16) = Some z" "is_field z d (pos + 16) (len - 16)"
      using fld [of 8 0] fld [of 8 8] fld [of "len - 16" 16] by auto
    moreover from this 3 have "is_part (push_bit (len - 8) (ucast x) OR push_bit (len - 16) (ucast y) :: u32)
        d pos len (len - 16)"
      using next_part [of "push_bit (len - 8) (ucast x)" 8 y] one [of x] by simp
    ultimately show ?thesis using 3 last_part [of "push_bit (len - 8) (ucast x) OR push_bit (len - 16) (ucast y)" 16 z] by (auto simp: bit_lib_get_bits_32_def or.assoc)
  next
    case 4
    then obtain x y z u where "bit_lib_get_bits d pos 8 = Some x" "is_field x d pos 8"
      "bit_lib_get_bits d (pos + 8) 8 = Some y" "is_field y d (pos + 8) 8"
      "bit_lib_get_bits d (pos + 16) 8 = Some z" "is_field z d (pos + 16) 8"
      "bit_lib_get_bits d (pos + 24) (len - 24) = Some u" "is_field u d (pos + 24) (len - 24)"
      using fld [of 8 0] fld [of 8 8] fld [of 8 16] fld [of "len - 24" 24] assms by auto
    moreover from this 4 have "is_part (push_bit (len - 8) (ucast x) OR push_bit (len - 16) (ucast y) :: u32)
        d pos len (len - 16)"
      using next_part [of "push_bit (len - 8) (ucast x)" 8 y] one [of x] by simp
    moreover from this 4 \<open>is_field z d (pos + 16) 8\<close> have
      "is_part (push_bit (len - 8) (ucast x) OR push_bit (len - 16) (ucast y) OR
                push_bit (len - 24) (ucast z) :: u32) d pos len (len - 24)"
      using next_part [of "push_bit (len - 8) (ucast x) OR push_bit (len - 16) (ucast y)" 16 z] by (simp add: or.assoc)
    ultimately show ?thesis using last_part [of "push_bit (len - 8) (ucast x) OR push_bit (len - 16) (ucast y) OR push_bit (len - 24) (ucast z)" 24 u] 4 by (auto simp: bit_lib_get_bits_32_def or.assoc)
  qed
qed


text \<open>C36: A field written with \<open>bit_lib_set_bits\<close> at any bit position, also across a byte
  boundary, is read back by \<open>bit_lib_get_bits\<close>: the low \<open>n\<close> bits of the value.\<close>

theorem set_get_bits:
  assumes "0 < n" "n \<le> 8" "pos + n \<le> 8 * length d"
  shows "Option.bind (bit_lib_set_bits d pos byte n) (\<lambda>e. bit_lib_get_bits e pos n) =
    Some (take_bit n byte)"
proof -
  obtain e where e: "bit_lib_set_bits d pos byte n = Some e" "length e = length d"
    "\<forall>q < 8 * length d. msb_bit e q =
      (if pos \<le> q \<and> q < pos + n then bit byte (n - 1 - (q - pos)) else msb_bit d q)"
    using set_bits_msb [OF assms, of byte] by blast
  moreover obtain v where v: "bit_lib_get_bits e pos n = Some v" "is_field v e pos n"
    using get_bits_field [of n pos e] assms e(2) by auto
  moreover have "v = take_bit n byte"
  proof (rule bit_word_eqI)
    fix k
    assume "k < LENGTH(8)"
    show "bit v k \<longleftrightarrow> bit (take_bit n byte) k"
    proof (cases "k < n")
      case True
      then have "pos + (n - 1 - k) < 8 * length d" "pos \<le> pos + (n - 1 - k)"
        "pos + (n - 1 - k) < pos + n" "n - 1 - (pos + (n - 1 - k) - pos) = k"
        using assms by linarith+
      then have "msb_bit e (pos + (n - 1 - k)) = bit byte k"
        using e(3) by (simp only: if_True simp_thms)
      moreover have "bit v k = msb_bit e (pos + (n - 1 - k))"
        using v(2) True unfolding is_field_def by blast
      ultimately show ?thesis using True by (simp add: bit_take_bit_iff)
    next
      case False
      with v(2) show ?thesis by (simp add: is_field_def bit_take_bit_iff)
    qed
  qed
  ultimately show ?thesis by simp
qed

theorem set_get_bits_witness:
  "Option.bind (bit_lib_set_bits [0xAB, 0xCD] 5 0x16 7) (\<lambda>e. bit_lib_get_bits e 5 7) = Some 0x16"
  using set_get_bits [of 7 5 "[0xAB, 0xCD]" "0x16"] by simp

subsection \<open>Copying and reversing\<close>

text \<open>\<open>bit_lib_copy_bits\<close> moves a run of bits between two buffers at unrelated bit positions
  and changes no other bit of the destination.\<close>

theorem copy_bits_msb:
  assumes "pos + n \<le> 8 * length d" "spos + n \<le> 8 * length src"
  shows "\<exists>e. bit_lib_copy_bits d pos n src spos = Some e \<and> length e = length d \<and>
    (\<forall>q < 8 * length d.
       msb_bit e q = (if pos \<le> q \<and> q < pos + n then msb_bit src (spos + (q - pos)) else msb_bit d q))"
proof -
  have "bit_lib_copy_bits d pos n src spos =
      ofold (\<lambda>i d. bit_lib_set_bit d (pos + i) (msb_bit src (spos + i))) [0..<n] d"
    unfolding bit_lib_copy_bits_def
    by (rule ofold_cong) (use assms(2) in \<open>auto simp: get_bit_msb\<close>)
  then show ?thesis
    using msb.write_run [OF assms(1), of "\<lambda>i. msb_bit src (spos + i)"] by auto
qed

theorem copy_bits_msb_witness:
  "\<exists>e. bit_lib_copy_bits [0, 0] 3 9 [0xFF, 0xF0] 1 = Some e \<and> msb_bit e 4"
  using copy_bits_msb [of 3 9 "[0, 0]" 1 "[0xFF, 0xF0]"]
  by (auto simp: msb_bit_def [of "[0xFF, 0xF0]"] One_nat_def)

lemma reverse_loop_msb:
  assumes "pos + j < 8 * length d"
  shows "\<exists>e. reverse_bits_loop pos i j d = Some e \<and> length e = length d \<and>
    (\<forall>q < 8 * length d. msb_bit e q =
       (if pos + i \<le> q \<and> q \<le> pos + j then msb_bit d (pos + (i + j - (q - pos))) else msb_bit d q))"
  using assms
proof (induction "j - i" arbitrary: i j d rule: less_induct)
  case less
  show ?case
  proof (cases "i < j")
    case False
    have "(if pos + i \<le> q \<and> q \<le> pos + j then msb_bit d (pos + (i + j - (q - pos))) else msb_bit d q)
        = msb_bit d q" for q
      using False by (auto intro!: arg_cong [where f = "msb_bit d"])
    then show ?thesis
      using False by (simp add: reverse_bits_loop.simps [of pos i j])
  next
    case True
    with less.prems have ij: "pos + i < 8 * length d" "pos + j < 8 * length d" by simp_all
    from msb.swap_bits [OF this] obtain d1 where
      "do { x \<leftarrow> bit_lib_get_bit d (pos + i); y \<leftarrow> bit_lib_get_bit d (pos + j);
            d1 \<leftarrow> bit_lib_set_bit d (pos + i) y; bit_lib_set_bit d1 (pos + j) x } = Some d1"
      and d1: "length d1 = length d"
      "\<forall>r < 8 * length d. msb_bit d1 r = (if r = pos + i then msb_bit d (pos + j)
         else if r = pos + j then msb_bit d (pos + i) else msb_bit d r)"
      by auto
    then have step: "reverse_bits_loop pos i j d = reverse_bits_loop pos (i + 1) (j - 1) d1"
      using True ij by (auto simp: reverse_bits_loop.simps [of pos i j] get_bit_msb bind_eq_Some_conv)
    have "j - 1 - (i + 1) < j - i" "pos + (j - 1) < 8 * length d1" using True less.prems d1 by auto
    from less.hyps [OF this] obtain e where e: "reverse_bits_loop pos (i + 1) (j - 1) d1 = Some e"
      "length e = length d1"
      "\<forall>q < 8 * length d1. msb_bit e q = (if pos + (i + 1) \<le> q \<and> q \<le> pos + (j - 1)
         then msb_bit d1 (pos + (i + 1 + (j - 1) - (q - pos))) else msb_bit d1 q)"
      by blast
    have "msb_bit e q = (if pos + i \<le> q \<and> q \<le> pos + j
        then msb_bit d (pos + (i + j - (q - pos))) else msb_bit d q)" if q: "q < 8 * length d" for q
    proof -
      consider "q = pos + i" | "q = pos + j" | "pos + i < q" "q < pos + j" | "q < pos + i" | "pos + j < q"
        by linarith
      then show ?thesis
      proof cases
        case 3
        then have "pos + (i + 1) \<le> q \<and> q \<le> pos + (j - 1)"
          and eq: "i + 1 + (j - 1) - (q - pos) = i + j - (q - pos)"
          and r: "pos + (i + j - (q - pos)) < 8 * length d" "pos + (i + j - (q - pos)) \<noteq> pos + i"
            "pos + (i + j - (q - pos)) \<noteq> pos + j"
          using True ij by linarith+
        then have "msb_bit e q = msb_bit d1 (pos + (i + j - (q - pos)))"
          using e(3) q d1(1) by (simp only: if_True) simp
        then show ?thesis using 3 r d1(2) by simp
      qed (use True e(3) d1 q ij in auto)
    qed
    with step e(1,2) d1(1) show ?thesis by simp
  qed
qed

lemma reverse_bits_msb:
  assumes "0 < n" "n < 2 ^ 32" "pos + n \<le> 8 * length d"
  shows "\<exists>e. bit_lib_reverse_bits d pos n = Some e \<and> length e = length d \<and>
    (\<forall>q < 8 * length d. msb_bit e q =
       (if pos \<le> q \<and> q < pos + n then msb_bit d (pos + (n - 1 - (q - pos))) else msb_bit d q))"
proof -
  have "bit_lib_reverse_bits d pos n = reverse_bits_loop pos 0 (n - 1) d"
    using assms by (simp add: bit_lib_reverse_bits_def size_sub_le)
  moreover have "pos + (n - 1) < 8 * length d" using assms by linarith
  moreover have "pos \<le> q \<and> q \<le> pos + (n - 1) \<longleftrightarrow> pos \<le> q \<and> q < pos + n" for q
    using assms by linarith
  ultimately show ?thesis
    using reverse_loop_msb [of pos "n - 1" d 0] by (simp only: add_0_right add_0)
qed

lemma reverse_8_fast: "bit_lib_reverse_8_fast x = word_reverse x"
  unfolding word_eq_bits
  by (simp add: bit_lib_reverse_8_fast_def Let_def all_less_8 bit_word_reverse_iff bit_simps One_nat_def)

lemma reverse_16_fast: "bit_lib_reverse_16_fast x = word_reverse x"
  unfolding word_eq_bits
  by (simp add: bit_lib_reverse_16_fast_def all_less_16 bit_word_reverse_iff bit_simps One_nat_def)

lemma reverse_byte: "bit_lib_reverse_byte x = Some (word_reverse x)"
proof -
  obtain e where e: "bit_lib_reverse_bits [x] 0 8 = Some e" "length e = 1"
    "\<forall>q < 8. msb_bit e q = msb_bit [x] (7 - q)"
    using reverse_bits_msb [of 8 0 "[x]"] by auto
  have "e ! 0 = word_reverse x"
  proof (rule bit_word_eqI)
    fix k
    assume "k < LENGTH(8)"
    then have k: "7 - k < 8" "7 - (7 - k) = k" by auto
    have "bit (e ! 0) k = msb_bit e (7 - k)"
      using msb_bit_at [OF k(1), of e 0] k(2) by simp
    also have "\<dots> = msb_bit [x] k"
      using e(3) [rule_format, OF k(1)] k(2) by simp
    also have "\<dots> = bit x (7 - k)"
      using \<open>k < LENGTH(8)\<close> by (simp add: msb_bit_def)
    finally show "bit (e ! 0) k = bit (word_reverse x) k"
      using \<open>k < LENGTH(8)\<close> by (simp add: bit_word_reverse_iff)
  qed
  with e show ?thesis by (auto simp: bit_lib_reverse_byte_def rd_def)
qed


subsection \<open>Cyclic redundancy checks\<close>

text \<open>Shifting in a byte that equals the register's top bits moves the register without
  ever applying the polynomial.\<close>

lemma crc16_cancel:
  assumes "\<And>j. j < 8 \<Longrightarrow> bit byte (7 - j) = bit crc (15 - j)" "k \<le> 8"
  shows "fold (crc16_shift p byte) [0..<k] crc = push_bit k crc"
  using assms(2)
proof (induction k)
  case 0
  then show ?case by simp
next
  case (Suc k)
  then have "fold (crc16_shift p byte) [0..<k] crc = push_bit k crc" and k: "k < 8" by simp_all
  moreover have "bit (push_bit k crc) 15 = bit byte (7 - k)"
    using assms(1) [OF k] k by (simp add: bit_push_bit_iff)
  ultimately have "fold (crc16_shift p byte) [0..<Suc k] crc = push_bit 1 (push_bit k crc)"
    by (simp add: crc16_shift_def [of p byte k] drop_and_1)
  then show ?case by (simp add: push_bit_push_bit One_nat_def)
qed

lemma crc16_byte_top: "crc16_byte p False (ucast (drop_bit 8 crc)) crc = push_bit 8 crc"
proof -
  have "bit (ucast (drop_bit 8 crc) :: u8) (7 - j) = bit crc (15 - j)" if "j < 8" for j
    using that by (simp add: bit_ucast_iff bit_drop_bit_eq)
  from crc16_cancel [OF this, of 8 p] show ?thesis by (simp add: crc16_byte_def Let_def)
qed

lemma crc16_loop_append:
  "ofold (\<lambda>i crc. do { byte \<leftarrow> rd (xs @ ys) i; Some (f byte crc) }) [0..<length xs] c =
   Some (fold f xs c)"
proof (induction xs arbitrary: c ys rule: rev_induct)
  case Nil
  then show ?case by simp
next
  case (snoc x xs)
  from snoc.IH [of "x # ys" c] show ?case
    by (simp add: ofold_append rd_def nth_append)
qed

lemma crc16_eq_fold:
  "bit_lib_crc16 xs (length xs) p init ref_in ref_out xor_out =
   Some ((let c = fold (crc16_byte p ref_in) xs init
          in if ref_out then bit_lib_reverse_16_fast c else c) XOR xor_out)"
  using crc16_loop_append [of xs "[]" "crc16_byte p ref_in" init]
  by (simp add: bit_lib_crc16_def Let_def)

text \<open>A message followed by its own CRC-16, high byte first, has CRC zero, for every polynomial and
  every initial value: what receivers of \<open>bit_lib_crc16\<close> test.\<close>

theorem crc16_residue:
  assumes "bit_lib_crc16 xs (length xs) p init False False 0 = Some c"
  shows "bit_lib_crc16 (xs @ [ucast (drop_bit 8 c), ucast c]) (length xs + 2) p init False False 0 = Some 0"
proof -
  from assms have c: "fold (crc16_byte p False) xs init = c"
    by (simp add: crc16_eq_fold Let_def)
  have "(ucast c :: u8) = ucast (drop_bit 8 (push_bit 8 c))"
    by (rule bit_word_eqI) (simp add: bit_simps)
  then have "crc16_byte p False (ucast c) (push_bit 8 c) = push_bit 8 (push_bit 8 c)"
    by (simp only: crc16_byte_top)
  moreover have "push_bit 8 (push_bit 8 c) = 0"
    by (rule bit_word_eqI) (simp add: bit_simps)
  ultimately show ?thesis
    using crc16_eq_fold [of "xs @ [ucast (drop_bit 8 c), ucast c]" p init False False 0]
    by (simp add: c crc16_byte_top Let_def add.commute)
qed

theorem crc16_residue_witness:
  "bit_lib_crc16 [0x12, 0x34, 0x0E, 0xC9] 4 0x1021 0xFFFF False False 0 = Some 0"
proof -
  have c: "bit_lib_crc16 [0x12, 0x34] (length [0x12, 0x34 :: u8]) 0x1021 0xFFFF False False 0 = Some 0x0EC9"
    by code_simp
  have e: "ucast (drop_bit 8 (0x0EC9 :: u16)) = (0x0E :: u8)" "ucast (0x0EC9 :: u16) = (0xC9 :: u8)"
    by code_simp+
  show ?thesis using crc16_residue [OF c] unfolding e by (simp add: numeral_eq_Suc)
qed

lemma crc8_zero: "(crc8_shift p ^^ n) 0 = 0"
  by (induction n) (simp_all add: crc8_shift_def)

lemma crc8_eq_fold:
  "bit_lib_crc8 xs (length xs) p init False False xor_out =
   Some (ucast (fold (\<lambda>byte crc. (crc8_shift p ^^ 8) (crc XOR byte)) xs init XOR xor_out))"
  using crc16_loop_append [of xs "[]" "\<lambda>byte crc. (crc8_shift p ^^ 8) (crc XOR byte)" init]
  by (simp add: bit_lib_crc8_def)

lemma crc8_residue:
  assumes "bit_lib_crc8 xs (length xs) p init False False 0 = Some c"
  shows "bit_lib_crc8 (xs @ [ucast c]) (length xs + 1) p init False False 0 = Some 0"
proof -
  let ?r = "fold (\<lambda>byte crc. (crc8_shift p ^^ 8) (crc XOR byte)) xs init"
  from assms have "c = ucast ?r" by (simp add: crc8_eq_fold)
  then have "(ucast c :: u8) = ?r" by (simp add: word_eq_bits bit_simps)
  then show ?thesis
    using crc8_eq_fold [of "xs @ [ucast c]" p init 0]
    by (simp add: crc8_zero One_nat_def)
qed

subsection \<open>Numbers and bytes\<close>

lemma num_to_bytes_le:
  assumes "len \<le> 8" "len \<le> length dest"
  shows "\<exists>d. bit_lib_num_to_bytes_le src len dest = Some d \<and> length d = length dest \<and>
    (\<forall>i < length dest. d ! i = (if i < len then ucast (drop_bit (8 * i) src) else dest ! i))"
proof -
  let ?I = "\<lambda>k d. length d = length dest \<and>
    (\<forall>i < length dest. d ! i = (if i < k then ucast (drop_bit (8 * i) src) else dest ! i))"
  have "\<exists>d. ofold (\<lambda>i d. wr d i (ucast (drop_bit (8 * i) src))) [0..<len] dest = Some d \<and> ?I len d"
    by (rule ofold_upt_inv) (use assms in \<open>auto simp: wr_def nth_list_update less_Suc_eq\<close>)
  then show ?thesis using assms(1) by (simp add: bit_lib_num_to_bytes_le_def)
qed

lemma num_to_bytes_be:
  assumes "len \<le> 8" "len \<le> length dest"
  shows "\<exists>d. bit_lib_num_to_bytes_be src len dest = Some d \<and> length d = length dest \<and>
    (\<forall>i < length dest. d ! i = (if i < len then ucast (drop_bit (8 * (len - 1 - i)) src) else dest ! i))"
proof -
  let ?I = "\<lambda>k (d, s). s = drop_bit (8 * k) src \<and> length d = length dest \<and>
    (\<forall>i < length dest. d ! i =
       (if len - k \<le> i \<and> i < len then ucast (drop_bit (8 * (len - 1 - i)) src) else dest ! i))"
  let ?f = "\<lambda>k (d, s). do { d \<leftarrow> wr d (len - 1 - k) (ucast s); Some (d, drop_bit 8 s) }"
  have "\<exists>t. ofold ?f [0..<len] (dest, src) = Some t \<and> ?I len t"
  proof (rule ofold_upt_inv [where I = ?I])
    show "?I 0 (dest, src)" by auto
  next
    fix k t
    assume k: "k < len" and I: "?I k t"
    obtain d s where t: "t = (d, s)" by (cases t)
    have "len - 1 - k < length d" using k assms I t by auto
    moreover have "len - 1 - (len - 1 - k) = k" using k by linarith
    ultimately show "\<exists>t'. ?f k t = Some t' \<and> ?I (Suc k) t'"
      using I k assms by (auto simp: t wr_def nth_list_update add.commute)
  qed
  then obtain d s where "ofold ?f [0..<len] (dest, src) = Some (d, s)" "?I len (d, s)" by auto
  then show ?thesis
    using assms(1) by (simp add: bit_lib_num_to_bytes_be_def rev_upt_map ofold_map)
qed

lemma bytes_to_num_le_bits:
  assumes "len \<le> 8" "len \<le> length src"
  shows "\<exists>v. bit_lib_bytes_to_num_le src len = Some v \<and>
    (\<forall>k. bit v k \<longleftrightarrow> k < 8 * len \<and> bit (src ! (k div 8)) (k mod 8))"
proof -
  let ?I = "\<lambda>n v. \<forall>k. bit v k \<longleftrightarrow> k < 8 * n \<and> bit (src ! (k div 8)) (k mod 8)"
  let ?f = "\<lambda>i v. do { x \<leftarrow> rd src i; Some (v OR push_bit (8 * i) (ucast x :: u64)) }"
  have "\<exists>v. ofold ?f [0..<len] 0 = Some v \<and> ?I len v"
  proof (rule ofold_upt_inv [where I = ?I])
    show "?I 0 (0 :: u64)" by simp
  next
    fix n and v :: u64
    assume n: "n < len" and I: "?I n v"
    have "bit (v OR push_bit (8 * n) (ucast (src ! n))) k \<longleftrightarrow>
        k < 8 * Suc n \<and> bit (src ! (k div 8)) (k mod 8)" for k
    proof (cases "8 * n \<le> k \<and> k < 8 * Suc n")
      case True
      then have "k div 8 = n" by (intro div_nat_eqI) simp_all
      moreover from this have "k mod 8 = k - 8 * n" using minus_mult_div_eq_mod [of k 8] by simp
      moreover have "k < 64" using True n assms(1) by auto
      ultimately show ?thesis using True I by (simp add: bit_or_iff bit_push_bit_iff bit_ucast_8)
    next
      case False
      then have "\<not> (8 * n \<le> k \<and> bit (src ! n) (k - 8 * n))" and "k < 8 * Suc n \<longleftrightarrow> k < 8 * n"
        by (auto dest!: bit_u8_high)
      moreover have "bit v k \<longleftrightarrow> k < 8 * n \<and> bit (src ! (k div 8)) (k mod 8)" using I by blast
      ultimately show ?thesis by (auto simp: bit_or_iff bit_push_bit_iff bit_ucast_8)
    qed
    then show "\<exists>v'. ?f n v = Some v' \<and> ?I (Suc n) v'"
      using n assms(2) by (simp add: rd_def)
  qed
  then show ?thesis using assms(1) by (simp add: bit_lib_bytes_to_num_le_def)
qed

lemma bytes_to_num_be_bits:
  assumes "len \<le> 8" "len \<le> length src"
  shows "\<exists>v. bit_lib_bytes_to_num_be src len = Some v \<and>
    (\<forall>k. bit v k \<longleftrightarrow> k < 8 * len \<and> bit (src ! (len - 1 - k div 8)) (k mod 8))"
proof -
  let ?I = "\<lambda>n v. \<forall>k. bit v k \<longleftrightarrow> k < 8 * n \<and> bit (src ! (n - 1 - k div 8)) (k mod 8)"
  let ?f = "\<lambda>i v. do { x \<leftarrow> rd src i; Some (push_bit 8 v OR (ucast x :: u64)) }"
  have "\<exists>v. ofold ?f [0..<len] 0 = Some v \<and> ?I len v"
  proof (rule ofold_upt_inv [where I = ?I])
    show "?I 0 (0 :: u64)" by simp
  next
    fix n and v :: u64
    assume n: "n < len" and I: "?I n v"
    have "bit (push_bit 8 v OR ucast (src ! n)) k \<longleftrightarrow>
        k < 8 * Suc n \<and> bit (src ! (Suc n - 1 - k div 8)) (k mod 8)" for k
    proof (cases "k < 8")
      case True
      then show ?thesis by (simp add: bit_or_iff bit_push_bit_iff bit_ucast_8)
    next
      case False
      then have "\<not> bit (src ! n) k" and "n - 1 - (k - 8) div 8 = Suc n - 1 - k div 8"
        and "(k - 8) mod 8 = k mod 8" and "k - 8 < 8 * n \<longleftrightarrow> k < 8 * Suc n"
        by (auto dest: bit_u8_high simp: le_mod_geq le_div_geq One_nat_def)
      moreover have "k < 64" if "k < 8 * Suc n" using that n assms(1) by simp
      ultimately show ?thesis
        using False I by (auto simp: bit_or_iff bit_push_bit_iff bit_ucast_8)
    qed
    then show "\<exists>v'. ?f n v = Some v' \<and> ?I (Suc n) v'"
      using n assms(2) by (simp add: rd_def)
  qed
  then show ?thesis using assms(1) by (simp add: bit_lib_bytes_to_num_be_def)
qed

text \<open>A number written big endian with \<open>bit_lib_num_to_bytes_be\<close> and read back with
  \<open>bit_lib_bytes_to_num_be\<close> keeps its low \<open>8 * len\<close> bits.\<close>

theorem num_bytes_roundtrip_be:
  assumes "len \<le> 8" "len \<le> length dest"
  shows "Option.bind (bit_lib_num_to_bytes_be src len dest) (\<lambda>d. bit_lib_bytes_to_num_be d len)
    = Some (take_bit (8 * len) src)"
proof -
  obtain d where d: "bit_lib_num_to_bytes_be src len dest = Some d" "length d = length dest"
    "\<forall>i < length dest. d ! i = (if i < len then ucast (drop_bit (8 * (len - 1 - i)) src) else dest ! i)"
    using num_to_bytes_be [OF assms, of src] by blast
  obtain v where v: "bit_lib_bytes_to_num_be d len = Some v"
    "\<forall>k. bit v k \<longleftrightarrow> k < 8 * len \<and> bit (d ! (len - 1 - k div 8)) (k mod 8)"
    using bytes_to_num_be_bits [OF assms(1), of d] assms(2) d(2) by auto
  have "v = take_bit (8 * len) src"
  proof (rule bit_word_eqI)
    fix k
    show "bit v k = bit (take_bit (8 * len) src) k"
    proof (cases "k < 8 * len")
      case True
      then have "k div 8 < len" by (rule div_8_less)
      then have i: "len - 1 - k div 8 < len" "len - 1 - (len - 1 - k div 8) = k div 8" by linarith+
      then have "d ! (len - 1 - k div 8) = ucast (drop_bit (8 * (k div 8)) src)"
        using d(3) assms(2) by simp
      then show ?thesis
        using v(2) True by (simp add: bit_take_bit_iff bit_ucast_iff bit_drop_bit_eq)
    next
      case False
      then show ?thesis using v(2) by (simp add: bit_take_bit_iff)
    qed
  qed
  with d(1) v(1) show ?thesis by simp
qed

theorem num_bytes_roundtrip_be_witness:
  "Option.bind (bit_lib_num_to_bytes_be 0x12345 2 [0, 0, 0]) (\<lambda>d. bit_lib_bytes_to_num_be d 2) = Some 0x2345"
  using num_bytes_roundtrip_be [of 2 "[0, 0, 0]" "0x12345"] by (simp add: take_bit_eq_mod)

lemma num_bytes_roundtrip_le:
  assumes "len \<le> 8" "len \<le> length dest"
  shows "Option.bind (bit_lib_num_to_bytes_le src len dest) (\<lambda>d. bit_lib_bytes_to_num_le d len)
    = Some (take_bit (8 * len) src)"
proof -
  obtain d where d: "bit_lib_num_to_bytes_le src len dest = Some d" "length d = length dest"
    "\<forall>i < length dest. d ! i = (if i < len then ucast (drop_bit (8 * i) src) else dest ! i)"
    using num_to_bytes_le [OF assms, of src] by blast
  obtain v where v: "bit_lib_bytes_to_num_le d len = Some v"
    "\<forall>k. bit v k \<longleftrightarrow> k < 8 * len \<and> bit (d ! (k div 8)) (k mod 8)"
    using bytes_to_num_le_bits [OF assms(1), of d] assms(2) d(2) by auto
  have "v = take_bit (8 * len) src"
  proof (rule bit_word_eqI)
    fix k
    show "bit v k = bit (take_bit (8 * len) src) k"
    proof (cases "k < 8 * len")
      case True
      then have "k div 8 < len" by (rule div_8_less)
      then have "d ! (k div 8) = ucast (drop_bit (8 * (k div 8)) src)"
        using d(3) assms(2) by simp
      then show ?thesis
        using v(2) True by (simp add: bit_take_bit_iff bit_ucast_iff bit_drop_bit_eq)
    next
      case False
      then show ?thesis using v(2) by (simp add: bit_take_bit_iff)
    qed
  qed
  with d(1) v(1) show ?thesis by simp
qed


subsection \<open>Removing every n-th bit\<close>

text \<open>Of the first \<open>c\<close> bits, \<open>kept_count n c\<close> survive; the \<open>k\<close>-th survivor is
  bit \<open>kept_src n k\<close> of the input.\<close>

definition kept_count :: "nat \<Rightarrow> nat \<Rightarrow> nat" where
  "kept_count n c = c - c div n"

definition kept_src :: "nat \<Rightarrow> nat \<Rightarrow> nat" where
  "kept_src n k = k + k div (n - 1)"

lemma kept_count_le: "kept_count n c \<le> c"
  by (simp add: kept_count_def)

lemma kept_step:
  assumes "1 < n"
  shows "(c + 1) mod n \<noteq> 0 \<Longrightarrow> kept_count n (Suc c) = Suc (kept_count n c) \<and> kept_src n (kept_count n c) = c"
    and "(c + 1) mod n = 0 \<Longrightarrow> kept_count n (Suc c) = kept_count n c"
proof -
  define q r where "q = c div n" and "r = c mod n"
  have c: "c = q * n + r" and r: "r < n" using assms by (simp_all add: q_def r_def)
  have q_le: "q \<le> q * n" using assms by simp
  have mod_eq: "(c + 1) mod n = (r + 1) mod n" using c by (simp add: mod_add_left_eq add.assoc)
  have dm: "q * n - q = q * (n - 1)" by (simp add: diff_mult_distrib2)
  have kc: "kept_count n c = q * n + r - q" using c by (metis kept_count_def q_def)
  {
    assume "(c + 1) mod n \<noteq> 0"
    with mod_eq r have r1: "r + 1 < n"
      by (metis Suc_eq_plus1 less_Suc_eq mod_self not_less_eq)
    then have "Suc c div n = q" using c by (intro div_nat_eqI) (auto simp: mult.commute)
    moreover have "kept_count n c = q * (n - 1) + r" using kc q_le dm by linarith
    moreover have "(q * (n - 1) + r) div (n - 1) = q"
      using r1 by (intro div_nat_eqI) (auto simp: mult.commute)
    ultimately have "kept_count n (Suc c) = Suc c - q" and kcc: "kept_count n c = q * (n - 1) + r"
      and "kept_src n (kept_count n c) = q * (n - 1) + r + q"
      by (simp_all only: kept_count_def kept_src_def)
    then show "kept_count n (Suc c) = Suc (kept_count n c) \<and> kept_src n (kept_count n c) = c"
      using q_le dm c by linarith
  }
  {
    assume "(c + 1) mod n = 0"
    with mod_eq r have "r + 1 = n"
      by (metis Suc_eq_plus1 Suc_leI le_neq_implies_less mod_less nat.simps(3))
    then have "Suc c div n = q + 1" using c by (intro div_nat_eqI) (auto simp: algebra_simps)
    then show "kept_count n (Suc c) = kept_count n c"
      by (simp add: kept_count_def q_def [symmetric])
  }
qed

text \<open>The loop invariant: complete output bytes are written, the last \<open>bc\<close> survivors sit
  in the bit buffer, and nothing from the write position on has changed yet.\<close>

definition remove_inv :: "bytes \<Rightarrow> nat \<Rightarrow> nat \<Rightarrow> nat \<Rightarrow> bytes \<times> nat \<times> u8 \<times> nat \<Rightarrow> bool" where
  "remove_inv d pos n c = (\<lambda>(e, rc, buf, bc).
     rc + bc = kept_count n c \<and> bc < 8 \<and> length e = length d \<and>
     (\<forall>q < 8 * length d. (q < pos \<or> pos + rc \<le> q) \<longrightarrow> msb_bit e q = msb_bit d q) \<and>
     (\<forall>k < rc. msb_bit e (pos + k) = msb_bit d (pos + kept_src n k)) \<and>
     (\<forall>i < bc. bit buf (bc - 1 - i) = msb_bit d (pos + kept_src n (rc + i))))"

lemma remove_step:
  assumes n: "1 < n" and c: "c < len" and fits: "pos + len \<le> 8 * length d"
    and I: "remove_inv d pos n c (e, rc, buf, bc)"
  shows "\<exists>t. remove_nth_step pos n c (e, rc, buf, bc) = Some t \<and> remove_inv d pos n (Suc c) t"
proof (cases "(c + 1) mod n = 0")
  case True
  with kept_step(2) [OF n True] I show ?thesis
    by (auto simp: remove_nth_step_def remove_inv_def)
next
  case False
  note k = kept_step(1) [OF n False]
  let ?buf = "push_bit 1 buf OR of_bool (msb_bit d (pos + c))"
  have rc: "rc \<le> c" using I kept_count_le [of n c] by (auto simp: remove_inv_def)
  have get: "bit_lib_get_bit e (pos + c) = Some (msb_bit d (pos + c))"
    using I rc c fits by (auto simp: remove_inv_def get_bit_msb)
  have src: "kept_src n (rc + bc) = c" using I k by (simp add: remove_inv_def)
  have buf: "bit ?buf (bc - i) = msb_bit d (pos + kept_src n (rc + i))" if i: "i < Suc bc" for i
  proof (cases "i = bc")
    case True
    then show ?thesis using src by (simp add: shift_in_bit)
  next
    case F: False
    with i I have "i < bc" "bc < 8" by (auto simp: remove_inv_def)
    then have "bit ?buf (bc - i) = bit buf (bc - 1 - i)"
      by (subst shift_in_bit) (auto simp: add.commute)
    then show ?thesis using I \<open>i < bc\<close> by (simp add: remove_inv_def)
  qed
  show ?thesis
  proof (cases "bc + 1 = 8")
    case F: False
    then have "remove_nth_step pos n c (e, rc, buf, bc) = Some (e, rc, ?buf, bc + 1)"
      using False get by (simp add: remove_nth_step_def)
    moreover have "remove_inv d pos n (Suc c) (e, rc, ?buf, bc + 1)"
      using I k F buf by (auto simp: remove_inv_def)
    ultimately show ?thesis by blast
  next
    case T: True
    then have "rc + 8 = kept_count n (Suc c)" using I k by (auto simp: remove_inv_def)
    then have "rc + 8 \<le> c + 1" using kept_count_le [of n "Suc c"] by simp
    then have w: "pos + rc + 8 \<le> 8 * length e" using c fits I by (auto simp: remove_inv_def)
    obtain e' where e': "bit_lib_set_bits e (pos + rc) ?buf 8 = Some e'" "length e' = length e"
      "\<forall>q < 8 * length e. msb_bit e' q = (if pos + rc \<le> q \<and> q < pos + rc + 8
         then bit ?buf (8 - 1 - (q - (pos + rc))) else msb_bit e q)"
      using set_bits_msb [of 8 "pos + rc" e ?buf] w by auto
    have "remove_nth_step pos n c (e, rc, buf, bc) = Some (e', rc + 8, 0, 0)"
      using False get T e'(1) by (simp add: remove_nth_step_def)
    moreover have "msb_bit e' (pos + m) = msb_bit d (pos + kept_src n m)" if "m < rc + 8" for m
    proof (cases "m < rc")
      case True
      then show ?thesis using e'(3) w I by (simp add: remove_inv_def)
    next
      case False
      then have "msb_bit e' (pos + m) = bit ?buf (bc - (m - rc))"
        using e'(3) w that T by (auto simp: One_nat_def)
      also have "\<dots> = msb_bit d (pos + kept_src n (rc + (m - rc)))"
        using that False T by (intro buf) linarith
      finally show ?thesis using False by simp
    qed
    ultimately show ?thesis
      using I k T e' w by (auto simp: remove_inv_def)
  qed
qed

lemma remove_bit_every_nth_msb:
  assumes n: "1 < n" and fits: "pos + len \<le> 8 * length d"
  shows "\<exists>e. bit_lib_remove_bit_every_nth d pos len n = Some (e, kept_count n len) \<and> length e = length d \<and>
    (\<forall>k < kept_count n len. msb_bit e (pos + k) = msb_bit d (pos + kept_src n k))"
proof -
  have "\<exists>t. ofold (remove_nth_step pos n) [0..<len] (d, 0, 0, 0) = Some t \<and> remove_inv d pos n len t"
  proof (rule ofold_upt_inv [where I = "remove_inv d pos n"])
    show "remove_inv d pos n 0 (d, 0, 0, 0)" by (simp add: remove_inv_def kept_count_def)
  next
    fix c t
    assume "c < len" "remove_inv d pos n c t"
    then show "\<exists>t'. remove_nth_step pos n c t = Some t' \<and> remove_inv d pos n (Suc c) t'"
      using remove_step [OF n _ fits] by (cases t) blast
  qed
  then obtain e rc buf bc where loop:
      "ofold (remove_nth_step pos n) [0..<len] (d, 0, 0, 0) = Some (e, rc, buf, bc)"
    and I: "remove_inv d pos n len (e, rc, buf, bc)" by auto
  show ?thesis
  proof (cases "bc = 0")
    case True
    with loop I n show ?thesis
      by (auto simp: bit_lib_remove_bit_every_nth_def remove_inv_def)
  next
    case False
    have bc: "rc + bc = kept_count n len" "bc < 8" "length e = length d"
      using I by (simp_all add: remove_inv_def)
    then have w: "pos + rc + bc \<le> 8 * length e" using kept_count_le [of n len] fits by simp
    obtain e' where e': "bit_lib_set_bits e (pos + rc) buf bc = Some e'" "length e' = length e"
      "\<forall>q < 8 * length e. msb_bit e' q = (if pos + rc \<le> q \<and> q < pos + rc + bc
         then bit buf (bc - 1 - (q - (pos + rc))) else msb_bit e q)"
      using set_bits_msb [of bc "pos + rc" e buf] w False bc by auto
    have B: "\<And>i. i < bc \<Longrightarrow> bit buf (bc - 1 - i) = msb_bit d (pos + kept_src n (rc + i))"
      using I by (simp add: remove_inv_def)
    have "msb_bit e' (pos + k) = msb_bit d (pos + kept_src n k)" if "k < rc + bc" for k
    proof (cases "k < rc")
      case True
      then show ?thesis using e'(3) w I by (simp add: remove_inv_def)
    next
      case F: False
      then have "msb_bit e' (pos + k) = bit buf (bc - 1 - (k - rc))"
        using e'(3) w that by auto
      also have "\<dots> = msb_bit d (pos + kept_src n (rc + (k - rc)))"
        by (rule B) (use that F in linarith)
      finally show ?thesis using F by simp
    qed
    then show ?thesis
      using loop False e' bc n by (auto simp: bit_lib_remove_bit_every_nth_def)
  qed
qed


subsection \<open>Parity groups\<close>

definition ones :: "bytes \<Rightarrow> nat \<Rightarrow> nat \<Rightarrow> nat" where
  "ones d p n = length (filter (\<lambda>i. msb_bit d (p + i)) [0..<n])"

lemma ones_Suc: "ones d p (Suc n) = ones d p n + of_bool (msb_bit d (p + n))"
  by (simp add: ones_def)

lemma ones_cong: "(\<And>i. i < n \<Longrightarrow> msb_bit d (p + i) = msb_bit e (q + i)) \<Longrightarrow> ones d p n = ones e q n"
  unfolding ones_def by (intro arg_cong [where f = length] filter_cong) auto

lemma pop_count_field:
  assumes "is_field (v :: 'a::len word) d p n" "n \<le> LENGTH('a)"
  shows "pop_count v = ones d p n"
proof -
  have "pop_count v = card {k. k < LENGTH('a) \<and> bit v k}"
    unfolding pop_count_def length_filter_conv_card
    by (intro arg_cong [where f = card] Collect_cong) auto
  also have "\<dots> = card {i. i < n \<and> msb_bit d (p + i)}"
  proof (rule bij_betw_same_card [where f = "\<lambda>k. n - 1 - k"], rule bij_betw_byWitness [where f' = "\<lambda>i. n - 1 - i"])
    have fld: "bit v k \<longleftrightarrow> k < n \<and> msb_bit d (p + (n - 1 - k))" for k
      using assms(1) unfolding is_field_def by blast
    show "(\<lambda>k. n - 1 - k) ` {k. k < LENGTH('a) \<and> bit v k} \<subseteq> {i. i < n \<and> msb_bit d (p + i)}"
      by (auto simp: fld)
    show "(\<lambda>i. n - 1 - i) ` {i. i < n \<and> msb_bit d (p + i)} \<subseteq> {k. k < LENGTH('a) \<and> bit v k}"
    proof safe
      fix i
      assume "i < n" "msb_bit d (p + i)"
      then have "n - 1 - i < n" "n - 1 - (n - 1 - i) = i" by linarith+
      with \<open>msb_bit d (p + i)\<close> show "bit v (n - 1 - i)" by (simp only: fld)
    qed (use assms(2) in linarith)
  qed (use assms(1) in \<open>auto simp: is_field_def\<close>)
  also have "\<dots> = ones d p n"
    unfolding ones_def length_filter_conv_card
    by (intro arg_cong [where f = card] Collect_cong) auto
  finally show ?thesis .
qed

lemma is_field_shift_in:
  assumes "is_field (v :: 'a::len word) d p n" "n < LENGTH('a)"
  shows "is_field (push_bit 1 v OR of_bool (msb_bit d (p + n))) d p (Suc n)"
proof -
  have "bit (push_bit 1 v OR of_bool (msb_bit d (p + n))) k \<longleftrightarrow> k < Suc n \<and> msb_bit d (p + (Suc n - 1 - k))" for k
  proof (cases k)
    case 0
    then show ?thesis by (simp add: bit_or_iff bit_push_bit_iff bit_of_bool_iff One_nat_def)
  next
    case (Suc j)
    have "bit v j \<longleftrightarrow> j < n \<and> msb_bit d (p + (n - 1 - j))"
      using assms(1) unfolding is_field_def by blast
    then show ?thesis
      using Suc assms(2) by (auto simp: bit_or_iff bit_push_bit_iff bit_of_bool_iff One_nat_def)
  qed
  then show ?thesis unfolding is_field_def by blast
qed

text \<open>The bit \<open>bit_lib_add_parity\<close> appends to a group of \<open>n\<close> bits.\<close>

definition group_marker :: "bytes \<Rightarrow> nat \<Rightarrow> nat \<Rightarrow> BitLibParity \<Rightarrow> bool" where
  "group_marker d p n parity = (case parity of
     BitLibParityAlways0 \<Rightarrow> False | BitLibParityAlways1 \<Rightarrow> True
   | BitLibParityEven \<Rightarrow> odd (ones d p n) | BitLibParityOdd \<Rightarrow> even (ones d p n))"

lemma add_parity_bits:
  assumes "pos + w + m \<le> 8 * length data" "dpos + j + m \<le> 8 * length e" "m \<le> 32"
  shows "\<exists>e' pw. ofold (add_parity_bit data pos dpos w) [0..<m] (e, j, 0) = Some (e', j + m, pw) \<and>
    length e' = length e \<and> is_field pw data (pos + w) m \<and>
    (\<forall>q < 8 * length e. msb_bit e' q =
      (if dpos + j \<le> q \<and> q < dpos + j + m then msb_bit data (pos + w + (q - (dpos + j))) else msb_bit e q))"
proof -
  let ?I = "\<lambda>k (e', j', pw :: u32). j' = j + k \<and> length e' = length e \<and> is_field pw data (pos + w) k \<and>
    (\<forall>q < 8 * length e. msb_bit e' q =
      (if dpos + j \<le> q \<and> q < dpos + j + k then msb_bit data (pos + w + (q - (dpos + j))) else msb_bit e q))"
  have "\<exists>t. ofold (add_parity_bit data pos dpos w) [0..<m] (e, j, 0) = Some t \<and> ?I m t"
  proof (rule ofold_upt_inv [where I = ?I])
    show "?I 0 (e, j, 0)" by (auto simp: is_field_def)
  next
    fix k t
    assume k: "k < m" and I: "?I k t"
    obtain e1 j1 pw where t: "t = (e1, j1, pw)" by (cases t)
    have e1: "j1 = j + k" "length e1 = length e" "is_field pw data (pos + w) k"
      "\<forall>q < 8 * length e. msb_bit e1 q =
        (if dpos + j \<le> q \<and> q < dpos + j + k then msb_bit data (pos + w + (q - (dpos + j))) else msb_bit e q)"
      using I by (simp_all add: t)
    let ?b = "msb_bit data (pos + w + k)"
    have get: "bit_lib_get_bit data (pos + w + k) = Some ?b"
      using assms(1) k by (intro get_bit_msb) linarith
    have "dpos + j1 < 8 * length e1" using assms(2) k e1 by simp
    then obtain e2 where e2: "bit_lib_set_bit e1 (dpos + j1) ?b = Some e2" "length e2 = length e1"
      "\<forall>q < 8 * length e1. msb_bit e2 q = (if q = dpos + j1 then ?b else msb_bit e1 q)"
      using set_bit_msb by blast
    have "add_parity_bit data pos dpos w k t = Some (e2, j1 + 1, push_bit 1 pw OR of_bool ?b)"
      using get e2(1) by (simp add: add_parity_bit_def t)
    moreover have "is_field (push_bit 1 pw OR of_bool ?b) data (pos + w) (Suc k)"
      using is_field_shift_in [OF e1(3)] k assms(3) by simp
    ultimately show "\<exists>t'. add_parity_bit data pos dpos w k t = Some t' \<and> ?I (Suc k) t'"
      using e1 e2 by (auto simp: less_Suc_eq add.assoc)
  qed
  then show ?thesis by auto
qed

lemma add_parity_group:
  assumes "pos + w + (L - 1) \<le> 8 * length data" "dpos + j + L \<le> 8 * length e" "L \<le> 33" "2 \<le> L"
  shows "\<exists>e'. add_parity_word data pos dpos L parity w (e, j, bc) = Some (e', j + L, bc + L) \<and>
    length e' = length e \<and>
    (\<forall>q < 8 * length e. msb_bit e' q =
      (if q = dpos + j + (L - 1) then group_marker data (pos + w) (L - 1) parity
       else if dpos + j \<le> q \<and> q < dpos + j + (L - 1) then msb_bit data (pos + w + (q - (dpos + j)))
       else msb_bit e q))"
proof -
  have "dpos + j + (L - 1) \<le> 8 * length e" "L - 1 \<le> 32" using assms by linarith+
  from add_parity_bits [OF assms(1) this] obtain e1 pw where
    e1: "ofold (add_parity_bit data pos dpos w) [0..<L - 1] (e, j, 0) = Some (e1, j + (L - 1), pw)"
      "length e1 = length e" "is_field pw data (pos + w) (L - 1)"
      "\<forall>q < 8 * length e. msb_bit e1 q = (if dpos + j \<le> q \<and> q < dpos + j + (L - 1)
         then msb_bit data (pos + w + (q - (dpos + j))) else msb_bit e q)"
    by blast
  have "pop_count pw = ones data (pos + w) (L - 1)"
    using pop_count_field [OF e1(3)] assms(3) by simp
  then have marker: "(case parity of
         BitLibParityAlways0 \<Rightarrow> Some False
       | BitLibParityAlways1 \<Rightarrow> Some True
       | _ \<Rightarrow> do {
           t \<leftarrow> bit_lib_test_parity_32 pw BitLibParityOdd;
           Some ((t \<noteq> (parity = BitLibParityOdd)) \<noteq> True)
         }) = Some (group_marker data (pos + w) (L - 1) parity)"
    by (cases parity) (simp_all add: bit_lib_test_parity_32_def group_marker_def)
  have "dpos + (j + (L - 1)) < 8 * length e1" using assms e1 by linarith
  then obtain e2 where
    e2: "bit_lib_set_bit e1 (dpos + (j + (L - 1))) (group_marker data (pos + w) (L - 1) parity) = Some e2"
      "length e2 = length e1"
      "\<forall>q < 8 * length e1. msb_bit e2 q = (if q = dpos + (j + (L - 1))
         then group_marker data (pos + w) (L - 1) parity else msb_bit e1 q)"
    using set_bit_msb by blast
  have "add_parity_word data pos dpos L parity w (e, j, bc) = Some (e2, j + (L - 1) + 1, bc + L)"
    unfolding add_parity_word_def split using e1(1) marker e2(1) by simp
  moreover have "j + (L - 1) + 1 = j + L" using assms(4) by linarith
  ultimately show ?thesis using e1 e2 by (auto simp: add.assoc)
qed

text \<open>Number of groups of an input of \<open>n\<close> bits.\<close>

definition parity_groups :: "nat \<Rightarrow> nat \<Rightarrow> nat" where
  "parity_groups n L = (n + (L - 1) - 1) div (L - 1)"

lemma add_parity_msb:
  assumes L: "2 \<le> L" "L \<le> 33" and n: "0 < n"
    and src: "pos + parity_groups n L * (L - 1) \<le> 8 * length data"
    and dst: "dpos + parity_groups n L * L \<le> 8 * length dest"
  shows "\<exists>e. bit_lib_add_parity data pos dest dpos n L parity = Some (e, parity_groups n L * L) \<and>
    length e = length dest \<and>
    (\<forall>g < parity_groups n L.
       msb_bit e (dpos + g * L + (L - 1)) = group_marker data (pos + g * (L - 1)) (L - 1) parity \<and>
       (\<forall>i < L - 1. msb_bit e (dpos + g * L + i) = msb_bit data (pos + g * (L - 1) + i)))"
proof -
  let ?G = "parity_groups n L"
  let ?grp = "\<lambda>e g. msb_bit e (dpos + g * L + (L - 1)) = group_marker data (pos + g * (L - 1)) (L - 1) parity \<and>
       (\<forall>i < L - 1. msb_bit e (dpos + g * L + i) = msb_bit data (pos + g * (L - 1) + i))"
  let ?I = "\<lambda>k (e, j, bc). j = k * L \<and> bc = k * L \<and> length e = length dest \<and> (\<forall>g < k. ?grp e g)"
  let ?f = "\<lambda>k. add_parity_word data pos dpos L parity (k * (L - 1))"
  have "\<exists>t. ofold ?f [0..<?G] (dest, 0, 0) = Some t \<and> ?I ?G t"
  proof (rule ofold_upt_inv [where I = ?I])
    show "?I 0 (dest, 0, 0)" by simp
  next
    fix k t
    assume k: "k < ?G" and I: "?I k t"
    obtain e j bc where t: "t = (e, j, bc)" by (cases t)
    have e: "j = k * L" "bc = k * L" "length e = length dest" "\<forall>g < k. ?grp e g"
      using I by (simp_all add: t)
    have kl: "Suc k * L \<le> ?G * L" "Suc k * (L - 1) \<le> ?G * (L - 1)"
      using k by (intro mult_le_mono1; simp)+
    have b: "pos + k * (L - 1) + (L - 1) \<le> 8 * length data" "dpos + j + L \<le> 8 * length e"
      using kl src dst e by simp_all
    obtain e' where e': "?f k (e, j, bc) = Some (e', j + L, bc + L)" "length e' = length e"
      "\<forall>q < 8 * length e. msb_bit e' q =
        (if q = dpos + j + (L - 1) then group_marker data (pos + k * (L - 1)) (L - 1) parity
         else if dpos + j \<le> q \<and> q < dpos + j + (L - 1) then msb_bit data (pos + k * (L - 1) + (q - (dpos + j)))
         else msb_bit e q)"
      using add_parity_group [OF b L(2,1)] by blast
    have "?grp e' g" if g: "g < Suc k" for g
    proof (cases "g = k")
      case True
      have lim: "dpos + j + i < 8 * length e" if "i < L" for i using that b(2) by linarith
      have "msb_bit e' (dpos + j + (L - 1)) = group_marker data (pos + k * (L - 1)) (L - 1) parity"
        using e'(3) [rule_format, OF lim [of "L - 1"]] L(1) by simp
      moreover have "msb_bit e' (dpos + j + i) = msb_bit data (pos + k * (L - 1) + i)" if "i < L - 1" for i
      proof -
        have "dpos + j + i \<noteq> dpos + j + (L - 1)" "i < L" "dpos + j + i < dpos + j + (L - 1)"
          using that by linarith+
        then show ?thesis using e'(3) [rule_format, OF lim [of i]] by (simp only: if_True if_False) simp
      qed
      ultimately show ?thesis using True e(1) by simp
    next
      case False
      then have "Suc g * L \<le> k * L" using g by (intro mult_le_mono1) simp
      then have lt: "dpos + g * L + i < dpos + j" if "i < L" for i using that e(1) by simp
      have keep: "msb_bit e' (dpos + g * L + i) = msb_bit e (dpos + g * L + i)" if "i < L" for i
        using e'(3) lt [OF that] b(2) by simp
      have "msb_bit e' (dpos + g * L + (L - 1)) = msb_bit e (dpos + g * L + (L - 1))"
        using L(1) by (intro keep) simp
      moreover have "\<forall>i < L - 1. msb_bit e' (dpos + g * L + i) = msb_bit e (dpos + g * L + i)"
        using keep by simp
      moreover have "?grp e g" using e(4) g False by auto
      ultimately show ?thesis by simp
    qed
    then show "\<exists>t'. ?f k t = Some t' \<and> ?I (Suc k) t'"
      using e' e by (simp add: t)
  qed
  then obtain e where "ofold ?f [0..<?G] (dest, 0, 0) = Some (e, ?G * L, ?G * L)"
    "length e = length dest" "\<forall>g < ?G. ?grp e g" by auto
  moreover from this(1) have "bit_lib_add_parity data pos dest dpos n L parity = Some (e, ?G * L)"
    using L n by (simp add: bit_lib_add_parity_def add_parity_starts_def ofold_map parity_groups_def)
  ultimately show ?thesis by blast
qed


lemma parity_group_ok_value:
  assumes "0 < L" "L \<le> 32" "pos + i * L + L \<le> 8 * length d"
  shows "parity_group_ok d pos parity L i = Some (case parity of
      BitLibParityEven \<Rightarrow> odd (ones d (pos + i * L) L)
    | BitLibParityOdd \<Rightarrow> even (ones d (pos + i * L) L)
    | BitLibParityAlways0 \<Rightarrow> \<not> msb_bit d (pos + i * L + (L - 1))
    | BitLibParityAlways1 \<Rightarrow> msb_bit d (pos + i * L + (L - 1)))"
proof -
  obtain v where "bit_lib_get_bits_32 d (pos + i * L) L = Some v" "is_field v d (pos + i * L) L"
    using get_bits_32_field [OF assms] by blast
  moreover from this(2) have "pop_count v = ones d (pos + i * L) L"
    using assms(2) by (intro pop_count_field) simp_all
  moreover have "bit_lib_get_bit d (pos + i * L + L - 1) = Some (msb_bit d (pos + i * L + (L - 1)))"
    using assms get_bit_msb [of "pos + i * L + L - 1" d] by (simp add: add.assoc)
  ultimately show ?thesis
    by (cases parity) (simp_all add: parity_group_ok_def bit_lib_test_parity_32_def)
qed

lemma parity_loop_True:
  "(\<And>i. i \<in> set is \<Longrightarrow> parity_group_ok d pos parity L i = Some True) \<Longrightarrow>
   parity_groups_loop d pos parity L is = Some True"
  by (induction "is") auto

lemma parity_loop_False:
  "(\<And>i. i \<in> set is \<Longrightarrow> parity_group_ok d pos parity L i = Some False) \<Longrightarrow> is \<noteq> [] \<Longrightarrow>
   parity_groups_loop d pos parity L is = Some False"
  by (cases "is") auto

text \<open>Number of ones of a group that \<open>bit_lib_add_parity\<close> has written.\<close>

lemma ones_with_marker:
  assumes "2 \<le> L"
    and "msb_bit e (q + (L - 1)) = group_marker d p (L - 1) parity"
    and "\<forall>i < L - 1. msb_bit e (q + i) = msb_bit d (p + i)"
  shows "ones e q L = ones d p (L - 1) + of_bool (group_marker d p (L - 1) parity)"
proof -
  have "ones e q (Suc (L - 1)) = ones e q (L - 1) + of_bool (msb_bit e (q + (L - 1)))"
    by (rule ones_Suc)
  moreover have "Suc (L - 1) = L" using assms(1) by simp
  moreover have "ones e q (L - 1) = ones d p (L - 1)" using assms(3) by (intro ones_cong) simp
  ultimately show ?thesis using assms(2) by simp
qed

text \<open>What \<open>bit_lib_test_parity\<close> says of a buffer filled by \<open>bit_lib_add_parity\<close>.\<close>

lemma add_then_test_parity:
  assumes L: "2 \<le> L" "L \<le> 32" and n: "0 < n"
    and src: "pos + parity_groups n L * (L - 1) \<le> 8 * length data"
    and dst: "dpos + parity_groups n L * L \<le> 8 * length dest"
  shows "\<exists>e. bit_lib_add_parity data pos dest dpos n L p = Some (e, parity_groups n L * L) \<and>
    bit_lib_test_parity e dpos (parity_groups n L * L) t L = Some (case t of
        BitLibParityAlways0 \<Rightarrow> (\<forall>g < parity_groups n L. \<not> group_marker data (pos + g * (L - 1)) (L - 1) p)
      | BitLibParityAlways1 \<Rightarrow> (\<forall>g < parity_groups n L. group_marker data (pos + g * (L - 1)) (L - 1) p)
      | BitLibParityEven \<Rightarrow> (\<forall>g < parity_groups n L. odd (ones data (pos + g * (L - 1)) (L - 1) +
            of_bool (group_marker data (pos + g * (L - 1)) (L - 1) p)))
      | BitLibParityOdd \<Rightarrow> (\<forall>g < parity_groups n L. even (ones data (pos + g * (L - 1)) (L - 1) +
            of_bool (group_marker data (pos + g * (L - 1)) (L - 1) p))))"
proof -
  let ?G = "parity_groups n L"
  obtain e where e: "bit_lib_add_parity data pos dest dpos n L p = Some (e, ?G * L)" "length e = length dest"
    and grp: "\<And>g. g < ?G \<Longrightarrow>
       msb_bit e (dpos + g * L + (L - 1)) = group_marker data (pos + g * (L - 1)) (L - 1) p \<and>
       (\<forall>i < L - 1. msb_bit e (dpos + g * L + i) = msb_bit data (pos + g * (L - 1) + i))"
    using add_parity_msb [OF L(1) _ n src dst, of p] L(2) by auto
  have ok: "parity_group_ok e dpos t L g = Some (case t of
        BitLibParityAlways0 \<Rightarrow> \<not> group_marker data (pos + g * (L - 1)) (L - 1) p
      | BitLibParityAlways1 \<Rightarrow> group_marker data (pos + g * (L - 1)) (L - 1) p
      | BitLibParityEven \<Rightarrow> odd (ones data (pos + g * (L - 1)) (L - 1) +
            of_bool (group_marker data (pos + g * (L - 1)) (L - 1) p))
      | BitLibParityOdd \<Rightarrow> even (ones data (pos + g * (L - 1)) (L - 1) +
            of_bool (group_marker data (pos + g * (L - 1)) (L - 1) p)))" if g: "g < ?G" for g
  proof -
    have "Suc g * L \<le> ?G * L" using g by (intro mult_le_mono1) simp
    then have "dpos + g * L + L \<le> 8 * length e" using dst e(2) by simp
    then show ?thesis
      using parity_group_ok_value [of L dpos g e t] L ones_with_marker [OF L(1)] grp [OF g]
      by (cases t) simp_all
  qed
  have loop: "parity_groups_loop e dpos t L is = Some (\<forall>i \<in> set is. P i)"
    if "\<And>i. i \<in> set is \<Longrightarrow> parity_group_ok e dpos t L i = Some (P i)" for "is" P
    using that by (induction "is") auto
  have "bit_lib_test_parity e dpos (?G * L) t L = parity_groups_loop e dpos t L [0..<?G]"
    using L by (simp add: bit_lib_test_parity_def)
  also have "\<dots> = Some (\<forall>g < ?G. case t of
        BitLibParityAlways0 \<Rightarrow> \<not> group_marker data (pos + g * (L - 1)) (L - 1) p
      | BitLibParityAlways1 \<Rightarrow> group_marker data (pos + g * (L - 1)) (L - 1) p
      | BitLibParityEven \<Rightarrow> odd (ones data (pos + g * (L - 1)) (L - 1) +
            of_bool (group_marker data (pos + g * (L - 1)) (L - 1) p))
      | BitLibParityOdd \<Rightarrow> even (ones data (pos + g * (L - 1)) (L - 1) +
            of_bool (group_marker data (pos + g * (L - 1)) (L - 1) p)))"
    by (subst loop [OF ok]) auto
  finally show ?thesis using e(1) by (cases t) simp_all
qed

text \<open>Removing the parity bits again gives the data back.\<close>

lemma kept_count_groups: "1 < L \<Longrightarrow> kept_count L (G * L) = G * (L - 1)"
  by (simp add: kept_count_def diff_mult_distrib2)

text \<open>Adding a parity bit to every group of a bit stream (\<open>bit_lib_add_parity\<close>) and removing
  every \<open>n\<close>th bit (\<open>bit_lib_remove_bit_every_nth\<close>) gives the stream back, in place
  and for every kind of parity.\<close>

theorem add_remove_parity:
  assumes L: "2 \<le> L" "L \<le> 33" and n: "0 < n"
    and src: "pos + parity_groups n L * (L - 1) \<le> 8 * length data"
    and dst: "dpos + parity_groups n L * L \<le> 8 * length dest"
  shows "\<exists>e e'. bit_lib_add_parity data pos dest dpos n L parity = Some (e, parity_groups n L * L) \<and>
    bit_lib_remove_bit_every_nth e dpos (parity_groups n L * L) L = Some (e', parity_groups n L * (L - 1)) \<and>
    (\<forall>k < parity_groups n L * (L - 1). msb_bit e' (dpos + k) = msb_bit data (pos + k))"
proof -
  let ?G = "parity_groups n L"
  obtain e where e: "bit_lib_add_parity data pos dest dpos n L parity = Some (e, ?G * L)" "length e = length dest"
    and grp: "\<And>g i. g < ?G \<Longrightarrow> i < L - 1 \<Longrightarrow>
      msb_bit e (dpos + g * L + i) = msb_bit data (pos + g * (L - 1) + i)"
    using add_parity_msb [OF L n src dst, of parity] by auto
  have "dpos + ?G * L \<le> 8 * length e" using dst e(2) by simp
  from remove_bit_every_nth_msb [OF _ this, of L] L(1) obtain e' where
    e': "bit_lib_remove_bit_every_nth e dpos (?G * L) L = Some (e', ?G * (L - 1))"
      "\<forall>k < ?G * (L - 1). msb_bit e' (dpos + k) = msb_bit e (dpos + kept_src L k)"
    by (auto simp: kept_count_groups)
  have "msb_bit e' (dpos + k) = msb_bit data (pos + k)" if k: "k < ?G * (L - 1)" for k
  proof -
    let ?g = "k div (L - 1)" and ?i = "k mod (L - 1)"
    have g: "?g < ?G" using k by (simp add: less_mult_imp_div_less)
    have i: "?i < L - 1" using L(1) by simp
    have k_eq: "k = ?g * (L - 1) + ?i" by (simp only: div_mult_mod_eq)
    have "?g * L = ?g * (L - 1) + ?g" using L(1) by (simp add: diff_mult_distrib2)
    then have "kept_src L k = ?g * L + ?i" using k_eq unfolding kept_src_def by linarith
    then have "msb_bit e' (dpos + k) = msb_bit e (dpos + ?g * L + ?i)"
      using e'(2) k by (simp add: add.assoc)
    also have "\<dots> = msb_bit data (pos + ?g * (L - 1) + ?i)" by (rule grp [OF g i])
    finally show ?thesis using k_eq by (simp add: add.assoc)
  qed
  with e e' show ?thesis by blast
qed

theorem add_remove_parity_witness:
  "\<exists>e e'. bit_lib_add_parity [0xA7, 0x3C] 0 [0, 0, 0] 1 14 8 BitLibParityEven = Some (e, 16) \<and>
    bit_lib_remove_bit_every_nth e 1 16 8 = Some (e', 14) \<and>
    (\<forall>k < 14. msb_bit e' (1 + k) = msb_bit [0xA7, 0x3C] k)"
  using add_remove_parity [of 8 14 0 "[0xA7, 0x3C]" 1 "[0, 0, 0]" BitLibParityEven]
  by (simp add: parity_groups_def)

subsection \<open>Binary coded decimal\<close>

fun decimal_value :: "nat list \<Rightarrow> nat" where
  "decimal_value ds = foldl (\<lambda>a d. 10 * a + d) 0 ds"

definition bcd_digits :: "bytes \<Rightarrow> nat list" where
  "bcd_digits src = concat (map (\<lambda>x. [unat (x div 16), unat (x mod 16)]) src)"

lemma foldl_decimal_append:
  "foldl (\<lambda>a d. 10 * a + d) z (xs @ [a, b]) = 100 * foldl (\<lambda>a d. 10 * a + d) z xs + 10 * a + (b::nat)"
  by simp

text \<open>\<open>bit_lib_bytes_to_num_bcd\<close> reports BCD exactly when all nibbles are decimal digits, and
  then the number it returns is the decimal value of those digits (no wrap-around up to nine bytes).\<close>

theorem bcd_value:
  assumes "len \<le> 9" "len \<le> length src"
  shows "\<exists>v b. bit_lib_bytes_to_num_bcd src len = Some (v, b) \<and>
    (b \<longleftrightarrow> (\<forall>d \<in> set (bcd_digits (take len src)). d \<le> 9)) \<and>
    (b \<longrightarrow> unat v = decimal_value (bcd_digits (take len src)))"
proof -
  let ?I = "\<lambda>k (v :: u64, b). (b \<longleftrightarrow> (\<forall>d \<in> set (bcd_digits (take k src)). d \<le> 9)) \<and>
    (b \<longrightarrow> unat v = decimal_value (bcd_digits (take k src)) \<and> unat v < 100 ^ k)"
  let ?f = "\<lambda>i (res :: u64, is_bcd). do {
         x \<leftarrow> rd src i;
         let nibble_1 = x div 16;
         let nibble_2 = x mod 16;
         let is_bcd = (if nibble_1 > 9 \<or> nibble_2 > 9 then False else is_bcd);
         Some ((res * 10 + ucast nibble_1) * 10 + ucast nibble_2, is_bcd)
       }"
  have "\<exists>t. ofold ?f [0..<len] (0, True) = Some t \<and> ?I len t"
  proof (rule ofold_upt_inv [where I = ?I])
    show "?I 0 (0, True)" by (simp add: bcd_digits_def)
  next
    fix k t
    assume k: "k < len" and I: "?I k t"
    obtain v b where t: "t = (v, b)" by (cases t)
    let ?x = "src ! k"
    let ?hi = "unat (?x div 16)" and ?lo = "unat (?x mod 16)"
    let ?v' = "(v * 10 + ucast (?x div 16)) * 10 + ucast (?x mod 16)"
    have digs: "bcd_digits (take (Suc k) src) = bcd_digits (take k src) @ [?hi, ?lo]"
      using k assms(2) by (simp add: bcd_digits_def take_Suc_conv_app_nth)
    have le: "?x div 16 > 9 \<longleftrightarrow> ?hi > 9" "?x mod 16 > 9 \<longleftrightarrow> ?lo > 9"
      by (simp_all add: word_less_nat_alt)
    have "unat ?v' = 100 * unat v + 10 * ?hi + ?lo \<and> unat ?v' < 100 ^ Suc k"
      if "unat v < 100 ^ k" "?hi \<le> 9" "?lo \<le> 9"
    proof -
      have "100 * unat v + 10 * ?hi + ?lo < 100 ^ Suc k" using that by simp
      moreover have "(100::nat) ^ Suc k \<le> 100 ^ 9" using k assms(1) by (intro power_increasing) auto
      ultimately have lt: "100 * unat v + 10 * ?hi + ?lo < 10 ^ 18" by simp
      have "unat (ucast (?x div 16) :: u64) = ?hi" "unat (ucast (?x mod 16) :: u64) = ?lo"
        by (simp_all add: unat_ucast_up)
      then have "unat ?v' = ((unat v * 10 + ?hi) * 10 + ?lo) mod 2 ^ 64"
        by (simp add: unat_word_ariths mod_simps)
      also have "\<dots> = 100 * unat v + 10 * ?hi + ?lo" using lt by simp
      finally show ?thesis using \<open>100 * unat v + 10 * ?hi + ?lo < 100 ^ Suc k\<close> by simp
    qed
    then have "?I (Suc k) (?v', if ?x div 16 > 9 \<or> ?x mod 16 > 9 then False else b)"
      using I by (auto simp: t digs le foldl_decimal_append)
    moreover have "?f k t = Some (?v', if ?x div 16 > 9 \<or> ?x mod 16 > 9 then False else b)"
      using k assms(2) by (simp add: t rd_def Let_def)
    ultimately show "\<exists>t'. ?f k t = Some t' \<and> ?I (Suc k) t'" by blast
  qed
  then show ?thesis
    using assms(1) by (auto simp: bit_lib_bytes_to_num_bcd_def)
qed

theorem bcd_value_witness:
  "\<exists>v. bit_lib_bytes_to_num_bcd [0x12, 0x34] 2 = Some (v, True) \<and> unat v = 1234"
  using bcd_value [of 2 "[0x12, 0x34]"] by (auto simp: bcd_digits_def)

text \<open>The optimised bit reversals are the reversal of a word, and the loop of
  \<open>bit_lib_reverse_bits\<close> over one byte agrees with the table-free \<open>bit_lib_reverse_8_fast\<close>.\<close>

theorem reverse_byte_correct:
  "bit_lib_reverse_byte x = Some (bit_lib_reverse_8_fast x) \<and> bit_lib_reverse_8_fast x = word_reverse x \<and>
   bit_lib_reverse_16_fast y = word_reverse y"
  by (simp add: reverse_byte reverse_8_fast reverse_16_fast)

end
