(* ===== verification/Bit_Buffer.thy ===== *)
theory Bit_Buffer
  imports Bit_Lib_Facts
begin

text \<open>
  The bit buffer (firmware/lib/toolbox/bit_buffer.c) that every NFC protocol reads and
  writes: a byte array of fixed capacity with a size in bits, least significant bit first,
  and one parity bit per byte. The record follows the C struct; pointers never alias here,
  so \<open>bit_buffer_copy\<close> is the copy between two different buffers.
\<close>

record bit_buffer =
  bb_data :: bytes
  bb_parity :: bytes
  bb_capacity_bytes :: nat
  bb_size_bits :: nat

definition furi_bit :: "u8 \<Rightarrow> nat \<Rightarrow> u8" where
  "furi_bit x n = drop_bit n x AND 1"

text \<open>The firmware's \<open>malloc\<close> returns zeroed memory (furi/core/memmgr\_heap.c).\<close>

definition bit_buffer_alloc :: "nat \<Rightarrow> bit_buffer option" where
  "bit_buffer_alloc capacity_bytes = do {
     furi_check (capacity_bytes \<noteq> 0);
     Some \<lparr>bb_data = replicate capacity_bytes 0,
           bb_parity = replicate ((capacity_bytes + 8 - 1) div 8) 0,
           bb_capacity_bytes = capacity_bytes, bb_size_bits = 0\<rparr>
   }"

definition bit_buffer_reset :: "bit_buffer \<Rightarrow> bit_buffer" where
  "bit_buffer_reset buf = buf\<lparr>
     bb_data := replicate (bb_capacity_bytes buf) 0,
     bb_parity := replicate ((bb_capacity_bytes buf + 8 - 1) div 8) 0,
     bb_size_bits := 0\<rparr>"

subsection \<open>Reading the state\<close>

definition bit_buffer_has_partial_byte :: "bit_buffer \<Rightarrow> bool" where
  "bit_buffer_has_partial_byte buf \<longleftrightarrow> bb_size_bits buf mod 8 \<noteq> 0"

definition bit_buffer_get_size_bytes :: "bit_buffer \<Rightarrow> nat" where
  "bit_buffer_get_size_bytes buf =
     bb_size_bits buf div 8 + (if bb_size_bits buf mod 8 \<noteq> 0 then 1 else 0)"

definition bit_buffer_get_capacity_bytes :: "bit_buffer \<Rightarrow> nat" where
  "bit_buffer_get_capacity_bytes buf = bb_capacity_bytes buf"

definition bit_buffer_get_size :: "bit_buffer \<Rightarrow> nat" where
  "bit_buffer_get_size buf = bb_size_bits buf"

definition bit_buffer_starts_with_byte :: "bit_buffer \<Rightarrow> u8 \<Rightarrow> bool option" where
  "bit_buffer_starts_with_byte buf byte =
     (if bit_buffer_get_size_bytes buf \<noteq> 0 then do { x \<leftarrow> rd (bb_data buf) 0; Some (x = byte) }
      else Some False)"

definition bit_buffer_get_byte :: "bit_buffer \<Rightarrow> nat \<Rightarrow> u8 option" where
  "bit_buffer_get_byte buf index = do {
     furi_check (bb_capacity_bytes buf > index);
     rd (bb_data buf) index
   }"

text \<open>Both bytes are read before the shifts, also when the second one contributes nothing.\<close>

definition bit_buffer_get_byte_from_bit :: "bit_buffer \<Rightarrow> nat \<Rightarrow> u8 option" where
  "bit_buffer_get_byte_from_bit buf index_bits = do {
     furi_check (bb_capacity_bytes buf * 8 > index_bits);
     let byte_index = index_bits div 8;
     let bit_offset = index_bits mod 8;
     x \<leftarrow> rd (bb_data buf) byte_index;
     y \<leftarrow> rd (bb_data buf) (byte_index + 1);
     let lo = drop_bit bit_offset x;
     let hi = push_bit (8 - bit_offset) y;
     Some (lo OR hi)
   }"

definition bit_buffer_get_data :: "bit_buffer \<Rightarrow> bytes" where
  "bit_buffer_get_data buf = bb_data buf"

definition bit_buffer_get_parity :: "bit_buffer \<Rightarrow> bytes" where
  "bit_buffer_get_parity buf = bb_parity buf"

subsection \<open>Copying in and out\<close>

definition bit_buffer_copy :: "bit_buffer \<Rightarrow> bit_buffer \<Rightarrow> bit_buffer option" where
  "bit_buffer_copy buf other = do {
     furi_check (bb_capacity_bytes buf * 8 \<ge> bb_size_bits other);
     d \<leftarrow> memcpy (bb_data buf) 0 (bb_data other) 0 (bit_buffer_get_size_bytes other);
     Some (buf\<lparr>bb_data := d, bb_size_bits := bb_size_bits other\<rparr>)
   }"

definition bit_buffer_copy_right :: "bit_buffer \<Rightarrow> bit_buffer \<Rightarrow> nat \<Rightarrow> bit_buffer option" where
  "bit_buffer_copy_right buf other start_index = do {
     furi_check (bit_buffer_get_size_bytes other > start_index);
     furi_check (bb_capacity_bytes buf \<ge> bit_buffer_get_size_bytes other - start_index);
     d \<leftarrow> memcpy (bb_data buf) 0 (bb_data other) start_index
            (bit_buffer_get_size_bytes other - start_index);
     Some (buf\<lparr>bb_data := d, bb_size_bits := size_sub (bb_size_bits other) (start_index * 8)\<rparr>)
   }"

definition bit_buffer_copy_left :: "bit_buffer \<Rightarrow> bit_buffer \<Rightarrow> nat \<Rightarrow> bit_buffer option" where
  "bit_buffer_copy_left buf other end_index = do {
     furi_check (bit_buffer_get_capacity_bytes buf \<ge> end_index);
     furi_check (bit_buffer_get_size_bytes other \<ge> end_index);
     d \<leftarrow> memcpy (bb_data buf) 0 (bb_data other) 0 end_index;
     Some (buf\<lparr>bb_data := d, bb_size_bits := end_index * 8\<rparr>)
   }"

definition bit_buffer_copy_bytes :: "bit_buffer \<Rightarrow> bytes \<Rightarrow> nat \<Rightarrow> bit_buffer option" where
  "bit_buffer_copy_bytes buf data size_bytes = do {
     furi_check (bb_capacity_bytes buf \<ge> size_bytes);
     d \<leftarrow> memcpy (bb_data buf) 0 data 0 size_bytes;
     Some (buf\<lparr>bb_data := d, bb_size_bits := size_bytes * 8\<rparr>)
   }"

definition bit_buffer_copy_bits :: "bit_buffer \<Rightarrow> bytes \<Rightarrow> nat \<Rightarrow> bit_buffer option" where
  "bit_buffer_copy_bits buf data size_bits = do {
     furi_check (bb_capacity_bytes buf * 8 \<ge> size_bits);
     let size_bytes = (size_bits + 8 - 1) div 8;
     d \<leftarrow> memcpy (bb_data buf) 0 data 0 size_bytes;
     Some (buf\<lparr>bb_data := d, bb_size_bits := size_bits\<rparr>)
   }"

text \<open>The body of the loop over 9-bit groups; \<open>bits_processed\<close> is \<open>9 * curr_byte\<close>.\<close>

definition copy_with_parity_step :: "bytes \<Rightarrow> nat \<Rightarrow> bit_buffer \<Rightarrow> bit_buffer option" where
  "copy_with_parity_step data curr_byte buf = do {
     let bits_processed = 9 * curr_byte;
     x \<leftarrow> rd data (bits_processed div 8);
     d \<leftarrow> wr (bb_data buf) curr_byte (drop_bit (bits_processed mod 8) x);
     y \<leftarrow> rd data (bits_processed div 8 + 1);
     z \<leftarrow> rd d curr_byte;
     d \<leftarrow> wr d curr_byte (z OR push_bit (8 - bits_processed mod 8) y);
     let b = furi_bit y (bits_processed mod 8);
     p \<leftarrow> (if bits_processed mod 8 = 0 then wr (bb_parity buf) (curr_byte div 8) b
          else do {
            w \<leftarrow> rd (bb_parity buf) (curr_byte div 8);
            wr (bb_parity buf) (curr_byte div 8) (w OR push_bit (bits_processed mod 8) b)
          });
     Some (buf\<lparr>bb_data := d, bb_parity := p\<rparr>)
   }"

definition bit_buffer_copy_bytes_with_parity :: "bit_buffer \<Rightarrow> bytes \<Rightarrow> nat \<Rightarrow> bit_buffer option" where
  "bit_buffer_copy_bytes_with_parity buf data size_bits =
     (if size_bits < 8 + 1 then do {
        x \<leftarrow> rd data 0;
        d \<leftarrow> wr (bb_data buf) 0 x;
        Some (buf\<lparr>bb_data := d, bb_size_bits := size_bits\<rparr>)
      } else do {
        furi_check (size_bits mod (8 + 1) = 0);
        buf \<leftarrow> ofold (copy_with_parity_step data) [0..<size_bits div 9] buf;
        Some (buf\<lparr>bb_size_bits := (size_bits div 9) * 8\<rparr>)
      })"

definition bit_buffer_write_bytes :: "bit_buffer \<Rightarrow> bytes \<Rightarrow> nat \<Rightarrow> bytes option" where
  "bit_buffer_write_bytes buf dest size_bytes = do {
     furi_check (bit_buffer_get_size_bytes buf \<le> size_bytes);
     memcpy dest 0 (bb_data buf) 0 (bit_buffer_get_size_bytes buf)
   }"

text \<open>\<open>curr_bit_pos\<close> is a \<open>uint16_t\<close>.\<close>

definition write_with_parity_step ::
    "bit_buffer \<Rightarrow> nat \<Rightarrow> bytes \<times> nat \<Rightarrow> (bytes \<times> nat) option" where
  "write_with_parity_step buf i = (\<lambda>(bitstream, curr_bit_pos). do {
     w \<leftarrow> rd (bb_parity buf) (i div 8);
     x \<leftarrow> rd (bb_data buf) i;
     let next_par_bit = furi_bit w (i mod 8);
     if curr_bit_pos mod 8 = 0 then do {
       bitstream \<leftarrow> wr bitstream (curr_bit_pos div 8) x;
       let curr_bit_pos = (curr_bit_pos + 8) mod 2 ^ 16;
       bitstream \<leftarrow> wr bitstream (curr_bit_pos div 8) next_par_bit;
       Some (bitstream, (curr_bit_pos + 1) mod 2 ^ 16)
     } else do {
       y \<leftarrow> rd bitstream (curr_bit_pos div 8);
       bitstream \<leftarrow> wr bitstream (curr_bit_pos div 8) (y OR push_bit (curr_bit_pos mod 8) x);
       bitstream \<leftarrow> wr bitstream (curr_bit_pos div 8 + 1) (drop_bit (8 - curr_bit_pos mod 8) x);
       z \<leftarrow> rd bitstream (curr_bit_pos div 8 + 1);
       bitstream \<leftarrow> wr bitstream (curr_bit_pos div 8 + 1)
                     (z OR push_bit (curr_bit_pos mod 8) next_par_bit);
       Some (bitstream, (curr_bit_pos + 9) mod 2 ^ 16)
     }
   })"

definition bit_buffer_write_bytes_with_parity ::
    "bit_buffer \<Rightarrow> bytes \<Rightarrow> nat \<Rightarrow> (bytes \<times> nat) option" where
  "bit_buffer_write_bytes_with_parity buf dest size_bytes = do {
     let buf_size_bytes = bit_buffer_get_size_bytes buf;
     furi_check ((buf_size_bytes * (8 + 1) + 8) div 8 \<le> size_bytes);
     ofold (write_with_parity_step buf) [0..<buf_size_bytes] (dest, 0)
   }"

definition bit_buffer_write_bytes_mid :: "bit_buffer \<Rightarrow> bytes \<Rightarrow> nat \<Rightarrow> nat \<Rightarrow> bytes option" where
  "bit_buffer_write_bytes_mid buf dest start_index size_bytes = do {
     furi_check (size_add start_index size_bytes \<le> bit_buffer_get_size_bytes buf);
     memcpy dest 0 (bb_data buf) start_index size_bytes
   }"

subsection \<open>Writing in place and appending\<close>

definition bit_buffer_set_byte :: "bit_buffer \<Rightarrow> nat \<Rightarrow> u8 \<Rightarrow> bit_buffer option" where
  "bit_buffer_set_byte buf index byte = do {
     furi_check (bit_buffer_get_size_bytes buf > index);
     d \<leftarrow> wr (bb_data buf) index byte;
     Some (buf\<lparr>bb_data := d\<rparr>)
   }"

definition bit_buffer_set_byte_with_parity ::
    "bit_buffer \<Rightarrow> nat \<Rightarrow> u8 \<Rightarrow> bool \<Rightarrow> bit_buffer option" where
  "bit_buffer_set_byte_with_parity buff index byte parity = do {
     furi_check (bb_size_bits buff div 8 > index);
     d \<leftarrow> wr (bb_data buff) index byte;
     p \<leftarrow> (if index mod 8 = 0 then wr (bb_parity buff) (index div 8) (of_bool parity)
          else do {
            w \<leftarrow> rd (bb_parity buff) (index div 8);
            wr (bb_parity buff) (index div 8) (w OR push_bit (index mod 8) (of_bool parity))
          });
     Some (buff\<lparr>bb_data := d, bb_parity := p\<rparr>)
   }"

definition bit_buffer_set_size :: "bit_buffer \<Rightarrow> nat \<Rightarrow> bit_buffer option" where
  "bit_buffer_set_size buf new_size = do {
     furi_check (bb_capacity_bytes buf * 8 \<ge> new_size);
     Some (buf\<lparr>bb_size_bits := new_size\<rparr>)
   }"

definition bit_buffer_set_size_bytes :: "bit_buffer \<Rightarrow> nat \<Rightarrow> bit_buffer option" where
  "bit_buffer_set_size_bytes buf new_size_bytes = do {
     furi_check (bb_capacity_bytes buf \<ge> new_size_bytes);
     Some (buf\<lparr>bb_size_bits := new_size_bytes * 8\<rparr>)
   }"

definition bit_buffer_append_right :: "bit_buffer \<Rightarrow> bit_buffer \<Rightarrow> nat \<Rightarrow> bit_buffer option" where
  "bit_buffer_append_right buf other start_index = do {
     let size_bytes = bit_buffer_get_size_bytes buf;
     let other_size_bytes = size_sub (bit_buffer_get_size_bytes other) start_index;
     furi_check (bb_capacity_bytes buf \<ge> size_add size_bytes other_size_bytes);
     d \<leftarrow> memcpy (bb_data buf) size_bytes (bb_data other) start_index other_size_bytes;
     Some (buf\<lparr>bb_data := d,
       bb_size_bits := size_add (bb_size_bits buf) (size_sub (bb_size_bits other) (start_index * 8))\<rparr>)
   }"

definition bit_buffer_append :: "bit_buffer \<Rightarrow> bit_buffer \<Rightarrow> bit_buffer option" where
  "bit_buffer_append buf other = bit_buffer_append_right buf other 0"

definition bit_buffer_append_byte :: "bit_buffer \<Rightarrow> u8 \<Rightarrow> bit_buffer option" where
  "bit_buffer_append_byte buf byte = do {
     let data_size_bytes = bit_buffer_get_size_bytes buf;
     let new_data_size_bytes = data_size_bytes + 1;
     furi_check (new_data_size_bytes \<le> bb_capacity_bytes buf);
     d \<leftarrow> wr (bb_data buf) data_size_bytes byte;
     Some (buf\<lparr>bb_data := d, bb_size_bits := new_data_size_bytes * 8\<rparr>)
   }"

definition bit_buffer_append_bytes :: "bit_buffer \<Rightarrow> bytes \<Rightarrow> nat \<Rightarrow> bit_buffer option" where
  "bit_buffer_append_bytes buf data size_bytes = do {
     let buf_size_bytes = bit_buffer_get_size_bytes buf;
     furi_check (bb_capacity_bytes buf \<ge> size_add buf_size_bytes size_bytes);
     d \<leftarrow> memcpy (bb_data buf) buf_size_bytes data 0 size_bytes;
     Some (buf\<lparr>bb_data := d, bb_size_bits := bb_size_bits buf + size_bytes * 8\<rparr>)
   }"

definition bit_buffer_append_bit :: "bit_buffer \<Rightarrow> bool \<Rightarrow> bit_buffer option" where
  "bit_buffer_append_bit buf b = do {
     furi_check (bit_buffer_get_size_bytes buf \<le>
       size_sub (bb_capacity_bytes buf) (if bit_buffer_has_partial_byte buf then 0 else 1));
     d \<leftarrow> (if b then do {
            let byte_index = bb_size_bits buf div 8;
            let bit_offset = bb_size_bits buf mod 8;
            x \<leftarrow> rd (bb_data buf) byte_index;
            wr (bb_data buf) byte_index (x OR push_bit bit_offset 1)
          } else Some (bb_data buf));
     Some (buf\<lparr>bb_data := d, bb_size_bits := bb_size_bits buf + 1\<rparr>)
   }"

end
