(* ===== verification/Bit_Buffer_Facts.thy ===== *)
theory Bit_Buffer_Facts
  imports Bit_Buffer begin

text \<open>
  Correctness of the bit buffer: every operation keeps the struct's invariant, the byte
  operations implement the obvious list operations on \<open>bb_bytes\<close>, and packing with
  parity is undone by unpacking.
\<close>

subsection \<open>The invariant and the abstract contents\<close>

definition bb_ok :: "bit_buffer \<Rightarrow> bool" where
  "bb_ok b \<longleftrightarrow> 0 < bb_capacity_bytes b \<and> bb_capacity_bytes b < 2 ^ 28 \<and>
     length (bb_data b) = bb_capacity_bytes b \<and>
     length (bb_parity b) = (bb_capacity_bytes b + 7) div 8 \<and>
     bb_size_bits b \<le> 8 * bb_capacity_bytes b"

definition bb_bytes :: "bit_buffer \<Rightarrow> bytes" where
  "bb_bytes b = take (bit_buffer_get_size_bytes b) (bb_data b)"

definition lsb_bit :: "bytes \<Rightarrow> nat \<Rightarrow> bool" where
  "lsb_bit d p = bit (d ! (p div 8)) (p mod 8)"

definition bb_bits :: "bit_buffer \<Rightarrow> bool list" where
  "bb_bits b = map (lsb_bit (bb_data b)) [0..<bb_size_bits b]"

named_theorems bb_defs \<open>operations of the bit buffer\<close>

lemmas [bb_defs] =
  bit_buffer_copy_def bit_buffer_copy_right_def bit_buffer_copy_left_def bit_buffer_copy_bytes_def
  bit_buffer_copy_bits_def bit_buffer_set_byte_def bit_buffer_set_byte_with_parity_def
  bit_buffer_set_size_def bit_buffer_set_size_bytes_def bit_buffer_append_right_def
  bit_buffer_append_def bit_buffer_append_byte_def bit_buffer_append_bytes_def
  bit_buffer_append_bit_def bit_buffer_get_capacity_bytes_def Let_def

lemma size_bytes_eq: "bit_buffer_get_size_bytes b = (bb_size_bits b + 7) div 8"
  unfolding bit_buffer_get_size_bytes_def by presburger

lemma size_bytes_le: "bb_ok b \<Longrightarrow> bit_buffer_get_size_bytes b \<le> bb_capacity_bytes b"
  unfolding size_bytes_eq bb_ok_def by linarith

lemma length_bb_bytes: "bb_ok b \<Longrightarrow> length (bb_bytes b) = bit_buffer_get_size_bytes b"
  using size_bytes_le [of b] by (simp add: bb_bytes_def bb_ok_def)

lemma size_bytes_mult_8 [simp]: "bit_buffer_get_size_bytes (b\<lparr>bb_size_bits := n * 8\<rparr>) = n"
  by (simp add: bit_buffer_get_size_bytes_def)

lemma size_bytes_update [simp]:
  "bit_buffer_get_size_bytes (b\<lparr>bb_data := d\<rparr>) = bit_buffer_get_size_bytes b"
  "bit_buffer_get_size_bytes (b\<lparr>bb_parity := p\<rparr>) = bit_buffer_get_size_bytes b"
  "bit_buffer_get_size_bytes (b\<lparr>bb_data := d, bb_size_bits := n * 8\<rparr>) = n"
  by (simp_all add: bit_buffer_get_size_bytes_def)

text \<open>No wrap-around: sizes of well-formed buffers are far below the 32-bit limit.\<close>

lemma size_add_eq: "a + b < 2 ^ 32 \<Longrightarrow> size_add a b = a + b"
  by (simp add: size_add_def)

lemma alloc_ok:
  "0 < n \<Longrightarrow> n < 2 ^ 28 \<Longrightarrow> \<exists>b. bit_buffer_alloc n = Some b \<and> bb_ok b \<and> bb_bits b = []"
  by (simp add: bit_buffer_alloc_def bb_ok_def bb_bits_def)

lemma reset_ok: "bb_ok b \<Longrightarrow> bb_ok (bit_buffer_reset b) \<and> bb_bits (bit_buffer_reset b) = []"
  by (simp add: bit_buffer_reset_def bb_ok_def bb_bits_def)

subsection \<open>Every operation keeps the invariant\<close>

lemma copy_keeps: "bb_ok b \<Longrightarrow> bit_buffer_copy b c = Some b' \<Longrightarrow> bb_ok b'"
  by (auto simp: bb_defs bb_ok_def bind_eq_Some_conv dest!: memcpy_length split: if_splits)

lemma copy_right_keeps:
  assumes "bb_ok b" "bb_ok c" "bit_buffer_copy_right b c i = Some b'"
  shows "bb_ok b'"
proof -
  from assms(3) have g: "bit_buffer_get_size_bytes c > i"
      "bb_capacity_bytes b \<ge> bit_buffer_get_size_bytes c - i"
    by (auto simp: bb_defs split: if_splits)
  then have le: "i * 8 \<le> bb_size_bits c" "bb_size_bits c - i * 8 \<le> 8 * bb_capacity_bytes b"
    unfolding size_bytes_eq by linarith+
  moreover have "bb_size_bits c < 2 ^ 32" using assms(2) by (simp add: bb_ok_def)
  ultimately have "size_sub (bb_size_bits c) (i * 8) = bb_size_bits c - i * 8"
    by (intro size_sub_le)
  with le assms show ?thesis
    by (auto simp: bb_defs bb_ok_def bind_eq_Some_conv dest!: memcpy_length split: if_splits)
qed

lemma copy_left_keeps: "bb_ok b \<Longrightarrow> bit_buffer_copy_left b c n = Some b' \<Longrightarrow> bb_ok b'"
  by (auto simp: bb_defs bb_ok_def bind_eq_Some_conv dest!: memcpy_length split: if_splits)

lemma copy_bytes_keeps: "bb_ok b \<Longrightarrow> bit_buffer_copy_bytes b d n = Some b' \<Longrightarrow> bb_ok b'"
  by (auto simp: bb_defs bb_ok_def bind_eq_Some_conv dest!: memcpy_length split: if_splits)

lemma copy_bits_keeps: "bb_ok b \<Longrightarrow> bit_buffer_copy_bits b d n = Some b' \<Longrightarrow> bb_ok b'"
  by (auto simp: bb_defs bb_ok_def bind_eq_Some_conv dest!: memcpy_length split: if_splits)

lemma set_byte_keeps: "bb_ok b \<Longrightarrow> bit_buffer_set_byte b i x = Some b' \<Longrightarrow> bb_ok b'"
  by (auto simp: bb_defs bb_ok_def bind_eq_Some_conv wr_Some_iff split: if_splits)

lemma set_byte_with_parity_keeps:
  "bb_ok b \<Longrightarrow> bit_buffer_set_byte_with_parity b i x p = Some b' \<Longrightarrow> bb_ok b'"
  by (auto simp: bb_defs bb_ok_def bind_eq_Some_conv wr_Some_iff split: if_splits)

lemma set_size_keeps: "bb_ok b \<Longrightarrow> bit_buffer_set_size b n = Some b' \<Longrightarrow> bb_ok b'"
  by (auto simp: bb_defs bb_ok_def split: if_splits)

lemma set_size_bytes_keeps: "bb_ok b \<Longrightarrow> bit_buffer_set_size_bytes b n = Some b' \<Longrightarrow> bb_ok b'"
  by (auto simp: bb_defs bb_ok_def split: if_splits)

lemma append_byte_keeps: "bb_ok b \<Longrightarrow> bit_buffer_append_byte b x = Some b' \<Longrightarrow> bb_ok b'"
  by (auto simp: bb_defs bb_ok_def bind_eq_Some_conv wr_Some_iff split: if_splits)

lemma append_bytes_keeps:
  assumes "bb_ok b" "bit_buffer_append_bytes b d n = Some b'" "n < 2 ^ 28"
  shows "bb_ok b'"
proof -
  have "bit_buffer_get_size_bytes b < 2 ^ 28"
    using size_bytes_le [OF assms(1)] assms(1) by (simp add: bb_ok_def)
  then have "size_add (bit_buffer_get_size_bytes b) n = bit_buffer_get_size_bytes b + n"
    using assms(3) by (intro size_add_eq) simp
  then have "bit_buffer_get_size_bytes b + n \<le> bb_capacity_bytes b"
    using assms(2) by (auto simp: bb_defs split: if_splits)
  then have "bb_size_bits b + n * 8 \<le> 8 * bb_capacity_bytes b"
    unfolding size_bytes_eq by linarith
  then show ?thesis
    using assms by (auto simp: bb_defs bb_ok_def bind_eq_Some_conv dest!: memcpy_length split: if_splits)
qed

lemma append_bit_guard:
  assumes "bb_ok b"
  shows "bit_buffer_get_size_bytes b \<le>
      size_sub (bb_capacity_bytes b) (if bit_buffer_has_partial_byte b then 0 else 1)
    \<longleftrightarrow> bb_size_bits b < 8 * bb_capacity_bytes b"
proof -
  have "size_sub (bb_capacity_bytes b) (if bit_buffer_has_partial_byte b then 0 else 1) =
      bb_capacity_bytes b - (if bit_buffer_has_partial_byte b then 0 else 1)"
    using assms by (intro size_sub_le) (auto simp: bb_ok_def)
  moreover have "bit_buffer_get_size_bytes b \<le>
      bb_capacity_bytes b - (if bit_buffer_has_partial_byte b then 0 else 1)
    \<longleftrightarrow> bb_size_bits b < 8 * bb_capacity_bytes b"
  proof -
    define q r where "q = bb_size_bits b div 8" and "r = bb_size_bits b mod 8"
    then have "bb_size_bits b = 8 * q + r" "r < 8" by simp_all
    moreover have "r \<noteq> 0 \<Longrightarrow> 8 * q + r \<le> 8 * bb_capacity_bytes b \<Longrightarrow> 8 * q + r < 8 * bb_capacity_bytes b"
      using \<open>r < 8\<close> by presburger
    ultimately show ?thesis
      using assms unfolding bit_buffer_get_size_bytes_def bit_buffer_has_partial_byte_def bb_ok_def
        q_def [symmetric] r_def [symmetric] by (cases "r = 0") auto
  qed
  ultimately show ?thesis by simp
qed

lemma append_bit_keeps:
  assumes "bb_ok b" "bit_buffer_append_bit b x = Some b'"
  shows "bb_ok b'"
proof -
  have "bb_size_bits b < 8 * bb_capacity_bytes b"
    using assms append_bit_guard [OF assms(1)] by (auto simp: bit_buffer_append_bit_def split: if_splits)
  with assms show ?thesis
    by (auto simp: bb_defs bb_ok_def bind_eq_Some_conv wr_Some_iff split: if_splits)
qed

subsection \<open>Functional behaviour\<close>

lemma copy_bytes_spec:
  assumes "bb_ok b" "n \<le> bb_capacity_bytes b" "n \<le> length d"
  shows "\<exists>b'. bit_buffer_copy_bytes b d n = Some b' \<and> bb_ok b' \<and> bb_bytes b' = take n d"
  using assms by (auto simp: bb_defs bb_ok_def bb_bytes_def memcpy_def)

lemma append_byte_spec:
  assumes "bb_ok b" "bit_buffer_get_size_bytes b < bb_capacity_bytes b"
  shows "\<exists>b'. bit_buffer_append_byte b x = Some b' \<and> bb_ok b' \<and> bb_bytes b' = bb_bytes b @ [x] \<and>
    bb_capacity_bytes b' = bb_capacity_bytes b \<and> bb_size_bits b' = 8 * (bit_buffer_get_size_bytes b + 1)"
proof -
  let ?n = "bit_buffer_get_size_bytes b"
  have n: "?n < length (bb_data b)" using assms by (simp add: bb_ok_def)
  then have "take (?n + 1) ((bb_data b)[?n := x]) = take ?n (bb_data b) @ [x]"
    by (simp add: Suc_eq_plus1 [symmetric] take_Suc_conv_app_nth)
  moreover have "bit_buffer_append_byte b x =
      Some (b\<lparr>bb_data := (bb_data b)[?n := x], bb_size_bits := (?n + 1) * 8\<rparr>)"
    using assms n by (simp add: bit_buffer_append_byte_def Let_def wr_def)
  moreover from calculation(1)
  have "bb_bytes (b\<lparr>bb_data := (bb_data b)[?n := x], bb_size_bits := (?n + 1) * 8\<rparr>) = bb_bytes b @ [x]"
    unfolding bb_bytes_def size_bytes_update by simp
  moreover have "bb_ok (b\<lparr>bb_data := (bb_data b)[?n := x], bb_size_bits := (?n + 1) * 8\<rparr>)"
    using assms by (simp add: bb_ok_def)
  ultimately show ?thesis by simp
qed

lemma append_bytes_spec:
  assumes "bb_ok b" "\<not> bit_buffer_has_partial_byte b"
    "bit_buffer_get_size_bytes b + n \<le> bb_capacity_bytes b" "n \<le> length d"
  shows "\<exists>b'. bit_buffer_append_bytes b d n = Some b' \<and> bb_ok b' \<and>
    bb_bytes b' = bb_bytes b @ take n d \<and> bb_size_bits b' = bb_size_bits b + 8 * n \<and>
    bb_capacity_bytes b' = bb_capacity_bytes b"
proof -
  let ?k = "bit_buffer_get_size_bytes b"
  have size: "bb_size_bits b = ?k * 8"
    using assms(2) by (auto simp: bit_buffer_has_partial_byte_def bit_buffer_get_size_bytes_def)
  have "?k + n < 2 ^ 32" using assms(1,3) by (simp add: bb_ok_def)
  then have add: "size_add ?k n = ?k + n" by (rule size_add_eq)
  let ?d = "take ?k (bb_data b) @ take n d @ drop (?k + n) (bb_data b)"
  have "memcpy (bb_data b) ?k d 0 n = Some ?d"
    using assms by (simp add: memcpy_def bb_ok_def)
  then have "bit_buffer_append_bytes b d n = Some (b\<lparr>bb_data := ?d, bb_size_bits := (?k + n) * 8\<rparr>)"
    using assms(3) add size by (simp add: bit_buffer_append_bytes_def Let_def algebra_simps)
  moreover have "take (?k + n) ?d = take ?k (bb_data b) @ take n d"
    using assms by (simp add: bb_ok_def)
  then have "bb_bytes (b\<lparr>bb_data := ?d, bb_size_bits := (?k + n) * 8\<rparr>) = bb_bytes b @ take n d"
    unfolding bb_bytes_def size_bytes_update by simp
  moreover have "bb_ok (b\<lparr>bb_data := ?d, bb_size_bits := (?k + n) * 8\<rparr>)"
    using assms by (simp add: bb_ok_def)
  ultimately show ?thesis using size by simp
qed

lemma append_spec:
  assumes "bb_ok b" "bb_ok c" "\<not> bit_buffer_has_partial_byte b" "\<not> bit_buffer_has_partial_byte c"
    "bit_buffer_get_size_bytes b + bit_buffer_get_size_bytes c \<le> bb_capacity_bytes b"
  shows "\<exists>b'. bit_buffer_append b c = Some b' \<and> bb_ok b' \<and> bb_bytes b' = bb_bytes b @ bb_bytes c"
proof -
  let ?n = "bit_buffer_get_size_bytes c"
  have c: "?n \<le> length (bb_data c)" "?n < 2 ^ 32" "bb_size_bits c = ?n * 8" "bb_size_bits c < 2 ^ 32"
    "bb_size_bits b + bb_size_bits c < 2 ^ 32"
    using size_bytes_le [OF assms(2)] assms
    by (auto simp: bb_ok_def bit_buffer_has_partial_byte_def bit_buffer_get_size_bytes_def)
  have "bit_buffer_append b c = bit_buffer_append_bytes b (bb_data c) ?n"
    using c by (simp add: bit_buffer_append_def bit_buffer_append_right_def bit_buffer_append_bytes_def
        Let_def size_sub_0 size_add_eq)
  with append_bytes_spec [OF assms(1,3,5) c(1)] show ?thesis
    by (auto simp: bb_bytes_def)
qed

lemma copy_right_spec:
  assumes "bb_ok b" "bb_ok c" "i < bit_buffer_get_size_bytes c"
    "bit_buffer_get_size_bytes c - i \<le> bb_capacity_bytes b"
  shows "\<exists>b'. bit_buffer_copy_right b c i = Some b' \<and> bb_bytes b' = drop i (bb_bytes c) \<and>
    bb_size_bits b' = bb_size_bits c - 8 * i"
proof -
  let ?n = "bit_buffer_get_size_bytes c"
  have le: "i * 8 \<le> bb_size_bits c" "bb_size_bits c < 2 ^ 32"
    using assms(2,3) unfolding size_bytes_eq by (auto simp: bb_ok_def)
  then have sub: "size_sub (bb_size_bits c) (i * 8) = bb_size_bits c - i * 8"
    by (rule size_sub_le)
  have n: "?n \<le> length (bb_data c)" using size_bytes_le [OF assms(2)] assms(2) by (simp add: bb_ok_def)
  let ?d = "take (?n - i) (drop i (bb_data c)) @ drop (?n - i) (bb_data b)"
  have "bit_buffer_copy_right b c i = Some (b\<lparr>bb_data := ?d, bb_size_bits := bb_size_bits c - i * 8\<rparr>)"
    using assms n sub by (simp add: bit_buffer_copy_right_def memcpy_def bb_ok_def)
  moreover have "bit_buffer_get_size_bytes (b\<lparr>bb_data := ?d, bb_size_bits := bb_size_bits c - i * 8\<rparr>) = ?n - i"
    using le unfolding size_bytes_eq by simp
  ultimately show ?thesis
    using n by (simp add: bb_bytes_def drop_take mult.commute)
qed

text \<open>Appending one bit extends the bit string, provided the unused bits of the last byte
  are zero: the code only ever sets a bit, it never clears one.\<close>

definition bb_tail_zero :: "bit_buffer \<Rightarrow> bool" where
  "bb_tail_zero b \<longleftrightarrow> (\<forall>p. bb_size_bits b \<le> p \<and> p < 8 * bb_capacity_bytes b \<longrightarrow> \<not> lsb_bit (bb_data b) p)"

lemma lsb_bit_set:
  assumes "p < 8 * length d"
  shows "lsb_bit (d[p div 8 := d ! (p div 8) OR push_bit (p mod 8) 1]) q = (q = p \<or> lsb_bit d q)"
proof (cases "q div 8 = p div 8")
  case True
  moreover have "q mod 8 = p mod 8 \<longleftrightarrow> q = p" using True by (metis div_mult_mod_eq)
  ultimately show ?thesis
    using div_8_less [OF assms] by (auto simp: lsb_bit_def bit_simps)
next
  case False
  then show ?thesis by (auto simp: lsb_bit_def)
qed

definition demo_buffer :: bit_buffer where
  "demo_buffer = \<lparr>bb_data = [0x12, 0x34, 0], bb_parity = [1], bb_capacity_bytes = 3, bb_size_bits = 16\<rparr>"

lemma demo_buffer_ok: "bb_ok demo_buffer" "bb_tail_zero demo_buffer"
proof -
  show "bb_ok demo_buffer" by (simp add: demo_buffer_def bb_ok_def)
  have "p div 8 = 2" if "16 \<le> p" "p < 24" for p :: nat using that by presburger
  then show "bb_tail_zero demo_buffer" by (auto simp: demo_buffer_def bb_tail_zero_def lsb_bit_def)
qed

text \<open>Appending a bit never fails while there is room and extends the contents by exactly that
  bit, also inside a partial byte, provided the bits behind the end are still zero, as they are
  after allocation and after every append.\<close>

theorem append_bit_spec:
  assumes "bb_ok b" "bb_tail_zero b" "bb_size_bits b < 8 * bb_capacity_bytes b"
  shows "\<exists>b'. bit_buffer_append_bit b x = Some b' \<and> bb_ok b' \<and> bb_tail_zero b' \<and>
    bb_bits b' = bb_bits b @ [x]"
proof -
  let ?n = "bb_size_bits b"
  let ?d = "if x then (bb_data b)[?n div 8 := bb_data b ! (?n div 8) OR push_bit (?n mod 8) 1] else bb_data b"
  have n: "?n < 8 * length (bb_data b)" using assms by (simp add: bb_ok_def)
  have run: "bit_buffer_append_bit b x = Some (b\<lparr>bb_data := ?d, bb_size_bits := ?n + 1\<rparr>)"
    using append_bit_guard [OF assms(1)] assms(3) div_8_less [OF n]
    by (simp add: bit_buffer_append_bit_def Let_def rd_def wr_def)
  have bits: "lsb_bit ?d q = (if q = ?n then x else lsb_bit (bb_data b) q)"
    if "q < 8 * bb_capacity_bytes b" for q
    using lsb_bit_set [OF n] assms(2,3) that by (auto simp: bb_tail_zero_def)
  have "map (lsb_bit ?d) [0..<?n] = map (lsb_bit (bb_data b)) [0..<?n]"
    using bits assms(3) by (intro map_cong) auto
  then have "bb_bits (b\<lparr>bb_data := ?d, bb_size_bits := ?n + 1\<rparr>) = bb_bits b @ [x]"
    using bits [of ?n] assms(3) by (simp add: bb_bits_def Suc_eq_plus1 [symmetric] del: push_bit_of_1)
  moreover have "bb_tail_zero (b\<lparr>bb_data := ?d, bb_size_bits := ?n + 1\<rparr>)"
    using bits assms(2) by (auto simp: bb_tail_zero_def)
  ultimately show ?thesis
    using run append_bit_keeps [OF assms(1) run] by blast
qed

theorem append_bit_spec_witness:
  "\<exists>b'. bit_buffer_append_bit demo_buffer True = Some b' \<and> bb_bits b' = bb_bits demo_buffer @ [True]"
  using append_bit_spec [of demo_buffer True, OF demo_buffer_ok] by (auto simp: demo_buffer_def)

lemma write_bytes_spec:
  assumes "bb_ok b" "bit_buffer_get_size_bytes b \<le> n" "n \<le> length dest"
  shows "\<exists>d. bit_buffer_write_bytes b dest n = Some d \<and> length d = length dest \<and>
    take (bit_buffer_get_size_bytes b) d = bb_bytes b"
  using assms size_bytes_le [OF assms(1)]
  by (auto simp: bit_buffer_write_bytes_def memcpy_def bb_ok_def bb_bytes_def)


subsection \<open>Packing and unpacking with parity\<close>

text \<open>The bit stream of \<open>n\<close> bytes with their parity bits: nine bits per byte, least
  significant bit first, the parity bit last.\<close>

definition parity_stream :: "bytes \<Rightarrow> bytes \<Rightarrow> nat \<Rightarrow> bool" where
  "parity_stream data parity q =
     (if q mod 9 = 8 then lsb_bit parity (q div 9) else bit (data ! (q div 9)) (q mod 9))"

lemma lsb_bit_at: "m < 8 \<Longrightarrow> lsb_bit d (8 * a + m) = bit (d ! a) m"
  by (simp add: lsb_bit_def)

lemma nine_eq: "9 * i = 8 * (i + i div 8) + i mod (8::nat)"
  by presburger

lemma nine_div: "9 * i div 8 = i + i div (8::nat)"
  by presburger

lemma nine_mod: "9 * i mod 8 = i mod (8::nat)"
proof -
  have "9 * i = i + i * 8" by simp
  then show ?thesis by (simp only: mod_mult_self1)
qed

lemma stream_at: "r \<le> 8 \<Longrightarrow> parity_stream data parity (9 * i + r) =
    (if r = 8 then lsb_bit parity i else bit (data ! i) r)"
  by (simp add: parity_stream_def)

lemma furi_bit_eq: "furi_bit x n = of_bool (bit x n)"
  by (simp add: furi_bit_def drop_and_1)

lemma bit_of_bool_u8: "bit (of_bool c :: u8) k = (c \<and> k = 0)"
  by (auto simp: bit_of_bool_iff)

text \<open>Invariant of the packing loop: the stream is written up to \<open>9 * i\<close>, and the
  partly filled byte is zero above that position.\<close>

definition pack_inv :: "bit_buffer \<Rightarrow> bytes \<Rightarrow> nat \<Rightarrow> bytes \<times> nat \<Rightarrow> bool" where
  "pack_inv buf dest i = (\<lambda>(d, pos). pos = 9 * i \<and> length d = length dest \<and>
     (\<forall>q < 9 * i. lsb_bit d q = parity_stream (bb_data buf) (bb_parity buf) q) \<and>
     (i mod 8 \<noteq> 0 \<longrightarrow> (\<forall>k < 8. i mod 8 \<le> k \<longrightarrow> \<not> bit (d ! (i + i div 8)) k)))"

lemma pack_bytes:
  assumes "s < 8" and low: "s \<noteq> 0 \<Longrightarrow> \<forall>k < 8. s \<le> k \<longrightarrow> \<not> bit y k"
    and A: "A = (if s = 0 then x else y OR push_bit s x)"
    and B: "B = (if s = 0 then of_bool p else drop_bit (8 - s) x OR push_bit s (of_bool p :: u8))"
    and r: "r \<le> 8"
  shows "s + r < 8 \<Longrightarrow> bit A (s + r) = (if r = 8 then p else bit (x :: u8) r)"
    and "8 \<le> s + r \<Longrightarrow> bit B (s + r - 8) = (if r = 8 then p else bit x r)"
proof -
  assume lt: "s + r < 8"
  show "bit A (s + r) = (if r = 8 then p else bit x r)"
  proof (cases "s = 0")
    case False
    then have "\<not> bit y (s + r)" using low lt by simp
    then show ?thesis using A False lt by (simp add: bit_or_iff bit_push_bit_iff)
  qed (use A lt in simp)
next
  assume ge: "8 \<le> s + r"
  have hi: "\<not> bit x k" if "8 \<le> k" for k using that bit_u8_high [of x k] by linarith
  show "bit B (s + r - 8) = (if r = 8 then p else bit x r)"
  proof (cases "s = 0")
    case True
    then show ?thesis using B ge r by (simp add: bit_of_bool_u8)
  next
    case False
    define m where "m = s + r - 8"
    have m: "8 - s + m = r" "m < 8" "s \<le> m \<longleftrightarrow> r = 8" "m - s = 0 \<longleftrightarrow> m \<le> s"
      using ge r assms(1) False unfolding m_def by linarith+
    have "bit B m = (bit x (8 - s + m) \<or> s \<le> m \<and> p \<and> m - s = 0)"
      using B False m(2) by (simp add: bit_or_iff bit_push_bit_iff bit_drop_bit_eq bit_of_bool_u8 conj_ac)
    moreover have "r = 8 \<Longrightarrow> m = s" using ge assms(1) unfolding m_def by linarith
    ultimately show ?thesis using m hi [of r] m_def by (cases "r = 8") auto
  qed
qed

lemma pack_high:
  assumes "s < 8" "B = (if s = 0 then of_bool p else drop_bit (8 - s) x OR push_bit s (of_bool p :: u8))"
    "s < k" "k < 8"
  shows "\<not> bit B k"
proof (cases "s = 0")
  case False
  moreover have "\<not> bit x (8 - s + k)" using assms(3) bit_u8_high [of x "8 - s + k"] by linarith
  ultimately show ?thesis
    using assms by (simp add: bit_or_iff bit_push_bit_iff bit_drop_bit_eq bit_of_bool_u8)
qed (use assms in \<open>simp add: bit_of_bool_u8\<close>)

lemma pack_step:
  assumes b: "bb_ok buf" and i: "i < bit_buffer_get_size_bytes buf"
    and room: "(bit_buffer_get_size_bytes buf * 9 + 8) div 8 \<le> length dest"
    and small: "bit_buffer_get_size_bytes buf * 9 < 2 ^ 16"
    and I: "pack_inv buf dest i t"
  shows "\<exists>t'. write_with_parity_step buf i t = Some t' \<and> pack_inv buf dest (Suc i) t'"
proof -
  obtain d pos where t: "t = (d, pos)" by (cases t)
  have d: "pos = 9 * i" "length d = length dest"
    "\<forall>q < 9 * i. lsb_bit d q = parity_stream (bb_data buf) (bb_parity buf) q"
    "i mod 8 \<noteq> 0 \<Longrightarrow> \<forall>k < 8. i mod 8 \<le> k \<longrightarrow> \<not> bit (d ! (i + i div 8)) k"
    using I by (auto simp: t pack_inv_def)
  let ?n = "bit_buffer_get_size_bytes buf"
  let ?a = "i + i div 8" and ?s = "i mod 8"
  let ?x = "bb_data buf ! i" and ?p = "lsb_bit (bb_parity buf) i"
  let ?A = "if ?s = 0 then ?x else d ! ?a OR push_bit ?s ?x"
  let ?B = "if ?s = 0 then of_bool ?p else drop_bit (8 - ?s) ?x OR push_bit ?s (of_bool ?p :: u8)"
  have n: "?n \<le> bb_capacity_bytes buf" using b by (rule size_bytes_le)
  have src: "i < length (bb_data buf)" "i div 8 < length (bb_parity buf)"
    using i n b by (auto simp: bb_ok_def)
  have pos: "pos div 8 = ?a" "pos mod 8 = ?s" 
    using d(1) nine_div [of i] nine_mod [of i] by (simp_all only:)
  have "(9 * i + 17) div 8 \<le> (?n * 9 + 8) div 8" using i by (intro div_le_mono) simp
  moreover have "?a + 2 \<le> (9 * i + 17) div 8"
    using nine_eq [of i] by (subst less_eq_div_iff_mult_less_eq) simp_all
  ultimately have a: "?a + 1 < length d" using room d(2) by linarith
  have small': "9 * i + 9 < 2 ^ 16" using i small by simp
  have run: "write_with_parity_step buf i t = Some (d[?a := ?A, ?a + 1 := ?B], 9 * Suc i)"
  proof (cases "?s = 0")
    case True
    then have "(pos + 8) mod 2 ^ 16 div 8 = ?a + 1" "((pos + 8) mod 2 ^ 16 + 1) mod 2 ^ 16 = 9 * Suc i"
      using small' d(1) nine_eq [of i] by simp_all
    then show ?thesis
      using True src a pos by (simp add: write_with_parity_step_def t rd_def wr_def Let_def
          furi_bit_eq lsb_bit_def)
  next
    case False
    have "(pos + 9) mod 2 ^ 16 = 9 * Suc i" using small' d(1) by simp
    then show ?thesis
      using False src a pos by (simp add: write_with_parity_step_def t rd_def wr_def Let_def
          furi_bit_eq lsb_bit_def)
  qed
  let ?d = "d[?a := ?A, ?a + 1 := ?B]"
  have nth: "?d ! ?a = ?A" "?d ! (?a + 1) = ?B" using a by simp_all
  have "lsb_bit ?d q = parity_stream (bb_data buf) (bb_parity buf) q" if q: "q < 9 * Suc i" for q
  proof (cases "q < 9 * i")
    case True
    have "lsb_bit ?d q = lsb_bit d q"
    proof (cases "q div 8 = ?a")
      case T: True
      then have "q = 8 * ?a + q mod 8" by (metis mult_div_mod_eq)
      then have "q mod 8 < ?s" using True nine_eq [of i] by linarith
      then have "bit ?A (q mod 8) = bit (d ! ?a) (q mod 8)" by (simp add: bit_or_iff bit_push_bit_iff)
      then show ?thesis using T nth by (simp only: lsb_bit_def)
    next
      case False
      moreover have "8 * (q div 8) \<le> q" "?s < 8" by simp_all
      then have "q div 8 \<noteq> ?a + 1" using True nine_eq [of i] by linarith
      ultimately show ?thesis by (simp add: lsb_bit_def)
    qed
    then show ?thesis using d(3) True by simp
  next
    case False
    define r where "r = q - 9 * i"
    have r: "q = 9 * i + r" "r \<le> 8" using q False by (simp_all add: r_def)
    have low: "?s \<noteq> 0 \<Longrightarrow> \<forall>k < 8. ?s \<le> k \<longrightarrow> \<not> bit (d ! ?a) k" by (rule d(4))
    have s8: "?s < 8" by simp
    have "lsb_bit ?d q = (if r = 8 then ?p else bit ?x r)"
    proof (cases "?s + r < 8")
      case True
      have "q = 8 * ?a + (?s + r)" using r(1) nine_eq [of i] by linarith
      then have "lsb_bit ?d q = bit ?A (?s + r)" using lsb_bit_at [OF True, of ?d ?a] nth by simp
      then show ?thesis using pack_bytes(1) [OF s8 low refl refl r(2) True] by simp
    next
      case F: False
      then have lt: "?s + r - 8 < 8" and ge: "8 \<le> ?s + r" using r(2) s8 by linarith+
      have "q = 8 * ?a + (?s + r)" using r(1) nine_eq [of i] by linarith
      then have "q = 8 * (?a + 1) + (?s + r - 8)" using ge by simp
      then have "lsb_bit ?d q = bit ?B (?s + r - 8)" using lsb_bit_at [OF lt, of ?d "?a + 1"] nth by simp
      then show ?thesis using pack_bytes(2) [OF s8 low refl refl r(2) ge] by simp
    qed
    then show ?thesis using stream_at [OF r(2)] r(1) by simp
  qed
  moreover have "\<not> bit (?d ! (Suc i + Suc i div 8)) k"
    if "Suc i mod 8 \<noteq> 0" "Suc i mod 8 \<le> k" "k < 8" for k
  proof -
    have nx: "Suc i + Suc i div 8 = ?a + 1" "Suc i mod 8 = ?s + 1"
      using that(1) by (simp_all add: div_Suc mod_Suc split: if_splits)
    have "\<not> bit ?B k" by (rule pack_high [OF _ refl]) (use that nx in simp_all)
    then have "\<not> bit (?d ! (?a + 1)) k" unfolding nth(2) .
    then show ?thesis unfolding nx(1) .
  qed
  ultimately have "pack_inv buf dest (Suc i) (?d, 9 * Suc i)"
    using d(2) by (simp add: pack_inv_def)
  with run show ?thesis by blast
qed

lemma write_with_parity_spec:
  assumes "bb_ok buf" "(bit_buffer_get_size_bytes buf * 9 + 8) div 8 \<le> n" "n \<le> length dest"
    "bit_buffer_get_size_bytes buf * 9 < 2 ^ 16"
  shows "\<exists>d. bit_buffer_write_bytes_with_parity buf dest n = Some (d, 9 * bit_buffer_get_size_bytes buf) \<and>
    length d = length dest \<and>
    (\<forall>q < 9 * bit_buffer_get_size_bytes buf.
       lsb_bit d q = parity_stream (bb_data buf) (bb_parity buf) q)"
proof -
  let ?n = "bit_buffer_get_size_bytes buf"
  have room: "(?n * 9 + 8) div 8 \<le> length dest" using assms(2,3) by linarith
  have "\<exists>t. ofold (write_with_parity_step buf) [0..<?n] (dest, 0) = Some t \<and> pack_inv buf dest ?n t"
  proof (rule ofold_upt_inv [where I = "pack_inv buf dest"])
    show "pack_inv buf dest 0 (dest, 0)" by (simp add: pack_inv_def)
  qed (rule pack_step [OF assms(1) _ room assms(4)])
  then show ?thesis
    using assms(2) by (auto simp: bit_buffer_write_bytes_with_parity_def pack_inv_def Let_def)
qed


definition unpack_inv :: "bytes \<Rightarrow> bit_buffer \<Rightarrow> nat \<Rightarrow> bit_buffer \<Rightarrow> bool" where
  "unpack_inv data b i t \<longleftrightarrow>
     bb_capacity_bytes t = bb_capacity_bytes b \<and> length (bb_data t) = length (bb_data b) \<and>
     length (bb_parity t) = length (bb_parity b) \<and> bb_size_bits t = bb_size_bits b \<and>
     (\<forall>j < i. \<forall>k < 8. bit (bb_data t ! j) k = lsb_bit data (9 * j + k)) \<and>
     (\<forall>j < i. lsb_bit (bb_parity t) j = lsb_bit data (9 * j + 8)) \<and>
     (i mod 8 \<noteq> 0 \<longrightarrow> (\<forall>k < 8. i mod 8 \<le> k \<longrightarrow> \<not> bit (bb_parity t ! (i div 8)) k))"

lemma unpack_byte:
  assumes "s < 8" "k < 8"
  shows "bit (drop_bit s x OR push_bit (8 - s) y) k =
    (if s + k < 8 then bit (x :: u8) (s + k) else bit (y :: u8) (s + k - 8))"
proof (cases "s + k < 8")
  case True
  then have "\<not> 8 - s \<le> k" by linarith
  with True show ?thesis by (simp add: bit_or_iff bit_drop_bit_eq bit_push_bit_iff)
next
  case False
  then have "\<not> bit x (s + k)" using bit_u8_high [of x "s + k"] by blast
  moreover have "8 - s \<le> k" "k - (8 - s) = s + k - 8" using False assms by linarith+
  ultimately show ?thesis
    using False assms by (simp add: bit_or_iff bit_drop_bit_eq bit_push_bit_iff)
qed

lemma next_byte: "(q::nat) = 8 * a + m \<Longrightarrow> 8 \<le> m \<Longrightarrow> q = 8 * (a + 1) + (m - 8)"
  by simp

lemma next_byte_8: "(q::nat) = 8 * a + s \<Longrightarrow> q + 8 = 8 * (a + 1) + s"
  by simp

lemma parity_update:
  assumes "i div 8 < length p" and s: "i mod 8 \<noteq> 0 \<Longrightarrow> \<forall>k < 8. i mod 8 \<le> k \<longrightarrow> \<not> bit (p ! (i div 8)) k"
    and p': "p' = p[i div 8 := if i mod 8 = 0 then of_bool c else p ! (i div 8) OR push_bit (i mod 8) (of_bool c)]"
  shows "lsb_bit p' i = c"
    and "j < i \<Longrightarrow> lsb_bit p' j = lsb_bit p j"
    and "Suc i mod 8 \<noteq> 0 \<Longrightarrow> k < 8 \<Longrightarrow> Suc i mod 8 \<le> k \<Longrightarrow> \<not> bit (p' ! (Suc i div 8)) k"
proof -
  have at: "p' ! (i div 8) = (if i mod 8 = 0 then of_bool c else p ! (i div 8) OR push_bit (i mod 8) (of_bool c))"
    using assms(1) p' by simp
  have s8: "i mod 8 < 8" by simp
  show "lsb_bit p' i = c"
  proof (cases "i mod 8 = 0")
    case False
    then have "\<not> bit (p ! (i div 8)) (i mod 8)" using s s8 by blast
    then show ?thesis using at False by (simp add: lsb_bit_def bit_or_iff bit_push_bit_iff bit_of_bool_u8)
  qed (use at in \<open>simp add: lsb_bit_def bit_of_bool_u8\<close>)
  show "lsb_bit p' j = lsb_bit p j" if "j < i"
  proof (cases "j div 8 = i div 8")
    case True
    then have "j mod 8 < i mod 8" using that by (metis add_less_cancel_left mult_div_mod_eq)
    then show ?thesis
      using True at by (simp add: lsb_bit_def bit_or_iff bit_push_bit_iff)
  next
    case False
    then show ?thesis using p' by (simp add: lsb_bit_def)
  qed
  show "\<not> bit (p' ! (Suc i div 8)) k" if "Suc i mod 8 \<noteq> 0" "k < 8" "Suc i mod 8 \<le> k"
  proof -
    have nx: "Suc i div 8 = i div 8" "i mod 8 < k"
      using that by (simp_all add: div_Suc mod_Suc split: if_splits)
    show ?thesis
    proof (cases "i mod 8 = 0")
      case False
      then have "\<not> bit (p ! (i div 8)) k" using s nx(2) that(2) by simp
      then show ?thesis using at nx False by (simp add: bit_or_iff bit_push_bit_iff bit_of_bool_u8)
    qed (use at nx in \<open>simp add: bit_of_bool_u8\<close>)
  qed
qed

lemma unpack_step:
  assumes b: "bb_ok b" and i: "i < n" and n: "n \<le> bb_capacity_bytes b" "9 * n \<le> 8 * length data"
    and I: "unpack_inv data b i t"
  shows "\<exists>t'. copy_with_parity_step data i t = Some t' \<and> unpack_inv data b (Suc i) t'"
proof -
  let ?a = "i + i div 8" and ?s = "i mod 8"
  let ?x = "data ! ?a" and ?y = "data ! (?a + 1)"
  let ?v = "drop_bit ?s ?x OR push_bit (8 - ?s) ?y"
  let ?c = "bit ?y ?s"
  let ?p = "(bb_parity t)[i div 8 := if ?s = 0 then of_bool ?c else bb_parity t ! (i div 8) OR push_bit ?s (of_bool ?c)]"
  have t: "length (bb_data t) = bb_capacity_bytes b" "length (bb_parity t) = (bb_capacity_bytes b + 7) div 8"
    "?s \<noteq> 0 \<Longrightarrow> \<forall>k < 8. ?s \<le> k \<longrightarrow> \<not> bit (bb_parity t ! (i div 8)) k"
    using I b by (auto simp: unpack_inv_def bb_ok_def)
  have a: "?a + 1 < length data" using i n(2) nine_eq [of i] by linarith
  have dst: "i < length (bb_data t)" "i div 8 < length (bb_parity t)" using i n(1) t by auto
  have run: "copy_with_parity_step data i t = Some (t\<lparr>bb_data := (bb_data t)[i := ?v], bb_parity := ?p\<rparr>)"
  proof -
    have x: "rd data ?a = Some ?x" "rd data (?a + 1) = Some ?y"
      using a by (simp_all add: rd_def)
    have w: "wr (bb_data t) i v = Some ((bb_data t)[i := v])"
        "rd ((bb_data t)[i := v]) i = Some v"
        "wr ((bb_data t)[i := v]) i u = Some ((bb_data t)[i := u])" for v u
      using dst(1) by (simp_all add: rd_def wr_def)
    have p: "(if ?s = 0 then wr (bb_parity t) (i div 8) c
        else Option.bind (rd (bb_parity t) (i div 8)) (\<lambda>w. wr (bb_parity t) (i div 8) (w OR push_bit ?s c)))
        = Some ((bb_parity t)[i div 8 := if ?s = 0 then c else bb_parity t ! (i div 8) OR push_bit ?s c])" for c
      using dst(2) by (simp add: rd_def wr_def)
    show ?thesis
      unfolding copy_with_parity_step_def Let_def nine_div nine_mod x w p furi_bit_eq Option.bind.bind_lunit by (rule refl)
  qed
  have byte: "bit ?v k = lsb_bit data (9 * i + k)" if k: "k < 8" for k
  proof -
    have s8: "?s < 8" by simp
    have q: "9 * i + k = 8 * ?a + (?s + k)" using nine_eq [of i] by linarith
    show ?thesis
    proof (cases "?s + k < 8")
      case True
      then show ?thesis
        unfolding q lsb_bit_at [OF True, of data ?a] unpack_byte [OF s8 k] by (simp only: if_True)
    next
      case False
      then have lt: "?s + k - 8 < 8" using k s8 by linarith
      have q': "9 * i + k = 8 * (?a + 1) + (?s + k - 8)" using next_byte [OF q] False
        by (simp only: not_less)
      show ?thesis
        unfolding q' lsb_bit_at [OF lt, of data "?a + 1"] unpack_byte [OF s8 k]
        using False by (simp only: if_False)
    qed
  qed
  have "9 * i + 8 = 8 * (?a + 1) + ?s" by (rule next_byte_8 [OF nine_eq])
  then have par: "lsb_bit data (9 * i + 8) = ?c"
    using lsb_bit_at [of ?s data "?a + 1"] by (simp only: pos_mod_bound mod_less_divisor zero_less_numeral)
  note upd = parity_update [OF dst(2) t(3) refl, where c = ?c]
  have "unpack_inv data b (Suc i) (t\<lparr>bb_data := (bb_data t)[i := ?v], bb_parity := ?p\<rparr>)"
    unfolding unpack_inv_def
  proof (intro conjI allI impI)
    fix j k :: nat
    assume "j < Suc i" "k < 8"
    then show "bit (bb_data (t\<lparr>bb_data := (bb_data t)[i := ?v], bb_parity := ?p\<rparr>) ! j) k = lsb_bit data (9 * j + k)"
      using byte I dst(1) by (cases "j = i") (auto simp: unpack_inv_def)
  next
    fix j
    assume "j < Suc i"
    then show "lsb_bit (bb_parity (t\<lparr>bb_data := (bb_data t)[i := ?v], bb_parity := ?p\<rparr>)) j = lsb_bit data (9 * j + 8)"
      using upd(1,2) par I by (cases "j = i") (auto simp: unpack_inv_def)
  next
    fix k :: nat
    assume "Suc i mod 8 \<noteq> 0" "k < 8" "Suc i mod 8 \<le> k"
    then show "\<not> bit (bb_parity (t\<lparr>bb_data := (bb_data t)[i := ?v], bb_parity := ?p\<rparr>) ! (Suc i div 8)) k"
      using upd(3) by simp
  qed (use I in \<open>simp_all add: unpack_inv_def\<close>)
  with run show ?thesis by blast
qed

lemma copy_with_parity_spec:
  assumes "bb_ok b" "0 < n" "n \<le> bb_capacity_bytes b" "9 * n \<le> 8 * length data"
  shows "\<exists>t. bit_buffer_copy_bytes_with_parity b data (9 * n) = Some t \<and> bb_ok t \<and>
    bb_size_bits t = 8 * n \<and>
    (\<forall>j < n. \<forall>k < 8. bit (bb_data t ! j) k = lsb_bit data (9 * j + k)) \<and>
    (\<forall>j < n. lsb_bit (bb_parity t) j = lsb_bit data (9 * j + 8))"
proof -
  have "\<exists>t. ofold (copy_with_parity_step data) [0..<n] b = Some t \<and> unpack_inv data b n t"
  proof (rule ofold_upt_inv [where I = "unpack_inv data b"])
    show "unpack_inv data b 0 b" by (simp add: unpack_inv_def)
  qed (rule unpack_step [OF assms(1) _ assms(3,4)])
  then obtain t where t: "ofold (copy_with_parity_step data) [0..<n] b = Some t" "unpack_inv data b n t"
    by blast
  have "bit_buffer_copy_bytes_with_parity b data (9 * n) = Some (t\<lparr>bb_size_bits := n * 8\<rparr>)"
    using assms(2) t(1) by (simp add: bit_buffer_copy_bytes_with_parity_def)
  moreover have "bb_ok (t\<lparr>bb_size_bits := n * 8\<rparr>)"
    using t(2) assms(1,3) by (simp add: unpack_inv_def bb_ok_def)
  ultimately show ?thesis using t(2) by (auto simp: unpack_inv_def)
qed

text \<open>Packing a buffer and unpacking the stream into another buffer gives the same bytes and
  the same parity bits.\<close>

text \<open>C27: Sending a frame with its parity bits and receiving it again gives the same bytes and the
  same parities: \<open>bit_buffer_copy_bytes_with_parity\<close> inverts
  \<open>bit_buffer_write_bytes_with_parity\<close> for frames of up to 7281 bytes.\<close>

theorem parity_roundtrip_bytes:
  assumes b: "bb_ok b" "\<not> bit_buffer_has_partial_byte b" "0 < bb_size_bits b"
    and small: "bit_buffer_get_size_bytes b * 9 < 2 ^ 16"
    and dest: "(bit_buffer_get_size_bytes b * 9 + 8) div 8 \<le> n" "n \<le> length dest"
    and c: "bb_ok c" "bit_buffer_get_size_bytes b \<le> bb_capacity_bytes c"
  shows "\<exists>d bits t. bit_buffer_write_bytes_with_parity b dest n = Some (d, bits) \<and>
    bit_buffer_copy_bytes_with_parity c d bits = Some t \<and>
    bb_size_bits t = bb_size_bits b \<and> bb_bytes t = bb_bytes b \<and>
    (\<forall>i < bit_buffer_get_size_bytes b. lsb_bit (bb_parity t) i = lsb_bit (bb_parity b) i)"
proof -
  let ?n = "bit_buffer_get_size_bytes b"
  have n: "bb_size_bits b = 8 * ?n" "0 < ?n"
    using b(2,3) by (auto simp: bit_buffer_has_partial_byte_def bit_buffer_get_size_bytes_def)
  obtain d where d: "bit_buffer_write_bytes_with_parity b dest n = Some (d, 9 * ?n)" "length d = length dest"
    "\<forall>q < 9 * ?n. lsb_bit d q = parity_stream (bb_data b) (bb_parity b) q"
    using write_with_parity_spec [OF b(1) dest small] by blast
  have "9 * ?n \<le> 8 * ((?n * 9 + 8) div 8)" by presburger
  then have "9 * ?n \<le> 8 * length d" using dest d(2) by linarith
  from copy_with_parity_spec [OF c(1) n(2) c(2) this] obtain t where
    t: "bit_buffer_copy_bytes_with_parity c d (9 * ?n) = Some t" "bb_ok t" "bb_size_bits t = 8 * ?n"
      "\<forall>j < ?n. \<forall>k < 8. bit (bb_data t ! j) k = lsb_bit d (9 * j + k)"
      "\<forall>j < ?n. lsb_bit (bb_parity t) j = lsb_bit d (9 * j + 8)"
    by blast
  have st: "lsb_bit d (9 * j + r) = (if r = 8 then lsb_bit (bb_parity b) j else bit (bb_data b ! j) r)"
    if "j < ?n" "r \<le> 8" for j r
    using d(3) stream_at [OF that(2), of "bb_data b" "bb_parity b" j] that by simp
  have size: "bit_buffer_get_size_bytes t = ?n" using t(3) by (simp add: bit_buffer_get_size_bytes_def)
  have "bb_bytes t = bb_bytes b"
  proof (rule nth_equalityI)
    show "length (bb_bytes t) = length (bb_bytes b)"
      using length_bb_bytes [OF t(2)] length_bb_bytes [OF b(1)] size by simp
    fix j
    assume "j < length (bb_bytes t)"
    then have j: "j < ?n" using length_bb_bytes [OF t(2)] size by simp
    have "bb_data t ! j = bb_data b ! j"
      by (rule bit_word_eqI) (use t(4) st j in simp)
    then show "bb_bytes t ! j = bb_bytes b ! j" using j size by (simp add: bb_bytes_def)
  qed
  with d(1) t n st show ?thesis by auto
qed

theorem parity_roundtrip_bytes_witness:
  "\<exists>d bits t. bit_buffer_write_bytes_with_parity demo_buffer [0, 0, 0] 3 = Some (d, bits) \<and>
    bit_buffer_copy_bytes_with_parity demo_buffer d bits = Some t \<and> bb_bytes t = bb_bytes demo_buffer"
proof -
  have size: "bit_buffer_get_size_bytes demo_buffer = 2" "bb_capacity_bytes demo_buffer = 3"
    "bb_size_bits demo_buffer = 16" "\<not> bit_buffer_has_partial_byte demo_buffer"
    by (simp_all add: demo_buffer_def bit_buffer_get_size_bytes_def bit_buffer_has_partial_byte_def)
  show ?thesis
    using parity_roundtrip_bytes [of demo_buffer 3 "[0, 0, 0]" demo_buffer] demo_buffer_ok size
    by auto
qed

end
