(* ===== verification/Crypto1.thy ===== *)
theory Crypto1
  imports Bit_Buffer_Facts
begin

text \<open>
  The stream cipher of Mifare Classic (firmware/lib/nfc/helpers/crypto1.c) and the parity
  helpers it uses (firmware/lib/nfc/helpers/nfc\_util.c). The two halves of the shift register
  are 32-bit words of which the cipher uses the low 24 bits. The \<open>int\<close> flags of the C
  functions are only tested for being zero and are \<open>bool\<close> here; pointers that
  \<open>furi_assert\<close> checks are never null.
\<close>

subsection \<open>Parity\<close>

definition nfc_util_odd_byte_parity :: bytes where
  "nfc_util_odd_byte_parity = [
    1, 0, 0, 1, 0, 1, 1, 0, 0, 1, 1, 0, 1, 0, 0, 1, 0, 1, 1, 0, 1, 0, 0, 1, 1, 0, 0, 1, 0,
    1, 1, 0, 0, 1, 1, 0, 1, 0, 0, 1, 1, 0, 0, 1, 0, 1, 1, 0, 1, 0, 0, 1, 0, 1, 1, 0, 0, 1,
    1, 0, 1, 0, 0, 1, 0, 1, 1, 0, 1, 0, 0, 1, 1, 0, 0, 1, 0, 1, 1, 0, 1, 0, 0, 1, 0, 1, 1,
    0, 0, 1, 1, 0, 1, 0, 0, 1, 1, 0, 0, 1, 0, 1, 1, 0, 0, 1, 1, 0, 1, 0, 0, 1, 0, 1, 1, 0,
    1, 0, 0, 1, 1, 0, 0, 1, 0, 1, 1, 0, 0, 1, 1, 0, 1, 0, 0, 1, 1, 0, 0, 1, 0, 1, 1, 0, 1,
    0, 0, 1, 0, 1, 1, 0, 0, 1, 1, 0, 1, 0, 0, 1, 1, 0, 0, 1, 0, 1, 1, 0, 0, 1, 1, 0, 1, 0,
    0, 1, 0, 1, 1, 0, 1, 0, 0, 1, 1, 0, 0, 1, 0, 1, 1, 0, 1, 0, 0, 1, 0, 1, 1, 0, 0, 1, 1,
    0, 1, 0, 0, 1, 0, 1, 1, 0, 1, 0, 0, 1, 1, 0, 0, 1, 0, 1, 1, 0, 0, 1, 1, 0, 1, 0, 0, 1,
    1, 0, 0, 1, 0, 1, 1, 0, 1, 0, 0, 1, 0, 1, 1, 0, 0, 1, 1, 0, 1, 0, 0, 1]"

definition nfc_util_even_parity8 :: "u8 \<Rightarrow> u8" where
  "nfc_util_even_parity8 data = of_bool (nfc_util_odd_byte_parity ! unat data = 0)"

text \<open>\<open>__builtin_parity\<close> is one when the number of one bits is odd.\<close>

definition nfc_util_even_parity32 :: "u32 \<Rightarrow> u8" where
  "nfc_util_even_parity32 data = of_bool (odd (pop_count data)) AND 0xFF"

definition nfc_util_odd_parity8 :: "u8 \<Rightarrow> u8" where
  "nfc_util_odd_parity8 data = nfc_util_odd_byte_parity ! unat data"

text \<open>The state of the loop: the destination, the index of its next byte, the byte in
  progress and the number of its bits.\<close>

definition odd_parity_step :: "bytes \<Rightarrow> nat \<Rightarrow> bytes \<times> nat \<times> u8 \<times> nat \<Rightarrow> (bytes \<times> nat \<times> u8 \<times> nat) option" where
  "odd_parity_step src i = (\<lambda>(dst, j, parity, bit_i). do {
     x \<leftarrow> rd src i;
     let parity = parity OR push_bit (7 - bit_i) (nfc_util_odd_parity8 x);
     let bit_i = bit_i + 1;
     if bit_i = 8 then do { dst \<leftarrow> wr dst j parity; Some (dst, j + 1, 0, 0) }
     else Some (dst, j, parity, bit_i)
   })"

definition nfc_util_odd_parity :: "bytes \<Rightarrow> bytes \<Rightarrow> nat \<Rightarrow> bytes option" where
  "nfc_util_odd_parity src dst len = do {
     (dst, j, parity, bit_i) \<leftarrow> ofold (odd_parity_step src) [0..<len] (dst, 0, 0, 0);
     if bit_i \<noteq> 0 then wr dst j parity else Some dst
   }"

subsection \<open>The cipher\<close>

record Crypto1 =
  c1_odd :: u32
  c1_even :: u32

definition LF_POLY_ODD :: u32 where "LF_POLY_ODD = 0x29CE5C"
definition LF_POLY_EVEN :: u32 where "LF_POLY_EVEN = 0x870804"

definition SWAPENDIAN :: "u32 \<Rightarrow> u32" where
  "SWAPENDIAN x =
     (let x = (drop_bit 8 x AND 0xff00ff) OR push_bit 8 (x AND 0xff00ff)
      in drop_bit 16 x OR push_bit 16 x)"

definition furi_bit32 :: "u32 \<Rightarrow> nat \<Rightarrow> u32" where
  "furi_bit32 x n = drop_bit n x AND 1"

definition BEBIT :: "u32 \<Rightarrow> nat \<Rightarrow> u8" where
  "BEBIT x n = ucast (furi_bit32 x (n XOR 24))"

definition crypto1_reset :: "Crypto1 \<Rightarrow> Crypto1" where
  "crypto1_reset c = c\<lparr>c1_even := 0, c1_odd := 0\<rparr>"

definition crypto1_init :: "u64 \<Rightarrow> Crypto1 \<Rightarrow> Crypto1" where
  "crypto1_init k c = fold (\<lambda>i c.
      c\<lparr>c1_odd := push_bit 1 (c1_odd c) OR ucast (drop_bit ((i - 1) XOR 7) k AND 1),
        c1_even := push_bit 1 (c1_even c) OR ucast (drop_bit (i XOR 7) k AND 1)\<rparr>)
    (map (\<lambda>j. 47 - 2 * j) [0..<24]) (c\<lparr>c1_even := 0, c1_odd := 0\<rparr>)"

definition crypto1_filter :: "u32 \<Rightarrow> u32" where
  "crypto1_filter w =
     (let out = drop_bit (unat (w AND 0xf)) 0xf22c0 AND 16;
          out = out OR (drop_bit (unat (drop_bit 4 w AND 0xf)) 0x6c9c0 AND 8);
          out = out OR (drop_bit (unat (drop_bit 8 w AND 0xf)) 0x3c8b0 AND 4);
          out = out OR (drop_bit (unat (drop_bit 12 w AND 0xf)) 0x1e458 AND 2);
          out = out OR (drop_bit (unat (drop_bit 16 w AND 0xf)) 0x0d938 AND 1)
      in furi_bit32 0xEC57E80A (unat (out :: u32)))"

definition crypto1_bit :: "u8 \<Rightarrow> bool \<Rightarrow> Crypto1 \<Rightarrow> u8 \<times> Crypto1" where
  "crypto1_bit input is_encrypted c =
     (let out = ucast (crypto1_filter (c1_odd c)) :: u8;
          feed = ucast out AND of_bool is_encrypted :: u32;
          feed = feed XOR of_bool (input \<noteq> 0);
          feed = feed XOR (LF_POLY_ODD AND c1_odd c);
          feed = feed XOR (LF_POLY_EVEN AND c1_even c);
          even = push_bit 1 (c1_even c) OR ucast (nfc_util_even_parity32 feed)
      in (out, c\<lparr>c1_odd := even, c1_even := c1_odd c\<rparr>))"

definition crypto1_byte :: "u8 \<Rightarrow> bool \<Rightarrow> Crypto1 \<Rightarrow> u8 \<times> Crypto1" where
  "crypto1_byte input is_encrypted c = fold (\<lambda>i (out, c).
      case crypto1_bit (furi_bit input i) is_encrypted c of (b, c) \<Rightarrow> (out OR push_bit i b, c))
    [0..<8] (0, c)"

definition crypto1_word :: "u32 \<Rightarrow> bool \<Rightarrow> Crypto1 \<Rightarrow> u32 \<times> Crypto1" where
  "crypto1_word input is_encrypted c = fold (\<lambda>i (out, c).
      case crypto1_bit (BEBIT input i) is_encrypted c of (b, c) \<Rightarrow>
        (out OR push_bit (24 XOR i) (ucast b), c))
    [0..<32] (0, c)"

definition prng_step :: "u32 \<Rightarrow> u32" where
  "prng_step x = drop_bit 1 x OR
     push_bit 31 (drop_bit 16 x XOR drop_bit 18 x XOR drop_bit 19 x XOR drop_bit 21 x)"

definition crypto1_prng_successor :: "u32 \<Rightarrow> nat \<Rightarrow> u32" where
  "crypto1_prng_successor x n = SWAPENDIAN ((prng_step ^^ n) (SWAPENDIAN x))"

definition lfsr_rollback_bit :: "u32 \<Rightarrow> bool \<Rightarrow> Crypto1 \<Rightarrow> u8 \<times> Crypto1" where
  "lfsr_rollback_bit input fb c =
     (let odd_reg = c1_odd c AND 0xffffff;
          t = odd_reg;
          odd_reg = c1_even c;
          even_reg = t;
          out = even_reg AND 1;
          even_reg = drop_bit 1 even_reg;
          out = out XOR (LF_POLY_EVEN AND even_reg);
          out = out XOR (LF_POLY_ODD AND odd_reg);
          out = out XOR of_bool (input \<noteq> 0);
          ret = ucast (crypto1_filter odd_reg) :: u8;
          out = out XOR (ucast ret AND of_bool fb);
          even_reg = even_reg OR push_bit 23 (ucast (nfc_util_even_parity32 out))
      in (ret, c\<lparr>c1_odd := odd_reg, c1_even := even_reg\<rparr>))"

definition crypto1_lfsr_rollback_word :: "u32 \<Rightarrow> bool \<Rightarrow> Crypto1 \<Rightarrow> u32 \<times> Crypto1" where
  "crypto1_lfsr_rollback_word input fb c = fold (\<lambda>i (ret, c).
      case lfsr_rollback_bit (ucast (BEBIT input i)) fb c of (b, c) \<Rightarrow>
        (ret OR push_bit (24 XOR i) (ucast b), c))
    (rev [0..<32]) (0, c)"

subsection \<open>Frames\<close>

definition decrypt_bit :: "u8 \<Rightarrow> nat \<Rightarrow> u8 \<times> Crypto1 \<Rightarrow> u8 \<times> Crypto1" where
  "decrypt_bit encrypted_byte i = (\<lambda>(decrypted, c).
     case crypto1_bit 0 False c of (b, c) \<Rightarrow>
       (decrypted OR push_bit i (b XOR furi_bit encrypted_byte i), c))"

definition crypto1_decrypt :: "Crypto1 \<Rightarrow> bit_buffer \<Rightarrow> bit_buffer \<Rightarrow> (Crypto1 \<times> bit_buffer) option" where
  "crypto1_decrypt c buff out = do {
     let bits = bit_buffer_get_size buff;
     out \<leftarrow> bit_buffer_set_size out bits;
     let encrypted_data = bit_buffer_get_data buff;
     if bits < 8 then do {
       encrypted_byte \<leftarrow> rd encrypted_data 0;
       let (decrypted_byte, c) = fold (decrypt_bit encrypted_byte) [0, 1, 2, 3] (0, c);
       out \<leftarrow> bit_buffer_set_byte out 0 decrypted_byte;
       Some (c, out)
     } else
       ofold (\<lambda>i (c, out). do {
         x \<leftarrow> rd encrypted_data i;
         let (k, c) = crypto1_byte 0 False c;
         out \<leftarrow> bit_buffer_set_byte out i (k XOR x);
         Some (c, out)
       }) [0..<bits div 8] (c, out)
   }"

definition encrypted_parity :: "Crypto1 \<Rightarrow> u8 \<Rightarrow> bool" where
  "encrypted_parity c x = ((crypto1_filter (c1_odd c) XOR ucast (nfc_util_odd_parity8 x)) AND 1 \<noteq> 0)"

definition crypto1_encrypt ::
    "Crypto1 \<Rightarrow> bytes option \<Rightarrow> bit_buffer \<Rightarrow> bit_buffer \<Rightarrow> (Crypto1 \<times> bit_buffer) option" where
  "crypto1_encrypt c keystream buff out = do {
     let bits = bit_buffer_get_size buff;
     out \<leftarrow> bit_buffer_set_size out bits;
     let plain_data = bit_buffer_get_data buff;
     if bits < 8 then do {
       (c, encrypted_byte) \<leftarrow> ofold (\<lambda>i (c, encrypted_byte). do {
           x \<leftarrow> rd plain_data 0;
           let (b, c) = crypto1_bit 0 False c;
           Some (c, encrypted_byte OR push_bit i (b XOR furi_bit x i))
         }) [0..<bits] (c, 0);
       out \<leftarrow> bit_buffer_set_byte out 0 encrypted_byte;
       Some (c, out)
     } else
       ofold (\<lambda>i (c, out). do {
         input \<leftarrow> (case keystream of Some ks \<Rightarrow> rd ks i | None \<Rightarrow> Some 0);
         let (k, c) = crypto1_byte input False c;
         x \<leftarrow> rd plain_data i;
         let encrypted_byte = k XOR x;
         let parity_bit = encrypted_parity c x;
         out \<leftarrow> bit_buffer_set_byte_with_parity out i encrypted_byte parity_bit;
         Some (c, out)
       }) [0..<bits div 8] (c, out)
   }"

text \<open>The results are the cipher state, the nonce bytes \<open>nr\<close>, which are encrypted in
  place, and the frame.\<close>

definition crypto1_encrypt_reader_nonce :: "Crypto1 \<Rightarrow> u64 \<Rightarrow> u32 \<Rightarrow> bytes \<Rightarrow> bytes \<Rightarrow> bit_buffer \<Rightarrow> bool \<Rightarrow>
    (Crypto1 \<times> bytes \<times> bit_buffer) option" where
  "crypto1_encrypt_reader_nonce c k cuid nt nr out is_nested = do {
     out \<leftarrow> bit_buffer_set_size_bytes out 8;
     nt_num \<leftarrow> bit_lib_bytes_to_num_be nt 4;
     let nt_num = (ucast nt_num :: u32);
     let c = crypto1_init k c;
     let (nt_num, c) = (if is_nested
       then (case crypto1_word (nt_num XOR cuid) True c of (w, c) \<Rightarrow> (w XOR nt_num, c))
       else (case crypto1_word (nt_num XOR cuid) False c of (w, c) \<Rightarrow> (nt_num, c)));
     (c, nr, out) \<leftarrow> ofold (\<lambda>i (c, nr, out). do {
         x \<leftarrow> rd nr i;
         let (k, c) = crypto1_byte x False c;
         let byte = k XOR x;
         let parity_bit = encrypted_parity c x;
         out \<leftarrow> bit_buffer_set_byte_with_parity out i byte parity_bit;
         nr \<leftarrow> wr nr i byte;
         Some (c, nr, out)
       }) [0..<4] (c, nr, out);
     let nt_num = crypto1_prng_successor nt_num 32;
     (c, nt_num, out) \<leftarrow> ofold (\<lambda>i (c, nt_num, out). do {
         let nt_num = crypto1_prng_successor nt_num 8;
         let (k, c) = crypto1_byte 0 False c;
         let byte = k XOR ucast nt_num;
         let parity_bit = encrypted_parity c (ucast nt_num);
         out \<leftarrow> bit_buffer_set_byte_with_parity out i byte parity_bit;
         Some (c, nt_num, out)
       }) [4..<8] (c, nt_num, out);
     Some (c, nr, out)
   }"

subsection \<open>Nonces\<close>

definition crypto1_nonce_matches_encrypted_parity_bits :: "u32 \<Rightarrow> u32 \<Rightarrow> u8 \<Rightarrow> bool" where
  "crypto1_nonce_matches_encrypted_parity_bits nt ks nt_par_enc \<longleftrightarrow>
     ucast (nfc_util_even_parity8 (ucast (drop_bit 24 nt AND 0xFF))) =
       ucast (drop_bit 3 nt_par_enc AND 1) XOR furi_bit32 ks 16 \<and>
     ucast (nfc_util_even_parity8 (ucast (drop_bit 16 nt AND 0xFF))) =
       ucast (drop_bit 2 nt_par_enc AND 1) XOR furi_bit32 ks 8 \<and>
     ucast (nfc_util_even_parity8 (ucast (drop_bit 8 nt AND 0xFF))) =
       ucast (drop_bit 1 nt_par_enc AND 1) XOR furi_bit32 ks 0"

definition weak_prng_step :: "u16 \<Rightarrow> u16" where
  "weak_prng_step x = drop_bit 1 x OR push_bit 15 (x XOR drop_bit 2 x XOR drop_bit 3 x XOR drop_bit 5 x)"

definition crypto1_is_weak_prng_nonce :: "u32 \<Rightarrow> bool" where
  "crypto1_is_weak_prng_nonce nonce =
     (if nonce = 0 then False
      else let x = (ucast (drop_bit 16 nonce) :: u16);
               x = push_bit 8 (x AND 0xff) OR drop_bit 8 x;
               x = (weak_prng_step ^^ 16) x;
               x = push_bit 8 (x AND 0xff) OR drop_bit 8 x
           in (ucast x :: u32) = nonce AND 0xFFFF)"

text \<open>The key is its six bytes; the temporary cipher state starts uninitialised, and
  \<open>crypto1_init\<close> overwrites all of it.\<close>

definition crypto1_decrypt_nt_enc :: "Crypto1 \<Rightarrow> u32 \<Rightarrow> u32 \<Rightarrow> bytes \<Rightarrow> u32 option" where
  "crypto1_decrypt_nt_enc crypto_temp cuid nt_enc known_key = do {
     known_key_int \<leftarrow> bit_lib_bytes_to_num_be known_key 6;
     let crypto_temp = crypto1_init known_key_int crypto_temp;
     let (_, crypto_temp) = crypto1_word (nt_enc XOR cuid) True crypto_temp;
     let (ks, crypto_temp) = crypto1_lfsr_rollback_word (nt_enc XOR cuid) True crypto_temp;
     Some (nt_enc XOR ks)
   }"

end
