(* ===== verification/Crypto1_Facts.thy ===== *)
theory Crypto1_Facts
  imports Crypto1
begin

text \<open>
  Facts about the Mifare Classic cipher: its step can be undone, the two ways of feeding an
  encrypted nonce agree, and decrypting an encrypted frame gives the frame back.
\<close>

subsection \<open>Parity and bits\<close>

lemma parity_filter_xor:
  "odd (length (filter (\<lambda>k. P k \<noteq> Q k) xs)) = (odd (length (filter P xs)) \<noteq> odd (length (filter Q xs)))"
  by (induction xs) auto

lemma parity_xor: "odd (pop_count (a XOR b)) = (odd (pop_count a) \<noteq> odd (pop_count b))"
  unfolding pop_count_def bit_xor_iff by (rule parity_filter_xor)

lemma parity_bit: "k < 32 \<Longrightarrow> odd (pop_count (push_bit k (of_bool b) :: u32)) = b"
proof -
  assume k: "k < 32"
  have "pop_count (push_bit k (of_bool b) :: u32) = card ({j. b \<and> j = k} \<inter> {0..<32})"
    unfolding pop_count_def using k by (simp add: distinct_length_filter bit_simps)
      (intro arg_cong [of _ _ card], auto)
  also have "\<dots> = of_bool b"
    using k by (cases b) simp_all
  finally show ?thesis by simp
qed

lemma parity_of_bool: "odd (pop_count (of_bool b :: u32)) = b"
  using parity_bit [of 0 b] by simp

lemma furi_bit32_eq: "furi_bit32 x n = of_bool (bit x n)"
  by (simp add: furi_bit32_def drop_and_1)

lemma BEBIT_eq: "BEBIT x n = of_bool (bit x (n XOR 24))"
  by (simp add: BEBIT_def furi_bit32_eq)

lemma even_parity32_eq: "nfc_util_even_parity32 w = of_bool (odd (pop_count w))"
  by (simp add: nfc_util_even_parity32_def)

lemma mask24: "(w :: u32) AND 0xffffff = take_bit 24 w"
  by (simp add: take_bit_eq_mask mask_eq_exp_minus_1)

lemma filter_of_bool: "crypto1_filter w = of_bool (crypto1_filter w \<noteq> 0)"
  by (simp add: crypto1_filter_def Let_def furi_bit32_eq)

lemma nibble_mask: "n \<le> 20 \<Longrightarrow> drop_bit n (take_bit 24 (w :: u32)) AND 0xf = drop_bit n w AND 0xf"
proof -
  assume n: "n \<le> 20"
  have "(0xf :: u32) = mask 4" by (simp add: mask_eq_exp_minus_1)
  moreover have "drop_bit n (take_bit 24 w) AND mask 4 = drop_bit n w AND mask 4"
    using n by (intro bit_word_eqI) (auto simp: bit_simps)
  ultimately show ?thesis by simp
qed

lemma filter_mask: "crypto1_filter (take_bit 24 w) = crypto1_filter w"
  using nibble_mask [of 0 w] by (simp add: crypto1_filter_def nibble_mask)

subsection \<open>Undoing a step\<close>

definition feedback :: "bool \<Rightarrow> bool \<Rightarrow> u32 \<Rightarrow> u32 \<Rightarrow> bool" where
  "feedback input fb d e = (((crypto1_filter d \<noteq> 0 \<and> fb) \<noteq> input) \<noteq>
     (odd (pop_count (LF_POLY_ODD AND d)) \<noteq> odd (pop_count (LF_POLY_EVEN AND e))))"

lemma feed_parity:
  "odd (pop_count ((((of_bool f AND of_bool enc) XOR of_bool i) XOR x) XOR y :: u32)) =
     (((f \<and> enc) \<noteq> i) \<noteq> (odd (pop_count x) \<noteq> odd (pop_count y)))"
proof -
  have "of_bool f AND of_bool enc = (of_bool (f \<and> enc) :: u32)" by simp
  then show ?thesis unfolding parity_xor by (simp only: parity_of_bool) argo
qed

lemma filter_u8: "(ucast (crypto1_filter w) :: u8) = of_bool (crypto1_filter w \<noteq> 0)"
  by (subst filter_of_bool) simp

lemma ucast_of_bool_u8: "(ucast (of_bool b :: u8) :: u32) = of_bool b"
  by simp

lemma crypto1_bit_eq:
  "crypto1_bit input enc c = (of_bool (crypto1_filter (c1_odd c) \<noteq> 0),
     c\<lparr>c1_odd := push_bit 1 (c1_even c) OR of_bool (feedback (input \<noteq> 0) enc (c1_odd c) (c1_even c)), c1_even := c1_odd c\<rparr>)"
  by (simp only: crypto1_bit_def Let_def filter_u8 ucast_of_bool_u8 even_parity32_eq feed_parity feedback_def)

lemma rollback_bit_eq:
  "lfsr_rollback_bit input fb c = (of_bool (crypto1_filter (c1_even c) \<noteq> 0),
     c\<lparr>c1_odd := c1_even c, c1_even := drop_bit 1 (take_bit 24 (c1_odd c)) OR
       push_bit 23 (of_bool (bit (c1_odd c) 0 \<noteq>
         feedback (input \<noteq> 0) fb (c1_even c) (drop_bit 1 (take_bit 24 (c1_odd c)))))\<rparr>)"
proof -
  have low: "take_bit 24 (c1_odd c) AND 1 = of_bool (bit (c1_odd c) 0)"
    by (simp add: and_1_eq_of_bool bit_take_bit_iff)
  have par: "odd (pop_count ((((of_bool p XOR (LF_POLY_EVEN AND e)) XOR (LF_POLY_ODD AND d)) XOR of_bool i) XOR
      (of_bool f AND of_bool b) :: u32)) =
    (p \<noteq> (((f \<and> b) \<noteq> i) \<noteq> (odd (pop_count (LF_POLY_ODD AND d)) \<noteq> odd (pop_count (LF_POLY_EVEN AND e)))))"
    for p e d i f b
  proof -
    have "of_bool f AND of_bool b = (of_bool (f \<and> b) :: u32)" by simp
    then show ?thesis unfolding parity_xor by (simp only: parity_of_bool) argo
  qed
  show ?thesis
    by (simp only: lfsr_rollback_bit_def Let_def mask24 low filter_u8 ucast_of_bool_u8 even_parity32_eq par
        feedback_def Crypto1.simps)
qed

lemma even_parity_split:
  "odd (pop_count (LF_POLY_EVEN AND e)) = (odd (pop_count (LF_POLY_EVEN AND take_bit 23 e)) \<noteq> bit e 23)"
proof -
  have poly: "bit LF_POLY_EVEN k = (k \<in> {2, 11, 16, 17, 18, 23})" if "k < 32" for k
  proof -
    have "list_all (\<lambda>k. bit LF_POLY_EVEN k = (k \<in> {2, 11, 16, 17, 18, 23})) [0..<32]" by code_simp
    with that show ?thesis by (auto simp: list_all_iff)
  qed
  have "LF_POLY_EVEN AND e = (LF_POLY_EVEN AND take_bit 23 e) XOR push_bit 23 (of_bool (bit e 23))"
    by (rule bit_word_eqI) (auto simp: bit_simps poly)
  then show ?thesis by (simp add: parity_xor parity_bit)
qed

lemma rollback_step:
  "lfsr_rollback_bit input enc (snd (crypto1_bit i enc c)) =
     (fst (crypto1_bit i enc c), c\<lparr>c1_even := take_bit 24 (c1_even c)\<rparr>)" if "(input \<noteq> 0) = (i \<noteq> 0)"
proof -
  obtain d e where c: "c = \<lparr>c1_odd = d, c1_even = e\<rparr>" by (cases c)
  define p where "p = feedback (i \<noteq> 0) enc (d) e"
  have shift: "drop_bit 1 (take_bit 24 (push_bit 1 e OR of_bool p)) = take_bit 23 e"
    by (rule bit_word_eqI) (auto simp: bit_simps)
  have low: "bit (push_bit 1 e OR of_bool p) 0 = p"
    by (simp add: bit_simps)
  have A: "(p \<noteq> feedback (i \<noteq> 0) enc (d) (take_bit 23 e)) = bit e 23"
    unfolding p_def feedback_def even_parity_split [of "e"] by auto
  have B: "take_bit 23 e OR push_bit 23 (of_bool (bit e 23)) = take_bit 24 e"
    by (rule bit_word_eqI) (auto simp: bit_simps less_Suc_eq numeral_eq_Suc)
  have "lfsr_rollback_bit input enc (snd (crypto1_bit i enc c)) =
      (of_bool (crypto1_filter (d) \<noteq> 0), \<lparr>c1_odd = d, c1_even = take_bit 24 e\<rparr>)"
    by (simp only: c crypto1_bit_eq rollback_bit_eq that snd_conv Crypto1.simps p_def [symmetric] shift low A B)
  then show ?thesis by (simp add: crypto1_bit_eq c)
qed


subsection \<open>Undoing a word\<close>

text \<open>The registers count modulo their low 24 bits.\<close>

definition same24 :: "Crypto1 \<Rightarrow> Crypto1 \<Rightarrow> bool" where
  "same24 c d \<longleftrightarrow> take_bit 24 (c1_odd c) = take_bit 24 (c1_odd d) \<and>
     take_bit 24 (c1_even c) = take_bit 24 (c1_even d)"

lemma poly_mask:
  "LF_POLY_ODD AND take_bit 24 w = LF_POLY_ODD AND w" "LF_POLY_EVEN AND take_bit 24 w = LF_POLY_EVEN AND w"
proof -
  have "LF_POLY_ODD = take_bit 24 LF_POLY_ODD" "LF_POLY_EVEN = take_bit 24 LF_POLY_EVEN"
    by code_simp+
  then have "bit LF_POLY_ODD k \<Longrightarrow> k < 24" "bit LF_POLY_EVEN k \<Longrightarrow> k < 24" for k
    by (metis bit_take_bit_iff)+
  then show "LF_POLY_ODD AND take_bit 24 w = LF_POLY_ODD AND w"
    "LF_POLY_EVEN AND take_bit 24 w = LF_POLY_EVEN AND w"
    by (auto intro!: bit_word_eqI simp: bit_simps)
qed

lemma feedback_mask:
  "take_bit 24 d = take_bit 24 d' \<Longrightarrow> feedback i fb d e = feedback i fb d' e"
  unfolding feedback_def by (metis filter_mask poly_mask(1))

lemma rollback_same24:
  assumes "same24 c d"
  shows "fst (lfsr_rollback_bit i fb c) = fst (lfsr_rollback_bit i fb d)"
    "same24 (snd (lfsr_rollback_bit i fb c)) (snd (lfsr_rollback_bit i fb d))"
proof -
  have e: "take_bit 24 (c1_even c) = take_bit 24 (c1_even d)" and o: "take_bit 24 (c1_odd c) = take_bit 24 (c1_odd d)"
    using assms by (auto simp: same24_def)
  have f: "crypto1_filter (c1_even c) = crypto1_filter (c1_even d)" using e by (metis filter_mask)
  then show "fst (lfsr_rollback_bit i fb c) = fst (lfsr_rollback_bit i fb d)"
    by (simp add: rollback_bit_eq)
  have "bit (take_bit 24 (c1_odd c)) 0 = bit (take_bit 24 (c1_odd d)) 0" by (simp only: o)
  then have b: "bit (c1_odd c) 0 = bit (c1_odd d) 0" by (simp add: bit_take_bit_iff)
  show "same24 (snd (lfsr_rollback_bit i fb c)) (snd (lfsr_rollback_bit i fb d))"
    unfolding rollback_bit_eq same24_def using e b o feedback_mask [OF e, of "i \<noteq> 0" fb] by simp
qed

definition word_run :: "(nat \<Rightarrow> Crypto1 \<Rightarrow> u8 \<times> Crypto1) \<Rightarrow> nat list \<Rightarrow> u32 \<times> Crypto1 \<Rightarrow> u32 \<times> Crypto1" where
  "word_run f = fold (\<lambda>i (out, c). case f i c of (b, c) \<Rightarrow> (out OR push_bit (24 XOR i) (ucast b), c))"

lemma word_run_snoc:
  "word_run f (xs @ [x]) s = (case word_run f xs s of (out, c) \<Rightarrow>
     case f x c of (b, c) \<Rightarrow> (out OR push_bit (24 XOR x) (ucast b), c))"
  by (simp add: word_run_def)

lemma word_run_Cons:
  "word_run f (x # xs) (out, c) = (case f x c of (b, c) \<Rightarrow>
     word_run f xs (out OR push_bit (24 XOR x) (ucast b), c))"
  by (simp add: word_run_def split: prod.split)

lemma word_runs:
  "crypto1_word input enc c = word_run (\<lambda>i. crypto1_bit (BEBIT input i) enc) [0..<32] (0, c)"
  "crypto1_lfsr_rollback_word input enc c =
     word_run (\<lambda>i. lfsr_rollback_bit (ucast (BEBIT input i)) enc) (rev [0..<32]) (0, c)"
  by (simp_all add: crypto1_word_def crypto1_lfsr_rollback_word_def word_run_def)

lemma rollback_run:
  assumes "same24 (snd (word_run (\<lambda>i. crypto1_bit (BEBIT input i) enc) xs (a, c))) c1"
  shows "same24 (snd (word_run (\<lambda>i. lfsr_rollback_bit (ucast (BEBIT input i)) enc) (rev xs) (b, c1))) c \<and>
    fst (word_run (\<lambda>i. lfsr_rollback_bit (ucast (BEBIT input i)) enc) (rev xs) (b, c1)) OR a =
    fst (word_run (\<lambda>i. crypto1_bit (BEBIT input i) enc) xs (a, c)) OR b"
  using assms
proof (induction xs arbitrary: b c1 rule: rev_induct)
  case Nil
  then show ?case by (simp add: word_run_def same24_def or.commute)
next
  case (snoc x xs)
  let ?f = "\<lambda>i. crypto1_bit (BEBIT input i) enc" and ?g = "\<lambda>i. lfsr_rollback_bit (ucast (BEBIT input i)) enc"
  obtain out cx where run: "word_run ?f xs (a, c) = (out, cx)" by fastforce
  obtain k cy where step: "?f x cx = (k, cy)" by fastforce
  obtain k' c2 where bk: "?g x c1 = (k', c2)" by fastforce
  have cy: "same24 cy c1" using snoc.prems by (simp add: word_run_snoc run step)
  have "((ucast (BEBIT input x) :: u32) \<noteq> 0) = (BEBIT input x \<noteq> 0)" by (simp add: BEBIT_eq)
  from rollback_step [OF this, of enc cx]
  have "?g x cy = (k, cx\<lparr>c1_even := take_bit 24 (c1_even cx)\<rparr>)" by (simp add: step)
  then have k: "k' = k" "same24 cx c2"
    using rollback_same24 [OF cy, of "ucast (BEBIT input x)" enc] bk by (auto simp: same24_def)
  have "same24 (snd (word_run ?f xs (a, c))) c2" using k run by simp
  from snoc.IH [OF this, of "b OR push_bit (24 XOR x) (ucast k)"] show ?case
    by (simp add: word_run_snoc word_run_Cons run step bk k(1) or.assoc or.commute or.left_commute)
qed

text \<open>C31: Rolling the register back over a word undoes it: \<open>crypto1_lfsr_rollback_word\<close>
  after \<open>crypto1_word\<close> with the same input returns the same key stream and leaves the 48
  bits of cipher state as they were.\<close>

theorem rollback_word_inverts:
  "fst (crypto1_lfsr_rollback_word input enc (snd (crypto1_word input enc c))) = fst (crypto1_word input enc c) \<and>
   same24 (snd (crypto1_lfsr_rollback_word input enc (snd (crypto1_word input enc c)))) c"
proof -
  have "same24 (snd (word_run (\<lambda>i. crypto1_bit (BEBIT input i) enc) [0..<32] (0, c)))
      (snd (crypto1_word input enc c))" by (simp add: word_runs same24_def)
  from rollback_run [OF this, of 0] show ?thesis by (simp add: word_runs [symmetric])
qed

subsection \<open>Encrypted nonces\<close>

lemma nat_xor_xor: "(24::nat) XOR (24 XOR i) = i"
  by (metis xor.assoc xor_self_eq xor.left_neutral)

lemma xor_24_less: "i < 32 \<Longrightarrow> (24::nat) XOR i < 32"
proof -
  have "list_all (\<lambda>i. (24::nat) XOR i < 32) [0..<32]" by code_simp
  then show "i < 32 \<Longrightarrow> (24::nat) XOR i < 32" by (simp add: list_all_iff)
qed

lemma encrypted_feed:
  "crypto1_bit (of_bool (a \<noteq> (crypto1_filter (c1_odd c) \<noteq> 0))) True c = crypto1_bit (of_bool a) False c"
  unfolding crypto1_bit_eq feedback_def by auto

lemma word_run_bits:
  assumes "n \<le> 32" "\<And>i c. fst (f i c) = of_bool (g c)"
  shows "bit (fst (word_run f [0..<n] (0, c))) q =
    (q < 32 \<and> (24 XOR q) < n \<and> g (snd (word_run f [0..<24 XOR q] (0, c))))"
  using assms(1)
proof (induction n)
  case 0
  then show ?case by (simp add: word_run_def)
next
  case (Suc n)
  obtain out cn where run: "word_run f [0..<n] (0, c) = (out, cn)" by fastforce
  obtain c' where step: "f n cn = (of_bool (g cn), c')"
    using assms(2) [of n cn] by (metis prod.collapse)
  have q: "(q = 24 XOR n) = (24 XOR q = n)" by (metis nat_xor_xor)
  have "bit (push_bit (24 XOR n) (ucast (of_bool (g cn) :: u8)) :: u32) q = (q = 24 XOR n \<and> q < 32 \<and> g cn)"
    by (auto simp: bit_simps)
  with Suc q show ?case
    by (auto simp: word_run_snoc run step bit_or_iff less_Suc_eq)
qed

text \<open>C32: The reader's view of an encrypted nonce recovers the plain one: a tag sends the
  nonce masked with the key stream of feeding \<open>nt XOR cuid\<close> in the clear, and
  \<open>crypto1_decrypt_nt_enc\<close>, which feeds the encrypted word back in and rolls the register
  back, returns \<open>nt\<close> for every key.
\<close>

theorem decrypt_nt_enc_recovers:
  assumes "bit_lib_bytes_to_num_be known_key 6 = Some k"
    and "nt_enc = nt XOR fst (crypto1_word (nt XOR cuid) False (crypto1_init k tmp))"
  shows "crypto1_decrypt_nt_enc tmp cuid nt_enc known_key = Some nt"
proof -
  define c where "c = crypto1_init k tmp"
  define w where "w = nt XOR cuid"
  define ks where "ks = fst (crypto1_word w False c)"
  let ?f = "\<lambda>i. crypto1_bit (BEBIT w i) False" and ?e = "\<lambda>i. crypto1_bit (BEBIT (w XOR ks) i) True"
  have bits: "bit ks q = (q < 32 \<and> (24 XOR q) < 32 \<and>
      crypto1_filter (c1_odd (snd (word_run ?f [0..<24 XOR q] (0, c)))) \<noteq> 0)" for q
    unfolding ks_def word_runs
    by (rule word_run_bits) (simp_all add: crypto1_bit_eq)
  have "n \<le> 32 \<Longrightarrow> word_run ?e [0..<n] (0, c) = word_run ?f [0..<n] (0, c)" for n
  proof (induction n)
    case (Suc n)
    obtain out cn where run: "word_run ?f [0..<n] (0, c) = (out, cn)" by fastforce
    have "bit ks (24 XOR n) = (crypto1_filter (c1_odd cn) \<noteq> 0)"
      using bits [of "24 XOR n"] Suc.prems run xor_24_less [of n] by (simp add: nat_xor_xor)
    then have "BEBIT (w XOR ks) n = of_bool (bit w (n XOR 24) \<noteq> (crypto1_filter (c1_odd cn) \<noteq> 0))"
      by (simp add: BEBIT_eq bit_xor_iff xor.commute)
    then have "?e n cn = ?f n cn" by (simp only: encrypted_feed BEBIT_eq)
    with Suc run show ?case by (simp add: word_run_snoc)
  qed (simp add: word_run_def)
  then have "crypto1_word (w XOR ks) True c = crypto1_word w False c" by (simp add: word_runs)
  moreover have "nt_enc XOR cuid = w XOR ks" "nt_enc XOR ks = nt"
    using assms(2) by (simp_all add: w_def ks_def c_def xor.assoc xor.commute xor.left_commute)
  ultimately show ?thesis
    using rollback_word_inverts [of "w XOR ks" True c] assms(1)
    by (simp add: crypto1_decrypt_nt_enc_def c_def [symmetric] ks_def [symmetric] case_prod_unfold)
qed

theorem decrypt_nt_enc_recovers_witness:
  "let c = \<lparr>c1_odd = 0, c1_even = 0\<rparr>;
       nt_enc = 0x01200145 XOR fst (crypto1_word (0x01200145 XOR 0xDEADBEEF) False (crypto1_init 0xFFFFFFFFFFFF c))
   in crypto1_decrypt_nt_enc c 0xDEADBEEF nt_enc [255, 255, 255, 255, 255, 255] = Some 0x01200145"
proof -
  have "bit_lib_bytes_to_num_be [255, 255, 255, 255, 255, 255] 6 = Some 0xFFFFFFFFFFFF"
    by code_simp
  then show ?thesis unfolding Let_def by (rule decrypt_nt_enc_recovers [OF _ refl])
qed

subsection \<open>Frames\<close>

text \<open>The key stream of a frame: one byte per step, from the state after the bytes before.\<close>

definition next_state :: "Crypto1 \<Rightarrow> Crypto1" where
  "next_state c = snd (crypto1_byte 0 False c)"

definition key_byte :: "nat \<Rightarrow> Crypto1 \<Rightarrow> u8" where
  "key_byte i c = fst (crypto1_byte 0 False ((next_state ^^ i) c))"

lemma byte_at: "crypto1_byte 0 False ((next_state ^^ i) c) = (key_byte i c, (next_state ^^ Suc i) c)"
  by (simp add: key_byte_def next_state_def)

lemma set_byte_with_parity_spec:
  assumes "bb_ok e" "i < bb_size_bits e div 8"
  shows "\<exists>e'. bit_buffer_set_byte_with_parity e i x p = Some e' \<and> bb_ok e' \<and>
    bb_data e' = (bb_data e)[i := x] \<and> bb_size_bits e' = bb_size_bits e"
proof -
  have len: "i < length (bb_data e)" "i div 8 < length (bb_parity e)"
    using assms by (auto simp: bb_ok_def)
  obtain q where "bit_buffer_set_byte_with_parity e i x p = Some (e\<lparr>bb_data := (bb_data e)[i := x], bb_parity := q\<rparr>)"
    using len assms(2) by (cases "i mod 8 = 0") (auto simp: bit_buffer_set_byte_with_parity_def mem_simps)
  with set_byte_with_parity_keeps [OF assms(1) this] show ?thesis by simp
qed

lemma encrypt_frame:
  assumes b: "bb_ok b" "bb_size_bits b = 8 * n" "0 < n" and out: "bb_ok out" "n \<le> bb_capacity_bytes out"
  shows "\<exists>e. crypto1_encrypt c None b out = Some ((next_state ^^ n) c, e) \<and> bb_ok e \<and> bb_size_bits e = 8 * n \<and>
    (\<forall>j < n. bb_data e ! j = key_byte j c XOR bb_data b ! j)"
proof -
  let ?body = "\<lambda>i (c, out). do {
      input \<leftarrow> (case None of Some ks \<Rightarrow> rd ks i | None \<Rightarrow> Some 0);
      let (k, c) = crypto1_byte input False c;
      x \<leftarrow> rd (bit_buffer_get_data b) i;
      let encrypted_byte = k XOR x;
      let parity_bit = encrypted_parity c x;
      out \<leftarrow> bit_buffer_set_byte_with_parity out i encrypted_byte parity_bit;
      Some (c, out)
    }"
  define o0 where "o0 = out\<lparr>bb_size_bits := 8 * n\<rparr>"
  have o0: "bb_ok o0" "bb_size_bits o0 = 8 * n" using out by (auto simp: o0_def bb_ok_def)
  have cap: "n \<le> bb_capacity_bytes b" "n \<le> length (bb_data b)" using b(1,2) by (auto simp: bb_ok_def)
  have step: "\<exists>t. ?body k s = Some t \<and> (case t of (d, e) \<Rightarrow> d = (next_state ^^ Suc k) c \<and> bb_ok e \<and>
      bb_size_bits e = 8 * n \<and> (\<forall>j < Suc k. bb_data e ! j = key_byte j c XOR bb_data b ! j))"
    if k: "k < n" and inv: "case s of (d, e) \<Rightarrow> d = (next_state ^^ k) c \<and> bb_ok e \<and> bb_size_bits e = 8 * n \<and>
      (\<forall>j < k. bb_data e ! j = key_byte j c XOR bb_data b ! j)" for k s
  proof -
    obtain d e where s: "s = (d, e)" "d = (next_state ^^ k) c" "bb_ok e" "bb_size_bits e = 8 * n"
      "\<forall>j < k. bb_data e ! j = key_byte j c XOR bb_data b ! j" using inv by auto
    have len: "k < length (bb_data e)" "k div 8 < length (bb_parity e)" "k < length (bb_data b)"
      using s(3,4) k cap by (auto simp: bb_ok_def)
    obtain e' where e': "bit_buffer_set_byte_with_parity e k (key_byte k c XOR bb_data b ! k)
        (encrypted_parity ((next_state ^^ Suc k) c) (bb_data b ! k)) = Some e'" "bb_ok e'"
      "bb_data e' = (bb_data e)[k := key_byte k c XOR bb_data b ! k]" "bb_size_bits e' = 8 * n"
      using set_byte_with_parity_spec [OF s(3), of k] s(4) k by auto
    with e' s len k show ?thesis
      by (simp add: byte_at bit_buffer_get_data_def mem_simps less_Suc_eq nth_list_update)
  qed
  have "\<exists>t. ofold ?body [0..<n] (c, o0) = Some t \<and> (case t of (d, e) \<Rightarrow> d = (next_state ^^ n) c \<and> bb_ok e \<and>
      bb_size_bits e = 8 * n \<and> (\<forall>j < n. bb_data e ! j = key_byte j c XOR bb_data b ! j))"
    by (rule ofold_upt_inv [where I = "\<lambda>k (d, e). d = (next_state ^^ k) c \<and> bb_ok e \<and> bb_size_bits e = 8 * n \<and>
      (\<forall>j < k. bb_data e ! j = key_byte j c XOR bb_data b ! j)"]) (use o0 step in auto)
  then show ?thesis
    using b(2,3) out by (auto simp: crypto1_encrypt_def bit_buffer_get_size_def bit_buffer_set_size_def o0_def)
qed

lemma decrypt_frame:
  assumes b: "bb_ok b" "bb_size_bits b = 8 * n" "0 < n" and out: "bb_ok out" "n \<le> bb_capacity_bytes out"
  shows "\<exists>e. crypto1_decrypt c b out = Some ((next_state ^^ n) c, e) \<and> bb_ok e \<and> bb_size_bits e = 8 * n \<and>
    (\<forall>j < n. bb_data e ! j = key_byte j c XOR bb_data b ! j)"
proof -
  let ?body = "\<lambda>i (c, out). do {
      x \<leftarrow> rd (bit_buffer_get_data b) i;
      let (k, c) = crypto1_byte 0 False c;
      out \<leftarrow> bit_buffer_set_byte out i (k XOR x);
      Some (c, out)
    }"
  define o0 where "o0 = out\<lparr>bb_size_bits := 8 * n\<rparr>"
  have o0: "bb_ok o0" "bb_size_bits o0 = 8 * n" using out by (auto simp: o0_def bb_ok_def)
  have cap: "n \<le> length (bb_data b)" using b(1,2) by (auto simp: bb_ok_def)
  have step: "\<exists>t. ?body k s = Some t \<and> (case t of (d, e) \<Rightarrow> d = (next_state ^^ Suc k) c \<and> bb_ok e \<and>
      bb_size_bits e = 8 * n \<and> (\<forall>j < Suc k. bb_data e ! j = key_byte j c XOR bb_data b ! j))"
    if k: "k < n" and inv: "case s of (d, e) \<Rightarrow> d = (next_state ^^ k) c \<and> bb_ok e \<and> bb_size_bits e = 8 * n \<and>
      (\<forall>j < k. bb_data e ! j = key_byte j c XOR bb_data b ! j)" for k s
  proof -
    obtain d e where s: "s = (d, e)" "d = (next_state ^^ k) c" "bb_ok e" "bb_size_bits e = 8 * n"
      "\<forall>j < k. bb_data e ! j = key_byte j c XOR bb_data b ! j" using inv by auto
    have len: "k < length (bb_data e)" "k < length (bb_data b)" "k < bit_buffer_get_size_bytes e"
      using s(3,4) k cap by (auto simp: bb_ok_def bit_buffer_get_size_bytes_def)
    then have e': "bit_buffer_set_byte e k (key_byte k c XOR bb_data b ! k) =
        Some (e\<lparr>bb_data := (bb_data e)[k := key_byte k c XOR bb_data b ! k]\<rparr>)"
      by (simp add: bit_buffer_set_byte_def mem_simps)
    from set_byte_keeps [OF s(3) e'] e' s len k show ?thesis
      by (simp add: byte_at bit_buffer_get_data_def mem_simps less_Suc_eq nth_list_update)
  qed
  have "\<exists>t. ofold ?body [0..<n] (c, o0) = Some t \<and> (case t of (d, e) \<Rightarrow> d = (next_state ^^ n) c \<and> bb_ok e \<and>
      bb_size_bits e = 8 * n \<and> (\<forall>j < n. bb_data e ! j = key_byte j c XOR bb_data b ! j))"
    by (rule ofold_upt_inv [where I = "\<lambda>k (d, e). d = (next_state ^^ k) c \<and> bb_ok e \<and> bb_size_bits e = 8 * n \<and>
      (\<forall>j < k. bb_data e ! j = key_byte j c XOR bb_data b ! j)"]) (use o0 step in auto)
  then show ?thesis
    using b(2,3) out by (auto simp: crypto1_decrypt_def bit_buffer_get_size_def bit_buffer_set_size_def o0_def)
qed

lemma bb_bytes_eqI:
  assumes "bb_ok a" "bb_ok b" "bb_size_bits a = 8 * n" "bb_size_bits b = 8 * n"
    "\<forall>j < n. bb_data a ! j = bb_data b ! j"
  shows "bb_bytes a = bb_bytes b"
  using assms by (intro nth_equalityI)
    (auto simp: bb_bytes_def bit_buffer_get_size_bytes_def bb_ok_def)

text \<open>C25: Two ends of a Mifare Classic session that share the cipher state stay in
  step: a frame of whole bytes encrypted by one is decrypted by the other to the same bytes, and
  both end in the same state. Neither call can fail when the buffers are large enough.\<close>

theorem encrypt_decrypt:
  assumes "bb_ok b" "bb_size_bits b = 8 * n" "0 < n" "bb_ok mid" "n \<le> bb_capacity_bytes mid"
    "bb_ok out" "n \<le> bb_capacity_bytes out"
  shows "\<exists>c' e d. crypto1_encrypt c None b mid = Some (c', e) \<and> crypto1_decrypt c e out = Some (c', d) \<and>
    bb_bytes d = bb_bytes b \<and> bb_size_bits d = bb_size_bits b"
proof -
  obtain e where e: "crypto1_encrypt c None b mid = Some ((next_state ^^ n) c, e)" "bb_ok e"
    "bb_size_bits e = 8 * n" "\<forall>j < n. bb_data e ! j = key_byte j c XOR bb_data b ! j"
    using encrypt_frame [OF assms(1-5)] by blast
  obtain d where d: "crypto1_decrypt c e out = Some ((next_state ^^ n) c, d)" "bb_ok d"
    "bb_size_bits d = 8 * n" "\<forall>j < n. bb_data d ! j = key_byte j c XOR bb_data e ! j"
    using decrypt_frame [OF e(2,3) assms(3,6,7)] by blast
  have "bb_bytes d = bb_bytes b"
    by (rule bb_bytes_eqI [OF d(2) assms(1) d(3) assms(2)]) (simp add: d(4) e(4) xor.assoc [symmetric])
  with e d assms(2) show ?thesis by auto
qed

theorem encrypt_decrypt_witness:
  "\<exists>c' e d. crypto1_encrypt \<lparr>c1_odd = 1, c1_even = 2\<rparr> None demo_buffer demo_buffer = Some (c', e) \<and>
    crypto1_decrypt \<lparr>c1_odd = 1, c1_even = 2\<rparr> e demo_buffer = Some (c', d) \<and> bb_bytes d = bb_bytes demo_buffer"
  using encrypt_decrypt [of demo_buffer 2 demo_buffer demo_buffer "\<lparr>c1_odd = 1, c1_even = 2\<rparr>"] demo_buffer_ok(1)
  by (auto simp: demo_buffer_def)

subsection \<open>The parity table\<close>

text \<open>The table doubles: its second half is the first half negated.\<close>

fun parity_table :: "nat \<Rightarrow> bytes" where
  "parity_table 0 = [1]"
| "parity_table (Suc k) = parity_table k @ map (\<lambda>x. 1 - x) (parity_table k)"

lemma parity_table_length [simp]: "length (parity_table k) = 2 ^ k"
  by (induction k) auto

lemma parity_table_8: "nfc_util_odd_byte_parity = parity_table 8"
  by (simp add: nfc_util_odd_byte_parity_def numeral_eq_Suc)

lemma parity_bit_u8: "k < 8 \<Longrightarrow> odd (pop_count (push_bit k 1 :: u8))"
proof -
  have "list_all (\<lambda>k. odd (pop_count (push_bit k 1 :: u8))) [0..<8]" by code_simp
  then show "k < 8 \<Longrightarrow> odd (pop_count (push_bit k 1 :: u8))" by (simp add: list_all_iff)
qed

lemma parity_table_nth:
  "k \<le> 8 \<Longrightarrow> n < 2 ^ k \<Longrightarrow> parity_table k ! n = of_bool (even (pop_count (of_nat n :: u8)))"
proof (induction k arbitrary: n)
  case 0
  then show ?case by (simp add: pop_count_def)
next
  case (Suc k)
  show ?case
  proof (cases "n < 2 ^ k")
    case True
    with Suc show ?thesis by (simp add: nth_append)
  next
    case False
    define m where "m = n - 2 ^ k"
    have m: "n = m + 2 ^ k" "m < 2 ^ k" using False Suc.prems by (simp_all add: m_def)
    have "(of_nat n :: u8) = of_nat m + push_bit k 1" by (simp add: m(1) push_bit_eq_mult)
    also have "\<dots> = of_nat m XOR push_bit k 1"
      by (rule disjunctive_add_eq_xor) (use m(2) in \<open>auto intro!: bit_word_eqI simp: bit_simps dest: bit_nat_less\<close>)
    finally have "odd (pop_count (of_nat n :: u8)) = even (pop_count (of_nat m :: u8))"
      using parity_bit_u8 [of k] Suc.prems by (simp add: parity_xor)
    with Suc.IH [of m] Suc.prems m show ?thesis by (auto simp: nth_append)
  qed
qed

text \<open>The 256 entries of \<open>nfc_util_odd_byte_parity\<close> are right: the two 8-bit
  helpers return the parity of the number of one bits, and the frame helper
  \<open>nfc_util_even_parity32\<close> agrees with them on bytes.\<close>

theorem parity_helpers_correct:
  "nfc_util_odd_parity8 x = of_bool (even (pop_count x)) \<and>
   nfc_util_even_parity8 x = of_bool (odd (pop_count x)) \<and>
   nfc_util_even_parity32 (ucast x) = nfc_util_even_parity8 x"
proof -
  have "unat x < 256" using unsigned_less [of x] by simp
  then have table: "nfc_util_odd_byte_parity ! unat x = of_bool (even (pop_count x))"
    using parity_table_nth [of 8 "unat x"] by (simp add: parity_table_8)
  have split: "[0..<32] = [0..<8] @ [8..<32::nat]" using upt_add_eq_append [of 0 8 24] by simp
  have "filter (bit (ucast x :: u32)) [0..<32] = filter (bit x) [0..<32]"
    by (rule filter_cong) (auto simp: bit_simps)
  also have "\<dots> = filter (bit x) [0..<8]"
    unfolding split by (auto simp: filter_empty_conv dest: bit_u8_high)
  finally have "pop_count (ucast x :: u32) = pop_count x" by (simp add: pop_count_def)
  with table show ?thesis
    by (simp add: nfc_util_odd_parity8_def nfc_util_even_parity8_def even_parity32_eq)
qed

end
