(* ===== verification/Nfc_Crc.thy ===== *)
theory Nfc_Crc
  imports Bit_Buffer_Facts
begin

text \<open>
  The frame checksums of the NFC protocols: ISO 13239 (firmware/lib/nfc/helpers/iso13239\_crc.c),
  ISO 14443-3 A and B (iso14443\_crc.c) and FeliCa (felica\_crc.c). Each file computes a 16-bit
  CRC of the buffer, appends it, checks it and trims it; the checksum travels as the two bytes
  of the \<open>uint16\_t\<close> in memory, the low one first.
\<close>

datatype Iso13239CrcType = Iso13239CrcTypeDefault | Iso13239CrcTypePicopass

datatype Iso14443CrcType = Iso14443CrcTypeA | Iso14443CrcTypeB

text \<open>The bytes at \<open>(const uint8\_t*)&crc\<close>, and the value read back from them.\<close>

definition u16_bytes :: "u16 \<Rightarrow> bytes" where
  "u16_bytes crc = [ucast crc, ucast (drop_bit 8 crc)]"

definition u16_of_bytes :: "bytes \<Rightarrow> u16" where
  "u16_of_bytes d = ucast (d ! 0) OR push_bit 8 (ucast (d ! 1))"

subsection \<open>ISO 13239\<close>

definition iso13239_crc_bit :: "u16 \<Rightarrow> u16" where
  "iso13239_crc_bit crc =
     (if crc AND 1 \<noteq> 0 then drop_bit 1 crc XOR 0x8408 else drop_bit 1 crc)"

definition iso13239_crc_step :: "u16 \<Rightarrow> u8 \<Rightarrow> u16" where
  "iso13239_crc_step crc x = (iso13239_crc_bit ^^ 8) (crc XOR ucast x)"

definition iso13239_crc_calculate :: "Iso13239CrcType \<Rightarrow> bytes \<Rightarrow> nat \<Rightarrow> u16 option" where
  "iso13239_crc_calculate type data data_size = do {
     let crc = (if type = Iso13239CrcTypeDefault then 0xFFFF else 0xE012);
     crc \<leftarrow> ofold (\<lambda>i crc. do { x \<leftarrow> rd data i; Some (iso13239_crc_step crc x) }) [0..<data_size] crc;
     Some (if type = Iso13239CrcTypePicopass then crc else NOT crc)
   }"

definition iso13239_crc_append :: "Iso13239CrcType \<Rightarrow> bit_buffer \<Rightarrow> bit_buffer option" where
  "iso13239_crc_append type buf = do {
     let data = bit_buffer_get_data buf;
     let data_size = bit_buffer_get_size_bytes buf;
     crc \<leftarrow> iso13239_crc_calculate type data data_size;
     bit_buffer_append_bytes buf (u16_bytes crc) 2
   }"

definition iso13239_crc_check :: "Iso13239CrcType \<Rightarrow> bit_buffer \<Rightarrow> bool option" where
  "iso13239_crc_check type buf = do {
     let data_size = bit_buffer_get_size_bytes buf;
     if data_size \<le> 2 then Some False
     else do {
       crc_received \<leftarrow> bit_buffer_write_bytes_mid buf (replicate 2 0) (data_size - 2) 2;
       let data = bit_buffer_get_data buf;
       crc_calc \<leftarrow> iso13239_crc_calculate type data (data_size - 2);
       Some (crc_calc = u16_of_bytes crc_received)
     }
   }"

definition iso13239_crc_trim :: "bool \<Rightarrow> bit_buffer \<Rightarrow> bit_buffer option" where
  "iso13239_crc_trim furi_debug buf = do {
     let data_size = bit_buffer_get_size_bytes buf;
     furi_assert furi_debug (data_size > 2);
     bit_buffer_set_size_bytes buf (size_sub data_size 2)
   }"

subsection \<open>ISO 14443-3\<close>

definition iso14443_crc_step :: "u16 \<Rightarrow> u8 \<Rightarrow> u16" where
  "iso14443_crc_step crc x =
     (let byte = x XOR ucast (crc AND 0xff);
          byte = byte XOR push_bit 4 byte
      in drop_bit 8 crc XOR push_bit 8 (ucast byte) XOR push_bit 3 (ucast byte) XOR
         ucast (drop_bit 4 byte))"

definition iso14443_crc_calculate :: "Iso14443CrcType \<Rightarrow> bytes \<Rightarrow> nat \<Rightarrow> u16 option" where
  "iso14443_crc_calculate type data data_size = do {
     let crc = (if type = Iso14443CrcTypeA then 0x6363 else 0xFFFF);
     crc \<leftarrow> ofold (\<lambda>i crc. do { x \<leftarrow> rd data i; Some (iso14443_crc_step crc x) }) [0..<data_size] crc;
     Some (if type = Iso14443CrcTypeA then crc else NOT crc)
   }"

definition iso14443_crc_append :: "Iso14443CrcType \<Rightarrow> bit_buffer \<Rightarrow> bit_buffer option" where
  "iso14443_crc_append type buf = do {
     let data = bit_buffer_get_data buf;
     let data_size = bit_buffer_get_size_bytes buf;
     crc \<leftarrow> iso14443_crc_calculate type data data_size;
     bit_buffer_append_bytes buf (u16_bytes crc) 2
   }"

definition iso14443_crc_check :: "Iso14443CrcType \<Rightarrow> bit_buffer \<Rightarrow> bool option" where
  "iso14443_crc_check type buf = do {
     let data_size = bit_buffer_get_size_bytes buf;
     if data_size \<le> 2 then Some False
     else do {
       crc_received \<leftarrow> bit_buffer_write_bytes_mid buf (replicate 2 0) (data_size - 2) 2;
       let data = bit_buffer_get_data buf;
       crc_calc \<leftarrow> iso14443_crc_calculate type data (data_size - 2);
       Some (crc_calc = u16_of_bytes crc_received)
     }
   }"

definition iso14443_crc_trim :: "bit_buffer \<Rightarrow> bit_buffer option" where
  "iso14443_crc_trim buf = do {
     let data_size = bit_buffer_get_size_bytes buf;
     furi_check (data_size > 2);
     bit_buffer_set_size_bytes buf (data_size - 2)
   }"

subsection \<open>FeliCa\<close>

definition felica_crc_bit :: "u16 \<Rightarrow> u16" where
  "felica_crc_bit crc =
     (if crc AND 0x8000 \<noteq> 0 then push_bit 1 crc XOR 0x1021 else push_bit 1 crc)"

definition felica_crc_step :: "u16 \<Rightarrow> u8 \<Rightarrow> u16" where
  "felica_crc_step crc x = (felica_crc_bit ^^ 8) (crc XOR push_bit 8 (ucast x))"

definition felica_crc_calculate :: "bytes \<Rightarrow> nat \<Rightarrow> u16 option" where
  "felica_crc_calculate data len = do {
     crc \<leftarrow> ofold (\<lambda>i crc. do { x \<leftarrow> rd data i; Some (felica_crc_step crc x) }) [0..<len] 0;
     Some (push_bit 8 crc OR drop_bit 8 crc)
   }"

definition felica_crc_append :: "bit_buffer \<Rightarrow> bit_buffer option" where
  "felica_crc_append buf = do {
     let data = bit_buffer_get_data buf;
     let data_size = bit_buffer_get_size_bytes buf;
     crc \<leftarrow> felica_crc_calculate data data_size;
     bit_buffer_append_bytes buf (u16_bytes crc) 2
   }"

definition felica_crc_check :: "bit_buffer \<Rightarrow> bool option" where
  "felica_crc_check buf = do {
     let data_size = bit_buffer_get_size_bytes buf;
     if data_size \<le> 2 then Some False
     else do {
       crc_received \<leftarrow> bit_buffer_write_bytes_mid buf (replicate 2 0) (data_size - 2) 2;
       let data = bit_buffer_get_data buf;
       crc_calc \<leftarrow> felica_crc_calculate data (data_size - 2);
       Some (crc_calc = u16_of_bytes crc_received)
     }
   }"

definition felica_crc_trim :: "bool \<Rightarrow> bit_buffer \<Rightarrow> bit_buffer option" where
  "felica_crc_trim furi_debug buf = do {
     let data_size = bit_buffer_get_size_bytes buf;
     furi_assert furi_debug (data_size > 2);
     bit_buffer_set_size_bytes buf (size_sub data_size 2)
   }"

subsection \<open>Bits of a checksum\<close>

lemma u16_bytes_inj: "u16_bytes a = u16_bytes b \<longleftrightarrow> a = b"
  unfolding u16_bytes_def by (auto simp: word_eq_bits all_less_8 all_less_16 bit_simps)

lemma u16_of_bytes_bytes [simp]: "u16_of_bytes (u16_bytes c) = c"
  by (auto simp: u16_bytes_def u16_of_bytes_def word_eq_bits all_less_16 bit_simps One_nat_def)

lemma u16_bytes_of_bytes: "length d = 2 \<Longrightarrow> u16_bytes (u16_of_bytes d) = d"
proof -
  assume "length d = 2"
  then obtain x y where "d = [x, y]" by (auto simp: length_Suc_conv numeral_2_eq_2)
  then show ?thesis
    by (auto simp: u16_bytes_def u16_of_bytes_def word_eq_bits all_less_8 bit_simps One_nat_def
        dest: bit_u8_high)
qed

lemma length_u16_bytes [simp]: "length (u16_bytes c) = 2"
  by (simp add: u16_bytes_def)

lemma crc_fold_total:
  assumes "n \<le> length d"
  shows "ofold (\<lambda>i crc. do { x \<leftarrow> rd d i; Some (step crc x) }) [0..<n] c = Some (foldl step c (take n d))"
  using assms
proof (induction n)
  case 0
  then show ?case by simp
next
  case (Suc n)
  then show ?case by (simp add: ofold_append mem_simps take_Suc_conv_app_nth)
qed

lemma foldl_step_inj:
  assumes "\<And>c c' x. step c x = step c' x \<Longrightarrow> c = c'" and "foldl step c xs = foldl step c' xs"
  shows "c = c'"
  using assms(2) by (induction xs arbitrary: c c') (auto dest: assms(1))

text \<open>The bit steps are injective: the bit shifted out is where the polynomial puts a one.\<close>

lemma iso13239_crc_bit_bit:
  "bit (iso13239_crc_bit c) k = (k < 16 \<and> (bit c (k + 1) \<noteq> (bit c 0 \<and> bit (0x8408 :: u16) k)))"
  by (auto simp: iso13239_crc_bit_def bit_simps add.commute dest: bit_imp_le_length)

lemma felica_crc_bit_bit:
  "bit (felica_crc_bit c) k =
     (k < 16 \<and> ((0 < k \<and> bit c (k - 1)) \<noteq> (bit c 15 \<and> bit (0x1021 :: u16) k)))"
proof -
  have "(c AND 0x8000 \<noteq> 0) = bit c 15"
    using and_exp_neq_0 [of c 15] by simp
  then show ?thesis
    by (auto simp: felica_crc_bit_def bit_simps dest: bit_imp_le_length)
qed

lemma word_eq_0_Suc: "bit (c :: u16) 0 = bit d 0 \<Longrightarrow> (\<And>k. k < 15 \<Longrightarrow> bit c (k + 1) = bit d (k + 1)) \<Longrightarrow> c = d"
proof (rule bit_word_eqI)
  fix n assume *: "bit c 0 = bit d 0" "\<And>k. k < 15 \<Longrightarrow> bit c (k + 1) = bit d (k + 1)" "n < LENGTH(16)"
  show "bit c n = bit d n" using *(1) *(2) [of "n - 1"] *(3) by (cases n) (auto simp: One_nat_def)
qed

lemma iso13239_bit_inj:
  assumes "iso13239_crc_bit c = iso13239_crc_bit d"
  shows "c = d"
proof -
  have eq: "bit (iso13239_crc_bit c) k = bit (iso13239_crc_bit d) k" for k
    using assms by simp
  have top: "bit (0x8408 :: u16) 15" by code_simp
  have 0: "bit c 0 = bit d 0"
    using eq [of 15] top by (auto simp: iso13239_crc_bit_bit dest: bit_imp_le_length)
  have "bit c (k + 1) = bit d (k + 1)" if "k < 15" for k
    using eq [of k] that 0 unfolding iso13239_crc_bit_bit by auto
  with 0 show ?thesis by (rule word_eq_0_Suc)
qed

lemma felica_bit_inj:
  assumes "felica_crc_bit c = felica_crc_bit d"
  shows "c = d"
proof -
  have eq: "bit (felica_crc_bit c) k = bit (felica_crc_bit d) k" for k
    using assms by simp
  have low: "bit (0x1021 :: u16) 0" by code_simp
  have 15: "bit c 15 = bit d 15"
    using eq [of 0] low unfolding felica_crc_bit_bit by simp
  have "bit c k = bit d k" if "k < 15" for k
    using eq [of "k + 1"] that 15 unfolding felica_crc_bit_bit by auto
  moreover have "n < 15 \<or> n = 15" if "n < LENGTH(16)" for n using that by auto
  ultimately show ?thesis using 15 by (intro bit_word_eqI) metis
qed

lemma funpow_inj:
  fixes f :: "'a \<Rightarrow> 'a"
  assumes "\<And>a b. f a = f b \<Longrightarrow> a = b"
  shows "(f ^^ n) a = (f ^^ n) b \<Longrightarrow> a = b"
proof (induction n arbitrary: a b)
  case (Suc n)
  then have "f ((f ^^ n) a) = f ((f ^^ n) b)" by simp
  then have "(f ^^ n) a = (f ^^ n) b" by (rule assms)
  then show ?case by (rule Suc.IH)
qed simp

lemma xor_cancel_right: "(a :: 'a::len word) XOR c = b XOR c \<Longrightarrow> a = b"
  by (metis bit.xor_self xor.assoc xor.right_neutral)

lemma xor_cancel_left: "(c :: 'a::len word) XOR a = c XOR b \<Longrightarrow> a = b"
  by (metis xor_cancel_right xor.commute)

lemma bit_u16_high: "bit (x :: u16) k \<Longrightarrow> k < 16"
  by (drule bit_imp_le_length) simp

lemma ucast_inj_16: "(ucast (x :: u8) :: u16) = ucast y \<Longrightarrow> x = y"
proof (rule bit_word_eqI)
  fix k assume eq: "(ucast x :: u16) = ucast y" and k: "k < LENGTH(8)"
  have "bit (ucast x :: u16) k = bit (ucast y :: u16) k" by (simp only: eq)
  with k show "bit x k = bit y k" by (simp add: bit_simps)
qed

lemma push_ucast_inj_16: "push_bit 8 (ucast (x :: u8) :: u16) = push_bit 8 (ucast y) \<Longrightarrow> x = y"
proof (rule bit_word_eqI)
  fix k assume eq: "push_bit 8 (ucast x :: u16) = push_bit 8 (ucast y)" and k: "k < LENGTH(8)"
  have "bit (push_bit 8 (ucast x :: u16)) (k + 8) = bit (push_bit 8 (ucast y :: u16)) (k + 8)"
    by (simp only: eq)
  with k show "bit x k = bit y k" by (simp add: bit_simps)
qed

lemma iso13239_step_inj:
  "iso13239_crc_step c x = iso13239_crc_step c' x \<Longrightarrow> c = c'"
  "iso13239_crc_step c x = iso13239_crc_step c y \<Longrightarrow> x = y"
  unfolding iso13239_crc_step_def
  by (meson funpow_inj [OF iso13239_bit_inj] xor_cancel_right xor_cancel_left ucast_inj_16)+

lemma felica_step_inj:
  "felica_crc_step c x = felica_crc_step c' x \<Longrightarrow> c = c'"
  "felica_crc_step c x = felica_crc_step c y \<Longrightarrow> x = y"
  unfolding felica_crc_step_def
  by (meson funpow_inj [OF felica_bit_inj] xor_cancel_right xor_cancel_left push_ucast_inj_16)+

text \<open>The byte-wise step of ISO 14443-3 is the bit-wise step of ISO 13239.\<close>

lemma iso13239_bit_xor: "iso13239_crc_bit (a XOR b) = iso13239_crc_bit a XOR iso13239_crc_bit b"
  by (rule bit_word_eqI) (auto simp: iso13239_crc_bit_bit bit_xor_iff)

lemma iso13239_bits_xor:
  "(iso13239_crc_bit ^^ n) (a XOR b) = (iso13239_crc_bit ^^ n) a XOR (iso13239_crc_bit ^^ n) b"
  by (induction n) (simp_all add: iso13239_bit_xor)

lemma iso13239_bits_high: "(\<forall>k < n. \<not> bit c k) \<Longrightarrow> (iso13239_crc_bit ^^ n) c = drop_bit n c"
proof (induction n arbitrary: c)
  case (Suc n)
  then have "iso13239_crc_bit c = drop_bit 1 c"
    by (simp add: iso13239_crc_bit_def)
  moreover have "\<forall>k < n. \<not> bit (drop_bit 1 c) k"
    using Suc.prems by (simp add: bit_drop_bit_eq)
  ultimately show ?case
    using Suc.IH [of "drop_bit 1 c"] by (simp add: funpow_swap1 One_nat_def)
qed simp

definition iso14443_table :: "u8 \<Rightarrow> u16" where
  "iso14443_table y = (let byte = y XOR push_bit 4 y
     in push_bit 8 (ucast byte) XOR push_bit 3 (ucast byte) XOR ucast (drop_bit 4 byte))"

lemma ucast_xor_16: "(ucast (x XOR y :: u8) :: u16) = ucast x XOR ucast y"
  by (auto simp: word_eq_bits all_less_16 bit_simps)

lemma iso14443_table_xor: "iso14443_table (a XOR b) = iso14443_table a XOR iso14443_table b"
  by (simp add: iso14443_table_def Let_def push_bit_xor drop_bit_xor ucast_xor_16 xor.assoc xor.left_commute
      xor.commute)

text \<open>Both sides are linear, so it is enough to compare them on the eight one-bit bytes.\<close>

lemma iso14443_table_bit:
  "k < 8 \<Longrightarrow> (iso13239_crc_bit ^^ 8) (ucast (push_bit k 1 :: u8)) = iso14443_table (push_bit k 1)"
proof -
  have "list_all (\<lambda>k. (iso13239_crc_bit ^^ 8) (ucast (push_bit k 1 :: u8)) = iso14443_table (push_bit k 1)) [0..<8]"
    by code_simp
  then show "k < 8 \<Longrightarrow> ?thesis" by (simp add: list_all_iff)
qed

lemma iso14443_table_nat:
  "k \<le> 8 \<Longrightarrow> n < 2 ^ k \<Longrightarrow> (iso13239_crc_bit ^^ 8) (ucast (of_nat n :: u8)) = iso14443_table (of_nat n)"
proof (induction k arbitrary: n)
  case 0
  then show ?case using iso13239_bits_high [of 8 0] by (simp add: iso14443_table_def)
next
  case (Suc k)
  show ?case
  proof (cases "n < 2 ^ k")
    case True
    with Suc show ?thesis by simp
  next
    case False
    define m where "m = n - 2 ^ k"
    have m: "n = m + 2 ^ k" "m < 2 ^ k" using False Suc.prems by (simp_all add: m_def)
    have "(of_nat n :: u8) = of_nat m + push_bit k 1" by (simp add: m(1) push_bit_eq_mult)
    also have "\<dots> = of_nat m XOR push_bit k 1"
      by (rule disjunctive_add_eq_xor) (use m(2) in \<open>auto intro!: bit_word_eqI simp: bit_simps dest: bit_nat_less\<close>)
    finally show ?thesis
      using Suc.IH [of m] iso14443_table_bit [of k] Suc.prems m(2)
      by (simp add: ucast_xor_16 iso13239_bits_xor iso14443_table_xor)
  qed
qed

lemma iso14443_table_eq: "(iso13239_crc_bit ^^ 8) (ucast y) = iso14443_table y"
proof -
  have "unat y < 256" using unsigned_less [of y] by simp
  then show ?thesis using iso14443_table_nat [of 8 "unat y"] by simp
qed

lemma iso14443_step_eq: "iso14443_crc_step c x = iso13239_crc_step c x"
proof -
  have split: "c XOR ucast x = push_bit 8 (drop_bit 8 c) XOR ucast (x XOR ucast c)"
    by (auto simp: word_eq_bits all_less_16 bit_simps One_nat_def dest: bit_u16_high)
  have high: "\<forall>k < 8. \<not> bit (push_bit 8 (drop_bit 8 c)) k"
    by (simp add: bit_simps)
  have "iso13239_crc_step c x = drop_bit 8 (push_bit 8 (drop_bit 8 c)) XOR iso14443_table (x XOR ucast c)"
    unfolding iso13239_crc_step_def split iso13239_bits_xor iso13239_bits_high [OF high] iso14443_table_eq ..
  moreover have "drop_bit 8 (push_bit 8 (drop_bit 8 c)) = drop_bit 8 c"
    by (auto simp: word_eq_bits all_less_16 bit_simps One_nat_def dest: bit_u16_high)
  moreover have "(ucast (c AND 0xff) :: u8) = ucast c"
    by (auto simp: word_eq_bits all_less_8 bit_simps One_nat_def)
  ultimately show ?thesis
    unfolding iso14443_crc_step_def iso14443_table_def Let_def by (simp add: xor.assoc)
qed

lemmas iso14443_step_inj = iso13239_step_inj [folded iso14443_step_eq]

end
