(* ===== verification/Nfc_Crc_Facts.thy ===== *)
theory Nfc_Crc_Facts
  imports Nfc_Crc
begin

text \<open>
  What a frame checksum promises, as a locale over the operations that the three CRC files
  share, and its interpretation on each of them: appending and checking succeed, trimming
  restores the frame, and a change of any single byte is detected.
\<close>

text \<open>Reading the trailer and the payload of a frame.\<close>

lemma read_trailer:
  assumes "bb_ok b" "2 < bit_buffer_get_size_bytes b"
  shows "bit_buffer_write_bytes_mid b (replicate 2 0) (bit_buffer_get_size_bytes b - 2) 2 =
    Some (drop (bit_buffer_get_size_bytes b - 2) (bb_bytes b))"
proof -
  have "bit_buffer_get_size_bytes b < 2 ^ 28" "bit_buffer_get_size_bytes b \<le> length (bb_data b)"
    using size_bytes_le [OF assms(1)] assms(1) by (auto simp: bb_ok_def)
  with assms(2) show ?thesis
    by (simp add: bit_buffer_write_bytes_mid_def size_add_def memcpy_def bb_bytes_def drop_take)
qed

lemma bb_ok_data: "bb_ok b \<Longrightarrow> bit_buffer_get_size_bytes b \<le> length (bb_data b)"
  using size_bytes_le [of b] by (simp add: bb_ok_def)

lemma not_inj: "NOT (a :: u16) = NOT b \<Longrightarrow> a = b"
  by (metis bit.double_compl)

lemma swap_inj: "push_bit 8 (a :: u16) OR drop_bit 8 a = push_bit 8 b OR drop_bit 8 b \<Longrightarrow> a = b"
proof (rule bit_word_eqI)
  fix k assume eq: "push_bit 8 a OR drop_bit 8 a = push_bit 8 b OR drop_bit 8 b" and k: "k < LENGTH(16)"
  have "bit (push_bit 8 a OR drop_bit 8 a) (if k < 8 then k + 8 else k - 8) =
      bit (push_bit 8 b OR drop_bit 8 b) (if k < 8 then k + 8 else k - 8)" by (simp only: eq)
  with k show "bit a k = bit b k" by (auto simp: bit_simps split: if_splits dest: bit_u16_high)
qed

subsection \<open>The contract of a frame checksum\<close>

text \<open>
  What the three implementations share: a step that is injective in the register and in the
  byte, a final transformation that loses nothing, and the operations on buffers.
\<close>

locale crc_trailer =
  fixes step :: "u16 \<Rightarrow> u8 \<Rightarrow> u16" and init :: u16 and final :: "u16 \<Rightarrow> u16"
    and calc :: "bytes \<Rightarrow> nat \<Rightarrow> u16 option"
    and append :: "bit_buffer \<Rightarrow> bit_buffer option" and check :: "bit_buffer \<Rightarrow> bool option"
    and trim :: "bit_buffer \<Rightarrow> bit_buffer option"
  assumes step_inj: "step c x = step c' x \<Longrightarrow> c = c'" "step c x = step c y \<Longrightarrow> x = y"
    and final_inj: "final c = final c' \<Longrightarrow> c = c'"
    and calc: "n \<le> length d \<Longrightarrow> calc d n = Some (final (foldl step init (take n d)))"
    and append: "append b = do {
      crc \<leftarrow> calc (bit_buffer_get_data b) (bit_buffer_get_size_bytes b);
      bit_buffer_append_bytes b (u16_bytes crc) 2 }"
    and check: "check b = (if bit_buffer_get_size_bytes b \<le> 2 then Some False else do {
      received \<leftarrow> bit_buffer_write_bytes_mid b (replicate 2 0) (bit_buffer_get_size_bytes b - 2) 2;
      crc \<leftarrow> calc (bit_buffer_get_data b) (bit_buffer_get_size_bytes b - 2);
      Some (crc = u16_of_bytes received) })"
    and trim: "2 < bit_buffer_get_size_bytes b \<Longrightarrow> bit_buffer_get_size_bytes b < 2 ^ 32 \<Longrightarrow>
      trim b = bit_buffer_set_size_bytes b (bit_buffer_get_size_bytes b - 2)"
begin

definition trailer :: "bytes \<Rightarrow> bytes" where
  "trailer xs = u16_bytes (final (foldl step init xs))"

lemma length_trailer [simp]: "length (trailer xs) = 2"
  by (simp add: trailer_def)

lemma calc_prefix:
  assumes "bb_ok b" "n \<le> bit_buffer_get_size_bytes b"
  shows "calc (bit_buffer_get_data b) n = Some (final (foldl step init (take n (bb_bytes b))))"
  using calc [of n "bb_data b"] bb_ok_data [OF assms(1)] assms(2)
  by (simp add: bit_buffer_get_data_def bb_bytes_def)

lemma check_iff:
  assumes "bb_ok b" "bb_bytes b = xs @ t" "length t = 2" "xs \<noteq> []"
  shows "check b = Some (t = trailer xs)"
proof -
  have n: "bit_buffer_get_size_bytes b = length xs + 2"
    using assms length_bb_bytes [of b] by simp
  with assms(4) have "2 < bit_buffer_get_size_bytes b" by (cases xs) auto
  then have "check b = Some (final (foldl step init xs) = u16_of_bytes t)"
    using check [of b] read_trailer [OF assms(1)] calc_prefix [OF assms(1), of "length xs"] n
    by (simp add: assms(2))
  also have "final (foldl step init xs) = u16_of_bytes t \<longleftrightarrow> t = trailer xs"
    unfolding trailer_def using u16_bytes_of_bytes [OF assms(3)] by auto
  finally show ?thesis .
qed

lemma append_check_trim:
  assumes "bb_ok b" "\<not> bit_buffer_has_partial_byte b" "0 < bb_size_bits b"
    "bit_buffer_get_size_bytes b + 2 \<le> bb_capacity_bytes b"
  shows "\<exists>b' b''. append b = Some b' \<and> bb_ok b' \<and> check b' = Some True \<and>
    bb_bytes b' = bb_bytes b @ trailer (bb_bytes b) \<and> trim b' = Some b'' \<and> bb_bytes b'' = bb_bytes b"
proof -
  have size: "0 < bit_buffer_get_size_bytes b" using assms(2,3)
    by (auto simp: bit_buffer_get_size_bytes_def bit_buffer_has_partial_byte_def)
  have app: "append b = bit_buffer_append_bytes b (trailer (bb_bytes b)) 2"
    using append [of b] calc_prefix [OF assms(1) order_refl] length_bb_bytes [OF assms(1)]
    by (simp add: trailer_def)
  obtain b' where b': "append b = Some b'" "bb_ok b'" "bb_bytes b' = bb_bytes b @ trailer (bb_bytes b)"
    "bb_size_bits b' = bb_size_bits b + 16" "bb_capacity_bytes b' = bb_capacity_bytes b"
    using append_bytes_spec [OF assms(1,2,4), of "trailer (bb_bytes b)"]
    unfolding app by auto
  have ne: "bb_bytes b \<noteq> []" using length_bb_bytes [OF assms(1)] size by auto
  have size': "bit_buffer_get_size_bytes b' = bit_buffer_get_size_bytes b + 2"
    using length_bb_bytes [OF b'(2)] length_bb_bytes [OF assms(1)] b'(3) by simp
  have room: "bit_buffer_get_size_bytes b \<le> bb_capacity_bytes b'" "bb_capacity_bytes b' < 2 ^ 28"
    using assms(4) b'(2,5) by (auto simp: bb_ok_def)
  have "trim b' = Some (b'\<lparr>bb_size_bits := bit_buffer_get_size_bytes b * 8\<rparr>)"
    using trim [of b'] size' size size_bytes_le [OF b'(2)] room by (simp add: bit_buffer_set_size_bytes_def)
  moreover have "bb_bytes (b'\<lparr>bb_size_bits := bit_buffer_get_size_bytes b * 8\<rparr>) = bb_bytes b"
    using arg_cong [OF b'(3), of "take (bit_buffer_get_size_bytes b)"] size' length_bb_bytes [OF assms(1)]
    by (simp add: bb_bytes_def)
  moreover have "check b' = Some True"
    using check_iff [OF b'(2,3)] ne by simp
  ultimately show ?thesis using b'(1,2,3) by blast
qed

lemma foldl_inj: "foldl step c xs = foldl step c' xs \<Longrightarrow> c = c'"
  by (rule foldl_step_inj [where step = step]) (auto dest: step_inj)

lemma trailer_detects:
  assumes "x \<noteq> y"
  shows "trailer (xs @ x # ys) \<noteq> trailer (xs @ y # ys)"
proof
  assume "trailer (xs @ x # ys) = trailer (xs @ y # ys)"
  then have "step (foldl step init xs) x = step (foldl step init xs) y"
    by (auto simp: trailer_def u16_bytes_inj dest!: final_inj foldl_inj)
  then show False using assms by (auto dest: step_inj)
qed

lemma trailer_update:
  assumes "i < length xs" "xs ! i \<noteq> y"
  shows "trailer (xs[i := y]) \<noteq> trailer xs"
  using trailer_detects [OF assms(2), of "take i xs" "drop (Suc i) xs"] assms(1)
  by (metis id_take_nth_drop upd_conv_take_nth_drop)

text \<open>A frame that differs from an accepted one in one byte, wherever that byte is, is rejected.\<close>

lemma detects_one_byte:
  assumes "bb_ok a" "bb_ok b" "check a = Some True" "bb_bytes b = (bb_bytes a)[i := y]"
    "i < length (bb_bytes a)" "bb_bytes a ! i \<noteq> y"
  shows "check b = Some False"
proof -
  define n where "n = length (bb_bytes a) - 2"
  have len: "2 < length (bb_bytes a)"
    using assms(1,3) check [of a] length_bb_bytes [of a] by (auto split: if_splits)
  then have a: "bb_bytes a = take n (bb_bytes a) @ drop n (bb_bytes a)" "length (drop n (bb_bytes a)) = 2"
    "take n (bb_bytes a) \<noteq> []" by (auto simp: n_def)
  have t: "drop n (bb_bytes a) = trailer (take n (bb_bytes a))"
    using check_iff [OF assms(1) a] assms(3) by simp
  have b: "bb_bytes b = take n (bb_bytes b) @ drop n (bb_bytes b)" "length (drop n (bb_bytes b)) = 2"
    "take n (bb_bytes b) \<noteq> []" using len by (auto simp: n_def assms(4))
  have "drop n (bb_bytes b) \<noteq> trailer (take n (bb_bytes b))"
  proof (cases "i < n")
    case True
    have "trailer (take n (bb_bytes b)) \<noteq> trailer (take n (bb_bytes a))"
      using trailer_update [of i "take n (bb_bytes a)" y] True assms(5,6) by (simp add: assms(4) take_update_swap)
    then show ?thesis using t True by (simp add: assms(4) drop_update_cancel)
  next
    case False
    then have "take n (bb_bytes b) = take n (bb_bytes a)" by (simp add: assms(4))
    moreover have "drop n (bb_bytes b) \<noteq> drop n (bb_bytes a)"
      using False assms(4,5,6) by (metis append_take_drop_id calculation nth_list_update_eq)
    ultimately show ?thesis using t by simp
  qed
  then show ?thesis using check_iff [OF assms(2) b] by simp
qed

end

subsection \<open>The three implementations\<close>

lemma iso13239_calc:
  "n \<le> length d \<Longrightarrow> iso13239_crc_calculate type d n =
    Some ((if type = Iso13239CrcTypePicopass then id else NOT) (foldl iso13239_crc_step
      (if type = Iso13239CrcTypeDefault then 0xFFFF else 0xE012) (take n d)))"
  by (simp add: iso13239_crc_calculate_def crc_fold_total)

lemma iso14443_calc:
  "n \<le> length d \<Longrightarrow> iso14443_crc_calculate type d n =
    Some ((if type = Iso14443CrcTypeA then id else NOT) (foldl iso14443_crc_step
      (if type = Iso14443CrcTypeA then 0x6363 else 0xFFFF) (take n d)))"
  by (simp add: iso14443_crc_calculate_def crc_fold_total)

lemma felica_calc:
  "n \<le> length d \<Longrightarrow> felica_crc_calculate d n =
    Some ((\<lambda>crc. push_bit 8 crc OR drop_bit 8 crc) (foldl felica_crc_step 0 (take n d)))"
  by (simp add: felica_crc_calculate_def crc_fold_total)

interpretation iso13239: crc_trailer iso13239_crc_step
    "if type = Iso13239CrcTypeDefault then 0xFFFF else 0xE012"
    "if type = Iso13239CrcTypePicopass then id else NOT" "iso13239_crc_calculate type"
    "iso13239_crc_append type" "iso13239_crc_check type" "iso13239_crc_trim furi_debug"
  for type :: Iso13239CrcType and furi_debug :: bool
  by unfold_locales (auto simp: iso13239_calc iso13239_crc_append_def iso13239_crc_check_def
      iso13239_crc_trim_def size_sub_le Let_def split: if_splits dest: iso13239_step_inj not_inj)

interpretation iso14443: crc_trailer iso14443_crc_step
    "if type = Iso14443CrcTypeA then 0x6363 else 0xFFFF"
    "if type = Iso14443CrcTypeA then id else NOT" "iso14443_crc_calculate type"
    "iso14443_crc_append type" "iso14443_crc_check type" iso14443_crc_trim
  for type :: Iso14443CrcType
  by unfold_locales (auto simp: iso14443_calc iso14443_crc_append_def iso14443_crc_check_def
      iso14443_crc_trim_def Let_def split: if_splits dest: iso14443_step_inj not_inj)

interpretation felica: crc_trailer felica_crc_step 0 "\<lambda>crc. push_bit 8 crc OR drop_bit 8 crc"
    felica_crc_calculate felica_crc_append felica_crc_check "felica_crc_trim furi_debug"
  for furi_debug :: bool
  by unfold_locales (auto simp: felica_calc felica_crc_append_def felica_crc_check_def
      felica_crc_trim_def size_sub_le Let_def dest: felica_step_inj swap_inj)

subsection \<open>Properties\<close>

text \<open>C28: In each of the three checksum formats a frame with room for two more bytes can
  be closed with its checksum, is then accepted, carries the old bytes in front, and trimming
  gives exactly these back.\<close>

theorem frame_crc_accepted:
  assumes "bb_ok b" "\<not> bit_buffer_has_partial_byte b" "0 < bb_size_bits b"
    "bit_buffer_get_size_bytes b + 2 \<le> bb_capacity_bytes b"
  shows "(\<exists>b' b''. iso13239_crc_append t13239 b = Some b' \<and> iso13239_crc_check t13239 b' = Some True \<and>
      length (bb_bytes b') = length (bb_bytes b) + 2 \<and>
      iso13239_crc_trim furi_debug b' = Some b'' \<and> bb_bytes b'' = bb_bytes b) \<and>
    (\<exists>b' b''. iso14443_crc_append t14443 b = Some b' \<and> iso14443_crc_check t14443 b' = Some True \<and>
      length (bb_bytes b') = length (bb_bytes b) + 2 \<and>
      iso14443_crc_trim b' = Some b'' \<and> bb_bytes b'' = bb_bytes b) \<and>
    (\<exists>b' b''. felica_crc_append b = Some b' \<and> felica_crc_check b' = Some True \<and>
      length (bb_bytes b') = length (bb_bytes b) + 2 \<and>
      felica_crc_trim furi_debug b' = Some b'' \<and> bb_bytes b'' = bb_bytes b)"
proof (intro conjI)
  show "\<exists>b' b''. iso13239_crc_append t13239 b = Some b' \<and> iso13239_crc_check t13239 b' = Some True \<and>
      length (bb_bytes b') = length (bb_bytes b) + 2 \<and>
      iso13239_crc_trim furi_debug b' = Some b'' \<and> bb_bytes b'' = bb_bytes b"
    using iso13239.append_check_trim [OF assms, of t13239 furi_debug] by fastforce
  show "\<exists>b' b''. iso14443_crc_append t14443 b = Some b' \<and> iso14443_crc_check t14443 b' = Some True \<and>
      length (bb_bytes b') = length (bb_bytes b) + 2 \<and>
      iso14443_crc_trim b' = Some b'' \<and> bb_bytes b'' = bb_bytes b"
    using iso14443.append_check_trim [OF assms, of t14443] by fastforce
  show "\<exists>b' b''. felica_crc_append b = Some b' \<and> felica_crc_check b' = Some True \<and>
      length (bb_bytes b') = length (bb_bytes b) + 2 \<and>
      felica_crc_trim furi_debug b' = Some b'' \<and> bb_bytes b'' = bb_bytes b"
    using felica.append_check_trim [OF assms, of furi_debug] by fastforce
qed

lemma demo_frame_ok:
  "bb_ok (demo_buffer\<lparr>bb_data := [1, 2, 3], bb_size_bits := 8\<rparr>)"
  "\<not> bit_buffer_has_partial_byte (demo_buffer\<lparr>bb_data := [1, 2, 3], bb_size_bits := 8\<rparr>)"
  "0 < bb_size_bits (demo_buffer\<lparr>bb_data := [1, 2, 3], bb_size_bits := 8\<rparr>)"
  "bit_buffer_get_size_bytes (demo_buffer\<lparr>bb_data := [1, 2, 3], bb_size_bits := 8\<rparr>) + 2
     \<le> bb_capacity_bytes (demo_buffer\<lparr>bb_data := [1, 2, 3], bb_size_bits := 8\<rparr>)"
  by (simp_all add: demo_buffer_def bb_ok_def bit_buffer_has_partial_byte_def bit_buffer_get_size_bytes_def)

theorem frame_crc_accepted_witness:
  "\<exists>b'. iso14443_crc_append Iso14443CrcTypeA (demo_buffer\<lparr>bb_data := [1, 2, 3], bb_size_bits := 8\<rparr>) = Some b' \<and>
    iso14443_crc_check Iso14443CrcTypeA b' = Some True"
  using frame_crc_accepted [OF demo_frame_ok, of Iso13239CrcTypeDefault True Iso14443CrcTypeA] by blast

text \<open>C29: In each of the three formats a received frame that differs from a valid one in
  a single byte, payload or checksum, is rejected.\<close>

theorem frame_crc_detects:
  assumes "bb_ok a" "bb_ok b" "bb_bytes b = (bb_bytes a)[i := y]" "i < length (bb_bytes a)"
    "bb_bytes a ! i \<noteq> y"
  shows "(iso13239_crc_check t13239 a = Some True \<longrightarrow> iso13239_crc_check t13239 b = Some False) \<and>
    (iso14443_crc_check t14443 a = Some True \<longrightarrow> iso14443_crc_check t14443 b = Some False) \<and>
    (felica_crc_check a = Some True \<longrightarrow> felica_crc_check b = Some False)"
  using iso13239.detects_one_byte [OF assms(1,2) _ assms(3-5)]
    iso14443.detects_one_byte [OF assms(1,2) _ assms(3-5)]
    felica.detects_one_byte [OF assms(1,2) _ assms(3-5)] by blast

definition demo_frame :: "bytes \<Rightarrow> bit_buffer" where
  "demo_frame d = \<lparr>bb_data = d, bb_parity = [0], bb_capacity_bytes = 4, bb_size_bits = 32\<rparr>"

lemma demo_frame_facts:
  assumes "length d = 4"
  shows "bb_ok (demo_frame d)" "bb_bytes (demo_frame d) = d"
  using assms by (simp_all add: demo_frame_def bb_ok_def bb_bytes_def bit_buffer_get_size_bytes_def)

text \<open>The HLTA command of ISO 14443-3, 50 00 57 CD, and a damaged copy of it.\<close>

lemma hlta_steps: "iso14443_crc_step 0x6363 0x50 = 0x037B" "iso14443_crc_step 0x037B 0x00 = 0xCD57"
  "u16_bytes 0xCD57 = [0x57, 0xCD]"
  by code_simp+

theorem frame_crc_detects_witness:
  "iso14443_crc_check Iso14443CrcTypeA (demo_frame [0x50, 0x00, 0x57, 0xCD]) = Some True \<and>
   iso14443_crc_check Iso14443CrcTypeA (demo_frame [0x50, 0x01, 0x57, 0xCD]) = Some False"
proof -
  have "iso14443.trailer Iso14443CrcTypeA [0x50, 0x00] = [0x57, 0xCD]"
    unfolding iso14443.trailer_def by (simp add: hlta_steps)
  then have ok: "iso14443_crc_check Iso14443CrcTypeA (demo_frame [0x50, 0x00, 0x57, 0xCD]) = Some True"
    using iso14443.check_iff [of "demo_frame [0x50, 0x00, 0x57, 0xCD]" "[0x50, 0x00]" "[0x57, 0xCD]" Iso14443CrcTypeA]
    by (simp add: demo_frame_facts)
  show ?thesis
    using frame_crc_detects [of "demo_frame [0x50, 0x00, 0x57, 0xCD]" "demo_frame [0x50, 0x01, 0x57, 0xCD]" 1 1]
    by (simp add: demo_frame_facts ok One_nat_def)
qed

text \<open>The byte-wise CRC of ISO 14443-3 B is the bit-wise CRC of ISO 13239: the two
  files compute the same checksum of every frame.\<close>

theorem iso14443_b_eq_iso13239:
  assumes "n \<le> length data"
  shows "iso14443_crc_calculate Iso14443CrcTypeB data n = iso13239_crc_calculate Iso13239CrcTypeDefault data n"
proof -
  have "iso14443_crc_step = iso13239_crc_step" by (intro ext) (rule iso14443_step_eq)
  with assms show ?thesis by (simp add: iso14443_calc iso13239_calc)
qed

theorem iso14443_b_eq_iso13239_witness:
  "iso14443_crc_calculate Iso14443CrcTypeB [0x50, 0x00] 2 = iso13239_crc_calculate Iso13239CrcTypeDefault [0x50, 0x00] 2"
  using iso14443_b_eq_iso13239 [of 2 "[0x50, 0x00]"] by simp

end
