(* ===== verification/Iso14443_3a.thy ===== *)
theory Iso14443_3a
  imports Nfc_Crc_Facts
begin

text \<open>
  ISO 14443-3 A (firmware/lib/nfc/protocols/iso14443\_3a): the data of a card, the poller with its
  collision resolution, and the listener's dispatch of received frames. The driver under the
  protocol (nfc.c and the hardware) is a parameter: a record of functions on a state of its own, which
  fill the receive buffer. Frame wait times are passed on unchanged by the code and left out.
\<close>

subsection \<open>Card data\<close>

record Iso14443_3aData =
  i3_uid :: bytes
  i3_uid_len :: u8
  i3_atqa :: bytes
  i3_sak :: u8

definition iso14443_3a_alloc :: Iso14443_3aData where
  "iso14443_3a_alloc = \<lparr>i3_uid = replicate 10 0, i3_uid_len = 0, i3_atqa = replicate 2 0, i3_sak = 0\<rparr>"

definition iso14443_3a_reset :: "Iso14443_3aData \<Rightarrow> Iso14443_3aData" where
  "iso14443_3a_reset data = \<lparr>i3_uid = replicate 10 0, i3_uid_len = 0, i3_atqa = replicate 2 0, i3_sak = 0\<rparr>"

definition iso14443_3a_copy :: "Iso14443_3aData \<Rightarrow> Iso14443_3aData \<Rightarrow> Iso14443_3aData" where
  "iso14443_3a_copy data other = other"

definition iso14443_3a_is_equal :: "Iso14443_3aData \<Rightarrow> Iso14443_3aData \<Rightarrow> bool" where
  "iso14443_3a_is_equal data other \<longleftrightarrow> data = other"

definition iso14443_3a_get_uid :: "Iso14443_3aData \<Rightarrow> bytes \<times> nat" where
  "iso14443_3a_get_uid data = (i3_uid data, unat (i3_uid_len data))"

definition iso14443_3a_set_uid :: "Iso14443_3aData \<Rightarrow> bytes \<Rightarrow> nat \<Rightarrow> (bool \<times> Iso14443_3aData) option" where
  "iso14443_3a_set_uid data uid uid_len =
     (let uid_valid = (uid_len = 4 \<or> uid_len = 7 \<or> uid_len = 10)
      in if uid_valid then do {
           u \<leftarrow> memcpy (i3_uid data) 0 uid 0 uid_len;
           Some (uid_valid, data\<lparr>i3_uid := u, i3_uid_len := of_nat uid_len\<rparr>)
         } else Some (uid_valid, data))"

definition iso14443_3a_get_cuid :: "Iso14443_3aData \<Rightarrow> u32 option" where
  "iso14443_3a_get_cuid data = do {
     let start = (if i3_uid_len data = 7 then 3 else 0);
     a \<leftarrow> rd (i3_uid data) start;
     b \<leftarrow> rd (i3_uid data) (start + 1);
     c \<leftarrow> rd (i3_uid data) (start + 2);
     d \<leftarrow> rd (i3_uid data) (start + 3);
     Some (push_bit 24 (ucast a) OR push_bit 16 (ucast b) OR push_bit 8 (ucast c) OR ucast d)
   }"

definition iso14443_3a_supports_iso14443_4 :: "Iso14443_3aData \<Rightarrow> bool" where
  "iso14443_3a_supports_iso14443_4 data \<longleftrightarrow> i3_sak data AND push_bit 5 1 \<noteq> 0"

definition iso14443_3a_get_sak :: "Iso14443_3aData \<Rightarrow> u8" where
  "iso14443_3a_get_sak data = i3_sak data"

definition iso14443_3a_get_atqa :: "Iso14443_3aData \<Rightarrow> bytes" where
  "iso14443_3a_get_atqa data = i3_atqa data"

definition iso14443_3a_set_sak :: "Iso14443_3aData \<Rightarrow> u8 \<Rightarrow> Iso14443_3aData" where
  "iso14443_3a_set_sak data sak = data\<lparr>i3_sak := sak\<rparr>"

definition iso14443_3a_set_atqa :: "Iso14443_3aData \<Rightarrow> bytes \<Rightarrow> Iso14443_3aData option" where
  "iso14443_3a_set_atqa data atqa = do {
     a \<leftarrow> memcpy (i3_atqa data) 0 atqa 0 2;
     Some (data\<lparr>i3_atqa := a\<rparr>)
   }"

subsection \<open>The driver\<close>

datatype NfcError = NfcErrorNone | NfcErrorInternal | NfcErrorTimeout | NfcErrorIncompleteFrame | NfcErrorDataFormat

datatype NfcCommand = NfcCommandContinue | NfcCommandReset | NfcCommandStop | NfcCommandSleep

datatype Iso14443_3aError =
  Iso14443_3aErrorNone | Iso14443_3aErrorNotPresent | Iso14443_3aErrorColResFailed | Iso14443_3aErrorBufferOverflow |
  Iso14443_3aErrorCommunication | Iso14443_3aErrorFieldOff | Iso14443_3aErrorWrongCrc | Iso14443_3aErrorTimeout

text \<open>The functions of the driver take its state, the frame to send where there is one, and the
  receive buffer.\<close>

record 'n nfc_driver =
  nfc_poller_trx :: "'n \<Rightarrow> bit_buffer \<Rightarrow> bit_buffer \<Rightarrow> NfcError \<times> bit_buffer \<times> 'n"
  nfc_trx_sens_req :: "'n \<Rightarrow> bit_buffer \<Rightarrow> NfcError \<times> bit_buffer \<times> 'n"
  nfc_trx_sdd_frame :: "'n \<Rightarrow> bit_buffer \<Rightarrow> bit_buffer \<Rightarrow> NfcError \<times> bit_buffer \<times> 'n"
  nfc_trx_custom_parity :: "'n \<Rightarrow> bit_buffer \<Rightarrow> bit_buffer \<Rightarrow> NfcError \<times> bit_buffer \<times> 'n"

subsection \<open>Poller\<close>

datatype Iso14443_3aPollerColResState =
  Iso14443_3aPollerColResStateStateIdle | Iso14443_3aPollerColResStateStateNewCascade |
  Iso14443_3aPollerColResStateStateSelectCascade | Iso14443_3aPollerColResStateStateSuccess |
  Iso14443_3aPollerColResStateStateFail

datatype Iso14443_3aPollerState =
  Iso14443_3aPollerStateIdle | Iso14443_3aPollerStateColResInProgress | Iso14443_3aPollerStateColResFailed |
  Iso14443_3aPollerStateActivated

record Iso14443_3aPollerColRes =
  cr_state :: Iso14443_3aPollerColResState
  sens_resp :: bytes
  sdd_resp :: bytes
  sel_req :: bytes
  sel_resp :: u8
  cascade_level :: u8

record 'n Iso14443_3aPoller =
  p3_nfc :: 'n
  p3_state :: Iso14443_3aPollerState
  p3_col_res :: Iso14443_3aPollerColRes
  p3_data :: Iso14443_3aData
  p3_tx_buffer :: bit_buffer
  p3_rx_buffer :: bit_buffer

definition col_res_reset :: Iso14443_3aPollerColRes where
  "col_res_reset = \<lparr>cr_state = Iso14443_3aPollerColResStateStateIdle, sens_resp = replicate 2 0, sdd_resp = replicate 5 0,
     sel_req = replicate 7 0, sel_resp = 0, cascade_level = 0\<rparr>"

definition iso14443_3a_poller_alloc :: "'n \<Rightarrow> 'n Iso14443_3aPoller option" where
  "iso14443_3a_poller_alloc nfc = do {
     tx \<leftarrow> bit_buffer_alloc 512;
     rx \<leftarrow> bit_buffer_alloc 512;
     Some \<lparr>p3_nfc = nfc, p3_state = Iso14443_3aPollerStateIdle, p3_col_res = col_res_reset, p3_data = iso14443_3a_alloc,
       p3_tx_buffer = tx, p3_rx_buffer = rx\<rparr>
   }"

definition ISO14443_3A_POLLER_SEL_CMD :: "u8 \<Rightarrow> u8" where
  "ISO14443_3A_POLLER_SEL_CMD cascade_lvl = 0x93 + 2 * cascade_lvl"

definition ISO14443_3A_POLLER_SEL_PAR :: "u8 \<Rightarrow> u8 \<Rightarrow> u8" where
  "ISO14443_3A_POLLER_SEL_PAR bytes bits = (push_bit 4 bytes AND 0xf0) OR (bits AND 0x0f)"

definition iso14443_3a_poller_process_error :: "NfcError \<Rightarrow> Iso14443_3aError" where
  "iso14443_3a_poller_process_error error =
     (if error = NfcErrorNone then Iso14443_3aErrorNone
      else if error = NfcErrorTimeout then Iso14443_3aErrorTimeout
      else Iso14443_3aErrorNotPresent)"

text \<open>The buffers of the caller; \<open>None\<close> stands for the poller's own buffer, which is not copied to
  itself. The assertion on the size of the frame says what the check in \<open>bit_buffer_append_bytes\<close>
  says again.\<close>

definition iso14443_3a_poller_standard_frame_exchange ::
    "'n nfc_driver \<Rightarrow> 'n Iso14443_3aPoller \<Rightarrow> bit_buffer option \<Rightarrow> bit_buffer option \<Rightarrow>
     (Iso14443_3aError \<times> 'n Iso14443_3aPoller \<times> bit_buffer option) option" where
  "iso14443_3a_poller_standard_frame_exchange drv p tx_buffer rx_buffer = do {
     tx \<leftarrow> (case tx_buffer of None \<Rightarrow> Some (p3_tx_buffer p) | Some b \<Rightarrow> bit_buffer_copy (p3_tx_buffer p) b);
     tx \<leftarrow> iso14443_crc_append Iso14443CrcTypeA tx;
     let (error, rx, n) = nfc_poller_trx drv (p3_nfc p) tx (p3_rx_buffer p);
     let p = p\<lparr>p3_tx_buffer := tx, p3_rx_buffer := rx, p3_nfc := n\<rparr>;
     let target = (case rx_buffer of None \<Rightarrow> rx | Some b \<Rightarrow> b);
     if error \<noteq> NfcErrorNone then Some (iso14443_3a_poller_process_error error, p, rx_buffer)
     else if bit_buffer_get_capacity_bytes target < bit_buffer_get_size_bytes rx then
       Some (Iso14443_3aErrorBufferOverflow, p, rx_buffer)
     else do {
       rx_buffer \<leftarrow> (case rx_buffer of None \<Rightarrow> Some None | Some b \<Rightarrow> map_option Some (bit_buffer_copy b rx));
       ok \<leftarrow> iso14443_crc_check Iso14443CrcTypeA rx;
       if \<not> ok then Some (Iso14443_3aErrorWrongCrc, p, rx_buffer)
       else (case rx_buffer of
           None \<Rightarrow> do { rx \<leftarrow> iso14443_crc_trim rx; Some (Iso14443_3aErrorNone, p\<lparr>p3_rx_buffer := rx\<rparr>, None) }
         | Some b \<Rightarrow> do { b \<leftarrow> iso14443_crc_trim b; Some (Iso14443_3aErrorNone, p, Some b) })
     }
   }"

definition iso14443_3a_poller_check_presence ::
    "'n nfc_driver \<Rightarrow> 'n Iso14443_3aPoller \<Rightarrow> Iso14443_3aError \<times> 'n Iso14443_3aPoller" where
  "iso14443_3a_poller_check_presence drv p =
     (let (error, rx, n) = nfc_trx_sens_req drv (p3_nfc p) (p3_rx_buffer p);
          p = p\<lparr>p3_rx_buffer := rx, p3_nfc := n\<rparr>
      in if error \<noteq> NfcErrorNone then (iso14443_3a_poller_process_error error, p)
         else if bit_buffer_get_size_bytes rx \<noteq> 2 then (Iso14443_3aErrorCommunication, p)
         else (Iso14443_3aErrorNone, p))"

definition iso14443_3a_poller_halt ::
    "'n nfc_driver \<Rightarrow> 'n Iso14443_3aPoller \<Rightarrow> (Iso14443_3aError \<times> 'n Iso14443_3aPoller) option" where
  "iso14443_3a_poller_halt drv p = do {
     tx \<leftarrow> bit_buffer_copy_bytes (p3_tx_buffer p) [0x50, 0x00] 2;
     (_, p, _) \<leftarrow> iso14443_3a_poller_standard_frame_exchange drv (p\<lparr>p3_tx_buffer := tx\<rparr>) None None;
     Some (Iso14443_3aErrorNone, p\<lparr>p3_state := Iso14443_3aPollerStateIdle\<rparr>)
   }"

abbreviation col_res_failed :: "'n Iso14443_3aPoller \<Rightarrow> 'n Iso14443_3aPoller" where
  "col_res_failed p \<equiv> p\<lparr>p3_state := Iso14443_3aPollerStateColResFailed\<rparr>"

definition update_col_res ::
    "(Iso14443_3aPollerColRes \<Rightarrow> Iso14443_3aPollerColRes) \<Rightarrow> 'n Iso14443_3aPoller \<Rightarrow> 'n Iso14443_3aPoller" where
  "update_col_res f p = p\<lparr>p3_col_res := f (p3_col_res p)\<rparr>"

text \<open>The two branches of the loop of the collision resolution: ask for the bytes of a cascade level, and select
  the card that has them.\<close>

definition col_res_new_cascade ::
    "'n nfc_driver \<Rightarrow> Iso14443_3aError \<Rightarrow> 'n Iso14443_3aPoller \<Rightarrow> (Iso14443_3aError \<times> 'n Iso14443_3aPoller) option" where
  "col_res_new_cascade drv ret p = do {
     tx \<leftarrow> bit_buffer_set_size_bytes (p3_tx_buffer p) 2;
     tx \<leftarrow> bit_buffer_set_byte tx 0 (ISO14443_3A_POLLER_SEL_CMD (cascade_level (p3_col_res p)));
     tx \<leftarrow> bit_buffer_set_byte tx 1 (ISO14443_3A_POLLER_SEL_PAR 2 0);
     let (error, rx, n) = nfc_trx_sdd_frame drv (p3_nfc p) tx (p3_rx_buffer p);
     let p = p\<lparr>p3_tx_buffer := tx, p3_rx_buffer := rx, p3_nfc := n\<rparr>;
     if error \<noteq> NfcErrorNone then Some (Iso14443_3aErrorColResFailed, col_res_failed p)
     else if bit_buffer_get_size_bytes rx \<noteq> 5 then Some (Iso14443_3aErrorColResFailed, col_res_failed p)
     else do {
       resp \<leftarrow> bit_buffer_write_bytes rx (sdd_resp (p3_col_res p)) 5;
       Some (ret, update_col_res (\<lambda>c. c\<lparr>sdd_resp := resp, cr_state := Iso14443_3aPollerColResStateStateSelectCascade\<rparr>) p)
     }
   }"

definition fill_sel_req :: "Iso14443_3aPollerColRes \<Rightarrow> bytes option" where
  "fill_sel_req c = do {
     req \<leftarrow> wr (sel_req c) 0 (ISO14443_3A_POLLER_SEL_CMD (cascade_level c));
     req \<leftarrow> wr req 1 (ISO14443_3A_POLLER_SEL_PAR 7 0);
     req \<leftarrow> memcpy req 2 (sdd_resp c) 0 4;
     bss \<leftarrow> rd (sdd_resp c) 4;
     wr req 6 bss
   }"

definition col_res_selected :: "Iso14443_3aError \<Rightarrow> 'n Iso14443_3aPoller \<Rightarrow> (Iso14443_3aError \<times> 'n Iso14443_3aPoller) option" where
  "col_res_selected ret p = do {
     let c = p3_col_res p;
     let d = p3_data p;
     if sel_resp c AND 0x04 \<noteq> 0 then
       if 2 \<le> cascade_level c then Some (Iso14443_3aErrorColResFailed, col_res_failed p)
       else do {
         uid \<leftarrow> memcpy (i3_uid d) (unat (i3_uid_len d)) (sel_req c) 3 3;
         Some (ret, p\<lparr>p3_data := d\<lparr>i3_uid := uid, i3_uid_len := i3_uid_len d + 3\<rparr>,
           p3_col_res := c\<lparr>cascade_level := cascade_level c + 1, cr_state := Iso14443_3aPollerColResStateStateNewCascade\<rparr>\<rparr>)
       }
     else do {
       uid \<leftarrow> memcpy (i3_uid d) (unat (i3_uid_len d)) (sel_req c) 2 4;
       Some (ret, p\<lparr>p3_data := d\<lparr>i3_uid := uid, i3_uid_len := i3_uid_len d + 4, i3_sak := sel_resp c\<rparr>,
         p3_state := Iso14443_3aPollerStateActivated,
         p3_col_res := c\<lparr>cr_state := Iso14443_3aPollerColResStateStateSuccess\<rparr>\<rparr>)
     }
   }"

definition col_res_select_cascade ::
    "'n nfc_driver \<Rightarrow> 'n Iso14443_3aPoller \<Rightarrow> (Iso14443_3aError \<times> 'n Iso14443_3aPoller) option" where
  "col_res_select_cascade drv p = do {
     req \<leftarrow> fill_sel_req (p3_col_res p);
     tx \<leftarrow> bit_buffer_copy_bytes (p3_tx_buffer p) req 7;
     let p = update_col_res (\<lambda>c. c\<lparr>sel_req := req\<rparr>) (p\<lparr>p3_tx_buffer := tx\<rparr>);
     (ret, p, _) \<leftarrow> iso14443_3a_poller_standard_frame_exchange drv p None None;
     if ret \<noteq> Iso14443_3aErrorNone then Some (Iso14443_3aErrorColResFailed, col_res_failed p)
     else if bit_buffer_get_size_bytes (p3_rx_buffer p) \<noteq> 1 then Some (Iso14443_3aErrorColResFailed, col_res_failed p)
     else do {
       resp \<leftarrow> bit_buffer_write_bytes (p3_rx_buffer p) [sel_resp (p3_col_res p)] 1;
       sak \<leftarrow> rd resp 0;
       col_res_selected ret (update_col_res (\<lambda>c. c\<lparr>sel_resp := sak\<rparr>) p)
     }
   }"

text \<open>In any other state of the collision resolution the loop would spin.\<close>

partial_function (option) col_res_loop ::
    "'n nfc_driver \<Rightarrow> Iso14443_3aError \<Rightarrow> 'n Iso14443_3aPoller \<Rightarrow> (Iso14443_3aError \<times> 'n Iso14443_3aPoller) option" where
  "col_res_loop drv ret p =
     (if p3_state p \<noteq> Iso14443_3aPollerStateColResInProgress then Some (ret, p)
      else do {
        (ret, p) \<leftarrow> (if cr_state (p3_col_res p) = Iso14443_3aPollerColResStateStateNewCascade
                     then col_res_new_cascade drv ret p
                     else if cr_state (p3_col_res p) = Iso14443_3aPollerColResStateStateSelectCascade
                     then col_res_select_cascade drv p
                     else Some (ret, p));
        col_res_loop drv ret p
      })"

text \<open>The caller's copy of the card data, which the code fills when the poller is activated, is \<open>p3_data\<close> of the result.\<close>

definition iso14443_3a_poller_activate ::
    "'n nfc_driver \<Rightarrow> 'n Iso14443_3aPoller \<Rightarrow> (Iso14443_3aError \<times> 'n Iso14443_3aPoller) option" where
  "iso14443_3a_poller_activate drv p = do {
     let p = p\<lparr>p3_col_res := col_res_reset, p3_data := iso14443_3a_reset (p3_data p),
       p3_tx_buffer := bit_buffer_reset (p3_tx_buffer p), p3_rx_buffer := bit_buffer_reset (p3_rx_buffer p)\<rparr>;
     p \<leftarrow> (if p3_state p \<noteq> Iso14443_3aPollerStateIdle
           then do { (_, p) \<leftarrow> iso14443_3a_poller_halt drv p; Some (p\<lparr>p3_state := Iso14443_3aPollerStateIdle\<rparr>) }
           else Some p);
     let (error, rx, n) = nfc_trx_sens_req drv (p3_nfc p) (p3_rx_buffer p);
     let p = p\<lparr>p3_rx_buffer := rx, p3_nfc := n\<rparr>;
     if error \<noteq> NfcErrorNone then Some (Iso14443_3aErrorNotPresent, p)
     else if bit_buffer_get_size_bytes rx \<noteq> 2 then Some (Iso14443_3aErrorCommunication, p)
     else do {
       resp \<leftarrow> bit_buffer_write_bytes rx (sens_resp (p3_col_res p)) 2;
       atqa \<leftarrow> memcpy (i3_atqa (p3_data p)) 0 resp 0 2;
       let p = p\<lparr>p3_data := (p3_data p)\<lparr>i3_atqa := atqa\<rparr>, p3_state := Iso14443_3aPollerStateColResInProgress\<rparr>;
       let p = update_col_res (\<lambda>c. c\<lparr>sens_resp := resp, cascade_level := 0,
         cr_state := Iso14443_3aPollerColResStateStateNewCascade\<rparr>) p;
       col_res_loop drv Iso14443_3aErrorNone p
     }
   }"

definition iso14443_3a_poller_txrx_custom_parity ::
    "'n nfc_driver \<Rightarrow> 'n Iso14443_3aPoller \<Rightarrow> bit_buffer \<Rightarrow> bit_buffer \<Rightarrow> Iso14443_3aError \<times> 'n Iso14443_3aPoller \<times> bit_buffer" where
  "iso14443_3a_poller_txrx_custom_parity drv p tx_buffer rx_buffer =
     (let (error, rx, n) = nfc_trx_custom_parity drv (p3_nfc p) tx_buffer rx_buffer
      in (iso14443_3a_poller_process_error error, p\<lparr>p3_nfc := n\<rparr>, rx))"

definition iso14443_3a_poller_txrx ::
    "'n nfc_driver \<Rightarrow> 'n Iso14443_3aPoller \<Rightarrow> bit_buffer \<Rightarrow> bit_buffer \<Rightarrow> Iso14443_3aError \<times> 'n Iso14443_3aPoller \<times> bit_buffer" where
  "iso14443_3a_poller_txrx drv p tx_buffer rx_buffer =
     (let (error, rx, n) = nfc_poller_trx drv (p3_nfc p) tx_buffer rx_buffer
      in (iso14443_3a_poller_process_error error, p\<lparr>p3_nfc := n\<rparr>, rx))"

definition iso14443_3a_poller_send_standard_frame ::
    "'n nfc_driver \<Rightarrow> 'n Iso14443_3aPoller \<Rightarrow> bit_buffer option \<Rightarrow> bit_buffer option \<Rightarrow>
     (Iso14443_3aError \<times> 'n Iso14443_3aPoller \<times> bit_buffer option) option" where
  "iso14443_3a_poller_send_standard_frame drv p tx_buffer rx_buffer =
     iso14443_3a_poller_standard_frame_exchange drv p tx_buffer rx_buffer"

text \<open>The event handler of the poller. The callback of the protocol above gets the event, the poller and its own
  context.\<close>

datatype Iso14443_3aPollerEvent =
  Iso14443_3aPollerEventTypeError Iso14443_3aError | Iso14443_3aPollerEventTypeReady

definition iso14443_3a_poller_run ::
    "'n nfc_driver \<Rightarrow>
     (Iso14443_3aPollerEvent \<Rightarrow> 'n Iso14443_3aPoller \<Rightarrow> 'c \<Rightarrow> (NfcCommand \<times> 'n Iso14443_3aPoller \<times> 'c) option) \<Rightarrow>
     bool \<Rightarrow> 'n Iso14443_3aPoller \<Rightarrow> 'c \<Rightarrow> (NfcCommand \<times> 'n Iso14443_3aPoller \<times> 'c) option" where
  "iso14443_3a_poller_run drv callback ready p context = do {
     (command, p, context) \<leftarrow>
       (if ready then
          if p3_state p \<noteq> Iso14443_3aPollerStateActivated then do {
            (error, p) \<leftarrow> iso14443_3a_poller_activate drv p;
            if error = Iso14443_3aErrorNone
            then callback Iso14443_3aPollerEventTypeReady (p\<lparr>p3_state := Iso14443_3aPollerStateActivated\<rparr>) context
            else callback (Iso14443_3aPollerEventTypeError error) p context
          }
          else callback Iso14443_3aPollerEventTypeReady p context
        else Some (NfcCommandContinue, p, context));
     Some (command, if command = NfcCommandReset then p\<lparr>p3_state := Iso14443_3aPollerStateIdle\<rparr> else p, context)
   }"

definition iso14443_3a_poller_detect :: "'n nfc_driver \<Rightarrow> bool \<Rightarrow> 'n Iso14443_3aPoller \<Rightarrow> (bool \<times> 'n Iso14443_3aPoller) option" where
  "iso14443_3a_poller_detect drv ready p =
     (if ready then do {
        (error, p) \<leftarrow> iso14443_3a_poller_activate drv p;
        Some (error = Iso14443_3aErrorNone, p)
      } else Some (False, p))"

subsection \<open>Listener\<close>

datatype Iso14443_3aListenerEvent =
  Iso14443_3aListenerEventTypeFieldOff | Iso14443_3aListenerEventTypeHalted |
  Iso14443_3aListenerEventTypeReceivedStandardFrame bit_buffer | Iso14443_3aListenerEventTypeReceivedData bit_buffer

datatype NfcListenerEvent = NfcEventTypeListenerActivated | NfcEventTypeFieldOff | NfcEventTypeRxEnd bit_buffer | NfcEventTypeOther

definition iso14443_3a_listener_halt_received :: "bit_buffer \<Rightarrow> bool option" where
  "iso14443_3a_listener_halt_received buf =
     (if bit_buffer_get_size_bytes buf \<noteq> 4 then Some False
      else do {
        ok \<leftarrow> iso14443_crc_check Iso14443CrcTypeA buf;
        if \<not> ok then Some False
        else do {
          a \<leftarrow> bit_buffer_get_byte buf 0;
          if a \<noteq> 0x50 then Some False
          else do {
            b \<leftarrow> bit_buffer_get_byte buf 1;
            Some (b = 0x00)
          }
        }
      })"

text \<open>The state of the listener is whether it is active; the callback belongs to the protocol above and is set.\<close>

definition iso14443_3a_listener_run ::
    "(Iso14443_3aListenerEvent \<Rightarrow> 'l \<Rightarrow> (NfcCommand \<times> 'l) option) \<Rightarrow> NfcListenerEvent \<Rightarrow> bool \<Rightarrow> 'l \<Rightarrow>
     (NfcCommand \<times> bool \<times> 'l) option" where
  "iso14443_3a_listener_run callback event active l =
     (case event of
        NfcEventTypeListenerActivated \<Rightarrow> Some (NfcCommandContinue, True, l)
      | NfcEventTypeFieldOff \<Rightarrow> do {
          (_, l) \<leftarrow> callback Iso14443_3aListenerEventTypeFieldOff l;
          Some (NfcCommandSleep, False, l)
        }
      | NfcEventTypeRxEnd buffer \<Rightarrow> do {
          halt \<leftarrow> iso14443_3a_listener_halt_received buffer;
          if halt then do {
            (_, l) \<leftarrow> callback Iso14443_3aListenerEventTypeHalted l;
            Some (NfcCommandSleep, active, l)
          }
          else do {
            ok \<leftarrow> iso14443_crc_check Iso14443CrcTypeA buffer;
            event \<leftarrow> (if ok then map_option Iso14443_3aListenerEventTypeReceivedStandardFrame (iso14443_crc_trim buffer)
                      else Some (Iso14443_3aListenerEventTypeReceivedData buffer));
            (command, l) \<leftarrow> callback event l;
            Some (command, active, l)
          }
        }
      | NfcEventTypeOther \<Rightarrow> Some (NfcCommandContinue, active, l))"

end
