(* ===== verification/Toolbox_Hex.thy ===== *)
theory Toolbox_Hex
  imports Firmware_Prelude "HOL-Library.Char_ord"
begin

text \<open>
  Hexadecimal text (firmware/lib/toolbox/hex.c). Characters are HOL characters; the comparisons
  of the code are between ASCII characters, for which the sign of \<open>char\<close> does not matter.
  A conversion with an output pointer returns the value, or nothing when the code leaves the output alone.
\<close>

declare push_bit_Suc [simp del] drop_bit_Suc [simp del] One_nat_def [simp del]

subsection \<open>Operations\<close>

definition hex_char_to_hex_nibble :: "char \<Rightarrow> u8 option" where
  "hex_char_to_hex_nibble c =
     (if CHR ''0'' \<le> c \<and> c \<le> CHR ''9'' then Some (of_char c - of_char (CHR ''0''))
      else if CHR ''A'' \<le> c \<and> c \<le> CHR ''F'' then Some (of_char c - of_char (CHR ''A'') + 10)
      else if CHR ''a'' \<le> c \<and> c \<le> CHR ''f'' then Some (of_char c - of_char (CHR ''a'') + 10)
      else None)"

definition hex_char_to_uint8 :: "char \<Rightarrow> char \<Rightarrow> u8 option" where
  "hex_char_to_uint8 hi low = do {
     hi_nibble_value \<leftarrow> hex_char_to_hex_nibble hi;
     low_nibble_value \<leftarrow> hex_char_to_hex_nibble low;
     Some (push_bit 4 hi_nibble_value OR low_nibble_value)
   }"

text \<open>The bytes written before a bad pair are kept; the flag is that of the last pair.\<close>

fun hex_chars_to_uint8_loop :: "string \<Rightarrow> bool \<Rightarrow> bytes \<Rightarrow> bool \<times> bytes" where
  "hex_chars_to_uint8_loop (hi # low # cs) ok out =
     (case hex_char_to_uint8 hi low of
        Some x \<Rightarrow> hex_chars_to_uint8_loop cs True (out @ [x])
      | None \<Rightarrow> (False, out))"
| "hex_chars_to_uint8_loop _ ok out = (ok, out)"

definition hex_chars_to_uint8 :: "string \<Rightarrow> bool \<times> bytes" where
  "hex_chars_to_uint8 value_str = hex_chars_to_uint8_loop value_str False []"

text \<open>The eight bytes of the number are filled from the most significant one; \<open>None\<close> is reading behind the string.\<close>

fun hex_chars_to_uint64_loop :: "string \<Rightarrow> nat list \<Rightarrow> u64 \<Rightarrow> (bool \<times> u64) option" where
  "hex_chars_to_uint64_loop s [] v = Some (True, v)"
| "hex_chars_to_uint64_loop s (i # is) v = do {
     hi \<leftarrow> rd s (i * 2);
     low \<leftarrow> rd s (i * 2 + 1);
     (case hex_char_to_uint8 hi low of
        Some x \<Rightarrow> hex_chars_to_uint64_loop s is
          (v AND NOT (push_bit (8 * (7 - i)) 0xff) OR push_bit (8 * (7 - i)) (ucast x))
      | None \<Rightarrow> Some (False, v))
   }"

definition hex_chars_to_uint64 :: "string \<Rightarrow> u64 \<Rightarrow> (bool \<times> u64) option" where
  "hex_chars_to_uint64 value_str value = hex_chars_to_uint64_loop value_str [0..<8] value"

definition hex_chars :: string where
  "hex_chars = ''0123456789ABCDEF''"

definition uint8_to_hex_chars :: "bytes \<Rightarrow> nat \<Rightarrow> string option" where
  "uint8_to_hex_chars src len = ofold (\<lambda>i target. do {
       x \<leftarrow> rd src (i div 2);
       Some (hex_chars ! unat (drop_bit ((1 - i mod 2) * 4) x AND 0xF) # target)
     }) (rev [0..<len]) []"

subsection \<open>Facts\<close>

lemma nibble_cases: "(n :: u8) AND 0xF \<in> set (map of_nat [0..<16])"
proof -
  have "n AND 0xF = of_nat (unat (n AND 0xF))" by simp
  moreover have "unat (n AND 0xF) < 16"
    using word_and_le1 [of n "0xF"] by (simp add: word_le_nat_alt)
  ultimately show ?thesis by (metis atLeastLessThan_iff image_eqI le0 list.set_map set_upt)
qed

definition hex_digit :: "u8 \<Rightarrow> char" where
  "hex_digit n = hex_chars ! unat n"

lemma nibble_digit: "hex_char_to_hex_nibble (hex_digit (n AND 0xF)) = Some (n AND 0xF)"
proof -
  have "\<forall>m \<in> set (map of_nat [0..<16]). hex_char_to_hex_nibble (hex_digit (m :: u8)) = Some m" by code_simp
  then show ?thesis using nibble_cases by blast
qed

lemma hex_pair: "hex_char_to_uint8 (hex_digit (drop_bit 4 x AND 0xF)) (hex_digit (x AND 0xF)) = Some x"
proof -
  have m: "(0xF :: u8) = mask 4" by (simp add: mask_eq_exp_minus_1)
  have "push_bit 4 (drop_bit 4 x AND 0xF) OR (x AND 0xF) = x"
    unfolding m by (rule bit_word_eqI) (auto simp: bit_simps)
  then show ?thesis by (simp add: hex_char_to_uint8_def nibble_digit)
qed

end
