(* ===== verification/Mf_Classic.thy ===== *)
theory Mf_Classic
  imports Iso14443_3a Bit_Lib Toolbox_Hex
begin

text \<open>
  The data of a Mifare Classic card (firmware/lib/nfc/protocols/mf\_classic/mf\_classic.c): sectors and
  blocks, value blocks, known keys and blocks, access conditions, and the text of a block in a file.
  A block is the list of its 16 bytes, a sector trailer is a block: key A in the bytes 0 to 5, access bits
  in 6 to 9, key B in 10 to 15. A pointer to the trailer of a sector is the number of its block.
\<close>

subsection \<open>Types\<close>

datatype MfClassicError =
  MfClassicErrorNone | MfClassicErrorNotPresent | MfClassicErrorProtocol | MfClassicErrorAuth |
  MfClassicErrorPartialRead | MfClassicErrorTimeout

datatype MfClassicType = MfClassicTypeMini | MfClassicType1k | MfClassicType4k | MfClassicType2k

datatype MfClassicAction =
  MfClassicActionDataRead | MfClassicActionDataWrite | MfClassicActionDataInc | MfClassicActionDataDec |
  MfClassicActionKeyARead | MfClassicActionKeyAWrite | MfClassicActionKeyBRead | MfClassicActionKeyBWrite |
  MfClassicActionACRead | MfClassicActionACWrite

datatype MfClassicValueCommand =
  MfClassicValueCommandIncrement | MfClassicValueCommandDecrement | MfClassicValueCommandRestore |
  MfClassicValueCommandInvalid

datatype MfClassicKeyType = MfClassicKeyTypeA | MfClassicKeyTypeB

datatype NfcDeviceNameType = NfcDeviceNameTypeFull | NfcDeviceNameTypeShort

record MfClassicAuthContext =
  ac_block_num :: u8
  ac_key :: bytes
  ac_key_type :: MfClassicKeyType
  ac_nt :: bytes
  ac_nr :: bytes
  ac_ar :: bytes
  ac_at :: bytes

record MfClassicData =
  mfc_iso14443_3a_data :: Iso14443_3aData
  mfc_type :: MfClassicType
  block_read_mask :: "u32 list"
  key_a_mask :: u64
  key_b_mask :: u64
  mfc_block :: "bytes list"

record MfClassicFeatures =
  sectors_total :: u8
  blocks_total :: u16
  full_name :: string
  type_name :: string

definition mf_classic_features :: "MfClassicType \<Rightarrow> MfClassicFeatures" where
  "mf_classic_features type = (case type of
     MfClassicTypeMini \<Rightarrow> \<lparr>sectors_total = 5, blocks_total = 20, full_name = ''Mifare Mini 0.3K'', type_name = ''MINI''\<rparr>
   | MfClassicType1k \<Rightarrow> \<lparr>sectors_total = 16, blocks_total = 64, full_name = ''Mifare Classic 1K'', type_name = ''1K''\<rparr>
   | MfClassicType4k \<Rightarrow> \<lparr>sectors_total = 40, blocks_total = 256, full_name = ''Mifare Classic 4K'', type_name = ''4K''\<rparr>
   | MfClassicType2k \<Rightarrow> \<lparr>sectors_total = 32, blocks_total = 128, full_name = ''Mifare Plus 2K (SL1)'', type_name = ''2K''\<rparr>)"

subsection \<open>Sectors and blocks\<close>

definition mf_classic_get_total_sectors_num :: "MfClassicType \<Rightarrow> u8" where
  "mf_classic_get_total_sectors_num type = sectors_total (mf_classic_features type)"

definition mf_classic_get_total_block_num :: "MfClassicType \<Rightarrow> u16" where
  "mf_classic_get_total_block_num type = blocks_total (mf_classic_features type)"

definition mf_classic_get_sector_trailer_num_by_sector :: "u8 \<Rightarrow> u8 option" where
  "mf_classic_get_sector_trailer_num_by_sector sector =
     (if sector < 32 then Some (sector * 4 + 3)
      else if sector < 40 then Some (32 * 4 + (sector - 32) * 16 + 15)
      else None)"

definition mf_classic_get_sector_trailer_num_by_block :: "u8 \<Rightarrow> u8" where
  "mf_classic_get_sector_trailer_num_by_block block = (if block < 128 then block OR 0x03 else block OR 0x0f)"

definition mf_classic_get_sector_trailer_by_sector :: "MfClassicData \<Rightarrow> u8 \<Rightarrow> nat option" where
  "mf_classic_get_sector_trailer_by_sector data sector_num = do {
     sec_tr_block \<leftarrow> mf_classic_get_sector_trailer_num_by_sector sector_num;
     Some (unat sec_tr_block)
   }"

definition mf_classic_is_sector_trailer :: "u8 \<Rightarrow> bool" where
  "mf_classic_is_sector_trailer block \<longleftrightarrow> block = mf_classic_get_sector_trailer_num_by_block block"

definition mf_classic_get_sector_by_block :: "u8 \<Rightarrow> u8" where
  "mf_classic_get_sector_by_block block =
     (if block < 128 then (block OR 0x03) div 4 else 32 + ((block OR 0x0f) - 32 * 4) div 16)"

definition mf_classic_get_first_block_num_of_sector :: "u8 \<Rightarrow> u8 option" where
  "mf_classic_get_first_block_num_of_sector sector = do {
     furi_check (sector < 40);
     Some (if sector < 32 then sector * 4 else 32 * 4 + (sector - 32) * 16)
   }"

definition mf_classic_get_blocks_num_in_sector :: "u8 \<Rightarrow> u8 option" where
  "mf_classic_get_blocks_num_in_sector sector = do {
     furi_check (sector < 40);
     Some (if sector < 32 then 4 else 16)
   }"

subsection \<open>Known keys and blocks\<close>

text \<open>\<open>FURI_BIT\<close>, \<open>FURI_BIT_SET\<close> and \<open>FURI_BIT_CLEAR\<close> on the masks; a shift by the
  width of the mask or more is undefined.\<close>

definition mask_bit :: "'a::len word \<Rightarrow> nat \<Rightarrow> bool option" where
  "mask_bit m n = (if n < LENGTH('a) then Some (drop_bit n m AND 1 = 1) else None)"

definition mask_set :: "'a::len word \<Rightarrow> nat \<Rightarrow> 'a word option" where
  "mask_set m n = (if n < LENGTH('a) then Some (m OR push_bit n 1) else None)"

definition mask_clear :: "'a::len word \<Rightarrow> nat \<Rightarrow> 'a word option" where
  "mask_clear m n = (if n < LENGTH('a) then Some (m AND NOT (push_bit n 1)) else None)"

definition read_mask_set :: "MfClassicData \<Rightarrow> u8 \<Rightarrow> MfClassicData option" where
  "read_mask_set data block_num = do {
     m \<leftarrow> rd (block_read_mask data) (unat block_num div 32);
     m \<leftarrow> mask_set m (unat block_num mod 32);
     masks \<leftarrow> wr (block_read_mask data) (unat block_num div 32) m;
     Some (data\<lparr>block_read_mask := masks\<rparr>)
   }"

definition mf_classic_is_block_read :: "MfClassicData \<Rightarrow> u8 \<Rightarrow> bool option" where
  "mf_classic_is_block_read data block_num = do {
     m \<leftarrow> rd (block_read_mask data) (unat block_num div 32);
     mask_bit m (unat block_num mod 32)
   }"

definition mf_classic_is_key_found :: "MfClassicData \<Rightarrow> u8 \<Rightarrow> MfClassicKeyType \<Rightarrow> bool option" where
  "mf_classic_is_key_found data sector_num key_type = (case key_type of
     MfClassicKeyTypeA \<Rightarrow> mask_bit (key_a_mask data) (unat sector_num)
   | MfClassicKeyTypeB \<Rightarrow> mask_bit (key_b_mask data) (unat sector_num))"

definition update_block :: "MfClassicData \<Rightarrow> nat \<Rightarrow> nat \<Rightarrow> bytes \<Rightarrow> nat \<Rightarrow> nat \<Rightarrow> MfClassicData option" where
  "update_block data n offset src soffset len = do {
     b \<leftarrow> rd (mfc_block data) n;
     b \<leftarrow> memcpy b offset src soffset len;
     blocks \<leftarrow> wr (mfc_block data) n b;
     Some (data\<lparr>mfc_block := blocks\<rparr>)
   }"

definition mf_classic_set_key_found :: "MfClassicData \<Rightarrow> u8 \<Rightarrow> MfClassicKeyType \<Rightarrow> u64 \<Rightarrow> MfClassicData option" where
  "mf_classic_set_key_found data sector_num key_type key = do {
     sec_trailer \<leftarrow> mf_classic_get_sector_trailer_by_sector data sector_num;
     key_arr \<leftarrow> bit_lib_num_to_bytes_be key 6 (replicate 6 0);
     (case key_type of
        MfClassicKeyTypeA \<Rightarrow> do {
          data \<leftarrow> update_block data sec_trailer 0 key_arr 0 6;
          m \<leftarrow> mask_set (key_a_mask data) (unat sector_num);
          Some (data\<lparr>key_a_mask := m\<rparr>)
        }
      | MfClassicKeyTypeB \<Rightarrow> do {
          data \<leftarrow> update_block data sec_trailer 10 key_arr 0 6;
          m \<leftarrow> mask_set (key_b_mask data) (unat sector_num);
          Some (data\<lparr>key_b_mask := m\<rparr>)
        })
   }"

definition mf_classic_set_key_not_found :: "MfClassicData \<Rightarrow> u8 \<Rightarrow> MfClassicKeyType \<Rightarrow> MfClassicData option" where
  "mf_classic_set_key_not_found data sector_num key_type = (case key_type of
     MfClassicKeyTypeA \<Rightarrow> do {
       m \<leftarrow> mask_clear (key_a_mask data) (unat sector_num);
       Some (data\<lparr>key_a_mask := m\<rparr>)
     }
   | MfClassicKeyTypeB \<Rightarrow> do {
       m \<leftarrow> mask_clear (key_b_mask data) (unat sector_num);
       Some (data\<lparr>key_b_mask := m\<rparr>)
     })"

definition mf_classic_get_key :: "MfClassicData \<Rightarrow> u8 \<Rightarrow> MfClassicKeyType \<Rightarrow> bytes option" where
  "mf_classic_get_key data sector_num key_type = do {
     furi_check (sector_num < mf_classic_get_total_sectors_num (mfc_type data));
     sector_trailer \<leftarrow> mf_classic_get_sector_trailer_by_sector data sector_num;
     b \<leftarrow> rd (mfc_block data) sector_trailer;
     Some (case key_type of MfClassicKeyTypeA \<Rightarrow> take 6 b | MfClassicKeyTypeB \<Rightarrow> take 6 (drop 10 b))
   }"

definition mf_classic_set_block_read :: "MfClassicData \<Rightarrow> u8 \<Rightarrow> bytes \<Rightarrow> MfClassicData option" where
  "mf_classic_set_block_read data block_num block_data = do {
     data \<leftarrow> (if mf_classic_is_sector_trailer block_num
              then update_block data (unat block_num) 6 block_data 6 4
              else update_block data (unat block_num) 0 block_data 0 16);
     read_mask_set data block_num
   }"

definition mf_classic_set_sector_trailer_read :: "MfClassicData \<Rightarrow> u8 \<Rightarrow> bytes \<Rightarrow> MfClassicData option" where
  "mf_classic_set_sector_trailer_read data block_num sec_tr = do {
     furi_check (mf_classic_is_sector_trailer block_num);
     let sector_num = mf_classic_get_sector_by_block block_num;
     sec_trailer \<leftarrow> mf_classic_get_sector_trailer_by_sector data sector_num;
     data \<leftarrow> update_block data sec_trailer 0 sec_tr 0 16;
     data \<leftarrow> read_mask_set data block_num;
     a \<leftarrow> mask_set (key_a_mask data) (unat sector_num);
     b \<leftarrow> mask_set (key_b_mask data) (unat sector_num);
     Some (data\<lparr>key_a_mask := a, key_b_mask := b\<rparr>)
   }"

fun blocks_read_loop :: "MfClassicData \<Rightarrow> nat list \<Rightarrow> bool \<Rightarrow> bool option" where
  "blocks_read_loop data [] blocks_read = Some blocks_read"
| "blocks_read_loop data (j # js) blocks_read = do {
     blocks_read \<leftarrow> mf_classic_is_block_read data (of_nat j);
     if \<not> blocks_read then Some blocks_read else blocks_read_loop data js blocks_read
   }"

definition sector_blocks :: "u8 \<Rightarrow> nat list option" where
  "sector_blocks sector_num = do {
     first_block \<leftarrow> mf_classic_get_first_block_num_of_sector sector_num;
     total_blocks_in_sec \<leftarrow> mf_classic_get_blocks_num_in_sector sector_num;
     Some [unat first_block..<unat first_block + unat total_blocks_in_sec]
   }"

definition mf_classic_get_read_sectors_and_keys :: "MfClassicData \<Rightarrow> (u8 \<times> u8) option" where
  "mf_classic_get_read_sectors_and_keys data =
     ofold (\<lambda>i (sectors_read, keys_found). do {
       a \<leftarrow> mf_classic_is_key_found data (of_nat i) MfClassicKeyTypeA;
       b \<leftarrow> mf_classic_is_key_found data (of_nat i) MfClassicKeyTypeB;
       blocks \<leftarrow> sector_blocks (of_nat i);
       blocks_read \<leftarrow> blocks_read_loop data blocks True;
       Some (sectors_read + of_bool blocks_read, keys_found + of_bool a + of_bool b)
     }) [0..<unat (mf_classic_get_total_sectors_num (mfc_type data))] (0, 0)"

definition mf_classic_is_card_read :: "MfClassicData \<Rightarrow> bool option" where
  "mf_classic_is_card_read data = do {
     let sectors_total = mf_classic_get_total_sectors_num (mfc_type data);
     (sectors_read, keys_found) \<leftarrow> mf_classic_get_read_sectors_and_keys data;
     Some (sectors_read = sectors_total \<and> unat keys_found = unat sectors_total * 2)
   }"

definition mf_classic_is_sector_read :: "MfClassicData \<Rightarrow> u8 \<Rightarrow> bool option" where
  "mf_classic_is_sector_read data sector_num = do {
     a \<leftarrow> mf_classic_is_key_found data sector_num MfClassicKeyTypeA;
     if \<not> a then Some False
     else do {
       b \<leftarrow> mf_classic_is_key_found data sector_num MfClassicKeyTypeB;
       if \<not> b then Some False
       else do {
         blocks \<leftarrow> sector_blocks sector_num;
         blocks_read_loop data blocks True
       }
     }
   }"

subsection \<open>The whole card\<close>

definition mf_classic_alloc :: MfClassicData where
  "mf_classic_alloc = \<lparr>mfc_iso14443_3a_data = iso14443_3a_alloc, mfc_type = MfClassicTypeMini,
     block_read_mask = replicate 8 0, key_a_mask = 0, key_b_mask = 0, mfc_block = replicate 256 (replicate 16 0)\<rparr>"

definition mf_classic_reset :: "MfClassicData \<Rightarrow> MfClassicData" where
  "mf_classic_reset data = data\<lparr>mfc_iso14443_3a_data := iso14443_3a_reset (mfc_iso14443_3a_data data)\<rparr>"

definition mf_classic_copy :: "MfClassicData \<Rightarrow> MfClassicData \<Rightarrow> MfClassicData option" where
  "mf_classic_copy data other = do {
     let data = data\<lparr>mfc_iso14443_3a_data := iso14443_3a_copy (mfc_iso14443_3a_data data) (mfc_iso14443_3a_data other)\<rparr>;
     blocks \<leftarrow> ofold (\<lambda>i blocks. do { b \<leftarrow> rd (mfc_block other) i; wr blocks i b }) [0..<256] (mfc_block data);
     masks \<leftarrow> ofold (\<lambda>i masks. do { m \<leftarrow> rd (block_read_mask other) i; wr masks i m }) [0..<8] (block_read_mask data);
     Some (data\<lparr>mfc_block := blocks, block_read_mask := masks, mfc_type := mfc_type other,
       key_a_mask := key_a_mask other, key_b_mask := key_b_mask other\<rparr>)
   }"

definition mf_classic_verify :: "string \<Rightarrow> bool" where
  "mf_classic_verify device_type \<longleftrightarrow> device_type = ''Mifare Classic''"

definition mf_classic_is_equal :: "MfClassicData \<Rightarrow> MfClassicData \<Rightarrow> bool" where
  "mf_classic_is_equal data other \<longleftrightarrow>
     iso14443_3a_is_equal (mfc_iso14443_3a_data data) (mfc_iso14443_3a_data other) \<and>
     mfc_type data = mfc_type other \<and> key_a_mask data = key_a_mask other \<and> key_b_mask data = key_b_mask other \<and>
     (\<forall>i \<in> {0..<8}. block_read_mask data ! i = block_read_mask other ! i) \<and>
     (\<forall>i \<in> {0..<256}. mfc_block data ! i = mfc_block other ! i)"

definition mf_classic_get_device_name :: "MfClassicData \<Rightarrow> NfcDeviceNameType \<Rightarrow> string" where
  "mf_classic_get_device_name data name_type =
     (if name_type = NfcDeviceNameTypeFull then full_name (mf_classic_features (mfc_type data))
      else type_name (mf_classic_features (mfc_type data)))"

definition mf_classic_get_uid :: "MfClassicData \<Rightarrow> bytes \<times> nat" where
  "mf_classic_get_uid data = iso14443_3a_get_uid (mfc_iso14443_3a_data data)"

definition mf_classic_get_base_data :: "MfClassicData \<Rightarrow> Iso14443_3aData" where
  "mf_classic_get_base_data data = mfc_iso14443_3a_data data"

definition mf_classic_set_uid :: "MfClassicData \<Rightarrow> bytes \<Rightarrow> nat \<Rightarrow> (bool \<times> MfClassicData) option" where
  "mf_classic_set_uid data uid uid_len = do {
     (uid_valid, iso) \<leftarrow> iso14443_3a_set_uid (mfc_iso14443_3a_data data) uid uid_len;
     let data = data\<lparr>mfc_iso14443_3a_data := iso\<rparr>;
     if \<not> uid_valid then Some (uid_valid, data)
     else do {
       data \<leftarrow> update_block data 0 0 (i3_uid iso) 0 uid_len;
       if uid_len \<noteq> 4 then Some (uid_valid, data)
       else do {
         block \<leftarrow> rd (mfc_block data) 0;
         block \<leftarrow> wr block uid_len 0;
         block \<leftarrow> ofold (\<lambda>i block. do {
             x \<leftarrow> rd block uid_len; y \<leftarrow> rd block i; wr block uid_len (x XOR y) }) [0..<uid_len] block;
         blocks \<leftarrow> wr (mfc_block data) 0 block;
         Some (uid_valid, data\<lparr>mfc_block := blocks\<rparr>)
       }
     }
   }"

subsection \<open>Value blocks\<close>

text \<open>Words in a block are little endian.\<close>

definition block_word :: "bytes \<Rightarrow> nat \<Rightarrow> u32" where
  "block_word b i = ucast (b ! i) OR push_bit 8 (ucast (b ! (i + 1))) OR push_bit 16 (ucast (b ! (i + 2))) OR
     push_bit 24 (ucast (b ! (i + 3)))"

definition word_bytes :: "u32 \<Rightarrow> bytes" where
  "word_bytes v = [ucast v, ucast (drop_bit 8 v), ucast (drop_bit 16 v), ucast (drop_bit 24 v)]"

text \<open>The result is the verdict, the value and the address. A value is the 32-bit word of the signed number.\<close>

definition mf_classic_block_to_value :: "bytes \<Rightarrow> bool \<times> u32 \<times> u8" where
  "mf_classic_block_to_value block =
     (let v = block_word block 0; v_inv = block_word block 4; v1 = block_word block 8;
          val_checks = (v = v1 \<and> v = NOT v_inv \<and> block ! 12 = NOT (block ! 13) AND 0xFF \<and>
            block ! 14 = NOT (block ! 15) AND 0xFF \<and> block ! 12 = block ! 14)
      in (val_checks, v, block ! 12))"

definition mf_classic_value_to_block :: "u32 \<Rightarrow> u8 \<Rightarrow> bytes" where
  "mf_classic_value_to_block value addr =
     (let v_inv = NOT value
      in word_bytes value @ word_bytes v_inv @ word_bytes value @ [addr, NOT addr AND 0xFF, addr, NOT addr AND 0xFF])"

subsection \<open>Access conditions\<close>

definition sector_trailer_access :: "bytes \<Rightarrow> MfClassicKeyType \<Rightarrow> MfClassicAction \<Rightarrow> bool" where
  "sector_trailer_access sec_tr key_type action =
     (let access_bits_arr = take 4 (drop 6 sec_tr);
          AC = (drop_bit 5 (access_bits_arr ! 1) AND 0x04) OR (drop_bit 2 (access_bits_arr ! 2) AND 0x02) OR
            (drop_bit 7 (access_bits_arr ! 2) AND 0x01)
      in case action of
           MfClassicActionKeyARead \<Rightarrow> False
         | MfClassicActionKeyAWrite \<Rightarrow> key_type = MfClassicKeyTypeA \<and> (AC = 0 \<or> AC = 1) \<or>
             key_type = MfClassicKeyTypeB \<and> (AC = 0 \<or> AC = 4 \<or> AC = 3 \<or> AC = 1)
         | MfClassicActionKeyBWrite \<Rightarrow> key_type = MfClassicKeyTypeA \<and> (AC = 0 \<or> AC = 1) \<or>
             key_type = MfClassicKeyTypeB \<and> (AC = 0 \<or> AC = 4 \<or> AC = 3 \<or> AC = 1)
         | MfClassicActionKeyBRead \<Rightarrow> key_type = MfClassicKeyTypeA \<and> (AC = 0 \<or> AC = 2 \<or> AC = 1) \<or>
             key_type = MfClassicKeyTypeB \<and> (AC = 0 \<or> AC = 2 \<or> AC = 1)
         | MfClassicActionACRead \<Rightarrow> key_type = MfClassicKeyTypeA \<or> key_type = MfClassicKeyTypeB
         | MfClassicActionACWrite \<Rightarrow> key_type = MfClassicKeyTypeA \<and> AC = 1 \<or>
             key_type = MfClassicKeyTypeB \<and> (AC = 1 \<or> AC = 3 \<or> AC = 5)
         | _ \<Rightarrow> False)"

definition mf_classic_is_allowed_access_sector_trailer ::
    "MfClassicData \<Rightarrow> u8 \<Rightarrow> MfClassicKeyType \<Rightarrow> MfClassicAction \<Rightarrow> bool option" where
  "mf_classic_is_allowed_access_sector_trailer data block_num key_type action = do {
     let sector_num = mf_classic_get_sector_by_block block_num;
     sec_tr \<leftarrow> mf_classic_get_sector_trailer_by_sector data sector_num;
     b \<leftarrow> rd (mfc_block data) sec_tr;
     Some (sector_trailer_access b key_type action)
   }"

definition mf_classic_is_allowed_access_data_block ::
    "bytes \<Rightarrow> u8 \<Rightarrow> MfClassicKeyType \<Rightarrow> MfClassicAction \<Rightarrow> bool" where
  "mf_classic_is_allowed_access_data_block sec_tr block_num key_type action =
     (let access_bits_arr = take 4 (drop 6 sec_tr)
      in if block_num = 0 \<and> action = MfClassicActionDataWrite then False
      else
        let sector_block = (if block_num \<le> 128 then block_num AND 0x03 else (block_num AND 0x0f) div 5)
        in if sector_block > 2 then False
        else
          let AC = (if sector_block = 0 then
                (drop_bit 2 (access_bits_arr ! 1) AND 0x04) OR (push_bit 1 (access_bits_arr ! 2) AND 0x02) OR
                (drop_bit 4 (access_bits_arr ! 2) AND 0x01)
              else if sector_block = 1 then
                (drop_bit 3 (access_bits_arr ! 1) AND 0x04) OR (access_bits_arr ! 2 AND 0x02) OR
                (drop_bit 5 (access_bits_arr ! 2) AND 0x01)
              else
                (drop_bit 4 (access_bits_arr ! 1) AND 0x04) OR (drop_bit 1 (access_bits_arr ! 2) AND 0x02) OR
                (drop_bit 6 (access_bits_arr ! 2) AND 0x01))
          in case action of
               MfClassicActionDataRead \<Rightarrow> key_type = MfClassicKeyTypeA \<and> \<not> (AC = 3 \<or> AC = 5 \<or> AC = 7) \<or>
                 key_type = MfClassicKeyTypeB \<and> AC \<noteq> 7
             | MfClassicActionDataWrite \<Rightarrow> key_type = MfClassicKeyTypeA \<and> AC = 0 \<or>
                 key_type = MfClassicKeyTypeB \<and> (AC = 0 \<or> AC = 4 \<or> AC = 6 \<or> AC = 3)
             | MfClassicActionDataInc \<Rightarrow> key_type = MfClassicKeyTypeA \<and> AC = 0 \<or>
                 key_type = MfClassicKeyTypeB \<and> (AC = 0 \<or> AC = 6)
             | MfClassicActionDataDec \<Rightarrow> key_type = MfClassicKeyTypeA \<and> (AC = 0 \<or> AC = 6 \<or> AC = 1) \<or>
                 key_type = MfClassicKeyTypeB \<and> (AC = 0 \<or> AC = 6 \<or> AC = 1)
             | _ \<Rightarrow> False)"

definition mf_classic_is_allowed_access ::
    "MfClassicData \<Rightarrow> u8 \<Rightarrow> MfClassicKeyType \<Rightarrow> MfClassicAction \<Rightarrow> bool option" where
  "mf_classic_is_allowed_access data block_num key_type action =
     (if mf_classic_is_sector_trailer block_num
      then mf_classic_is_allowed_access_sector_trailer data block_num key_type action
      else do {
        let sector_num = mf_classic_get_sector_by_block block_num;
        sec_tr \<leftarrow> mf_classic_get_sector_trailer_by_sector data sector_num;
        b \<leftarrow> rd (mfc_block data) sec_tr;
        Some (mf_classic_is_allowed_access_data_block b block_num key_type action)
      })"

definition mf_classic_is_value_block :: "bytes \<Rightarrow> u8 \<Rightarrow> bool" where
  "mf_classic_is_value_block sec_tr block_num \<longleftrightarrow>
     \<not> mf_classic_is_allowed_access_data_block sec_tr block_num MfClassicKeyTypeA MfClassicActionDataWrite \<and>
     (mf_classic_is_allowed_access_data_block sec_tr block_num MfClassicKeyTypeB MfClassicActionDataInc \<or>
      mf_classic_is_allowed_access_data_block sec_tr block_num MfClassicKeyTypeB MfClassicActionDataDec)"

subsection \<open>The text of a block\<close>

text \<open>\<open>furi_string_trim\<close> removes blanks, line feeds and carriage returns and tabs at both ends;
  \<open>furi_string_get_char\<close> needs an index inside the string.\<close>

definition furi_string_trim :: "string \<Rightarrow> string" where
  "furi_string_trim s =
     (let blank = (\<lambda>c. c \<in> set [CHR '' '', CHR 0x0A, CHR 0x0D, CHR 0x09])
      in rev (dropWhile blank (rev (dropWhile blank s))))"

definition printf_02X :: "u8 \<Rightarrow> string" where
  "printf_02X x = [hex_chars ! unat (drop_bit 4 x), hex_chars ! unat (x AND 0xF)]"

definition mf_classic_set_block_str :: "MfClassicData \<Rightarrow> u8 \<Rightarrow> string option" where
  "mf_classic_set_block_str data block_num = do {
     block_str \<leftarrow> (if mf_classic_is_sector_trailer block_num then do {
         let sector_num = mf_classic_get_sector_by_block block_num;
         n \<leftarrow> mf_classic_get_sector_trailer_by_sector data sector_num;
         sec_tr \<leftarrow> rd (mfc_block data) n;
         str \<leftarrow> ofold (\<lambda>i str. do {
             found \<leftarrow> mf_classic_is_key_found data sector_num MfClassicKeyTypeA;
             Some (str @ (if found then printf_02X (sec_tr ! i) @ '' '' else ''?? ''))
           }) [0..<6] [];
         str \<leftarrow> ofold (\<lambda>i str. do {
             is_read \<leftarrow> mf_classic_is_block_read data block_num;
             Some (str @ (if is_read then printf_02X (sec_tr ! (6 + i)) @ '' '' else ''?? ''))
           }) [0..<4] str;
         ofold (\<lambda>i str. do {
             found \<leftarrow> mf_classic_is_key_found data sector_num MfClassicKeyTypeB;
             Some (str @ (if found then printf_02X (sec_tr ! (10 + i)) @ '' '' else ''?? ''))
           }) [0..<6] str
       } else do {
         block \<leftarrow> rd (mfc_block data) (unat block_num);
         ofold (\<lambda>i str. do {
             is_read \<leftarrow> mf_classic_is_block_read data block_num;
             Some (str @ (if is_read then printf_02X (block ! i) @ '' '' else ''?? ''))
           }) [0..<16] []
       });
     Some (furi_string_trim block_str)
   }"

text \<open>The bytes of the line and the mask of the unknown ones.\<close>

definition parse_block_bytes :: "string \<Rightarrow> (bytes \<times> u16) option" where
  "parse_block_bytes block_str = ofold (\<lambda>i (block_tmp, unknown). do {
       hi \<leftarrow> rd block_str (3 * i);
       low \<leftarrow> rd block_str (3 * i + 1);
       (case hex_char_to_uint8 hi low of
          Some byte \<Rightarrow> do { block_tmp \<leftarrow> wr block_tmp i byte; Some (block_tmp, unknown) }
        | None \<Rightarrow> do { unknown \<leftarrow> mask_set unknown i; Some (block_tmp, unknown) })
     }) [0..<16] (replicate 16 0, 0)"

definition mf_classic_parse_block :: "string \<Rightarrow> MfClassicData \<Rightarrow> u8 \<Rightarrow> MfClassicData option" where
  "mf_classic_parse_block block_str data block_num = do {
     let block_str = furi_string_trim (furi_string_trim block_str);
     let is_sector_trailer = mf_classic_is_sector_trailer block_num;
     let sector_num = mf_classic_get_sector_by_block block_num;
     (block_tmp, unknown) \<leftarrow> parse_block_bytes block_str;
     if unknown = 0xffff then Some data
     else if is_sector_trailer then do {
       data \<leftarrow> (if unknown AND 0x003f = 0 then do {
           key \<leftarrow> bit_lib_bytes_to_num_be (take 6 block_tmp) 6;
           mf_classic_set_key_found data sector_num MfClassicKeyTypeA key
         } else Some data);
       data \<leftarrow> (if unknown AND 0x03c0 = 0 then mf_classic_set_block_read data block_num block_tmp else Some data);
       if unknown AND 0xfc00 = 0 then do {
         key \<leftarrow> bit_lib_bytes_to_num_be (take 6 (drop 10 block_tmp)) 6;
         mf_classic_set_key_found data sector_num MfClassicKeyTypeB key
       } else Some data
     }
     else if unknown = 0 then mf_classic_set_block_read data block_num block_tmp
     else Some data
   }"

text \<open>The loops over the blocks of saving and of loading; the lines stand in the order of the blocks.\<close>

definition mf_classic_save_blocks :: "MfClassicData \<Rightarrow> string list option" where
  "mf_classic_save_blocks data = ofold (\<lambda>i lines. do {
       block_str \<leftarrow> mf_classic_set_block_str data (of_nat i);
       Some (lines @ [block_str])
     }) [0..<unat (mf_classic_get_total_block_num (mfc_type data))] []"

definition mf_classic_load_blocks :: "MfClassicData \<Rightarrow> string list \<Rightarrow> (bool \<times> MfClassicData) option" where
  "mf_classic_load_blocks data lines = ofold (\<lambda>i (block_read, data).
       if \<not> block_read \<or> length lines \<le> i then Some (False, data)
       else do { data \<leftarrow> mf_classic_parse_block (lines ! i) data (of_nat i); Some (True, data) })
     [0..<unat (mf_classic_get_total_block_num (mfc_type data))] (True, data)"

end
