(* ===== verification/Mf_Classic_Listener.thy ===== *)
theory Mf_Classic_Listener
  imports Mf_Classic Crypto1
begin

text \<open>
  The Mifare Classic card that the firmware emulates (firmware/lib/nfc/protocols/mf\_classic/mf\_classic\_listener.c).
  One call of \<open>mf_classic_listener_run\<close> handles one event of the ISO 14443-3 A listener. The bytes that
  the random number generator would deliver in this call are an argument. The frames given to the ISO 14443-3 A
  listener for transmission and the events given to the callback of the application are recorded in the state.
\<close>

subsection \<open>State\<close>

datatype MfClassicListenerCommand =
  MfClassicListenerCommandProcessed | MfClassicListenerCommandAck | MfClassicListenerCommandNack |
  MfClassicListenerCommandSilent | MfClassicListenerCommandSleep

datatype MfClassicListenerState = MfClassicListenerStateIdle | MfClassicListenerStateAuthComplete

datatype MfClassicListenerCommState = MfClassicListenerCommStatePlain | MfClassicListenerCommStateEncrypted

datatype MfClassicListenerEvent =
  MfClassicListenerEventTypeAuthContextPartCollected MfClassicAuthContext |
  MfClassicListenerEventTypeAuthContextFullCollected MfClassicAuthContext

datatype listener_tx = iso14443_3a_listener_tx bit_buffer | iso14443_3a_listener_tx_with_custom_parity bit_buffer

record MfClassicListener =
  ml_sent :: "listener_tx list"
  ml_events :: "MfClassicListenerEvent list"
  ml_state :: MfClassicListenerState
  ml_comm_state :: MfClassicListenerCommState
  ml_data :: MfClassicData
  ml_tx_plain_buffer :: bit_buffer
  ml_tx_encrypted_buffer :: bit_buffer
  ml_rx_plain_buffer :: bit_buffer
  ml_crypto :: Crypto1
  ml_auth_context :: MfClassicAuthContext
  write_block :: u8
  transfer_value :: u32
  transfer_valid :: bool
  value_cmd :: MfClassicValueCommand
  cmd_in_progress :: bool
  current_cmd_idx :: nat
  current_cmd_handler_idx :: nat
  total_block_num :: nat

definition no_auth_context :: MfClassicAuthContext where
  "no_auth_context = \<lparr>ac_block_num = 0, ac_key = replicate 6 0, ac_key_type = MfClassicKeyTypeA,
     ac_nt = replicate 4 0, ac_nr = replicate 4 0, ac_ar = replicate 4 0, ac_at = replicate 4 0\<rparr>"

definition mf_classic_listener_prepare_emulation :: "MfClassicListener \<Rightarrow> MfClassicListener" where
  "mf_classic_listener_prepare_emulation l =
     l\<lparr>total_block_num := unat (mf_classic_get_total_block_num (mfc_type (ml_data l)))\<rparr>"

definition mf_classic_listener_reset_state :: "MfClassicListener \<Rightarrow> MfClassicListener" where
  "mf_classic_listener_reset_state l = l\<lparr>
     ml_crypto := crypto1_reset (ml_crypto l),
     ml_auth_context := no_auth_context,
     ml_comm_state := MfClassicListenerCommStatePlain,
     ml_state := MfClassicListenerStateIdle,
     cmd_in_progress := False,
     current_cmd_handler_idx := 0,
     write_block := 0,
     transfer_value := 0,
     transfer_valid := False,
     value_cmd := MfClassicValueCommandInvalid\<rparr>"

text \<open>Memory comes zeroed from \<open>malloc\<close>.\<close>

definition mf_classic_listener_alloc :: "MfClassicData \<Rightarrow> MfClassicListener option" where
  "mf_classic_listener_alloc data = do {
     tx_plain \<leftarrow> bit_buffer_alloc 64;
     tx_encrypted \<leftarrow> bit_buffer_alloc 64;
     rx_plain \<leftarrow> bit_buffer_alloc 64;
     Some (mf_classic_listener_prepare_emulation \<lparr>ml_sent = [], ml_events = [], ml_state = MfClassicListenerStateIdle,
       ml_comm_state = MfClassicListenerCommStatePlain, ml_data = data, ml_tx_plain_buffer = tx_plain,
       ml_tx_encrypted_buffer = tx_encrypted, ml_rx_plain_buffer = rx_plain, ml_crypto = \<lparr>c1_odd = 0, c1_even = 0\<rparr>,
       ml_auth_context = no_auth_context, write_block = 0, transfer_value = 0, transfer_valid = False,
       value_cmd = MfClassicValueCommandIncrement, cmd_in_progress = False, current_cmd_idx = 0,
       current_cmd_handler_idx = 0, total_block_num = 0\<rparr>)
   }"

definition send_frame :: "listener_tx \<Rightarrow> MfClassicListener \<Rightarrow> MfClassicListener" where
  "send_frame f l = l\<lparr>ml_sent := ml_sent l @ [f]\<rparr>"

definition notify :: "(MfClassicAuthContext \<Rightarrow> MfClassicListenerEvent) \<Rightarrow> MfClassicListener \<Rightarrow> MfClassicListener" where
  "notify e l = l\<lparr>ml_events := ml_events l @ [e (ml_auth_context l)]\<rparr>"

definition next_handler :: "MfClassicListener \<Rightarrow> MfClassicListener" where
  "next_handler l = l\<lparr>cmd_in_progress := True, current_cmd_handler_idx := current_cmd_handler_idx l + 1\<rparr>"

text \<open>Encrypt the plain buffer and send it.\<close>

definition send_encrypted :: "bytes option \<Rightarrow> MfClassicListener \<Rightarrow> MfClassicListener option" where
  "send_encrypted keystream l = do {
     (c, tx) \<leftarrow> crypto1_encrypt (ml_crypto l) keystream (ml_tx_plain_buffer l) (ml_tx_encrypted_buffer l);
     Some (send_frame (iso14443_3a_listener_tx_with_custom_parity tx) (l\<lparr>ml_crypto := c, ml_tx_encrypted_buffer := tx\<rparr>))
   }"

subsection \<open>Authentication\<close>

definition mf_classic_listener_halt_handler ::
    "bytes \<Rightarrow> bit_buffer \<Rightarrow> MfClassicListener \<Rightarrow> (MfClassicListenerCommand \<times> MfClassicListener) option" where
  "mf_classic_listener_halt_handler random buff l = do {
     b \<leftarrow> bit_buffer_get_byte buff 1;
     Some (if b = 0x00 then MfClassicListenerCommandSleep else MfClassicListenerCommandNack, l)
   }"

definition mf_classic_listener_auth_first_part_handler ::
    "bytes \<Rightarrow> MfClassicListener \<Rightarrow> MfClassicKeyType \<Rightarrow> u8 \<Rightarrow> (MfClassicListenerCommand \<times> MfClassicListener) option" where
  "mf_classic_listener_auth_first_part_handler random l key_type block_num = do {
     let l = l\<lparr>ml_state := MfClassicListenerStateIdle\<rparr>;
     if total_block_num l \<le> unat block_num then Some (MfClassicListenerCommandNack, l)
     else do {
       let sector_num = mf_classic_get_sector_by_block block_num;
       n \<leftarrow> mf_classic_get_sector_trailer_by_sector (ml_data l) sector_num;
       sec_tr \<leftarrow> rd (mfc_block (ml_data l)) n;
       key_num \<leftarrow> bit_lib_bytes_to_num_be
         (case key_type of MfClassicKeyTypeA \<Rightarrow> take 6 sec_tr | MfClassicKeyTypeB \<Rightarrow> take 6 (drop 10 sec_tr)) 6;
       cuid \<leftarrow> iso14443_3a_get_cuid (mfc_iso14443_3a_data (ml_data l));
       let l = l\<lparr>ml_auth_context := (ml_auth_context l)\<lparr>ac_key_type := key_type, ac_block_num := block_num, ac_nt := random\<rparr>\<rparr>;
       nt_num \<leftarrow> bit_lib_bytes_to_num_be random 4;
       let nt_num = (ucast nt_num :: u32);
       let crypto = crypto1_init key_num (ml_crypto l);
       l \<leftarrow> (if ml_comm_state l = MfClassicListenerCommStatePlain then do {
           let (_, crypto) = crypto1_word (nt_num XOR cuid) False crypto;
           tx \<leftarrow> bit_buffer_copy_bytes (ml_tx_encrypted_buffer l) random 4;
           Some (send_frame (iso14443_3a_listener_tx tx) (l\<lparr>ml_crypto := crypto, ml_tx_encrypted_buffer := tx\<rparr>))
         } else do {
           key_stream \<leftarrow> bit_lib_num_to_bytes_be (ucast (nt_num XOR cuid)) 4 (replicate 4 0);
           tx \<leftarrow> bit_buffer_copy_bytes (ml_tx_plain_buffer l) random 4;
           send_encrypted (Some key_stream) (l\<lparr>ml_crypto := crypto, ml_tx_plain_buffer := tx\<rparr>)
         });
       Some (MfClassicListenerCommandProcessed, next_handler l)
     }
   }"

definition mf_classic_listener_auth_key_a_handler ::
    "bytes \<Rightarrow> bit_buffer \<Rightarrow> MfClassicListener \<Rightarrow> (MfClassicListenerCommand \<times> MfClassicListener) option" where
  "mf_classic_listener_auth_key_a_handler random buff l = do {
     b \<leftarrow> bit_buffer_get_byte buff 1;
     mf_classic_listener_auth_first_part_handler random l MfClassicKeyTypeA b
   }"

definition mf_classic_listener_auth_key_b_handler ::
    "bytes \<Rightarrow> bit_buffer \<Rightarrow> MfClassicListener \<Rightarrow> (MfClassicListenerCommand \<times> MfClassicListener) option" where
  "mf_classic_listener_auth_key_b_handler random buff l = do {
     b \<leftarrow> bit_buffer_get_byte buff 1;
     mf_classic_listener_auth_first_part_handler random l MfClassicKeyTypeB b
   }"

definition mf_classic_listener_auth_second_part_handler ::
    "bytes \<Rightarrow> bit_buffer \<Rightarrow> MfClassicListener \<Rightarrow> (MfClassicListenerCommand \<times> MfClassicListener) option" where
  "mf_classic_listener_auth_second_part_handler random buff l = do {
     let l = l\<lparr>cmd_in_progress := False\<rparr>;
     if bit_buffer_get_size_bytes buff \<noteq> 4 + 4 then Some (MfClassicListenerCommandSleep, l)
     else do {
       nr \<leftarrow> bit_buffer_write_bytes_mid buff (ac_nr (ml_auth_context l)) 0 4;
       ar \<leftarrow> bit_buffer_write_bytes_mid buff (ac_ar (ml_auth_context l)) 4 4;
       let l = l\<lparr>ml_auth_context := (ml_auth_context l)\<lparr>ac_nr := nr, ac_ar := ar\<rparr>\<rparr>;
       let l = notify MfClassicListenerEventTypeAuthContextPartCollected l;
       nr_num \<leftarrow> bit_lib_bytes_to_num_be nr 4;
       ar_num \<leftarrow> bit_lib_bytes_to_num_be ar 4;
       let (_, crypto) = crypto1_word (ucast nr_num) True (ml_crypto l);
       nt_num \<leftarrow> bit_lib_bytes_to_num_be (ac_nt (ml_auth_context l)) 4;
       let nt_num = (ucast nt_num :: u32);
       let (ks, crypto) = crypto1_word 0 False crypto;
       let secret_poller = ucast ar_num XOR ks;
       let l = l\<lparr>ml_crypto := crypto\<rparr>;
       if secret_poller \<noteq> crypto1_prng_successor nt_num 64 then Some (MfClassicListenerCommandSleep, l)
       else do {
         let at_num = crypto1_prng_successor nt_num 96;
         at \<leftarrow> bit_lib_num_to_bytes_be (ucast at_num) 4 (ac_at (ml_auth_context l));
         tx \<leftarrow> bit_buffer_copy_bytes (ml_tx_plain_buffer l) at 4;
         l \<leftarrow> send_encrypted None
           (l\<lparr>ml_auth_context := (ml_auth_context l)\<lparr>ac_at := at\<rparr>, ml_tx_plain_buffer := tx\<rparr>);
         let l = l\<lparr>ml_state := MfClassicListenerStateAuthComplete, ml_comm_state := MfClassicListenerCommStateEncrypted\<rparr>;
         Some (MfClassicListenerCommandProcessed, notify MfClassicListenerEventTypeAuthContextFullCollected l)
       }
     }
   }"

subsection \<open>Reading and writing\<close>

definition in_auth_sector :: "MfClassicListener \<Rightarrow> u8 \<Rightarrow> bool" where
  "in_auth_sector l block_num \<longleftrightarrow>
     mf_classic_get_sector_by_block block_num = mf_classic_get_sector_by_block (ac_block_num (ml_auth_context l))"

definition allowed :: "MfClassicListener \<Rightarrow> u8 \<Rightarrow> MfClassicAction \<Rightarrow> bool option" where
  "allowed l block_num action =
     mf_classic_is_allowed_access (ml_data l) block_num (ac_key_type (ml_auth_context l)) action"

definition readable_block :: "MfClassicListener \<Rightarrow> u8 \<Rightarrow> bytes \<Rightarrow> bytes option option" where
  "readable_block l block_num access_block =
     (if mf_classic_is_sector_trailer block_num then do {
        a \<leftarrow> allowed l block_num MfClassicActionKeyARead;
        let access_block = (if \<not> a then replicate 6 0 @ drop 6 access_block else access_block);
        b \<leftarrow> allowed l block_num MfClassicActionKeyBRead;
        let access_block = (if \<not> b then take 10 access_block @ replicate 6 0 else access_block);
        c \<leftarrow> allowed l block_num MfClassicActionACRead;
        Some (Some (if \<not> c then take 6 access_block @ replicate 4 0 @ drop 10 access_block else access_block))
      } else do {
        r \<leftarrow> allowed l block_num MfClassicActionDataRead;
        Some (if r then Some access_block else None)
      })"

definition mf_classic_listener_read_block_handler ::
    "bytes \<Rightarrow> bit_buffer \<Rightarrow> MfClassicListener \<Rightarrow> (MfClassicListenerCommand \<times> MfClassicListener) option" where
  "mf_classic_listener_read_block_handler random buff l =
     (if ml_state l \<noteq> MfClassicListenerStateAuthComplete then Some (MfClassicListenerCommandNack, l)
      else do {
        block_num \<leftarrow> bit_buffer_get_byte buff 1;
        if \<not> in_auth_sector l block_num then Some (MfClassicListenerCommandNack, l)
        else do {
          access_block \<leftarrow> rd (mfc_block (ml_data l)) (unat block_num);
          readable \<leftarrow> readable_block l block_num access_block;
          (case readable of
             None \<Rightarrow> Some (MfClassicListenerCommandNack, l)
           | Some b \<Rightarrow> do {
               tx \<leftarrow> bit_buffer_copy_bytes (ml_tx_plain_buffer l) b 16;
               tx \<leftarrow> iso14443_crc_append Iso14443CrcTypeA tx;
               l \<leftarrow> send_encrypted None (l\<lparr>ml_tx_plain_buffer := tx\<rparr>);
               Some (MfClassicListenerCommandProcessed, l)
             })
        }
      })"

definition mf_classic_listener_write_block_first_part_handler ::
    "bytes \<Rightarrow> bit_buffer \<Rightarrow> MfClassicListener \<Rightarrow> (MfClassicListenerCommand \<times> MfClassicListener) option" where
  "mf_classic_listener_write_block_first_part_handler random buff l =
     (if ml_state l \<noteq> MfClassicListenerStateAuthComplete then Some (MfClassicListenerCommandNack, l)
      else do {
        block_num \<leftarrow> bit_buffer_get_byte buff 1;
        if total_block_num l \<le> unat block_num \<or> block_num = 0 \<or> \<not> in_auth_sector l block_num
        then Some (MfClassicListenerCommandNack, l)
        else Some (MfClassicListenerCommandAck, next_handler (l\<lparr>write_block := block_num\<rparr>))
      })"

text \<open>The new contents of the block, or nothing when no part of it may be written.\<close>

definition writable_block :: "MfClassicListener \<Rightarrow> u8 \<Rightarrow> bit_buffer \<Rightarrow> bytes \<Rightarrow> bytes option option" where
  "writable_block l block_num buff block =
     (if mf_classic_is_sector_trailer block_num then do {
        a \<leftarrow> allowed l block_num MfClassicActionKeyAWrite;
        b \<leftarrow> allowed l block_num MfClassicActionKeyBWrite;
        c \<leftarrow> allowed l block_num MfClassicActionACWrite;
        if \<not> a \<and> \<not> b \<and> \<not> c then Some None
        else do {
          block \<leftarrow> (if a then do {
              k \<leftarrow> bit_buffer_write_bytes_mid buff (take 6 block) 0 6;
              Some (k @ drop 6 block) } else Some block);
          block \<leftarrow> (if b then do {
              k \<leftarrow> bit_buffer_write_bytes_mid buff (take 6 (drop 10 block)) 10 6;
              Some (take 10 block @ k) } else Some block);
          block \<leftarrow> (if c then do {
              k \<leftarrow> bit_buffer_write_bytes_mid buff (take 4 (drop 6 block)) 6 4;
              Some (take 6 block @ k @ drop 10 block) } else Some block);
          Some (Some block)
        }
      } else do {
        w \<leftarrow> allowed l block_num MfClassicActionDataWrite;
        if w then do {
          block \<leftarrow> bit_buffer_write_bytes_mid buff block 0 16;
          Some (Some block)
        } else Some None
      })"

definition set_block :: "nat \<Rightarrow> bytes \<Rightarrow> MfClassicListener \<Rightarrow> MfClassicListener option" where
  "set_block n block l = do {
     blocks \<leftarrow> wr (mfc_block (ml_data l)) n block;
     Some (l\<lparr>ml_data := (ml_data l)\<lparr>mfc_block := blocks\<rparr>\<rparr>)
   }"

definition mf_classic_listener_write_block_second_part_handler ::
    "bytes \<Rightarrow> bit_buffer \<Rightarrow> MfClassicListener \<Rightarrow> (MfClassicListenerCommand \<times> MfClassicListener) option" where
  "mf_classic_listener_write_block_second_part_handler random buff l = do {
     let l = l\<lparr>cmd_in_progress := False\<rparr>;
     if bit_buffer_get_size_bytes buff \<noteq> 16 then Some (MfClassicListenerCommandNack, l)
     else do {
       let block_num = write_block l;
       block \<leftarrow> rd (mfc_block (ml_data l)) (unat block_num);
       written \<leftarrow> writable_block l block_num buff block;
       (case written of
          None \<Rightarrow> Some (MfClassicListenerCommandNack, l)
        | Some block \<Rightarrow> do {
            l \<leftarrow> set_block (unat block_num) block l;
            Some (MfClassicListenerCommandAck, l)
          })
     }
   }"

subsection \<open>Values\<close>

definition mf_classic_listener_value_cmd_handler ::
    "bytes \<Rightarrow> bit_buffer \<Rightarrow> MfClassicListener \<Rightarrow> (MfClassicListenerCommand \<times> MfClassicListener) option" where
  "mf_classic_listener_value_cmd_handler random buff l =
     (if ml_state l \<noteq> MfClassicListenerStateAuthComplete then Some (MfClassicListenerCommandNack, l)
      else do {
        block_num \<leftarrow> bit_buffer_get_byte buff 1;
        if total_block_num l \<le> unat block_num \<or> \<not> in_auth_sector l block_num
        then Some (MfClassicListenerCommandNack, l)
        else do {
          cmd \<leftarrow> bit_buffer_get_byte buff 0;
          let action = (if cmd = 0xC1 then MfClassicActionDataInc else MfClassicActionDataDec);
          if cmd \<notin> {0xC0, 0xC1, 0xC2} then Some (MfClassicListenerCommandNack, l)
          else do {
            let l = l\<lparr>value_cmd := (if cmd = 0xC0 then MfClassicValueCommandDecrement
              else if cmd = 0xC1 then MfClassicValueCommandIncrement else MfClassicValueCommandRestore)\<rparr>;
            ok \<leftarrow> allowed l block_num action;
            if \<not> ok then Some (MfClassicListenerCommandNack, l)
            else do {
              block \<leftarrow> rd (mfc_block (ml_data l)) (unat block_num);
              let (valid, value, addr) = mf_classic_block_to_value block;
              let l = l\<lparr>transfer_value := value\<rparr>;
              if \<not> valid then Some (MfClassicListenerCommandNack, l)
              else Some (MfClassicListenerCommandAck, next_handler (l\<lparr>transfer_valid := True\<rparr>))
            }
          }
        }
      })"

definition mf_classic_listener_value_dec_handler ::
    "bytes \<Rightarrow> bit_buffer \<Rightarrow> MfClassicListener \<Rightarrow> (MfClassicListenerCommand \<times> MfClassicListener) option" where
  "mf_classic_listener_value_dec_handler = mf_classic_listener_value_cmd_handler"

definition mf_classic_listener_value_inc_handler ::
    "bytes \<Rightarrow> bit_buffer \<Rightarrow> MfClassicListener \<Rightarrow> (MfClassicListenerCommand \<times> MfClassicListener) option" where
  "mf_classic_listener_value_inc_handler = mf_classic_listener_value_cmd_handler"

definition mf_classic_listener_value_restore_handler ::
    "bytes \<Rightarrow> bit_buffer \<Rightarrow> MfClassicListener \<Rightarrow> (MfClassicListenerCommand \<times> MfClassicListener) option" where
  "mf_classic_listener_value_restore_handler = mf_classic_listener_value_cmd_handler"

text \<open>
  The operand and the transfer value are signed 32-bit integers in C. \<open>-data\<close> of the least integer and the
  addition to \<open>transfer_value\<close> can overflow (lines 396, 400 and 405), which C leaves undefined; the words below
  wrap, as the additions of the target processor do. No memory access and no check depends on the sum.
\<close>

definition mf_classic_listener_value_data_receive_handler ::
    "bytes \<Rightarrow> bit_buffer \<Rightarrow> MfClassicListener \<Rightarrow> (MfClassicListenerCommand \<times> MfClassicListener) option" where
  "mf_classic_listener_value_data_receive_handler random buff l =
     (if bit_buffer_get_size_bytes buff \<noteq> 4 then Some (MfClassicListenerCommandNack, l)
      else do {
        d \<leftarrow> bit_buffer_write_bytes_mid buff (replicate 4 0) 0 4;
        let data = block_word d 0;
        let data = (if sint data < 0 then - data else data);
        let data = (if value_cmd l = MfClassicValueCommandDecrement then - data
          else if value_cmd l = MfClassicValueCommandRestore then 0 else data);
        Some (MfClassicListenerCommandSilent,
          next_handler (l\<lparr>transfer_value := transfer_value l + data, transfer_valid := True\<rparr>))
      })"

definition mf_classic_listener_value_transfer_handler ::
    "bytes \<Rightarrow> bit_buffer \<Rightarrow> MfClassicListener \<Rightarrow> (MfClassicListenerCommand \<times> MfClassicListener) option" where
  "mf_classic_listener_value_transfer_handler random buff l = do {
     let l = l\<lparr>cmd_in_progress := False\<rparr>;
     if bit_buffer_get_size_bytes buff \<noteq> 2 then Some (MfClassicListenerCommandNack, l)
     else do {
       cmd \<leftarrow> bit_buffer_get_byte buff 0;
       if cmd \<noteq> 0xB0 then Some (MfClassicListenerCommandNack, l)
       else do {
         block_num \<leftarrow> bit_buffer_get_byte buff 1;
         ok \<leftarrow> allowed l block_num MfClassicActionDataDec;
         if \<not> ok then Some (MfClassicListenerCommandNack, l)
         else do {
           l \<leftarrow> set_block (unat block_num) (mf_classic_value_to_block (transfer_value l) block_num) l;
           Some (MfClassicListenerCommandAck, l\<lparr>transfer_value := 0, transfer_valid := False\<rparr>)
         }
       }
     }
   }"

subsection \<open>Dispatch\<close>

record MfClassicListenerCmd =
  cmd_start_byte :: u8
  cmd_len_bits :: nat
  cmd_handlers :: "(bytes \<Rightarrow> bit_buffer \<Rightarrow> MfClassicListener \<Rightarrow> (MfClassicListenerCommand \<times> MfClassicListener) option) list"

definition mf_classic_listener_cmd_handlers :: "MfClassicListenerCmd list" where
  "mf_classic_listener_cmd_handlers = [
     \<lparr>cmd_start_byte = 0x50, cmd_len_bits = 2 * 8, cmd_handlers = [mf_classic_listener_halt_handler]\<rparr>,
     \<lparr>cmd_start_byte = 0x50, cmd_len_bits = 15, cmd_handlers = [mf_classic_listener_halt_handler]\<rparr>,
     \<lparr>cmd_start_byte = 0x60, cmd_len_bits = 2 * 8,
       cmd_handlers = [mf_classic_listener_auth_key_a_handler, mf_classic_listener_auth_second_part_handler]\<rparr>,
     \<lparr>cmd_start_byte = 0x61, cmd_len_bits = 2 * 8,
       cmd_handlers = [mf_classic_listener_auth_key_b_handler, mf_classic_listener_auth_second_part_handler]\<rparr>,
     \<lparr>cmd_start_byte = 0x30, cmd_len_bits = 2 * 8, cmd_handlers = [mf_classic_listener_read_block_handler]\<rparr>,
     \<lparr>cmd_start_byte = 0xA0, cmd_len_bits = 2 * 8,
       cmd_handlers = [mf_classic_listener_write_block_first_part_handler, mf_classic_listener_write_block_second_part_handler]\<rparr>,
     \<lparr>cmd_start_byte = 0xC0, cmd_len_bits = 2 * 8,
       cmd_handlers = [mf_classic_listener_value_dec_handler, mf_classic_listener_value_data_receive_handler,
         mf_classic_listener_value_transfer_handler]\<rparr>,
     \<lparr>cmd_start_byte = 0xC1, cmd_len_bits = 2 * 8,
       cmd_handlers = [mf_classic_listener_value_inc_handler, mf_classic_listener_value_data_receive_handler,
         mf_classic_listener_value_transfer_handler]\<rparr>,
     \<lparr>cmd_start_byte = 0xC2, cmd_len_bits = 2 * 8,
       cmd_handlers = [mf_classic_listener_value_restore_handler, mf_classic_listener_value_data_receive_handler,
         mf_classic_listener_value_transfer_handler]\<rparr>]"

definition mf_classic_listener_send_short_frame :: "MfClassicListener \<Rightarrow> u8 \<Rightarrow> MfClassicListener option" where
  "mf_classic_listener_send_short_frame l data = do {
     tx \<leftarrow> bit_buffer_set_size (ml_tx_plain_buffer l) 4;
     tx \<leftarrow> bit_buffer_set_byte tx 0 data;
     let l = l\<lparr>ml_tx_plain_buffer := tx\<rparr>;
     if ml_comm_state l = MfClassicListenerCommStateEncrypted then send_encrypted None l
     else Some (send_frame (iso14443_3a_listener_tx_with_custom_parity tx) l)
   }"

text \<open>The loop over the table of commands: the first entry for this frame handles it.\<close>

fun find_command ::
    "MfClassicListenerCmd list \<Rightarrow> nat \<Rightarrow> bytes \<Rightarrow> bit_buffer \<Rightarrow> MfClassicListener \<Rightarrow>
     (MfClassicListenerCommand \<times> MfClassicListener) option" where
  "find_command [] i random buff l = Some (MfClassicListenerCommandNack, l)"
| "find_command (cmd # cmds) i random buff l =
     (if bit_buffer_get_size buff \<noteq> cmd_len_bits cmd then find_command cmds (i + 1) random buff l
      else do {
        b \<leftarrow> bit_buffer_get_byte buff 0;
        if b \<noteq> cmd_start_byte cmd then find_command cmds (i + 1) random buff l
        else do {
          handler \<leftarrow> rd (cmd_handlers cmd) 0;
          handler random buff (l\<lparr>current_cmd_idx := i, current_cmd_handler_idx := 0\<rparr>)
        }
      })"

text \<open>The frame as the handlers see it.\<close>

definition plain_frame :: "bit_buffer \<Rightarrow> MfClassicListener \<Rightarrow> (bit_buffer \<times> MfClassicListener) option" where
  "plain_frame buffer l =
     (if ml_comm_state l = MfClassicListenerCommStateEncrypted \<and> ml_state l = MfClassicListenerStateAuthComplete then do {
        (c, rx) \<leftarrow> crypto1_decrypt (ml_crypto l) buffer (ml_rx_plain_buffer l);
        ok \<leftarrow> iso14443_crc_check Iso14443CrcTypeA rx;
        rx \<leftarrow> (if ok then iso14443_crc_trim rx else Some rx);
        Some (rx, l\<lparr>ml_crypto := c, ml_rx_plain_buffer := rx\<rparr>)
      } else Some (buffer, l))"

definition answer_command :: "MfClassicListenerCommand \<Rightarrow> MfClassicListener \<Rightarrow> (NfcCommand \<times> MfClassicListener) option" where
  "answer_command mfc_command l = (case mfc_command of
     MfClassicListenerCommandAck \<Rightarrow> do {
       l \<leftarrow> mf_classic_listener_send_short_frame l 0x0A;
       Some (NfcCommandContinue, l)
     }
   | MfClassicListenerCommandNack \<Rightarrow> do {
       let nack = (if \<not> transfer_valid l then 0x00 + 0x04 else 0x00);
       l \<leftarrow> mf_classic_listener_send_short_frame l nack;
       Some (NfcCommandSleep, mf_classic_listener_reset_state l)
     }
   | MfClassicListenerCommandSilent \<Rightarrow> Some (NfcCommandReset, l)
   | MfClassicListenerCommandSleep \<Rightarrow> Some (NfcCommandSleep, mf_classic_listener_reset_state l)
   | MfClassicListenerCommandProcessed \<Rightarrow> Some (NfcCommandContinue, l))"

definition listener_receive :: "bytes \<Rightarrow> bit_buffer \<Rightarrow> MfClassicListener \<Rightarrow> (NfcCommand \<times> MfClassicListener) option" where
  "listener_receive random buffer l = do {
     (rx_buffer_plain, l) \<leftarrow> plain_frame buffer l;
     (mfc_command, l) \<leftarrow>
       (if cmd_in_progress l then do {
          cmd \<leftarrow> rd mf_classic_listener_cmd_handlers (current_cmd_idx l);
          handler \<leftarrow> rd (cmd_handlers cmd) (current_cmd_handler_idx l);
          handler random rx_buffer_plain l
        } else find_command mf_classic_listener_cmd_handlers 0 random rx_buffer_plain l);
     answer_command mfc_command l
   }"

definition mf_classic_listener_run ::
    "bytes \<Rightarrow> Iso14443_3aListenerEvent \<Rightarrow> MfClassicListener \<Rightarrow> (NfcCommand \<times> MfClassicListener) option" where
  "mf_classic_listener_run random iso3_event l = (case iso3_event of
     Iso14443_3aListenerEventTypeFieldOff \<Rightarrow> Some (NfcCommandSleep, mf_classic_listener_reset_state l)
   | Iso14443_3aListenerEventTypeReceivedData buffer \<Rightarrow> listener_receive random buffer l
   | Iso14443_3aListenerEventTypeReceivedStandardFrame buffer \<Rightarrow> listener_receive random buffer l
   | Iso14443_3aListenerEventTypeHalted \<Rightarrow> Some (NfcCommandContinue, mf_classic_listener_reset_state l))"

end
