(* ===== verification/Mf_Classic_Facts.thy ===== *)
theory Mf_Classic_Facts
  imports Mf_Classic Bit_Lib_Facts
begin

text \<open>
  Properties of the data of a Mifare Classic card: the sectors partition the blocks, and the value blocks are
  exactly the blocks that are written for a value.
\<close>

subsection \<open>Sectors\<close>

lemma take_bit_num_one [simp]:
  "take_bit_num 1 num.One = Some num.One" "take_bit_num 1 (num.Bit0 n) = None" "take_bit_num 1 (num.Bit1 n) = Some num.One"
  by (simp_all add: One_nat_def)

lemma nat_or_mask: "(n :: nat) OR mask k = 2 ^ k * (n div 2 ^ k) + (2 ^ k - 1)"
proof -
  have "take_bit k (n OR mask k) = mask k" by (rule bit_eqI) (auto simp: bit_simps)
  moreover have "drop_bit k (n OR mask k) = drop_bit k n" by (rule bit_eqI) (auto simp: bit_simps)
  moreover have "n OR mask k = push_bit k (drop_bit k (n OR mask k)) + take_bit k (n OR mask k)"
    by (rule bits_ident [symmetric])
  ultimately show ?thesis by (simp add: push_bit_eq_mult drop_bit_eq_div mask_eq_exp_minus_1 mult.commute)
qed

lemma unat_or_3: "unat ((b :: u8) OR 3) = 4 * (unat b div 4) + 3"
  using nat_or_mask [of "unat b" 2] by (simp add: unsigned_or_eq mask_eq_exp_minus_1)

lemma unat_or_15: "unat ((b :: u8) OR 15) = 16 * (unat b div 16) + 15"
  using nat_or_mask [of "unat b" 4] by (simp add: unsigned_or_eq mask_eq_exp_minus_1)

lemma unat_less_256: "unat (b :: u8) < 256"
  using unsigned_less [of b] by simp

text \<open>The number of the sector of a block and of the trailer of a sector, without wrap-around.\<close>

definition sector_of :: "nat \<Rightarrow> nat" where
  "sector_of n = (if n < 128 then n div 4 else 32 + (n - 128) div 16)"

definition trailer_of :: "nat \<Rightarrow> nat" where
  "trailer_of s = (if s < 32 then 4 * s + 3 else 128 + 16 * (s - 32) + 15)"

lemma sector_of_less: "n < 256 \<Longrightarrow> sector_of n < 40"
  by (auto simp: sector_of_def)

lemma trailer_of_less: "s < 40 \<Longrightarrow> trailer_of s < 256"
  by (auto simp: trailer_of_def)

lemma sector_of_trailer: "s < 40 \<Longrightarrow> sector_of (trailer_of s) = s"
  by (auto simp: trailer_of_def sector_of_def)

lemma trailer_of_mono: "s < t \<Longrightarrow> t < 40 \<Longrightarrow> trailer_of s < trailer_of t"
  by (auto simp: trailer_of_def)

lemma div_sixteen: "128 \<le> n \<Longrightarrow> n div 16 = 8 + (n - 128) div 16" for n :: nat
  by (auto simp: le_iff_add)

lemma unat_sector: "unat (mf_classic_get_sector_by_block b) = sector_of (unat b)"
proof (cases "b < 128")
  case True
  then have "unat ((b OR 3) div 4) = unat b div 4" by (simp add: unat_div unat_or_3)
  with True show ?thesis by (simp add: mf_classic_get_sector_by_block_def sector_of_def word_less_nat_alt)
next
  case False
  then have n: "128 \<le> unat b" by (simp add: word_less_nat_alt)
  have "unat ((b OR 15) - 128) = 16 * ((unat b - 128) div 16) + 15"
    by (subst unat_sub) (use n div_sixteen [OF n] in \<open>auto simp: word_le_nat_alt unat_or_15\<close>)
  then have d: "unat (((b OR 15) - 128) div 16) = (unat b - 128) div 16" by (simp add: unat_div)
  have "unat (32 + ((b OR 15) - 128) div 16) = 32 + (unat b - 128) div 16"
    by (subst unat_add_lem [THEN iffD1]) (use d unat_less_256 [of b] in auto)
  with False show ?thesis by (simp add: mf_classic_get_sector_by_block_def sector_of_def word_less_nat_alt)
qed

lemma unat_trailer_by_block: "unat (mf_classic_get_sector_trailer_num_by_block b) = trailer_of (sector_of (unat b))"
proof (cases "unat b < 128")
  case True
  then show ?thesis by (simp add: mf_classic_get_sector_trailer_num_by_block_def unat_or_3 sector_of_def trailer_of_def word_less_nat_alt)
next
  case False
  then show ?thesis using div_sixteen [of "unat b"]
    by (simp add: mf_classic_get_sector_trailer_num_by_block_def unat_or_15 sector_of_def trailer_of_def word_less_nat_alt)
qed

lemma is_trailer_iff: "mf_classic_is_sector_trailer b \<longleftrightarrow> unat b = trailer_of (sector_of (unat b))"
  by (simp only: mf_classic_is_sector_trailer_def unat_trailer_by_block [symmetric] word_unat_eq_iff)

lemma of_nat_eqI: "unat (x :: u8) = n \<Longrightarrow> x = of_nat n"
  by auto

lemma trailer_by_sector: "unat s < 40 \<Longrightarrow> mf_classic_get_sector_trailer_num_by_sector s = Some (of_nat (trailer_of (unat s)))"
  by (auto simp: mf_classic_get_sector_trailer_num_by_sector_def trailer_of_def word_less_nat_alt of_nat_diff ac_simps)

lemma trailer_index: "unat s < 40 \<Longrightarrow> mf_classic_get_sector_trailer_by_sector d s = Some (trailer_of (unat s))"
  using trailer_of_less [of "unat s"]
  by (simp add: mf_classic_get_sector_trailer_by_sector_def trailer_by_sector unat_of_nat)

definition sector_length :: "nat \<Rightarrow> nat" where
  "sector_length s = (if s < 32 then 4 else 16)"

lemma trailer_last: "Suc (trailer_of s) - sector_length s + sector_length s = Suc (trailer_of s)"
  by (simp add: trailer_of_def sector_length_def)

lemma sector_blocks_eq:
  assumes s: "unat s < 40"
  shows "sector_blocks s = Some [Suc (trailer_of (unat s)) - sector_length (unat s)..<Suc (trailer_of (unat s))]"
proof -
  have "unat (s * 4) = 4 * unat s" if "unat s < 32"
    by (subst unat_mult_lem [THEN iffD1]) (use that in auto)
  moreover have "unat (128 + (s - 32) * 16) = 128 + 16 * (unat s - 32)" if "\<not> unat s < 32"
  proof -
    have "unat (s - 32) = unat s - 32" using that by (simp add: unat_sub word_le_nat_alt)
    then have "unat ((s - 32) * 16) = 16 * (unat s - 32)" by (subst unat_mult_lem [THEN iffD1]) (use s in auto)
    then show ?thesis by (subst unat_add_lem [THEN iffD1]) (use s in auto)
  qed
  ultimately have "sector_blocks s = Some [Suc (trailer_of (unat s)) - sector_length (unat s)..<
      Suc (trailer_of (unat s)) - sector_length (unat s) + sector_length (unat s)]"
    using s by (auto simp: sector_blocks_def mf_classic_get_first_block_num_of_sector_def mf_classic_get_blocks_num_in_sector_def
      word_less_nat_alt trailer_of_def sector_length_def algebra_simps simp del: upt_Suc)
  then show ?thesis by (simp only: trailer_last)
qed

lemma block_in_sector: "n < 256 \<Longrightarrow> n \<in> {Suc (trailer_of (sector_of n)) - sector_length (sector_of n)..trailer_of (sector_of n)}"
  by (auto simp: trailer_of_def sector_of_def sector_length_def)

text \<open>Every block belongs to one sector below 40: it lies between the first block of the sector and its trailer,
  which is the last one; the two ways to find the trailer agree, and the trailer is recognised.\<close>

theorem sectors_partition:
  "mf_classic_get_sector_by_block b < 40 \<and>
   mf_classic_get_sector_trailer_num_by_sector (mf_classic_get_sector_by_block b) = Some (mf_classic_get_sector_trailer_num_by_block b) \<and>
   (case sector_blocks (mf_classic_get_sector_by_block b) of
      Some js \<Rightarrow> unat b \<in> set js \<and> unat (mf_classic_get_sector_trailer_num_by_block b) = List.last js \<and>
        (mf_classic_is_sector_trailer b \<longleftrightarrow> unat b = List.last js)
    | None \<Rightarrow> False)"
proof -
  have s: "unat (mf_classic_get_sector_by_block b) < 40"
    unfolding unat_sector by (rule sector_of_less [OF unat_less_256])
  let ?t = "trailer_of (sector_of (unat b))"
  have "mf_classic_get_sector_trailer_num_by_block b = of_nat ?t" by (rule of_nat_eqI [OF unat_trailer_by_block])
  moreover have "unat b \<in> set [Suc ?t - sector_length (sector_of (unat b))..<Suc ?t]"
    using block_in_sector [OF unat_less_256, of b] by auto
  moreover have "List.last [Suc ?t - sector_length (sector_of (unat b))..<Suc ?t] = ?t"
    by (simp add: sector_length_def)
  moreover have "sector_blocks (mf_classic_get_sector_by_block b) = Some [Suc ?t - sector_length (sector_of (unat b))..<Suc ?t]"
    using sector_blocks_eq [OF s] by (simp only: unat_sector)
  ultimately show ?thesis using s trailer_by_sector [OF s] unat_trailer_by_block [of b]
    by (simp add: is_trailer_iff unat_sector word_less_nat_alt del: upt_Suc)
qed

subsection \<open>Value blocks\<close>

lemma block_word_bytes:
  assumes "b ! i = ucast v" "b ! (i + 1) = ucast (drop_bit 8 v)" "b ! (i + 2) = ucast (drop_bit 16 v)" "b ! (i + 3) = ucast (drop_bit 24 v)"
  shows "block_word b i = v"
  unfolding block_word_def assms
proof (rule bit_word_eqI)
  fix k assume "k < LENGTH(32)"
  then consider "k < 8" | "8 \<le> k" "k < 16" | "16 \<le> k" "k < 24" | "24 \<le> k" "k < 32" by fastforce
  then show "bit ((ucast (ucast v :: u8) :: u32) OR push_bit 8 (ucast (ucast (drop_bit 8 v) :: u8)) OR
      push_bit 16 (ucast (ucast (drop_bit 16 v) :: u8)) OR push_bit 24 (ucast (ucast (drop_bit 24 v) :: u8))) k = bit v k"
    by cases (auto simp: bit_simps)
qed

lemma bytes_of_block_word: "word_bytes (block_word b i) = [b ! i, b ! (i + 1), b ! (i + 2), b ! (i + 3)]"
proof -
  have "ucast (block_word b i) = b ! i" "ucast (drop_bit 8 (block_word b i)) = b ! (i + 1)"
    "ucast (drop_bit 16 (block_word b i)) = b ! (i + 2)" "ucast (drop_bit 24 (block_word b i)) = b ! (i + 3)"
    unfolding block_word_def by (rule bit_word_eqI; auto simp: bit_simps dest: bit_u8_high)+
  then show ?thesis by (simp add: word_bytes_def)
qed

lemma and_255: "(x :: u8) AND 0xFF = x"
proof -
  have "(0xFF :: u8) = -1" by simp
  then show ?thesis by (metis and.right_neutral)
qed

lemma value_block_nth:
  "mf_classic_value_to_block v a = [ucast v, ucast (drop_bit 8 v), ucast (drop_bit 16 v), ucast (drop_bit 24 v),
     ucast (NOT v), ucast (drop_bit 8 (NOT v)), ucast (drop_bit 16 (NOT v)), ucast (drop_bit 24 (NOT v)),
     ucast v, ucast (drop_bit 8 v), ucast (drop_bit 16 v), ucast (drop_bit 24 v), a, NOT a, a, NOT a]"
  by (simp only: mf_classic_value_to_block_def Let_def word_bytes_def and_255 append.simps)

text \<open>C24: A block of 16 bytes is accepted as a value block, with this value and address, exactly when it is the block that
  is written for them.\<close>

theorem value_block_exact:
  assumes "length b = 16"
  shows "mf_classic_block_to_value b = (True, v, a) \<longleftrightarrow> b = mf_classic_value_to_block v a"
proof
  assume "b = mf_classic_value_to_block v a"
  then have nth: "b ! k = mf_classic_value_to_block v a ! k" for k by simp
  have "block_word b 0 = v" "block_word b 4 = NOT v" "block_word b 8 = v"
    by (rule block_word_bytes; simp only: nth value_block_nth; simp add: nth_Cons')+
  moreover have "b ! 12 = a" "b ! 13 = NOT a" "b ! 14 = a" "b ! 15 = NOT a"
    by (simp_all only: nth value_block_nth) (simp_all add: nth_Cons')
  ultimately show "mf_classic_block_to_value b = (True, v, a)"
    by (simp add: mf_classic_block_to_value_def and_255)
next
  assume eq: "mf_classic_block_to_value b = (True, v, a)"
  then have w: "block_word b 0 = v" "v = NOT (block_word b 4)" "block_word b 8 = v"
    and t: "b ! 12 = a" "b ! 13 = NOT a" "b ! 14 = a" "b ! 15 = NOT a"
    by (auto simp: mf_classic_block_to_value_def and_255 Let_def)
  have v_inv: "block_word b 4 = NOT v" by (simp only: w(2) bit.double_compl)
  have "b = map ((!) b) [0..<16]" using map_nth [of b] assms by simp
  also have "\<dots> = word_bytes (block_word b 0) @ word_bytes (block_word b 4) @ word_bytes (block_word b 8) @
      [b ! 12, b ! 13, b ! 14, b ! 15]"
    by (simp add: bytes_of_block_word upt_rec) (simp add: eval_nat_numeral One_nat_def)
  finally show "b = mf_classic_value_to_block v a"
    by (simp only: w(1,3) v_inv t mf_classic_value_to_block_def Let_def and_255)
qed

theorem value_block_exact_witness:
  "mf_classic_block_to_value (mf_classic_value_to_block 0xFFFFFF38 5) = (True, 0xFFFFFF38, 5)"
  using value_block_exact [of "mf_classic_value_to_block 0xFFFFFF38 5" "0xFFFFFF38" 5] by (simp add: value_block_nth)

end
