(* ===== verification/Mf_Classic_Text.thy ===== *)
theory Mf_Classic_Text
  imports Mf_Classic_Facts
begin

text \<open>
  The text of the blocks of a Mifare Classic card in a file: what is written for a card, read into an empty one,
  restores what was known.
\<close>

subsection \<open>The text of a block\<close>

definition byte_text :: "u8 option \<Rightarrow> string" where
  "byte_text x = (case x of Some b \<Rightarrow> printf_02X b | None \<Rightarrow> ''??'')"

text \<open>The line of 16 bytes, known or not, with its last blank, and the bytes that are read from it.\<close>

definition line_text :: "u8 option list \<Rightarrow> string" where
  "line_text xs = concat (map (\<lambda>x. byte_text x @ '' '') xs)"

definition known_or_zero :: "u8 option \<Rightarrow> u8" where
  "known_or_zero x = (case x of Some b \<Rightarrow> b | None \<Rightarrow> 0)"

lemma printf_digits: "printf_02X x = [hex_digit (drop_bit 4 x AND 0xF), hex_digit (x AND 0xF)]"
proof -
  have "drop_bit 4 x AND 0xF = drop_bit 4 x"
  proof (rule bit_word_eqI)
    have m: "(0xF :: u8) = mask 4" by (simp add: mask_eq_exp_minus_1)
    show "bit (drop_bit 4 x AND 0xF) k = bit (drop_bit 4 x) k" for k
      unfolding m by (auto simp: bit_simps dest: bit_u8_high)
  qed
  then show ?thesis by (simp add: printf_02X_def hex_digit_def)
qed

lemma byte_text_chars:
  "length (byte_text x) = 2" "set (byte_text x) \<subseteq> set ''0123456789ABCDEF?''"
  "hex_char_to_uint8 (byte_text x ! 0) (byte_text x ! 1) = x"
proof -
  have digit: "hex_digit (n AND 0xF) \<in> set ''0123456789ABCDEF?''" for n
  proof -
    have "\<forall>m \<in> set (map of_nat [0..<16]). hex_digit (m :: u8) \<in> set ''0123456789ABCDEF?''" by code_simp
    then show ?thesis using nibble_cases by blast
  qed
  show "length (byte_text x) = 2" by (auto simp: byte_text_def printf_02X_def split: option.split)
  show "set (byte_text x) \<subseteq> set ''0123456789ABCDEF?''"
    using digit by (cases x) (simp_all only: byte_text_def option.case printf_digits, auto)
  show "hex_char_to_uint8 (byte_text x ! 0) (byte_text x ! 1) = x"
  proof (cases x)
    case None
    have "hex_char_to_uint8 (CHR ''?'') (CHR ''?'') = None" by code_simp
    with None show ?thesis by (simp add: byte_text_def)
  next
    case (Some b)
    then show ?thesis using hex_pair [of b] by (simp add: byte_text_def printf_digits)
  qed
qed

definition line_chars :: "char set" where
  "line_chars = set ''0123456789ABCDEF?''"

lemma line_chars_not_blank: "c \<in> line_chars \<Longrightarrow> c \<notin> set [CHR '' '', CHR 0x0A, CHR 0x0D, CHR 0x09]"
  by (auto simp: line_chars_def)

text \<open>Trimming takes the last blank away, and nothing more the second time.\<close>

lemma trim_line:
  assumes "a \<in> line_chars" "z \<in> line_chars"
  shows "furi_string_trim (a # xs @ [z, CHR '' '']) = a # xs @ [z]" "furi_string_trim (a # xs @ [z]) = a # xs @ [z]"
  using line_chars_not_blank [OF assms(1)] line_chars_not_blank [OF assms(2)]
  by (simp_all add: furi_string_trim_def Let_def)

lemma line_nth:
  assumes "i < length xs"
  shows "line_text xs ! (3 * i) = byte_text (xs ! i) ! 0 \<and> line_text xs ! (3 * i + 1) = byte_text (xs ! i) ! 1"
  using assms
proof (induction xs arbitrary: i)
  case (Cons x xs)
  have len: "length (byte_text x @ '' '') = 3" by (simp add: byte_text_chars(1))
  show ?case
  proof (cases i)
    case 0
    then show ?thesis by (simp add: line_text_def nth_append byte_text_chars(1))
  next
    case (Suc j)
    then have "line_text (x # xs) ! (3 * i + k) = line_text xs ! (3 * j + k)" for k
      using len by (simp add: line_text_def nth_append byte_text_chars(1))
    from this [of 0] this [of 1] Suc Cons show ?thesis by simp
  qed
qed simp

lemma length_line: "length (line_text xs) = 3 * length xs"
  by (induction xs) (simp_all add: line_text_def byte_text_chars(1))

lemma trim_text:
  assumes "xs \<noteq> []"
  shows "furi_string_trim (line_text xs) = butlast (line_text xs)"
    and "furi_string_trim (butlast (line_text xs)) = butlast (line_text xs)"
proof -
  obtain ys y where xs: "xs = ys @ [y]" using assms by (cases xs rule: rev_cases) auto
  obtain p z where y: "byte_text y = [p, z]" using byte_text_chars(1) [of y] by (auto simp: numeral_2_eq_2 length_Suc_conv)
  then have chars: "p \<in> line_chars" "z \<in> line_chars" using byte_text_chars(2) [of y] by (simp_all add: line_chars_def)
  have "\<exists>a m. line_text xs = a # m @ [z, CHR '' ''] \<and> a \<in> line_chars"
  proof (cases ys)
    case Nil
    then show ?thesis using y chars xs by (intro exI [of _ p] exI [of _ "[]"]) (simp add: line_text_def)
  next
    case (Cons x ys')
    obtain a b where x: "byte_text x = [a, b]" using byte_text_chars(1) [of x] by (auto simp: numeral_2_eq_2 length_Suc_conv)
    then have "a \<in> line_chars" using byte_text_chars(2) [of x] by (simp add: line_chars_def)
    then show ?thesis using Cons y x xs
      by (intro exI [of _ a] exI [of _ "[b, CHR '' ''] @ line_text ys' @ [p]"]) (simp add: line_text_def)
  qed
  then obtain a m where "line_text xs = a # m @ [z, CHR '' '']" "a \<in> line_chars" by blast
  moreover have "butlast (a # m @ [z, CHR '' '']) = a # m @ [z]" by (simp add: butlast_append)
  ultimately show "furi_string_trim (line_text xs) = butlast (line_text xs)"
    "furi_string_trim (butlast (line_text xs)) = butlast (line_text xs)"
    using trim_line [of a z m] chars(2) by simp_all
qed

lemma parse_line:
  assumes len: "length xs = 16"
  shows "\<exists>m. parse_block_bytes (butlast (line_text xs)) = Some (map known_or_zero xs, m) \<and>
    (\<forall>k. bit m k \<longleftrightarrow> k < 16 \<and> xs ! k = None)"
proof -
  let ?s = "butlast (line_text xs)"
  let ?I = "\<lambda>i (bs, m). bs = map known_or_zero (take i xs) @ replicate (16 - i) 0 \<and> (\<forall>k. bit (m :: u16) k \<longleftrightarrow> k < i \<and> xs ! k = None)"
  have rd: "rd ?s (3 * i) = Some (byte_text (xs ! i) ! 0)" "rd ?s (3 * i + 1) = Some (byte_text (xs ! i) ! 1)" if "i < 16" for i
    using that line_nth [of i xs] length_line [of xs] len by (simp_all add: rd_def nth_butlast)
  have "\<exists>t. parse_block_bytes ?s = Some t \<and> ?I 16 t"
    unfolding parse_block_bytes_def
  proof (rule ofold_upt_inv [where I = ?I])
    show "?I 0 (replicate 16 0, 0)" by simp
  next
    fix i t assume i: "i < 16" and "?I i t"
    then obtain bs m where t: "t = (bs, m)" "bs = map known_or_zero (take i xs) @ replicate (16 - i) 0"
      "\<forall>k. bit (m :: u16) k \<longleftrightarrow> k < i \<and> xs ! k = None" by auto
    have suc: "replicate (16 - i) (0 :: u8) = 0 # replicate (16 - Suc i) 0" using i by (metis Suc_diff_Suc replicate_Suc)
    have bs: "length bs = 16" "bs[i := known_or_zero (xs ! i)] = map known_or_zero (take (Suc i) xs) @ replicate (16 - Suc i) 0"
      using i len by (simp_all add: t(2) suc take_Suc_conv_app_nth list_update_append)
    have step: "(\<forall>k. bit (m OR push_bit i 1) k \<longleftrightarrow> k < Suc i \<and> xs ! k = None)" if "xs ! i = None"
      using t(3) i that by (auto simp: bit_simps less_Suc_eq)
    have keep: "map known_or_zero (take (Suc i) xs) @ replicate (16 - Suc i) 0 = bs" if "xs ! i = None"
      using i len that by (simp add: t(2) suc take_Suc_conv_app_nth known_or_zero_def)
    show "\<exists>t'. (case t of (block_tmp, unknown) \<Rightarrow> do {
        hi \<leftarrow> rd ?s (3 * i);
        low \<leftarrow> rd ?s (3 * i + 1);
        (case hex_char_to_uint8 hi low of
           Some byte \<Rightarrow> do { block_tmp \<leftarrow> wr block_tmp i byte; Some (block_tmp, unknown) }
         | None \<Rightarrow> do { unknown \<leftarrow> mask_set unknown i; Some (block_tmp, unknown) }) }) = Some t' \<and> ?I (Suc i) t'"
    proof (cases "xs ! i")
      case None
      have "?I (Suc i) (bs, m OR push_bit i 1)" using step [OF None] keep [OF None] by simp
      then show ?thesis using i None by (intro exI [of _ "(bs, m OR push_bit i 1)"])
        (simp add: t(1) rd byte_text_chars(3) mask_set_def)
    next
      case (Some b)
      moreover have "bit m k \<longleftrightarrow> k < Suc i \<and> xs ! k = None" for k using t(3) [THEN spec, of k] Some by (cases "k = i") auto
      ultimately show ?thesis using i bs
        by (simp add: t(1) rd byte_text_chars(3) wr_ok known_or_zero_def)
    qed
  qed
  then show ?thesis using len by auto
qed

subsection \<open>Saving and loading the blocks\<close>

definition data_ok :: "MfClassicData \<Rightarrow> bool" where
  "data_ok d \<longleftrightarrow> length (block_read_mask d) = 8 \<and> length (mfc_block d) = 256 \<and> (\<forall>n < 256. length (mfc_block d ! n) = 16)"

definition read_at :: "MfClassicData \<Rightarrow> nat \<Rightarrow> bool" where
  "read_at d n \<longleftrightarrow> bit (block_read_mask d ! (n div 32)) (n mod 32)"

definition key_at :: "MfClassicData \<Rightarrow> MfClassicKeyType \<Rightarrow> nat \<Rightarrow> bool" where
  "key_at d t s \<longleftrightarrow> bit (case t of MfClassicKeyTypeA \<Rightarrow> key_a_mask d | MfClassicKeyTypeB \<Rightarrow> key_b_mask d) s"

lemma mask_bit_eq: "n < LENGTH('a) \<Longrightarrow> mask_bit (m :: 'a::len word) n = Some (bit m n)"
  by (simp add: mask_bit_def drop_and_1)

lemma mask_set_eq: "n < LENGTH('a) \<Longrightarrow> mask_set (m :: 'a::len word) n = Some (m OR push_bit n 1)"
  by (simp add: mask_set_def)

lemma unat_block: "n < 256 \<Longrightarrow> unat (of_nat n :: u8) = n"
  by (simp add: unat_of_nat)

lemma is_read_eq: "data_ok d \<Longrightarrow> n < 256 \<Longrightarrow> mf_classic_is_block_read d (of_nat n) = Some (read_at d n)"
  by (simp add: mf_classic_is_block_read_def unat_block rd_ok data_ok_def mask_bit_eq read_at_def)

lemma is_found_eq: "unat s < 40 \<Longrightarrow> mf_classic_is_key_found d s t = Some (key_at d t (unat s))"
  by (cases t) (simp_all add: mf_classic_is_key_found_def mask_bit_eq key_at_def)

text \<open>What a card knows of a block.\<close>

definition trailer_block :: "nat \<Rightarrow> bool" where
  "trailer_block n \<longleftrightarrow> n = trailer_of (sector_of n)"

definition byte_known :: "MfClassicData \<Rightarrow> nat \<Rightarrow> nat \<Rightarrow> bool" where
  "byte_known d n i =
     (if \<not> trailer_block n then read_at d n
      else if i < 6 then key_at d MfClassicKeyTypeA (sector_of n)
      else if i < 10 then read_at d n
      else key_at d MfClassicKeyTypeB (sector_of n))"

definition block_known :: "MfClassicData \<Rightarrow> nat \<Rightarrow> u8 option list" where
  "block_known d n = map (\<lambda>i. if byte_known d n i then Some (mfc_block d ! n ! i) else None) [0..<16]"

lemma ofold_concat: "ofold (\<lambda>i str. Some (str @ f i)) xs s = Some (s @ concat (map f xs))"
  by (induction xs arbitrary: s) simp_all

lemma trailer_block_eq: "n < 256 \<Longrightarrow> mf_classic_is_sector_trailer (of_nat n) = trailer_block n"
  by (simp add: is_trailer_iff unat_block trailer_block_def)

lemma sector_u8: "n < 256 \<Longrightarrow> unat (mf_classic_get_sector_by_block (of_nat n)) = sector_of n"
  by (simp add: unat_sector unat_block)

lemma known_cell: "(if c then printf_02X b @ '' '' else ''?? '') = byte_text (if c then Some b else None) @ '' ''"
  by (simp add: byte_text_def)

lemma set_block_str_eq:
  assumes d: "data_ok d" and n: "n < 256"
  shows "mf_classic_set_block_str d (of_nat n) = Some (butlast (line_text (block_known d n)))"
proof -
  have s: "unat (mf_classic_get_sector_by_block (of_nat n)) < 40" using sector_of_less [OF n] by (simp add: sector_u8 n)
  note found = is_found_eq [OF s, unfolded sector_u8 [OF n]]
  note idx = trailer_index [OF s, unfolded sector_u8 [OF n]]
  have b: "rd (mfc_block d) n = Some (mfc_block d ! n)" using d n by (simp add: rd_ok data_ok_def)
  have ne: "block_known d n \<noteq> []" by (simp add: block_known_def)
  show ?thesis
  proof (cases "trailer_block n")
    case True
    then have "trailer_of (sector_of n) = n" by (simp add: trailer_block_def)
    moreover have "line_text (block_known d n) =
        concat (map (\<lambda>i. byte_text (if key_at d MfClassicKeyTypeA (sector_of n) then Some (mfc_block d ! n ! i) else None) @ '' '') [0..<6]) @
        concat (map (\<lambda>i. byte_text (if read_at d n then Some (mfc_block d ! n ! (6 + i)) else None) @ '' '') [0..<4]) @
        concat (map (\<lambda>i. byte_text (if key_at d MfClassicKeyTypeB (sector_of n) then Some (mfc_block d ! n ! (10 + i)) else None) @ '' '') [0..<6])"
      using True by (simp add: line_text_def block_known_def byte_known_def upt_rec) (simp add: eval_nat_numeral One_nat_def)
    ultimately have "mf_classic_set_block_str d (of_nat n) = Some (furi_string_trim (line_text (block_known d n)))"
      using True by (simp add: mf_classic_set_block_str_def trailer_block_eq n idx b found is_read_eq d ofold_concat known_cell Let_def)
    then show ?thesis by (simp add: trim_text(1) [OF ne])
  next
    case False
    then have "mf_classic_set_block_str d (of_nat n) = Some (furi_string_trim (line_text (block_known d n)))"
      by (simp add: mf_classic_set_block_str_def trailer_block_eq n unat_block b is_read_eq d ofold_concat known_cell byte_known_def
        line_text_def block_known_def o_def)
    then show ?thesis by (simp add: trim_text(1) [OF ne])
  qed
qed

lemma bytes_num_bytes:
  assumes "length ks = 6" "bit_lib_bytes_to_num_be ks 6 = Some v"
  shows "bit_lib_num_to_bytes_be v 6 (replicate 6 0) = Some ks"
proof -
  obtain a where a: "bit_lib_num_to_bytes_be v 6 (replicate 6 0) = Some a" "length a = 6"
    "\<forall>i < 6. a ! i = ucast (drop_bit (8 * (6 - 1 - i)) v)"
    using num_to_bytes_be [of 6 "replicate 6 0" v] by auto
  have v: "bit v k \<longleftrightarrow> k < 48 \<and> bit (ks ! (6 - 1 - k div 8)) (k mod 8)" for k
    using bytes_to_num_be_bits [of 6 ks] assms by auto
  have "a ! i = ks ! i" if i: "i < 6" for i
  proof (rule bit_word_eqI)
    fix k :: nat assume k: "k < LENGTH(8)"
    have "5 - (8 * (5 - i) + k) div 8 = i" using i k by simp
    moreover have "8 * (5 - i) + k < 48" "(8 * (5 - i) + k) mod 8 = k" using i k by auto
    ultimately show "bit (a ! i) k = bit (ks ! i) k" using a(3) i k by (simp add: bit_simps v)
  qed
  with a assms(1) show ?thesis by (auto intro: nth_equalityI)
qed

lemma num_of_bytes: "length ks = 6 \<Longrightarrow> \<exists>v. bit_lib_bytes_to_num_be ks 6 = Some v"
  using bytes_to_num_be_bits [of 6 ks] by auto

text \<open>The three ways in which a line changes the card.\<close>

lemma set_key_eq:
  assumes e: "data_ok e" and s: "unat s < 40" and ks: "length ks = 6" "bit_lib_bytes_to_num_be ks 6 = Some v"
  defines "t \<equiv> trailer_of (unat s)"
  shows "mf_classic_set_key_found e s MfClassicKeyTypeA v = Some (e\<lparr>mfc_block := (mfc_block e)[t := ks @ drop 6 (mfc_block e ! t)],
      key_a_mask := key_a_mask e OR push_bit (unat s) 1\<rparr>)"
    and "mf_classic_set_key_found e s MfClassicKeyTypeB v = Some (e\<lparr>mfc_block := (mfc_block e)[t := take 10 (mfc_block e ! t) @ ks],
      key_b_mask := key_b_mask e OR push_bit (unat s) 1\<rparr>)"
  using e s ks trailer_of_less [OF s]
  by (simp_all add: mf_classic_set_key_found_def trailer_index bytes_num_bytes update_block_def rd_ok wr_ok data_ok_def memcpy_ok
    mask_set_eq t_def)

lemma set_block_read_eq:
  assumes e: "data_ok e" and n: "n < 256" and b: "length b = 16"
  shows "mf_classic_set_block_read e (of_nat n) b = Some (e\<lparr>
      mfc_block := (mfc_block e)[n := if trailer_block n
        then take 6 (mfc_block e ! n) @ take 4 (drop 6 b) @ drop 10 (mfc_block e ! n) else b],
      block_read_mask := (block_read_mask e)[n div 32 := block_read_mask e ! (n div 32) OR push_bit (n mod 32) 1]\<rparr>)"
  using e n b
  by (simp add: mf_classic_set_block_read_def trailer_block_eq unat_block update_block_def rd_ok wr_ok data_ok_def memcpy_ok
    read_mask_set_def mask_set_eq)

text \<open>One line changes one block, its read bit and the key bits of its sector.\<close>

definition takes_over :: "MfClassicData \<Rightarrow> nat \<Rightarrow> (nat \<Rightarrow> bool) \<Rightarrow> bool \<Rightarrow> (MfClassicKeyType \<Rightarrow> bool) \<Rightarrow> MfClassicData \<Rightarrow> MfClassicData \<Rightarrow> bool" where
  "takes_over d n B r K e e' \<longleftrightarrow> data_ok e' \<and> mfc_type e' = mfc_type e \<and> mfc_iso14443_3a_data e' = mfc_iso14443_3a_data e \<and>
     (\<forall>k < 256. read_at e' k \<longleftrightarrow> read_at e k \<or> k = n \<and> r) \<and>
     (\<forall>t. \<forall>s < 40. key_at e' t s \<longleftrightarrow> key_at e t s \<or> trailer_of s = n \<and> K t) \<and>
     (\<forall>k < 256. \<forall>i < 16. mfc_block e' ! k ! i = (if k = n \<and> B i then mfc_block d ! k ! i else mfc_block e ! k ! i))"

lemma takes_over_nothing: "data_ok e \<Longrightarrow> takes_over d n (\<lambda>_. False) False (\<lambda>_. False) e e"
  by (simp add: takes_over_def)

lemma takes_over_trans:
  assumes "takes_over d n B r K e f" "takes_over d n B' r' K' f g"
  shows "takes_over d n (\<lambda>i. B i \<or> B' i) (r \<or> r') (\<lambda>t. K t \<or> K' t) e g"
  using assms unfolding takes_over_def by auto

lemma takes_over_cong:
  "(\<And>i. i < 16 \<Longrightarrow> B i = B' i) \<Longrightarrow> (\<And>t. K t = K' t) \<Longrightarrow> takes_over d n B r K e f = takes_over d n B' r K' e f"
  by (simp add: takes_over_def)

lemma read_at_set:
  assumes "data_ok e" "n < 256" "k < 256"
    "block_read_mask e' = (block_read_mask e)[n div 32 := block_read_mask e ! (n div 32) OR push_bit (n mod 32) 1]"
  shows "read_at e' k \<longleftrightarrow> read_at e k \<or> k = n"
proof (cases "k div 32 = n div 32")
  case False
  then show ?thesis using assms by (auto simp: read_at_def data_ok_def)
next
  case True
  have "k = n \<longleftrightarrow> k mod 32 = n mod 32" using True by (metis div_mult_mod_eq)
  with True assms show ?thesis by (auto simp: read_at_def data_ok_def bit_simps)
qed

lemma key_takes_over:
  assumes d: "data_ok d" and e: "data_ok e" and n: "n < 256" and t: "trailer_block n"
    and s: "unat s = sector_of n"
  defines "ks t \<equiv> (case t of MfClassicKeyTypeA \<Rightarrow> take 6 (mfc_block d ! n) | MfClassicKeyTypeB \<Rightarrow> take 6 (drop 10 (mfc_block d ! n)))"
  shows "\<exists>v e'. bit_lib_bytes_to_num_be (ks t) 6 = Some v \<and> mf_classic_set_key_found e s t v = Some e' \<and>
    takes_over d n (\<lambda>i. if t = MfClassicKeyTypeA then i < 6 else 10 \<le> i) False (\<lambda>u. u = t) e e'"
proof -
  have s40: "unat s < 40" using s sector_of_less [OF n] by simp
  have tr: "trailer_of (unat s) = n" using t s by (simp add: trailer_block_def)
  have sec: "trailer_of k = n \<longleftrightarrow> k = unat s" if "k < 40" for k
    using sector_of_trailer [OF that] tr s by auto
  have lens: "length (mfc_block d ! n) = 16" "length (mfc_block e ! n) = 16" "length (mfc_block e) = 256"
    using d e n by (simp_all add: data_ok_def)
  then have ks: "length (ks t) = 6" by (cases t) (simp_all add: ks_def)
  obtain v where v: "bit_lib_bytes_to_num_be (ks t) 6 = Some v" using num_of_bytes [OF ks] by blast
  note eqs = set_key_eq [OF e s40 ks v, unfolded tr]
  show ?thesis
  proof (cases t)
    case MfClassicKeyTypeA
    let ?e = "e\<lparr>mfc_block := (mfc_block e)[n := ks t @ drop 6 (mfc_block e ! n)], key_a_mask := key_a_mask e OR push_bit (unat s) 1\<rparr>"
    have "takes_over d n (\<lambda>i. i < 6) False (\<lambda>u. u = t) e ?e"
      unfolding takes_over_def
    proof (intro conjI allI impI)
      show "data_ok ?e" using e lens ks n by (simp add: data_ok_def nth_list_update_if)
      show "mfc_block ?e ! k ! i = (if k = n \<and> i < 6 then mfc_block d ! k ! i else mfc_block e ! k ! i)" if "i < 16" for k i
        using lens n that MfClassicKeyTypeA by (auto simp: nth_list_update nth_append ks_def)
      show "key_at ?e u k = (key_at e u k \<or> trailer_of k = n \<and> u = t)" if "k < 40" for u k
        using that sec [OF that] MfClassicKeyTypeA by (cases u) (auto simp: key_at_def bit_simps)
    qed (simp_all add: read_at_def)
    with v eqs(1) MfClassicKeyTypeA show ?thesis by auto
  next
    case MfClassicKeyTypeB
    let ?e = "e\<lparr>mfc_block := (mfc_block e)[n := take 10 (mfc_block e ! n) @ ks t], key_b_mask := key_b_mask e OR push_bit (unat s) 1\<rparr>"
    have "takes_over d n (\<lambda>i. 10 \<le> i) False (\<lambda>u. u = t) e ?e"
      unfolding takes_over_def
    proof (intro conjI allI impI)
      show "data_ok ?e" using e lens ks n by (simp add: data_ok_def nth_list_update_if)
      show "mfc_block ?e ! k ! i = (if k = n \<and> 10 \<le> i then mfc_block d ! k ! i else mfc_block e ! k ! i)" if "i < 16" for k i
        using lens n that MfClassicKeyTypeB by (auto simp: nth_list_update nth_append ks_def)
      show "key_at ?e u k = (key_at e u k \<or> trailer_of k = n \<and> u = t)" if "k < 40" for u k
        using that sec [OF that] MfClassicKeyTypeB by (cases u) (auto simp: key_at_def bit_simps)
    qed (simp_all add: read_at_def)
    with v eqs(2) MfClassicKeyTypeB show ?thesis by auto
  qed
qed

lemma block_takes_over:
  assumes d: "data_ok d" and e: "data_ok e" and n: "n < 256" and b: "length b = 16"
    and agree: "\<And>i. i < 16 \<Longrightarrow> trailer_block n \<longrightarrow> 6 \<le> i \<and> i < 10 \<Longrightarrow> b ! i = mfc_block d ! n ! i"
  shows "\<exists>e'. mf_classic_set_block_read e (of_nat n) b = Some e' \<and>
    takes_over d n (\<lambda>i. trailer_block n \<longrightarrow> 6 \<le> i \<and> i < 10) True (\<lambda>_. False) e e'"
proof -
  define c where "c = (if trailer_block n then take 6 (mfc_block e ! n) @ take 4 (drop 6 b) @ drop 10 (mfc_block e ! n) else b)"
  let ?e = "e\<lparr>mfc_block := (mfc_block e)[n := c],
      block_read_mask := (block_read_mask e)[n div 32 := block_read_mask e ! (n div 32) OR push_bit (n mod 32) 1]\<rparr>"
  have lens: "length (mfc_block d ! n) = 16" "length (mfc_block e ! n) = 16" "length (mfc_block e) = 256"
    using d e n by (simp_all add: data_ok_def)
  have nth: "c ! i = (if trailer_block n \<longrightarrow> 6 \<le> i \<and> i < 10 then mfc_block d ! n ! i else mfc_block e ! n ! i)" if "i < 16" for i
    using lens b that agree [OF that] by (auto simp: c_def nth_append)
  have len: "length c = 16" using lens b by (simp add: c_def)
  have "takes_over d n (\<lambda>i. trailer_block n \<longrightarrow> 6 \<le> i \<and> i < 10) True (\<lambda>_. False) e ?e"
    unfolding takes_over_def
  proof (intro conjI allI impI)
    show "data_ok ?e" using e lens len n by (simp add: data_ok_def nth_list_update_if)
    show "read_at ?e k = (read_at e k \<or> k = n \<and> True)" if "k < 256" for k
      using read_at_set [OF e n that, of ?e] by simp
    show "mfc_block ?e ! k ! i = (if k = n \<and> (trailer_block n \<longrightarrow> 6 \<le> i \<and> i < 10) then mfc_block d ! k ! i else mfc_block e ! k ! i)"
      if "i < 16" for k i
      using lens n nth [OF that] by (simp add: nth_list_update)
    show "key_at ?e u k = (key_at e u k \<or> trailer_of k = n \<and> False)" for u k
      by (simp add: key_at_def split: MfClassicKeyType.split)
  qed simp_all
  with set_block_read_eq [OF e n b, folded c_def] show ?thesis by auto
qed

text \<open>The masks of the unknown bytes.\<close>

lemma unknown_part:
  assumes m: "\<And>k. bit (m :: u16) k \<longleftrightarrow> k < 16 \<and> \<not> B k"
  shows "m = 0xffff \<longleftrightarrow> (\<forall>k < 16. \<not> B k)" "m = 0 \<longleftrightarrow> (\<forall>k < 16. B k)"
    "m AND 0x003f = 0 \<longleftrightarrow> (\<forall>k < 6. B k)" "m AND 0x03c0 = 0 \<longleftrightarrow> (\<forall>k. 6 \<le> k \<and> k < 10 \<longrightarrow> B k)"
    "m AND 0xfc00 = 0 \<longleftrightarrow> (\<forall>k. 10 \<le> k \<and> k < 16 \<longrightarrow> B k)"
proof -
  have c: "(0xffff :: u16) = mask 16" "(0x003f :: u16) = mask 6" "(0x03c0 :: u16) = push_bit 6 (mask 4)"
    "(0xfc00 :: u16) = push_bit 10 (mask 6)"
    by (simp_all add: mask_eq_exp_minus_1 push_bit_eq_mult)
  show "m = 0xffff \<longleftrightarrow> (\<forall>k < 16. \<not> B k)" "m = 0 \<longleftrightarrow> (\<forall>k < 16. B k)"
    unfolding c word_eq_bits by (auto simp: m bit_simps)
  have part: "m AND push_bit a (mask l) = 0 \<longleftrightarrow> (\<forall>k. a \<le> k \<and> k < a + l \<longrightarrow> B k)" if "a + l \<le> 16" for a l
  proof -
    have "bit (m AND push_bit a (mask l)) k = bit 0 k \<longleftrightarrow> (a \<le> k \<and> k < a + l \<longrightarrow> B k)" if k: "k < LENGTH(16)" for k
      using k \<open>a + l \<le> 16\<close> by (auto simp: m bit_simps)
    then show ?thesis unfolding word_eq_bits using that by auto
  qed
  show "m AND 0x003f = 0 \<longleftrightarrow> (\<forall>k < 6. B k)" "m AND 0x03c0 = 0 \<longleftrightarrow> (\<forall>k. 6 \<le> k \<and> k < 10 \<longrightarrow> B k)"
    "m AND 0xfc00 = 0 \<longleftrightarrow> (\<forall>k. 10 \<le> k \<and> k < 16 \<longrightarrow> B k)"
    using part [of 0 6] part [of 6 4] part [of 10 6] by (simp_all add: c)
qed

lemma trailer_parts:
  fixes a r c :: bool
  defines "B \<equiv> \<lambda>i :: nat. if i < 6 then a else if i < 10 then r else c"
  shows "(\<forall>k < 16. \<not> B k) \<longleftrightarrow> \<not> a \<and> \<not> r \<and> \<not> c" "(\<forall>k < 6. B k) \<longleftrightarrow> a"
    "(\<forall>k. 6 \<le> k \<and> k < 10 \<longrightarrow> B k) \<longleftrightarrow> r" "(\<forall>k. 10 \<le> k \<and> k < 16 \<longrightarrow> B k) \<longleftrightarrow> c"
proof -
  have B: "B 0 = a" "B 6 = r" "B 10 = c" by (simp_all add: B_def)
  show "(\<forall>k < 16. \<not> B k) \<longleftrightarrow> \<not> a \<and> \<not> r \<and> \<not> c"
  proof
    assume all: "\<forall>k < 16. \<not> B k"
    show "\<not> a \<and> \<not> r \<and> \<not> c" using all [rule_format, of 0] all [rule_format, of 6] all [rule_format, of 10] by (simp add: B)
  qed (simp add: B_def)
  show "(\<forall>k < 6. B k) \<longleftrightarrow> a" "(\<forall>k. 6 \<le> k \<and> k < 10 \<longrightarrow> B k) \<longleftrightarrow> r" "(\<forall>k. 10 \<le> k \<and> k < 16 \<longrightarrow> B k) \<longleftrightarrow> c"
    by (auto simp: B_def intro: exI [of _ 0] exI [of _ 6] exI [of _ 10])
qed

lemma parse_block_eq:
  assumes d: "data_ok d" and e: "data_ok e" and n: "n < 256"
  shows "\<exists>e'. mf_classic_parse_block (butlast (line_text (block_known d n))) e (of_nat n) = Some e' \<and>
    takes_over d n (byte_known d n) (read_at d n) (\<lambda>t. key_at d t (sector_of n) \<and> trailer_block n) e e'"
proof -
  let ?K = "block_known d n" and ?B = "byte_known d n" and ?s = "mf_classic_get_sector_by_block (of_nat n)"
  let ?bs = "map known_or_zero ?K"
  have len: "length ?K = 16" "?K \<noteq> []" by (simp_all add: block_known_def)
  obtain m where m: "parse_block_bytes (butlast (line_text ?K)) = Some (?bs, m)" "\<And>k. bit m k \<longleftrightarrow> k < 16 \<and> \<not> ?B k"
  proof -
    have "k < 16 \<Longrightarrow> ?K ! k = None \<longleftrightarrow> \<not> ?B k" for k by (simp add: block_known_def)
    with parse_line [OF len(1)] that show ?thesis by metis
  qed
  have bs: "length ?bs = 16" "\<And>i. i < 16 \<Longrightarrow> ?B i \<Longrightarrow> ?bs ! i = mfc_block d ! n ! i"
    using len by (simp_all add: block_known_def known_or_zero_def)
  have lend: "length (mfc_block d ! n) = 16" using d n by (simp add: data_ok_def)
  note parts = unknown_part [OF m(2)]
  note parse = mf_classic_parse_block_def trim_text(2) [OF len(2)] m(1) trailer_block_eq [OF n]
  show ?thesis
  proof (cases "trailer_block n")
    case False
    then have B: "?B = (\<lambda>i. read_at d n)" by (auto simp: byte_known_def)
    have p: "m = 0xffff \<longleftrightarrow> \<not> read_at d n" "m = 0 \<longleftrightarrow> read_at d n" using parts(1,2) by (auto simp: B)
    show ?thesis
    proof (cases "read_at d n")
      case True
      obtain e' where "mf_classic_set_block_read e (of_nat n) ?bs = Some e'"
        "takes_over d n (\<lambda>i. trailer_block n \<longrightarrow> 6 \<le> i \<and> i < 10) True (\<lambda>_. False) e e'"
        using block_takes_over [OF d e n bs(1)] bs(2) True B by auto
      with False True p show ?thesis by (auto simp: parse B)
    next
      case no: False
      with False p takes_over_nothing [OF e, of d n] show ?thesis by (auto simp: parse B)
    qed
  next
    case True
    let ?A = "key_at d MfClassicKeyTypeA (sector_of n)" and ?C = "key_at d MfClassicKeyTypeB (sector_of n)"
    have B: "?B i = (if i < 6 then ?A else if i < 10 then read_at d n else ?C)" for i
      using True by (simp add: byte_known_def)
    have p: "m = 0xffff \<longleftrightarrow> \<not> ?A \<and> \<not> read_at d n \<and> \<not> ?C" "m AND 0x003f = 0 \<longleftrightarrow> ?A"
      "m AND 0x03c0 = 0 \<longleftrightarrow> read_at d n" "m AND 0xfc00 = 0 \<longleftrightarrow> ?C"
      using parts(1,3-5) unfolding B trailer_parts by simp_all
    have s: "unat ?s = sector_of n" by (rule sector_u8 [OF n])
    have ka: "take 6 ?bs = take 6 (mfc_block d ! n)" if ?A
      using that bs lend by (intro nth_equalityI) (auto simp: B)
    have kb: "take 6 (drop 10 ?bs) = take 6 (drop 10 (mfc_block d ! n))" if ?C
      using that bs lend by (intro nth_equalityI) (auto simp: B)
    obtain e1 where e1: "(if ?A then do { key \<leftarrow> bit_lib_bytes_to_num_be (take 6 ?bs) 6;
        mf_classic_set_key_found e ?s MfClassicKeyTypeA key } else Some e) = Some e1"
      "takes_over d n (\<lambda>i. ?A \<and> i < 6) False (\<lambda>t. ?A \<and> t = MfClassicKeyTypeA) e e1"
      using key_takes_over [OF d e n True s, of MfClassicKeyTypeA] takes_over_nothing [OF e, of d n] ka
      by (cases ?A) auto
    obtain e2 where e2: "(if read_at d n then mf_classic_set_block_read e1 (of_nat n) ?bs else Some e1) = Some e2"
      "takes_over d n (\<lambda>i. read_at d n \<and> 6 \<le> i \<and> i < 10) (read_at d n) (\<lambda>_. False) e1 e2"
    proof (cases "read_at d n")
      case False
      with takes_over_nothing [of e1 d n] e1(2) that [of e1] show ?thesis by (simp add: takes_over_def)
    next
      case yes: True
      have "data_ok e1" using e1(2) by (simp add: takes_over_def)
      from block_takes_over [OF d this n bs(1)] bs(2) yes B True that show ?thesis by auto
    qed
    have ok2: "data_ok e2" using e2(2) by (simp add: takes_over_def)
    obtain e3 where e3: "(if ?C then do { key \<leftarrow> bit_lib_bytes_to_num_be (take 6 (drop 10 ?bs)) 6;
        mf_classic_set_key_found e2 ?s MfClassicKeyTypeB key } else Some e2) = Some e3"
      "takes_over d n (\<lambda>i. ?C \<and> 10 \<le> i) False (\<lambda>t. ?C \<and> t = MfClassicKeyTypeB) e2 e3"
      using key_takes_over [OF d ok2 n True s, of MfClassicKeyTypeB] takes_over_nothing [OF ok2, of d n] kb
      by (cases ?C) auto
    have "takes_over d n ?B (read_at d n) (\<lambda>t. key_at d t (sector_of n) \<and> trailer_block n) e e3"
    proof (rule iffD1 [OF takes_over_cong])
      show "takes_over d n (\<lambda>i. (?A \<and> i < 6 \<or> read_at d n \<and> 6 \<le> i \<and> i < 10) \<or> ?C \<and> 10 \<le> i) (read_at d n)
        (\<lambda>t. (?A \<and> t = MfClassicKeyTypeA \<or> False) \<or> ?C \<and> t = MfClassicKeyTypeB) e e3"
        using takes_over_trans [OF takes_over_trans [OF e1(2) e2(2)] e3(2)] by simp
      show "(?A \<and> t = MfClassicKeyTypeA \<or> False) \<or> ?C \<and> t = MfClassicKeyTypeB \<longleftrightarrow> key_at d t (sector_of n) \<and> trailer_block n" for t
        using True by (cases t) auto
    qed (auto simp: B)
    moreover have "mf_classic_parse_block (butlast (line_text ?K)) e (of_nat n) = Some e3"
    proof (cases "m = 0xffff")
      case True
      with p e1(1) e2(1) e3(1) show ?thesis by (simp add: parse)
    next
      case False
      then show ?thesis
        by (simp only: parse Let_def Option.bind.simps split if_False True if_True p(2-4) e1(1) e2(1) e3(1))
    qed
    ultimately show ?thesis by blast
  qed
qed

lemma blocks_total: "unat (mf_classic_get_total_block_num t) \<le> 256 \<and>
    (\<forall>s. s < unat (mf_classic_get_total_sectors_num t) \<longrightarrow> s < 40 \<and> trailer_of s < unat (mf_classic_get_total_block_num t))"
  by (cases t) (auto simp: mf_classic_get_total_block_num_def mf_classic_get_total_sectors_num_def mf_classic_features_def trailer_of_def)

lemma save_blocks_eq:
  assumes "data_ok d"
  shows "mf_classic_save_blocks d =
    Some (map (\<lambda>n. butlast (line_text (block_known d n))) [0..<unat (mf_classic_get_total_block_num (mfc_type d))])"
proof -
  let ?n = "unat (mf_classic_get_total_block_num (mfc_type d))"
  have "\<exists>t. mf_classic_save_blocks d = Some t \<and> t = map (\<lambda>n. butlast (line_text (block_known d n))) [0..<?n]"
    unfolding mf_classic_save_blocks_def
    by (rule ofold_upt_inv) (use blocks_total [of "mfc_type d"] in \<open>simp_all add: set_block_str_eq [OF assms]\<close>)
  then show ?thesis by simp
qed

lemma load_blocks_known:
  assumes d: "data_ok d" and e: "data_ok e" "mfc_type e = mfc_type d"
    and blank: "\<And>k. k < 256 \<Longrightarrow> \<not> read_at e k" "\<And>t s. s < 40 \<Longrightarrow> \<not> key_at e t s"
  defines "n \<equiv> unat (mf_classic_get_total_block_num (mfc_type d))"
  shows "\<exists>f. mf_classic_load_blocks e (map (\<lambda>n. butlast (line_text (block_known d n))) [0..<n]) = Some (True, f) \<and>
    data_ok f \<and> mfc_type f = mfc_type d \<and> mfc_iso14443_3a_data f = mfc_iso14443_3a_data e \<and>
    (\<forall>k < 256. read_at f k \<longleftrightarrow> k < n \<and> read_at d k) \<and> (\<forall>t. \<forall>s < 40. key_at f t s \<longleftrightarrow> trailer_of s < n \<and> key_at d t s) \<and>
    (\<forall>k < n. \<forall>i < 16. byte_known d k i \<longrightarrow> mfc_block f ! k ! i = mfc_block d ! k ! i)"
proof -
  let ?lines = "map (\<lambda>n. butlast (line_text (block_known d n))) [0..<n]"
  let ?I = "\<lambda>j (ok, f). ok \<and> data_ok f \<and> mfc_type f = mfc_type d \<and> mfc_iso14443_3a_data f = mfc_iso14443_3a_data e \<and>
    (\<forall>k < 256. read_at f k \<longleftrightarrow> k < j \<and> read_at d k) \<and> (\<forall>t. \<forall>s < 40. key_at f t s \<longleftrightarrow> trailer_of s < j \<and> key_at d t s) \<and>
    (\<forall>k < j. \<forall>i < 16. byte_known d k i \<longrightarrow> mfc_block f ! k ! i = mfc_block d ! k ! i)"
  let ?f = "\<lambda>i (block_read, data).
       if \<not> block_read \<or> length ?lines \<le> i then Some (False, data)
       else do { data \<leftarrow> mf_classic_parse_block (?lines ! i) data (of_nat i); Some (True, data) }"
  have n: "n \<le> 256" using blocks_total by (simp add: n_def)
  have "\<exists>t. ofold ?f [0..<n] (True, e) = Some t \<and> ?I n t"
  proof (rule ofold_upt_inv [where I = ?I])
    show "?I 0 (True, e)" using e blank by simp
  next
    fix j t assume j: "j < n" and "?I j t"
    then obtain f where t: "t = (True, f)" and f: "?I j (True, f)" by auto
    have j256: "j < 256" using j n by simp
    obtain g where g: "mf_classic_parse_block (butlast (line_text (block_known d j))) f (of_nat j) = Some g"
      "takes_over d j (byte_known d j) (read_at d j) (\<lambda>t. key_at d t (sector_of j) \<and> trailer_block j) f g"
      using parse_block_eq [OF d _ j256, of f] f by auto
    have key: "trailer_of s < Suc j \<longleftrightarrow> trailer_of s < j \<or> trailer_of s = j \<and> sector_of j = s \<and> trailer_block j" if "s < 40" for s
      using sector_of_trailer [OF that] by (cases "trailer_of s = j") (auto simp: less_Suc_eq trailer_block_def)
    have "mfc_block g ! k ! i = mfc_block d ! k ! i" if "k < Suc j" "i < 16" "byte_known d k i" for k i
    proof (cases "k = j")
      case True
      with that g(2) j256 show ?thesis by (simp add: takes_over_def)
    next
      case False
      then have "k < j" using that(1) by simp
      with that g(2) j256 f False show ?thesis by (simp add: takes_over_def)
    qed
    moreover have "read_at g k \<longleftrightarrow> k < Suc j \<and> read_at d k" if "k < 256" for k
      using that g(2) f by (auto simp: takes_over_def less_Suc_eq)
    moreover have "key_at g t s \<longleftrightarrow> trailer_of s < Suc j \<and> key_at d t s" if "s < 40" for t s
      using that g(2) f key [OF that] by (auto simp: takes_over_def)
    ultimately have "?I (Suc j) (True, g)"
      using g(2) f by (simp add: takes_over_def)
    moreover have "?f j t = Some (True, g)" using j g(1) by (simp add: t)
    ultimately show "\<exists>t'. ?f j t = Some t' \<and> ?I (Suc j) t'" by blast
  qed
  then obtain f where "ofold ?f [0..<n] (True, e) = Some (True, f)" "?I n (True, f)" by auto
  then show ?thesis unfolding mf_classic_load_blocks_def e(2) n_def [symmetric] by (intro exI [of _ f]) simp
qed

lemma get_key_eq:
  assumes "data_ok d" "unat s < unat (mf_classic_get_total_sectors_num (mfc_type d))"
  shows "mf_classic_get_key d s t = Some (case t of MfClassicKeyTypeA \<Rightarrow> take 6 (mfc_block d ! trailer_of (unat s))
    | MfClassicKeyTypeB \<Rightarrow> take 6 (drop 10 (mfc_block d ! trailer_of (unat s))))"
  using assms blocks_total [of "mfc_type d"] trailer_of_less [of "unat s"]
  by (simp add: mf_classic_get_key_def word_less_nat_alt trailer_index rd_ok data_ok_def)

text \<open>C16: The lines of the blocks of a card, loaded into an empty card of its type, restore what was known: the same
  blocks count as read and the same keys as found, the found keys are equal, and so are the data blocks that were read and
  the access bits of the trailers that were read.\<close>

theorem blocks_text_roundtrip:
  assumes d: "data_ok d"
  shows "\<exists>lines f. mf_classic_save_blocks d = Some lines \<and>
    mf_classic_load_blocks (mf_classic_alloc\<lparr>mfc_type := mfc_type d\<rparr>) lines = Some (True, f) \<and>
    (\<forall>n < mf_classic_get_total_block_num (mfc_type d).
       mf_classic_is_block_read f (ucast n) = mf_classic_is_block_read d (ucast n) \<and>
       (mf_classic_is_block_read d (ucast n) = Some True \<longrightarrow>
          (if mf_classic_is_sector_trailer (ucast n)
           then take 4 (drop 6 (mfc_block f ! unat n)) = take 4 (drop 6 (mfc_block d ! unat n))
           else mfc_block f ! unat n = mfc_block d ! unat n))) \<and>
    (\<forall>s < mf_classic_get_total_sectors_num (mfc_type d). \<forall>t.
       mf_classic_is_key_found f s t = mf_classic_is_key_found d s t \<and>
       (mf_classic_is_key_found d s t = Some True \<longrightarrow> mf_classic_get_key f s t = mf_classic_get_key d s t))"
proof -
  let ?e = "mf_classic_alloc\<lparr>mfc_type := mfc_type d\<rparr>" and ?n = "unat (mf_classic_get_total_block_num (mfc_type d))"
  let ?lines = "map (\<lambda>n. butlast (line_text (block_known d n))) [0..<?n]"
  have e: "data_ok ?e" by (simp add: data_ok_def mf_classic_alloc_def)
  have blank: "k < 256 \<Longrightarrow> \<not> read_at ?e k" "\<not> key_at ?e t s" for k t s
    by (simp_all add: read_at_def key_at_def mf_classic_alloc_def split: MfClassicKeyType.split)
  obtain f where f: "mf_classic_load_blocks ?e ?lines = Some (True, f)" "data_ok f" "mfc_type f = mfc_type d"
    "\<forall>k < 256. read_at f k \<longleftrightarrow> k < ?n \<and> read_at d k" "\<forall>t. \<forall>s < 40. key_at f t s \<longleftrightarrow> trailer_of s < ?n \<and> key_at d t s"
    "\<forall>k < ?n. \<forall>i < 16. byte_known d k i \<longrightarrow> mfc_block f ! k ! i = mfc_block d ! k ! i"
    using load_blocks_known [OF d e _ blank] by auto
  have lens: "length (mfc_block d ! k) = 16" "length (mfc_block f ! k) = 16" if "k < 256" for k
    using d f(2) that by (simp_all add: data_ok_def)
  have blocks: "mf_classic_is_block_read f (ucast n) = mf_classic_is_block_read d (ucast n) \<and>
       (mf_classic_is_block_read d (ucast n) = Some True \<longrightarrow>
          (if mf_classic_is_sector_trailer (ucast n)
           then take 4 (drop 6 (mfc_block f ! unat n)) = take 4 (drop 6 (mfc_block d ! unat n))
           else mfc_block f ! unat n = mfc_block d ! unat n))"
    if "n < mf_classic_get_total_block_num (mfc_type d)" for n :: u16
  proof -
    have k: "unat n < ?n" "unat n < 256" using that blocks_total [of "mfc_type d"] by (auto simp: word_less_nat_alt)
    have u: "(ucast n :: u8) = of_nat (unat n)" by (simp add: unsigned_ucast_eq)
    have eq: "byte_known d (unat n) i \<Longrightarrow> i < 16 \<Longrightarrow> mfc_block f ! unat n ! i = mfc_block d ! unat n ! i" for i
      using f(6) k(1) by blast
    have "take 4 (drop 6 (mfc_block f ! unat n)) = take 4 (drop 6 (mfc_block d ! unat n))"
      if "trailer_block (unat n)" "read_at d (unat n)"
      using lens [OF k(2)] eq that by (intro nth_equalityI) (auto simp: byte_known_def)
    moreover have "mfc_block f ! unat n = mfc_block d ! unat n" if "\<not> trailer_block (unat n)" "read_at d (unat n)"
      using lens [OF k(2)] eq that by (intro nth_equalityI) (auto simp: byte_known_def)
    ultimately show ?thesis using f(4) k
      by (simp only: is_read_eq [OF d k(2), folded u] is_read_eq [OF f(2) k(2), folded u] trailer_block_eq [OF k(2), folded u]
        option.inject eq_True simp_thms split: if_split) blast
  qed
  have keys: "mf_classic_is_key_found f s t = mf_classic_is_key_found d s t \<and>
       (mf_classic_is_key_found d s t = Some True \<longrightarrow> mf_classic_get_key f s t = mf_classic_get_key d s t)"
    if "s < mf_classic_get_total_sectors_num (mfc_type d)" for s t
  proof -
    have s: "unat s < 40" "trailer_of (unat s) < ?n" "unat s < unat (mf_classic_get_total_sectors_num (mfc_type d))"
      using that blocks_total [of "mfc_type d"] by (auto simp: word_less_nat_alt)
    let ?k = "trailer_of (unat s)"
    have tr: "trailer_block ?k" "sector_of ?k = unat s" using sector_of_trailer [OF s(1)] by (simp_all add: trailer_block_def)
    have eq: "byte_known d ?k i \<Longrightarrow> i < 16 \<Longrightarrow> mfc_block f ! ?k ! i = mfc_block d ! ?k ! i" for i
      using f(6) s(2) by blast
    have "mf_classic_get_key f s t = mf_classic_get_key d s t" if "key_at d t (unat s)"
      using that eq lens [OF trailer_of_less [OF s(1)]] tr
      by (simp add: get_key_eq [OF d s(3)] get_key_eq [OF f(2)] f(3) s(3))
        (cases t; simp; intro nth_equalityI; auto simp: byte_known_def)
    with f(5) s show ?thesis by (simp add: is_found_eq)
  qed
  show ?thesis using save_blocks_eq [OF d] f(1) blocks keys by blast
qed

theorem blocks_text_roundtrip_witness:
  "\<exists>lines f. mf_classic_save_blocks (mf_classic_alloc\<lparr>key_a_mask := 1, block_read_mask := 5 # replicate 7 0\<rparr>) = Some lines \<and>
    mf_classic_load_blocks mf_classic_alloc lines = Some (True, f) \<and> mf_classic_is_key_found f 0 MfClassicKeyTypeA = Some True"
proof -
  let ?d = "mf_classic_alloc\<lparr>key_a_mask := 1, block_read_mask := 5 # replicate 7 0\<rparr>"
  have d: "data_ok ?d" by (simp add: data_ok_def mf_classic_alloc_def)
  have e: "mf_classic_alloc\<lparr>mfc_type := mfc_type ?d\<rparr> = mf_classic_alloc" by (simp add: mf_classic_alloc_def)
  have s: "0 < mf_classic_get_total_sectors_num (mfc_type ?d)" by (simp add: mf_classic_alloc_def) code_simp
  have k: "mf_classic_is_key_found ?d 0 MfClassicKeyTypeA = Some True" by (simp add: mf_classic_is_key_found_def mask_bit_eq)
  from blocks_text_roundtrip [OF d] s k show ?thesis unfolding e by metis
qed

end
