(* ===== verification/Iso14443_3a_Facts.thy ===== *)
theory Iso14443_3a_Facts
  imports Iso14443_3a
begin

text \<open>
  Properties of the ISO 14443-3 A layer: the collision resolution ends for every card and never
  writes behind the UID, and a card that follows the standard is found with its UID.
\<close>

subsection \<open>Frames\<close>

lemma copy_bytes_ok:
  assumes "bb_ok b" "length xs = n" "n \<le> bb_capacity_bytes b"
  shows "\<exists>b'. bit_buffer_copy_bytes b xs n = Some b' \<and> bb_ok b' \<and> bb_bytes b' = xs \<and> bb_size_bits b' = 8 * n \<and>
    bb_capacity_bytes b' = bb_capacity_bytes b"
proof -
  have "length (bb_data b) = bb_capacity_bytes b" using assms(1) by (simp add: bb_ok_def)
  with assms have b': "bit_buffer_copy_bytes b xs n = Some (b\<lparr>bb_data := xs @ drop n (bb_data b), bb_size_bits := n * 8\<rparr>)"
    by (simp add: bit_buffer_copy_bytes_def memcpy_ok)
  with copy_bytes_keeps [OF assms(1) this] assms(2) show ?thesis
    by (simp add: bb_bytes_def)
qed

lemma append_crc_ok:
  assumes "bb_ok b" "bb_size_bits b = 8 * n" "0 < n" "n + 2 \<le> bb_capacity_bytes b"
  shows "\<exists>b'. iso14443_crc_append t b = Some b' \<and> bb_ok b' \<and> iso14443_crc_check t b' = Some True \<and>
    bb_capacity_bytes b' = bb_capacity_bytes b \<and> bb_size_bits b' = 8 * (n + 2) \<and> take n (bb_bytes b') = bb_bytes b"
proof -
  have n: "bit_buffer_get_size_bytes b = n" "\<not> bit_buffer_has_partial_byte b"
    using assms(2) by (simp_all add: bit_buffer_get_size_bytes_def bit_buffer_has_partial_byte_def)
  have len: "length (bb_bytes b) = n" using length_bb_bytes [OF assms(1)] n by simp
  obtain b' b'' where b': "iso14443_crc_append t b = Some b'" "bb_ok b'" "iso14443_crc_check t b' = Some True"
    "bb_bytes b' = bb_bytes b @ iso14443.trailer t (bb_bytes b)"
    using iso14443.append_check_trim [OF assms(1) n(2), of t] assms n by auto
  have app: "bit_buffer_append_bytes b (iso14443.trailer t (bb_bytes b)) 2 = Some b'"
    using b'(1) iso14443.calc_prefix [OF assms(1) order_refl, of t] len n(1)
    by (simp add: iso14443_crc_append_def iso14443.trailer_def)
  then have "bb_size_bits b' = bb_size_bits b + 16" "bb_capacity_bytes b' = bb_capacity_bytes b"
    by (auto simp: bit_buffer_append_bytes_def Let_def bind_eq_Some_conv split: if_splits)
  with b' len assms(2) show ?thesis by simp
qed

lemma crc_check_total:
  assumes "bb_ok b"
  shows "\<exists>r. iso14443_crc_check t b = Some r \<and> (r \<longrightarrow> 2 < bit_buffer_get_size_bytes b)"
proof (cases "bit_buffer_get_size_bytes b \<le> 2")
  case True
  then show ?thesis by (intro exI [of _ False]) (simp add: iso14443_crc_check_def Let_def)
next
  case False
  let ?n = "bit_buffer_get_size_bytes b - 2"
  have len: "length (bb_bytes b) = ?n + 2" using length_bb_bytes [OF assms] False by simp
  have "iso14443_crc_check t b = Some (drop ?n (bb_bytes b) = iso14443.trailer t (take ?n (bb_bytes b)))"
    by (rule iso14443.check_iff [OF assms]) (use len False in auto)
  with False show ?thesis by simp
qed

lemma crc_trim_ok:
  assumes "bb_ok b" "2 < bit_buffer_get_size_bytes b"
  shows "\<exists>b'. iso14443_crc_trim b = Some b' \<and> bb_ok b' \<and> bb_bytes b' = take (bit_buffer_get_size_bytes b - 2) (bb_bytes b) \<and>
    bb_size_bits b' = 8 * (bit_buffer_get_size_bytes b - 2) \<and> bb_capacity_bytes b' = bb_capacity_bytes b"
proof -
  let ?n = "bit_buffer_get_size_bytes b - 2"
  have le: "bit_buffer_get_size_bytes b \<le> bb_capacity_bytes b" by (rule size_bytes_le [OF assms(1)])
  then have t: "iso14443_crc_trim b = Some (b\<lparr>bb_size_bits := ?n * 8\<rparr>)"
    using assms(2) by (simp add: iso14443_crc_trim_def bit_buffer_set_size_bytes_def Let_def)
  have "bb_ok (b\<lparr>bb_size_bits := ?n * 8\<rparr>)" using assms(1) le by (simp add: bb_ok_def)
  moreover have "bb_bytes (b\<lparr>bb_size_bits := ?n * 8\<rparr>) = take ?n (bb_bytes b)"
    by (simp add: bb_bytes_def min_absorb1)
  ultimately show ?thesis using t by simp
qed

subsection \<open>Any card\<close>

text \<open>What is asked of the driver: it keeps the receive buffer a buffer of the same capacity.\<close>

definition keeps_buffer :: "('n \<Rightarrow> bit_buffer \<Rightarrow> NfcError \<times> bit_buffer \<times> 'n) \<Rightarrow> bool" where
  "keeps_buffer f \<longleftrightarrow> (\<forall>n rx. bb_ok rx \<longrightarrow> bb_ok (fst (snd (f n rx))) \<and>
     bb_capacity_bytes (fst (snd (f n rx))) = bb_capacity_bytes rx)"

definition driver_ok :: "'n nfc_driver \<Rightarrow> bool" where
  "driver_ok drv \<longleftrightarrow> (\<forall>tx. keeps_buffer (\<lambda>n. nfc_poller_trx drv n tx)) \<and> keeps_buffer (nfc_trx_sens_req drv) \<and>
     (\<forall>tx. keeps_buffer (\<lambda>n. nfc_trx_sdd_frame drv n tx)) \<and> (\<forall>tx. keeps_buffer (\<lambda>n. nfc_trx_custom_parity drv n tx))"

lemma driver_keeps:
  assumes "driver_ok drv" "bb_ok rx"
  shows "nfc_poller_trx drv n tx rx = (e, rx', n') \<Longrightarrow> bb_ok rx' \<and> bb_capacity_bytes rx' = bb_capacity_bytes rx"
    and "nfc_trx_sens_req drv n rx = (e, rx', n') \<Longrightarrow> bb_ok rx' \<and> bb_capacity_bytes rx' = bb_capacity_bytes rx"
    and "nfc_trx_sdd_frame drv n tx rx = (e, rx', n') \<Longrightarrow> bb_ok rx' \<and> bb_capacity_bytes rx' = bb_capacity_bytes rx"
    and "nfc_trx_custom_parity drv n tx rx = (e, rx', n') \<Longrightarrow> bb_ok rx' \<and> bb_capacity_bytes rx' = bb_capacity_bytes rx"
  using assms unfolding driver_ok_def keeps_buffer_def by (metis fst_conv snd_conv)+

definition poller_ok :: "'n Iso14443_3aPoller \<Rightarrow> bool" where
  "poller_ok p \<longleftrightarrow> bb_ok (p3_tx_buffer p) \<and> bb_ok (p3_rx_buffer p) \<and> 9 \<le> bb_capacity_bytes (p3_tx_buffer p) \<and>
     5 \<le> bb_capacity_bytes (p3_rx_buffer p) \<and>
     length (sens_resp (p3_col_res p)) = 2 \<and> length (sdd_resp (p3_col_res p)) = 5 \<and> length (sel_req (p3_col_res p)) = 7 \<and>
     length (i3_uid (p3_data p)) = 10 \<and> length (i3_atqa (p3_data p)) = 2"

lemma exchange_total:
  assumes drv: "driver_ok drv" and p: "poller_ok p" and tx: "bb_size_bits (p3_tx_buffer p) = 8 * k" "0 < k" "k \<le> 7"
  shows "\<exists>ret p'. iso14443_3a_poller_standard_frame_exchange drv p None None = Some (ret, p', None) \<and> poller_ok p' \<and>
    p3_state p' = p3_state p \<and> p3_col_res p' = p3_col_res p \<and> p3_data p' = p3_data p"
proof -
  have b: "bb_ok (p3_tx_buffer p)" "k + 2 \<le> bb_capacity_bytes (p3_tx_buffer p)" using p tx(3) by (simp_all add: poller_ok_def)
  obtain tx' where t: "iso14443_crc_append Iso14443CrcTypeA (p3_tx_buffer p) = Some tx'" "bb_ok tx'"
    "bb_capacity_bytes tx' = bb_capacity_bytes (p3_tx_buffer p)"
    using append_crc_ok [OF b(1) tx(1,2) b(2), of Iso14443CrcTypeA] by blast
  obtain error rx n where e: "nfc_poller_trx drv (p3_nfc p) tx' (p3_rx_buffer p) = (error, rx, n)"
    by (cases "nfc_poller_trx drv (p3_nfc p) tx' (p3_rx_buffer p)") auto
  have rx: "bb_ok rx" "5 \<le> bb_capacity_bytes rx" using driver_keeps(1) [OF drv _ e] p by (simp_all add: poller_ok_def)
  let ?p = "p\<lparr>p3_tx_buffer := tx', p3_rx_buffer := rx, p3_nfc := n\<rparr>"
  have ok: "poller_ok ?p" using p t rx by (simp add: poller_ok_def)
  have le: "\<not> bit_buffer_get_capacity_bytes rx < bit_buffer_get_size_bytes rx"
    using size_bytes_le [OF rx(1)] by (simp add: bit_buffer_get_capacity_bytes_def)
  obtain r where r: "iso14443_crc_check Iso14443CrcTypeA rx = Some r" "r \<longrightarrow> 2 < bit_buffer_get_size_bytes rx"
    using crc_check_total [OF rx(1)] by blast
  show ?thesis
  proof (cases "error = NfcErrorNone \<and> r")
    case False
    then show ?thesis
      using t(1) e le r(1) ok by (auto simp: iso14443_3a_poller_standard_frame_exchange_def Let_def)
  next
    case True
    obtain rx' where x: "iso14443_crc_trim rx = Some rx'" "bb_ok rx'" "bb_capacity_bytes rx' = bb_capacity_bytes rx"
      using crc_trim_ok [OF rx(1)] True r(2) by blast
    have "poller_ok (?p\<lparr>p3_rx_buffer := rx'\<rparr>)" using ok x(2,3) by (simp add: poller_ok_def)
    with True t(1) e le r(1) x(1) show ?thesis
      by (auto simp: iso14443_3a_poller_standard_frame_exchange_def Let_def)
  qed
qed

text \<open>The loop: each level has two rounds, and the UID grows by three bytes per level.\<close>

definition in_progress :: "'n Iso14443_3aPoller \<Rightarrow> nat \<Rightarrow> bool" where
  "in_progress p l \<longleftrightarrow> poller_ok p \<and> p3_state p = Iso14443_3aPollerStateColResInProgress \<and> l \<le> 2 \<and>
     cascade_level (p3_col_res p) = of_nat l \<and> i3_uid_len (p3_data p) = of_nat (3 * l) \<and>
     cr_state (p3_col_res p) \<in> {Iso14443_3aPollerColResStateStateNewCascade, Iso14443_3aPollerColResStateStateSelectCascade}"

definition resolved :: "Iso14443_3aError \<Rightarrow> 'n Iso14443_3aPoller \<Rightarrow> bool" where
  "resolved ret p \<longleftrightarrow> poller_ok p \<and> i3_uid_len (p3_data p) \<le> 10 \<and>
     (if ret = Iso14443_3aErrorNone
      then p3_state p = Iso14443_3aPollerStateActivated \<and> unat (i3_uid_len (p3_data p)) \<in> {4, 7, 10}
      else p3_state p = Iso14443_3aPollerStateColResFailed)"

definition rounds_left :: "'n Iso14443_3aPoller \<Rightarrow> nat \<Rightarrow> nat" where
  "rounds_left p l = 2 * (3 - l) + of_bool (cr_state (p3_col_res p) = Iso14443_3aPollerColResStateStateNewCascade)"

lemma level_cases: "l \<le> 2 \<Longrightarrow> (l = 0 \<Longrightarrow> P) \<Longrightarrow> (l = 1 \<Longrightarrow> P) \<Longrightarrow> (l = 2 \<Longrightarrow> P) \<Longrightarrow> P" for l :: nat
  by linarith

lemma in_progress_uid: "in_progress p l \<Longrightarrow> i3_uid_len (p3_data p) \<le> 6 \<and> unat (i3_uid_len (p3_data p)) = 3 * l"
  unfolding in_progress_def by (elim conjE level_cases [of l]) simp_all

lemma failed_resolved:
  assumes "poller_ok p" "i3_uid_len (p3_data p) \<le> 6"
  shows "resolved Iso14443_3aErrorColResFailed (col_res_failed p)"
  using assms by (simp add: resolved_def poller_ok_def word_le_nat_alt)

lemma set_byte_ok:
  assumes "bb_ok b" "i < bit_buffer_get_size_bytes b"
  shows "\<exists>b'. bit_buffer_set_byte b i x = Some b' \<and> bb_ok b' \<and> bb_size_bits b' = bb_size_bits b \<and>
    bb_capacity_bytes b' = bb_capacity_bytes b \<and> bb_data b' = (bb_data b)[i := x]"
proof -
  have "i < length (bb_data b)" using assms bb_ok_data [OF assms(1)] by simp
  then have b': "bit_buffer_set_byte b i x = Some (b\<lparr>bb_data := (bb_data b)[i := x]\<rparr>)"
    using assms(2) by (simp add: bit_buffer_set_byte_def wr_ok)
  with set_byte_keeps [OF assms(1) b'] show ?thesis by simp
qed

lemma write_bytes_ok:
  "bb_ok b \<Longrightarrow> bit_buffer_get_size_bytes b = n \<Longrightarrow> length dest = n \<Longrightarrow> bit_buffer_write_bytes b dest n = Some (bb_bytes b)"
  using bb_ok_data [of b] by (simp add: bit_buffer_write_bytes_def memcpy_ok bb_bytes_def)

text \<open>The frame that asks for a cascade level.\<close>

lemma sdd_frame:
  assumes "bb_ok tx" "9 \<le> bb_capacity_bytes tx"
  shows "\<exists>tx'. (do { tx \<leftarrow> bit_buffer_set_size_bytes tx 2; tx \<leftarrow> bit_buffer_set_byte tx 0 a; bit_buffer_set_byte tx 1 b }) = Some tx' \<and>
    bb_ok tx' \<and> bb_capacity_bytes tx' = bb_capacity_bytes tx \<and> bb_bytes tx' = [a, b] \<and> bb_size_bits tx' = 16"
proof -
  let ?t = "tx\<lparr>bb_size_bits := 16\<rparr>"
  have 0: "bit_buffer_set_size_bytes tx 2 = Some ?t" "bb_ok ?t" "bit_buffer_get_size_bytes ?t = 2"
    using assms by (simp_all add: bit_buffer_set_size_bytes_def bb_ok_def bit_buffer_get_size_bytes_def)
  obtain t1 where 1: "bit_buffer_set_byte ?t 0 a = Some t1" "bb_ok t1" "bb_size_bits t1 = 16"
    "bb_capacity_bytes t1 = bb_capacity_bytes tx" "bb_data t1 = (bb_data tx)[0 := a]"
    using set_byte_ok [OF 0(2), of 0 a] 0(3) by auto
  have n1: "bit_buffer_get_size_bytes t1 = 2" using 1(3) by (simp add: bit_buffer_get_size_bytes_def)
  obtain t2 where 2: "bit_buffer_set_byte t1 1 b = Some t2" "bb_ok t2" "bb_size_bits t2 = 16"
    "bb_capacity_bytes t2 = bb_capacity_bytes tx" "bb_data t2 = (bb_data tx)[0 := a, 1 := b]"
    using set_byte_ok [OF 1(2), of 1 b] n1 1 by auto
  have "length (bb_data tx) \<ge> 2" using assms by (simp add: bb_ok_def)
  then have "bb_bytes t2 = [a, b]"
    using 2(3,5) by (cases "bb_data tx" rule: list.exhaust; cases "tl (bb_data tx)")
      (auto simp: bb_bytes_def bit_buffer_get_size_bytes_def numeral_2_eq_2 One_nat_def)
  with 0(1) 1(1) 2 show ?thesis by simp
qed

lemma new_cascade_step:
  assumes drv: "driver_ok drv" and p: "in_progress p l" "cr_state (p3_col_res p) = Iso14443_3aPollerColResStateStateNewCascade"
  shows "\<exists>ret' p'. col_res_new_cascade drv ret p = Some (ret', p') \<and>
    (resolved ret' p' \<or> ret' = ret \<and> in_progress p' l \<and> rounds_left p' l < rounds_left p l)"
proof -
  have ok: "poller_ok p" using p(1) by (simp add: in_progress_def)
  have uid: "i3_uid_len (p3_data p) \<le> 6" using in_progress_uid [OF p(1)] by simp
  obtain tx where tx: "(do { tx \<leftarrow> bit_buffer_set_size_bytes (p3_tx_buffer p) 2;
      tx \<leftarrow> bit_buffer_set_byte tx 0 (ISO14443_3A_POLLER_SEL_CMD (cascade_level (p3_col_res p)));
      bit_buffer_set_byte tx 1 (ISO14443_3A_POLLER_SEL_PAR 2 0) }) = Some tx" "bb_ok tx"
    "bb_capacity_bytes tx = bb_capacity_bytes (p3_tx_buffer p)"
    using sdd_frame [of "p3_tx_buffer p"] ok by (auto simp: poller_ok_def)
  obtain error rx n where e: "nfc_trx_sdd_frame drv (p3_nfc p) tx (p3_rx_buffer p) = (error, rx, n)"
    by (cases "nfc_trx_sdd_frame drv (p3_nfc p) tx (p3_rx_buffer p)") auto
  have rx: "bb_ok rx" "5 \<le> bb_capacity_bytes rx" using driver_keeps(3) [OF drv _ e] ok by (simp_all add: poller_ok_def)
  let ?p = "p\<lparr>p3_tx_buffer := tx, p3_rx_buffer := rx, p3_nfc := n\<rparr>"
  have ok': "poller_ok ?p" using ok tx rx by (simp add: poller_ok_def)
  have step: "col_res_new_cascade drv ret p =
    (if error \<noteq> NfcErrorNone \<or> bit_buffer_get_size_bytes rx \<noteq> 5 then Some (Iso14443_3aErrorColResFailed, col_res_failed ?p)
     else do { resp \<leftarrow> bit_buffer_write_bytes rx (sdd_resp (p3_col_res ?p)) 5;
       Some (ret, update_col_res (\<lambda>c. c\<lparr>sdd_resp := resp, cr_state := Iso14443_3aPollerColResStateStateSelectCascade\<rparr>) ?p) })"
    unfolding col_res_new_cascade_def using tx(1) e
    by (auto simp: bind_eq_Some_conv Let_def)
  show ?thesis
  proof (cases "error \<noteq> NfcErrorNone \<or> bit_buffer_get_size_bytes rx \<noteq> 5")
    case True
    with step failed_resolved [OF ok'] uid show ?thesis by auto
  next
    case False
    have w: "bit_buffer_write_bytes rx (sdd_resp (p3_col_res p)) 5 = Some (bb_bytes rx)" "length (bb_bytes rx) = 5"
      using write_bytes_ok [OF rx(1), of 5] length_bb_bytes [OF rx(1)] False ok by (auto simp: poller_ok_def)
    with step False ok' p show ?thesis
      by (auto simp: in_progress_def update_col_res_def poller_ok_def rounds_left_def)
  qed
qed

lemma fill_sel_req_ok:
  assumes "length (sel_req c) = 7" "length (sdd_resp c) = 5"
  shows "fill_sel_req c = Some ([ISO14443_3A_POLLER_SEL_CMD (cascade_level c), ISO14443_3A_POLLER_SEL_PAR 7 0] @ sdd_resp c)"
proof -
  obtain r0 r1 r2 r3 r4 r5 r6 where "sel_req c = [r0, r1, r2, r3, r4, r5, r6]"
    using assms(1) by (auto simp: numeral_eq_Suc length_Suc_conv)
  moreover obtain s0 s1 s2 s3 s4 where "sdd_resp c = [s0, s1, s2, s3, s4]"
    using assms(2) by (auto simp: numeral_eq_Suc length_Suc_conv)
  ultimately show ?thesis by (simp add: fill_sel_req_def wr_def rd_def memcpy_def numeral_eq_Suc One_nat_def)
qed

lemma selected_step:
  assumes p: "in_progress p l" "cr_state (p3_col_res p) = Iso14443_3aPollerColResStateStateSelectCascade"
  shows "\<exists>ret p'. col_res_selected Iso14443_3aErrorNone p = Some (ret, p') \<and>
    (resolved ret p' \<or> ret = Iso14443_3aErrorNone \<and> in_progress p' (l + 1) \<and> rounds_left p' (l + 1) < rounds_left p l)"
proof -
  have ok: "poller_ok p" and l: "l \<le> 2" using p(1) by (simp_all add: in_progress_def)
  let ?d = "p3_data p" and ?c = "p3_col_res p"
  have uid: "i3_uid_len ?d \<le> 6" "unat (i3_uid_len ?d) = 3 * l" using in_progress_uid [OF p(1)] by simp_all
  have lens: "length (i3_uid ?d) = 10" "length (sel_req ?c) = 7" using ok by (simp_all add: poller_ok_def)
  consider "sel_resp ?c AND 4 \<noteq> 0" "l = 2" | "sel_resp ?c AND 4 \<noteq> 0" "l < 2" | "sel_resp ?c AND 4 = 0" using l by linarith
  then show ?thesis
  proof cases
    case 1
    then have "col_res_selected Iso14443_3aErrorNone p = Some (Iso14443_3aErrorColResFailed, col_res_failed p)"
      using p(1) by (simp add: col_res_selected_def in_progress_def)
    with failed_resolved [OF ok uid(1)] show ?thesis by auto
  next
    case 2
    obtain u where u: "memcpy (i3_uid ?d) (3 * l) (sel_req ?c) 3 3 = Some u" "length u = 10"
      using lens 2(2) by (auto simp: memcpy_def)
    have level: "\<not> 2 \<le> cascade_level ?c" "cascade_level ?c + 1 = of_nat (l + 1)" "i3_uid_len ?d + 3 = of_nat (3 * (l + 1))"
      using p(1) 2(2) by (auto simp: in_progress_def less_2_cases_iff word_le_nat_alt)
    moreover have "2 * (2 - l) + 1 < 2 * (3 - l)" using 2(2) by arith
    ultimately show ?thesis
      using 2 u ok p uid(2) by (simp add: col_res_selected_def in_progress_def poller_ok_def rounds_left_def Let_def)
  next
    case 3
    obtain u where u: "memcpy (i3_uid ?d) (3 * l) (sel_req ?c) 2 4 = Some u" "length u = 10"
      using lens l by (auto simp: memcpy_def)
    have len: "i3_uid_len ?d + 4 \<le> 10" "unat (i3_uid_len ?d + 4) \<in> {4, 7, 10}"
      using p(1) l unfolding in_progress_def by (elim conjE level_cases [of l]; simp)+
    with 3 u ok uid(2) show ?thesis
      by (simp add: col_res_selected_def resolved_def poller_ok_def Let_def)
  qed
qed

lemma select_cascade_step:
  assumes drv: "driver_ok drv" and p: "in_progress p l" "cr_state (p3_col_res p) = Iso14443_3aPollerColResStateStateSelectCascade"
  shows "\<exists>ret' p'. col_res_select_cascade drv p = Some (ret', p') \<and>
    (resolved ret' p' \<or> ret' = Iso14443_3aErrorNone \<and> in_progress p' (l + 1) \<and> rounds_left p' (l + 1) < rounds_left p l)"
proof -
  have ok: "poller_ok p" using p(1) by (simp add: in_progress_def)
  have uid: "i3_uid_len (p3_data p) \<le> 6" using in_progress_uid [OF p(1)] by simp
  let ?c = "p3_col_res p"
  let ?req = "[ISO14443_3A_POLLER_SEL_CMD (cascade_level ?c), ISO14443_3A_POLLER_SEL_PAR 7 0] @ sdd_resp ?c"
  have req: "fill_sel_req ?c = Some ?req" "length ?req = 7" using fill_sel_req_ok [of ?c] ok by (simp_all add: poller_ok_def)
  obtain tx where tx: "bit_buffer_copy_bytes (p3_tx_buffer p) ?req 7 = Some tx" "bb_ok tx" "bb_size_bits tx = 8 * 7"
    "bb_capacity_bytes tx = bb_capacity_bytes (p3_tx_buffer p)"
    using copy_bytes_ok [of "p3_tx_buffer p" ?req 7] ok req(2) by (auto simp: poller_ok_def)
  let ?q = "update_col_res (\<lambda>c. c\<lparr>sel_req := ?req\<rparr>) (p\<lparr>p3_tx_buffer := tx\<rparr>)"
  have ok': "poller_ok ?q" using ok tx req(2) by (simp add: poller_ok_def update_col_res_def)
  obtain ret r where r: "iso14443_3a_poller_standard_frame_exchange drv ?q None None = Some (ret, r, None)" "poller_ok r"
    "p3_state r = p3_state p" "p3_col_res r = ?c\<lparr>sel_req := ?req\<rparr>" "p3_data r = p3_data p"
    using exchange_total [OF drv ok', of 7] tx(3) by (auto simp: update_col_res_def)
  show ?thesis
  proof (cases "ret \<noteq> Iso14443_3aErrorNone \<or> bit_buffer_get_size_bytes (p3_rx_buffer r) \<noteq> 1")
    case True
    then have "col_res_select_cascade drv p = Some (Iso14443_3aErrorColResFailed, col_res_failed r)"
      unfolding col_res_select_cascade_def by (simp only: req(1) tx(1) r(1) Option.bind.simps Let_def split) auto
    with failed_resolved [OF r(2)] uid r(5) show ?thesis by auto
  next
    case False
    have rx: "bb_ok (p3_rx_buffer r)" using r(2) by (simp add: poller_ok_def)
    obtain sak where sak: "bb_bytes (p3_rx_buffer r) = [sak]"
      using length_bb_bytes [OF rx] False by (auto simp: One_nat_def length_Suc_conv)
    have w: "bit_buffer_write_bytes (p3_rx_buffer r) [sel_resp (p3_col_res r)] 1 = Some [sak]"
      using write_bytes_ok [OF rx, of 1 "[sel_resp (p3_col_res r)]"] False sak by (simp add: One_nat_def)
    let ?s = "update_col_res (\<lambda>c. c\<lparr>sel_resp := sak\<rparr>) r"
    have "col_res_select_cascade drv p = col_res_selected Iso14443_3aErrorNone ?s"
      unfolding col_res_select_cascade_def using False
      by (simp only: req(1) tx(1) r(1) Option.bind.simps Let_def split simp_thms if_False w) (simp add: rd_def)
    moreover have "in_progress ?s l" "cr_state (p3_col_res ?s) = Iso14443_3aPollerColResStateStateSelectCascade"
      "rounds_left ?s l = rounds_left p l"
      using p r by (simp_all add: in_progress_def update_col_res_def poller_ok_def rounds_left_def)
    ultimately show ?thesis using selected_step [of ?s l] by simp
  qed
qed

text \<open>The loop ends for every card.\<close>

lemma col_res_loop_total:
  assumes drv: "driver_ok drv"
  shows "in_progress p l \<Longrightarrow> \<exists>ret' p'. col_res_loop drv Iso14443_3aErrorNone p = Some (ret', p') \<and> resolved ret' p'"
proof (induction "rounds_left p l" arbitrary: p l rule: less_induct)
  case less
  have done_loop: "col_res_loop drv ret q = Some (ret, q)" if "resolved ret q" for ret q
    using that by (subst col_res_loop.simps) (auto simp: resolved_def split: if_splits)
  have st: "p3_state p = Iso14443_3aPollerStateColResInProgress" using less.prems by (simp add: in_progress_def)
  consider "cr_state (p3_col_res p) = Iso14443_3aPollerColResStateStateNewCascade"
    | "cr_state (p3_col_res p) = Iso14443_3aPollerColResStateStateSelectCascade"
    using less.prems by (auto simp: in_progress_def)
  then show ?case
  proof cases
    case 1
    obtain ret q where q: "col_res_new_cascade drv Iso14443_3aErrorNone p = Some (ret, q)"
      "resolved ret q \<or> ret = Iso14443_3aErrorNone \<and> in_progress q l \<and> rounds_left q l < rounds_left p l"
      using new_cascade_step [OF drv less.prems 1] by blast
    have "col_res_loop drv Iso14443_3aErrorNone p = col_res_loop drv ret q"
      using st 1 q(1) by (subst col_res_loop.simps) simp
    with q(2) done_loop less.hyps [of q l] show ?thesis by auto
  next
    case 2
    obtain ret q where q: "col_res_select_cascade drv p = Some (ret, q)"
      "resolved ret q \<or> ret = Iso14443_3aErrorNone \<and> in_progress q (l + 1) \<and> rounds_left q (l + 1) < rounds_left p l"
      using select_cascade_step [OF drv less.prems 2] by blast
    have "col_res_loop drv Iso14443_3aErrorNone p = col_res_loop drv ret q"
      using st 2 q(1) by (subst col_res_loop.simps) simp
    with q(2) done_loop less.hyps [of q "l + 1"] show ?thesis by auto
  qed
qed

lemma bit_buffer_reset_ok: "bb_ok b \<Longrightarrow> bb_ok (bit_buffer_reset b) \<and> bb_capacity_bytes (bit_buffer_reset b) = bb_capacity_bytes b"
  using reset_ok [of b] by (simp add: bit_buffer_reset_def)

lemma halt_total:
  assumes drv: "driver_ok drv" and p: "poller_ok p"
  shows "\<exists>p'. iso14443_3a_poller_halt drv p = Some (Iso14443_3aErrorNone, p') \<and> poller_ok p' \<and>
    p3_state p' = Iso14443_3aPollerStateIdle \<and> p3_col_res p' = p3_col_res p \<and> p3_data p' = p3_data p"
proof -
  obtain tx where tx: "bit_buffer_copy_bytes (p3_tx_buffer p) [0x50, 0x00] 2 = Some tx" "bb_ok tx" "bb_size_bits tx = 8 * 2"
    "bb_capacity_bytes tx = bb_capacity_bytes (p3_tx_buffer p)"
    using copy_bytes_ok [of "p3_tx_buffer p" "[0x50, 0x00]" 2] p by (auto simp: poller_ok_def)
  have ok: "poller_ok (p\<lparr>p3_tx_buffer := tx\<rparr>)" using p tx by (simp add: poller_ok_def)
  obtain ret q where "iso14443_3a_poller_standard_frame_exchange drv (p\<lparr>p3_tx_buffer := tx\<rparr>) None None = Some (ret, q, None)"
    "poller_ok q" "p3_col_res q = p3_col_res p" "p3_data q = p3_data p"
    using exchange_total [OF drv ok, of 2] tx(3) by auto
  with tx(1) show ?thesis by (simp add: iso14443_3a_poller_halt_def poller_ok_def)
qed

text \<open>What the collision resolution leaves alone.\<close>

definition kept :: "'n Iso14443_3aPoller \<Rightarrow> 'n Iso14443_3aPoller \<Rightarrow> bool" where
  "kept p p' \<longleftrightarrow> p3_nfc p' = p3_nfc p \<and> bb_capacity_bytes (p3_tx_buffer p') = bb_capacity_bytes (p3_tx_buffer p) \<and>
     bb_capacity_bytes (p3_rx_buffer p') = bb_capacity_bytes (p3_rx_buffer p)"

lemma kept_refl [simp]: "kept p p"
  by (simp add: kept_def)

lemma kept_trans: "kept p q \<Longrightarrow> kept q r \<Longrightarrow> kept p r"
  by (simp add: kept_def)

text \<open>The activation up to the question for a card.\<close>

definition activate_rest :: "'n nfc_driver \<Rightarrow> 'n Iso14443_3aPoller \<Rightarrow> (Iso14443_3aError \<times> 'n Iso14443_3aPoller) option" where
  "activate_rest drv q =
     (let (error, rx, n) = nfc_trx_sens_req drv (p3_nfc q) (p3_rx_buffer q); r = q\<lparr>p3_rx_buffer := rx, p3_nfc := n\<rparr>
      in if error \<noteq> NfcErrorNone then Some (Iso14443_3aErrorNotPresent, r)
         else if bit_buffer_get_size_bytes rx \<noteq> 2 then Some (Iso14443_3aErrorCommunication, r)
         else col_res_loop drv Iso14443_3aErrorNone (update_col_res (\<lambda>c. c\<lparr>sens_resp := bb_bytes rx, cascade_level := 0,
             cr_state := Iso14443_3aPollerColResStateStateNewCascade\<rparr>)
           (r\<lparr>p3_data := (p3_data q)\<lparr>i3_atqa := bb_bytes rx\<rparr>, p3_state := Iso14443_3aPollerStateColResInProgress\<rparr>)))"

lemma activate_start:
  assumes drv: "driver_ok drv" and p: "poller_ok p"
  shows "\<exists>q. iso14443_3a_poller_activate drv p = activate_rest drv q \<and> poller_ok q \<and> p3_state q = Iso14443_3aPollerStateIdle \<and>
    p3_data q = iso14443_3a_reset (p3_data p) \<and> (p3_state p = Iso14443_3aPollerStateIdle \<longrightarrow> kept p q)"
proof -
  let ?p = "p\<lparr>p3_col_res := col_res_reset, p3_data := iso14443_3a_reset (p3_data p),
       p3_tx_buffer := bit_buffer_reset (p3_tx_buffer p), p3_rx_buffer := bit_buffer_reset (p3_rx_buffer p)\<rparr>"
  have ok: "poller_ok ?p"
    using p bit_buffer_reset_ok [of "p3_tx_buffer p"] bit_buffer_reset_ok [of "p3_rx_buffer p"]
    by (simp add: poller_ok_def col_res_reset_def iso14443_3a_reset_def)
  obtain q where q: "(if p3_state ?p \<noteq> Iso14443_3aPollerStateIdle
      then do { (_, p) \<leftarrow> iso14443_3a_poller_halt drv ?p; Some (p\<lparr>p3_state := Iso14443_3aPollerStateIdle\<rparr>) }
      else Some ?p) = Some q" "poller_ok q" "p3_state q = Iso14443_3aPollerStateIdle"
    "p3_data q = iso14443_3a_reset (p3_data p)" "p3_state p = Iso14443_3aPollerStateIdle \<longrightarrow> kept p q"
  proof (cases "p3_state ?p = Iso14443_3aPollerStateIdle")
    case True
    have "kept p ?p" using p bit_buffer_reset_ok by (simp add: kept_def poller_ok_def)
    with True ok that [of ?p] show ?thesis by simp
  next
    case False
    obtain r where "iso14443_3a_poller_halt drv ?p = Some (Iso14443_3aErrorNone, r)" "poller_ok r"
      "p3_state r = Iso14443_3aPollerStateIdle" "p3_data r = p3_data ?p"
      using halt_total [OF drv ok] by blast
    with False that [of r] show ?thesis by (simp add: poller_ok_def)
  qed
  obtain error rx n where e: "nfc_trx_sens_req drv (p3_nfc q) (p3_rx_buffer q) = (error, rx, n)"
    by (cases "nfc_trx_sens_req drv (p3_nfc q) (p3_rx_buffer q)") auto
  have rx: "bb_ok rx" using driver_keeps(2) [OF drv _ e] q(2) by (simp add: poller_ok_def)
  note act = iso14443_3a_poller_activate_def [of drv p, unfolded Let_def, unfolded q(1), simplified, unfolded e, simplified]
  have "iso14443_3a_poller_activate drv p = activate_rest drv q"
  proof (cases "error = NfcErrorNone \<and> bit_buffer_get_size_bytes rx = 2")
    case True
    have w: "bit_buffer_write_bytes rx (sens_resp (p3_col_res q)) 2 = Some (bb_bytes rx)" "length (bb_bytes rx) = 2"
      using write_bytes_ok [OF rx] length_bb_bytes [OF rx] True q(2) by (simp_all add: poller_ok_def)
    have m: "memcpy (i3_atqa (p3_data q)) 0 (bb_bytes rx) 0 2 = Some (bb_bytes rx)"
      using w(2) q(2) by (simp add: memcpy_def poller_ok_def)
    show ?thesis using True w(1) m by (simp add: act activate_rest_def e)
  qed (auto simp: act activate_rest_def e)
  with q show ?thesis by blast
qed

lemma activate_rest_in_progress:
  assumes drv: "driver_ok drv" and q: "poller_ok q" "i3_uid_len (p3_data q) = 0"
    and e: "nfc_trx_sens_req drv (p3_nfc q) (p3_rx_buffer q) = (NfcErrorNone, rx, n)" "bit_buffer_get_size_bytes rx = 2"
  shows "\<exists>s. activate_rest drv q = col_res_loop drv Iso14443_3aErrorNone s \<and> in_progress s 0 \<and>
    cr_state (p3_col_res s) = Iso14443_3aPollerColResStateStateNewCascade \<and>
    p3_data s = (p3_data q)\<lparr>i3_atqa := bb_bytes rx\<rparr> \<and> (n = p3_nfc q \<longrightarrow> kept q s)"
proof -
  have rx: "bb_ok rx" "5 \<le> bb_capacity_bytes rx" "bb_capacity_bytes rx = bb_capacity_bytes (p3_rx_buffer q)"
    using driver_keeps(2) [OF drv _ e(1)] q(1) by (simp_all add: poller_ok_def)
  then have "length (bb_bytes rx) = 2" using length_bb_bytes e(2) by simp
  with rx q e show ?thesis by (auto simp: activate_rest_def in_progress_def poller_ok_def update_col_res_def kept_def)
qed

text \<open>C15: Whatever a card answers, the activation ends: it reports an error, or the poller is activated with a UID
  of 4, 7 or 10 bytes. It never writes behind the ten bytes that the UID has, and keeps its buffers.\<close>

theorem activate_total:
  assumes drv: "driver_ok drv" and p: "poller_ok p"
  shows "\<exists>ret p'. iso14443_3a_poller_activate drv p = Some (ret, p') \<and> poller_ok p' \<and> unat (i3_uid_len (p3_data p')) \<le> 10 \<and>
    (ret = Iso14443_3aErrorNone \<longleftrightarrow> p3_state p' = Iso14443_3aPollerStateActivated) \<and>
    (ret = Iso14443_3aErrorNone \<longrightarrow> unat (i3_uid_len (p3_data p')) \<in> {4, 7, 10})"
proof -
  obtain q where q: "iso14443_3a_poller_activate drv p = activate_rest drv q" "poller_ok q"
    "p3_state q = Iso14443_3aPollerStateIdle" "i3_uid_len (p3_data q) = 0"
    using activate_start [OF assms] by (auto simp: iso14443_3a_reset_def)
  obtain error rx n where e: "nfc_trx_sens_req drv (p3_nfc q) (p3_rx_buffer q) = (error, rx, n)"
    by (cases "nfc_trx_sens_req drv (p3_nfc q) (p3_rx_buffer q)") auto
  show ?thesis
  proof (cases "error = NfcErrorNone \<and> bit_buffer_get_size_bytes rx = 2")
    case False
    have "bb_ok rx" "5 \<le> bb_capacity_bytes rx" using driver_keeps(2) [OF drv _ e] q(2) by (simp_all add: poller_ok_def)
    with q(2) have "poller_ok (q\<lparr>p3_rx_buffer := rx, p3_nfc := n\<rparr>)" by (simp add: poller_ok_def)
    with False q(3,4) show ?thesis unfolding q(1) by (auto simp: activate_rest_def Let_def e)
  next
    case True
    obtain s where s: "activate_rest drv q = col_res_loop drv Iso14443_3aErrorNone s" "in_progress s 0"
      using activate_rest_in_progress [OF drv q(2,4)] e True by blast
    obtain ret p' where "col_res_loop drv Iso14443_3aErrorNone s = Some (ret, p')" "resolved ret p'"
      using col_res_loop_total [OF drv s(2)] by blast
    with q(1) s(1) show ?thesis by (auto simp: resolved_def word_le_nat_alt split: if_splits)
  qed
qed


subsection \<open>A card that follows the standard\<close>

text \<open>The four bytes that a card shows on a cascade level, and their check byte.\<close>

definition cascade_bytes :: "bytes \<Rightarrow> nat \<Rightarrow> bytes" where
  "cascade_bytes uid l =
     (if 3 * l + 4 = length uid then drop (3 * l) uid else 0x88 # take 3 (drop (3 * l) uid))"

definition sdd_answer :: "bytes \<Rightarrow> nat \<Rightarrow> bytes" where
  "sdd_answer uid l = cascade_bytes uid l @ [foldr (XOR) (cascade_bytes uid l) 0]"

definition sel_level :: "u8 \<Rightarrow> nat option" where
  "sel_level cmd = (if cmd = 0x93 then Some 0 else if cmd = 0x95 then Some 1 else if cmd = 0x97 then Some 2 else None)"

definition respond :: "'n \<Rightarrow> bit_buffer \<Rightarrow> bit_buffer option \<Rightarrow> NfcError \<times> bit_buffer \<times> 'n" where
  "respond n rx answer = (case answer of Some b \<Rightarrow> (NfcErrorNone, b, n) | None \<Rightarrow> (NfcErrorTimeout, rx, n))"

definition card_driver :: "bytes \<Rightarrow> bytes \<Rightarrow> u8 \<Rightarrow> 'n nfc_driver" where
  "card_driver uid atqa sak = \<lparr>
     nfc_poller_trx = (\<lambda>n tx rx. respond n rx (do {
       l \<leftarrow> sel_level (bb_bytes tx ! 0);
       if 3 * l + 4 \<le> length uid \<and> take 7 (bb_bytes tx) = [0x93 + 2 * of_nat l, 0x70] @ sdd_answer uid l then do {
         rx \<leftarrow> bit_buffer_copy_bytes rx [if 3 * l + 4 = length uid then sak else 0x04] 1;
         iso14443_crc_append Iso14443CrcTypeA rx
       } else None })),
     nfc_trx_sens_req = (\<lambda>n rx. respond n rx (bit_buffer_copy_bytes rx atqa 2)),
     nfc_trx_sdd_frame = (\<lambda>n tx rx. respond n rx (do {
       l \<leftarrow> sel_level (bb_bytes tx ! 0);
       if 3 * l + 4 \<le> length uid \<and> bb_bytes tx = [0x93 + 2 * of_nat l, 0x20]
       then bit_buffer_copy_bytes rx (sdd_answer uid l) 5 else None })),
     nfc_trx_custom_parity = (\<lambda>n tx rx. respond n rx None)\<rparr>"

text \<open>A driver may do more than this: what counts is that it treats the frames of the collision resolution so. The last
  of them is the frame that selects a card.\<close>

definition select_frame :: "bit_buffer \<Rightarrow> bool" where
  "select_frame tx \<longleftrightarrow> length (bb_bytes tx) = 9 \<and> sel_level (bb_bytes tx ! 0) \<noteq> None \<and> bb_bytes tx ! 1 = 0x70"

definition resolves :: "'n nfc_driver \<Rightarrow> 'n \<Rightarrow> bytes \<Rightarrow> bytes \<Rightarrow> u8 \<Rightarrow> bool" where
  "resolves drv n uid atqa sak \<longleftrightarrow> nfc_trx_sens_req drv n = nfc_trx_sens_req (card_driver uid atqa sak) n \<and>
     nfc_trx_sdd_frame drv n = nfc_trx_sdd_frame (card_driver uid atqa sak) n \<and>
     (\<forall>tx. select_frame tx \<longrightarrow> nfc_poller_trx drv n tx = nfc_poller_trx (card_driver uid atqa sak) n tx)"

lemma card_driver_resolves: "resolves (card_driver uid atqa sak) n uid atqa sak"
  by (simp add: resolves_def)

lemma respond_keeps:
  assumes "bb_ok rx" "\<And>b. answer = Some b \<Longrightarrow> bb_ok b \<and> bb_capacity_bytes b = bb_capacity_bytes rx"
  shows "bb_ok (fst (snd (respond n rx answer))) \<and> bb_capacity_bytes (fst (snd (respond n rx answer))) = bb_capacity_bytes rx"
  using assms by (cases answer) (auto simp: respond_def)

lemma copy_bytes_Some:
  "bb_ok rx \<Longrightarrow> bit_buffer_copy_bytes rx xs n = Some b \<Longrightarrow> bb_ok b \<and> bb_capacity_bytes b = bb_capacity_bytes rx"
  using copy_bytes_keeps [of rx xs n b] by (auto simp: bit_buffer_copy_bytes_def bind_eq_Some_conv split: if_splits)

lemma append_crc_Some:
  "bb_ok rx \<Longrightarrow> iso14443_crc_append t rx = Some b \<Longrightarrow> bb_ok b \<and> bb_capacity_bytes b = bb_capacity_bytes rx"
  using append_bytes_keeps [of rx _ 2 b]
  by (auto simp: iso14443_crc_append_def bit_buffer_append_bytes_def Let_def bind_eq_Some_conv split: if_splits)

lemma answer_Some:
  "bit_buffer_copy_bytes rx xs n = Some y \<Longrightarrow> iso14443_crc_append t y = Some b \<Longrightarrow> bb_ok rx \<Longrightarrow>
   bb_ok b \<and> bb_capacity_bytes b = bb_capacity_bytes rx"
  using copy_bytes_Some [of rx xs n y] append_crc_Some [of y t b] by simp

lemma card_driver_ok: "driver_ok (card_driver uid atqa sak)"
  unfolding driver_ok_def keeps_buffer_def card_driver_def nfc_driver.simps
  by (intro conjI allI impI respond_keeps [THEN conjunct1] respond_keeps [THEN conjunct2])
    (auto simp: bind_eq_Some_conv split: if_splits dest: copy_bytes_Some answer_Some)

text \<open>The exchange of a select frame: the poller gets the answer of the card without its checksum.\<close>

lemma exchange_answered:
  assumes p: "poller_ok p" and tx: "bb_size_bits (p3_tx_buffer p) = 8 * k" "0 < k" "k + 2 \<le> bb_capacity_bytes (p3_tx_buffer p)"
    and rx: "3 \<le> bb_capacity_bytes (p3_rx_buffer p)"
    and answer: "\<And>tx. take k (bb_bytes tx) = bb_bytes (p3_tx_buffer p) \<Longrightarrow> length (bb_bytes tx) = k + 2 \<Longrightarrow>
      nfc_poller_trx drv (p3_nfc p) tx (p3_rx_buffer p) =
      respond (p3_nfc p) (p3_rx_buffer p) (do { rx \<leftarrow> bit_buffer_copy_bytes (p3_rx_buffer p) [x] 1; iso14443_crc_append Iso14443CrcTypeA rx })"
  shows "\<exists>p'. iso14443_3a_poller_standard_frame_exchange drv p None None = Some (Iso14443_3aErrorNone, p', None) \<and> poller_ok p' \<and>
    p3_state p' = p3_state p \<and> p3_col_res p' = p3_col_res p \<and> p3_data p' = p3_data p \<and> bb_bytes (p3_rx_buffer p') = [x] \<and>
    kept p p'"
proof -
  have b: "bb_ok (p3_tx_buffer p)" "bb_ok (p3_rx_buffer p)" using p by (simp_all add: poller_ok_def)
  obtain tx' where t: "iso14443_crc_append Iso14443CrcTypeA (p3_tx_buffer p) = Some tx'" "bb_ok tx'"
    "bb_capacity_bytes tx' = bb_capacity_bytes (p3_tx_buffer p)" "take k (bb_bytes tx') = bb_bytes (p3_tx_buffer p)"
    "bb_size_bits tx' = 8 * (k + 2)"
    using append_crc_ok [OF b(1) tx, of Iso14443CrcTypeA] by blast
  have tn: "length (bb_bytes tx') = k + 2" using length_bb_bytes [OF t(2)] t(5) by (simp add: bit_buffer_get_size_bytes_def)
  obtain r1 where r1: "bit_buffer_copy_bytes (p3_rx_buffer p) [x] 1 = Some r1" "bb_ok r1" "bb_bytes r1 = [x]"
    "bb_size_bits r1 = 8 * 1" "bb_capacity_bytes r1 = bb_capacity_bytes (p3_rx_buffer p)"
    using copy_bytes_ok [OF b(2), of "[x]" 1] rx by (auto simp: One_nat_def)
  obtain r2 where r2: "iso14443_crc_append Iso14443CrcTypeA r1 = Some r2" "bb_ok r2"
    "iso14443_crc_check Iso14443CrcTypeA r2 = Some True" "bb_size_bits r2 = 8 * 3" "take 1 (bb_bytes r2) = [x]"
    "bb_capacity_bytes r2 = bb_capacity_bytes (p3_rx_buffer p)"
    using append_crc_ok [OF r1(2,4), of Iso14443CrcTypeA] r1(3,5) rx by auto
  have n: "bit_buffer_get_size_bytes r2 = 3" using r2(4) by (simp add: bit_buffer_get_size_bytes_def)
  obtain r3 where r3: "iso14443_crc_trim r2 = Some r3" "bb_ok r3" "bb_bytes r3 = [x]" "bb_capacity_bytes r3 = bb_capacity_bytes r2"
    using crc_trim_ok [OF r2(2)] n r2(5) by (auto simp: One_nat_def)
  have e: "nfc_poller_trx drv (p3_nfc p) tx' (p3_rx_buffer p) = (NfcErrorNone, r2, p3_nfc p)"
    using answer [OF t(4) tn] r1(1) r2(1) by (simp add: respond_def)
  have le: "\<not> bit_buffer_get_capacity_bytes r2 < bit_buffer_get_size_bytes r2"
    using size_bytes_le [OF r2(2)] by (simp add: bit_buffer_get_capacity_bytes_def)
  have "iso14443_3a_poller_standard_frame_exchange drv p None None =
      Some (Iso14443_3aErrorNone, p\<lparr>p3_tx_buffer := tx', p3_rx_buffer := r3, p3_nfc := p3_nfc p\<rparr>, None)"
    using t(1) e le r2(3) r3(1)
    by (simp add: iso14443_3a_poller_standard_frame_exchange_def Let_def iso14443_3a_poller_process_error_def)
  with p t r2 r3 show ?thesis by (simp add: poller_ok_def kept_def)
qed

text \<open>Before the level \<open>l\<close>: the UID bytes of the levels below are there.\<close>

definition levels_done :: "bytes \<Rightarrow> 'n Iso14443_3aPoller \<Rightarrow> nat \<Rightarrow> bool" where
  "levels_done uid p l \<longleftrightarrow> in_progress p l \<and> 3 * l + 4 \<le> length uid \<and> take (3 * l) (i3_uid (p3_data p)) = take (3 * l) uid"

lemma sel_level_cmd: "l \<le> 2 \<Longrightarrow> sel_level (0x93 + 2 * of_nat l) = Some l"
  by (elim level_cases [of l]) (simp_all add: sel_level_def)

lemma sel_par: "ISO14443_3A_POLLER_SEL_PAR 2 0 = 0x20" "ISO14443_3A_POLLER_SEL_PAR 7 0 = 0x70"
  by code_simp+

lemma length_cascade: "3 * l + 4 = length uid \<or> 3 * l + 7 \<le> length uid \<Longrightarrow> length (cascade_bytes uid l) = 4"
  by (auto simp: cascade_bytes_def)

lemma uid_levels: "length uid \<in> {4, 7, 10} \<Longrightarrow> 3 * l + 4 \<le> length uid \<Longrightarrow> 3 * l + 4 = length uid \<or> 3 * l + 7 \<le> length uid"
  by auto

lemma card_new_cascade:
  assumes p: "levels_done uid p l" "cr_state (p3_col_res p) = Iso14443_3aPollerColResStateStateNewCascade"
    and uid: "length uid \<in> {4, 7, 10}" and drv: "resolves drv (p3_nfc p) uid atqa sak"
  shows "\<exists>p'. col_res_new_cascade drv ret p = Some (ret, p') \<and> levels_done uid p' l \<and>
    cr_state (p3_col_res p') = Iso14443_3aPollerColResStateStateSelectCascade \<and> sdd_resp (p3_col_res p') = sdd_answer uid l \<and>
    p3_data p' = p3_data p \<and> kept p p'"
proof -
  have pr: "in_progress p l" and le: "3 * l + 4 \<le> length uid" and cap: "5 \<le> bb_capacity_bytes (p3_rx_buffer p)"
    using p(1) by (simp_all add: levels_done_def in_progress_def poller_ok_def)
  have ok: "poller_ok p" and l: "l \<le> 2" and c: "cascade_level (p3_col_res p) = of_nat l"
    using pr by (simp_all add: in_progress_def)
  obtain tx where tx: "(do { tx \<leftarrow> bit_buffer_set_size_bytes (p3_tx_buffer p) 2;
      tx \<leftarrow> bit_buffer_set_byte tx 0 (ISO14443_3A_POLLER_SEL_CMD (cascade_level (p3_col_res p)));
      bit_buffer_set_byte tx 1 (ISO14443_3A_POLLER_SEL_PAR 2 0) }) = Some tx" "bb_ok tx"
    "bb_capacity_bytes tx = bb_capacity_bytes (p3_tx_buffer p)" "bb_bytes tx = [0x93 + 2 * of_nat l, 0x20]"
    using sdd_frame [of "p3_tx_buffer p"] ok by (auto simp: poller_ok_def ISO14443_3A_POLLER_SEL_CMD_def c sel_par)
  have len: "length (sdd_answer uid l) = 5"
    using length_cascade [OF uid_levels [OF uid le]] by (simp add: sdd_answer_def)
  obtain rx where rx: "bit_buffer_copy_bytes (p3_rx_buffer p) (sdd_answer uid l) 5 = Some rx" "bb_ok rx"
    "bb_bytes rx = sdd_answer uid l" "bb_size_bits rx = 8 * 5" "bb_capacity_bytes rx = bb_capacity_bytes (p3_rx_buffer p)"
    using copy_bytes_ok [OF _ len cap] ok by (auto simp: poller_ok_def)
  have e: "nfc_trx_sdd_frame drv (p3_nfc p) tx (p3_rx_buffer p) = (NfcErrorNone, rx, p3_nfc p)"
    using rx(1) le l drv by (simp add: resolves_def card_driver_def tx(4) sel_level_cmd respond_def)
  have n: "bit_buffer_get_size_bytes rx = 5" using rx(4) by (simp add: bit_buffer_get_size_bytes_def)
  have w: "bit_buffer_write_bytes rx (sdd_resp (p3_col_res p)) 5 = Some (sdd_answer uid l)"
    using write_bytes_ok [OF rx(2) n] rx(3) ok by (simp add: poller_ok_def)
  let ?p = "update_col_res (\<lambda>c. c\<lparr>sdd_resp := sdd_answer uid l, cr_state := Iso14443_3aPollerColResStateStateSelectCascade\<rparr>)
    (p\<lparr>p3_tx_buffer := tx, p3_rx_buffer := rx, p3_nfc := p3_nfc p\<rparr>)"
  have "col_res_new_cascade drv ret p = Some (ret, ?p)"
    unfolding col_res_new_cascade_def using tx(1) e n w by (auto simp: bind_eq_Some_conv Let_def)
  moreover have "levels_done uid ?p l"
    using p(1) pr tx(2,3) rx(2,5) len by (simp add: levels_done_def in_progress_def poller_ok_def update_col_res_def)
  ultimately show ?thesis using tx(3) rx(5) by (simp add: update_col_res_def kept_def)
qed

lemma card_select_cascade:
  assumes p: "levels_done uid p l" "cr_state (p3_col_res p) = Iso14443_3aPollerColResStateStateSelectCascade"
      "sdd_resp (p3_col_res p) = sdd_answer uid l"
    and uid: "length uid \<in> {4, 7, 10}" and sak: "sak AND 4 = 0" and drv: "resolves drv (p3_nfc p) uid atqa sak"
  shows "\<exists>p'. col_res_select_cascade drv p = Some (Iso14443_3aErrorNone, p') \<and> kept p p' \<and> poller_ok p' \<and>
    (if 3 * l + 4 = length uid
     then p3_state p' = Iso14443_3aPollerStateActivated \<and>
       p3_data p' = (p3_data p)\<lparr>i3_uid := uid @ drop (length uid) (i3_uid (p3_data p)), i3_uid_len := of_nat (length uid), i3_sak := sak\<rparr>
     else levels_done uid p' (l + 1) \<and> cr_state (p3_col_res p') = Iso14443_3aPollerColResStateStateNewCascade \<and>
       i3_atqa (p3_data p') = i3_atqa (p3_data p) \<and>
       drop (length uid) (i3_uid (p3_data p')) = drop (length uid) (i3_uid (p3_data p)))"
proof -
  have pr: "in_progress p l" and le: "3 * l + 4 \<le> length uid" and cap: "5 \<le> bb_capacity_bytes (p3_rx_buffer p)"
    and pre: "take (3 * l) (i3_uid (p3_data p)) = take (3 * l) uid"
    using p(1) by (simp_all add: levels_done_def in_progress_def poller_ok_def)
  have ok: "poller_ok p" and l: "l \<le> 2" and c: "cascade_level (p3_col_res p) = of_nat l"
    using pr by (simp_all add: in_progress_def)
  have ul: "unat (i3_uid_len (p3_data p)) = 3 * l" "i3_uid_len (p3_data p) = of_nat (3 * l)"
    using in_progress_uid [OF pr] pr by (simp_all add: in_progress_def)
  have lens: "length (i3_uid (p3_data p)) = 10" using ok by (simp add: poller_ok_def)
  let ?req = "[0x93 + 2 * of_nat l, 0x70] @ sdd_answer uid l"
  have req: "fill_sel_req (p3_col_res p) = Some ?req" "length ?req = 7"
    using fill_sel_req_ok [of "p3_col_res p"] ok p(3) by (simp_all add: poller_ok_def ISO14443_3A_POLLER_SEL_CMD_def c sel_par)
  obtain tx where tx: "bit_buffer_copy_bytes (p3_tx_buffer p) ?req 7 = Some tx" "bb_ok tx" "bb_size_bits tx = 8 * 7"
    "bb_bytes tx = ?req" "bb_capacity_bytes tx = bb_capacity_bytes (p3_tx_buffer p)"
    using copy_bytes_ok [of "p3_tx_buffer p" ?req 7] ok req(2) by (auto simp: poller_ok_def)
  let ?q = "update_col_res (\<lambda>c. c\<lparr>sel_req := ?req\<rparr>) (p\<lparr>p3_tx_buffer := tx\<rparr>)"
  let ?last = "3 * l + 4 = length uid"
  let ?sak = "if ?last then sak else 4"
  have ok': "poller_ok ?q" using ok tx req(2) by (simp add: poller_ok_def update_col_res_def)
  have answer: "nfc_poller_trx drv (p3_nfc ?q) t (p3_rx_buffer ?q) =
      respond (p3_nfc ?q) (p3_rx_buffer ?q)
        (do { rx \<leftarrow> bit_buffer_copy_bytes (p3_rx_buffer ?q) [?sak] 1; iso14443_crc_append Iso14443CrcTypeA rx })"
    if "take 7 (bb_bytes t) = bb_bytes (p3_tx_buffer ?q)" "length (bb_bytes t) = 7 + 2" for t
  proof -
    have t: "take 7 (bb_bytes t) = ?req" using that tx(4) by (simp add: update_col_res_def)
    then have t0: "bb_bytes t ! 0 = ?req ! 0" and t1: "bb_bytes t ! 1 = ?req ! 1"
      using nth_take [of 0 7 "bb_bytes t"] nth_take [of 1 7 "bb_bytes t"] by simp_all
    have "select_frame t" using t0 t1 that(2) l by (simp add: select_frame_def sel_level_cmd)
    with t t0 le l drv show ?thesis by (simp add: resolves_def card_driver_def sel_level_cmd update_col_res_def)
  qed
  have room: "bb_size_bits (p3_tx_buffer ?q) = 8 * 7" "7 + 2 \<le> bb_capacity_bytes (p3_tx_buffer ?q)"
    "3 \<le> bb_capacity_bytes (p3_rx_buffer ?q)"
    using tx(3,5) ok cap by (simp_all add: update_col_res_def poller_ok_def)
  obtain r where r: "iso14443_3a_poller_standard_frame_exchange drv ?q None None =
      Some (Iso14443_3aErrorNone, r, None)" "poller_ok r"
    "p3_state r = p3_state p" "p3_col_res r = (p3_col_res p)\<lparr>sel_req := ?req\<rparr>" "p3_data r = p3_data p"
    "bb_bytes (p3_rx_buffer r) = [?sak]" "bb_capacity_bytes (p3_rx_buffer r) = bb_capacity_bytes (p3_rx_buffer p)" "kept p r"
    using exchange_answered [OF ok' room(1) _ room(2,3) answer] tx(5) by (auto simp: update_col_res_def kept_def)
  have rx: "bb_ok (p3_rx_buffer r)" "bit_buffer_get_size_bytes (p3_rx_buffer r) = 1"
    using r(2) length_bb_bytes [of "p3_rx_buffer r"] r(6) by (simp_all add: poller_ok_def One_nat_def)
  have w: "bit_buffer_write_bytes (p3_rx_buffer r) [sel_resp (p3_col_res r)] 1 = Some [?sak]"
    using write_bytes_ok [OF rx, of "[sel_resp (p3_col_res r)]"] r(6) by (simp add: One_nat_def)
  let ?s = "update_col_res (\<lambda>c. c\<lparr>sel_resp := ?sak\<rparr>) r"
  have sel: "col_res_select_cascade drv p = col_res_selected Iso14443_3aErrorNone ?s"
    unfolding col_res_select_cascade_def
    by (simp only: req(1) tx(1) r(1) Option.bind.simps Let_def split simp_thms if_False w rx(2)) (simp add: rd_def)
  show ?thesis
  proof (cases ?last)
    case True
    have req4: "take 4 (sdd_answer uid l) = drop (3 * l) uid" using True by (simp add: sdd_answer_def cascade_bytes_def)
    have m: "memcpy (i3_uid (p3_data p)) (3 * l) ?req 2 4 = Some (uid @ drop (length uid) (i3_uid (p3_data p)))"
      using lens l req(2) True pre by (simp add: memcpy_def req4)
    have len: "i3_uid_len (p3_data p) + 4 = of_nat (length uid)" unfolding ul(2) True [symmetric] by simp
    have "length (uid @ drop (length uid) (i3_uid (p3_data p))) = 10" using lens uid by auto
    then show ?thesis unfolding sel using True sak m ul(1) len r
      by (simp add: col_res_selected_def update_col_res_def Let_def kept_def poller_ok_def)
  next
    case False
    have nx: "3 * l + 7 \<le> length uid" "l < 2" using uid_levels [OF uid le] False uid by auto
    have req3: "take 3 (drop (Suc 0) (sdd_answer uid l)) = take 3 (drop (3 * l) uid)" using False nx by (simp add: sdd_answer_def cascade_bytes_def One_nat_def)
    let ?u = "take (3 * l) (i3_uid (p3_data p)) @ take 3 (drop (3 * l) uid) @ drop (3 * l + 3) (i3_uid (p3_data p))"
    have m: "memcpy (i3_uid (p3_data p)) (3 * l) ?req 3 3 = Some ?u"
      using lens nx req(2) by (simp add: memcpy_def req3)
    have u: "length ?u = 10" "take (3 * (l + 1)) ?u = take (3 * (l + 1)) uid"
      "drop (length uid) ?u = drop (length uid) (i3_uid (p3_data p))"
      using lens nx pre by (simp_all add: take_add [symmetric] algebra_simps)
    have level: "\<not> 2 \<le> cascade_level (p3_col_res p)" "cascade_level (p3_col_res p) + 1 = of_nat (l + 1)"
      "i3_uid_len (p3_data p) + 3 = of_nat (3 * (l + 1))"
      using nx(2) unfolding c ul(2) by (auto simp: less_2_cases_iff word_le_nat_alt)
    let ?r = "?s\<lparr>p3_data := (p3_data p)\<lparr>i3_uid := ?u, i3_uid_len := i3_uid_len (p3_data p) + 3\<rparr>,
      p3_col_res := (p3_col_res ?s)\<lparr>cascade_level := cascade_level (p3_col_res p) + 1,
        cr_state := Iso14443_3aPollerColResStateStateNewCascade\<rparr>\<rparr>"
    have "col_res_selected Iso14443_3aErrorNone ?s = Some (Iso14443_3aErrorNone, ?r)"
      using False m ul(1) level(1) r by (simp add: col_res_selected_def update_col_res_def Let_def del: append.simps)
    moreover have "poller_ok ?r" using r(2,4,5) u(1) by (simp add: poller_ok_def update_col_res_def)
    moreover have "p3_state ?r = Iso14443_3aPollerStateColResInProgress"
      using r(3) pr by (simp add: update_col_res_def in_progress_def)
    ultimately show ?thesis unfolding sel using False nx u(2,3) level(2,3) r(7,8) cap
      by (simp add: levels_done_def in_progress_def update_col_res_def kept_def del: append.simps)
  qed
qed

text \<open>The loop ends with the UID of the card.\<close>

lemma card_loop:
  assumes uid: "length uid \<in> {4, 7, 10}" and sak: "sak AND 4 = 0"
  shows "levels_done uid p l \<Longrightarrow> cr_state (p3_col_res p) = Iso14443_3aPollerColResStateStateNewCascade \<Longrightarrow>
    resolves drv (p3_nfc p) uid atqa sak \<Longrightarrow>
    \<exists>p'. col_res_loop drv Iso14443_3aErrorNone p = Some (Iso14443_3aErrorNone, p') \<and> kept p p' \<and> poller_ok p' \<and>
      p3_state p' = Iso14443_3aPollerStateActivated \<and>
      p3_data p' = \<lparr>i3_uid = uid @ drop (length uid) (i3_uid (p3_data p)), i3_uid_len = of_nat (length uid),
        i3_atqa = i3_atqa (p3_data p), i3_sak = sak\<rparr>"
proof (induction "10 - l" arbitrary: p l rule: less_induct)
  case less
  let ?drv = drv
  have st: "p3_state p = Iso14443_3aPollerStateColResInProgress" using less.prems by (simp add: levels_done_def in_progress_def)
  obtain q where q: "col_res_new_cascade ?drv Iso14443_3aErrorNone p = Some (Iso14443_3aErrorNone, q)" "levels_done uid q l"
    "cr_state (p3_col_res q) = Iso14443_3aPollerColResStateStateSelectCascade" "sdd_resp (p3_col_res q) = sdd_answer uid l"
    "p3_data q = p3_data p" "kept p q"
    using card_new_cascade [OF less.prems(1,2) uid less.prems(3)] by blast
  have st': "p3_state q = Iso14443_3aPollerStateColResInProgress" "l \<le> 2"
    using q(2) by (simp_all add: levels_done_def in_progress_def)
  have res: "resolves drv (p3_nfc q) uid atqa sak" using q(6) less.prems(3) by (simp add: kept_def)
  obtain r where r: "col_res_select_cascade ?drv q = Some (Iso14443_3aErrorNone, r)"
    "if 3 * l + 4 = length uid
     then p3_state r = Iso14443_3aPollerStateActivated \<and>
       p3_data r = (p3_data q)\<lparr>i3_uid := uid @ drop (length uid) (i3_uid (p3_data q)), i3_uid_len := of_nat (length uid), i3_sak := sak\<rparr>
     else levels_done uid r (l + 1) \<and> cr_state (p3_col_res r) = Iso14443_3aPollerColResStateStateNewCascade \<and>
       i3_atqa (p3_data r) = i3_atqa (p3_data q) \<and>
       drop (length uid) (i3_uid (p3_data r)) = drop (length uid) (i3_uid (p3_data q))" "kept q r" "poller_ok r"
    using card_select_cascade [OF q(2-4) uid sak res] by blast
  have kr: "kept p r" by (rule kept_trans [OF q(6) r(3)])
  then have res': "resolves drv (p3_nfc r) uid atqa sak" using less.prems(3) by (simp add: kept_def)
  have step: "col_res_loop ?drv Iso14443_3aErrorNone p = col_res_loop ?drv Iso14443_3aErrorNone r"
    using less.prems(2) st q(1) by (subst col_res_loop.simps) (use q(3) st'(1) r(1) in \<open>simp add: col_res_loop.simps [of _ _ q]\<close>)
  show ?case
  proof (cases "3 * l + 4 = length uid")
    case True
    then have "p3_state r = Iso14443_3aPollerStateActivated" using r(2) by simp
    then have "col_res_loop ?drv Iso14443_3aErrorNone r = Some (Iso14443_3aErrorNone, r)" by (subst col_res_loop.simps) simp
    with step True r(2,4) q(5) kr show ?thesis by simp
  next
    case False
    have "10 - (l + 1) < 10 - l" using st'(2) by linarith
    then obtain p' where p': "col_res_loop drv Iso14443_3aErrorNone r = Some (Iso14443_3aErrorNone, p')" "kept r p'" "poller_ok p'"
      "p3_state p' = Iso14443_3aPollerStateActivated"
      "p3_data p' = \<lparr>i3_uid = uid @ drop (length uid) (i3_uid (p3_data r)), i3_uid_len = of_nat (length uid),
        i3_atqa = i3_atqa (p3_data r), i3_sak = sak\<rparr>"
      using less.hyps [of "l + 1" r] False r(2) res' by auto
    with False r(2) step q(5) kept_trans [OF kr p'(2)] show ?thesis by simp
  qed
qed

text \<open>The whole activation, for every driver that resolves like a card.\<close>

lemma activate_resolves:
  assumes drv: "driver_ok drv" and p: "poller_ok p" and uid: "length uid \<in> {4, 7, 10}" and atqa: "length atqa = 2"
    and sak: "sak AND 4 = 0" and res: "\<And>n. p3_state p = Iso14443_3aPollerStateIdle \<longrightarrow> n = p3_nfc p \<Longrightarrow> resolves drv n uid atqa sak"
  shows "\<exists>p'. iso14443_3a_poller_activate drv p = Some (Iso14443_3aErrorNone, p') \<and> poller_ok p' \<and>
    (p3_state p = Iso14443_3aPollerStateIdle \<longrightarrow> kept p p') \<and> p3_state p' = Iso14443_3aPollerStateActivated \<and>
    p3_data p' = \<lparr>i3_uid = uid @ replicate (10 - length uid) 0, i3_uid_len = of_nat (length uid), i3_atqa = atqa, i3_sak = sak\<rparr>"
proof -
  obtain q where q: "iso14443_3a_poller_activate drv p = activate_rest drv q" "poller_ok q"
    "p3_data q = iso14443_3a_reset (p3_data p)" "p3_state p = Iso14443_3aPollerStateIdle \<longrightarrow> kept p q"
    using activate_start [OF drv p] by blast
  have rq: "resolves drv (p3_nfc q) uid atqa sak" using q(4) by (intro res) (simp add: kept_def)
  obtain rx where rx: "bit_buffer_copy_bytes (p3_rx_buffer q) atqa 2 = Some rx" "bb_bytes rx = atqa" "bb_size_bits rx = 8 * 2"
    using copy_bytes_ok [of "p3_rx_buffer q" atqa 2] q(2) atqa by (auto simp: poller_ok_def)
  have "nfc_trx_sens_req drv (p3_nfc q) (p3_rx_buffer q) = (NfcErrorNone, rx, p3_nfc q)" "bit_buffer_get_size_bytes rx = 2"
    using rx rq by (simp_all add: resolves_def card_driver_def respond_def bit_buffer_get_size_bytes_def)
  moreover have "i3_uid_len (p3_data q) = 0" by (simp add: q(3) iso14443_3a_reset_def)
  ultimately obtain s where s: "activate_rest drv q = col_res_loop drv Iso14443_3aErrorNone s" "in_progress s 0"
    "cr_state (p3_col_res s) = Iso14443_3aPollerColResStateStateNewCascade" "p3_data s = (p3_data q)\<lparr>i3_atqa := atqa\<rparr>" "kept q s"
    using activate_rest_in_progress [OF drv q(2)] rx(2) by metis
  have "levels_done uid s 0" using s(2) uid by (auto simp: levels_done_def)
  moreover have "resolves drv (p3_nfc s) uid atqa sak" using rq s(5) by (simp add: kept_def)
  ultimately obtain p' where p': "col_res_loop drv Iso14443_3aErrorNone s = Some (Iso14443_3aErrorNone, p')" "kept s p'" "poller_ok p'"
    "p3_state p' = Iso14443_3aPollerStateActivated"
    "p3_data p' = \<lparr>i3_uid = uid @ drop (length uid) (i3_uid (p3_data s)), i3_uid_len = of_nat (length uid),
        i3_atqa = i3_atqa (p3_data s), i3_sak = sak\<rparr>"
    using card_loop [OF uid sak _ s(3)] by blast
  have "kept p p'" if "p3_state p = Iso14443_3aPollerStateIdle"
    using that q(4) s(5) p'(2) kept_trans by blast
  then show ?thesis using q(1,3) s(1,4) p' by (simp add: iso14443_3a_reset_def)
qed

text \<open>C14: A card that follows the standard is activated: with a UID of 4, 7 or 10 bytes, whatever they are, the
  poller ends with this UID, its length, the ATQA and the SAK of the card.\<close>

theorem activate_finds_card:
  assumes uid: "length uid \<in> {4, 7, 10}" and atqa: "length atqa = 2" and sak: "sak AND 4 = 0" and p: "poller_ok p"
  shows "\<exists>p'. iso14443_3a_poller_activate (card_driver uid atqa sak) p = Some (Iso14443_3aErrorNone, p') \<and>
    p3_state p' = Iso14443_3aPollerStateActivated \<and> take (length uid) (i3_uid (p3_data p')) = uid \<and>
    i3_uid_len (p3_data p') = of_nat (length uid) \<and> i3_atqa (p3_data p') = atqa \<and> i3_sak (p3_data p') = sak"
proof -
  obtain p' where "iso14443_3a_poller_activate (card_driver uid atqa sak) p = Some (Iso14443_3aErrorNone, p')"
    "p3_state p' = Iso14443_3aPollerStateActivated"
    "p3_data p' = \<lparr>i3_uid = uid @ replicate (10 - length uid) 0, i3_uid_len = of_nat (length uid), i3_atqa = atqa, i3_sak = sak\<rparr>"
    using activate_resolves [OF card_driver_ok p uid atqa sak card_driver_resolves] by blast
  then show ?thesis by simp
qed

text \<open>A fresh poller, and a card with seven bytes.\<close>

lemma poller_alloc_ok: "\<exists>p. iso14443_3a_poller_alloc n = Some p \<and> poller_ok p"
  by (auto simp: iso14443_3a_poller_alloc_def bit_buffer_alloc_def poller_ok_def bb_ok_def col_res_reset_def iso14443_3a_alloc_def)

theorem activate_total_witness:
  "\<exists>p ret p'. iso14443_3a_poller_alloc () = Some p \<and>
     iso14443_3a_poller_activate (card_driver [1, 2, 3, 4, 5, 6, 7] [0x44, 0x00] 0x20) p = Some (ret, p') \<and> poller_ok p'"
proof -
  let ?drv = "card_driver [1, 2, 3, 4, 5, 6, 7] [0x44, 0x00] 0x20"
  obtain p :: "unit Iso14443_3aPoller" where p: "iso14443_3a_poller_alloc () = Some p" "poller_ok p" using poller_alloc_ok [of "()"] by (auto intro: that)
  obtain ret p' where "iso14443_3a_poller_activate ?drv p = Some (ret, p')" "poller_ok p'"
    using activate_total [of ?drv, OF card_driver_ok p(2)] by blast
  with p(1) show ?thesis by (intro exI conjI)
qed

theorem activate_finds_card_witness:
  "\<exists>p p'. iso14443_3a_poller_alloc () = Some p \<and>
     iso14443_3a_poller_activate (card_driver [1, 2, 3, 4, 5, 6, 7] [0x44, 0x00] 0x20) p = Some (Iso14443_3aErrorNone, p') \<and>
     take 7 (i3_uid (p3_data p')) = [1, 2, 3, 4, 5, 6, 7] \<and> i3_sak (p3_data p') = 0x20"
proof -
  obtain p :: "unit Iso14443_3aPoller" where p: "iso14443_3a_poller_alloc () = Some p" "poller_ok p" using poller_alloc_ok [of "()"] by (auto intro: that)
  have "length [1, 2, 3, 4, 5, 6, 7 :: u8] \<in> {4, 7, 10}" "length [0x44, 0x00 :: u8] = 2" "(0x20 :: u8) AND 4 = 0" by simp_all
  from activate_finds_card [OF this p(2)] obtain p' where
    "iso14443_3a_poller_activate (card_driver [1, 2, 3, 4, 5, 6, 7] [0x44, 0x00] 0x20) p = Some (Iso14443_3aErrorNone, p')"
    "take (length [1, 2, 3, 4, 5, 6, 7 :: u8]) (i3_uid (p3_data p')) = [1, 2, 3, 4, 5, 6, 7]" "i3_sak (p3_data p') = 0x20"
    by blast
  with p(1) show ?thesis by (intro exI conjI) (simp_all add: numeral_eq_Suc)
qed

end
