(* ===== verification/Mf_Classic_Listener_Facts.thy ===== *)
theory Mf_Classic_Listener_Facts
  imports Mf_Classic_Listener Mf_Classic_Text Crypto1_Facts Iso14443_3a_Facts
begin

text \<open>
  Properties of the emulated Mifare Classic card: it handles every frame of a reader without leaving its buffers,
  and the blocks of the card change only after an authentication, and only as the access conditions of the sector
  allow.
\<close>

subsection \<open>Encrypted frames of any length\<close>

lemma set_byte_with_parity_total:
  assumes "bb_ok e" "i < bb_size_bits e div 8"
  shows "\<exists>e'. bit_buffer_set_byte_with_parity e i x p = Some e' \<and> bb_ok e' \<and> bb_size_bits e' = bb_size_bits e \<and>
    bb_capacity_bytes e' = bb_capacity_bytes e"
proof -
  obtain e' where e': "bit_buffer_set_byte_with_parity e i x p = Some e'" "bb_ok e'" "bb_size_bits e' = bb_size_bits e"
    using set_byte_with_parity_spec [OF assms] by blast
  moreover have "bb_capacity_bytes e' = bb_capacity_bytes e"
    using e'(1) by (auto simp: bit_buffer_set_byte_with_parity_def bind_eq_Some_conv split: if_splits)
  ultimately show ?thesis by blast
qed

definition same_frame :: "nat \<Rightarrow> bit_buffer \<Rightarrow> bit_buffer \<Rightarrow> bool" where
  "same_frame n out e \<longleftrightarrow> bb_ok e \<and> bb_size_bits e = n \<and> bb_capacity_bytes e = bb_capacity_bytes out"

lemma crypto1_encrypt_total:
  assumes b: "bb_ok b" "0 < bb_size_bits b" and out: "bb_ok out" "bb_size_bits b \<le> 8 * bb_capacity_bytes out"
    and ks: "\<And>k. keystream = Some k \<Longrightarrow> bb_size_bits b div 8 \<le> length k"
  shows "\<exists>c' e. crypto1_encrypt c keystream b out = Some (c', e) \<and> same_frame (bb_size_bits b) out e"
proof -
  let ?n = "bb_size_bits b"
  define o0 where "o0 = out\<lparr>bb_size_bits := ?n\<rparr>"
  have o0: "same_frame ?n out o0" using out by (auto simp: o0_def bb_ok_def same_frame_def)
  have data: "0 < length (bb_data b)" "?n div 8 \<le> length (bb_data b)" using b by (auto simp: bb_ok_def)
  show ?thesis
  proof (cases "?n < 8")
    case True
    have "\<exists>t. ofold (\<lambda>i (c, encrypted_byte). do {
           x \<leftarrow> rd (bb_data b) 0;
           let (k, c) = crypto1_bit 0 False c;
           Some (c, encrypted_byte OR push_bit i (k XOR furi_bit x i))
         }) [0..<?n] (c, 0) = Some t \<and> True"
      by (rule ofold_upt_inv [where I = "\<lambda>_ _. True"]) (use data in \<open>auto simp: rd_ok split: prod.split\<close>)
    then obtain c' x where f: "ofold (\<lambda>i (c, encrypted_byte). do {
           x \<leftarrow> rd (bb_data b) 0;
           let (k, c) = crypto1_bit 0 False c;
           Some (c, encrypted_byte OR push_bit i (k XOR furi_bit x i))
         }) [0..<?n] (c, 0) = Some (c', x)" by auto
    have "0 < bit_buffer_get_size_bytes o0" using o0 b(2) by (simp add: same_frame_def size_bytes_eq)
    then obtain e where "bit_buffer_set_byte o0 0 x = Some e" "same_frame ?n out e"
      using set_byte_ok [of o0 0 x] o0 by (auto simp: same_frame_def)
    with f True out(2) show ?thesis
      by (simp add: crypto1_encrypt_def bit_buffer_get_size_def bit_buffer_set_size_def bit_buffer_get_data_def Let_def o0_def)
  next
    case False
    let ?body = "\<lambda>i (c, out). do {
         input \<leftarrow> (case keystream of Some ks \<Rightarrow> rd ks i | None \<Rightarrow> Some 0);
         let (k, c) = crypto1_byte input False c;
         x \<leftarrow> rd (bb_data b) i;
         let encrypted_byte = k XOR x;
         let parity_bit = encrypted_parity c x;
         out \<leftarrow> bit_buffer_set_byte_with_parity out i encrypted_byte parity_bit;
         Some (c, out)
       }"
    have "\<exists>t. ofold ?body [0..<?n div 8] (c, o0) = Some t \<and> same_frame ?n out (snd t)"
    proof (rule ofold_upt_inv [where I = "\<lambda>_ t. same_frame ?n out (snd t)"])
      show "same_frame ?n out (snd (c, o0))" using o0 by simp
    next
      fix i :: nat and t :: "Crypto1 \<times> bit_buffer" assume i: "i < ?n div 8" and t: "same_frame ?n out (snd t)"
      obtain d e where [simp]: "t = (d, e)" by (cases t)
      obtain inp where inp: "(case keystream of Some ks \<Rightarrow> rd ks i | None \<Rightarrow> Some 0) = Some inp"
        using ks i by (cases keystream) (fastforce simp: rd_def)+
      obtain k c'' where k: "crypto1_byte inp False d = (k, c'')" by (cases "crypto1_byte inp False d")
      obtain e' where "bit_buffer_set_byte_with_parity e i (k XOR bb_data b ! i) (encrypted_parity c'' (bb_data b ! i)) = Some e'"
        "same_frame ?n out e'"
        using set_byte_with_parity_total [of e i] i t by (fastforce simp: same_frame_def)
      then show "\<exists>t'. ?body i t = Some t' \<and> same_frame ?n out (snd t')"
        using inp k i data(2) by (simp add: rd_ok)
    qed
    then obtain c' e where "ofold ?body [0..<?n div 8] (c, o0) = Some (c', e)" "same_frame ?n out e" by auto
    with False out(2) show ?thesis
      by (simp add: crypto1_encrypt_def bit_buffer_get_size_def bit_buffer_set_size_def bit_buffer_get_data_def Let_def o0_def)
  qed
qed

lemma crypto1_decrypt_total:
  assumes b: "bb_ok b" "0 < bb_size_bits b" and out: "bb_ok out" "bb_size_bits b \<le> 8 * bb_capacity_bytes out"
  shows "\<exists>c' e. crypto1_decrypt c b out = Some (c', e) \<and> same_frame (bb_size_bits b) out e"
proof -
  let ?n = "bb_size_bits b"
  define o0 where "o0 = out\<lparr>bb_size_bits := ?n\<rparr>"
  have o0: "same_frame ?n out o0" using out by (auto simp: o0_def bb_ok_def same_frame_def)
  have data: "0 < length (bb_data b)" "?n div 8 \<le> length (bb_data b)" using b by (auto simp: bb_ok_def)
  show ?thesis
  proof (cases "?n < 8")
    case True
    obtain x c' where f: "fold (decrypt_bit (bb_data b ! 0)) [0, 1, 2, 3] (0, c) = (x, c')"
      by (cases "fold (decrypt_bit (bb_data b ! 0)) [0, 1, 2, 3] (0, c)")
    have "0 < bit_buffer_get_size_bytes o0" using o0 b(2) by (simp add: same_frame_def size_bytes_eq)
    then obtain e where "bit_buffer_set_byte o0 0 x = Some e" "same_frame ?n out e"
      using set_byte_ok [of o0 0 x] o0 by (auto simp: same_frame_def)
    with f True out(2) data(1) show ?thesis
      by (simp add: crypto1_decrypt_def bit_buffer_get_size_def bit_buffer_set_size_def bit_buffer_get_data_def rd_ok o0_def
        del: fold_simps)
  next
    case False
    let ?body = "\<lambda>i (c, out). do {
         x \<leftarrow> rd (bb_data b) i;
         let (k, c) = crypto1_byte 0 False c;
         out \<leftarrow> bit_buffer_set_byte out i (k XOR x);
         Some (c, out)
       }"
    have "\<exists>t. ofold ?body [0..<?n div 8] (c, o0) = Some t \<and> same_frame ?n out (snd t)"
    proof (rule ofold_upt_inv [where I = "\<lambda>_ t. same_frame ?n out (snd t)"])
      show "same_frame ?n out (snd (c, o0))" using o0 by simp
    next
      fix i :: nat and t :: "Crypto1 \<times> bit_buffer" assume i: "i < ?n div 8" and t: "same_frame ?n out (snd t)"
      obtain d e where [simp]: "t = (d, e)" by (cases t)
      obtain k c'' where k: "crypto1_byte 0 False d = (k, c'')" by (cases "crypto1_byte 0 False d")
      obtain e' where "bit_buffer_set_byte e i (k XOR bb_data b ! i) = Some e'" "same_frame ?n out e'"
        using set_byte_ok [of e i] i t by (fastforce simp: same_frame_def bit_buffer_get_size_bytes_def)
      then show "\<exists>t'. ?body i t = Some t' \<and> same_frame ?n out (snd t')"
        using k i data(2) by (simp add: rd_ok)
    qed
    then obtain c' e where "ofold ?body [0..<?n div 8] (c, o0) = Some (c', e)" "same_frame ?n out e" by auto
    with False out(2) show ?thesis
      by (simp add: crypto1_decrypt_def bit_buffer_get_size_def bit_buffer_set_size_def bit_buffer_get_data_def Let_def o0_def)
  qed
qed

subsection \<open>The invariant\<close>

definition buffers_ok :: "MfClassicListener \<Rightarrow> bool" where
  "buffers_ok l \<longleftrightarrow> (\<forall>b \<in> {ml_tx_plain_buffer l, ml_tx_encrypted_buffer l, ml_rx_plain_buffer l}. bb_ok b \<and> bb_capacity_bytes b = 64)"

definition card_ok :: "MfClassicListener \<Rightarrow> bool" where
  "card_ok l \<longleftrightarrow> data_ok (ml_data l) \<and> length (i3_uid (mfc_iso14443_3a_data (ml_data l))) = 10 \<and>
     total_block_num l = unat (mf_classic_get_total_block_num (mfc_type (ml_data l)))"

definition auth_ok :: "MfClassicListener \<Rightarrow> bool" where
  "auth_ok l \<longleftrightarrow> length (ac_nt (ml_auth_context l)) = 4 \<and> length (ac_nr (ml_auth_context l)) = 4 \<and>
     length (ac_ar (ml_auth_context l)) = 4 \<and> length (ac_at (ml_auth_context l)) = 4"

text \<open>What holds between two frames: a command that has begun is at one of its later steps, a write has its block in the
  authenticated sector, and only the second step of an authentication waits without one.\<close>

definition progress_ok :: "MfClassicListener \<Rightarrow> bool" where
  "progress_ok l \<longleftrightarrow>
     (ml_state l = MfClassicListenerStateAuthComplete \<longrightarrow> ml_comm_state l = MfClassicListenerCommStateEncrypted) \<and>
     (cmd_in_progress l \<longrightarrow>
       current_cmd_idx l \<in> {2, 3} \<and> current_cmd_handler_idx l = 1 \<and> ml_state l = MfClassicListenerStateIdle \<or>
       ml_state l = MfClassicListenerStateAuthComplete \<and>
        (current_cmd_idx l = 5 \<and> current_cmd_handler_idx l = 1 \<and>
          in_auth_sector l (write_block l) \<and> write_block l \<noteq> 0 \<and> unat (write_block l) < total_block_num l \<or>
         current_cmd_idx l \<in> {6, 7, 8} \<and> current_cmd_handler_idx l \<in> {1, 2}))"

definition listener_static :: "MfClassicListener \<Rightarrow> bool" where
  "listener_static l \<longleftrightarrow> buffers_ok l \<and> card_ok l \<and> auth_ok l"

definition listener_ok :: "MfClassicListener \<Rightarrow> bool" where
  "listener_ok l \<longleftrightarrow> listener_static l \<and> progress_ok l"

lemmas static_defs = listener_static_def buffers_ok_def card_ok_def auth_ok_def

definition frame_ok :: "bit_buffer \<Rightarrow> bool" where
  "frame_ok b \<longleftrightarrow> bb_ok b \<and> 0 < bb_size_bits b \<and> bb_size_bits b \<le> 512"

lemma reset_static: "listener_static l \<Longrightarrow> listener_ok (mf_classic_listener_reset_state l)"
  by (simp add: listener_ok_def static_defs progress_ok_def mf_classic_listener_reset_state_def no_auth_context_def)

lemma get_byte_ok: "bb_ok b \<Longrightarrow> i < bit_buffer_get_size_bytes b \<Longrightarrow> \<exists>x. bit_buffer_get_byte b i = Some x"
  using bb_ok_data [of b] size_bytes_le [of b] by (simp add: bit_buffer_get_byte_def rd_ok)

lemma write_mid_ok:
  assumes "bb_ok b" "start + n \<le> bit_buffer_get_size_bytes b" "length dest = n" "start + n < 2 ^ 32"
  shows "bit_buffer_write_bytes_mid b dest start n = Some (take n (drop start (bb_bytes b)))"
proof -
  have "bit_buffer_get_size_bytes b \<le> length (bb_data b)" using bb_ok_data [OF assms(1)] by simp
  then show ?thesis using assms size_add_eq [OF assms(4)]
    by (simp add: bit_buffer_write_bytes_mid_def memcpy_ok bb_bytes_def drop_take min_absorb1)
qed

lemma access_ok: "data_ok d \<Longrightarrow> \<exists>r. mf_classic_is_allowed_access d n t a = Some r"
proof -
  assume d: "data_ok d"
  have s: "unat (mf_classic_get_sector_by_block n) < 40"
    unfolding unat_sector by (rule sector_of_less [OF unat_less_256])
  have "rd (mfc_block d) (trailer_of (unat (mf_classic_get_sector_by_block n))) =
      Some (mfc_block d ! trailer_of (unat (mf_classic_get_sector_by_block n)))"
    using d trailer_of_less [OF s] by (simp add: rd_ok data_ok_def)
  then show ?thesis
    by (simp add: mf_classic_is_allowed_access_def mf_classic_is_allowed_access_sector_trailer_def trailer_index [OF s])
qed

lemma allowed_ok: "card_ok l \<Longrightarrow> \<exists>r. allowed l n a = Some r"
  using access_ok by (simp add: allowed_def card_ok_def)

lemma send_encrypted_ok:
  assumes "listener_static l" "0 < bb_size_bits (ml_tx_plain_buffer l)" "bb_size_bits (ml_tx_plain_buffer l) \<le> 512"
    "\<And>k. ks = Some k \<Longrightarrow> bb_size_bits (ml_tx_plain_buffer l) div 8 \<le> length k"
  shows "\<exists>c e. send_encrypted ks l = Some (l\<lparr>ml_crypto := c, ml_tx_encrypted_buffer := e,
      ml_sent := ml_sent l @ [iso14443_3a_listener_tx_with_custom_parity e]\<rparr>) \<and> bb_ok e \<and> bb_capacity_bytes e = 64"
proof -
  obtain c e where "crypto1_encrypt (ml_crypto l) ks (ml_tx_plain_buffer l) (ml_tx_encrypted_buffer l) = Some (c, e)"
    "same_frame (bb_size_bits (ml_tx_plain_buffer l)) (ml_tx_encrypted_buffer l) e"
    using crypto1_encrypt_total [of "ml_tx_plain_buffer l" "ml_tx_encrypted_buffer l" ks "ml_crypto l"] assms
    by (auto simp: static_defs)
  with assms(1) show ?thesis by (auto simp: send_encrypted_def send_frame_def same_frame_def static_defs)
qed

text \<open>A step that keeps the static part and the data of the card.\<close>

definition keeps_data :: "MfClassicListener \<Rightarrow> MfClassicListener \<Rightarrow> bool" where
  "keeps_data l l' \<longleftrightarrow> listener_static l' \<and> ml_data l' = ml_data l"

lemma short_frame_ok:
  assumes "listener_static l"
  shows "\<exists>l'. mf_classic_listener_send_short_frame l x = Some l' \<and> keeps_data l l' \<and> (progress_ok l \<longrightarrow> progress_ok l')"
proof -
  obtain tx where tx: "bit_buffer_set_byte ((ml_tx_plain_buffer l)\<lparr>bb_size_bits := 4\<rparr>) 0 x = Some tx" "bb_ok tx"
    "bb_size_bits tx = 4" "bb_capacity_bytes tx = 64"
    using set_byte_ok [of "(ml_tx_plain_buffer l)\<lparr>bb_size_bits := 4\<rparr>" 0 x] assms
    by (auto simp: static_defs bb_ok_def bit_buffer_get_size_bytes_def)
  let ?l = "l\<lparr>ml_tx_plain_buffer := tx\<rparr>"
  have l: "listener_static ?l" using assms tx by (simp add: static_defs)
  obtain c e where "send_encrypted None ?l = Some (?l\<lparr>ml_crypto := c, ml_tx_encrypted_buffer := e,
      ml_sent := ml_sent l @ [iso14443_3a_listener_tx_with_custom_parity e]\<rparr>)" "bb_ok e" "bb_capacity_bytes e = 64"
    using send_encrypted_ok [OF l, of None] tx by auto
  note enc = this
  have short: "mf_classic_listener_send_short_frame l x = (if ml_comm_state l = MfClassicListenerCommStateEncrypted
      then send_encrypted None ?l else Some (send_frame (iso14443_3a_listener_tx_with_custom_parity tx) ?l))"
    using tx(1) assms by (simp add: mf_classic_listener_send_short_frame_def bit_buffer_set_size_def static_defs)
  show ?thesis
  proof (cases "ml_comm_state l = MfClassicListenerCommStateEncrypted")
    case True
    with short enc l show ?thesis
      by (simp add: keeps_data_def static_defs progress_ok_def in_auth_sector_def)
  next
    case False
    with short l show ?thesis
      by (auto simp: send_frame_def keeps_data_def static_defs progress_ok_def in_auth_sector_def)
  qed
qed

subsection \<open>The handlers\<close>

text \<open>A change of a block that the access conditions of its sector allow: the bytes that differ belong to parts that
  may be written, or the block gets the value of a transfer.\<close>

definition write_allowed :: "MfClassicListener \<Rightarrow> u8 \<Rightarrow> bytes \<Rightarrow> bool" where
  "write_allowed l n b \<longleftrightarrow> (\<forall>i < 16. b ! i \<noteq> mfc_block (ml_data l) ! unat n ! i \<longrightarrow>
     allowed l n (if \<not> mf_classic_is_sector_trailer n then MfClassicActionDataWrite
       else if i < 6 then MfClassicActionKeyAWrite
       else if i < 10 then MfClassicActionACWrite
       else MfClassicActionKeyBWrite) = Some True)"

definition changes_as_allowed :: "MfClassicListener \<Rightarrow> MfClassicListener \<Rightarrow> bool" where
  "changes_as_allowed l l' \<longleftrightarrow> ml_data l' = ml_data l \<or>
     ml_state l = MfClassicListenerStateAuthComplete \<and>
     (\<exists>n b. ml_data l' = (ml_data l)\<lparr>mfc_block := (mfc_block (ml_data l))[unat n := b]\<rparr> \<and>
       (in_auth_sector l n \<and> n \<noteq> 0 \<and> unat n < total_block_num l \<and> write_allowed l n b \<or>
        allowed l n MfClassicActionDataDec = Some True \<and> b = mf_classic_value_to_block (transfer_value l) n))"

definition handled :: "MfClassicListener \<Rightarrow> (MfClassicListenerCommand \<times> MfClassicListener) option \<Rightarrow> bool" where
  "handled l r \<longleftrightarrow> (\<exists>cmd l'. r = Some (cmd, l') \<and> listener_static l' \<and> changes_as_allowed l l' \<and>
     (cmd \<notin> {MfClassicListenerCommandNack, MfClassicListenerCommandSleep} \<longrightarrow> progress_ok l'))"

lemma handledI:
  "r = Some (cmd, l') \<Longrightarrow> listener_static l' \<Longrightarrow> ml_data l' = ml_data l \<Longrightarrow>
   cmd \<in> {MfClassicListenerCommandNack, MfClassicListenerCommandSleep} \<or> progress_ok l' \<Longrightarrow> handled l r"
  by (auto simp: handled_def changes_as_allowed_def)

lemma nackI: "listener_static l \<Longrightarrow> handled l (Some (MfClassicListenerCommandNack, l))"
  by (rule handledI [OF refl]) simp_all

text \<open>The first step of a command starts from here.\<close>

definition at_start :: "nat \<Rightarrow> MfClassicListener \<Rightarrow> bool" where
  "at_start i l \<longleftrightarrow> listener_ok l \<and> \<not> cmd_in_progress l \<and> current_cmd_idx l = i \<and> current_cmd_handler_idx l = 0"

lemma halt_handled:
  assumes "listener_static l" "progress_ok l" "bb_ok b" "1 < bit_buffer_get_size_bytes b"
  shows "handled l (mf_classic_listener_halt_handler random b l)"
proof -
  obtain x where "bit_buffer_get_byte b 1 = Some x" using get_byte_ok [OF assms(3,4)] by blast
  with assms show ?thesis by (auto simp: mf_classic_listener_halt_handler_def intro: handledI)
qed

lemma cuid_ok: "length (i3_uid d) = 10 \<Longrightarrow> \<exists>c. iso14443_3a_get_cuid d = Some c"
  by (simp add: iso14443_3a_get_cuid_def Let_def rd_def)

lemma first_part_handled:
  assumes l: "at_start i l" "i \<in> {2, 3}" and random: "length random = 4"
  shows "handled l (mf_classic_listener_auth_first_part_handler random l kt n)"
proof (cases "total_block_num l \<le> unat n")
  case True
  have "listener_static (l\<lparr>ml_state := MfClassicListenerStateIdle\<rparr>)"
    using l(1) by (simp add: at_start_def listener_ok_def static_defs)
  with True show ?thesis
    by (intro handledI [of _ MfClassicListenerCommandNack "l\<lparr>ml_state := MfClassicListenerStateIdle\<rparr>"])
      (simp_all add: mf_classic_listener_auth_first_part_handler_def)
next
  case False
  have st: "listener_static l" and start: "\<not> cmd_in_progress l" "current_cmd_idx l = i" "current_cmd_handler_idx l = 0"
    using l(1) by (simp_all add: at_start_def listener_ok_def)
  let ?s = "mf_classic_get_sector_by_block n"
  have s: "unat ?s < 40" unfolding unat_sector by (rule sector_of_less [OF unat_less_256])
  let ?b = "mfc_block (ml_data l) ! trailer_of (unat ?s)"
  have b: "rd (mfc_block (ml_data l)) (trailer_of (unat ?s)) = Some ?b" "length ?b = 16"
    using st trailer_of_less [OF s] by (simp_all add: rd_ok data_ok_def static_defs)
  let ?k = "case kt of MfClassicKeyTypeA \<Rightarrow> take 6 ?b | MfClassicKeyTypeB \<Rightarrow> take 6 (drop 10 ?b)"
  have "length ?k = 6" using b(2) by (cases kt) simp_all
  then obtain key where key: "bit_lib_bytes_to_num_be ?k 6 = Some key" using num_of_bytes by blast
  obtain cuid where cuid: "iso14443_3a_get_cuid (mfc_iso14443_3a_data (ml_data l)) = Some cuid"
    using cuid_ok st by (auto simp: static_defs)
  obtain nt where nt: "bit_lib_bytes_to_num_be random 4 = Some nt"
    using bytes_to_num_be_bits [of 4 random] random by auto
  let ?c = "crypto1_init key (ml_crypto l)"
  let ?l = "l\<lparr>ml_state := MfClassicListenerStateIdle, ml_auth_context := (ml_auth_context l)
      \<lparr>ac_key_type := kt, ac_block_num := n, ac_nt := random\<rparr>\<rparr>"
  have l': "listener_static ?l" using st random by (simp add: static_defs)
  show ?thesis
  proof (cases "ml_comm_state l = MfClassicListenerCommStatePlain")
    case True
    obtain w c' where w: "crypto1_word (ucast nt XOR cuid) False ?c = (w, c')" by (cases "crypto1_word (ucast nt XOR cuid) False ?c")
    obtain tx where tx: "bit_buffer_copy_bytes (ml_tx_encrypted_buffer l) random 4 = Some tx" "bb_ok tx" "bb_capacity_bytes tx = 64"
      using copy_bytes_ok [of "ml_tx_encrypted_buffer l" random 4] st random by (auto simp: static_defs)
    let ?r = "next_handler (send_frame (iso14443_3a_listener_tx tx) (?l\<lparr>ml_crypto := c', ml_tx_encrypted_buffer := tx\<rparr>))"
    have "mf_classic_listener_auth_first_part_handler random l kt n = Some (MfClassicListenerCommandProcessed, ?r)"
      using False True w tx(1) by (simp add: mf_classic_listener_auth_first_part_handler_def trailer_index [OF s] b(1) key cuid nt)
    then show ?thesis
      by (rule handledI) (use l' tx start l(2) in \<open>simp_all add: send_frame_def next_handler_def static_defs progress_ok_def\<close>)
  next
    case enc: False
    obtain ks where ks: "bit_lib_num_to_bytes_be (ucast (ucast nt XOR cuid :: u32)) 4 (replicate 4 0) = Some ks" "length ks = 4"
      using num_to_bytes_be [of 4 "replicate 4 0"] by fastforce
    obtain tx where tx: "bit_buffer_copy_bytes (ml_tx_plain_buffer l) random 4 = Some tx" "bb_ok tx" "bb_capacity_bytes tx = 64"
      "bb_size_bits tx = 8 * 4"
      using copy_bytes_ok [of "ml_tx_plain_buffer l" random 4] st random by (auto simp: static_defs)
    let ?m = "?l\<lparr>ml_crypto := ?c, ml_tx_plain_buffer := tx\<rparr>"
    have m: "listener_static ?m" using l' tx by (simp add: static_defs)
    obtain c' e where e: "send_encrypted (Some ks) ?m = Some (?m\<lparr>ml_crypto := c', ml_tx_encrypted_buffer := e,
        ml_sent := ml_sent l @ [iso14443_3a_listener_tx_with_custom_parity e]\<rparr>)" "bb_ok e" "bb_capacity_bytes e = 64"
      using send_encrypted_ok [OF m, of "Some ks"] tx ks by auto
    let ?r = "next_handler (?m\<lparr>ml_crypto := c', ml_tx_encrypted_buffer := e,
        ml_sent := ml_sent l @ [iso14443_3a_listener_tx_with_custom_parity e]\<rparr>)"
    have "mf_classic_listener_auth_first_part_handler random l kt n = Some (MfClassicListenerCommandProcessed, ?r)"
      using False enc e(1) tx(1) ks(1)
      by (simp add: mf_classic_listener_auth_first_part_handler_def trailer_index [OF s] b(1) key cuid nt)
    then show ?thesis
      by (rule handledI) (use m e start l(2) in \<open>simp_all add: next_handler_def static_defs progress_ok_def\<close>)
  qed
qed

lemma auth_key_handled:
  assumes "at_start i l" "i \<in> {2, 3}" "length random = 4" "bb_ok b" "1 < bit_buffer_get_size_bytes b"
  shows "handled l (mf_classic_listener_auth_key_a_handler random b l)"
    and "handled l (mf_classic_listener_auth_key_b_handler random b l)"
proof -
  obtain x where "bit_buffer_get_byte b 1 = Some x" using get_byte_ok [OF assms(4,5)] by blast
  then show "handled l (mf_classic_listener_auth_key_a_handler random b l)"
    "handled l (mf_classic_listener_auth_key_b_handler random b l)"
    using first_part_handled [OF assms(1-3)]
    by (simp_all add: mf_classic_listener_auth_key_a_handler_def mf_classic_listener_auth_key_b_handler_def)
qed

lemma second_part_handled:
  assumes l: "listener_static l" and b: "bb_ok b"
  shows "handled l (mf_classic_listener_auth_second_part_handler random b l)"
proof (cases "bit_buffer_get_size_bytes b = 8")
  case False
  have "listener_static (l\<lparr>cmd_in_progress := False\<rparr>)" using l by (simp add: static_defs)
  with False show ?thesis
    by (intro handledI [of _ MfClassicListenerCommandSleep "l\<lparr>cmd_in_progress := False\<rparr>"])
      (simp_all add: mf_classic_listener_auth_second_part_handler_def)
next
  case True
  let ?nr = "take 4 (bb_bytes b)" and ?ar = "take 4 (drop 4 (bb_bytes b))"
  have len: "length (bb_bytes b) = 8" using length_bb_bytes [OF b] True by simp
  have nr: "bit_buffer_write_bytes_mid b (ac_nr (ml_auth_context l)) 0 4 = Some ?nr"
    "bit_buffer_write_bytes_mid b (ac_ar (ml_auth_context l)) 4 4 = Some ?ar"
    using write_mid_ok [OF b, of 0 4] write_mid_ok [OF b, of 4 4] True l by (simp_all add: static_defs)
  obtain nr ar nt where num: "bit_lib_bytes_to_num_be ?nr 4 = Some nr" "bit_lib_bytes_to_num_be ?ar 4 = Some ar"
    "bit_lib_bytes_to_num_be (ac_nt (ml_auth_context l)) 4 = Some nt"
    using bytes_to_num_be_bits [of 4 ?nr] bytes_to_num_be_bits [of 4 ?ar] bytes_to_num_be_bits [of 4 "ac_nt (ml_auth_context l)"] l len
    by (auto simp: static_defs)
  obtain w1 c1 where w1: "crypto1_word (ucast nr) True (ml_crypto l) = (w1, c1)" by (cases "crypto1_word (ucast nr) True (ml_crypto l)")
  obtain w2 c2 where w2: "crypto1_word 0 False c1 = (w2, c2)" by (cases "crypto1_word 0 False c1")
  let ?a = "(ml_auth_context l)\<lparr>ac_nr := ?nr, ac_ar := ?ar\<rparr>"
  let ?l = "l\<lparr>cmd_in_progress := False, ml_auth_context := ?a,
      ml_events := ml_events l @ [MfClassicListenerEventTypeAuthContextPartCollected ?a], ml_crypto := c2\<rparr>"
  have l': "listener_static ?l" using l len by (simp add: static_defs)
  show ?thesis
  proof (cases "ucast ar XOR w2 = crypto1_prng_successor (ucast nt) 64")
    case False
    then have "mf_classic_listener_auth_second_part_handler random b l = Some (MfClassicListenerCommandSleep, ?l)"
      using True nr num w1 w2 by (simp add: mf_classic_listener_auth_second_part_handler_def notify_def Let_def)
    then show ?thesis by (rule handledI) (use l' in simp_all)
  next
    case ok: True
    obtain at where at: "bit_lib_num_to_bytes_be (ucast (crypto1_prng_successor (ucast nt) 96)) 4 (ac_at (ml_auth_context l)) = Some at"
      "length at = 4"
      using num_to_bytes_be [of 4 "ac_at (ml_auth_context l)"] l by (fastforce simp: static_defs)
    obtain tx where tx: "bit_buffer_copy_bytes (ml_tx_plain_buffer l) at 4 = Some tx" "bb_ok tx" "bb_capacity_bytes tx = 64"
      "bb_size_bits tx = 8 * 4"
      using copy_bytes_ok [of "ml_tx_plain_buffer l" at 4] l at by (auto simp: static_defs)
    let ?m = "?l\<lparr>ml_auth_context := ?a\<lparr>ac_at := at\<rparr>, ml_tx_plain_buffer := tx\<rparr>"
    have m: "listener_static ?m" using l' tx at by (simp add: static_defs)
    obtain c' e where e: "send_encrypted None ?m = Some (?m\<lparr>ml_crypto := c', ml_tx_encrypted_buffer := e,
        ml_sent := ml_sent l @ [iso14443_3a_listener_tx_with_custom_parity e]\<rparr>)" "bb_ok e" "bb_capacity_bytes e = 64"
      using send_encrypted_ok [OF m, of None] tx by auto
    let ?r = "notify MfClassicListenerEventTypeAuthContextFullCollected (?m\<lparr>ml_crypto := c', ml_tx_encrypted_buffer := e,
        ml_sent := ml_sent l @ [iso14443_3a_listener_tx_with_custom_parity e],
        ml_state := MfClassicListenerStateAuthComplete, ml_comm_state := MfClassicListenerCommStateEncrypted\<rparr>)"
    have "mf_classic_listener_auth_second_part_handler random b l = Some (MfClassicListenerCommandProcessed, ?r)"
      using True ok nr num w1 w2 at(1) tx(1) e(1) by (simp add: mf_classic_listener_auth_second_part_handler_def notify_def Let_def)
    then show ?thesis
      by (rule handledI) (use m e in \<open>simp_all add: notify_def static_defs progress_ok_def\<close>)
  qed
qed

lemma auth_block_rd: "listener_static l \<Longrightarrow> rd (mfc_block (ml_data l)) (unat (n :: u8)) = Some (mfc_block (ml_data l) ! unat n) \<and>
    length (mfc_block (ml_data l) ! unat n) = 16"
  using unat_less_256 [of n] by (simp add: static_defs data_ok_def rd_ok)

lemma readable_ok:
  assumes "listener_static l" "length block = 16"
  shows "\<exists>r. readable_block l n block = Some r \<and> (\<forall>b. r = Some b \<longrightarrow> length b = 16)"
proof -
  have a: "\<exists>r. allowed l n x = Some r" for x using assms(1) allowed_ok by (simp add: listener_static_def)
  obtain r1 r2 r3 r4 where "allowed l n MfClassicActionKeyARead = Some r1" "allowed l n MfClassicActionKeyBRead = Some r2"
    "allowed l n MfClassicActionACRead = Some r3" "allowed l n MfClassicActionDataRead = Some r4"
    using a by meson
  with assms(2) show ?thesis by (simp add: readable_block_def Let_def)
qed

text \<open>What a read answers: the readable bytes of the block and their checksum, encrypted.\<close>

lemma read_block_answer:
  assumes st: "listener_static l" and auth: "ml_state l = MfClassicListenerStateAuthComplete"
    and n: "bit_buffer_get_byte b 1 = Some n" "in_auth_sector l n"
    and bs: "readable_block l n (mfc_block (ml_data l) ! unat n) = Some (Some bs)" "length bs = 16"
  shows "\<exists>p c e. mf_classic_listener_read_block_handler random b l = Some (MfClassicListenerCommandProcessed,
      l\<lparr>ml_tx_plain_buffer := p, ml_crypto := c, ml_tx_encrypted_buffer := e,
        ml_sent := ml_sent l @ [iso14443_3a_listener_tx_with_custom_parity e]\<rparr>) \<and>
    bb_ok p \<and> bb_capacity_bytes p = 64 \<and> bb_ok e \<and> bb_capacity_bytes e = 64 \<and>
    crypto1_encrypt (ml_crypto l) None p (ml_tx_encrypted_buffer l) = Some (c, e) \<and>
    iso14443_crc_check Iso14443CrcTypeA p = Some True \<and> take 16 (bb_bytes p) = bs \<and> bb_size_bits p = 144"
proof -
  note block = auth_block_rd [OF st, of n]
  obtain t1 where t1: "bit_buffer_copy_bytes (ml_tx_plain_buffer l) bs 16 = Some t1" "bb_ok t1" "bb_size_bits t1 = 8 * 16"
    "bb_capacity_bytes t1 = 64" "bb_bytes t1 = bs"
    using copy_bytes_ok [of "ml_tx_plain_buffer l" bs 16] st bs(2) by (auto simp: static_defs)
  obtain t2 where t2: "iso14443_crc_append Iso14443CrcTypeA t1 = Some t2" "bb_ok t2" "bb_size_bits t2 = 8 * (16 + 2)"
    "bb_capacity_bytes t2 = 64" "take 16 (bb_bytes t2) = bs" "iso14443_crc_check Iso14443CrcTypeA t2 = Some True"
    using append_crc_ok [OF t1(2,3), of Iso14443CrcTypeA] t1(4,5) by auto
  obtain c e where e: "crypto1_encrypt (ml_crypto l) None t2 (ml_tx_encrypted_buffer l) = Some (c, e)"
    "same_frame (bb_size_bits t2) (ml_tx_encrypted_buffer l) e"
    using crypto1_encrypt_total [of t2 "ml_tx_encrypted_buffer l" None "ml_crypto l"] st t2 by (auto simp: static_defs)
  have "mf_classic_listener_read_block_handler random b l = Some (MfClassicListenerCommandProcessed,
      l\<lparr>ml_tx_plain_buffer := t2, ml_crypto := c, ml_tx_encrypted_buffer := e,
        ml_sent := ml_sent l @ [iso14443_3a_listener_tx_with_custom_parity e]\<rparr>)"
    using auth n block bs(1) t1(1) t2(1) e(1)
    by (simp add: mf_classic_listener_read_block_handler_def send_encrypted_def send_frame_def)
  moreover have "bb_ok e" "bb_capacity_bytes e = 64" using e(2) st by (simp_all add: same_frame_def static_defs)
  ultimately show ?thesis using t2 e(1) by auto
qed

lemma read_block_handled:
  assumes l: "listener_ok l" "\<not> cmd_in_progress l" and b: "bb_ok b" "1 < bit_buffer_get_size_bytes b"
  shows "handled l (mf_classic_listener_read_block_handler random b l)"
proof -
  have st: "listener_static l" using l(1) by (simp add: listener_ok_def)
  obtain n where n: "bit_buffer_get_byte b 1 = Some n" using get_byte_ok [OF b] by blast
  note block = auth_block_rd [OF st, of n]
  obtain r where r: "readable_block l n (mfc_block (ml_data l) ! unat n) = Some r" "\<forall>b. r = Some b \<longrightarrow> length b = 16"
    using readable_ok [OF st] block by blast
  show ?thesis
  proof (cases "ml_state l = MfClassicListenerStateAuthComplete \<and> in_auth_sector l n \<and> r \<noteq> None")
    case False
    then have "mf_classic_listener_read_block_handler random b l = Some (MfClassicListenerCommandNack, l)"
      using n block r(1) by (auto simp: mf_classic_listener_read_block_handler_def)
    then show ?thesis by (simp add: nackI [OF st])
  next
    case True
    then obtain bs where bs: "r = Some bs" "length bs = 16" using r(2) by auto
    obtain p c e where "mf_classic_listener_read_block_handler random b l = Some (MfClassicListenerCommandProcessed,
        l\<lparr>ml_tx_plain_buffer := p, ml_crypto := c, ml_tx_encrypted_buffer := e,
          ml_sent := ml_sent l @ [iso14443_3a_listener_tx_with_custom_parity e]\<rparr>)"
      "bb_ok p" "bb_capacity_bytes p = 64" "bb_ok e" "bb_capacity_bytes e = 64"
      using read_block_answer [OF st _ n _ r(1) [unfolded bs] bs(2), of random] True by blast
    then show ?thesis
      by (elim handledI) (use st l in \<open>simp_all add: static_defs listener_ok_def progress_ok_def\<close>)
  qed
qed

lemma write_first_handled:
  assumes l: "at_start 5 l" and b: "bb_ok b" "1 < bit_buffer_get_size_bytes b"
  shows "handled l (mf_classic_listener_write_block_first_part_handler random b l)"
proof -
  have ok: "listener_static l" "progress_ok l" using l by (simp_all add: at_start_def listener_ok_def)
  obtain n where n: "bit_buffer_get_byte b 1 = Some n" using get_byte_ok [OF b] by blast
  show ?thesis
  proof (cases "ml_state l = MfClassicListenerStateAuthComplete \<and> unat n < total_block_num l \<and> n \<noteq> 0 \<and> in_auth_sector l n")
    case False
    then have "mf_classic_listener_write_block_first_part_handler random b l = Some (MfClassicListenerCommandNack, l)"
      using n by (auto simp: mf_classic_listener_write_block_first_part_handler_def)
    then show ?thesis by (simp add: nackI [OF ok(1)])
  next
    case True
    then have "mf_classic_listener_write_block_first_part_handler random b l =
        Some (MfClassicListenerCommandAck, next_handler (l\<lparr>write_block := n\<rparr>))"
      using n by (simp add: mf_classic_listener_write_block_first_part_handler_def)
    then show ?thesis
      by (rule handledI)
        (use True ok l in \<open>simp_all add: static_defs progress_ok_def next_handler_def at_start_def in_auth_sector_def\<close>)
  qed
qed

lemma splice_nth:
  assumes "length x = 16" "length y = 16" "i < 16"
  shows "(take 6 y @ drop 6 x) ! i = (if i < 6 then y ! i else x ! i)"
    and "(take 10 x @ take 6 (drop 10 y)) ! i = (if 10 \<le> i then y ! i else x ! i)"
    and "(take 6 x @ take 4 (drop 6 y) @ drop 10 x) ! i = (if 6 \<le> i \<and> i < 10 then y ! i else x ! i)"
  using assms by (auto simp: nth_append)

lemma writable_ok:
  fixes n :: u8
  assumes l: "listener_static l" and b: "bb_ok b" "bit_buffer_get_size_bytes b = 16"
  defines "block \<equiv> mfc_block (ml_data l) ! unat n"
  shows "\<exists>r. writable_block l n b block = Some r \<and> (\<forall>c. r = Some c \<longrightarrow> length c = 16 \<and> write_allowed l n c)"
proof -
  have block: "length block = 16" using auth_block_rd [OF l] by (simp add: block_def)
  have len: "length (bb_bytes b) = 16" using length_bb_bytes [OF b(1)] b(2) by simp
  have a: "\<exists>r. allowed l n x = Some r" for x using l allowed_ok by (simp add: listener_static_def)
  obtain ra rb rc rw where r: "allowed l n MfClassicActionKeyAWrite = Some ra" "allowed l n MfClassicActionKeyBWrite = Some rb"
    "allowed l n MfClassicActionACWrite = Some rc" "allowed l n MfClassicActionDataWrite = Some rw"
    using a by meson
  have mid: "bit_buffer_write_bytes_mid b (take 6 x) 0 6 = Some (take 6 (bb_bytes b))"
    "bit_buffer_write_bytes_mid b (take 6 (drop 10 x)) 10 6 = Some (take 6 (drop 10 (bb_bytes b)))"
    "bit_buffer_write_bytes_mid b (take 4 (drop 6 x)) 6 4 = Some (take 4 (drop 6 (bb_bytes b)))"
    "bit_buffer_write_bytes_mid b x 0 16 = Some (take 16 (bb_bytes b))" if "length x = 16" for x
    using that b by (simp_all add: write_mid_ok)
  show ?thesis
  proof (cases "mf_classic_is_sector_trailer n")
    case False
    then show ?thesis using r mid(4) [OF block] block len
      by (auto simp: writable_block_def write_allowed_def block_def)
  next
    case True
    let ?x = "if ra then take 6 (bb_bytes b) @ drop 6 block else block"
    let ?y = "if rb then take 10 ?x @ take 6 (drop 10 (bb_bytes b)) else ?x"
    let ?z = "if rc then take 6 ?y @ take 4 (drop 6 (bb_bytes b)) @ drop 10 ?y else ?y"
    have xyz: "length ?x = 16" "length ?y = 16" "length ?z = 16" using block len by simp_all
    have w: "writable_block l n b block = Some (if \<not> ra \<and> \<not> rb \<and> \<not> rc then None else Some ?z)"
    proof -
      have "(if ra then do { k \<leftarrow> bit_buffer_write_bytes_mid b (take 6 block) 0 6; Some (k @ drop 6 block) } else Some block) = Some ?x"
        by (simp add: mid(1) [OF block])
      moreover have "(if rb then do { k \<leftarrow> bit_buffer_write_bytes_mid b (take 6 (drop 10 ?x)) 10 6; Some (take 10 ?x @ k) }
          else Some ?x) = Some ?y"
        by (simp only: mid(2) [OF xyz(1)] Option.bind.simps split: if_split) simp
      moreover have "(if rc then do { k \<leftarrow> bit_buffer_write_bytes_mid b (take 4 (drop 6 ?y)) 6 4; Some (take 6 ?y @ k @ drop 10 ?y) }
          else Some ?y) = Some ?z"
        by (simp only: mid(3) [OF xyz(2)] Option.bind.simps split: if_split) simp
      ultimately show ?thesis
        unfolding writable_block_def by (simp only: True r Option.bind.simps if_True split: if_split) simp
    qed
    note sp = splice_nth [OF _ len]
    have x: "?x ! i = (if ra \<and> i < 6 then bb_bytes b ! i else block ! i)" if "i < 16" for i
      by (cases ra) (simp_all add: sp(1) [OF block that])
    have y: "?y ! i = (if rb \<and> 10 \<le> i then bb_bytes b ! i else ?x ! i)" if "i < 16" for i
      by (cases rb) (simp_all only: sp(2) [OF xyz(1) that] if_True if_False simp_thms)
    have z: "?z ! i = (if rc \<and> 6 \<le> i \<and> i < 10 then bb_bytes b ! i else ?y ! i)" if "i < 16" for i
      by (cases rc) (simp_all only: sp(3) [OF xyz(2) that] if_True if_False simp_thms)
    have "?z ! i = block ! i" if i: "i < 16" "\<not> (if i < 6 then ra else if i < 10 then rc else rb)" for i
    proof -
      have "\<not> (rc \<and> 6 \<le> i \<and> i < 10)" "\<not> (rb \<and> 10 \<le> i)" "\<not> (ra \<and> i < 6)" using i(2) by (auto split: if_splits)
      then show ?thesis using x [OF i(1)] y [OF i(1)] z [OF i(1)] by (simp only: if_False)
    qed
    then have "write_allowed l n ?z"
      using True r unfolding write_allowed_def block_def [symmetric] by (auto split: if_splits)
    with w xyz(3) show ?thesis by (intro exI [of _ "if \<not> ra \<and> \<not> rb \<and> \<not> rc then None else Some ?z"]) simp
  qed
qed

lemma set_block_ok:
  assumes "listener_static l" "length b = 16"
  shows "\<exists>l'. set_block (unat (n :: u8)) b l = Some l' \<and> listener_static l' \<and>
    l' = l\<lparr>ml_data := (ml_data l)\<lparr>mfc_block := (mfc_block (ml_data l))[unat n := b]\<rparr>\<rparr>"
  using assms unat_less_256 [of n]
  by (simp add: set_block_def wr_ok static_defs data_ok_def nth_list_update_if)

lemma write_second_handled:
  assumes l: "listener_static l" "ml_state l = MfClassicListenerStateAuthComplete"
      "ml_comm_state l = MfClassicListenerCommStateEncrypted"
      "in_auth_sector l (write_block l)" "write_block l \<noteq> 0" "unat (write_block l) < total_block_num l"
    and b: "bb_ok b"
  shows "handled l (mf_classic_listener_write_block_second_part_handler random b l)"
proof -
  let ?l = "l\<lparr>cmd_in_progress := False\<rparr>" and ?n = "write_block l"
  have st: "listener_static ?l" using l(1) by (simp add: static_defs)
  have nack: "handled l (Some (MfClassicListenerCommandNack, ?l))"
    by (rule handledI [OF refl st]) simp_all
  show ?thesis
  proof (cases "bit_buffer_get_size_bytes b = 16")
    case False
    with nack show ?thesis by (simp add: mf_classic_listener_write_block_second_part_handler_def)
  next
    case True
    obtain r where r: "writable_block ?l ?n b (mfc_block (ml_data l) ! unat ?n) = Some r"
      "\<forall>c. r = Some c \<longrightarrow> length c = 16 \<and> write_allowed ?l ?n c"
      using writable_ok [OF st b True, of ?n] by auto
    show ?thesis
    proof (cases r)
      case None
      with r(1) True nack auth_block_rd [OF l(1), of ?n] show ?thesis
        by (simp add: mf_classic_listener_write_block_second_part_handler_def)
    next
      case (Some c)
      then have c: "length c = 16" "write_allowed l ?n c" using r(2) by (simp_all add: write_allowed_def allowed_def)
      obtain l' where l': "set_block (unat ?n) c ?l = Some l'" "listener_static l'"
        "l' = ?l\<lparr>ml_data := (ml_data l)\<lparr>mfc_block := (mfc_block (ml_data l))[unat ?n := c]\<rparr>\<rparr>"
        using set_block_ok [OF st c(1), of ?n] by auto
      have "mf_classic_listener_write_block_second_part_handler random b l = Some (MfClassicListenerCommandAck, l')"
        using r(1) True Some l'(1) auth_block_rd [OF l(1), of ?n]
        by (simp add: mf_classic_listener_write_block_second_part_handler_def)
      moreover have "progress_ok l'" using l by (simp add: l'(3) progress_ok_def)
      moreover have "ml_data l' = (ml_data l)\<lparr>mfc_block := (mfc_block (ml_data l))[unat ?n := c]\<rparr>" by (simp add: l'(3))
      ultimately show ?thesis using l l'(2) c(2) unfolding handled_def changes_as_allowed_def by blast
    qed
  qed
qed

lemma value_cmd_handled:
  assumes l: "at_start i l" "i \<in> {6, 7, 8}" and b: "bb_ok b" "1 < bit_buffer_get_size_bytes b"
  shows "handled l (mf_classic_listener_value_cmd_handler random b l)"
proof -
  have ok: "listener_static l" "progress_ok l" using l by (simp_all add: at_start_def listener_ok_def)
  obtain n where n: "bit_buffer_get_byte b 1 = Some n" using get_byte_ok [OF b] by blast
  obtain cmd where cmd: "bit_buffer_get_byte b 0 = Some cmd" using get_byte_ok [OF b(1), of 0] b(2) by auto
  let ?act = "if cmd = 0xC1 then MfClassicActionDataInc else MfClassicActionDataDec"
  obtain r where r: "allowed l n ?act = Some r" using allowed_ok [of l n ?act] ok(1) by (auto simp: listener_static_def)
  let ?v = "if cmd = 0xC0 then MfClassicValueCommandDecrement
      else if cmd = 0xC1 then MfClassicValueCommandIncrement else MfClassicValueCommandRestore"
  have r': "allowed (l\<lparr>value_cmd := ?v\<rparr>) n ?act = Some r" using r by (simp add: allowed_def)
  note block = auth_block_rd [OF ok(1), of n]
  obtain valid v addr where v: "mf_classic_block_to_value (mfc_block (ml_data l) ! unat n) = (valid, v, addr)"
    by (cases "mf_classic_block_to_value (mfc_block (ml_data l) ! unat n)") auto
  have nack: "handled l (Some (MfClassicListenerCommandNack, l\<lparr>value_cmd := x\<rparr>))"
    "handled l (Some (MfClassicListenerCommandNack, l\<lparr>value_cmd := x, transfer_value := y\<rparr>))" for x y
    by (rule handledI [OF refl]; use ok in \<open>simp add: static_defs\<close>)+
  show ?thesis
  proof (cases "ml_state l = MfClassicListenerStateAuthComplete \<and> unat n < total_block_num l \<and> in_auth_sector l n \<and>
      cmd \<in> {0xC0, 0xC1, 0xC2}")
    case False
    then have "mf_classic_listener_value_cmd_handler random b l = Some (MfClassicListenerCommandNack, l)"
      using n cmd by (auto simp: mf_classic_listener_value_cmd_handler_def)
    then show ?thesis by (simp add: nackI [OF ok(1)])
  next
    case True
    let ?r = "next_handler (l\<lparr>value_cmd := ?v, transfer_value := v, transfer_valid := True\<rparr>)"
    have step: "mf_classic_listener_value_cmd_handler random b l =
      (if \<not> r then Some (MfClassicListenerCommandNack, l\<lparr>value_cmd := ?v\<rparr>)
       else if \<not> valid then Some (MfClassicListenerCommandNack, l\<lparr>value_cmd := ?v, transfer_value := v\<rparr>)
       else Some (MfClassicListenerCommandAck, ?r))"
      using True n cmd r' block v unfolding mf_classic_listener_value_cmd_handler_def
      by (simp only: simp_thms if_False if_True Option.bind.simps Let_def split not_le) auto
    have "handled l (Some (MfClassicListenerCommandAck, ?r))"
      by (rule handledI [OF refl])
        (use True ok l in \<open>simp_all add: static_defs progress_ok_def next_handler_def at_start_def\<close>)
    with nack show ?thesis unfolding step by simp
  qed
qed

lemma value_data_handled:
  assumes l: "listener_static l" "ml_state l = MfClassicListenerStateAuthComplete" "current_cmd_idx l \<in> {6, 7, 8}"
      "ml_comm_state l = MfClassicListenerCommStateEncrypted" "current_cmd_handler_idx l = 1"
    and b: "bb_ok b"
  shows "handled l (mf_classic_listener_value_data_receive_handler random b l)"
proof (cases "bit_buffer_get_size_bytes b = 4")
  case False
  then show ?thesis by (simp add: mf_classic_listener_value_data_receive_handler_def nackI [OF l(1)])
next
  case True
  have w: "bit_buffer_write_bytes_mid b (replicate 4 0) 0 4 = Some (take 4 (bb_bytes b))"
    using write_mid_ok [OF b, of 0 4] True by simp
  let ?d = "block_word (take 4 (bb_bytes b)) 0"
  let ?e = "if sint ?d < 0 then - ?d else ?d"
  let ?f = "if value_cmd l = MfClassicValueCommandDecrement then - ?e
    else if value_cmd l = MfClassicValueCommandRestore then 0 else ?e"
  have "mf_classic_listener_value_data_receive_handler random b l = Some (MfClassicListenerCommandSilent,
      next_handler (l\<lparr>transfer_value := transfer_value l + ?f, transfer_valid := True\<rparr>))"
    unfolding mf_classic_listener_value_data_receive_handler_def using True w by (simp only: Option.bind.simps Let_def) simp
  then show ?thesis
    by (rule handledI) (use l in \<open>simp_all add: static_defs progress_ok_def next_handler_def\<close>)
qed

lemma transfer_handled:
  assumes l: "listener_static l" "ml_state l = MfClassicListenerStateAuthComplete"
      "ml_comm_state l = MfClassicListenerCommStateEncrypted" and b: "bb_ok b"
  shows "handled l (mf_classic_listener_value_transfer_handler random b l)"
proof -
  let ?l = "l\<lparr>cmd_in_progress := False\<rparr>"
  have st: "listener_static ?l" using l(1) by (simp add: static_defs)
  have nack: "handled l (Some (MfClassicListenerCommandNack, ?l))"
    by (rule handledI [OF refl st]) simp_all
  show ?thesis
  proof (cases "bit_buffer_get_size_bytes b = 2")
    case False
    with nack show ?thesis by (simp add: mf_classic_listener_value_transfer_handler_def)
  next
    case True
    obtain n cmd where n: "bit_buffer_get_byte b 1 = Some n" "bit_buffer_get_byte b 0 = Some cmd"
      using get_byte_ok [OF b, of 1] get_byte_ok [OF b, of 0] True by auto
    obtain r where r: "allowed l n MfClassicActionDataDec = Some r"
      using allowed_ok [of l n MfClassicActionDataDec] l(1) by (auto simp: listener_static_def)
    then have r': "allowed ?l n MfClassicActionDataDec = Some r" by (simp add: allowed_def)
    let ?v = "mf_classic_value_to_block (transfer_value l) n"
    have len: "length ?v = 16" by (simp add: value_block_nth)
    obtain l' where l': "set_block (unat n) ?v ?l = Some l'" "listener_static l'"
      "l' = ?l\<lparr>ml_data := (ml_data l)\<lparr>mfc_block := (mfc_block (ml_data l))[unat n := ?v]\<rparr>\<rparr>"
      using set_block_ok [OF st len, of n] by auto
    show ?thesis
    proof (cases "cmd = 0xB0 \<and> r")
      case False
      then have "mf_classic_listener_value_transfer_handler random b l = Some (MfClassicListenerCommandNack, ?l)"
        using True n r' by (auto simp: mf_classic_listener_value_transfer_handler_def Let_def)
      with nack show ?thesis by simp
    next
      case yes: True
      let ?r = "l'\<lparr>transfer_value := 0, transfer_valid := False\<rparr>"
      have ans: "mf_classic_listener_value_transfer_handler random b l = Some (MfClassicListenerCommandAck, ?r)"
        using True yes n r' l'(1) by (simp add: mf_classic_listener_value_transfer_handler_def)
      have "progress_ok ?r" using l by (simp add: l'(3) progress_ok_def)
      moreover have "listener_static ?r" using l'(2) by (simp add: static_defs)
      moreover have "ml_data ?r = (ml_data l)\<lparr>mfc_block := (mfc_block (ml_data l))[unat n := ?v]\<rparr>" by (simp add: l'(3))
      ultimately have "changes_as_allowed l ?r"
        using l(2) r yes unfolding changes_as_allowed_def
        by (intro disjI2 conjI exI [of _ n] exI [of _ ?v]) simp_all
      with ans \<open>progress_ok ?r\<close> \<open>listener_static ?r\<close> show ?thesis by (simp add: handled_def)
    qed
  qed
qed

subsection \<open>One event\<close>

lemma changes_frame_irrelevant [simp]:
  "changes_as_allowed (l\<lparr>ml_crypto := c, ml_rx_plain_buffer := r\<rparr>) l' = changes_as_allowed l l'"
  "changes_as_allowed (l\<lparr>current_cmd_idx := i, current_cmd_handler_idx := j\<rparr>) l' = changes_as_allowed l l'"
  by (simp_all add: changes_as_allowed_def write_allowed_def in_auth_sector_def allowed_def)

lemma handled_dispatch [simp]:
  "handled (l\<lparr>current_cmd_idx := i, current_cmd_handler_idx := j\<rparr>) r = handled l r"
  "handled (l\<lparr>ml_crypto := c, ml_rx_plain_buffer := x\<rparr>) r = handled l r"
  by (simp_all add: handled_def)

lemma at_start_dispatch:
  "listener_ok l \<Longrightarrow> \<not> cmd_in_progress l \<Longrightarrow> at_start i (l\<lparr>current_cmd_idx := i, current_cmd_handler_idx := 0\<rparr>)"
  by (simp add: at_start_def listener_ok_def static_defs progress_ok_def)

lemma find_command_Cons:
  assumes b: "bb_ok b" and cmd: "8 < cmd_len_bits cmd" "cmd_handlers cmd = h # hs"
    and h: "1 < bit_buffer_get_size_bytes b \<Longrightarrow> handled l (h random b (l\<lparr>current_cmd_idx := i, current_cmd_handler_idx := 0\<rparr>))"
    and rest: "handled l (find_command cmds (i + 1) random b l)"
  shows "handled l (find_command (cmd # cmds) i random b l)"
proof (cases "bit_buffer_get_size b = cmd_len_bits cmd")
  case True
  then have size: "1 < bit_buffer_get_size_bytes b"
    using cmd(1) by (simp add: bit_buffer_get_size_def size_bytes_eq)
  then obtain x where "bit_buffer_get_byte b 0 = Some x" using get_byte_ok [OF b, of 0] by auto
  with True h [OF size] rest cmd(2) show ?thesis by (simp add: rd_ok)
next
  case False
  with rest show ?thesis by simp
qed

lemma find_command_handled:
  assumes l: "listener_ok l" "\<not> cmd_in_progress l" and b: "bb_ok b" and random: "length random = 4"
  shows "handled l (find_command mf_classic_listener_cmd_handlers 0 random b l)"
proof -
  have st: "listener_static l" "progress_ok l" using l(1) by (simp_all add: listener_ok_def)
  note start = at_start_dispatch [OF l]
  have ok: "listener_ok (l\<lparr>current_cmd_idx := i, current_cmd_handler_idx := 0\<rparr>)" for i
    using start [of i] by (simp add: at_start_def)
  have none: "handled l (find_command [] i random b l)" for i by (simp add: nackI [OF st(1)])
  have halt: "handled l (mf_classic_listener_halt_handler random b (l\<lparr>current_cmd_idx := i, current_cmd_handler_idx := 0\<rparr>))"
    if "1 < bit_buffer_get_size_bytes b" for i
    using halt_handled [OF _ _ b that] ok [of i] handled_dispatch(1) by (fastforce simp: listener_ok_def)
  have auth: "handled l (mf_classic_listener_auth_key_a_handler random b (l\<lparr>current_cmd_idx := i, current_cmd_handler_idx := 0\<rparr>))"
    "handled l (mf_classic_listener_auth_key_b_handler random b (l\<lparr>current_cmd_idx := i, current_cmd_handler_idx := 0\<rparr>))"
    if "1 < bit_buffer_get_size_bytes b" "i \<in> {2, 3}" for i
    using auth_key_handled [OF start that(2) random b that(1)] by simp_all
  have read: "handled l (mf_classic_listener_read_block_handler random b (l\<lparr>current_cmd_idx := i, current_cmd_handler_idx := 0\<rparr>))"
    if "1 < bit_buffer_get_size_bytes b" for i
    using read_block_handled [OF ok _ b that, of i] l(2) by simp
  have wr1: "handled l (mf_classic_listener_write_block_first_part_handler random b
      (l\<lparr>current_cmd_idx := 5, current_cmd_handler_idx := 0\<rparr>))" if "1 < bit_buffer_get_size_bytes b"
    using write_first_handled [OF start b that] by simp
  have val: "handled l (mf_classic_listener_value_cmd_handler random b (l\<lparr>current_cmd_idx := i, current_cmd_handler_idx := 0\<rparr>))"
    if "1 < bit_buffer_get_size_bytes b" "i \<in> {6, 7, 8}" for i
    using value_cmd_handled [OF start that(2) b that(1)] by simp
  show ?thesis
    unfolding mf_classic_listener_cmd_handlers_def
    by (intro find_command_Cons [OF b] none, simp_all only: MfClassicListenerCmd.simps list.inject simp_thms)
      (simp_all add: halt auth read wr1 val mf_classic_listener_value_dec_handler_def
        mf_classic_listener_value_inc_handler_def mf_classic_listener_value_restore_handler_def)
qed

lemma later_handlers:
  "i \<in> {2, 3} \<Longrightarrow> Option.bind (rd mf_classic_listener_cmd_handlers i) (\<lambda>cmd. Option.bind (rd (cmd_handlers cmd) 1) f) =
    f mf_classic_listener_auth_second_part_handler"
  "Option.bind (rd mf_classic_listener_cmd_handlers 5) (\<lambda>cmd. Option.bind (rd (cmd_handlers cmd) 1) f) =
    f mf_classic_listener_write_block_second_part_handler"
  "i \<in> {6, 7, 8} \<Longrightarrow> Option.bind (rd mf_classic_listener_cmd_handlers i) (\<lambda>cmd. Option.bind (rd (cmd_handlers cmd) 1) f) =
    f mf_classic_listener_value_data_receive_handler"
  "i \<in> {6, 7, 8} \<Longrightarrow> Option.bind (rd mf_classic_listener_cmd_handlers i) (\<lambda>cmd. Option.bind (rd (cmd_handlers cmd) 2) f) =
    f mf_classic_listener_value_transfer_handler"
  by (auto simp: mf_classic_listener_cmd_handlers_def rd_def eval_nat_numeral One_nat_def)

lemma progress_handled:
  assumes l: "listener_ok l" "cmd_in_progress l" and b: "bb_ok b" and random: "length random = 4"
  shows "handled l (do {
     cmd \<leftarrow> rd mf_classic_listener_cmd_handlers (current_cmd_idx l);
     handler \<leftarrow> rd (cmd_handlers cmd) (current_cmd_handler_idx l);
     handler random b l
   })"
proof -
  have st: "listener_static l" "progress_ok l" using l(1) by (simp_all add: listener_ok_def)
  consider "current_cmd_idx l \<in> {2, 3}" "current_cmd_handler_idx l = 1"
    | "current_cmd_idx l = 5" "current_cmd_handler_idx l = 1" "in_auth_sector l (write_block l)" "write_block l \<noteq> 0"
      "unat (write_block l) < total_block_num l" "ml_state l = MfClassicListenerStateAuthComplete"
    | "current_cmd_idx l \<in> {6, 7, 8}" "current_cmd_handler_idx l = 1" "ml_state l = MfClassicListenerStateAuthComplete"
    | "current_cmd_idx l \<in> {6, 7, 8}" "current_cmd_handler_idx l = 2" "ml_state l = MfClassicListenerStateAuthComplete"
    using st(2) l(2) unfolding progress_ok_def by blast
  then show ?thesis
  proof cases
    case 1
    then show ?thesis using second_part_handled [OF st(1) b]
      by (simp add: later_handlers progress_ok_def)
  next
    case 2
    then show ?thesis using write_second_handled [OF st(1) _ _ _ _ _ b] st(2)
      by (simp add: later_handlers progress_ok_def)
  next
    case 3
    then show ?thesis using value_data_handled [OF st(1) _ _ _ _ b] st(2)
      by (simp add: later_handlers progress_ok_def)
  next
    case 4
    then show ?thesis using transfer_handled [OF st(1) _ _ b] st(2)
      by (simp add: later_handlers progress_ok_def)
  qed
qed

lemma plain_frame_ok:
  assumes l: "listener_static l" and b: "frame_ok b"
  shows "\<exists>rx c r. plain_frame b l = Some (rx, l\<lparr>ml_crypto := c, ml_rx_plain_buffer := r\<rparr>) \<and> bb_ok rx \<and> bb_ok r \<and>
    bb_capacity_bytes r = 64"
proof (cases "ml_comm_state l = MfClassicListenerCommStateEncrypted \<and> ml_state l = MfClassicListenerStateAuthComplete")
  case False
  then show ?thesis using l b
    by (intro exI [of _ b] exI [of _ "ml_crypto l"] exI [of _ "ml_rx_plain_buffer l"])
      (auto simp: plain_frame_def static_defs frame_ok_def)
next
  case True
  obtain c rx where rx: "crypto1_decrypt (ml_crypto l) b (ml_rx_plain_buffer l) = Some (c, rx)" "bb_ok rx" "bb_capacity_bytes rx = 64"
    using crypto1_decrypt_total [of b "ml_rx_plain_buffer l" "ml_crypto l"] l b by (auto simp: static_defs frame_ok_def same_frame_def)
  obtain ok where ok: "iso14443_crc_check Iso14443CrcTypeA rx = Some ok" "ok \<longrightarrow> 2 < bit_buffer_get_size_bytes rx"
    using crc_check_total [OF rx(2)] by blast
  show ?thesis
  proof (cases ok)
    case False
    then show ?thesis using True rx ok
      by (intro exI [of _ rx] exI [of _ c]) (simp add: plain_frame_def)
  next
    case ok': True
    then obtain r where "iso14443_crc_trim rx = Some r" "bb_ok r" "bb_capacity_bytes r = 64"
      using crc_trim_ok [OF rx(2)] ok(2) rx(3) by auto
    with True rx ok ok' show ?thesis
      by (intro exI [of _ r] exI [of _ c]) (simp add: plain_frame_def)
  qed
qed

lemma answer_ok:
  assumes "handled l (Some (cmd, l'))"
  shows "\<exists>nc m. answer_command cmd l' = Some (nc, m) \<and> listener_ok m \<and> changes_as_allowed l m"
proof -
  have st: "listener_static l'" and ch: "changes_as_allowed l l'"
    and pr: "cmd \<notin> {MfClassicListenerCommandNack, MfClassicListenerCommandSleep} \<Longrightarrow> progress_ok l'"
    using assms by (auto simp: handled_def)
  have same: "changes_as_allowed l m" if "ml_data m = ml_data l'" for m
    using ch that by (simp add: changes_as_allowed_def)
  have reset: "listener_ok (mf_classic_listener_reset_state m) \<and> changes_as_allowed l (mf_classic_listener_reset_state m)"
    if "listener_static m" "ml_data m = ml_data l'" for m
    using reset_static [OF that(1)] same [of "mf_classic_listener_reset_state m"] that(2)
    by (simp add: mf_classic_listener_reset_state_def)
  have short: "\<exists>m. mf_classic_listener_send_short_frame l' x = Some m \<and> listener_static m \<and> ml_data m = ml_data l' \<and>
      (progress_ok l' \<longrightarrow> progress_ok m)" for x
    using short_frame_ok [OF st, of x] by (auto simp: keeps_data_def)
  show ?thesis
  proof (cases cmd)
    case MfClassicListenerCommandAck
    then show ?thesis using short [of "0x0A"] same pr by (auto simp: answer_command_def listener_ok_def)
  next
    case MfClassicListenerCommandNack
    then show ?thesis using short [of "if \<not> transfer_valid l' then 0x00 + 0x04 else 0x00"] reset
      by (auto simp: answer_command_def Let_def)
  next
    case MfClassicListenerCommandSleep
    then show ?thesis using reset [OF st] by (simp add: answer_command_def)
  qed (use ch st pr in \<open>simp_all add: answer_command_def listener_ok_def\<close>)
qed

text \<open>An event of the ISO 14443-3 A listener whose frame, if it has one, fits the 64 bytes of the buffers.\<close>

fun event_ok :: "Iso14443_3aListenerEvent \<Rightarrow> bool" where
  "event_ok (Iso14443_3aListenerEventTypeReceivedStandardFrame b) = frame_ok b"
| "event_ok (Iso14443_3aListenerEventTypeReceivedData b) = frame_ok b"
| "event_ok _ = True"

lemma receive_ok:
  assumes l: "listener_ok l" and b: "frame_ok b" and random: "length random = 4"
  shows "\<exists>c l'. listener_receive random b l = Some (c, l') \<and> listener_ok l' \<and> changes_as_allowed l l'"
proof -
  have st: "listener_static l" "progress_ok l" using l by (simp_all add: listener_ok_def)
  obtain rx c r where rx: "plain_frame b l = Some (rx, l\<lparr>ml_crypto := c, ml_rx_plain_buffer := r\<rparr>)" "bb_ok rx" "bb_ok r"
    "bb_capacity_bytes r = 64"
    using plain_frame_ok [OF st(1) b] by blast
  let ?l = "l\<lparr>ml_crypto := c, ml_rx_plain_buffer := r\<rparr>"
  let ?r = "if cmd_in_progress ?l then do {
        cmd \<leftarrow> rd mf_classic_listener_cmd_handlers (current_cmd_idx ?l);
        handler \<leftarrow> rd (cmd_handlers cmd) (current_cmd_handler_idx ?l);
        handler random rx ?l
      } else find_command mf_classic_listener_cmd_handlers 0 random rx ?l"
  have ok: "listener_ok ?l" using st rx by (simp add: listener_ok_def static_defs progress_ok_def in_auth_sector_def)
  have "handled ?l ?r"
    using progress_handled [OF ok _ rx(2) random] find_command_handled [OF ok _ rx(2) random] by presburger
  then have h: "handled l ?r" by (simp only: handled_dispatch)
  then obtain cmd m where m: "?r = Some (cmd, m)" unfolding handled_def by blast
  obtain nc l' where "answer_command cmd m = Some (nc, l')" "listener_ok l'" "changes_as_allowed l l'"
    using answer_ok [OF h [unfolded m]] by blast
  with m show ?thesis unfolding listener_receive_def rx(1) by simp
qed

lemma run_ok:
  assumes l: "listener_ok l" and e: "event_ok e" and random: "length random = 4"
  shows "\<exists>c l'. mf_classic_listener_run random e l = Some (c, l') \<and> listener_ok l' \<and> changes_as_allowed l l'"
proof (cases e)
  case (Iso14443_3aListenerEventTypeReceivedStandardFrame b)
  then show ?thesis using receive_ok [OF l _ random] e by (simp add: mf_classic_listener_run_def)
next
  case (Iso14443_3aListenerEventTypeReceivedData b)
  then show ?thesis using receive_ok [OF l _ random] e by (simp add: mf_classic_listener_run_def)
qed (use l reset_static in \<open>auto simp: mf_classic_listener_run_def listener_ok_def changes_as_allowed_def
  mf_classic_listener_reset_state_def\<close>)

subsection \<open>Sessions\<close>

text \<open>Any number of events after each other, each with the random bytes drawn while it is handled.\<close>

definition listener_session ::
    "(bytes \<times> Iso14443_3aListenerEvent) list \<Rightarrow> MfClassicListener \<Rightarrow> MfClassicListener option" where
  "listener_session = ofold (\<lambda>(random, e) l. map_option snd (mf_classic_listener_run random e l))"

lemma session_ok:
  "listener_ok l \<Longrightarrow> \<forall>(r, e) \<in> set es. length r = 4 \<and> event_ok e \<Longrightarrow> \<exists>l'. listener_session es l = Some l' \<and> listener_ok l'"
proof (induction es arbitrary: l)
  case Nil
  then show ?case by (simp add: listener_session_def)
next
  case (Cons p es)
  obtain r e where [simp]: "p = (r, e)" by (cases p)
  have re: "length r = 4" "event_ok e" and es: "\<forall>(r, e) \<in> set es. length r = 4 \<and> event_ok e" using Cons.prems(2) by auto
  obtain c m where m: "mf_classic_listener_run r e l = Some (c, m)" "listener_ok m"
    using run_ok [OF Cons.prems(1) re(2,1)] by blast
  obtain l' where "listener_session es m = Some l'" "listener_ok l'" using Cons.IH [OF m(2) es] by blast
  with m(1) show ?case by (simp add: listener_session_def)
qed

lemma alloc_listener_ok:
  assumes "data_ok d" "length (i3_uid (mfc_iso14443_3a_data d)) = 10"
  shows "\<exists>l. mf_classic_listener_alloc d = Some l \<and> listener_ok l"
  using assms by (simp add: mf_classic_listener_alloc_def bit_buffer_alloc_def mf_classic_listener_prepare_emulation_def
    listener_ok_def static_defs progress_ok_def no_auth_context_def bb_ok_def)

text \<open>C20: An emulated card handles every sequence of events of the ISO 14443-3 A layer whose frames have between one bit and
  64 bytes, whatever bits they hold: no handler reads or writes outside a buffer or a block and no check of the firmware
  fails.\<close>

theorem listener_never_stops:
  assumes "data_ok d" "length (i3_uid (mfc_iso14443_3a_data d)) = 10"
    and "\<forall>(random, e) \<in> set es. length random = 4 \<and> event_ok e"
  shows "\<exists>l l'. mf_classic_listener_alloc d = Some l \<and> listener_session es l = Some l' \<and> listener_ok l'"
  using alloc_listener_ok [OF assms(1,2)] session_ok [OF _ assms(3)] by blast

definition demo_command :: "u8 \<Rightarrow> u8 \<Rightarrow> bit_buffer" where
  "demo_command c n = \<lparr>bb_data = [c, n], bb_parity = [0], bb_capacity_bytes = 2, bb_size_bits = 16\<rparr>"

lemma demo_facts:
  "data_ok mf_classic_alloc" "length (i3_uid (mfc_iso14443_3a_data mf_classic_alloc)) = 10" "frame_ok (demo_command c n)"
  "bit_buffer_get_size_bytes (demo_command c n) = 2" "bit_buffer_get_byte (demo_command c n) 0 = Some c"
  "bit_buffer_get_byte (demo_command c n) 1 = Some n"
  by (simp_all add: data_ok_def mf_classic_alloc_def iso14443_3a_alloc_def frame_ok_def demo_command_def bb_ok_def
    bit_buffer_get_size_bytes_def bit_buffer_get_byte_def rd_def)

theorem listener_never_stops_witness:
  "\<exists>l l'. mf_classic_listener_alloc mf_classic_alloc = Some l \<and>
     listener_session [([1, 2, 3, 4], Iso14443_3aListenerEventTypeReceivedStandardFrame (demo_command 0x60 0)),
       ([5, 6, 7, 8], Iso14443_3aListenerEventTypeReceivedData (demo_command 0xA0 1)),
       ([9, 10, 11, 12], Iso14443_3aListenerEventTypeFieldOff)] l = Some l' \<and> listener_ok l'"
  by (rule listener_never_stops [OF demo_facts(1,2)]) (simp add: demo_facts(3))

text \<open>C19: An event changes the card only when the reader has authenticated, and then one block only: by a write to a block
  of the authenticated sector other than block 0, in which only the bytes differ that the access conditions let this key
  write, or by the transfer of a value to a block whose conditions let this key decrement it.\<close>

theorem listener_respects_access:
  assumes "listener_ok l" "event_ok e" "length random = 4" "mf_classic_listener_run random e l = Some (c, l')"
  shows "ml_data l' = ml_data l \<or>
     ml_state l = MfClassicListenerStateAuthComplete \<and>
     (\<exists>n b. ml_data l' = (ml_data l)\<lparr>mfc_block := (mfc_block (ml_data l))[unat n := b]\<rparr> \<and>
       (in_auth_sector l n \<and> n \<noteq> 0 \<and> unat n < total_block_num l \<and> write_allowed l n b \<or>
        allowed l n MfClassicActionDataDec = Some True \<and> b = mf_classic_value_to_block (transfer_value l) n))"
  using run_ok [OF assms(1-3)] assms(4) unfolding changes_as_allowed_def by auto

definition demo_listener :: MfClassicListener where
  "demo_listener = the (mf_classic_listener_alloc mf_classic_alloc)"

lemma demo_listener_ok: "listener_ok demo_listener"
  using alloc_listener_ok [OF demo_facts(1,2)] by (auto simp: demo_listener_def)

lemma demo_listener_fields:
  "ml_data demo_listener = mf_classic_alloc" "ml_state demo_listener = MfClassicListenerStateIdle"
  "ml_auth_context demo_listener = no_auth_context"
  by (simp_all add: demo_listener_def mf_classic_listener_alloc_def bit_buffer_alloc_def
    mf_classic_listener_prepare_emulation_def)

theorem listener_respects_access_witness:
  "\<exists>c l'. mf_classic_listener_run [1, 2, 3, 4] (Iso14443_3aListenerEventTypeReceivedStandardFrame (demo_command 0xA0 1))
     demo_listener = Some (c, l') \<and> ml_data l' = mf_classic_alloc"
proof -
  have e: "event_ok (Iso14443_3aListenerEventTypeReceivedStandardFrame (demo_command 0xA0 1))" "length [1, 2, 3, 4 :: u8] = 4"
    by (simp_all add: demo_facts(3))
  obtain c l' where r: "mf_classic_listener_run [1, 2, 3, 4]
      (Iso14443_3aListenerEventTypeReceivedStandardFrame (demo_command 0xA0 1)) demo_listener = Some (c, l')"
    using run_ok [OF demo_listener_ok e] by blast
  show ?thesis using listener_respects_access [OF demo_listener_ok e r] r by (auto simp: demo_listener_fields)
qed

text \<open>C22: The answer to a read of a sector trailer is the encryption of a frame whose key A is zero: key A never leaves the
  emulated card.\<close>

theorem key_a_never_sent:
  assumes l: "listener_static l" and n: "bit_buffer_get_byte b 1 = Some n" "mf_classic_is_sector_trailer n"
    and run: "mf_classic_listener_read_block_handler random b l = Some (MfClassicListenerCommandProcessed, l')"
  shows "\<exists>p c e. take 6 (bb_bytes p) = replicate 6 0 \<and>
     crypto1_encrypt (ml_crypto l) None p (ml_tx_encrypted_buffer l) = Some (c, e) \<and>
     ml_sent l' = ml_sent l @ [iso14443_3a_listener_tx_with_custom_parity e]"
proof -
  note block = auth_block_rd [OF l, of n]
  obtain r where r: "readable_block l n (mfc_block (ml_data l) ! unat n) = Some r" "\<forall>b. r = Some b \<longrightarrow> length b = 16"
    using readable_ok [OF l] block by blast
  have keyA: "allowed l n MfClassicActionKeyARead = Some False"
    using allowed_ok [of l n MfClassicActionKeyARead] l n(2)
    by (auto simp: allowed_def mf_classic_is_allowed_access_def mf_classic_is_allowed_access_sector_trailer_def
      sector_trailer_access_def bind_eq_Some_conv listener_static_def)
  obtain bs where bs: "r = Some bs" "length bs = 16"
    using run n(1) block r by (auto simp: mf_classic_listener_read_block_handler_def split: if_splits option.splits)
  have auth: "ml_state l = MfClassicListenerStateAuthComplete" "in_auth_sector l n"
    using run n(1) by (auto simp: mf_classic_listener_read_block_handler_def split: if_splits)
  obtain p c e where p: "mf_classic_listener_read_block_handler random b l = Some (MfClassicListenerCommandProcessed,
      l\<lparr>ml_tx_plain_buffer := p, ml_crypto := c, ml_tx_encrypted_buffer := e,
        ml_sent := ml_sent l @ [iso14443_3a_listener_tx_with_custom_parity e]\<rparr>)"
    "crypto1_encrypt (ml_crypto l) None p (ml_tx_encrypted_buffer l) = Some (c, e)" "take 16 (bb_bytes p) = bs"
    using read_block_answer [OF l auth(1) n(1) auth(2) r(1) [unfolded bs(1)] bs(2), of random] by blast
  have "take 6 bs = replicate 6 0"
    using r(1) bs(1) n(2) keyA block by (auto simp: readable_block_def bind_eq_Some_conv Let_def)
  moreover have "take 6 (bb_bytes p) = take 6 (take 16 (bb_bytes p))" by simp
  ultimately have "take 6 (bb_bytes p) = replicate 6 0" using p(3) by simp
  with p run show ?thesis by auto
qed

definition demo_session :: MfClassicListener where
  "demo_session = demo_listener\<lparr>ml_state := MfClassicListenerStateAuthComplete,
     ml_comm_state := MfClassicListenerCommStateEncrypted\<rparr>"

lemma trailer_3: "mf_classic_is_sector_trailer 3"
  by code_simp

lemma demo_session_ok: "listener_static demo_session" "in_auth_sector demo_session 3"
  "mf_classic_is_sector_trailer 3" "ml_state demo_session = MfClassicListenerStateAuthComplete"
  using demo_listener_ok demo_listener_fields
  by (simp_all add: demo_session_def listener_ok_def static_defs in_auth_sector_def no_auth_context_def
    mf_classic_get_sector_by_block_def trailer_3)

theorem key_a_never_sent_witness:
  "\<exists>l' p c e. mf_classic_listener_read_block_handler [1, 2, 3, 4] (demo_command 0x30 3) demo_session =
       Some (MfClassicListenerCommandProcessed, l') \<and> take 6 (bb_bytes p) = replicate 6 0 \<and>
     crypto1_encrypt (ml_crypto demo_session) None p (ml_tx_encrypted_buffer demo_session) = Some (c, e) \<and>
     ml_sent l' = ml_sent demo_session @ [iso14443_3a_listener_tx_with_custom_parity e]"
proof -
  let ?b = "mfc_block (ml_data demo_session) ! unat (3 :: u8)"
  obtain r where r: "readable_block demo_session 3 ?b = Some r" "\<forall>b. r = Some b \<longrightarrow> length b = 16"
    using readable_ok [OF demo_session_ok(1)] auth_block_rd [OF demo_session_ok(1), of 3] by blast
  then obtain bs where "r = Some bs" using demo_session_ok(3) by (auto simp: readable_block_def bind_eq_Some_conv Let_def)
  with r obtain l' where run: "mf_classic_listener_read_block_handler [1, 2, 3, 4] (demo_command 0x30 3) demo_session =
      Some (MfClassicListenerCommandProcessed, l')"
    using read_block_answer [OF demo_session_ok(1,4) demo_facts(6) demo_session_ok(2)] by blast
  show ?thesis using key_a_never_sent [OF demo_session_ok(1) demo_facts(6) demo_session_ok(3) run] run by blast
qed

text \<open>C23: The transfer of a value writes the block that it names, whenever the conditions of that block let the key decrement
  it: neither the authenticated sector nor the number of blocks of the card nor block 0 is checked.\<close>

theorem transfer_writes_any_block:
  fixes n :: u8
  assumes l: "listener_static l" and b: "bit_buffer_get_size_bytes b = 2" "bit_buffer_get_byte b 0 = Some 0xB0"
      "bit_buffer_get_byte b 1 = Some n"
    and ok: "allowed l n MfClassicActionDataDec = Some True"
  shows "\<exists>l'. mf_classic_listener_value_transfer_handler random b l = Some (MfClassicListenerCommandAck, l') \<and>
     mfc_block (ml_data l') ! unat n = mf_classic_value_to_block (transfer_value l) n"
proof -
  let ?l = "l\<lparr>cmd_in_progress := False\<rparr>" and ?v = "mf_classic_value_to_block (transfer_value l) n"
  have st: "listener_static ?l" using l by (simp add: static_defs)
  have ok': "allowed ?l n MfClassicActionDataDec = Some True" using ok by (simp add: allowed_def)
  have len: "length ?v = 16" by (simp add: value_block_nth)
  obtain l' where l': "set_block (unat n) ?v ?l = Some l'"
    "l' = ?l\<lparr>ml_data := (ml_data l)\<lparr>mfc_block := (mfc_block (ml_data l))[unat n := ?v]\<rparr>\<rparr>"
    using set_block_ok [OF st len, of n] by auto
  have "mf_classic_listener_value_transfer_handler random b l =
      Some (MfClassicListenerCommandAck, l'\<lparr>transfer_value := 0, transfer_valid := False\<rparr>)"
    using b ok' l'(1) by (simp add: mf_classic_listener_value_transfer_handler_def)
  then show ?thesis using l'(2) l unat_less_256 [of n] by (simp add: static_defs data_ok_def)
qed

theorem transfer_writes_any_block_witness:
  "\<not> in_auth_sector demo_session 4 \<and>
   (\<exists>l'. mf_classic_listener_value_transfer_handler [1, 2, 3, 4] (demo_command 0xB0 4) demo_session =
       Some (MfClassicListenerCommandAck, l') \<and>
     mfc_block (ml_data l') ! unat (4 :: u8) = mf_classic_value_to_block (transfer_value demo_session) 4)"
proof
  show "\<not> in_auth_sector demo_session 4"
    using demo_listener_fields
    by (simp add: demo_session_def in_auth_sector_def no_auth_context_def mf_classic_get_sector_by_block_def)
  have "allowed demo_session 4 MfClassicActionDataDec = Some True"
    using demo_listener_fields by (simp add: demo_session_def) code_simp
  then show "\<exists>l'. mf_classic_listener_value_transfer_handler [1, 2, 3, 4] (demo_command 0xB0 4) demo_session =
       Some (MfClassicListenerCommandAck, l') \<and>
     mfc_block (ml_data l') ! unat (4 :: u8) = mf_classic_value_to_block (transfer_value demo_session) 4"
    by (rule transfer_writes_any_block [OF demo_session_ok(1) demo_facts(4-6)])
qed

end
