(* ===== verification/Mf_Classic_Cipher.thy ===== *)
theory Mf_Classic_Cipher
  imports Crypto1_Facts Bit_Lib_Facts Mf_Classic_Listener_Facts
begin

text \<open>
  The mutual authentication of Mifare Classic: the bytes that a reader sends for the nonce of a card
  (\<open>crypto1_encrypt_reader_nonce\<close>), read by a card with the same key, leave both ciphers in one state and show the card
  that the reader knows the key.
\<close>

subsection \<open>The cipher as a stream of bits\<close>

primrec cipher_at :: "(nat \<Rightarrow> bool) \<Rightarrow> bool \<Rightarrow> Crypto1 \<Rightarrow> nat \<Rightarrow> Crypto1" where
  "cipher_at f enc c 0 = c"
| "cipher_at f enc c (Suc n) = snd (crypto1_bit (of_bool (f n)) enc (cipher_at f enc c n))"

definition cipher_bit :: "Crypto1 \<Rightarrow> bool" where
  "cipher_bit c \<longleftrightarrow> crypto1_filter (c1_odd c) \<noteq> 0"

lemma crypto1_bit_stream: "crypto1_bit (of_bool b) enc c = (of_bool (cipher_bit c), snd (crypto1_bit (of_bool b) enc c))"
  by (simp add: crypto1_bit_eq cipher_bit_def)

lemma cipher_at_cong: "(\<And>i. i < n \<Longrightarrow> f i = g i) \<Longrightarrow> cipher_at f enc c n = cipher_at g enc c n"
  by (induction n) simp_all

lemma cipher_at_add: "cipher_at f enc c (m + n) = cipher_at (\<lambda>i. f (m + i)) enc (cipher_at f enc c m) n"
  by (induction n) simp_all

lemma byte_stream:
  "crypto1_byte x enc c = (fst (crypto1_byte x enc c), cipher_at (bit x) enc c 8) \<and>
   (\<forall>i < 8. bit (fst (crypto1_byte x enc c)) i = cipher_bit (cipher_at (bit x) enc c i))"
proof -
  let ?f = "\<lambda>i (out, c). case crypto1_bit (furi_bit x i) enc c of (b, c) \<Rightarrow> (out OR push_bit i b, c)"
  have "n \<le> 8 \<Longrightarrow> snd (fold ?f [0..<n] (0, c)) = cipher_at (bit x) enc c n \<and>
      (\<forall>i. bit (fst (fold ?f [0..<n] (0, c)) :: u8) i = (i < n \<and> cipher_bit (cipher_at (bit x) enc c i)))" for n
  proof (induction n)
    case (Suc n)
    obtain out cn where run: "fold ?f [0..<n] (0, c) = (out, cn)" by fastforce
    with Suc have cn: "cn = cipher_at (bit x) enc c n" and out: "\<And>i. bit out i = (i < n \<and> cipher_bit (cipher_at (bit x) enc c i))"
      by auto
    have "?f n (out, cn) = (out OR push_bit n (of_bool (cipher_bit cn)), snd (crypto1_bit (of_bool (bit x n)) enc cn))"
      by (simp only: furi_bit_eq prod.case) (subst crypto1_bit_stream, simp only: prod.case)
    moreover have "fold ?f [0..<Suc n] (0, c) = ?f n (fold ?f [0..<n] (0, c))"
      by (simp only: upt_Suc_append le0 fold_append fold.simps o_apply id_apply)
    ultimately have "fold ?f [0..<Suc n] (0, c) = (out OR push_bit n (of_bool (cipher_bit cn)), snd (crypto1_bit (of_bool (bit x n)) enc cn))"
      by (simp only: run)
    then show ?case using Suc.prems by (auto simp: cn out bit_simps less_Suc_eq)
  qed simp
  from this [of 8] show ?thesis unfolding crypto1_byte_def by (auto simp: prod_eq_iff)
qed

lemma xor_24_div: "i < 32 \<Longrightarrow> (i XOR 24) div 8 = 3 - i div 8 \<and> (i XOR 24) mod 8 = (i :: nat) mod 8"
proof -
  have "list_all (\<lambda>i :: nat. (i XOR 24) div 8 = 3 - i div 8 \<and> (i XOR 24) mod 8 = i mod 8) [0..<32]" by code_simp
  then show "i < 32 \<Longrightarrow> (i XOR 24) div 8 = 3 - i div 8 \<and> (i XOR 24) mod 8 = i mod 8" by (simp add: list_all_iff)
qed

lemma word_stream:
  "snd (crypto1_word w enc c) = cipher_at (\<lambda>i. bit w (i XOR 24)) enc c 32 \<and>
   (\<forall>i < 32. bit (fst (crypto1_word w enc c)) (i XOR 24) = cipher_bit (cipher_at (\<lambda>i. bit w (i XOR 24)) enc c i))"
proof -
  let ?s = "\<lambda>i. bit w (i XOR 24)" and ?f = "\<lambda>i. crypto1_bit (BEBIT w i) enc"
  have "n \<le> 32 \<Longrightarrow> snd (word_run ?f [0..<n] (0, c)) = cipher_at ?s enc c n \<and>
      (\<forall>q. bit (fst (word_run ?f [0..<n] (0, c))) q = (q < 32 \<and> (24 XOR q) < n \<and> cipher_bit (cipher_at ?s enc c (24 XOR q))))" for n
  proof (induction n)
    case (Suc n)
    obtain out cn where run: "word_run ?f [0..<n] (0, c) = (out, cn)" by fastforce
    with Suc have cn: "cn = cipher_at ?s enc c n"
      and out: "\<And>q. bit out q = (q < 32 \<and> (24 XOR q) < n \<and> cipher_bit (cipher_at ?s enc c (24 XOR q)))"
      by auto
    have step: "?f n cn = (of_bool (cipher_bit cn), snd (crypto1_bit (of_bool (?s n)) enc cn))"
      by (simp only: BEBIT_eq) (rule crypto1_bit_stream)
    have q: "(q = 24 XOR n) = (24 XOR q = n)" for q by (metis nat_xor_xor)
    have "bit (push_bit (24 XOR n) (ucast (of_bool (cipher_bit cn) :: u8)) :: u32) q = (q = 24 XOR n \<and> q < 32 \<and> cipher_bit cn)" for q
      by (auto simp: bit_simps)
    with step show ?case using q
      by (auto simp: word_run_snoc run cn out bit_or_iff less_Suc_eq)
  qed (simp add: word_run_def)
  from this [of 32] have all: "snd (crypto1_word w enc c) = cipher_at ?s enc c 32"
    "bit (fst (crypto1_word w enc c)) q = (q < 32 \<and> (24 XOR q) < 32 \<and> cipher_bit (cipher_at ?s enc c (24 XOR q)))" for q
    by (simp_all only: word_runs order_refl simp_thms)
  have "bit (fst (crypto1_word w enc c)) (i XOR 24) = cipher_bit (cipher_at ?s enc c i)" if "i < 32" for i
  proof -
    have "24 XOR (i XOR 24) = i" "i XOR 24 < 32" using nat_xor_xor [of i] xor_24_less [OF that] by (simp_all only: xor.commute)
    with that show ?thesis by (simp only: all(2) simp_thms)
  qed
  with all(1) show ?thesis by simp
qed

text \<open>Four bytes, first byte first.\<close>

definition byte_bits :: "bytes \<Rightarrow> nat \<Rightarrow> bool" where
  "byte_bits bs i = bit (bs ! (i div 8)) (i mod 8)"

lemma be_word_bits:
  assumes "bit_lib_bytes_to_num_be bs 4 = Some v" "length bs = 4" "i < 32"
  shows "bit (ucast v :: u32) (i XOR 24) = byte_bits bs i"
proof -
  have "bit v k \<longleftrightarrow> k < 32 \<and> bit (bs ! (3 - k div 8)) (k mod 8)" for k
    using bytes_to_num_be_bits [of 4 bs] assms(1,2) by simp
  moreover have "i XOR 24 < 32" using xor_24_less [OF assms(3)] by (simp add: xor.commute)
  moreover have "3 - (3 - i div 8) = i div 8" using assms(3) by simp
  ultimately show ?thesis using xor_24_div [OF assms(3)] by (simp add: bit_simps byte_bits_def)
qed

lemma be_word_state:
  assumes "bit_lib_bytes_to_num_be bs 4 = Some v" "length bs = 4"
  shows "snd (crypto1_word (ucast v) enc c) = cipher_at (byte_bits bs) enc c 32"
  using word_stream [of "ucast v" enc c] be_word_bits [OF assms] cipher_at_cong [of 32 "\<lambda>i. bit (ucast v :: u32) (i XOR 24)" "byte_bits bs"]
  by simp

text \<open>Feeding an encrypted stream with the flag set is feeding the plain stream without it.\<close>

lemma encrypted_stream:
  assumes "\<And>i. i < n \<Longrightarrow> g i = (f i \<noteq> cipher_bit (cipher_at f False c i))"
  shows "cipher_at g True c n = cipher_at f False c n"
  using assms
proof (induction n)
  case (Suc n)
  then have "cipher_at g True c n = cipher_at f False c n" "g n = (f n \<noteq> cipher_bit (cipher_at f False c n))" by simp_all
  then show ?case by (simp only: cipher_at.simps encrypted_feed cipher_bit_def)
qed simp

lemma next_state_stream: "(next_state ^^ n) c = cipher_at (\<lambda>_. False) False c (8 * n)"
proof (induction n)
  case (Suc n)
  have "next_state c = cipher_at (\<lambda>_. False) False c 8" for c
    using byte_stream [of 0 False c] cipher_at_cong [of 8 "bit (0 :: u8)" "\<lambda>_. False"] by (auto simp: next_state_def prod_eq_iff)
  moreover have "8 * Suc n = 8 * n + 8" by simp
  ultimately show ?case using Suc cipher_at_add [of "\<lambda>_. False" False c "8 * n" 8]
    by (simp only: funpow.simps o_apply)
qed simp

lemma zero_word_state: "snd (crypto1_word 0 False c) = (next_state ^^ 4) c"
  using word_stream [of 0 False c] by (simp add: next_state_stream)

subsection \<open>The random numbers of the card\<close>

lemma prng_step_bit: "k < 31 \<Longrightarrow> bit (prng_step x) k = bit x (k + 1)"
  by (simp add: prng_step_def bit_simps add.commute)

lemma prng_steps_bit: "k + m < 32 \<Longrightarrow> bit ((prng_step ^^ m) x) k = bit x (k + m)"
proof (induction m arbitrary: k)
  case (Suc m)
  then have "bit ((prng_step ^^ Suc m) x) k = bit ((prng_step ^^ m) x) (k + 1)" by (simp add: prng_step_bit)
  moreover have "k + 1 + m = k + Suc m" by simp
  ultimately show ?case using Suc.IH [of "k + 1"] Suc.prems by simp
qed simp

lemma swap_bit: "k < 32 \<Longrightarrow> bit (SWAPENDIAN x) k = bit x (k XOR 24)"
proof -
  assume k: "k < 32"
  have m: "(0xff00ff :: u32) = mask 8 OR push_bit 16 (mask 8)" by (simp add: mask_eq_exp_minus_1 push_bit_eq_mult)
  consider "k < 8" | "8 \<le> k" "k < 16" | "16 \<le> k" "k < 24" | "24 \<le> k" "k < 32" using k by fastforce
  note c = this
  have d: "k < 8 \<Longrightarrow> k div 8 = 0 \<and> k mod 8 = k" "8 \<le> k \<Longrightarrow> k < 16 \<Longrightarrow> k div 8 = 1 \<and> k mod 8 = k - 8"
    "16 \<le> k \<Longrightarrow> k < 24 \<Longrightarrow> k div 8 = 2 \<and> k mod 8 = k - 16" "24 \<le> k \<Longrightarrow> k < 32 \<Longrightarrow> k div 8 = 3 \<and> k mod 8 = k - 24"
    by presburger+
  from c have "bit (SWAPENDIAN x) k = bit x (8 * (3 - k div 8) + k mod 8)"
    unfolding SWAPENDIAN_def Let_def m
    by cases (auto simp: bit_simps d)
  moreover have "k XOR 24 = 8 * (3 - k div 8) + k mod 8"
    using xor_24_div [OF k] by (metis mult_div_mod_eq)
  ultimately show ?thesis by simp
qed

lemma successor_bytes:
  assumes "i < 32"
  shows "bit (crypto1_prng_successor nt 64) (i XOR 24) = bit (crypto1_prng_successor nt (40 + 8 * (i div 8))) (i mod 8)"
proof -
  let ?y = "\<lambda>n. (prng_step ^^ n) (SWAPENDIAN nt)"
  have "i XOR 24 < 32" using xor_24_less [OF assms] by (simp add: xor.commute)
  then have l: "bit (crypto1_prng_successor nt 64) (i XOR 24) = bit (?y 64) i"
    by (simp add: crypto1_prng_successor_def swap_bit xor.assoc)
  have "i mod 8 XOR 24 = 24 + i mod 8"
  proof -
    have "list_all (\<lambda>j :: nat. j XOR 24 = 24 + j) [0..<8]" by code_simp
    then show ?thesis by (simp add: list_all_iff)
  qed
  then have r: "bit (crypto1_prng_successor nt (40 + 8 * (i div 8))) (i mod 8) = bit (?y (40 + 8 * (i div 8))) (24 + i mod 8)"
    by (simp add: crypto1_prng_successor_def swap_bit)
  define m where "m = 24 - 8 * (i div 8)"
  have m: "64 = m + (40 + 8 * (i div 8))" "i + m = 24 + i mod 8" "i + m < 32"
    using assms unfolding m_def by presburger+
  have "?y 64 = (prng_step ^^ m) (?y (40 + 8 * (i div 8)))" by (subst m(1)) (simp only: funpow_add o_apply)
  then show ?thesis using l r prng_steps_bit [OF m(3)] m(2) by simp
qed

lemma successor_add: "crypto1_prng_successor (crypto1_prng_successor nt m) n = crypto1_prng_successor nt (m + n)"
proof -
  have "SWAPENDIAN (SWAPENDIAN x) = x" for x :: u32
  proof (rule bit_word_eqI)
    fix n assume "n < LENGTH(32)"
    then have n: "n < 32" "n XOR 24 < 32" using xor_24_less [of n] by (simp_all add: xor.commute)
    then show "bit (SWAPENDIAN (SWAPENDIAN x)) n = bit x n"
      by (simp only: swap_bit xor.assoc xor_self_eq xor.right_neutral)
  qed
  then show ?thesis by (simp only: crypto1_prng_successor_def funpow_add o_apply add.commute [of m n])
qed

subsection \<open>The answer of the reader\<close>

lemma byte_in_stream:
  assumes "i < length bs"
  shows "\<exists>k. crypto1_byte (bs ! i) False (cipher_at (byte_bits bs) False c (8 * i)) =
      (k, cipher_at (byte_bits bs) False c (8 * Suc i)) \<and>
    (\<forall>b < 8. bit k b = cipher_bit (cipher_at (byte_bits bs) False c (8 * i + b)))"
proof -
  let ?s = "cipher_at (byte_bits bs) False c (8 * i)"
  have sub: "cipher_at (bit (bs ! i)) False ?s n = cipher_at (byte_bits bs) False c (8 * i + n)" if "n \<le> 8" for n
    unfolding cipher_at_add by (rule cipher_at_cong) (use that in \<open>simp add: byte_bits_def\<close>)
  have e: "8 * Suc i = 8 * i + 8" by simp
  show ?thesis
    using byte_stream [of "bs ! i" False ?s] sub unfolding e
    by (intro exI [of _ "fst (crypto1_byte (bs ! i) False ?s)"]) (simp add: prod_eq_iff)
qed

lemma set_parity_step:
  assumes "bb_ok e" "bb_size_bits e = 64" "i < 8"
  shows "\<exists>e'. bit_buffer_set_byte_with_parity e i x q = Some e' \<and> bb_ok e' \<and> bb_size_bits e' = 64 \<and>
    bb_data e' = (bb_data e)[i := x] \<and> bb_capacity_bytes e' = bb_capacity_bytes e \<and> i < length (bb_data e)"
proof -
  obtain e' where e': "bit_buffer_set_byte_with_parity e i x q = Some e'" "bb_ok e'" "bb_data e' = (bb_data e)[i := x]"
    "bb_size_bits e' = bb_size_bits e"
    using set_byte_with_parity_spec [OF assms(1), of i] assms(2,3) by auto
  moreover have "bb_capacity_bytes e' = bb_capacity_bytes e"
    using e'(1) by (auto simp: bit_buffer_set_byte_with_parity_def bind_eq_Some_conv split: if_splits)
  moreover have "i < length (bb_data e)" using assms by (auto simp: bb_ok_def)
  ultimately show ?thesis using assms(2) by auto
qed

text \<open>The state after the nonce of the reader, and the eight bytes of its answer: the nonce, and what follows the nonce of
  the card in its generator, both encrypted.\<close>

definition reader_start :: "u64 \<Rightarrow> u32 \<Rightarrow> u32 \<Rightarrow> Crypto1 \<Rightarrow> Crypto1" where
  "reader_start k cuid nt c = snd (crypto1_word (nt XOR cuid) False (crypto1_init k c))"

definition reader_state :: "u64 \<Rightarrow> u32 \<Rightarrow> u32 \<Rightarrow> bytes \<Rightarrow> Crypto1 \<Rightarrow> Crypto1" where
  "reader_state k cuid nt nr c = cipher_at (byte_bits nr) False (reader_start k cuid nt c) 32"

definition reader_byte :: "u64 \<Rightarrow> u32 \<Rightarrow> u32 \<Rightarrow> bytes \<Rightarrow> Crypto1 \<Rightarrow> nat \<Rightarrow> u8 \<Rightarrow> bool" where
  "reader_byte k cuid nt nr c j x \<longleftrightarrow>
     (if j < 4 then \<forall>b < 8. bit x b = (bit (nr ! j) b \<noteq> cipher_bit (cipher_at (byte_bits nr) False (reader_start k cuid nt c) (8 * j + b)))
      else x = key_byte (j - 4) (reader_state k cuid nt nr c) XOR ucast (crypto1_prng_successor nt (40 + 8 * (j - 4))))"

lemma reader_nonce_spec:
  assumes out: "bb_ok out" "8 \<le> bb_capacity_bytes out" and len: "length nt = 4" "length nr = 4"
    and nt: "bit_lib_bytes_to_num_be nt 4 = Some n"
  shows "\<exists>nr' tx. crypto1_encrypt_reader_nonce c k cuid nt nr out False =
      Some ((next_state ^^ 4) (reader_state k cuid (ucast n) nr c), nr', tx) \<and>
    bb_ok tx \<and> bb_size_bits tx = 64 \<and> bb_capacity_bytes tx = bb_capacity_bytes out \<and>
    (\<forall>j < 8. reader_byte k cuid (ucast n) nr c j (bb_data tx ! j))"
proof -
  let ?nt = "ucast n :: u32"
  let ?S = "reader_start k cuid ?nt c" and ?T = "reader_state k cuid ?nt nr c"
  let ?R = "reader_byte k cuid ?nt nr c"
  define o0 where "o0 = out\<lparr>bb_size_bits := 64\<rparr>"
  have o0: "bb_ok o0" "bb_size_bits o0 = 64" "bb_capacity_bytes o0 = bb_capacity_bytes out"
    using out by (auto simp: o0_def bb_ok_def)
  have set: "bit_buffer_set_size_bytes out 8 = Some o0" using out by (simp add: bit_buffer_set_size_bytes_def o0_def)
  let ?body1 = "\<lambda>i (c, nr, out). do {
         x \<leftarrow> rd nr i;
         let (k, c) = crypto1_byte x False c;
         let byte = k XOR x;
         let parity_bit = encrypted_parity c x;
         out \<leftarrow> bit_buffer_set_byte_with_parity out i byte parity_bit;
         nr \<leftarrow> wr nr i byte;
         Some (c, nr, out)
       }"
  let ?I1 = "\<lambda>i (d, m, e). d = cipher_at (byte_bits nr) False ?S (8 * i) \<and> length m = 4 \<and>
    (\<forall>j < 4. i \<le> j \<longrightarrow> m ! j = nr ! j) \<and> bb_ok e \<and> bb_size_bits e = 64 \<and> bb_capacity_bytes e = bb_capacity_bytes out \<and>
    (\<forall>j < i. ?R j (bb_data e ! j))"
  have "\<exists>t. ofold ?body1 [0..<4] (?S, nr, o0) = Some t \<and> ?I1 4 t"
  proof (rule ofold_upt_inv [where I = ?I1])
    show "?I1 0 (?S, nr, o0)" using o0 len by simp
  next
    fix i and t :: "Crypto1 \<times> bytes \<times> bit_buffer" assume i: "i < 4" and I: "?I1 i t"
    obtain d m e where t: "t = (d, m, e)" by (cases t)
    have d: "d = cipher_at (byte_bits nr) False ?S (8 * i)" and m: "length m = 4" "\<forall>j < 4. i \<le> j \<longrightarrow> m ! j = nr ! j"
      and e: "bb_ok e" "bb_size_bits e = 64" "bb_capacity_bytes e = bb_capacity_bytes out" "\<forall>j < i. ?R j (bb_data e ! j)"
      using I by (simp_all add: t)
    obtain kk where kk: "crypto1_byte (nr ! i) False d = (kk, cipher_at (byte_bits nr) False ?S (8 * Suc i))"
      "\<forall>b < 8. bit kk b = cipher_bit (cipher_at (byte_bits nr) False ?S (8 * i + b))"
      using byte_in_stream [of i nr ?S] i len(2) unfolding d by auto
    have mi: "m ! i = nr ! i" using m i by simp
    obtain e' where e': "bit_buffer_set_byte_with_parity e i (kk XOR nr ! i)
        (encrypted_parity (cipher_at (byte_bits nr) False ?S (8 * Suc i)) (nr ! i)) = Some e'"
      "bb_ok e'" "bb_size_bits e' = 64" "bb_data e' = (bb_data e)[i := kk XOR nr ! i]"
      "bb_capacity_bytes e' = bb_capacity_bytes e" "i < length (bb_data e)"
      using set_parity_step [OF e(1,2), of i] i by auto
    have "?R i (kk XOR nr ! i)" using i kk(2) by (auto simp: reader_byte_def bit_xor_iff)
    then have "\<forall>j < Suc i. ?R j (bb_data e' ! j)" using e(4) e'(4,6) by (auto simp: less_Suc_eq nth_list_update)
    moreover have "?body1 i t = Some (cipher_at (byte_bits nr) False ?S (8 * Suc i), m[i := kk XOR nr ! i], e')"
      using i m(1) mi kk(1) e'(1) by (simp add: t rd_ok wr_ok)
    ultimately show "\<exists>t'. ?body1 i t = Some t' \<and> ?I1 (Suc i) t'"
      using e' e(3) m by (auto simp: nth_list_update)
  qed
  then obtain m e1 where one: "ofold ?body1 [0..<4] (?S, nr, o0) = Some (?T, m, e1)" and e1: "bb_ok e1" "bb_size_bits e1 = 64"
    "bb_capacity_bytes e1 = bb_capacity_bytes out" "\<forall>j < 4. ?R j (bb_data e1 ! j)"
    by (auto simp: reader_state_def)
  let ?body2 = "\<lambda>i (c, nt_num, out). do {
         let nt_num = crypto1_prng_successor nt_num 8;
         let (k, c) = crypto1_byte 0 False c;
         let byte = k XOR ucast nt_num;
         let parity_bit = encrypted_parity c (ucast nt_num);
         out \<leftarrow> bit_buffer_set_byte_with_parity out i byte parity_bit;
         Some (c, nt_num, out)
       }"
  let ?I2 = "\<lambda>i (d, m, e). d = (next_state ^^ i) ?T \<and> m = crypto1_prng_successor ?nt (32 + 8 * i) \<and>
    bb_ok e \<and> bb_size_bits e = 64 \<and> bb_capacity_bytes e = bb_capacity_bytes out \<and> (\<forall>j < i + 4. ?R j (bb_data e ! j))"
  have "\<exists>t. ofold (\<lambda>i. ?body2 (i + 4)) [0..<4] (?T, crypto1_prng_successor ?nt 32, e1) = Some t \<and> ?I2 4 t"
  proof (rule ofold_upt_inv [where I = ?I2])
    show "?I2 0 (?T, crypto1_prng_successor ?nt 32, e1)" using e1 by simp
  next
    fix i and t :: "Crypto1 \<times> u32 \<times> bit_buffer" assume i: "i < 4" and I: "?I2 i t"
    obtain d m e where t: "t = (d, m, e)" by (cases t)
    have d: "d = (next_state ^^ i) ?T" and m: "m = crypto1_prng_successor ?nt (32 + 8 * i)"
      and e: "bb_ok e" "bb_size_bits e = 64" "bb_capacity_bytes e = bb_capacity_bytes out" "\<forall>j < i + 4. ?R j (bb_data e ! j)"
      using I by (simp_all add: t)
    let ?m = "crypto1_prng_successor ?nt (40 + 8 * i)" and ?d = "(next_state ^^ Suc i) ?T"
    have m': "crypto1_prng_successor m 8 = ?m" "?m = crypto1_prng_successor ?nt (32 + 8 * Suc i)"
      by (simp_all add: m successor_add)
    let ?x = "key_byte i ?T XOR ucast ?m"
    obtain e' where e': "bit_buffer_set_byte_with_parity e (i + 4) ?x (encrypted_parity ?d (ucast ?m)) = Some e'"
      "bb_ok e'" "bb_size_bits e' = 64" "bb_data e' = (bb_data e)[i + 4 := ?x]"
      "bb_capacity_bytes e' = bb_capacity_bytes e" "i + 4 < length (bb_data e)"
      using set_parity_step [OF e(1,2), of "i + 4"] i by auto
    have "?R (i + 4) ?x" by (simp add: reader_byte_def)
    then have "\<forall>j < Suc i + 4. ?R j (bb_data e' ! j)" using e(4) e'(4,6) by (auto simp: less_Suc_eq nth_list_update)
    moreover have "?body2 (i + 4) t = Some (?d, ?m, e')"
      using e'(1) by (simp only: t prod.case m'(1) d byte_at Let_def Option.bind.simps)
    ultimately show "\<exists>t'. ?body2 (i + 4) t = Some t' \<and> ?I2 (Suc i) t'"
      using e' e(3) by (intro exI [of _ "(?d, ?m, e')"]) simp
  qed
  then obtain nn tx where "ofold (\<lambda>i. ?body2 (i + 4)) [0..<4] (?T, crypto1_prng_successor ?nt 32, e1) =
      Some ((next_state ^^ 4) ?T, nn, tx)" and tx: "bb_ok tx" "bb_size_bits tx = 64"
    "bb_capacity_bytes tx = bb_capacity_bytes out" "\<forall>j < 8. ?R j (bb_data tx ! j)" by auto
  moreover have "[4..<8] = map (\<lambda>i. i + 4) [0..<4]" by (simp add: map_add_upt)
  ultimately have two: "ofold ?body2 [4..<8] (?T, crypto1_prng_successor ?nt 32, e1) = Some ((next_state ^^ 4) ?T, nn, tx)"
    by (simp only: ofold_map)
  have "crypto1_encrypt_reader_nonce c k cuid nt nr out False =
      Option.bind (ofold ?body1 [0..<4] (?S, nr, o0)) (\<lambda>(c, nr, out).
        Option.bind (ofold ?body2 [4..<8] (c, crypto1_prng_successor ?nt 32, out)) (\<lambda>(c, _, out). Some (c, nr, out)))"
    by (cases "crypto1_word (?nt XOR cuid) False (crypto1_init k c)")
      (simp only: crypto1_encrypt_reader_nonce_def set nt Option.bind.simps Let_def if_False prod.case reader_start_def snd_conv)
  with one two tx show ?thesis by (simp only: Option.bind.simps prod.case) blast
qed

subsection \<open>The card reads the answer\<close>

lemma zero_bits: "bit (0 :: 'a::len word) = (\<lambda>_. False)"
  by auto

lemma key_byte_bits: "b < 8 \<Longrightarrow> bit (key_byte j c) b = cipher_bit (cipher_at (\<lambda>_. False) False c (8 * j + b))"
  using byte_stream [of 0 False "(next_state ^^ j) c"]
  by (simp only: key_byte_def next_state_stream zero_bits cipher_at_add [of _ _ _ "8 * j"])

lemma card_reads_answer:
  assumes b: "length bs = 8" "\<forall>j < 8. reader_byte k cuid nt nr c j (bs ! j)"
    and num: "bit_lib_bytes_to_num_be (take 4 bs) 4 = Some x" "bit_lib_bytes_to_num_be (take 4 (drop 4 bs)) 4 = Some y"
  shows "snd (crypto1_word (ucast x) True (reader_start k cuid nt c)) = reader_state k cuid nt nr c"
    and "ucast y XOR fst (crypto1_word 0 False (reader_state k cuid nt nr c)) = crypto1_prng_successor nt 64"
proof -
  let ?S = "reader_start k cuid nt c" and ?T = "reader_state k cuid nt nr c"
  have len: "length (take 4 bs) = 4" "length (take 4 (drop 4 bs)) = 4" using b(1) by simp_all
  have "byte_bits (take 4 bs) i = (byte_bits nr i \<noteq> cipher_bit (cipher_at (byte_bits nr) False ?S i))" if "i < 32" for i
  proof -
    have j: "i div 8 < 4" "i div 8 < 8" "i mod 8 < 8" "8 * (i div 8) + i mod 8 = i" using that by simp_all
    have "reader_byte k cuid nt nr c (i div 8) (bs ! (i div 8))" using b(2) j(2) by blast
    then have "\<forall>b < 8. bit (bs ! (i div 8)) b =
        (bit (nr ! (i div 8)) b \<noteq> cipher_bit (cipher_at (byte_bits nr) False ?S (8 * (i div 8) + b)))"
      using j(1) by (simp only: reader_byte_def if_True)
    with j(3) have "bit (bs ! (i div 8)) (i mod 8) =
        (bit (nr ! (i div 8)) (i mod 8) \<noteq> cipher_bit (cipher_at (byte_bits nr) False ?S (8 * (i div 8) + i mod 8)))" by blast
    then show ?thesis by (simp only: byte_bits_def nth_take [OF j(1)] j(4))
  qed
  then show "snd (crypto1_word (ucast x) True ?S) = ?T"
    using encrypted_stream [of 32 "byte_bits (take 4 bs)" "byte_bits nr" ?S]
    by (simp add: be_word_state [OF num(1) len(1)] reader_state_def)
  show "ucast y XOR fst (crypto1_word 0 False ?T) = crypto1_prng_successor nt 64"
  proof (rule bit_word_eqI)
    fix q assume "q < LENGTH(32)"
    define i where "i = q XOR 24"
    have "i < 32" using xor_24_less [of q] \<open>q < LENGTH(32)\<close> by (simp add: i_def xor.commute)
    moreover have "q = i XOR 24" by (simp add: i_def xor.assoc)
    ultimately have i: "i < 32" "q = i XOR 24" by blast+
    have j: "i div 8 < 4" "4 + i div 8 < 8" "i mod 8 < 8" "8 * (i div 8) + i mod 8 = i" using i(1) by simp_all
    have "reader_byte k cuid nt nr c (4 + i div 8) (bs ! (4 + i div 8))" using b(2) j(2) by blast
    then have "bs ! (4 + i div 8) = key_byte (i div 8) ?T XOR ucast (crypto1_prng_successor nt (40 + 8 * (i div 8)))"
      by (simp add: reader_byte_def)
    then have "byte_bits (take 4 (drop 4 bs)) i =
        (cipher_bit (cipher_at (\<lambda>_. False) False ?T i) \<noteq> bit (crypto1_prng_successor nt (40 + 8 * (i div 8))) (i mod 8))"
      using j b(1) key_byte_bits [OF j(3), of "i div 8" ?T] by (simp add: byte_bits_def bit_xor_iff bit_ucast_iff)
    moreover have "bit (fst (crypto1_word 0 False ?T)) (i XOR 24) = cipher_bit (cipher_at (\<lambda>_. False) False ?T i)"
      using word_stream [of 0 False ?T] i(1) by (simp add: zero_bits)
    ultimately show "bit (ucast y XOR fst (crypto1_word 0 False ?T)) q = bit (crypto1_prng_successor nt 64) q"
      using be_word_bits [OF num(2) len(2) i(1)] successor_bytes [OF i(1)] unfolding i(2) bit_xor_iff by blast
  qed
qed

subsection \<open>Short frames\<close>

lemma short_frame:
  assumes b: "bb_ok b" "bb_size_bits b = 4" and out: "bb_ok out" "0 < bb_capacity_bytes out"
  shows "\<exists>e. crypto1_encrypt c None b out = Some (cipher_at (\<lambda>_. False) False c 4, e) \<and> same_frame 4 out e \<and>
    (\<forall>i < 8. bit (bb_data e ! 0) i = (i < 4 \<and> (bit (bb_data b ! 0) i \<noteq> cipher_bit (cipher_at (\<lambda>_. False) False c i))))"
proof -
  let ?s = "\<lambda>n. cipher_at (\<lambda>_. False) False c n"
  let ?f = "\<lambda>i (c, encrypted_byte). do {
           x \<leftarrow> rd (bb_data b) 0;
           let (b, c) = crypto1_bit 0 False c;
           Some (c, encrypted_byte OR push_bit i (b XOR furi_bit x i))
         }"
  define o0 where "o0 = out\<lparr>bb_size_bits := 4\<rparr>"
  have o0: "bb_ok o0" "bit_buffer_get_size_bytes o0 = 1" "0 < length (bb_data o0)"
    using out by (auto simp: o0_def bb_ok_def size_bytes_eq)
  have data: "0 < length (bb_data b)" using b by (auto simp: bb_ok_def)
  have zero: "crypto1_bit 0 False d = (of_bool (cipher_bit d), snd (crypto1_bit 0 False d))" for d
    using crypto1_bit_stream [of False] by simp
  have "\<exists>t. ofold ?f [0..<4] (c, 0) = Some t \<and> (case t of (d, x) \<Rightarrow> d = ?s 4 \<and>
      (\<forall>i. bit x i = (i < 4 \<and> i < 8 \<and> (bit (bb_data b ! 0) i \<noteq> cipher_bit (?s i)))))"
  proof (rule ofold_upt_inv [where I = "\<lambda>n (d, x). d = ?s n \<and>
      (\<forall>i. bit x i = (i < n \<and> i < 8 \<and> (bit (bb_data b ! 0) i \<noteq> cipher_bit (?s i))))"])
    fix n and t :: "Crypto1 \<times> u8" assume n: "n < 4"
      and I: "case t of (d, x) \<Rightarrow> d = ?s n \<and> (\<forall>i. bit x i = (i < n \<and> i < 8 \<and> (bit (bb_data b ! 0) i \<noteq> cipher_bit (?s i))))"
    obtain d x where t: "t = (d, x)" by (cases t)
    have d: "d = ?s n" and x: "bit x i = (i < n \<and> i < 8 \<and> (bit (bb_data b ! 0) i \<noteq> cipher_bit (?s i)))" for i
      using I by (auto simp: t)
    have "?f n t = Some (?s (Suc n), x OR push_bit n (of_bool (cipher_bit (?s n)) XOR of_bool (bit (bb_data b ! 0) n)))"
    proof -
      obtain d' where d': "?s (Suc n) = d'" by blast
      then have "crypto1_bit 0 False (?s n) = (of_bool (cipher_bit (?s n)), d')" by (subst zero) simp
      then show ?thesis using data by (simp add: t rd_ok d furi_bit_eq)
    qed
    then show "\<exists>t'. ?f n t = Some t' \<and> (case t' of (d, x) \<Rightarrow> d = ?s (Suc n) \<and>
        (\<forall>i. bit x i = (i < Suc n \<and> i < 8 \<and> (bit (bb_data b ! 0) i \<noteq> cipher_bit (?s i)))))"
      using n by (auto simp: x bit_simps less_Suc_eq)
  qed simp
  then obtain x where x: "ofold ?f [0..<4] (c, 0) = Some (?s 4, x)"
    "\<And>i. bit x i = (i < 4 \<and> i < 8 \<and> (bit (bb_data b ! 0) i \<noteq> cipher_bit (?s i)))" by auto
  have e: "bit_buffer_set_byte o0 0 x = Some (o0\<lparr>bb_data := (bb_data o0)[0 := x]\<rparr>)"
    using o0(2,3) by (simp add: bit_buffer_set_byte_def mem_simps)
  have "crypto1_encrypt c None b out = Some (?s 4, o0\<lparr>bb_data := (bb_data o0)[0 := x]\<rparr>)"
    using x(1) e b(2) out(2)
    by (simp add: crypto1_encrypt_def bit_buffer_get_size_def bit_buffer_set_size_def bit_buffer_get_data_def o0_def
      del: upt_rec_numeral)
  moreover have "same_frame 4 out (o0\<lparr>bb_data := (bb_data o0)[0 := x]\<rparr>)"
    using set_byte_keeps [OF o0(1) e] o0_def by (auto simp: same_frame_def)
  ultimately show ?thesis using x(2) o0(3) by auto
qed

lemma short_frame_decrypted:
  assumes b: "bb_ok b" "bb_size_bits b = 4" and out: "bb_ok out" "0 < bb_capacity_bytes out"
  shows "\<exists>e. crypto1_decrypt c b out = Some (cipher_at (\<lambda>_. False) False c 4, e) \<and> same_frame 4 out e \<and>
    (\<forall>i < 8. bit (bb_data e ! 0) i = (i < 4 \<and> (bit (bb_data b ! 0) i \<noteq> cipher_bit (cipher_at (\<lambda>_. False) False c i))))"
proof -
  let ?s = "\<lambda>n. cipher_at (\<lambda>_. False) False c n" and ?x = "bb_data b ! 0"
  define o0 where "o0 = out\<lparr>bb_size_bits := 4\<rparr>"
  have o0: "bb_ok o0" "bit_buffer_get_size_bytes o0 = 1" "0 < length (bb_data o0)"
    using out by (auto simp: o0_def bb_ok_def size_bytes_eq)
  have data: "0 < length (bb_data b)" using b by (auto simp: bb_ok_def)
  have step: "decrypt_bit ?x n (d, ?s n) = (d OR push_bit n (of_bool (cipher_bit (?s n)) XOR of_bool (bit ?x n)), ?s (Suc n))" for n d
  proof -
    have "crypto1_bit 0 False (?s n) = (of_bool (cipher_bit (?s n)), ?s (Suc n))"
      by (subst crypto1_bit_stream [of False, simplified]) simp
    then show ?thesis by (simp only: decrypt_bit_def prod.case furi_bit_eq)
  qed
  obtain d where d: "fold (decrypt_bit ?x) [0, 1, 2, 3] (0, c) = (d, ?s 4)"
    and bits: "\<And>i. bit d i = (i < 4 \<and> i < 8 \<and> (bit ?x i \<noteq> cipher_bit (?s i)))"
  proof
    let ?d = "\<lambda>n. push_bit n (of_bool (cipher_bit (?s n)) XOR of_bool (bit ?x n)) :: u8"
    show "fold (decrypt_bit ?x) [0, 1, 2, 3] (0, c) = (((0 OR ?d 0) OR ?d 1) OR ?d 2 OR ?d 3, ?s 4)"
      using step [of 0] step [of 1] step [of 2] step [of 3]
      by (simp only: fold_simps cipher_at.simps(1) or.assoc) (simp add: eval_nat_numeral One_nat_def)
    show "bit (((0 OR ?d 0) OR ?d 1) OR ?d 2 OR ?d 3) i = (i < 4 \<and> i < 8 \<and> (bit ?x i \<noteq> cipher_bit (?s i)))" for i
    proof -
      consider "i = 0" | "i = 1" | "i = 2" | "i = 3" | "4 \<le> i" by fastforce
      then show ?thesis by cases (auto simp: bit_simps)
    qed
  qed
  have e: "bit_buffer_set_byte o0 0 d = Some (o0\<lparr>bb_data := (bb_data o0)[0 := d]\<rparr>)"
    using o0(2,3) by (simp add: bit_buffer_set_byte_def mem_simps)
  have "crypto1_decrypt c b out = Some (?s 4, o0\<lparr>bb_data := (bb_data o0)[0 := d]\<rparr>)"
    using d e b(2) out(2) data
    by (simp add: crypto1_decrypt_def bit_buffer_get_size_def bit_buffer_set_size_def bit_buffer_get_data_def o0_def rd_ok
      del: fold_simps)
  moreover have "same_frame 4 out (o0\<lparr>bb_data := (bb_data o0)[0 := d]\<rparr>)"
    using set_byte_keeps [OF o0(1) e] o0_def by (auto simp: same_frame_def)
  ultimately show ?thesis using bits o0(3) by auto
qed

end
