(* ===== verification/Mf_Classic_Poller.thy ===== *)
theory Mf_Classic_Poller
  imports Mf_Classic Crypto1
begin

text \<open>
  The reader side of Mifare Classic (firmware/lib/nfc/protocols/mf\_classic/mf\_classic\_poller\_i.c): nonces,
  authentication, reading and writing of blocks and the value commands, over the ISO 14443-3 A poller and its driver.
  Random nonces of the reader are an argument. A pointer that may be null is an option; the pointers that
  \<open>furi_check\<close> looks at are never null.
\<close>

subsection \<open>State\<close>

datatype MfClassicAuthState = MfClassicAuthStateIdle | MfClassicAuthStatePassed

datatype MfClassicCardState = MfClassicCardStateDetected | MfClassicCardStateLost

datatype MfClassicPollerState =
  MfClassicPollerStateDetectType | MfClassicPollerStateStart |
  MfClassicPollerStateRequestSectorTrailer | MfClassicPollerStateCheckWriteConditions | MfClassicPollerStateReadBlock |
  MfClassicPollerStateWriteBlock | MfClassicPollerStateWriteValueBlock |
  MfClassicPollerStateRequestReadSector | MfClassicPollerStateReadSectorBlocks |
  MfClassicPollerStateNextSector | MfClassicPollerStateAnalyzeBackdoor | MfClassicPollerStateBackdoorReadSector |
  MfClassicPollerStateRequestKey | MfClassicPollerStateReadSector | MfClassicPollerStateAuthKeyA |
  MfClassicPollerStateAuthKeyB | MfClassicPollerStateKeyReuseStart | MfClassicPollerStateKeyReuseStartNoOffset |
  MfClassicPollerStateKeyReuseAuthKeyA | MfClassicPollerStateKeyReuseAuthKeyB | MfClassicPollerStateKeyReuseReadSector |
  MfClassicPollerStateSuccess | MfClassicPollerStateFail |
  MfClassicPollerStateNestedAnalyzePRNG | MfClassicPollerStateNestedCalibrate | MfClassicPollerStateNestedCollectNt |
  MfClassicPollerStateNestedController | MfClassicPollerStateNestedCollectNtEnc | MfClassicPollerStateNestedDictAttack |
  MfClassicPollerStateNestedLog

datatype MfClassicPollerMode =
  MfClassicPollerModeRead | MfClassicPollerModeWrite | MfClassicPollerModeDictAttackStandard |
  MfClassicPollerModeDictAttackCUID | MfClassicPollerModeDictAttackEnhanced

record MfClassicPollerWriteContext =
  wc_current_sector :: u8
  wc_sec_tr :: bytes
  wc_current_block :: u16
  is_value_block :: bool
  key_type_read :: MfClassicKeyType
  key_type_write :: MfClassicKeyType
  need_halt_before_write :: bool
  tag_block :: bytes

record MfClassicPollerReadContext =
  rc_current_sector :: u8
  rc_current_block :: u16
  rc_key_type :: MfClassicKeyType
  rc_key :: bytes
  auth_passed :: bool

text \<open>The contexts of the modes share memory in the code; a poller uses one of them after \<open>mf_classic_poller_handler_start\<close>
  has zeroed it.\<close>

record 'n MfClassicPoller =
  mp_iso14443_3a_poller :: "'n Iso14443_3aPoller"
  mp_state :: MfClassicPollerState
  mp_auth_state :: MfClassicAuthState
  mp_card_state :: MfClassicCardState
  current_type_check :: MfClassicType
  mp_sectors_total :: u8
  mp_mode :: MfClassicPollerMode
  write_ctx :: MfClassicPollerWriteContext
  read_ctx :: MfClassicPollerReadContext
  mp_crypto :: Crypto1
  mp_tx_plain_buffer :: bit_buffer
  mp_tx_encrypted_buffer :: bit_buffer
  mp_rx_plain_buffer :: bit_buffer
  mp_rx_encrypted_buffer :: bit_buffer
  mp_data :: MfClassicData

definition zero_write_ctx :: MfClassicPollerWriteContext where
  "zero_write_ctx = \<lparr>wc_current_sector = 0, wc_sec_tr = replicate 16 0, wc_current_block = 0, is_value_block = False,
     key_type_read = MfClassicKeyTypeA, key_type_write = MfClassicKeyTypeA, need_halt_before_write = False,
     tag_block = replicate 16 0\<rparr>"

definition zero_read_ctx :: MfClassicPollerReadContext where
  "zero_read_ctx = \<lparr>rc_current_sector = 0, rc_current_block = 0, rc_key_type = MfClassicKeyTypeA, rc_key = replicate 6 0,
     auth_passed = False\<rparr>"

definition mf_classic_poller_alloc :: "'n Iso14443_3aPoller \<Rightarrow> 'n MfClassicPoller option" where
  "mf_classic_poller_alloc iso14443_3a_poller = do {
     tx_plain \<leftarrow> bit_buffer_alloc 64;
     tx_encrypted \<leftarrow> bit_buffer_alloc 64;
     rx_plain \<leftarrow> bit_buffer_alloc 64;
     rx_encrypted \<leftarrow> bit_buffer_alloc 64;
     Some \<lparr>mp_iso14443_3a_poller = iso14443_3a_poller, mp_state = MfClassicPollerStateDetectType,
       mp_auth_state = MfClassicAuthStateIdle, mp_card_state = MfClassicCardStateLost, current_type_check = MfClassicType4k,
       mp_sectors_total = 0, mp_mode = MfClassicPollerModeRead, write_ctx = zero_write_ctx, read_ctx = zero_read_ctx,
       mp_crypto = \<lparr>c1_odd = 0, c1_even = 0\<rparr>, mp_tx_plain_buffer = tx_plain, mp_tx_encrypted_buffer = tx_encrypted,
       mp_rx_plain_buffer = rx_plain, mp_rx_encrypted_buffer = rx_encrypted, mp_data = mf_classic_alloc\<rparr>
   }"

definition mf_classic_process_error :: "Iso14443_3aError \<Rightarrow> MfClassicError" where
  "mf_classic_process_error error = (case error of
     Iso14443_3aErrorNone \<Rightarrow> MfClassicErrorNone
   | Iso14443_3aErrorNotPresent \<Rightarrow> MfClassicErrorNotPresent
   | Iso14443_3aErrorColResFailed \<Rightarrow> MfClassicErrorProtocol
   | Iso14443_3aErrorCommunication \<Rightarrow> MfClassicErrorProtocol
   | Iso14443_3aErrorWrongCrc \<Rightarrow> MfClassicErrorProtocol
   | Iso14443_3aErrorTimeout \<Rightarrow> MfClassicErrorTimeout
   | _ \<Rightarrow> MfClassicErrorProtocol)"

subsection \<open>Frames\<close>

text \<open>The encrypted buffer is sent and the answer goes to one of the two receive buffers.\<close>

definition trx_encrypted :: "'n nfc_driver \<Rightarrow> 'n MfClassicPoller \<Rightarrow> Iso14443_3aError \<times> 'n MfClassicPoller" where
  "trx_encrypted drv p =
     (let (error, iso, rx) = iso14443_3a_poller_txrx_custom_parity drv (mp_iso14443_3a_poller p)
            (mp_tx_encrypted_buffer p) (mp_rx_encrypted_buffer p)
      in (error, p\<lparr>mp_iso14443_3a_poller := iso, mp_rx_encrypted_buffer := rx\<rparr>))"

definition encrypt_tx :: "'n MfClassicPoller \<Rightarrow> 'n MfClassicPoller option" where
  "encrypt_tx p = do {
     (c, tx) \<leftarrow> crypto1_encrypt (mp_crypto p) None (mp_tx_plain_buffer p) (mp_tx_encrypted_buffer p);
     Some (p\<lparr>mp_crypto := c, mp_tx_encrypted_buffer := tx\<rparr>)
   }"

definition decrypt_rx :: "'n MfClassicPoller \<Rightarrow> 'n MfClassicPoller option" where
  "decrypt_rx p = do {
     (c, rx) \<leftarrow> crypto1_decrypt (mp_crypto p) (mp_rx_encrypted_buffer p) (mp_rx_plain_buffer p);
     Some (p\<lparr>mp_crypto := c, mp_rx_plain_buffer := rx\<rparr>)
   }"

text \<open>A command of the session: its bytes and checksum, encrypted and exchanged.\<close>

definition exchange_command ::
    "'n nfc_driver \<Rightarrow> bytes \<Rightarrow> nat \<Rightarrow> 'n MfClassicPoller \<Rightarrow> (Iso14443_3aError \<times> 'n MfClassicPoller) option" where
  "exchange_command drv cmd len p = do {
     tx \<leftarrow> bit_buffer_copy_bytes (mp_tx_plain_buffer p) cmd len;
     tx \<leftarrow> iso14443_crc_append Iso14443CrcTypeA tx;
     p \<leftarrow> encrypt_tx (p\<lparr>mp_tx_plain_buffer := tx\<rparr>);
     Some (trx_encrypted drv p)
   }"

text \<open>The short frame that acknowledges a command.\<close>

definition check_ack :: "'n MfClassicPoller \<Rightarrow> (MfClassicError \<times> 'n MfClassicPoller) option" where
  "check_ack p =
     (if bit_buffer_get_size (mp_rx_encrypted_buffer p) \<noteq> 4 then Some (MfClassicErrorProtocol, p)
      else do {
        p \<leftarrow> decrypt_rx p;
        b \<leftarrow> bit_buffer_get_byte (mp_rx_plain_buffer p) 0;
        Some (if b \<noteq> 0x0A then MfClassicErrorProtocol else MfClassicErrorNone, p)
      })"

definition exchange_acknowledged ::
    "'n nfc_driver \<Rightarrow> bytes \<Rightarrow> nat \<Rightarrow> 'n MfClassicPoller \<Rightarrow> (MfClassicError \<times> 'n MfClassicPoller) option" where
  "exchange_acknowledged drv cmd len p = do {
     (error, p) \<leftarrow> exchange_command drv cmd len p;
     if error \<noteq> Iso14443_3aErrorNone then Some (mf_classic_process_error error, p)
     else check_ack p
   }"

subsection \<open>Authentication\<close>

text \<open>The nonce of the card, in the memory \<open>nt\<close> of the caller if there is one.\<close>

definition mf_classic_poller_get_nt_common ::
    "'n nfc_driver \<Rightarrow> 'n MfClassicPoller \<Rightarrow> u8 \<Rightarrow> MfClassicKeyType \<Rightarrow> bytes option \<Rightarrow> bool \<Rightarrow> bool \<Rightarrow>
     (MfClassicError \<times> 'n MfClassicPoller \<times> bytes option) option" where
  "mf_classic_poller_get_nt_common drv p block_num key_type nt is_nested backdoor_auth = do {
     let auth_type = (if \<not> backdoor_auth then (if key_type = MfClassicKeyTypeB then 0x61 else 0x60)
       else (if key_type = MfClassicKeyTypeB then 0x65 else 0x64));
     tx \<leftarrow> bit_buffer_copy_bytes (mp_tx_plain_buffer p) [auth_type, block_num] 2;
     let p = p\<lparr>mp_tx_plain_buffer := tx\<rparr>;
     (failed, p) \<leftarrow>
       (if is_nested then do {
          tx \<leftarrow> iso14443_crc_append Iso14443CrcTypeA (mp_tx_plain_buffer p);
          p \<leftarrow> encrypt_tx (p\<lparr>mp_tx_plain_buffer := tx\<rparr>);
          let (error, iso, rx) = iso14443_3a_poller_txrx_custom_parity drv (mp_iso14443_3a_poller p)
            (mp_tx_encrypted_buffer p) (mp_rx_plain_buffer p);
          let p = p\<lparr>mp_iso14443_3a_poller := iso, mp_rx_plain_buffer := rx\<rparr>;
          Some (if error \<noteq> Iso14443_3aErrorNone then Some (mf_classic_process_error error) else None, p)
        } else do {
          (error, iso, rx) \<leftarrow> iso14443_3a_poller_send_standard_frame drv (mp_iso14443_3a_poller p)
            (Some (mp_tx_plain_buffer p)) (Some (mp_rx_plain_buffer p));
          rx \<leftarrow> rx;
          let p = p\<lparr>mp_iso14443_3a_poller := iso, mp_rx_plain_buffer := rx\<rparr>;
          Some (if error \<noteq> Iso14443_3aErrorWrongCrc then Some (mf_classic_process_error error) else None, p)
        });
     (case failed of
        Some ret \<Rightarrow> Some (ret, p, nt)
      | None \<Rightarrow>
          if bit_buffer_get_size_bytes (mp_rx_plain_buffer p) \<noteq> 4 then Some (MfClassicErrorProtocol, p, nt)
          else (case nt of
              None \<Rightarrow> Some (MfClassicErrorNone, p, None)
            | Some n \<Rightarrow> do {
                n \<leftarrow> bit_buffer_write_bytes (mp_rx_plain_buffer p) n 4;
                Some (MfClassicErrorNone, p, Some n)
              }))
   }"

definition mf_classic_poller_get_nt ::
    "'n nfc_driver \<Rightarrow> 'n MfClassicPoller \<Rightarrow> u8 \<Rightarrow> MfClassicKeyType \<Rightarrow> bytes option \<Rightarrow> bool \<Rightarrow>
     (MfClassicError \<times> 'n MfClassicPoller \<times> bytes option) option" where
  "mf_classic_poller_get_nt drv p block_num key_type nt backdoor_auth =
     mf_classic_poller_get_nt_common drv p block_num key_type nt False backdoor_auth"

definition mf_classic_poller_get_nt_nested ::
    "'n nfc_driver \<Rightarrow> 'n MfClassicPoller \<Rightarrow> u8 \<Rightarrow> MfClassicKeyType \<Rightarrow> bytes option \<Rightarrow> bool \<Rightarrow>
     (MfClassicError \<times> 'n MfClassicPoller \<times> bytes option) option" where
  "mf_classic_poller_get_nt_nested drv p block_num key_type nt backdoor_auth =
     mf_classic_poller_get_nt_common drv p block_num key_type nt True backdoor_auth"

text \<open>What the authentication leaves in the context of the caller.\<close>

definition fill_auth_context :: "bytes \<Rightarrow> bit_buffer \<Rightarrow> bit_buffer \<Rightarrow> MfClassicAuthContext \<Rightarrow> MfClassicAuthContext option" where
  "fill_auth_context nr tx rx d = do {
     ar \<leftarrow> memcpy (ac_ar d) 0 (bit_buffer_get_data tx) 4 4;
     at \<leftarrow> bit_buffer_write_bytes rx (ac_at d) 4;
     Some (d\<lparr>ac_nr := nr, ac_ar := ar, ac_at := at\<rparr>)
   }"

definition mf_classic_poller_auth_common ::
    "'n nfc_driver \<Rightarrow> bytes \<Rightarrow> 'n MfClassicPoller \<Rightarrow> u8 \<Rightarrow> bytes \<Rightarrow> MfClassicKeyType \<Rightarrow> MfClassicAuthContext option \<Rightarrow> bool \<Rightarrow>
     bool \<Rightarrow> bool \<Rightarrow> (MfClassicError \<times> 'n MfClassicPoller \<times> MfClassicAuthContext option) option" where
  "mf_classic_poller_auth_common drv random p block_num key key_type data is_nested backdoor_auth early_ret = do {
     let p = p\<lparr>mp_data := (mp_data p)\<lparr>mfc_iso14443_3a_data :=
       iso14443_3a_copy (mfc_iso14443_3a_data (mp_data p)) (p3_data (mp_iso14443_3a_poller p))\<rparr>\<rparr>;
     (ret, p, nt) \<leftarrow> (if is_nested
       then mf_classic_poller_get_nt_nested drv p block_num key_type (Some (replicate 4 0)) backdoor_auth
       else mf_classic_poller_get_nt drv p block_num key_type (Some (replicate 4 0)) backdoor_auth);
     nt \<leftarrow> nt;
     (ret, p, data) \<leftarrow>
       (if ret \<noteq> MfClassicErrorNone then Some (ret, p, data)
        else do {
          let data = map_option (ac_nt_update (\<lambda>_. nt)) data;
          if early_ret then Some (ret, p, data)
          else do {
            cuid \<leftarrow> iso14443_3a_get_cuid (mfc_iso14443_3a_data (mp_data p));
            key_num \<leftarrow> bit_lib_bytes_to_num_be key 6;
            (c, nr, tx) \<leftarrow> crypto1_encrypt_reader_nonce (mp_crypto p) key_num cuid nt random (mp_tx_encrypted_buffer p) is_nested;
            let (error, p) = trx_encrypted drv (p\<lparr>mp_crypto := c, mp_tx_encrypted_buffer := tx\<rparr>);
            if error \<noteq> Iso14443_3aErrorNone then Some (mf_classic_process_error error, p, data)
            else do {
              let ret = (if bit_buffer_get_size_bytes (mp_rx_encrypted_buffer p) \<noteq> 4 then MfClassicErrorAuth else ret);
              let (_, c) = crypto1_word 0 False (mp_crypto p);
              let p = p\<lparr>mp_crypto := c, mp_auth_state := MfClassicAuthStatePassed\<rparr>;
              data \<leftarrow> (case data of
                  None \<Rightarrow> Some None
                | Some d \<Rightarrow> map_option Some (fill_auth_context nr (mp_tx_encrypted_buffer p) (mp_rx_encrypted_buffer p) d));
              Some (ret, p, data)
            }
          }
        });
     if ret \<noteq> MfClassicErrorNone then do {
       (_, iso) \<leftarrow> iso14443_3a_poller_halt drv (mp_iso14443_3a_poller p);
       Some (ret, p\<lparr>mp_iso14443_3a_poller := iso\<rparr>, data)
     } else Some (ret, p, data)
   }"

definition mf_classic_poller_auth ::
    "'n nfc_driver \<Rightarrow> bytes \<Rightarrow> 'n MfClassicPoller \<Rightarrow> u8 \<Rightarrow> bytes \<Rightarrow> MfClassicKeyType \<Rightarrow> MfClassicAuthContext option \<Rightarrow> bool \<Rightarrow>
     (MfClassicError \<times> 'n MfClassicPoller \<times> MfClassicAuthContext option) option" where
  "mf_classic_poller_auth drv random p block_num key key_type data backdoor_auth =
     mf_classic_poller_auth_common drv random p block_num key key_type data False backdoor_auth False"

definition mf_classic_poller_auth_nested ::
    "'n nfc_driver \<Rightarrow> bytes \<Rightarrow> 'n MfClassicPoller \<Rightarrow> u8 \<Rightarrow> bytes \<Rightarrow> MfClassicKeyType \<Rightarrow> MfClassicAuthContext option \<Rightarrow> bool \<Rightarrow>
     bool \<Rightarrow> (MfClassicError \<times> 'n MfClassicPoller \<times> MfClassicAuthContext option) option" where
  "mf_classic_poller_auth_nested drv random p block_num key key_type data backdoor_auth early_ret =
     mf_classic_poller_auth_common drv random p block_num key key_type data True backdoor_auth early_ret"

subsection \<open>Commands\<close>

definition mf_classic_poller_halt :: "'n nfc_driver \<Rightarrow> 'n MfClassicPoller \<Rightarrow> (MfClassicError \<times> 'n MfClassicPoller) option" where
  "mf_classic_poller_halt drv p = do {
     (error, p) \<leftarrow> exchange_command drv [0x50, 0x00] 2 p;
     if error \<noteq> Iso14443_3aErrorTimeout then Some (mf_classic_process_error error, p)
     else Some (MfClassicErrorNone, p\<lparr>mp_auth_state := MfClassicAuthStateIdle,
       mp_iso14443_3a_poller := (mp_iso14443_3a_poller p)\<lparr>p3_state := Iso14443_3aPollerStateIdle\<rparr>\<rparr>)
   }"

text \<open>The block goes to the memory \<open>data\<close> of the caller.\<close>

definition mf_classic_poller_read_block ::
    "'n nfc_driver \<Rightarrow> 'n MfClassicPoller \<Rightarrow> u8 \<Rightarrow> bytes \<Rightarrow> (MfClassicError \<times> 'n MfClassicPoller \<times> bytes) option" where
  "mf_classic_poller_read_block drv p block_num data = do {
     (error, p) \<leftarrow> exchange_command drv [0x30, block_num] 2 p;
     if error \<noteq> Iso14443_3aErrorNone then Some (mf_classic_process_error error, p, data)
     else if bit_buffer_get_size_bytes (mp_rx_encrypted_buffer p) \<noteq> 16 + 2 then Some (MfClassicErrorProtocol, p, data)
     else do {
       p \<leftarrow> decrypt_rx p;
       ok \<leftarrow> iso14443_crc_check Iso14443CrcTypeA (mp_rx_plain_buffer p);
       if \<not> ok then Some (MfClassicErrorProtocol, p, data)
       else do {
         rx \<leftarrow> iso14443_crc_trim (mp_rx_plain_buffer p);
         data \<leftarrow> bit_buffer_write_bytes rx data 16;
         Some (MfClassicErrorNone, p\<lparr>mp_rx_plain_buffer := rx\<rparr>, data)
       }
     }
   }"

definition mf_classic_poller_write_block ::
    "'n nfc_driver \<Rightarrow> 'n MfClassicPoller \<Rightarrow> u8 \<Rightarrow> bytes \<Rightarrow> (MfClassicError \<times> 'n MfClassicPoller) option" where
  "mf_classic_poller_write_block drv p block_num data = do {
     (ret, p) \<leftarrow> exchange_acknowledged drv [0xA0, block_num] 2 p;
     if ret \<noteq> MfClassicErrorNone then Some (ret, p)
     else exchange_acknowledged drv data 16 p
   }"

definition mf_classic_poller_value_cmd ::
    "'n nfc_driver \<Rightarrow> 'n MfClassicPoller \<Rightarrow> u8 \<Rightarrow> MfClassicValueCommand \<Rightarrow> u32 \<Rightarrow>
     (MfClassicError \<times> 'n MfClassicPoller) option" where
  "mf_classic_poller_value_cmd drv p block_num cmd data = do {
     let cmd_value = (if cmd = MfClassicValueCommandDecrement then 0xC0
       else if cmd = MfClassicValueCommandIncrement then 0xC1 else 0xC2);
     (ret, p) \<leftarrow> exchange_acknowledged drv [cmd_value, block_num] 2 p;
     if ret \<noteq> MfClassicErrorNone then Some (ret, p)
     else do {
       (error, p) \<leftarrow> exchange_command drv (word_bytes data) 4 p;
       Some (if error \<noteq> Iso14443_3aErrorTimeout then MfClassicErrorProtocol else MfClassicErrorNone, p)
     }
   }"

definition mf_classic_poller_value_transfer ::
    "'n nfc_driver \<Rightarrow> 'n MfClassicPoller \<Rightarrow> u8 \<Rightarrow> (MfClassicError \<times> 'n MfClassicPoller) option" where
  "mf_classic_poller_value_transfer drv p block_num = exchange_acknowledged drv [0xB0, block_num] 2 p"

text \<open>Frames of the application. Buffers of the caller are arguments and results.\<close>

definition mf_classic_poller_send_standard_frame ::
    "'n nfc_driver \<Rightarrow> 'n MfClassicPoller \<Rightarrow> bit_buffer \<Rightarrow> bit_buffer \<Rightarrow> (MfClassicError \<times> 'n MfClassicPoller \<times> bit_buffer) option" where
  "mf_classic_poller_send_standard_frame drv p tx_buffer rx_buffer = do {
     (error, iso, rx) \<leftarrow> iso14443_3a_poller_send_standard_frame drv (mp_iso14443_3a_poller p) (Some tx_buffer) (Some rx_buffer);
     rx \<leftarrow> rx;
     Some (mf_classic_process_error error, p\<lparr>mp_iso14443_3a_poller := iso\<rparr>, rx)
   }"

definition mf_classic_poller_send_frame ::
    "'n nfc_driver \<Rightarrow> 'n MfClassicPoller \<Rightarrow> bit_buffer \<Rightarrow> bit_buffer \<Rightarrow> MfClassicError \<times> 'n MfClassicPoller \<times> bit_buffer" where
  "mf_classic_poller_send_frame drv p tx_buffer rx_buffer =
     (let (error, iso, rx) = iso14443_3a_poller_txrx drv (mp_iso14443_3a_poller p) tx_buffer rx_buffer
      in (mf_classic_process_error error, p\<lparr>mp_iso14443_3a_poller := iso\<rparr>, rx))"

definition mf_classic_poller_send_custom_parity_frame ::
    "'n nfc_driver \<Rightarrow> 'n MfClassicPoller \<Rightarrow> bit_buffer \<Rightarrow> bit_buffer \<Rightarrow> MfClassicError \<times> 'n MfClassicPoller \<times> bit_buffer" where
  "mf_classic_poller_send_custom_parity_frame drv p tx_buffer rx_buffer =
     (let (error, iso, rx) = iso14443_3a_poller_txrx_custom_parity drv (mp_iso14443_3a_poller p) tx_buffer rx_buffer
      in (mf_classic_process_error error, p\<lparr>mp_iso14443_3a_poller := iso\<rparr>, rx))"

definition mf_classic_poller_send_encrypted_frame ::
    "'n nfc_driver \<Rightarrow> 'n MfClassicPoller \<Rightarrow> bit_buffer \<Rightarrow> bit_buffer \<Rightarrow> (MfClassicError \<times> 'n MfClassicPoller \<times> bit_buffer) option" where
  "mf_classic_poller_send_encrypted_frame drv p tx_buffer rx_buffer = do {
     (c, tx) \<leftarrow> crypto1_encrypt (mp_crypto p) None tx_buffer (mp_tx_encrypted_buffer p);
     let (error, p) = trx_encrypted drv (p\<lparr>mp_crypto := c, mp_tx_encrypted_buffer := tx\<rparr>);
     if error \<noteq> Iso14443_3aErrorNone then Some (mf_classic_process_error error, p, rx_buffer)
     else do {
       (c, rx) \<leftarrow> crypto1_decrypt (mp_crypto p) (mp_rx_encrypted_buffer p) rx_buffer;
       Some (MfClassicErrorNone, p\<lparr>mp_crypto := c\<rparr>, rx)
     }
   }"

end
