(* ===== verification/Mf_Classic_Poller_Modes.thy ===== *)
theory Mf_Classic_Poller_Modes
  imports Mf_Classic_Poller
begin

text \<open>
  The state machine of the Mifare Classic reader (firmware/lib/nfc/protocols/mf\_classic/mf\_classic\_poller.c): detection of
  the card's type, the read mode and the write mode. The handlers of the dictionary attacks are an argument. The thread
  that feeds it with events is the callback of lib/nfc/nfc\_poller.c in the loop of lib/nfc/nfc.c.
\<close>

subsection \<open>Events\<close>

datatype MfClassicPollerEvent =
  MfClassicPollerEventTypeRequestMode | MfClassicPollerEventTypeRequestReadSector |
  MfClassicPollerEventTypeRequestSectorTrailer u8 | MfClassicPollerEventTypeRequestWriteBlock u8 |
  MfClassicPollerEventTypeRequestKey | MfClassicPollerEventTypeNextSector | MfClassicPollerEventTypeDataUpdate |
  MfClassicPollerEventTypeFoundKeyA | MfClassicPollerEventTypeFoundKeyB |
  MfClassicPollerEventTypeKeyAttackStart | MfClassicPollerEventTypeKeyAttackStop |
  MfClassicPollerEventTypeKeyAttackNextSector |
  MfClassicPollerEventTypeCardDetected | MfClassicPollerEventTypeCardLost |
  MfClassicPollerEventTypeSuccess | MfClassicPollerEventTypeFail

text \<open>What the application fills in: its answer to an event that requests something.\<close>

record MfClassicPollerEventData =
  poller_mode :: MfClassicPollerMode
  poller_mode_data :: MfClassicData
  sector_trailer :: bytes
  sector_trailer_provided :: bool
  ed_write_block :: bytes
  write_block_provided :: bool
  rs_sector_num :: u8
  rs_key :: bytes
  rs_key_type :: MfClassicKeyType
  rs_key_provided :: bool

text \<open>The callback of the application and its context.\<close>

type_synonym 'a poller_callback = "MfClassicPollerEvent \<Rightarrow> 'a \<Rightarrow> NfcCommand \<times> MfClassicPollerEventData \<times> 'a"

subsection \<open>Detection of the type\<close>

definition mf_classic_plus_2k_sl1_ats_tk :: "bytes list" where
  "mf_classic_plus_2k_sl1_ats_tk =
     [[0xC1, 0x05, 0x2F, 0x2F, 0x00, 0x35, 0xC7], [0xC1, 0x05, 0x2F, 0x2F, 0x01, 0xBC, 0xD6]]"

definition mf_classic_ats_is_plus_2k_sl1 :: "bytes \<Rightarrow> nat \<Rightarrow> bool option" where
  "mf_classic_ats_is_plus_2k_sl1 ats ats_size =
     (if ats_size < 2 then Some False
      else do {
        tl \<leftarrow> rd ats 0;
        let tl = (if unat tl > ats_size then ats_size else unat tl);
        t0 \<leftarrow> rd ats 1;
        let offset = 2 + (if t0 AND push_bit 4 1 \<noteq> 0 then 1 else 0) + (if t0 AND push_bit 5 1 \<noteq> 0 then 1 else 0) +
          (if t0 AND push_bit 6 1 \<noteq> 0 then 1 else (0 :: nat));
        if offset > tl then Some False
        else if tl - offset \<noteq> 7 then Some False
        else do {
          tk \<leftarrow> memcpy (replicate 7 0) 0 ats offset 7;
          Some (tk \<in> set mf_classic_plus_2k_sl1_ats_tk)
        }
      })"

definition mf_classic_poller_is_plus_2k_sl1 :: "'n nfc_driver \<Rightarrow> 'n MfClassicPoller \<Rightarrow> (bool \<times> 'n MfClassicPoller) option" where
  "mf_classic_poller_is_plus_2k_sl1 drv p = do {
     tx \<leftarrow> bit_buffer_append_byte (bit_buffer_reset (mp_tx_plain_buffer p)) 0xE0;
     tx \<leftarrow> bit_buffer_append_byte tx 0x80;
     (error, iso, rx) \<leftarrow> iso14443_3a_poller_send_standard_frame drv (mp_iso14443_3a_poller p) (Some tx)
       (Some (mp_rx_plain_buffer p));
     rx \<leftarrow> rx;
     let p = p\<lparr>mp_tx_plain_buffer := tx, mp_iso14443_3a_poller := iso, mp_rx_plain_buffer := rx\<rparr>;
     if error \<noteq> Iso14443_3aErrorNone then Some (False, p)
     else do {
       r \<leftarrow> mf_classic_ats_is_plus_2k_sl1 (bit_buffer_get_data rx) (bit_buffer_get_size_bytes rx);
       Some (r, p)
     }
   }"

definition type_detected :: "MfClassicType \<Rightarrow> 'n MfClassicPoller \<Rightarrow> 'n MfClassicPoller" where
  "type_detected t p = p\<lparr>mp_data := (mp_data p)\<lparr>mfc_type := t\<rparr>, current_type_check := MfClassicType4k,
     mp_state := MfClassicPollerStateStart\<rparr>"

definition mf_classic_poller_handler_detect_type ::
    "'n nfc_driver \<Rightarrow> 'n MfClassicPoller \<Rightarrow> (NfcCommand \<times> 'n MfClassicPoller) option" where
  "mf_classic_poller_handler_detect_type drv p = do {
     let p = p\<lparr>mp_data := (mp_data p)\<lparr>mfc_iso14443_3a_data :=
       iso14443_3a_copy (mfc_iso14443_3a_data (mp_data p)) (p3_data (mp_iso14443_3a_poller p))\<rparr>\<rparr>;
     let sak = i3_sak (mfc_iso14443_3a_data (mp_data p));
     p \<leftarrow>
       (if sak = 0x09 then Some (type_detected MfClassicTypeMini p)
        else if sak AND 0x10 \<noteq> 0 then Some (type_detected MfClassicType4k p)
        else if sak AND 0x08 \<noteq> 0 then do {
          (plus, p) \<leftarrow> mf_classic_poller_is_plus_2k_sl1 drv p;
          Some (type_detected (if plus then MfClassicType2k else MfClassicType1k) p)
        }
        else if current_type_check p = MfClassicType4k then do {
          (error, p, _) \<leftarrow> mf_classic_poller_get_nt drv p 254 MfClassicKeyTypeA None False;
          Some (if error = MfClassicErrorNone then type_detected MfClassicType4k p
                else p\<lparr>current_type_check := MfClassicType1k\<rparr>)
        }
        else if current_type_check p = MfClassicType1k then do {
          (error, p, _) \<leftarrow> mf_classic_poller_get_nt drv p 62 MfClassicKeyTypeA None False;
          Some (type_detected (if error = MfClassicErrorNone then MfClassicType1k else MfClassicTypeMini) p)
        }
        else Some p);
     Some (NfcCommandReset, p)
   }"

subsection \<open>Start\<close>

definition mf_classic_poller_handler_start ::
    "'a poller_callback \<Rightarrow> 'n MfClassicPoller \<Rightarrow> 'a \<Rightarrow> (NfcCommand \<times> 'n MfClassicPoller \<times> 'a) option" where
  "mf_classic_poller_handler_start callback p a = do {
     let p = p\<lparr>mp_sectors_total := mf_classic_get_total_sectors_num (mfc_type (mp_data p)),
       write_ctx := zero_write_ctx, read_ctx := zero_read_ctx\<rparr>;
     let (command, ans, a) = callback MfClassicPollerEventTypeRequestMode a;
     let p = p\<lparr>mp_mode := poller_mode ans\<rparr>;
     p \<leftarrow> (case poller_mode ans of
         MfClassicPollerModeRead \<Rightarrow> Some (p\<lparr>mp_state := MfClassicPollerStateRequestReadSector\<rparr>)
       | MfClassicPollerModeWrite \<Rightarrow> Some (p\<lparr>mp_state := MfClassicPollerStateRequestSectorTrailer\<rparr>)
       | MfClassicPollerModeDictAttackEnhanced \<Rightarrow> do {
           d \<leftarrow> mf_classic_copy (mp_data p) (poller_mode_data ans);
           Some (p\<lparr>mp_data := d, mp_state := MfClassicPollerStateAnalyzeBackdoor\<rparr>)
         }
       | _ \<Rightarrow> do {
           d \<leftarrow> mf_classic_copy (mp_data p) (poller_mode_data ans);
           Some (p\<lparr>mp_data := d, mp_state := MfClassicPollerStateRequestKey\<rparr>)
         });
     Some (command, p, a)
   }"

subsection \<open>Writing\<close>

definition update_write_ctx ::
    "(MfClassicPollerWriteContext \<Rightarrow> MfClassicPollerWriteContext) \<Rightarrow> 'n MfClassicPoller \<Rightarrow> 'n MfClassicPoller" where
  "update_write_ctx f p = p\<lparr>write_ctx := f (write_ctx p)\<rparr>"

definition sector_key :: "bytes \<Rightarrow> MfClassicKeyType \<Rightarrow> bytes" where
  "sector_key sec_tr key_type = (if key_type = MfClassicKeyTypeA then take 6 sec_tr else take 6 (drop 10 sec_tr))"

definition mf_classic_poller_handler_request_sector_trailer ::
    "'a poller_callback \<Rightarrow> 'n MfClassicPoller \<Rightarrow> 'a \<Rightarrow> (NfcCommand \<times> 'n MfClassicPoller \<times> 'a) option" where
  "mf_classic_poller_handler_request_sector_trailer callback p a = do {
     let w = write_ctx p;
     if wc_current_sector w = mp_sectors_total p then
       Some (NfcCommandContinue, p\<lparr>mp_state := MfClassicPollerStateSuccess\<rparr>, a)
     else do {
       let (command, ans, a) = callback (MfClassicPollerEventTypeRequestSectorTrailer (wc_current_sector w)) a;
       if sector_trailer_provided ans then do {
         sec_tr \<leftarrow> memcpy (wc_sec_tr w) 0 (sector_trailer ans) 0 16;
         n \<leftarrow> mf_classic_get_first_block_num_of_sector (wc_current_sector w);
         Some (command, p\<lparr>mp_state := MfClassicPollerStateCheckWriteConditions,
           write_ctx := w\<lparr>wc_sec_tr := sec_tr, wc_current_block := (if 1 > n then 1 else ucast n)\<rparr>\<rparr>, a)
       } else Some (command, update_write_ctx (\<lambda>w. w\<lparr>wc_current_sector := wc_current_sector w + 1\<rparr>) p, a)
     }
   }"

text \<open>The keys for writing and reading the current block, if the block may be copied.\<close>

definition choose_keys :: "MfClassicPollerWriteContext \<Rightarrow> bool \<times> MfClassicPollerWriteContext" where
  "choose_keys w =
     (let may = \<lambda>key_type action. mf_classic_is_allowed_access_data_block (wc_sec_tr w) (ucast (wc_current_block w)) key_type action;
          next_block = \<lambda>w. w\<lparr>wc_current_block := wc_current_block w + 1\<rparr>;
          (ok, w) = (if may MfClassicKeyTypeA MfClassicActionDataWrite then (True, w\<lparr>key_type_write := MfClassicKeyTypeA\<rparr>)
            else if may MfClassicKeyTypeB MfClassicActionDataWrite then (True, w\<lparr>key_type_write := MfClassicKeyTypeB\<rparr>)
            else if mf_classic_is_value_block (wc_sec_tr w) (ucast (wc_current_block w)) then (True, w\<lparr>is_value_block := True\<rparr>)
            else (False, next_block w))
      in if \<not> ok then (False, w)
      else if may (key_type_write w) MfClassicActionDataRead
      then (True, w\<lparr>key_type_read := key_type_write w\<rparr>)
      else let other = (if key_type_write w = MfClassicKeyTypeA then MfClassicKeyTypeB else MfClassicKeyTypeA);
               w = w\<lparr>key_type_read := other\<rparr>
           in if \<not> may other MfClassicActionDataRead then (False, next_block w) else (True, w))"

definition mf_classic_handler_check_write_conditions ::
    "'n MfClassicPoller \<Rightarrow> (NfcCommand \<times> 'n MfClassicPoller) option" where
  "mf_classic_handler_check_write_conditions p = do {
     let w = write_ctx p;
     sec_tr_block_num \<leftarrow> mf_classic_get_sector_trailer_num_by_sector (wc_current_sector w);
     if wc_current_block w = ucast sec_tr_block_num then
       Some (NfcCommandContinue, p\<lparr>write_ctx := w\<lparr>wc_current_sector := wc_current_sector w + 1\<rparr>,
         mp_state := MfClassicPollerStateRequestSectorTrailer\<rparr>)
     else do {
       let (ok, w) = choose_keys w;
       Some (NfcCommandContinue,
         if ok then p\<lparr>write_ctx := w\<lparr>need_halt_before_write := (key_type_read w \<noteq> key_type_write w)\<rparr>,
           mp_state := MfClassicPollerStateReadBlock\<rparr>
         else p\<lparr>write_ctx := w\<rparr>)
     }
   }"

definition auth_block ::
    "'n nfc_driver \<Rightarrow> bytes \<Rightarrow> MfClassicKeyType \<Rightarrow> 'n MfClassicPoller \<Rightarrow> (MfClassicError \<times> 'n MfClassicPoller) option" where
  "auth_block drv random key_type p = do {
     (error, p, _) \<leftarrow> mf_classic_poller_auth drv random p (ucast (wc_current_block (write_ctx p)))
       (sector_key (wc_sec_tr (write_ctx p)) key_type) key_type None False;
     Some (error, p)
   }"

definition mf_classic_poller_handler_read_block ::
    "'n nfc_driver \<Rightarrow> bytes \<Rightarrow> 'n MfClassicPoller \<Rightarrow> (NfcCommand \<times> 'n MfClassicPoller) option" where
  "mf_classic_poller_handler_read_block drv random p = do {
     (error, p) \<leftarrow> auth_block drv random (key_type_read (write_ctx p)) p;
     if error \<noteq> MfClassicErrorNone then Some (NfcCommandContinue, p\<lparr>mp_state := MfClassicPollerStateFail\<rparr>)
     else do {
       (error, p, data) \<leftarrow> mf_classic_poller_read_block drv p (ucast (wc_current_block (write_ctx p))) (tag_block (write_ctx p));
       let p = update_write_ctx (\<lambda>w. w\<lparr>tag_block := data\<rparr>) p;
       if error \<noteq> MfClassicErrorNone then Some (NfcCommandContinue, p\<lparr>mp_state := MfClassicPollerStateFail\<rparr>)
       else do {
         (_, p) \<leftarrow> (if is_value_block (write_ctx p) \<or> need_halt_before_write (write_ctx p)
           then mf_classic_poller_halt drv p else Some (MfClassicErrorNone, p));
         Some (NfcCommandContinue, p\<lparr>mp_state :=
           if is_value_block (write_ctx p) then MfClassicPollerStateWriteValueBlock else MfClassicPollerStateWriteBlock\<rparr>)
       }
     }
   }"

text \<open>The body of the handler: what happens before the halt and the step to the next block.\<close>

definition write_requested_block ::
    "'n nfc_driver \<Rightarrow> bytes \<Rightarrow> bytes \<Rightarrow> 'n MfClassicPoller \<Rightarrow> 'n MfClassicPoller option" where
  "write_requested_block drv random block p = do {
     (error, p) \<leftarrow> (if need_halt_before_write (write_ctx p)
       then auth_block drv random (key_type_write (write_ctx p)) p else Some (MfClassicErrorNone, p));
     if error \<noteq> MfClassicErrorNone then Some (p\<lparr>mp_state := MfClassicPollerStateFail\<rparr>)
     else do {
       (error, p) \<leftarrow> mf_classic_poller_write_block drv p (ucast (wc_current_block (write_ctx p))) block;
       Some (if error \<noteq> MfClassicErrorNone then p\<lparr>mp_state := MfClassicPollerStateFail\<rparr> else p)
     }
   }"

definition mf_classic_poller_handler_write_block ::
    "'n nfc_driver \<Rightarrow> bytes \<Rightarrow> 'a poller_callback \<Rightarrow> 'n MfClassicPoller \<Rightarrow> 'a \<Rightarrow> (NfcCommand \<times> 'n MfClassicPoller \<times> 'a) option" where
  "mf_classic_poller_handler_write_block drv random callback p a = do {
     let (command, ans, a) = callback (MfClassicPollerEventTypeRequestWriteBlock (ucast (wc_current_block (write_ctx p)))) a;
     p \<leftarrow> (if \<not> write_block_provided ans \<or> tag_block (write_ctx p) = ed_write_block ans then Some p
           else write_requested_block drv random (ed_write_block ans) p);
     (_, p) \<leftarrow> mf_classic_poller_halt drv p;
     Some (command, (update_write_ctx (\<lambda>w. w\<lparr>wc_current_block := wc_current_block w + 1\<rparr>) p)
       \<lparr>mp_state := MfClassicPollerStateCheckWriteConditions\<rparr>, a)
   }"

text \<open>The key and the command that bring the value of the card to the value of the block, if there are any. The
  difference is a 32-bit number; its overflow is taken to wrap.\<close>

definition choose_value_cmd :: "bytes \<Rightarrow> u8 \<Rightarrow> u32 \<Rightarrow> (MfClassicKeyType \<times> MfClassicValueCommand \<times> u32) option" where
  "choose_value_cmd sec_tr block_num diff =
     (let may = \<lambda>key_type action. mf_classic_is_allowed_access_data_block sec_tr block_num key_type action
      in if 0 < sint diff then
           if may MfClassicKeyTypeA MfClassicActionDataInc then Some (MfClassicKeyTypeA, MfClassicValueCommandIncrement, diff)
           else if may MfClassicKeyTypeB MfClassicActionDataInc then Some (MfClassicKeyTypeB, MfClassicValueCommandIncrement, diff)
           else None
         else
           if may MfClassicKeyTypeA MfClassicActionDataDec then Some (MfClassicKeyTypeA, MfClassicValueCommandDecrement, - diff)
           else if may MfClassicKeyTypeB MfClassicActionDataDec then Some (MfClassicKeyTypeB, MfClassicValueCommandDecrement, - diff)
           else None)"

definition write_requested_value ::
    "'n nfc_driver \<Rightarrow> bytes \<Rightarrow> bytes \<Rightarrow> 'n MfClassicPoller \<Rightarrow> 'n MfClassicPoller option" where
  "write_requested_value drv random block p = do {
     let w = write_ctx p;
     let block_num = ucast (wc_current_block w);
     let (ok, source_value, _) = mf_classic_block_to_value block;
     if \<not> ok then Some p
     else do {
       let (ok, target_value, _) = mf_classic_block_to_value (tag_block w);
       if \<not> ok then Some p
       else (case choose_value_cmd (wc_sec_tr w) block_num (source_value - target_value) of
           None \<Rightarrow> Some p
         | Some (auth_key_type, value_cmd, diff) \<Rightarrow> do {
             (error, p) \<leftarrow> auth_block drv random auth_key_type p;
             if error \<noteq> MfClassicErrorNone then Some p
             else do {
               (error, p) \<leftarrow> mf_classic_poller_value_cmd drv p block_num value_cmd diff;
               if error \<noteq> MfClassicErrorNone then Some p
               else map_option snd (mf_classic_poller_value_transfer drv p block_num)
             }
           })
     }
   }"

definition mf_classic_poller_handler_write_value_block ::
    "'n nfc_driver \<Rightarrow> bytes \<Rightarrow> 'a poller_callback \<Rightarrow> 'n MfClassicPoller \<Rightarrow> 'a \<Rightarrow> (NfcCommand \<times> 'n MfClassicPoller \<times> 'a) option" where
  "mf_classic_poller_handler_write_value_block drv random callback p a = do {
     let (command, ans, a) = callback (MfClassicPollerEventTypeRequestWriteBlock (ucast (wc_current_block (write_ctx p)))) a;
     p \<leftarrow> (if \<not> write_block_provided ans \<or> tag_block (write_ctx p) = ed_write_block ans then Some p
           else write_requested_value drv random (ed_write_block ans) p);
     (_, p) \<leftarrow> mf_classic_poller_halt drv p;
     Some (command, (update_write_ctx (\<lambda>w. w\<lparr>is_value_block := False, wc_current_block := wc_current_block w + 1\<rparr>) p)
       \<lparr>mp_state := MfClassicPollerStateCheckWriteConditions\<rparr>, a)
   }"

subsection \<open>Reading\<close>

definition mf_classic_poller_handler_request_read_sector ::
    "'a poller_callback \<Rightarrow> 'n MfClassicPoller \<Rightarrow> 'a \<Rightarrow> (NfcCommand \<times> 'n MfClassicPoller \<times> 'a) option" where
  "mf_classic_poller_handler_request_read_sector callback p a = do {
     let (command, ans, a) = callback MfClassicPollerEventTypeRequestReadSector a;
     if \<not> rs_key_provided ans then Some (command, p\<lparr>mp_state := MfClassicPollerStateSuccess\<rparr>, a)
     else do {
       n \<leftarrow> mf_classic_get_first_block_num_of_sector (rs_sector_num ans);
       Some (command, p\<lparr>read_ctx := \<lparr>rc_current_sector = rs_sector_num ans, rc_current_block = ucast n,
           rc_key_type = rs_key_type ans, rc_key = rs_key ans, auth_passed = False\<rparr>,
         mp_state := MfClassicPollerStateReadSectorBlocks\<rparr>, a)
     }
   }"

definition mf_classic_poller_check_key_b_is_readable ::
    "'n MfClassicPoller \<Rightarrow> u8 \<Rightarrow> bytes \<Rightarrow> 'n MfClassicPoller option" where
  "mf_classic_poller_check_key_b_is_readable p block_num data =
     (if \<not> mf_classic_is_sector_trailer block_num then Some p
      else do {
        ok \<leftarrow> mf_classic_is_allowed_access (mp_data p) block_num MfClassicKeyTypeA MfClassicActionKeyBRead;
        if \<not> ok then Some p
        else do {
          key_b \<leftarrow> bit_lib_bytes_to_num_be (take 6 (drop 10 data)) 6;
          d \<leftarrow> mf_classic_set_key_found (mp_data p) (mf_classic_get_sector_by_block block_num) MfClassicKeyTypeB key_b;
          Some (p\<lparr>mp_data := d\<rparr>)
        }
      })"

text \<open>The authentication before the first block of a sector, and after an error.\<close>

definition auth_sector_once ::
    "'n nfc_driver \<Rightarrow> bytes \<Rightarrow> 'n MfClassicPoller \<Rightarrow> (bool \<times> 'n MfClassicPoller) option" where
  "auth_sector_once drv random p = do {
     let r = read_ctx p;
     if auth_passed r then Some (True, p)
     else do {
       key \<leftarrow> bit_lib_bytes_to_num_be (rc_key r) 6;
       (error, p, _) \<leftarrow> mf_classic_poller_auth drv random p (ucast (rc_current_block r)) (rc_key r) (rc_key_type r) None False;
       if error \<noteq> MfClassicErrorNone then Some (False, p)
       else do {
         let p = p\<lparr>read_ctx := (read_ctx p)\<lparr>auth_passed := True\<rparr>\<rparr>;
         found \<leftarrow> mf_classic_is_key_found (mp_data p) (rc_current_sector r) (rc_key_type r);
         d \<leftarrow> (if \<not> found then mf_classic_set_key_found (mp_data p) (rc_current_sector r) (rc_key_type r) key
               else Some (mp_data p));
         Some (True, p\<lparr>mp_data := d\<rparr>)
       }
     }
   }"

definition read_current_block :: "'n nfc_driver \<Rightarrow> 'n MfClassicPoller \<Rightarrow> 'n MfClassicPoller option" where
  "read_current_block drv p = do {
     let block_num = ucast (rc_current_block (read_ctx p));
     known \<leftarrow> mf_classic_is_block_read (mp_data p) block_num;
     if known then Some p
     else do {
       (error, p, block) \<leftarrow> mf_classic_poller_read_block drv p block_num (replicate 16 0);
       if error = MfClassicErrorNone then do {
         d \<leftarrow> mf_classic_set_block_read (mp_data p) block_num block;
         let p = p\<lparr>mp_data := d\<rparr>;
         if rc_key_type (read_ctx p) = MfClassicKeyTypeA
         then mf_classic_poller_check_key_b_is_readable p block_num block else Some p
       } else do {
         (_, p) \<leftarrow> mf_classic_poller_halt drv p;
         Some (p\<lparr>read_ctx := (read_ctx p)\<lparr>auth_passed := False\<rparr>\<rparr>)
       }
     }
   }"

definition mf_classic_poller_handler_request_read_sector_blocks ::
    "'n nfc_driver \<Rightarrow> bytes \<Rightarrow> 'n MfClassicPoller \<Rightarrow> (NfcCommand \<times> 'n MfClassicPoller) option" where
  "mf_classic_poller_handler_request_read_sector_blocks drv random p = do {
     (ok, p) \<leftarrow> auth_sector_once drv random p;
     p \<leftarrow> (if ok then read_current_block drv p else Some p);
     sec_tr_num \<leftarrow> mf_classic_get_sector_trailer_num_by_sector (rc_current_sector (read_ctx p));
     let p = p\<lparr>read_ctx := (read_ctx p)\<lparr>rc_current_block := rc_current_block (read_ctx p) + 1\<rparr>\<rparr>;
     if rc_current_block (read_ctx p) > ucast sec_tr_num then do {
       (_, p) \<leftarrow> mf_classic_poller_halt drv p;
       Some (NfcCommandContinue, p\<lparr>mp_state := MfClassicPollerStateRequestReadSector\<rparr>)
     } else Some (NfcCommandContinue, p)
   }"

subsection \<open>Results and dispatch\<close>

definition mf_classic_poller_handler_success ::
    "'a poller_callback \<Rightarrow> 'n MfClassicPoller \<Rightarrow> 'a \<Rightarrow> (NfcCommand \<times> 'n MfClassicPoller \<times> 'a) option" where
  "mf_classic_poller_handler_success callback p a =
     (let (command, _, a) = callback MfClassicPollerEventTypeSuccess a in Some (command, p, a))"

definition mf_classic_poller_handler_fail ::
    "'a poller_callback \<Rightarrow> 'n MfClassicPoller \<Rightarrow> 'a \<Rightarrow> (NfcCommand \<times> 'n MfClassicPoller \<times> 'a) option" where
  "mf_classic_poller_handler_fail callback p a =
     (let (command, _, a) = callback MfClassicPollerEventTypeFail a
      in Some (command, p\<lparr>mp_state := MfClassicPollerStateDetectType\<rparr>, a))"

definition keep_context :: "'a \<Rightarrow> (NfcCommand \<times> 'n MfClassicPoller) option \<Rightarrow> (NfcCommand \<times> 'n MfClassicPoller \<times> 'a) option" where
  "keep_context a = map_option (\<lambda>(command, p). (command, p, a))"

text \<open>The table of handlers. The states of the dictionary attacks go to the argument \<open>attack\<close>.\<close>

definition mf_classic_poller_dict_attack_handler ::
    "('n MfClassicPoller \<Rightarrow> 'a \<Rightarrow> (NfcCommand \<times> 'n MfClassicPoller \<times> 'a) option) \<Rightarrow>
     'n nfc_driver \<Rightarrow> bytes \<Rightarrow> 'a poller_callback \<Rightarrow> 'n MfClassicPoller \<Rightarrow> 'a \<Rightarrow> (NfcCommand \<times> 'n MfClassicPoller \<times> 'a) option" where
  "mf_classic_poller_dict_attack_handler attack drv random callback p a = (case mp_state p of
     MfClassicPollerStateDetectType \<Rightarrow> keep_context a (mf_classic_poller_handler_detect_type drv p)
   | MfClassicPollerStateStart \<Rightarrow> mf_classic_poller_handler_start callback p a
   | MfClassicPollerStateRequestSectorTrailer \<Rightarrow> mf_classic_poller_handler_request_sector_trailer callback p a
   | MfClassicPollerStateCheckWriteConditions \<Rightarrow> keep_context a (mf_classic_handler_check_write_conditions p)
   | MfClassicPollerStateReadBlock \<Rightarrow> keep_context a (mf_classic_poller_handler_read_block drv random p)
   | MfClassicPollerStateWriteBlock \<Rightarrow> mf_classic_poller_handler_write_block drv random callback p a
   | MfClassicPollerStateWriteValueBlock \<Rightarrow> mf_classic_poller_handler_write_value_block drv random callback p a
   | MfClassicPollerStateRequestReadSector \<Rightarrow> mf_classic_poller_handler_request_read_sector callback p a
   | MfClassicPollerStateReadSectorBlocks \<Rightarrow> keep_context a (mf_classic_poller_handler_request_read_sector_blocks drv random p)
   | MfClassicPollerStateSuccess \<Rightarrow> mf_classic_poller_handler_success callback p a
   | MfClassicPollerStateFail \<Rightarrow> mf_classic_poller_handler_fail callback p a
   | _ \<Rightarrow> attack p a)"

definition mf_classic_poller_run ::
    "('n MfClassicPoller \<Rightarrow> 'a \<Rightarrow> (NfcCommand \<times> 'n MfClassicPoller \<times> 'a) option) \<Rightarrow>
     'n nfc_driver \<Rightarrow> bytes \<Rightarrow> 'a poller_callback \<Rightarrow> Iso14443_3aPollerEvent \<Rightarrow> 'n MfClassicPoller \<Rightarrow> 'a \<Rightarrow>
     (NfcCommand \<times> 'n MfClassicPoller \<times> 'a) option" where
  "mf_classic_poller_run attack drv random callback event p a = (case event of
     Iso14443_3aPollerEventTypeReady \<Rightarrow>
       let (p, a) = (if mp_card_state p = MfClassicCardStateLost then
             (p\<lparr>mp_card_state := MfClassicCardStateDetected\<rparr>, snd (snd (callback MfClassicPollerEventTypeCardDetected a)))
           else (p, a))
       in mf_classic_poller_dict_attack_handler attack drv random callback p a
   | Iso14443_3aPollerEventTypeError _ \<Rightarrow>
       if mp_card_state p = MfClassicCardStateDetected then
         let (command, _, a) = callback MfClassicPollerEventTypeCardLost a
         in Some (command, p\<lparr>mp_card_state := MfClassicCardStateLost\<rparr>, a)
       else Some (NfcCommandContinue, p, a))"

subsection \<open>The thread of the reader\<close>

text \<open>
  The callback that nfc\_poller.c gives to the thread of the radio: an event of the field goes to the ISO 14443-3 A
  poller, which activates the card when it is not active (after every halt of the card above all) and only then calls
  the poller above it, here \<open>run\<close>. Both pollers are one record, so the lower one is put into its place and taken out
  again. A request of the application to stop the session from outside is not made.
\<close>

definition nfc_poller_start_callback ::
    "'n nfc_driver \<Rightarrow>
     (Iso14443_3aPollerEvent \<Rightarrow> 'n MfClassicPoller \<Rightarrow> 'a \<Rightarrow> (NfcCommand \<times> 'n MfClassicPoller \<times> 'a) option) \<Rightarrow>
     'n MfClassicPoller \<Rightarrow> 'a \<Rightarrow> (NfcCommand \<times> 'n MfClassicPoller \<times> 'a) option" where
  "nfc_poller_start_callback drv run p a = do {
     (command, iso, p, a) \<leftarrow> iso14443_3a_poller_run drv (\<lambda>event iso (p, a). do {
         (command, p, a) \<leftarrow> run event (p\<lparr>mp_iso14443_3a_poller := iso\<rparr>) a;
         Some (command, mp_iso14443_3a_poller p, p, a)
       }) True (mp_iso14443_3a_poller p) (p, a);
     Some (command, p\<lparr>mp_iso14443_3a_poller := iso\<rparr>, a)
   }"

text \<open>
  The loop of the thread (lib/nfc/nfc.c): one event after the other until the callback says stop, at most \<open>n\<close> of them.
  When it asks for a reset the field is switched off and on, which is \<open>field_reset\<close>.
\<close>

primrec nfc_worker_poller ::
    "nat \<Rightarrow> ('p \<Rightarrow> 'p) \<Rightarrow> ('p \<Rightarrow> 'a \<Rightarrow> (NfcCommand \<times> 'p \<times> 'a) option) \<Rightarrow> 'p \<Rightarrow> 'a \<Rightarrow> ('p \<times> 'a) option" where
  "nfc_worker_poller 0 field_reset callback p a = None"
| "nfc_worker_poller (Suc n) field_reset callback p a = do {
     (command, p, a) \<leftarrow> callback p a;
     if command = NfcCommandStop then Some (p, a)
     else nfc_worker_poller n field_reset callback (if command = NfcCommandReset then field_reset p else p) a
   }"

lemma worker_goes_on:
  "callback p a = Some (NfcCommandContinue, p', a') \<Longrightarrow>
   nfc_worker_poller (Suc n) field_reset callback p a = nfc_worker_poller n field_reset callback p' a'"
  by simp

subsection \<open>Detection\<close>

definition mf_classic_poller_detect ::
    "'n nfc_driver \<Rightarrow> Iso14443_3aPollerEvent \<Rightarrow> 'n Iso14443_3aPoller \<Rightarrow> (bool \<times> 'n Iso14443_3aPoller) option" where
  "mf_classic_poller_detect drv event iso3_poller = do {
     tx \<leftarrow> bit_buffer_alloc 2;
     tx \<leftarrow> bit_buffer_copy_bytes tx [0x60, 0] 2;
     rx \<leftarrow> bit_buffer_alloc 4;
     if event = Iso14443_3aPollerEventTypeReady then do {
       (error, iso, rx) \<leftarrow> iso14443_3a_poller_send_standard_frame drv iso3_poller (Some tx) (Some rx);
       rx \<leftarrow> rx;
       Some (error = Iso14443_3aErrorWrongCrc \<and> bit_buffer_get_size_bytes rx = 4, iso)
     } else Some (False, iso3_poller)
   }"

end
