(* ===== verification/Mf_Classic_Session.thy ===== *)
theory Mf_Classic_Session
  imports Mf_Classic_Cipher Mf_Classic_Poller_Modes
begin

text \<open>
  The Mifare Classic reader against the Mifare Classic card that the firmware emulates: the frames of one are handed to
  the other. After an authentication with the right key a block reads as the card holds it, and what was written is read.
\<close>

subsection \<open>Frames as bytes\<close>

definition holds_bytes :: "nat \<Rightarrow> bytes \<Rightarrow> bit_buffer \<Rightarrow> bool" where
  "holds_bytes cap bs b \<longleftrightarrow> bb_ok b \<and> bb_size_bits b = 8 * length bs \<and> bb_bytes b = bs \<and> bb_capacity_bytes b = cap"

definition crypt :: "Crypto1 \<Rightarrow> bytes \<Rightarrow> bytes" where
  "crypt c bs = map (\<lambda>j. key_byte j c XOR bs ! j) [0..<length bs]"

lemma length_crypt [simp]: "length (crypt c bs) = length bs"
  by (simp add: crypt_def)

lemma crypt_Nil [simp]: "crypt c bs = [] \<longleftrightarrow> bs = []"
  by (simp add: crypt_def)

lemma crypt_crypt [simp]: "crypt c (crypt c bs) = bs"
  by (rule nth_equalityI) (simp_all add: crypt_def xor.assoc [symmetric])

lemma holds_size: "holds_bytes cap bs b \<Longrightarrow> bit_buffer_get_size_bytes b = length bs"
  by (simp add: holds_bytes_def bit_buffer_get_size_bytes_def)

lemma holds_nth: "holds_bytes cap bs b \<Longrightarrow> i < length bs \<Longrightarrow> bb_data b ! i = bs ! i"
  by (auto simp: holds_bytes_def bb_bytes_def bit_buffer_get_size_bytes_def)

lemma holds_get: "holds_bytes cap bs b \<Longrightarrow> i < length bs \<Longrightarrow> bit_buffer_get_byte b i = Some (bs ! i)"
  using holds_nth [of cap bs b i] by (auto simp: holds_bytes_def bit_buffer_get_byte_def rd_ok bb_ok_def)

lemma holdsI:
  assumes "bb_ok b" "bb_size_bits b = 8 * length bs" "bb_capacity_bytes b = cap" "\<And>i. i < length bs \<Longrightarrow> bb_data b ! i = bs ! i"
  shows "holds_bytes cap bs b"
proof -
  have "length (bb_bytes b) = length bs"
    using length_bb_bytes [OF assms(1)] assms(2) by (simp add: bit_buffer_get_size_bytes_def)
  then have "bb_bytes b = bs"
    by (intro nth_equalityI) (simp_all add: bb_bytes_def assms(4))
  with assms show ?thesis by (simp add: holds_bytes_def)
qed

lemma holds_length: "holds_bytes cap bs b \<Longrightarrow> length bs \<le> cap"
  using size_bytes_le [of b] holds_size [of cap bs b] by (simp add: holds_bytes_def)

lemma encrypt_bytes:
  assumes "holds_bytes cap bs b" "bs \<noteq> []" "bb_ok out" "length bs \<le> bb_capacity_bytes out"
  shows "\<exists>e. crypto1_encrypt c None b out = Some ((next_state ^^ length bs) c, e) \<and>
    holds_bytes (bb_capacity_bytes out) (crypt c bs) e"
proof -
  have b: "bb_ok b" "bb_size_bits b = 8 * length bs" using assms(1) by (simp_all add: holds_bytes_def)
  obtain e where e: "crypto1_encrypt c None b out = Some ((next_state ^^ length bs) c, e)" "bb_ok e" "bb_size_bits e = 8 * length bs"
    "\<forall>j < length bs. bb_data e ! j = key_byte j c XOR bb_data b ! j"
    using encrypt_frame [OF b _ assms(3,4)] assms(2) by blast
  have "bb_capacity_bytes e = bb_capacity_bytes out"
    using crypto1_encrypt_total [OF b(1) _ assms(3), of None c] b(2) assms(2,4) e(1) by (simp add: same_frame_def)
  then have "holds_bytes (bb_capacity_bytes out) (crypt c bs) e"
    using e holds_nth [OF assms(1)] by (intro holdsI) (simp_all add: crypt_def)
  with e(1) show ?thesis by blast
qed

lemma decrypt_bytes:
  assumes "holds_bytes cap bs b" "bs \<noteq> []" "bb_ok out" "length bs \<le> bb_capacity_bytes out"
  shows "\<exists>e. crypto1_decrypt c b out = Some ((next_state ^^ length bs) c, e) \<and>
    holds_bytes (bb_capacity_bytes out) (crypt c bs) e"
proof -
  have b: "bb_ok b" "bb_size_bits b = 8 * length bs" using assms(1) by (simp_all add: holds_bytes_def)
  obtain e where e: "crypto1_decrypt c b out = Some ((next_state ^^ length bs) c, e)" "bb_ok e" "bb_size_bits e = 8 * length bs"
    "\<forall>j < length bs. bb_data e ! j = key_byte j c XOR bb_data b ! j"
    using decrypt_frame [OF b _ assms(3,4)] assms(2) by blast
  have "bb_capacity_bytes e = bb_capacity_bytes out"
    using crypto1_decrypt_total [OF b(1) _ assms(3), of c] b(2) assms(2,4) e(1) by (simp add: same_frame_def)
  then have "holds_bytes (bb_capacity_bytes out) (crypt c bs) e"
    using e holds_nth [OF assms(1)] by (intro holdsI) (simp_all add: crypt_def)
  with e(1) show ?thesis by blast
qed

text \<open>A frame with its checksum.\<close>

definition sealed :: "bytes \<Rightarrow> bytes" where
  "sealed bs = bs @ iso14443.trailer Iso14443CrcTypeA bs"

lemma length_sealed [simp]: "length (sealed bs) = length bs + 2"
  by (simp only: sealed_def length_append iso14443.length_trailer)

lemma sealed_not_Nil [simp]: "sealed bs \<noteq> []"
proof
  assume "sealed bs = []"
  then have "length (sealed bs) = 0" by (simp only: list.size)
  then show False by simp
qed

lemma take_sealed: "take (length bs) (sealed bs) = bs"
  by (simp only: sealed_def append_eq_conv_conj [symmetric]) simp

lemma check_sealed:
  assumes "holds_bytes cap bs b" "length bs = n + 2" "0 < n"
  shows "iso14443_crc_check Iso14443CrcTypeA b = Some (bs = sealed (take n bs))"
proof -
  have ne: "take n bs \<noteq> []" using assms(2,3) by (cases bs) auto
  have "iso14443_crc_check Iso14443CrcTypeA b = Some (drop n bs = iso14443.trailer Iso14443CrcTypeA (take n bs))"
    by (rule iso14443.check_iff) (use assms ne in \<open>auto simp: holds_bytes_def\<close>)
  moreover have "(drop n bs = iso14443.trailer Iso14443CrcTypeA (take n bs)) = (bs = sealed (take n bs))"
    unfolding sealed_def by (metis append_take_drop_id same_append_eq)
  ultimately show ?thesis by simp
qed

lemma append_sealed:
  assumes "holds_bytes cap bs b" "bs \<noteq> []" "length bs + 2 \<le> cap"
  shows "\<exists>b'. iso14443_crc_append Iso14443CrcTypeA b = Some b' \<and> holds_bytes cap (sealed bs) b'"
proof -
  have b: "bb_ok b" "bb_size_bits b = 8 * length bs" "length bs + 2 \<le> bb_capacity_bytes b" "bb_bytes b = bs"
    using assms by (simp_all add: holds_bytes_def)
  obtain b' where b': "iso14443_crc_append Iso14443CrcTypeA b = Some b'" "bb_ok b'" "iso14443_crc_check Iso14443CrcTypeA b' = Some True"
    "bb_capacity_bytes b' = cap" "bb_size_bits b' = 8 * (length bs + 2)" "take (length bs) (bb_bytes b') = bs"
    using append_crc_ok [OF b(1,2) _ b(3), of Iso14443CrcTypeA] b(4) assms by (auto simp: holds_bytes_def)
  have len: "length (bb_bytes b') = length bs + 2"
    using length_bb_bytes [OF b'(2)] b'(5) by (simp add: bit_buffer_get_size_bytes_def)
  then have h: "holds_bytes cap (bb_bytes b') b'" using b' by (simp add: holds_bytes_def)
  have "bb_bytes b' = sealed bs"
    using check_sealed [OF h len] b'(3,6) assms(2) by simp
  with h b'(1) show ?thesis by simp
qed

lemma trim_sealed:
  assumes "holds_bytes cap (sealed bs) b" "bs \<noteq> []"
  shows "\<exists>b'. iso14443_crc_trim b = Some b' \<and> holds_bytes cap bs b'"
proof -
  have "2 < bit_buffer_get_size_bytes b" using assms holds_size [OF assms(1)] by (cases bs) auto
  then obtain b' where "iso14443_crc_trim b = Some b'" "bb_ok b'" "bb_bytes b' = take (bit_buffer_get_size_bytes b - 2) (bb_bytes b)"
    "bb_size_bits b' = 8 * (bit_buffer_get_size_bytes b - 2)" "bb_capacity_bytes b' = bb_capacity_bytes b"
    using crc_trim_ok [of b] assms(1) by (auto simp: holds_bytes_def)
  with assms(1) holds_size [OF assms(1)] show ?thesis by (auto simp: holds_bytes_def take_sealed)
qed

lemma copy_bytes_holds:
  "bb_ok b \<Longrightarrow> length bs = n \<Longrightarrow> n \<le> bb_capacity_bytes b \<Longrightarrow>
   \<exists>b'. bit_buffer_copy_bytes b bs n = Some b' \<and> holds_bytes (bb_capacity_bytes b) bs b'"
  using copy_bytes_ok [of b bs n] by (auto simp: holds_bytes_def)

lemma copy_holds:
  assumes "bb_ok b" "holds_bytes cap bs f" "length bs \<le> bb_capacity_bytes b"
  shows "\<exists>b'. bit_buffer_copy b f = Some b' \<and> holds_bytes (bb_capacity_bytes b) bs b'"
    and "\<exists>b'. bit_buffer_copy_bits b (bb_data f) (bb_size_bits f) = Some b' \<and> holds_bytes (bb_capacity_bytes b) bs b'"
proof -
  have n: "bit_buffer_get_size_bytes f = length bs" by (rule holds_size [OF assms(2)])
  have f: "bb_size_bits f = 8 * length bs" "take (length bs) (bb_data f) = bs" "length bs \<le> length (bb_data f)"
    using assms(2) n by (auto simp: holds_bytes_def bb_bytes_def bb_ok_def)
  have len: "length (bb_data b) = bb_capacity_bytes b" using assms(1) by (simp add: bb_ok_def)
  let ?b = "b\<lparr>bb_data := bs @ drop (length bs) (bb_data b), bb_size_bits := 8 * length bs\<rparr>"
  have "bb_ok ?b" using assms(1,3) by (simp add: bb_ok_def)
  then have h: "holds_bytes (bb_capacity_bytes b) bs ?b"
    by (rule holdsI) (simp_all add: nth_append)
  have "bit_buffer_copy b f = Some ?b"
    using n f len assms(3) by (simp add: bit_buffer_copy_def memcpy_ok)
  with h show "\<exists>b'. bit_buffer_copy b f = Some b' \<and> holds_bytes (bb_capacity_bytes b) bs b'" by blast
  have "bit_buffer_copy_bits b (bb_data f) (bb_size_bits f) = Some ?b"
    using n f len assms(3) by (simp add: bit_buffer_copy_bits_def memcpy_ok Let_def)
  with h show "\<exists>b'. bit_buffer_copy_bits b (bb_data f) (bb_size_bits f) = Some b' \<and> holds_bytes (bb_capacity_bytes b) bs b'" by blast
qed

lemma write_holds:
  assumes "holds_bytes cap bs b" "length dest = length bs"
  shows "bit_buffer_write_bytes b dest (length bs) = Some bs"
proof -
  have n: "bit_buffer_get_size_bytes b = length bs" by (rule holds_size [OF assms(1)])
  have d: "take (length bs) (bb_data b) = bs" "length bs \<le> length (bb_data b)"
    using assms(1) n by (auto simp: holds_bytes_def bb_bytes_def bb_ok_def)
  show ?thesis by (simp add: bit_buffer_write_bytes_def n memcpy_ok d assms(2))
qed

subsection \<open>The air\<close>

text \<open>The reader's driver hands a frame to the emulated card and takes the frame that the card sends, if any. Frames with
  the parity bits of the cipher reach the card unchanged, frames with a checksum go through its ISO 14443-3 A layer. The
  frames of the collision resolution are answered below that layer, from the UID, ATQA and SAK of the emulated card (as
  lib/nfc/nfc\_mock.c does), in every state of the card: the poller's first frame wakes halted cards too. The listener
  is told that it was selected, which changes nothing in the state of the card (\<open>selection_of_listener\<close>). The random
  numbers of the card are \<open>random\<close>.\<close>

definition card_of :: "MfClassicListener \<Rightarrow> 'n nfc_driver" where
  "card_of l = (let d = mfc_iso14443_3a_data (ml_data l)
     in card_driver (take (unat (i3_uid_len d)) (i3_uid d)) (i3_atqa d) (i3_sak d))"

lemma selection_of_listener:
  "iso14443_3a_listener_run (mf_classic_listener_run random) NfcEventTypeListenerActivated active l = Some (NfcCommandContinue, True, l)"
  by (simp add: iso14443_3a_listener_run_def)

definition air_answer ::
    "MfClassicListener \<Rightarrow> MfClassicListener option \<Rightarrow> bit_buffer \<Rightarrow> NfcError \<times> bit_buffer \<times> MfClassicListener" where
  "air_answer l r rx = (case r of
     None \<Rightarrow> (NfcErrorInternal, rx, l)
   | Some l' \<Rightarrow>
       if length (ml_sent l') = length (ml_sent l) then (NfcErrorTimeout, rx, l')
       else let f = (case last (ml_sent l') of
                iso14443_3a_listener_tx b \<Rightarrow> b | iso14443_3a_listener_tx_with_custom_parity b \<Rightarrow> b)
            in (case bit_buffer_copy_bits rx (bb_data f) (bb_size_bits f) of
                  None \<Rightarrow> (NfcErrorDataFormat, rx, l')
                | Some rx \<Rightarrow> (NfcErrorNone, rx, l')))"

definition air :: "bytes \<Rightarrow> MfClassicListener nfc_driver" where
  "air random = \<lparr>
     nfc_poller_trx = (\<lambda>l tx rx. if select_frame tx then nfc_poller_trx (card_of l) l tx rx
       else air_answer l (map_option (\<lambda>(_, _, l). l)
         (iso14443_3a_listener_run (mf_classic_listener_run random) (NfcEventTypeRxEnd tx) True l)) rx),
     nfc_trx_sens_req = (\<lambda>l. nfc_trx_sens_req (card_of l) l),
     nfc_trx_sdd_frame = (\<lambda>l. nfc_trx_sdd_frame (card_of l) l),
     nfc_trx_custom_parity = (\<lambda>l tx rx. air_answer l (map_option snd
       (mf_classic_listener_run random (Iso14443_3aListenerEventTypeReceivedData tx) l)) rx)\<rparr>"

lemma air_answer_keeps:
  assumes "bb_ok rx"
  shows "bb_ok (fst (snd (air_answer l r rx))) \<and> bb_capacity_bytes (fst (snd (air_answer l r rx))) = bb_capacity_bytes rx"
proof -
  have "bb_ok b' \<and> bb_capacity_bytes b' = bb_capacity_bytes rx" if "bit_buffer_copy_bits rx d n = Some b'" for d n b'
    using that copy_bits_keeps [OF assms that]
    by (auto simp: bit_buffer_copy_bits_def Let_def bind_eq_Some_conv split: if_splits)
  then show ?thesis using assms by (auto simp: air_answer_def Let_def split: option.split)
qed

lemma air_driver_ok: "driver_ok (air random)"
proof -
  have "driver_ok (card_of l :: MfClassicListener nfc_driver)" for l by (simp add: card_of_def card_driver_ok Let_def)
  then show ?thesis using air_answer_keeps by (simp add: driver_ok_def keeps_buffer_def air_def)
qed

lemma air_resolves:
  "d = mfc_iso14443_3a_data (ml_data l) \<Longrightarrow>
   resolves (air random) l (take (unat (i3_uid_len d)) (i3_uid d)) (i3_atqa d) (i3_sak d)"
  by (simp add: resolves_def air_def card_of_def Let_def)

lemma not_select: "holds_bytes cap bs b \<Longrightarrow> length bs \<noteq> 9 \<Longrightarrow> \<not> select_frame b"
  by (simp add: holds_bytes_def select_frame_def)

abbreviation emulated :: "MfClassicListener MfClassicPoller \<Rightarrow> MfClassicListener" where
  "emulated p \<equiv> p3_nfc (mp_iso14443_3a_poller p)"

definition reader_ok :: "'n MfClassicPoller \<Rightarrow> bool" where
  "reader_ok p \<longleftrightarrow> (\<forall>b \<in> {mp_tx_plain_buffer p, mp_tx_encrypted_buffer p, mp_rx_plain_buffer p, mp_rx_encrypted_buffer p}.
       bb_ok b \<and> bb_capacity_bytes b = 64) \<and>
     bb_ok (p3_tx_buffer (mp_iso14443_3a_poller p)) \<and> 64 \<le> bb_capacity_bytes (p3_tx_buffer (mp_iso14443_3a_poller p)) \<and>
     bb_ok (p3_rx_buffer (mp_iso14443_3a_poller p)) \<and> 64 \<le> bb_capacity_bytes (p3_rx_buffer (mp_iso14443_3a_poller p))"

text \<open>Reader and card are linked when the card has authenticated the reader, both ciphers are in one state and the reader
  has the data of the selection of this card. A session is between two commands.\<close>

definition linked :: "MfClassicListener MfClassicPoller \<Rightarrow> bool" where
  "linked p \<longleftrightarrow> reader_ok p \<and> listener_ok (emulated p) \<and> ml_state (emulated p) = MfClassicListenerStateAuthComplete \<and>
     mp_crypto p = ml_crypto (emulated p) \<and> p3_data (mp_iso14443_3a_poller p) = mfc_iso14443_3a_data (ml_data (emulated p))"

definition in_session :: "MfClassicListener MfClassicPoller \<Rightarrow> bool" where
  "in_session p \<longleftrightarrow> linked p \<and> \<not> cmd_in_progress (emulated p)"

text \<open>What the card sees of an encrypted frame.\<close>

lemma card_decrypts:
  assumes l: "listener_static l" "ml_state l = MfClassicListenerStateAuthComplete"
      "ml_comm_state l = MfClassicListenerCommStateEncrypted"
    and e: "holds_bytes cap (crypt (ml_crypto l) (sealed bs)) e" "bs \<noteq> []" "length bs \<le> 62"
  shows "\<exists>rx. plain_frame e l = Some (rx, l\<lparr>ml_crypto := (next_state ^^ (length bs + 2)) (ml_crypto l), ml_rx_plain_buffer := rx\<rparr>) \<and>
    holds_bytes 64 bs rx"
proof -
  have ne: "crypt (ml_crypto l) (sealed bs) \<noteq> []" by simp
  have "bb_ok (ml_rx_plain_buffer l)" "bb_capacity_bytes (ml_rx_plain_buffer l) = 64" using l(1) by (auto simp: static_defs)
  then obtain d where d: "crypto1_decrypt (ml_crypto l) e (ml_rx_plain_buffer l) =
      Some ((next_state ^^ (length bs + 2)) (ml_crypto l), d)" "holds_bytes 64 (sealed bs) d"
    using decrypt_bytes [OF e(1) ne, of "ml_rx_plain_buffer l" "ml_crypto l"] e(3) by auto
  have "iso14443_crc_check Iso14443CrcTypeA d = Some True"
    using check_sealed [OF d(2), of "length bs"] e(2) by (simp add: take_sealed)
  moreover obtain r where "iso14443_crc_trim d = Some r" "holds_bytes 64 bs r" using trim_sealed [OF d(2) e(2)] by blast
  ultimately show ?thesis using l(2,3) d(1) by (auto simp: plain_frame_def)
qed

text \<open>A command of the reader in a session: the card handles the plain bytes.\<close>

lemma command_reaches_card:
  assumes p: "linked p" and cmd: "length cmd = n" "0 < n" "n \<le> 16"
  shows "\<exists>tx e rx. exchange_command (air random) cmd n p = Some (trx_encrypted (air random)
        (p\<lparr>mp_tx_plain_buffer := tx, mp_crypto := (next_state ^^ (n + 2)) (mp_crypto p), mp_tx_encrypted_buffer := e\<rparr>)) \<and>
      holds_bytes 64 (sealed cmd) tx \<and> bb_ok e \<and> bb_capacity_bytes e = 64 \<and>
      holds_bytes 64 cmd rx \<and>
      plain_frame e (emulated p) = Some (rx, (emulated p)\<lparr>ml_crypto := (next_state ^^ (n + 2)) (mp_crypto p), ml_rx_plain_buffer := rx\<rparr>)"
proof -
  let ?l = "emulated p"
  have buf: "bb_ok (mp_tx_plain_buffer p)" "bb_capacity_bytes (mp_tx_plain_buffer p) = 64"
    "bb_ok (mp_tx_encrypted_buffer p)" "bb_capacity_bytes (mp_tx_encrypted_buffer p) = 64"
    using p by (simp_all add: linked_def reader_ok_def)
  have l: "listener_static ?l" "ml_state ?l = MfClassicListenerStateAuthComplete"
    "ml_comm_state ?l = MfClassicListenerCommStateEncrypted" "ml_crypto ?l = mp_crypto p"
    using p by (simp_all add: linked_def listener_ok_def progress_ok_def)
  have ne: "cmd \<noteq> []" using cmd by auto
  obtain t1 where t1: "bit_buffer_copy_bytes (mp_tx_plain_buffer p) cmd n = Some t1" "holds_bytes 64 cmd t1"
    using copy_bytes_holds [OF buf(1) cmd(1)] buf(2) cmd(3) by auto
  obtain t2 where t2: "iso14443_crc_append Iso14443CrcTypeA t1 = Some t2" "holds_bytes 64 (sealed cmd) t2"
    using append_sealed [OF t1(2) ne] cmd by auto
  have "sealed cmd \<noteq> []" by simp
  then obtain e where e: "crypto1_encrypt (mp_crypto p) None t2 (mp_tx_encrypted_buffer p) = Some ((next_state ^^ (n + 2)) (mp_crypto p), e)"
    "holds_bytes 64 (crypt (mp_crypto p) (sealed cmd)) e"
    using encrypt_bytes [OF t2(2) _ buf(3), of "mp_crypto p"] buf(4) cmd by auto
  obtain rx where rx: "plain_frame e ?l = Some (rx, ?l\<lparr>ml_crypto := (next_state ^^ (n + 2)) (mp_crypto p), ml_rx_plain_buffer := rx\<rparr>)"
    "holds_bytes 64 cmd rx"
    using card_decrypts [OF l(1-3) _ ne, of 64 e] e(2) l(4) cmd by auto
  have "exchange_command (air random) cmd n p = Some (trx_encrypted (air random)
      (p\<lparr>mp_tx_plain_buffer := t2, mp_crypto := (next_state ^^ (n + 2)) (mp_crypto p), mp_tx_encrypted_buffer := e\<rparr>))"
    using t1(1) t2(1) e(1) by (simp add: exchange_command_def encrypt_tx_def)
  moreover have "bb_ok e" "bb_capacity_bytes e = 64" using e(2) by (simp_all add: holds_bytes_def)
  ultimately show ?thesis using t2(2) rx by blast
qed

subsection \<open>Answers of the card\<close>

fun frame_of :: "listener_tx \<Rightarrow> bit_buffer" where
  "frame_of (iso14443_3a_listener_tx b) = b"
| "frame_of (iso14443_3a_listener_tx_with_custom_parity b) = b"

lemma air_answer_frame:
  assumes "ml_sent l' = ml_sent l @ [f]" "bit_buffer_copy_bits rx (bb_data (frame_of f)) (bb_size_bits (frame_of f)) = Some rx'"
  shows "air_answer l (Some l') rx = (NfcErrorNone, rx', l')"
  using assms by (cases f) (simp_all add: air_answer_def)

lemma air_answer_silent: "ml_sent l' = ml_sent l \<Longrightarrow> air_answer l (Some l') rx = (NfcErrorTimeout, rx, l')"
  by (simp add: air_answer_def)

lemma trx_air:
  assumes run: "mf_classic_listener_run random (Iso14443_3aListenerEventTypeReceivedData (mp_tx_encrypted_buffer p)) (emulated p) =
      Some (nc, l')" "ml_sent l' = ml_sent (emulated p) @ [f]"
    and rx: "bit_buffer_copy_bits (mp_rx_encrypted_buffer p) (bb_data (frame_of f)) (bb_size_bits (frame_of f)) = Some rx'"
  shows "trx_encrypted (air random) p = (Iso14443_3aErrorNone,
    p\<lparr>mp_iso14443_3a_poller := (mp_iso14443_3a_poller p)\<lparr>p3_nfc := l'\<rparr>, mp_rx_encrypted_buffer := rx'\<rparr>)"
  using run(1) air_answer_frame [OF run(2) rx]
  by (simp add: trx_encrypted_def iso14443_3a_poller_txrx_custom_parity_def air_def iso14443_3a_poller_process_error_def)

lemma trx_air_silent:
  assumes "mf_classic_listener_run random (Iso14443_3aListenerEventTypeReceivedData (mp_tx_encrypted_buffer p)) (emulated p) =
      Some (nc, l')" "ml_sent l' = ml_sent (emulated p)"
  shows "trx_encrypted (air random) p = (Iso14443_3aErrorTimeout,
    p\<lparr>mp_iso14443_3a_poller := (mp_iso14443_3a_poller p)\<lparr>p3_nfc := l'\<rparr>\<rparr>)"
  using assms(1) air_answer_silent [OF assms(2)]
  by (simp add: trx_encrypted_def iso14443_3a_poller_txrx_custom_parity_def air_def iso14443_3a_poller_process_error_def)

subsection \<open>Reading a block\<close>

lemma run_data: "plain_frame e l = Some (rx, m) \<Longrightarrow> \<not> cmd_in_progress m \<Longrightarrow>
  find_command mf_classic_listener_cmd_handlers 0 random rx m = Some (cmd, k) \<Longrightarrow>
  mf_classic_listener_run random (Iso14443_3aListenerEventTypeReceivedData e) l = answer_command cmd k"
  by (simp add: mf_classic_listener_run_def listener_receive_def)

lemma find_command_at:
  assumes "bb_size_bits rx = 16" "bit_buffer_get_byte rx 0 = Some b"
  shows "b = 0x30 \<Longrightarrow> find_command mf_classic_listener_cmd_handlers 0 random rx l =
      mf_classic_listener_read_block_handler random rx (l\<lparr>current_cmd_idx := 4, current_cmd_handler_idx := 0\<rparr>)"
    and "b = 0xA0 \<Longrightarrow> find_command mf_classic_listener_cmd_handlers 0 random rx l =
      mf_classic_listener_write_block_first_part_handler random rx (l\<lparr>current_cmd_idx := 5, current_cmd_handler_idx := 0\<rparr>)"
    and "b = 0x60 \<Longrightarrow> find_command mf_classic_listener_cmd_handlers 0 random rx l =
      mf_classic_listener_auth_key_a_handler random rx (l\<lparr>current_cmd_idx := 2, current_cmd_handler_idx := 0\<rparr>)"
    and "b = 0x61 \<Longrightarrow> find_command mf_classic_listener_cmd_handlers 0 random rx l =
      mf_classic_listener_auth_key_b_handler random rx (l\<lparr>current_cmd_idx := 3, current_cmd_handler_idx := 0\<rparr>)"
  using assms by (simp_all add: mf_classic_listener_cmd_handlers_def bit_buffer_get_size_def rd_def)

text \<open>The part of the card that a reading does not touch.\<close>

definition same_card :: "MfClassicListener \<Rightarrow> MfClassicListener \<Rightarrow> bool" where
  "same_card l l' \<longleftrightarrow> ml_data l' = ml_data l \<and> ac_block_num (ml_auth_context l') = ac_block_num (ml_auth_context l) \<and>
     ac_key_type (ml_auth_context l') = ac_key_type (ml_auth_context l) \<and> total_block_num l' = total_block_num l"

text \<open>The part of the reader that a command does not touch; only the halt changes the state of the lower poller.\<close>

definition same_context :: "'n MfClassicPoller \<Rightarrow> 'n MfClassicPoller \<Rightarrow> bool" where
  "same_context p p' \<longleftrightarrow> mp_state p' = mp_state p \<and> mp_card_state p' = mp_card_state p \<and> read_ctx p' = read_ctx p \<and>
     write_ctx p' = write_ctx p \<and> mp_sectors_total p' = mp_sectors_total p \<and> mp_mode p' = mp_mode p"

definition same_mode :: "'n MfClassicPoller \<Rightarrow> 'n MfClassicPoller \<Rightarrow> bool" where
  "same_mode p p' \<longleftrightarrow> same_context p p' \<and>
     p3_state (mp_iso14443_3a_poller p') = p3_state (mp_iso14443_3a_poller p)"

lemmas mode_defs = same_mode_def same_context_def

lemma linked_data: "linked p \<Longrightarrow> p3_data (mp_iso14443_3a_poller p) = mfc_iso14443_3a_data (ml_data (emulated p))"
  by (simp add: linked_def)

lemma readable_same: "same_card l l' \<Longrightarrow> readable_block l' n b = readable_block l n b \<and> in_auth_sector l' n = in_auth_sector l n \<and>
    allowed l' n a = allowed l n a"
  by (simp add: same_card_def readable_block_def allowed_def in_auth_sector_def)

lemma read_in_session:
  assumes p: "in_session p" and n: "in_auth_sector (emulated p) n"
    and bs: "readable_block (emulated p) n (mfc_block (ml_data (emulated p)) ! unat n) = Some (Some bs)" "length bs = 16"
    and buf: "length buf = 16"
  shows "\<exists>p'. mf_classic_poller_read_block (air random) p n buf = Some (MfClassicErrorNone, p', bs) \<and> in_session p' \<and>
    same_card (emulated p) (emulated p') \<and> same_mode p p' \<and> mp_data p' = mp_data p"
proof -
  let ?l = "emulated p" and ?c = "(next_state ^^ 4) (mp_crypto p)"
  have l: "listener_ok ?l" "listener_static ?l" "progress_ok ?l" "ml_state ?l = MfClassicListenerStateAuthComplete" "\<not> cmd_in_progress ?l"
    and ok: "reader_ok p" and lk: "linked p"
    using p by (simp_all add: in_session_def linked_def listener_ok_def)
  obtain tx e rx where ex: "exchange_command (air random) [0x30, n] 2 p = Some (trx_encrypted (air random)
        (p\<lparr>mp_tx_plain_buffer := tx, mp_crypto := ?c, mp_tx_encrypted_buffer := e\<rparr>))"
      "holds_bytes 64 (sealed [0x30, n]) tx" "bb_ok e" "bb_capacity_bytes e = 64" "holds_bytes 64 [0x30, n] rx"
      "plain_frame e ?l = Some (rx, ?l\<lparr>ml_crypto := ?c, ml_rx_plain_buffer := rx\<rparr>)"
    using command_reaches_card [OF lk, of "[0x30, n]" 2 random] by auto
  let ?q = "p\<lparr>mp_tx_plain_buffer := tx, mp_crypto := ?c, mp_tx_encrypted_buffer := e\<rparr>"
  let ?m = "?l\<lparr>ml_crypto := ?c, ml_rx_plain_buffer := rx, current_cmd_idx := 4, current_cmd_handler_idx := 0\<rparr>"
  have rx: "bb_ok rx" "bb_capacity_bytes rx = 64" "bb_size_bits rx = 16" "bit_buffer_get_byte rx 0 = Some 0x30"
    "bit_buffer_get_byte rx 1 = Some n"
    using ex(5) holds_get [OF ex(5), of 0] holds_get [OF ex(5), of 1] by (simp_all add: holds_bytes_def)
  have m: "listener_static ?m" using l(2) rx by (simp add: static_defs)
  have sm: "same_card ?l ?m" by (simp add: same_card_def)
  obtain pl c e' where ans: "mf_classic_listener_read_block_handler random rx ?m = Some (MfClassicListenerCommandProcessed,
      ?m\<lparr>ml_tx_plain_buffer := pl, ml_crypto := c, ml_tx_encrypted_buffer := e',
        ml_sent := ml_sent ?m @ [iso14443_3a_listener_tx_with_custom_parity e']\<rparr>)"
    "bb_ok pl" "bb_capacity_bytes pl = 64" "bb_ok e'" "bb_capacity_bytes e' = 64"
    "crypto1_encrypt ?c None pl (ml_tx_encrypted_buffer ?l) = Some (c, e')"
    "iso14443_crc_check Iso14443CrcTypeA pl = Some True" "take 16 (bb_bytes pl) = bs" "bb_size_bits pl = 144"
    using read_block_answer [OF m _ rx(5) _ _ bs(2), of random] l(4) n bs(1) readable_same [OF sm] by auto
  have lpl: "length (bb_bytes pl) = 18" using length_bb_bytes [OF ans(2)] ans(9) by (simp add: bit_buffer_get_size_bytes_def)
  then have hpl: "holds_bytes 64 (bb_bytes pl) pl" using ans(2,3,9) by (simp add: holds_bytes_def)
  have pls: "bb_bytes pl = sealed bs" using check_sealed [OF hpl, of 16] lpl ans(7,8) by simp
  have enc: "bb_ok (ml_tx_encrypted_buffer ?l)" "bb_capacity_bytes (ml_tx_encrypted_buffer ?l) = 64"
    using l(2) by (auto simp: static_defs)
  have c: "c = (next_state ^^ 18) ?c" and e': "holds_bytes 64 (crypt ?c (sealed bs)) e'"
    using encrypt_bytes [OF hpl _ enc(1), of ?c] enc(2) lpl ans(6) bs(2) pls by auto
  let ?k = "?m\<lparr>ml_tx_plain_buffer := pl, ml_crypto := c, ml_tx_encrypted_buffer := e',
        ml_sent := ml_sent ?m @ [iso14443_3a_listener_tx_with_custom_parity e']\<rparr>"
  have run: "mf_classic_listener_run random (Iso14443_3aListenerEventTypeReceivedData (mp_tx_encrypted_buffer ?q)) (emulated ?q) =
      Some (NfcCommandContinue, ?k)"
    using run_data [OF ex(6), of random MfClassicListenerCommandProcessed ?k] find_command_at(1) [OF rx(3,4)] ans(1) l(5)
    by (simp add: answer_command_def)
  have k: "listener_ok ?k" using l(3) m ans(2-5) by (simp add: listener_ok_def static_defs progress_ok_def l(4,5))
  have rxe: "bb_ok (mp_rx_encrypted_buffer p)" "bb_capacity_bytes (mp_rx_encrypted_buffer p) = 64"
    "bb_ok (mp_rx_plain_buffer p)" "bb_capacity_bytes (mp_rx_plain_buffer p) = 64"
    using ok by (simp_all add: reader_ok_def)
  obtain r where r: "bit_buffer_copy_bits (mp_rx_encrypted_buffer ?q) (bb_data e') (bb_size_bits e') = Some r"
    "holds_bytes 64 (crypt ?c (sealed bs)) r"
    using copy_holds(2) [OF rxe(1) e'] rxe(2) bs(2) by auto
  have trx: "trx_encrypted (air random) ?q = (Iso14443_3aErrorNone,
      ?q\<lparr>mp_iso14443_3a_poller := (mp_iso14443_3a_poller ?q)\<lparr>p3_nfc := ?k\<rparr>, mp_rx_encrypted_buffer := r\<rparr>)"
    by (rule trx_air [OF run, of "iso14443_3a_listener_tx_with_custom_parity e'"]) (use r(1) in simp_all)
  let ?p1 = "?q\<lparr>mp_iso14443_3a_poller := (mp_iso14443_3a_poller ?q)\<lparr>p3_nfc := ?k\<rparr>, mp_rx_encrypted_buffer := r\<rparr>"
  obtain d where d: "crypto1_decrypt ?c r (mp_rx_plain_buffer p) = Some (c, d)" "holds_bytes 64 (sealed bs) d"
    using decrypt_bytes [OF r(2) _ rxe(3), of ?c] rxe(4) bs(2) c by auto
  have "bs \<noteq> []" using bs(2) by auto
  then obtain t where t: "iso14443_crc_trim d = Some t" "holds_bytes 64 bs t" using trim_sealed [OF d(2)] by blast
  let ?p2 = "?p1\<lparr>mp_crypto := c, mp_rx_plain_buffer := t\<rparr>"
  have "mf_classic_poller_read_block (air random) p n buf = Some (MfClassicErrorNone, ?p2, bs)"
    using ex(1) trx holds_size [OF r(2)] bs(2) d(1) check_sealed [OF d(2), of 16] t(1) write_holds [OF t(2), of buf] buf
    by (simp add: mf_classic_poller_read_block_def decrypt_rx_def take_sealed [of bs, unfolded bs(2)])
  moreover have "in_session ?p2"
    using ok k l(4,5) ex(2-4) r(2) t(2) linked_data [OF lk] by (auto simp: in_session_def linked_def reader_ok_def holds_bytes_def)
  moreover have "same_card ?l (emulated ?p2)" "same_mode p ?p2" "mp_data ?p2 = mp_data p" by (simp_all add: same_card_def mode_defs)
  ultimately show ?thesis by blast
qed

subsection \<open>Commands that the card acknowledges\<close>

definition dispatch :: "bytes \<Rightarrow> bit_buffer \<Rightarrow> MfClassicListener \<Rightarrow> (MfClassicListenerCommand \<times> MfClassicListener) option" where
  "dispatch random rx l =
     (if cmd_in_progress l then do {
        cmd \<leftarrow> rd mf_classic_listener_cmd_handlers (current_cmd_idx l);
        handler \<leftarrow> rd (cmd_handlers cmd) (current_cmd_handler_idx l);
        handler random rx l
      } else find_command mf_classic_listener_cmd_handlers 0 random rx l)"

lemma run_dispatch: "plain_frame e l = Some (rx, m) \<Longrightarrow> dispatch random rx m = Some (cmd, k) \<Longrightarrow>
  mf_classic_listener_run random (Iso14443_3aListenerEventTypeReceivedData e) l = answer_command cmd k"
  by (simp add: mf_classic_listener_run_def listener_receive_def dispatch_def)

text \<open>The short frame with four bits of \<open>x\<close>, encrypted.\<close>

definition short_crypt :: "Crypto1 \<Rightarrow> u8 \<Rightarrow> bit_buffer \<Rightarrow> bool" where
  "short_crypt c x e \<longleftrightarrow> bb_ok e \<and> bb_size_bits e = 4 \<and>
     (\<forall>i < 8. bit (bb_data e ! 0) i = (i < 4 \<and> (bit x i \<noteq> cipher_bit (cipher_at (\<lambda>_. False) False c i))))"

abbreviation short_state :: "Crypto1 \<Rightarrow> Crypto1" where
  "short_state c \<equiv> cipher_at (\<lambda>_. False) False c 4"

lemma card_acknowledges:
  assumes l: "listener_ok l" "ml_comm_state l = MfClassicListenerCommStateEncrypted"
  shows "\<exists>t e. answer_command MfClassicListenerCommandAck l = Some (NfcCommandContinue, l\<lparr>ml_tx_plain_buffer := t,
      ml_crypto := short_state (ml_crypto l), ml_tx_encrypted_buffer := e,
      ml_sent := ml_sent l @ [iso14443_3a_listener_tx_with_custom_parity e]\<rparr>) \<and>
    bb_ok t \<and> bb_capacity_bytes t = 64 \<and> bb_capacity_bytes e = 64 \<and> short_crypt (ml_crypto l) 0x0A e"
proof -
  let ?b = "(ml_tx_plain_buffer l)\<lparr>bb_size_bits := 4\<rparr>"
  have buf: "bb_ok ?b" "bb_capacity_bytes ?b = 64" "bit_buffer_get_size_bytes ?b = 1" "0 < length (bb_data ?b)"
    and e: "bb_ok (ml_tx_encrypted_buffer l)" "bb_capacity_bytes (ml_tx_encrypted_buffer l) = 64"
    using l(1) by (auto simp: listener_ok_def static_defs bb_ok_def bit_buffer_get_size_bytes_def)
  obtain t where t: "bit_buffer_set_byte ?b 0 0x0A = Some t" "bb_ok t" "bb_size_bits t = 4" "bb_capacity_bytes t = 64" "bb_data t ! 0 = 0x0A"
    using set_byte_ok [OF buf(1), of 0 "0x0A"] buf by auto
  obtain e' where e': "crypto1_encrypt (ml_crypto l) None t (ml_tx_encrypted_buffer l) = Some (short_state (ml_crypto l), e')"
    "same_frame 4 (ml_tx_encrypted_buffer l) e'"
    "\<forall>i < 8. bit (bb_data e' ! 0) i = (i < 4 \<and> (bit (bb_data t ! 0) i \<noteq> cipher_bit (cipher_at (\<lambda>_. False) False (ml_crypto l) i)))"
    using short_frame [OF t(2,3) e(1), of "ml_crypto l"] e(2) by auto
  have "short_crypt (ml_crypto l) 0x0A e'" using e'(2,3) t(5) by (simp add: short_crypt_def same_frame_def)
  moreover have "bit_buffer_set_size (ml_tx_plain_buffer l) 4 = Some ?b" using buf(2) by (simp add: bit_buffer_set_size_def)
  ultimately have "answer_command MfClassicListenerCommandAck l = Some (NfcCommandContinue, l\<lparr>ml_tx_plain_buffer := t,
      ml_crypto := short_state (ml_crypto l), ml_tx_encrypted_buffer := e',
      ml_sent := ml_sent l @ [iso14443_3a_listener_tx_with_custom_parity e']\<rparr>)" "short_crypt (ml_crypto l) 0x0A e'"
    using l(2) t e'(1)
    by (simp_all add: answer_command_def mf_classic_listener_send_short_frame_def send_encrypted_def send_frame_def)
  moreover have "bb_capacity_bytes e' = 64" using e'(2) e(2) by (simp add: same_frame_def)
  ultimately show ?thesis using t(2,4) by blast
qed

lemma copy_short:
  assumes "bb_ok b" "0 < bb_capacity_bytes b" "short_crypt c x e"
  shows "\<exists>r. bit_buffer_copy_bits b (bb_data e) (bb_size_bits e) = Some r \<and> short_crypt c x r \<and> bb_capacity_bytes r = bb_capacity_bytes b"
proof -
  have e: "bb_size_bits e = 4" "0 < length (bb_data e)" using assms(3) by (auto simp: short_crypt_def bb_ok_def)
  have b: "0 < length (bb_data b)" using assms(1,2) by (simp add: bb_ok_def)
  let ?r = "b\<lparr>bb_data := take 1 (bb_data e) @ drop 1 (bb_data b), bb_size_bits := 4\<rparr>"
  have "memcpy (bb_data b) 0 (bb_data e) 0 1 = Some (take 1 (bb_data e) @ drop 1 (bb_data b))"
    using e(2) b memcpy_ok [of 0 1 "bb_data b" 0 "bb_data e"] by (simp add: Suc_le_eq One_nat_def)
  then have "bit_buffer_copy_bits b (bb_data e) (bb_size_bits e) = Some ?r"
    using e assms(2) by (simp add: bit_buffer_copy_bits_def)
  moreover have "bb_ok ?r" using assms(1,2) e(2) b by (cases "bb_data e") (auto simp: bb_ok_def)
  moreover have "bb_data ?r ! 0 = bb_data e ! 0" using e(2) by (simp add: nth_append)
  ultimately show ?thesis using assms(3) by (simp add: short_crypt_def)
qed

lemma reader_sees_ack:
  assumes p: "reader_ok p" and e: "short_crypt (mp_crypto p) 0x0A (mp_rx_encrypted_buffer p)"
  shows "\<exists>d. check_ack p = Some (MfClassicErrorNone, p\<lparr>mp_crypto := short_state (mp_crypto p), mp_rx_plain_buffer := d\<rparr>) \<and>
    bb_ok d \<and> bb_capacity_bytes d = 64"
proof -
  have buf: "bb_ok (mp_rx_plain_buffer p)" "bb_capacity_bytes (mp_rx_plain_buffer p) = 64" using p by (simp_all add: reader_ok_def)
  have size: "bb_ok (mp_rx_encrypted_buffer p)" "bb_size_bits (mp_rx_encrypted_buffer p) = 4" using e by (simp_all add: short_crypt_def)
  obtain d where d: "crypto1_decrypt (mp_crypto p) (mp_rx_encrypted_buffer p) (mp_rx_plain_buffer p) = Some (short_state (mp_crypto p), d)"
    "same_frame 4 (mp_rx_plain_buffer p) d"
    "\<forall>i < 8. bit (bb_data d ! 0) i = (i < 4 \<and> (bit (bb_data (mp_rx_encrypted_buffer p) ! 0) i \<noteq>
        cipher_bit (cipher_at (\<lambda>_. False) False (mp_crypto p) i)))"
    using short_frame_decrypted [OF size buf(1), of "mp_crypto p"] buf(2) by auto
  have "bb_data d ! 0 = 0x0A"
  proof (rule bit_word_eqI)
    fix i assume "i < LENGTH(8)"
    then have i: "i < 8" by simp
    have hi: "bit (0x0A :: u8) i \<Longrightarrow> i < 4" using i by (cases "i < 4") (auto simp: bit_numeral_rec less_Suc_eq numeral_eq_Suc)
    show "bit (bb_data d ! 0) i = bit (0x0A :: u8) i"
      using d(3) e i hi by (auto simp: short_crypt_def)
  qed
  then have "bit_buffer_get_byte d 0 = Some 0x0A" using d(2) buf by (auto simp: same_frame_def bit_buffer_get_byte_def rd_ok bb_ok_def)
  with d(1) size(2) have "check_ack p = Some (MfClassicErrorNone, p\<lparr>mp_crypto := short_state (mp_crypto p), mp_rx_plain_buffer := d\<rparr>)"
    by (simp add: check_ack_def decrypt_rx_def bit_buffer_get_size_def)
  with d(2) buf(2) show ?thesis by (auto simp: same_frame_def)
qed

lemma progress_frame: "progress_ok (m\<lparr>ml_tx_plain_buffer := t, ml_crypto := c, ml_tx_encrypted_buffer := e, ml_sent := s\<rparr>) =
    progress_ok m"
  by (simp add: progress_ok_def in_auth_sector_def)

lemma acknowledged:
  assumes p: "linked p" and cmd: "length cmd = n" "0 < n" "n \<le> 16"
    and run: "\<And>rx. holds_bytes 64 cmd rx \<Longrightarrow> \<exists>m. dispatch random rx
        ((emulated p)\<lparr>ml_crypto := (next_state ^^ (n + 2)) (mp_crypto p), ml_rx_plain_buffer := rx\<rparr>) = Some (MfClassicListenerCommandAck, m) \<and>
      listener_ok m \<and> ml_state m = MfClassicListenerStateAuthComplete \<and> ml_sent m = ml_sent (emulated p) \<and>
      ml_crypto m = (next_state ^^ (n + 2)) (mp_crypto p) \<and>
      mfc_iso14443_3a_data (ml_data m) = mfc_iso14443_3a_data (ml_data (emulated p)) \<and> good m"
  shows "\<exists>p' m t c e s. exchange_acknowledged (air random) cmd n p = Some (MfClassicErrorNone, p') \<and> linked p' \<and> good m \<and>
    emulated p' = m\<lparr>ml_tx_plain_buffer := t, ml_crypto := c, ml_tx_encrypted_buffer := e, ml_sent := s\<rparr>"
proof -
  let ?K = "(next_state ^^ (n + 2)) (mp_crypto p)"
  have ok: "reader_ok p" using p by (simp add: linked_def)
  obtain tx e rx where ex: "exchange_command (air random) cmd n p = Some (trx_encrypted (air random)
        (p\<lparr>mp_tx_plain_buffer := tx, mp_crypto := ?K, mp_tx_encrypted_buffer := e\<rparr>))"
      "holds_bytes 64 (sealed cmd) tx" "bb_ok e" "bb_capacity_bytes e = 64" "holds_bytes 64 cmd rx"
      "plain_frame e (emulated p) = Some (rx, (emulated p)\<lparr>ml_crypto := ?K, ml_rx_plain_buffer := rx\<rparr>)"
    using command_reaches_card [OF p cmd, of random] by blast
  let ?q = "p\<lparr>mp_tx_plain_buffer := tx, mp_crypto := ?K, mp_tx_encrypted_buffer := e\<rparr>"
  obtain m where m: "dispatch random rx ((emulated p)\<lparr>ml_crypto := ?K, ml_rx_plain_buffer := rx\<rparr>) = Some (MfClassicListenerCommandAck, m)"
    "listener_ok m" "ml_state m = MfClassicListenerStateAuthComplete" "ml_sent m = ml_sent (emulated p)" "ml_crypto m = ?K"
    "mfc_iso14443_3a_data (ml_data m) = mfc_iso14443_3a_data (ml_data (emulated p))" "good m"
    using run [OF ex(5)] by blast
  have enc: "ml_comm_state m = MfClassicListenerCommStateEncrypted" using m(2,3) by (simp add: listener_ok_def progress_ok_def)
  obtain t a where a: "answer_command MfClassicListenerCommandAck m = Some (NfcCommandContinue, m\<lparr>ml_tx_plain_buffer := t,
      ml_crypto := short_state ?K, ml_tx_encrypted_buffer := a,
      ml_sent := ml_sent (emulated p) @ [iso14443_3a_listener_tx_with_custom_parity a]\<rparr>)"
    "bb_ok t" "bb_capacity_bytes t = 64" "bb_capacity_bytes a = 64" "short_crypt ?K 0x0A a"
    using card_acknowledges [OF m(2) enc] m(4,5) by auto
  let ?k = "m\<lparr>ml_tx_plain_buffer := t, ml_crypto := short_state ?K, ml_tx_encrypted_buffer := a,
      ml_sent := ml_sent (emulated p) @ [iso14443_3a_listener_tx_with_custom_parity a]\<rparr>"
  have runs: "mf_classic_listener_run random (Iso14443_3aListenerEventTypeReceivedData (mp_tx_encrypted_buffer ?q)) (emulated ?q) =
      Some (NfcCommandContinue, ?k)"
    using run_dispatch [OF ex(6) m(1)] a(1) by simp
  have rxe: "bb_ok (mp_rx_encrypted_buffer p)" "0 < bb_capacity_bytes (mp_rx_encrypted_buffer p)"
    using ok by (simp_all add: reader_ok_def)
  obtain r where r: "bit_buffer_copy_bits (mp_rx_encrypted_buffer ?q) (bb_data a) (bb_size_bits a) = Some r" "short_crypt ?K 0x0A r"
    "bb_capacity_bytes r = bb_capacity_bytes (mp_rx_encrypted_buffer p)"
    using copy_short [OF rxe a(5)] by auto
  let ?p1 = "?q\<lparr>mp_iso14443_3a_poller := (mp_iso14443_3a_poller ?q)\<lparr>p3_nfc := ?k\<rparr>, mp_rx_encrypted_buffer := r\<rparr>"
  have trx: "trx_encrypted (air random) ?q = (Iso14443_3aErrorNone, ?p1)"
    by (rule trx_air [OF runs, of "iso14443_3a_listener_tx_with_custom_parity a"]) (use r(1) in simp_all)
  have ok1: "reader_ok ?p1"
    using ok ex(2-4) r(2,3) by (auto simp: reader_ok_def holds_bytes_def short_crypt_def)
  obtain d where d: "check_ack ?p1 = Some (MfClassicErrorNone, ?p1\<lparr>mp_crypto := short_state ?K, mp_rx_plain_buffer := d\<rparr>)"
    "bb_ok d" "bb_capacity_bytes d = 64"
    using reader_sees_ack [OF ok1] r(2) by auto
  let ?p2 = "?p1\<lparr>mp_crypto := short_state ?K, mp_rx_plain_buffer := d\<rparr>"
  have "exchange_acknowledged (air random) cmd n p = Some (MfClassicErrorNone, ?p2)"
    using ex(1) trx d(1) by (simp add: exchange_acknowledged_def)
  moreover have "reader_ok ?p2" using ok1 d(2,3) by (simp add: reader_ok_def)
  moreover have "listener_ok ?k" using m(2) a(2-5) by (simp only: listener_ok_def progress_frame) (simp add: static_defs short_crypt_def)
  ultimately have "exchange_acknowledged (air random) cmd n p = Some (MfClassicErrorNone, ?p2)" "linked ?p2" "emulated ?p2 = ?k"
    using m(3,6) linked_data [OF p] by (simp_all add: linked_def)
  with m(7) show ?thesis by blast
qed

subsection \<open>Writing a block\<close>

text \<open>The card after a block was written.\<close>

definition written_card :: "nat \<Rightarrow> bytes \<Rightarrow> MfClassicListener \<Rightarrow> MfClassicListener \<Rightarrow> bool" where
  "written_card n bs l l' \<longleftrightarrow> ml_data l' = (ml_data l)\<lparr>mfc_block := (mfc_block (ml_data l))[n := bs]\<rparr> \<and>
     ac_block_num (ml_auth_context l') = ac_block_num (ml_auth_context l) \<and>
     ac_key_type (ml_auth_context l') = ac_key_type (ml_auth_context l)"

definition write_waits :: "u8 \<Rightarrow> MfClassicListener \<Rightarrow> MfClassicListener \<Rightarrow> bool" where
  "write_waits n l m \<longleftrightarrow> same_card l m \<and> write_block m = n \<and> cmd_in_progress m \<and> current_cmd_idx m = 5 \<and>
     current_cmd_handler_idx m = 1"

lemma write_begins:
  assumes p: "in_session p" and n: "n \<noteq> 0" "unat n < total_block_num (emulated p)" "in_auth_sector (emulated p) n"
  shows "\<exists>p'. exchange_acknowledged (air random) [0xA0, n] 2 p = Some (MfClassicErrorNone, p') \<and> linked p' \<and>
    write_waits n (emulated p) (emulated p')"
proof -
  let ?l = "emulated p" and ?K = "(next_state ^^ 4) (mp_crypto p)"
  have lk: "linked p" and l: "listener_ok ?l" "ml_state ?l = MfClassicListenerStateAuthComplete" "\<not> cmd_in_progress ?l"
    using p by (simp_all add: in_session_def linked_def)
  have "\<exists>m. dispatch random rx (?l\<lparr>ml_crypto := (next_state ^^ (2 + 2)) (mp_crypto p), ml_rx_plain_buffer := rx\<rparr>) =
        Some (MfClassicListenerCommandAck, m) \<and>
      listener_ok m \<and> ml_state m = MfClassicListenerStateAuthComplete \<and> ml_sent m = ml_sent ?l \<and>
      ml_crypto m = (next_state ^^ (2 + 2)) (mp_crypto p) \<and>
      mfc_iso14443_3a_data (ml_data m) = mfc_iso14443_3a_data (ml_data ?l) \<and> write_waits n ?l m" if rx: "holds_bytes 64 [0xA0, n] rx" for rx
  proof -
    have b: "bb_ok rx" "bb_capacity_bytes rx = 64" "bb_size_bits rx = 16" "bit_buffer_get_byte rx 0 = Some 0xA0" "bit_buffer_get_byte rx 1 = Some n"
      using rx holds_get [OF rx, of 0] holds_get [OF rx, of 1] by (simp_all add: holds_bytes_def)
    let ?m = "next_handler (?l\<lparr>ml_crypto := ?K, ml_rx_plain_buffer := rx, current_cmd_idx := 5, current_cmd_handler_idx := 0, write_block := n\<rparr>)"
    have "dispatch random rx (?l\<lparr>ml_crypto := ?K, ml_rx_plain_buffer := rx\<rparr>) = Some (MfClassicListenerCommandAck, ?m)"
      using l b(5) n find_command_at(2) [OF b(3,4)]
      by (simp add: dispatch_def mf_classic_listener_write_block_first_part_handler_def in_auth_sector_def)
    moreover have "listener_ok ?m"
      using l n b(1,2) by (simp add: listener_ok_def static_defs progress_ok_def next_handler_def in_auth_sector_def)
    ultimately show ?thesis
      using l(2) by (intro exI [of _ ?m]) (simp add: next_handler_def write_waits_def same_card_def)
  qed
  then obtain p' m t c e s where "exchange_acknowledged (air random) [0xA0, n] 2 p = Some (MfClassicErrorNone, p')" "linked p'"
    "write_waits n ?l m" "emulated p' = m\<lparr>ml_tx_plain_buffer := t, ml_crypto := c, ml_tx_encrypted_buffer := e, ml_sent := s\<rparr>"
    using acknowledged [OF lk, of "[0xA0, n]" 2 random "write_waits n ?l"] by auto
  then show ?thesis by (intro exI [of _ p']) (simp add: write_waits_def same_card_def)
qed

lemma write_ends:
  assumes p: "linked p" "write_waits n l (emulated p)" and bs: "length bs = 16"
    and n: "\<not> mf_classic_is_sector_trailer n" "allowed (emulated p) n MfClassicActionDataWrite = Some True"
  shows "\<exists>p'. exchange_acknowledged (air random) bs 16 p = Some (MfClassicErrorNone, p') \<and> in_session p' \<and>
    written_card (unat n) bs (emulated p) (emulated p')"
proof -
  let ?l = "emulated p" and ?K = "(next_state ^^ 18) (mp_crypto p)"
  have l: "listener_ok ?l" "listener_static ?l" "ml_state ?l = MfClassicListenerStateAuthComplete"
    "ml_comm_state ?l = MfClassicListenerCommStateEncrypted"
    using p(1) by (simp_all add: linked_def) (simp_all add: listener_ok_def progress_ok_def)
  have w: "cmd_in_progress ?l" "current_cmd_idx ?l = 5" "current_cmd_handler_idx ?l = 1" "write_block ?l = n"
    using p(2) by (simp_all add: write_waits_def)
  let ?good = "\<lambda>m. written_card (unat n) bs ?l m \<and> \<not> cmd_in_progress m"
  have "\<exists>m. dispatch random rx (?l\<lparr>ml_crypto := (next_state ^^ (16 + 2)) (mp_crypto p), ml_rx_plain_buffer := rx\<rparr>) =
        Some (MfClassicListenerCommandAck, m) \<and>
      listener_ok m \<and> ml_state m = MfClassicListenerStateAuthComplete \<and> ml_sent m = ml_sent ?l \<and>
      ml_crypto m = (next_state ^^ (16 + 2)) (mp_crypto p) \<and>
      mfc_iso14443_3a_data (ml_data m) = mfc_iso14443_3a_data (ml_data ?l) \<and> ?good m" if rx: "holds_bytes 64 bs rx" for rx
  proof -
    let ?m = "?l\<lparr>ml_crypto := ?K, ml_rx_plain_buffer := rx\<rparr>" and ?w = "?l\<lparr>ml_crypto := ?K, ml_rx_plain_buffer := rx, cmd_in_progress := False\<rparr>"
    have b: "bb_ok rx" "bb_capacity_bytes rx = 64" "bit_buffer_get_size_bytes rx = 16" "bb_bytes rx = bs"
      using rx holds_size [OF rx] bs by (simp_all add: holds_bytes_def)
    have st: "listener_static ?w" using l(2) b(1,2) by (simp add: static_defs)
    let ?block = "mfc_block (ml_data ?l) ! unat n"
    have rd: "rd (mfc_block (ml_data ?l)) (unat n) = Some ?block" "length ?block = 16"
      using auth_block_rd [OF l(2), of n] by simp_all
    have "writable_block ?w n rx ?block = Some (Some bs)"
      using n write_mid_ok [OF b(1), of 0 16 ?block] b(3,4) rd(2) bs by (simp add: writable_block_def allowed_def)
    moreover obtain m where m: "set_block (unat n) bs ?w = Some m" "listener_static m"
      "m = ?w\<lparr>ml_data := (ml_data ?l)\<lparr>mfc_block := (mfc_block (ml_data ?l))[unat n := bs]\<rparr>\<rparr>"
      using set_block_ok [OF st bs, of n] by auto
    ultimately have "dispatch random rx ?m = Some (MfClassicListenerCommandAck, m)"
      using w rd(1) b(3) by (simp add: dispatch_def later_handlers mf_classic_listener_write_block_second_part_handler_def)
    moreover have "listener_ok m" using m(2) l(3,4) by (simp add: listener_ok_def m(3) progress_ok_def)
    ultimately show ?thesis using l(3) by (intro exI [of _ m]) (simp add: m(3) written_card_def)
  qed
  then obtain p' m t c e s where "exchange_acknowledged (air random) bs 16 p = Some (MfClassicErrorNone, p')" "linked p'"
    "?good m" "emulated p' = m\<lparr>ml_tx_plain_buffer := t, ml_crypto := c, ml_tx_encrypted_buffer := e, ml_sent := s\<rparr>"
    using acknowledged [OF p(1) bs, of random ?good] by auto
  then show ?thesis by (intro exI [of _ p']) (simp add: in_session_def written_card_def)
qed

lemma write_in_session:
  assumes p: "in_session p" and n: "n \<noteq> 0" "unat n < total_block_num (emulated p)" "in_auth_sector (emulated p) n"
    "\<not> mf_classic_is_sector_trailer n" "allowed (emulated p) n MfClassicActionDataWrite = Some True" and bs: "length bs = 16"
  shows "\<exists>p'. mf_classic_poller_write_block (air random) p n bs = Some (MfClassicErrorNone, p') \<and> in_session p' \<and>
    written_card (unat n) bs (emulated p) (emulated p')"
proof -
  obtain p1 where p1: "exchange_acknowledged (air random) [0xA0, n] 2 p = Some (MfClassicErrorNone, p1)" "linked p1"
    "write_waits n (emulated p) (emulated p1)"
    using write_begins [OF p n(1-3)] by blast
  have same: "same_card (emulated p) (emulated p1)" using p1(3) by (simp add: write_waits_def)
  then have "allowed (emulated p1) n MfClassicActionDataWrite = Some True" using n(5) readable_same by simp
  then obtain p2 where p2: "exchange_acknowledged (air random) bs 16 p1 = Some (MfClassicErrorNone, p2)" "in_session p2"
    "written_card (unat n) bs (emulated p1) (emulated p2)"
    using write_ends [OF p1(2,3) bs n(4)] by blast
  have "mf_classic_poller_write_block (air random) p n bs = Some (MfClassicErrorNone, p2)"
    using p1(1) p2(1) by (simp add: mf_classic_poller_write_block_def)
  moreover have "written_card (unat n) bs (emulated p) (emulated p2)"
    using p2(3) same by (simp add: written_card_def same_card_def)
  ultimately show ?thesis using p2(2) by blast
qed

subsection \<open>The end of a session\<close>

lemma halt_in_session:
  assumes p: "in_session p"
  shows "\<exists>p'. mf_classic_poller_halt (air random) p = Some (MfClassicErrorNone, p') \<and> reader_ok p' \<and> listener_ok (emulated p') \<and>
    ml_comm_state (emulated p') = MfClassicListenerCommStatePlain \<and> \<not> cmd_in_progress (emulated p') \<and> ml_data (emulated p') = ml_data (emulated p) \<and>
    p3_data (mp_iso14443_3a_poller p') = p3_data (mp_iso14443_3a_poller p) \<and>
    p3_state (mp_iso14443_3a_poller p') = Iso14443_3aPollerStateIdle \<and> same_context p p' \<and> mp_data p' = mp_data p"
proof -
  let ?l = "emulated p" and ?K = "(next_state ^^ 4) (mp_crypto p)"
  have lk: "linked p" and l: "listener_ok ?l" "\<not> cmd_in_progress ?l" and ok: "reader_ok p"
    using p by (simp_all add: in_session_def linked_def)
  have st: "listener_static ?l" using l(1) by (simp add: listener_ok_def)
  obtain tx e rx where ex: "exchange_command (air random) [0x50, 0x00] 2 p = Some (trx_encrypted (air random)
        (p\<lparr>mp_tx_plain_buffer := tx, mp_crypto := ?K, mp_tx_encrypted_buffer := e\<rparr>))"
      "holds_bytes 64 (sealed [0x50, 0x00]) tx" "bb_ok e" "bb_capacity_bytes e = 64" "holds_bytes 64 [0x50, 0x00] rx"
      "plain_frame e ?l = Some (rx, ?l\<lparr>ml_crypto := ?K, ml_rx_plain_buffer := rx\<rparr>)"
    using command_reaches_card [OF lk, of "[0x50, 0x00]" 2 random] by auto
  let ?q = "p\<lparr>mp_tx_plain_buffer := tx, mp_crypto := ?K, mp_tx_encrypted_buffer := e\<rparr>"
  let ?m = "?l\<lparr>ml_crypto := ?K, ml_rx_plain_buffer := rx, current_cmd_idx := 0, current_cmd_handler_idx := 0\<rparr>"
  have rx: "bb_size_bits rx = 16" "bit_buffer_get_byte rx 0 = Some 0x50" "bit_buffer_get_byte rx 1 = Some 0"
    using ex(5) holds_get [OF ex(5), of 0] holds_get [OF ex(5), of 1] by (simp_all add: holds_bytes_def)
  have "dispatch random rx (?l\<lparr>ml_crypto := ?K, ml_rx_plain_buffer := rx\<rparr>) = Some (MfClassicListenerCommandSleep, ?m)"
    using l(2) rx by (simp add: dispatch_def mf_classic_listener_cmd_handlers_def bit_buffer_get_size_def rd_def
      mf_classic_listener_halt_handler_def)
  then have run: "mf_classic_listener_run random (Iso14443_3aListenerEventTypeReceivedData (mp_tx_encrypted_buffer ?q)) (emulated ?q) =
      Some (NfcCommandSleep, mf_classic_listener_reset_state ?m)"
    using run_dispatch [OF ex(6)] by (simp add: answer_command_def)
  have trx: "trx_encrypted (air random) ?q = (Iso14443_3aErrorTimeout,
      ?q\<lparr>mp_iso14443_3a_poller := (mp_iso14443_3a_poller ?q)\<lparr>p3_nfc := mf_classic_listener_reset_state ?m\<rparr>\<rparr>)"
    by (rule trx_air_silent [OF run]) (simp add: mf_classic_listener_reset_state_def)
  let ?p' = "?q\<lparr>mp_auth_state := MfClassicAuthStateIdle, mp_iso14443_3a_poller := (mp_iso14443_3a_poller ?q)
      \<lparr>p3_nfc := mf_classic_listener_reset_state ?m, p3_state := Iso14443_3aPollerStateIdle\<rparr>\<rparr>"
  have "mf_classic_poller_halt (air random) p = Some (MfClassicErrorNone, ?p')"
    using ex(1) trx by (simp add: mf_classic_poller_halt_def)
  moreover have "listener_ok (mf_classic_listener_reset_state ?m)"
    by (rule reset_static) (use st ex(5) in \<open>simp add: static_defs holds_bytes_def\<close>)
  moreover have "reader_ok ?p'" using ok ex(2-4) by (simp add: reader_ok_def holds_bytes_def)
  ultimately show ?thesis
    by (intro exI [of _ ?p']) (simp add: mf_classic_listener_reset_state_def same_context_def)
qed

end
