(* ===== verification/Mf_Classic_Authentication.thy ===== *)
theory Mf_Classic_Authentication
  imports Mf_Classic_Session
begin

text \<open>
  The reader authenticates to the emulated card with the key of the sector: both ends of the link are then in a session.
\<close>

subsection \<open>The first frame\<close>

text \<open>A card that waits for a reader, in the field of this reader, which knows its data from the selection.\<close>

definition selected :: "MfClassicListener MfClassicPoller \<Rightarrow> bool" where
  "selected p \<longleftrightarrow> reader_ok p \<and> listener_ok (emulated p) \<and> ml_comm_state (emulated p) = MfClassicListenerCommStatePlain \<and>
     \<not> cmd_in_progress (emulated p) \<and> p3_data (mp_iso14443_3a_poller p) = mfc_iso14443_3a_data (ml_data (emulated p))"

text \<open>The nonces of the card are sent without checksum. The reader takes a nonce whose last bytes are one by chance for
  another answer.\<close>

definition plain_nonce :: "bytes \<Rightarrow> bool" where
  "plain_nonce nt \<longleftrightarrow> length nt = 4 \<and> nt \<noteq> sealed (take 2 nt)"

definition sector_key_of :: "MfClassicData \<Rightarrow> u8 \<Rightarrow> MfClassicKeyType \<Rightarrow> bytes" where
  "sector_key_of d n key_type = sector_key (mfc_block d ! trailer_of (sector_of (unat n))) key_type"

lemma init_any: "crypto1_init k c = crypto1_init k c'"
proof -
  have "c\<lparr>c1_even := 0, c1_odd := 0\<rparr> = c'\<lparr>c1_even := 0, c1_odd := 0\<rparr>" by (cases c, cases c') simp
  then show ?thesis by (simp only: crypto1_init_def)
qed

lemma start_any: "reader_start k cuid nt c = reader_start k cuid nt c'"
  unfolding reader_start_def by (simp only: init_any [of k c c'])

lemma sector_key_length: "data_ok d \<Longrightarrow> length (sector_key_of d n kt) = 6"
proof -
  assume d: "data_ok d"
  have "trailer_of (sector_of (unat n)) < 256" by (rule trailer_of_less [OF sector_of_less [OF unat_less_256]])
  with d have "length (mfc_block d ! trailer_of (sector_of (unat n))) = 16" by (simp add: data_ok_def)
  then show ?thesis by (simp add: sector_key_of_def sector_key_def)
qed

text \<open>The card has sent its nonce and waits for the answer of the reader.\<close>

definition challenged :: "u64 \<Rightarrow> u32 \<Rightarrow> bytes \<Rightarrow> u32 \<Rightarrow> u8 \<Rightarrow> MfClassicKeyType \<Rightarrow> MfClassicListener \<Rightarrow> MfClassicListener \<Rightarrow> bool" where
  "challenged key cuid nt w n kt l m \<longleftrightarrow> ml_crypto m = reader_start key cuid w (ml_crypto l) \<and> ml_data m = ml_data l \<and>
     ac_nt (ml_auth_context m) = nt \<and> ac_block_num (ml_auth_context m) = n \<and> ac_key_type (ml_auth_context m) = kt \<and>
     cmd_in_progress m \<and> current_cmd_idx m \<in> {2, 3} \<and> current_cmd_handler_idx m = 1 \<and>
     ml_comm_state m = MfClassicListenerCommStatePlain \<and> listener_ok m"

text \<open>What the card does with the first frame.\<close>

lemma card_sends_nonce:
  assumes l: "listener_ok l" "ml_comm_state l = MfClassicListenerCommStatePlain" "\<not> cmd_in_progress l"
    and n: "unat n < total_block_num l" and nt: "length nt = 4"
    and num: "bit_lib_bytes_to_num_be nt 4 = Some w" "bit_lib_bytes_to_num_be (sector_key_of (ml_data l) n kt) 6 = Some key"
      "iso14443_3a_get_cuid (mfc_iso14443_3a_data (ml_data l)) = Some cuid"
    and b: "holds_bytes cap [if kt = MfClassicKeyTypeB then 0x61 else 0x60, n] b"
  shows "\<exists>m tx. mf_classic_listener_run nt (Iso14443_3aListenerEventTypeReceivedStandardFrame b) l = Some (NfcCommandContinue, m) \<and>
    ml_sent m = ml_sent l @ [iso14443_3a_listener_tx tx] \<and> holds_bytes 64 nt tx \<and>
    challenged key cuid nt (ucast w) n kt l m"
proof -
  let ?i = "if kt = MfClassicKeyTypeB then 3 else 2 :: nat"
  let ?l = "l\<lparr>current_cmd_idx := ?i, current_cmd_handler_idx := 0\<rparr>"
  have st: "listener_static l" "listener_static ?l" using l(1) by (simp_all add: listener_ok_def static_defs)
  have b': "bb_size_bits b = 16" "bit_buffer_get_byte b 0 = Some (if kt = MfClassicKeyTypeB then 0x61 else 0x60)"
    "bit_buffer_get_byte b 1 = Some n"
    using b holds_get [OF b, of 0] holds_get [OF b, of 1] by (simp_all add: holds_bytes_def)
  let ?s = "mf_classic_get_sector_by_block n"
  have s: "unat ?s < 40" unfolding unat_sector by (rule sector_of_less [OF unat_less_256])
  let ?b = "mfc_block (ml_data l) ! trailer_of (unat ?s)"
  have rd: "rd (mfc_block (ml_data l)) (trailer_of (unat ?s)) = Some ?b"
    using st trailer_of_less [OF s] by (simp add: rd_ok data_ok_def static_defs)
  have key: "bit_lib_bytes_to_num_be (case kt of MfClassicKeyTypeA \<Rightarrow> take 6 ?b | MfClassicKeyTypeB \<Rightarrow> take 6 (drop 10 ?b)) 6 = Some key"
    using num(2) by (cases kt) (simp_all add: sector_key_of_def sector_key_def unat_sector)
  have enc: "bb_ok (ml_tx_encrypted_buffer l)" "bb_capacity_bytes (ml_tx_encrypted_buffer l) = 64" using st(1) by (auto simp: static_defs)
  obtain tx where tx: "bit_buffer_copy_bytes (ml_tx_encrypted_buffer l) nt 4 = Some tx" "holds_bytes 64 nt tx"
    using copy_bytes_holds [OF enc(1) nt] enc(2) by auto
  obtain x c where c: "crypto1_word (ucast w XOR cuid) False (crypto1_init key (ml_crypto l)) = (x, c)"
    by (cases "crypto1_word (ucast w XOR cuid) False (crypto1_init key (ml_crypto l))")
  then have start: "c = reader_start key cuid (ucast w) (ml_crypto l)" by (simp add: reader_start_def)
  let ?a = "(ml_auth_context l)\<lparr>ac_key_type := kt, ac_block_num := n, ac_nt := nt\<rparr>"
  let ?m = "next_handler (send_frame (iso14443_3a_listener_tx tx) (?l\<lparr>ml_state := MfClassicListenerStateIdle,
      ml_auth_context := ?a, ml_crypto := c, ml_tx_encrypted_buffer := tx\<rparr>))"
  have first: "mf_classic_listener_auth_first_part_handler nt ?l kt n = Some (MfClassicListenerCommandProcessed, ?m)"
    using n l(2) c tx(1) by (simp add: mf_classic_listener_auth_first_part_handler_def trailer_index [OF s] rd key num)
  have "find_command mf_classic_listener_cmd_handlers 0 nt b l = Some (MfClassicListenerCommandProcessed, ?m)"
    using first find_command_at(3,4) [OF b'(1,2), of nt l] b'(3)
    by (cases kt) (simp_all add: mf_classic_listener_auth_key_a_handler_def mf_classic_listener_auth_key_b_handler_def)
  then have "mf_classic_listener_run nt (Iso14443_3aListenerEventTypeReceivedStandardFrame b) l = Some (NfcCommandContinue, ?m)"
    using l(2,3) by (simp add: mf_classic_listener_run_def listener_receive_def plain_frame_def answer_command_def)
  moreover have "listener_ok ?m"
    using st(1) nt tx(2) by (simp add: listener_ok_def static_defs progress_ok_def next_handler_def send_frame_def holds_bytes_def)
  ultimately show ?thesis
    using tx(2) l(2) by (intro exI [of _ ?m] exI [of _ tx]) (simp add: challenged_def next_handler_def send_frame_def start)
qed

text \<open>The command reaches the card through its ISO 14443-3 A layer.\<close>

lemma standard_frame_received:
  assumes "holds_bytes cap (sealed [a, n]) tx" "a \<noteq> 0x50"
  shows "\<exists>b. iso14443_3a_listener_run f (NfcEventTypeRxEnd tx) True l = map_option (\<lambda>(c, l). (c, True, l))
      (f (Iso14443_3aListenerEventTypeReceivedStandardFrame b) l) \<and> holds_bytes cap [a, n] b"
proof -
  have size: "bit_buffer_get_size_bytes tx = 4" using holds_size [OF assms(1)] by simp
  have "take 2 (sealed [a, n]) = [a, n]" using take_sealed [of "[a, n]"] by (simp add: numeral_2_eq_2)
  then have crc: "iso14443_crc_check Iso14443CrcTypeA tx = Some True"
    using check_sealed [OF assms(1), of 2] by simp
  have first: "bit_buffer_get_byte tx 0 = Some a" using holds_get [OF assms(1), of 0] by (simp add: sealed_def)
  obtain b where b: "iso14443_crc_trim tx = Some b" "holds_bytes cap [a, n] b" using trim_sealed [OF assms(1)] by auto
  have "iso14443_3a_listener_halt_received tx = Some False"
    using size crc first assms(2) by (simp add: iso14443_3a_listener_halt_received_def)
  then show ?thesis using b crc
    by (intro exI [of _ b]) (cases "f (Iso14443_3aListenerEventTypeReceivedStandardFrame b) l",
      auto simp: iso14443_3a_listener_run_def)
qed

lemma nonce_not_sealed:
  assumes "plain_nonce nt" "holds_bytes cap nt b"
  shows "iso14443_crc_check Iso14443CrcTypeA b = Some False"
  using check_sealed [OF assms(2), of 2] assms(1) by (simp add: plain_nonce_def)

lemma reader_gets_nonce:
  assumes p: "selected p" and n: "unat n < total_block_num (emulated p)" and nt: "plain_nonce nt"
    and num: "bit_lib_bytes_to_num_be nt 4 = Some w" "bit_lib_bytes_to_num_be (sector_key_of (ml_data (emulated p)) n kt) 6 = Some key"
      "iso14443_3a_get_cuid (mfc_iso14443_3a_data (ml_data (emulated p))) = Some cuid"
  shows "\<exists>p'. mf_classic_poller_get_nt (air nt) p n kt (Some (replicate 4 0)) False = Some (MfClassicErrorNone, p', Some nt) \<and>
    reader_ok p' \<and> same_mode p p' \<and> mp_data p' = mp_data p \<and>
    p3_data (mp_iso14443_3a_poller p') = p3_data (mp_iso14443_3a_poller p) \<and>
    challenged key cuid nt (ucast w) n kt (emulated p) (emulated p')"
proof -
  let ?l = "emulated p" and ?iso = "mp_iso14443_3a_poller p" and ?a = "if kt = MfClassicKeyTypeB then 0x61 else 0x60 :: u8"
  have l: "listener_ok ?l" "ml_comm_state ?l = MfClassicListenerCommStatePlain" "\<not> cmd_in_progress ?l" and ok: "reader_ok p"
    using p by (simp_all add: selected_def)
  have len: "length nt = 4" using nt by (simp add: plain_nonce_def)
  have buf: "bb_ok (mp_tx_plain_buffer p)" "bb_capacity_bytes (mp_tx_plain_buffer p) = 64"
    "bb_ok (mp_rx_plain_buffer p)" "bb_capacity_bytes (mp_rx_plain_buffer p) = 64"
    "bb_ok (p3_tx_buffer ?iso)" "64 \<le> bb_capacity_bytes (p3_tx_buffer ?iso)"
    "bb_ok (p3_rx_buffer ?iso)" "64 \<le> bb_capacity_bytes (p3_rx_buffer ?iso)"
    using ok by (simp_all add: reader_ok_def)
  obtain t0 where t0: "bit_buffer_copy_bytes (mp_tx_plain_buffer p) [?a, n] 2 = Some t0" "holds_bytes 64 [?a, n] t0"
    using copy_bytes_holds [OF buf(1), of "[?a, n]" 2] buf(2) by auto
  obtain t1 where t1: "bit_buffer_copy (p3_tx_buffer ?iso) t0 = Some t1" "holds_bytes (bb_capacity_bytes (p3_tx_buffer ?iso)) [?a, n] t1"
    using copy_holds(1) [OF buf(5) t0(2)] buf(6) by auto
  obtain t2 where t2: "iso14443_crc_append Iso14443CrcTypeA t1 = Some t2"
    "holds_bytes (bb_capacity_bytes (p3_tx_buffer ?iso)) (sealed [?a, n]) t2"
    using append_sealed [OF t1(2)] buf(6) by auto
  have "?a \<noteq> 0x50" by simp
  then obtain b where b: "iso14443_3a_listener_run (mf_classic_listener_run nt) (NfcEventTypeRxEnd t2) True ?l =
      map_option (\<lambda>(c, l). (c, True, l)) (mf_classic_listener_run nt (Iso14443_3aListenerEventTypeReceivedStandardFrame b) ?l)"
    "holds_bytes (bb_capacity_bytes (p3_tx_buffer ?iso)) [?a, n] b"
    using standard_frame_received [OF t2(2), of "mf_classic_listener_run nt" ?l] by blast
  obtain m f where m: "mf_classic_listener_run nt (Iso14443_3aListenerEventTypeReceivedStandardFrame b) ?l = Some (NfcCommandContinue, m)"
    "ml_sent m = ml_sent ?l @ [iso14443_3a_listener_tx f]" "holds_bytes 64 nt f" "challenged key cuid nt (ucast w) n kt ?l m"
    using card_sends_nonce [OF l n len num b(2)] by blast
  obtain r where r: "bit_buffer_copy_bits (p3_rx_buffer ?iso) (bb_data f) (bb_size_bits f) = Some r"
    "holds_bytes (bb_capacity_bytes (p3_rx_buffer ?iso)) nt r"
    using copy_holds(2) [OF buf(7) m(3)] buf(8) len by auto
  have trx: "nfc_poller_trx (air nt) ?l t2 (p3_rx_buffer ?iso) = (NfcErrorNone, r, m)"
    using b(1) m(1) air_answer_frame [OF m(2), of "p3_rx_buffer ?iso" r] r(1) not_select [OF t2(2)] by (simp add: air_def)
  obtain q where q: "bit_buffer_copy (mp_rx_plain_buffer p) r = Some q" "holds_bytes 64 nt q"
    using copy_holds(1) [OF buf(3) r(2)] buf(4) len by auto
  let ?iso' = "?iso\<lparr>p3_tx_buffer := t2, p3_rx_buffer := r, p3_nfc := m\<rparr>"
  have "iso14443_3a_poller_send_standard_frame (air nt) ?iso (Some t0) (Some (mp_rx_plain_buffer p)) =
      Some (Iso14443_3aErrorWrongCrc, ?iso', Some q)"
    using t1(1) t2(1) trx q(1) buf(4) holds_size [OF r(2)] len nonce_not_sealed [OF nt r(2)]
    by (simp add: iso14443_3a_poller_send_standard_frame_def iso14443_3a_poller_standard_frame_exchange_def
      bit_buffer_get_capacity_bytes_def)
  moreover have "bit_buffer_write_bytes q (replicate 4 0) 4 = Some nt"
    using write_holds [OF q(2), of "replicate 4 0"] len by simp
  ultimately have "mf_classic_poller_get_nt (air nt) p n kt (Some (replicate 4 0)) False =
      Some (MfClassicErrorNone, p\<lparr>mp_tx_plain_buffer := t0, mp_iso14443_3a_poller := ?iso', mp_rx_plain_buffer := q\<rparr>, Some nt)"
    using t0(1) holds_size [OF q(2)] len
    by (simp add: mf_classic_poller_get_nt_def mf_classic_poller_get_nt_common_def)
  moreover have "reader_ok (p\<lparr>mp_tx_plain_buffer := t0, mp_iso14443_3a_poller := ?iso', mp_rx_plain_buffer := q\<rparr>)"
    using ok t0(2) t2(2) r(2) q(2) by (simp add: reader_ok_def holds_bytes_def)
  ultimately show ?thesis
    using m(4) by (intro exI [of _ "p\<lparr>mp_tx_plain_buffer := t0, mp_iso14443_3a_poller := ?iso', mp_rx_plain_buffer := q\<rparr>"]) (simp add: mode_defs)
qed

subsection \<open>The second frame\<close>

definition opened :: "u64 \<Rightarrow> u32 \<Rightarrow> u32 \<Rightarrow> bytes \<Rightarrow> u8 \<Rightarrow> MfClassicKeyType \<Rightarrow> MfClassicListener \<Rightarrow> MfClassicListener \<Rightarrow> bool" where
  "opened key cuid w nr n kt l m \<longleftrightarrow> listener_ok m \<and> ml_state m = MfClassicListenerStateAuthComplete \<and> \<not> cmd_in_progress m \<and>
     ml_crypto m = (next_state ^^ 8) (reader_state key cuid w nr (ml_crypto l)) \<and> ml_data m = ml_data l \<and>
     ac_block_num (ml_auth_context m) = n \<and> ac_key_type (ml_auth_context m) = kt"

lemma card_answers:
  assumes m: "challenged key cuid nt (ucast w) n kt l m" and nt: "bit_lib_bytes_to_num_be nt 4 = Some w"
    and tx: "bb_ok tx" "bb_size_bits tx = 64" "\<forall>j < 8. reader_byte key cuid (ucast w) nr (ml_crypto l) j (bb_data tx ! j)"
  shows "\<exists>k f bs. mf_classic_listener_run random (Iso14443_3aListenerEventTypeReceivedData tx) m = Some (NfcCommandContinue, k) \<and>
    ml_sent k = ml_sent m @ [iso14443_3a_listener_tx_with_custom_parity f] \<and> length bs = 4 \<and> holds_bytes 64 bs f \<and>
    opened key cuid (ucast w) nr n kt l k"
proof -
  let ?bs = "bb_bytes tx" and ?S = "reader_start key cuid (ucast w) (ml_crypto l)" and ?T = "reader_state key cuid (ucast w) nr (ml_crypto l)"
  have m': "ml_crypto m = ?S" "ml_data m = ml_data l" "ac_nt (ml_auth_context m) = nt" "ac_block_num (ml_auth_context m) = n"
    "ac_key_type (ml_auth_context m) = kt" "cmd_in_progress m" "current_cmd_idx m \<in> {2, 3}" "current_cmd_handler_idx m = 1"
    "ml_comm_state m = MfClassicListenerCommStatePlain" "listener_static m"
    using m by (simp_all add: challenged_def listener_ok_def)
  have size: "bit_buffer_get_size_bytes tx = 8" using tx(2) by (simp add: bit_buffer_get_size_bytes_def)
  have len: "length ?bs = 8" using length_bb_bytes [OF tx(1)] size by simp
  have bytes: "\<forall>j < 8. reader_byte key cuid (ucast w) nr (ml_crypto l) j (?bs ! j)"
    using tx(3) size by (simp add: bb_bytes_def)
  let ?nr = "take 4 ?bs" and ?ar = "take 4 (drop 4 ?bs)"
  have nr: "bit_buffer_write_bytes_mid tx (ac_nr (ml_auth_context m)) 0 4 = Some ?nr"
    "bit_buffer_write_bytes_mid tx (ac_ar (ml_auth_context m)) 4 4 = Some ?ar"
    using write_mid_ok [OF tx(1), of 0 4] write_mid_ok [OF tx(1), of 4 4] size m'(10) by (simp_all add: static_defs)
  obtain x y where num: "bit_lib_bytes_to_num_be ?nr 4 = Some x" "bit_lib_bytes_to_num_be ?ar 4 = Some y"
    using bytes_to_num_be_bits [of 4 ?nr] bytes_to_num_be_bits [of 4 ?ar] len by auto
  note answer = card_reads_answer [OF len bytes num]
  obtain x1 where x1: "crypto1_word (ucast x) True ?S = (x1, ?T)" using answer(1) by (cases "crypto1_word (ucast x) True ?S") simp
  obtain x2 where x2: "crypto1_word 0 False ?T = (x2, (next_state ^^ 4) ?T)" "ucast y XOR x2 = crypto1_prng_successor (ucast w) 64"
    using answer(2) zero_word_state [of ?T] by (cases "crypto1_word 0 False ?T") simp
  let ?a = "(ml_auth_context m)\<lparr>ac_nr := ?nr, ac_ar := ?ar\<rparr>"
  let ?c = "(next_state ^^ 4) ?T"
  obtain at where at: "bit_lib_num_to_bytes_be (ucast (crypto1_prng_successor (ucast w) 96)) 4 (ac_at (ml_auth_context m)) = Some at"
    "length at = 4"
    using num_to_bytes_be [of 4 "ac_at (ml_auth_context m)"] m'(10) by (fastforce simp: static_defs)
  have buf: "bb_ok (ml_tx_plain_buffer m)" "bb_capacity_bytes (ml_tx_plain_buffer m) = 64"
    "bb_ok (ml_tx_encrypted_buffer m)" "bb_capacity_bytes (ml_tx_encrypted_buffer m) = 64"
    using m'(10) by (simp_all add: static_defs)
  obtain t where t: "bit_buffer_copy_bytes (ml_tx_plain_buffer m) at 4 = Some t" "holds_bytes 64 at t"
    using copy_bytes_holds [OF buf(1) at(2)] buf(2) by auto
  have "at \<noteq> []" using at(2) by auto
  then obtain f where f: "crypto1_encrypt ?c None t (ml_tx_encrypted_buffer m) = Some ((next_state ^^ 4) ?c, f)"
    "holds_bytes 64 (crypt ?c at) f"
    using encrypt_bytes [OF t(2) _ buf(3), of ?c] buf(4) at(2) by auto
  let ?ev = "ml_events m @ [MfClassicListenerEventTypeAuthContextPartCollected ?a, MfClassicListenerEventTypeAuthContextFullCollected (?a\<lparr>ac_at := at\<rparr>)]"
  let ?k = "m\<lparr>cmd_in_progress := False, ml_auth_context := ?a\<lparr>ac_at := at\<rparr>, ml_crypto := (next_state ^^ 4) ?c, ml_tx_plain_buffer := t,
      ml_tx_encrypted_buffer := f, ml_sent := ml_sent m @ [iso14443_3a_listener_tx_with_custom_parity f],
      ml_state := MfClassicListenerStateAuthComplete, ml_comm_state := MfClassicListenerCommStateEncrypted, ml_events := ?ev\<rparr>"
  have "mf_classic_listener_auth_second_part_handler random tx m = Some (MfClassicListenerCommandProcessed, ?k)"
    using size nr num x1 x2 at(1) t(1) f(1) nt m'(1,3)
    by (simp add: mf_classic_listener_auth_second_part_handler_def notify_def send_encrypted_def send_frame_def)
  then have "dispatch random tx m = Some (MfClassicListenerCommandProcessed, ?k)"
    using m'(6-8) by (auto simp: dispatch_def later_handlers)
  moreover have "plain_frame tx m = Some (tx, m)" using m'(9) by (simp add: plain_frame_def)
  ultimately have "mf_classic_listener_run random (Iso14443_3aListenerEventTypeReceivedData tx) m = Some (NfcCommandContinue, ?k)"
    using run_dispatch by (simp add: answer_command_def)
  moreover have "listener_ok ?k"
    using m'(10) len at(2) t(2) f(2) by (simp add: listener_ok_def static_defs progress_ok_def holds_bytes_def)
  moreover have "(next_state ^^ 4) ?c = (next_state ^^ 8) ?T" using funpow_add [of 4 4 next_state] by simp
  ultimately show ?thesis
    using f(2) at(2) m'(2,4,5) by (intro exI [of _ ?k] exI [of _ f] exI [of _ "crypt ?c at"]) (simp add: opened_def)
qed

subsection \<open>The authentication\<close>

lemma auth_opens_session:
  assumes p: "selected p" and n: "unat n < total_block_num (emulated p)" and nt: "plain_nonce nt" and nr: "length nr = 4"
  shows "\<exists>p'. mf_classic_poller_auth (air nt) nr p n (sector_key_of (ml_data (emulated p)) n kt) kt None False =
      Some (MfClassicErrorNone, p', None) \<and> in_session p' \<and> ml_data (emulated p') = ml_data (emulated p) \<and>
    ac_block_num (ml_auth_context (emulated p')) = n \<and> ac_key_type (ml_auth_context (emulated p')) = kt \<and> same_mode p p' \<and>
    mp_data p' = (mp_data p)\<lparr>mfc_iso14443_3a_data := mfc_iso14443_3a_data (ml_data (emulated p))\<rparr>"
proof -
  let ?l = "emulated p" and ?k = "sector_key_of (ml_data (emulated p)) n kt"
  have ok: "reader_ok p" and l: "listener_ok ?l" and same: "p3_data (mp_iso14443_3a_poller p) = mfc_iso14443_3a_data (ml_data ?l)"
    using p by (simp_all add: selected_def)
  have data: "data_ok (ml_data ?l)" "length (i3_uid (mfc_iso14443_3a_data (ml_data ?l))) = 10"
    using l by (simp_all add: listener_ok_def static_defs)
  have len: "length nt = 4" using nt by (simp add: plain_nonce_def)
  obtain w where w: "bit_lib_bytes_to_num_be nt 4 = Some w" using bytes_to_num_be_bits [of 4 nt] len by auto
  obtain key where key: "bit_lib_bytes_to_num_be ?k 6 = Some key" using num_of_bytes [OF sector_key_length [OF data(1)]] by blast
  obtain cuid where cuid: "iso14443_3a_get_cuid (mfc_iso14443_3a_data (ml_data ?l)) = Some cuid" using cuid_ok [OF data(2)] by blast
  let ?p0 = "p\<lparr>mp_data := (mp_data p)\<lparr>mfc_iso14443_3a_data := mfc_iso14443_3a_data (ml_data ?l)\<rparr>\<rparr>"
  have p0: "selected ?p0" using p by (simp add: selected_def reader_ok_def)
  obtain p1 where p1: "mf_classic_poller_get_nt (air nt) ?p0 n kt (Some (replicate 4 0)) False = Some (MfClassicErrorNone, p1, Some nt)"
    "reader_ok p1" "mp_data p1 = mp_data ?p0" "challenged key cuid nt (ucast w) n kt ?l (emulated p1)" "same_mode ?p0 p1"
    "p3_data (mp_iso14443_3a_poller p1) = p3_data (mp_iso14443_3a_poller p)"
    using reader_gets_nonce [OF p0 _ nt w, of n kt key cuid] n key cuid by auto
  let ?T = "reader_state key cuid (ucast w) nr (mp_crypto p1)"
  have T: "reader_state key cuid (ucast w) nr c = ?T" for c unfolding reader_state_def using start_any by metis
  have enc: "bb_ok (mp_tx_encrypted_buffer p1)" "8 \<le> bb_capacity_bytes (mp_tx_encrypted_buffer p1)"
    "bb_ok (mp_rx_encrypted_buffer p1)" "bb_capacity_bytes (mp_rx_encrypted_buffer p1) = 64"
    using p1(2) by (simp_all add: reader_ok_def)
  obtain nr' tx where tx: "crypto1_encrypt_reader_nonce (mp_crypto p1) key cuid nt nr (mp_tx_encrypted_buffer p1) False =
      Some ((next_state ^^ 4) ?T, nr', tx)" "bb_ok tx" "bb_size_bits tx = 64" "bb_capacity_bytes tx = 64"
    "\<forall>j < 8. reader_byte key cuid (ucast w) nr (mp_crypto p1) j (bb_data tx ! j)"
    using reader_nonce_spec [OF enc(1,2) len nr w, of "mp_crypto p1" key cuid] p1(2) by (auto simp: reader_ok_def)
  have bytes: "\<forall>j < 8. reader_byte key cuid (ucast w) nr (ml_crypto ?l) j (bb_data tx ! j)"
    using tx(5) start_any [of key cuid "ucast w" "mp_crypto p1" "ml_crypto ?l"] T [of "ml_crypto ?l"] by (simp add: reader_byte_def)
  let ?q = "p1\<lparr>mp_crypto := (next_state ^^ 4) ?T, mp_tx_encrypted_buffer := tx\<rparr>"
  obtain k f bs where k: "mf_classic_listener_run nt (Iso14443_3aListenerEventTypeReceivedData (mp_tx_encrypted_buffer ?q)) (emulated ?q) =
      Some (NfcCommandContinue, k)" "ml_sent k = ml_sent (emulated ?q) @ [iso14443_3a_listener_tx_with_custom_parity f]"
    "length bs = 4" "holds_bytes 64 bs f" "opened key cuid (ucast w) nr n kt ?l k"
    using card_answers [OF p1(4) w tx(2,3) bytes, of nt] by auto
  obtain r where r: "bit_buffer_copy_bits (mp_rx_encrypted_buffer ?q) (bb_data f) (bb_size_bits f) = Some r" "holds_bytes 64 bs r"
    using copy_holds(2) [OF enc(3) k(4)] enc(4) k(3) by auto
  let ?p2 = "?q\<lparr>mp_iso14443_3a_poller := (mp_iso14443_3a_poller ?q)\<lparr>p3_nfc := k\<rparr>, mp_rx_encrypted_buffer := r\<rparr>"
  have trx: "trx_encrypted (air nt) ?q = (Iso14443_3aErrorNone, ?p2)"
    by (rule trx_air [OF k(1,2)]) (use r(1) in simp)
  let ?p3 = "?p2\<lparr>mp_crypto := (next_state ^^ 8) ?T, mp_auth_state := MfClassicAuthStatePassed\<rparr>"
  obtain x where word: "crypto1_word 0 False ((next_state ^^ 4) ?T) = (x, (next_state ^^ 8) ?T)"
    using zero_word_state [of "(next_state ^^ 4) ?T"] funpow_add [of 4 4 next_state]
    by (cases "crypto1_word 0 False ((next_state ^^ 4) ?T)") simp
  have "mf_classic_poller_auth (air nt) nr p n ?k kt None False = Some (MfClassicErrorNone, ?p3, None)"
    using p1(1,3) same cuid key tx(1) trx holds_size [OF r(2)] k(3) word
    by (simp add: mf_classic_poller_auth_def mf_classic_poller_auth_common_def iso14443_3a_copy_def)
  moreover have "in_session ?p3"
    using p1(2,6) same tx(2,4) r(2) k(5) T [of "ml_crypto ?l"]
    by (simp add: in_session_def linked_def opened_def reader_ok_def holds_bytes_def)
  moreover have "same_mode p ?p3" using p1(5) by (simp add: mode_defs)
  ultimately show ?thesis using k(5) p1(3) by (intro exI [of _ ?p3]) (simp add: opened_def)
qed

end
