(* ===== verification/Mf_Classic_Link.thy ===== *)
theory Mf_Classic_Link
  imports Mf_Classic_Authentication
begin

text \<open>
  The reader and the emulated card together: what is read is what the card holds, and what was written is read.
\<close>

subsection \<open>One block\<close>

lemma allowed_session: "ac_key_type (ml_auth_context l) = kt \<Longrightarrow> ml_data l = d \<Longrightarrow> allowed l m a = mf_classic_is_allowed_access d m kt a"
  by (simp add: allowed_def)

lemma access_after_write:
  assumes "data_ok d" "\<not> mf_classic_is_sector_trailer m"
  shows "mf_classic_is_allowed_access (d\<lparr>mfc_block := (mfc_block d)[unat m := bs]\<rparr>) m kt a = mf_classic_is_allowed_access d m kt a"
proof -
  have s: "unat (mf_classic_get_sector_by_block m) < 40" unfolding unat_sector by (rule sector_of_less [OF unat_less_256])
  have "trailer_of (unat (mf_classic_get_sector_by_block m)) \<noteq> unat m"
    using assms(2) by (simp add: is_trailer_iff unat_sector)
  then have "rd ((mfc_block d)[unat m := bs]) (trailer_of (unat (mf_classic_get_sector_by_block m))) =
      rd (mfc_block d) (trailer_of (unat (mf_classic_get_sector_by_block m)))"
    by (simp add: rd_def)
  with assms(2) show ?thesis by (simp add: mf_classic_is_allowed_access_def trailer_index [OF s])
qed

lemma total_blocks: "listener_ok l \<Longrightarrow> ml_data m = ml_data l \<Longrightarrow> listener_ok m \<Longrightarrow> total_block_num m = total_block_num l"
  by (simp add: listener_ok_def static_defs)

lemma session_card: "in_session p \<Longrightarrow> listener_ok (emulated p)"
  by (simp add: in_session_def linked_def)

lemma read_data_block:
  assumes p: "in_session p" "in_auth_sector (emulated p) m" "\<not> mf_classic_is_sector_trailer m"
    "allowed (emulated p) m MfClassicActionDataRead = Some True" and buf: "length buf = 16"
  shows "\<exists>p'. mf_classic_poller_read_block (air random) p m buf =
      Some (MfClassicErrorNone, p', mfc_block (ml_data (emulated p)) ! unat m) \<and> in_session p' \<and>
    same_card (emulated p) (emulated p') \<and> same_mode p p' \<and> mp_data p' = mp_data p"
proof -
  let ?b = "mfc_block (ml_data (emulated p)) ! unat m"
  have "listener_static (emulated p)" using session_card [OF p(1)] by (simp add: listener_ok_def)
  then have "length ?b = 16" using auth_block_rd by blast
  moreover have "readable_block (emulated p) m ?b = Some (Some ?b)" using p(3,4) by (simp add: readable_block_def)
  ultimately show ?thesis using read_in_session [OF p(1,2) _ _ buf] by blast
qed

text \<open>C21: A reader that authenticates to the emulated card with the key of a sector reads every data block of this
  sector whose access conditions let this key read, and gets the bytes that the card holds: cipher, checksum, frames and
  access checks of both sides fit together.\<close>

theorem reader_reads_emulated_card:
  assumes p: "selected p" and n: "unat n < total_block_num (emulated p)" and nt: "plain_nonce nt" and nr: "length nr = 4"
    and m: "mf_classic_get_sector_by_block m = mf_classic_get_sector_by_block n" "\<not> mf_classic_is_sector_trailer m"
      "mf_classic_is_allowed_access (ml_data (emulated p)) m kt MfClassicActionDataRead = Some True"
  shows "\<exists>p1 p2. mf_classic_poller_auth (air nt) nr p n (sector_key_of (ml_data (emulated p)) n kt) kt None False =
       Some (MfClassicErrorNone, p1, None) \<and>
     mf_classic_poller_read_block (air nt) p1 m (replicate 16 0) =
       Some (MfClassicErrorNone, p2, mfc_block (ml_data (emulated p)) ! unat m)"
proof -
  obtain p1 where p1: "mf_classic_poller_auth (air nt) nr p n (sector_key_of (ml_data (emulated p)) n kt) kt None False =
      Some (MfClassicErrorNone, p1, None)" "in_session p1" "ml_data (emulated p1) = ml_data (emulated p)"
    "ac_block_num (ml_auth_context (emulated p1)) = n" "ac_key_type (ml_auth_context (emulated p1)) = kt"
    using auth_opens_session [OF p n nt nr] by blast
  have "in_auth_sector (emulated p1) m" using m(1) p1(4) by (simp add: in_auth_sector_def)
  then show ?thesis
    using read_data_block [OF p1(2) _ m(2), of "replicate 16 0" nt] m(3) p1(1,3,5) by (auto simp: allowed_session)
qed

text \<open>C18: A block that a reader writes to the emulated card, in a sector to which it has authenticated and with a key
  that may write and read it, reads back as it was written, and the rest of the card stays as it is.\<close>

theorem reader_writes_then_reads:
  assumes p: "selected p" and n: "unat n < total_block_num (emulated p)" and nt: "plain_nonce nt" and nr: "length nr = 4"
    and m: "mf_classic_get_sector_by_block m = mf_classic_get_sector_by_block n" "\<not> mf_classic_is_sector_trailer m"
      "m \<noteq> 0" "unat m < total_block_num (emulated p)"
      "mf_classic_is_allowed_access (ml_data (emulated p)) m kt MfClassicActionDataWrite = Some True"
      "mf_classic_is_allowed_access (ml_data (emulated p)) m kt MfClassicActionDataRead = Some True"
    and bs: "length bs = 16"
  shows "\<exists>p1 p2 p3. mf_classic_poller_auth (air nt) nr p n (sector_key_of (ml_data (emulated p)) n kt) kt None False =
       Some (MfClassicErrorNone, p1, None) \<and>
     mf_classic_poller_write_block (air nt) p1 m bs = Some (MfClassicErrorNone, p2) \<and>
     mf_classic_poller_read_block (air nt) p2 m (replicate 16 0) = Some (MfClassicErrorNone, p3, bs) \<and>
     ml_data (emulated p3) = (ml_data (emulated p))\<lparr>mfc_block := (mfc_block (ml_data (emulated p)))[unat m := bs]\<rparr>"
proof -
  let ?d = "ml_data (emulated p)" and ?d' = "(ml_data (emulated p))\<lparr>mfc_block := (mfc_block (ml_data (emulated p)))[unat m := bs]\<rparr>"
  have l: "listener_ok (emulated p)" using p by (simp add: selected_def)
  then have d: "data_ok ?d" by (simp add: listener_ok_def static_defs)
  obtain p1 where p1: "mf_classic_poller_auth (air nt) nr p n (sector_key_of ?d n kt) kt None False = Some (MfClassicErrorNone, p1, None)"
    "in_session p1" "ml_data (emulated p1) = ?d" "ac_block_num (ml_auth_context (emulated p1)) = n" "ac_key_type (ml_auth_context (emulated p1)) = kt"
    using auth_opens_session [OF p n nt nr] by blast
  have t1: "unat m < total_block_num (emulated p1)"
    using m(4) total_blocks [OF l p1(3) session_card [OF p1(2)]] by simp
  have s1: "in_auth_sector (emulated p1) m" using m(1) p1(4) by (simp add: in_auth_sector_def)
  have a1: "allowed (emulated p1) m MfClassicActionDataWrite = Some True" using m(5) p1(3,5) by (simp add: allowed_session)
  obtain p2 where p2: "mf_classic_poller_write_block (air nt) p1 m bs = Some (MfClassicErrorNone, p2)" "in_session p2"
    "written_card (unat m) bs (emulated p1) (emulated p2)"
    using write_in_session [OF p1(2) m(3) t1 s1 m(2) a1 bs] by blast
  have d2: "ml_data (emulated p2) = ?d'" "ac_block_num (ml_auth_context (emulated p2)) = n" "ac_key_type (ml_auth_context (emulated p2)) = kt"
    using p2(3) p1(3-5) by (simp_all add: written_card_def)
  have s2: "in_auth_sector (emulated p2) m" using m(1) d2(2) by (simp add: in_auth_sector_def)
  have a2: "allowed (emulated p2) m MfClassicActionDataRead = Some True"
    using m(6) d2(1,3) access_after_write [OF d m(2)] by (simp add: allowed_session)
  have "mfc_block ?d' ! unat m = bs" using d unat_less_256 [of m] by (simp add: data_ok_def)
  then obtain p3 where "mf_classic_poller_read_block (air nt) p2 m (replicate 16 0) = Some (MfClassicErrorNone, p3, bs)"
    "same_card (emulated p2) (emulated p3)"
    using read_data_block [OF p2(2) s2 m(2) a2, of "replicate 16 0" nt] by (auto simp: d2(1))
  with p1(1) p2(1) d2(1) show ?thesis by (auto simp: same_card_def)
qed

subsection \<open>An instance\<close>

text \<open>A 1K card with one block of data and a sector trailer in the transport configuration, and a reader that has selected it.\<close>

definition demo_iso :: Iso14443_3aData where
  "demo_iso = \<lparr>i3_uid = [1, 2, 3, 4] @ replicate 6 0, i3_uid_len = 4, i3_atqa = [4, 0], i3_sak = 8\<rparr>"

definition demo_data :: MfClassicData where
  "demo_data = mf_classic_alloc\<lparr>mfc_iso14443_3a_data := demo_iso, mfc_type := MfClassicType1k, mfc_block := (replicate 256 (replicate 16 0))
     [4 := [1, 2, 3, 4, 5, 6, 7, 8, 9, 10, 11, 12, 13, 14, 15, 16], 7 := replicate 6 0xFF @ [0xFF, 0x07, 0x80, 0x69] @ replicate 6 0xFF]\<rparr>"

definition demo_card :: MfClassicListener where
  "demo_card = the (mf_classic_listener_alloc demo_data)"

definition demo_reader :: "MfClassicListener MfClassicPoller" where
  "demo_reader = the (mf_classic_poller_alloc ((the (iso14443_3a_poller_alloc demo_card))\<lparr>p3_data := demo_iso\<rparr>))"

lemma demo_data_ok: "data_ok demo_data" "length (i3_uid (mfc_iso14443_3a_data demo_data)) = 10"
  using demo_facts(1,2) by (simp_all add: demo_data_def demo_iso_def data_ok_def mf_classic_alloc_def nth_list_update_if)

lemma demo_blocks: "unat (mf_classic_get_total_block_num (mfc_type demo_data)) = 64"
  by code_simp

lemma demo_card_fields: "listener_ok demo_card" "ml_data demo_card = demo_data" "ml_comm_state demo_card = MfClassicListenerCommStatePlain"
  "\<not> cmd_in_progress demo_card" "total_block_num demo_card = 64"
  using alloc_listener_ok [OF demo_data_ok] demo_blocks
  by (auto simp: demo_card_def mf_classic_listener_alloc_def bit_buffer_alloc_def mf_classic_listener_prepare_emulation_def)

lemma demo_reader_selected: "selected demo_reader" "emulated demo_reader = demo_card"
  using demo_card_fields
  by (simp_all add: demo_reader_def mf_classic_poller_alloc_def iso14443_3a_poller_alloc_def bit_buffer_alloc_def selected_def
    reader_ok_def bb_ok_def demo_data_def mf_classic_alloc_def)

lemma demo_nonce: "plain_nonce [1, 2, 3, 4]"
proof -
  have "iso14443.trailer Iso14443CrcTypeA [1, 2] \<noteq> [3, 4]"
    unfolding iso14443.trailer_def by code_simp
  then show ?thesis by (simp add: plain_nonce_def sealed_def)
qed

lemma demo_access:
  "mf_classic_get_sector_by_block 4 = mf_classic_get_sector_by_block 5" "\<not> mf_classic_is_sector_trailer 4"
  "mf_classic_is_allowed_access demo_data 4 MfClassicKeyTypeA MfClassicActionDataRead = Some True"
  "mf_classic_is_allowed_access demo_data 4 MfClassicKeyTypeA MfClassicActionDataWrite = Some True"
  "mfc_block demo_data ! unat (4 :: u8) = [1, 2, 3, 4, 5, 6, 7, 8, 9, 10, 11, 12, 13, 14, 15, 16]"
  by code_simp+

theorem reader_reads_emulated_card_witness:
  "\<exists>p1 p2. mf_classic_poller_auth (air [1, 2, 3, 4]) [5, 6, 7, 8] demo_reader 5 (sector_key_of demo_data 5 MfClassicKeyTypeA)
       MfClassicKeyTypeA None False = Some (MfClassicErrorNone, p1, None) \<and>
     mf_classic_poller_read_block (air [1, 2, 3, 4]) p1 4 (replicate 16 0) =
       Some (MfClassicErrorNone, p2, [1, 2, 3, 4, 5, 6, 7, 8, 9, 10, 11, 12, 13, 14, 15, 16])"
  using reader_reads_emulated_card [OF demo_reader_selected(1), of 5 "[1, 2, 3, 4]" "[5, 6, 7, 8]" 4 MfClassicKeyTypeA]
    demo_nonce demo_access demo_card_fields(2,5) demo_reader_selected(2)
  by simp

theorem reader_writes_then_reads_witness:
  "\<exists>p1 p2 p3. mf_classic_poller_auth (air [1, 2, 3, 4]) [5, 6, 7, 8] demo_reader 5 (sector_key_of demo_data 5 MfClassicKeyTypeA)
       MfClassicKeyTypeA None False = Some (MfClassicErrorNone, p1, None) \<and>
     mf_classic_poller_write_block (air [1, 2, 3, 4]) p1 4 (replicate 16 9) = Some (MfClassicErrorNone, p2) \<and>
     mf_classic_poller_read_block (air [1, 2, 3, 4]) p2 4 (replicate 16 0) = Some (MfClassicErrorNone, p3, replicate 16 9) \<and>
     ml_data (emulated p3) = demo_data\<lparr>mfc_block := (mfc_block demo_data)[unat (4 :: u8) := replicate 16 9]\<rparr>"
proof -
  have n: "unat (5 :: u8) < total_block_num (emulated demo_reader)" "unat (4 :: u8) < total_block_num (emulated demo_reader)"
    "(4 :: u8) \<noteq> 0"
    by (simp_all add: demo_reader_selected(2) demo_card_fields(5))
  have data: "ml_data (emulated demo_reader) = demo_data" by (simp add: demo_reader_selected(2) demo_card_fields(2))
  show ?thesis
    using reader_writes_then_reads [OF demo_reader_selected(1) n(1) demo_nonce _ demo_access(1,2) n(3,2), unfolded data,
        OF _ demo_access(4,3), of "[5, 6, 7, 8]" "replicate 16 9"]
    by simp
qed

end
