(* ===== verification/Mf_Classic_Read_Mode.thy ===== *)
theory Mf_Classic_Read_Mode
  imports Mf_Classic_Link
begin

text \<open>
  The read mode of the Mifare Classic reader against the emulated card: the application names a sector and a key, and the
  poller brings the whole sector over.
\<close>

subsection \<open>Knowledge of a card\<close>

text \<open>Every byte that \<open>e\<close> marks as known is what the card \<open>d\<close> holds.\<close>

definition knows :: "MfClassicData \<Rightarrow> MfClassicData \<Rightarrow> bool" where
  "knows d e \<longleftrightarrow> data_ok e \<and> (\<forall>n < 256. \<forall>i < 16. byte_known e n i \<longrightarrow> mfc_block e ! n ! i = mfc_block d ! n ! i)"

lemma knows_takes_over:
  assumes k: "knows d e" and t: "takes_over d n B r K e f"
    and new: "\<And>i. i < 16 \<Longrightarrow> byte_known f n i \<Longrightarrow> byte_known e n i \<or> B i"
  shows "knows d f"
  unfolding knows_def
proof (intro conjI allI impI)
  show "data_ok f" using t by (simp add: takes_over_def)
  fix m i :: nat assume m: "m < 256" "i < 16" "byte_known f m i"
  have s: "sector_of m < 40" by (rule sector_of_less [OF m(1)])
  have other: "byte_known e m i" if "m \<noteq> n"
    using m that t s trailer_block_def [of m] by (auto simp: byte_known_def takes_over_def split: if_splits)
  have "mfc_block f ! m ! i = (if m = n \<and> B i then mfc_block d ! m ! i else mfc_block e ! m ! i)"
    using t m(1,2) by (simp add: takes_over_def)
  then show "mfc_block f ! m ! i = mfc_block d ! m ! i"
    using k m other new by (auto simp: knows_def)
qed

lemma knows_fields [simp]: "knows d (e\<lparr>mfc_iso14443_3a_data := x\<rparr>) = knows d e" "knows d (e\<lparr>mfc_type := y\<rparr>) = knows d e"
  by (simp_all add: knows_def data_ok_def byte_known_def read_at_def key_at_def split: MfClassicKeyType.split)

text \<open>What was known stays known.\<close>

definition grows :: "MfClassicData \<Rightarrow> MfClassicData \<Rightarrow> bool" where
  "grows e f \<longleftrightarrow> (\<forall>n < 256. read_at e n \<longrightarrow> read_at f n) \<and> (\<forall>t. \<forall>s < 40. key_at e t s \<longrightarrow> key_at f t s)"

lemma grows_refl [simp]: "grows e e"
  by (simp add: grows_def)

lemma grows_trans: "grows e f \<Longrightarrow> grows f g \<Longrightarrow> grows e g"
  by (simp add: grows_def)

lemma grows_fields [simp]: "grows e (f\<lparr>mfc_iso14443_3a_data := x\<rparr>) = grows e f" "grows (e\<lparr>mfc_iso14443_3a_data := x\<rparr>) f = grows e f"
  "grows e (f\<lparr>mfc_type := y\<rparr>) = grows e f"
  by (simp_all add: grows_def read_at_def key_at_def split: MfClassicKeyType.split)

lemma grows_takes_over: "takes_over d n B r K e f \<Longrightarrow> grows e f"
  by (simp add: takes_over_def grows_def)

definition first_of :: "nat \<Rightarrow> nat" where
  "first_of s = Suc (trailer_of s) - sector_length s"

lemma first_of_eq: "first_of s = (if s < 32 then 4 * s else 128 + 16 * (s - 32))"
  by (simp add: first_of_def trailer_of_def sector_length_def)

lemma first_block: "unat s < 40 \<Longrightarrow> mf_classic_get_first_block_num_of_sector s = Some (of_nat (first_of (unat s)))"
  by (auto simp: mf_classic_get_first_block_num_of_sector_def first_of_eq word_less_nat_alt of_nat_diff)

lemma in_sector: "s < 40 \<Longrightarrow> first_of s \<le> m \<Longrightarrow> m \<le> trailer_of s \<Longrightarrow> sector_of m = s \<and> m < 256"
  by (auto simp: first_of_eq trailer_of_def sector_of_def split: if_splits)

lemma sector_u8_eq: "unat s < 40 \<Longrightarrow> m < 256 \<Longrightarrow> mf_classic_get_sector_by_block (of_nat m) = s \<longleftrightarrow> sector_of m = unat s"
  by (metis sector_u8 word_unat_eq_iff)

lemma block_cast: "m < 256 \<Longrightarrow> (ucast (of_nat m :: u16) :: u8) = of_nat m"
  by (simp add: unsigned_of_nat take_bit_nat_eq_self)

subsection \<open>The blocks of a sector\<close>

text \<open>The access conditions let the key read the data blocks of the sector and the access bits of its trailer.\<close>

definition readable_sector :: "MfClassicData \<Rightarrow> u8 \<Rightarrow> MfClassicKeyType \<Rightarrow> bool" where
  "readable_sector d s kt \<longleftrightarrow> (\<forall>m. mf_classic_get_sector_by_block m = s \<longrightarrow>
     mf_classic_is_allowed_access d m kt (if mf_classic_is_sector_trailer m then MfClassicActionACRead else MfClassicActionDataRead) = Some True)"

text \<open>What the card sends of a block.\<close>

definition sent_of :: "MfClassicData \<Rightarrow> nat \<Rightarrow> MfClassicKeyType \<Rightarrow> bytes \<Rightarrow> bool" where
  "sent_of d m kt bs \<longleftrightarrow> length bs = 16 \<and>
     (\<forall>i < 16. (if \<not> trailer_block m then True else if i < 6 then False else if i < 10 then True
         else mf_classic_is_allowed_access d (of_nat m) kt MfClassicActionKeyBRead = Some True) \<longrightarrow> bs ! i = mfc_block d ! m ! i)"

lemma card_sends:
  assumes l: "listener_static l" "ac_key_type (ml_auth_context l) = kt" "ml_data l = d"
    and s: "readable_sector d s kt" and m: "m < 256" "mf_classic_get_sector_by_block (of_nat m) = s"
  shows "\<exists>bs. readable_block l (of_nat m) (mfc_block d ! m) = Some (Some bs) \<and> sent_of d m kt bs"
proof -
  have len: "length (mfc_block d ! m) = 16" using l(1,3) m(1) by (auto simp: static_defs data_ok_def)
  have ac: "mf_classic_is_allowed_access d (of_nat m) kt (if trailer_block m then MfClassicActionACRead else MfClassicActionDataRead) = Some True"
    using s [unfolded readable_sector_def, rule_format, OF m(2)] by (simp only: trailer_block_eq [OF m(1)])
  show ?thesis
  proof (cases "trailer_block m")
    case False
    then show ?thesis using ac l len m by (simp add: readable_block_def trailer_block_eq allowed_def sent_of_def)
  next
    case True
    have "card_ok l" using l(1) by (simp add: listener_static_def)
    then obtain a b where ab: "allowed l (of_nat m) MfClassicActionKeyARead = Some a" "allowed l (of_nat m) MfClassicActionKeyBRead = Some b"
      using allowed_ok [of l "of_nat m" MfClassicActionKeyARead] allowed_ok [of l "of_nat m" MfClassicActionKeyBRead] by blast
    have c: "allowed l (of_nat m) MfClassicActionACRead = Some True" using ac True l by (simp add: allowed_def)
    let ?x = "if \<not> a then replicate 6 0 @ drop 6 (mfc_block d ! m) else mfc_block d ! m"
    let ?y = "if \<not> b then take 10 ?x @ replicate 6 0 else ?x"
    have r: "readable_block l (of_nat m) (mfc_block d ! m) = Some (Some ?y)"
      using True m ab c by (simp add: readable_block_def trailer_block_eq)
    have kb: "mf_classic_is_allowed_access d (of_nat m) kt MfClassicActionKeyBRead = Some b" using ab(2) l by (simp add: allowed_def)
    have x: "length ?x = 16" using len by simp
    have y: "length ?y = 16" using x by simp
    have xi: "?x ! i = mfc_block d ! m ! i" if "6 \<le> i" "i < 16" for i
      using that len by (simp add: nth_append)
    have yi: "?y ! i = ?x ! i" if "i < 10 \<or> b" "i < 16" for i
    proof (cases b)
      case False
      then have "i < 10" using that by simp
      then show ?thesis using False x by (simp only: not_False_eq_True if_True nth_append length_take) simp
    qed simp
    have "sent_of d m kt ?y"
      unfolding sent_of_def
    proof (intro conjI allI impI)
      fix i :: nat assume i: "i < 16" and cond: "if \<not> trailer_block m then True else if i < 6 then False else if i < 10 then True
         else mf_classic_is_allowed_access d (of_nat m) kt MfClassicActionKeyBRead = Some True"
      have "6 \<le> i" "i < 10 \<or> b" using cond True kb by (auto split: if_splits)
      then show "?y ! i = mfc_block d ! m ! i" using yi [of i] xi [of i] i by (simp only:)
    qed (rule y)
    with r show ?thesis by blast
  qed
qed

subsection \<open>Key B in the clear\<close>

lemma trailer_access_same:
  assumes "take 4 (drop 6 b) = take 4 (drop 6 c)"
  shows "sector_trailer_access b kt a = sector_trailer_access c kt a"
  by (simp only: sector_trailer_access_def assms)

lemma keyB_access:
  assumes d: "data_ok d" and e: "data_ok e" and m: "m < 256" "trailer_block m"
    and same: "\<And>i. 6 \<le> i \<Longrightarrow> i < 10 \<Longrightarrow> mfc_block e ! m ! i = mfc_block d ! m ! i"
  shows "mf_classic_is_allowed_access e (of_nat m) kt a = mf_classic_is_allowed_access d (of_nat m) kt a"
proof -
  have s: "unat (mf_classic_get_sector_by_block (of_nat m)) = sector_of m" "sector_of m < 40"
    using sector_u8 [OF m(1)] sector_of_less [OF m(1)] by simp_all
  have t: "trailer_of (sector_of m) = m" using m(2) by (simp add: trailer_block_def)
  have len: "length (mfc_block d ! m) = 16" "length (mfc_block e ! m) = 16" "length (mfc_block d) = 256" "length (mfc_block e) = 256"
    using d e m(1) by (simp_all add: data_ok_def)
  have "take 4 (drop 6 (mfc_block e ! m)) = take 4 (drop 6 (mfc_block d ! m))"
    by (rule nth_equalityI) (use len same in simp_all)
  from trailer_access_same [OF this] show ?thesis
    using m s len by (simp add: mf_classic_is_allowed_access_def trailer_block_eq mf_classic_is_allowed_access_sector_trailer_def
      trailer_index t rd_ok)
qed

lemma key_b_checked:
  assumes k: "knows d (mp_data p)" and d: "data_ok d" and m: "m < 256" and bs: "sent_of d m MfClassicKeyTypeA bs"
    and read: "read_at (mp_data p) m"
  shows "\<exists>e. mf_classic_poller_check_key_b_is_readable p (of_nat m) bs = Some (p\<lparr>mp_data := e\<rparr>) \<and> knows d e \<and>
    grows (mp_data p) e"
proof (cases "trailer_block m")
  case False
  then show ?thesis using m k
    by (intro exI [of _ "mp_data p"]) (simp add: mf_classic_poller_check_key_b_is_readable_def trailer_block_eq)
next
  case True
  let ?e = "mp_data p"
  have e: "data_ok ?e" using k by (simp add: knows_def)
  have same: "mfc_block ?e ! m ! i = mfc_block d ! m ! i" if "6 \<le> i" "i < 10" for i
    using k m read that True by (simp add: knows_def byte_known_def)
  note acc = keyB_access [OF d e m True same, of MfClassicKeyTypeA MfClassicActionKeyBRead]
  obtain ok where ok: "mf_classic_is_allowed_access d (of_nat m) MfClassicKeyTypeA MfClassicActionKeyBRead = Some ok"
    using access_ok [OF d] by blast
  show ?thesis
  proof (cases ok)
    case False
    then show ?thesis using m True k acc ok
      by (intro exI [of _ ?e]) (simp add: mf_classic_poller_check_key_b_is_readable_def trailer_block_eq)
  next
    case ok': True
    have len: "length (mfc_block d ! m) = 16" "length bs = 16" using d m bs by (simp_all add: data_ok_def sent_of_def)
    have "take 6 (drop 10 bs) = take 6 (drop 10 (mfc_block d ! m))"
      by (rule nth_equalityI) (use len bs ok ok' True in \<open>simp_all add: sent_of_def\<close>)
    moreover obtain v e' where v: "bit_lib_bytes_to_num_be (take 6 (drop 10 (mfc_block d ! m))) 6 = Some v"
      "mf_classic_set_key_found ?e (mf_classic_get_sector_by_block (of_nat m)) MfClassicKeyTypeB v = Some e'"
      "takes_over d m (\<lambda>i. 10 \<le> i) False (\<lambda>u. u = MfClassicKeyTypeB) ?e e'"
      using key_takes_over [OF d e m True sector_u8 [OF m], of MfClassicKeyTypeB] by auto
    ultimately have "mf_classic_poller_check_key_b_is_readable p (of_nat m) bs = Some (p\<lparr>mp_data := e'\<rparr>)"
      using m True acc ok ok' by (simp add: mf_classic_poller_check_key_b_is_readable_def trailer_block_eq)
    moreover have "knows d e'"
      by (rule knows_takes_over [OF k v(3)])
        (use v(3) True sector_of_less [OF m] m in \<open>auto simp: byte_known_def takes_over_def split: if_splits\<close>)
    ultimately show ?thesis using grows_takes_over [OF v(3)] by (intro exI [of _ e']) simp
  qed
qed

subsection \<open>One step of the read mode\<close>

text \<open>The reader is in a session for sector \<open>s\<close> with a key of type \<open>kt\<close>, and what it knows is right.\<close>

definition ready :: "MfClassicData \<Rightarrow> u8 \<Rightarrow> MfClassicKeyType \<Rightarrow> MfClassicListener MfClassicPoller \<Rightarrow> bool" where
  "ready d s kt p \<longleftrightarrow> in_session p \<and> ml_data (emulated p) = d \<and>
     mf_classic_get_sector_by_block (ac_block_num (ml_auth_context (emulated p))) = s \<and> ac_key_type (ml_auth_context (emulated p)) = kt \<and>
     knows d (mp_data p) \<and> key_at (mp_data p) kt (unat s)"

text \<open>A step that only learns.\<close>

definition learns :: "'n MfClassicPoller \<Rightarrow> 'n MfClassicPoller \<Rightarrow> bool" where
  "learns p p' \<longleftrightarrow> same_mode p p' \<and> grows (mp_data p) (mp_data p')"

lemma block_stored:
  assumes d: "data_ok d" and k: "knows d (mp_data p)" and m: "m < 256" and bs: "sent_of d m kt bs"
  shows "\<exists>e p'. mf_classic_set_block_read (mp_data p) (of_nat m) bs = Some e \<and>
    (if kt = MfClassicKeyTypeA then mf_classic_poller_check_key_b_is_readable (p\<lparr>mp_data := e\<rparr>) (of_nat m) bs else Some (p\<lparr>mp_data := e\<rparr>)) =
      Some p' \<and> p' = p\<lparr>mp_data := mp_data p'\<rparr> \<and> knows d (mp_data p') \<and>
    read_at (mp_data p') m \<and> grows (mp_data p) (mp_data p')"
proof -
  have e0: "data_ok (mp_data p)" using k by (simp add: knows_def)
  have len: "length bs = 16" using bs by (simp add: sent_of_def)
  have "bs ! i = mfc_block d ! m ! i" if "i < 16" "trailer_block m \<longrightarrow> 6 \<le> i \<and> i < 10" for i
    using bs that by (auto simp: sent_of_def)
  then obtain e where e: "mf_classic_set_block_read (mp_data p) (of_nat m) bs = Some e"
    "takes_over d m (\<lambda>i. trailer_block m \<longrightarrow> 6 \<le> i \<and> i < 10) True (\<lambda>_. False) (mp_data p) e"
    using block_takes_over [OF d e0 m len] by blast
  have s: "sector_of m < 40" by (rule sector_of_less [OF m])
  have ke: "knows d e"
    by (rule knows_takes_over [OF k e(2)]) (use e(2) s m in \<open>auto simp: byte_known_def takes_over_def split: if_splits\<close>)
  have re: "read_at e m" using e(2) m by (simp add: takes_over_def)
  note gr = grows_takes_over [OF e(2)]
  show ?thesis
  proof (cases "kt = MfClassicKeyTypeA")
    case False
    then show ?thesis using e(1) ke re gr by (intro exI [of _ e] exI [of _ "p\<lparr>mp_data := e\<rparr>"]) simp
  next
    case True
    obtain f where f: "mf_classic_poller_check_key_b_is_readable (p\<lparr>mp_data := e\<rparr>) (of_nat m) bs = Some (p\<lparr>mp_data := f\<rparr>)" "knows d f"
      "grows e f"
      using key_b_checked [of d "p\<lparr>mp_data := e\<rparr>" m bs] ke d m bs re True by auto
    have "read_at f m" using f(3) re m by (simp add: grows_def)
    moreover have "grows (mp_data p) f" by (rule grows_trans [OF gr f(3)])
    ultimately show ?thesis using True e(1) f(1,2) by (intro exI [of _ e] exI [of _ "p\<lparr>mp_data := f\<rparr>"]) simp
  qed
qed

lemma block_read:
  assumes r: "ready d s kt p" and s: "readable_sector d s kt" "unat s < 40" and m: "m < 256" "sector_of m = unat s"
    and ctx: "rc_current_block (read_ctx p) = of_nat m" "rc_key_type (read_ctx p) = kt"
  shows "\<exists>p'. read_current_block (air random) p = Some p' \<and> ready d s kt p' \<and> learns p p' \<and> read_at (mp_data p') m"
proof -
  have p: "in_session p" and data: "ml_data (emulated p) = d" "ac_key_type (ml_auth_context (emulated p)) = kt"
    and sec: "mf_classic_get_sector_by_block (ac_block_num (ml_auth_context (emulated p))) = s"
    and k: "knows d (mp_data p)" and key: "key_at (mp_data p) kt (unat s)"
    using r by (simp_all add: ready_def)
  have st: "listener_static (emulated p)" using session_card [OF p] by (simp add: listener_ok_def)
  then have d: "data_ok d" using data(1) by (simp add: static_defs)
  have e: "data_ok (mp_data p)" using k by (simp add: knows_def)
  have block: "(ucast (rc_current_block (read_ctx p)) :: u8) = of_nat m" using ctx(1) block_cast [OF m(1)] by simp
  have ms: "mf_classic_get_sector_by_block (of_nat m) = s" using sector_u8_eq [OF s(2) m(1)] m(2) by simp
  show ?thesis
  proof (cases "read_at (mp_data p) m")
    case True
    then show ?thesis using r is_read_eq [OF e m(1)]
      by (intro exI [of _ p]) (simp add: read_current_block_def block learns_def mode_defs)
  next
    case False
    obtain bs where bs: "readable_block (emulated p) (of_nat m) (mfc_block d ! m) = Some (Some bs)" "sent_of d m kt bs"
      using card_sends [OF st data(2,1) s(1) m(1) ms] by blast
    have len: "length bs = 16" using bs(2) by (simp add: sent_of_def)
    have "in_auth_sector (emulated p) (of_nat m)" using ms sec by (simp add: in_auth_sector_def)
    then obtain q where q: "mf_classic_poller_read_block (air random) p (of_nat m) (replicate 16 0) = Some (MfClassicErrorNone, q, bs)"
      "in_session q" "same_card (emulated p) (emulated q)" "same_mode p q" "mp_data q = mp_data p"
      using read_in_session [OF p _ _ len, of "of_nat m" "replicate 16 0" random] bs(1) data(1) m(1) by (auto simp: unat_block)
    obtain f p' where f: "mf_classic_set_block_read (mp_data q) (of_nat m) bs = Some f"
      "(if kt = MfClassicKeyTypeA then mf_classic_poller_check_key_b_is_readable (q\<lparr>mp_data := f\<rparr>) (of_nat m) bs else Some (q\<lparr>mp_data := f\<rparr>)) =
        Some p'" "p' = q\<lparr>mp_data := mp_data p'\<rparr>" "knows d (mp_data p')"
      "read_at (mp_data p') m" "grows (mp_data q) (mp_data p')"
      using block_stored [OF d _ m(1) bs(2), of q] k q(5) by auto
    have "rc_key_type (read_ctx q) = kt" using q(4) ctx(2) by (simp add: mode_defs)
    then have "read_current_block (air random) p = Some p'"
      using q(1) f(1,2) False is_read_eq [OF e m(1)] by (cases "kt = MfClassicKeyTypeA") (simp_all add: read_current_block_def block)
    moreover have "ready d s kt p'"
    proof -
      obtain x where x: "p' = q\<lparr>mp_data := x\<rparr>" using f(3) by blast
      have "in_session p'" using q(2) unfolding x by (simp add: in_session_def linked_def reader_ok_def)
      moreover have "emulated p' = emulated q" unfolding x by simp
      moreover have "key_at (mp_data p') kt (unat s)" using f(6) key q(5) s(2) by (simp add: grows_def)
      ultimately show ?thesis using f(4) q(3) data sec by (simp add: ready_def same_card_def)
    qed
    moreover have "learns p p'"
    proof -
      obtain x where x: "p' = q\<lparr>mp_data := x\<rparr>" using f(3) by blast
      have "same_mode q p'" unfolding x by (simp add: mode_defs)
      then show ?thesis using q(4,5) f(6) by (simp add: learns_def mode_defs)
    qed
    ultimately show ?thesis using f(5) by blast
  qed
qed

subsection \<open>Events of the thread\<close>

text \<open>The poller is active from the activation of a card to its halt.\<close>

abbreviation lower_state :: "'n MfClassicPoller \<Rightarrow> Iso14443_3aPollerState" where
  "lower_state p \<equiv> p3_state (mp_iso14443_3a_poller p)"

text \<open>Data of a card that the collision resolution can find: a UID of 4, 7 or 10 bytes, padded with zeros, and a SAK
  without the bit for an unfinished UID.\<close>

definition standard_card :: "Iso14443_3aData \<Rightarrow> bool" where
  "standard_card d \<longleftrightarrow> unat (i3_uid_len d) \<in> {4, 7, 10} \<and> length (i3_uid d) = 10 \<and>
     drop (unat (i3_uid_len d)) (i3_uid d) = replicate (10 - unat (i3_uid_len d)) 0 \<and> length (i3_atqa d) = 2 \<and> i3_sak d AND 4 = 0"

lemma standard_card_data:
  assumes "standard_card d"
  shows "\<lparr>i3_uid = take (unat (i3_uid_len d)) (i3_uid d) @ replicate (10 - unat (i3_uid_len d)) 0,
    i3_uid_len = of_nat (unat (i3_uid_len d)), i3_atqa = i3_atqa d, i3_sak = i3_sak d\<rparr> = d"
proof -
  have "take (unat (i3_uid_len d)) (i3_uid d) @ replicate (10 - unat (i3_uid_len d)) 0 = i3_uid d"
    using assms append_take_drop_id [of "unat (i3_uid_len d)" "i3_uid d"] by (simp only: standard_card_def)
  then show ?thesis by simp
qed

lemma card_activated:
  assumes p: "selected p" "lower_state p = Iso14443_3aPollerStateIdle" and std: "standard_card (mfc_iso14443_3a_data (ml_data (emulated p)))"
  shows "\<exists>iso. iso14443_3a_poller_activate (air random) (mp_iso14443_3a_poller p) = Some (Iso14443_3aErrorNone, iso) \<and>
    p3_state iso = Iso14443_3aPollerStateActivated \<and> p3_nfc iso = emulated p \<and> selected (p\<lparr>mp_iso14443_3a_poller := iso\<rparr>)"
proof -
  let ?d = "mfc_iso14443_3a_data (ml_data (emulated p))" and ?iso = "mp_iso14443_3a_poller p"
  let ?q = "?iso\<lparr>p3_col_res := col_res_reset\<rparr>"
  let ?uid = "take (unat (i3_uid_len ?d)) (i3_uid ?d)"
  have d: "p3_data ?iso = ?d" and ok: "reader_ok p" using p(1) by (simp_all add: selected_def)
  have q: "poller_ok ?q" using ok std d by (simp add: poller_ok_def reader_ok_def standard_card_def col_res_reset_def)
  have uid: "length ?uid = unat (i3_uid_len ?d)" "length ?uid \<in> {4, 7, 10}" using std by (auto simp: standard_card_def)
  have res: "resolves (air random) n ?uid (i3_atqa ?d) (i3_sak ?d)"
    if "p3_state ?q = Iso14443_3aPollerStateIdle \<longrightarrow> n = p3_nfc ?q" for n
    using that p(2) by (intro air_resolves) simp
  obtain iso where iso: "iso14443_3a_poller_activate (air random) ?q = Some (Iso14443_3aErrorNone, iso)" "poller_ok iso"
    "kept ?q iso" "p3_state iso = Iso14443_3aPollerStateActivated"
    "p3_data iso = \<lparr>i3_uid = ?uid @ replicate (10 - length ?uid) 0, i3_uid_len = of_nat (length ?uid), i3_atqa = i3_atqa ?d,
       i3_sak = i3_sak ?d\<rparr>"
    using activate_resolves [OF air_driver_ok q uid(2) _ _ res] std p(2) by (auto simp: standard_card_def)
  have "iso14443_3a_poller_activate (air random) ?iso = iso14443_3a_poller_activate (air random) ?q"
    by (simp add: iso14443_3a_poller_activate_def)
  moreover have "p3_data iso = ?d" using iso(5) standard_card_data [OF std] by (simp only: uid(1))
  ultimately show ?thesis using iso p(1) by (intro exI [of _ iso]) (simp add: kept_def selected_def reader_ok_def poller_ok_def)
qed

text \<open>An event for an active poller is handed on, and one for an idle poller after the activation of the card.\<close>

lemma active_event:
  assumes "lower_state p = Iso14443_3aPollerStateActivated" "run Iso14443_3aPollerEventTypeReady p a = Some (c, p', a')"
    and "c \<noteq> NfcCommandReset"
  shows "nfc_poller_start_callback drv run p a = Some (c, p', a')"
  using assms by (simp add: nfc_poller_start_callback_def iso14443_3a_poller_run_def)

lemma ready_event:
  assumes p: "selected p" and st: "lower_state p \<in> {Iso14443_3aPollerStateIdle, Iso14443_3aPollerStateActivated}"
    and std: "standard_card (mfc_iso14443_3a_data (ml_data (emulated p)))"
  shows "\<exists>iso. p3_state iso = Iso14443_3aPollerStateActivated \<and> p3_nfc iso = emulated p \<and> selected (p\<lparr>mp_iso14443_3a_poller := iso\<rparr>) \<and>
    (\<forall>c p' a'. run Iso14443_3aPollerEventTypeReady (p\<lparr>mp_iso14443_3a_poller := iso\<rparr>) a = Some (c, p', a') \<longrightarrow>
       c \<noteq> NfcCommandReset \<longrightarrow> nfc_poller_start_callback (air random) run p a = Some (c, p', a'))"
proof (cases "lower_state p = Iso14443_3aPollerStateActivated")
  case True
  have same: "p\<lparr>mp_iso14443_3a_poller := mp_iso14443_3a_poller p\<rparr> = p" by simp
  have "\<forall>c p' a'. run Iso14443_3aPollerEventTypeReady p a = Some (c, p', a') \<longrightarrow> c \<noteq> NfcCommandReset \<longrightarrow>
      nfc_poller_start_callback (air random) run p a = Some (c, p', a')"
    by (intro allI impI active_event [OF True])
  then show ?thesis using True p by (intro exI [of _ "mp_iso14443_3a_poller p"]) (simp only: same simp_thms)
next
  case False
  then have idle: "lower_state p = Iso14443_3aPollerStateIdle" using st by simp
  obtain iso where iso: "iso14443_3a_poller_activate (air random) (mp_iso14443_3a_poller p) = Some (Iso14443_3aErrorNone, iso)"
    "p3_state iso = Iso14443_3aPollerStateActivated" "p3_nfc iso = emulated p" "selected (p\<lparr>mp_iso14443_3a_poller := iso\<rparr>)"
    using card_activated [OF p idle std] by blast
  have same: "iso\<lparr>p3_state := Iso14443_3aPollerStateActivated\<rparr> = iso" using iso(2) by simp
  have "\<forall>c p' a'. run Iso14443_3aPollerEventTypeReady (p\<lparr>mp_iso14443_3a_poller := iso\<rparr>) a = Some (c, p', a') \<longrightarrow>
      c \<noteq> NfcCommandReset \<longrightarrow> nfc_poller_start_callback (air random) run p a = Some (c, p', a')"
    by (intro allI impI) (use iso(1) idle in \<open>simp add: nfc_poller_start_callback_def iso14443_3a_poller_run_def same\<close>)
  then show ?thesis using iso by blast
qed

subsection \<open>The sector\<close>

lemma trailer_in_sector: "s < 40 \<Longrightarrow> trailer_block (trailer_of s) \<and> sector_of (trailer_of s) = s \<and> trailer_of s < 256"
  by (simp add: trailer_block_def sector_of_trailer trailer_of_less)

lemma first_sector: "s < 40 \<Longrightarrow> sector_of (first_of s) = s \<and> first_of s < 256"
  by (rule in_sector) (simp_all add: first_of_eq trailer_of_def)

lemma key_of_sector:
  "s < 40 \<Longrightarrow> sector_key_of d (of_nat (first_of s)) kt =
    (case kt of MfClassicKeyTypeA \<Rightarrow> take 6 (mfc_block d ! trailer_of s) | MfClassicKeyTypeB \<Rightarrow> take 6 (drop 10 (mfc_block d ! trailer_of s)))"
  using first_sector [of s] by (cases kt) (simp_all add: sector_key_of_def sector_key_def unat_block)

lemma sector_key_learned:
  assumes k: "knows d e" and d: "data_ok d" and s: "unat s < 40"
  shows "\<exists>key f found. bit_lib_bytes_to_num_be (sector_key_of d (of_nat (first_of (unat s))) kt) 6 = Some key \<and>
    mf_classic_is_key_found e s kt = Some found \<and>
    (if \<not> found then mf_classic_set_key_found e s kt key else Some e) = Some f \<and> knows d f \<and> key_at f kt (unat s) \<and>
    grows e f"
proof -
  let ?t = "trailer_of (unat s)"
  have e: "data_ok e" using k by (simp add: knows_def)
  have t: "trailer_block ?t" "sector_of ?t = unat s" "?t < 256" using trailer_in_sector [OF s] by simp_all
  obtain key f where f: "bit_lib_bytes_to_num_be (sector_key_of d (of_nat (first_of (unat s))) kt) 6 = Some key"
    "mf_classic_set_key_found e s kt key = Some f"
    "takes_over d ?t (\<lambda>i. if kt = MfClassicKeyTypeA then i < 6 else 10 \<le> i) False (\<lambda>u. u = kt) e f"
    using key_takes_over [OF d e t(3,1) t(2) [symmetric], of kt] unfolding key_of_sector [OF s] by blast
  have "knows d f"
    by (rule knows_takes_over [OF k f(3)])
      (use f(3) t s in \<open>auto simp: byte_known_def takes_over_def split: if_splits MfClassicKeyType.splits\<close>)
  have "key_at f kt (unat s)" using f(3) s by (simp add: takes_over_def)
  have "grows e f" by (rule grows_takes_over [OF f(3)])
  show ?thesis
  proof (cases "key_at e kt (unat s)")
    case True
    then show ?thesis using f(1) k is_found_eq [OF s, of e kt] by (intro exI [of _ key] exI [of _ e] exI [of _ True]) simp
  next
    case False
    then show ?thesis using f(1,2) is_found_eq [OF s, of e kt] \<open>knows d f\<close> \<open>key_at f kt (unat s)\<close> \<open>grows e f\<close>
      by (intro exI [of _ key] exI [of _ f] exI [of _ False]) simp
  qed
qed

definition read_context :: "u8 \<Rightarrow> nat \<Rightarrow> MfClassicKeyType \<Rightarrow> bytes \<Rightarrow> bool \<Rightarrow> MfClassicPollerReadContext" where
  "read_context s m kt key passed = \<lparr>rc_current_sector = s, rc_current_block = of_nat m, rc_key_type = kt, rc_key = key, auth_passed = passed\<rparr>"

text \<open>Between two blocks of the sector, and after the last one.\<close>

definition at_block :: "MfClassicData \<Rightarrow> MfClassicData \<Rightarrow> u8 \<Rightarrow> MfClassicKeyType \<Rightarrow> bytes \<Rightarrow> nat \<Rightarrow> MfClassicListener MfClassicPoller \<Rightarrow> bool" where
  "at_block d e s kt key m p \<longleftrightarrow> ready d s kt p \<and> grows e (mp_data p) \<and> read_ctx p = read_context s m kt key True \<and>
     mp_state p = MfClassicPollerStateReadSectorBlocks \<and> mp_card_state p = MfClassicCardStateDetected \<and>
     lower_state p = Iso14443_3aPollerStateActivated \<and> (\<forall>n. first_of (unat s) \<le> n \<longrightarrow> n < m \<longrightarrow> read_at (mp_data p) n)"

definition sector_read :: "MfClassicData \<Rightarrow> MfClassicData \<Rightarrow> u8 \<Rightarrow> MfClassicKeyType \<Rightarrow> MfClassicListener MfClassicPoller \<Rightarrow> bool" where
  "sector_read d e s kt p \<longleftrightarrow> selected p \<and> lower_state p = Iso14443_3aPollerStateIdle \<and> grows e (mp_data p) \<and>
     mp_card_state p = MfClassicCardStateDetected \<and> ml_data (emulated p) = d \<and> mp_state p = MfClassicPollerStateRequestReadSector \<and>
     knows d (mp_data p) \<and> key_at (mp_data p) kt (unat s) \<and> (\<forall>n < 256. sector_of n = unat s \<longrightarrow> read_at (mp_data p) n)"

lemma auth_before_first:
  assumes p: "selected p" "ml_data (emulated p) = d" "knows d (mp_data p)" and s: "unat s < 40" "first_of (unat s) < total_block_num (emulated p)"
    and ctx: "read_ctx p = read_context s (first_of (unat s)) kt (sector_key_of d (of_nat (first_of (unat s))) kt) False"
    and st: "mp_state p = MfClassicPollerStateReadSectorBlocks" "mp_card_state p = MfClassicCardStateDetected"
      "lower_state p = Iso14443_3aPollerStateActivated"
    and nt: "plain_nonce nt" and nr: "length nr = 4"
  shows "\<exists>p'. auth_sector_once (air nt) nr p = Some (True, p') \<and>
    at_block d (mp_data p) s kt (sector_key_of d (of_nat (first_of (unat s))) kt) (first_of (unat s)) p'"
proof -
  let ?m = "first_of (unat s)" and ?k = "sector_key_of d (of_nat (first_of (unat s))) kt"
  have m: "sector_of ?m = unat s" "?m < 256" using first_sector [OF s(1)] by simp_all
  have d: "data_ok d" using p(1,2) by (auto simp: selected_def listener_ok_def static_defs)
  have block: "(ucast (rc_current_block (read_ctx p)) :: u8) = of_nat ?m" using block_cast [OF m(2)] by (simp add: ctx read_context_def)
  have n: "unat (of_nat ?m :: u8) < total_block_num (emulated p)" using s(2) m(2) by (simp add: unat_block)
  obtain q where q: "mf_classic_poller_auth (air nt) nr p (of_nat ?m) ?k kt None False = Some (MfClassicErrorNone, q, None)"
    "in_session q" "ml_data (emulated q) = d" "ac_block_num (ml_auth_context (emulated q)) = of_nat ?m" "ac_key_type (ml_auth_context (emulated q)) = kt"
    "same_mode p q" "mp_data q = (mp_data p)\<lparr>mfc_iso14443_3a_data := mfc_iso14443_3a_data d\<rparr>"
    using auth_opens_session [OF p(1) n nt nr, of kt] p(2) by auto
  have kq: "knows d (mp_data q)" using p(3) q(7) by simp
  obtain key f found where f: "bit_lib_bytes_to_num_be ?k 6 = Some key" "mf_classic_is_key_found (mp_data q) s kt = Some found"
    "(if \<not> found then mf_classic_set_key_found (mp_data q) s kt key else Some (mp_data q)) = Some f"
    "knows d f" "key_at f kt (unat s)" "grows (mp_data q) f"
    using sector_key_learned [OF kq d s(1)] by blast
  have gr: "grows (mp_data p) f" using f(6) q(7) by simp
  have rq: "read_ctx q = read_ctx p" "mp_state q = mp_state p" "mp_card_state q = mp_card_state p" "lower_state q = lower_state p"
    using q(6) by (simp_all add: mode_defs)
  let ?p' = "q\<lparr>read_ctx := (read_ctx q)\<lparr>auth_passed := True\<rparr>, mp_data := f\<rparr>"
  have "auth_sector_once (air nt) nr p = Some (True, ?p')"
    using f(1-3) q(1) rq(1) block by (cases found) (simp_all add: auth_sector_once_def ctx read_context_def)
  moreover have "in_session ?p'" using q(2) by (simp add: in_session_def linked_def reader_ok_def)
  moreover have "mf_classic_get_sector_by_block (of_nat ?m) = s" using sector_u8_eq [OF s(1) m(2)] m(1) by simp
  ultimately show ?thesis
    using q(3-5) f(4,5) gr rq st by (intro exI [of _ ?p']) (simp add: at_block_def ready_def ctx read_context_def)
qed

lemma block_compare: "m \<le> t \<Longrightarrow> t < 256 \<Longrightarrow> (ucast (of_nat t :: u8) < (of_nat m + 1 :: u16)) = (m = t)"
proof -
  assume m: "m \<le> t" "t < 256"
  have "of_nat m + 1 = (of_nat (Suc m) :: u16)" by simp
  then have "unat (of_nat m + 1 :: u16) = Suc m mod 2 ^ 16" by (simp only: unat_of_nat) simp
  with m show ?thesis by (auto simp: unsigned_of_nat take_bit_nat_eq_self word_less_nat_alt unat_of_nat)
qed

lemma sector_step:
  assumes a: "auth_sector_once (air nt) nr p = Some (True, q)" and q: "at_block d e s kt key m q"
    and s: "readable_sector d s kt" "unat s < 40" and m: "first_of (unat s) \<le> m" "m \<le> trailer_of (unat s)"
  shows "\<exists>p'. mf_classic_poller_handler_request_read_sector_blocks (air nt) nr p = Some (NfcCommandContinue, p') \<and>
    (if m = trailer_of (unat s) then sector_read d e s kt p' else at_block d e s kt key (Suc m) p')"
proof -
  have ms: "sector_of m = unat s" "m < 256" using in_sector [OF s(2) m] by simp_all
  have ctx: "read_ctx q = read_context s m kt key True" and r: "ready d s kt q" using q by (simp_all add: at_block_def)
  obtain x where x: "read_current_block (air nt) q = Some x" "ready d s kt x" "learns q x" "read_at (mp_data x) m"
    using block_read [OF r s ms(2,1)] by (auto simp: ctx read_context_def)
  have rx: "read_ctx x = read_context s m kt key True" "mp_state x = mp_state q" "mp_card_state x = mp_card_state q"
    "lower_state x = lower_state q"
    using x(3) ctx by (simp_all add: learns_def mode_defs)
  have reads: "read_at (mp_data x) n" if "first_of (unat s) \<le> n" "n \<le> m" for n
    using that x(3,4) q ms(2) by (cases "n = m") (auto simp: learns_def at_block_def grows_def)
  have gr: "grows e (mp_data x)" using x(3) q grows_trans by (auto simp: learns_def at_block_def)
  let ?y = "x\<lparr>read_ctx := (read_ctx x)\<lparr>rc_current_block := rc_current_block (read_ctx x) + 1\<rparr>\<rparr>"
  have ry: "read_ctx ?y = read_context s (Suc m) kt key True" by (simp add: rx(1) read_context_def)
  have tr: "mf_classic_get_sector_trailer_num_by_sector s = Some (of_nat (trailer_of (unat s)))" by (rule trailer_by_sector [OF s(2)])
  have cmp: "((ucast (of_nat (trailer_of (unat s)) :: u8) :: u16) < of_nat m + 1) = (m = trailer_of (unat s))"
    by (rule block_compare [OF m(2) trailer_of_less [OF s(2)]])
  have y: "in_session ?y" using x(2) by (simp add: ready_def in_session_def linked_def reader_ok_def)
  show ?thesis
  proof (cases "m = trailer_of (unat s)")
    case False
    have "mf_classic_poller_handler_request_read_sector_blocks (air nt) nr p = Some (NfcCommandContinue, ?y)"
      using a x(1) tr cmp False by (simp add: mf_classic_poller_handler_request_read_sector_blocks_def rx(1) read_context_def)
    moreover have "at_block d e s kt key (Suc m) ?y"
      using x(2) y ry rx(2-4) q reads gr by (simp add: at_block_def ready_def less_Suc_eq_le)
    ultimately show ?thesis using False by (intro exI [of _ ?y]) simp
  next
    case True
    obtain h where h: "mf_classic_poller_halt (air nt) ?y = Some (MfClassicErrorNone, h)" "reader_ok h" "listener_ok (emulated h)"
      "ml_comm_state (emulated h) = MfClassicListenerCommStatePlain" "\<not> cmd_in_progress (emulated h)" "ml_data (emulated h) = ml_data (emulated ?y)"
      "p3_data (mp_iso14443_3a_poller h) = p3_data (mp_iso14443_3a_poller ?y)" "mp_data h = mp_data ?y" "same_context ?y h"
      "lower_state h = Iso14443_3aPollerStateIdle"
      using halt_in_session [OF y] by blast
    let ?z = "h\<lparr>mp_state := MfClassicPollerStateRequestReadSector\<rparr>"
    have "mf_classic_poller_handler_request_read_sector_blocks (air nt) nr p = Some (NfcCommandContinue, ?z)"
      using a x(1) tr cmp True h(1) by (simp add: mf_classic_poller_handler_request_read_sector_blocks_def rx(1) read_context_def)
    moreover have "p3_data (mp_iso14443_3a_poller x) = mfc_iso14443_3a_data (ml_data (emulated x))"
      using x(2) by (intro linked_data) (simp add: ready_def in_session_def)
    then have "selected ?z" using h(2-7) by (simp add: selected_def reader_ok_def)
    moreover have "read_at (mp_data x) n" if "n < 256" "sector_of n = unat s" for n
      using reads block_in_sector [OF that(1)] that(2) True by (simp add: first_of_def)
    ultimately show ?thesis
      using True h(6,8-10) x(2) gr rx(3) q by (intro exI [of _ ?z]) (simp add: sector_read_def ready_def same_context_def at_block_def)
  qed
qed

subsection \<open>The read mode\<close>

lemma run_sector_blocks:
  assumes "mp_state p = MfClassicPollerStateReadSectorBlocks" "mp_card_state p = MfClassicCardStateDetected"
    and "lower_state p = Iso14443_3aPollerStateActivated"
    and "mf_classic_poller_handler_request_read_sector_blocks drv random p = Some (NfcCommandContinue, p')"
  shows "nfc_poller_start_callback drv (mf_classic_poller_run attack drv random callback) p a = Some (NfcCommandContinue, p', a)"
  by (rule active_event [OF assms(3)])
    (use assms in \<open>simp_all add: mf_classic_poller_run_def mf_classic_poller_dict_attack_handler_def keep_context_def\<close>)

text \<open>The blocks of a sector: one event for each.\<close>

lemma rest_of_sector:
  assumes s: "readable_sector d s kt" "unat s < 40" and first: "first_of (unat s) \<le> m"
    and p: "auth_sector_once (air nt) nr p = Some (True, q)" "at_block d e s kt key m q"
      "mp_state p = MfClassicPollerStateReadSectorBlocks" "mp_card_state p = MfClassicCardStateDetected"
      "lower_state p = Iso14443_3aPollerStateActivated"
    and k: "m + k = trailer_of (unat s)"
    and run: "run = nfc_poller_start_callback (air nt) (mf_classic_poller_run attack (air nt) nr callback)"
  shows "\<exists>p'. (\<forall>n. nfc_worker_poller (Suc k + n) reset run p a = nfc_worker_poller n reset run p' a) \<and> sector_read d e s kt p'"
  using first p k
proof (induction k arbitrary: m p q)
  case 0
  obtain x where x: "mf_classic_poller_handler_request_read_sector_blocks (air nt) nr p = Some (NfcCommandContinue, x)"
    "sector_read d e s kt x"
    using sector_step [OF 0(2,3) s 0(1)] 0(7) by auto
  have "run p a = Some (NfcCommandContinue, x, a)" unfolding run by (rule run_sector_blocks [OF 0(4-6) x(1)])
  from worker_goes_on [of run, OF this] x(2) show ?case by (intro exI [of _ x]) simp
next
  case (Suc k)
  have le: "m \<le> trailer_of (unat s)" "m \<noteq> trailer_of (unat s)" using Suc.prems(7) by auto
  obtain x where x: "mf_classic_poller_handler_request_read_sector_blocks (air nt) nr p = Some (NfcCommandContinue, x)"
    "at_block d e s kt key (Suc m) x"
    using sector_step [OF Suc.prems(2,3) s Suc.prems(1) le(1)] le(2) by auto
  have once: "auth_sector_once (air nt) nr x = Some (True, x)"
    using x(2) by (simp add: auth_sector_once_def at_block_def read_context_def)
  have st: "mp_state x = MfClassicPollerStateReadSectorBlocks" "mp_card_state x = MfClassicCardStateDetected"
    "lower_state x = Iso14443_3aPollerStateActivated"
    using x(2) by (simp_all add: at_block_def)
  have le': "first_of (unat s) \<le> Suc m" "Suc m + k = trailer_of (unat s)" using Suc.prems(1,7) by simp_all
  obtain p' where p': "\<forall>n. nfc_worker_poller (Suc k + n) reset run x a = nfc_worker_poller n reset run p' a" "sector_read d e s kt p'"
    using Suc.IH [OF le'(1) once x(2) st le'(2)] by blast
  have "run p a = Some (NfcCommandContinue, x, a)" unfolding run by (rule run_sector_blocks [OF Suc.prems(4-6) x(1)])
  then have "nfc_worker_poller (Suc (Suc k + n)) reset run p a = nfc_worker_poller (Suc k + n) reset run x a" for n
    by (rule worker_goes_on)
  with p' show ?case by (intro exI [of _ p']) (simp del: nfc_worker_poller.simps)
qed

text \<open>The poller asks the application for a sector and a key, after it has activated the card again when the last sector
  ended with a halt; when it is the key of this sector on the card, one event per block brings the sector over.\<close>

lemma sector_request:
  assumes p: "selected p" "mp_state p = MfClassicPollerStateRequestReadSector" "mp_card_state p = MfClassicCardStateDetected"
      "knows (ml_data (emulated p)) (mp_data p)" "lower_state p \<in> {Iso14443_3aPollerStateIdle, Iso14443_3aPollerStateActivated}"
      "standard_card (mfc_iso14443_3a_data (ml_data (emulated p)))"
    and asked: "callback MfClassicPollerEventTypeRequestReadSector a = (NfcCommandContinue, ans, a')" "rs_key_provided ans"
      "rs_key ans = sector_key_of (ml_data (emulated p)) (of_nat (first_of (unat (rs_sector_num ans)))) (rs_key_type ans)"
    and s: "unat (rs_sector_num ans) < 40" "first_of (unat (rs_sector_num ans)) < total_block_num (emulated p)"
      "readable_sector (ml_data (emulated p)) (rs_sector_num ans) (rs_key_type ans)"
    and nt: "plain_nonce nt" and nr: "length nr = 4"
    and run: "run = nfc_poller_start_callback (air nt) (mf_classic_poller_run attack (air nt) nr callback)"
  shows "\<exists>p'. (\<forall>n. nfc_worker_poller (Suc (sector_length (unat (rs_sector_num ans))) + n) reset run p a =
      nfc_worker_poller n reset run p' a') \<and>
    sector_read (ml_data (emulated p)) (mp_data p) (rs_sector_num ans) (rs_key_type ans) p'"
proof -
  let ?s = "rs_sector_num ans" and ?kt = "rs_key_type ans" and ?d = "ml_data (emulated p)"
  let ?m = "first_of (unat ?s)"
  have m: "sector_of ?m = unat ?s" "?m < 256" using first_sector [OF s(1)] by simp_all
  let ?run = "mf_classic_poller_run attack (air nt) nr callback"
  obtain iso where iso: "p3_state iso = Iso14443_3aPollerStateActivated" "p3_nfc iso = emulated p" "selected (p\<lparr>mp_iso14443_3a_poller := iso\<rparr>)"
    "\<forall>c p' a'. ?run Iso14443_3aPollerEventTypeReady (p\<lparr>mp_iso14443_3a_poller := iso\<rparr>) a = Some (c, p', a') \<longrightarrow>
       c \<noteq> NfcCommandReset \<longrightarrow> nfc_poller_start_callback (air nt) ?run p a = Some (c, p', a')"
    using ready_event [OF p(1,5,6), of ?run a nt] by blast
  let ?x = "p\<lparr>mp_iso14443_3a_poller := iso, read_ctx := read_context ?s ?m ?kt (rs_key ans) False,
    mp_state := MfClassicPollerStateReadSectorBlocks\<rparr>"
  have "mf_classic_poller_run attack (air nt) nr callback Iso14443_3aPollerEventTypeReady (p\<lparr>mp_iso14443_3a_poller := iso\<rparr>) a =
      Some (NfcCommandContinue, ?x, a')"
    using p(2,3) asked(1,2) m(2)
    by (simp add: mf_classic_poller_run_def mf_classic_poller_dict_attack_handler_def mf_classic_poller_handler_request_read_sector_def
      first_block [OF s(1)] read_context_def unsigned_of_nat take_bit_nat_eq_self)
  then have one: "run p a = Some (NfcCommandContinue, ?x, a')" unfolding run using iso(4) by simp
  have x: "selected ?x" "ml_data (emulated ?x) = ?d" "knows ?d (mp_data ?x)" "?m < total_block_num (emulated ?x)"
    "read_ctx ?x = read_context ?s ?m ?kt (sector_key_of ?d (of_nat ?m) ?kt) False"
    "mp_state ?x = MfClassicPollerStateReadSectorBlocks" "mp_card_state ?x = MfClassicCardStateDetected"
    "lower_state ?x = Iso14443_3aPollerStateActivated"
    using p s(2) asked(3) iso(1-3) by (simp_all add: selected_def reader_ok_def)
  obtain q where q: "auth_sector_once (air nt) nr ?x = Some (True, q)" "at_block ?d (mp_data p) ?s ?kt (sector_key_of ?d (of_nat ?m) ?kt) ?m q"
    using auth_before_first [OF x(1-3) s(1) x(4-8) nt nr] by auto
  have k: "?m + (sector_length (unat ?s) - 1) = trailer_of (unat ?s)"
    by (simp add: first_of_def trailer_of_def sector_length_def)
  have k1: "Suc (sector_length (unat ?s) - 1) = sector_length (unat ?s)" by (simp add: sector_length_def)
  obtain p' where p': "\<forall>n. nfc_worker_poller (sector_length (unat ?s) + n) reset run ?x a' = nfc_worker_poller n reset run p' a'"
    "sector_read ?d (mp_data p) ?s ?kt p'"
    using rest_of_sector [OF s(3,1) order_refl q x(6-8) k run, unfolded k1] by blast
  have "nfc_worker_poller (Suc (sector_length (unat ?s) + n)) reset run p a = nfc_worker_poller (sector_length (unat ?s) + n) reset run ?x a'" for n
    by (rule worker_goes_on [where callback = run, OF one])
  with p' show ?thesis by (intro exI [of _ p']) (simp only: add_Suc simp_thms)
qed

end
