(* ===== verification/Mf_Classic_Poller_Sync.thy ===== *)
theory Mf_Classic_Poller_Sync
  imports Mf_Classic_Poller_Modes
begin

text \<open>
  The calls of applications that wait for one command of the Mifare Classic reader or for the whole card
  (firmware/lib/nfc/protocols/mf\_classic/mf\_classic\_poller\_sync.c). The thread of the NFC library that runs the poller
  is played by the call itself: it activates the card and hands over one event. The union of the commands' contexts is a
  datatype, whose constructor is the type of the command; the handler that writes a block reads the fields of the read
  context, which lie at the same places. Random nonces are an argument.
\<close>

subsection \<open>Contexts of the commands\<close>

record MfClassicCollectNtContext =
  cn_block :: u8
  cn_key_type :: MfClassicKeyType
  cn_nt :: bytes

record MfClassicReadBlockContext =
  rb_block_num :: u8
  rb_key :: bytes
  rb_key_type :: MfClassicKeyType
  rb_block :: bytes

record MfClassicWriteBlockContext =
  wb_block_num :: u8
  wb_key :: bytes
  wb_key_type :: MfClassicKeyType
  wb_block :: bytes

record MfClassicReadValueContext =
  rv_block_num :: u8
  rv_key :: bytes
  rv_key_type :: MfClassicKeyType
  rv_value :: u32

record MfClassicChangeValueContext =
  cv_block_num :: u8
  cv_key :: bytes
  cv_key_type :: MfClassicKeyType
  cv_value_cmd :: MfClassicValueCommand
  cv_data :: u32
  cv_new_value :: u32

datatype MfClassicPollerContextData =
  CollectNt MfClassicCollectNtContext | Auth MfClassicAuthContext | ReadBlock MfClassicReadBlockContext |
  WriteBlock MfClassicWriteBlockContext | ReadValue MfClassicReadValueContext | ChangeValue MfClassicChangeValueContext

subsection \<open>Commands\<close>

definition mf_classic_poller_collect_nt_handler ::
    "'n nfc_driver \<Rightarrow> 'n MfClassicPoller \<Rightarrow> MfClassicCollectNtContext \<Rightarrow>
     (MfClassicError \<times> 'n MfClassicPoller \<times> MfClassicCollectNtContext) option" where
  "mf_classic_poller_collect_nt_handler drv poller data = do {
     (error, poller, nt) \<leftarrow> mf_classic_poller_get_nt drv poller (cn_block data) (cn_key_type data) (Some (cn_nt data)) False;
     nt \<leftarrow> nt;
     Some (error, poller, data\<lparr>cn_nt := nt\<rparr>)
   }"

definition mf_classic_poller_auth_handler ::
    "'n nfc_driver \<Rightarrow> bytes \<Rightarrow> 'n MfClassicPoller \<Rightarrow> MfClassicAuthContext \<Rightarrow>
     (MfClassicError \<times> 'n MfClassicPoller \<times> MfClassicAuthContext) option" where
  "mf_classic_poller_auth_handler drv random poller data = do {
     (error, poller, d) \<leftarrow> mf_classic_poller_auth drv random poller (ac_block_num data) (ac_key data) (ac_key_type data)
       (Some data) False;
     d \<leftarrow> d;
     Some (error, poller, d)
   }"

definition mf_classic_poller_read_block_handler ::
    "'n nfc_driver \<Rightarrow> bytes \<Rightarrow> 'n MfClassicPoller \<Rightarrow> MfClassicReadBlockContext \<Rightarrow>
     (MfClassicError \<times> 'n MfClassicPoller \<times> MfClassicReadBlockContext) option" where
  "mf_classic_poller_read_block_handler drv random poller data = do {
     (error, poller, _) \<leftarrow> mf_classic_poller_auth drv random poller (rb_block_num data) (rb_key data) (rb_key_type data) None False;
     if error \<noteq> MfClassicErrorNone then Some (error, poller, data)
     else do {
       (error, poller, block) \<leftarrow> mf_classic_poller_read_block drv poller (rb_block_num data) (rb_block data);
       let data = data\<lparr>rb_block := block\<rparr>;
       if error \<noteq> MfClassicErrorNone then Some (error, poller, data)
       else do {
         (error, poller) \<leftarrow> mf_classic_poller_halt drv poller;
         Some (error, poller, data)
       }
     }
   }"

definition mf_classic_poller_write_block_handler ::
    "'n nfc_driver \<Rightarrow> bytes \<Rightarrow> 'n MfClassicPoller \<Rightarrow> MfClassicWriteBlockContext \<Rightarrow>
     (MfClassicError \<times> 'n MfClassicPoller \<times> MfClassicWriteBlockContext) option" where
  "mf_classic_poller_write_block_handler drv random poller data = do {
     (error, poller, _) \<leftarrow> mf_classic_poller_auth drv random poller (wb_block_num data) (wb_key data) (wb_key_type data) None False;
     if error \<noteq> MfClassicErrorNone then Some (error, poller, data)
     else do {
       (error, poller) \<leftarrow> mf_classic_poller_write_block drv poller (wb_block_num data) (wb_block data);
       if error \<noteq> MfClassicErrorNone then Some (error, poller, data)
       else do {
         (error, poller) \<leftarrow> mf_classic_poller_halt drv poller;
         Some (error, poller, data)
       }
     }
   }"

definition mf_classic_poller_read_value_handler ::
    "'n nfc_driver \<Rightarrow> bytes \<Rightarrow> 'n MfClassicPoller \<Rightarrow> MfClassicReadValueContext \<Rightarrow>
     (MfClassicError \<times> 'n MfClassicPoller \<times> MfClassicReadValueContext) option" where
  "mf_classic_poller_read_value_handler drv random poller data = do {
     (error, poller, _) \<leftarrow> mf_classic_poller_auth drv random poller (rv_block_num data) (rv_key data) (rv_key_type data) None False;
     if error \<noteq> MfClassicErrorNone then Some (error, poller, data)
     else do {
       (error, poller, block) \<leftarrow> mf_classic_poller_read_block drv poller (rv_block_num data) (replicate 16 0);
       if error \<noteq> MfClassicErrorNone then Some (error, poller, data)
       else do {
         let (valid, value, addr) = mf_classic_block_to_value block;
         let data = data\<lparr>rv_value := value\<rparr>;
         if \<not> valid then Some (MfClassicErrorProtocol, poller, data)
         else do {
           (error, poller) \<leftarrow> mf_classic_poller_halt drv poller;
           Some (error, poller, data)
         }
       }
     }
   }"

definition mf_classic_poller_change_value_handler ::
    "'n nfc_driver \<Rightarrow> bytes \<Rightarrow> 'n MfClassicPoller \<Rightarrow> MfClassicChangeValueContext \<Rightarrow>
     (MfClassicError \<times> 'n MfClassicPoller \<times> MfClassicChangeValueContext) option" where
  "mf_classic_poller_change_value_handler drv random poller data = do {
     (error, poller, _) \<leftarrow> mf_classic_poller_auth drv random poller (cv_block_num data) (cv_key data) (cv_key_type data) None False;
     if error \<noteq> MfClassicErrorNone then Some (error, poller, data)
     else do {
       (error, poller) \<leftarrow> mf_classic_poller_value_cmd drv poller (cv_block_num data) (cv_value_cmd data) (cv_data data);
       if error \<noteq> MfClassicErrorNone then Some (error, poller, data)
       else do {
         (error, poller) \<leftarrow> mf_classic_poller_value_transfer drv poller (cv_block_num data);
         if error \<noteq> MfClassicErrorNone then Some (error, poller, data)
         else do {
           (error, poller, block) \<leftarrow> mf_classic_poller_read_block drv poller (cv_block_num data) (replicate 16 0);
           if error \<noteq> MfClassicErrorNone then Some (error, poller, data)
           else do {
             (error, poller) \<leftarrow> mf_classic_poller_halt drv poller;
             if error \<noteq> MfClassicErrorNone then Some (error, poller, data)
             else do {
               let (valid, value, addr) = mf_classic_block_to_value block;
               Some (if valid then MfClassicErrorNone else MfClassicErrorProtocol, poller, data\<lparr>cv_new_value := value\<rparr>)
             }
           }
         }
       }
     }
   }"

definition mf_classic_poller_cmd_handlers ::
    "'n nfc_driver \<Rightarrow> bytes \<Rightarrow> 'n MfClassicPoller \<Rightarrow> MfClassicPollerContextData \<Rightarrow>
     (MfClassicError \<times> 'n MfClassicPoller \<times> MfClassicPollerContextData) option" where
  "mf_classic_poller_cmd_handlers drv random poller data = (case data of
     CollectNt c \<Rightarrow> map_option (\<lambda>(error, poller, c). (error, poller, CollectNt c)) (mf_classic_poller_collect_nt_handler drv poller c)
   | Auth c \<Rightarrow> map_option (\<lambda>(error, poller, c). (error, poller, Auth c)) (mf_classic_poller_auth_handler drv random poller c)
   | ReadBlock c \<Rightarrow> map_option (\<lambda>(error, poller, c). (error, poller, ReadBlock c)) (mf_classic_poller_read_block_handler drv random poller c)
   | WriteBlock c \<Rightarrow> map_option (\<lambda>(error, poller, c). (error, poller, WriteBlock c)) (mf_classic_poller_write_block_handler drv random poller c)
   | ReadValue c \<Rightarrow> map_option (\<lambda>(error, poller, c). (error, poller, ReadValue c)) (mf_classic_poller_read_value_handler drv random poller c)
   | ChangeValue c \<Rightarrow>
       map_option (\<lambda>(error, poller, c). (error, poller, ChangeValue c)) (mf_classic_poller_change_value_handler drv random poller c))"

definition mf_classic_poller_cmd_callback ::
    "'n nfc_driver \<Rightarrow> bytes \<Rightarrow> Iso14443_3aPollerEvent \<Rightarrow> 'n MfClassicPoller \<Rightarrow> MfClassicPollerContextData \<Rightarrow>
     (NfcCommand \<times> MfClassicError \<times> 'n MfClassicPoller \<times> MfClassicPollerContextData) option" where
  "mf_classic_poller_cmd_callback drv random event poller data = (case event of
     Iso14443_3aPollerEventTypeReady \<Rightarrow>
       map_option (\<lambda>(error, poller, data). (NfcCommandStop, error, poller, data)) (mf_classic_poller_cmd_handlers drv random poller data)
   | Iso14443_3aPollerEventTypeError error \<Rightarrow> Some (NfcCommandStop, mf_classic_process_error error, poller, data))"

text \<open>The pollers come from \<open>nfc_poller_alloc\<close>; the first event of the ISO 14443-3 A poller ends the command.\<close>

definition mf_classic_poller_cmd_execute ::
    "'n nfc_driver \<Rightarrow> bytes \<Rightarrow> 'n \<Rightarrow> MfClassicPollerContextData \<Rightarrow> (MfClassicError \<times> 'n \<times> MfClassicPollerContextData) option" where
  "mf_classic_poller_cmd_execute drv random nfc data = do {
     iso \<leftarrow> iso14443_3a_poller_alloc nfc;
     (error, iso) \<leftarrow> iso14443_3a_poller_activate drv iso;
     let (event, iso) = (if error = Iso14443_3aErrorNone
       then (Iso14443_3aPollerEventTypeReady, iso\<lparr>p3_state := Iso14443_3aPollerStateActivated\<rparr>)
       else (Iso14443_3aPollerEventTypeError error, iso));
     poller \<leftarrow> mf_classic_poller_alloc iso;
     (_, error, poller, data) \<leftarrow> mf_classic_poller_cmd_callback drv random event poller data;
     Some (error, p3_nfc (mp_iso14443_3a_poller poller), data)
   }"

subsection \<open>The calls\<close>

text \<open>Memory of the caller is an argument; \<open>None\<close> is a null pointer where the call allows one.\<close>

definition mf_classic_poller_sync_collect_nt ::
    "'n nfc_driver \<Rightarrow> bytes \<Rightarrow> 'n \<Rightarrow> u8 \<Rightarrow> MfClassicKeyType \<Rightarrow> bytes option \<Rightarrow> (MfClassicError \<times> 'n \<times> bytes option) option" where
  "mf_classic_poller_sync_collect_nt drv random nfc block_num key_type nt = do {
     (error, nfc, data) \<leftarrow> mf_classic_poller_cmd_execute drv random nfc
       (CollectNt \<lparr>cn_block = block_num, cn_key_type = key_type, cn_nt = replicate 4 0\<rparr>);
     Some (error, nfc, if error = MfClassicErrorNone then map_option (\<lambda>n. case data of CollectNt c \<Rightarrow> cn_nt c | _ \<Rightarrow> n) nt else nt)
   }"

definition mf_classic_poller_sync_auth ::
    "'n nfc_driver \<Rightarrow> bytes \<Rightarrow> 'n \<Rightarrow> u8 \<Rightarrow> bytes \<Rightarrow> MfClassicKeyType \<Rightarrow> MfClassicAuthContext option \<Rightarrow>
     (MfClassicError \<times> 'n \<times> MfClassicAuthContext option) option" where
  "mf_classic_poller_sync_auth drv random nfc block_num key key_type data = do {
     (error, nfc, ctx) \<leftarrow> mf_classic_poller_cmd_execute drv random nfc
       (Auth \<lparr>ac_block_num = block_num, ac_key = key, ac_key_type = key_type, ac_nt = replicate 4 0, ac_nr = replicate 4 0,
          ac_ar = replicate 4 0, ac_at = replicate 4 0\<rparr>);
     Some (error, nfc, if error = MfClassicErrorNone then map_option (\<lambda>d. case ctx of Auth c \<Rightarrow> c | _ \<Rightarrow> d) data else data)
   }"

definition mf_classic_poller_sync_read_block ::
    "'n nfc_driver \<Rightarrow> bytes \<Rightarrow> 'n \<Rightarrow> u8 \<Rightarrow> bytes \<Rightarrow> MfClassicKeyType \<Rightarrow> bytes \<Rightarrow> (MfClassicError \<times> 'n \<times> bytes) option" where
  "mf_classic_poller_sync_read_block drv random nfc block_num key key_type data = do {
     (error, nfc, ctx) \<leftarrow> mf_classic_poller_cmd_execute drv random nfc
       (ReadBlock \<lparr>rb_block_num = block_num, rb_key = key, rb_key_type = key_type, rb_block = replicate 16 0\<rparr>);
     Some (error, nfc, if error = MfClassicErrorNone then (case ctx of ReadBlock c \<Rightarrow> rb_block c | _ \<Rightarrow> data) else data)
   }"

definition mf_classic_poller_sync_write_block ::
    "'n nfc_driver \<Rightarrow> bytes \<Rightarrow> 'n \<Rightarrow> u8 \<Rightarrow> bytes \<Rightarrow> MfClassicKeyType \<Rightarrow> bytes \<Rightarrow> (MfClassicError \<times> 'n) option" where
  "mf_classic_poller_sync_write_block drv random nfc block_num key key_type data = do {
     (error, nfc, _) \<leftarrow> mf_classic_poller_cmd_execute drv random nfc
       (WriteBlock \<lparr>wb_block_num = block_num, wb_key = key, wb_key_type = key_type, wb_block = data\<rparr>);
     Some (error, nfc)
   }"

definition mf_classic_poller_sync_read_value ::
    "'n nfc_driver \<Rightarrow> bytes \<Rightarrow> 'n \<Rightarrow> u8 \<Rightarrow> bytes \<Rightarrow> MfClassicKeyType \<Rightarrow> u32 \<Rightarrow> (MfClassicError \<times> 'n \<times> u32) option" where
  "mf_classic_poller_sync_read_value drv random nfc block_num key key_type value = do {
     (error, nfc, ctx) \<leftarrow> mf_classic_poller_cmd_execute drv random nfc
       (ReadValue \<lparr>rv_block_num = block_num, rv_key = key, rv_key_type = key_type, rv_value = 0\<rparr>);
     Some (error, nfc, if error = MfClassicErrorNone then (case ctx of ReadValue c \<Rightarrow> rv_value c | _ \<Rightarrow> value) else value)
   }"

text \<open>The command for a difference, and its argument; the negation of the smallest number is taken to wrap.\<close>

definition value_change :: "u32 \<Rightarrow> MfClassicValueCommand \<times> u32" where
  "value_change data =
     (if 0 < sint data then (MfClassicValueCommandIncrement, data)
      else if sint data < 0 then (MfClassicValueCommandDecrement, - data)
      else (MfClassicValueCommandRestore, 0))"

definition mf_classic_poller_sync_change_value ::
    "'n nfc_driver \<Rightarrow> bytes \<Rightarrow> 'n \<Rightarrow> u8 \<Rightarrow> bytes \<Rightarrow> MfClassicKeyType \<Rightarrow> u32 \<Rightarrow> u32 \<Rightarrow> (MfClassicError \<times> 'n \<times> u32) option" where
  "mf_classic_poller_sync_change_value drv random nfc block_num key key_type data new_value = do {
     let (command, command_data) = value_change data;
     (error, nfc, ctx) \<leftarrow> mf_classic_poller_cmd_execute drv random nfc
       (ChangeValue \<lparr>cv_block_num = block_num, cv_key = key, cv_key_type = key_type, cv_value_cmd = command,
          cv_data = command_data, cv_new_value = 0\<rparr>);
     Some (error, nfc, if error = MfClassicErrorNone then (case ctx of ChangeValue c \<Rightarrow> cv_new_value c | _ \<Rightarrow> new_value) else new_value)
   }"

definition mf_classic_verify_blocks :: "(u8 \<times> MfClassicType) list" where
  "mf_classic_verify_blocks = [(254, MfClassicType4k), (62, MfClassicType1k), (0, MfClassicTypeMini)]"

fun verify_types ::
    "'n nfc_driver \<Rightarrow> bytes \<Rightarrow> (u8 \<times> MfClassicType) list \<Rightarrow> MfClassicError \<Rightarrow> 'n \<Rightarrow> MfClassicType \<Rightarrow>
     (MfClassicError \<times> 'n \<times> MfClassicType) option" where
  "verify_types drv random [] error nfc type = Some (error, nfc, type)"
| "verify_types drv random ((verify_block, t) # xs) error nfc type = do {
     (error, nfc, _) \<leftarrow> mf_classic_poller_sync_collect_nt drv random nfc verify_block MfClassicKeyTypeA None;
     if error = MfClassicErrorNone then Some (error, nfc, t)
     else verify_types drv random xs error nfc type
   }"

definition mf_classic_poller_sync_detect_type ::
    "'n nfc_driver \<Rightarrow> bytes \<Rightarrow> 'n \<Rightarrow> MfClassicType \<Rightarrow> (MfClassicError \<times> 'n \<times> MfClassicType) option" where
  "mf_classic_poller_sync_detect_type drv random nfc type =
     verify_types drv random mf_classic_verify_blocks MfClassicErrorNone nfc type"

subsection \<open>Reading the whole card\<close>

record MfClassicDeviceKeys =
  dk_key_a_mask :: u64
  dk_key_a :: "bytes list"
  dk_key_b_mask :: u64
  dk_key_b :: "bytes list"

record MfClassicReadContext =
  rx_keys :: MfClassicDeviceKeys
  rx_current_sector :: u8

text \<open>The arrays have 40 keys, and the loop stays below 40.\<close>

fun next_key_from :: "nat list \<Rightarrow> MfClassicReadContext \<Rightarrow> (u8 \<times> bytes \<times> MfClassicKeyType) option \<times> MfClassicReadContext" where
  "next_key_from [] r = (None, r)"
| "next_key_from (i # is) r =
     (if bit (dk_key_a_mask (rx_keys r)) i then
        (Some (of_nat i, dk_key_a (rx_keys r) ! i, MfClassicKeyTypeA),
         r\<lparr>rx_keys := (rx_keys r)\<lparr>dk_key_a_mask := dk_key_a_mask (rx_keys r) AND NOT (push_bit i 1)\<rparr>\<rparr>)
      else if bit (dk_key_b_mask (rx_keys r)) i then
        (Some (of_nat i, dk_key_b (rx_keys r) ! i, MfClassicKeyTypeB),
         r\<lparr>rx_keys := (rx_keys r)\<lparr>dk_key_b_mask := dk_key_b_mask (rx_keys r) AND NOT (push_bit i 1)\<rparr>, rx_current_sector := of_nat i\<rparr>)
      else next_key_from is r)"

definition mf_classic_poller_read_get_next_key ::
    "MfClassicReadContext \<Rightarrow> (u8 \<times> bytes \<times> MfClassicKeyType) option \<times> MfClassicReadContext" where
  "mf_classic_poller_read_get_next_key r = next_key_from [unat (rx_current_sector r)..<40] r"

text \<open>The context of the callback: the error so far and the keys that are left. \<open>data\<close> is what the memory for the answers
  holds from earlier events.\<close>

definition mf_classic_poller_read_callback ::
    "MfClassicPollerEventData \<Rightarrow> (MfClassicError \<times> MfClassicReadContext) poller_callback" where
  "mf_classic_poller_read_callback data event ctx = (case ctx of (error, r) \<Rightarrow>
     (case event of
        MfClassicPollerEventTypeCardLost \<Rightarrow> (NfcCommandStop, data, MfClassicErrorNotPresent, r)
      | MfClassicPollerEventTypeRequestMode \<Rightarrow> (NfcCommandContinue, data\<lparr>poller_mode := MfClassicPollerModeRead\<rparr>, error, r)
      | MfClassicPollerEventTypeRequestReadSector \<Rightarrow>
          (let (next_key, r) = mf_classic_poller_read_get_next_key r
           in (NfcCommandContinue, case next_key of
                 Some (sector_num, key, key_type) \<Rightarrow>
                   data\<lparr>rs_sector_num := sector_num, rs_key := key, rs_key_type := key_type, rs_key_provided := True\<rparr>
               | None \<Rightarrow> data\<lparr>rs_key_provided := False\<rparr>, error, r))
      | MfClassicPollerEventTypeSuccess \<Rightarrow> (NfcCommandStop, data, error, r)
      | _ \<Rightarrow> (NfcCommandContinue, data, error, r)))"

text \<open>What the call makes of the data of the poller when the callback has stopped it.\<close>

definition sync_read_result :: "MfClassicData \<Rightarrow> MfClassicData \<Rightarrow> (MfClassicError \<times> MfClassicData) option" where
  "sync_read_result mfc_data data = do {
     (sectors_read, keys_found) \<leftarrow> mf_classic_get_read_sectors_and_keys mfc_data;
     if sectors_read = 0 \<and> keys_found = 0 then Some (MfClassicErrorNotPresent, data)
     else do {
       data \<leftarrow> mf_classic_copy data mfc_data;
       whole \<leftarrow> mf_classic_is_card_read mfc_data;
       Some (if whole then MfClassicErrorNone else MfClassicErrorPartialRead, data)
     }
   }"

end
