(* ===== verification/Mf_Classic_Whole_Card.thy ===== *)
theory Mf_Classic_Whole_Card
  imports Mf_Classic_Read_Mode Mf_Classic_Poller_Sync
begin

text \<open>
  The call that reads a whole card (firmware/lib/nfc/protocols/mf\_classic/mf\_classic\_poller\_sync.c): its callback hands
  the keys of the caller to the read mode of the poller, one after the other, until none is left.
\<close>

subsection \<open>The keys that are left\<close>

definition keys_for :: "MfClassicReadContext \<Rightarrow> MfClassicKeyType \<Rightarrow> bytes list" where
  "keys_for r kt = (case kt of MfClassicKeyTypeA \<Rightarrow> dk_key_a (rx_keys r) | MfClassicKeyTypeB \<Rightarrow> dk_key_b (rx_keys r))"

definition wanted :: "MfClassicReadContext \<Rightarrow> (nat \<times> MfClassicKeyType) set" where
  "wanted r = {(i, kt). unat (rx_current_sector r) \<le> i \<and> i < 40 \<and>
     bit (case kt of MfClassicKeyTypeA \<Rightarrow> dk_key_a_mask (rx_keys r) | MfClassicKeyTypeB \<Rightarrow> dk_key_b_mask (rx_keys r)) i}"

lemma finite_wanted: "finite (wanted r)"
proof (rule finite_subset)
  show "wanted r \<subseteq> {..<40} \<times> {MfClassicKeyTypeA, MfClassicKeyTypeB}"
    by (auto simp: wanted_def intro: MfClassicKeyType.exhaust)
qed simp

definition hands_out :: "MfClassicReadContext \<Rightarrow> nat \<Rightarrow> MfClassicKeyType \<Rightarrow> MfClassicReadContext \<Rightarrow> bool" where
  "hands_out r i kt r' \<longleftrightarrow> (i, kt) \<in> wanted r \<and> wanted r' = wanted r - {(i, kt)} \<and> keys_for r' = keys_for r"

lemma hands_out_nonempty: "hands_out r i kt r' \<Longrightarrow> wanted r \<noteq> {}"
  by (auto simp: hands_out_def)

lemma hands_out_a:
  assumes "bit (dk_key_a_mask (rx_keys r)) j" "unat (rx_current_sector r) \<le> j" "j < 40"
  shows "hands_out r j MfClassicKeyTypeA
    (r\<lparr>rx_keys := (rx_keys r)\<lparr>dk_key_a_mask := dk_key_a_mask (rx_keys r) AND NOT (push_bit j 1)\<rparr>\<rparr>)"
  unfolding hands_out_def
proof (intro conjI)
  let ?r = "r\<lparr>rx_keys := (rx_keys r)\<lparr>dk_key_a_mask := dk_key_a_mask (rx_keys r) AND NOT (push_bit j 1)\<rparr>\<rparr>"
  show "(j, MfClassicKeyTypeA) \<in> wanted r" using assms by (simp add: wanted_def)
  show "wanted ?r = wanted r - {(j, MfClassicKeyTypeA)}"
    using assms by (auto simp: wanted_def bit_simps split: MfClassicKeyType.splits)
  show "keys_for ?r = keys_for r" by (rule ext) (simp add: keys_for_def split: MfClassicKeyType.split)
qed

lemma hands_out_b:
  assumes "bit (dk_key_b_mask (rx_keys r)) j" "unat (rx_current_sector r) \<le> j" "j < 40"
    and low: "\<forall>k kt. (k, kt) \<in> wanted r \<longrightarrow> j \<le> k"
  shows "hands_out r j MfClassicKeyTypeB
    (r\<lparr>rx_keys := (rx_keys r)\<lparr>dk_key_b_mask := dk_key_b_mask (rx_keys r) AND NOT (push_bit j 1)\<rparr>, rx_current_sector := of_nat j\<rparr>)"
  unfolding hands_out_def
proof (intro conjI)
  let ?r = "r\<lparr>rx_keys := (rx_keys r)\<lparr>dk_key_b_mask := dk_key_b_mask (rx_keys r) AND NOT (push_bit j 1)\<rparr>,
    rx_current_sector := of_nat j\<rparr>"
  have u: "unat (of_nat j :: u8) = j" using assms(3) by (simp add: unat_of_nat)
  show "(j, MfClassicKeyTypeB) \<in> wanted r" using assms by (simp add: wanted_def)
  show "keys_for ?r = keys_for r" by (rule ext) (simp add: keys_for_def split: MfClassicKeyType.split)
  show "wanted ?r = wanted r - {(j, MfClassicKeyTypeB)}"
  proof (rule set_eqI)
    fix x :: "nat \<times> MfClassicKeyType"
    obtain k kt where x: "x = (k, kt)" by (cases x)
    have "j \<le> k \<or> x \<notin> wanted r" using low x by blast
    moreover have "unat (rx_current_sector r) \<le> k" if "j \<le> k" using that assms(2) by simp
    ultimately show "(x \<in> wanted ?r) = (x \<in> wanted r - {(j, MfClassicKeyTypeB)})"
      using assms(3) u x by (cases kt) (auto simp: wanted_def bit_simps)
  qed
qed

lemma next_key_from_spec:
  assumes "\<forall>k kt. (k, kt) \<in> wanted r \<longrightarrow> j \<le> k" "unat (rx_current_sector r) \<le> j" "j \<le> 40"
  shows "if wanted r = {} then next_key_from [j..<40] r = (None, r)
    else \<exists>i kt r'. next_key_from [j..<40] r = (Some (of_nat i, keys_for r kt ! i, kt), r') \<and> hands_out r i kt r'"
  using assms
proof (induction "40 - j" arbitrary: j)
  case 0
  then have j: "j = 40" by simp
  then have "wanted r = {}" using 0(2) by (auto simp: wanted_def)
  with j show ?case by simp
next
  case (Suc x)
  have j: "j < 40" using Suc.hyps(2) by simp
  then have upt: "[j..<40] = j # [Suc j..<40]" by (rule upt_conv_Cons)
  consider (a) "bit (dk_key_a_mask (rx_keys r)) j" | (b) "\<not> bit (dk_key_a_mask (rx_keys r)) j" "bit (dk_key_b_mask (rx_keys r)) j"
    | (none) "\<not> bit (dk_key_a_mask (rx_keys r)) j" "\<not> bit (dk_key_b_mask (rx_keys r)) j"
    by blast
  then show ?case
  proof cases
    case a
    note h = hands_out_a [OF a Suc.prems(2) j]
    have "next_key_from [j..<40] r = (Some (of_nat j, keys_for r MfClassicKeyTypeA ! j, MfClassicKeyTypeA),
        r\<lparr>rx_keys := (rx_keys r)\<lparr>dk_key_a_mask := dk_key_a_mask (rx_keys r) AND NOT (push_bit j 1)\<rparr>\<rparr>)"
      using a upt by (simp add: keys_for_def)
    then show ?thesis unfolding if_not_P [OF hands_out_nonempty [OF h]] using h by (intro exI conjI)
  next
    case b
    note h = hands_out_b [OF b(2) Suc.prems(2) j Suc.prems(1)]
    have "next_key_from [j..<40] r = (Some (of_nat j, keys_for r MfClassicKeyTypeB ! j, MfClassicKeyTypeB),
        r\<lparr>rx_keys := (rx_keys r)\<lparr>dk_key_b_mask := dk_key_b_mask (rx_keys r) AND NOT (push_bit j 1)\<rparr>, rx_current_sector := of_nat j\<rparr>)"
      using b upt by (simp add: keys_for_def)
    then show ?thesis unfolding if_not_P [OF hands_out_nonempty [OF h]] using h by (intro exI conjI)
  next
    case none
    have "(j, kt) \<notin> wanted r" for kt using none by (cases kt) (simp_all add: wanted_def)
    then have "\<forall>k kt. (k, kt) \<in> wanted r \<longrightarrow> Suc j \<le> k" using Suc.prems(1) by (metis Suc_leI le_neq_implies_less)
    moreover have "next_key_from [j..<40] r = next_key_from [Suc j..<40] r" using none upt by simp
    ultimately show ?thesis using Suc.hyps(1) [of "Suc j"] Suc.hyps(2) Suc.prems(2) j by simp
  qed
qed

lemma get_next_key_spec:
  "if wanted r = {} then mf_classic_poller_read_get_next_key r = (None, r)
   else \<exists>i kt r'. mf_classic_poller_read_get_next_key r = (Some (of_nat i, keys_for r kt ! i, kt), r') \<and> hands_out r i kt r'"
proof (cases "unat (rx_current_sector r) \<le> 40")
  case True
  have "\<forall>k kt. (k, kt) \<in> wanted r \<longrightarrow> unat (rx_current_sector r) \<le> k" by (simp add: wanted_def)
  from next_key_from_spec [OF this order_refl True] show ?thesis by (simp only: mf_classic_poller_read_get_next_key_def)
next
  case False
  then have "wanted r = {}" by (auto simp: wanted_def)
  with False show ?thesis by (simp add: mf_classic_poller_read_get_next_key_def)
qed

subsection \<open>All keys\<close>

text \<open>Every key of the caller is the key of its sector on the card and opens its blocks.\<close>

definition keys_fit :: "MfClassicData \<Rightarrow> nat \<Rightarrow> MfClassicReadContext \<Rightarrow> bool" where
  "keys_fit d n r \<longleftrightarrow> (\<forall>(i, kt) \<in> wanted r. keys_for r kt ! i = sector_key_of d (of_nat (first_of i)) kt \<and> first_of i < n \<and>
     readable_sector d (of_nat i) kt)"

definition sector_known :: "MfClassicData \<Rightarrow> nat \<times> MfClassicKeyType \<Rightarrow> bool" where
  "sector_known e = (\<lambda>(s, kt). key_at e kt s \<and> (\<forall>m < 256. sector_of m = s \<longrightarrow> read_at e m))"

lemma sector_known_grows: "sector_known e (s, kt) \<Longrightarrow> s < 40 \<Longrightarrow> grows e f \<Longrightarrow> sector_known f (s, kt)"
  by (simp add: sector_known_def grows_def)

lemma all_sectors:
  assumes p: "selected p" "ml_data (emulated p) = d" "mp_state p = MfClassicPollerStateRequestReadSector"
      "mp_card_state p = MfClassicCardStateDetected" "knows d (mp_data p)" "lower_state p \<in> {Iso14443_3aPollerStateIdle, Iso14443_3aPollerStateActivated}"
    and r: "keys_fit d (total_block_num (emulated p)) r" and std: "standard_card (mfc_iso14443_3a_data d)"
    and nt: "plain_nonce nt" and nr: "length nr = 4"
    and run: "run = nfc_poller_start_callback (air nt) (mf_classic_poller_run attack (air nt) nr (mf_classic_poller_read_callback data))"
  shows "\<exists>n p' r'. nfc_worker_poller n reset run p (error, r) = Some (p', error, r') \<and> mp_state p' = MfClassicPollerStateSuccess \<and>
    knows d (mp_data p') \<and> wanted r' = {} \<and> grows (mp_data p) (mp_data p') \<and> (\<forall>x \<in> wanted r. sector_known (mp_data p') x)"
  using p r
proof (induction "card (wanted r)" arbitrary: p r)
  case 0
  then have w: "wanted r = {}" using finite_wanted by simp
  then have asks: "mf_classic_poller_read_get_next_key r = (None, r)" using get_next_key_spec [of r] by simp
  let ?run = "mf_classic_poller_run attack (air nt) nr (mf_classic_poller_read_callback data)"
  obtain iso where iso: "p3_state iso = Iso14443_3aPollerStateActivated"
    "\<forall>c p' a'. ?run Iso14443_3aPollerEventTypeReady (p\<lparr>mp_iso14443_3a_poller := iso\<rparr>) (error, r) = Some (c, p', a') \<longrightarrow>
       c \<noteq> NfcCommandReset \<longrightarrow> nfc_poller_start_callback (air nt) ?run p (error, r) = Some (c, p', a')"
    using ready_event [OF 0(2,7), of ?run "(error, r)" nt] std 0(3) by blast
  let ?p = "p\<lparr>mp_iso14443_3a_poller := iso, mp_state := MfClassicPollerStateSuccess\<rparr>"
  have "?run Iso14443_3aPollerEventTypeReady (p\<lparr>mp_iso14443_3a_poller := iso\<rparr>) (error, r) = Some (NfcCommandContinue, ?p, error, r)"
    using 0(4,5) asks
    by (simp add: mf_classic_poller_run_def mf_classic_poller_dict_attack_handler_def mf_classic_poller_handler_request_read_sector_def
      mf_classic_poller_read_callback_def)
  then have "run p (error, r) = Some (NfcCommandContinue, ?p, error, r)" unfolding run using iso(2) by simp
  moreover have "run ?p (error, r) = Some (NfcCommandStop, ?p, error, r)" unfolding run
  proof (rule active_event)
    show "lower_state ?p = Iso14443_3aPollerStateActivated" using iso(1) by simp
    show "?run Iso14443_3aPollerEventTypeReady ?p (error, r) = Some (NfcCommandStop, ?p, error, r)"
      using 0(5)
      by (simp add: mf_classic_poller_run_def mf_classic_poller_dict_attack_handler_def mf_classic_poller_handler_success_def
        mf_classic_poller_read_callback_def)
  qed simp
  ultimately have "nfc_worker_poller (Suc (Suc 0)) reset run p (error, r) = Some (?p, error, r)" by simp
  then show ?case using w 0(6) by (intro exI [of _ "Suc (Suc 0)"] exI [of _ ?p] exI [of _ r]) simp
next
  case (Suc x)
  have ne: "wanted r \<noteq> {}" using Suc.hyps(2) by auto
  obtain i kt r1 where asks: "mf_classic_poller_read_get_next_key r = (Some (of_nat i, keys_for r kt ! i, kt), r1)"
    "(i, kt) \<in> wanted r" "wanted r1 = wanted r - {(i, kt)}" "keys_for r1 = keys_for r"
    using get_next_key_spec [of r] ne by (auto simp: hands_out_def)
  have i: "i < 40" using asks(2) by (simp add: wanted_def)
  have u: "unat (of_nat i :: u8) = i" using i by (simp add: unat_of_nat)
  let ?ans = "data\<lparr>rs_sector_num := of_nat i, rs_key := keys_for r kt ! i, rs_key_type := kt, rs_key_provided := True\<rparr>"
  have ans: "rs_sector_num ?ans = of_nat i" "rs_key ?ans = keys_for r kt ! i" "rs_key_type ?ans = kt" "rs_key_provided ?ans = True"
    by simp_all
  have asked: "mf_classic_poller_read_callback data MfClassicPollerEventTypeRequestReadSector (error, r) =
      (NfcCommandContinue, ?ans, error, r1)"
    using asks(1) by (simp add: mf_classic_poller_read_callback_def)
  have fit: "keys_for r kt ! i = sector_key_of d (of_nat (first_of i)) kt" "first_of i < total_block_num (emulated p)"
    "readable_sector d (of_nat i) kt"
    using Suc.prems(7) asks(2) by (auto simp: keys_fit_def)
  obtain q where q: "\<forall>n. nfc_worker_poller (Suc (sector_length i) + n) reset run p (error, r) = nfc_worker_poller n reset run q (error, r1)"
    "sector_read d (mp_data p) (of_nat i) kt q"
    using sector_request [where p = p and callback = "mf_classic_poller_read_callback data" and a = "(error, r)" and ans = ?ans
        and a' = "(error, r1)" and reset = reset, OF Suc.prems(1,3,4) _ Suc.prems(6) _ asked, unfolded ans Suc.prems(2) u,
        OF Suc.prems(5) std TrueI fit(1) i fit(2,3) nt nr run]
    by blast
  have sq: "selected q" "ml_data (emulated q) = d" "mp_state q = MfClassicPollerStateRequestReadSector"
      "mp_card_state q = MfClassicCardStateDetected" "knows d (mp_data q)"
      "lower_state q \<in> {Iso14443_3aPollerStateIdle, Iso14443_3aPollerStateActivated}"
    using q(2) by (simp_all add: sector_read_def)
  have gq: "grows (mp_data p) (mp_data q)" and kq: "sector_known (mp_data q) (i, kt)"
    using q(2) u by (simp_all add: sector_read_def sector_known_def)
  have "listener_ok (emulated p)" "listener_ok (emulated q)" using Suc.prems(1) sq(1) by (simp_all add: selected_def)
  then have "total_block_num (emulated q) = total_block_num (emulated p)"
    using total_blocks [of "emulated p" "emulated q"] sq(2) Suc.prems(2) by simp
  then have fit1: "keys_fit d (total_block_num (emulated q)) r1" using Suc.prems(7) asks(3,4) by (auto simp: keys_fit_def)
  have "card (wanted r1) = x" using Suc.hyps(2) asks(2,3) by (simp add: finite_wanted)
  then obtain n p' r' where p': "nfc_worker_poller n reset run q (error, r1) = Some (p', error, r')" "mp_state p' = MfClassicPollerStateSuccess"
    "knows d (mp_data p')" "wanted r' = {}" "grows (mp_data q) (mp_data p')" "\<forall>x \<in> wanted r1. sector_known (mp_data p') x"
    using Suc.hyps(1) [OF _ sq fit1] by blast
  have "sector_known (mp_data p') x" if "x \<in> wanted r" for x
    using that p'(6) asks(3) sector_known_grows [OF kq i p'(5)] by blast
  moreover have "grows (mp_data p) (mp_data p')" by (rule grows_trans [OF gq p'(5)])
  moreover have "nfc_worker_poller (Suc (sector_length i) + n) reset run p (error, r) = Some (p', error, r')"
    using q(1) p'(1) by (simp only:)
  ultimately show ?case using p'(2-4) by blast
qed

text \<open>C17: The synchronous read of a card, from the start of the read mode (the type of the card has been detected) and with
  a caller all of whose keys are the keys of their sectors on the card and open all their blocks (\<open>keys_fit\<close>). The card
  has a UID that the collision resolution finds (\<open>standard_card\<close>) and sends a nonce that does not look like a frame with
  a checksum (\<open>plain_nonce\<close>); the random numbers of card and reader are the same at every authentication. The thread of the reader stops after finitely many events without an error. The halt
  after each sector leaves the lower poller idle, and the next event activates the card again through the collision
  resolution before it goes on. At the end all keys have been used, every sector for which there was a key has been
  read with all its blocks, and every byte that the reader then takes to be known is what the card holds.\<close>

theorem read_mode_reads_card:
  assumes p: "selected p" "mp_state p = MfClassicPollerStateStart" "mp_card_state p = MfClassicCardStateDetected"
      "knows (ml_data (emulated p)) (mp_data p)" "lower_state p \<in> {Iso14443_3aPollerStateIdle, Iso14443_3aPollerStateActivated}"
    and std: "standard_card (mfc_iso14443_3a_data (ml_data (emulated p)))"
    and r: "keys_fit (ml_data (emulated p)) (total_block_num (emulated p)) r"
    and nt: "plain_nonce nt" and nr: "length nr = 4"
  shows "\<exists>n p' r'. nfc_worker_poller n reset (nfc_poller_start_callback (air nt)
      (mf_classic_poller_run attack (air nt) nr (mf_classic_poller_read_callback data))) p (error, r) = Some (p', error, r') \<and>
    knows (ml_data (emulated p)) (mp_data p') \<and> wanted r' = {} \<and> (\<forall>x \<in> wanted r. sector_known (mp_data p') x)"
proof -
  let ?run = "mf_classic_poller_run attack (air nt) nr (mf_classic_poller_read_callback data)"
  let ?call = "nfc_poller_start_callback (air nt) ?run"
  obtain iso where iso: "p3_state iso = Iso14443_3aPollerStateActivated" "p3_nfc iso = emulated p" "selected (p\<lparr>mp_iso14443_3a_poller := iso\<rparr>)"
    "\<forall>c p' a'. ?run Iso14443_3aPollerEventTypeReady (p\<lparr>mp_iso14443_3a_poller := iso\<rparr>) (error, r) = Some (c, p', a') \<longrightarrow>
       c \<noteq> NfcCommandReset \<longrightarrow> ?call p (error, r) = Some (c, p', a')"
    using ready_event [OF p(1,5) std, of ?run "(error, r)" nt] by blast
  let ?p = "p\<lparr>mp_iso14443_3a_poller := iso, mp_sectors_total := mf_classic_get_total_sectors_num (mfc_type (mp_data p)),
    write_ctx := zero_write_ctx, read_ctx := zero_read_ctx, mp_mode := MfClassicPollerModeRead,
    mp_state := MfClassicPollerStateRequestReadSector\<rparr>"
  have "?run Iso14443_3aPollerEventTypeReady (p\<lparr>mp_iso14443_3a_poller := iso\<rparr>) (error, r) = Some (NfcCommandContinue, ?p, error, r)"
    using p(2,3) by (simp add: mf_classic_poller_run_def mf_classic_poller_dict_attack_handler_def mf_classic_poller_handler_start_def
      mf_classic_poller_read_callback_def)
  then have one: "?call p (error, r) = Some (NfcCommandContinue, ?p, error, r)" using iso(4) by simp
  have q: "selected ?p" "ml_data (emulated ?p) = ml_data (emulated p)" "mp_state ?p = MfClassicPollerStateRequestReadSector"
      "mp_card_state ?p = MfClassicCardStateDetected" "knows (ml_data (emulated p)) (mp_data ?p)"
      "lower_state ?p \<in> {Iso14443_3aPollerStateIdle, Iso14443_3aPollerStateActivated}"
      "keys_fit (ml_data (emulated p)) (total_block_num (emulated ?p)) r"
    using p r iso(1-3) by (simp_all add: selected_def reader_ok_def)
  obtain n p' r' where n: "nfc_worker_poller n reset ?call ?p (error, r) = Some (p', error, r')" "knows (ml_data (emulated p)) (mp_data p')"
    "wanted r' = {}" "\<forall>x \<in> wanted r. sector_known (mp_data p') x"
    using all_sectors [OF q std nt nr refl, of reset attack data error] by blast
  have "nfc_worker_poller (Suc n) reset ?call p (error, r) = Some (p', error, r')"
    using n(1) worker_goes_on [where callback = ?call, OF one] by simp
  with n(2-4) show ?thesis by blast
qed

subsection \<open>An instance\<close>

text \<open>The key of the sector that holds the block of data.\<close>

definition demo_keys :: MfClassicReadContext where
  "demo_keys = \<lparr>rx_keys = \<lparr>dk_key_a_mask = 2, dk_key_a = (replicate 40 (replicate 6 0))[1 := replicate 6 0xFF],
     dk_key_b_mask = 0, dk_key_b = replicate 40 (replicate 6 0)\<rparr>, rx_current_sector = 0\<rparr>"

lemma demo_wanted: "wanted demo_keys = {(1, MfClassicKeyTypeA)}"
proof (rule set_eqI)
  fix x :: "nat \<times> MfClassicKeyType"
  obtain i kt where x: "x = (i, kt)" by (cases x)
  show "(x \<in> wanted demo_keys) = (x \<in> {(1, MfClassicKeyTypeA)})"
    by (cases kt) (auto simp: x wanted_def demo_keys_def bit_2_iff)
qed

lemma demo_sector_access:
  "mf_classic_is_allowed_access demo_data m MfClassicKeyTypeA (if mf_classic_is_sector_trailer m then MfClassicActionACRead
     else MfClassicActionDataRead) = Some True" if "m \<in> {4, 5, 6, 7}"
proof -
  have "mf_classic_is_allowed_access demo_data 4 MfClassicKeyTypeA (if mf_classic_is_sector_trailer 4 then MfClassicActionACRead
     else MfClassicActionDataRead) = Some True"
    "mf_classic_is_allowed_access demo_data 5 MfClassicKeyTypeA (if mf_classic_is_sector_trailer 5 then MfClassicActionACRead
     else MfClassicActionDataRead) = Some True"
    "mf_classic_is_allowed_access demo_data 6 MfClassicKeyTypeA (if mf_classic_is_sector_trailer 6 then MfClassicActionACRead
     else MfClassicActionDataRead) = Some True"
    "mf_classic_is_allowed_access demo_data 7 MfClassicKeyTypeA (if mf_classic_is_sector_trailer 7 then MfClassicActionACRead
     else MfClassicActionDataRead) = Some True"
    by code_simp+
  then show ?thesis using that by auto
qed

lemma demo_readable: "readable_sector demo_data 1 MfClassicKeyTypeA"
  unfolding readable_sector_def
proof (intro allI impI)
  fix m :: u8 assume "mf_classic_get_sector_by_block m = 1"
  then have "sector_of (unat m) = 1" using unat_sector [of m] by simp
  then have "unat m \<in> {4, 5, 6, 7}" by (auto simp: sector_of_def split: if_splits)
  then have "m \<in> {4, 5, 6, 7}" by (elim insertE emptyE) (drule of_nat_eqI, simp)+
  then show "mf_classic_is_allowed_access demo_data m MfClassicKeyTypeA
      (if mf_classic_is_sector_trailer m then MfClassicActionACRead else MfClassicActionDataRead) = Some True"
    by (rule demo_sector_access)
qed

lemma demo_fit: "keys_fit demo_data 64 demo_keys"
proof -
  have "keys_for demo_keys MfClassicKeyTypeA ! 1 = sector_key_of demo_data (of_nat (first_of 1)) MfClassicKeyTypeA" by code_simp
  moreover have "first_of 1 < 64" by (simp add: first_of_eq)
  ultimately show ?thesis using demo_readable by (simp add: keys_fit_def demo_wanted)
qed

definition demo_started :: "MfClassicListener MfClassicPoller" where
  "demo_started = demo_reader\<lparr>mp_state := MfClassicPollerStateStart, mp_card_state := MfClassicCardStateDetected\<rparr>"

lemma demo_started_facts: "selected demo_started" "emulated demo_started = demo_card" "mp_state demo_started = MfClassicPollerStateStart"
  "mp_card_state demo_started = MfClassicCardStateDetected" "knows demo_data (mp_data demo_started)"
  "lower_state demo_started \<in> {Iso14443_3aPollerStateIdle, Iso14443_3aPollerStateActivated}"
  "standard_card (mfc_iso14443_3a_data demo_data)"
proof -
  show "lower_state demo_started \<in> {Iso14443_3aPollerStateIdle, Iso14443_3aPollerStateActivated}"
    by (simp add: demo_started_def demo_reader_def mf_classic_poller_alloc_def iso14443_3a_poller_alloc_def bit_buffer_alloc_def)
  show "standard_card (mfc_iso14443_3a_data demo_data)"
    by (simp add: standard_card_def demo_data_def demo_iso_def)
  show "selected demo_started" "emulated demo_started = demo_card"
    using demo_reader_selected by (simp_all add: demo_started_def selected_def reader_ok_def)
  show "mp_state demo_started = MfClassicPollerStateStart" "mp_card_state demo_started = MfClassicCardStateDetected"
    by (simp_all add: demo_started_def)
  have "mp_data demo_started = mf_classic_alloc"
    by (simp add: demo_started_def demo_reader_def mf_classic_poller_alloc_def iso14443_3a_poller_alloc_def bit_buffer_alloc_def)
  then show "knows demo_data (mp_data demo_started)"
    by (auto simp: knows_def data_ok_def mf_classic_alloc_def byte_known_def read_at_def key_at_def split: MfClassicKeyType.splits)
qed

theorem read_mode_reads_card_witness:
  "\<exists>n p' r'. nfc_worker_poller n id (nfc_poller_start_callback (air [1, 2, 3, 4]) (mf_classic_poller_run (\<lambda>_ _. None) (air [1, 2, 3, 4]) [5, 6, 7, 8]
      (mf_classic_poller_read_callback \<lparr>poller_mode = MfClassicPollerModeRead, poller_mode_data = mf_classic_alloc,
         sector_trailer = [], sector_trailer_provided = False, ed_write_block = [], write_block_provided = False,
         rs_sector_num = 0, rs_key = [], rs_key_type = MfClassicKeyTypeA, rs_key_provided = False\<rparr>)))
      demo_started (MfClassicErrorNone, demo_keys) = Some (p', MfClassicErrorNone, r') \<and>
    knows demo_data (mp_data p') \<and> wanted r' = {} \<and> sector_known (mp_data p') (1, MfClassicKeyTypeA)"
proof -
  have data: "ml_data (emulated demo_started) = demo_data" "total_block_num (emulated demo_started) = 64"
    by (simp_all add: demo_started_facts(2) demo_card_fields(2,5))
  have nr: "length ([5, 6, 7, 8] :: bytes) = 4" by simp
  show ?thesis
    using read_mode_reads_card [OF demo_started_facts(1,3,4), unfolded data, OF demo_started_facts(5-7) demo_fit demo_nonce nr,
        unfolded demo_wanted ball_simps(5) ball_empty simp_thms]
    by blast
qed

end
