(* ===== verification/Infrared_Common.thy ===== *)
theory Infrared_Common
  imports Firmware_Prelude
begin

text \<open>
  The common infrared decoder and encoder (firmware/lib/infrared/encoder\_decoder/common): the
  engine that all infrared protocols share. A protocol is a record of timings, message lengths
  and functions; the functions take the protocol's data as an argument where the code reaches
  it through the decoder or encoder. The toggle bit that RC5 and RC6 keep in a structure of
  their own is a field of the common one. Loops whose end depends on a protocol's functions are
  partial functions: \<open>None\<close> is a crash, an access outside an array, or no return at all.
\<close>

subsection \<open>Messages and protocols\<close>

datatype InfraredProtocol =
  InfraredProtocolUnknown | InfraredProtocolNEC | InfraredProtocolNECext | InfraredProtocolNEC42 |
  InfraredProtocolNEC42ext | InfraredProtocolSamsung32 | InfraredProtocolRC6 | InfraredProtocolRC5 |
  InfraredProtocolRC5X | InfraredProtocolSIRC | InfraredProtocolSIRC15 | InfraredProtocolSIRC20 |
  InfraredProtocolKaseikyo | InfraredProtocolRCA | InfraredProtocolPioneer | InfraredProtocolMAX

record InfraredMessage =
  im_protocol :: InfraredProtocol
  im_address :: u32
  im_command :: u32
  im_repeat :: bool

datatype InfraredStatus = InfraredStatusError | InfraredStatusOk | InfraredStatusDone | InfraredStatusReady

record InfraredTimings =
  min_split_time :: u32
  silence_time :: u32
  preamble_mark :: u16
  preamble_space :: u16
  bit1_mark :: u16
  bit1_space :: u16
  bit0_mark :: u16
  bit0_space :: u16
  preamble_tolerance :: u32
  bit_tolerance :: u32

datatype InfraredCommonStateDecoder =
  InfraredCommonDecoderStateWaitPreamble | InfraredCommonDecoderStateDecode | InfraredCommonDecoderStateProcessRepeat

datatype InfraredCommonStateEncoder =
  InfraredCommonEncoderStateSilence | InfraredCommonEncoderStatePreamble |
  InfraredCommonEncoderStateEncode | InfraredCommonEncoderStateEncodeRepeat

text \<open>Counters of samples and bits are natural numbers; the code checks them against the small
  bounds of its arrays.\<close>

record InfraredCommonDecoder =
  samples :: "u32 list"
  message :: InfraredMessage
  dec_state :: InfraredCommonStateDecoder
  samples_cnt :: nat
  dec_switch_detect :: bool
  dec_level :: bool
  databit_cnt :: nat
  dec_data :: bytes
  dec_toggle :: bool

record InfraredCommonEncoder =
  enc_state :: InfraredCommonStateEncoder
  enc_switch_detect :: bool
  bits_to_encode :: nat
  bits_encoded :: nat
  timings_sum :: u32
  timings_encoded :: nat
  enc_data :: bytes
  enc_toggle :: bool

record InfraredProtocolData =
  timings :: InfraredTimings
  manchester_start_from_space :: bool
  databit_len :: "nat list"

type_synonym pulse = "InfraredStatus \<times> u32 \<times> bool \<times> InfraredCommonEncoder"

record InfraredCommonProtocolSpec = InfraredProtocolData +
  decode_fn :: "InfraredProtocolData \<Rightarrow> InfraredCommonDecoder \<Rightarrow> bool \<Rightarrow> u32 \<Rightarrow>
    (InfraredStatus \<times> InfraredCommonDecoder) option"
  decode_repeat_fn :: "(InfraredProtocolData \<Rightarrow> InfraredCommonDecoder \<Rightarrow> (InfraredStatus \<times> InfraredCommonDecoder) option) option"
  interpret_fn :: "InfraredProtocolData \<Rightarrow> InfraredCommonDecoder \<Rightarrow> (bool \<times> InfraredCommonDecoder) option"
  encode_fn :: "InfraredProtocolData \<Rightarrow> InfraredCommonEncoder \<Rightarrow> pulse option"
  encode_repeat_fn :: "(InfraredProtocolData \<Rightarrow> InfraredCommonEncoder \<Rightarrow> pulse option) option"

abbreviation pdata :: "InfraredCommonProtocolSpec \<Rightarrow> InfraredProtocolData" where
  "pdata p \<equiv> InfraredProtocolData.truncate p"

text \<open>\<open>MATCH_TIMING\<close> with an unsigned tolerance computes in 32 bits; with a \<open>float\<close>
  tolerance it compares exactly for the values that occur.\<close>

definition MATCH_TIMING :: "u32 \<Rightarrow> u32 \<Rightarrow> u32 \<Rightarrow> bool" where
  "MATCH_TIMING x v delta = (x < v + delta \<and> v - delta < x)"

definition MATCH_TIMING_float :: "u32 \<Rightarrow> u16 \<Rightarrow> u32 \<Rightarrow> bool" where
  "MATCH_TIMING_float x v delta =
     (uint x < uint v + uint delta \<and> uint v - uint delta < uint x)"

subsection \<open>Decoder\<close>

text \<open>In a debug build a shift larger than the length is an assertion failure; in a release build
  the loop leaves the array.\<close>

definition consume_samples :: "u32 list \<Rightarrow> nat \<Rightarrow> nat \<Rightarrow> (u32 list \<times> nat) option" where
  "consume_samples array len shift = do {
     furi_check (shift \<le> len);
     array \<leftarrow> ofold (\<lambda>i array. do { x \<leftarrow> rd array (i + shift); wr array i x }) [0..<len - shift] array;
     Some (array, len - shift)
   }"

definition consume :: "nat \<Rightarrow> InfraredCommonDecoder \<Rightarrow> InfraredCommonDecoder option" where
  "consume shift d = do {
     (array, len) \<leftarrow> consume_samples (samples d) (samples_cnt d) shift;
     Some (d\<lparr>samples := array, samples_cnt := len\<rparr>)
   }"

definition accumulate_lsb :: "InfraredCommonDecoder \<Rightarrow> bool \<Rightarrow> InfraredCommonDecoder option" where
  "accumulate_lsb d b = do {
     let index = databit_cnt d div 8;
     let shift = databit_cnt d mod 8;
     x \<leftarrow> rd (dec_data d) index;
     let x = (if shift = 0 then 0 else x);
     data \<leftarrow> wr (dec_data d) index (if b then x OR push_bit shift 1 else x);
     Some (d\<lparr>dec_data := data, databit_cnt := databit_cnt d + 1\<rparr>)
   }"

text \<open>The level of the oldest stored sample: levels alternate back from the last one.\<close>

definition first_level :: "InfraredCommonDecoder \<Rightarrow> bool" where
  "first_level d = ((of_bool (dec_level d) + samples_cnt d + 1) mod 2 \<noteq> (0 :: nat))"

fun preamble_loop :: "InfraredTimings \<Rightarrow> u32 list \<Rightarrow> nat \<Rightarrow> (bool \<times> u32 list \<times> nat) option" where
  "preamble_loop t array len =
     (if len < 2 then Some (False, array, len)
      else do {
        x \<leftarrow> rd array 0;
        y \<leftarrow> rd array 1;
        let result = (MATCH_TIMING_float x (preamble_mark t) (preamble_tolerance t) \<and>
                      MATCH_TIMING_float y (preamble_space t) (preamble_tolerance t));
        (array, _) \<leftarrow> consume_samples array len 2;
        if result then Some (True, array, len - 2) else preamble_loop t array (len - 2)
      })"

declare preamble_loop.simps [simp del]

definition infrared_check_preamble ::
    "InfraredCommonProtocolSpec \<Rightarrow> InfraredCommonDecoder \<Rightarrow> (bool \<times> InfraredCommonDecoder) option" where
  "infrared_check_preamble p d = do {
     let start_level = first_level d;
     if samples_cnt d = 0 then Some (False, d)
     else do {
       d \<leftarrow> (if start_level then Some d else consume 1 d);
       if preamble_mark (timings p) = 0 then Some (True, d)
       else do {
         (result, array, len) \<leftarrow> preamble_loop (timings p) (samples d) (samples_cnt d);
         Some (result, d\<lparr>samples := array, samples_cnt := len\<rparr>)
       }
     }
   }"

text \<open>A message length of the protocol: the list ends at the first zero.\<close>

definition known_length :: "InfraredCommonProtocolSpec \<Rightarrow> nat \<Rightarrow> bool" where
  "known_length p n = (n \<in> set (takeWhile (\<lambda>l. l \<noteq> 0) (databit_len p)))"

definition max_length :: "InfraredCommonProtocolSpec \<Rightarrow> nat" where
  "max_length p = databit_len p ! 0"

text \<open>The test at a low level: a long one may end the message, a short one after the longest message
  is an error.\<close>

definition split_status :: "InfraredCommonProtocolSpec \<Rightarrow> InfraredCommonDecoder \<Rightarrow> bool \<Rightarrow> u32 \<Rightarrow> InfraredStatus option" where
  "split_status p d level timing =
     (if min_split_time (timings p) \<noteq> 0 \<and> \<not> level then
        if min_split_time (timings p) < timing then
          if known_length p (databit_cnt d) then Some InfraredStatusReady else None
        else if max_length p = databit_cnt d then Some InfraredStatusError else None
      else None)"

partial_function (option) infrared_common_decode_bits ::
    "InfraredCommonProtocolSpec \<Rightarrow> InfraredCommonDecoder \<Rightarrow> (InfraredStatus \<times> InfraredCommonDecoder) option" where
  "infrared_common_decode_bits p d =
     (if samples_cnt d = 0 then Some (InfraredStatusOk, d)
      else do {
        let level = first_level d;
        timing \<leftarrow> rd (samples d) 0;
        (case split_status p d level timing of
           Some status \<Rightarrow> Some (status, d)
         | None \<Rightarrow> do {
             (status, d) \<leftarrow> decode_fn p (pdata p) d level timing;
             furi_check (databit_cnt d \<le> max_length p);
             if status = InfraredStatusError then Some (status, d)
             else do {
               d \<leftarrow> consume 1 d;
               if level \<and> max_length p = databit_cnt d \<and> min_split_time (timings p) = 0
               then Some (InfraredStatusReady, d)
               else if status = InfraredStatusOk then infrared_common_decode_bits p d
               else Some (status, d)
             }
           })
      })"

text \<open>Pulse distance or pulse width modulation: the bit is in the spaces or in the marks.\<close>

definition infrared_common_decode_pdwm ::
    "InfraredProtocolData \<Rightarrow> InfraredCommonDecoder \<Rightarrow> bool \<Rightarrow> u32 \<Rightarrow> (InfraredStatus \<times> InfraredCommonDecoder) option" where
  "infrared_common_decode_pdwm pd d level timing =
     (let t = timings pd;
          analyze_timing = (level \<noteq> (bit1_mark t = bit0_mark t));
          bit1 = (if level then bit1_mark t else bit1_space t);
          bit0 = (if level then bit0_mark t else bit0_space t);
          no_info_timing = (if bit1_mark t = bit0_mark t then bit1_mark t else bit1_space t)
      in if analyze_timing then
           if MATCH_TIMING timing (ucast bit1) (bit_tolerance t) then
             map_option (Pair InfraredStatusOk) (accumulate_lsb d True)
           else if MATCH_TIMING timing (ucast bit0) (bit_tolerance t) then
             map_option (Pair InfraredStatusOk) (accumulate_lsb d False)
           else Some (InfraredStatusError, d)
         else if \<not> MATCH_TIMING timing (ucast no_info_timing) (bit_tolerance t) then Some (InfraredStatusError, d)
         else Some (InfraredStatusOk, d))"

definition infrared_common_decode_manchester ::
    "InfraredProtocolData \<Rightarrow> InfraredCommonDecoder \<Rightarrow> bool \<Rightarrow> u32 \<Rightarrow> (InfraredStatus \<times> InfraredCommonDecoder) option" where
  "infrared_common_decode_manchester pd d level timing =
     (let b = (ucast (bit1_mark (timings pd)) :: u32);
          tolerance = bit_tolerance (timings pd);
          single_timing = MATCH_TIMING timing b tolerance;
          double_timing = MATCH_TIMING timing (2 * b) tolerance
      in if \<not> single_timing \<and> \<not> double_timing then Some (InfraredStatusError, d)
         else do {
           d \<leftarrow> (if manchester_start_from_space pd \<and> databit_cnt d = 0
                then accumulate_lsb (d\<lparr>dec_switch_detect := True\<rparr>) False else Some d);
           if \<not> dec_switch_detect d \<and> double_timing then Some (InfraredStatusError, d)
           else do {
             let d = (if \<not> dec_switch_detect d then d\<lparr>dec_switch_detect := True\<rparr>
                      else if single_timing then d\<lparr>dec_switch_detect := False\<rparr> else d);
             if dec_switch_detect d then
               if databit_len pd ! 0 = databit_cnt d then Some (InfraredStatusError, d)
               else map_option (Pair InfraredStatusOk) (accumulate_lsb d level)
             else Some (InfraredStatusOk, d)
           }
         })"

definition infrared_common_decoder_check_ready ::
    "InfraredCommonProtocolSpec \<Rightarrow> InfraredCommonDecoder \<Rightarrow> (bool \<times> InfraredCommonDecoder) option" where
  "infrared_common_decoder_check_ready p d =
     (if known_length p (databit_cnt d) then do {
        (ok, d) \<leftarrow> interpret_fn p (pdata p) d;
        if ok then
          Some (True, d\<lparr>databit_cnt := 0,
            dec_state := (if decode_repeat_fn p = None then InfraredCommonDecoderStateWaitPreamble
                          else InfraredCommonDecoderStateProcessRepeat)\<rparr>)
        else Some (False, d)
      } else Some (False, d))"

definition infrared_common_decoder_reset_state ::
    "InfraredCommonProtocolSpec \<Rightarrow> InfraredCommonDecoder \<Rightarrow> InfraredCommonDecoder option" where
  "infrared_common_decoder_reset_state p d =
     (let d = d\<lparr>dec_state := InfraredCommonDecoderStateWaitPreamble, databit_cnt := 0, dec_switch_detect := False,
            message := (message d)\<lparr>im_protocol := InfraredProtocolUnknown\<rparr>\<rparr>
      in if preamble_mark (timings p) = 0 \<and> 0 < samples_cnt d then consume 1 d else Some d)"

definition infrared_common_decoder_reset ::
    "InfraredCommonProtocolSpec \<Rightarrow> InfraredCommonDecoder \<Rightarrow> InfraredCommonDecoder option" where
  "infrared_common_decoder_reset p d = do {
     d \<leftarrow> infrared_common_decoder_reset_state p d;
     Some (d\<lparr>samples_cnt := 0\<rparr>)
   }"

text \<open>The loop of \<open>infrared_common_decode\<close>; the flag says that \<open>message\<close> is not
  \<open>NULL\<close>.\<close>

partial_function (option) decode_loop ::
    "InfraredCommonProtocolSpec \<Rightarrow> bool \<Rightarrow> InfraredCommonDecoder \<Rightarrow> (bool \<times> InfraredCommonDecoder) option" where
  "decode_loop p msg d =
     (case dec_state d of
        InfraredCommonDecoderStateWaitPreamble \<Rightarrow> do {
          (found, d) \<leftarrow> infrared_check_preamble p d;
          if found then
            decode_loop p msg (d\<lparr>dec_state := InfraredCommonDecoderStateDecode, databit_cnt := 0, dec_switch_detect := False\<rparr>)
          else Some (msg, d)
        }
      | InfraredCommonDecoderStateDecode \<Rightarrow> do {
          (status, d) \<leftarrow> infrared_common_decode_bits p d;
          if status = InfraredStatusReady then do {
            (msg, d) \<leftarrow> infrared_common_decoder_check_ready p d;
            if msg then decode_loop p msg d
            else Some (msg, if max_length p = databit_cnt d then d\<lparr>dec_state := InfraredCommonDecoderStateWaitPreamble\<rparr> else d)
          }
          else if status = InfraredStatusError then do {
            d \<leftarrow> infrared_common_decoder_reset_state p d;
            decode_loop p msg d
          }
          else Some (msg, d)
        }
      | InfraredCommonDecoderStateProcessRepeat \<Rightarrow> do {
          (status, d) \<leftarrow> (case decode_repeat_fn p of None \<Rightarrow> None | Some f \<Rightarrow> f (pdata p) d);
          if status = InfraredStatusError then do {
            d \<leftarrow> infrared_common_decoder_reset_state p d;
            decode_loop p msg d
          }
          else if status = InfraredStatusReady then Some (True, d\<lparr>message := (message d)\<lparr>im_repeat := True\<rparr>\<rparr>)
          else Some (msg, d)
        })"

definition infrared_common_decode ::
    "InfraredCommonProtocolSpec \<Rightarrow> InfraredCommonDecoder \<Rightarrow> bool \<Rightarrow> u32 \<Rightarrow>
     (InfraredMessage option \<times> InfraredCommonDecoder) option" where
  "infrared_common_decode p d level duration = do {
     d \<leftarrow> (if dec_level d = level then infrared_common_decoder_reset p d else Some d);
     let d = d\<lparr>dec_level := level\<rparr>;
     array \<leftarrow> wr (samples d) (samples_cnt d) duration;
     let d = d\<lparr>samples := array, samples_cnt := samples_cnt d + 1\<rparr>;
     furi_check (samples_cnt d \<le> length (samples d));
     (msg, d) \<leftarrow> decode_loop p False d;
     Some (if msg then Some (message d) else None, d)
   }"

text \<open>A new decoder; what \<open>malloc\<close> returns is zeroed memory. The structure is padded behind the
  start of its data bytes, so a few bytes more than the message needs can be accessed: \<open>pad\<close> is
  their number. An encoder is allocated with the size of a decoder; \<open>room\<close> is what that
  leaves for its data.\<close>

definition data_bytes :: "InfraredCommonProtocolSpec \<Rightarrow> nat" where
  "data_bytes p = max_length p div 8 + of_bool (max_length p mod 8 \<noteq> 0)"

definition infrared_common_decoder_alloc :: "InfraredCommonProtocolSpec \<Rightarrow> nat \<Rightarrow> InfraredCommonDecoder" where
  "infrared_common_decoder_alloc p pad =
     \<lparr>samples = replicate 6 0,
      message = \<lparr>im_protocol = InfraredProtocolNEC, im_address = 0, im_command = 0, im_repeat = False\<rparr>,
      dec_state = InfraredCommonDecoderStateWaitPreamble, samples_cnt = 0, dec_switch_detect = False,
      dec_level = True, databit_cnt = 0, dec_data = replicate (data_bytes p + pad) 0, dec_toggle = False\<rparr>"

subsection \<open>Encoder\<close>

definition infrared_common_encode_bits :: "InfraredCommonProtocolSpec \<Rightarrow> InfraredCommonEncoder \<Rightarrow> pulse option" where
  "infrared_common_encode_bits p e = do {
     (status, duration, level, e) \<leftarrow> encode_fn p (pdata p) e;
     let e = e\<lparr>timings_encoded := timings_encoded e + 1, timings_sum := timings_sum e + duration\<rparr>;
     Some (if bits_encoded e = bits_to_encode e \<and> level then InfraredStatusDone else status, duration, level, e)
   }"

definition logic_value :: "InfraredCommonEncoder \<Rightarrow> bool option" where
  "logic_value e = do {
     x \<leftarrow> rd (enc_data e) (bits_encoded e div 8);
     Some (x AND push_bit (bits_encoded e mod 8) 1 \<noteq> 0)
   }"

definition infrared_common_encode_manchester :: "InfraredProtocolData \<Rightarrow> InfraredCommonEncoder \<Rightarrow> pulse option" where
  "infrared_common_encode_manchester pd e = do {
     v \<leftarrow> logic_value e;
     let even_timing = (timings_encoded e mod 2 = 0);
     let level = (even_timing \<noteq> v);
     let e = (if even_timing then e\<lparr>bits_encoded := bits_encoded e + 1\<rparr>
              else if level \<and> bits_encoded e + 1 = bits_to_encode e then e\<lparr>bits_encoded := bits_encoded e + 1\<rparr>
              else e);
     Some (InfraredStatusOk, ucast (bit1_mark (timings pd)), level, e)
   }"

definition infrared_common_encode_pdwm :: "InfraredProtocolData \<Rightarrow> InfraredCommonEncoder \<Rightarrow> pulse option" where
  "infrared_common_encode_pdwm pd e = do {
     let t = timings pd;
     v \<leftarrow> logic_value e;
     let pwm = (bit1_space t = bit0_space t);
     if timings_encoded e mod 2 \<noteq> 0 then
       Some (InfraredStatusOk, ucast (if v then bit1_mark t else bit0_mark t), True,
         if pwm then e\<lparr>bits_encoded := bits_encoded e + 1\<rparr> else e)
     else
       Some (InfraredStatusOk, ucast (if v then bit1_space t else bit0_space t), False,
         if \<not> pwm then e\<lparr>bits_encoded := bits_encoded e + 1\<rparr> else e)
   }"

definition encode_state :: "InfraredCommonProtocolSpec \<Rightarrow> InfraredCommonEncoder \<Rightarrow> pulse option" where
  "encode_state p e = do {
     (status, duration, level, e) \<leftarrow> infrared_common_encode_bits p e;
     if status = InfraredStatusDone then
       if encode_repeat_fn p \<noteq> None then
         Some (status, duration, level, e\<lparr>enc_state := InfraredCommonEncoderStateEncodeRepeat\<rparr>)
       else
         Some (status, duration, level, e\<lparr>timings_encoded := 0, timings_sum := 0, bits_encoded := 0,
           enc_switch_detect := False, enc_state := InfraredCommonEncoderStateSilence\<rparr>)
     else Some (status, duration, level, e)
   }"

definition infrared_common_encode :: "InfraredCommonProtocolSpec \<Rightarrow> InfraredCommonEncoder \<Rightarrow> pulse option" where
  "infrared_common_encode p e =
     (let t = timings p
      in case enc_state e of
        InfraredCommonEncoderStateSilence \<Rightarrow>
          Some (InfraredStatusOk, silence_time t, False,
            e\<lparr>enc_state := InfraredCommonEncoderStatePreamble, timings_encoded := timings_encoded e + 1, timings_sum := 0\<rparr>)
      | InfraredCommonEncoderStatePreamble \<Rightarrow>
          if preamble_mark t \<noteq> 0 then
            if timings_encoded e = 1 then
              Some (InfraredStatusOk, ucast (preamble_mark t), True,
                e\<lparr>timings_encoded := timings_encoded e + 1, timings_sum := timings_sum e + ucast (preamble_mark t)\<rparr>)
            else
              Some (InfraredStatusOk, ucast (preamble_space t), False,
                e\<lparr>enc_state := InfraredCommonEncoderStateEncode, timings_encoded := timings_encoded e + 1,
                  timings_sum := timings_sum e + ucast (preamble_space t)\<rparr>)
          else encode_state p (e\<lparr>enc_state := InfraredCommonEncoderStateEncode\<rparr>)
      | InfraredCommonEncoderStateEncode \<Rightarrow> encode_state p e
      | InfraredCommonEncoderStateEncodeRepeat \<Rightarrow>
          (case encode_repeat_fn p of None \<Rightarrow> None | Some f \<Rightarrow> f (pdata p) e))"

definition infrared_common_encoder_alloc :: "InfraredCommonProtocolSpec \<Rightarrow> nat \<Rightarrow> InfraredCommonEncoder" where
  "infrared_common_encoder_alloc p room =
     \<lparr>enc_state = InfraredCommonEncoderStateSilence, enc_switch_detect = False, bits_to_encode = 0, bits_encoded = 0,
      timings_sum = 0, timings_encoded = 0, enc_data = replicate room 0, enc_toggle = False\<rparr>"

definition infrared_common_encoder_reset ::
    "InfraredCommonProtocolSpec \<Rightarrow> InfraredCommonEncoder \<Rightarrow> InfraredCommonEncoder option" where
  "infrared_common_encoder_reset p e = do {
     let max_databit_len = fold max (databit_len p) 0;
     let bytes_to_clear = max_databit_len div 8 + of_bool (max_databit_len mod 8 \<noteq> 0);
     data \<leftarrow> memcpy (enc_data e) 0 (replicate bytes_to_clear 0) 0 bytes_to_clear;
     Some (e\<lparr>timings_encoded := 0, timings_sum := 0, bits_encoded := 0,
       enc_state := InfraredCommonEncoderStateSilence, enc_switch_detect := False, enc_data := data\<rparr>)
   }"

text \<open>The 32-bit and 16-bit words that the protocols read and write in the data bytes.\<close>

definition rd32 :: "bytes \<Rightarrow> nat \<Rightarrow> u32 option" where
  "rd32 d i = do {
     a \<leftarrow> rd d i; b \<leftarrow> rd d (i + 1); c \<leftarrow> rd d (i + 2); e \<leftarrow> rd d (i + 3);
     Some (ucast a OR push_bit 8 (ucast b) OR push_bit 16 (ucast c) OR push_bit 24 (ucast e))
   }"

definition rd16 :: "bytes \<Rightarrow> nat \<Rightarrow> u16 option" where
  "rd16 d i = do { a \<leftarrow> rd d i; b \<leftarrow> rd d (i + 1); Some (ucast a OR push_bit 8 (ucast b)) }"

definition wr32 :: "bytes \<Rightarrow> nat \<Rightarrow> u32 \<Rightarrow> bytes option" where
  "wr32 d i x = do {
     d \<leftarrow> wr d i (ucast x); d \<leftarrow> wr d (i + 1) (ucast (drop_bit 8 x));
     d \<leftarrow> wr d (i + 2) (ucast (drop_bit 16 x)); wr d (i + 3) (ucast (drop_bit 24 x))
   }"

definition reverse :: "u8 \<Rightarrow> u8" where
  "reverse value = fold (\<lambda>i r. r OR (if value AND push_bit i 1 \<noteq> 0 then push_bit (7 - i) 1 else 0)) [0..<8] 0"

end
