(* ===== verification/Infrared_Protocols.thy ===== *)
theory Infrared_Protocols
  imports Infrared_Common
begin

text \<open>
  The infrared protocols (firmware/lib/infrared/encoder\_decoder): what each does with a complete
  message, how it fills an encoder, its repeat frames, its timings and its variants; then the
  dispatch over all of them (infrared.c). An assertion on a state that the engine never
  reaches is left out of the encoders.
\<close>

record InfraredProtocolVariant =
  var_name :: string
  address_length :: u8
  command_length :: u8
  frequency :: u32
  duty_cycle_percent :: nat
  repeat_count :: nat

definition set_message ::
    "InfraredProtocol \<Rightarrow> u32 \<Rightarrow> u32 \<Rightarrow> InfraredCommonDecoder \<Rightarrow> (bool \<times> InfraredCommonDecoder) option" where
  "set_message protocol address command d =
     Some (True, d\<lparr>message := \<lparr>im_protocol = protocol, im_address = address, im_command = command, im_repeat = False\<rparr>\<rparr>)"

definition INFRARED_COMMON_CARRIER_FREQUENCY :: u32 where
  "INFRARED_COMMON_CARRIER_FREQUENCY = 38000"

definition common_variant :: "string \<Rightarrow> u8 \<Rightarrow> u8 \<Rightarrow> InfraredProtocolVariant" where
  "common_variant name a c =
     \<lparr>var_name = name, address_length = a, command_length = c, frequency = INFRARED_COMMON_CARRIER_FREQUENCY,
      duty_cycle_percent = 33, repeat_count = 1\<rparr>"

subsection \<open>NEC\<close>

definition infrared_decoder_nec_interpret ::
    "InfraredProtocolData \<Rightarrow> InfraredCommonDecoder \<Rightarrow> (bool \<times> InfraredCommonDecoder) option" where
  "infrared_decoder_nec_interpret pd d =
     (if databit_cnt d = 32 then do {
        address \<leftarrow> rd (dec_data d) 0;
        address_inverse \<leftarrow> rd (dec_data d) 1;
        command \<leftarrow> rd (dec_data d) 2;
        command_inverse \<leftarrow> rd (dec_data d) 3;
        if command = NOT command_inverse \<and> address = NOT address_inverse then
          set_message InfraredProtocolNEC (ucast address) (ucast command) d
        else
          set_message InfraredProtocolNECext (ucast address OR push_bit 8 (ucast address_inverse))
            (ucast command OR push_bit 8 (ucast command_inverse)) d
      }
      else if databit_cnt d = 42 then do {
        data1 \<leftarrow> rd32 (dec_data d) 0;
        data2 \<leftarrow> rd16 (dec_data d) 4;
        let address = (ucast (data1 AND 0x1FFF) :: u16);
        let address_inverse = (ucast (drop_bit 13 data1 AND 0x1FFF) :: u16);
        let command = (ucast (drop_bit 26 data1 AND 0x3F) OR push_bit 6 (data2 AND 3) :: u16);
        let command_inverse = drop_bit 2 data2 AND 0xFF;
        if address = NOT address_inverse AND 0x1FFF \<and> command = NOT command_inverse AND 0xFF then
          set_message InfraredProtocolNEC42 (ucast address) (ucast command) d
        else
          set_message InfraredProtocolNEC42ext (ucast address OR push_bit 13 (ucast address_inverse))
            (ucast command OR push_bit 8 (ucast command_inverse)) d
      }
      else Some (False, d))"

definition infrared_decoder_nec_decode_repeat ::
    "InfraredProtocolData \<Rightarrow> InfraredCommonDecoder \<Rightarrow> (InfraredStatus \<times> InfraredCommonDecoder) option" where
  "infrared_decoder_nec_decode_repeat pd d =
     (if samples_cnt d < 4 then Some (InfraredStatusOk, d)
      else do {
        let t = timings pd;
        t0 \<leftarrow> rd (samples d) 0; t1 \<leftarrow> rd (samples d) 1; t2 \<leftarrow> rd (samples d) 2; t3 \<leftarrow> rd (samples d) 3;
        if 4000 < t0 \<and> t0 < 150000 \<and> MATCH_TIMING_float t1 9000 (preamble_tolerance t) \<and>
           MATCH_TIMING_float t2 2250 (preamble_tolerance t) \<and> MATCH_TIMING t3 (ucast (bit1_mark t)) (bit_tolerance t)
        then Some (InfraredStatusReady, d\<lparr>samples_cnt := 0\<rparr>)
        else Some (InfraredStatusError, d)
      })"

definition infrared_encoder_nec_encode_repeat :: "InfraredProtocolData \<Rightarrow> InfraredCommonEncoder \<Rightarrow> pulse option" where
  "infrared_encoder_nec_encode_repeat pd e =
     (let repeat_timings = [110000 - 9000 - 2250 - 560, 9000, 2250, 560];
          timings_encoded_up_to_repeat = 1 + 2 + bits_to_encode e * 2 + 1;
          repeat_cnt = size_sub (timings_encoded e) timings_encoded_up_to_repeat;
          duration = (if 0 < repeat_cnt then repeat_timings ! (repeat_cnt mod 4) else 110000 - timings_sum e)
      in Some (if (repeat_cnt + 1) mod 4 = 0 then InfraredStatusDone else InfraredStatusOk,
               duration, repeat_cnt mod 2 \<noteq> 0, e\<lparr>timings_encoded := timings_encoded e + 1\<rparr>))"

definition infrared_protocol_nec :: InfraredCommonProtocolSpec where
  "infrared_protocol_nec =
     \<lparr>timings = \<lparr>min_split_time = 4000, silence_time = 110000, preamble_mark = 9000, preamble_space = 4500,
        bit1_mark = 560, bit1_space = 1690, bit0_mark = 560, bit0_space = 560,
        preamble_tolerance = 200, bit_tolerance = 120\<rparr>,
      manchester_start_from_space = False, databit_len = [42, 32, 0, 0],
      decode_fn = infrared_common_decode_pdwm, decode_repeat_fn = Some infrared_decoder_nec_decode_repeat,
      interpret_fn = infrared_decoder_nec_interpret, encode_fn = infrared_common_encode_pdwm,
      encode_repeat_fn = Some infrared_encoder_nec_encode_repeat\<rparr>"

definition infrared_encoder_nec_reset ::
    "InfraredCommonEncoder \<Rightarrow> InfraredMessage \<Rightarrow> InfraredCommonEncoder option" where
  "infrared_encoder_nec_reset e m = do {
     e \<leftarrow> infrared_common_encoder_reset infrared_protocol_nec e;
     (case im_protocol m of
        InfraredProtocolNEC \<Rightarrow> do {
          let address = (ucast (im_address m) :: u8);
          let command = (ucast (im_command m) :: u8);
          data \<leftarrow> wr32 (enc_data e) 0 (ucast address OR push_bit 8 (ucast (NOT address)) OR
            push_bit 16 (ucast command) OR push_bit 24 (ucast (NOT command)));
          Some (e\<lparr>enc_data := data, bits_to_encode := 32\<rparr>)
        }
      | InfraredProtocolNECext \<Rightarrow> do {
          data \<leftarrow> wr32 (enc_data e) 0 (ucast (ucast (im_address m) :: u16) OR push_bit 16 (im_command m AND 0xFFFF));
          Some (e\<lparr>enc_data := data, bits_to_encode := 32\<rparr>)
        }
      | InfraredProtocolNEC42 \<Rightarrow> do {
          data \<leftarrow> wr32 (enc_data e) 0 (im_address m AND 0x1FFF OR push_bit 13 (NOT (im_address m) AND 0x1FFF) OR
            push_bit 26 (im_command m AND 0x3F));
          data \<leftarrow> wr32 data 4 (drop_bit 6 (im_command m AND 0xC0) OR push_bit 2 (NOT (im_command m) AND 0xFF));
          Some (e\<lparr>enc_data := data, bits_to_encode := 42\<rparr>)
        }
      | InfraredProtocolNEC42ext \<Rightarrow> do {
          data \<leftarrow> wr32 (enc_data e) 0 (im_address m AND 0x3FFFFFF OR push_bit 26 (im_command m AND 0x3F));
          data \<leftarrow> wr32 data 4 (drop_bit 6 (im_command m AND 0xFFC0));
          Some (e\<lparr>enc_data := data, bits_to_encode := 42\<rparr>)
        }
      | _ \<Rightarrow> None)
   }"

definition infrared_encoder_nec_encode :: "InfraredCommonEncoder \<Rightarrow> pulse option" where
  "infrared_encoder_nec_encode = infrared_common_encode infrared_protocol_nec"

definition infrared_decoder_nec_decode ::
    "InfraredCommonDecoder \<Rightarrow> bool \<Rightarrow> u32 \<Rightarrow> (InfraredMessage option \<times> InfraredCommonDecoder) option" where
  "infrared_decoder_nec_decode = infrared_common_decode infrared_protocol_nec"

definition infrared_protocol_nec_get_variant :: "InfraredProtocol \<Rightarrow> InfraredProtocolVariant option" where
  "infrared_protocol_nec_get_variant protocol =
     (case protocol of
        InfraredProtocolNEC \<Rightarrow> Some (common_variant ''NEC'' 8 8)
      | InfraredProtocolNECext \<Rightarrow> Some (common_variant ''NECext'' 16 16)
      | InfraredProtocolNEC42 \<Rightarrow> Some (common_variant ''NEC42'' 13 8)
      | InfraredProtocolNEC42ext \<Rightarrow> Some (common_variant ''NEC42ext'' 26 16)
      | _ \<Rightarrow> None)"

subsection \<open>Samsung\<close>

definition infrared_decoder_samsung32_interpret ::
    "InfraredProtocolData \<Rightarrow> InfraredCommonDecoder \<Rightarrow> (bool \<times> InfraredCommonDecoder) option" where
  "infrared_decoder_samsung32_interpret pd d = do {
     address1 \<leftarrow> rd (dec_data d) 0;
     address2 \<leftarrow> rd (dec_data d) 1;
     command \<leftarrow> rd (dec_data d) 2;
     command_inverse \<leftarrow> rd (dec_data d) 3;
     if address1 = address2 \<and> command = NOT command_inverse then
       set_message InfraredProtocolSamsung32 (ucast address1) (ucast command) d
     else Some (False, d)
   }"

definition infrared_decoder_samsung32_decode_repeat ::
    "InfraredProtocolData \<Rightarrow> InfraredCommonDecoder \<Rightarrow> (InfraredStatus \<times> InfraredCommonDecoder) option" where
  "infrared_decoder_samsung32_decode_repeat pd d =
     (if samples_cnt d < 6 then Some (InfraredStatusOk, d)
      else do {
        let t = timings pd;
        t0 \<leftarrow> rd (samples d) 0; t1 \<leftarrow> rd (samples d) 1; t2 \<leftarrow> rd (samples d) 2;
        t3 \<leftarrow> rd (samples d) 3; t4 \<leftarrow> rd (samples d) 4; t5 \<leftarrow> rd (samples d) 5;
        if 30000 < t0 \<and> t0 < 140000 \<and> MATCH_TIMING_float t1 4500 (preamble_tolerance t) \<and>
           MATCH_TIMING_float t2 4500 (preamble_tolerance t) \<and> MATCH_TIMING t3 (ucast (bit1_mark t)) (bit_tolerance t) \<and>
           MATCH_TIMING t4 (ucast (bit1_space t)) (bit_tolerance t) \<and> MATCH_TIMING t5 (ucast (bit1_mark t)) (bit_tolerance t)
        then Some (InfraredStatusReady, d\<lparr>samples_cnt := 0\<rparr>)
        else Some (InfraredStatusError, d)
      })"

definition infrared_encoder_samsung32_encode_repeat :: "InfraredProtocolData \<Rightarrow> InfraredCommonEncoder \<Rightarrow> pulse option" where
  "infrared_encoder_samsung32_encode_repeat pd e =
     (let repeat_timings = [97000, 4500, 4500, 550, 1650, 550];
          timings_encoded_up_to_repeat = 1 + 2 + bits_encoded e * 2 + 1;
          repeat_cnt = size_sub (timings_encoded e) timings_encoded_up_to_repeat;
          duration = (if 0 < repeat_cnt then repeat_timings ! (repeat_cnt mod 6) else 46000)
      in Some (if (repeat_cnt + 1) mod 6 = 0 then InfraredStatusDone else InfraredStatusOk,
               duration, repeat_cnt mod 2 \<noteq> 0, e\<lparr>timings_encoded := timings_encoded e + 1\<rparr>))"

definition infrared_protocol_samsung32 :: InfraredCommonProtocolSpec where
  "infrared_protocol_samsung32 =
     \<lparr>timings = \<lparr>min_split_time = 5000, silence_time = 145000, preamble_mark = 4500, preamble_space = 4500,
        bit1_mark = 550, bit1_space = 1650, bit0_mark = 550, bit0_space = 550,
        preamble_tolerance = 200, bit_tolerance = 120\<rparr>,
      manchester_start_from_space = False, databit_len = [32, 0, 0, 0],
      decode_fn = infrared_common_decode_pdwm, decode_repeat_fn = Some infrared_decoder_samsung32_decode_repeat,
      interpret_fn = infrared_decoder_samsung32_interpret, encode_fn = infrared_common_encode_pdwm,
      encode_repeat_fn = Some infrared_encoder_samsung32_encode_repeat\<rparr>"

definition infrared_encoder_samsung32_reset ::
    "InfraredCommonEncoder \<Rightarrow> InfraredMessage \<Rightarrow> InfraredCommonEncoder option" where
  "infrared_encoder_samsung32_reset e m = do {
     e \<leftarrow> infrared_common_encoder_reset infrared_protocol_samsung32 e;
     let address = (ucast (im_address m) :: u8);
     let command = (ucast (im_command m) :: u8);
     x \<leftarrow> rd32 (enc_data e) 0;
     data \<leftarrow> wr32 (enc_data e) 0 (x OR ucast address OR push_bit 8 (ucast address) OR
       push_bit 16 (ucast command) OR push_bit 24 (ucast (NOT command)));
     Some (e\<lparr>enc_data := data, bits_to_encode := max_length infrared_protocol_samsung32\<rparr>)
   }"

definition infrared_encoder_samsung32_encode :: "InfraredCommonEncoder \<Rightarrow> pulse option" where
  "infrared_encoder_samsung32_encode = infrared_common_encode infrared_protocol_samsung32"

definition infrared_decoder_samsung32_decode ::
    "InfraredCommonDecoder \<Rightarrow> bool \<Rightarrow> u32 \<Rightarrow> (InfraredMessage option \<times> InfraredCommonDecoder) option" where
  "infrared_decoder_samsung32_decode = infrared_common_decode infrared_protocol_samsung32"

definition infrared_protocol_samsung32_get_variant :: "InfraredProtocol \<Rightarrow> InfraredProtocolVariant option" where
  "infrared_protocol_samsung32_get_variant protocol =
     (if protocol = InfraredProtocolSamsung32 then Some (common_variant ''Samsung32'' 8 8) else None)"

subsection \<open>RCA\<close>

definition infrared_decoder_rca_interpret ::
    "InfraredProtocolData \<Rightarrow> InfraredCommonDecoder \<Rightarrow> (bool \<times> InfraredCommonDecoder) option" where
  "infrared_decoder_rca_interpret pd d = do {
     data \<leftarrow> rd32 (dec_data d) 0;
     let address = (ucast (data AND 0xF) :: u8);
     let command = (ucast (drop_bit 4 data AND 0xFF) :: u8);
     let address_inverse = (ucast (drop_bit 12 data AND 0xF) :: u8);
     let command_inverse = (ucast (drop_bit 16 data AND 0xFF) :: u8);
     if command = NOT command_inverse \<and> address = NOT address_inverse AND 0xF then
       set_message InfraredProtocolRCA (ucast address) (ucast command) d
     else Some (False, d)
   }"

definition infrared_protocol_rca :: InfraredCommonProtocolSpec where
  "infrared_protocol_rca =
     \<lparr>timings = \<lparr>min_split_time = 4000, silence_time = 8000, preamble_mark = 4000, preamble_space = 4000,
        bit1_mark = 500, bit1_space = 2000, bit0_mark = 500, bit0_space = 1000,
        preamble_tolerance = 200, bit_tolerance = 120\<rparr>,
      manchester_start_from_space = False, databit_len = [24, 0, 0, 0],
      decode_fn = infrared_common_decode_pdwm, decode_repeat_fn = None,
      interpret_fn = infrared_decoder_rca_interpret, encode_fn = infrared_common_encode_pdwm,
      encode_repeat_fn = None\<rparr>"

definition infrared_encoder_rca_reset ::
    "InfraredCommonEncoder \<Rightarrow> InfraredMessage \<Rightarrow> InfraredCommonEncoder option" where
  "infrared_encoder_rca_reset e m = do {
     e \<leftarrow> infrared_common_encoder_reset infrared_protocol_rca e;
     let address = (ucast (im_address m) :: u8);
     let command = (ucast (im_command m) :: u8);
     data \<leftarrow> wr32 (enc_data e) 0 (ucast (address AND 0xF) OR push_bit 4 (ucast command) OR
       push_bit 12 (ucast (NOT address AND 0xF)) OR push_bit 16 (ucast (NOT command)));
     Some (e\<lparr>enc_data := data, bits_to_encode := max_length infrared_protocol_rca\<rparr>)
   }"

definition infrared_encoder_rca_encode :: "InfraredCommonEncoder \<Rightarrow> pulse option" where
  "infrared_encoder_rca_encode = infrared_common_encode infrared_protocol_rca"

definition infrared_decoder_rca_decode ::
    "InfraredCommonDecoder \<Rightarrow> bool \<Rightarrow> u32 \<Rightarrow> (InfraredMessage option \<times> InfraredCommonDecoder) option" where
  "infrared_decoder_rca_decode = infrared_common_decode infrared_protocol_rca"

definition infrared_protocol_rca_get_variant :: "InfraredProtocol \<Rightarrow> InfraredProtocolVariant option" where
  "infrared_protocol_rca_get_variant protocol =
     (if protocol = InfraredProtocolRCA then Some (common_variant ''RCA'' 4 8) else None)"


subsection \<open>Kaseikyo\<close>

definition infrared_decoder_kaseikyo_interpret ::
    "InfraredProtocolData \<Rightarrow> InfraredCommonDecoder \<Rightarrow> (bool \<times> InfraredCommonDecoder) option" where
  "infrared_decoder_kaseikyo_interpret pd d = do {
     d0 \<leftarrow> rd (dec_data d) 0; d1 \<leftarrow> rd (dec_data d) 1; d2 \<leftarrow> rd (dec_data d) 2;
     d3 \<leftarrow> rd (dec_data d) 3; d4 \<leftarrow> rd (dec_data d) 4; d5 \<leftarrow> rd (dec_data d) 5;
     let vendor_id = (push_bit 8 (ucast d1) OR ucast d0 :: u16);
     let vendor_parity = d2 AND 0x0F;
     let genre1 = drop_bit 4 d2;
     let genre2 = d3 AND 0x0F;
     let data = (ucast (drop_bit 4 d3) OR push_bit 4 (ucast (d4 AND 0x3F)) :: u16);
     let id = drop_bit 6 d4;
     let vendor_parity_check = d0 XOR d1;
     let vendor_parity_check = (vendor_parity_check AND 0xF) XOR drop_bit 4 vendor_parity_check;
     let parity_check = d2 XOR d3 XOR d4;
     if vendor_parity = vendor_parity_check \<and> d5 = parity_check then
       set_message InfraredProtocolKaseikyo
         (push_bit 24 (ucast id) OR push_bit 8 (ucast vendor_id) OR push_bit 4 (ucast genre1) OR ucast genre2)
         (ucast data) d
     else Some (False, d)
   }"

definition infrared_protocol_kaseikyo :: InfraredCommonProtocolSpec where
  "infrared_protocol_kaseikyo =
     \<lparr>timings = \<lparr>min_split_time = 4000, silence_time = 130000, preamble_mark = 8 * 432, preamble_space = 4 * 432,
        bit1_mark = 432, bit1_space = 3 * 432, bit0_mark = 432, bit0_space = 432,
        preamble_tolerance = 200, bit_tolerance = 120\<rparr>,
      manchester_start_from_space = False, databit_len = [48, 0, 0, 0],
      decode_fn = infrared_common_decode_pdwm, decode_repeat_fn = None,
      interpret_fn = infrared_decoder_kaseikyo_interpret, encode_fn = infrared_common_encode_pdwm,
      encode_repeat_fn = None\<rparr>"

definition infrared_encoder_kaseikyo_reset ::
    "InfraredCommonEncoder \<Rightarrow> InfraredMessage \<Rightarrow> InfraredCommonEncoder option" where
  "infrared_encoder_kaseikyo_reset e m = do {
     e \<leftarrow> infrared_common_encoder_reset infrared_protocol_kaseikyo e;
     let address = im_address m;
     let command = (ucast (im_command m) :: u16);
     let id = (ucast (drop_bit 24 address AND 3) :: u8);
     let vendor_id = (ucast (drop_bit 8 address AND 0xFFFF) :: u16);
     let genre1 = (ucast (drop_bit 4 address AND 0xF) :: u8);
     let genre2 = (ucast (address AND 0xF) :: u8);
     let d0 = (ucast (vendor_id AND 0xFF) :: u8);
     let d1 = (ucast (drop_bit 8 vendor_id) :: u8);
     let vendor_parity = d0 XOR d1;
     let vendor_parity = (vendor_parity AND 0xF) XOR drop_bit 4 vendor_parity;
     let d2 = (vendor_parity AND 0xF) OR push_bit 4 genre1;
     let d3 = (genre2 AND 0xF) OR push_bit 4 (ucast (command AND 0xF));
     let d4 = push_bit 6 id OR ucast (drop_bit 4 command);
     data \<leftarrow> wr (enc_data e) 0 d0; data \<leftarrow> wr data 1 d1; data \<leftarrow> wr data 2 d2;
     data \<leftarrow> wr data 3 d3; data \<leftarrow> wr data 4 d4; data \<leftarrow> wr data 5 (d2 XOR d3 XOR d4);
     Some (e\<lparr>enc_data := data, bits_to_encode := max_length infrared_protocol_kaseikyo\<rparr>)
   }"

definition infrared_encoder_kaseikyo_encode :: "InfraredCommonEncoder \<Rightarrow> pulse option" where
  "infrared_encoder_kaseikyo_encode = infrared_common_encode infrared_protocol_kaseikyo"

definition infrared_decoder_kaseikyo_decode ::
    "InfraredCommonDecoder \<Rightarrow> bool \<Rightarrow> u32 \<Rightarrow> (InfraredMessage option \<times> InfraredCommonDecoder) option" where
  "infrared_decoder_kaseikyo_decode = infrared_common_decode infrared_protocol_kaseikyo"

definition infrared_protocol_kaseikyo_get_variant :: "InfraredProtocol \<Rightarrow> InfraredProtocolVariant option" where
  "infrared_protocol_kaseikyo_get_variant protocol =
     (if protocol = InfraredProtocolKaseikyo then Some (common_variant ''Kaseikyo'' 26 10) else None)"

subsection \<open>Pioneer\<close>

definition infrared_decoder_pioneer_interpret ::
    "InfraredProtocolData \<Rightarrow> InfraredCommonDecoder \<Rightarrow> (bool \<times> InfraredCommonDecoder) option" where
  "infrared_decoder_pioneer_interpret pd d =
     (if databit_cnt d = databit_len pd ! 0 \<or> databit_cnt d = databit_len pd ! 1 then do {
        data \<leftarrow> rd32 (dec_data d) 0;
        let address = (ucast (data AND 0xFF) :: u8);
        let address_checksum = (ucast (drop_bit 8 data AND 0xFF) :: u8);
        let command = (ucast (drop_bit 16 data AND 0xFF) :: u8);
        let command_checksum = (ucast (drop_bit 24 data AND 0xFF) :: u8);
        if address_checksum \<noteq> NOT address then Some (False, d)
        else if command_checksum \<noteq> NOT command then Some (False, d)
        else set_message InfraredProtocolPioneer (ucast address) (ucast command) d
      }
      else Some (False, d))"

definition INFRARED_PIONEER_SILENCE :: u32 where
  "INFRARED_PIONEER_SILENCE = 26000"

definition infrared_encoder_pioneer_encode_repeat :: "InfraredProtocolData \<Rightarrow> InfraredCommonEncoder \<Rightarrow> pulse option" where
  "infrared_encoder_pioneer_encode_repeat pd e =
     Some (InfraredStatusOk, INFRARED_PIONEER_SILENCE, False,
       e\<lparr>timings_sum := 0, timings_encoded := 1, bits_encoded := 0, enc_state := InfraredCommonEncoderStatePreamble\<rparr>)"

definition infrared_protocol_pioneer :: InfraredCommonProtocolSpec where
  "infrared_protocol_pioneer =
     \<lparr>timings = \<lparr>min_split_time = INFRARED_PIONEER_SILENCE, silence_time = INFRARED_PIONEER_SILENCE,
        preamble_mark = 8500, preamble_space = 4225,
        bit1_mark = 500, bit1_space = 1500, bit0_mark = 500, bit0_space = 500,
        preamble_tolerance = 200, bit_tolerance = 120\<rparr>,
      manchester_start_from_space = False, databit_len = [33, 32, 0, 0],
      decode_fn = infrared_common_decode_pdwm, decode_repeat_fn = None,
      interpret_fn = infrared_decoder_pioneer_interpret, encode_fn = infrared_common_encode_pdwm,
      encode_repeat_fn = Some infrared_encoder_pioneer_encode_repeat\<rparr>"

definition infrared_encoder_pioneer_reset ::
    "InfraredCommonEncoder \<Rightarrow> InfraredMessage \<Rightarrow> InfraredCommonEncoder option" where
  "infrared_encoder_pioneer_reset e m = do {
     e \<leftarrow> infrared_common_encoder_reset infrared_protocol_pioneer e;
     furi_check (im_protocol m = InfraredProtocolPioneer);
     data \<leftarrow> wr (enc_data e) 0 (ucast (im_address m AND 0xFF));
     data \<leftarrow> wr data 1 (ucast (NOT (im_address m AND 0xFF)));
     data \<leftarrow> wr data 2 (ucast (im_command m AND 0xFF));
     data \<leftarrow> wr data 3 (ucast (NOT (im_command m AND 0xFF)));
     data \<leftarrow> wr data 4 0;
     Some (e\<lparr>enc_data := data, bits_to_encode := max_length infrared_protocol_pioneer\<rparr>)
   }"

definition infrared_encoder_pioneer_encode :: "InfraredCommonEncoder \<Rightarrow> pulse option" where
  "infrared_encoder_pioneer_encode e = do {
     (status, duration, level, e) \<leftarrow> infrared_common_encode infrared_protocol_pioneer e;
     if status = InfraredStatusOk \<and> bits_encoded e = bits_to_encode e then
       Some (InfraredStatusDone, duration, level, e\<lparr>enc_state := InfraredCommonEncoderStateEncodeRepeat\<rparr>)
     else Some (status, duration, level, e)
   }"

definition infrared_decoder_pioneer_decode ::
    "InfraredCommonDecoder \<Rightarrow> bool \<Rightarrow> u32 \<Rightarrow> (InfraredMessage option \<times> InfraredCommonDecoder) option" where
  "infrared_decoder_pioneer_decode = infrared_common_decode infrared_protocol_pioneer"

definition infrared_protocol_pioneer_get_variant :: "InfraredProtocol \<Rightarrow> InfraredProtocolVariant option" where
  "infrared_protocol_pioneer_get_variant protocol =
     (if protocol = InfraredProtocolPioneer
      then Some \<lparr>var_name = ''Pioneer'', address_length = 8, command_length = 8, frequency = 40000,
        duty_cycle_percent = 33, repeat_count = 2\<rparr>
      else None)"

subsection \<open>SIRC\<close>

definition infrared_decoder_sirc_interpret ::
    "InfraredProtocolData \<Rightarrow> InfraredCommonDecoder \<Rightarrow> (bool \<times> InfraredCommonDecoder) option" where
  "infrared_decoder_sirc_interpret pd d =
     (if databit_cnt d \<in> {12, 15, 20} then do {
        data \<leftarrow> rd32 (dec_data d) 0;
        let command = (ucast (data AND 0x7F) :: u8);
        if databit_cnt d = 12 then
          set_message InfraredProtocolSIRC (ucast (ucast (drop_bit 7 data AND 0x1F) :: u16)) (ucast command) d
        else if databit_cnt d = 15 then
          set_message InfraredProtocolSIRC15 (ucast (ucast (drop_bit 7 data AND 0xFF) :: u16)) (ucast command) d
        else
          set_message InfraredProtocolSIRC20 (ucast (ucast (drop_bit 7 data AND 0x1FFF) :: u16)) (ucast command) d
      }
      else Some (False, d))"

definition infrared_encoder_sirc_encode_repeat :: "InfraredProtocolData \<Rightarrow> InfraredCommonEncoder \<Rightarrow> pulse option" where
  "infrared_encoder_sirc_encode_repeat pd e =
     Some (InfraredStatusOk, 45000 - timings_sum e, False,
       e\<lparr>timings_sum := 0, timings_encoded := 1, bits_encoded := 0, enc_state := InfraredCommonEncoderStatePreamble\<rparr>)"

definition infrared_protocol_sirc :: InfraredCommonProtocolSpec where
  "infrared_protocol_sirc =
     \<lparr>timings = \<lparr>min_split_time = 10000 - 1000, silence_time = 10000, preamble_mark = 2400, preamble_space = 600,
        bit1_mark = 1200, bit1_space = 600, bit0_mark = 600, bit0_space = 600,
        preamble_tolerance = 200, bit_tolerance = 120\<rparr>,
      manchester_start_from_space = False, databit_len = [20, 15, 12, 0],
      decode_fn = infrared_common_decode_pdwm, decode_repeat_fn = None,
      interpret_fn = infrared_decoder_sirc_interpret, encode_fn = infrared_common_encode_pdwm,
      encode_repeat_fn = Some infrared_encoder_sirc_encode_repeat\<rparr>"

definition infrared_encoder_sirc_reset ::
    "InfraredCommonEncoder \<Rightarrow> InfraredMessage \<Rightarrow> InfraredCommonEncoder option" where
  "infrared_encoder_sirc_reset e m = do {
     e \<leftarrow> infrared_common_encoder_reset infrared_protocol_sirc e;
     (mask, bits) \<leftarrow> (case im_protocol m of
        InfraredProtocolSIRC \<Rightarrow> Some (0x1F, 12)
      | InfraredProtocolSIRC15 \<Rightarrow> Some (0xFF, 15)
      | InfraredProtocolSIRC20 \<Rightarrow> Some (0x1FFF, 20)
      | _ \<Rightarrow> None);
     data \<leftarrow> wr32 (enc_data e) 0 ((im_command m AND 0x7F) OR push_bit 7 (im_address m AND mask));
     Some (e\<lparr>enc_data := data, bits_to_encode := bits\<rparr>)
   }"

definition infrared_encoder_sirc_encode :: "InfraredCommonEncoder \<Rightarrow> pulse option" where
  "infrared_encoder_sirc_encode e = do {
     (status, duration, level, e) \<leftarrow> infrared_common_encode infrared_protocol_sirc e;
     if status = InfraredStatusOk \<and> bits_encoded e = bits_to_encode e then
       Some (InfraredStatusDone, duration, level, e\<lparr>enc_state := InfraredCommonEncoderStateEncodeRepeat\<rparr>)
     else Some (status, duration, level, e)
   }"

definition infrared_decoder_sirc_decode ::
    "InfraredCommonDecoder \<Rightarrow> bool \<Rightarrow> u32 \<Rightarrow> (InfraredMessage option \<times> InfraredCommonDecoder) option" where
  "infrared_decoder_sirc_decode = infrared_common_decode infrared_protocol_sirc"

definition sirc_variant :: "string \<Rightarrow> u8 \<Rightarrow> InfraredProtocolVariant" where
  "sirc_variant name a =
     \<lparr>var_name = name, address_length = a, command_length = 7, frequency = 40000, duty_cycle_percent = 33, repeat_count = 3\<rparr>"

definition infrared_protocol_sirc_get_variant :: "InfraredProtocol \<Rightarrow> InfraredProtocolVariant option" where
  "infrared_protocol_sirc_get_variant protocol =
     (case protocol of
        InfraredProtocolSIRC \<Rightarrow> Some (sirc_variant ''SIRC'' 5)
      | InfraredProtocolSIRC15 \<Rightarrow> Some (sirc_variant ''SIRC15'' 8)
      | InfraredProtocolSIRC20 \<Rightarrow> Some (sirc_variant ''SIRC20'' 13)
      | _ \<Rightarrow> None)"

subsection \<open>RC5\<close>

text \<open>A repetition is a message equal to the one before with the same toggle bit.\<close>

definition rc_message ::
    "InfraredProtocol \<Rightarrow> u8 \<Rightarrow> u8 \<Rightarrow> bool \<Rightarrow> InfraredCommonDecoder \<Rightarrow> InfraredCommonDecoder" where
  "rc_message protocol address command toggle d =
     (let m = message d;
          same = (im_address m = ucast address \<and> im_command m = ucast command \<and> im_protocol m = protocol)
      in d\<lparr>message := \<lparr>im_protocol = protocol, im_address = ucast address, im_command = ucast command,
             im_repeat = (same \<and> toggle = dec_toggle d)\<rparr>,
           dec_toggle := toggle\<rparr>)"

definition infrared_decoder_rc5_interpret ::
    "InfraredProtocolData \<Rightarrow> InfraredCommonDecoder \<Rightarrow> (bool \<times> InfraredCommonDecoder) option" where
  "infrared_decoder_rc5_interpret pd d = do {
     d0 \<leftarrow> rd (dec_data d) 0;
     bytes \<leftarrow> wr (dec_data d) 0 (NOT d0);
     d1 \<leftarrow> rd bytes 1;
     bytes \<leftarrow> wr bytes 1 (NOT d1);
     data \<leftarrow> rd32 bytes 0;
     let d = d\<lparr>dec_data := bytes\<rparr>;
     let address = reverse (NOT d0) AND 0x1F;
     let command = drop_bit 2 (reverse (NOT d1)) AND 0x3F;
     let start_bit1 = (data AND 1 \<noteq> 0);
     let start_bit2 = (data AND 2 \<noteq> 0);
     let toggle = (data AND 4 \<noteq> 0);
     if start_bit1 then
       Some (True, rc_message (if start_bit2 then InfraredProtocolRC5 else InfraredProtocolRC5X) address command toggle d)
     else Some (False, d)
   }"

definition infrared_protocol_rc5 :: InfraredCommonProtocolSpec where
  "infrared_protocol_rc5 =
     \<lparr>timings = \<lparr>min_split_time = 2700, silence_time = 2700 * 10, preamble_mark = 0, preamble_space = 0,
        bit1_mark = 888, bit1_space = 0, bit0_mark = 0, bit0_space = 0,
        preamble_tolerance = 0, bit_tolerance = 120\<rparr>,
      manchester_start_from_space = True, databit_len = [1 + 1 + 1 + 5 + 6, 0, 0, 0],
      decode_fn = infrared_common_decode_manchester, decode_repeat_fn = None,
      interpret_fn = infrared_decoder_rc5_interpret, encode_fn = infrared_common_encode_manchester,
      encode_repeat_fn = None\<rparr>"

definition infrared_encoder_rc5_reset ::
    "InfraredCommonEncoder \<Rightarrow> InfraredMessage \<Rightarrow> InfraredCommonEncoder option" where
  "infrared_encoder_rc5_reset e m = do {
     e \<leftarrow> infrared_common_encoder_reset infrared_protocol_rc5 e;
     x \<leftarrow> rd32 (enc_data e) 0;
     bytes \<leftarrow> wr32 (enc_data e) 0 (x OR 1 OR (if im_protocol m = InfraredProtocolRC5 then 2 else 0) OR
       (if enc_toggle e then 4 else 0) OR
       push_bit 3 (ucast (drop_bit 3 (reverse (ucast (im_address m))))) OR
       push_bit 8 (ucast (drop_bit 2 (reverse (ucast (im_command m))))));
     d0 \<leftarrow> rd bytes 0;
     bytes \<leftarrow> wr bytes 0 (NOT d0);
     d1 \<leftarrow> rd bytes 1;
     bytes \<leftarrow> wr bytes 1 (NOT d1);
     Some (e\<lparr>enc_data := bytes, bits_to_encode := max_length infrared_protocol_rc5, enc_toggle := \<not> enc_toggle e\<rparr>)
   }"

definition infrared_encoder_rc5_encode :: "InfraredCommonEncoder \<Rightarrow> pulse option" where
  "infrared_encoder_rc5_encode = infrared_common_encode infrared_protocol_rc5"

definition infrared_decoder_rc5_decode ::
    "InfraredCommonDecoder \<Rightarrow> bool \<Rightarrow> u32 \<Rightarrow> (InfraredMessage option \<times> InfraredCommonDecoder) option" where
  "infrared_decoder_rc5_decode = infrared_common_decode infrared_protocol_rc5"

definition rc_variant :: "string \<Rightarrow> u8 \<Rightarrow> u8 \<Rightarrow> InfraredProtocolVariant" where
  "rc_variant name a c =
     \<lparr>var_name = name, address_length = a, command_length = c, frequency = 36000, duty_cycle_percent = 33, repeat_count = 1\<rparr>"

definition infrared_protocol_rc5_get_variant :: "InfraredProtocol \<Rightarrow> InfraredProtocolVariant option" where
  "infrared_protocol_rc5_get_variant protocol =
     (case protocol of
        InfraredProtocolRC5 \<Rightarrow> Some (rc_variant ''RC5'' 5 6)
      | InfraredProtocolRC5X \<Rightarrow> Some (rc_variant ''RC5X'' 5 7)
      | _ \<Rightarrow> None)"

subsection \<open>RC6\<close>

definition infrared_decoder_rc6_interpret ::
    "InfraredProtocolData \<Rightarrow> InfraredCommonDecoder \<Rightarrow> (bool \<times> InfraredCommonDecoder) option" where
  "infrared_decoder_rc6_interpret pd d = do {
     data \<leftarrow> rd32 (dec_data d) 0;
     let address = reverse (ucast (drop_bit 5 data));
     let command = reverse (ucast (drop_bit 13 data));
     let start_bit = (data AND 1 \<noteq> 0);
     let toggle = (data AND 0x10 \<noteq> 0);
     let mode = drop_bit 1 data AND 7;
     if start_bit \<and> mode = 0 then Some (True, rc_message InfraredProtocolRC6 address command toggle d)
     else Some (False, d)
   }"

text \<open>The fourth bit, the toggle bit, lasts twice as long as the others.\<close>

definition infrared_decoder_rc6_decode_manchester ::
    "InfraredProtocolData \<Rightarrow> InfraredCommonDecoder \<Rightarrow> bool \<Rightarrow> u32 \<Rightarrow> (InfraredStatus \<times> InfraredCommonDecoder) option" where
  "infrared_decoder_rc6_decode_manchester pd d level timing =
     (let b = (ucast (bit1_mark (timings pd)) :: u32);
          tolerance = bit_tolerance (timings pd);
          single_timing = MATCH_TIMING timing b tolerance;
          double_timing = MATCH_TIMING timing (2 * b) tolerance;
          triple_timing = MATCH_TIMING timing (3 * b) tolerance
      in if databit_cnt d = 4 then
           if single_timing \<noteq> triple_timing then do {
             x \<leftarrow> rd (dec_data d) 0;
             data \<leftarrow> wr (dec_data d) 0 (x OR push_bit 4 (of_bool (if single_timing then \<not> level else level)));
             Some (InfraredStatusOk, d\<lparr>databit_cnt := 5, dec_data := data\<rparr>)
           }
           else Some (InfraredStatusError, d)
         else if databit_cnt d = 5 then
           if single_timing \<or> triple_timing then
             infrared_common_decode_manchester pd (d\<lparr>dec_switch_detect := False\<rparr>) level (if triple_timing then b else timing)
           else if double_timing then Some (InfraredStatusOk, d)
           else Some (InfraredStatusError, d)
         else infrared_common_decode_manchester pd d level timing)"

definition infrared_encoder_rc6_encode_manchester :: "InfraredProtocolData \<Rightarrow> InfraredCommonEncoder \<Rightarrow> pulse option" where
  "infrared_encoder_rc6_encode_manchester pd e = do {
     let toggle_bit = (bits_encoded e = 4);
     (status, duration, level, e) \<leftarrow> infrared_common_encode_manchester pd e;
     Some (status, if toggle_bit then duration * 2 else duration, level, e)
   }"

definition infrared_protocol_rc6 :: InfraredCommonProtocolSpec where
  "infrared_protocol_rc6 =
     \<lparr>timings = \<lparr>min_split_time = 2700, silence_time = 2700 * 10, preamble_mark = 2666, preamble_space = 889,
        bit1_mark = 444, bit1_space = 0, bit0_mark = 0, bit0_space = 0,
        preamble_tolerance = 200, bit_tolerance = 120\<rparr>,
      manchester_start_from_space = False, databit_len = [1 + 3 + 1 + 8 + 8, 0, 0, 0],
      decode_fn = infrared_decoder_rc6_decode_manchester, decode_repeat_fn = None,
      interpret_fn = infrared_decoder_rc6_interpret, encode_fn = infrared_encoder_rc6_encode_manchester,
      encode_repeat_fn = None\<rparr>"

definition infrared_encoder_rc6_reset ::
    "InfraredCommonEncoder \<Rightarrow> InfraredMessage \<Rightarrow> InfraredCommonEncoder option" where
  "infrared_encoder_rc6_reset e m = do {
     e \<leftarrow> infrared_common_encoder_reset infrared_protocol_rc6 e;
     x \<leftarrow> rd32 (enc_data e) 0;
     bytes \<leftarrow> wr32 (enc_data e) 0 (x OR 1 OR (if enc_toggle e then 0x10 else 0) OR
       push_bit 5 (ucast (reverse (ucast (im_address m)))) OR push_bit 13 (ucast (reverse (ucast (im_command m)))));
     Some (e\<lparr>enc_data := bytes, bits_to_encode := max_length infrared_protocol_rc6, enc_toggle := \<not> enc_toggle e\<rparr>)
   }"

definition infrared_encoder_rc6_encode :: "InfraredCommonEncoder \<Rightarrow> pulse option" where
  "infrared_encoder_rc6_encode = infrared_common_encode infrared_protocol_rc6"

definition infrared_decoder_rc6_decode ::
    "InfraredCommonDecoder \<Rightarrow> bool \<Rightarrow> u32 \<Rightarrow> (InfraredMessage option \<times> InfraredCommonDecoder) option" where
  "infrared_decoder_rc6_decode = infrared_common_decode infrared_protocol_rc6"

definition infrared_protocol_rc6_get_variant :: "InfraredProtocol \<Rightarrow> InfraredProtocolVariant option" where
  "infrared_protocol_rc6_get_variant protocol =
     (if protocol = InfraredProtocolRC6 then Some (rc_variant ''RC6'' 8 8) else None)"

subsection \<open>All protocols\<close>

text \<open>The table of encoders and decoders. A decoder's functions are those of the engine at its
  protocol, so a row holds the protocol.\<close>

record InfraredEncoderDecoder =
  row_spec :: InfraredCommonProtocolSpec
  row_encode :: "InfraredCommonEncoder \<Rightarrow> pulse option"
  row_reset :: "InfraredCommonEncoder \<Rightarrow> InfraredMessage \<Rightarrow> InfraredCommonEncoder option"
  row_variant :: "InfraredProtocol \<Rightarrow> InfraredProtocolVariant option"

definition infrared_encoder_decoder :: "InfraredEncoderDecoder list" where
  "infrared_encoder_decoder =
     [\<lparr>row_spec = infrared_protocol_nec, row_encode = infrared_encoder_nec_encode,
       row_reset = infrared_encoder_nec_reset, row_variant = infrared_protocol_nec_get_variant\<rparr>,
      \<lparr>row_spec = infrared_protocol_samsung32, row_encode = infrared_encoder_samsung32_encode,
       row_reset = infrared_encoder_samsung32_reset, row_variant = infrared_protocol_samsung32_get_variant\<rparr>,
      \<lparr>row_spec = infrared_protocol_rc5, row_encode = infrared_encoder_rc5_encode,
       row_reset = infrared_encoder_rc5_reset, row_variant = infrared_protocol_rc5_get_variant\<rparr>,
      \<lparr>row_spec = infrared_protocol_rc6, row_encode = infrared_encoder_rc6_encode,
       row_reset = infrared_encoder_rc6_reset, row_variant = infrared_protocol_rc6_get_variant\<rparr>,
      \<lparr>row_spec = infrared_protocol_sirc, row_encode = infrared_encoder_sirc_encode,
       row_reset = infrared_encoder_sirc_reset, row_variant = infrared_protocol_sirc_get_variant\<rparr>,
      \<lparr>row_spec = infrared_protocol_pioneer, row_encode = infrared_encoder_pioneer_encode,
       row_reset = infrared_encoder_pioneer_reset, row_variant = infrared_protocol_pioneer_get_variant\<rparr>,
      \<lparr>row_spec = infrared_protocol_kaseikyo, row_encode = infrared_encoder_kaseikyo_encode,
       row_reset = infrared_encoder_kaseikyo_reset, row_variant = infrared_protocol_kaseikyo_get_variant\<rparr>,
      \<lparr>row_spec = infrared_protocol_rca, row_encode = infrared_encoder_rca_encode,
       row_reset = infrared_encoder_rca_reset, row_variant = infrared_protocol_rca_get_variant\<rparr>]"

text \<open>A decoder handler is the list of the decoders' states. The first message wins, but every
  decoder sees every pulse.\<close>

definition collect ::
    "(InfraredCommonProtocolSpec \<Rightarrow> InfraredCommonDecoder \<Rightarrow> (InfraredMessage option \<times> InfraredCommonDecoder) option) \<Rightarrow>
     InfraredCommonDecoder list \<Rightarrow> (InfraredMessage option \<times> InfraredCommonDecoder list) option" where
  "collect f ctx =
     ofold (\<lambda>(row, d) (result, ds). do {
       (message, d) \<leftarrow> f (row_spec row) d;
       Some (if result = None then message else result, ds @ [d])
     }) (zip infrared_encoder_decoder ctx) (None, [])"

definition infrared_decode ::
    "InfraredCommonDecoder list \<Rightarrow> bool \<Rightarrow> u32 \<Rightarrow> (InfraredMessage option \<times> InfraredCommonDecoder list) option" where
  "infrared_decode ctx level duration = collect (\<lambda>p d. infrared_common_decode p d level duration) ctx"

definition infrared_check_decoder_ready ::
    "InfraredCommonDecoder list \<Rightarrow> (InfraredMessage option \<times> InfraredCommonDecoder list) option" where
  "infrared_check_decoder_ready ctx =
     collect (\<lambda>p d. do {
       (ready, d) \<leftarrow> infrared_common_decoder_check_ready p d;
       Some (if ready then Some (message d) else None, d)
     }) ctx"

definition infrared_reset_decoder :: "InfraredCommonDecoder list \<Rightarrow> InfraredCommonDecoder list option" where
  "infrared_reset_decoder ctx =
     map_option snd (collect (\<lambda>p d. map_option (Pair None) (infrared_common_decoder_reset p d)) ctx)"

definition infrared_alloc_decoder :: "nat \<Rightarrow> InfraredCommonDecoder list option" where
  "infrared_alloc_decoder pad =
     infrared_reset_decoder (map (\<lambda>row. infrared_common_decoder_alloc (row_spec row) pad) infrared_encoder_decoder)"

definition infrared_find_index_by_protocol :: "InfraredProtocol \<Rightarrow> nat option" where
  "infrared_find_index_by_protocol protocol =
     List.find (\<lambda>i. row_variant (infrared_encoder_decoder ! i) protocol \<noteq> None) [0..<length infrared_encoder_decoder]"

text \<open>An encoder handler holds the encoder of one row, allocated when its protocol is first used.\<close>

type_synonym encoder_handler = "(nat \<times> InfraredCommonEncoder) option"

definition infrared_alloc_encoder :: encoder_handler where
  "infrared_alloc_encoder = None"

definition infrared_reset_encoder :: "nat \<Rightarrow> encoder_handler \<Rightarrow> InfraredMessage \<Rightarrow> encoder_handler option" where
  "infrared_reset_encoder room handler m = do {
     index \<leftarrow> infrared_find_index_by_protocol (im_protocol m);
     let row = infrared_encoder_decoder ! index;
     let e = (case handler of
          Some (i, e) \<Rightarrow> if i = index then e else infrared_common_encoder_alloc (row_spec row) room
        | None \<Rightarrow> infrared_common_encoder_alloc (row_spec row) room);
     e \<leftarrow> row_reset row e m;
     Some (Some (index, e))
   }"

definition infrared_encode ::
    "encoder_handler \<Rightarrow> (InfraredStatus \<times> u32 \<times> bool \<times> encoder_handler) option" where
  "infrared_encode handler = do {
     (index, e) \<leftarrow> handler;
     (status, duration, level, e) \<leftarrow> row_encode (infrared_encoder_decoder ! index) e;
     furi_check (status \<noteq> InfraredStatusError);
     Some (status, duration, level, Some (index, e))
   }"

definition infrared_is_protocol_valid :: "InfraredProtocol \<Rightarrow> bool" where
  "infrared_is_protocol_valid protocol = (infrared_find_index_by_protocol protocol \<noteq> None)"

definition infrared_get_variant_by_protocol :: "InfraredProtocol \<Rightarrow> InfraredProtocolVariant option" where
  "infrared_get_variant_by_protocol protocol = do {
     index \<leftarrow> infrared_find_index_by_protocol protocol;
     row_variant (infrared_encoder_decoder ! index) protocol
   }"

definition infrared_get_protocol_name :: "InfraredProtocol \<Rightarrow> string option" where
  "infrared_get_protocol_name protocol = map_option var_name (infrared_get_variant_by_protocol protocol)"

definition infrared_protocols :: "InfraredProtocol list" where
  "infrared_protocols =
     [InfraredProtocolNEC, InfraredProtocolNECext, InfraredProtocolNEC42, InfraredProtocolNEC42ext,
      InfraredProtocolSamsung32, InfraredProtocolRC6, InfraredProtocolRC5, InfraredProtocolRC5X,
      InfraredProtocolSIRC, InfraredProtocolSIRC15, InfraredProtocolSIRC20, InfraredProtocolKaseikyo,
      InfraredProtocolRCA, InfraredProtocolPioneer]"

fun protocol_by_name :: "InfraredProtocol list \<Rightarrow> string \<Rightarrow> InfraredProtocol option" where
  "protocol_by_name [] protocol_name = Some InfraredProtocolUnknown"
| "protocol_by_name (protocol # protocols) protocol_name = do {
     name \<leftarrow> infrared_get_protocol_name protocol;
     if name = protocol_name then Some protocol else protocol_by_name protocols protocol_name
   }"

definition infrared_get_protocol_by_name :: "string \<Rightarrow> InfraredProtocol option" where
  "infrared_get_protocol_by_name = protocol_by_name infrared_protocols"

definition infrared_get_protocol_address_length :: "InfraredProtocol \<Rightarrow> u8 option" where
  "infrared_get_protocol_address_length protocol = map_option address_length (infrared_get_variant_by_protocol protocol)"

definition infrared_get_protocol_command_length :: "InfraredProtocol \<Rightarrow> u8 option" where
  "infrared_get_protocol_command_length protocol = map_option command_length (infrared_get_variant_by_protocol protocol)"

definition infrared_get_protocol_frequency :: "InfraredProtocol \<Rightarrow> u32 option" where
  "infrared_get_protocol_frequency protocol = map_option frequency (infrared_get_variant_by_protocol protocol)"

definition infrared_get_protocol_min_repeat_count :: "InfraredProtocol \<Rightarrow> nat option" where
  "infrared_get_protocol_min_repeat_count protocol = map_option repeat_count (infrared_get_variant_by_protocol protocol)"

definition infrared_get_protocol_duty_cycle :: "InfraredProtocol \<Rightarrow> nat option" where
  "infrared_get_protocol_duty_cycle protocol = map_option duty_cycle_percent (infrared_get_variant_by_protocol protocol)"

end
