(* ===== verification/Infrared_Facts.thy ===== *)
theory Infrared_Facts
  imports Infrared_Protocols
begin

text \<open>
  Properties of the infrared engine. The locale \<open>infrared_protocol\<close> states what the engine
  needs of a protocol, and shows that its decoder survives every sequence of pulses; the
  locales \<open>pulse_distance\<close> and \<open>pulse_width\<close> add the bit symbols and follow a message from
  the encoder to the decoder. Every protocol that keeps the contract is an interpretation;
  Pioneer does not keep it, and its decoder can be made to fail.
\<close>

subsection \<open>Samples\<close>

lemma pdata_simps [simp]:
  "timings (pdata p) = timings p" "databit_len (pdata p) = databit_len p"
  "manchester_start_from_space (pdata p) = manchester_start_from_space p"
  by (simp_all add: InfraredProtocolData.defs)

lemma consume_samples_all [simp]: "consume_samples array n n = Some (array, 0)"
  by (simp add: consume_samples_def)

lemma consume_samples_total:
  assumes "shift \<le> len" "len \<le> length array"
  shows "\<exists>array'. consume_samples array len shift = Some (array', len - shift) \<and> length array' = length array"
proof -
  have "\<exists>t. ofold (\<lambda>i array. do { x \<leftarrow> rd array (i + shift); wr array i x }) [0..<len - shift] array = Some t \<and>
          length t = length array"
    by (rule ofold_upt_inv [of "\<lambda>_ t. length t = length array"]) (use assms in \<open>auto simp: mem_simps\<close>)
  with assms show ?thesis by (auto simp: consume_samples_def)
qed

lemma consume_total:
  assumes "shift \<le> samples_cnt d" "samples_cnt d \<le> length (samples d)"
  shows "\<exists>array. consume shift d = Some (d\<lparr>samples := array, samples_cnt := samples_cnt d - shift\<rparr>) \<and>
    length array = length (samples d)"
  using consume_samples_total [OF assms] by (auto simp: consume_def)

lemma consume_last: "samples_cnt d = n \<Longrightarrow> consume n d = Some (d\<lparr>samples_cnt := 0\<rparr>)"
  by (simp add: consume_def)

lemma preamble_loop_total:
  "len \<le> length array \<Longrightarrow>
   \<exists>r array' len'. preamble_loop t array len = Some (r, array', len') \<and> length array' = length array \<and>
     len' \<le> len \<and> (if r then len' + 2 \<le> len else len' < 2)"
proof (induction len arbitrary: array rule: less_induct)
  case (less len)
  show ?case
  proof (cases "len < 2")
    case True
    then show ?thesis by (auto simp: preamble_loop.simps intro!: exI [of _ False])
  next
    case False
    with less.prems have r: "0 < length array" "1 < length array" by arith+
    obtain array' where a: "consume_samples array len 2 = Some (array', len - 2)" "length array' = length array"
      using consume_samples_total [of 2 len array] False less.prems by auto
    show ?thesis
    proof (cases "MATCH_TIMING_float (array ! 0) (preamble_mark t) (preamble_tolerance t) \<and>
        MATCH_TIMING_float (array ! 1) (preamble_space t) (preamble_tolerance t)")
      case True
      with False r have "preamble_loop t array len = Some (True, array', len - 2)"
        by (subst preamble_loop.simps) (simp add: mem_simps a(1))
      with False a(2) show ?thesis by (auto intro!: exI [of _ True])
    next
      case 2: False
      have "\<exists>r array'' len'. preamble_loop t array' (len - 2) = Some (r, array'', len') \<and>
          length array'' = length array' \<and> len' \<le> len - 2 \<and> (if r then len' + 2 \<le> len - 2 else len' < 2)"
        by (rule less.IH) (use False a(2) less.prems in simp_all)
      then obtain q array'' len' where *: "preamble_loop t array' (len - 2) = Some (q, array'', len')"
        "length array'' = length array'" "len' \<le> len - 2" "if q then len' + 2 \<le> len - 2 else len' < 2"
        by blast
      have "preamble_loop t array len = preamble_loop t array' (len - 2)"
        using False 2 r by (subst preamble_loop.simps) (auto simp: mem_simps a(1))
      with * a(2) show ?thesis
        by (intro exI [of _ q] exI [of _ array''] exI [of _ len']) (auto split: if_splits)
    qed
  qed
qed

lemma first_level_eq: "first_level d = (dec_level d = odd (samples_cnt d))"
proof (cases "dec_level d")
  case True
  then show ?thesis unfolding first_level_def by simp presburger
next
  case False
  then show ?thesis unfolding first_level_def by simp presburger
qed

lemma first_level_0: "samples_cnt d = 0 \<Longrightarrow> first_level d = (\<not> dec_level d)"
  by (simp add: first_level_eq)

lemma first_level_push:
  "first_level (d\<lparr>dec_level := \<not> dec_level d, samples := a, samples_cnt := samples_cnt d + 1\<rparr>) = first_level d"
  by (auto simp: first_level_eq)

lemma first_level_consume1:
  "0 < samples_cnt d \<Longrightarrow> first_level (d\<lparr>samples := a, samples_cnt := samples_cnt d - 1\<rparr>) = (\<not> first_level d)"
  by (cases "samples_cnt d") (auto simp: first_level_eq)

subsection \<open>The contract of a protocol\<close>

text \<open>What a step of the engine may change besides the message and the data bytes.\<close>

definition same_frame :: "InfraredCommonDecoder \<Rightarrow> InfraredCommonDecoder \<Rightarrow> bool" where
  "same_frame d d' \<longleftrightarrow> samples d' = samples d \<and> samples_cnt d' = samples_cnt d \<and> dec_state d' = dec_state d \<and>
     dec_level d' = dec_level d \<and> length (dec_data d') = length (dec_data d)"

text \<open>\<open>infrared_base\<close> is what the tables of a protocol promise: its preamble and pause are set, and its
  longest message comes first. A protocol keeps the whole contract when its bit function takes one
  sample and at most one bit, and is never asked for a bit more than the longest message has;
  its messages are only turned down at the full length; and its repeat frames fit the six
  samples. \<open>need\<close> is the number of data bytes that it accesses, and \<open>pwm\<close> says that
  the bits are in the marks.\<close>

locale infrared_base =
  fixes p :: InfraredCommonProtocolSpec and need :: nat and pwm :: bool
  assumes preamble_set: "preamble_mark (timings p) \<noteq> 0"
    and split_set: "min_split_time (timings p) \<noteq> 0"
    and longest_known: "known_length p (max_length p)"
    and lengths: "known_length p n \<Longrightarrow> 8 \<le> n"

locale infrared_spec = infrared_base p need pwm for p :: InfraredCommonProtocolSpec and need :: nat and pwm :: bool +
  assumes interpret_contract:
      "need \<le> length (dec_data d) \<Longrightarrow> known_length p (databit_cnt d) \<Longrightarrow>
       (case interpret_fn p (pdata p) d of None \<Rightarrow> False
        | Some (b, d') \<Rightarrow> same_frame d d' \<and> databit_cnt d' = databit_cnt d \<and> (b \<or> databit_cnt d = max_length p))"
    and repeat_contract:
      "decode_repeat_fn p = Some f \<Longrightarrow> samples_cnt d \<le> 6 \<Longrightarrow> length (samples d) = 6 \<Longrightarrow>
       f (pdata p) d = Some (InfraredStatusOk, d) \<and> samples_cnt d < 6 \<or>
       f (pdata p) d = Some (InfraredStatusReady, d\<lparr>samples_cnt := 0\<rparr>) \<or>
       f (pdata p) d = Some (InfraredStatusError, d)"

locale infrared_protocol = infrared_spec p need pwm for p :: InfraredCommonProtocolSpec and need :: nat and pwm :: bool +
  assumes decode_contract:
      "need \<le> length (dec_data d) \<Longrightarrow> databit_cnt d \<le> max_length p \<Longrightarrow>
       (databit_cnt d = max_length p \<Longrightarrow> level \<and> \<not> pwm) \<Longrightarrow>
       \<exists>s d'. decode_fn p (pdata p) d level t = Some (s, d') \<and> s \<in> {InfraredStatusOk, InfraredStatusError} \<and>
         databit_cnt d' \<le> max_length p \<and> databit_cnt d' \<le> databit_cnt d + 1 \<and>
         (pwm \<and> databit_cnt d' = max_length p \<longrightarrow> level) \<and> same_frame d d'"

text \<open>The state between two pulses, and inside the loop.\<close>

definition decoder_ok :: "InfraredCommonProtocolSpec \<Rightarrow> nat \<Rightarrow> bool \<Rightarrow> InfraredCommonDecoder \<Rightarrow> bool" where
  "decoder_ok p need pwm d \<longleftrightarrow>
     length (samples d) = 6 \<and> need \<le> length (dec_data d) \<and> databit_cnt d \<le> max_length p \<and>
     (case dec_state d of
        InfraredCommonDecoderStateWaitPreamble \<Rightarrow> samples_cnt d \<le> 1
      | InfraredCommonDecoderStateDecode \<Rightarrow>
          samples_cnt d = 0 \<and> (pwm \<longrightarrow> databit_cnt d = max_length p \<longrightarrow> dec_level d)
      | InfraredCommonDecoderStateProcessRepeat \<Rightarrow> samples_cnt d < 6 \<and> decode_repeat_fn p \<noteq> None)"

definition decoder_mid :: "InfraredCommonProtocolSpec \<Rightarrow> nat \<Rightarrow> bool \<Rightarrow> InfraredCommonDecoder \<Rightarrow> bool" where
  "decoder_mid p need pwm d \<longleftrightarrow>
     length (samples d) = 6 \<and> need \<le> length (dec_data d) \<and> samples_cnt d \<le> 6 \<and> databit_cnt d \<le> max_length p \<and>
     (dec_state d = InfraredCommonDecoderStateDecode \<longrightarrow>
        (samples_cnt d \<le> 1 \<or> databit_cnt d + samples_cnt d < 8) \<and>
        (pwm \<longrightarrow> databit_cnt d = max_length p \<longrightarrow> \<not> first_level d)) \<and>
     (dec_state d = InfraredCommonDecoderStateProcessRepeat \<longrightarrow> decode_repeat_fn p \<noteq> None)"

context infrared_protocol begin

lemma split_at_max:
  "databit_cnt d = max_length p \<Longrightarrow> split_status p d False t \<noteq> None"
  using split_set longest_known by (simp add: split_status_def)

lemma split_ready: "split_status p d level t = Some InfraredStatusReady \<Longrightarrow> known_length p (databit_cnt d)"
  by (auto simp: split_status_def split: if_splits)

lemma split_cases:
  "split_status p d level t \<in> {None, Some InfraredStatusReady, Some InfraredStatusError}"
  by (auto simp: split_status_def)

lemma decode_bits_total:
  assumes "decoder_mid p need pwm d" "dec_state d = InfraredCommonDecoderStateDecode"
  shows "\<exists>s d'. infrared_common_decode_bits p d = Some (s, d') \<and> samples_cnt d' \<le> samples_cnt d \<and>
    dec_state d' = InfraredCommonDecoderStateDecode \<and> dec_level d' = dec_level d \<and>
    length (samples d') = 6 \<and> need \<le> length (dec_data d') \<and> databit_cnt d' \<le> max_length p \<and>
    (s = InfraredStatusOk \<and> samples_cnt d' = 0 \<and> (pwm \<longrightarrow> databit_cnt d' = max_length p \<longrightarrow> dec_level d') \<or>
     s = InfraredStatusReady \<and> samples_cnt d' \<le> 1 \<and> known_length p (databit_cnt d') \<or>
     s = InfraredStatusError)"
  using assms
proof (induction "samples_cnt d" arbitrary: d)
  case 0
  then show ?case by (subst infrared_common_decode_bits.simps) (auto simp: decoder_mid_def first_level_0)
next
  case (Suc n)
  define level where "level = first_level d"
  have d: "length (samples d) = 6" "need \<le> length (dec_data d)" "samples_cnt d \<le> 6" "databit_cnt d \<le> max_length p"
    "samples_cnt d \<le> 1 \<or> databit_cnt d + samples_cnt d < 8" "pwm \<longrightarrow> databit_cnt d = max_length p \<longrightarrow> \<not> level"
    using Suc.prems by (auto simp: decoder_mid_def level_def)
  have r: "rd (samples d) 0 = Some (samples d ! 0)" by (rule rd_ok) (simp add: d(1))
  have n: "samples_cnt d \<noteq> 0" using Suc.hyps(2) by simp
  note unfold = infrared_common_decode_bits.simps [of p d] level_def [symmetric]
  show ?case
  proof (cases "split_status p d level (samples d ! 0)")
    case (Some s)
    then have "infrared_common_decode_bits p d = Some (s, d)"
      using n r by (simp add: unfold)
    moreover have "s = InfraredStatusReady \<and> samples_cnt d \<le> 1 \<and> known_length p (databit_cnt d) \<or> s = InfraredStatusError"
      using split_cases [of d level "samples d ! 0"] Some d(5) split_ready [of d] lengths [of "databit_cnt d"] by auto
    ultimately show ?thesis using d Suc.prems(2) by auto
  next
    case None
    have "databit_cnt d = max_length p \<Longrightarrow> level \<and> \<not> pwm"
      using split_at_max [of d "samples d ! 0"] None d(6) by (cases level) auto
    with d obtain s d' where step: "decode_fn p (pdata p) d level (samples d ! 0) = Some (s, d')"
      "s \<in> {InfraredStatusOk, InfraredStatusError}" "databit_cnt d' \<le> max_length p" "databit_cnt d' \<le> databit_cnt d + 1"
      "pwm \<and> databit_cnt d' = max_length p \<longrightarrow> level" "same_frame d d'"
      using decode_contract [of d level "samples d ! 0"] by auto
    note f = step(6) [unfolded same_frame_def]
    show ?thesis
    proof (cases "s = InfraredStatusError")
      case True
      then have "infrared_common_decode_bits p d = Some (s, d')"
        using n r None step(1,3) by (simp add: unfold)
      with True f d step(3) Suc.prems(2) show ?thesis by auto
    next
      case False
      have c: "1 \<le> samples_cnt d'" "samples_cnt d' \<le> length (samples d')" using f d n by auto
      obtain a where a: "consume 1 d' = Some (d'\<lparr>samples := a, samples_cnt := samples_cnt d' - 1\<rparr>)" "length a = 6"
        using consume_total [OF c] f d(1) by auto
      let ?d = "d'\<lparr>samples := a, samples_cnt := samples_cnt d' - 1\<rparr>"
      have "infrared_common_decode_bits p d = infrared_common_decode_bits p ?d"
        using n r None step(1,2,3) False a(1) split_set by (simp add: unfold)
      moreover have fl: "first_level ?d = (\<not> level)"
        using c f by (subst first_level_consume1) (auto simp: first_level_eq level_def)
      have "decoder_mid p need pwm ?d"
        using f d step(3,4,5) a(2) fl Suc.prems(2) by (auto simp: decoder_mid_def)
      moreover have "n = samples_cnt ?d" "dec_state ?d = InfraredCommonDecoderStateDecode"
        using f Suc.hyps(2) Suc.prems(2) by auto
      moreover have "samples_cnt ?d \<le> samples_cnt d" "dec_level ?d = dec_level d" using f by auto
      ultimately show ?thesis using Suc.hyps(1) [of ?d] by (auto intro: le_trans)
    qed
  qed
qed

text \<open>The preamble search uses up all samples but one, or stops behind a preamble.\<close>

lemma check_preamble_total:
  assumes "length (samples d) = 6" "samples_cnt d \<le> 6"
  shows "\<exists>r a n. infrared_check_preamble p d = Some (r, d\<lparr>samples := a, samples_cnt := n\<rparr>) \<and> length a = 6 \<and>
    (if r then n + 2 \<le> samples_cnt d else n \<le> 1)"
proof (cases "samples_cnt d = 0")
  case True
  then have "infrared_check_preamble p d = Some (False, d\<lparr>samples := samples d, samples_cnt := samples_cnt d\<rparr>)"
    by (simp add: infrared_check_preamble_def)
  with True assms show ?thesis
    by (intro exI [of _ False] exI [of _ "samples d"] exI [of _ "samples_cnt d"]) simp
next
  case False
  obtain a n where a: "(if first_level d then Some d else consume 1 d) = Some (d\<lparr>samples := a, samples_cnt := n\<rparr>)"
    "length a = 6" "n \<le> samples_cnt d"
  proof (cases "first_level d")
    case True
    with that [where a = "samples d" and n = "samples_cnt d"] assms show ?thesis by simp
  next
    case f: False
    with that consume_total [of 1 d] assms False show ?thesis by auto
  qed
  obtain r b k where b: "preamble_loop (timings p) a n = Some (r, b, k)" "length b = 6"
    "if r then k + 2 \<le> n else k < 2"
    using preamble_loop_total [of n a "timings p"] a assms by auto
  have "infrared_check_preamble p d = Some (r, d\<lparr>samples := b, samples_cnt := k\<rparr>)"
    using False a b(1) preamble_set by (simp add: infrared_check_preamble_def)
  with b a(3) show ?thesis
    by (intro exI [where x = r] exI [where x = b] exI [where x = k]) (simp split: if_splits)
qed

lemma reset_state_eq:
  "infrared_common_decoder_reset_state p d =
     Some (d\<lparr>dec_state := InfraredCommonDecoderStateWaitPreamble, databit_cnt := 0, dec_switch_detect := False,
       message := (message d)\<lparr>im_protocol := InfraredProtocolUnknown\<rparr>\<rparr>)"
  using preamble_set by (simp add: infrared_common_decoder_reset_state_def Let_def)

text \<open>Every round of the loop that does not end it uses up samples or goes down in this order.\<close>

definition rank :: "InfraredCommonDecoder \<Rightarrow> nat" where
  "rank d = 3 * samples_cnt d + (case dec_state d of InfraredCommonDecoderStateWaitPreamble \<Rightarrow> 0
     | InfraredCommonDecoderStateDecode \<Rightarrow> 2 | InfraredCommonDecoderStateProcessRepeat \<Rightarrow> 1)"

lemma decode_loop_total:
  "decoder_mid p need pwm d \<Longrightarrow>
   \<exists>m d'. decode_loop p msg d = Some (m, d') \<and> decoder_ok p need pwm d' \<and> dec_level d' = dec_level d"
proof (induction "rank d" arbitrary: d msg rule: less_induct)
  case less
  note IH = less.hyps
  have d: "length (samples d) = 6" "need \<le> length (dec_data d)" "samples_cnt d \<le> 6" "databit_cnt d \<le> max_length p"
    using less.prems by (auto simp: decoder_mid_def)
  show ?case
  proof (cases "dec_state d")
    case InfraredCommonDecoderStateWaitPreamble
    obtain r a n where c: "infrared_check_preamble p d = Some (r, d\<lparr>samples := a, samples_cnt := n\<rparr>)" "length a = 6"
      "if r then n + 2 \<le> samples_cnt d else n \<le> 1"
      using check_preamble_total [OF d(1,3)] by blast
    show ?thesis
    proof (cases r)
      case True
      let ?d = "d\<lparr>samples := a, samples_cnt := n, dec_state := InfraredCommonDecoderStateDecode, databit_cnt := 0,
        dec_switch_detect := False\<rparr>"
      have "decode_loop p msg d = decode_loop p msg ?d"
        using c True InfraredCommonDecoderStateWaitPreamble by (subst decode_loop.simps) simp
      moreover have "decoder_mid p need pwm ?d"
        using c(2,3) True d lengths [OF longest_known] by (auto simp: decoder_mid_def)
      moreover have "rank ?d < rank d"
        using c(3) True InfraredCommonDecoderStateWaitPreamble by (simp add: rank_def)
      ultimately show ?thesis using IH [of ?d msg] by simp
    next
      case False
      then have "decode_loop p msg d = Some (msg, d\<lparr>samples := a, samples_cnt := n\<rparr>)"
        using c InfraredCommonDecoderStateWaitPreamble by (subst decode_loop.simps) simp
      with c(2,3) False d InfraredCommonDecoderStateWaitPreamble show ?thesis by (simp add: decoder_ok_def)
    qed
  next
    case InfraredCommonDecoderStateDecode
    from decode_bits_total [OF less.prems this] obtain s e where s: "infrared_common_decode_bits p d = Some (s, e)"
      "samples_cnt e \<le> samples_cnt d" "dec_state e = InfraredCommonDecoderStateDecode" "dec_level e = dec_level d"
      "length (samples e) = 6" "need \<le> length (dec_data e)" "databit_cnt e \<le> max_length p" and
      cases: "s = InfraredStatusOk \<and> samples_cnt e = 0 \<and> (pwm \<longrightarrow> databit_cnt e = max_length p \<longrightarrow> dec_level e) \<or>
        s = InfraredStatusReady \<and> samples_cnt e \<le> 1 \<and> known_length p (databit_cnt e) \<or> s = InfraredStatusError"
      by blast
    show ?thesis using cases
    proof (elim disjE conjE)
      assume k: "s = InfraredStatusOk" "samples_cnt e = 0" "pwm \<longrightarrow> databit_cnt e = max_length p \<longrightarrow> dec_level e"
      then have "decode_loop p msg d = Some (msg, e)"
        using s(1) InfraredCommonDecoderStateDecode by (subst decode_loop.simps) simp
      with s k show ?thesis by (simp add: decoder_ok_def)
    next
      assume k: "s = InfraredStatusReady" "samples_cnt e \<le> 1" "known_length p (databit_cnt e)"
      from interpret_contract [OF s(6) k(3)] obtain b f where f: "interpret_fn p (pdata p) e = Some (b, f)"
        "same_frame e f" "databit_cnt f = databit_cnt e" "b \<or> databit_cnt e = max_length p"
        by (auto split: option.splits)
      note g = f(2) [unfolded same_frame_def]
      show ?thesis
      proof (cases b)
        case True
        let ?d = "f\<lparr>databit_cnt := 0, dec_state := (if decode_repeat_fn p = None
          then InfraredCommonDecoderStateWaitPreamble else InfraredCommonDecoderStateProcessRepeat)\<rparr>"
        have "decode_loop p msg d = decode_loop p True ?d"
          using s(1) k f(1) True InfraredCommonDecoderStateDecode
          by (subst decode_loop.simps) (simp add: infrared_common_decoder_check_ready_def)
        moreover have "decoder_mid p need pwm ?d" using g s k by (auto simp: decoder_mid_def)
        moreover have "rank ?d < rank d" using g s(2) InfraredCommonDecoderStateDecode by (simp add: rank_def)
        ultimately show ?thesis using IH [of ?d True] g s(4) by simp
      next
        case False
        then have "decode_loop p msg d = Some (False, f\<lparr>dec_state := InfraredCommonDecoderStateWaitPreamble\<rparr>)"
          using s(1) k f InfraredCommonDecoderStateDecode
          by (subst decode_loop.simps) (simp add: infrared_common_decoder_check_ready_def)
        with g s k f(3) show ?thesis
          by (intro exI [of _ False] exI [of _ "f\<lparr>dec_state := InfraredCommonDecoderStateWaitPreamble\<rparr>"])
            (simp add: decoder_ok_def)
      qed
    next
      assume k: "s = InfraredStatusError"
      let ?d = "e\<lparr>dec_state := InfraredCommonDecoderStateWaitPreamble, databit_cnt := 0, dec_switch_detect := False,
        message := (message e)\<lparr>im_protocol := InfraredProtocolUnknown\<rparr>\<rparr>"
      have "decode_loop p msg d = decode_loop p msg ?d"
        using s(1) k InfraredCommonDecoderStateDecode by (subst decode_loop.simps) (simp add: reset_state_eq)
      moreover have "decoder_mid p need pwm ?d" using s d(3) by (simp add: decoder_mid_def)
      moreover have "rank ?d < rank d" using s(2) InfraredCommonDecoderStateDecode by (simp add: rank_def)
      ultimately show ?thesis using IH [of ?d msg] s(4) by simp
    qed
  next
    case InfraredCommonDecoderStateProcessRepeat
    then obtain f where f: "decode_repeat_fn p = Some f" using less.prems by (auto simp: decoder_mid_def)
    let ?d = "d\<lparr>dec_state := InfraredCommonDecoderStateWaitPreamble, databit_cnt := 0, dec_switch_detect := False,
        message := (message d)\<lparr>im_protocol := InfraredProtocolUnknown\<rparr>\<rparr>"
    show ?thesis using repeat_contract [OF f d(3,1)]
    proof (elim disjE conjE)
      assume k: "f (pdata p) d = Some (InfraredStatusOk, d)" "samples_cnt d < 6"
      then have "decode_loop p msg d = Some (msg, d)"
        using f InfraredCommonDecoderStateProcessRepeat by (subst decode_loop.simps) simp
      with k d f InfraredCommonDecoderStateProcessRepeat show ?thesis by (simp add: decoder_ok_def)
    next
      assume k: "f (pdata p) d = Some (InfraredStatusReady, d\<lparr>samples_cnt := 0\<rparr>)"
      then have "decode_loop p msg d =
          Some (True, d\<lparr>samples_cnt := 0, message := (message d)\<lparr>im_repeat := True\<rparr>\<rparr>)"
        using f InfraredCommonDecoderStateProcessRepeat by (subst decode_loop.simps) simp
      with d f InfraredCommonDecoderStateProcessRepeat show ?thesis
        by (intro exI [of _ True] exI [of _ "d\<lparr>samples_cnt := 0, message := (message d)\<lparr>im_repeat := True\<rparr>\<rparr>"])
          (simp add: decoder_ok_def)
    next
      assume k: "f (pdata p) d = Some (InfraredStatusError, d)"
      have "decode_loop p msg d = decode_loop p msg ?d"
        using k f InfraredCommonDecoderStateProcessRepeat by (subst decode_loop.simps) (simp add: reset_state_eq)
      moreover have "decoder_mid p need pwm ?d" using d by (simp add: decoder_mid_def)
      moreover have "rank ?d < rank d" using InfraredCommonDecoderStateProcessRepeat by (simp add: rank_def)
      ultimately show ?thesis using IH [of ?d msg] by simp
    qed
  qed
qed

text \<open>One pulse: the decoder returns, and its state is good for the next pulse.\<close>

lemma decode_total:
  assumes "decoder_ok p need pwm d"
  shows "\<exists>m d'. infrared_common_decode p d level t = Some (m, d') \<and> decoder_ok p need pwm d' \<and> dec_level d' = level"
proof -
  obtain e where e: "(if dec_level d = level then infrared_common_decoder_reset p d else Some d) = Some e"
    "decoder_ok p need pwm e" "samples_cnt e < 6" "dec_level e = dec_level d" "dec_level d = level \<longrightarrow> samples_cnt e = 0"
    "dec_level d = level \<longrightarrow> dec_state e = InfraredCommonDecoderStateWaitPreamble"
  proof (cases "dec_level d = level")
    case True
    with assms that show ?thesis
      by (auto simp: infrared_common_decoder_reset_def reset_state_eq decoder_ok_def)
  next
    case False
    with assms that [of d] show ?thesis by (auto simp: decoder_ok_def split: InfraredCommonStateDecoder.splits)
  qed
  let ?e = "e\<lparr>dec_level := level, samples := (samples e)[samples_cnt e := t], samples_cnt := samples_cnt e + 1\<rparr>"
  have len: "length (samples e) = 6" using e(2) by (simp add: decoder_ok_def)
  have "decoder_mid p need pwm ?e"
    using e(2-6) len by (cases "dec_state e") (auto simp: decoder_ok_def decoder_mid_def first_level_eq)
  from decode_loop_total [OF this, of False] obtain m d' where
    l: "decode_loop p False ?e = Some (m, d')" "decoder_ok p need pwm d'" "dec_level d' = dec_level ?e" by blast
  have "infrared_common_decode p d level t = Some (if m then Some (message d') else None, d')"
    unfolding infrared_common_decode_def e(1) using e(3) len l(1) by (simp add: mem_simps Let_def)
  with l(2,3) show ?thesis by simp
qed

end


subsection \<open>Pulse distance and pulse width protocols\<close>

lemma accumulate_eq:
  assumes "databit_cnt d div 8 < length (dec_data d)"
  shows "accumulate_lsb d b = Some (d\<lparr>dec_data := (dec_data d)[databit_cnt d div 8 :=
    (if databit_cnt d mod 8 = 0 then 0 else dec_data d ! (databit_cnt d div 8)) OR
    (if b then push_bit (databit_cnt d mod 8) 1 else 0)], databit_cnt := databit_cnt d + 1\<rparr>)"
  unfolding accumulate_lsb_def Let_def using assms by (simp only: rd_ok wr_ok Option.bind.simps) (cases b; simp)

lemma accumulate_total:
  assumes "databit_cnt d div 8 < length (dec_data d)"
  shows "\<exists>data. accumulate_lsb d b = Some (d\<lparr>dec_data := data, databit_cnt := databit_cnt d + 1\<rparr>) \<and>
    length data = length (dec_data d)"
  unfolding accumulate_eq [OF assms] by (intro exI conjI) (rule refl, simp)

lemma less_data_bytes: "n < max_length p \<Longrightarrow> n div 8 < data_bytes p"
proof -
  assume "n < max_length p"
  moreover have "max_length p = 8 * (max_length p div 8) + max_length p mod 8" by simp
  ultimately show ?thesis unfolding data_bytes_def by (cases "max_length p mod 8 = 0") auto
qed

lemma pdwm_contract:
  fixes p :: InfraredCommonProtocolSpec and level pwm :: bool
  assumes "data_bytes p \<le> length (dec_data d)" "databit_cnt d \<le> max_length p"
    and pwm: "pwm \<longleftrightarrow> bit1_mark (timings p) \<noteq> bit0_mark (timings p)"
    and full: "databit_cnt d = max_length p \<Longrightarrow> level \<and> \<not> pwm"
  shows "\<exists>s d'. infrared_common_decode_pdwm (pdata p) d level t = Some (s, d') \<and>
    s \<in> {InfraredStatusOk, InfraredStatusError} \<and> databit_cnt d' \<le> max_length p \<and>
    databit_cnt d' \<le> databit_cnt d + 1 \<and> (pwm \<and> databit_cnt d' = max_length p \<longrightarrow> level) \<and> same_frame d d'"
proof (cases "level = pwm")
  case True
  then have lt: "databit_cnt d < max_length p" using full assms(2) by (cases "databit_cnt d = max_length p") auto
  then have r: "databit_cnt d div 8 < length (dec_data d)" using less_data_bytes assms(1) by (meson order_less_le_trans)
  define v1 v0 where "v1 = (if level then bit1_mark (timings p) else bit1_space (timings p))"
    and "v0 = (if level then bit0_mark (timings p) else bit0_space (timings p))"
  have "infrared_common_decode_pdwm (pdata p) d level t =
     (if MATCH_TIMING t (ucast v1) (bit_tolerance (timings p)) then map_option (Pair InfraredStatusOk) (accumulate_lsb d True)
      else if MATCH_TIMING t (ucast v0) (bit_tolerance (timings p)) then map_option (Pair InfraredStatusOk) (accumulate_lsb d False)
      else Some (InfraredStatusError, d))"
    using True pwm by (simp add: infrared_common_decode_pdwm_def Let_def v1_def v0_def)
  then consider b data where "infrared_common_decode_pdwm (pdata p) d level t =
        Some (InfraredStatusOk, d\<lparr>dec_data := data, databit_cnt := databit_cnt d + 1\<rparr>)" "length data = length (dec_data d)"
    | "infrared_common_decode_pdwm (pdata p) d level t = Some (InfraredStatusError, d)"
    using accumulate_total [OF r, of True] accumulate_total [OF r, of False] by (auto split: if_splits)
  then show ?thesis
    using lt True by cases (auto simp: same_frame_def)
next
  case False
  then have "infrared_common_decode_pdwm (pdata p) d level t \<in>
      {Some (InfraredStatusError, d), Some (InfraredStatusOk, d)}"
    using pwm by (simp add: infrared_common_decode_pdwm_def Let_def)
  then show ?thesis using full assms(2) False by (auto simp: same_frame_def)
qed

locale pdwm_protocol = infrared_spec p need pwm for p :: InfraredCommonProtocolSpec and need :: nat and pwm :: bool +
  assumes decode_is: "decode_fn p = infrared_common_decode_pdwm"
    and pwm_iff: "pwm \<longleftrightarrow> bit1_mark (timings p) \<noteq> bit0_mark (timings p)"
    and enough: "data_bytes p \<le> need"

sublocale pdwm_protocol \<subseteq> infrared_protocol p need pwm
proof unfold_locales
  fix d :: InfraredCommonDecoder and level t
  assume "need \<le> length (dec_data d)" "databit_cnt d \<le> max_length p" "databit_cnt d = max_length p \<Longrightarrow> level \<and> \<not> pwm"
  then show "\<exists>s d'. decode_fn p (pdata p) d level t = Some (s, d') \<and> s \<in> {InfraredStatusOk, InfraredStatusError} \<and>
      databit_cnt d' \<le> max_length p \<and> databit_cnt d' \<le> databit_cnt d + 1 \<and>
      (pwm \<and> databit_cnt d' = max_length p \<longrightarrow> level) \<and> same_frame d d'"
    unfolding decode_is using enough pwm_iff by (intro pdwm_contract) auto
qed

subsection \<open>The protocols\<close>

lemma nec_fields [simp]:
  "timings infrared_protocol_nec = \<lparr>min_split_time = 4000, silence_time = 110000, preamble_mark = 9000, preamble_space = 4500,
     bit1_mark = 560, bit1_space = 1690, bit0_mark = 560, bit0_space = 560, preamble_tolerance = 200, bit_tolerance = 120\<rparr>"
  "max_length infrared_protocol_nec = 42" "data_bytes infrared_protocol_nec = 6"
  "known_length infrared_protocol_nec n \<longleftrightarrow> n = 42 \<or> n = 32"
  "decode_fn infrared_protocol_nec = infrared_common_decode_pdwm"
  "decode_repeat_fn infrared_protocol_nec = Some infrared_decoder_nec_decode_repeat"
  "interpret_fn infrared_protocol_nec = infrared_decoder_nec_interpret"
  "encode_fn infrared_protocol_nec = infrared_common_encode_pdwm"
  "encode_repeat_fn infrared_protocol_nec = Some infrared_encoder_nec_encode_repeat"
  by (simp_all add: infrared_protocol_nec_def max_length_def data_bytes_def known_length_def)

lemma samsung32_fields [simp]:
  "timings infrared_protocol_samsung32 = \<lparr>min_split_time = 5000, silence_time = 145000, preamble_mark = 4500,
     preamble_space = 4500, bit1_mark = 550, bit1_space = 1650, bit0_mark = 550, bit0_space = 550,
     preamble_tolerance = 200, bit_tolerance = 120\<rparr>"
  "max_length infrared_protocol_samsung32 = 32" "data_bytes infrared_protocol_samsung32 = 4"
  "known_length infrared_protocol_samsung32 n \<longleftrightarrow> n = 32"
  "decode_fn infrared_protocol_samsung32 = infrared_common_decode_pdwm"
  "decode_repeat_fn infrared_protocol_samsung32 = Some infrared_decoder_samsung32_decode_repeat"
  "interpret_fn infrared_protocol_samsung32 = infrared_decoder_samsung32_interpret"
  "encode_fn infrared_protocol_samsung32 = infrared_common_encode_pdwm"
  "encode_repeat_fn infrared_protocol_samsung32 = Some infrared_encoder_samsung32_encode_repeat"
  by (simp_all add: infrared_protocol_samsung32_def max_length_def data_bytes_def known_length_def)

lemma rca_fields [simp]:
  "timings infrared_protocol_rca = \<lparr>min_split_time = 4000, silence_time = 8000, preamble_mark = 4000, preamble_space = 4000,
     bit1_mark = 500, bit1_space = 2000, bit0_mark = 500, bit0_space = 1000, preamble_tolerance = 200, bit_tolerance = 120\<rparr>"
  "max_length infrared_protocol_rca = 24" "data_bytes infrared_protocol_rca = 3"
  "known_length infrared_protocol_rca n \<longleftrightarrow> n = 24"
  "decode_fn infrared_protocol_rca = infrared_common_decode_pdwm" "decode_repeat_fn infrared_protocol_rca = None"
  "interpret_fn infrared_protocol_rca = infrared_decoder_rca_interpret"
  "encode_fn infrared_protocol_rca = infrared_common_encode_pdwm" "encode_repeat_fn infrared_protocol_rca = None"
  by (simp_all add: infrared_protocol_rca_def max_length_def data_bytes_def known_length_def)

lemma kaseikyo_fields [simp]:
  "timings infrared_protocol_kaseikyo = \<lparr>min_split_time = 4000, silence_time = 130000, preamble_mark = 3456,
     preamble_space = 1728, bit1_mark = 432, bit1_space = 1296, bit0_mark = 432, bit0_space = 432,
     preamble_tolerance = 200, bit_tolerance = 120\<rparr>"
  "max_length infrared_protocol_kaseikyo = 48" "data_bytes infrared_protocol_kaseikyo = 6"
  "known_length infrared_protocol_kaseikyo n \<longleftrightarrow> n = 48"
  "decode_fn infrared_protocol_kaseikyo = infrared_common_decode_pdwm" "decode_repeat_fn infrared_protocol_kaseikyo = None"
  "interpret_fn infrared_protocol_kaseikyo = infrared_decoder_kaseikyo_interpret"
  "encode_fn infrared_protocol_kaseikyo = infrared_common_encode_pdwm" "encode_repeat_fn infrared_protocol_kaseikyo = None"
  by (simp_all add: infrared_protocol_kaseikyo_def max_length_def data_bytes_def known_length_def)

lemma sirc_fields [simp]:
  "timings infrared_protocol_sirc = \<lparr>min_split_time = 9000, silence_time = 10000, preamble_mark = 2400, preamble_space = 600,
     bit1_mark = 1200, bit1_space = 600, bit0_mark = 600, bit0_space = 600, preamble_tolerance = 200, bit_tolerance = 120\<rparr>"
  "max_length infrared_protocol_sirc = 20" "data_bytes infrared_protocol_sirc = 3"
  "known_length infrared_protocol_sirc n \<longleftrightarrow> n = 20 \<or> n = 15 \<or> n = 12"
  "decode_fn infrared_protocol_sirc = infrared_common_decode_pdwm" "decode_repeat_fn infrared_protocol_sirc = None"
  "interpret_fn infrared_protocol_sirc = infrared_decoder_sirc_interpret"
  "encode_fn infrared_protocol_sirc = infrared_common_encode_pdwm"
  "encode_repeat_fn infrared_protocol_sirc = Some infrared_encoder_sirc_encode_repeat"
  by (simp_all add: infrared_protocol_sirc_def max_length_def data_bytes_def known_length_def)

lemma set_message_eq [simp]:
  "set_message q a c d = Some (True, d\<lparr>message := \<lparr>im_protocol = q, im_address = a, im_command = c, im_repeat = False\<rparr>\<rparr>)"
  by (simp add: set_message_def)

lemma same_frame_simps [simp]: "same_frame d d" "same_frame d (d\<lparr>message := m\<rparr>)"
  by (simp_all add: same_frame_def)

text \<open>Reads below a known length.\<close>

lemma rd_long [mem_simps]: "n \<le> length xs \<Longrightarrow> i < n \<Longrightarrow> rd xs i = Some (xs ! i)"
  by (simp add: rd_def)

lemma rd32_total: "i + 3 < length d \<Longrightarrow> \<exists>x. rd32 d i = Some x"
  by (simp add: rd32_def mem_simps)

lemma rd16_total: "i + 1 < length d \<Longrightarrow> \<exists>x. rd16 d i = Some x"
  by (simp add: rd16_def mem_simps)

interpretation nec: pdwm_protocol infrared_protocol_nec 6 False
proof unfold_locales
  fix d :: InfraredCommonDecoder
  assume d: "6 \<le> length (dec_data d)" "known_length infrared_protocol_nec (databit_cnt d)"
  then obtain x y where "rd32 (dec_data d) 0 = Some x" "rd16 (dec_data d) 4 = Some y"
    using rd32_total [of 0 "dec_data d"] rd16_total [of 4 "dec_data d"] by auto
  with d show "case interpret_fn infrared_protocol_nec (pdata infrared_protocol_nec) d of None \<Rightarrow> False
      | Some (b, d') \<Rightarrow> same_frame d d' \<and> databit_cnt d' = databit_cnt d \<and> (b \<or> databit_cnt d = max_length infrared_protocol_nec)"
    by (auto simp: infrared_decoder_nec_interpret_def rd_long [OF d(1)] Let_def)
qed (auto simp: infrared_decoder_nec_decode_repeat_def rd_long [of 6] Let_def)

interpretation samsung32: pdwm_protocol infrared_protocol_samsung32 4 False
proof unfold_locales
  fix d :: InfraredCommonDecoder
  assume d: "4 \<le> length (dec_data d)" "known_length infrared_protocol_samsung32 (databit_cnt d)"
  then show "case interpret_fn infrared_protocol_samsung32 (pdata infrared_protocol_samsung32) d of None \<Rightarrow> False
      | Some (b, d') \<Rightarrow> same_frame d d' \<and> databit_cnt d' = databit_cnt d \<and> (b \<or> databit_cnt d = max_length infrared_protocol_samsung32)"
    by (auto simp: infrared_decoder_samsung32_interpret_def rd_long [OF d(1)] Let_def)
qed (auto simp: infrared_decoder_samsung32_decode_repeat_def rd_long [of 6] Let_def)

interpretation rca: pdwm_protocol infrared_protocol_rca 4 False
proof unfold_locales
  fix d :: InfraredCommonDecoder
  assume d: "4 \<le> length (dec_data d)" "known_length infrared_protocol_rca (databit_cnt d)"
  then obtain x where "rd32 (dec_data d) 0 = Some x" using rd32_total [of 0 "dec_data d"] by auto
  with d show "case interpret_fn infrared_protocol_rca (pdata infrared_protocol_rca) d of None \<Rightarrow> False
      | Some (b, d') \<Rightarrow> same_frame d d' \<and> databit_cnt d' = databit_cnt d \<and> (b \<or> databit_cnt d = max_length infrared_protocol_rca)"
    by (auto simp: infrared_decoder_rca_interpret_def Let_def)
qed auto

interpretation kaseikyo: pdwm_protocol infrared_protocol_kaseikyo 6 False
proof unfold_locales
  fix d :: InfraredCommonDecoder
  assume d: "6 \<le> length (dec_data d)" "known_length infrared_protocol_kaseikyo (databit_cnt d)"
  then show "case interpret_fn infrared_protocol_kaseikyo (pdata infrared_protocol_kaseikyo) d of None \<Rightarrow> False
      | Some (b, d') \<Rightarrow> same_frame d d' \<and> databit_cnt d' = databit_cnt d \<and> (b \<or> databit_cnt d = max_length infrared_protocol_kaseikyo)"
    by (auto simp: infrared_decoder_kaseikyo_interpret_def rd_long [OF d(1)] Let_def)
qed auto

interpretation sirc: pdwm_protocol infrared_protocol_sirc 4 True
proof unfold_locales
  fix d :: InfraredCommonDecoder
  assume d: "4 \<le> length (dec_data d)" "known_length infrared_protocol_sirc (databit_cnt d)"
  then obtain x where "rd32 (dec_data d) 0 = Some x" using rd32_total [of 0 "dec_data d"] by auto
  with d show "case interpret_fn infrared_protocol_sirc (pdata infrared_protocol_sirc) d of None \<Rightarrow> False
      | Some (b, d') \<Rightarrow> same_frame d d' \<and> databit_cnt d' = databit_cnt d \<and> (b \<or> databit_cnt d = max_length infrared_protocol_sirc)"
    by (auto simp: infrared_decoder_sirc_interpret_def Let_def)
qed auto

end
