(* ===== verification/Infrared_Signal.thy ===== *)
theory Infrared_Signal
  imports Infrared_Protocols
begin

text \<open>
  Infrared messages as users see them (firmware/lib/infrared/signal/infrared\_signal.c) and
  sending them (worker/infrared\_transmit.c). The radio driver asks a callback for pulses until it
  returns the state \<open>LastDone\<close>; \<open>tx_line\<close> is that dialogue. Reading and writing signal files is
  not modelled.
\<close>

subsection \<open>Valid messages\<close>

text \<open>A mask is a shift of an \<open>unsigned long\<close>, which has 32 bits.\<close>

definition infrared_signal_is_message_valid :: "InfraredMessage \<Rightarrow> bool option" where
  "infrared_signal_is_message_valid m =
     (if \<not> infrared_is_protocol_valid (im_protocol m) then Some False
      else do {
        address_length \<leftarrow> infrared_get_protocol_address_length (im_protocol m);
        let address_mask = push_bit (unat address_length) 1 - 1;
        if im_address m \<noteq> im_address m AND address_mask then Some False
        else do {
          command_length \<leftarrow> infrared_get_protocol_command_length (im_protocol m);
          let command_mask = push_bit (unat command_length) 1 - 1;
          if im_command m \<noteq> im_command m AND command_mask then Some False
          else Some True
        }
      })"

subsection \<open>Sending\<close>

datatype FuriHalInfraredTxGetDataState =
  FuriHalInfraredTxGetDataStateOk | FuriHalInfraredTxGetDataStateDone | FuriHalInfraredTxGetDataStateLastDone

record infrared_tx =
  infrared_tx_number_of_transmissions :: nat
  tx_encoder :: encoder_handler

definition infrared_get_data_callback ::
    "infrared_tx \<Rightarrow> (FuriHalInfraredTxGetDataState \<times> u32 \<times> bool \<times> infrared_tx) option" where
  "infrared_get_data_callback tx =
     (if infrared_tx_number_of_transmissions tx = 0 then
        Some (FuriHalInfraredTxGetDataStateLastDone, 0, False, tx)
      else do {
        (status, duration, level, handler) \<leftarrow> infrared_encode (tx_encoder tx);
        let tx = tx\<lparr>tx_encoder := handler\<rparr>;
        (case status of
           InfraredStatusError \<Rightarrow> Some (FuriHalInfraredTxGetDataStateLastDone, 0, False, tx)
         | InfraredStatusOk \<Rightarrow> Some (FuriHalInfraredTxGetDataStateOk, duration, level, tx)
         | InfraredStatusDone \<Rightarrow>
             let n = infrared_tx_number_of_transmissions tx - 1
             in Some (if n = 0 then FuriHalInfraredTxGetDataStateLastDone else FuriHalInfraredTxGetDataStateDone,
                  duration, level, tx\<lparr>infrared_tx_number_of_transmissions := n\<rparr>)
         | InfraredStatusReady \<Rightarrow> None)
      })"

record infrared_tx_raw =
  infrared_tx_raw_timings_index :: nat
  infrared_tx_raw_timings_number :: nat
  infrared_tx_raw_start_from_mark :: bool
  infrared_tx_raw_add_silence :: bool
  raw_timings :: "u32 list"

definition INFRARED_RAW_TX_TIMING_DELAY_US :: u32 where
  "INFRARED_RAW_TX_TIMING_DELAY_US = 180000"

definition infrared_get_raw_data_callback ::
    "infrared_tx_raw \<Rightarrow> (FuriHalInfraredTxGetDataState \<times> u32 \<times> bool \<times> infrared_tx_raw) option" where
  "infrared_get_raw_data_callback tx = do {
     (duration, level, tx) \<leftarrow>
       (if infrared_tx_raw_add_silence tx \<and> infrared_tx_raw_timings_index tx = 0 then
          Some (INFRARED_RAW_TX_TIMING_DELAY_US, False, tx\<lparr>infrared_tx_raw_add_silence := False\<rparr>)
        else do {
          let i = infrared_tx_raw_timings_index tx;
          duration \<leftarrow> rd (raw_timings tx) i;
          Some (duration, infrared_tx_raw_start_from_mark tx \<noteq> odd i, tx\<lparr>infrared_tx_raw_timings_index := i + 1\<rparr>)
        });
     Some (if infrared_tx_raw_timings_number tx = infrared_tx_raw_timings_index tx
           then FuriHalInfraredTxGetDataStateLastDone else FuriHalInfraredTxGetDataStateOk, duration, level, tx)
   }"

text \<open>The pulses that the driver sends.\<close>

type_synonym line = "(bool \<times> u32) list"

fun tx_line :: "nat \<Rightarrow> ('s \<Rightarrow> (FuriHalInfraredTxGetDataState \<times> u32 \<times> bool \<times> 's) option) \<Rightarrow> 's \<Rightarrow> line option" where
  "tx_line 0 f s = None"
| "tx_line (Suc fuel) f s = do {
     (state, duration, level, s) \<leftarrow> f s;
     if state = FuriHalInfraredTxGetDataStateLastDone then Some [(level, duration)]
     else do {
       ps \<leftarrow> tx_line fuel f s;
       Some ((level, duration) # ps)
     }
   }"

definition infrared_send_raw_ext :: "nat \<Rightarrow> u32 list \<Rightarrow> nat \<Rightarrow> bool \<Rightarrow> line option" where
  "infrared_send_raw_ext fuel ts timings_cnt start_from_mark =
     tx_line fuel infrared_get_raw_data_callback
       \<lparr>infrared_tx_raw_timings_index = 0, infrared_tx_raw_timings_number = timings_cnt,
        infrared_tx_raw_start_from_mark = start_from_mark, infrared_tx_raw_add_silence = start_from_mark,
        raw_timings = ts\<rparr>"

definition infrared_send :: "nat \<Rightarrow> nat \<Rightarrow> InfraredMessage \<Rightarrow> nat \<Rightarrow> line option" where
  "infrared_send fuel room m transmissions = do {
     furi_check (transmissions \<noteq> 0);
     furi_check (infrared_is_protocol_valid (im_protocol m));
     handler \<leftarrow> infrared_reset_encoder room infrared_alloc_encoder m;
     repeats \<leftarrow> infrared_get_protocol_min_repeat_count (im_protocol m);
     tx_line fuel infrared_get_data_callback
       \<lparr>infrared_tx_number_of_transmissions = max repeats transmissions, tx_encoder = handler\<rparr>
   }"

subsection \<open>Signals\<close>

text \<open>A signal is a message or raw timings; a finite \<open>float\<close> is an integral
  multiple of the smallest positive one, so an integer stands for it.\<close>

record InfraredRawSignal =
  timings_size :: nat
  raw_signal_timings :: "u32 list"
  raw_frequency :: u32
  raw_duty_cycle :: int

datatype InfraredSignal =
    SignalRaw InfraredRawSignal
  | SignalMessage InfraredMessage

definition float_one :: int where
  "float_one = 2 ^ 149"

definition INFRARED_MAX_FREQUENCY :: u32 where
  "INFRARED_MAX_FREQUENCY = 1000000"

definition INFRARED_MIN_FREQUENCY :: u32 where
  "INFRARED_MIN_FREQUENCY = 10000"

definition MAX_TIMINGS_AMOUNT :: nat where
  "MAX_TIMINGS_AMOUNT = 1024"

definition infrared_signal_is_raw_valid :: "InfraredRawSignal \<Rightarrow> bool" where
  "infrared_signal_is_raw_valid raw =
     (if INFRARED_MAX_FREQUENCY < raw_frequency raw \<or> raw_frequency raw < INFRARED_MIN_FREQUENCY then False
      else if raw_duty_cycle raw \<le> 0 \<or> float_one < raw_duty_cycle raw then False
      else if timings_size raw = 0 \<or> MAX_TIMINGS_AMOUNT < timings_size raw then False
      else True)"

definition infrared_signal_is_valid :: "InfraredSignal \<Rightarrow> bool option" where
  "infrared_signal_is_valid signal =
     (case signal of
        SignalRaw raw \<Rightarrow> Some (infrared_signal_is_raw_valid raw)
      | SignalMessage m \<Rightarrow> infrared_signal_is_message_valid m)"

definition infrared_signal_clear_timings :: "InfraredSignal \<Rightarrow> InfraredSignal" where
  "infrared_signal_clear_timings signal =
     (case signal of
        SignalRaw raw \<Rightarrow> SignalRaw (raw\<lparr>timings_size := 0, raw_signal_timings := []\<rparr>)
      | SignalMessage m \<Rightarrow> SignalMessage m)"

text \<open>\<open>fresh\<close> is what the allocated message contains.\<close>

definition infrared_signal_alloc :: "InfraredMessage \<Rightarrow> InfraredSignal" where
  "infrared_signal_alloc fresh = SignalMessage (fresh\<lparr>im_protocol := InfraredProtocolUnknown\<rparr>)"

definition infrared_signal_set_message :: "InfraredSignal \<Rightarrow> InfraredMessage \<Rightarrow> InfraredSignal" where
  "infrared_signal_set_message signal m = SignalMessage m"

text \<open>Frequency and duty cycle are brought into range; timings of a wrong size are not taken over,
  but the old ones are gone.\<close>

definition infrared_signal_set_raw_signal ::
    "InfraredSignal \<Rightarrow> u32 list \<Rightarrow> nat \<Rightarrow> u32 \<Rightarrow> int \<Rightarrow> InfraredSignal option" where
  "infrared_signal_set_raw_signal signal ts ts_size freq duty =
     (let signal = infrared_signal_clear_timings signal;
          freq = (if INFRARED_MAX_FREQUENCY < freq then INFRARED_MAX_FREQUENCY
                  else if freq < INFRARED_MIN_FREQUENCY then INFRARED_MIN_FREQUENCY else freq);
          duty = (if duty \<le> 0 \<or> float_one < duty then 11072963 * 2 ^ 124 else duty)
      in if ts_size = 0 \<or> MAX_TIMINGS_AMOUNT < ts_size then Some signal
         else do {
           copy \<leftarrow> memcpy (replicate ts_size 0) 0 ts 0 ts_size;
           Some (SignalRaw \<lparr>timings_size = ts_size, raw_signal_timings = copy, raw_frequency = freq,
             raw_duty_cycle = duty\<rparr>)
         })"

definition infrared_signal_set_signal :: "InfraredSignal \<Rightarrow> InfraredSignal \<Rightarrow> InfraredSignal option" where
  "infrared_signal_set_signal signal other =
     (case other of
        SignalRaw raw \<Rightarrow> infrared_signal_set_raw_signal signal (raw_signal_timings raw) (timings_size raw)
          (raw_frequency raw) (raw_duty_cycle raw)
      | SignalMessage m \<Rightarrow> Some (infrared_signal_set_message signal m))"

definition infrared_signal_transmit :: "nat \<Rightarrow> nat \<Rightarrow> InfraredSignal \<Rightarrow> line option" where
  "infrared_signal_transmit fuel room signal =
     (case signal of
        SignalRaw raw \<Rightarrow> infrared_send_raw_ext fuel (raw_signal_timings raw) (timings_size raw) True
      | SignalMessage m \<Rightarrow> infrared_send fuel room m 1)"

end
