(* ===== verification/Infrared_Line.thy ===== *)
theory Infrared_Line
  imports Infrared_Facts Infrared_Signal
begin

text \<open>
  From the encoder over the line to the decoder: what a transmitter sends for a message, pulse by
  pulse, and what a receiver makes of it. The locale \<open>pulse_distance\<close> holds the argument for
  the protocols with the bit in the space.
\<close>


subsection \<open>Pulses on the line\<close>

text \<open>What a receiver does with the pulses it gets, and a transmitter with an encoder: it asks for
  pulses until the encoder says that the message is complete.\<close>

fun hear ::
    "('d \<Rightarrow> bool \<Rightarrow> u32 \<Rightarrow> (InfraredMessage option \<times> 'd) option) \<Rightarrow> 'd \<Rightarrow> line \<Rightarrow> (InfraredMessage list \<times> 'd) option" where
  "hear f d [] = Some ([], d)"
| "hear f d ((level, t) # ps) = do {
     (m, d) \<leftarrow> f d level t;
     (ms, d) \<leftarrow> hear f d ps;
     Some ((case m of None \<Rightarrow> ms | Some m \<Rightarrow> m # ms), d)
   }"

fun transmit :: "nat \<Rightarrow> (InfraredCommonEncoder \<Rightarrow> pulse option) \<Rightarrow> InfraredCommonEncoder \<Rightarrow> (line \<times> InfraredCommonEncoder) option" where
  "transmit 0 f e = None"
| "transmit (Suc fuel) f e = do {
     (status, t, level, e) \<leftarrow> f e;
     if status = InfraredStatusDone then Some ([(level, t)], e)
     else if status = InfraredStatusOk then do {
       (ps, e) \<leftarrow> transmit fuel f e;
       Some ((level, t) # ps, e)
     }
     else None
   }"

fun transmit_times ::
    "nat \<Rightarrow> nat \<Rightarrow> (InfraredCommonEncoder \<Rightarrow> pulse option) \<Rightarrow> InfraredCommonEncoder \<Rightarrow> (line \<times> InfraredCommonEncoder) option" where
  "transmit_times fuel 0 f e = Some ([], e)"
| "transmit_times fuel (Suc n) f e = do {
     (ps, e) \<leftarrow> transmit fuel f e;
     (qs, e) \<leftarrow> transmit_times fuel n f e;
     Some (ps @ qs, e)
   }"

fun sends :: "(InfraredCommonEncoder \<Rightarrow> pulse option) \<Rightarrow> InfraredCommonEncoder \<Rightarrow> line \<Rightarrow> InfraredCommonEncoder \<Rightarrow> bool" where
  "sends f e [] e' \<longleftrightarrow> e' = e"
| "sends f e ((level, t) # ps) e' \<longleftrightarrow> (\<exists>e1. f e = Some (InfraredStatusOk, t, level, e1) \<and> sends f e1 ps e')"

lemma sends_append: "sends f e ps e1 \<Longrightarrow> sends f e1 qs e2 \<Longrightarrow> sends f e (ps @ qs) e2"
  by (induction f e ps e1 rule: sends.induct) auto

lemma transmit_sends:
  "sends f e ps e1 \<Longrightarrow> f e1 = Some (InfraredStatusDone, t, level, e2) \<Longrightarrow> length ps < fuel \<Longrightarrow>
   transmit fuel f e = Some (ps @ [(level, t)], e2)"
proof (induction f e ps e1 arbitrary: fuel rule: sends.induct)
  case (1 f e e')
  then show ?case by (cases fuel) simp_all
next
  case (2 f e l u ps e')
  then show ?case by (cases fuel) auto
qed

lemma hear_append:
  "hear f d (ps @ qs) = do { (ms, d) \<leftarrow> hear f d ps; (ns, d) \<leftarrow> hear f d qs; Some (ms @ ns, d) }"
proof (induction ps arbitrary: d)
  case Nil
  show ?case by (cases "hear f d qs") auto
next
  case (Cons p ps)
  obtain level t where p: "p = (level, t)" by (cases p)
  show ?case
  proof (cases "f d level t")
    case (Some r)
    then obtain m d1 where r: "f d level t = Some (m, d1)" by (cases r) auto
    show ?thesis
      by (cases "hear f d1 ps"; cases "hear f (snd (the (hear f d1 ps))) qs")
        (auto simp: p r Cons.IH split: option.split)
  qed (simp add: p)
qed

text \<open>The bits of a message in a decoder's or encoder's bytes, lowest bit first.\<close>

definition holds :: "bytes \<Rightarrow> bool list \<Rightarrow> bool" where
  "holds data bits \<longleftrightarrow> (\<forall>j k. 8 * j < length bits \<longrightarrow> k < 8 \<longrightarrow>
     bit (data ! j) k = (8 * j + k < length bits \<and> bits ! (8 * j + k)))"

definition lsb_bits :: "bytes \<Rightarrow> nat \<Rightarrow> bool list" where
  "lsb_bits data n = map (\<lambda>k. bit (data ! (k div 8)) (k mod 8)) [0..<n]"

lemma holds_Nil [simp]: "holds data []"
  by (simp add: holds_def)

lemma holds_snoc:
  assumes "holds data bits" "n = length bits" "n div 8 < length data"
  shows "holds (data[n div 8 := (if n mod 8 = 0 then 0 else data ! (n div 8)) OR (if b then push_bit (n mod 8) 1 else 0)]) (bits @ [b])"
  unfolding holds_def
proof (intro allI impI)
  fix j k :: nat
  assume j: "8 * j < length (bits @ [b])" and k: "k < 8"
  let ?x = "(if n mod 8 = 0 then 0 else data ! (n div 8)) OR (if b then push_bit (n mod 8) 1 else 0)"
  show "bit (data[n div 8 := ?x] ! j) k = (8 * j + k < length (bits @ [b]) \<and> (bits @ [b]) ! (8 * j + k))"
  proof (cases "j = n div 8")
    case False
    with j assms(2) have "8 * j + k < n" using k by auto
    with False assms(1,2) k show ?thesis by (simp add: holds_def nth_append)
  next
    case True
    have n: "n = 8 * j + n mod 8" using True by simp
    have old: "n mod 8 \<noteq> 0 \<Longrightarrow> bit (data ! j) k = (8 * j + k < n \<and> bits ! (8 * j + k))"
      using assms(1,2) k n unfolding holds_def by auto
    have b: "bit (push_bit (n mod 8) 1 :: u8) k = (k = n mod 8)" using k by (auto simp: bit_simps)
    consider "k < n mod 8" | "k = n mod 8" | "n mod 8 < k" by arith
    then show ?thesis
    proof cases
      case 1
      then have "8 * j + k < n" using n by arith
      with 1 True b old assms(2,3) show ?thesis by (auto simp: bit_or_iff nth_append)
    next
      case 2
      then have "8 * j + k = n" using n by arith
      with 2 True b old assms(2,3) show ?thesis by (auto simp: bit_or_iff nth_append)
    next
      case 3
      then have "\<not> 8 * j + k < Suc n" using n by arith
      with 3 True b old assms(2,3) show ?thesis by (auto simp: bit_or_iff)
    qed
  qed
qed


subsection \<open>The decoder's side\<close>

text \<open>A decoder that waits for a message, and one that has collected some of its bits.\<close>

definition waits :: "InfraredCommonDecoder \<Rightarrow> nat \<Rightarrow> bool \<Rightarrow> bool" where
  "waits d need level \<longleftrightarrow> dec_state d = InfraredCommonDecoderStateWaitPreamble \<and> samples_cnt d = 0 \<and>
     length (samples d) = 6 \<and> need \<le> length (dec_data d) \<and> dec_level d = level"

definition receives :: "InfraredCommonDecoder \<Rightarrow> nat \<Rightarrow> bool \<Rightarrow> bool list \<Rightarrow> bool" where
  "receives d need level bits \<longleftrightarrow> dec_state d = InfraredCommonDecoderStateDecode \<and> samples_cnt d = 0 \<and>
     length (samples d) = 6 \<and> need \<le> length (dec_data d) \<and> dec_level d = level \<and>
     databit_cnt d = length bits \<and> holds (dec_data d) bits"

lemma MATCH_TIMING_float_self [simp]: "0 < delta \<Longrightarrow> MATCH_TIMING_float (ucast v) v delta"
proof -
  have "uint (ucast v :: u32) = uint v"
    using unsigned_less [where 'a = int, of v] by (simp add: unsigned_ucast_eq take_bit_int_eq_self)
  moreover assume "0 < delta"
  ultimately show ?thesis by (simp add: MATCH_TIMING_float_def word_less_def)
qed

context infrared_base begin

lemma hear_waiting_space:
  assumes "waits d need l"
  shows "\<exists>d'. infrared_common_decode p d False t = Some (None, d') \<and> waits d' need False"
proof -
  obtain e where e: "(if dec_level d = False then infrared_common_decoder_reset p d else Some d) = Some e" "waits e need l"
    using assms preamble_set
    by (cases l) (auto simp: infrared_common_decoder_reset_def infrared_common_decoder_reset_state_def waits_def Let_def)
  let ?d = "e\<lparr>dec_level := False, samples := (samples e)[0 := t], samples_cnt := 1\<rparr>"
  have c: "infrared_check_preamble p ?d = Some (False, ?d\<lparr>samples_cnt := 0\<rparr>)"
    using e(2) preamble_set
    by (simp add: infrared_check_preamble_def first_level_eq consume_last waits_def preamble_loop.simps)
  then have "decode_loop p False ?d = Some (False, ?d\<lparr>samples_cnt := 0\<rparr>)"
    using e(2) by (subst decode_loop.simps) (simp add: waits_def)
  then have "infrared_common_decode p d False t = Some (None, ?d\<lparr>samples_cnt := 0\<rparr>)"
    unfolding infrared_common_decode_def e(1) using e(2) by (simp add: waits_def wr_def Let_def)
  with e(2) show ?thesis by (simp add: waits_def)
qed

lemma hear_preamble:
  assumes "waits d need False" and tol: "0 < preamble_tolerance (timings p)"
  shows "\<exists>d'. hear (infrared_common_decode p) d
      [(True, ucast (preamble_mark (timings p))), (False, ucast (preamble_space (timings p)))] = Some ([], d') \<and>
    receives d' need False []"
proof -
  let ?m = "ucast (preamble_mark (timings p)) :: u32" and ?s = "ucast (preamble_space (timings p)) :: u32"
  let ?d = "d\<lparr>dec_level := True, samples := (samples d)[0 := ?m], samples_cnt := 1\<rparr>"
  let ?e = "?d\<lparr>dec_level := False, samples := (samples ?d)[1 := ?s], samples_cnt := 2\<rparr>"
  have "infrared_check_preamble p ?d = Some (False, ?d)"
    using preamble_set by (simp add: infrared_check_preamble_def first_level_eq preamble_loop.simps)
  then have "decode_loop p False ?d = Some (False, ?d)"
    using assms(1) by (subst decode_loop.simps) (simp add: waits_def)
  then have 1: "infrared_common_decode p d True ?m = Some (None, ?d)"
    using assms(1) by (simp add: infrared_common_decode_def waits_def wr_def Let_def)
  have "preamble_loop (timings p) (samples ?e) 2 = Some (True, samples ?e, 0)"
    using assms by (subst preamble_loop.simps) (simp add: waits_def rd_def Let_def)
  then have c: "infrared_check_preamble p ?e = Some (True, ?e\<lparr>samples_cnt := 0\<rparr>)"
    using preamble_set by (simp add: infrared_check_preamble_def first_level_eq)
  let ?f = "?e\<lparr>samples_cnt := 0, dec_state := InfraredCommonDecoderStateDecode, databit_cnt := 0, dec_switch_detect := False\<rparr>"
  have "infrared_common_decode_bits p ?f = Some (InfraredStatusOk, ?f)"
    by (subst infrared_common_decode_bits.simps) simp
  then have "decode_loop p False ?f = Some (False, ?f)"
    by (subst decode_loop.simps) simp
  then have "decode_loop p False ?e = Some (False, ?f)"
    using assms(1) c by (subst decode_loop.simps) (simp add: waits_def)
  then have 2: "infrared_common_decode p ?d False ?s = Some (None, ?f)"
    using assms(1) by (simp add: infrared_common_decode_def waits_def wr_def Let_def)
  show ?thesis using 1 2 assms(1) by (simp add: receives_def waits_def)
qed

text \<open>One pulse inside a message, and the pause that ends it.\<close>

lemma split_status_cong:
  "split_status p (d\<lparr>dec_level := l, samples := a, samples_cnt := n\<rparr>) = split_status p d"
  by (simp add: split_status_def fun_eq_iff)

lemma hear_edge:
  assumes d: "receives d need (\<not> level) bits"
    and open_bits: "split_status p d level t = None"
    and step: "decode_fn p (pdata p) (d\<lparr>dec_level := level, samples := (samples d)[0 := t], samples_cnt := 1\<rparr>) level t =
      Some (InfraredStatusOk, e)" "same_frame (d\<lparr>dec_level := level, samples := (samples d)[0 := t], samples_cnt := 1\<rparr>) e"
      "databit_cnt e \<le> max_length p"
  shows "infrared_common_decode p d level t = Some (None, e\<lparr>samples_cnt := 0\<rparr>)"
proof -
  let ?d = "d\<lparr>dec_level := level, samples := (samples d)[0 := t], samples_cnt := 1\<rparr>"
  have fl: "first_level ?d = level" and rd: "rd ((samples d)[0 := t]) 0 = Some t"
    using d by (simp_all add: first_level_eq rd_def receives_def)
  have none: "split_status p ?d level t = None" using open_bits by (simp only: split_status_cong)
  have e: "samples_cnt e = 1" "dec_state e = InfraredCommonDecoderStateDecode"
    using step(2) d by (simp_all add: same_frame_def receives_def)
  have "infrared_common_decode_bits p (e\<lparr>samples_cnt := 0\<rparr>) = Some (InfraredStatusOk, e\<lparr>samples_cnt := 0\<rparr>)"
    by (subst infrared_common_decode_bits.simps) simp
  then have "infrared_common_decode_bits p ?d = Some (InfraredStatusOk, e\<lparr>samples_cnt := 0\<rparr>)"
    using step(1,3) e(1) split_set by (subst infrared_common_decode_bits.simps)
      (simp add: Let_def consume_last fl rd none)
  then have "decode_loop p False ?d = Some (False, e\<lparr>samples_cnt := 0\<rparr>)"
    using d by (subst decode_loop.simps) (simp add: receives_def)
  then show ?thesis using d by (simp add: infrared_common_decode_def receives_def wr_def Let_def)
qed

lemma hear_end:
  assumes d: "receives d need True bits"
    and pause: "min_split_time (timings p) < t" "known_length p (length bits)"
    and interp: "\<And>e. need \<le> length (dec_data e) \<Longrightarrow> holds (dec_data e) bits \<Longrightarrow> databit_cnt e = length bits \<Longrightarrow>
      interpret_fn p (pdata p) e = Some (True, e\<lparr>message := m\<rparr>)"
    and loop: "decode_loop p True (d\<lparr>dec_level := False, samples := (samples d)[0 := t], samples_cnt := 1, message := m,
       databit_cnt := 0, dec_state := (if decode_repeat_fn p = None then InfraredCommonDecoderStateWaitPreamble
         else InfraredCommonDecoderStateProcessRepeat)\<rparr>) = Some (True, e)"
  shows "infrared_common_decode p d False t = Some (Some (message e), e)"
proof -
  let ?d = "d\<lparr>dec_level := False, samples := (samples d)[0 := t], samples_cnt := 1\<rparr>"
  have fl: "\<not> first_level ?d" and rd: "rd ((samples d)[0 := t]) 0 = Some t"
    using d by (simp_all add: first_level_eq rd_def receives_def)
  have "split_status p d False t = Some InfraredStatusReady"
    using pause d split_set by (simp add: split_status_def receives_def)
  then have ready: "split_status p ?d False t = Some InfraredStatusReady" by (simp only: split_status_cong)
  have bits: "infrared_common_decode_bits p ?d = Some (InfraredStatusReady, ?d)"
    by (subst infrared_common_decode_bits.simps) (simp add: Let_def fl rd ready)
  have "interpret_fn p (pdata p) ?d = Some (True, ?d\<lparr>message := m\<rparr>)"
    by (rule interp) (use d in \<open>simp_all add: receives_def\<close>)
  then have check: "infrared_common_decoder_check_ready p ?d = Some (True, ?d\<lparr>message := m, databit_cnt := 0,
       dec_state := (if decode_repeat_fn p = None then InfraredCommonDecoderStateWaitPreamble
         else InfraredCommonDecoderStateProcessRepeat)\<rparr>)"
    using d pause(2) by (simp add: infrared_common_decoder_check_ready_def receives_def)
  have "decode_loop p False ?d = decode_loop p True (?d\<lparr>message := m, databit_cnt := 0,
       dec_state := (if decode_repeat_fn p = None then InfraredCommonDecoderStateWaitPreamble
         else InfraredCommonDecoderStateProcessRepeat)\<rparr>)"
    using d bits check by (subst decode_loop.simps) (simp add: receives_def)
  also have "\<dots> = Some (True, e)" using loop by simp
  finally show ?thesis using d by (simp add: infrared_common_decode_def receives_def wr_def Let_def)
qed

lemma hear_end_plain:
  assumes "receives d need True bits" "min_split_time (timings p) < t" "known_length p (length bits)"
    and "\<And>e. need \<le> length (dec_data e) \<Longrightarrow> holds (dec_data e) bits \<Longrightarrow> databit_cnt e = length bits \<Longrightarrow>
      interpret_fn p (pdata p) e = Some (True, e\<lparr>message := m\<rparr>)"
    and plain: "decode_repeat_fn p = None"
  shows "\<exists>d'. infrared_common_decode p d False t = Some (Some m, d') \<and> waits d' need False"
proof -
  let ?d = "d\<lparr>dec_level := False, samples := (samples d)[0 := t], samples_cnt := 1, message := m, databit_cnt := 0,
    dec_state := InfraredCommonDecoderStateWaitPreamble\<rparr>"
  have "infrared_check_preamble p ?d = Some (False, ?d\<lparr>samples_cnt := 0\<rparr>)"
    using preamble_set by (simp add: infrared_check_preamble_def first_level_eq consume_last preamble_loop.simps)
  then have "decode_loop p True ?d = Some (True, ?d\<lparr>samples_cnt := 0\<rparr>)"
    by (subst decode_loop.simps) simp
  then have "infrared_common_decode p d False t = Some (Some (message (?d\<lparr>samples_cnt := 0\<rparr>)), ?d\<lparr>samples_cnt := 0\<rparr>)"
    by (intro hear_end [OF assms(1-4)]) (simp_all add: plain)
  with assms(1) show ?thesis by (simp add: waits_def receives_def)
qed

end

text \<open>After a message a decoder with repeats holds on to the pause that ended it.\<close>

definition repeating :: "InfraredCommonDecoder \<Rightarrow> nat \<Rightarrow> u32 \<Rightarrow> InfraredMessage \<Rightarrow> bool" where
  "repeating d need t m \<longleftrightarrow> dec_state d = InfraredCommonDecoderStateProcessRepeat \<and> samples_cnt d = 1 \<and>
     length (samples d) = 6 \<and> need \<le> length (dec_data d) \<and> \<not> dec_level d \<and> samples d ! 0 = t \<and> message d = m"

context infrared_base begin

lemma hear_end_repeat:
  assumes "receives d need True bits" "min_split_time (timings p) < t" "known_length p (length bits)"
    and "\<And>e. need \<le> length (dec_data e) \<Longrightarrow> holds (dec_data e) bits \<Longrightarrow> databit_cnt e = length bits \<Longrightarrow>
      interpret_fn p (pdata p) e = Some (True, e\<lparr>message := m\<rparr>)"
    and rep: "decode_repeat_fn p = Some f" "\<And>d. samples_cnt d = 1 \<Longrightarrow> f (pdata p) d = Some (InfraredStatusOk, d)"
  shows "\<exists>d'. infrared_common_decode p d False t = Some (Some m, d') \<and> repeating d' need t m"
proof -
  let ?d = "d\<lparr>dec_level := False, samples := (samples d)[0 := t], samples_cnt := 1, message := m, databit_cnt := 0,
    dec_state := InfraredCommonDecoderStateProcessRepeat\<rparr>"
  have "decode_loop p True ?d = Some (True, ?d)"
    using rep by (subst decode_loop.simps) simp
  then have "infrared_common_decode p d False t = Some (Some (message ?d), ?d)"
    by (intro hear_end [OF assms(1-4)]) (simp_all add: rep(1))
  with assms(1) show ?thesis by (simp add: repeating_def receives_def)
qed

end


subsection \<open>Pulse distance: the bit is in the space\<close>

definition distance_bit :: "InfraredTimings \<Rightarrow> bool \<Rightarrow> line" where
  "distance_bit t b = [(True, ucast (bit1_mark t)), (False, ucast (if b then bit1_space t else bit0_space t))]"

definition distance_body :: "InfraredTimings \<Rightarrow> bool list \<Rightarrow> line" where
  "distance_body t bits =
     (True, ucast (preamble_mark t)) # (False, ucast (preamble_space t)) #
     concat (map (distance_bit t) bits) @ [(True, ucast (bit1_mark t))]"

definition line_time :: "line \<Rightarrow> u32" where
  "line_time ps = sum_list (map snd ps)"

lemma line_time_simps [simp]:
  "line_time [] = 0" "line_time (x # ps) = snd x + line_time ps" "line_time (ps @ qs) = line_time ps + line_time qs"
  by (simp_all add: line_time_def)

lemma lsb_bits_Suc: "lsb_bits data (Suc n) = lsb_bits data n @ [bit (data ! (n div 8)) (n mod 8)]"
  by (simp add: lsb_bits_def)

lemma length_lsb_bits [simp]: "length (lsb_bits data n) = n"
  by (simp add: lsb_bits_def)

lemma logic_value_eq:
  "bits_encoded e div 8 < length (enc_data e) \<Longrightarrow>
   logic_value e = Some (bit (enc_data e ! (bits_encoded e div 8)) (bits_encoded e mod 8))"
  unfolding logic_value_def by (simp only: rd_ok Option.bind.simps and_exp_neq_0)

locale pulse_distance = infrared_base p need False for p :: InfraredCommonProtocolSpec and need :: nat +
  assumes decode_is: "decode_fn p = infrared_common_decode_pdwm"
    and marks_agree: "bit1_mark (timings p) = bit0_mark (timings p)"
    and enough: "data_bytes p \<le> need"
    and encode_is: "encode_fn p = infrared_common_encode_pdwm"
    and spaces_differ: "bit1_space (timings p) \<noteq> bit0_space (timings p)"
    and preamble_tol: "0 < preamble_tolerance (timings p)"
    and mark_ok: "MATCH_TIMING (ucast (bit1_mark (timings p))) (ucast (bit1_mark (timings p))) (bit_tolerance (timings p))"
    and space1_ok: "MATCH_TIMING (ucast (bit1_space (timings p))) (ucast (bit1_space (timings p))) (bit_tolerance (timings p))"
    and space0_ok: "MATCH_TIMING (ucast (bit0_space (timings p))) (ucast (bit0_space (timings p))) (bit_tolerance (timings p))"
    and space0_not_1: "\<not> MATCH_TIMING (ucast (bit0_space (timings p))) (ucast (bit1_space (timings p))) (bit_tolerance (timings p))"
    and short_spaces: "ucast (bit1_space (timings p)) \<le> min_split_time (timings p)"
      "ucast (bit0_space (timings p)) \<le> min_split_time (timings p)"
begin

lemma same_marks: "bit0_mark (timings p) = bit1_mark (timings p)"
  using marks_agree by simp

lemma hear_mark:
  assumes d: "receives d need False bits" and len: "length bits \<le> max_length p"
  shows "\<exists>d'. infrared_common_decode p d True (ucast (bit1_mark (timings p))) = Some (None, d') \<and> receives d' need True bits"
proof -
  let ?m = "ucast (bit1_mark (timings p)) :: u32"
  let ?d = "d\<lparr>dec_level := True, samples := (samples d)[0 := ?m], samples_cnt := 1\<rparr>"
  have "infrared_common_decode p d True ?m = Some (None, ?d\<lparr>samples_cnt := 0\<rparr>)"
  proof (rule hear_edge)
    show "receives d need (\<not> True) bits" using d by simp
    show "split_status p d True ?m = None" by (simp add: split_status_def)
    show "decode_fn p (pdata p) ?d True ?m = Some (InfraredStatusOk, ?d)"
      using mark_ok by (simp add: decode_is infrared_common_decode_pdwm_def same_marks Let_def)
    show "databit_cnt ?d \<le> max_length p" using d len by (simp add: receives_def)
  qed simp
  with d show ?thesis by (simp add: receives_def)
qed

lemma hear_space:
  assumes d: "receives d need True bits" and len: "length bits < max_length p"
  shows "\<exists>d'. infrared_common_decode p d False (ucast (if b then bit1_space (timings p) else bit0_space (timings p))) =
    Some (None, d') \<and> receives d' need False (bits @ [b])"
proof -
  let ?s = "ucast (if b then bit1_space (timings p) else bit0_space (timings p)) :: u32"
  let ?d = "d\<lparr>dec_level := False, samples := (samples d)[0 := ?s], samples_cnt := 1\<rparr>"
  let ?n = "databit_cnt d"
  let ?e = "?d\<lparr>dec_data := (dec_data d)[?n div 8 := (if ?n mod 8 = 0 then 0 else dec_data d ! (?n div 8)) OR
    (if b then push_bit (?n mod 8) 1 else 0)], databit_cnt := ?n + 1\<rparr>"
  have n: "?n = length bits" using d by (simp add: receives_def)
  have idx: "databit_cnt ?d div 8 < length (dec_data ?d)"
    using less_data_bytes [OF len] enough d n by (simp add: receives_def)
  have acc: "accumulate_lsb ?d b = Some ?e"
    using accumulate_eq [OF idx] by simp
  have "infrared_common_decode p d False ?s = Some (None, ?e\<lparr>samples_cnt := 0\<rparr>)"
  proof (rule hear_edge)
    show "receives d need (\<not> False) bits" using d by simp
    show "split_status p d False ?s = None"
      using short_spaces len n by (cases b) (auto simp: split_status_def dest: leD)
    show "decode_fn p (pdata p) ?d False ?s = Some (InfraredStatusOk, ?e)"
      using space1_ok space0_ok space0_not_1 acc
      by (cases b) (simp_all add: decode_is infrared_common_decode_pdwm_def same_marks Let_def)
    show "databit_cnt ?e \<le> max_length p" using n len by simp
    show "same_frame ?d ?e" by (simp add: same_frame_def)
  qed
  moreover have "holds (dec_data ?e) (bits @ [b])"
    using holds_snoc [of "dec_data d" bits ?n b] d idx n by (simp add: receives_def)
  ultimately show ?thesis using d n by (simp add: receives_def)
qed

lemma hear_bits:
  "receives d need False bits0 \<Longrightarrow> length (bits0 @ bits) \<le> max_length p \<Longrightarrow>
   \<exists>d'. hear (infrared_common_decode p) d (concat (map (distance_bit (timings p)) bits)) = Some ([], d') \<and>
     receives d' need False (bits0 @ bits)"
proof (induction bits arbitrary: d bits0)
  case (Cons b bits)
  obtain d1 where d1: "infrared_common_decode p d True (ucast (bit1_mark (timings p))) = Some (None, d1)"
    "receives d1 need True bits0"
    using hear_mark [OF Cons.prems(1)] Cons.prems(2) by auto
  obtain d2 where d2: "infrared_common_decode p d1 False (ucast (if b then bit1_space (timings p) else bit0_space (timings p))) =
      Some (None, d2)" "receives d2 need False (bits0 @ [b])"
    using hear_space [OF d1(2), of b] Cons.prems(2) by auto
  have "length ((bits0 @ [b]) @ bits) \<le> max_length p" using Cons.prems(2) by simp
  from Cons.IH [OF d2(2) this] d1(1) d2(1) show ?case by (auto simp: distance_bit_def)
qed simp

lemma hear_body:
  assumes "waits d need False" "length bits \<le> max_length p"
  shows "\<exists>d'. hear (infrared_common_decode p) d (distance_body (timings p) bits) = Some ([], d') \<and> receives d' need True bits"
proof -
  obtain d1 where 1: "hear (infrared_common_decode p) d
      [(True, ucast (preamble_mark (timings p))), (False, ucast (preamble_space (timings p)))] = Some ([], d1)"
    "receives d1 need False []"
    using hear_preamble [OF assms(1) preamble_tol] by blast
  obtain d2 where 2: "hear (infrared_common_decode p) d1 (concat (map (distance_bit (timings p)) bits)) = Some ([], d2)"
    "receives d2 need False bits"
    using hear_bits [OF 1(2), of bits] assms(2) by auto
  obtain d3 where 3: "infrared_common_decode p d2 True (ucast (bit1_mark (timings p))) = Some (None, d3)"
    "receives d3 need True bits"
    using hear_mark [OF 2(2)] assms(2) by auto
  have "distance_body (timings p) bits =
      [(True, ucast (preamble_mark (timings p))), (False, ucast (preamble_space (timings p)))] @
      concat (map (distance_bit (timings p)) bits) @ [(True, ucast (bit1_mark (timings p)))]"
    by (simp add: distance_body_def)
  then show ?thesis using 1(1) 2(1) 3 by (simp only: hear_append) simp
qed

text \<open>The encoder's side.\<close>

lemma send_start:
  assumes "enc_state e = InfraredCommonEncoderStateSilence" "timings_encoded e = 0"
  shows "sends (infrared_common_encode p) e [(False, silence_time (timings p)), (True, ucast (preamble_mark (timings p))),
      (False, ucast (preamble_space (timings p)))]
    (e\<lparr>enc_state := InfraredCommonEncoderStateEncode, timings_encoded := 3,
       timings_sum := ucast (preamble_mark (timings p)) + ucast (preamble_space (timings p))\<rparr>)"
  using assms preamble_set by (simp add: infrared_common_encode_def Let_def)

lemma send_bit:
  assumes e: "enc_state e = InfraredCommonEncoderStateEncode" "timings_encoded e = 3 + 2 * k" "bits_encoded e = k"
    "k < bits_to_encode e" "k div 8 < length (enc_data e)"
  shows "sends (infrared_common_encode p) e (distance_bit (timings p) (bit (enc_data e ! (k div 8)) (k mod 8)))
    (e\<lparr>timings_encoded := 3 + 2 * (k + 1), bits_encoded := k + 1,
       timings_sum := timings_sum e + line_time (distance_bit (timings p) (bit (enc_data e ! (k div 8)) (k mod 8)))\<rparr>)"
proof -
  have odd: "(3 + 2 * k) mod 2 = 1" "(3 + 2 * k + 1) mod 2 = (0::nat)" by presburger+
  show ?thesis
    using e spaces_differ odd
    by (simp add: distance_bit_def infrared_common_encode_def encode_state_def infrared_common_encode_bits_def encode_is
      infrared_common_encode_pdwm_def logic_value_eq same_marks Let_def add.assoc)
qed

lemma send_bits:
  assumes e: "enc_state e = InfraredCommonEncoderStateEncode" "timings_encoded e = 3" "bits_encoded e = 0"
    and n: "n \<le> bits_to_encode e" "n \<le> 8 * length (enc_data e)"
  shows "sends (infrared_common_encode p) e (concat (map (distance_bit (timings p)) (lsb_bits (enc_data e) n)))
    (e\<lparr>timings_encoded := 3 + 2 * n, bits_encoded := n,
       timings_sum := timings_sum e + line_time (concat (map (distance_bit (timings p)) (lsb_bits (enc_data e) n)))\<rparr>)"
  using n
proof (induction n)
  case 0
  with e show ?case by (simp add: lsb_bits_def)
next
  case (Suc n)
  then have ih: "sends (infrared_common_encode p) e (concat (map (distance_bit (timings p)) (lsb_bits (enc_data e) n)))
    (e\<lparr>timings_encoded := 3 + 2 * n, bits_encoded := n,
       timings_sum := timings_sum e + line_time (concat (map (distance_bit (timings p)) (lsb_bits (enc_data e) n)))\<rparr>)"
    (is "sends _ _ _ ?e") by simp
  have "sends (infrared_common_encode p) ?e (distance_bit (timings p) (bit (enc_data ?e ! (n div 8)) (n mod 8)))
    (?e\<lparr>timings_encoded := 3 + 2 * (n + 1), bits_encoded := n + 1,
       timings_sum := timings_sum ?e + line_time (distance_bit (timings p) (bit (enc_data ?e ! (n div 8)) (n mod 8)))\<rparr>)"
    by (rule send_bit) (use e Suc.prems in \<open>auto simp: div_8_less\<close>)
  from sends_append [OF ih this] show ?case by (simp add: lsb_bits_Suc add.assoc add.commute [of n 1] plus_1_eq_Suc)
qed

lemma send_stop:
  assumes e: "enc_state e = InfraredCommonEncoderStateEncode" "timings_encoded e = 3 + 2 * n" "bits_encoded e = n"
    "n = bits_to_encode e" "n < 8 * length (enc_data e)"
  shows "infrared_common_encode p e = Some (InfraredStatusDone, ucast (bit1_mark (timings p)), True,
     if encode_repeat_fn p = None then
       e\<lparr>timings_encoded := 0, timings_sum := 0, bits_encoded := 0, enc_switch_detect := False,
         enc_state := InfraredCommonEncoderStateSilence\<rparr>
     else e\<lparr>timings_encoded := 4 + 2 * n, timings_sum := timings_sum e + ucast (bit1_mark (timings p)),
         enc_state := InfraredCommonEncoderStateEncodeRepeat\<rparr>)"
proof -
  have odd: "(3 + 2 * n) mod 2 = (1::nat)" by presburger
  have "n div 8 < length (enc_data e)" using e(5) by (rule div_8_less)
  then show ?thesis
    using e spaces_differ odd
    by (simp add: infrared_common_encode_def encode_state_def infrared_common_encode_bits_def encode_is
      infrared_common_encode_pdwm_def logic_value_eq same_marks Let_def)
qed

lemma send_message:
  assumes e: "enc_state e = InfraredCommonEncoderStateSilence" "timings_encoded e = 0" "bits_encoded e = 0"
    and n: "bits_to_encode e = n" "n < 8 * length (enc_data e)" "4 + 2 * n \<le> fuel"
  shows "transmit fuel (infrared_common_encode p) e =
    Some ((False, silence_time (timings p)) # distance_body (timings p) (lsb_bits (enc_data e) n),
     if encode_repeat_fn p = None then
       e\<lparr>timings_encoded := 0, timings_sum := 0, bits_encoded := 0, enc_switch_detect := False,
         enc_state := InfraredCommonEncoderStateSilence\<rparr>
     else e\<lparr>timings_encoded := 4 + 2 * n, timings_sum := line_time (distance_body (timings p) (lsb_bits (enc_data e) n)),
         enc_state := InfraredCommonEncoderStateEncodeRepeat, bits_encoded := n\<rparr>)"
proof -
  let ?e = "e\<lparr>enc_state := InfraredCommonEncoderStateEncode, timings_encoded := 3,
       timings_sum := ucast (preamble_mark (timings p)) + ucast (preamble_space (timings p))\<rparr>"
  let ?bits = "concat (map (distance_bit (timings p)) (lsb_bits (enc_data e) n))"
  let ?f = "?e\<lparr>timings_encoded := 3 + 2 * n, bits_encoded := n, timings_sum := timings_sum ?e + line_time ?bits\<rparr>"
  have 1: "sends (infrared_common_encode p) ?e ?bits ?f"
    using send_bits [of ?e n] e n by simp
  have 2: "infrared_common_encode p ?f = Some (InfraredStatusDone, ucast (bit1_mark (timings p)), True,
     if encode_repeat_fn p = None then
       ?f\<lparr>timings_encoded := 0, timings_sum := 0, bits_encoded := 0, enc_switch_detect := False,
         enc_state := InfraredCommonEncoderStateSilence\<rparr>
     else ?f\<lparr>timings_encoded := 4 + 2 * n, timings_sum := timings_sum ?f + ucast (bit1_mark (timings p)),
         enc_state := InfraredCommonEncoderStateEncodeRepeat\<rparr>)"
    by (rule send_stop) (use e n in auto)
  have len: "length ?bits = 2 * n"
    by (simp add: length_concat o_def distance_bit_def sum_list_triv)
  from transmit_sends [OF sends_append [OF send_start [OF e(1,2)] 1] 2, of fuel] len n(3)
  show ?thesis by (simp add: distance_body_def add_ac)
qed

end

subsection \<open>Words in bytes\<close>

text \<open>Bit \<open>k\<close> of a buffer, counted from the lowest bit of the first byte.\<close>

definition data_bit :: "bytes \<Rightarrow> nat \<Rightarrow> bool" where
  "data_bit d k = bit (d ! (k div 8)) (k mod 8)"

lemma data_bit_at: "m < 8 \<Longrightarrow> data_bit d (8 * j + m) = bit (d ! j) m"
  by (simp add: data_bit_def)

lemma bit_u8_ge: "\<not> bit (x :: u8) (8 + m)"
  by (auto dest: bit_imp_le_length)

lemma wr32_ok:
  assumes "i + 3 < length d"
  shows "\<exists>d'. wr32 d i x = Some d' \<and> length d' = length d \<and>
    (\<forall>k. data_bit d' k = (if 8 * i \<le> k \<and> k < 8 * i + 32 then bit x (k - 8 * i) else data_bit d k))"
proof -
  let ?d = "d[i := ucast x, i + 1 := ucast (drop_bit 8 x), i + 2 := ucast (drop_bit 16 x), i + 3 := ucast (drop_bit 24 x)]"
  have "wr32 d i x = Some ?d" using assms by (simp add: wr32_def mem_simps)
  moreover have "data_bit ?d k = (if 8 * i \<le> k \<and> k < 8 * i + 32 then bit x (k - 8 * i) else data_bit d k)" for k
  proof -
    define j m where "j = k div 8" and "m = k mod 8"
    then have k: "k = 8 * j + m" "m < 8" by auto
    have d: "data_bit e k = bit (e ! j) m" for e using data_bit_at [of m e j] k by simp
    consider "j = i" | "j = i + 1" | "j = i + 2" | "j = i + 3" | "j < i \<or> i + 3 < j" by arith
    then show ?thesis
    proof cases
      case 5
      then have "\<not> (8 * i \<le> k \<and> k < 8 * i + 32)" using k by auto
      with 5 show ?thesis unfolding d by auto
    qed (unfold d, use assms k in \<open>simp_all add: nth_list_update bit_ucast_iff bit_drop_bit_eq add.commute\<close>)
  qed
  ultimately show ?thesis by auto
qed

lemma rd32_ok:
  "i + 3 < length d \<Longrightarrow> \<exists>x. rd32 d i = Some x \<and> (\<forall>k < 32. bit x k = data_bit d (8 * i + k))"
proof -
  assume i: "i + 3 < length d"
  let ?x = "ucast (d ! i) OR push_bit 8 (ucast (d ! (i + 1))) OR push_bit 16 (ucast (d ! (i + 2))) OR
    push_bit 24 (ucast (d ! (i + 3))) :: u32"
  have "rd32 d i = Some ?x" using i by (simp add: rd32_def mem_simps)
  moreover have "bit ?x k = data_bit d (8 * i + k)" if "k < 32" for k
  proof -
    define j m where "j = k div 8" and "m = k mod 8"
    then have k: "k = 8 * j + m" "m < 8" "j < 4" using that by auto
    then have "j = 0 \<or> j = 1 \<or> j = 2 \<or> j = 3" by arith
    moreover have "data_bit d (8 * i + k) = bit (d ! (i + j)) m"
      using data_bit_at [of m d "i + j"] k by (simp add: distrib_left add.assoc)
    ultimately show ?thesis
      using k by (elim disjE) (auto simp: bit_simps add_ac dest: bit_imp_le_length)
  qed
  ultimately show ?thesis by blast
qed

lemma rd16_ok:
  "i + 1 < length d \<Longrightarrow> \<exists>x. rd16 d i = Some x \<and> (\<forall>k < 16. bit x k = data_bit d (8 * i + k))"
proof -
  assume i: "i + 1 < length d"
  let ?x = "ucast (d ! i) OR push_bit 8 (ucast (d ! (i + 1))) :: u16"
  have "rd16 d i = Some ?x" using i by (simp add: rd16_def mem_simps)
  moreover have "bit ?x k = data_bit d (8 * i + k)" if "k < 16" for k
  proof -
    define j m where "j = k div 8" and "m = k mod 8"
    then have k: "k = 8 * j + m" "m < 8" "j < 2" using that by auto
    then have "j = 0 \<or> j = 1" by arith
    moreover have "data_bit d (8 * i + k) = bit (d ! (i + j)) m"
      using data_bit_at [of m d "i + j"] k by (simp add: distrib_left add.assoc)
    ultimately show ?thesis
      using k by (elim disjE) (auto simp: bit_simps add_ac dest: bit_imp_le_length)
  qed
  ultimately show ?thesis by blast
qed

text \<open>A decoder that holds the bits of an encoder agrees with it on each of them.\<close>

lemma holds_data_bit: "holds data (lsb_bits data' n) \<Longrightarrow> k < n \<Longrightarrow> data_bit data k = data_bit data' k"
proof -
  assume h: "holds data (lsb_bits data' n)" and k: "k < n"
  have "8 * (k div 8) \<le> k" by simp
  then have "8 * (k div 8) < n" using k by (rule le_less_trans)
  with h have "bit (data ! (k div 8)) (k mod 8) =
      (8 * (k div 8) + k mod 8 < n \<and> lsb_bits data' n ! (8 * (k div 8) + k mod 8))"
    by (simp add: holds_def)
  with k show ?thesis by (simp add: data_bit_def lsb_bits_def)
qed

lemma holds_byte: "holds data (lsb_bits data' n) \<Longrightarrow> 8 * j + 8 \<le> n \<Longrightarrow> data ! j = data' ! j"
proof (rule bit_word_eqI)
  fix k assume h: "holds data (lsb_bits data' n)" "8 * j + 8 \<le> n" and "k < LENGTH(8)"
  then show "bit (data ! j) k = bit (data' ! j) k"
    using holds_data_bit [OF h(1), of "8 * j + k"] by (simp add: data_bit_def)
qed

subsection \<open>The lines of the protocols\<close>

interpretation nec_line: pulse_distance infrared_protocol_nec 6
  by unfold_locales (simp_all add: MATCH_TIMING_def)

interpretation samsung32_line: pulse_distance infrared_protocol_samsung32 4
  by unfold_locales (simp_all add: MATCH_TIMING_def)

interpretation rca_line: pulse_distance infrared_protocol_rca 4
  by unfold_locales (simp_all add: MATCH_TIMING_def)

interpretation kaseikyo_line: pulse_distance infrared_protocol_kaseikyo 6
  by unfold_locales (simp_all add: MATCH_TIMING_def)

subsection \<open>Repeat frames\<close>

lemma hear_cat:
  "hear f d ps = Some (ms, d1) \<Longrightarrow> hear f d1 qs = Some (ns, d2) \<Longrightarrow> hear f d (ps @ qs) = Some (ms @ ns, d2)"
  by (simp add: hear_append)

lemma hear_silent:
  "f d level t = Some (None, d1) \<Longrightarrow> hear f d1 qs = Some (ns, d2) \<Longrightarrow> hear f d ((level, t) # qs) = Some (ns, d2)"
  by simp

lemma hear_message:
  "f d level t = Some (Some m, d1) \<Longrightarrow> hear f d1 qs = Some (ns, d2) \<Longrightarrow> hear f d ((level, t) # qs) = Some (m # ns, d2)"
  by simp

context infrared_base begin

lemma repeat_pulse:
  fixes d :: InfraredCommonDecoder
  assumes d: "dec_state d = InfraredCommonDecoderStateProcessRepeat" "dec_level d \<noteq> level" "samples_cnt d = k"
    "k < 6" "length (samples d) = 6" and f: "decode_repeat_fn p = Some f"
    and e: "e = d\<lparr>dec_level := level, samples := (samples d)[k := t], samples_cnt := k + 1\<rparr>"
  shows "f (pdata p) e = Some (InfraredStatusOk, e) \<Longrightarrow> infrared_common_decode p d level t = Some (None, e)"
    and "f (pdata p) e = Some (InfraredStatusReady, e\<lparr>samples_cnt := 0\<rparr>) \<Longrightarrow>
      infrared_common_decode p d level t =
        Some (Some ((message d)\<lparr>im_repeat := True\<rparr>), e\<lparr>samples_cnt := 0, message := (message d)\<lparr>im_repeat := True\<rparr>\<rparr>)"
proof -
  have st: "dec_state e = InfraredCommonDecoderStateProcessRepeat" using d e by simp
  have dec: "infrared_common_decode p d level t =
      map_option (\<lambda>(m, d). (if m then Some (message d) else None, d)) (decode_loop p False e)"
    using d by (cases "decode_loop p False e") (auto simp: infrared_common_decode_def wr_def Let_def e)
  show "infrared_common_decode p d level t = Some (None, e)" if "f (pdata p) e = Some (InfraredStatusOk, e)"
  proof -
    have "decode_loop p False e = Some (False, e)" by (subst decode_loop.simps) (simp add: st f that)
    then show ?thesis by (simp add: dec)
  qed
  show "infrared_common_decode p d level t =
        Some (Some ((message d)\<lparr>im_repeat := True\<rparr>), e\<lparr>samples_cnt := 0, message := (message d)\<lparr>im_repeat := True\<rparr>\<rparr>)"
    if "f (pdata p) e = Some (InfraredStatusReady, e\<lparr>samples_cnt := 0\<rparr>)"
  proof -
    have "decode_loop p False e = Some (True, e\<lparr>samples_cnt := 0, message := (message d)\<lparr>im_repeat := True\<rparr>\<rparr>)"
      by (subst decode_loop.simps) (simp add: st f that, simp add: e)
    then show ?thesis by (simp add: dec)
  qed
qed

end

text \<open>A decoder that has just heard a repeat frame.\<close>

definition repeated :: "InfraredCommonDecoder \<Rightarrow> nat \<Rightarrow> InfraredMessage \<Rightarrow> bool" where
  "repeated d need m \<longleftrightarrow> dec_state d = InfraredCommonDecoderStateProcessRepeat \<and> samples_cnt d = 0 \<and>
     length (samples d) = 6 \<and> need \<le> length (dec_data d) \<and> dec_level d \<and> message d = m"

lemma nec_repeat_pause:
  assumes "repeated d 6 m"
  shows "\<exists>d'. infrared_common_decode infrared_protocol_nec d False t = Some (None, d') \<and> repeating d' 6 t m"
proof -
  let ?e = "d\<lparr>dec_level := False, samples := (samples d)[0 := t], samples_cnt := 0 + 1\<rparr>"
  have "infrared_common_decode infrared_protocol_nec d False t = Some (None, ?e)"
    by (rule nec.repeat_pulse(1) [OF _ _ _ _ _ _ refl, where k = 0 and f = infrared_decoder_nec_decode_repeat])
      (use assms in \<open>simp_all add: repeated_def infrared_decoder_nec_decode_repeat_def\<close>)
  with assms show ?thesis by (simp add: repeated_def repeating_def)
qed

lemma nec_repeat_frame:
  assumes d: "repeating d 6 t m" and t: "4000 < t" "t < 150000"
  shows "\<exists>d'. hear (infrared_common_decode infrared_protocol_nec) d [(True, 9000), (False, 2250), (True, 560)] =
    Some ([m\<lparr>im_repeat := True\<rparr>], d') \<and> repeated d' 6 (m\<lparr>im_repeat := True\<rparr>)"
proof -
  let ?p = infrared_protocol_nec and ?f = infrared_decoder_nec_decode_repeat
  let ?d1 = "d\<lparr>dec_level := True, samples := (samples d)[1 := 9000], samples_cnt := 1 + 1\<rparr>"
  let ?d2 = "?d1\<lparr>dec_level := False, samples := (samples ?d1)[2 := 2250], samples_cnt := 2 + 1\<rparr>"
  let ?d3 = "?d2\<lparr>dec_level := True, samples := (samples ?d2)[3 := 560], samples_cnt := 3 + 1\<rparr>"
  have len: "length (samples d) = 6" "dec_state d = InfraredCommonDecoderStateProcessRepeat" "samples_cnt d = 1"
    "\<not> dec_level d" "samples d ! 0 = t" "message d = m" "6 \<le> length (dec_data d)"
    using d by (simp_all add: repeating_def)
  have 1: "infrared_common_decode ?p d True 9000 = Some (None, ?d1)"
    by (rule nec.repeat_pulse(1) [OF _ _ _ _ _ _ refl, where k = 1 and f = ?f])
      (use len in \<open>simp_all add: infrared_decoder_nec_decode_repeat_def\<close>)
  have 2: "infrared_common_decode ?p ?d1 False 2250 = Some (None, ?d2)"
    by (rule nec.repeat_pulse(1) [OF _ _ _ _ _ _ refl, where k = 2 and f = ?f])
      (use len in \<open>simp_all add: infrared_decoder_nec_decode_repeat_def\<close>)
  have 3: "infrared_common_decode ?p ?d2 True 560 = Some (Some ((message ?d2)\<lparr>im_repeat := True\<rparr>),
      ?d3\<lparr>samples_cnt := 0, message := (message ?d2)\<lparr>im_repeat := True\<rparr>\<rparr>)"
    by (rule nec.repeat_pulse(2) [OF _ _ _ _ _ _ refl, where k = 3 and f = ?f])
      (use len t in \<open>simp_all add: infrared_decoder_nec_decode_repeat_def rd_def MATCH_TIMING_def MATCH_TIMING_float_def\<close>)
  show ?thesis using 1 2 3 len by (simp add: repeated_def)
qed

lemma samsung32_repeat_pause:
  assumes "repeated d 4 m"
  shows "\<exists>d'. infrared_common_decode infrared_protocol_samsung32 d False t = Some (None, d') \<and> repeating d' 4 t m"
proof -
  let ?e = "d\<lparr>dec_level := False, samples := (samples d)[0 := t], samples_cnt := 0 + 1\<rparr>"
  have "infrared_common_decode infrared_protocol_samsung32 d False t = Some (None, ?e)"
    by (rule samsung32.repeat_pulse(1) [OF _ _ _ _ _ _ refl, where k = 0 and f = infrared_decoder_samsung32_decode_repeat])
      (use assms in \<open>simp_all add: repeated_def infrared_decoder_samsung32_decode_repeat_def\<close>)
  with assms show ?thesis by (simp add: repeated_def repeating_def)
qed

lemma samsung32_repeat_frame:
  assumes d: "repeating d 4 t m" and t: "30000 < t" "t < 140000"
  shows "\<exists>d'. hear (infrared_common_decode infrared_protocol_samsung32) d
      [(True, 4500), (False, 4500), (True, 550), (False, 1650), (True, 550)] =
    Some ([m\<lparr>im_repeat := True\<rparr>], d') \<and> repeated d' 4 (m\<lparr>im_repeat := True\<rparr>)"
proof -
  let ?p = infrared_protocol_samsung32 and ?f = infrared_decoder_samsung32_decode_repeat
  let ?d1 = "d\<lparr>dec_level := True, samples := (samples d)[1 := 4500], samples_cnt := 1 + 1\<rparr>"
  let ?d2 = "?d1\<lparr>dec_level := False, samples := (samples ?d1)[2 := 4500], samples_cnt := 2 + 1\<rparr>"
  let ?d3 = "?d2\<lparr>dec_level := True, samples := (samples ?d2)[3 := 550], samples_cnt := 3 + 1\<rparr>"
  let ?d4 = "?d3\<lparr>dec_level := False, samples := (samples ?d3)[4 := 1650], samples_cnt := 4 + 1\<rparr>"
  let ?d5 = "?d4\<lparr>dec_level := True, samples := (samples ?d4)[5 := 550], samples_cnt := 5 + 1\<rparr>"
  have len: "length (samples d) = 6" "dec_state d = InfraredCommonDecoderStateProcessRepeat" "samples_cnt d = 1"
    "\<not> dec_level d" "samples d ! 0 = t" "message d = m" "4 \<le> length (dec_data d)"
    using d by (simp_all add: repeating_def)
  have 1: "infrared_common_decode ?p d True 4500 = Some (None, ?d1)"
    by (rule samsung32.repeat_pulse(1) [OF _ _ _ _ _ _ refl, where k = 1 and f = ?f])
      (use len in \<open>simp_all add: infrared_decoder_samsung32_decode_repeat_def\<close>)
  have 2: "infrared_common_decode ?p ?d1 False 4500 = Some (None, ?d2)"
    by (rule samsung32.repeat_pulse(1) [OF _ _ _ _ _ _ refl, where k = 2 and f = ?f])
      (use len in \<open>simp_all add: infrared_decoder_samsung32_decode_repeat_def\<close>)
  have 3: "infrared_common_decode ?p ?d2 True 550 = Some (None, ?d3)"
    by (rule samsung32.repeat_pulse(1) [OF _ _ _ _ _ _ refl, where k = 3 and f = ?f])
      (use len in \<open>simp_all add: infrared_decoder_samsung32_decode_repeat_def\<close>)
  have 4: "infrared_common_decode ?p ?d3 False 1650 = Some (None, ?d4)"
    by (rule samsung32.repeat_pulse(1) [OF _ _ _ _ _ _ refl, where k = 4 and f = ?f])
      (use len in \<open>simp_all add: infrared_decoder_samsung32_decode_repeat_def\<close>)
  have 5: "infrared_common_decode ?p ?d4 True 550 = Some (Some ((message ?d4)\<lparr>im_repeat := True\<rparr>),
      ?d5\<lparr>samples_cnt := 0, message := (message ?d4)\<lparr>im_repeat := True\<rparr>\<rparr>)"
    by (rule samsung32.repeat_pulse(2) [OF _ _ _ _ _ _ refl, where k = 5 and f = ?f])
      (use len t in \<open>simp_all add: infrared_decoder_samsung32_decode_repeat_def rd_def MATCH_TIMING_def MATCH_TIMING_float_def\<close>)
  show ?thesis using 1 2 3 4 5 len by (simp add: repeated_def)
qed

subsection \<open>The driver and the encoder\<close>

text \<open>The driver sends exactly what the encoder gives for the wanted number of transmissions.\<close>

lemma data_callback_ok:
  "row_encode (infrared_encoder_decoder ! i) e = Some (InfraredStatusOk, t, level, e') \<Longrightarrow>
   infrared_get_data_callback \<lparr>infrared_tx_number_of_transmissions = Suc n, tx_encoder = Some (i, e)\<rparr> =
     Some (FuriHalInfraredTxGetDataStateOk, t, level, \<lparr>infrared_tx_number_of_transmissions = Suc n, tx_encoder = Some (i, e')\<rparr>)"
  by (simp add: infrared_get_data_callback_def infrared_encode_def)

lemma data_callback_done:
  "row_encode (infrared_encoder_decoder ! i) e = Some (InfraredStatusDone, t, level, e') \<Longrightarrow>
   infrared_get_data_callback \<lparr>infrared_tx_number_of_transmissions = Suc n, tx_encoder = Some (i, e)\<rparr> =
     Some (if n = 0 then FuriHalInfraredTxGetDataStateLastDone else FuriHalInfraredTxGetDataStateDone, t, level,
       \<lparr>infrared_tx_number_of_transmissions = n, tx_encoder = Some (i, e')\<rparr>)"
  by (simp add: infrared_get_data_callback_def infrared_encode_def)

lemma tx_line_transmit:
  assumes "transmit fuel (row_encode (infrared_encoder_decoder ! i)) e = Some (ps, e')"
  shows "tx_line (length ps + rest) infrared_get_data_callback
      \<lparr>infrared_tx_number_of_transmissions = Suc n, tx_encoder = Some (i, e)\<rparr> =
    (if n = 0 then Some ps
     else map_option ((@) ps) (tx_line rest infrared_get_data_callback
       \<lparr>infrared_tx_number_of_transmissions = n, tx_encoder = Some (i, e')\<rparr>))"
  using assms
proof (induction fuel arbitrary: e ps)
  case (Suc fuel)
  let ?f = "row_encode (infrared_encoder_decoder ! i)"
  obtain status t level e1 where f: "?f e = Some (status, t, level, e1)"
    using Suc.prems by (cases "?f e") auto
  consider "status = InfraredStatusDone" "ps = [(level, t)]" "e' = e1"
    | qs where "status = InfraredStatusOk" "transmit fuel ?f e1 = Some (qs, e')" "ps = (level, t) # qs"
    using Suc.prems f by (auto split: if_splits simp: bind_eq_Some_conv)
  then show ?case
  proof cases
    case 1
    with f show ?thesis
      by (cases "tx_line rest infrared_get_data_callback
          \<lparr>infrared_tx_number_of_transmissions = n, tx_encoder = Some (i, e1)\<rparr>")
        (simp_all add: data_callback_done)
  next
    case 2
    from Suc.IH [OF 2(2)] f 2 show ?thesis
      by (cases "tx_line rest infrared_get_data_callback
          \<lparr>infrared_tx_number_of_transmissions = n, tx_encoder = Some (i, e')\<rparr>")
        (simp_all add: data_callback_ok)
  qed
qed simp

lemma tx_line_times:
  "transmit_times fuel (Suc n) (row_encode (infrared_encoder_decoder ! i)) e = Some (ps, e') \<Longrightarrow>
   length ps \<le> fuel' \<Longrightarrow>
   tx_line fuel' infrared_get_data_callback
      \<lparr>infrared_tx_number_of_transmissions = Suc n, tx_encoder = Some (i, e)\<rparr> = Some ps"
proof (induction n arbitrary: e ps fuel')
  case 0
  then obtain rest where "fuel' = length ps + rest" using le_Suc_ex by blast
  with 0 tx_line_transmit [of fuel i e ps e' rest 0] show ?case
    by (auto simp: bind_eq_Some_conv)
next
  case (Suc n)
  from Suc.prems(1) obtain qs e1 rs where q: "transmit fuel (row_encode (infrared_encoder_decoder ! i)) e = Some (qs, e1)"
    and r: "transmit_times fuel (Suc n) (row_encode (infrared_encoder_decoder ! i)) e1 = Some (rs, e')" and ps: "ps = qs @ rs"
    by (subst (asm) transmit_times.simps) (auto simp: bind_eq_Some_conv simp del: transmit_times.simps)
  obtain rest where rest: "fuel' = length qs + rest" "length rs \<le> rest"
    using Suc.prems(2) ps by (intro that [of "fuel' - length qs"]) auto
  from tx_line_transmit [OF q, of rest "Suc n"] Suc.IH [OF r rest(2)] show ?case
    by (simp add: rest(1) ps)
qed

lemma infrared_send_transmits:
  assumes "infrared_find_index_by_protocol (im_protocol m) = Some i"
    and "infrared_get_protocol_min_repeat_count (im_protocol m) = Some r" "max r n = Suc k" "n \<noteq> 0"
    and "row_reset (infrared_encoder_decoder ! i) (infrared_common_encoder_alloc (row_spec (infrared_encoder_decoder ! i)) room) m = Some e"
    and "transmit_times fuel' (Suc k) (row_encode (infrared_encoder_decoder ! i)) e = Some (ps, e')" "length ps \<le> fuel"
  shows "infrared_send fuel room m n = Some ps"
  using assms tx_line_times [OF assms(6,7)]
  by (simp add: infrared_send_def infrared_is_protocol_valid_def infrared_reset_encoder_def infrared_alloc_encoder_def Let_def)

end
