(* ===== verification/Infrared_Nec.thy ===== *)
theory Infrared_Nec
  imports Infrared_Line
begin

text \<open>
  A NEC message, in any of its four variants, from the message to the pulses and back: what the encoder's reset
  stores, what the driver sends with its repeat frames, and what the decoder makes of it.
\<close>

subsection \<open>NEC\<close>

definition starts :: "InfraredCommonEncoder \<Rightarrow> bool" where
  "starts e \<longleftrightarrow> enc_state e = InfraredCommonEncoderStateSilence \<and> timings_encoded e = 0 \<and> bits_encoded e = 0"

fun nec_repeats :: "u32 \<Rightarrow> nat \<Rightarrow> line" where
  "nec_repeats t 0 = []"
| "nec_repeats t (Suc k) = (False, t) # (True, 9000) # (False, 2250) # (True, 560) # nec_repeats 98190 k"

lemma length_nec_repeats [simp]: "length (nec_repeats t k) = 4 * k"
  by (induction t k rule: nec_repeats.induct) simp_all

lemma nec_send_repeat:
  assumes e: "enc_state e = InfraredCommonEncoderStateEncodeRepeat" "bits_to_encode e = n" "timings_encoded e = 4 + 2 * n + 4 * i"
    and small: "8 + 2 * n + 4 * i < 2 ^ 32"
  shows "transmit 100 infrared_encoder_nec_encode e =
    Some (nec_repeats (if i = 0 then 110000 - timings_sum e else 98190) 1, e\<lparr>timings_encoded := 4 + 2 * n + 4 * (i + 1)\<rparr>)"
proof -
  have cnt: "size_sub (4 + 2 * n + 4 * i + j) (1 + 2 + n * 2 + 1) = 4 * i + j" if "j < 4" for j
    using that small by (subst size_sub_le) auto
  note cnts = cnt [of 0, simplified] cnt [of 1, simplified] cnt [of 2, simplified] cnt [of 3, simplified]
  have mods: "(4 * i + 1) mod 4 = (1::nat)" "(4 * i + 2) mod 4 = (2::nat)" "(4 * i + 3) mod 4 = (3::nat)"
    "(4 * i + 4) mod 4 = (0::nat)" "(4 * i + 1) mod 2 = (1::nat)" "(4 * i + 2) mod 2 = (0::nat)"
    "(4 * i + 3) mod 2 = (1::nat)" "4 * i mod 2 = (0::nat)" "4 * i mod 4 = (0::nat)" by presburger+
  note defs = infrared_encoder_nec_encode_def infrared_common_encode_def infrared_encoder_nec_encode_repeat_def Let_def
  let ?e = "\<lambda>j. e\<lparr>timings_encoded := 4 + 2 * n + 4 * i + j\<rparr>"
  have 1: "infrared_encoder_nec_encode e = Some (InfraredStatusOk, if i = 0 then 110000 - timings_sum e else 98190, False, ?e 1)"
    using e cnts(1) mods by (simp add: defs)
  have 2: "infrared_encoder_nec_encode (?e 1) = Some (InfraredStatusOk, 9000, True, ?e 2)"
    using e cnts(2) mods by (simp add: defs)
  have 3: "infrared_encoder_nec_encode (?e 2) = Some (InfraredStatusOk, 2250, False, ?e 3)"
    using e cnts(3) mods by (simp add: defs)
  have 4: "infrared_encoder_nec_encode (?e 3) = Some (InfraredStatusDone, 560, True, ?e 4)"
    using e cnts(4) mods by (simp add: defs)
  have s: "sends infrared_encoder_nec_encode e [(False, if i = 0 then 110000 - timings_sum e else 98190), (True, 9000), (False, 2250)] (?e 3)"
    using 1 2 3 by simp
  from transmit_sends [OF s 4, of 100] show ?thesis
    by (simp add: One_nat_def)
qed

lemma nec_send_repeats:
  assumes e: "enc_state e = InfraredCommonEncoderStateEncodeRepeat" "bits_to_encode e = n" "timings_encoded e = 4 + 2 * n + 4 * i"
    and small: "8 + 2 * n + 4 * (i + k) < 2 ^ 32"
  shows "\<exists>e'. transmit_times 100 k infrared_encoder_nec_encode e =
    Some (nec_repeats (if i = 0 then 110000 - timings_sum e else 98190) k, e')"
  using assms
proof (induction k arbitrary: e i)
  case (Suc k)
  let ?e = "e\<lparr>timings_encoded := 4 + 2 * n + 4 * (i + 1)\<rparr>"
  have 1: "transmit 100 infrared_encoder_nec_encode e =
      Some (nec_repeats (if i = 0 then 110000 - timings_sum e else 98190) 1, ?e)"
    by (rule nec_send_repeat) (use Suc.prems in auto)
  have "\<exists>e'. transmit_times 100 k infrared_encoder_nec_encode ?e =
    Some (nec_repeats (if i + 1 = 0 then 110000 - timings_sum ?e else 98190) k, e')"
    by (rule Suc.IH) (use Suc.prems in auto)
  then obtain e' where "transmit_times 100 k infrared_encoder_nec_encode ?e = Some (nec_repeats 98190 k, e')"
    by auto
  with 1 show ?case by (simp add: One_nat_def)
qed simp

lemma nec_hear_repeats:
  assumes "repeating d 6 t m" "4000 < t" "t < 150000"
  shows "\<exists>d'. hear (infrared_common_decode infrared_protocol_nec) d
      ((True, 9000) # (False, 2250) # (True, 560) # nec_repeats 98190 k @ [(False, gap)]) =
    Some (replicate (Suc k) (m\<lparr>im_repeat := True\<rparr>), d')"
  using assms
proof (induction k arbitrary: d t m)
  case 0
  obtain d1 where 1: "hear (infrared_common_decode infrared_protocol_nec) d [(True, 9000), (False, 2250), (True, 560)] =
      Some ([m\<lparr>im_repeat := True\<rparr>], d1)" "repeated d1 6 (m\<lparr>im_repeat := True\<rparr>)"
    using nec_repeat_frame [OF 0] by blast
  obtain d2 where 2: "infrared_common_decode infrared_protocol_nec d1 False gap = Some (None, d2)"
    using nec_repeat_pause [OF 1(2)] by blast
  have "hear (infrared_common_decode infrared_protocol_nec) d
      ([(True, 9000), (False, 2250), (True, 560)] @ [(False, gap)]) = Some ([m\<lparr>im_repeat := True\<rparr>], d2)"
    unfolding hear_append 1(1) by (simp add: 2)
  then show ?case by simp
next
  case (Suc k)
  obtain d1 where 1: "hear (infrared_common_decode infrared_protocol_nec) d [(True, 9000), (False, 2250), (True, 560)] =
      Some ([m\<lparr>im_repeat := True\<rparr>], d1)" "repeated d1 6 (m\<lparr>im_repeat := True\<rparr>)"
    using nec_repeat_frame [OF Suc.prems] by blast
  obtain d2 where 2: "infrared_common_decode infrared_protocol_nec d1 False 98190 = Some (None, d2)"
    "repeating d2 6 98190 (m\<lparr>im_repeat := True\<rparr>)"
    using nec_repeat_pause [OF 1(2)] by blast
  obtain d3 where 3: "hear (infrared_common_decode infrared_protocol_nec) d2
      ((True, 9000) # (False, 2250) # (True, 560) # nec_repeats 98190 k @ [(False, gap)]) =
    Some (replicate (Suc k) (m\<lparr>im_repeat := True\<rparr>), d3)"
    using Suc.IH [OF 2(2)] by auto
  from hear_cat [OF 1(1) hear_silent [OF 2(1) 3]] show ?case by simp
qed

text \<open>A session: the message and its repeats, as the encoder sends them and the decoder hears them.\<close>

lemma nec_session:
  assumes e: "starts e" "bits_to_encode e = n" "n < 8 * length (enc_data e)" "n = 32 \<or> n = 42"
    and interp: "\<And>pd d. 6 \<le> length (dec_data d) \<Longrightarrow> holds (dec_data d) (lsb_bits (enc_data e) n) \<Longrightarrow> databit_cnt d = n \<Longrightarrow>
      infrared_decoder_nec_interpret pd d = Some (True, d\<lparr>message := m\<rparr>)"
    and pause: "k \<noteq> 0 \<Longrightarrow> 4000 < 110000 - line_time (distance_body (timings infrared_protocol_nec) (lsb_bits (enc_data e) n))"
      "k \<noteq> 0 \<Longrightarrow> 110000 - line_time (distance_body (timings infrared_protocol_nec) (lsb_bits (enc_data e) n)) < 150000"
    and small: "k < 2 ^ 28" and gap: "4000 < gap" and d: "waits d 6 l"
  shows "\<exists>ps e'. transmit_times 100 (Suc k) infrared_encoder_nec_encode e = Some (ps, e') \<and> length ps \<le> 100 + 4 * k \<and>
    (\<exists>d'. hear (infrared_common_decode infrared_protocol_nec) d (ps @ [(False, gap)]) =
       Some (m # replicate k (m\<lparr>im_repeat := True\<rparr>), d'))"
proof -
  let ?p = infrared_protocol_nec
  let ?body = "distance_body (timings ?p) (lsb_bits (enc_data e) n)"
  let ?t = "110000 - line_time ?body"
  let ?e = "e\<lparr>timings_encoded := 4 + 2 * n, timings_sum := line_time ?body,
         enc_state := InfraredCommonEncoderStateEncodeRepeat, bits_encoded := n\<rparr>"
  have sent: "transmit 100 infrared_encoder_nec_encode e = Some ((False, 110000) # ?body, ?e)"
    using nec_line.send_message [of e n 100] e by (auto simp: starts_def infrared_encoder_nec_encode_def)
  have n: "8 + 2 * n + 4 * (0 + k) < 2 ^ 32" using small e(4) by auto
  obtain e' where rep: "transmit_times 100 k infrared_encoder_nec_encode ?e = Some (nec_repeats ?t k, e')"
    using nec_send_repeats [of ?e n 0 k] e(2) n by auto
  have len: "length ?body = 3 + 2 * n"
    by (simp add: distance_body_def length_concat o_def distance_bit_def sum_list_triv)
  obtain d1 where d1: "infrared_common_decode ?p d False 110000 = Some (None, d1)" "waits d1 6 False"
    using nec.hear_waiting_space [OF d] by blast
  obtain d2 where d2: "hear (infrared_common_decode ?p) d1 ?body = Some ([], d2)"
    "receives d2 6 True (lsb_bits (enc_data e) n)"
    using nec_line.hear_body [OF d1(2), of "lsb_bits (enc_data e) n"] e(4) by auto
  have fin: "\<exists>d'. infrared_common_decode ?p d2 False t = Some (Some m, d') \<and> repeating d' 6 t m" if "4000 < t" for t
    by (rule nec.hear_end_repeat [OF d2(2), where f = infrared_decoder_nec_decode_repeat])
      (use that e(4) interp in \<open>auto simp: infrared_decoder_nec_decode_repeat_def\<close>)
  have "\<exists>d'. hear (infrared_common_decode ?p) d2 (nec_repeats ?t k @ [(False, gap)]) =
      Some (m # replicate k (m\<lparr>im_repeat := True\<rparr>), d')"
  proof (cases k)
    case 0
    with fin [OF gap] show ?thesis by auto
  next
    case (Suc j)
    obtain d3 where d3: "infrared_common_decode ?p d2 False ?t = Some (Some m, d3)" "repeating d3 6 ?t m"
      using fin [OF pause(1)] Suc by auto
    obtain d4 where "hear (infrared_common_decode ?p) d3
        ((True, 9000) # (False, 2250) # (True, 560) # nec_repeats 98190 j @ [(False, gap)]) =
      Some (replicate (Suc j) (m\<lparr>im_repeat := True\<rparr>), d4)"
      using nec_hear_repeats [OF d3(2) pause] Suc by blast
    from hear_message [OF d3(1) this] Suc show ?thesis by auto
  qed
  then obtain d' where "hear (infrared_common_decode ?p) d2 (nec_repeats ?t k @ [(False, gap)]) =
      Some (m # replicate k (m\<lparr>im_repeat := True\<rparr>), d')" by blast
  from hear_silent [OF d1(1) hear_cat [OF d2(1) this]]
  have "hear (infrared_common_decode ?p) d ((False, 110000) # ?body @ nec_repeats ?t k @ [(False, gap)]) =
      Some (m # replicate k (m\<lparr>im_repeat := True\<rparr>), d')" by simp
  with sent rep len e(4) show ?thesis by auto
qed

lemma encoder_reset_ok:
  assumes "fold max (databit_len p) 0 = n" "b = n div 8 + of_bool (n mod 8 \<noteq> 0)" "b \<le> length (enc_data e)"
  shows "infrared_common_encoder_reset p e = Some (e\<lparr>timings_encoded := 0, timings_sum := 0, bits_encoded := 0,
    enc_state := InfraredCommonEncoderStateSilence, enc_switch_detect := False,
    enc_data := replicate b 0 @ drop b (enc_data e)\<rparr>)"
  using assms by (simp add: infrared_common_encoder_reset_def memcpy_def Let_def)

lemma bytes_of_word:
  assumes "\<forall>k < 32. data_bit d k = bit (X :: u32) k" "j < 4"
  shows "d ! j = ucast (drop_bit (8 * j) X)"
proof (rule bit_word_eqI)
  fix k assume "k < LENGTH(8)"
  then have "k < 8" by simp
  moreover from this assms have "data_bit d (8 * j + k) = bit X (8 * j + k)" by simp
  ultimately show "bit (d ! j) k = bit (ucast (drop_bit (8 * j) X) :: u8) k"
    by (simp add: data_bit_at bit_ucast_iff bit_drop_bit_eq)
qed

lemma masks:
  "(0x1FFF :: 'a::len word) = mask 13" "(0x3F :: 'a word) = mask 6" "(3 :: 'a word) = mask 2" "(0xFF :: 'a word) = mask 8"
  "(0xFFFF :: 'a word) = mask 16" "(0x3FFFFFF :: 'a word) = mask 26"
  by (simp_all add: mask_eq_exp_minus_1)

text \<open>The time of a message, and the pause before its repeat.\<close>

lemma nec_time:
  "line_time (distance_body (timings infrared_protocol_nec) bits) =
     of_nat (14060 + 1120 * length bits + 1130 * length (filter id bits))"
proof -
  have "line_time (concat (map (distance_bit (timings infrared_protocol_nec)) bits)) =
      of_nat (1120 * length bits + 1130 * length (filter id bits))"
    by (induction bits) (simp_all add: distance_bit_def algebra_simps)
  then show ?thesis by (simp add: distance_body_def algebra_simps)
qed

lemma nec_pause:
  assumes "14060 + 1120 * length bits + 1130 * length (filter id bits) < 106000"
  shows "4000 < 110000 - line_time (distance_body (timings infrared_protocol_nec) bits)"
    and "110000 - line_time (distance_body (timings infrared_protocol_nec) bits) < 150000"
proof -
  define N where "N = 14060 + 1120 * length bits + 1130 * length (filter id bits)"
  have "110000 - line_time (distance_body (timings infrared_protocol_nec) bits) = of_nat 110000 - of_nat N"
    by (simp only: nec_time N_def of_nat_numeral)
  also have "\<dots> = (of_nat (110000 - N) :: u32)"
    using assms by (subst of_nat_diff) (simp_all add: N_def)
  finally have t: "110000 - line_time (distance_body (timings infrared_protocol_nec) bits) = (of_nat (110000 - N) :: u32)" .
  have "unat (of_nat (110000 - N) :: u32) = 110000 - N"
    by (simp add: unsigned_of_nat take_bit_nat_eq_self_iff)
  then show "4000 < 110000 - line_time (distance_body (timings infrared_protocol_nec) bits)"
    and "110000 - line_time (distance_body (timings infrared_protocol_nec) bits) < 150000"
    unfolding t word_less_nat_alt using assms by (simp_all add: N_def)
qed

text \<open>What the decoder reads from 32 or 42 collected bits.\<close>

lemma nec_interpret_32:
  assumes "6 \<le> length (dec_data d)" "databit_cnt d = 32" and X: "\<forall>k < 32. data_bit (dec_data d) k = bit (X :: u32) k"
  shows "infrared_decoder_nec_interpret pd d =
    (let a = (ucast X :: u8); ai = ucast (drop_bit 8 X); c = ucast (drop_bit 16 X); ci = ucast (drop_bit 24 X) :: u8
     in if c = NOT ci \<and> a = NOT ai then set_message InfraredProtocolNEC (ucast a) (ucast c) d
        else set_message InfraredProtocolNECext (ucast a OR push_bit 8 (ucast ai)) (ucast c OR push_bit 8 (ucast ci)) d)"
proof -
  have b: "dec_data d ! 0 = ucast X" "dec_data d ! 1 = ucast (drop_bit 8 X)" "dec_data d ! 2 = ucast (drop_bit 16 X)"
    "dec_data d ! 3 = ucast (drop_bit 24 X)"
    using bytes_of_word [OF X, of 0] bytes_of_word [OF X, of 1] bytes_of_word [OF X, of 2] bytes_of_word [OF X, of 3]
    by simp_all
  have r: "rd (dec_data d) 0 = Some (ucast X)" "rd (dec_data d) 1 = Some (ucast (drop_bit 8 X))"
    "rd (dec_data d) 2 = Some (ucast (drop_bit 16 X))" "rd (dec_data d) 3 = Some (ucast (drop_bit 24 X))"
    using rd_long [OF assms(1)] b by simp_all
  show ?thesis
    unfolding infrared_decoder_nec_interpret_def
    by (simp only: assms(2) r if_True refl Option.bind.simps Let_def)
qed

lemma nec_interpret_42:
  assumes "6 \<le> length (dec_data d)" "databit_cnt d = 42" and X: "\<forall>k < 32. data_bit (dec_data d) k = bit (X :: u32) k"
    and Y: "\<forall>k < 10. data_bit (dec_data d) (32 + k) = bit (Y :: u32) k"
  shows "infrared_decoder_nec_interpret pd d =
    (let a = (ucast X AND mask 13 :: u16); ai = ucast (drop_bit 13 X) AND mask 13;
         c = ((ucast (drop_bit 26 X) AND mask 6) OR push_bit 6 (ucast Y AND mask 2) :: u16); ci = ucast (drop_bit 2 Y) AND mask 8
     in if a = NOT ai AND mask 13 \<and> c = NOT ci AND mask 8 then set_message InfraredProtocolNEC42 (ucast a) (ucast c) d
        else set_message InfraredProtocolNEC42ext (ucast a OR push_bit 13 (ucast ai)) (ucast c OR push_bit 8 (ucast ci)) d)"
proof -
  obtain x where x: "rd32 (dec_data d) 0 = Some x" "\<forall>k < 32. bit x k = data_bit (dec_data d) (8 * 0 + k)"
    using rd32_ok [of 0 "dec_data d"] assms(1) by auto
  obtain y where y: "rd16 (dec_data d) 4 = Some y" "\<forall>k < 16. bit y k = data_bit (dec_data d) (8 * 4 + k)"
    using rd16_ok [of 4 "dec_data d"] assms(1) by auto
  have "x = X" using x(2) X by (intro bit_word_eqI) simp
  have yY: "bit y k = bit Y k" if "k < 10" for k using y(2) Y that by simp
  have y1: "y AND mask 2 = ucast Y AND mask 2" and y2: "drop_bit 2 y AND mask 8 = ucast (drop_bit 2 Y) AND mask 8"
    by (rule bit_word_eqI; auto simp: bit_simps yY)+
  have u: "(ucast (X AND mask 13) :: u16) = ucast X AND mask 13"
    "(ucast (drop_bit 13 X AND mask 13) :: u16) = ucast (drop_bit 13 X) AND mask 13"
    "(ucast (drop_bit 26 X AND mask 6) :: u16) = ucast (drop_bit 26 X) AND mask 6"
    by (rule bit_word_eqI; auto simp: bit_simps)+
  show ?thesis
    unfolding infrared_decoder_nec_interpret_def
    by (simp only: assms(2) x(1) y(1) \<open>x = X\<close> masks y1 y2 u Option.bind.simps Let_def) simp
qed

lemma high_masks: "(0xC0 :: u32) = push_bit 6 (mask 2)" "(0xFFC0 :: u32) = push_bit 6 (mask 10)"
  by code_simp+

definition nec_word1 :: "InfraredMessage \<Rightarrow> u32" where
  "nec_word1 m =
     (case im_protocol m of
        InfraredProtocolNEC \<Rightarrow> ucast (ucast (im_address m) :: u8) OR push_bit 8 (ucast (NOT (ucast (im_address m) :: u8))) OR
          push_bit 16 (ucast (ucast (im_command m) :: u8)) OR push_bit 24 (ucast (NOT (ucast (im_command m) :: u8)))
      | InfraredProtocolNECext \<Rightarrow> ucast (ucast (im_address m) :: u16) OR push_bit 16 (im_command m AND mask 16)
      | InfraredProtocolNEC42 \<Rightarrow> im_address m AND mask 13 OR push_bit 13 (NOT (im_address m) AND mask 13) OR
          push_bit 26 (im_command m AND mask 6)
      | _ \<Rightarrow> im_address m AND mask 26 OR push_bit 26 (im_command m AND mask 6))"

definition nec_word2 :: "InfraredMessage \<Rightarrow> u32" where
  "nec_word2 m =
     (case im_protocol m of
        InfraredProtocolNEC42 \<Rightarrow> drop_bit 6 (im_command m AND push_bit 6 (mask 2)) OR push_bit 2 (NOT (im_command m) AND mask 8)
      | _ \<Rightarrow> drop_bit 6 (im_command m AND push_bit 6 (mask 10)))"

definition nec_length :: "InfraredMessage \<Rightarrow> nat" where
  "nec_length m = (if im_protocol m \<in> {InfraredProtocolNEC, InfraredProtocolNECext} then 32 else 42)"

abbreviation nec_protocols :: "InfraredProtocol set" where
  "nec_protocols \<equiv> {InfraredProtocolNEC, InfraredProtocolNECext, InfraredProtocolNEC42, InfraredProtocolNEC42ext}"

lemma nec_reset:
  assumes room: "8 \<le> length (enc_data e)" and m: "im_protocol m \<in> nec_protocols"
  shows "\<exists>e'. infrared_encoder_nec_reset e m = Some e' \<and> starts e' \<and> bits_to_encode e' = nec_length m \<and>
    length (enc_data e') = length (enc_data e) \<and> (\<forall>k < 32. data_bit (enc_data e') k = bit (nec_word1 m) k) \<and>
    (nec_length m = 42 \<longrightarrow> (\<forall>k < 10. data_bit (enc_data e') (32 + k) = bit (nec_word2 m) k))"
proof -
  let ?c = "replicate 6 0 @ drop 6 (enc_data e)"
  let ?e = "e\<lparr>timings_encoded := 0, timings_sum := 0, bits_encoded := 0,
    enc_state := InfraredCommonEncoderStateSilence, enc_switch_detect := False, enc_data := ?c\<rparr>"
  have r: "infrared_common_encoder_reset infrared_protocol_nec e = Some ?e"
    by (rule encoder_reset_ok [where n = 42 and b = 6]) (use room in \<open>simp_all add: infrared_protocol_nec_def\<close>)
  have len: "length ?c = length (enc_data e)" using room by simp
  obtain d1 where d1: "wr32 ?c 0 (nec_word1 m) = Some d1" "length d1 = length (enc_data e)"
    "\<forall>k < 32. data_bit d1 k = bit (nec_word1 m) k"
    using wr32_ok [of 0 ?c "nec_word1 m"] room len by auto
  obtain d2 where d2: "wr32 d1 4 (nec_word2 m) = Some d2" "length d2 = length (enc_data e)"
    "\<forall>k < 32. data_bit d2 k = bit (nec_word1 m) k" "\<forall>k < 10. data_bit d2 (32 + k) = bit (nec_word2 m) k"
    using wr32_ok [of 4 d1 "nec_word2 m"] room d1(2,3) by auto
  show ?thesis
  proof (cases "nec_length m = 32")
    case True
    with m have "infrared_encoder_nec_reset e m = Some (?e\<lparr>enc_data := d1, bits_to_encode := 32\<rparr>)"
      using d1(1) by (auto simp: infrared_encoder_nec_reset_def r nec_word1_def nec_length_def masks high_masks Let_def split: if_splits)
    with d1 True show ?thesis by (simp add: starts_def)
  next
    case False
    with m have "infrared_encoder_nec_reset e m = Some (?e\<lparr>enc_data := d2, bits_to_encode := 42\<rparr>)"
      using d1(1) d2(1)
      by (auto simp: infrared_encoder_nec_reset_def r nec_word1_def nec_word2_def nec_length_def masks high_masks Let_def split: if_splits)
    with d2 False show ?thesis by (simp add: starts_def nec_length_def split: if_splits)
  qed
qed

text \<open>Messages that the decoder gives back as they were: an extended message must not look like
  one with check bytes.\<close>

definition nec_plain :: "InfraredMessage \<Rightarrow> bool" where
  "nec_plain m \<longleftrightarrow> (case im_protocol m of
      InfraredProtocolNECext \<Rightarrow> \<not> ((ucast (im_command m) :: u8) = NOT (ucast (drop_bit 8 (im_command m))) \<and>
        (ucast (im_address m) :: u8) = NOT (ucast (drop_bit 8 (im_address m))))
    | InfraredProtocolNEC42ext \<Rightarrow> \<not> ((ucast (im_address m) AND mask 13 :: u16) = NOT (ucast (drop_bit 13 (im_address m))) AND mask 13 \<and>
        (ucast (im_command m) AND mask 8 :: u16) = NOT (ucast (drop_bit 8 (im_command m))) AND mask 8)
    | _ \<Rightarrow> True)"

lemma valid_mask:
  assumes "infrared_signal_is_message_valid m = Some True"
    and "infrared_get_variant_by_protocol (im_protocol m) = Some v"
  shows "im_address m = im_address m AND mask (unat (address_length v))"
    and "im_command m = im_command m AND mask (unat (command_length v))"
proof -
  have "infrared_get_protocol_address_length (im_protocol m) = Some (address_length v)"
    "infrared_get_protocol_command_length (im_protocol m) = Some (command_length v)"
    using assms(2) by (simp_all add: infrared_get_protocol_address_length_def infrared_get_protocol_command_length_def)
  with assms(1) show "im_address m = im_address m AND mask (unat (address_length v))"
    and "im_command m = im_command m AND mask (unat (command_length v))"
    by (simp_all add: infrared_signal_is_message_valid_def mask_eq_decr_exp Let_def split: if_splits)
qed

lemma nec_variants:
  "infrared_get_variant_by_protocol InfraredProtocolNEC = Some (common_variant ''NEC'' 8 8)"
  "infrared_get_variant_by_protocol InfraredProtocolNECext = Some (common_variant ''NECext'' 16 16)"
  "infrared_get_variant_by_protocol InfraredProtocolNEC42 = Some (common_variant ''NEC42'' 13 8)"
  "infrared_get_variant_by_protocol InfraredProtocolNEC42ext = Some (common_variant ''NEC42ext'' 26 16)"
  by (simp_all add: infrared_get_variant_by_protocol_def infrared_find_index_by_protocol_def infrared_encoder_decoder_def
    infrared_protocol_nec_get_variant_def upt_rec)

lemma nec_rows:
  "infrared_find_index_by_protocol InfraredProtocolNEC = Some 0" "infrared_find_index_by_protocol InfraredProtocolNECext = Some 0"
  "infrared_find_index_by_protocol InfraredProtocolNEC42 = Some 0" "infrared_find_index_by_protocol InfraredProtocolNEC42ext = Some 0"
  "infrared_get_protocol_min_repeat_count InfraredProtocolNEC = Some 1"
  "infrared_get_protocol_min_repeat_count InfraredProtocolNECext = Some 1"
  "infrared_get_protocol_min_repeat_count InfraredProtocolNEC42 = Some 1"
  "infrared_get_protocol_min_repeat_count InfraredProtocolNEC42ext = Some 1"
  by (simp_all add: infrared_get_protocol_min_repeat_count_def nec_variants common_variant_def)
    (simp_all add: infrared_find_index_by_protocol_def infrared_encoder_decoder_def infrared_protocol_nec_get_variant_def upt_rec)

lemma nec_understood:
  assumes m: "im_protocol m \<in> nec_protocols" "infrared_signal_is_message_valid m = Some True" "\<not> im_repeat m" "nec_plain m"
    and d: "6 \<le> length (dec_data d)" "databit_cnt d = nec_length m"
      "\<forall>k < 32. data_bit (dec_data d) k = bit (nec_word1 m) k"
      "nec_length m = 42 \<longrightarrow> (\<forall>k < 10. data_bit (dec_data d) (32 + k) = bit (nec_word2 m) k)"
  shows "infrared_decoder_nec_interpret pd d = Some (True, d\<lparr>message := m\<rparr>)"
proof -
  let ?a = "im_address m" and ?c = "im_command m"
  consider "im_protocol m = InfraredProtocolNEC" | "im_protocol m = InfraredProtocolNECext"
    | "im_protocol m = InfraredProtocolNEC42" | "im_protocol m = InfraredProtocolNEC42ext" using m(1) by auto
  then show ?thesis
  proof cases
    case 1
    note v = valid_mask [OF m(2), unfolded 1, OF nec_variants(1), unfolded common_variant_def, simplified]
    have w: "nec_word1 m = ucast (ucast ?a :: u8) OR push_bit 8 (ucast (NOT (ucast ?a :: u8))) OR
        push_bit 16 (ucast (ucast ?c :: u8)) OR push_bit 24 (ucast (NOT (ucast ?c :: u8)))"
      using 1 by (simp add: nec_word1_def)
    have b: "(ucast (nec_word1 m) :: u8) = ucast ?a" "(ucast (drop_bit 8 (nec_word1 m)) :: u8) = NOT (ucast ?a)"
      "(ucast (drop_bit 16 (nec_word1 m)) :: u8) = ucast ?c" "(ucast (drop_bit 24 (nec_word1 m)) :: u8) = NOT (ucast ?c)"
      unfolding w by (rule bit_word_eqI; auto simp: bit_simps)+
    have u: "ucast (ucast ?a :: u8) = ?a" "ucast (ucast ?c :: u8) = ?c"
      by (subst (2) v(1), rule bit_word_eqI, auto simp: bit_simps) (subst (2) v(2), rule bit_word_eqI, auto simp: bit_simps)
    show ?thesis
      using nec_interpret_32 [OF d(1) _ d(3)] d(2) 1 m(3) by (simp add: nec_length_def b u Let_def)
  next
    case 2
    note v = valid_mask [OF m(2), unfolded 2, OF nec_variants(2), unfolded common_variant_def, simplified]
    have w: "nec_word1 m = ucast (ucast ?a :: u16) OR push_bit 16 (?c AND mask 16)"
      using 2 by (simp add: nec_word1_def)
    have b: "(ucast (nec_word1 m) :: u8) = ucast ?a" "(ucast (drop_bit 8 (nec_word1 m)) :: u8) = ucast (drop_bit 8 ?a)"
      "(ucast (drop_bit 16 (nec_word1 m)) :: u8) = ucast ?c" "(ucast (drop_bit 24 (nec_word1 m)) :: u8) = ucast (drop_bit 8 ?c)"
      unfolding w by (rule bit_word_eqI; auto simp: bit_simps)+
    have u: "ucast (ucast ?a :: u8) OR push_bit 8 (ucast (ucast (drop_bit 8 ?a) :: u8)) = ?a"
      "ucast (ucast ?c :: u8) OR push_bit 8 (ucast (ucast (drop_bit 8 ?c) :: u8)) = ?c"
      by (subst (3) v(1), rule bit_word_eqI, auto simp: bit_simps) (subst (3) v(2), rule bit_word_eqI, auto simp: bit_simps)
    show ?thesis
      using nec_interpret_32 [OF d(1) _ d(3)] d(2) 2 m(3,4) by (auto simp: nec_length_def b u nec_plain_def Let_def)
  next
    case 3
    note v = valid_mask [OF m(2), unfolded 3, OF nec_variants(3), unfolded common_variant_def, simplified]
    have w: "nec_word1 m = ?a AND mask 13 OR push_bit 13 (NOT ?a AND mask 13) OR push_bit 26 (?c AND mask 6)"
      and w2: "nec_word2 m = drop_bit 6 (?c AND push_bit 6 (mask 2)) OR push_bit 2 (NOT ?c AND mask 8)"
      using 3 by (simp_all add: nec_word1_def nec_word2_def)
    have b: "(ucast (nec_word1 m) AND mask 13 :: u16) = ucast ?a AND mask 13"
      "(ucast (drop_bit 13 (nec_word1 m)) AND mask 13 :: u16) = NOT (ucast ?a) AND mask 13"
      "(ucast (drop_bit 26 (nec_word1 m)) AND mask 6 OR push_bit 6 (ucast (nec_word2 m) AND mask 2) :: u16) = ucast ?c AND mask 8"
      "(ucast (drop_bit 2 (nec_word2 m)) AND mask 8 :: u16) = NOT (ucast ?c) AND mask 8"
      unfolding w w2 by (rule bit_word_eqI; auto simp: bit_simps)+
    have u: "ucast (ucast ?a AND mask 13 :: u16) = ?a" "ucast (ucast ?c AND mask 8 :: u16) = ?c"
      by (subst (2) v(1), rule bit_word_eqI, auto simp: bit_simps) (subst (2) v(2), rule bit_word_eqI, auto simp: bit_simps)
    have n: "(x :: u16) AND mask k = NOT (NOT x AND mask k) AND mask k" for x k
      by (rule bit_word_eqI) (auto simp: bit_simps)
    have l: "databit_cnt d = 42" "\<forall>k < 10. data_bit (dec_data d) (32 + k) = bit (nec_word2 m) k"
      using d(2,4) 3 by (simp_all add: nec_length_def)
    show ?thesis
      unfolding nec_interpret_42 [OF d(1) l(1) d(3) l(2)] Let_def b u
      using 3 m(3) n [of "ucast ?a" 13] n [of "ucast ?c" 8] by simp
  next
    case 4
    note v = valid_mask [OF m(2), unfolded 4, OF nec_variants(4), unfolded common_variant_def, simplified]
    have w: "nec_word1 m = ?a AND mask 26 OR push_bit 26 (?c AND mask 6)"
      and w2: "nec_word2 m = drop_bit 6 (?c AND push_bit 6 (mask 10))"
      using 4 by (simp_all add: nec_word1_def nec_word2_def)
    have b: "(ucast (nec_word1 m) AND mask 13 :: u16) = ucast ?a AND mask 13"
      "(ucast (drop_bit 13 (nec_word1 m)) AND mask 13 :: u16) = ucast (drop_bit 13 ?a) AND mask 13"
      "(ucast (drop_bit 26 (nec_word1 m)) AND mask 6 OR push_bit 6 (ucast (nec_word2 m) AND mask 2) :: u16) = ucast ?c AND mask 8"
      "(ucast (drop_bit 2 (nec_word2 m)) AND mask 8 :: u16) = ucast (drop_bit 8 ?c) AND mask 8"
      unfolding w w2 by (rule bit_word_eqI; auto simp: bit_simps)+
    have u: "ucast (ucast ?a AND mask 13 :: u16) OR push_bit 13 (ucast (ucast (drop_bit 13 ?a) AND mask 13 :: u16)) = ?a"
      "ucast (ucast ?c AND mask 8 :: u16) OR push_bit 8 (ucast (ucast (drop_bit 8 ?c) AND mask 8 :: u16)) = ?c"
      by (subst (3) v(1), rule bit_word_eqI, auto simp: bit_simps) (subst (3) v(2), rule bit_word_eqI, auto simp: bit_simps)
    have n: "NOT ((x :: u16) AND mask k) AND mask k = NOT x AND mask k" for x k
      by (rule bit_word_eqI) (auto simp: bit_simps)
    have l: "databit_cnt d = 42" "\<forall>k < 10. data_bit (dec_data d) (32 + k) = bit (nec_word2 m) k"
      using d(2,4) 4 by (simp_all add: nec_length_def)
    show ?thesis
      unfolding nec_interpret_42 [OF d(1) l(1) d(3) l(2)] Let_def b u n
      using 4 m(3,4) by (auto simp: nec_plain_def)
  qed
qed

text \<open>The number of one bits decides how long the message lasts.\<close>

lemma count_add:
  "length (filter f [0..<a + b]) = length (filter f [0..<a]) + length (filter (\<lambda>k. f (a + k)) [0..<b])"
proof -
  have "[0..<a + b] = [0..<a] @ map (\<lambda>k. a + k) [0..<b]"
    by (rule nth_equalityI) (auto simp: nth_append)
  then show ?thesis by (simp add: filter_map o_def)
qed

lemma count_compl: "length (filter P [0..<n]) + length (filter (\<lambda>k. \<not> P k) [0..<n]) = n"
  using sum_length_filter_compl [of P "[0..<n]"] by simp

lemma count_cong: "(\<And>k. k < n \<Longrightarrow> f k = g k) \<Longrightarrow> length (filter f [0..<n]) = length (filter g [0..<n])"
  by (intro arg_cong [of _ _ length] filter_cong) auto

lemma ones_lsb_bits: "length (filter id (lsb_bits data n)) = length (filter (data_bit data) [0..<n])"
  by (simp add: lsb_bits_def filter_map o_def data_bit_def [abs_def] id_def)

lemma nec_ones:
  assumes m: "im_protocol m \<in> nec_protocols" "infrared_signal_is_message_valid m = Some True"
    and data: "\<forall>k < 32. data_bit data k = bit (nec_word1 m) k"
      "nec_length m = 42 \<longrightarrow> (\<forall>k < 10. data_bit data (32 + k) = bit (nec_word2 m) k)"
    and ext: "im_protocol m = InfraredProtocolNEC42ext \<Longrightarrow> pop_count (im_address m) + pop_count (im_command m) < 40"
  shows "14060 + 1120 * nec_length m + 1130 * length (filter id (lsb_bits data (nec_length m))) < 106000"
proof -
  let ?a = "im_address m" and ?c = "im_command m"
  have bits: "data_bit data k = (if k < 32 then bit (nec_word1 m) k else bit (nec_word2 m) (k - 32))"
    if "nec_length m = 42" "k < 42" for k
  proof (cases "k < 32")
    case False
    define j where "j = k - 32"
    with False that(2) have "k = 32 + j" "j < 10" by auto
    with data(2) that(1) show ?thesis by simp
  qed (use data(1) in simp)
  consider "nec_length m = 32" | "im_protocol m = InfraredProtocolNEC42" | "im_protocol m = InfraredProtocolNEC42ext"
    using m(1) by (auto simp: nec_length_def)
  then show ?thesis
  proof cases
    case 1
    then show ?thesis using length_filter_le [of id "lsb_bits data 32"] by simp
  next
    case 2
    then have n: "nec_length m = 42" by (simp add: nec_length_def)
    have w: "nec_word1 m = ?a AND mask 13 OR push_bit 13 (NOT ?a AND mask 13) OR push_bit 26 (?c AND mask 6)"
      and w2: "nec_word2 m = drop_bit 6 (?c AND push_bit 6 (mask 2)) OR push_bit 2 (NOT ?c AND mask 8)"
      using 2 by (simp_all add: nec_word1_def nec_word2_def)
    have "length (filter (data_bit data) [0..<13 + (13 + (8 + 8))]) =
        length (filter (bit ?a) [0..<13]) + (length (filter (\<lambda>k. \<not> bit ?a k) [0..<13]) +
        (length (filter (bit ?c) [0..<8]) + length (filter (\<lambda>k. \<not> bit ?c k) [0..<8])))"
      unfolding count_add
      by (intro arg_cong2 [where f = "(+)"] count_cong; simp add: bits [OF n] w w2; auto simp: bit_simps)
    also have "\<dots> = 21" using count_compl [of "bit ?a" 13] count_compl [of "bit ?c" 8] by arith
    finally show ?thesis by (simp add: n ones_lsb_bits)
  next
    case 3
    then have n: "nec_length m = 42" by (simp add: nec_length_def)
    have w: "nec_word1 m = ?a AND mask 26 OR push_bit 26 (?c AND mask 6)"
      and w2: "nec_word2 m = drop_bit 6 (?c AND push_bit 6 (mask 10))"
      using 3 by (simp_all add: nec_word1_def nec_word2_def)
    have "length (filter (data_bit data) [0..<26 + 16]) = length (filter (bit ?a) [0..<26]) + length (filter (bit ?c) [0..<16])"
      unfolding count_add
      by (intro arg_cong2 [where f = "(+)"] count_cong; simp add: bits [OF n] w w2; auto simp: bit_simps)
    also have "\<dots> \<le> pop_count ?a + pop_count ?c"
      unfolding pop_count_def using count_add [of "bit ?a" 26 6] count_add [of "bit ?c" 16 16] by simp
    finally show ?thesis using ext [OF 3] by (simp add: n ones_lsb_bits)
  qed
qed

lemma alloc_waits:
  "need \<le> data_bytes p + pad \<Longrightarrow> waits (infrared_common_decoder_alloc p pad) need True"
  by (simp add: infrared_common_decoder_alloc_def waits_def)

text \<open>C9: A valid message of NEC, NECext, NEC42 or NEC42ext that is sent \<open>n\<close> times is heard by a fresh NEC decoder as
  the message and \<open>n - 1\<close> repeats, whatever pause longer than the minimum follows (for \<open>n\<close> up to \<open>2 ^ 28\<close>, an encoder
  buffer of at least 8 bytes and enough fuel for the pulses), with two exceptions. An extended
  message whose address and command each consist of two complementary halves has the frame of a message of the plain variant, and is heard
  as that one (\<open>nec_plain\<close> excludes it). A NEC42ext message that is sent more than once needs fewer than 40 one bits:
  with more, the pause before the repeat frame is too short for the decoder to see the end of the message.\<close>

theorem nec_transmission:
  fixes m :: InfraredMessage
  assumes m: "im_protocol m \<in> nec_protocols" "infrared_signal_is_message_valid m = Some True" "\<not> im_repeat m" "nec_plain m"
    and room: "8 \<le> room" and n: "0 < n" "n \<le> 2 ^ 28" and fuel: "100 + 4 * n \<le> fuel" and gap: "4000 < gap"
    and sparse: "im_protocol m = InfraredProtocolNEC42ext \<Longrightarrow> 1 < n \<Longrightarrow> pop_count (im_address m) + pop_count (im_command m) < 40"
  shows "\<exists>ps d. infrared_send fuel room m n = Some ps \<and>
    hear infrared_decoder_nec_decode (infrared_common_decoder_alloc infrared_protocol_nec pad) (ps @ [(False, gap)]) =
      Some (m # replicate (n - 1) (m\<lparr>im_repeat := True\<rparr>), d)"
proof -
  let ?e = "infrared_common_encoder_alloc infrared_protocol_nec room"
  obtain k where k: "n = Suc k" using n(1) by (cases n) auto
  obtain e where e: "infrared_encoder_nec_reset ?e m = Some e" "starts e" "bits_to_encode e = nec_length m"
    "length (enc_data e) = room" "\<forall>k < 32. data_bit (enc_data e) k = bit (nec_word1 m) k"
    "nec_length m = 42 \<longrightarrow> (\<forall>k < 10. data_bit (enc_data e) (32 + k) = bit (nec_word2 m) k)"
    using nec_reset [of ?e m] m(1) room by (auto simp: infrared_common_encoder_alloc_def)
  have len: "nec_length m = 32 \<or> nec_length m = 42" by (simp add: nec_length_def)
  have interp: "infrared_decoder_nec_interpret pd d = Some (True, d\<lparr>message := m\<rparr>)"
    if "6 \<le> length (dec_data d)" "holds (dec_data d) (lsb_bits (enc_data e) (nec_length m))" "databit_cnt d = nec_length m"
    for pd d
    by (rule nec_understood [OF m that(1,3)]) (use e(5,6) len holds_data_bit [OF that(2)] in auto)
  have sum: "14060 + 1120 * length (lsb_bits (enc_data e) (nec_length m)) +
      1130 * length (filter id (lsb_bits (enc_data e) (nec_length m))) < 106000" if "k \<noteq> 0"
    unfolding length_lsb_bits by (rule nec_ones [OF m(1,2) e(5,6)]) (use sparse that k in auto)
  have lt: "nec_length m < 8 * length (enc_data e)" and small: "k < 2 ^ 28" using e(4) room len n(2) k by auto
  have fresh: "waits (infrared_common_decoder_alloc infrared_protocol_nec pad) 6 True" by (rule alloc_waits) simp
  have idx: "infrared_find_index_by_protocol (im_protocol m) = Some 0" "infrared_get_protocol_min_repeat_count (im_protocol m) = Some 1"
    using m(1) by (elim insertE emptyE; simp add: nec_rows)+
  have "\<exists>ps e'. transmit_times 100 (Suc k) infrared_encoder_nec_encode e = Some (ps, e') \<and> length ps \<le> 100 + 4 * k \<and>
    (\<exists>d'. hear (infrared_common_decode infrared_protocol_nec)
       (infrared_common_decoder_alloc infrared_protocol_nec pad) (ps @ [(False, gap)]) =
       Some (m # replicate k (m\<lparr>im_repeat := True\<rparr>), d'))"
  proof (rule nec_session [OF e(2,3) lt len _ _ _ small gap fresh])
    show "infrared_decoder_nec_interpret pd d = Some (True, d\<lparr>message := m\<rparr>)"
      if "6 \<le> length (dec_data d)" "holds (dec_data d) (lsb_bits (enc_data e) (nec_length m))" "databit_cnt d = nec_length m"
      for pd d by (rule interp [OF that])
    show "4000 < 110000 - line_time (distance_body (timings infrared_protocol_nec) (lsb_bits (enc_data e) (nec_length m)))"
      "110000 - line_time (distance_body (timings infrared_protocol_nec) (lsb_bits (enc_data e) (nec_length m))) < 150000"
      if "k \<noteq> 0" by (rule nec_pause [OF sum [OF that]])+
  qed
  then obtain ps e' d' where ps: "transmit_times 100 (Suc k) infrared_encoder_nec_encode e = Some (ps, e')" "length ps \<le> 100 + 4 * k"
    and h: "hear (infrared_common_decode infrared_protocol_nec)
        (infrared_common_decoder_alloc infrared_protocol_nec pad) (ps @ [(False, gap)]) =
        Some (m # replicate k (m\<lparr>im_repeat := True\<rparr>), d')"
    by (elim exE conjE)
  have "infrared_send fuel room m n = Some ps"
    by (rule infrared_send_transmits [OF idx, where k = k and e = e and e' = e' and fuel' = 100])
      (use e(1) ps fuel k in \<open>simp_all add: infrared_encoder_decoder_def\<close>)
  with h k show ?thesis by (auto simp: infrared_decoder_nec_decode_def)
qed

lemma nec_example_valid:
  "infrared_signal_is_message_valid \<lparr>im_protocol = InfraredProtocolNEC, im_address = 4, im_command = 8, im_repeat = False\<rparr> = Some True"
  by (simp add: infrared_signal_is_message_valid_def infrared_is_protocol_valid_def infrared_get_protocol_address_length_def
    infrared_get_protocol_command_length_def nec_variants nec_rows common_variant_def)

theorem nec_transmission_witness:
  "\<exists>ps d. infrared_send 108 42 \<lparr>im_protocol = InfraredProtocolNEC, im_address = 4, im_command = 8, im_repeat = False\<rparr> 2 = Some ps \<and>
    hear infrared_decoder_nec_decode (infrared_common_decoder_alloc infrared_protocol_nec 0) (ps @ [(False, 40000)]) =
      Some (\<lparr>im_protocol = InfraredProtocolNEC, im_address = 4, im_command = 8, im_repeat = False\<rparr> #
        replicate 1 \<lparr>im_protocol = InfraredProtocolNEC, im_address = 4, im_command = 8, im_repeat = True\<rparr>, d)"
  using nec_transmission [of "\<lparr>im_protocol = InfraredProtocolNEC, im_address = 4, im_command = 8, im_repeat = False\<rparr>"
    42 2 108 40000 0] nec_example_valid
  by (simp add: nec_plain_def One_nat_def)

end
