(* ===== verification/Infrared_Transmission.thy ===== *)
theory Infrared_Transmission
  imports Infrared_Nec
begin

text \<open>
  Messages of RCA, Kaseikyo and Samsung32 over the line: the first two protocols send a message again
  in full, Samsung32 sends repeat frames.
\<close>

subsection \<open>Protocols without repeat frames\<close>

context pulse_distance begin

lemma plain_hear:
  assumes plain: "decode_repeat_fn p = None" and known: "known_length p (length bits)" "length bits \<le> max_length p"
    and interp: "\<And>e. need \<le> length (dec_data e) \<Longrightarrow> holds (dec_data e) bits \<Longrightarrow> databit_cnt e = length bits \<Longrightarrow>
      interpret_fn p (pdata p) e = Some (True, e\<lparr>message := m\<rparr>)"
    and sil: "min_split_time (timings p) < t" and gap: "min_split_time (timings p) < gap"
    and d: "receives d need True bits"
  shows "\<exists>d'. hear (infrared_common_decode p) d (concat (replicate k ((False, t) # distance_body (timings p) bits)) @ [(False, gap)]) =
    Some (replicate (Suc k) m, d')"
  using d
proof (induction k arbitrary: d)
  case 0
  obtain d1 where "infrared_common_decode p d False gap = Some (Some m, d1)"
    using hear_end_plain [OF 0 gap known(1) interp plain] by blast
  then show ?case by simp
next
  case (Suc k)
  obtain d1 where d1: "infrared_common_decode p d False t = Some (Some m, d1)" "waits d1 need False"
    using hear_end_plain [OF Suc.prems sil known(1) interp plain] by blast
  obtain d2 where d2: "hear (infrared_common_decode p) d1 (distance_body (timings p) bits) = Some ([], d2)" "receives d2 need True bits"
    using hear_body [OF d1(2) known(2)] by blast
  obtain d3 where d3: "hear (infrared_common_decode p) d2
      (concat (replicate k ((False, t) # distance_body (timings p) bits)) @ [(False, gap)]) = Some (replicate (Suc k) m, d3)"
    using Suc.IH [OF d2(2)] by blast
  from hear_message [OF d1(1) hear_cat [OF d2(1) d3]] show ?case by simp
qed

lemma plain_send:
  assumes plain: "encode_repeat_fn p = None"
    and e: "starts e" "bits_to_encode e = n" "n < 8 * length (enc_data e)" "4 + 2 * n \<le> fuel"
  shows "\<exists>e'. transmit_times fuel k (infrared_common_encode p) e =
    Some (concat (replicate k ((False, silence_time (timings p)) # distance_body (timings p) (lsb_bits (enc_data e) n))), e')"
  using e(1-3)
proof (induction k arbitrary: e)
  case (Suc k)
  let ?e = "e\<lparr>timings_encoded := 0, timings_sum := 0, bits_encoded := 0, enc_switch_detect := False,
    enc_state := InfraredCommonEncoderStateSilence\<rparr>"
  have "transmit fuel (infrared_common_encode p) e =
      Some ((False, silence_time (timings p)) # distance_body (timings p) (lsb_bits (enc_data e) n), ?e)"
    using send_message [of e n fuel] Suc.prems e(4) plain by (simp add: starts_def)
  moreover obtain e' where "transmit_times fuel k (infrared_common_encode p) ?e =
    Some (concat (replicate k ((False, silence_time (timings p)) # distance_body (timings p) (lsb_bits (enc_data ?e) n))), e')"
    using Suc.IH [of ?e] Suc.prems by (auto simp: starts_def)
  ultimately show ?case by simp
qed simp

lemma plain_session:
  assumes plain: "encode_repeat_fn p = None" "decode_repeat_fn p = None"
    and e: "starts e" "bits_to_encode e = n" "n < 8 * length (enc_data e)" "4 + 2 * n \<le> fuel"
    and known: "known_length p n" "n \<le> max_length p"
    and interp: "\<And>d. need \<le> length (dec_data d) \<Longrightarrow> holds (dec_data d) (lsb_bits (enc_data e) n) \<Longrightarrow> databit_cnt d = n \<Longrightarrow>
      interpret_fn p (pdata p) d = Some (True, d\<lparr>message := m\<rparr>)"
    and sil: "min_split_time (timings p) < silence_time (timings p)" and gap: "min_split_time (timings p) < gap"
    and d: "waits d need l"
  shows "\<exists>ps e' d'. transmit_times fuel (Suc k) (infrared_common_encode p) e = Some (ps, e') \<and> length ps = Suc k * (4 + 2 * n) \<and>
    hear (infrared_common_decode p) d (ps @ [(False, gap)]) = Some (replicate (Suc k) m, d')"
proof -
  let ?b = "distance_body (timings p) (lsb_bits (enc_data e) n)" and ?s = "silence_time (timings p)"
  obtain e' where e': "transmit_times fuel (Suc k) (infrared_common_encode p) e =
      Some (concat (replicate (Suc k) ((False, ?s) # ?b)), e')"
    using plain_send [OF plain(1) e] by blast
  obtain d1 where d1: "infrared_common_decode p d False ?s = Some (None, d1)" "waits d1 need False"
    using hear_waiting_space [OF d] by blast
  obtain d2 where d2: "hear (infrared_common_decode p) d1 ?b = Some ([], d2)" "receives d2 need True (lsb_bits (enc_data e) n)"
    using hear_body [OF d1(2), of "lsb_bits (enc_data e) n"] known(2) by auto
  obtain d3 where d3: "hear (infrared_common_decode p) d2 (concat (replicate k ((False, ?s) # ?b)) @ [(False, gap)]) =
      Some (replicate (Suc k) m, d3)"
    using plain_hear [OF plain(2) _ _ _ sil gap d2(2), of m k] known interp by auto
  have "length ?b = 3 + 2 * n"
    by (simp add: distance_body_def length_concat o_def distance_bit_def sum_list_triv)
  then have len: "length (concat (replicate (Suc k) ((False, ?s) # ?b))) = Suc k * (4 + 2 * n)"
    by (simp add: length_concat sum_list_replicate algebra_simps)
  from hear_silent [OF d1(1) hear_cat [OF d2(1) d3]] e' len show ?thesis by auto
qed

end

subsection \<open>RCA\<close>

definition rca_word :: "InfraredMessage \<Rightarrow> u32" where
  "rca_word m = ucast ((ucast (im_address m) :: u8) AND mask 4) OR push_bit 4 (ucast (ucast (im_command m) :: u8)) OR
     push_bit 12 (ucast (NOT (ucast (im_address m) :: u8) AND mask 4)) OR push_bit 16 (ucast (NOT (ucast (im_command m) :: u8)))"

lemma mask_4: "(0xF :: 'a::len word) = mask 4"
  by (simp add: mask_eq_exp_minus_1)

lemma rca_reset:
  assumes room: "4 \<le> length (enc_data e)"
  shows "\<exists>e'. infrared_encoder_rca_reset e m = Some e' \<and> starts e' \<and> bits_to_encode e' = 24 \<and>
    length (enc_data e') = length (enc_data e) \<and> (\<forall>k < 32. data_bit (enc_data e') k = bit (rca_word m) k)"
proof -
  let ?c = "replicate 3 0 @ drop 3 (enc_data e)"
  have r: "infrared_common_encoder_reset infrared_protocol_rca e = Some (e\<lparr>timings_encoded := 0, timings_sum := 0, bits_encoded := 0,
    enc_state := InfraredCommonEncoderStateSilence, enc_switch_detect := False, enc_data := ?c\<rparr>)"
    by (rule encoder_reset_ok [where n = 24 and b = 3]) (use room in \<open>simp_all add: infrared_protocol_rca_def\<close>)
  have len: "length ?c = length (enc_data e)" using room by simp
  obtain d1 where "wr32 ?c 0 (rca_word m) = Some d1" "length d1 = length (enc_data e)"
    "\<forall>k < 32. data_bit d1 k = bit (rca_word m) k"
    using wr32_ok [of 0 ?c "rca_word m"] room len by auto
  then show ?thesis by (simp add: infrared_encoder_rca_reset_def r rca_word_def mask_4 starts_def Let_def)
qed

lemma rca_understood:
  assumes m: "im_protocol m = InfraredProtocolRCA" "im_address m = im_address m AND mask 4" "im_command m = im_command m AND mask 8"
    "\<not> im_repeat m"
    and d: "4 \<le> length (dec_data d)" "\<forall>k < 24. data_bit (dec_data d) k = bit (rca_word m) k"
  shows "infrared_decoder_rca_interpret pd d = Some (True, d\<lparr>message := m\<rparr>)"
proof -
  let ?a = "im_address m" and ?c = "im_command m"
  obtain x where x: "rd32 (dec_data d) 0 = Some x" "\<forall>k < 32. bit x k = data_bit (dec_data d) (8 * 0 + k)"
    using rd32_ok [of 0 "dec_data d"] d(1) by auto
  have xb: "bit x k = bit (rca_word m) k" if "k < 24" for k using x(2) d(2) that by simp
  have b: "(ucast (x AND mask 4) :: u8) = ucast ?a AND mask 4" "(ucast (drop_bit 4 x AND mask 8) :: u8) = ucast ?c"
    "(ucast (drop_bit 12 x AND mask 4) :: u8) = NOT (ucast ?a) AND mask 4" "(ucast (drop_bit 16 x AND mask 8) :: u8) = NOT (ucast ?c)"
    by (rule bit_word_eqI; auto simp: bit_simps xb rca_word_def)+
  have u: "ucast (ucast ?a AND mask 4 :: u8) = ?a" "ucast (ucast ?c :: u8) = ?c"
    by (subst (2) m(2), rule bit_word_eqI, auto simp: bit_simps) (subst (2) m(3), rule bit_word_eqI, auto simp: bit_simps)
  have n: "NOT (NOT (y :: u8) AND mask k) AND mask k = y AND mask k" for y k
    by (rule bit_word_eqI) (auto simp: bit_simps)
  have s: "set_message InfraredProtocolRCA ?a ?c d = Some (True, d\<lparr>message := m\<rparr>)" using m(1,4) by simp
  show ?thesis
    unfolding infrared_decoder_rca_interpret_def mask_4 masks Let_def
    by (simp only: x(1) Option.bind.simps b u s n bit.double_compl simp_thms if_True)
qed

lemma protocol_rows:
  "infrared_find_index_by_protocol InfraredProtocolSamsung32 = Some 1"
  "infrared_find_index_by_protocol InfraredProtocolRCA = Some 7"
  "infrared_find_index_by_protocol InfraredProtocolKaseikyo = Some 6"
  "infrared_get_variant_by_protocol InfraredProtocolSamsung32 = Some (common_variant ''Samsung32'' 8 8)"
  "infrared_get_variant_by_protocol InfraredProtocolRCA = Some (common_variant ''RCA'' 4 8)"
  "infrared_get_variant_by_protocol InfraredProtocolKaseikyo = Some (common_variant ''Kaseikyo'' 26 10)"
  by (simp_all add: infrared_get_variant_by_protocol_def infrared_find_index_by_protocol_def infrared_encoder_decoder_def
    infrared_protocol_nec_get_variant_def infrared_protocol_samsung32_get_variant_def infrared_protocol_rc5_get_variant_def
    infrared_protocol_rc6_get_variant_def infrared_protocol_sirc_get_variant_def infrared_protocol_pioneer_get_variant_def
    infrared_protocol_kaseikyo_get_variant_def infrared_protocol_rca_get_variant_def upt_rec One_nat_def)

lemma rows:
  "infrared_encoder_decoder ! 1 = \<lparr>row_spec = infrared_protocol_samsung32, row_encode = infrared_encoder_samsung32_encode,
     row_reset = infrared_encoder_samsung32_reset, row_variant = infrared_protocol_samsung32_get_variant\<rparr>"
  "infrared_encoder_decoder ! 6 = \<lparr>row_spec = infrared_protocol_kaseikyo, row_encode = infrared_encoder_kaseikyo_encode,
     row_reset = infrared_encoder_kaseikyo_reset, row_variant = infrared_protocol_kaseikyo_get_variant\<rparr>"
  "infrared_encoder_decoder ! 7 = \<lparr>row_spec = infrared_protocol_rca, row_encode = infrared_encoder_rca_encode,
     row_reset = infrared_encoder_rca_reset, row_variant = infrared_protocol_rca_get_variant\<rparr>"
  by (simp_all add: infrared_encoder_decoder_def)

lemma min_repeats:
  "infrared_get_variant_by_protocol q = Some (common_variant s a c) \<Longrightarrow> infrared_get_protocol_min_repeat_count q = Some 1"
  by (simp add: infrared_get_protocol_min_repeat_count_def common_variant_def)

text \<open>A valid RCA message that is sent \<open>n\<close> times is heard by a fresh RCA decoder exactly \<open>n\<close> times,
  as it was.\<close>

theorem rca_transmission:
  fixes m :: InfraredMessage
  assumes m: "im_protocol m = InfraredProtocolRCA" "infrared_signal_is_message_valid m = Some True" "\<not> im_repeat m"
    and room: "4 \<le> room" and pad: "1 \<le> pad" and n: "0 < n" and fuel: "52 * n \<le> fuel" and gap: "4000 < gap"
  shows "\<exists>ps d. infrared_send fuel room m n = Some ps \<and>
    hear infrared_decoder_rca_decode (infrared_common_decoder_alloc infrared_protocol_rca pad) (ps @ [(False, gap)]) =
      Some (replicate n m, d)"
proof -
  let ?e = "infrared_common_encoder_alloc infrared_protocol_rca room" and ?p = infrared_protocol_rca
  obtain k where k: "n = Suc k" using n by (cases n) auto
  obtain e where e: "infrared_encoder_rca_reset ?e m = Some e" "starts e" "bits_to_encode e = 24"
    "length (enc_data e) = room" "\<forall>k < 32. data_bit (enc_data e) k = bit (rca_word m) k"
    using rca_reset [of ?e m] room by (auto simp: infrared_common_encoder_alloc_def)
  note v = valid_mask [OF m(2), unfolded m(1), OF protocol_rows(5), unfolded common_variant_def, simplified]
  have interp: "interpret_fn ?p (pdata ?p) d = Some (True, d\<lparr>message := m\<rparr>)"
    if "4 \<le> length (dec_data d)" "holds (dec_data d) (lsb_bits (enc_data e) 24)" "databit_cnt d = 24" for d
    by (simp, rule rca_understood [OF m(1) v m(3) that(1)]) (use e(5) holds_data_bit [OF that(2)] in auto)
  have fresh: "waits (infrared_common_decoder_alloc ?p pad) 4 True" by (rule alloc_waits) (use pad in simp)
  have "\<exists>ps e' d'. transmit_times 100 (Suc k) (infrared_common_encode ?p) e = Some (ps, e') \<and> length ps = Suc k * (4 + 2 * 24) \<and>
    hear (infrared_common_decode ?p) (infrared_common_decoder_alloc ?p pad) (ps @ [(False, gap)]) = Some (replicate (Suc k) m, d')"
    by (rule rca_line.plain_session [OF _ _ e(2,3) _ _ _ _ interp _ _ fresh]) (use e(4) room gap in simp_all)
  then obtain ps e' d' where ps: "transmit_times 100 (Suc k) (infrared_common_encode ?p) e = Some (ps, e')" "length ps = n * 52"
    "hear (infrared_common_decode ?p) (infrared_common_decoder_alloc ?p pad) (ps @ [(False, gap)]) = Some (replicate n m, d')"
    unfolding k by auto
  have "infrared_send fuel room m n = Some ps"
    by (rule infrared_send_transmits [OF protocol_rows(2) [folded m(1)], where k = k and e = e and e' = e' and fuel' = 100 and r = 1])
      (use e(1) ps fuel k min_repeats [OF protocol_rows(5)] m(1) in \<open>simp_all add: rows infrared_encoder_rca_encode_def\<close>)
  with ps(3) show ?thesis by (auto simp: infrared_decoder_rca_decode_def)
qed

subsection \<open>Kaseikyo\<close>

definition kaseikyo_bytes :: "InfraredMessage \<Rightarrow> bytes" where
  "kaseikyo_bytes m =
     (let a = im_address m; c = im_command m;
          d0 = ucast (drop_bit 8 a) :: u8; d1 = ucast (drop_bit 16 a);
          d2 = (((d0 XOR d1) AND mask 4) XOR drop_bit 4 (d0 XOR d1)) OR push_bit 4 (ucast (drop_bit 4 a) AND mask 4);
          d3 = (ucast a AND mask 4) OR push_bit 4 (ucast c AND mask 4);
          d4 = push_bit 6 (ucast (drop_bit 24 a) AND mask 2) OR ucast (take_bit 16 (drop_bit 4 (take_bit 16 c)))
      in [d0, d1, d2, d3, d4, d2 XOR d3 XOR d4])"

lemma six_writes:
  assumes "6 \<le> length c"
  shows "do { data \<leftarrow> wr c 0 a0; data \<leftarrow> wr data 1 a1; data \<leftarrow> wr data 2 a2; data \<leftarrow> wr data 3 a3;
    data \<leftarrow> wr data 4 a4; data \<leftarrow> wr data 5 a5; f data } = f ([a0, a1, a2, a3, a4, a5] @ drop 6 c)"
proof -
  have "c[0 := a0, 1 := a1, 2 := a2, 3 := a3, 4 := a4, 5 := a5] = [a0, a1, a2, a3, a4, a5] @ drop 6 c"
  proof (rule nth_equalityI)
    fix i assume i: "i < length (c[0 := a0, 1 := a1, 2 := a2, 3 := a3, 4 := a4, 5 := a5])"
    consider "i = 0" | "i = 1" | "i = 2" | "i = 3" | "i = 4" | "i = 5" | "6 \<le> i" by arith
    then show "c[0 := a0, 1 := a1, 2 := a2, 3 := a3, 4 := a4, 5 := a5] ! i = ([a0, a1, a2, a3, a4, a5] @ drop 6 c) ! i"
      by cases (use assms i in \<open>auto simp: nth_append\<close>)
  qed (use assms in simp)
  moreover have "do { data \<leftarrow> wr c 0 a0; data \<leftarrow> wr data 1 a1; data \<leftarrow> wr data 2 a2; data \<leftarrow> wr data 3 a3;
    data \<leftarrow> wr data 4 a4; data \<leftarrow> wr data 5 a5; f data } = f (c[0 := a0, 1 := a1, 2 := a2, 3 := a3, 4 := a4, 5 := a5])"
    using assms by (simp add: wr_def) (use assms in auto)
  ultimately show ?thesis by simp
qed

lemma kaseikyo_reset:
  assumes room: "6 \<le> length (enc_data e)"
  shows "\<exists>e'. infrared_encoder_kaseikyo_reset e m = Some e' \<and> starts e' \<and> bits_to_encode e' = 48 \<and>
    length (enc_data e') = length (enc_data e) \<and> take 6 (enc_data e') = kaseikyo_bytes m"
proof -
  let ?c = "replicate 6 0 @ drop 6 (enc_data e)" and ?a = "im_address m" and ?k = "im_command m"
  have r: "infrared_common_encoder_reset infrared_protocol_kaseikyo e = Some (e\<lparr>timings_encoded := 0, timings_sum := 0, bits_encoded := 0,
    enc_state := InfraredCommonEncoderStateSilence, enc_switch_detect := False, enc_data := ?c\<rparr>)"
    by (rule encoder_reset_ok [where n = 48 and b = 6]) (use room in \<open>simp_all add: infrared_protocol_kaseikyo_def\<close>)
  have w: "ucast ((ucast (drop_bit 8 ?a AND mask 16) :: u16) AND mask 8) = (ucast (drop_bit 8 ?a) :: u8)"
    "ucast (drop_bit 8 (ucast (drop_bit 8 ?a AND mask 16) :: u16)) = (ucast (drop_bit 16 ?a) :: u8)"
    "(ucast (drop_bit 4 ?a AND mask 4) :: u8) = ucast (drop_bit 4 ?a) AND mask 4"
    "(ucast (?a AND mask 4) :: u8) AND mask 4 = ucast ?a AND mask 4"
    "(ucast ((ucast ?k :: u16) AND mask 4) :: u8) = ucast ?k AND mask 4"
    "(ucast (drop_bit 24 ?a AND mask 2) :: u8) = ucast (drop_bit 24 ?a) AND mask 2"
    "(ucast (drop_bit 4 (ucast ?k :: u16)) :: u8) = ucast (take_bit 16 (drop_bit 4 (take_bit 16 ?k)))"
    by (rule bit_word_eqI; auto simp: bit_simps)+
  have v: "((x AND mask 4) XOR drop_bit 4 x) AND mask 4 = (x AND mask 4) XOR drop_bit 4 (x :: u8)" for x
    by (rule bit_word_eqI) (auto simp: bit_simps dest: bit_imp_le_length)
  have len: "6 \<le> length ?c" "length ?c = length (enc_data e)" using room by simp_all
  have m3: "(3 :: u32) = mask 2" by (rule masks)
  show ?thesis
    unfolding infrared_encoder_kaseikyo_reset_def r Option.bind.simps Let_def mask_4 m3 masks w v
    using len(2) room by (simp add: six_writes [OF len(1)] starts_def kaseikyo_bytes_def Let_def)
qed

lemma kaseikyo_address:
  fixes a :: u32
  assumes ab: "\<And>k. bit a k \<Longrightarrow> k < 26"
  shows "push_bit 24 (ucast (ucast (drop_bit 24 a) AND mask 2 :: u8)) OR
        push_bit 8 (ucast (push_bit 8 (ucast (ucast (drop_bit 16 a) :: u8)) OR ucast (ucast (drop_bit 8 a) :: u8) :: u16)) OR
        push_bit 4 (ucast (ucast (drop_bit 4 a) AND mask 4 :: u8)) OR ucast (ucast a AND mask 4 :: u8) = a"
proof (rule bit_word_eqI)
  fix k :: nat
  assume "k < LENGTH(32)"
  have nb: "26 \<le> k \<Longrightarrow> \<not> bit a k" using ab [of k] by auto
    consider "k < 4" | "4 \<le> k \<and> k < 8" | "8 \<le> k \<and> k < 16" | "16 \<le> k \<and> k < 24" | "24 \<le> k \<and> k < 26" | "26 \<le> k" by linarith
    then show "bit (push_bit 24 (ucast (ucast (drop_bit 24 a) AND mask 2 :: u8)) OR
        push_bit 8 (ucast (push_bit 8 (ucast (ucast (drop_bit 16 a) :: u8)) OR ucast (ucast (drop_bit 8 a) :: u8) :: u16)) OR
        push_bit 4 (ucast (ucast (drop_bit 4 a) AND mask 4 :: u8)) OR ucast (ucast a AND mask 4 :: u8) :: u32) k = bit a k"
      by cases (use nb \<open>k < LENGTH(32)\<close> in \<open>simp_all add: bit_simps\<close>, auto)
qed

lemma kaseikyo_understood:
  assumes m: "im_protocol m = InfraredProtocolKaseikyo" "im_address m = im_address m AND mask 26" "im_command m = im_command m AND mask 10"
    "\<not> im_repeat m"
    and d: "6 \<le> length (dec_data d)" "take 6 (dec_data d) = kaseikyo_bytes m"
  shows "infrared_decoder_kaseikyo_interpret pd d = Some (True, d\<lparr>message := m\<rparr>)"
proof -
  let ?a = "im_address m" and ?c = "im_command m"
  define d0 d1 d2 d3 d4 where d0: "d0 = (ucast (drop_bit 8 ?a) :: u8)" and d1: "d1 = (ucast (drop_bit 16 ?a) :: u8)"
    and d2: "d2 = (((d0 XOR d1) AND mask 4) XOR drop_bit 4 (d0 XOR d1)) OR push_bit 4 (ucast (drop_bit 4 ?a) AND mask 4)"
    and d3: "d3 = (ucast ?a AND mask 4) OR push_bit 4 (ucast ?c AND mask 4 :: u8)"
    and d4: "d4 = push_bit 6 (ucast (drop_bit 24 ?a) AND mask 2) OR (ucast (take_bit 16 (drop_bit 4 (take_bit 16 ?c))) :: u8)"
  have bytes: "kaseikyo_bytes m = [d0, d1, d2, d3, d4, d2 XOR d3 XOR d4]"
    by (simp add: kaseikyo_bytes_def d0 d1 d2 d3 d4 Let_def)
  have r: "rd (dec_data d) j = Some (kaseikyo_bytes m ! j)" if "j < 6" for j
    using rd_long [OF d(1) that] arg_cong [OF d(2), of "\<lambda>xs. xs ! j"] that by simp
  have rs: "rd (dec_data d) 0 = Some d0" "rd (dec_data d) 1 = Some d1" "rd (dec_data d) 2 = Some d2" "rd (dec_data d) 3 = Some d3"
    "rd (dec_data d) 4 = Some d4" "rd (dec_data d) 5 = Some (d2 XOR d3 XOR d4)"
    using r [of 0] r [of 1] r [of 2] r [of 3] r [of 4] r [of 5] by (simp_all add: bytes)
  have p: "d2 AND mask 4 = ((d0 XOR d1) AND mask 4) XOR drop_bit 4 (d0 XOR d1)"
    unfolding d2 by (rule bit_word_eqI) (auto simp: bit_simps dest: bit_imp_le_length)
  have ab: "k < 26" if "bit ?a k" for k using that m(2) by (metis bit_and_iff bit_mask_iff)
  have cb: "k < 10" if "bit ?c k" for k using that m(3) by (metis bit_and_iff bit_mask_iff)
  have h1: "drop_bit 6 d4 = ucast (drop_bit 24 ?a) AND mask 2"
    unfolding d4 by (rule bit_word_eqI) (auto simp: bit_simps dest: cb)
  have h2: "drop_bit 4 d2 = ucast (drop_bit 4 ?a) AND mask 4"
    unfolding d2 by (rule bit_word_eqI) (auto simp: bit_simps dest: bit_imp_le_length)
  have h3: "d3 AND mask 4 = ucast ?a AND mask 4"
    unfolding d3 by (rule bit_word_eqI) (auto simp: bit_simps)
  have h4: "drop_bit 4 d3 = ucast ?c AND mask 4"
    unfolding d3 by (rule bit_word_eqI) (auto simp: bit_simps)
  have h5: "d4 AND mask 6 = ucast (drop_bit 4 ?c) AND mask 6"
    unfolding d4 by (rule bit_word_eqI) (auto simp: bit_simps dest: cb)
  note h = h1 h2 h3 h4 h5
  have a: "push_bit 24 (ucast (drop_bit 6 d4)) OR push_bit 8 (ucast (push_bit 8 (ucast d1) OR ucast d0 :: u16)) OR
      push_bit 4 (ucast (drop_bit 4 d2)) OR ucast (d3 AND mask 4) = ?a"
    unfolding h d0 d1 by (rule kaseikyo_address) (rule ab)
  have c: "(ucast (ucast (drop_bit 4 d3) OR push_bit 4 (ucast (d4 AND mask 6)) :: u16) :: u32) = ?c"
    unfolding h by (rule bit_word_eqI) (auto simp: bit_simps dest: cb)
  have s: "set_message InfraredProtocolKaseikyo ?a ?c d = Some (True, d\<lparr>message := m\<rparr>)" using m(1,4) by simp
  show ?thesis
    unfolding infrared_decoder_kaseikyo_interpret_def mask_4 masks Let_def
    by (simp only: rs Option.bind.simps p a c s simp_thms if_True)
qed

text \<open>C13: A valid Kaseikyo message, spread over six bytes with its vendor parity and checksum, is heard as often as
  it is sent and as it was.\<close>

theorem kaseikyo_transmission:
  fixes m :: InfraredMessage
  assumes m: "im_protocol m = InfraredProtocolKaseikyo" "infrared_signal_is_message_valid m = Some True" "\<not> im_repeat m"
    and room: "7 \<le> room" and n: "0 < n" and fuel: "100 * n \<le> fuel" and gap: "4000 < gap"
  shows "\<exists>ps d. infrared_send fuel room m n = Some ps \<and>
    hear infrared_decoder_kaseikyo_decode (infrared_common_decoder_alloc infrared_protocol_kaseikyo pad) (ps @ [(False, gap)]) =
      Some (replicate n m, d)"
proof -
  let ?e = "infrared_common_encoder_alloc infrared_protocol_kaseikyo room" and ?p = infrared_protocol_kaseikyo
  obtain k where k: "n = Suc k" using n by (cases n) auto
  obtain e where e: "infrared_encoder_kaseikyo_reset ?e m = Some e" "starts e" "bits_to_encode e = 48"
    "length (enc_data e) = room" "take 6 (enc_data e) = kaseikyo_bytes m"
    using kaseikyo_reset [of ?e m] room by (auto simp: infrared_common_encoder_alloc_def)
  note v = valid_mask [OF m(2), unfolded m(1), OF protocol_rows(6), unfolded common_variant_def, simplified]
  have interp: "interpret_fn ?p (pdata ?p) d = Some (True, d\<lparr>message := m\<rparr>)"
    if "6 \<le> length (dec_data d)" "holds (dec_data d) (lsb_bits (enc_data e) 48)" "databit_cnt d = 48" for d
  proof -
    have "take 6 (dec_data d) = take 6 (enc_data e)"
      by (rule nth_equalityI) (use that(1) e(4) room holds_byte [OF that(2)] in simp_all)
    then show ?thesis using kaseikyo_understood [OF m(1) v m(3) that(1)] e(5) by simp
  qed
  have fresh: "waits (infrared_common_decoder_alloc ?p pad) 6 True" by (rule alloc_waits) simp
  have "\<exists>ps e' d'. transmit_times 100 (Suc k) (infrared_common_encode ?p) e = Some (ps, e') \<and> length ps = Suc k * (4 + 2 * 48) \<and>
    hear (infrared_common_decode ?p) (infrared_common_decoder_alloc ?p pad) (ps @ [(False, gap)]) = Some (replicate (Suc k) m, d')"
    by (rule kaseikyo_line.plain_session [OF _ _ e(2,3) _ _ _ _ interp _ _ fresh]) (use e(4) room gap in simp_all)
  then obtain ps e' d' where ps: "transmit_times 100 (Suc k) (infrared_common_encode ?p) e = Some (ps, e')" "length ps = n * 100"
    "hear (infrared_common_decode ?p) (infrared_common_decoder_alloc ?p pad) (ps @ [(False, gap)]) = Some (replicate n m, d')"
    unfolding k by auto
  have "infrared_send fuel room m n = Some ps"
    by (rule infrared_send_transmits [OF protocol_rows(3) [folded m(1)], where k = k and e = e and e' = e' and fuel' = 100 and r = 1])
      (use e(1) ps fuel k min_repeats [OF protocol_rows(6)] m(1) in \<open>simp_all add: rows infrared_encoder_kaseikyo_encode_def\<close>)
  with ps(3) show ?thesis by (auto simp: infrared_decoder_kaseikyo_decode_def)
qed

subsection \<open>Samsung32\<close>

definition samsung32_word :: "InfraredMessage \<Rightarrow> u32" where
  "samsung32_word m = ucast (ucast (im_address m) :: u8) OR push_bit 8 (ucast (ucast (im_address m) :: u8)) OR
     push_bit 16 (ucast (ucast (im_command m) :: u8)) OR push_bit 24 (ucast (NOT (ucast (im_command m) :: u8)))"

lemma samsung32_reset:
  assumes room: "4 \<le> length (enc_data e)"
  shows "\<exists>e'. infrared_encoder_samsung32_reset e m = Some e' \<and> starts e' \<and> bits_to_encode e' = 32 \<and>
    length (enc_data e') = length (enc_data e) \<and> (\<forall>k < 32. data_bit (enc_data e') k = bit (samsung32_word m) k)"
proof -
  let ?c = "replicate 4 0 @ drop 4 (enc_data e)"
  have r: "infrared_common_encoder_reset infrared_protocol_samsung32 e = Some (e\<lparr>timings_encoded := 0, timings_sum := 0,
    bits_encoded := 0, enc_state := InfraredCommonEncoderStateSilence, enc_switch_detect := False, enc_data := ?c\<rparr>)"
    by (rule encoder_reset_ok [where n = 32 and b = 4]) (use room in \<open>simp_all add: infrared_protocol_samsung32_def\<close>)
  have len: "length ?c = length (enc_data e)" using room by simp
  have z: "rd32 ?c 0 = Some 0" using room by (simp add: rd32_def mem_simps nth_append)
  obtain d1 where "wr32 ?c 0 (samsung32_word m) = Some d1" "length d1 = length (enc_data e)"
    "\<forall>k < 32. data_bit d1 k = bit (samsung32_word m) k"
    using wr32_ok [of 0 ?c "samsung32_word m"] room len by auto
  then show ?thesis
    by (simp add: infrared_encoder_samsung32_reset_def r z samsung32_word_def starts_def Let_def or.assoc)
qed

lemma samsung32_understood:
  assumes m: "im_protocol m = InfraredProtocolSamsung32" "im_address m = im_address m AND mask 8" "im_command m = im_command m AND mask 8"
    "\<not> im_repeat m"
    and d: "4 \<le> length (dec_data d)" "\<forall>k < 32. data_bit (dec_data d) k = bit (samsung32_word m) k"
  shows "infrared_decoder_samsung32_interpret pd d = Some (True, d\<lparr>message := m\<rparr>)"
proof -
  let ?a = "im_address m" and ?c = "im_command m" and ?w = "samsung32_word m"
  have b: "(ucast ?w :: u8) = ucast ?a" "(ucast (drop_bit 8 ?w) :: u8) = ucast ?a"
    "(ucast (drop_bit 16 ?w) :: u8) = ucast ?c" "(ucast (drop_bit 24 ?w) :: u8) = NOT (ucast ?c)"
    unfolding samsung32_word_def by (rule bit_word_eqI; auto simp: bit_simps)+
  have u: "ucast (ucast ?a :: u8) = ?a" "ucast (ucast ?c :: u8) = ?c"
    by (subst (2) m(2), rule bit_word_eqI, auto simp: bit_simps) (subst (2) m(3), rule bit_word_eqI, auto simp: bit_simps)
  have r: "rd (dec_data d) j = Some (ucast (drop_bit (8 * j) ?w))" if "j < 4" for j
    using rd_long [OF d(1) that] bytes_of_word [OF d(2) that] by simp
  show ?thesis
    using r [of 0] r [of 1] r [of 2] r [of 3] m(1,4)
    by (simp add: infrared_decoder_samsung32_interpret_def b u)
qed

lemma samsung32_time:
  "line_time (distance_body (timings infrared_protocol_samsung32) bits) =
     of_nat (9550 + 1100 * length bits + 1100 * length (filter id bits))"
proof -
  have "line_time (concat (map (distance_bit (timings infrared_protocol_samsung32)) bits)) =
      of_nat (1100 * length bits + 1100 * length (filter id bits))"
    by (induction bits) (simp_all add: distance_bit_def algebra_simps)
  then show ?thesis by (simp add: distance_body_def algebra_simps)
qed

fun samsung32_repeats :: "u32 \<Rightarrow> nat \<Rightarrow> line" where
  "samsung32_repeats t 0 = []"
| "samsung32_repeats t (Suc k) =
     (False, t) # (True, 4500) # (False, 4500) # (True, 550) # (False, 1650) # (True, 550) # samsung32_repeats 97000 k"

lemma length_samsung32_repeats [simp]: "length (samsung32_repeats t k) = 6 * k"
  by (induction t k rule: samsung32_repeats.induct) simp_all

lemma samsung32_send_repeat:
  assumes e: "enc_state e = InfraredCommonEncoderStateEncodeRepeat" "bits_encoded e = 32" "timings_encoded e = 68 + 6 * i"
    and small: "80 + 6 * i < 2 ^ 32"
  shows "transmit 100 infrared_encoder_samsung32_encode e =
    Some (samsung32_repeats (if i = 0 then 46000 else 97000) 1, e\<lparr>timings_encoded := 68 + 6 * (i + 1)\<rparr>)"
proof -
  have cnt: "size_sub (68 + 6 * i + j) (1 + 2 + 32 * 2 + 1) = 6 * i + j" if "j < 6" for j
    using that small by (subst size_sub_le) auto
  have mods: "(6 * i + 1) mod 6 = (1::nat)" "(6 * i + 2) mod 6 = (2::nat)" "(6 * i + 3) mod 6 = (3::nat)"
    "(6 * i + 4) mod 6 = (4::nat)" "(6 * i + 5) mod 6 = (5::nat)" "(6 * i + 6) mod 6 = (0::nat)" "6 * i mod 6 = (0::nat)"
    "(6 * i + 1) mod 2 = (1::nat)" "(6 * i + 2) mod 2 = (0::nat)" "(6 * i + 3) mod 2 = (1::nat)"
    "(6 * i + 4) mod 2 = (0::nat)" "(6 * i + 5) mod 2 = (1::nat)" "6 * i mod 2 = (0::nat)" by presburger+
  note defs = infrared_encoder_samsung32_encode_def infrared_common_encode_def infrared_encoder_samsung32_encode_repeat_def Let_def
  let ?e = "\<lambda>j. e\<lparr>timings_encoded := 68 + 6 * i + j\<rparr>"
  have 1: "infrared_encoder_samsung32_encode e = Some (InfraredStatusOk, if i = 0 then 46000 else 97000, False, ?e 1)"
    using e cnt [of 0] mods by (simp add: defs)
  have 2: "infrared_encoder_samsung32_encode (?e 1) = Some (InfraredStatusOk, 4500, True, ?e 2)"
    using e cnt [of 1] mods by (simp add: defs)
  have 3: "infrared_encoder_samsung32_encode (?e 2) = Some (InfraredStatusOk, 4500, False, ?e 3)"
    using e cnt [of 2] mods by (simp add: defs)
  have 4: "infrared_encoder_samsung32_encode (?e 3) = Some (InfraredStatusOk, 550, True, ?e 4)"
    using e cnt [of 3] mods by (simp add: defs)
  have 5: "infrared_encoder_samsung32_encode (?e 4) = Some (InfraredStatusOk, 1650, False, ?e 5)"
    using e cnt [of 4] mods by (simp add: defs)
  have 6: "infrared_encoder_samsung32_encode (?e 5) = Some (InfraredStatusDone, 550, True, ?e 6)"
    using e cnt [of 5] mods by (simp add: defs)
  have s: "sends infrared_encoder_samsung32_encode e
      [(False, if i = 0 then 46000 else 97000), (True, 4500), (False, 4500), (True, 550), (False, 1650)] (?e 5)"
    using 1 2 3 4 5 by simp
  from transmit_sends [OF s 6, of 100] show ?thesis by (simp add: One_nat_def)
qed

lemma samsung32_send_repeats:
  assumes e: "enc_state e = InfraredCommonEncoderStateEncodeRepeat" "bits_encoded e = 32" "timings_encoded e = 68 + 6 * i"
    and small: "80 + 6 * (i + k) < 2 ^ 32"
  shows "\<exists>e'. transmit_times 100 k infrared_encoder_samsung32_encode e =
    Some (samsung32_repeats (if i = 0 then 46000 else 97000) k, e')"
  using assms
proof (induction k arbitrary: e i)
  case (Suc k)
  let ?e = "e\<lparr>timings_encoded := 68 + 6 * (i + 1)\<rparr>"
  have 1: "transmit 100 infrared_encoder_samsung32_encode e =
      Some (samsung32_repeats (if i = 0 then 46000 else 97000) 1, ?e)"
    by (rule samsung32_send_repeat) (use Suc.prems in auto)
  have "\<exists>e'. transmit_times 100 k infrared_encoder_samsung32_encode ?e =
    Some (samsung32_repeats (if i + 1 = 0 then 46000 else 97000) k, e')"
    by (rule Suc.IH) (use Suc.prems in auto)
  then obtain e' where "transmit_times 100 k infrared_encoder_samsung32_encode ?e = Some (samsung32_repeats 97000 k, e')"
    by auto
  with 1 show ?case by (simp add: One_nat_def)
qed simp

lemma samsung32_hear_repeats:
  assumes "repeating d 4 t m" "30000 < t" "t < 140000"
  shows "\<exists>d'. hear (infrared_common_decode infrared_protocol_samsung32) d
      ([(True, 4500), (False, 4500), (True, 550), (False, 1650), (True, 550)] @ samsung32_repeats 97000 k @ [(False, gap)]) =
    Some (replicate (Suc k) (m\<lparr>im_repeat := True\<rparr>), d')"
  using assms
proof (induction k arbitrary: d t m)
  case 0
  obtain d1 where 1: "hear (infrared_common_decode infrared_protocol_samsung32) d
      [(True, 4500), (False, 4500), (True, 550), (False, 1650), (True, 550)] =
      Some ([m\<lparr>im_repeat := True\<rparr>], d1)" "repeated d1 4 (m\<lparr>im_repeat := True\<rparr>)"
    using samsung32_repeat_frame [OF 0] by blast
  obtain d2 where 2: "infrared_common_decode infrared_protocol_samsung32 d1 False gap = Some (None, d2)"
    using samsung32_repeat_pause [OF 1(2)] by blast
  have 3: "hear (infrared_common_decode infrared_protocol_samsung32) d1 [(False, gap)] = Some ([], d2)" by (simp add: 2)
  from hear_cat [OF 1(1) 3] show ?case by simp
next
  case (Suc k)
  obtain d1 where 1: "hear (infrared_common_decode infrared_protocol_samsung32) d
      [(True, 4500), (False, 4500), (True, 550), (False, 1650), (True, 550)] =
      Some ([m\<lparr>im_repeat := True\<rparr>], d1)" "repeated d1 4 (m\<lparr>im_repeat := True\<rparr>)"
    using samsung32_repeat_frame [OF Suc.prems] by blast
  obtain d2 where 2: "infrared_common_decode infrared_protocol_samsung32 d1 False 97000 = Some (None, d2)"
    "repeating d2 4 97000 (m\<lparr>im_repeat := True\<rparr>)"
    using samsung32_repeat_pause [OF 1(2)] by blast
  obtain d3 where 3: "hear (infrared_common_decode infrared_protocol_samsung32) d2
      ([(True, 4500), (False, 4500), (True, 550), (False, 1650), (True, 550)] @ samsung32_repeats 97000 k @ [(False, gap)]) =
    Some (replicate (Suc k) (m\<lparr>im_repeat := True\<rparr>), d3)"
    using Suc.IH [OF 2(2)] by auto
  from hear_cat [OF 1(1) hear_silent [OF 2(1) 3]] show ?case by simp
qed

lemma samsung32_session:
  assumes e: "starts e" "bits_to_encode e = 32" "32 < 8 * length (enc_data e)"
    and interp: "\<And>pd d. 4 \<le> length (dec_data d) \<Longrightarrow> holds (dec_data d) (lsb_bits (enc_data e) 32) \<Longrightarrow> databit_cnt d = 32 \<Longrightarrow>
      infrared_decoder_samsung32_interpret pd d = Some (True, d\<lparr>message := m\<rparr>)"
    and small: "k < 2 ^ 28" and gap: "5000 < gap" and d: "waits d 4 l"
  shows "\<exists>ps e'. transmit_times 100 (Suc k) infrared_encoder_samsung32_encode e = Some (ps, e') \<and> length ps \<le> 100 + 6 * k \<and>
    (\<exists>d'. hear (infrared_common_decode infrared_protocol_samsung32) d (ps @ [(False, gap)]) =
       Some (m # replicate k (m\<lparr>im_repeat := True\<rparr>), d'))"
proof -
  let ?p = infrared_protocol_samsung32
  let ?body = "distance_body (timings ?p) (lsb_bits (enc_data e) 32)"
  let ?e = "e\<lparr>timings_encoded := 68, timings_sum := line_time ?body,
         enc_state := InfraredCommonEncoderStateEncodeRepeat, bits_encoded := 32\<rparr>"
  have sent: "transmit 100 infrared_encoder_samsung32_encode e = Some ((False, 145000) # ?body, ?e)"
    using samsung32_line.send_message [of e 32 100] e by (auto simp: starts_def infrared_encoder_samsung32_encode_def)
  obtain e' where rep: "transmit_times 100 k infrared_encoder_samsung32_encode ?e = Some (samsung32_repeats 46000 k, e')"
    using samsung32_send_repeats [of ?e 0 k] e(2) small by auto
  have len: "length ?body = 67"
    by (simp add: distance_body_def length_concat o_def distance_bit_def sum_list_triv)
  obtain d1 where d1: "infrared_common_decode ?p d False 145000 = Some (None, d1)" "waits d1 4 False"
    using samsung32.hear_waiting_space [OF d] by blast
  obtain d2 where d2: "hear (infrared_common_decode ?p) d1 ?body = Some ([], d2)"
    "receives d2 4 True (lsb_bits (enc_data e) 32)"
    using samsung32_line.hear_body [OF d1(2), of "lsb_bits (enc_data e) 32"] by auto
  have fin: "\<exists>d'. infrared_common_decode ?p d2 False t = Some (Some m, d') \<and> repeating d' 4 t m" if "5000 < t" for t
    by (rule samsung32.hear_end_repeat [OF d2(2), where f = infrared_decoder_samsung32_decode_repeat])
      (use that interp in \<open>auto simp: infrared_decoder_samsung32_decode_repeat_def\<close>)
  have "\<exists>d'. hear (infrared_common_decode ?p) d2 (samsung32_repeats 46000 k @ [(False, gap)]) =
      Some (m # replicate k (m\<lparr>im_repeat := True\<rparr>), d')"
  proof (cases k)
    case 0
    with fin [OF gap] show ?thesis by auto
  next
    case (Suc j)
    obtain d3 where d3: "infrared_common_decode ?p d2 False 46000 = Some (Some m, d3)" "repeating d3 4 46000 m"
      using fin [of 46000] by auto
    obtain d4 where "hear (infrared_common_decode ?p) d3
        ([(True, 4500), (False, 4500), (True, 550), (False, 1650), (True, 550)] @ samsung32_repeats 97000 j @ [(False, gap)]) =
      Some (replicate (Suc j) (m\<lparr>im_repeat := True\<rparr>), d4)"
      using samsung32_hear_repeats [OF d3(2), of j gap] by auto
    from hear_message [OF d3(1) this] Suc show ?thesis by auto
  qed
  then obtain d' where "hear (infrared_common_decode ?p) d2 (samsung32_repeats 46000 k @ [(False, gap)]) =
      Some (m # replicate k (m\<lparr>im_repeat := True\<rparr>), d')" by blast
  from hear_silent [OF d1(1) hear_cat [OF d2(1) this]]
  have "hear (infrared_common_decode ?p) d ((False, 145000) # ?body @ samsung32_repeats 46000 k @ [(False, gap)]) =
      Some (m # replicate k (m\<lparr>im_repeat := True\<rparr>), d')" by simp
  with sent rep len show ?thesis by auto
qed

text \<open>A Samsung32 message that is sent \<open>n\<close> times is heard as the message and \<open>n - 1\<close> repeats.\<close>

theorem samsung32_transmission:
  fixes m :: InfraredMessage
  assumes m: "im_protocol m = InfraredProtocolSamsung32" "infrared_signal_is_message_valid m = Some True" "\<not> im_repeat m"
    and room: "5 \<le> room" and n: "0 < n" "n \<le> 2 ^ 28" and fuel: "100 + 6 * n \<le> fuel" and gap: "5000 < gap"
  shows "\<exists>ps d. infrared_send fuel room m n = Some ps \<and>
    hear infrared_decoder_samsung32_decode (infrared_common_decoder_alloc infrared_protocol_samsung32 pad) (ps @ [(False, gap)]) =
      Some (m # replicate (n - 1) (m\<lparr>im_repeat := True\<rparr>), d)"
proof -
  let ?e = "infrared_common_encoder_alloc infrared_protocol_samsung32 room" and ?p = infrared_protocol_samsung32
  obtain k where k: "n = Suc k" using n(1) by (cases n) auto
  obtain e where e: "infrared_encoder_samsung32_reset ?e m = Some e" "starts e" "bits_to_encode e = 32"
    "length (enc_data e) = room" "\<forall>k < 32. data_bit (enc_data e) k = bit (samsung32_word m) k"
    using samsung32_reset [of ?e m] room by (auto simp: infrared_common_encoder_alloc_def)
  note v = valid_mask [OF m(2), unfolded m(1), OF protocol_rows(4), unfolded common_variant_def, simplified]
  have interp: "infrared_decoder_samsung32_interpret pd d = Some (True, d\<lparr>message := m\<rparr>)"
    if "4 \<le> length (dec_data d)" "holds (dec_data d) (lsb_bits (enc_data e) 32)" "databit_cnt d = 32" for pd d
    by (rule samsung32_understood [OF m(1) v m(3) that(1)]) (use e(5) holds_data_bit [OF that(2)] in auto)
  have fresh: "waits (infrared_common_decoder_alloc ?p pad) 4 True" by (rule alloc_waits) simp
  have lt: "32 < 8 * length (enc_data e)" and small: "k < 2 ^ 28" using e(4) room n(2) k by auto
  have "\<exists>ps e'. transmit_times 100 (Suc k) infrared_encoder_samsung32_encode e = Some (ps, e') \<and> length ps \<le> 100 + 6 * k \<and>
    (\<exists>d'. hear (infrared_common_decode ?p) (infrared_common_decoder_alloc ?p pad) (ps @ [(False, gap)]) =
       Some (m # replicate k (m\<lparr>im_repeat := True\<rparr>), d'))"
    by (rule samsung32_session [OF e(2,3) lt _ small gap fresh], rule interp)
  then obtain ps e' d' where ps: "transmit_times 100 (Suc k) infrared_encoder_samsung32_encode e = Some (ps, e')"
    "length ps \<le> 100 + 6 * k"
    and h: "hear (infrared_common_decode ?p) (infrared_common_decoder_alloc ?p pad) (ps @ [(False, gap)]) =
      Some (m # replicate k (m\<lparr>im_repeat := True\<rparr>), d')"
    by (elim exE conjE)
  have "infrared_send fuel room m n = Some ps"
    by (rule infrared_send_transmits [OF protocol_rows(1) [folded m(1)], where k = k and e = e and e' = e' and fuel' = 100 and r = 1])
      (use e(1) ps fuel k min_repeats [OF protocol_rows(4)] m(1) in \<open>simp_all add: rows\<close>)
  with h k show ?thesis by (auto simp: infrared_decoder_samsung32_decode_def)
qed

subsection \<open>Examples\<close>

lemma example_valid:
  "infrared_signal_is_message_valid \<lparr>im_protocol = InfraredProtocolRCA, im_address = 4, im_command = 8, im_repeat = False\<rparr> = Some True"
  "infrared_signal_is_message_valid \<lparr>im_protocol = InfraredProtocolKaseikyo, im_address = 4, im_command = 8, im_repeat = False\<rparr> = Some True"
  "infrared_signal_is_message_valid \<lparr>im_protocol = InfraredProtocolSamsung32, im_address = 4, im_command = 8, im_repeat = False\<rparr> = Some True"
  by (simp_all add: infrared_signal_is_message_valid_def infrared_is_protocol_valid_def infrared_get_protocol_address_length_def
    infrared_get_protocol_command_length_def nec_variants nec_rows protocol_rows common_variant_def)

theorem rca_transmission_witness:
  "\<exists>ps d. infrared_send 104 4 \<lparr>im_protocol = InfraredProtocolRCA, im_address = 4, im_command = 8, im_repeat = False\<rparr> 2 = Some ps \<and>
    hear infrared_decoder_rca_decode (infrared_common_decoder_alloc infrared_protocol_rca 1) (ps @ [(False, 40000)]) =
      Some (replicate 2 \<lparr>im_protocol = InfraredProtocolRCA, im_address = 4, im_command = 8, im_repeat = False\<rparr>, d)"
  using rca_transmission [of "\<lparr>im_protocol = InfraredProtocolRCA, im_address = 4, im_command = 8, im_repeat = False\<rparr>"
    4 1 2 104 40000] example_valid
  by simp

theorem kaseikyo_transmission_witness:
  "\<exists>ps d. infrared_send 200 7 \<lparr>im_protocol = InfraredProtocolKaseikyo, im_address = 4, im_command = 8, im_repeat = False\<rparr> 2 = Some ps \<and>
    hear infrared_decoder_kaseikyo_decode (infrared_common_decoder_alloc infrared_protocol_kaseikyo 0) (ps @ [(False, 40000)]) =
      Some (replicate 2 \<lparr>im_protocol = InfraredProtocolKaseikyo, im_address = 4, im_command = 8, im_repeat = False\<rparr>, d)"
  using kaseikyo_transmission [of "\<lparr>im_protocol = InfraredProtocolKaseikyo, im_address = 4, im_command = 8, im_repeat = False\<rparr>"
    7 2 200 40000] example_valid
  by simp

theorem samsung32_transmission_witness:
  "\<exists>ps d. infrared_send 112 5 \<lparr>im_protocol = InfraredProtocolSamsung32, im_address = 4, im_command = 8, im_repeat = False\<rparr> 2 = Some ps \<and>
    hear infrared_decoder_samsung32_decode (infrared_common_decoder_alloc infrared_protocol_samsung32 0) (ps @ [(False, 40000)]) =
      Some (\<lparr>im_protocol = InfraredProtocolSamsung32, im_address = 4, im_command = 8, im_repeat = False\<rparr> #
        replicate 1 \<lparr>im_protocol = InfraredProtocolSamsung32, im_address = 4, im_command = 8, im_repeat = True\<rparr>, d)"
  using samsung32_transmission [of "\<lparr>im_protocol = InfraredProtocolSamsung32, im_address = 4, im_command = 8, im_repeat = False\<rparr>"
    5 2 112 40000 0] example_valid
  by (simp add: One_nat_def)

end
