(* ===== verification/Infrared_Limits.thy ===== *)
theory Infrared_Limits
  imports Infrared_Transmission
begin

text \<open>
  What no signal can do to the decoders that keep the contract, what one signal does to the Pioneer decoder, which
  does not keep it, and what the RC5 encoder leaves out.
\<close>

subsection \<open>Pioneer\<close>

lemma pioneer_fields [simp]:
  "timings infrared_protocol_pioneer = \<lparr>min_split_time = 26000, silence_time = 26000, preamble_mark = 8500, preamble_space = 4225,
     bit1_mark = 500, bit1_space = 1500, bit0_mark = 500, bit0_space = 500, preamble_tolerance = 200, bit_tolerance = 120\<rparr>"
  "max_length infrared_protocol_pioneer = 33" "data_bytes infrared_protocol_pioneer = 5"
  "known_length infrared_protocol_pioneer n \<longleftrightarrow> n = 33 \<or> n = 32"
  "decode_fn infrared_protocol_pioneer = infrared_common_decode_pdwm" "decode_repeat_fn infrared_protocol_pioneer = None"
  "interpret_fn infrared_protocol_pioneer = infrared_decoder_pioneer_interpret"
  "encode_fn infrared_protocol_pioneer = infrared_common_encode_pdwm"
  "encode_repeat_fn infrared_protocol_pioneer = Some infrared_encoder_pioneer_encode_repeat"
  by (simp_all add: infrared_protocol_pioneer_def INFRARED_PIONEER_SILENCE_def max_length_def data_bytes_def known_length_def)

interpretation pioneer_line: pulse_distance infrared_protocol_pioneer 5
  by unfold_locales (auto simp: MATCH_TIMING_def)

text \<open>A decoder that has turned down 32 bits with wrong check bytes keeps the silence behind them: it stays in
  the state for bits, and every further edge makes it look at the same silence again.\<close>

definition pioneer_stuck :: "InfraredCommonDecoder \<Rightarrow> nat \<Rightarrow> bool" where
  "pioneer_stuck d k \<longleftrightarrow> dec_state d = InfraredCommonDecoderStateDecode \<and> samples_cnt d = k \<and> length (samples d) = 6 \<and>
     26000 < samples d ! 0 \<and> databit_cnt d = 32 \<and> \<not> first_level d \<and>
     (\<forall>e. dec_data e = dec_data d \<longrightarrow> databit_cnt e = 32 \<longrightarrow>
        infrared_decoder_pioneer_interpret (pdata infrared_protocol_pioneer) e = Some (False, e))"

lemma pioneer_stuck_loop:
  "pioneer_stuck d k \<Longrightarrow> 0 < k \<Longrightarrow> decode_loop infrared_protocol_pioneer False d = Some (False, d)"
  by (subst decode_loop.simps)
    (simp add: pioneer_stuck_def infrared_common_decode_bits.simps infrared_common_decoder_check_ready_def split_status_def
      rd_def)

lemma pioneer_stuck_edge:
  assumes d: "pioneer_stuck d k" "0 < k" "k < 6" and level: "level = (\<not> dec_level d)"
  shows "\<exists>d'. infrared_common_decode infrared_protocol_pioneer d level t = Some (None, d') \<and> pioneer_stuck d' (k + 1) \<and>
    dec_level d' = level"
proof -
  let ?d = "d\<lparr>dec_level := level, samples := (samples d)[k := t], samples_cnt := k + 1\<rparr>"
  have stuck: "pioneer_stuck ?d (k + 1)"
    using d level first_level_push [of d "(samples d)[k := t]"] by (simp add: pioneer_stuck_def)
  have "infrared_common_decode infrared_protocol_pioneer d level t = Some (None, ?d)"
    using d level pioneer_stuck_loop [OF stuck]
    by (simp add: infrared_common_decode_def wr_def Let_def pioneer_stuck_def)
  with stuck show ?thesis by auto
qed

lemma pioneer_stuck_full:
  "pioneer_stuck d 6 \<Longrightarrow> level = (\<not> dec_level d) \<Longrightarrow> infrared_common_decode infrared_protocol_pioneer d level t = None"
  by (simp add: infrared_common_decode_def wr_def Let_def pioneer_stuck_def)

lemma pioneer_stuck_ends:
  assumes "pioneer_stuck d 1" "\<not> dec_level d"
  shows "hear (infrared_common_decode infrared_protocol_pioneer) d
    [(True, t1), (False, t2), (True, t3), (False, t4), (True, t5), (False, t6)] = None"
proof -
  obtain d1 where 1: "infrared_common_decode infrared_protocol_pioneer d True t1 = Some (None, d1)" "pioneer_stuck d1 2" "dec_level d1"
    using pioneer_stuck_edge [OF assms(1), of True t1] assms(2) by auto
  obtain d2 where 2: "infrared_common_decode infrared_protocol_pioneer d1 False t2 = Some (None, d2)" "pioneer_stuck d2 3" "\<not> dec_level d2"
    using pioneer_stuck_edge [OF 1(2), of False t2] 1(3) by auto
  obtain d3 where 3: "infrared_common_decode infrared_protocol_pioneer d2 True t3 = Some (None, d3)" "pioneer_stuck d3 4" "dec_level d3"
    using pioneer_stuck_edge [OF 2(2), of True t3] 2(3) by auto
  obtain d4 where 4: "infrared_common_decode infrared_protocol_pioneer d3 False t4 = Some (None, d4)" "pioneer_stuck d4 5" "\<not> dec_level d4"
    using pioneer_stuck_edge [OF 3(2), of False t4] 3(3) by auto
  obtain d5 where 5: "infrared_common_decode infrared_protocol_pioneer d4 True t5 = Some (None, d5)" "pioneer_stuck d5 6" "dec_level d5"
    using pioneer_stuck_edge [OF 4(2), of True t5] 4(3) by auto
  show ?thesis using 1(1) 2(1) 3(1) 4(1) 5(1) pioneer_stuck_full [OF 5(2), of False t6] 5(3) by simp
qed

lemma pioneer_turns_down:
  assumes d: "receives d 5 True (lsb_bits [b0, b1, b2, b3] 32)" and bad: "b1 \<noteq> NOT b0 \<or> b3 \<noteq> NOT b2" and t: "26000 < t"
  shows "\<exists>d'. infrared_common_decode infrared_protocol_pioneer d False t = Some (None, d') \<and> pioneer_stuck d' 1 \<and> \<not> dec_level d'"
proof -
  let ?d = "d\<lparr>dec_level := False, samples := (samples d)[0 := t], samples_cnt := 1\<rparr>"
  have len: "4 \<le> length (dec_data d)" and cnt: "databit_cnt d = 32"
    and h: "holds (dec_data d) (lsb_bits [b0, b1, b2, b3] 32)" using d by (simp_all add: receives_def)
  have bytes: "dec_data d ! 0 = b0" "dec_data d ! 1 = b1" "dec_data d ! 2 = b2" "dec_data d ! 3 = b3"
    using holds_byte [OF h, of 0] holds_byte [OF h, of 1] holds_byte [OF h, of 2] holds_byte [OF h, of 3] by simp_all
  obtain x where x: "rd32 (dec_data d) 0 = Some x" "\<forall>k < 32. bit x k = data_bit (dec_data d) (8 * 0 + k)"
    using rd32_ok [of 0 "dec_data d"] len by auto
  have X: "\<forall>k < 32. data_bit (dec_data d) k = bit x k" using x(2) by simp
  have m: "(ucast (y AND mask 8) :: u8) = ucast (y :: u32)" for y by (rule bit_word_eqI) (auto simp: bit_simps)
  have parts: "(ucast x :: u8) = b0" "(ucast (drop_bit 8 x) :: u8) = b1" "(ucast (drop_bit 16 x) :: u8) = b2"
    "(ucast (drop_bit 24 x) :: u8) = b3"
    using bytes bytes_of_word [OF X, of 0] bytes_of_word [OF X, of 1] bytes_of_word [OF X, of 2] bytes_of_word [OF X, of 3]
    by simp_all
  have wrong: "infrared_decoder_pioneer_interpret (pdata infrared_protocol_pioneer) e = Some (False, e)"
    if "dec_data e = dec_data d" for e
    unfolding infrared_decoder_pioneer_interpret_def that x(1) masks m Let_def using bad parts by simp
  have stuck: "pioneer_stuck ?d 1"
    using d t cnt wrong by (simp add: pioneer_stuck_def receives_def first_level_eq)
  have "infrared_common_decode infrared_protocol_pioneer d False t = Some (None, ?d)"
    using d pioneer_stuck_loop [OF stuck] by (simp add: infrared_common_decode_def receives_def wr_def Let_def)
  with stuck show ?thesis by auto
qed

text \<open>C12: A Pioneer signal of 32 bits whose check bytes are wrong, followed by silence and six more edges, makes the
  decoder write behind its samples and stop the firmware.\<close>

theorem pioneer_bad_checksum_stops:
  assumes bad: "b1 \<noteq> NOT b0 \<or> b3 \<noteq> NOT (b2 :: u8)" and t: "26000 < t"
  shows "hear infrared_decoder_pioneer_decode (infrared_common_decoder_alloc infrared_protocol_pioneer pad)
    ((False, t0) # distance_body (timings infrared_protocol_pioneer) (lsb_bits [b0, b1, b2, b3] 32) @
     [(False, t), (True, t1), (False, t2), (True, t3), (False, t4), (True, t5), (False, t6)]) = None"
proof -
  let ?f = "infrared_common_decode infrared_protocol_pioneer"
  have fresh: "waits (infrared_common_decoder_alloc infrared_protocol_pioneer pad) 5 True" by (rule alloc_waits) simp
  obtain d1 where d1: "?f (infrared_common_decoder_alloc infrared_protocol_pioneer pad) False t0 = Some (None, d1)" "waits d1 5 False"
    using pioneer_line.hear_waiting_space [OF fresh] by blast
  obtain d2 where d2: "hear ?f d1 (distance_body (timings infrared_protocol_pioneer) (lsb_bits [b0, b1, b2, b3] 32)) = Some ([], d2)"
    "receives d2 5 True (lsb_bits [b0, b1, b2, b3] 32)"
    using pioneer_line.hear_body [OF d1(2), of "lsb_bits [b0, b1, b2, b3] 32"] by auto
  obtain d3 where d3: "?f d2 False t = Some (None, d3)" "pioneer_stuck d3 1" "\<not> dec_level d3"
    using pioneer_turns_down [OF d2(2) bad t] by blast
  show ?thesis
    unfolding infrared_decoder_pioneer_decode_def hear.simps(2) d1(1) hear_append
    using d2(1) d3(1) pioneer_stuck_ends [OF d3(2,3)] by (simp del: pioneer_fields)
qed

subsection \<open>RC5X\<close>

lemma and_push_1: "(x AND push_bit i 1 = (0 :: 'a::len word)) \<longleftrightarrow> \<not> (i < LENGTH('a) \<and> bit x i)"
  by (auto simp: word_eq_bits bit_simps)

lemma reverse_eq: "reverse v = word_reverse v"
proof -
  have u: "[0..<8] = [0, 1, 2, 3, 4, 5, 6, 7 :: nat]" by (simp add: upt_rec)
  show ?thesis
    unfolding word_eq_bits reverse_def u
    by (simp add: all_less_8 bit_word_reverse_iff and_push_1 bit_simps One_nat_def)
qed
text \<open>C40: An RC5X message has a command of seven bits, but the encoder sends only six of them.\<close>

theorem rc5x_loses_command_bit:
  "infrared_get_protocol_command_length InfraredProtocolRC5X = Some 7 \<and>
   infrared_encoder_rc5_reset e m = infrared_encoder_rc5_reset e (m\<lparr>im_command := im_command m AND mask 6\<rparr>)"
proof -
  have "drop_bit 2 (reverse (ucast (im_command m) :: u8)) = drop_bit 2 (reverse (ucast (im_command m AND mask 6) :: u8))"
    by (rule bit_word_eqI) (auto simp: bit_simps reverse_eq bit_word_reverse_iff)
  moreover have "infrared_get_variant_by_protocol InfraredProtocolRC5X = Some (rc_variant ''RC5X'' 5 7)"
    by (simp add: infrared_get_variant_by_protocol_def infrared_find_index_by_protocol_def infrared_encoder_decoder_def
      infrared_protocol_nec_get_variant_def infrared_protocol_samsung32_get_variant_def infrared_protocol_rc5_get_variant_def
      upt_rec One_nat_def)
  ultimately show ?thesis
    by (simp add: infrared_encoder_rc5_reset_def infrared_get_protocol_command_length_def rc_variant_def)
qed

subsection \<open>Every signal\<close>

text \<open>Whatever is on the line, the decoder of a protocol that keeps the contract takes every pulse and returns.\<close>

context infrared_protocol begin

lemma hear_total:
  "decoder_ok p need pwm d \<Longrightarrow> \<exists>ms d'. hear (infrared_common_decode p) d ps = Some (ms, d') \<and> decoder_ok p need pwm d'"
proof (induction ps arbitrary: d)
  case (Cons q ps)
  obtain level t where q: "q = (level, t)" by (cases q)
  obtain m d1 where d1: "infrared_common_decode p d level t = Some (m, d1)" "decoder_ok p need pwm d1"
    using decode_total [OF Cons.prems] by blast
  obtain ms d2 where "hear (infrared_common_decode p) d1 ps = Some (ms, d2)" "decoder_ok p need pwm d2"
    using Cons.IH [OF d1(2)] by blast
  with d1(1) q show ?case by simp
qed simp

lemma fresh_decoder_ok: "need \<le> data_bytes p + pad \<Longrightarrow> decoder_ok p need pwm (infrared_common_decoder_alloc p pad)"
  by (simp add: decoder_ok_def infrared_common_decoder_alloc_def)

lemmas hears_all = hear_total [OF fresh_decoder_ok]

end

text \<open>C11: Whatever pulses are on the line, the decoders of NEC, Samsung32, RCA, Kaseikyo and SIRC return for
  each of them and touch nothing outside their arrays.\<close>

theorem infrared_decoders_hear_everything:
  assumes p: "p \<in> {infrared_protocol_nec, infrared_protocol_samsung32, infrared_protocol_rca, infrared_protocol_kaseikyo,
      infrared_protocol_sirc}" and pad: "1 \<le> pad"
  shows "\<exists>ms d. hear (infrared_common_decode p) (infrared_common_decoder_alloc p pad) ps = Some (ms, d)"
  using p
proof (elim insertE emptyE)
  show ?thesis if "p = infrared_protocol_nec" unfolding that using nec.hears_all [of pad ps] by auto
  show ?thesis if "p = infrared_protocol_samsung32" unfolding that using samsung32.hears_all [of pad ps] by auto
  show ?thesis if "p = infrared_protocol_rca" unfolding that using rca.hears_all [of pad ps] pad by auto
  show ?thesis if "p = infrared_protocol_kaseikyo" unfolding that using kaseikyo.hears_all [of pad ps] by auto
  show ?thesis if "p = infrared_protocol_sirc" unfolding that using sirc.hears_all [of pad ps] pad by auto
qed

theorem pioneer_bad_checksum_stops_witness:
  "hear infrared_decoder_pioneer_decode (infrared_common_decoder_alloc infrared_protocol_pioneer 0)
    ((False, 1000) # distance_body (timings infrared_protocol_pioneer) (lsb_bits [1, 2, 3, 4] 32) @
     [(False, 30000), (True, 500), (False, 500), (True, 500), (False, 500), (True, 500), (False, 500)]) = None"
  by (rule pioneer_bad_checksum_stops) simp_all

theorem infrared_decoders_hear_everything_witness:
  "\<exists>ms d. hear (infrared_common_decode infrared_protocol_rca) (infrared_common_decoder_alloc infrared_protocol_rca 1)
    [(True, 4000), (True, 1), (False, 0)] = Some (ms, d)"
  by (rule infrared_decoders_hear_everything) simp_all

end
