(* ===== verification/Subghz_Common.thy ===== *)
theory Subghz_Common
  imports Subghz_Blocks
begin

text \<open>
  The operations that the sub-GHz encoders and decoders share
  (firmware/lib/subghz/protocols/common.c), the loops by which an encoder fills its upload and
  the way pulses travel from one to the other. The locale \<open>pulse_code\<close> is the contract between
  the bit symbols of an encoder and the feed function of a decoder; the locale
  \<open>pulse_frames\<close> adds the frame around them. The protocols interpret them.
\<close>

subsection \<open>Encoders\<close>

record SubGhzProtocolBlockEncoder =
  is_running :: bool
  repeat_count :: nat
  front :: nat
  size_upload :: nat
  upload :: "LevelDuration list"

record SubGhzProtocolEncoderCommonGeneric =
  encoder :: SubGhzProtocolBlockEncoder
  enc_generic :: SubGhzBlockGeneric

definition subghz_protocol_encoder_common_alloc ::
    "SubGhzBlockGeneric \<Rightarrow> nat \<Rightarrow> LevelDuration list \<Rightarrow> SubGhzProtocolEncoderCommonGeneric" where
  "subghz_protocol_encoder_common_alloc g repeat uninitialised =
     \<lparr>encoder = \<lparr>is_running = False, repeat_count = repeat, front = 0,
        size_upload = length uninitialised, upload = uninitialised\<rparr>, enc_generic = g\<rparr>"

definition subghz_protocol_encoder_common_stop :: "SubGhzProtocolBlockEncoder \<Rightarrow> SubGhzProtocolBlockEncoder" where
  "subghz_protocol_encoder_common_stop e = e\<lparr>is_running := False\<rparr>"

definition subghz_protocol_encoder_common_yield ::
    "bool \<Rightarrow> SubGhzProtocolBlockEncoder \<Rightarrow> (LevelDuration \<times> SubGhzProtocolBlockEncoder) option" where
  "subghz_protocol_encoder_common_yield endless e =
     (if repeat_count e = 0 \<or> \<not> is_running e then Some (level_duration_reset, e\<lparr>is_running := False\<rparr>)
      else do {
        ret \<leftarrow> rd (upload e) (front e);
        let e = e\<lparr>front := front e + 1\<rparr>;
        if front e = size_upload e then do {
          let e = (if endless then e else e\<lparr>repeat_count := repeat_count e - 1\<rparr>);
          Some (ret, e\<lparr>front := 0\<rparr>)
        } else Some (ret, e)
      })"

text \<open>The loop over the data bits, the highest first, that writes a pair of pulses for each; the
  counter is a byte.\<close>

definition send_bits :: "(bool \<Rightarrow> LevelDuration list) \<Rightarrow> nat \<Rightarrow> SubGhzBlockGeneric \<Rightarrow> nat \<times> LevelDuration list \<Rightarrow>
    (nat \<times> LevelDuration list) option" where
  "send_bits sb stop g =
     ofold (\<lambda>i. ofold put (sb (bit_read (generic_data g) (i - 1) \<noteq> 0)))
       (rev [stop + 1..<unat (ucast (data_count_bit g) :: u8) + 1])"

definition set_upload :: "nat \<Rightarrow> LevelDuration list \<Rightarrow> SubGhzProtocolEncoderCommonGeneric \<Rightarrow> SubGhzProtocolEncoderCommonGeneric" where
  "set_upload n up e = e\<lparr>encoder := (encoder e)\<lparr>size_upload := n, upload := up\<rparr>\<rparr>"

text \<open>The first statements of every upload: the size is checked against the buffer, recorded, and
  the pulses written from index 0.\<close>

definition fill_upload :: "nat \<Rightarrow> (nat \<times> LevelDuration list \<Rightarrow> (nat \<times> LevelDuration list) option) \<Rightarrow>
    SubGhzProtocolEncoderCommonGeneric \<Rightarrow> (bool \<times> SubGhzProtocolEncoderCommonGeneric) option" where
  "fill_upload n body e =
     (if size_upload (encoder e) < n then Some (False, e)
      else do {
        (index, up) \<leftarrow> body (0, upload (encoder e));
        Some (True, set_upload n up e)
      })"

subsection \<open>Decoders\<close>

record 'st SubGhzProtocolDecoderCommon =
  decoder :: "'st SubGhzBlockDecoder"
  dec_generic :: SubGhzBlockGeneric
  reports :: "SubGhzBlockGeneric list"

definition subghz_protocol_decoder_common_reset ::
    "('st::zero, 'z) SubGhzProtocolDecoderCommon_scheme \<Rightarrow> ('st, 'z) SubGhzProtocolDecoderCommon_scheme" where
  "subghz_protocol_decoder_common_reset d = d\<lparr>decoder := (decoder d)\<lparr>parser_step := 0\<rparr>\<rparr>"

definition subghz_protocol_decoder_common_get_hash_data ::
    "('st, 'z) SubGhzProtocolDecoderCommon_scheme \<Rightarrow> u8 option" where
  "subghz_protocol_decoder_common_get_hash_data d =
     subghz_protocol_blocks_get_hash_data (decoder d) (unat (decode_count_bit (decoder d)) div 8 + 1)"

text \<open>The statements the feed functions are made of.\<close>

definition goto_step :: "'st \<Rightarrow> ('st, 'z) SubGhzProtocolDecoderCommon_scheme \<Rightarrow> ('st, 'z) SubGhzProtocolDecoderCommon_scheme" where
  "goto_step st d = d\<lparr>decoder := (decoder d)\<lparr>parser_step := st\<rparr>\<rparr>"

definition clear_bits :: "('st, 'z) SubGhzProtocolDecoderCommon_scheme \<Rightarrow> ('st, 'z) SubGhzProtocolDecoderCommon_scheme" where
  "clear_bits d = d\<lparr>decoder := (decoder d)\<lparr>decode_data := 0, decode_count_bit := 0\<rparr>\<rparr>"

definition save_te :: "u32 \<Rightarrow> ('st, 'z) SubGhzProtocolDecoderCommon_scheme \<Rightarrow> ('st, 'z) SubGhzProtocolDecoderCommon_scheme" where
  "save_te t d = d\<lparr>decoder := (decoder d)\<lparr>te_last := t\<rparr>\<rparr>"

definition add_bit :: "u8 \<Rightarrow> ('st, 'z) SubGhzProtocolDecoderCommon_scheme \<Rightarrow> ('st, 'z) SubGhzProtocolDecoderCommon_scheme" where
  "add_bit b d = d\<lparr>decoder := subghz_protocol_blocks_add_bit (decoder d) b\<rparr>"

text \<open>Passing the collected bits on: the message is stored and the callback called.\<close>

definition store_message :: "('st, 'z) SubGhzProtocolDecoderCommon_scheme \<Rightarrow> ('st, 'z) SubGhzProtocolDecoderCommon_scheme" where
  "store_message d = d\<lparr>dec_generic := (dec_generic d)
     \<lparr>generic_data := decode_data (decoder d), data_count_bit := ucast (decode_count_bit (decoder d))\<rparr>\<rparr>"

definition callback :: "('st, 'z) SubGhzProtocolDecoderCommon_scheme \<Rightarrow> ('st, 'z) SubGhzProtocolDecoderCommon_scheme" where
  "callback d = d\<lparr>reports := reports d @ [dec_generic d]\<rparr>"

definition near :: "u32 \<Rightarrow> u32 \<Rightarrow> u32 \<Rightarrow> bool" where
  "near duration nominal tolerance = (DURATION_DIFF duration nominal < tolerance)"

lemmas decoder_steps =
  goto_step_def clear_bits_def save_te_def add_bit_def store_message_def callback_def
  subghz_protocol_blocks_add_bit_def

subsection \<open>Uploads\<close>

lemma put_many:
  "index + length lds \<le> length up \<Longrightarrow>
   ofold put lds (index, up) = Some (index + length lds, take index up @ lds @ drop (index + length lds) up)"
proof (induction lds arbitrary: index up)
  case (Cons l lds)
  then have "index < length up" by simp
  moreover have "take (Suc index) (up[index := l]) = take index up @ [l]"
    using \<open>index < length up\<close> by (simp add: take_Suc_conv_app_nth)
  ultimately show ?case
    using Cons.IH [of "index + 1" "up[index := l]"] Cons.prems
    by (simp add: put_def wr_ok One_nat_def)
qed simp

lemma ofold_put_concat: "ofold (\<lambda>x. ofold put (f x)) xs s = ofold put (concat (map f xs)) s"
  by (induction xs arbitrary: s) (auto simp: ofold_append intro: Option.bind_cong)

lemma ofold_Cons_fun: "ofold f (x # xs) = (\<lambda>s. Option.bind (f x s) (ofold f xs))"
  by (rule ext) simp

text \<open>The pulses of the bits of a word, highest first.\<close>

definition bit_pulses :: "(bool \<Rightarrow> LevelDuration list) \<Rightarrow> nat \<Rightarrow> u64 \<Rightarrow> nat \<Rightarrow> LevelDuration list" where
  "bit_pulses sb stop data n = concat (map (\<lambda>i. sb (bit data (i - 1))) (rev [stop + 1..<n + 1]))"

lemma send_bits_pulses:
  "unat (data_count_bit g) < 256 \<Longrightarrow>
   send_bits sb stop g = ofold put (bit_pulses sb stop (generic_data g) (unat (data_count_bit g)))"
proof -
  assume "unat (data_count_bit g) < 256"
  then have "unat (ucast (data_count_bit g) :: u8) = unat (data_count_bit g)"
    by (simp add: unsigned_ucast_eq take_bit_nat_eq_self)
  then show ?thesis by (intro ext) (simp add: send_bits_def ofold_put_concat bit_pulses_def bit_read_eq)
qed

lemma length_bit_pulses:
  "(\<And>b. length (sb b) = 2) \<Longrightarrow> length (bit_pulses sb stop data n) = 2 * (n - stop)"
  by (simp add: bit_pulses_def length_concat comp_def sum_list_triv)

subsection \<open>Transmission\<close>

text \<open>The first \<open>k\<close> values of an encoder.\<close>

fun transmit :: "bool \<Rightarrow> nat \<Rightarrow> SubGhzProtocolBlockEncoder \<Rightarrow> (LevelDuration list \<times> SubGhzProtocolBlockEncoder) option" where
  "transmit endless 0 e = Some ([], e)"
| "transmit endless (Suc k) e = do {
     (ld, e) \<leftarrow> subghz_protocol_encoder_common_yield endless e;
     (lds, e) \<leftarrow> transmit endless k e;
     Some (ld # lds, e)
   }"

lemma transmit_add:
  "transmit endless (j + k) e = do {
     (xs, e) \<leftarrow> transmit endless j e;
     (ys, e) \<leftarrow> transmit endless k e;
     Some (xs @ ys, e)
   }"
proof (induction j arbitrary: e)
  case (Suc j)
  show ?case
  proof (cases "subghz_protocol_encoder_common_yield endless e")
    case (Some p)
    then show ?thesis
      by (cases "transmit endless j (snd p)"; cases "transmit endless k (snd (the (transmit endless j (snd p))))")
        (simp_all add: Suc.IH case_prod_unfold)
  qed simp
qed (simp add: case_prod_unfold)

lemma transmit_rest:
  assumes "is_running e" "repeat_count e \<noteq> 0" "k = size_upload e - front e" "front e < size_upload e"
    "size_upload e \<le> length (upload e)"
  shows "transmit endless k e = Some (drop (front e) (take (size_upload e) (upload e)),
    e\<lparr>front := 0, repeat_count := (if endless then repeat_count e else repeat_count e - 1)\<rparr>)"
  using assms
proof (induction k arbitrary: e)
  case (Suc k)
  have front: "front e < length (upload e)" using Suc.prems by simp
  have split: "drop (front e) (take (size_upload e) (upload e)) =
      upload e ! front e # drop (front e + 1) (take (size_upload e) (upload e))"
    using Suc.prems front by (subst Cons_nth_drop_Suc [symmetric]) (auto simp: One_nat_def)
  show ?case
  proof (cases "front e + 1 = size_upload e")
    case True
    then have "k = 0" using Suc.prems by (simp add: One_nat_def)
    then show ?thesis using True front Suc.prems(1,2,4,5) split
      by (auto simp: subghz_protocol_encoder_common_yield_def rd_ok Let_def)
  next
    case False
    let ?e = "e\<lparr>front := front e + 1\<rparr>"
    have "transmit endless k ?e = Some (drop (front ?e) (take (size_upload ?e) (upload ?e)),
        ?e\<lparr>front := 0, repeat_count := (if endless then repeat_count ?e else repeat_count ?e - 1)\<rparr>)"
      by (rule Suc.IH) (use Suc.prems False in \<open>auto simp: One_nat_def\<close>)
    with False front Suc.prems(1,2,4,5) split show ?thesis
      by (simp add: subghz_protocol_encoder_common_yield_def rd_ok Let_def)
  qed
qed simp

lemma transmit_idle: "repeat_count e = 0 \<or> \<not> is_running e \<Longrightarrow>
  \<exists>e'. transmit endless k e = Some (replicate k level_duration_reset, e')"
proof (induction k arbitrary: e)
  case (Suc k)
  from Suc.IH [of "e\<lparr>is_running := False\<rparr>"] Suc.prems show ?case
    by (auto simp: subghz_protocol_encoder_common_yield_def)
qed simp

lemma transmit_repeat:
  assumes "is_running e" "front e = 0" "0 < size_upload e" "size_upload e \<le> length (upload e)"
    "r \<le> repeat_count e"
  shows "transmit False (r * size_upload e) e =
    Some (concat (replicate r (take (size_upload e) (upload e))), e\<lparr>repeat_count := repeat_count e - r\<rparr>)"
  using assms
proof (induction r arbitrary: e)
  case (Suc r)
  let ?e = "e\<lparr>front := 0, repeat_count := repeat_count e - 1\<rparr>"
  have "transmit False (size_upload e) e = Some (take (size_upload e) (upload e), ?e)"
    using transmit_rest [of e "size_upload e" False] Suc.prems by simp
  moreover have "transmit False (r * size_upload e) ?e =
      Some (concat (replicate r (take (size_upload e) (upload e))), ?e\<lparr>repeat_count := repeat_count ?e - r\<rparr>)"
    using Suc.IH [of ?e] Suc.prems by (simp add: One_nat_def)
  ultimately show ?case using Suc.prems(2)
    by (simp add: transmit_add diff_diff_add One_nat_def)
qed simp

text \<open>C34: A running encoder yields its upload exactly as many times as its repeat count
  says, then end markers for ever, and stays inside its buffer; in endless mode it starts over
  with its counters unchanged after every upload.\<close>

theorem yield_frames:
  assumes "is_running e" "front e = 0" "0 < size_upload e" "size_upload e \<le> length (upload e)"
  shows "(\<exists>e'. transmit False (repeat_count e * size_upload e + k) e =
      Some (concat (replicate (repeat_count e) (take (size_upload e) (upload e))) @
            replicate k level_duration_reset, e')) \<and>
    (repeat_count e \<noteq> 0 \<longrightarrow>
      transmit True (size_upload e) e = Some (take (size_upload e) (upload e), e))"
proof (intro conjI impI)
  have "transmit False (repeat_count e * size_upload e) e =
      Some (concat (replicate (repeat_count e) (take (size_upload e) (upload e))), e\<lparr>repeat_count := 0\<rparr>)"
    using transmit_repeat [OF assms order_refl] by simp
  moreover obtain e' where "transmit False k (e\<lparr>repeat_count := 0\<rparr>) = Some (replicate k level_duration_reset, e')"
    using transmit_idle [of "e\<lparr>repeat_count := 0\<rparr>" False k] by auto
  ultimately show "\<exists>e'. transmit False (repeat_count e * size_upload e + k) e =
      Some (concat (replicate (repeat_count e) (take (size_upload e) (upload e))) @
            replicate k level_duration_reset, e')"
    by (simp add: transmit_add)
next
  assume "repeat_count e \<noteq> 0"
  with transmit_rest [of e "size_upload e" True] assms
  show "transmit True (size_upload e) e = Some (take (size_upload e) (upload e), e)" by simp
qed

definition demo_encoder :: SubGhzProtocolBlockEncoder where
  "demo_encoder = \<lparr>is_running = True, repeat_count = 2, front = 0, size_upload = 2,
     upload = [level_duration_make True 100, level_duration_make False 300, level_duration_reset]\<rparr>"

theorem yield_frames_witness:
  "\<exists>e'. transmit False (2 * 2 + 1) demo_encoder =
     Some ([level_duration_make True 100, level_duration_make False 300,
            level_duration_make True 100, level_duration_make False 300, level_duration_reset], e')"
proof -
  have d: "is_running demo_encoder" "front demo_encoder = 0" "0 < size_upload demo_encoder"
    "size_upload demo_encoder \<le> length (upload demo_encoder)" "repeat_count demo_encoder = 2" "size_upload demo_encoder = 2"
    "take 2 (upload demo_encoder) = [level_duration_make True 100, level_duration_make False 300]"
    by (simp_all add: demo_encoder_def)
  have two: "replicate 2 x = [x, x]" "replicate 1 y = [y]" for x :: "LevelDuration list" and y :: LevelDuration
    by (simp_all add: numeral_eq_Suc One_nat_def)
  from conjunct1 [OF yield_frames [OF d(1-4), of 1], unfolded d(5-7) two]
  show ?thesis by simp
qed

subsection \<open>The contract between symbols and decoder\<close>

text \<open>A decoder receives what an encoder yields.\<close>

definition receive :: "('d \<Rightarrow> bool \<Rightarrow> u32 \<Rightarrow> 'd) \<Rightarrow> LevelDuration list \<Rightarrow> 'd \<Rightarrow> 'd" where
  "receive feed = fold (\<lambda>ld d. feed d (level_duration_get_level ld) (level_duration_get_duration ld))"

lemma receive_simps [simp]:
  "receive feed [] d = d"
  "receive feed (ld # lds) d = receive feed lds (feed d (level_duration_get_level ld) (level_duration_get_duration ld))"
  "receive feed (xs @ ys) d = receive feed ys (receive feed xs d)"
  by (simp_all add: receive_def)

lemma level_of_make [simp]: "level_duration_get_level (level_duration_make l t) = l"
  by (simp add: level_duration_get_level_def level_duration_make_def LEVEL_DURATION_LEVEL_HIGH_def
      LEVEL_DURATION_LEVEL_LOW_def)

lemma duration_of_make [simp]: "t < 2 ^ 30 \<Longrightarrow> level_duration_get_duration (level_duration_make l t) = t"
proof -
  assume "t < 2 ^ 30"
  then have "unat t < 2 ^ 30" by (simp add: word_less_nat_alt)
  then have "unat (take_bit 30 t) = unat t" by (simp only: unsigned_take_bit_eq take_bit_nat_eq_self)
  then have "take_bit 30 t = t" by (simp only: word_unat_eq_iff)
  moreover have "ucast (ucast t :: 30 word) = take_bit 30 t" by (rule bit_word_eqI) (auto simp: bit_simps)
  ultimately show ?thesis by (simp add: level_duration_get_duration_def level_duration_make_def)
qed

locale pulse_code =
  fixes feed :: "'d \<Rightarrow> bool \<Rightarrow> u32 \<Rightarrow> 'd"
    and sb :: "bool \<Rightarrow> LevelDuration list"
    and ready :: "'d \<Rightarrow> u64 \<Rightarrow> u8 \<Rightarrow> 'r \<Rightarrow> bool"
  assumes bit_step: "ready d x n r \<Longrightarrow> ready (receive feed (sb b) d) (push_bit 1 x OR of_bool b) (n + 1) r"
begin

lemma bits_from:
  "ready d x c r \<Longrightarrow>
   ready (receive feed (bit_pulses sb stop data n) d)
     (push_bit (n - stop) x OR take_bit (n - stop) (drop_bit stop data)) (c + of_nat (n - stop)) r"
proof (induction n arbitrary: d x c)
  case (Suc n)
  show ?case
  proof (cases "stop \<le> n")
    case True
    then have "bit_pulses sb stop data (Suc n) = sb (bit data n) @ bit_pulses sb stop data n"
      by (simp add: bit_pulses_def One_nat_def)
    moreover have "ready (receive feed (sb (bit data n)) d) (push_bit 1 x OR of_bool (bit data n)) (c + 1) r"
      by (rule bit_step [OF Suc.prems])
    note Suc.IH [OF this]
    moreover have "push_bit (n - stop) (push_bit 1 x OR of_bool (bit data n)) OR take_bit (n - stop) (drop_bit stop data) =
        push_bit (Suc n - stop) x OR take_bit (Suc n - stop) (drop_bit stop data)"
    proof (rule bit_word_eqI)
      fix k assume "k < LENGTH(64)"
      with True show "bit (push_bit (n - stop) (push_bit 1 x OR of_bool (bit data n)) OR take_bit (n - stop) (drop_bit stop data)) k =
          bit (push_bit (Suc n - stop) x OR take_bit (Suc n - stop) (drop_bit stop data)) k"
        by (cases "k = n - stop") (auto simp: bit_simps Suc_diff_le less_Suc_eq One_nat_def not_less le_Suc_eq)
    qed
    moreover have "c + 1 + of_nat (n - stop) = c + of_nat (Suc n - stop)"
      using True by (simp add: Suc_diff_le)
    ultimately show ?thesis by simp
  qed (use Suc.prems in \<open>simp add: bit_pulses_def\<close>)
qed (simp add: bit_pulses_def)

lemma bits_word:
  "ready d 0 0 r \<Longrightarrow> ready (receive feed (bit_pulses sb stop data n) d)
     (take_bit (n - stop) (drop_bit stop data)) (of_nat (n - stop)) r"
  using bits_from [of d 0 0 r stop data n] by simp

end

lemma concat_replicate_snoc: "concat (replicate (Suc k) (xs @ ys)) = concat (replicate k (xs @ ys)) @ xs @ ys"
  by (induction k) simp_all

text \<open>Frames that begin with a header, whose gap also ends the frame before. The header may depend
  on a parameter; \<open>good\<close> says for which parameters the decoder knows it.\<close>

locale header_frames = pulse_code feed sb ready
  for feed :: "'d \<Rightarrow> bool \<Rightarrow> u32 \<Rightarrow> 'd" and sb and ready :: "'d \<Rightarrow> u64 \<Rightarrow> u8 \<Rightarrow> 'r \<Rightarrow> bool" +
  fixes idle :: "'d \<Rightarrow> 'r \<Rightarrow> bool" and header :: "'h \<Rightarrow> LevelDuration list" and good :: "'h \<Rightarrow> bool"
    and report :: "u64 \<Rightarrow> u8 \<Rightarrow> 'r \<Rightarrow> 'r"
  assumes start: "good h \<Longrightarrow> idle d r \<Longrightarrow> ready (receive feed (header h) d) 0 0 r"
    and restart: "good h \<Longrightarrow> ready d x n r \<Longrightarrow> ready (receive feed (header h) d) 0 0 (report x n r)"
begin

lemma frames:
  assumes "good h" "idle d r"
  shows "ready (receive feed (concat (replicate (Suc k) (header h @ bit_pulses sb 0 data n))) d)
    (take_bit n data) (of_nat n) ((report (take_bit n data) (of_nat n) ^^ k) r)"
proof (induction k)
  case 0
  show ?case using bits_word [OF start [OF assms], of 0 data n] by simp
next
  case (Suc k)
  have "concat (replicate (Suc (Suc k)) (header h @ bit_pulses sb 0 data n)) =
      concat (replicate (Suc k) (header h @ bit_pulses sb 0 data n)) @ header h @ bit_pulses sb 0 data n"
    by (rule concat_replicate_snoc)
  with bits_word [OF restart [OF assms(1) Suc], of 0 data n] show ?case by simp
qed

end

text \<open>The content of the messages a decoder has passed on.\<close>

definition messages :: "('st, 'z) SubGhzProtocolDecoderCommon_scheme \<Rightarrow> (u64 \<times> u16) list" where
  "messages d = map (\<lambda>g. (generic_data g, data_count_bit g)) (reports d)"

lemma count_eq: "(ucast (n :: u8) :: u16) = ucast m \<longleftrightarrow> n = m"
proof
  assume "(ucast n :: u16) = ucast m"
  then have "ucast (ucast n :: u16) = (ucast (ucast m :: u16) :: u8)" by (rule arg_cong)
  moreover have "ucast (ucast j :: u16) = (j :: u8)" for j by (rule bit_word_eqI) (simp add: bit_simps)
  ultimately show "n = m" by simp
qed simp

lemma funpow_snoc: "((\<lambda>r. r @ [m]) ^^ k) r = r @ replicate k m"
  by (induction k arbitrary: r) (simp_all add: replicate_append_same)

text \<open>A full upload, and its transmission.\<close>

lemma fill_upload_puts:
  assumes "body (0, upload (encoder e)) = ofold put lds (0, upload (encoder e))" "n = length lds"
    "n \<le> size_upload (encoder e)" "size_upload (encoder e) \<le> length (upload (encoder e))"
  shows "fill_upload n body e = Some (True, set_upload n (lds @ drop n (upload (encoder e))) e)"
  using assms put_many [of 0 lds "upload (encoder e)"] by (simp add: fill_upload_def)

lemma transmit_upload:
  assumes "front (encoder e) = 0" "r \<le> repeat_count (encoder e)" "lds \<noteq> []" "n = length lds"
  shows "transmit False (r * n) ((encoder (set_upload n (lds @ rest) e))\<lparr>is_running := True\<rparr>) =
    Some (concat (replicate r lds), (encoder (set_upload n (lds @ rest) e))
      \<lparr>is_running := True, repeat_count := repeat_count (encoder e) - r\<rparr>)"
  using transmit_repeat [of "(encoder (set_upload n (lds @ rest) e))\<lparr>is_running := True\<rparr>" r] assms
  by (simp add: set_upload_def)

subsection \<open>From the encoder to the messages\<close>

text \<open>A link joins the upload of an encoder to the decoder of the same protocol. Frames have a header of
  two pulses that depends on the bit count; \<open>valid\<close> describes the messages that the decoder
  passes on, and a low level of at least \<open>gap\<close> ends the last frame.\<close>

locale link = header_frames feed sb ready idle header good report
  for feed :: "'d \<Rightarrow> bool \<Rightarrow> u32 \<Rightarrow> 'd" and sb and ready :: "'d \<Rightarrow> u64 \<Rightarrow> u8 \<Rightarrow> (u64 \<times> u16) list \<Rightarrow> bool"
    and idle and header :: "'h \<Rightarrow> LevelDuration list" and good report +
  fixes get_upload :: "SubGhzProtocolEncoderCommonGeneric \<Rightarrow> (bool \<times> SubGhzProtocolEncoderCommonGeneric) option"
    and header_of :: "u16 \<Rightarrow> 'h" and valid :: "u64 \<Rightarrow> u16 \<Rightarrow> bool" and gap :: u32 and msgs :: "'d \<Rightarrow> (u64 \<times> u16) list"
  assumes get_upload: "unat (data_count_bit (enc_generic e)) < 256 \<Longrightarrow>
      get_upload e = fill_upload (unat (data_count_bit (enc_generic e)) * 2 + 2)
        (ofold put (header (header_of (data_count_bit (enc_generic e))) @
          bit_pulses sb 0 (generic_data (enc_generic e)) (unat (data_count_bit (enc_generic e))))) e"
    and pulses: "length (sb b) = 2" "length (header h) = 2"
    and valid: "valid x c \<Longrightarrow> unat c < 256" "valid x c \<Longrightarrow> good (header_of c)"
      "valid x c \<Longrightarrow> report x (of_nat (unat c)) = (\<lambda>r. r @ [(x, c)])"
    and gap: "gap \<le> t \<Longrightarrow> ready d x n r \<Longrightarrow> msgs (feed d False t) = report x n r"
begin

definition frame :: "u64 \<Rightarrow> u16 \<Rightarrow> LevelDuration list" where
  "frame x c = header (header_of c) @ bit_pulses sb 0 x (unat c)"

lemma length_frame: "length (frame x c) = unat c * 2 + 2"
  by (simp add: frame_def length_bit_pulses pulses)

lemma upload_frame:
  assumes "unat (data_count_bit (enc_generic e)) < 256" "c = data_count_bit (enc_generic e)"
    "unat c * 2 + 2 \<le> size_upload (encoder e)" "size_upload (encoder e) \<le> length (upload (encoder e))"
  shows "get_upload e = Some (True, set_upload (unat c * 2 + 2)
    (frame (generic_data (enc_generic e)) c @ drop (unat c * 2 + 2) (upload (encoder e))) e)"
  unfolding get_upload [OF assms(1)] assms(2)
  by (rule fill_upload_puts) (use assms in \<open>simp_all add: frame_def length_bit_pulses pulses\<close>)

lemma transmission:
  assumes "valid (take_bit (unat (data_count_bit (enc_generic e))) (generic_data (enc_generic e)))
      (data_count_bit (enc_generic e))" "idle d r"
    and "unat (data_count_bit (enc_generic e)) * 2 + 2 \<le> size_upload (encoder e)"
      "size_upload (encoder e) \<le> length (upload (encoder e))"
    and "front (encoder e) = 0" "repeat_count (encoder e) = Suc k" "gap \<le> silence"
  shows "\<exists>e' lds e''. get_upload e = Some (True, e') \<and>
    transmit False (Suc k * size_upload (encoder e')) ((encoder e')\<lparr>is_running := True\<rparr>) = Some (lds, e'') \<and>
    msgs (feed (receive feed lds d) False silence) = r @ replicate (Suc k)
        (take_bit (unat (data_count_bit (enc_generic e))) (generic_data (enc_generic e)), data_count_bit (enc_generic e))"
proof -
  define c where "c = data_count_bit (enc_generic e)"
  define x where "x = generic_data (enc_generic e)"
  have c: "valid (take_bit (unat c) x) c" using assms(1) by (simp add: c_def x_def)
  let ?m = "(take_bit (unat c) x, c)"
  let ?e = "set_upload (unat c * 2 + 2) (frame x c @ drop (unat c * 2 + 2) (upload (encoder e))) e"
  have up: "get_upload e = Some (True, ?e)"
    using upload_frame [OF valid(1) [OF assms(1)] c_def] assms(3,4) unfolding x_def c_def by simp
  have ne: "frame x c \<noteq> []" using length_frame [of x c] by auto
  have size: "size_upload (encoder ?e) = unat c * 2 + 2" by (simp add: set_upload_def)
  have tr: "transmit False (Suc k * size_upload (encoder ?e)) ((encoder ?e)\<lparr>is_running := True\<rparr>) =
      Some (concat (replicate (Suc k) (frame x c)), (encoder ?e)
        \<lparr>is_running := True, repeat_count := repeat_count (encoder e) - Suc k\<rparr>)"
    unfolding size by (rule transmit_upload) (use assms ne in \<open>auto simp: length_frame\<close>)
  from frames [OF valid(2) [OF c] assms(2), of k x "unat c"]
  have "ready (receive feed (concat (replicate (Suc k) (frame x c))) d)
      (take_bit (unat c) x) (of_nat (unat c)) (r @ replicate k ?m)"
    unfolding valid(3) [OF c] funpow_snoc frame_def .
  from gap [OF assms(7) this, unfolded valid(3) [OF c]]
  have "msgs (feed (receive feed (concat (replicate (Suc k) (frame x c))) d) False silence) = r @ replicate (Suc k) ?m"
    by (simp only: append_assoc replicate_append_same replicate_Suc)
  with up tr show ?thesis unfolding c_def [symmetric] x_def [symmetric] by blast
qed

end

end
