(* ===== verification/Subghz_Linear.thy ===== *)
theory Subghz_Linear
  imports Subghz_Common
begin

text \<open>
  The sub-GHz protocol Linear (firmware/lib/subghz/protocols/linear.c). Its frames end in a gap
  that carries the last bit, and the decoder uses a gap either as the end of a frame or as the
  start of the next one, never as both.
\<close>

definition subghz_protocol_linear_const :: SubGhzBlockConst where
  "subghz_protocol_linear_const = \<lparr>te_long = 1500, te_short = 500, te_delta = 350, min_count_bit_for_found = 10\<rparr>"

datatype LinearDecoderStep = LinearDecoderStepReset | LinearDecoderStepSaveDuration | LinearDecoderStepCheckDuration

instantiation LinearDecoderStep :: zero
begin

definition zero_LinearDecoderStep :: LinearDecoderStep where
  "zero_LinearDecoderStep = LinearDecoderStepReset"

instance ..

end

abbreviation "linear_short \<equiv> us (te_short subghz_protocol_linear_const)"
abbreviation "linear_long \<equiv> us (te_long subghz_protocol_linear_const)"
abbreviation "linear_delta \<equiv> us (te_delta subghz_protocol_linear_const)"

definition linear_bit :: "bool \<Rightarrow> LevelDuration list" where
  "linear_bit b =
     (if b then [level_duration_make True linear_long, level_duration_make False linear_short]
      else [level_duration_make True linear_short, level_duration_make False linear_long])"

definition linear_end_bit :: "bool \<Rightarrow> LevelDuration list" where
  "linear_end_bit b =
     (if b then [level_duration_make True linear_long, level_duration_make False (linear_short * 42)]
      else [level_duration_make True linear_short, level_duration_make False (linear_short * 44)])"

definition subghz_protocol_encoder_linear_get_upload ::
    "SubGhzProtocolEncoderCommonGeneric \<Rightarrow> (bool \<times> SubGhzProtocolEncoderCommonGeneric) option" where
  "subghz_protocol_encoder_linear_get_upload e =
     fill_upload (unat (data_count_bit (enc_generic e)) * 2) (\<lambda>s. do {
       s \<leftarrow> send_bits linear_bit 1 (enc_generic e) s;
       ofold put (linear_end_bit (bit_read (generic_data (enc_generic e)) 0 \<noteq> 0)) s
     }) e"

definition subghz_protocol_decoder_linear_feed ::
    "LinearDecoderStep SubGhzProtocolDecoderCommon \<Rightarrow> bool \<Rightarrow> u32 \<Rightarrow> LinearDecoderStep SubGhzProtocolDecoderCommon" where
  "subghz_protocol_decoder_linear_feed d level duration =
     (case parser_step (decoder d) of
        LinearDecoderStepReset \<Rightarrow>
          if \<not> level \<and> near duration (linear_short * 42) (linear_delta * 15)
          then goto_step LinearDecoderStepSaveDuration (clear_bits d) else d
      | LinearDecoderStepSaveDuration \<Rightarrow>
          if level then goto_step LinearDecoderStepCheckDuration (save_te duration d)
          else goto_step LinearDecoderStepReset d
      | LinearDecoderStepCheckDuration \<Rightarrow>
          if \<not> level then
            if linear_short * 5 \<le> duration then
              let d = goto_step LinearDecoderStepReset d
              in if linear_delta * 15 < DURATION_DIFF duration (linear_short * 42) then d
                 else
                   let d = (if near (te_last (decoder d)) linear_short linear_delta then add_bit 0 d
                            else if near (te_last (decoder d)) linear_long linear_delta then add_bit 1 d
                            else d)
                   in if decode_count_bit (decoder d) = min_count_bit_for_found subghz_protocol_linear_const
                      then callback (store_message (d\<lparr>dec_generic := (dec_generic d)\<lparr>serial := 0, btn := 0\<rparr>\<rparr>))
                      else d
            else if near (te_last (decoder d)) linear_short linear_delta \<and> near duration linear_long linear_delta
            then goto_step LinearDecoderStepSaveDuration (add_bit 0 d)
            else if near (te_last (decoder d)) linear_long linear_delta \<and> near duration linear_short linear_delta
            then goto_step LinearDecoderStepSaveDuration (add_bit 1 d)
            else goto_step LinearDecoderStepReset d
          else goto_step LinearDecoderStepReset d)"

lemma linear_times [simp]: "linear_short = 500" "linear_long = 1500" "linear_delta = 350"
  "min_count_bit_for_found subghz_protocol_linear_const = 10"
  by (simp_all add: subghz_protocol_linear_const_def us_def)

definition linear_ready :: "LinearDecoderStep SubGhzProtocolDecoderCommon \<Rightarrow> u64 \<Rightarrow> u8 \<Rightarrow> (u64 \<times> u16) list \<Rightarrow> bool" where
  "linear_ready d x n r = (parser_step (decoder d) = LinearDecoderStepSaveDuration \<and> decode_data (decoder d) = x \<and>
     decode_count_bit (decoder d) = n \<and> messages d = r)"

definition linear_idle :: "LinearDecoderStep SubGhzProtocolDecoderCommon \<Rightarrow> (u64 \<times> u16) list \<Rightarrow> bool" where
  "linear_idle d r = (parser_step (decoder d) = LinearDecoderStepReset \<and> messages d = r)"

interpretation linear: pulse_code subghz_protocol_decoder_linear_feed linear_bit linear_ready
proof
  fix d x n r b assume "linear_ready d x n r"
  then show "linear_ready (receive subghz_protocol_decoder_linear_feed (linear_bit b) d) (push_bit 1 x OR of_bool b) (n + 1) r"
    by (cases b) (simp_all add: linear_ready_def linear_bit_def subghz_protocol_decoder_linear_feed_def decoder_steps
        messages_def near_def DURATION_DIFF_def Let_def)
qed

lemma linear_bit_idle:
  "linear_idle d r \<Longrightarrow> linear_idle (receive subghz_protocol_decoder_linear_feed (linear_bit b) d) r"
  by (cases b) (simp_all add: linear_idle_def linear_bit_def subghz_protocol_decoder_linear_feed_def near_def DURATION_DIFF_def)

lemma linear_bits_idle:
  "linear_idle d r \<Longrightarrow> linear_idle (receive subghz_protocol_decoder_linear_feed (bit_pulses linear_bit stop x n) d) r"
proof -
  have "linear_idle d r \<Longrightarrow> linear_idle (receive subghz_protocol_decoder_linear_feed (concat (map linear_bit bs)) d) r" for bs
    by (induction bs arbitrary: d) (simp_all add: linear_bit_idle)
  from this [of "map (\<lambda>i. bit x (i - 1)) (rev [stop + 1..<n + 1])"] show "linear_idle d r \<Longrightarrow> ?thesis"
    by (simp add: bit_pulses_def comp_def)
qed

lemma linear_end_idle:
  "linear_idle d r \<Longrightarrow> linear_ready (receive subghz_protocol_decoder_linear_feed (linear_end_bit b) d) 0 0 r"
  by (cases b) (simp_all add: linear_idle_def linear_ready_def linear_end_bit_def subghz_protocol_decoder_linear_feed_def
      decoder_steps messages_def near_def DURATION_DIFF_def)

lemma linear_end_ready:
  "linear_ready d x 9 r \<Longrightarrow>
   linear_idle (receive subghz_protocol_decoder_linear_feed (linear_end_bit b) d) (r @ [(push_bit 1 x OR of_bool b, 10)])"
  by (cases b) (simp_all add: linear_idle_def linear_ready_def linear_end_bit_def subghz_protocol_decoder_linear_feed_def
      decoder_steps messages_def near_def DURATION_DIFF_def Let_def)

definition linear_frame :: "u64 \<Rightarrow> LevelDuration list" where
  "linear_frame x = bit_pulses linear_bit 1 x 10 @ linear_end_bit (bit x 0)"

lemma length_linear_frame: "length (linear_frame x) = 20"
  by (simp add: linear_frame_def length_bit_pulses linear_bit_def linear_end_bit_def)

text \<open>The first frame only synchronises the decoder, the second one is passed on.\<close>

lemma linear_two_frames:
  assumes "linear_idle d r"
  shows "linear_idle (receive subghz_protocol_decoder_linear_feed (linear_frame x @ linear_frame x) d)
    (r @ [(take_bit 10 x, 10)])"
proof -
  let ?R = "receive subghz_protocol_decoder_linear_feed"
  have "linear_ready (?R (linear_frame x) d) 0 0 r"
    unfolding linear_frame_def receive_simps by (intro linear_end_idle linear_bits_idle assms)
  from linear.bits_word [OF this, of 1 x 10]
  have "linear_ready (?R (bit_pulses linear_bit 1 x 10) (?R (linear_frame x) d)) (take_bit 9 (drop_bit 1 x)) 9 r"
    by simp
  from linear_end_ready [OF this, of "bit x 0"]
  have "linear_idle (?R (linear_frame x) (?R (linear_frame x) d))
      (r @ [(push_bit 1 (take_bit 9 (drop_bit 1 x)) OR of_bool (bit x 0), 10)])"
    by (simp add: linear_frame_def)
  moreover have "push_bit 1 (take_bit 9 (drop_bit 1 x)) OR of_bool (bit x 0) = take_bit 10 x"
  proof (rule bit_word_eqI)
    fix k show "bit (push_bit 1 (take_bit 9 (drop_bit 1 x)) OR of_bool (bit x 0)) k = bit (take_bit 10 x) k"
      by (cases k) (auto simp: bit_simps One_nat_def)
  qed
  ultimately show ?thesis by simp
qed

lemma linear_frames:
  "linear_idle d r \<Longrightarrow>
   linear_idle (receive subghz_protocol_decoder_linear_feed (concat (replicate (2 * k) (linear_frame x))) d)
     (r @ replicate k (take_bit 10 x, 10))"
proof (induction k)
  case (Suc k)
  have "concat (replicate (2 * Suc k) (linear_frame x)) =
      concat (replicate (2 * k) (linear_frame x)) @ linear_frame x @ linear_frame x"
  proof (induction k)
    case 0
    show ?case by (simp add: numeral_eq_Suc)
  qed simp
  with linear_two_frames [OF Suc.IH [OF Suc.prems], of x] show ?case
    by (simp only: receive_simps(3) append_assoc replicate_append_same replicate_Suc)
qed simp

text \<open>C35: A Linear encoder with a 10-bit key that repeats its frame an even
  number of times is decoded to half as many messages, each with the key that was encoded: every
  other frame only supplies the gap by which the decoder finds the next one.\<close>

theorem linear_every_second_frame:
  assumes "data_count_bit (enc_generic e) = 10"
    and "20 \<le> size_upload (encoder e)" "size_upload (encoder e) \<le> length (upload (encoder e))"
    and "front (encoder e) = 0" "repeat_count (encoder e) = 2 * k"
  shows "\<exists>e' lds e''. subghz_protocol_encoder_linear_get_upload e = Some (True, e') \<and>
    transmit False (2 * k * size_upload (encoder e')) ((encoder e')\<lparr>is_running := True\<rparr>) = Some (lds, e'') \<and>
    messages (receive subghz_protocol_decoder_linear_feed lds (subghz_protocol_decoder_common_reset d)) =
      messages d @ replicate k (take_bit 10 (generic_data (enc_generic e)), 10)"
proof -
  let ?x = "generic_data (enc_generic e)"
  let ?e = "set_upload 20 (linear_frame ?x @ drop 20 (upload (encoder e))) e"
  have up: "subghz_protocol_encoder_linear_get_upload e = Some (True, ?e)"
    unfolding subghz_protocol_encoder_linear_get_upload_def
  proof (rule trans [OF _ fill_upload_puts [of "ofold put (linear_frame ?x)" e "linear_frame ?x" 20]])
    show "fill_upload (unat (data_count_bit (enc_generic e)) * 2) (\<lambda>s. do {
         s \<leftarrow> send_bits linear_bit 1 (enc_generic e) s;
         ofold put (linear_end_bit (bit_read ?x 0 \<noteq> 0)) s }) e = fill_upload 20 (ofold put (linear_frame ?x)) e"
      using assms(1) by (simp add: send_bits_pulses linear_frame_def fun_eq_iff ofold_append bit_read_eq fill_upload_def)
  qed (use assms in \<open>simp_all add: length_linear_frame\<close>)
  have ne: "linear_frame ?x \<noteq> []" using length_linear_frame [of ?x] by auto
  have tr: "transmit False (2 * k * 20) ((encoder ?e)\<lparr>is_running := True\<rparr>) =
      Some (concat (replicate (2 * k) (linear_frame ?x)), (encoder ?e)
        \<lparr>is_running := True, repeat_count := repeat_count (encoder e) - 2 * k\<rparr>)"
    by (rule transmit_upload) (use assms ne in \<open>auto simp: length_linear_frame\<close>)
  have size: "size_upload (encoder ?e) = 20" by (simp add: set_upload_def)
  have "linear_idle (subghz_protocol_decoder_common_reset d) (messages d)"
    by (simp add: linear_idle_def subghz_protocol_decoder_common_reset_def zero_LinearDecoderStep_def messages_def)
  from linear_frames [OF this, of k ?x] have "messages (receive subghz_protocol_decoder_linear_feed
      (concat (replicate (2 * k) (linear_frame ?x))) (subghz_protocol_decoder_common_reset d)) =
      messages d @ replicate k (take_bit 10 ?x, 10)" by (simp add: linear_idle_def)
  with up tr size show ?thesis by metis
qed

definition linear_demo :: SubGhzProtocolEncoderCommonGeneric where
  "linear_demo = subghz_protocol_encoder_common_alloc
     \<lparr>protocol_name = ''Linear'', generic_data = 0x2A5, data_2 = 0, serial = 0, data_count_bit = 10, btn = 0,
      cnt = 0, cnt_2 = 0, seed = 0\<rparr> 10 (replicate 28 level_duration_reset)"

theorem linear_every_second_frame_witness:
  "\<exists>e' lds e''. subghz_protocol_encoder_linear_get_upload linear_demo = Some (True, e') \<and>
    transmit False (2 * 5 * size_upload (encoder e')) ((encoder e')\<lparr>is_running := True\<rparr>) = Some (lds, e'') \<and>
    messages (receive subghz_protocol_decoder_linear_feed lds (subghz_protocol_decoder_common_reset
        \<lparr>decoder = \<lparr>parser_step = LinearDecoderStepReset, te_last = 0, decode_data = 0, decode_count_bit = 0\<rparr>,
         dec_generic = enc_generic linear_demo, reports = []\<rparr>)) = replicate 5 (0x2A5, 10)"
proof -
  have c: "data_count_bit (enc_generic linear_demo) = 10" "20 \<le> size_upload (encoder linear_demo)"
    "size_upload (encoder linear_demo) \<le> length (upload (encoder linear_demo))" "front (encoder linear_demo) = 0"
    "repeat_count (encoder linear_demo) = 2 * 5"
    by (simp_all add: linear_demo_def subghz_protocol_encoder_common_alloc_def)
  have g: "take_bit 10 (generic_data (enc_generic linear_demo)) = 0x2A5"
    by (simp add: linear_demo_def subghz_protocol_encoder_common_alloc_def take_bit_eq_mod)
  have m: "messages \<lparr>decoder = \<lparr>parser_step = LinearDecoderStepReset, te_last = 0, decode_data = 0,
      decode_count_bit = 0\<rparr>, dec_generic = enc_generic linear_demo, reports = []\<rparr> = []"
    by (simp add: messages_def)
  show ?thesis using linear_every_second_frame [OF c, of "\<lparr>decoder = \<lparr>parser_step = LinearDecoderStepReset,
      te_last = 0, decode_data = 0, decode_count_bit = 0\<rparr>, dec_generic = enc_generic linear_demo, reports = []\<rparr>"]
    unfolding g m append_Nil .
qed

end
