(* ===== verification/Subghz_Came.thy ===== *)
theory Subghz_Came
  imports Subghz_Common
begin

text \<open>
  The sub-GHz protocols CAME, Nice FLO and Gate TX (firmware/lib/subghz/protocols/came.c,
  nice\_flo.c, gate\_tx.c): pulse-width codes whose frames begin with a gap and a start pulse.
  The gap of a frame ends the frame before it. Each protocol interprets the locale
  \<open>header_frames\<close>; the properties join the upload of the encoder, the values it yields
  and the messages of the decoder.
\<close>

subsection \<open>CAME\<close>

definition CAME_12_COUNT_BIT :: u16 where "CAME_12_COUNT_BIT = 12"
definition CAME_24_COUNT_BIT :: u16 where "CAME_24_COUNT_BIT = 24"
definition PRASTEL_25_COUNT_BIT :: u16 where "PRASTEL_25_COUNT_BIT = 25"
definition PRASTEL_42_COUNT_BIT :: u16 where "PRASTEL_42_COUNT_BIT = 42"
definition AIRFORCE_COUNT_BIT :: u16 where "AIRFORCE_COUNT_BIT = 18"

definition subghz_protocol_came_const :: SubGhzBlockConst where
  "subghz_protocol_came_const = \<lparr>te_long = 640, te_short = 320, te_delta = 150, min_count_bit_for_found = 12\<rparr>"

datatype CameDecoderStep =
  CameDecoderStepReset | CameDecoderStepFoundStartBit | CameDecoderStepSaveDuration | CameDecoderStepCheckDuration

text \<open>The step 0 of the enumeration, to which the common reset goes.\<close>

instantiation CameDecoderStep :: zero
begin

definition zero_CameDecoderStep :: CameDecoderStep where
  "zero_CameDecoderStep = CameDecoderStepReset"

instance ..

end

abbreviation "came_short \<equiv> us (te_short subghz_protocol_came_const)"
abbreviation "came_long \<equiv> us (te_long subghz_protocol_came_const)"
abbreviation "came_delta \<equiv> us (te_delta subghz_protocol_came_const)"

definition came_header_te :: "u16 \<Rightarrow> u32" where
  "came_header_te count =
     (if count = CAME_24_COUNT_BIT \<or> count = PRASTEL_42_COUNT_BIT then 76
      else if count = CAME_12_COUNT_BIT \<or> count = AIRFORCE_COUNT_BIT then 47
      else if count = PRASTEL_25_COUNT_BIT then 36
      else 16)"

definition came_bit :: "bool \<Rightarrow> LevelDuration list" where
  "came_bit b =
     (if b then [level_duration_make False came_long, level_duration_make True came_short]
      else [level_duration_make False came_short, level_duration_make True came_long])"

definition subghz_protocol_encoder_came_get_upload ::
    "SubGhzProtocolEncoderCommonGeneric \<Rightarrow> (bool \<times> SubGhzProtocolEncoderCommonGeneric) option" where
  "subghz_protocol_encoder_came_get_upload e =
     fill_upload (unat (data_count_bit (enc_generic e)) * 2 + 2) (\<lambda>s. do {
       let header_te = came_header_te (data_count_bit (enc_generic e));
       s \<leftarrow> put (level_duration_make False (came_short * header_te)) s;
       s \<leftarrow> put (level_duration_make True came_short) s;
       send_bits came_bit 0 (enc_generic e) s
     }) e"

definition subghz_protocol_decoder_came_feed ::
    "CameDecoderStep SubGhzProtocolDecoderCommon \<Rightarrow> bool \<Rightarrow> u32 \<Rightarrow> CameDecoderStep SubGhzProtocolDecoderCommon" where
  "subghz_protocol_decoder_came_feed d level duration =
     (case parser_step (decoder d) of
        CameDecoderStepReset \<Rightarrow>
          if \<not> level \<and> near duration (came_short * 56) (came_delta * 63)
          then goto_step CameDecoderStepFoundStartBit d else d
      | CameDecoderStepFoundStartBit \<Rightarrow>
          if \<not> level then d
          else if near duration came_short came_delta
          then clear_bits (goto_step CameDecoderStepSaveDuration d)
          else goto_step CameDecoderStepReset d
      | CameDecoderStepSaveDuration \<Rightarrow>
          if \<not> level then
            if came_short * 4 \<le> duration then
              let d = goto_step CameDecoderStepFoundStartBit d;
                  count = (ucast (decode_count_bit (decoder d)) :: u16)
              in if count = ucast (min_count_bit_for_found subghz_protocol_came_const) \<or> count = AIRFORCE_COUNT_BIT \<or>
                    count = PRASTEL_25_COUNT_BIT \<or> count = CAME_24_COUNT_BIT
                 then callback (store_message (d\<lparr>dec_generic := (dec_generic d)\<lparr>serial := 0, btn := 0\<rparr>\<rparr>))
                 else d
            else goto_step CameDecoderStepCheckDuration (save_te duration d)
          else goto_step CameDecoderStepReset d
      | CameDecoderStepCheckDuration \<Rightarrow>
          if level then
            if near (te_last (decoder d)) came_short came_delta \<and> near duration came_long came_delta
            then goto_step CameDecoderStepSaveDuration (add_bit 0 d)
            else if near (te_last (decoder d)) came_long came_delta \<and> near duration came_short came_delta
            then goto_step CameDecoderStepSaveDuration (add_bit 1 d)
            else goto_step CameDecoderStepReset d
          else goto_step CameDecoderStepReset d)"

lemma came_times [simp]: "came_short = 320" "came_long = 640" "came_delta = 150"
  by (simp_all add: subghz_protocol_came_const_def us_def)

definition came_ready :: "CameDecoderStep SubGhzProtocolDecoderCommon \<Rightarrow> u64 \<Rightarrow> u8 \<Rightarrow> (u64 \<times> u16) list \<Rightarrow> bool" where
  "came_ready d x n r = (parser_step (decoder d) = CameDecoderStepSaveDuration \<and> decode_data (decoder d) = x \<and>
     decode_count_bit (decoder d) = n \<and> messages d = r)"

definition came_idle :: "CameDecoderStep SubGhzProtocolDecoderCommon \<Rightarrow> (u64 \<times> u16) list \<Rightarrow> bool" where
  "came_idle d r = (parser_step (decoder d) \<in> {CameDecoderStepReset, CameDecoderStepFoundStartBit} \<and> messages d = r)"

definition came_header :: "u32 \<Rightarrow> LevelDuration list" where
  "came_header te = [level_duration_make False (320 * te), level_duration_make True 320]"

definition came_report :: "u64 \<Rightarrow> u8 \<Rightarrow> (u64 \<times> u16) list \<Rightarrow> (u64 \<times> u16) list" where
  "came_report x n r = (if n \<in> {12, 18, 24, 25} then r @ [(x, ucast n)] else r)"

lemma came_report_eq: "n \<in> {12, 18, 24, 25} \<Longrightarrow> came_report x n = (\<lambda>r. r @ [(x, ucast n)])"
  by (rule ext) (simp only: came_report_def if_True)

lemma came_bit_step:
  "came_ready d x n r \<Longrightarrow>
   came_ready (receive subghz_protocol_decoder_came_feed (came_bit b) d) (push_bit 1 x OR of_bool b) (n + 1) r"
  by (cases b) (simp_all add: came_ready_def came_bit_def subghz_protocol_decoder_came_feed_def decoder_steps
      messages_def near_def DURATION_DIFF_def Let_def)

lemma came_counts:
  "(ucast n = (ucast (min_count_bit_for_found subghz_protocol_came_const) :: u16) \<or> ucast n = AIRFORCE_COUNT_BIT \<or>
    ucast n = PRASTEL_25_COUNT_BIT \<or> ucast n = CAME_24_COUNT_BIT) = (n \<in> {12, 18, 24, 25 :: u8})"
  using count_eq [of n 12] count_eq [of n 18] count_eq [of n 24] count_eq [of n 25]
  by (auto simp: subghz_protocol_came_const_def AIRFORCE_COUNT_BIT_def PRASTEL_25_COUNT_BIT_def CAME_24_COUNT_BIT_def)

lemma came_gap:
  assumes "came_ready d x n r" "1280 \<le> t"
  shows "parser_step (decoder (subghz_protocol_decoder_came_feed d False t)) = CameDecoderStepFoundStartBit \<and>
    messages (subghz_protocol_decoder_came_feed d False t) = came_report x n r"
  using assms came_counts [of n]
  by (simp add: came_ready_def subghz_protocol_decoder_came_feed_def decoder_steps messages_def Let_def came_report_def
      del: insert_iff)

lemma came_start:
  assumes "parser_step (decoder d) = CameDecoderStepFoundStartBit" "messages d = r"
  shows "came_ready (subghz_protocol_decoder_came_feed d True 320) 0 0 r"
  using assms by (simp add: came_ready_def subghz_protocol_decoder_came_feed_def decoder_steps messages_def
      near_def DURATION_DIFF_def)

lemma came_wait:
  assumes "came_idle d r" "t \<in> {320 * 36, 320 * 47, 320 * 76}"
  shows "parser_step (decoder (subghz_protocol_decoder_came_feed d False t)) = CameDecoderStepFoundStartBit \<and>
    messages (subghz_protocol_decoder_came_feed d False t) = r"
  using assms(1) assms(2) [unfolded insert_iff empty_iff]
  by (elim disjE) (auto simp: came_idle_def subghz_protocol_decoder_came_feed_def decoder_steps messages_def
      near_def DURATION_DIFF_def)

interpretation came: header_frames subghz_protocol_decoder_came_feed came_bit came_ready came_idle came_header
  "\<lambda>te. te \<in> {36, 47, 76}" came_report
proof unfold_locales
  show "came_ready d x n r \<Longrightarrow>
    came_ready (receive subghz_protocol_decoder_came_feed (came_bit b) d) (push_bit 1 x OR of_bool b) (n + 1) r" for d x n r b
    by (rule came_bit_step)
next
  fix h :: u32 and d r assume h: "h \<in> {36, 47, 76}" and d: "came_idle d r"
  from h have "320 * h \<in> {320 * 36, 320 * 47, 320 * 76}" and "320 * h < 2 ^ 30" by auto
  with came_wait [OF d this(1)] show "came_ready (receive subghz_protocol_decoder_came_feed (came_header h) d) 0 0 r"
    by (simp only: came_header_def receive_simps level_of_make duration_of_make) (simp add: came_start)
next
  fix h :: u32 and d x n r assume h: "h \<in> {36, 47, 76}" and d: "came_ready d x n r"
  from h have "1280 \<le> 320 * h" and "320 * h < 2 ^ 30" by auto
  with came_gap [OF d this(1)]
  show "came_ready (receive subghz_protocol_decoder_came_feed (came_header h) d) 0 0 (came_report x n r)"
    by (simp only: came_header_def receive_simps level_of_make duration_of_make) (simp add: came_start)
qed

interpretation came_link: link subghz_protocol_decoder_came_feed came_bit came_ready came_idle came_header
  "\<lambda>te. te \<in> {36, 47, 76}" came_report subghz_protocol_encoder_came_get_upload came_header_te "\<lambda>x c. c \<in> {12, 18, 24, 25}" 1280 messages
proof unfold_locales
  fix e :: SubGhzProtocolEncoderCommonGeneric assume "unat (data_count_bit (enc_generic e)) < 256"
  then show "subghz_protocol_encoder_came_get_upload e = fill_upload (unat (data_count_bit (enc_generic e)) * 2 + 2)
      (ofold put (came_header (came_header_te (data_count_bit (enc_generic e))) @
        bit_pulses came_bit 0 (generic_data (enc_generic e)) (unat (data_count_bit (enc_generic e))))) e"
    by (simp add: subghz_protocol_encoder_came_get_upload_def came_header_def send_bits_pulses Let_def ofold_Cons_fun)
qed (auto simp: came_bit_def came_header_def came_gap came_header_te_def came_report_eq CAME_12_COUNT_BIT_def
    CAME_24_COUNT_BIT_def AIRFORCE_COUNT_BIT_def PRASTEL_25_COUNT_BIT_def PRASTEL_42_COUNT_BIT_def)

text \<open>C8: What a CAME encoder with a known number of bits sends, repeated as often as it
  is told, is decoded to exactly that many messages with the bits and the bit count that were
  encoded, once the line has been silent after the last frame.\<close>

theorem came_transmission:
  assumes "data_count_bit (enc_generic e) \<in> {12, 18, 24, 25}"
    and "52 \<le> size_upload (encoder e)" "size_upload (encoder e) \<le> length (upload (encoder e))"
    and "front (encoder e) = 0" "repeat_count (encoder e) = Suc k" "1280 \<le> silence"
  shows "\<exists>e' lds e''. subghz_protocol_encoder_came_get_upload e = Some (True, e') \<and>
    transmit False (Suc k * size_upload (encoder e')) ((encoder e')\<lparr>is_running := True\<rparr>) = Some (lds, e'') \<and>
    messages (subghz_protocol_decoder_came_feed
        (receive subghz_protocol_decoder_came_feed lds (subghz_protocol_decoder_common_reset d)) False silence) =
      messages d @ replicate (Suc k)
        (take_bit (unat (data_count_bit (enc_generic e))) (generic_data (enc_generic e)), data_count_bit (enc_generic e))"
proof -
  have "came_idle (subghz_protocol_decoder_common_reset d) (messages d)"
    by (simp add: came_idle_def subghz_protocol_decoder_common_reset_def zero_CameDecoderStep_def messages_def)
  then show ?thesis by (rule came_link.transmission [OF assms(1)]) (use assms in auto)
qed

definition came_demo :: SubGhzProtocolEncoderCommonGeneric where
  "came_demo = subghz_protocol_encoder_common_alloc
     \<lparr>protocol_name = ''CAME'', generic_data = 0xABC, data_2 = 0, serial = 0, data_count_bit = 12, btn = 0,
      cnt = 0, cnt_2 = 0, seed = 0\<rparr> 3 (replicate 128 level_duration_reset)"

theorem came_transmission_witness:
  "\<exists>e' lds e''. subghz_protocol_encoder_came_get_upload came_demo = Some (True, e') \<and>
    transmit False (3 * size_upload (encoder e')) ((encoder e')\<lparr>is_running := True\<rparr>) = Some (lds, e'') \<and>
    messages (subghz_protocol_decoder_came_feed
        (receive subghz_protocol_decoder_came_feed lds (subghz_protocol_decoder_common_reset
          \<lparr>decoder = \<lparr>parser_step = CameDecoderStepCheckDuration, te_last = 0, decode_data = 7, decode_count_bit = 3\<rparr>,
           dec_generic = enc_generic came_demo, reports = []\<rparr>)) False 15040) =
      replicate 3 (0xABC, 12)"
proof -
  have c: "data_count_bit (enc_generic came_demo) \<in> {12, 18, 24, 25}" "52 \<le> size_upload (encoder came_demo)"
    "size_upload (encoder came_demo) \<le> length (upload (encoder came_demo))" "front (encoder came_demo) = 0"
    "repeat_count (encoder came_demo) = Suc (Suc (Suc 0))" "(1280 :: u32) \<le> 15040"
    by (simp_all add: came_demo_def subghz_protocol_encoder_common_alloc_def)
  have g: "generic_data (enc_generic came_demo) = 0xABC" "data_count_bit (enc_generic came_demo) = 12"
    "take_bit (unat (12 :: u16)) (0xABC :: u64) = 0xABC" "Suc (Suc (Suc 0)) = 3"
    by (simp_all add: came_demo_def subghz_protocol_encoder_common_alloc_def take_bit_eq_mod)
  have m: "messages \<lparr>decoder = \<lparr>parser_step = CameDecoderStepCheckDuration, te_last = 0, decode_data = 7,
      decode_count_bit = 3\<rparr>, dec_generic = enc_generic came_demo, reports = []\<rparr> = []"
    by (simp add: messages_def)
  show ?thesis using came_transmission [OF c, of "\<lparr>decoder = \<lparr>parser_step = CameDecoderStepCheckDuration,
      te_last = 0, decode_data = 7, decode_count_bit = 3\<rparr>, dec_generic = enc_generic came_demo, reports = []\<rparr>"]
    unfolding g m append_Nil .
qed

end
