(* ===== verification/Subghz_Gap_Codes.thy ===== *)
theory Subghz_Gap_Codes
  imports Subghz_Came
begin

text \<open>
  Four more sub-GHz protocols of the family of CAME (firmware/lib/subghz/protocols/nice\_flo.c,
  gate\_tx.c, holtek.c and ansonic.c): their uploads, decoders and readings of the message. Each
  interprets the locale \<open>link\<close>, so what it sends is what it decodes.
\<close>

lemma small_count:
  assumes "c < (64 :: u16)"
  shows "unat (ucast c :: u8) = unat c" "ucast (ucast c :: u8) = c"
proof -
  from assms have "unat c < 64" by (simp add: word_less_nat_alt)
  then show *: "unat (ucast c :: u8) = unat c"
    by (simp add: unsigned_ucast_eq take_bit_nat_eq_self)
  have "unat (ucast (ucast c :: u8) :: u16) = unat (ucast c :: u8)" by (rule unat_ucast_up) simp
  then show "ucast (ucast c :: u8) = c" by (simp only: word_unat_eq_iff *)
qed

subsection \<open>Nice FLO\<close>

definition subghz_protocol_nice_flo_const :: SubGhzBlockConst where
  "subghz_protocol_nice_flo_const = \<lparr>te_long = 1400, te_short = 700, te_delta = 250, min_count_bit_for_found = 12\<rparr>"

datatype NiceFloDecoderStep =
  NiceFloDecoderStepReset | NiceFloDecoderStepFoundStartBit | NiceFloDecoderStepSaveDuration | NiceFloDecoderStepCheckDuration

instantiation NiceFloDecoderStep :: zero
begin

definition zero_NiceFloDecoderStep :: NiceFloDecoderStep where
  "zero_NiceFloDecoderStep = NiceFloDecoderStepReset"

instance ..

end

abbreviation "nice_flo_short \<equiv> us (te_short subghz_protocol_nice_flo_const)"
abbreviation "nice_flo_long \<equiv> us (te_long subghz_protocol_nice_flo_const)"
abbreviation "nice_flo_delta \<equiv> us (te_delta subghz_protocol_nice_flo_const)"

definition nice_flo_bit :: "bool \<Rightarrow> LevelDuration list" where
  "nice_flo_bit b =
     (if b then [level_duration_make False nice_flo_long, level_duration_make True nice_flo_short]
      else [level_duration_make False nice_flo_short, level_duration_make True nice_flo_long])"

definition subghz_protocol_encoder_nice_flo_get_upload ::
    "SubGhzProtocolEncoderCommonGeneric \<Rightarrow> (bool \<times> SubGhzProtocolEncoderCommonGeneric) option" where
  "subghz_protocol_encoder_nice_flo_get_upload e =
     fill_upload (unat (data_count_bit (enc_generic e)) * 2 + 2) (\<lambda>s. do {
       s \<leftarrow> put (level_duration_make False (nice_flo_short * 36)) s;
       s \<leftarrow> put (level_duration_make True nice_flo_short) s;
       send_bits nice_flo_bit 0 (enc_generic e) s
     }) e"

definition subghz_protocol_decoder_nice_flo_feed ::
    "NiceFloDecoderStep SubGhzProtocolDecoderCommon \<Rightarrow> bool \<Rightarrow> u32 \<Rightarrow> NiceFloDecoderStep SubGhzProtocolDecoderCommon" where
  "subghz_protocol_decoder_nice_flo_feed d level duration =
     (case parser_step (decoder d) of
        NiceFloDecoderStepReset \<Rightarrow>
          if \<not> level \<and> near duration (nice_flo_short * 36) (nice_flo_delta * 29)
          then goto_step NiceFloDecoderStepFoundStartBit d else d
      | NiceFloDecoderStepFoundStartBit \<Rightarrow>
          if \<not> level then d
          else if near duration nice_flo_short nice_flo_delta
          then clear_bits (goto_step NiceFloDecoderStepSaveDuration d)
          else goto_step NiceFloDecoderStepReset d
      | NiceFloDecoderStepSaveDuration \<Rightarrow>
          if \<not> level then
            if nice_flo_short * 4 \<le> duration then
              let d = goto_step NiceFloDecoderStepFoundStartBit d
              in if min_count_bit_for_found subghz_protocol_nice_flo_const \<le> decode_count_bit (decoder d)
                 then callback (store_message (d\<lparr>dec_generic := (dec_generic d)\<lparr>serial := 0, btn := 0\<rparr>\<rparr>))
                 else d
            else goto_step NiceFloDecoderStepCheckDuration (save_te duration d)
          else goto_step NiceFloDecoderStepReset d
      | NiceFloDecoderStepCheckDuration \<Rightarrow>
          if level then
            if near (te_last (decoder d)) nice_flo_short nice_flo_delta \<and> near duration nice_flo_long nice_flo_delta
            then goto_step NiceFloDecoderStepSaveDuration (add_bit 0 d)
            else if near (te_last (decoder d)) nice_flo_long nice_flo_delta \<and> near duration nice_flo_short nice_flo_delta
            then goto_step NiceFloDecoderStepSaveDuration (add_bit 1 d)
            else goto_step NiceFloDecoderStepReset d
          else goto_step NiceFloDecoderStepReset d)"

lemma nice_flo_min [simp]: "min_count_bit_for_found subghz_protocol_nice_flo_const = 12"
  by (simp add: subghz_protocol_nice_flo_const_def)

lemma nice_flo_times [simp]: "nice_flo_short = 700" "nice_flo_long = 1400" "nice_flo_delta = 250"
  by (simp_all add: subghz_protocol_nice_flo_const_def us_def)

definition nice_flo_ready :: "NiceFloDecoderStep SubGhzProtocolDecoderCommon \<Rightarrow> u64 \<Rightarrow> u8 \<Rightarrow> (u64 \<times> u16) list \<Rightarrow> bool" where
  "nice_flo_ready d x n r = (parser_step (decoder d) = NiceFloDecoderStepSaveDuration \<and> decode_data (decoder d) = x \<and>
     decode_count_bit (decoder d) = n \<and> messages d = r)"

definition nice_flo_idle :: "NiceFloDecoderStep SubGhzProtocolDecoderCommon \<Rightarrow> (u64 \<times> u16) list \<Rightarrow> bool" where
  "nice_flo_idle d r = (parser_step (decoder d) \<in> {NiceFloDecoderStepReset, NiceFloDecoderStepFoundStartBit} \<and> messages d = r)"

definition nice_flo_header :: "unit \<Rightarrow> LevelDuration list" where
  "nice_flo_header = (\<lambda>_. [level_duration_make False 25200, level_duration_make True 700])"

definition nice_flo_report :: "u64 \<Rightarrow> u8 \<Rightarrow> (u64 \<times> u16) list \<Rightarrow> (u64 \<times> u16) list" where
  "nice_flo_report x n r = (if 12 \<le> n then r @ [(x, ucast n)] else r)"

lemma nice_flo_report_eq: "12 \<le> n \<Longrightarrow> nice_flo_report x n = (\<lambda>r. r @ [(x, ucast n)])"
  by (rule ext) (simp add: nice_flo_report_def)

lemma nice_flo_bit_step:
  "nice_flo_ready d x n r \<Longrightarrow>
   nice_flo_ready (receive subghz_protocol_decoder_nice_flo_feed (nice_flo_bit b) d) (push_bit 1 x OR of_bool b) (n + 1) r"
  by (cases b) (simp_all add: nice_flo_ready_def nice_flo_bit_def subghz_protocol_decoder_nice_flo_feed_def decoder_steps
      messages_def near_def DURATION_DIFF_def Let_def)

lemma nice_flo_gap:
  assumes "nice_flo_ready d x n r" "2800 \<le> t"
  shows "parser_step (decoder (subghz_protocol_decoder_nice_flo_feed d False t)) = NiceFloDecoderStepFoundStartBit \<and>
    messages (subghz_protocol_decoder_nice_flo_feed d False t) = nice_flo_report x n r"
  using assms
  by (simp add: nice_flo_ready_def subghz_protocol_decoder_nice_flo_feed_def decoder_steps messages_def Let_def nice_flo_report_def)

lemma nice_flo_start:
  assumes "parser_step (decoder d) = NiceFloDecoderStepFoundStartBit" "messages d = r"
  shows "nice_flo_ready (subghz_protocol_decoder_nice_flo_feed d True 700) 0 0 r"
  using assms by (simp add: nice_flo_ready_def subghz_protocol_decoder_nice_flo_feed_def decoder_steps messages_def
      near_def DURATION_DIFF_def)

lemma nice_flo_wait:
  assumes "nice_flo_idle d r"
  shows "parser_step (decoder (subghz_protocol_decoder_nice_flo_feed d False 25200)) = NiceFloDecoderStepFoundStartBit \<and>
    messages (subghz_protocol_decoder_nice_flo_feed d False 25200) = r"
  using assms by (auto simp: nice_flo_idle_def subghz_protocol_decoder_nice_flo_feed_def decoder_steps messages_def
      near_def DURATION_DIFF_def)

interpretation nice_flo: link subghz_protocol_decoder_nice_flo_feed nice_flo_bit nice_flo_ready nice_flo_idle nice_flo_header
  "\<lambda>_. True" nice_flo_report subghz_protocol_encoder_nice_flo_get_upload "\<lambda>_. ()" "\<lambda>x c. 12 \<le> c \<and> c < 64" 2800 messages
proof unfold_locales
  fix d x n r b assume "nice_flo_ready d x n r"
  then show "nice_flo_ready (receive subghz_protocol_decoder_nice_flo_feed (nice_flo_bit b) d) (push_bit 1 x OR of_bool b) (n + 1) r"
    by (rule nice_flo_bit_step)
next
  fix h :: unit and d r assume "nice_flo_idle d r"
  from nice_flo_wait [OF this] show "nice_flo_ready (receive subghz_protocol_decoder_nice_flo_feed (nice_flo_header h) d) 0 0 r"
    by (simp add: nice_flo_header_def nice_flo_start)
next
  fix h :: unit and d x n r assume "nice_flo_ready d x n r"
  from nice_flo_gap [OF this, of 25200]
  show "nice_flo_ready (receive subghz_protocol_decoder_nice_flo_feed (nice_flo_header h) d) 0 0 (nice_flo_report x n r)"
    by (simp add: nice_flo_header_def nice_flo_start)
next
  fix e :: SubGhzProtocolEncoderCommonGeneric assume "unat (data_count_bit (enc_generic e)) < 256"
  then show "subghz_protocol_encoder_nice_flo_get_upload e = fill_upload (unat (data_count_bit (enc_generic e)) * 2 + 2)
      (ofold put (nice_flo_header () @
        bit_pulses nice_flo_bit 0 (generic_data (enc_generic e)) (unat (data_count_bit (enc_generic e))))) e"
    by (simp add: subghz_protocol_encoder_nice_flo_get_upload_def nice_flo_header_def send_bits_pulses ofold_Cons_fun)
next
  fix x c assume "12 \<le> c \<and> c < (64 :: u16)"
  with small_count [of c] show "nice_flo_report x (of_nat (unat c)) = (\<lambda>r. r @ [(x, c)])" "unat c < 256"
    by (simp_all add: nice_flo_report_eq word_le_nat_alt word_less_nat_alt)
qed (auto simp: nice_flo_bit_def nice_flo_header_def nice_flo_gap)

subsection \<open>Gate TX\<close>

definition subghz_protocol_gate_tx_const :: SubGhzBlockConst where
  "subghz_protocol_gate_tx_const = \<lparr>te_long = 700, te_short = 350, te_delta = 100, min_count_bit_for_found = 24\<rparr>"

datatype GateTXDecoderStep =
  GateTXDecoderStepReset | GateTXDecoderStepFoundStartBit | GateTXDecoderStepSaveDuration | GateTXDecoderStepCheckDuration

instantiation GateTXDecoderStep :: zero
begin

definition zero_GateTXDecoderStep :: GateTXDecoderStep where
  "zero_GateTXDecoderStep = GateTXDecoderStepReset"

instance ..

end

abbreviation "gate_tx_short \<equiv> us (te_short subghz_protocol_gate_tx_const)"
abbreviation "gate_tx_long \<equiv> us (te_long subghz_protocol_gate_tx_const)"
abbreviation "gate_tx_delta \<equiv> us (te_delta subghz_protocol_gate_tx_const)"

definition gate_tx_bit :: "bool \<Rightarrow> LevelDuration list" where
  "gate_tx_bit b =
     (if b then [level_duration_make False gate_tx_long, level_duration_make True gate_tx_short]
      else [level_duration_make False gate_tx_short, level_duration_make True gate_tx_long])"

definition subghz_protocol_encoder_gate_tx_get_upload ::
    "SubGhzProtocolEncoderCommonGeneric \<Rightarrow> (bool \<times> SubGhzProtocolEncoderCommonGeneric) option" where
  "subghz_protocol_encoder_gate_tx_get_upload e =
     fill_upload (unat (data_count_bit (enc_generic e)) * 2 + 2) (\<lambda>s. do {
       s \<leftarrow> put (level_duration_make False (gate_tx_short * 49)) s;
       s \<leftarrow> put (level_duration_make True gate_tx_long) s;
       send_bits gate_tx_bit 0 (enc_generic e) s
     }) e"

definition subghz_protocol_decoder_gate_tx_feed ::
    "GateTXDecoderStep SubGhzProtocolDecoderCommon \<Rightarrow> bool \<Rightarrow> u32 \<Rightarrow> GateTXDecoderStep SubGhzProtocolDecoderCommon" where
  "subghz_protocol_decoder_gate_tx_feed d level duration =
     (case parser_step (decoder d) of
        GateTXDecoderStepReset \<Rightarrow>
          if \<not> level \<and> near duration (gate_tx_short * 47) (gate_tx_delta * 47)
          then goto_step GateTXDecoderStepFoundStartBit d else d
      | GateTXDecoderStepFoundStartBit \<Rightarrow>
          if level \<and> near duration gate_tx_long (gate_tx_delta * 3)
          then clear_bits (goto_step GateTXDecoderStepSaveDuration d)
          else goto_step GateTXDecoderStepReset d
      | GateTXDecoderStepSaveDuration \<Rightarrow>
          if \<not> level then
            if gate_tx_short * 10 + gate_tx_delta \<le> duration then
              let d = goto_step GateTXDecoderStepFoundStartBit d;
                  d = (if decode_count_bit (decoder d) = min_count_bit_for_found subghz_protocol_gate_tx_const
                       then callback (store_message d) else d)
              in clear_bits d
            else goto_step GateTXDecoderStepCheckDuration (save_te duration d)
          else d
      | GateTXDecoderStepCheckDuration \<Rightarrow>
          if level then
            if near (te_last (decoder d)) gate_tx_short gate_tx_delta \<and> near duration gate_tx_long (gate_tx_delta * 3)
            then goto_step GateTXDecoderStepSaveDuration (add_bit 0 d)
            else if near (te_last (decoder d)) gate_tx_long (gate_tx_delta * 3) \<and> near duration gate_tx_short gate_tx_delta
            then goto_step GateTXDecoderStepSaveDuration (add_bit 1 d)
            else goto_step GateTXDecoderStepReset d
          else goto_step GateTXDecoderStepReset d)"

definition subghz_protocol_gate_tx_check_remote_controller :: "SubGhzBlockGeneric \<Rightarrow> SubGhzBlockGeneric" where
  "subghz_protocol_gate_tx_check_remote_controller g =
     (let code_found_reverse = (ucast (subghz_protocol_blocks_reverse_key (generic_data g) (ucast (data_count_bit g))) :: u32)
      in g\<lparr>serial := push_bit 12 (code_found_reverse AND 0xFF) OR
              push_bit 4 (drop_bit 8 code_found_reverse AND 0xFF) OR
              (drop_bit 20 code_found_reverse AND 0x0F),
           btn := ucast (drop_bit 16 code_found_reverse AND 0x0F)\<rparr>)"

lemma gate_tx_min [simp]: "min_count_bit_for_found subghz_protocol_gate_tx_const = 24"
  by (simp add: subghz_protocol_gate_tx_const_def)

lemma gate_tx_times [simp]: "gate_tx_short = 350" "gate_tx_long = 700" "gate_tx_delta = 100"
  by (simp_all add: subghz_protocol_gate_tx_const_def us_def)

definition gate_tx_ready :: "GateTXDecoderStep SubGhzProtocolDecoderCommon \<Rightarrow> u64 \<Rightarrow> u8 \<Rightarrow> (u64 \<times> u16) list \<Rightarrow> bool" where
  "gate_tx_ready d x n r = (parser_step (decoder d) = GateTXDecoderStepSaveDuration \<and> decode_data (decoder d) = x \<and>
     decode_count_bit (decoder d) = n \<and> messages d = r)"

definition gate_tx_idle :: "GateTXDecoderStep SubGhzProtocolDecoderCommon \<Rightarrow> (u64 \<times> u16) list \<Rightarrow> bool" where
  "gate_tx_idle d r = (parser_step (decoder d) \<in> {GateTXDecoderStepReset} \<and> messages d = r)"

definition gate_tx_header :: "unit \<Rightarrow> LevelDuration list" where
  "gate_tx_header = (\<lambda>_. [level_duration_make False 17150, level_duration_make True 700])"

definition gate_tx_report :: "u64 \<Rightarrow> u8 \<Rightarrow> (u64 \<times> u16) list \<Rightarrow> (u64 \<times> u16) list" where
  "gate_tx_report x n r = (if n = 24 then r @ [(x, ucast n)] else r)"

lemma gate_tx_report_eq: "n = 24 \<Longrightarrow> gate_tx_report x n = (\<lambda>r. r @ [(x, ucast n)])"
  by (rule ext) (simp add: gate_tx_report_def)

lemma gate_tx_bit_step:
  "gate_tx_ready d x n r \<Longrightarrow>
   gate_tx_ready (receive subghz_protocol_decoder_gate_tx_feed (gate_tx_bit b) d) (push_bit 1 x OR of_bool b) (n + 1) r"
  by (cases b) (simp_all add: gate_tx_ready_def gate_tx_bit_def subghz_protocol_decoder_gate_tx_feed_def decoder_steps
      messages_def near_def DURATION_DIFF_def Let_def)

lemma gate_tx_gap:
  assumes "gate_tx_ready d x n r" "3600 \<le> t"
  shows "parser_step (decoder (subghz_protocol_decoder_gate_tx_feed d False t)) = GateTXDecoderStepFoundStartBit \<and>
    messages (subghz_protocol_decoder_gate_tx_feed d False t) = gate_tx_report x n r"
  using assms
  by (simp add: gate_tx_ready_def subghz_protocol_decoder_gate_tx_feed_def decoder_steps messages_def Let_def gate_tx_report_def)

lemma gate_tx_start:
  assumes "parser_step (decoder d) = GateTXDecoderStepFoundStartBit" "messages d = r"
  shows "gate_tx_ready (subghz_protocol_decoder_gate_tx_feed d True 700) 0 0 r"
  using assms by (simp add: gate_tx_ready_def subghz_protocol_decoder_gate_tx_feed_def decoder_steps messages_def
      near_def DURATION_DIFF_def)

lemma gate_tx_wait:
  assumes "gate_tx_idle d r"
  shows "parser_step (decoder (subghz_protocol_decoder_gate_tx_feed d False 17150)) = GateTXDecoderStepFoundStartBit \<and>
    messages (subghz_protocol_decoder_gate_tx_feed d False 17150) = r"
  using assms by (auto simp: gate_tx_idle_def subghz_protocol_decoder_gate_tx_feed_def decoder_steps messages_def
      near_def DURATION_DIFF_def)

interpretation gate_tx: link subghz_protocol_decoder_gate_tx_feed gate_tx_bit gate_tx_ready gate_tx_idle gate_tx_header
  "\<lambda>_. True" gate_tx_report subghz_protocol_encoder_gate_tx_get_upload "\<lambda>_. ()" "\<lambda>x c. c = 24" 3600 messages
proof unfold_locales
  fix d x n r b assume "gate_tx_ready d x n r"
  then show "gate_tx_ready (receive subghz_protocol_decoder_gate_tx_feed (gate_tx_bit b) d) (push_bit 1 x OR of_bool b) (n + 1) r"
    by (rule gate_tx_bit_step)
next
  fix h :: unit and d r assume "gate_tx_idle d r"
  from gate_tx_wait [OF this] show "gate_tx_ready (receive subghz_protocol_decoder_gate_tx_feed (gate_tx_header h) d) 0 0 r"
    by (simp add: gate_tx_header_def gate_tx_start)
next
  fix h :: unit and d x n r assume "gate_tx_ready d x n r"
  from gate_tx_gap [OF this, of 17150]
  show "gate_tx_ready (receive subghz_protocol_decoder_gate_tx_feed (gate_tx_header h) d) 0 0 (gate_tx_report x n r)"
    by (simp add: gate_tx_header_def gate_tx_start)
next
  fix e :: SubGhzProtocolEncoderCommonGeneric assume "unat (data_count_bit (enc_generic e)) < 256"
  then show "subghz_protocol_encoder_gate_tx_get_upload e = fill_upload (unat (data_count_bit (enc_generic e)) * 2 + 2)
      (ofold put (gate_tx_header () @
        bit_pulses gate_tx_bit 0 (generic_data (enc_generic e)) (unat (data_count_bit (enc_generic e))))) e"
    by (simp add: subghz_protocol_encoder_gate_tx_get_upload_def gate_tx_header_def send_bits_pulses ofold_Cons_fun)
qed (auto simp: gate_tx_bit_def gate_tx_header_def gate_tx_gap gate_tx_report_eq)

subsection \<open>Holtek\<close>

definition subghz_protocol_holtek_const :: SubGhzBlockConst where
  "subghz_protocol_holtek_const = \<lparr>te_long = 870, te_short = 430, te_delta = 100, min_count_bit_for_found = 40\<rparr>"

datatype HoltekDecoderStep =
  HoltekDecoderStepReset | HoltekDecoderStepFoundStartBit | HoltekDecoderStepSaveDuration | HoltekDecoderStepCheckDuration

instantiation HoltekDecoderStep :: zero
begin

definition zero_HoltekDecoderStep :: HoltekDecoderStep where
  "zero_HoltekDecoderStep = HoltekDecoderStepReset"

instance ..

end

abbreviation "holtek_short \<equiv> us (te_short subghz_protocol_holtek_const)"
abbreviation "holtek_long \<equiv> us (te_long subghz_protocol_holtek_const)"
abbreviation "holtek_delta \<equiv> us (te_delta subghz_protocol_holtek_const)"

definition holtek_bit :: "bool \<Rightarrow> LevelDuration list" where
  "holtek_bit b =
     (if b then [level_duration_make False holtek_long, level_duration_make True holtek_short]
      else [level_duration_make False holtek_short, level_duration_make True holtek_long])"

definition subghz_protocol_encoder_holtek_get_upload ::
    "SubGhzProtocolEncoderCommonGeneric \<Rightarrow> (bool \<times> SubGhzProtocolEncoderCommonGeneric) option" where
  "subghz_protocol_encoder_holtek_get_upload e =
     fill_upload (unat (data_count_bit (enc_generic e)) * 2 + 2) (\<lambda>s. do {
       s \<leftarrow> put (level_duration_make False (holtek_short * 36)) s;
       s \<leftarrow> put (level_duration_make True holtek_short) s;
       send_bits holtek_bit 0 (enc_generic e) s
     }) e"

definition HOLTEK_HEADER_MASK :: u64 where "HOLTEK_HEADER_MASK = 0xF000000000"
definition HOLTEK_HEADER :: u64 where "HOLTEK_HEADER = 0x5000000000"

definition subghz_protocol_decoder_holtek_feed ::
    "HoltekDecoderStep SubGhzProtocolDecoderCommon \<Rightarrow> bool \<Rightarrow> u32 \<Rightarrow> HoltekDecoderStep SubGhzProtocolDecoderCommon" where
  "subghz_protocol_decoder_holtek_feed d level duration =
     (case parser_step (decoder d) of
        HoltekDecoderStepReset \<Rightarrow>
          if \<not> level \<and> near duration (holtek_short * 36) (holtek_delta * 36)
          then goto_step HoltekDecoderStepFoundStartBit d else d
      | HoltekDecoderStepFoundStartBit \<Rightarrow>
          if level \<and> near duration holtek_short holtek_delta
          then clear_bits (goto_step HoltekDecoderStepSaveDuration d)
          else goto_step HoltekDecoderStepReset d
      | HoltekDecoderStepSaveDuration \<Rightarrow>
          if \<not> level then
            if holtek_short * 10 + holtek_delta \<le> duration then
              let d = (if decode_count_bit (decoder d) = min_count_bit_for_found subghz_protocol_holtek_const \<and>
                          decode_data (decoder d) AND HOLTEK_HEADER_MASK = HOLTEK_HEADER
                       then callback (store_message d) else d)
              in goto_step HoltekDecoderStepFoundStartBit (clear_bits d)
            else goto_step HoltekDecoderStepCheckDuration (save_te duration d)
          else goto_step HoltekDecoderStepReset d
      | HoltekDecoderStepCheckDuration \<Rightarrow>
          if level then
            if near (te_last (decoder d)) holtek_short holtek_delta \<and> near duration holtek_long (holtek_delta * 2)
            then goto_step HoltekDecoderStepSaveDuration (add_bit 0 d)
            else if near (te_last (decoder d)) holtek_long (holtek_delta * 2) \<and> near duration holtek_short holtek_delta
            then goto_step HoltekDecoderStepSaveDuration (add_bit 1 d)
            else goto_step HoltekDecoderStepReset d
          else goto_step HoltekDecoderStepReset d)"

definition subghz_protocol_holtek_check_remote_controller :: "SubGhzBlockGeneric \<Rightarrow> SubGhzBlockGeneric" where
  "subghz_protocol_holtek_check_remote_controller g =
     (if generic_data g AND HOLTEK_HEADER_MASK = HOLTEK_HEADER then
        let g = g\<lparr>serial := ucast (subghz_protocol_blocks_reverse_key (drop_bit 16 (generic_data g) AND 0xFFFFF) 20)\<rparr>;
            b = (ucast (generic_data g AND 0xFFFF) :: u16)
        in g\<lparr>btn :=
             (if b AND 0xf \<noteq> 0xA then push_bit 4 0x1 OR ucast (b AND 0xF)
              else if drop_bit 4 b AND 0xF \<noteq> 0xA then push_bit 4 0x2 OR ucast (drop_bit 4 b AND 0xF)
              else if drop_bit 8 b AND 0xF \<noteq> 0xA then push_bit 4 0x3 OR ucast (drop_bit 8 b AND 0xF)
              else if drop_bit 12 b AND 0xF \<noteq> 0xA then push_bit 4 0x4 OR ucast (drop_bit 12 b AND 0xF)
              else 0)\<rparr>
      else g\<lparr>serial := 0, btn := 0, cnt := 0\<rparr>)"

lemma holtek_min [simp]: "min_count_bit_for_found subghz_protocol_holtek_const = 40"
  by (simp add: subghz_protocol_holtek_const_def)

lemma holtek_times [simp]: "holtek_short = 430" "holtek_long = 870" "holtek_delta = 100"
  by (simp_all add: subghz_protocol_holtek_const_def us_def)

definition holtek_ready :: "HoltekDecoderStep SubGhzProtocolDecoderCommon \<Rightarrow> u64 \<Rightarrow> u8 \<Rightarrow> (u64 \<times> u16) list \<Rightarrow> bool" where
  "holtek_ready d x n r = (parser_step (decoder d) = HoltekDecoderStepSaveDuration \<and> decode_data (decoder d) = x \<and>
     decode_count_bit (decoder d) = n \<and> messages d = r)"

definition holtek_idle :: "HoltekDecoderStep SubGhzProtocolDecoderCommon \<Rightarrow> (u64 \<times> u16) list \<Rightarrow> bool" where
  "holtek_idle d r = (parser_step (decoder d) \<in> {HoltekDecoderStepReset} \<and> messages d = r)"

definition holtek_header :: "unit \<Rightarrow> LevelDuration list" where
  "holtek_header = (\<lambda>_. [level_duration_make False 15480, level_duration_make True 430])"

definition holtek_report :: "u64 \<Rightarrow> u8 \<Rightarrow> (u64 \<times> u16) list \<Rightarrow> (u64 \<times> u16) list" where
  "holtek_report x n r = (if n = 40 \<and> x AND HOLTEK_HEADER_MASK = HOLTEK_HEADER then r @ [(x, ucast n)] else r)"

lemma holtek_report_eq: "n = 40 \<and> x AND HOLTEK_HEADER_MASK = HOLTEK_HEADER \<Longrightarrow> holtek_report x n = (\<lambda>r. r @ [(x, ucast n)])"
  by (rule ext) (simp add: holtek_report_def)

lemma holtek_bit_step:
  "holtek_ready d x n r \<Longrightarrow>
   holtek_ready (receive subghz_protocol_decoder_holtek_feed (holtek_bit b) d) (push_bit 1 x OR of_bool b) (n + 1) r"
  by (cases b) (simp_all add: holtek_ready_def holtek_bit_def subghz_protocol_decoder_holtek_feed_def decoder_steps
      messages_def near_def DURATION_DIFF_def Let_def)

lemma holtek_gap:
  assumes "holtek_ready d x n r" "4400 \<le> t"
  shows "parser_step (decoder (subghz_protocol_decoder_holtek_feed d False t)) = HoltekDecoderStepFoundStartBit \<and>
    messages (subghz_protocol_decoder_holtek_feed d False t) = holtek_report x n r"
  using assms
  by (simp add: holtek_ready_def subghz_protocol_decoder_holtek_feed_def decoder_steps messages_def Let_def holtek_report_def)

lemma holtek_start:
  assumes "parser_step (decoder d) = HoltekDecoderStepFoundStartBit" "messages d = r"
  shows "holtek_ready (subghz_protocol_decoder_holtek_feed d True 430) 0 0 r"
  using assms by (simp add: holtek_ready_def subghz_protocol_decoder_holtek_feed_def decoder_steps messages_def
      near_def DURATION_DIFF_def)

lemma holtek_wait:
  assumes "holtek_idle d r"
  shows "parser_step (decoder (subghz_protocol_decoder_holtek_feed d False 15480)) = HoltekDecoderStepFoundStartBit \<and>
    messages (subghz_protocol_decoder_holtek_feed d False 15480) = r"
  using assms by (auto simp: holtek_idle_def subghz_protocol_decoder_holtek_feed_def decoder_steps messages_def
      near_def DURATION_DIFF_def)

interpretation holtek: link subghz_protocol_decoder_holtek_feed holtek_bit holtek_ready holtek_idle holtek_header
  "\<lambda>_. True" holtek_report subghz_protocol_encoder_holtek_get_upload "\<lambda>_. ()" "\<lambda>x c. c = 40 \<and> x AND HOLTEK_HEADER_MASK = HOLTEK_HEADER" 4400 messages
proof unfold_locales
  fix d x n r b assume "holtek_ready d x n r"
  then show "holtek_ready (receive subghz_protocol_decoder_holtek_feed (holtek_bit b) d) (push_bit 1 x OR of_bool b) (n + 1) r"
    by (rule holtek_bit_step)
next
  fix h :: unit and d r assume "holtek_idle d r"
  from holtek_wait [OF this] show "holtek_ready (receive subghz_protocol_decoder_holtek_feed (holtek_header h) d) 0 0 r"
    by (simp add: holtek_header_def holtek_start)
next
  fix h :: unit and d x n r assume "holtek_ready d x n r"
  from holtek_gap [OF this, of 15480]
  show "holtek_ready (receive subghz_protocol_decoder_holtek_feed (holtek_header h) d) 0 0 (holtek_report x n r)"
    by (simp add: holtek_header_def holtek_start)
next
  fix e :: SubGhzProtocolEncoderCommonGeneric assume "unat (data_count_bit (enc_generic e)) < 256"
  then show "subghz_protocol_encoder_holtek_get_upload e = fill_upload (unat (data_count_bit (enc_generic e)) * 2 + 2)
      (ofold put (holtek_header () @
        bit_pulses holtek_bit 0 (generic_data (enc_generic e)) (unat (data_count_bit (enc_generic e))))) e"
    by (simp add: subghz_protocol_encoder_holtek_get_upload_def holtek_header_def send_bits_pulses ofold_Cons_fun)
qed (auto simp: holtek_bit_def holtek_header_def holtek_gap holtek_report_eq)

subsection \<open>Ansonic\<close>

definition subghz_protocol_ansonic_const :: SubGhzBlockConst where
  "subghz_protocol_ansonic_const = \<lparr>te_long = 1111, te_short = 555, te_delta = 120, min_count_bit_for_found = 12\<rparr>"

datatype AnsonicDecoderStep =
  AnsonicDecoderStepReset | AnsonicDecoderStepFoundStartBit | AnsonicDecoderStepSaveDuration | AnsonicDecoderStepCheckDuration

instantiation AnsonicDecoderStep :: zero
begin

definition zero_AnsonicDecoderStep :: AnsonicDecoderStep where
  "zero_AnsonicDecoderStep = AnsonicDecoderStepReset"

instance ..

end

abbreviation "ansonic_short \<equiv> us (te_short subghz_protocol_ansonic_const)"
abbreviation "ansonic_long \<equiv> us (te_long subghz_protocol_ansonic_const)"
abbreviation "ansonic_delta \<equiv> us (te_delta subghz_protocol_ansonic_const)"

definition ansonic_bit :: "bool \<Rightarrow> LevelDuration list" where
  "ansonic_bit b =
     (if b then [level_duration_make False ansonic_short, level_duration_make True ansonic_long]
      else [level_duration_make False ansonic_long, level_duration_make True ansonic_short])"

definition subghz_protocol_encoder_ansonic_get_upload ::
    "SubGhzProtocolEncoderCommonGeneric \<Rightarrow> (bool \<times> SubGhzProtocolEncoderCommonGeneric) option" where
  "subghz_protocol_encoder_ansonic_get_upload e =
     fill_upload (unat (data_count_bit (enc_generic e)) * 2 + 2) (\<lambda>s. do {
       s \<leftarrow> put (level_duration_make False (ansonic_short * 35)) s;
       s \<leftarrow> put (level_duration_make True ansonic_short) s;
       send_bits ansonic_bit 0 (enc_generic e) s
     }) e"

definition subghz_protocol_decoder_ansonic_feed ::
    "AnsonicDecoderStep SubGhzProtocolDecoderCommon \<Rightarrow> bool \<Rightarrow> u32 \<Rightarrow> AnsonicDecoderStep SubGhzProtocolDecoderCommon" where
  "subghz_protocol_decoder_ansonic_feed d level duration =
     (case parser_step (decoder d) of
        AnsonicDecoderStepReset \<Rightarrow>
          if \<not> level \<and> near duration (ansonic_short * 35) (ansonic_delta * 35)
          then goto_step AnsonicDecoderStepFoundStartBit d else d
      | AnsonicDecoderStepFoundStartBit \<Rightarrow>
          if \<not> level then d
          else if near duration ansonic_short ansonic_delta
          then clear_bits (goto_step AnsonicDecoderStepSaveDuration d)
          else goto_step AnsonicDecoderStepReset d
      | AnsonicDecoderStepSaveDuration \<Rightarrow>
          if \<not> level then
            if ansonic_short * 4 \<le> duration then
              let d = goto_step AnsonicDecoderStepFoundStartBit d
              in if min_count_bit_for_found subghz_protocol_ansonic_const \<le> decode_count_bit (decoder d)
                 then callback (store_message (d\<lparr>dec_generic := (dec_generic d)\<lparr>serial := 0, btn := 0\<rparr>\<rparr>))
                 else d
            else goto_step AnsonicDecoderStepCheckDuration (save_te duration d)
          else goto_step AnsonicDecoderStepReset d
      | AnsonicDecoderStepCheckDuration \<Rightarrow>
          if level then
            if near (te_last (decoder d)) ansonic_short ansonic_delta \<and> near duration ansonic_long ansonic_delta
            then goto_step AnsonicDecoderStepSaveDuration (add_bit 1 d)
            else if near (te_last (decoder d)) ansonic_long ansonic_delta \<and> near duration ansonic_short ansonic_delta
            then goto_step AnsonicDecoderStepSaveDuration (add_bit 0 d)
            else goto_step AnsonicDecoderStepReset d
          else goto_step AnsonicDecoderStepReset d)"

definition subghz_protocol_ansonic_check_remote_controller :: "SubGhzBlockGeneric \<Rightarrow> SubGhzBlockGeneric" where
  "subghz_protocol_ansonic_check_remote_controller g =
     g\<lparr>cnt := ucast (generic_data g AND 0xFFF), btn := ucast (drop_bit 1 (generic_data g) AND 0x3)\<rparr>"

lemma ansonic_min [simp]: "min_count_bit_for_found subghz_protocol_ansonic_const = 12"
  by (simp add: subghz_protocol_ansonic_const_def)

lemma ansonic_times [simp]: "ansonic_short = 555" "ansonic_long = 1111" "ansonic_delta = 120"
  by (simp_all add: subghz_protocol_ansonic_const_def us_def)

definition ansonic_ready :: "AnsonicDecoderStep SubGhzProtocolDecoderCommon \<Rightarrow> u64 \<Rightarrow> u8 \<Rightarrow> (u64 \<times> u16) list \<Rightarrow> bool" where
  "ansonic_ready d x n r = (parser_step (decoder d) = AnsonicDecoderStepSaveDuration \<and> decode_data (decoder d) = x \<and>
     decode_count_bit (decoder d) = n \<and> messages d = r)"

definition ansonic_idle :: "AnsonicDecoderStep SubGhzProtocolDecoderCommon \<Rightarrow> (u64 \<times> u16) list \<Rightarrow> bool" where
  "ansonic_idle d r = (parser_step (decoder d) \<in> {AnsonicDecoderStepReset, AnsonicDecoderStepFoundStartBit} \<and> messages d = r)"

definition ansonic_header :: "unit \<Rightarrow> LevelDuration list" where
  "ansonic_header = (\<lambda>_. [level_duration_make False 19425, level_duration_make True 555])"

definition ansonic_report :: "u64 \<Rightarrow> u8 \<Rightarrow> (u64 \<times> u16) list \<Rightarrow> (u64 \<times> u16) list" where
  "ansonic_report x n r = (if 12 \<le> n then r @ [(x, ucast n)] else r)"

lemma ansonic_report_eq: "12 \<le> n \<Longrightarrow> ansonic_report x n = (\<lambda>r. r @ [(x, ucast n)])"
  by (rule ext) (simp add: ansonic_report_def)

lemma ansonic_bit_step:
  "ansonic_ready d x n r \<Longrightarrow>
   ansonic_ready (receive subghz_protocol_decoder_ansonic_feed (ansonic_bit b) d) (push_bit 1 x OR of_bool b) (n + 1) r"
  by (cases b) (simp_all add: ansonic_ready_def ansonic_bit_def subghz_protocol_decoder_ansonic_feed_def decoder_steps
      messages_def near_def DURATION_DIFF_def Let_def)

lemma ansonic_gap:
  assumes "ansonic_ready d x n r" "2220 \<le> t"
  shows "parser_step (decoder (subghz_protocol_decoder_ansonic_feed d False t)) = AnsonicDecoderStepFoundStartBit \<and>
    messages (subghz_protocol_decoder_ansonic_feed d False t) = ansonic_report x n r"
  using assms
  by (simp add: ansonic_ready_def subghz_protocol_decoder_ansonic_feed_def decoder_steps messages_def Let_def ansonic_report_def)

lemma ansonic_start:
  assumes "parser_step (decoder d) = AnsonicDecoderStepFoundStartBit" "messages d = r"
  shows "ansonic_ready (subghz_protocol_decoder_ansonic_feed d True 555) 0 0 r"
  using assms by (simp add: ansonic_ready_def subghz_protocol_decoder_ansonic_feed_def decoder_steps messages_def
      near_def DURATION_DIFF_def)

lemma ansonic_wait:
  assumes "ansonic_idle d r"
  shows "parser_step (decoder (subghz_protocol_decoder_ansonic_feed d False 19425)) = AnsonicDecoderStepFoundStartBit \<and>
    messages (subghz_protocol_decoder_ansonic_feed d False 19425) = r"
  using assms by (auto simp: ansonic_idle_def subghz_protocol_decoder_ansonic_feed_def decoder_steps messages_def
      near_def DURATION_DIFF_def)

interpretation ansonic: link subghz_protocol_decoder_ansonic_feed ansonic_bit ansonic_ready ansonic_idle ansonic_header
  "\<lambda>_. True" ansonic_report subghz_protocol_encoder_ansonic_get_upload "\<lambda>_. ()" "\<lambda>x c. c = 12" 2220 messages
proof unfold_locales
  fix d x n r b assume "ansonic_ready d x n r"
  then show "ansonic_ready (receive subghz_protocol_decoder_ansonic_feed (ansonic_bit b) d) (push_bit 1 x OR of_bool b) (n + 1) r"
    by (rule ansonic_bit_step)
next
  fix h :: unit and d r assume "ansonic_idle d r"
  from ansonic_wait [OF this] show "ansonic_ready (receive subghz_protocol_decoder_ansonic_feed (ansonic_header h) d) 0 0 r"
    by (simp add: ansonic_header_def ansonic_start)
next
  fix h :: unit and d x n r assume "ansonic_ready d x n r"
  from ansonic_gap [OF this, of 19425]
  show "ansonic_ready (receive subghz_protocol_decoder_ansonic_feed (ansonic_header h) d) 0 0 (ansonic_report x n r)"
    by (simp add: ansonic_header_def ansonic_start)
next
  fix e :: SubGhzProtocolEncoderCommonGeneric assume "unat (data_count_bit (enc_generic e)) < 256"
  then show "subghz_protocol_encoder_ansonic_get_upload e = fill_upload (unat (data_count_bit (enc_generic e)) * 2 + 2)
      (ofold put (ansonic_header () @
        bit_pulses ansonic_bit 0 (generic_data (enc_generic e)) (unat (data_count_bit (enc_generic e))))) e"
    by (simp add: subghz_protocol_encoder_ansonic_get_upload_def ansonic_header_def send_bits_pulses ofold_Cons_fun)
qed (auto simp: ansonic_bit_def ansonic_header_def ansonic_gap ansonic_report_eq)

subsection \<open>Transmissions\<close>

lemma holtek_header_take: "take_bit 40 (x :: u64) AND HOLTEK_HEADER_MASK = x AND HOLTEK_HEADER_MASK"
proof -
  have "HOLTEK_HEADER_MASK = take_bit 40 HOLTEK_HEADER_MASK" by (simp add: HOLTEK_HEADER_MASK_def take_bit_eq_mod)
  then show ?thesis by (metis take_bit_and take_bit_take_bit min.idem and.assoc and.commute take_bit_eq_mask)
qed

text \<open>A Holtek encoder with a 40-bit key whose top four bits are the header 5 is decoded to
  as many messages with this key as frames were sent.\<close>

theorem holtek_transmission:
  assumes "data_count_bit (enc_generic e) = 40" "generic_data (enc_generic e) AND HOLTEK_HEADER_MASK = HOLTEK_HEADER"
    and "82 \<le> size_upload (encoder e)" "size_upload (encoder e) \<le> length (upload (encoder e))"
    and "front (encoder e) = 0" "repeat_count (encoder e) = Suc k" "4400 \<le> silence"
  shows "\<exists>e' lds e''. subghz_protocol_encoder_holtek_get_upload e = Some (True, e') \<and>
    transmit False (Suc k * size_upload (encoder e')) ((encoder e')\<lparr>is_running := True\<rparr>) = Some (lds, e'') \<and>
    messages (subghz_protocol_decoder_holtek_feed
        (receive subghz_protocol_decoder_holtek_feed lds (subghz_protocol_decoder_common_reset d)) False silence) =
      messages d @ replicate (Suc k)
        (take_bit (unat (data_count_bit (enc_generic e))) (generic_data (enc_generic e)), data_count_bit (enc_generic e))"
proof -
  have "holtek_idle (subghz_protocol_decoder_common_reset d) (messages d)"
    by (simp add: holtek_idle_def subghz_protocol_decoder_common_reset_def zero_HoltekDecoderStep_def messages_def)
  then show ?thesis by (rule holtek.transmission [rotated]) (use assms holtek_header_take in auto)
qed

definition holtek_demo :: SubGhzProtocolEncoderCommonGeneric where
  "holtek_demo = subghz_protocol_encoder_common_alloc
     \<lparr>protocol_name = ''Holtek'', generic_data = 0x5123456789, data_2 = 0, serial = 0, data_count_bit = 40, btn = 0,
      cnt = 0, cnt_2 = 0, seed = 0\<rparr> 1 (replicate 128 level_duration_reset)"

theorem holtek_transmission_witness:
  "\<exists>e' lds e''. subghz_protocol_encoder_holtek_get_upload holtek_demo = Some (True, e') \<and>
    transmit False (1 * size_upload (encoder e')) ((encoder e')\<lparr>is_running := True\<rparr>) = Some (lds, e'') \<and>
    messages (subghz_protocol_decoder_holtek_feed
        (receive subghz_protocol_decoder_holtek_feed lds (subghz_protocol_decoder_common_reset
          \<lparr>decoder = \<lparr>parser_step = HoltekDecoderStepCheckDuration, te_last = 0, decode_data = 7, decode_count_bit = 3\<rparr>,
           dec_generic = enc_generic holtek_demo, reports = []\<rparr>)) False 20000) =
      replicate 1 (0x5123456789, 40)"
proof -
  have c: "data_count_bit (enc_generic holtek_demo) = 40" "generic_data (enc_generic holtek_demo) AND HOLTEK_HEADER_MASK = HOLTEK_HEADER"
    "82 \<le> size_upload (encoder holtek_demo)"
    "size_upload (encoder holtek_demo) \<le> length (upload (encoder holtek_demo))" "front (encoder holtek_demo) = 0"
    "repeat_count (encoder holtek_demo) = Suc 0" "(4400 :: u32) \<le> 20000"
    by (simp_all add: holtek_demo_def subghz_protocol_encoder_common_alloc_def HOLTEK_HEADER_MASK_def HOLTEK_HEADER_def)
  have g: "generic_data (enc_generic holtek_demo) = 0x5123456789" "data_count_bit (enc_generic holtek_demo) = 40"
    "take_bit (unat (40 :: u16)) (0x5123456789 :: u64) = 0x5123456789" "Suc 0 = 1"
    by (simp_all add: holtek_demo_def subghz_protocol_encoder_common_alloc_def take_bit_eq_mod One_nat_def)
  have m: "messages \<lparr>decoder = \<lparr>parser_step = HoltekDecoderStepCheckDuration, te_last = 0, decode_data = 7,
      decode_count_bit = 3\<rparr>, dec_generic = enc_generic holtek_demo, reports = []\<rparr> = []"
    by (simp add: messages_def)
  show ?thesis using holtek_transmission [OF c, of "\<lparr>decoder = \<lparr>parser_step = HoltekDecoderStepCheckDuration,
      te_last = 0, decode_data = 7, decode_count_bit = 3\<rparr>, dec_generic = enc_generic holtek_demo, reports = []\<rparr>"]
    unfolding g m append_Nil .
qed

text \<open>A Nice FLO encoder with a key of 12 to 24 bits, the lengths its file
  format admits, is decoded to as many messages with these bits as frames were sent.\<close>

theorem nice_flo_transmission:
  assumes "12 \<le> data_count_bit (enc_generic e)" "data_count_bit (enc_generic e) \<le> 24"
    and "50 \<le> size_upload (encoder e)" "size_upload (encoder e) \<le> length (upload (encoder e))"
    and "front (encoder e) = 0" "repeat_count (encoder e) = Suc k" "2800 \<le> silence"
  shows "\<exists>e' lds e''. subghz_protocol_encoder_nice_flo_get_upload e = Some (True, e') \<and>
    transmit False (Suc k * size_upload (encoder e')) ((encoder e')\<lparr>is_running := True\<rparr>) = Some (lds, e'') \<and>
    messages (subghz_protocol_decoder_nice_flo_feed
        (receive subghz_protocol_decoder_nice_flo_feed lds (subghz_protocol_decoder_common_reset d)) False silence) =
      messages d @ replicate (Suc k)
        (take_bit (unat (data_count_bit (enc_generic e))) (generic_data (enc_generic e)), data_count_bit (enc_generic e))"
proof -
  have "nice_flo_idle (subghz_protocol_decoder_common_reset d) (messages d)"
    by (simp add: nice_flo_idle_def subghz_protocol_decoder_common_reset_def zero_NiceFloDecoderStep_def messages_def)
  then show ?thesis by (rule nice_flo.transmission [rotated]) (use assms in \<open>auto simp: word_le_nat_alt word_less_nat_alt\<close>)
qed

definition nice_flo_demo :: SubGhzProtocolEncoderCommonGeneric where
  "nice_flo_demo = subghz_protocol_encoder_common_alloc
     \<lparr>protocol_name = ''Nice FLO'', generic_data = 0xABCDE, data_2 = 0, serial = 0, data_count_bit = 20, btn = 0,
      cnt = 0, cnt_2 = 0, seed = 0\<rparr> 1 (replicate 128 level_duration_reset)"

theorem nice_flo_transmission_witness:
  "\<exists>e' lds e''. subghz_protocol_encoder_nice_flo_get_upload nice_flo_demo = Some (True, e') \<and>
    transmit False (1 * size_upload (encoder e')) ((encoder e')\<lparr>is_running := True\<rparr>) = Some (lds, e'') \<and>
    messages (subghz_protocol_decoder_nice_flo_feed
        (receive subghz_protocol_decoder_nice_flo_feed lds (subghz_protocol_decoder_common_reset
          \<lparr>decoder = \<lparr>parser_step = NiceFloDecoderStepCheckDuration, te_last = 0, decode_data = 7, decode_count_bit = 3\<rparr>,
           dec_generic = enc_generic nice_flo_demo, reports = []\<rparr>)) False 20000) =
      replicate 1 (0xABCDE, 20)"
proof -
  have c: "12 \<le> data_count_bit (enc_generic nice_flo_demo)" "data_count_bit (enc_generic nice_flo_demo) \<le> 24"
    "50 \<le> size_upload (encoder nice_flo_demo)"
    "size_upload (encoder nice_flo_demo) \<le> length (upload (encoder nice_flo_demo))" "front (encoder nice_flo_demo) = 0"
    "repeat_count (encoder nice_flo_demo) = Suc 0" "(2800 :: u32) \<le> 20000"
    by (simp_all add: nice_flo_demo_def subghz_protocol_encoder_common_alloc_def word_le_nat_alt)
  have g: "generic_data (enc_generic nice_flo_demo) = 0xABCDE" "data_count_bit (enc_generic nice_flo_demo) = 20"
    "take_bit (unat (20 :: u16)) (0xABCDE :: u64) = 0xABCDE" "Suc 0 = 1"
    by (simp_all add: nice_flo_demo_def subghz_protocol_encoder_common_alloc_def take_bit_eq_mod One_nat_def)
  have m: "messages \<lparr>decoder = \<lparr>parser_step = NiceFloDecoderStepCheckDuration, te_last = 0, decode_data = 7,
      decode_count_bit = 3\<rparr>, dec_generic = enc_generic nice_flo_demo, reports = []\<rparr> = []"
    by (simp add: messages_def)
  show ?thesis using nice_flo_transmission [OF c, of "\<lparr>decoder = \<lparr>parser_step = NiceFloDecoderStepCheckDuration,
      te_last = 0, decode_data = 7, decode_count_bit = 3\<rparr>, dec_generic = enc_generic nice_flo_demo, reports = []\<rparr>"]
    unfolding g m append_Nil .
qed

subsection \<open>Reading a Gate TX message\<close>

lemma gate_tx_fields_bits:
  assumes "data_count_bit g = 24" "k < 24"
  shows "bit (generic_data g) (23 - k) =
    (if k < 8 then bit (serial (subghz_protocol_gate_tx_check_remote_controller g)) (k + 12)
     else if k < 16 then bit (serial (subghz_protocol_gate_tx_check_remote_controller g)) (k - 4)
     else if k < 20 then bit (btn (subghz_protocol_gate_tx_check_remote_controller g)) (k - 16)
     else bit (serial (subghz_protocol_gate_tx_check_remote_controller g)) (k - 20))"
proof -
  have m: "(0xFF :: u32) = mask 8" "(0x0F :: u32) = mask 4" by (simp_all add: mask_eq_exp_minus_1)
  show ?thesis using assms
    by (auto simp: subghz_protocol_gate_tx_check_remote_controller_def Let_def m bit_simps bit_mask_iff reverse_key_bit)
qed

text \<open>The serial number and the button that are shown for a 24-bit Gate TX message
  determine the message: two messages with the same reading are the same 24 bits.\<close>

theorem gate_tx_fields:
  assumes "data_count_bit g = 24" "data_count_bit g' = 24"
    and "serial (subghz_protocol_gate_tx_check_remote_controller g) = serial (subghz_protocol_gate_tx_check_remote_controller g')"
    and "btn (subghz_protocol_gate_tx_check_remote_controller g) = btn (subghz_protocol_gate_tx_check_remote_controller g')"
  shows "take_bit 24 (generic_data g) = take_bit 24 (generic_data g')"
proof (rule bit_word_eqI)
  fix k assume "k < LENGTH(64)"
  show "bit (take_bit 24 (generic_data g)) k = bit (take_bit 24 (generic_data g')) k"
  proof (cases "k < 24")
    case True
    then have "23 - k < 24" "23 - (23 - k) = k" by auto
    with gate_tx_fields_bits [OF assms(1), of "23 - k"] gate_tx_fields_bits [OF assms(2), of "23 - k"]
    show ?thesis by (simp add: assms(3,4) bit_take_bit_iff)
  qed (simp add: bit_take_bit_iff)
qed

definition gate_tx_demo :: "u64 \<Rightarrow> SubGhzBlockGeneric" where
  "gate_tx_demo x = \<lparr>protocol_name = ''GateTX'', generic_data = x, data_2 = 0, serial = 0, data_count_bit = 24, btn = 0,
      cnt = 0, cnt_2 = 0, seed = 0\<rparr>"

theorem gate_tx_fields_witness: "take_bit 24 (0x5A123456 :: u64) = take_bit 24 0x123456"
proof -
  have r: "subghz_protocol_blocks_reverse_key 0x5A123456 24 = subghz_protocol_blocks_reverse_key 0x123456 24"
    by code_simp
  have "serial (subghz_protocol_gate_tx_check_remote_controller (gate_tx_demo 0x5A123456)) =
      serial (subghz_protocol_gate_tx_check_remote_controller (gate_tx_demo 0x123456))"
    "btn (subghz_protocol_gate_tx_check_remote_controller (gate_tx_demo 0x5A123456)) =
      btn (subghz_protocol_gate_tx_check_remote_controller (gate_tx_demo 0x123456))"
    by (simp_all add: subghz_protocol_gate_tx_check_remote_controller_def gate_tx_demo_def r Let_def)
  then show ?thesis
    using gate_tx_fields [of "gate_tx_demo 0x5A123456" "gate_tx_demo 0x123456"] by (simp only: gate_tx_demo_def SubGhzBlockGeneric.simps simp_thms)
qed

end
