(* ===== verification/Keeloq.thy ===== *)
theory Keeloq
  imports Firmware_Prelude
begin

text \<open>
  The KeeLoq block cipher and the key derivations ("learnings") of the sub-GHz remotes
  (firmware/lib/subghz/protocols/keeloq\_common.c). The loops over rounds are folds over the
  round numbers; the keystore is the list of its entries. The locale \<open>round_cipher\<close> is the
  contract of a cipher whose decryption undoes the rounds in the opposite order.
\<close>

subsection \<open>The cipher\<close>

definition KEELOQ_NLF :: u32 where "KEELOQ_NLF = 0x3A5C742E"

definition keeloq_bit :: "u32 \<Rightarrow> nat \<Rightarrow> u32" where
  "keeloq_bit x n = drop_bit n x AND 1"

definition keeloq_key_bit :: "u64 \<Rightarrow> nat \<Rightarrow> u32" where
  "keeloq_key_bit k n = ucast (drop_bit n k AND 1)"

definition keeloq_g5 :: "u32 \<Rightarrow> nat \<Rightarrow> nat \<Rightarrow> nat \<Rightarrow> nat \<Rightarrow> nat \<Rightarrow> u32" where
  "keeloq_g5 x a b c d e =
     keeloq_bit x a + keeloq_bit x b * 2 + keeloq_bit x c * 4 + keeloq_bit x d * 8 + keeloq_bit x e * 16"

definition keeloq_encrypt_round :: "u64 \<Rightarrow> nat \<Rightarrow> u32 \<Rightarrow> u32" where
  "keeloq_encrypt_round k r x =
     drop_bit 1 x XOR
     push_bit 31 (keeloq_bit x 0 XOR keeloq_bit x 16 XOR keeloq_key_bit k (r AND 63) XOR
       keeloq_bit KEELOQ_NLF (unat (keeloq_g5 x 1 9 20 26 31)))"

text \<open>\<open>(15 - r) & 63\<close> on a 32-bit round counter.\<close>

definition keeloq_decrypt_round :: "u64 \<Rightarrow> nat \<Rightarrow> u32 \<Rightarrow> u32" where
  "keeloq_decrypt_round k r x =
     push_bit 1 x XOR keeloq_bit x 31 XOR keeloq_bit x 15 XOR
     keeloq_key_bit k (unat ((15 - of_nat r :: u32) AND 63)) XOR
     keeloq_bit KEELOQ_NLF (unat (keeloq_g5 x 0 8 19 25 30))"

definition subghz_protocol_keeloq_common_encrypt :: "u32 \<Rightarrow> u64 \<Rightarrow> u32" where
  "subghz_protocol_keeloq_common_encrypt data k = fold (keeloq_encrypt_round k) [0..<528] data"

definition subghz_protocol_keeloq_common_decrypt :: "u32 \<Rightarrow> u64 \<Rightarrow> u32" where
  "subghz_protocol_keeloq_common_decrypt data k = fold (keeloq_decrypt_round k) [0..<528] data"

definition subghz_protocol_keeloq_common_encrypt_rounds :: "u32 \<Rightarrow> u64 \<Rightarrow> u32 \<Rightarrow> u32" where
  "subghz_protocol_keeloq_common_encrypt_rounds data k rounds =
     fold (keeloq_encrypt_round k) [0..<unat rounds] data"

definition make_key :: "u32 \<Rightarrow> u32 \<Rightarrow> u64" where
  "make_key hi lo = push_bit 32 (ucast hi) OR ucast lo"

definition subghz_protocol_keeloq_common_manufacturer_nl_extend :: "u32 \<Rightarrow> u32 \<Rightarrow> u32 \<Rightarrow> u32 \<Rightarrow> u32" where
  "subghz_protocol_keeloq_common_manufacturer_nl_extend x k_lo k_hi outer_limit =
     fold (\<lambda>r x. if r < 0x210 then keeloq_decrypt_round (make_key k_hi k_lo) r x else x)
       [0..<unat outer_limit] x"

definition subghz_protocol_keeloq_common_manufacturer_nl_extend_encrypt ::
    "u32 \<Rightarrow> u32 \<Rightarrow> u32 \<Rightarrow> u32 \<Rightarrow> u32" where
  "subghz_protocol_keeloq_common_manufacturer_nl_extend_encrypt x k_lo k_hi outer_limit =
     fold (\<lambda>r x. if r < 0x210 then keeloq_encrypt_round (make_key k_hi k_lo) r x else x)
       [0..<unat outer_limit] x"

definition subghz_protocol_keeloq_common_decrypt_derived :: "u32 \<Rightarrow> u64 \<Rightarrow> u32 \<Rightarrow> u32" where
  "subghz_protocol_keeloq_common_decrypt_derived hop_encrypted derived_key outer_limit =
     subghz_protocol_keeloq_common_manufacturer_nl_extend hop_encrypted
       (ucast derived_key) (ucast (drop_bit 32 derived_key)) outer_limit"

definition subghz_protocol_keeloq_common_encrypt_derived :: "u32 \<Rightarrow> u64 \<Rightarrow> u32 \<Rightarrow> u32" where
  "subghz_protocol_keeloq_common_encrypt_derived data derived_key outer_limit =
     subghz_protocol_keeloq_common_manufacturer_nl_extend_encrypt data
       (ucast derived_key) (ucast (drop_bit 32 derived_key)) outer_limit"

subsection \<open>Learnings\<close>

definition subghz_protocol_keeloq_common_normal_learning :: "u32 \<Rightarrow> u64 \<Rightarrow> u64" where
  "subghz_protocol_keeloq_common_normal_learning data k =
     (let data = data AND 0x0FFFFFFF;
          data = data OR 0x20000000;
          k1 = subghz_protocol_keeloq_common_decrypt data k;
          data = data AND 0x0FFFFFFF;
          data = data OR 0x60000000;
          k2 = subghz_protocol_keeloq_common_decrypt data k
      in push_bit 32 (ucast k2) OR ucast k1)"

definition subghz_protocol_keeloq_common_secure_learning :: "u32 \<Rightarrow> u32 \<Rightarrow> u64 \<Rightarrow> u64" where
  "subghz_protocol_keeloq_common_secure_learning data seed k =
     (let data = data AND 0x0FFFFFFF;
          k1 = subghz_protocol_keeloq_common_decrypt data k;
          k2 = subghz_protocol_keeloq_common_decrypt seed k
      in push_bit 32 (ucast k1) OR ucast k2)"

definition subghz_protocol_keeloq_common_magic_xor_type1_learning :: "u32 \<Rightarrow> u64 \<Rightarrow> u64" where
  "subghz_protocol_keeloq_common_magic_xor_type1_learning data magic =
     (let data = data AND 0x0FFFFFFF
      in (push_bit 32 (ucast data) OR ucast data) XOR magic)"

definition subghz_protocol_keeloq_common_faac_learning :: "u32 \<Rightarrow> u64 \<Rightarrow> u64" where
  "subghz_protocol_keeloq_common_faac_learning seed k =
     (let hs = (ucast (drop_bit 16 seed) :: u16);
          ending = (0x544D :: u16);
          lsb = push_bit 16 (ucast hs) OR ucast ending
      in push_bit 32 (ucast (subghz_protocol_keeloq_common_encrypt seed k)) OR
         ucast (subghz_protocol_keeloq_common_encrypt lsb k))"

definition subghz_protocol_keeloq_common_magic_serial_type1_learning :: "u32 \<Rightarrow> u64 \<Rightarrow> u64" where
  "subghz_protocol_keeloq_common_magic_serial_type1_learning data man =
     (man AND 0xFFFFFFFF) OR push_bit 40 (ucast data) OR
     push_bit 32 (ucast (((data AND 0xff) + (drop_bit 8 data AND 0xFF)) AND 0xFF))"

text \<open>The bytes of an integer in memory, and the integer they make.\<close>

definition u32_memory :: "u32 \<Rightarrow> bytes" where
  "u32_memory x = map (\<lambda>i. ucast (drop_bit (8 * i) x)) [0..<4]"

definition u64_memory :: "u64 \<Rightarrow> bytes" where
  "u64_memory x = map (\<lambda>i. ucast (drop_bit (8 * i) x)) [0..<8]"

definition u64_of_memory :: "bytes \<Rightarrow> u64" where
  "u64_of_memory d = fold (\<lambda>i v. v OR push_bit (8 * i) (ucast (d ! i))) [0..<8] 0"

definition subghz_protocol_keeloq_common_magic_serial_type2_learning :: "u32 \<Rightarrow> u64 \<Rightarrow> u64" where
  "subghz_protocol_keeloq_common_magic_serial_type2_learning data man =
     (let p = u32_memory data;
          m = u64_memory man;
          m = m[7 := p ! 0];
          m = m[6 := p ! 1];
          m = m[5 := p ! 2];
          m = m[4 := p ! 3]
      in u64_of_memory m)"

definition subghz_protocol_keeloq_common_magic_serial_type3_learning :: "u32 \<Rightarrow> u64 \<Rightarrow> u64" where
  "subghz_protocol_keeloq_common_magic_serial_type3_learning data man =
     (man AND 0xFFFFFFFFFF000000) OR ucast (data AND 0xFFFFFF)"

definition subghz_protocol_keeloq_common_word_rotate16 :: "u32 \<Rightarrow> u32" where
  "subghz_protocol_keeloq_common_word_rotate16 v = drop_bit 16 v OR push_bit 16 v"

definition subghz_protocol_keeloq_common_bytes_to_key :: "bytes \<Rightarrow> u64" where
  "subghz_protocol_keeloq_common_bytes_to_key b =
     fold (\<lambda>i v. push_bit 8 v OR ucast (b ! (i - 1))) (rev [1..<9]) 0"

definition KEELOQ_NL_EXTEND_LIMIT_AERF_DEC :: u32 where "KEELOQ_NL_EXTEND_LIMIT_AERF_DEC = 0x40"
definition KEELOQ_NL_EXTEND_LIMIT_AERF_ENC :: u32 where "KEELOQ_NL_EXTEND_LIMIT_AERF_ENC = 0x240"
definition KEELOQ_ROUNDS_FULL :: u32 where "KEELOQ_ROUNDS_FULL = 528"

definition subghz_protocol_keeloq_common_learning_aerf :: "u32 \<Rightarrow> u64 \<Rightarrow> u64" where
  "subghz_protocol_keeloq_common_learning_aerf data k =
     (let k_lo = ucast k;
          k_hi = ucast (drop_bit 32 k);
          d = data AND 0x0FFFFFFF;
          k1 = subghz_protocol_keeloq_common_manufacturer_nl_extend
                 (d OR 0x20000000) k_lo k_hi KEELOQ_NL_EXTEND_LIMIT_AERF_DEC;
          k2 = subghz_protocol_keeloq_common_manufacturer_nl_extend
                 (d OR 0x60000000) k_lo k_hi KEELOQ_NL_EXTEND_LIMIT_AERF_DEC
      in push_bit 32 (ucast k1) OR ucast k2)"

definition subghz_protocol_keeloq_common_learning_erreka :: "u32 \<Rightarrow> u32 \<Rightarrow> u64 \<Rightarrow> u64" where
  "subghz_protocol_keeloq_common_learning_erreka data mix k =
     (let d = data AND 0x0FFFFFFF;
          k1 = subghz_protocol_keeloq_common_decrypt (d OR 0x20000000) k;
          r4 = drop_bit 4 mix;
          r1 = push_bit 4 mix AND 0xF000F000;
          r4 = (r4 AND 0x0F000F00) OR r1;
          r5 = mix AND 0x00FF00FF;
          x = r4 OR r5;
          x = x OR 0x60000000;
          k2 = subghz_protocol_keeloq_common_decrypt x k
      in push_bit 32 (ucast k2) OR ucast k1)"

definition subghz_protocol_keeloq_common_learning_pujol :: "u32 \<Rightarrow> u64 \<Rightarrow> u64" where
  "subghz_protocol_keeloq_common_learning_pujol data k =
     (let d = data AND 0x0FFFFFFF;
          w1 = subghz_protocol_keeloq_common_decrypt (d OR 0x20000000) k;
          w2 = subghz_protocol_keeloq_common_decrypt (d OR 0x60000000) k;
          k1 = subghz_protocol_keeloq_common_word_rotate16 w1;
          k2 = subghz_protocol_keeloq_common_word_rotate16 w2
      in push_bit 32 (ucast k2) OR ucast k1)"

definition subghz_protocol_keeloq_common_learning_jcm_gen2 :: "u32 \<Rightarrow> u8 \<Rightarrow> u64 \<Rightarrow> u64" where
  "subghz_protocol_keeloq_common_learning_jcm_gen2 data btn key =
     (let k = u64_memory key;
          b0 = (ucast data :: u8);
          b1 = (ucast (drop_bit 8 data) :: u8);
          hi = drop_bit 16 data;
          k = k[0 := k ! 0 XOR b0];
          k = k[6 := k ! 6 XOR ucast ((push_bit 4 data AND 0xFF0) OR ucast (drop_bit 4 b0))];
          mix = (push_bit 4 btn OR drop_bit 4 btn) + k ! 2;
          k = k[2 := mix];
          k = k[5 := k ! 5 - 1 - btn];
          k = k[4 := k ! 4 XOR b1];
          k7 = k ! 7;
          k4 = k ! 4;
          seed = ucast (btn XOR ucast ((push_bit 4 hi AND 0xFF0) OR (drop_bit 4 hi AND 0x0F))) OR
                 push_bit 8 (ucast (NOT b0)) OR
                 push_bit 16 (ucast (b1 XOR ucast (drop_bit 24 data AND 0x0F))) OR
                 push_bit 24 (ucast (ucast ((drop_bit 4 data AND 0xFF0) OR ucast (drop_bit 4 b1)) :: u8));
          d = subghz_protocol_keeloq_common_decrypt seed (subghz_protocol_keeloq_common_bytes_to_key k)
      in subghz_protocol_keeloq_common_bytes_to_key
           [ucast (drop_bit 24 d),
            ucast (push_bit 4 (d AND 0x0F) OR (drop_bit 4 d AND 0x0F)),
            mix + ucast ((drop_bit 4 d AND 0xFF0) OR (drop_bit 12 d AND 0x0F)),
            ucast (drop_bit 8 d),
            ucast (drop_bit 24 d) + k4 + 1,
            ucast (drop_bit 16 d),
            ucast (NOT d),
            ucast (drop_bit 16 d) + k7])"

definition subghz_protocol_keeloq_common_learning_stagnoli :: "u32 \<Rightarrow> u64 \<Rightarrow> u64" where
  "subghz_protocol_keeloq_common_learning_stagnoli data k =
     (let fx = (data AND 0x0FFFFFFF) OR 0xA0000000
      in push_bit 32 (ucast (fx XOR ucast (drop_bit 32 k))) OR ucast (fx XOR ucast k))"

definition telcoma_round :: "u32 list \<Rightarrow> u32 \<Rightarrow> u32 option" where
  "telcoma_round table x = do {
     t \<leftarrow> rd table (unat (x AND 3));
     let x = x XOR t;
     Some (push_bit 1 x OR drop_bit 31 x)
   }"

definition subghz_protocol_keeloq_common_learning_telcoma_table :: "u32 \<Rightarrow> u32 list \<Rightarrow> u64 option" where
  "subghz_protocol_keeloq_common_learning_telcoma_table data table = do {
     let x = data AND 0x0FFFFFFF;
     x \<leftarrow> ofold (\<lambda>_. telcoma_round table) [0..<32] x;
     let k1 = x;
     x \<leftarrow> ofold (\<lambda>_. telcoma_round table) [0..<32] x;
     Some (push_bit 32 (ucast k1) OR ucast x)
   }"

record SubGhzKey =
  sk_name :: string
  sk_key :: u64
  sk_type :: u16

definition KEELOQ_LEARNING_TELCOMA_TABLE_HI :: u16 where "KEELOQ_LEARNING_TELCOMA_TABLE_HI = 18"
definition KEELOQ_LEARNING_TELCOMA_TABLE_LO :: u16 where "KEELOQ_LEARNING_TELCOMA_TABLE_LO = 19"

definition telcoma_entry :: "SubGhzKey \<Rightarrow> u32 list \<times> bool \<times> bool \<Rightarrow> (u32 list \<times> bool \<times> bool) option" where
  "telcoma_entry entry = (\<lambda>(table, got_hi, got_lo).
     if sk_type entry = KEELOQ_LEARNING_TELCOMA_TABLE_HI then do {
       table \<leftarrow> wr table 0 (ucast (drop_bit 32 (sk_key entry)));
       table \<leftarrow> wr table 1 (ucast (sk_key entry));
       Some (table, True, got_lo)
     } else if sk_type entry = KEELOQ_LEARNING_TELCOMA_TABLE_LO then do {
       table \<leftarrow> wr table 2 (ucast (drop_bit 32 (sk_key entry)));
       table \<leftarrow> wr table 3 (ucast (sk_key entry));
       Some (table, got_hi, True)
     } else Some (table, got_hi, got_lo))"

definition subghz_protocol_keeloq_common_get_telcoma_table ::
    "SubGhzKey list \<Rightarrow> u32 list \<Rightarrow> (bool \<times> u32 list) option" where
  "subghz_protocol_keeloq_common_get_telcoma_table keystore table = do {
     (table, got_hi, got_lo) \<leftarrow> ofold telcoma_entry keystore (table, False, False);
     Some (got_hi \<and> got_lo, table)
   }"

subsection \<open>The contract of a round cipher\<close>

text \<open>Encryption applies the rounds \<open>0, ..., n - 1\<close>; decryption undoes them, last first.\<close>

locale round_cipher =
  fixes enc dec :: "'k \<Rightarrow> nat \<Rightarrow> 's \<Rightarrow> 's" and rounds :: nat
  assumes dec_enc: "r < rounds \<Longrightarrow> dec k (rounds - Suc r) (enc k r x) = x"
    and enc_dec: "r < rounds \<Longrightarrow> enc k r (dec k (rounds - Suc r) x) = x"
begin

lemma dec_enc_part:
  "n \<le> rounds \<Longrightarrow> fold (dec k) [rounds - n..<rounds] (fold (enc k) [0..<n] x) = x"
proof (induction n)
  case (Suc n)
  then have "[rounds - Suc n..<rounds] = (rounds - Suc n) # [rounds - n..<rounds]"
    by (simp add: upt_conv_Cons Suc_diff_Suc)
  with Suc show ?case by (simp add: dec_enc)
qed simp

lemma enc_dec_part:
  "n \<le> rounds \<Longrightarrow> fold (enc k) [rounds - n..<rounds] (fold (dec k) [0..<n] x) = x"
proof (induction n)
  case (Suc n)
  have "enc k (rounds - Suc n) (dec k n y) = y" for y
    using enc_dec [of "rounds - Suc n" k y] Suc.prems by (simp add: Suc_diff_Suc)
  moreover have "[rounds - Suc n..<rounds] = (rounds - Suc n) # [rounds - n..<rounds]"
    using Suc.prems by (simp add: upt_conv_Cons Suc_diff_Suc)
  ultimately show ?case using Suc by simp
qed simp

lemma undo_encryption: "fold (dec k) [0..<rounds] (fold (enc k) [0..<rounds] x) = x"
  using dec_enc_part [of rounds k x] by simp

lemma undo_decryption: "fold (enc k) [0..<rounds] (fold (dec k) [0..<rounds] x) = x"
  using enc_dec_part [of rounds k x] by simp

end

subsection \<open>KeeLoq rounds\<close>

lemma keeloq_bit_eq: "keeloq_bit x n = of_bool (bit x n)"
  by (simp add: keeloq_bit_def drop_and_1)

lemma keeloq_key_bit_eq: "keeloq_key_bit k n = of_bool (bit k n)"
  by (simp add: keeloq_key_bit_def drop_and_1)

text \<open>The key bits run through the key upwards when encrypting and downwards from bit 15, the
  place where encryption stopped after 528 rounds, when decrypting.\<close>

lemma low_bits_of_nat: "n \<le> 32 \<Longrightarrow> unat (take_bit n (of_nat m :: u32)) = take_bit n m"
  by (simp only: unsigned_take_bit_eq unsigned_of_nat take_bit_take_bit) (simp add: min_def)

lemma key_index:
  assumes "r < 528"
  shows "unat ((15 - of_nat (528 - Suc r) :: u32) AND 63) = r AND 63"
proof -
  have "(4294966784 :: u32) = 15 - 527" by code_simp
  then have c: "(of_nat 4294966784 :: u32) = 15 - of_nat 527" by (simp only: of_nat_numeral)
  have "(of_nat 527 :: u32) = of_nat (528 - Suc r) + of_nat r"
    using assms by (simp only: of_nat_add [symmetric]) (rule arg_cong [where f = of_nat], arith)
  then have "(15 - of_nat (528 - Suc r) :: u32) = of_nat r + of_nat 4294966784"
    unfolding c by (simp only: add_diff_eq diff_add_eq) (simp only: algebra_simps)
  also have "\<dots> = of_nat (r + 4294966784)" by (simp only: of_nat_add)
  finally have eq: "(15 - of_nat (528 - Suc r) :: u32) = of_nat (r + 4294966784)" .
  have m: "(63 :: u32) = mask 6" "(63 :: nat) = mask 6" by (code_simp, simp only: mask_eq_exp_minus_1, simp)
  have d: "(4294966784 :: nat) = 67108856 * 2 ^ 6" by simp
  have "unat (take_bit 6 (of_nat (r + 4294966784) :: u32)) = take_bit 6 (r + 4294966784)"
    by (rule low_bits_of_nat) simp
  also have "\<dots> = take_bit 6 r" unfolding take_bit_eq_mod d by (rule mod_mult_self1)
  finally show ?thesis unfolding eq m take_bit_eq_mask [symmetric] .
qed

lemma g5_shift: "keeloq_g5 (keeloq_encrypt_round k r x) 0 8 19 25 30 = keeloq_g5 x 1 9 20 26 31"
  by (simp add: keeloq_g5_def keeloq_bit_eq keeloq_key_bit_eq keeloq_encrypt_round_def bit_simps One_nat_def)

lemma g5_shift_back: "keeloq_g5 (keeloq_decrypt_round k r x) 1 9 20 26 31 = keeloq_g5 x 0 8 19 25 30"
  by (simp add: keeloq_g5_def keeloq_bit_eq keeloq_key_bit_eq keeloq_decrypt_round_def bit_simps One_nat_def)

lemma keeloq_dec_enc:
  assumes "r < 528"
  shows "keeloq_decrypt_round k (528 - Suc r) (keeloq_encrypt_round k r x) = x"
proof -
  define y where "y = keeloq_encrypt_round k r x"
  have y: "bit y n = (if n = 31 then ((bit x 0 \<noteq> bit x 16) \<noteq> bit k (r AND 63)) \<noteq>
      bit KEELOQ_NLF (unat (keeloq_g5 x 1 9 20 26 31)) else bit x (n + 1))" if "n < 32" for n
    using that unfolding y_def keeloq_encrypt_round_def keeloq_bit_eq keeloq_key_bit_eq
    by (auto simp: bit_simps add.commute dest: bit_imp_le_length)
  have "bit (keeloq_decrypt_round k (528 - Suc r) y) n = bit x n" if "n < 32" for n
    using that y [of 31] y [of 15] y [of "n - 1"]
    unfolding keeloq_decrypt_round_def key_index [OF assms] g5_shift [of k r x, folded y_def] keeloq_bit_eq keeloq_key_bit_eq
    by (cases "n = 0") (auto simp: bit_simps)
  then show ?thesis unfolding y_def by (intro bit_word_eqI) simp
qed

lemma keeloq_enc_dec:
  assumes "r < 528"
  shows "keeloq_encrypt_round k r (keeloq_decrypt_round k (528 - Suc r) x) = x"
proof -
  define y where "y = keeloq_decrypt_round k (528 - Suc r) x"
  have y: "bit y n = (if n = 0 then ((bit x 31 \<noteq> bit x 15) \<noteq> bit k (r AND 63)) \<noteq>
      bit KEELOQ_NLF (unat (keeloq_g5 x 0 8 19 25 30)) else bit x (n - 1))" if "n < 32" for n
    using that unfolding y_def keeloq_decrypt_round_def keeloq_bit_eq keeloq_key_bit_eq key_index [OF assms]
    by (auto simp: bit_simps)
  have "bit (keeloq_encrypt_round k r y) n = bit x n" if "n < 32" for n
    using that y [of 0] y [of 16] y [of "n + 1"]
    unfolding keeloq_encrypt_round_def g5_shift_back [of k "528 - Suc r" x, folded y_def] keeloq_bit_eq keeloq_key_bit_eq
    by (cases "n = 31") (auto simp: bit_simps add.commute dest: bit_imp_le_length)
  then show ?thesis unfolding y_def by (intro bit_word_eqI) simp
qed

interpretation keeloq: round_cipher keeloq_encrypt_round keeloq_decrypt_round 528
  by unfold_locales (rule keeloq_dec_enc keeloq_enc_dec, assumption)+

text \<open>C30: KeeLoq decryption and encryption under the same key undo each other, for
  every key and every 32-bit word.\<close>

theorem keeloq_roundtrip:
  "subghz_protocol_keeloq_common_decrypt (subghz_protocol_keeloq_common_encrypt x k) k = x \<and>
   subghz_protocol_keeloq_common_encrypt (subghz_protocol_keeloq_common_decrypt x k) k = x"
  unfolding subghz_protocol_keeloq_common_decrypt_def subghz_protocol_keeloq_common_encrypt_def
  using keeloq.undo_encryption keeloq.undo_decryption by (rule conjI)

subsection \<open>Outer limits\<close>

lemma make_key_halves: "make_key (ucast (drop_bit 32 k)) (ucast k) = k"
  by (rule bit_word_eqI) (auto simp: make_key_def bit_simps)

lemma fold_limited:
  "fold (\<lambda>r x. if r < m then f r x else x) [0..<n] x = fold f [0..<min n m] x"
  by (induction n) (auto simp: min_def not_less le_Suc_eq)

lemma encrypt_derived_eq:
  "subghz_protocol_keeloq_common_encrypt_derived x k n = fold (keeloq_encrypt_round k) [0..<min (unat n) 528] x"
  unfolding subghz_protocol_keeloq_common_encrypt_derived_def
    subghz_protocol_keeloq_common_manufacturer_nl_extend_encrypt_def make_key_halves fold_limited ..

lemma decrypt_derived_eq:
  "subghz_protocol_keeloq_common_decrypt_derived x k n = fold (keeloq_decrypt_round k) [0..<min (unat n) 528] x"
  unfolding subghz_protocol_keeloq_common_decrypt_derived_def
    subghz_protocol_keeloq_common_manufacturer_nl_extend_def make_key_halves fold_limited ..

text \<open>The variants with a limit on the outer loop are the cipher cut off after that
  many rounds and never run more than 528 of them: encryption is the encryption by rounds with
  the smaller of the two numbers, and from the limit 528 on both directions are the full cipher.\<close>

theorem keeloq_limits:
  "subghz_protocol_keeloq_common_encrypt_derived x k n =
     subghz_protocol_keeloq_common_encrypt_rounds x k (min n KEELOQ_ROUNDS_FULL) \<and>
   (KEELOQ_ROUNDS_FULL \<le> n \<longrightarrow>
     subghz_protocol_keeloq_common_encrypt_derived x k n = subghz_protocol_keeloq_common_encrypt x k \<and>
     subghz_protocol_keeloq_common_decrypt_derived x k n = subghz_protocol_keeloq_common_decrypt x k)"
proof -
  have m: "unat (min n KEELOQ_ROUNDS_FULL) = min (unat n) 528"
    by (auto simp: KEELOQ_ROUNDS_FULL_def min_def word_le_nat_alt)
  have "min (unat n) 528 = 528" if "KEELOQ_ROUNDS_FULL \<le> n"
    using that by (auto simp: KEELOQ_ROUNDS_FULL_def min_def word_le_nat_alt)
  then show ?thesis
    unfolding encrypt_derived_eq decrypt_derived_eq subghz_protocol_keeloq_common_encrypt_rounds_def m
      subghz_protocol_keeloq_common_encrypt_def subghz_protocol_keeloq_common_decrypt_def
    by simp
qed

theorem keeloq_limits_witness:
  "KEELOQ_ROUNDS_FULL \<le> 0x240 \<and>
   subghz_protocol_keeloq_common_encrypt_derived 0xF0123456 0x5CEC6701B79FD949 0x240 =
     subghz_protocol_keeloq_common_encrypt 0xF0123456 0x5CEC6701B79FD949"
proof -
  have "KEELOQ_ROUNDS_FULL \<le> 0x240" by (simp add: KEELOQ_ROUNDS_FULL_def)
  with keeloq_limits [of "0xF0123456" "0x5CEC6701B79FD949" "0x240"] show ?thesis by blast
qed

subsection \<open>Normal learning\<close>

lemma high_half: "ucast (drop_bit 32 (push_bit 32 (ucast (a :: u32)) OR ucast (b :: u32) :: u64)) = a"
  by (rule bit_word_eqI) (auto simp: bit_simps dest: bit_imp_le_length)

lemma low_half: "ucast (push_bit 32 (ucast (a :: u32)) OR ucast (b :: u32) :: u64) = b"
  by (rule bit_word_eqI) (auto simp: bit_simps)

lemma encrypt_decrypt_word:
  "subghz_protocol_keeloq_common_encrypt (subghz_protocol_keeloq_common_decrypt x k) k = x"
  unfolding subghz_protocol_keeloq_common_decrypt_def subghz_protocol_keeloq_common_encrypt_def
  by (rule keeloq.undo_decryption)

text \<open>Encrypting the two halves of a key learned from a serial number
  with the manufacturer key gives the serial number with the prefixes 2 and 6 back. So the serial
  number can be recovered from the learned key, and two remotes of one manufacturer share a key
  only if their 28-bit serial numbers agree.\<close>

theorem normal_learning_injective:
  "subghz_protocol_keeloq_common_encrypt
     (ucast (subghz_protocol_keeloq_common_normal_learning data k)) k = (data AND 0x0FFFFFFF) OR 0x20000000 \<and>
   subghz_protocol_keeloq_common_encrypt
     (ucast (drop_bit 32 (subghz_protocol_keeloq_common_normal_learning data k))) k =
       (data AND 0x0FFFFFFF) OR 0x60000000 \<and>
   (subghz_protocol_keeloq_common_normal_learning data k = subghz_protocol_keeloq_common_normal_learning other k
     \<longleftrightarrow> data AND 0x0FFFFFFF = other AND 0x0FFFFFFF)"
proof -
  have p: "((d AND 0x0FFFFFFF) OR 0x20000000) AND 0x0FFFFFFF = d AND 0x0FFFFFFF" for d :: u32
  proof -
    have "(0x20000000 :: u32) AND 0x0FFFFFFF = 0" by simp
    then show ?thesis by (simp only: bit.conj_disj_distrib2 and.assoc and.idem bit.disj_zero_right)
  qed
  have lo: "subghz_protocol_keeloq_common_encrypt (ucast (subghz_protocol_keeloq_common_normal_learning d k)) k =
      (d AND 0x0FFFFFFF) OR 0x20000000" for d
    unfolding subghz_protocol_keeloq_common_normal_learning_def Let_def low_half encrypt_decrypt_word ..
  have hi: "subghz_protocol_keeloq_common_encrypt
      (ucast (drop_bit 32 (subghz_protocol_keeloq_common_normal_learning d k))) k = (d AND 0x0FFFFFFF) OR 0x60000000" for d
    unfolding subghz_protocol_keeloq_common_normal_learning_def Let_def high_half p encrypt_decrypt_word ..
  have "data AND 0x0FFFFFFF = other AND 0x0FFFFFFF"
    if "subghz_protocol_keeloq_common_normal_learning data k = subghz_protocol_keeloq_common_normal_learning other k"
    using lo [of data] lo [of other] p [of data] p [of other] that by metis
  moreover have "subghz_protocol_keeloq_common_normal_learning data k = subghz_protocol_keeloq_common_normal_learning other k"
    if "data AND 0x0FFFFFFF = other AND 0x0FFFFFFF"
    unfolding subghz_protocol_keeloq_common_normal_learning_def Let_def that ..
  ultimately show ?thesis using lo [of data] hi [of data] by blast
qed

end
