(* ===== verification/Desktop_Views.thy ===== *)
theory Desktop_Views
  imports Firmware_Prelude
begin

text \<open>
  The desktop's event codes, the PIN code (firmware/applications/services/desktop/helpers/pin\_code.c) and the views that guard a locked device or drive the desktop menus
  (desktop/views/desktop\_view\_locked.c, desktop\_view\_pin\_input.c,
  desktop\_view\_pin\_timeout.c, desktop\_view\_lock\_menu.c). A view's callback posts
  events for the desktop; each operation returns the events it posts, in order, with the
  view's next state. Calling a callback that was never set is a crash (\<open>None\<close>).
  Drawing is not modelled.
\<close>

subsection \<open>Input events\<close>

datatype InputKey = InputKeyUp | InputKeyDown | InputKeyRight | InputKeyLeft | InputKeyOk | InputKeyBack

datatype InputType = InputTypePress | InputTypeRelease | InputTypeShort | InputTypeLong | InputTypeRepeat

record InputEvent =
  key :: InputKey
  type :: InputType

text \<open>The value of the enumeration constant.\<close>

fun key_code :: "InputKey \<Rightarrow> u8" where
  "key_code InputKeyUp = 0"
| "key_code InputKeyDown = 1"
| "key_code InputKeyRight = 2"
| "key_code InputKeyLeft = 3"
| "key_code InputKeyOk = 4"
| "key_code InputKeyBack = 5"

subsection \<open>Desktop events\<close>

text \<open>
  Custom events travel through the dispatcher as numbers: the constants of the enumeration
  in desktop/views/desktop\_events.h.
\<close>

definition DesktopMainEventLock :: nat where [simp]: "DesktopMainEventLock = 0"
definition DesktopMainEventOpenLockMenu :: nat where [simp]: "DesktopMainEventOpenLockMenu = 1"
definition DesktopMainEventOpenFavoriteLeftShort :: nat where [simp]: "DesktopMainEventOpenFavoriteLeftShort = 2"
definition DesktopMainEventOpenFavoriteLeftLong :: nat where [simp]: "DesktopMainEventOpenFavoriteLeftLong = 3"
definition DesktopMainEventOpenFavoriteRightShort :: nat where [simp]: "DesktopMainEventOpenFavoriteRightShort = 4"
definition DesktopMainEventOpenFavoriteRightLong :: nat where [simp]: "DesktopMainEventOpenFavoriteRightLong = 5"
definition DesktopMainEventOpenFavorites :: nat where [simp]: "DesktopMainEventOpenFavorites = 6"
definition DesktopMainEventOpenRecent :: nat where [simp]: "DesktopMainEventOpenRecent = 7"
definition DesktopMainEventOpenMenu :: nat where [simp]: "DesktopMainEventOpenMenu = 8"
definition DesktopMainEventOpenDebug :: nat where [simp]: "DesktopMainEventOpenDebug = 9"
definition DesktopMainEventOpenPowerOff :: nat where [simp]: "DesktopMainEventOpenPowerOff = 10"
definition DesktopDummyEventOpenLeft :: nat where [simp]: "DesktopDummyEventOpenLeft = 11"
definition DesktopDummyEventOpenDown :: nat where [simp]: "DesktopDummyEventOpenDown = 12"
definition DesktopDummyEventOpenOk :: nat where [simp]: "DesktopDummyEventOpenOk = 13"
definition DesktopDummyEventOpenUpLong :: nat where [simp]: "DesktopDummyEventOpenUpLong = 14"
definition DesktopDummyEventOpenDownLong :: nat where [simp]: "DesktopDummyEventOpenDownLong = 15"
definition DesktopDummyEventOpenLeftLong :: nat where [simp]: "DesktopDummyEventOpenLeftLong = 16"
definition DesktopDummyEventOpenRightLong :: nat where [simp]: "DesktopDummyEventOpenRightLong = 17"
definition DesktopDummyEventOpenOkLong :: nat where [simp]: "DesktopDummyEventOpenOkLong = 18"
definition DesktopLockedEventUnlocked :: nat where [simp]: "DesktopLockedEventUnlocked = 19"
definition DesktopLockedEventUpdate :: nat where [simp]: "DesktopLockedEventUpdate = 20"
definition DesktopLockedEventShowPinInput :: nat where [simp]: "DesktopLockedEventShowPinInput = 21"
definition DesktopLockedEventDoorsClosed :: nat where [simp]: "DesktopLockedEventDoorsClosed = 22"
definition DesktopPinInputEventResetWrongPinLabel :: nat where [simp]: "DesktopPinInputEventResetWrongPinLabel = 23"
definition DesktopPinInputEventUnlocked :: nat where [simp]: "DesktopPinInputEventUnlocked = 24"
definition DesktopPinInputEventUnlockFailed :: nat where [simp]: "DesktopPinInputEventUnlockFailed = 25"
definition DesktopPinInputEventBack :: nat where [simp]: "DesktopPinInputEventBack = 26"
definition DesktopPinTimeoutExit :: nat where [simp]: "DesktopPinTimeoutExit = 27"
definition DesktopDebugEventToggleDebugMode :: nat where [simp]: "DesktopDebugEventToggleDebugMode = 28"
definition DesktopDebugEventExit :: nat where [simp]: "DesktopDebugEventExit = 29"
definition DesktopLockMenuEventBt :: nat where [simp]: "DesktopLockMenuEventBt = 30"
definition DesktopLockMenuEventDummyModeOn :: nat where [simp]: "DesktopLockMenuEventDummyModeOn = 31"
definition DesktopLockMenuEventDummyModeOff :: nat where [simp]: "DesktopLockMenuEventDummyModeOff = 32"
definition DesktopLockMenuEventStealthModeOn :: nat where [simp]: "DesktopLockMenuEventStealthModeOn = 33"
definition DesktopLockMenuEventStealthModeOff :: nat where [simp]: "DesktopLockMenuEventStealthModeOff = 34"
definition DesktopLockMenuEventOpenQuickSettings :: nat where [simp]: "DesktopLockMenuEventOpenQuickSettings = 35"
definition DesktopQuickSettingsEventBrightnessChanged :: nat where [simp]: "DesktopQuickSettingsEventBrightnessChanged = 36"
definition DesktopQuickSettingsEventVolumeChanged :: nat where [simp]: "DesktopQuickSettingsEventVolumeChanged = 37"
definition DesktopQuickSettingsEventVibroChanged :: nat where [simp]: "DesktopQuickSettingsEventVibroChanged = 38"
definition DesktopQuickSettingsEventSave :: nat where [simp]: "DesktopQuickSettingsEventSave = 39"
definition DesktopQuickSettingsEventClose :: nat where [simp]: "DesktopQuickSettingsEventClose = 40"
definition DesktopAnimationEventCheckAnimation :: nat where [simp]: "DesktopAnimationEventCheckAnimation = 41"
definition DesktopAnimationEventNewIdleAnimation :: nat where [simp]: "DesktopAnimationEventNewIdleAnimation = 42"
definition DesktopAnimationEventInteractAnimation :: nat where [simp]: "DesktopAnimationEventInteractAnimation = 43"
definition DesktopSlideshowCompleted :: nat where [simp]: "DesktopSlideshowCompleted = 44"
definition DesktopSlideshowPoweroff :: nat where [simp]: "DesktopSlideshowPoweroff = 45"
definition DesktopHwMismatchExit :: nat where [simp]: "DesktopHwMismatchExit = 46"
definition DesktopEnclaveExit :: nat where [simp]: "DesktopEnclaveExit = 47"
definition DesktopGlobalBeforeAppStarted :: nat where [simp]: "DesktopGlobalBeforeAppStarted = 48"
definition DesktopGlobalAfterAppFinished :: nat where [simp]: "DesktopGlobalAfterAppFinished = 49"
definition DesktopGlobalAutoLock :: nat where [simp]: "DesktopGlobalAutoLock = 50"
definition DesktopGlobalApiUnlock :: nat where [simp]: "DesktopGlobalApiUnlock = 51"
definition DesktopGlobalSaveSettings :: nat where [simp]: "DesktopGlobalSaveSettings = 52"
definition DesktopGlobalReloadSettings :: nat where [simp]: "DesktopGlobalReloadSettings = 53"

subsection \<open>The PIN code\<close>

text \<open>\<open>pin_data\<close> is the array of \<open>DESKTOP_PIN_CODE_MAX_LEN\<close> bytes.\<close>

record DesktopPinCode =
  pin_data :: bytes
  pin_length :: nat

definition DESKTOP_PIN_CODE_MIN_LEN :: nat where [simp]: "DESKTOP_PIN_CODE_MIN_LEN = 4"
definition DESKTOP_PIN_CODE_MAX_LEN :: nat where [simp]: "DESKTOP_PIN_CODE_MAX_LEN = 10"
definition DESKTOP_PIN_CODE_DIGIT_BIT_WIDTH :: nat where [simp]: "DESKTOP_PIN_CODE_DIGIT_BIT_WIDTH = 2"
definition DESKTOP_PIN_CODE_LENGTH_OFFSET :: nat where [simp]: "DESKTOP_PIN_CODE_LENGTH_OFFSET = 28"

definition desktop_pin_code_pack :: "DesktopPinCode \<Rightarrow> u32 option" where
  "desktop_pin_code_pack pin_code = do {
     furi_check (pin_length pin_code \<le> DESKTOP_PIN_CODE_MAX_LEN);
     reg_value \<leftarrow> ofold (\<lambda>i reg_value. do {
         digit \<leftarrow> rd (pin_data pin_code) i;
         furi_check (digit < push_bit DESKTOP_PIN_CODE_DIGIT_BIT_WIDTH 1);
         Some (reg_value OR push_bit (i * DESKTOP_PIN_CODE_DIGIT_BIT_WIDTH) (ucast digit))
       }) [0..<pin_length pin_code] 0;
     Some (reg_value OR push_bit DESKTOP_PIN_CODE_LENGTH_OFFSET (of_nat (pin_length pin_code)))
   }"

text \<open>The packed PIN and the number of failed attempts live in backup registers of the RTC.\<close>

definition desktop_pin_code_is_set :: "u32 \<Rightarrow> bool" where
  "desktop_pin_code_is_set pin_value =
     (let len = unat (ucast (drop_bit DESKTOP_PIN_CODE_LENGTH_OFFSET pin_value) :: u8)
      in len \<ge> DESKTOP_PIN_CODE_MIN_LEN \<and> len \<le> DESKTOP_PIN_CODE_MAX_LEN)"

definition desktop_pin_code_check :: "u32 \<Rightarrow> DesktopPinCode \<Rightarrow> bool option" where
  "desktop_pin_code_check pin_value pin_code = do {
     packed \<leftarrow> desktop_pin_code_pack pin_code;
     Some (pin_value = packed)
   }"

definition desktop_pin_code_is_equal :: "DesktopPinCode \<Rightarrow> DesktopPinCode \<Rightarrow> bool option" where
  "desktop_pin_code_is_equal pin_code1 pin_code2 = do {
     furi_check (pin_length pin_code1 \<le> DESKTOP_PIN_CODE_MAX_LEN);
     furi_check (pin_length pin_code2 \<le> DESKTOP_PIN_CODE_MAX_LEN);
     Some (pin_length pin_code1 = pin_length pin_code2 \<and>
       take (pin_length pin_code1) (pin_data pin_code1) = take (pin_length pin_code1) (pin_data pin_code2))
   }"

definition desktop_helpers_fails_timeout :: "nat list" where
  "desktop_helpers_fails_timeout = [0, 0, 0, 0, 30, 60, 90, 120, 150, 180]"

definition desktop_pin_lock_get_fail_timeout :: "u32 \<Rightarrow> u32" where
  "desktop_pin_lock_get_fail_timeout pin_fails =
     (let max_index = length desktop_helpers_fails_timeout - 1 in
      if pin_fails \<le> of_nat max_index
      then of_nat (desktop_helpers_fails_timeout ! unat pin_fails)
      else of_nat (desktop_helpers_fails_timeout ! max_index) + (pin_fails - of_nat max_index) * 60)"

text \<open>A PIN as the input view produces it: two-bit digits in a full array.\<close>

definition pin_ok :: "DesktopPinCode \<Rightarrow> bool" where
  "pin_ok p \<longleftrightarrow> length (pin_data p) = DESKTOP_PIN_CODE_MAX_LEN \<and> pin_length p \<le> DESKTOP_PIN_CODE_MAX_LEN \<and>
     (\<forall>i < pin_length p. pin_data p ! i < 4)"

lemma small_u8_bits: "(x :: u8) < 4 \<Longrightarrow> bit x k \<Longrightarrow> k < 2"
  by (rule bit_nat_less [of "unat x"]) (simp_all add: bit_unsigned_iff word_less_nat_alt)

lemma pack_digits:
  assumes "length (pin_data p) = 10" "n \<le> 10" "\<forall>i < n. pin_data p ! i < 4"
  shows "\<exists>r. ofold (\<lambda>i r. do {
       digit \<leftarrow> rd (pin_data p) i;
       furi_check (digit < push_bit DESKTOP_PIN_CODE_DIGIT_BIT_WIDTH 1);
       Some (r OR push_bit (i * DESKTOP_PIN_CODE_DIGIT_BIT_WIDTH) (ucast digit))
     }) [0..<n] 0 = Some (r :: u32) \<and>
     (\<forall>k. bit r k \<longleftrightarrow> k < 2 * n \<and> bit (pin_data p ! (k div 2)) (k mod 2))"
    (is "\<exists>r. ofold ?f _ _ = _ \<and> _")
proof (rule ofold_upt_inv [where I = "\<lambda>n r. \<forall>k. bit r k \<longleftrightarrow> k < 2 * n \<and> bit (pin_data p ! (k div 2)) (k mod 2)"])
  fix i :: nat and r :: u32
  assume i: "i < n" and r: "\<forall>k. bit r k \<longleftrightarrow> k < 2 * i \<and> bit (pin_data p ! (k div 2)) (k mod 2)"
  let ?d = "pin_data p ! i"
  have d: "?d < 4" using assms(3) i by simp
  have "bit (r OR push_bit (i * 2) (ucast ?d)) k \<longleftrightarrow>
      k < 2 * Suc i \<and> bit (pin_data p ! (k div 2)) (k mod 2)" for k
  proof (cases "k < 2 * i")
    case True
    then show ?thesis using r by (simp add: bit_or_iff bit_push_bit_iff)
  next
    case False
    then obtain m where k: "k = 2 * i + m" by (metis le_add_diff_inverse not_less)
    show ?thesis
    proof (cases "m < 2")
      case True
      then have "k div 2 = i" "k mod 2 = m" by (simp_all add: k)
      then show ?thesis using r True i assms(2)
        by (simp add: k bit_or_iff bit_push_bit_iff bit_ucast_iff mult.commute)
    next
      case False
      then have "\<not> bit ?d m" using small_u8_bits [OF d] by blast
      then show ?thesis using r False by (simp add: k bit_or_iff bit_push_bit_iff bit_ucast_iff mult.commute)
    qed
  qed
  then show "\<exists>t'. ?f i r = Some t' \<and> (\<forall>k. bit t' k \<longleftrightarrow> k < 2 * Suc i \<and> bit (pin_data p ! (k div 2)) (k mod 2))"
    using d i assms(1,2) by (simp add: rd_def push_bit_eq_mult)
qed simp

lemma bit_of_nat_small: "n < 2 ^ j \<Longrightarrow> bit (of_nat n :: u32) k \<Longrightarrow> k < j"
  by (rule bit_nat_less [of n]) (simp_all add: bit_simps)

lemma pack_bits:
  assumes "pin_ok p"
  shows "\<exists>r. desktop_pin_code_pack p = Some r \<and>
    (\<forall>k < 20. bit r k \<longleftrightarrow> k < 2 * pin_length p \<and> bit (pin_data p ! (k div 2)) (k mod 2)) \<and>
    drop_bit 28 r = of_nat (pin_length p)"
proof -
  let ?n = "pin_length p"
  from assms have n: "?n \<le> 10" "length (pin_data p) = 10" "\<forall>i < ?n. pin_data p ! i < 4"
    by (auto simp: pin_ok_def)
  from pack_digits [OF n(2,1,3)] obtain r0 where r0: "desktop_pin_code_pack p = Some (r0 OR push_bit 28 (of_nat ?n))"
    "\<forall>k. bit r0 k \<longleftrightarrow> k < 2 * ?n \<and> bit (pin_data p ! (k div 2)) (k mod 2)"
    using n(1) by (auto simp: desktop_pin_code_pack_def)
  let ?r = "r0 OR push_bit 28 (of_nat ?n) :: u32"
  have "bit ?r k \<longleftrightarrow> k < 2 * ?n \<and> bit (pin_data p ! (k div 2)) (k mod 2)" if "k < 20" for k
    using that r0(2) by (simp add: bit_or_iff bit_push_bit_iff)
  moreover have "drop_bit 28 ?r = of_nat ?n"
  proof (rule bit_word_eqI)
    fix k assume "k < LENGTH(32)"
    have "bit (of_nat ?n :: u32) k \<Longrightarrow> k < 4" using bit_of_nat_small [of ?n 4 k] n(1) by simp
    moreover have "\<not> bit r0 (28 + k)" using r0(2) n(1) by simp
    ultimately show "bit (drop_bit 28 ?r) k = bit (of_nat ?n :: u32) k"
      by (auto simp: bit_drop_bit_eq bit_or_iff bit_push_bit_iff)
  qed
  ultimately show ?thesis using r0(1) by blast
qed

lemma pack_total: "pin_ok p \<Longrightarrow> \<exists>r. desktop_pin_code_pack p = Some r"
  using pack_bits by blast

lemma of_nat_u32_inj: "m \<le> 10 \<Longrightarrow> n \<le> 10 \<Longrightarrow> (of_nat m :: u32) = of_nat n \<longleftrightarrow> m = n"
  by (simp add: word_unat_eq_iff unat_of_nat)

lemma pack_eq_iff:
  assumes p: "pin_ok p" and q: "pin_ok q"
  shows "desktop_pin_code_pack p = desktop_pin_code_pack q \<longleftrightarrow>
    pin_length p = pin_length q \<and> take (pin_length p) (pin_data p) = take (pin_length q) (pin_data q)"
proof
  from pack_bits [OF p] obtain r where r: "desktop_pin_code_pack p = Some r"
      "\<forall>k < 20. bit r k \<longleftrightarrow> k < 2 * pin_length p \<and> bit (pin_data p ! (k div 2)) (k mod 2)"
      "drop_bit 28 r = of_nat (pin_length p)" by blast
  from pack_bits [OF q] obtain s where s: "desktop_pin_code_pack q = Some s"
      "\<forall>k < 20. bit s k \<longleftrightarrow> k < 2 * pin_length q \<and> bit (pin_data q ! (k div 2)) (k mod 2)"
      "drop_bit 28 s = of_nat (pin_length q)" by blast
  have n: "pin_length p \<le> 10" "pin_length q \<le> 10" "length (pin_data p) = 10" "length (pin_data q) = 10"
    "\<forall>i < pin_length p. pin_data p ! i < 4" "\<forall>i < pin_length q. pin_data q ! i < 4"
    using p q by (auto simp: pin_ok_def)
  assume "desktop_pin_code_pack p = desktop_pin_code_pack q"
  then have rs: "r = s" using r(1) s(1) by simp
  then have len: "pin_length p = pin_length q" using r(3) s(3) of_nat_u32_inj n(1,2) by metis
  have "pin_data p ! i = pin_data q ! i" if i: "i < pin_length p" for i
  proof (rule bit_word_eqI)
    fix k assume "k < LENGTH(8)"
    show "bit (pin_data p ! i) k = bit (pin_data q ! i) k"
    proof (cases "k < 2")
      case True
      then have "(2 * i + k) div 2 = i" "(2 * i + k) mod 2 = k" "2 * i + k < 20" "2 * i + k < 2 * pin_length p"
        using i n(1) by auto
      then show ?thesis using r(2) s(2) rs len by metis
    next
      case False
      then show ?thesis using small_u8_bits n(5,6) i len by metis
    qed
  qed
  then show "pin_length p = pin_length q \<and> take (pin_length p) (pin_data p) = take (pin_length q) (pin_data q)"
    using len n by (auto intro!: nth_equalityI)
next
  assume eq: "pin_length p = pin_length q \<and> take (pin_length p) (pin_data p) = take (pin_length q) (pin_data q)"
  then have same: "pin_data p ! i = pin_data q ! i" if "i < pin_length q" for i
    using that by (metis nth_take)
  have len: "length (pin_data p) = 10" "length (pin_data q) = 10" "pin_length q \<le> 10" using p q by (auto simp: pin_ok_def)
  let ?f = "\<lambda>p i r. Option.bind (rd (pin_data p) i) (\<lambda>digit.
      Option.bind (furi_check (digit < push_bit DESKTOP_PIN_CODE_DIGIT_BIT_WIDTH 1)) (\<lambda>_.
        Some (r OR push_bit (i * DESKTOP_PIN_CODE_DIGIT_BIT_WIDTH) (ucast digit :: u32))))"
  have "ofold (?f p) [0..<pin_length q] 0 = ofold (?f q) [0..<pin_length q] 0"
    by (rule ofold_cong [OF refl refl]) (use same len in \<open>simp add: rd_def\<close>)
  then show "desktop_pin_code_pack p = desktop_pin_code_pack q"
    unfolding desktop_pin_code_pack_def eq [THEN conjunct1] by (simp only:)
qed

subsection \<open>The locked view\<close>

datatype DesktopViewLockedState =
  DesktopViewLockedStateUnlocked | DesktopViewLockedStateLocked | DesktopViewLockedStateDoorsClosing |
  DesktopViewLockedStateLockedHintShown | DesktopViewLockedStateUnlockedHintShown

text \<open>\<open>lv_timer\<close> is the period of the view's timer when it runs; \<open>lv_callback\<close>
  says whether the callback was set.\<close>

record DesktopViewLocked =
  lv_callback :: bool
  lv_timer :: "nat option"
  lv_lock_count :: u8
  lv_lock_lastpress :: u32
  lv_pin_locked :: bool
  lv_door_offset :: int
  lv_view_state :: DesktopViewLockedState

definition DOOR_MOVING_INTERVAL_MS :: nat where [simp]: "DOOR_MOVING_INTERVAL_MS = 1000 div 16"
definition LOCKED_HINT_TIMEOUT_MS :: nat where [simp]: "LOCKED_HINT_TIMEOUT_MS = 1000"
definition UNLOCKED_HINT_TIMEOUT_MS :: nat where [simp]: "UNLOCKED_HINT_TIMEOUT_MS = 2000"
definition UNLOCK_CNT :: u8 where [simp]: "UNLOCK_CNT = 3"
definition UNLOCK_RST_TIMEOUT :: u32 where [simp]: "UNLOCK_RST_TIMEOUT = 600"
definition DOOR_OFFSET_START :: int where [simp]: "DOOR_OFFSET_START = -55"
definition DOOR_OFFSET_END :: int where [simp]: "DOOR_OFFSET_END = 0"

text \<open>Post an event through a callback that must have been set.\<close>

definition post :: "bool \<Rightarrow> nat \<Rightarrow> nat list \<Rightarrow> nat list option" where
  "post callback event events = (if callback then Some (events @ [event]) else None)"

definition desktop_view_locked_alloc :: DesktopViewLocked where
  "desktop_view_locked_alloc = \<lparr>lv_callback = False, lv_timer = None, lv_lock_count = 0,
     lv_lock_lastpress = 0, lv_pin_locked = False, lv_door_offset = 0,
     lv_view_state = DesktopViewLockedStateUnlocked\<rparr>"

definition desktop_view_locked_set_callback :: "DesktopViewLocked \<Rightarrow> DesktopViewLocked" where
  "desktop_view_locked_set_callback v = v\<lparr>lv_callback := True\<rparr>"

definition locked_view_timer_callback :: "DesktopViewLocked \<Rightarrow> nat list option" where
  "locked_view_timer_callback v = post (lv_callback v) DesktopLockedEventUpdate []"

definition desktop_view_locked_doors_move :: "DesktopViewLocked \<Rightarrow> bool \<times> DesktopViewLocked" where
  "desktop_view_locked_doors_move v =
     (if lv_door_offset v < DOOR_OFFSET_END
      then (True, v\<lparr>lv_door_offset := min DOOR_OFFSET_END (max (lv_door_offset v + 5) DOOR_OFFSET_START)\<rparr>)
      else (False, v))"

definition desktop_view_locked_update_hint_icon_timeout :: "DesktopViewLocked \<Rightarrow> DesktopViewLocked" where
  "desktop_view_locked_update_hint_icon_timeout v =
     (let change_state = lv_view_state v = DesktopViewLockedStateLocked \<and> \<not> lv_pin_locked v;
          v = (if change_state then v\<lparr>lv_view_state := DesktopViewLockedStateLockedHintShown\<rparr> else v)
      in v\<lparr>lv_timer := Some LOCKED_HINT_TIMEOUT_MS\<rparr>)"

definition desktop_view_locked_update :: "DesktopViewLocked \<Rightarrow> (nat list \<times> DesktopViewLocked) option" where
  "desktop_view_locked_update v = do {
     let view_state = lv_view_state v;
     (events, v) \<leftarrow>
       (if view_state = DesktopViewLockedStateDoorsClosing then
          (case desktop_view_locked_doors_move v of
             (True, v) \<Rightarrow> Some ([], v)
           | (False, v) \<Rightarrow> do {
               events \<leftarrow> post (lv_callback v) DesktopLockedEventDoorsClosed [];
               Some (events, v\<lparr>lv_view_state := DesktopViewLockedStateLocked\<rparr>)
             })
        else if view_state = DesktopViewLockedStateLockedHintShown then
          Some ([], v\<lparr>lv_view_state := DesktopViewLockedStateLocked\<rparr>)
        else if view_state = DesktopViewLockedStateUnlockedHintShown then
          Some ([], v\<lparr>lv_view_state := DesktopViewLockedStateUnlocked\<rparr>)
        else Some ([], v));
     Some (events, if view_state \<noteq> DesktopViewLockedStateDoorsClosing then v\<lparr>lv_timer := None\<rparr> else v)
   }"

text \<open>\<open>press_time\<close> is \<open>furi_get_tick()\<close>.\<close>

definition desktop_view_locked_input ::
    "u32 \<Rightarrow> InputEvent \<Rightarrow> DesktopViewLocked \<Rightarrow> (bool \<times> nat list \<times> DesktopViewLocked) option" where
  "desktop_view_locked_input press_time event v = do {
     let v = (if lv_view_state v = DesktopViewLockedStateUnlockedHintShown \<and> type event = InputTypePress
              then v\<lparr>lv_view_state := DesktopViewLockedStateUnlocked\<rparr> else v);
     let view_state = lv_view_state v;
     let pin_locked = lv_pin_locked v;
     if view_state = DesktopViewLockedStateUnlocked then Some (False, [], v)
     else if view_state = DesktopViewLockedStateLocked \<and> pin_locked then do {
       events \<leftarrow> post (lv_callback v) DesktopLockedEventShowPinInput [];
       Some (True, events, v)
     } else if view_state = DesktopViewLockedStateLocked \<or>
               view_state = DesktopViewLockedStateLockedHintShown then do {
       let v = (if press_time - lv_lock_lastpress v > UNLOCK_RST_TIMEOUT
                then v\<lparr>lv_lock_lastpress := press_time, lv_lock_count := 0\<rparr> else v);
       let v = desktop_view_locked_update_hint_icon_timeout v;
       (events, v) \<leftarrow>
         (if key event = InputKeyBack then
            (if type event = InputTypeShort then do {
               let v = v\<lparr>lv_lock_lastpress := press_time, lv_lock_count := lv_lock_count v + 1\<rparr>;
               events \<leftarrow> (if lv_lock_count v = UNLOCK_CNT
                          then post (lv_callback v) DesktopLockedEventUnlocked [] else Some []);
               Some (events, v)
             } else Some ([], v))
          else Some ([], v\<lparr>lv_lock_count := 0\<rparr>));
       Some (True, events, v\<lparr>lv_lock_lastpress := press_time\<rparr>)
     } else Some (True, [], v)
   }"

definition desktop_view_locked_close_doors :: "bool \<Rightarrow> DesktopViewLocked \<Rightarrow> DesktopViewLocked option" where
  "desktop_view_locked_close_doors furi_debug v = do {
     furi_assert furi_debug (lv_view_state v = DesktopViewLockedStateLocked);
     Some (v\<lparr>lv_view_state := DesktopViewLockedStateDoorsClosing, lv_door_offset := DOOR_OFFSET_START,
             lv_timer := Some DOOR_MOVING_INTERVAL_MS\<rparr>)
   }"

definition desktop_view_locked_lock :: "bool \<Rightarrow> bool \<Rightarrow> DesktopViewLocked \<Rightarrow> DesktopViewLocked option" where
  "desktop_view_locked_lock furi_debug pin_locked v = do {
     furi_assert furi_debug (lv_view_state v = DesktopViewLockedStateUnlocked);
     Some (v\<lparr>lv_view_state := DesktopViewLockedStateLocked, lv_pin_locked := pin_locked\<rparr>)
   }"

definition desktop_view_locked_unlock :: "DesktopViewLocked \<Rightarrow> DesktopViewLocked" where
  "desktop_view_locked_unlock v =
     v\<lparr>lv_lock_count := 0, lv_view_state := DesktopViewLockedStateUnlockedHintShown,
       lv_pin_locked := False, lv_timer := Some UNLOCKED_HINT_TIMEOUT_MS\<rparr>"

definition desktop_view_locked_is_locked_hint_visible :: "DesktopViewLocked \<Rightarrow> bool" where
  "desktop_view_locked_is_locked_hint_visible v \<longleftrightarrow>
     lv_view_state v = DesktopViewLockedStateLockedHintShown \<or> lv_view_state v = DesktopViewLockedStateLocked"

subsection \<open>The PIN input view\<close>

text \<open>The labels and positions that are only drawn are left out.\<close>

record DesktopViewPinInput =
  pi_pin :: DesktopPinCode
  pi_pin_hidden :: bool
  pi_locked_input :: bool
  pi_timer :: bool

definition desktop_view_pin_input_alloc :: DesktopViewPinInput where
  "desktop_view_pin_input_alloc =
     \<lparr>pi_pin = \<lparr>pin_data = replicate DESKTOP_PIN_CODE_MAX_LEN 0, pin_length = 0\<rparr>,
      pi_pin_hidden = False, pi_locked_input = False, pi_timer = False\<rparr>"

text \<open>The result says which callback the view makes: the PIN that was entered, or back.\<close>

datatype pin_input_call = PinDone DesktopPinCode | PinBack

definition desktop_view_pin_input_input ::
    "InputEvent \<Rightarrow> DesktopViewPinInput \<Rightarrow> (pin_input_call option \<times> DesktopViewPinInput) option" where
  "desktop_view_pin_input_input event v = do {
     let pin = pi_pin v;
     (call, pin) \<leftarrow>
       (if type event = InputTypeShort then
          (case key event of
             InputKeyOk \<Rightarrow>
               Some (if pin_length pin \<ge> DESKTOP_PIN_CODE_MIN_LEN then Some (PinDone pin) else None, pin)
           | InputKeyBack \<Rightarrow>
               (if \<not> pi_locked_input v then
                  (if pin_length pin > 0 then Some (None, pin\<lparr>pin_length := 0\<rparr>) else Some (Some PinBack, pin))
                else Some (None, pin))
           | k \<Rightarrow>
               (if \<not> pi_locked_input v \<and> pin_length pin < DESKTOP_PIN_CODE_MAX_LEN then do {
                  d \<leftarrow> wr (pin_data pin) (pin_length pin) (key_code k);
                  Some (None, pin\<lparr>pin_data := d, pin_length := pin_length pin + 1\<rparr>)
                } else Some (None, pin)))
        else Some (None, pin));
     Some (call, v\<lparr>pi_pin := pin, pi_timer := True\<rparr>)
   }"

definition desktop_view_pin_input_enter :: "DesktopViewPinInput \<Rightarrow> DesktopViewPinInput" where
  "desktop_view_pin_input_enter v = v\<lparr>pi_timer := True\<rparr>"

definition desktop_view_pin_input_exit :: "DesktopViewPinInput \<Rightarrow> DesktopViewPinInput" where
  "desktop_view_pin_input_exit v = v\<lparr>pi_timer := False\<rparr>"

definition desktop_view_pin_input_lock_input :: "DesktopViewPinInput \<Rightarrow> DesktopViewPinInput" where
  "desktop_view_pin_input_lock_input v = v\<lparr>pi_locked_input := True\<rparr>"

definition desktop_view_pin_input_unlock_input :: "DesktopViewPinInput \<Rightarrow> DesktopViewPinInput" where
  "desktop_view_pin_input_unlock_input v = v\<lparr>pi_locked_input := False\<rparr>"

definition desktop_view_pin_input_set_pin :: "DesktopPinCode \<Rightarrow> DesktopViewPinInput \<Rightarrow> DesktopViewPinInput" where
  "desktop_view_pin_input_set_pin pin v = v\<lparr>pi_pin := pin\<rparr>"

definition desktop_view_pin_input_reset_pin :: "DesktopViewPinInput \<Rightarrow> DesktopViewPinInput" where
  "desktop_view_pin_input_reset_pin v = v\<lparr>pi_pin := (pi_pin v)\<lparr>pin_length := 0\<rparr>\<rparr>"

definition desktop_view_pin_input_hide_pin :: "bool \<Rightarrow> DesktopViewPinInput \<Rightarrow> DesktopViewPinInput" where
  "desktop_view_pin_input_hide_pin hidden v = v\<lparr>pi_pin_hidden := hidden\<rparr>"

subsection \<open>The PIN timeout view\<close>

record DesktopViewPinTimeout =
  pt_callback :: bool
  pt_timer :: bool
  pt_time_left :: u32

definition desktop_view_pin_timeout_alloc :: DesktopViewPinTimeout where
  "desktop_view_pin_timeout_alloc = \<lparr>pt_callback = False, pt_timer = False, pt_time_left = 0\<rparr>"

definition desktop_view_pin_timeout_set_callback :: "DesktopViewPinTimeout \<Rightarrow> DesktopViewPinTimeout" where
  "desktop_view_pin_timeout_set_callback v = v\<lparr>pt_callback := True\<rparr>"

definition desktop_view_pin_timeout_timer_callback ::
    "DesktopViewPinTimeout \<Rightarrow> (nat list \<times> DesktopViewPinTimeout) option" where
  "desktop_view_pin_timeout_timer_callback v =
     (if pt_time_left v > 0 then Some ([], v\<lparr>pt_time_left := pt_time_left v - 1\<rparr>)
      else do {
        events \<leftarrow> post (pt_callback v) DesktopPinTimeoutExit [];
        Some (events, v\<lparr>pt_timer := False\<rparr>)
      })"

definition desktop_view_pin_timeout_input :: "InputEvent \<Rightarrow> bool" where
  "desktop_view_pin_timeout_input event = True"

definition desktop_view_pin_timeout_start :: "u32 \<Rightarrow> DesktopViewPinTimeout \<Rightarrow> DesktopViewPinTimeout" where
  "desktop_view_pin_timeout_start time_left v = v\<lparr>pt_time_left := time_left, pt_timer := True\<rparr>"

subsection \<open>The lock menu\<close>

record DesktopLockMenuView =
  lm_callback :: bool
  lm_idx :: nat
  lm_dummy_mode :: bool
  lm_stealth_mode :: bool
  lm_bt_mode :: bool

definition DesktopLockMenuIndexBt :: nat where [simp]: "DesktopLockMenuIndexBt = 0"
definition DesktopLockMenuIndexStealth :: nat where [simp]: "DesktopLockMenuIndexStealth = 1"
definition DesktopLockMenuIndexDummy :: nat where [simp]: "DesktopLockMenuIndexDummy = 2"
definition DesktopLockMenuIndexTotalCount :: nat where [simp]: "DesktopLockMenuIndexTotalCount = 3"

definition desktop_lock_menu_set_idx :: "bool \<Rightarrow> nat \<Rightarrow> DesktopLockMenuView \<Rightarrow> DesktopLockMenuView option" where
  "desktop_lock_menu_set_idx furi_debug idx v = do {
     furi_assert furi_debug (idx < DesktopLockMenuIndexTotalCount);
     Some (v\<lparr>lm_idx := idx\<rparr>)
   }"

text \<open>\<open>CLAMP(x, upper, lower)\<close> of core\_defines.h.\<close>

definition clamp :: "int \<Rightarrow> int \<Rightarrow> int \<Rightarrow> int" where
  "clamp x upper lower = min upper (max x lower)"

definition desktop_lock_menu_input_callback ::
    "InputEvent \<Rightarrow> DesktopLockMenuView \<Rightarrow> (bool \<times> nat list \<times> DesktopLockMenuView) option" where
  "desktop_lock_menu_input_callback event v = do {
     let (consumed, v) =
       (if type event = InputTypeShort \<or> type event = InputTypeRepeat then
          (if key event = InputKeyUp then
             (True, v\<lparr>lm_idx := if lm_idx v = 0 then DesktopLockMenuIndexTotalCount - 1
                else nat (clamp (int (lm_idx v) - 1) (int DesktopLockMenuIndexTotalCount - 1) 0)\<rparr>)
           else if key event = InputKeyDown then
             (True, v\<lparr>lm_idx := if lm_idx v = DesktopLockMenuIndexTotalCount - 1 then 0
                else nat (clamp (int (lm_idx v) + 1) (int DesktopLockMenuIndexTotalCount - 1) 0)\<rparr>)
           else (False, v))
        else (False, v));
     let idx = lm_idx v;
     (consumed, events) \<leftarrow>
       (if key event = InputKeyOk then do {
          events \<leftarrow>
            (if idx = DesktopLockMenuIndexBt then
               (if type event = InputTypeShort then post (lm_callback v) DesktopLockMenuEventBt [] else Some [])
             else if idx = DesktopLockMenuIndexStealth then
               (if \<not> lm_stealth_mode v \<and> type event = InputTypeShort then
                  post (lm_callback v) DesktopLockMenuEventStealthModeOn []
                else if lm_stealth_mode v \<and> type event = InputTypeShort then
                  post (lm_callback v) DesktopLockMenuEventStealthModeOff []
                else Some [])
             else if idx = DesktopLockMenuIndexDummy then
               (if \<not> lm_dummy_mode v \<and> type event = InputTypeShort then
                  post (lm_callback v) DesktopLockMenuEventDummyModeOn []
                else if lm_dummy_mode v \<and> type event = InputTypeShort then
                  post (lm_callback v) DesktopLockMenuEventDummyModeOff []
                else Some [])
             else Some []);
          Some (True, events)
        } else Some (consumed, []));
     (consumed, events) \<leftarrow>
       (if key event = InputKeyLeft \<or> key event = InputKeyRight then do {
          events \<leftarrow> (if type event = InputTypeShort
                      then post (lm_callback v) DesktopLockMenuEventOpenQuickSettings events
                      else Some events);
          Some (True, events)
        } else Some (consumed, events));
     Some (consumed, events, v)
   }"

subsection \<open>The main view\<close>

record DesktopMainView =
  mv_callback :: bool
  mv_dummy_mode :: bool
  mv_poweroff_timer :: bool
  mv_has_datetime :: bool
  mv_profile_name :: string

definition desktop_main_alloc :: DesktopMainView where
  "desktop_main_alloc = \<lparr>mv_callback = False, mv_dummy_mode = False, mv_poweroff_timer = False,
     mv_has_datetime = False, mv_profile_name = []\<rparr>"

definition desktop_main_poweroff_timer_callback :: "DesktopMainView \<Rightarrow> nat list option" where
  "desktop_main_poweroff_timer_callback v = post (mv_callback v) DesktopMainEventOpenPowerOff []"

definition desktop_main_set_dummy_mode_state :: "bool \<Rightarrow> DesktopMainView \<Rightarrow> DesktopMainView" where
  "desktop_main_set_dummy_mode_state dummy_mode v = v\<lparr>mv_dummy_mode := dummy_mode\<rparr>"

text \<open>The profile name is copied with \<open>strlcpy\<close> into 16 bytes.\<close>

definition desktop_main_update_dashboard :: "string \<Rightarrow> DesktopMainView \<Rightarrow> DesktopMainView" where
  "desktop_main_update_dashboard profile_name v =
     v\<lparr>mv_has_datetime := True, mv_profile_name := take 15 profile_name\<rparr>"

text \<open>\<open>debug_flag\<close> is the RTC flag that \<open>furi_hal_rtc_is_flag_set\<close> reads.\<close>

definition desktop_main_event :: "bool \<Rightarrow> bool \<Rightarrow> InputEvent \<Rightarrow> nat option" where
  "desktop_main_event debug_flag dummy_mode event =
     (if \<not> dummy_mode then
        (if type event = InputTypeShort then
           (case key event of
              InputKeyOk \<Rightarrow> Some DesktopMainEventOpenMenu
            | InputKeyUp \<Rightarrow> Some DesktopMainEventOpenFavorites
            | InputKeyDown \<Rightarrow> Some DesktopMainEventOpenLockMenu
            | InputKeyLeft \<Rightarrow> Some DesktopMainEventOpenFavoriteLeftShort
            | _ \<Rightarrow> None)
         else if type event = InputTypeLong then
           (case key event of
              InputKeyUp \<Rightarrow> Some DesktopMainEventLock
            | InputKeyDown \<Rightarrow> Some DesktopMainEventOpenDebug
            | InputKeyLeft \<Rightarrow> Some DesktopMainEventOpenFavoriteLeftLong
            | InputKeyRight \<Rightarrow> Some DesktopMainEventOpenFavoriteRightLong
            | InputKeyOk \<Rightarrow>
                if debug_flag then Some DesktopAnimationEventNewIdleAnimation
                else Some DesktopMainEventOpenRecent
            | _ \<Rightarrow> None)
         else None)
      else
        (if type event = InputTypeShort then
           (case key event of
              InputKeyOk \<Rightarrow> Some DesktopDummyEventOpenOk
            | InputKeyUp \<Rightarrow> Some DesktopMainEventOpenLockMenu
            | InputKeyDown \<Rightarrow> Some DesktopDummyEventOpenDown
            | InputKeyLeft \<Rightarrow> Some DesktopDummyEventOpenLeft
            | _ \<Rightarrow> None)
         else if type event = InputTypeLong then
           (case key event of
              InputKeyOk \<Rightarrow> Some DesktopDummyEventOpenOkLong
            | InputKeyUp \<Rightarrow> Some DesktopDummyEventOpenUpLong
            | InputKeyDown \<Rightarrow> Some DesktopDummyEventOpenDownLong
            | InputKeyLeft \<Rightarrow> Some DesktopDummyEventOpenLeftLong
            | InputKeyRight \<Rightarrow> Some DesktopDummyEventOpenRightLong
            | _ \<Rightarrow> None)
         else None))"

definition desktop_main_input_callback ::
    "bool \<Rightarrow> InputEvent \<Rightarrow> DesktopMainView \<Rightarrow> (bool \<times> nat list \<times> DesktopMainView) option" where
  "desktop_main_input_callback debug_flag event v = do {
     events \<leftarrow> (case desktop_main_event debug_flag (mv_dummy_mode v) event of
                 Some e \<Rightarrow> post (mv_callback v) e []
               | None \<Rightarrow> Some []);
     let v = (if key event = InputKeyBack then
                (if type event = InputTypePress then v\<lparr>mv_poweroff_timer := True\<rparr>
                 else if type event = InputTypeRelease then v\<lparr>mv_poweroff_timer := False\<rparr>
                 else v)
              else v);
     Some (True, events, v)
   }"

subsection \<open>What the views promise\<close>

text \<open>A view that is locked with a PIN swallows every event and can only ask for the PIN.\<close>

definition lv_guarded :: "DesktopViewLocked \<Rightarrow> bool" where
  "lv_guarded v \<longleftrightarrow> lv_callback v \<and> lv_pin_locked v \<and>
     lv_view_state v \<in> {DesktopViewLockedStateLocked, DesktopViewLockedStateDoorsClosing}"

lemma locked_input_guarded:
  assumes "lv_guarded v"
  shows "\<exists>events. desktop_view_locked_input now event v = Some (True, events, v) \<and>
    set events \<subseteq> {DesktopLockedEventShowPinInput}"
  using assms by (auto simp: desktop_view_locked_input_def lv_guarded_def Let_def post_def)

lemma locked_update_guarded:
  assumes "lv_guarded v"
  shows "\<exists>events v'. desktop_view_locked_update v = Some (events, v') \<and> lv_guarded v' \<and>
    set events \<subseteq> {DesktopLockedEventDoorsClosed}"
  using assms
  by (auto simp: desktop_view_locked_update_def lv_guarded_def Let_def post_def
      desktop_view_locked_doors_move_def)

text \<open>The doors close after eleven steps of five pixels.\<close>

fun door_steps :: "nat \<Rightarrow> DesktopViewLocked \<Rightarrow> DesktopViewLocked" where
  "door_steps 0 v = v"
| "door_steps (Suc n) v = door_steps n (snd (desktop_view_locked_doors_move v))"

lemma doors_move_closing:
  "lv_door_offset v = -5 * int (Suc n) \<Longrightarrow> n < 11 \<Longrightarrow>
   desktop_view_locked_doors_move v = (True, v\<lparr>lv_door_offset := -5 * int n\<rparr>)"
  by (simp add: desktop_view_locked_doors_move_def)

lemma door_steps_offset: "n \<le> 11 \<Longrightarrow> lv_door_offset v = -5 * int n \<Longrightarrow> lv_door_offset (door_steps n v) = 0"
proof (induction n arbitrary: v)
  case (Suc n)
  then show ?case using doors_move_closing [OF Suc.prems(2)] by simp
qed simp

text \<open>The PIN view never leaves the array and only collects two-bit digits.\<close>

definition pi_ok :: "DesktopViewPinInput \<Rightarrow> bool" where
  "pi_ok v \<longleftrightarrow> pin_ok (pi_pin v)"

lemma pin_input_alloc_ok: "pi_ok desktop_view_pin_input_alloc"
  by (simp add: pi_ok_def pin_ok_def desktop_view_pin_input_alloc_def)

lemma pin_ok_snoc:
  assumes "pin_ok p" "pin_length p < 10" "d < 4"
  shows "pin_ok (p\<lparr>pin_data := (pin_data p)[pin_length p := d], pin_length := pin_length p + 1\<rparr>)"
  using assms by (auto simp: pin_ok_def nth_list_update less_Suc_eq Suc_eq_plus1 [symmetric])

lemma pin_input_keeps:
  assumes "pi_ok v"
  shows "\<exists>call v'. desktop_view_pin_input_input event v = Some (call, v') \<and> pi_ok v' \<and>
    (\<forall>p. call = Some (PinDone p) \<longrightarrow> p = pi_pin v \<and> pin_ok p \<and> 4 \<le> pin_length p \<and>
       type event = InputTypeShort \<and> key event = InputKeyOk)"
proof -
  have len: "length (pin_data (pi_pin v)) = 10" and ok: "pin_ok (pi_pin v)"
    using assms by (auto simp: pi_ok_def pin_ok_def)
  have shorter: "pin_ok (p\<lparr>pin_length := 0\<rparr>)" if "pin_ok p" for p
    using that by (simp add: pin_ok_def)
  show ?thesis
    using ok len shorter [OF ok] pin_ok_snoc [OF ok]
    by (cases "key event") (auto simp: desktop_view_pin_input_input_def Let_def pi_ok_def wr_def)
qed

lemma pin_input_digit:
  assumes "pi_ok v" "\<not> pi_locked_input v" "pin_length (pi_pin v) < 10" "key_code k < 4"
    and "type event = InputTypeShort" "key event = k"
  shows "\<exists>v'. desktop_view_pin_input_input event v = Some (None, v') \<and> pi_ok v' \<and>
    \<not> pi_locked_input v' \<and> pin_length (pi_pin v') = Suc (pin_length (pi_pin v)) \<and>
    take (pin_length (pi_pin v')) (pin_data (pi_pin v')) =
      take (pin_length (pi_pin v)) (pin_data (pi_pin v)) @ [key_code k]"
proof -
  let ?p = "pi_pin v"
  let ?p' = "?p\<lparr>pin_data := (pin_data ?p)[pin_length ?p := key_code k], pin_length := pin_length ?p + 1\<rparr>"
  have len: "length (pin_data ?p) = 10" using assms(1) by (simp add: pi_ok_def pin_ok_def)
  have "k \<noteq> InputKeyOk" "k \<noteq> InputKeyBack" using assms(4) by auto
  then have "desktop_view_pin_input_input event v = Some (None, v\<lparr>pi_pin := ?p', pi_timer := True\<rparr>)"
    using assms(2,3,5,6) len
    by (cases k) (simp_all add: desktop_view_pin_input_input_def Let_def wr_def)
  moreover have "pin_ok ?p'" using pin_ok_snoc [of ?p "key_code k"] assms by (simp add: pi_ok_def)
  ultimately show ?thesis
    using assms(2,3) len by (simp add: pi_ok_def take_Suc_conv_app_nth Suc_eq_plus1 [symmetric])
qed

lemma lock_menu_input_bounds:
  assumes "lm_idx v < 3" "desktop_lock_menu_input_callback event v = Some (consumed, events, v')"
  shows "lm_idx v' < 3"
  using assms
  by (auto simp: desktop_lock_menu_input_callback_def Let_def bind_eq_Some_conv clamp_def
      split: if_splits prod.splits)

end
