(* ===== verification/View_Stack.thy ===== *)
theory View_Stack
  imports Firmware_Prelude
begin

text \<open>
  Stacks of views (firmware/applications/services/gui/view\_stack.c) over the callbacks of
  gui/view.c. Views are named by their addresses (natural numbers); a store maps an address
  to the parts of the \<open>View\<close> struct that the stack reads and writes, and a log records
  the callbacks that were made. A stack is its array of \<open>MAX_VIEWS\<close> slots.
\<close>

record View =
  draw_callback :: bool
  input_callback :: bool
  enter_callback :: bool
  exit_callback :: bool
  update_callback :: "nat option"
  update_callback_context :: "nat option"

datatype view_call = Entered nat | Exited nat | Drawn nat | Updated nat "nat option"

record views =
  view_at :: "nat \<Rightarrow> View"
  view_calls :: "view_call list"

definition MAX_VIEWS :: nat where "MAX_VIEWS = 3"

text \<open>The address of \<open>view_stack_update_callback\<close>; its context is the view of the stack.\<close>

definition view_stack_update_callback :: nat where "view_stack_update_callback = 1"

record ViewStack =
  vs_view :: nat
  vs_views :: "nat option list"

definition set_view :: "nat \<Rightarrow> (View \<Rightarrow> View) \<Rightarrow> views \<Rightarrow> views" where
  "set_view v f w = w\<lparr>view_at := (view_at w)(v := f (view_at w v))\<rparr>"

definition log_call :: "view_call \<Rightarrow> views \<Rightarrow> views" where
  "log_call c w = w\<lparr>view_calls := view_calls w @ [c]\<rparr>"

definition view_set_update_callback :: "nat \<Rightarrow> nat option \<Rightarrow> views \<Rightarrow> views" where
  "view_set_update_callback v cb = set_view v (\<lambda>r. r\<lparr>update_callback := cb\<rparr>)"

definition view_set_update_callback_context :: "nat \<Rightarrow> nat option \<Rightarrow> views \<Rightarrow> views" where
  "view_set_update_callback_context v c = set_view v (\<lambda>r. r\<lparr>update_callback_context := c\<rparr>)"

definition view_enter :: "nat \<Rightarrow> views \<Rightarrow> views" where
  "view_enter v w = (if enter_callback (view_at w v) then log_call (Entered v) w else w)"

definition view_exit :: "nat \<Rightarrow> views \<Rightarrow> views" where
  "view_exit v w = (if exit_callback (view_at w v) then log_call (Exited v) w else w)"

definition view_draw :: "nat \<Rightarrow> views \<Rightarrow> views" where
  "view_draw v w = (if draw_callback (view_at w v) then log_call (Drawn v) w else w)"

definition view_commit_model :: "nat \<Rightarrow> bool \<Rightarrow> views \<Rightarrow> views" where
  "view_commit_model v update w =
     (if update \<and> update_callback (view_at w v) \<noteq> None
      then log_call (Updated v (update_callback_context (view_at w v))) w else w)"

subsection \<open>The stack\<close>

definition view_stack_alloc :: "nat \<Rightarrow> ViewStack" where
  "view_stack_alloc v = \<lparr>vs_view = v, vs_views = replicate MAX_VIEWS None\<rparr>"

text \<open>The \<open>for\<close> loops over the slots visit those that hold a view.\<close>

definition each_view :: "(nat \<Rightarrow> views \<Rightarrow> views) \<Rightarrow> ViewStack \<Rightarrow> views \<Rightarrow> views" where
  "each_view f vs = fold (\<lambda>slot. case slot of None \<Rightarrow> id | Some v \<Rightarrow> f v) (vs_views vs)"

definition view_stack_enter :: "ViewStack \<Rightarrow> views \<Rightarrow> views" where
  "view_stack_enter vs w =
     view_commit_model (vs_view vs) False
       (each_view (\<lambda>v w. view_enter v (view_set_update_callback_context v (Some (vs_view vs)) w)) vs w)"

definition view_stack_exit :: "ViewStack \<Rightarrow> views \<Rightarrow> views" where
  "view_stack_exit vs w = view_commit_model (vs_view vs) False (each_view view_exit vs w)"

definition view_stack_free :: "ViewStack \<Rightarrow> views \<Rightarrow> views" where
  "view_stack_free vs w = view_commit_model (vs_view vs) False
     (each_view (\<lambda>v w. view_set_update_callback_context v None (view_set_update_callback v None w)) vs w)"

definition view_stack_draw :: "ViewStack \<Rightarrow> views \<Rightarrow> views" where
  "view_stack_draw vs = each_view view_draw vs"

text \<open>
  Input goes from the last slot to the first and stops at the first view that consumes it.
  The input callbacks are the application's: an argument that takes the view, the event and
  the state the callbacks share. A view without an input callback consumes nothing.
\<close>

definition view_input ::
    "(nat \<Rightarrow> 'e \<Rightarrow> 's \<Rightarrow> (bool \<times> 's) option) \<Rightarrow> views \<Rightarrow> nat \<Rightarrow> 'e \<Rightarrow> 's \<Rightarrow> (bool \<times> 's) option" where
  "view_input cb w v event s = (if input_callback (view_at w v) then cb v event s else Some (False, s))"

fun input_slots ::
    "(nat \<Rightarrow> 'e \<Rightarrow> 's \<Rightarrow> (bool \<times> 's) option) \<Rightarrow> views \<Rightarrow> nat option list \<Rightarrow> 'e \<Rightarrow> 's \<Rightarrow>
     (bool \<times> 's) option" where
  "input_slots cb w [] event s = Some (False, s)"
| "input_slots cb w (None # slots) event s = input_slots cb w slots event s"
| "input_slots cb w (Some v # slots) event s = do {
     (consumed, s) \<leftarrow> view_input cb w v event s;
     if consumed then Some (True, s) else input_slots cb w slots event s
   }"

definition view_stack_input ::
    "(nat \<Rightarrow> 'e \<Rightarrow> 's \<Rightarrow> (bool \<times> 's) option) \<Rightarrow> views \<Rightarrow> ViewStack \<Rightarrow> 'e \<Rightarrow> 's \<Rightarrow>
     (bool \<times> 's) option" where
  "view_stack_input cb w vs event s = input_slots cb w (rev (vs_views vs)) event s"

text \<open>The first slot that satisfies a test, as the loops with \<open>break\<close> find it.\<close>

fun find_slot :: "('a \<Rightarrow> bool) \<Rightarrow> 'a list \<Rightarrow> nat option" where
  "find_slot p [] = None"
| "find_slot p (x # xs) = (if p x then Some 0 else map_option Suc (find_slot p xs))"

definition view_stack_add_view ::
    "bool \<Rightarrow> nat \<Rightarrow> ViewStack \<times> views \<Rightarrow> (ViewStack \<times> views) option" where
  "view_stack_add_view furi_debug v = (\<lambda>(vs, w).
     case find_slot (\<lambda>s. s = None) (vs_views vs) of
       Some i \<Rightarrow>
         let vs = vs\<lparr>vs_views := (vs_views vs)[i := Some v]\<rparr>;
             w = view_set_update_callback v (Some view_stack_update_callback) w;
             w = view_set_update_callback_context v (Some (vs_view vs)) w;
             w = view_enter v w;
             w = view_commit_model (vs_view vs) True w
         in Some (vs, w)
     | None \<Rightarrow> do {
         furi_assert furi_debug False;
         Some (vs, view_commit_model (vs_view vs) False w)
       })"

definition view_stack_remove_view ::
    "bool \<Rightarrow> nat \<Rightarrow> ViewStack \<times> views \<Rightarrow> (ViewStack \<times> views) option" where
  "view_stack_remove_view furi_debug v = (\<lambda>(vs, w).
     case find_slot (\<lambda>s. s = Some v) (vs_views vs) of
       Some i \<Rightarrow>
         let w = view_exit v w;
             w = view_set_update_callback v None w;
             w = view_set_update_callback_context v None w;
             vs = vs\<lparr>vs_views := (vs_views vs)[i := None]\<rparr>;
             w = view_commit_model (vs_view vs) True w
         in Some (vs, w)
     | None \<Rightarrow> do {
         furi_assert furi_debug False;
         Some (vs, view_commit_model (vs_view vs) False w)
       })"

subsection \<open>What the stack holds\<close>

text \<open>The views of the stack from bottom to top, which is also the drawing order.\<close>

definition held :: "ViewStack \<Rightarrow> nat list" where
  "held vs = map the (filter (\<lambda>s. s \<noteq> None) (vs_views vs))"

definition vs_ok :: "ViewStack \<Rightarrow> bool" where
  "vs_ok vs \<longleftrightarrow> length (vs_views vs) = MAX_VIEWS"

lemma find_slot_None: "find_slot p xs = None \<longleftrightarrow> (\<forall>x \<in> set xs. \<not> p x)"
  by (induction xs) auto

lemma find_slot_Some:
  "find_slot p xs = Some i \<longleftrightarrow> i < length xs \<and> p (xs ! i) \<and> (\<forall>j < i. \<not> p (xs ! j))"
proof (induction xs arbitrary: i)
  case (Cons x xs)
  then show ?case by (cases i) (auto simp: less_Suc_eq_0_disj nth_Cons')
qed simp

lemma held_Cons_slot: "map the (filter (\<lambda>s. s \<noteq> None) (xs @ [Some v] @ ys)) =
  map the (filter (\<lambda>s. s \<noteq> None) xs) @ [v] @ map the (filter (\<lambda>s. s \<noteq> None) ys)"
  by simp

lemma set_held: "set (held vs) = {v. Some v \<in> set (vs_views vs)}"
  unfolding held_def by force

lemma length_held: "vs_ok vs \<Longrightarrow> length (held vs) \<le> MAX_VIEWS"
  unfolding held_def vs_ok_def by (metis length_filter_le length_map)

lemma held_full: "vs_ok vs \<Longrightarrow> find_slot (\<lambda>s. s = None) (vs_views vs) = None \<longleftrightarrow> length (held vs) = MAX_VIEWS"
proof -
  assume ok: "vs_ok vs"
  have "length (filter (\<lambda>s. s \<noteq> None) xs) = length xs \<longleftrightarrow> None \<notin> set xs" for xs :: "nat option list"
  proof
    show "None \<notin> set xs" if "length (filter (\<lambda>s. s \<noteq> None) xs) = length xs"
      using that length_filter_less [of None xs "\<lambda>s. s \<noteq> None"] by auto
    show "length (filter (\<lambda>s. s \<noteq> None) xs) = length xs" if "None \<notin> set xs"
      using that by (subst filter_True) (metis, simp)
  qed
  then show ?thesis
    using ok unfolding find_slot_None held_def vs_ok_def by (metis length_map)
qed

text \<open>Adding to a stack whose free slots are above its views puts the view on top.\<close>

definition packed :: "ViewStack \<Rightarrow> bool" where
  "packed vs \<longleftrightarrow> vs_views vs = map Some (held vs) @ replicate (MAX_VIEWS - length (held vs)) None
     \<and> length (held vs) \<le> MAX_VIEWS"

lemma packed_alloc: "packed (view_stack_alloc v)" "held (view_stack_alloc v) = []"
  by (simp_all add: packed_def held_def view_stack_alloc_def)

lemma held_map_Some: "map the (filter (\<lambda>s. s \<noteq> None) (map Some xs @ replicate k None)) = xs"
  by (induction xs) auto

lemma held_update: "held (vs\<lparr>vs_views := xs\<rparr>) = map the (filter (\<lambda>s. s \<noteq> None) xs)"
  by (simp add: held_def)

lemma add_view_packed:
  assumes "packed vs" "length (held vs) < MAX_VIEWS"
  shows "\<exists>vs' w'. view_stack_add_view d v (vs, w) = Some (vs', w') \<and> packed vs' \<and>
    held vs' = held vs @ [v] \<and> vs_view vs' = vs_view vs"
proof -
  let ?n = "length (held vs)"
  have views: "vs_views vs = map Some (held vs) @ replicate (MAX_VIEWS - ?n) None"
    using assms(1) by (simp add: packed_def)
  have "find_slot (\<lambda>s. s = None) (vs_views vs) = Some ?n"
    unfolding find_slot_Some using assms(2) by (subst (1 2 3) views) (auto simp: nth_append)
  moreover have "(vs_views vs)[?n := Some v] = map Some (held vs @ [v]) @ replicate (MAX_VIEWS - Suc ?n) None"
  proof -
    have "replicate (MAX_VIEWS - ?n) None = None # replicate (MAX_VIEWS - Suc ?n) (None :: nat option)"
      using assms(2) by (metis Suc_diff_Suc replicate_Suc)
    then show ?thesis by (subst views) (simp add: list_update_append)
  qed
  moreover have "held (vs\<lparr>vs_views := map Some (held vs @ [v]) @ replicate (MAX_VIEWS - Suc ?n) None\<rparr>)
      = held vs @ [v]"
    by (simp only: held_update held_map_Some)
  ultimately show ?thesis
    using assms(2) by (auto simp: view_stack_add_view_def Let_def packed_def)
qed

lemma add_view_full:
  assumes "vs_ok vs" "length (held vs) = MAX_VIEWS"
  shows "view_stack_add_view True v (vs, w) = None"
    and "view_stack_add_view False v (vs, w) = Some (vs, w)"
proof -
  have "find_slot (\<lambda>s. s = None) (vs_views vs) = None" using held_full assms by blast
  then show "view_stack_add_view True v (vs, w) = None"
      "view_stack_add_view False v (vs, w) = Some (vs, w)"
    by (simp_all add: view_stack_add_view_def view_commit_model_def)
qed

lemma remove_view_held:
  assumes "Some v \<in> set (vs_views vs)"
  shows "\<exists>vs' w'. view_stack_remove_view d v (vs, w) = Some (vs', w') \<and>
    held vs' = remove1 v (held vs) \<and> length (vs_views vs') = length (vs_views vs) \<and>
    update_callback (view_at w' v) = None"
proof -
  obtain i where i: "find_slot (\<lambda>s. s = Some v) (vs_views vs) = Some i"
    using assms find_slot_None [of "\<lambda>s. s = Some v" "vs_views vs"] by fastforce
  then have il: "i < length (vs_views vs)" "vs_views vs ! i = Some v" "\<forall>j < i. vs_views vs ! j \<noteq> Some v"
    by (auto simp: find_slot_Some)
  have before: "Some v \<notin> set (take i (vs_views vs))"
    using il by (auto simp: in_set_conv_nth)
  then have nb: "v \<notin> set (map the (filter (\<lambda>s. s \<noteq> None) (take i (vs_views vs))))"
    by (auto simp: image_iff)
  have "vs_views vs = take i (vs_views vs) @ [Some v] @ drop (Suc i) (vs_views vs)"
    using il by (metis append_Cons append_Nil id_take_nth_drop)
  then have h: "held vs = map the (filter (\<lambda>s. s \<noteq> None) (take i (vs_views vs))) @ [v] @
      map the (filter (\<lambda>s. s \<noteq> None) (drop (Suc i) (vs_views vs)))"
    unfolding held_def by (metis held_Cons_slot)
  have "held (vs\<lparr>vs_views := (vs_views vs)[i := None]\<rparr>) = remove1 v (held vs)"
    unfolding h remove1_append using nb il
    by (simp add: held_def upd_conv_take_nth_drop)
  then show ?thesis
    using i by (auto simp: view_stack_remove_view_def Let_def view_commit_model_def log_call_def
        view_set_update_callback_context_def view_set_update_callback_def set_view_def)
qed

subsection \<open>Who sees an input event\<close>

text \<open>A view without an input callback is transparent for input, wherever it is.\<close>

lemma input_slots_held:
  "input_slots cb w slots event s = input_slots cb w (filter (\<lambda>s. s \<noteq> None) slots) event s"
  by (induction cb w slots event s rule: input_slots.induct)
    (auto intro!: Option.bind_cong split: prod.splits)

lemma input_slots_skip:
  "input_slots cb w (filter (\<lambda>s. case s of None \<Rightarrow> False | Some v \<Rightarrow> input_callback (view_at w v)) slots) event s =
   input_slots cb w slots event s"
  by (induction cb w slots event s rule: input_slots.induct)
    (auto simp: view_input_def intro!: Option.bind_cong split: prod.splits)

end
