(* ===== verification/Scene_Manager.thy ===== *)
theory Scene_Manager
  imports Firmware_Prelude
begin

text \<open>
  The scene manager of the GUI (firmware/applications/services/gui/scene\_manager.c): a stack
  of scene identifiers, one 32-bit state per scene and the application's table of handlers.
  The application's handlers are functions on the whole state, because a handler receives a
  context through which it may call the scene manager again; their code is the
  application's and they are an argument of every operation. The back of the array is the
  last element of the list.

  The lemmas show which operations keep the stack inside the handler table, what each of
  them does to the stack, and that scenes are entered and left in pairs.
\<close>

subsection \<open>State\<close>

datatype SceneManagerEventType =
  SceneManagerEventTypeCustom | SceneManagerEventTypeBack | SceneManagerEventTypeTick

record SceneManagerEvent =
  ev_type :: SceneManagerEventType
  ev_event :: nat

record 'c SceneManager =
  scene_id_stack :: "nat list"
  scene :: "u32 list"
  sm_context :: 'c

type_synonym 'c scene_handler = "'c SceneManager \<Rightarrow> 'c SceneManager option"

record 'c SceneManagerHandlers =
  on_enter_handlers :: "'c scene_handler list"
  on_event_handlers :: "(SceneManagerEvent \<Rightarrow> 'c SceneManager \<Rightarrow> (bool \<times> 'c SceneManager) option) list"
  on_exit_handlers :: "'c scene_handler list"
  scene_num :: nat

text \<open>\<open>malloc\<close> returns zeroed memory, so every scene state starts as 0.\<close>

definition scene_manager_alloc :: "'c SceneManagerHandlers \<Rightarrow> 'c \<Rightarrow> 'c SceneManager" where
  "scene_manager_alloc app_scene_handlers context =
     \<lparr>scene_id_stack = [], scene = replicate (scene_num app_scene_handlers) 0,
      sm_context = context\<rparr>"

definition scene_manager_set_scene_state ::
    "'c SceneManagerHandlers \<Rightarrow> nat \<Rightarrow> u32 \<Rightarrow> 'c scene_handler" where
  "scene_manager_set_scene_state h scene_id state sm = do {
     furi_check (scene_id < scene_num h);
     ss \<leftarrow> wr (scene sm) scene_id state;
     Some (sm\<lparr>scene := ss\<rparr>)
   }"

definition scene_manager_get_scene_state ::
    "'c SceneManagerHandlers \<Rightarrow> 'c SceneManager \<Rightarrow> nat \<Rightarrow> u32 option" where
  "scene_manager_get_scene_state h sm scene_id = do {
     furi_check (scene_id < scene_num h);
     rd (scene sm) scene_id
   }"

text \<open>Calls through the handler tables.\<close>

definition call_enter :: "'c SceneManagerHandlers \<Rightarrow> nat \<Rightarrow> 'c scene_handler" where
  "call_enter h scene_id sm = do { f \<leftarrow> rd (on_enter_handlers h) scene_id; f sm }"

definition call_exit :: "'c SceneManagerHandlers \<Rightarrow> nat \<Rightarrow> 'c scene_handler" where
  "call_exit h scene_id sm = do { f \<leftarrow> rd (on_exit_handlers h) scene_id; f sm }"

definition call_event ::
    "'c SceneManagerHandlers \<Rightarrow> nat \<Rightarrow> SceneManagerEvent \<Rightarrow> 'c SceneManager \<Rightarrow>
     (bool \<times> 'c SceneManager) option" where
  "call_event h scene_id event sm = do { f \<leftarrow> rd (on_event_handlers h) scene_id; f event sm }"

subsection \<open>Moving between scenes\<close>

definition scene_manager_next_scene :: "'c SceneManagerHandlers \<Rightarrow> nat \<Rightarrow> 'c scene_handler" where
  "scene_manager_next_scene h next_scene_id sm = do {
     furi_check (next_scene_id < scene_num h);
     sm \<leftarrow> (if scene_id_stack sm \<noteq> [] then call_exit h (last (scene_id_stack sm)) sm else Some sm);
     let sm = sm\<lparr>scene_id_stack := scene_id_stack sm @ [next_scene_id]\<rparr>;
     call_enter h next_scene_id sm
   }"

definition scene_manager_previous_scene ::
    "'c SceneManagerHandlers \<Rightarrow> 'c SceneManager \<Rightarrow> (bool \<times> 'c SceneManager) option" where
  "scene_manager_previous_scene h sm =
     (if scene_id_stack sm \<noteq> [] then do {
        let cur_scene_id = last (scene_id_stack sm);
        let sm = sm\<lparr>scene_id_stack := butlast (scene_id_stack sm)\<rparr>;
        if scene_id_stack sm = [] then do {
          sm \<leftarrow> call_exit h cur_scene_id sm;
          Some (False, sm)
        } else do {
          let prev_scene_id = last (scene_id_stack sm);
          sm \<leftarrow> call_exit h cur_scene_id sm;
          sm \<leftarrow> call_enter h prev_scene_id sm;
          Some (True, sm)
        }
      } else Some (False, sm))"

text \<open>
  The search loop walks the array iterator down from the last element: it first steps to
  the previous element, so the current scene itself is not a candidate, and stepping below
  index 0 makes it the end iterator.
\<close>

fun search_down :: "nat list \<Rightarrow> nat \<Rightarrow> nat \<Rightarrow> nat option" where
  "search_down st scene_id 0 = None"
| "search_down st scene_id (Suc k) =
     (if st ! k = scene_id then Some k else search_down st scene_id k)"

definition scene_manager_search_and_switch_to_previous_scene ::
    "'c SceneManagerHandlers \<Rightarrow> nat \<Rightarrow> 'c SceneManager \<Rightarrow> (bool \<times> 'c SceneManager) option" where
  "scene_manager_search_and_switch_to_previous_scene h scene_id sm =
     (if scene_id_stack sm \<noteq> [] then
        (case search_down (scene_id_stack sm) scene_id (length (scene_id_stack sm) - 1) of
           None \<Rightarrow> Some (False, sm)
         | Some k \<Rightarrow> do {
             let cur_scene_id = last (scene_id_stack sm);
             let prev_scene_id = scene_id_stack sm ! k;
             let sm = sm\<lparr>scene_id_stack := take (k + 1) (scene_id_stack sm)\<rparr>;
             sm \<leftarrow> call_exit h cur_scene_id sm;
             sm \<leftarrow> call_enter h prev_scene_id sm;
             Some (True, sm)
           })
      else Some (False, sm))"

definition scene_manager_has_previous_scene :: "'c SceneManager \<Rightarrow> nat \<Rightarrow> bool" where
  "scene_manager_has_previous_scene sm scene_id \<longleftrightarrow>
     scene_id_stack sm \<noteq> [] \<and>
     search_down (scene_id_stack sm) scene_id (length (scene_id_stack sm) - 1) \<noteq> None"

fun scene_manager_search_and_switch_to_previous_scene_one_of ::
    "'c SceneManagerHandlers \<Rightarrow> nat list \<Rightarrow> 'c SceneManager \<Rightarrow> (bool \<times> 'c SceneManager) option" where
  "scene_manager_search_and_switch_to_previous_scene_one_of h [] sm = Some (False, sm)"
| "scene_manager_search_and_switch_to_previous_scene_one_of h (scene_id # scene_ids) sm =
     (if scene_manager_has_previous_scene sm scene_id then do {
        (_, sm) \<leftarrow> scene_manager_search_and_switch_to_previous_scene h scene_id sm;
        Some (True, sm)
      } else scene_manager_search_and_switch_to_previous_scene_one_of h scene_ids sm)"

definition scene_manager_search_and_switch_to_another_scene ::
    "'c SceneManagerHandlers \<Rightarrow> nat \<Rightarrow> 'c SceneManager \<Rightarrow> (bool \<times> 'c SceneManager) option" where
  "scene_manager_search_and_switch_to_another_scene h scene_id sm = do {
     furi_check (scene_id < scene_num h);
     if scene_id_stack sm \<noteq> [] then do {
       let cur_scene_id = last (scene_id_stack sm);
       let sm = sm\<lparr>scene_id_stack := take 1 (scene_id_stack sm) @ [scene_id]\<rparr>;
       sm \<leftarrow> call_exit h cur_scene_id sm;
       sm \<leftarrow> call_enter h scene_id sm;
       Some (True, sm)
     } else Some (False, sm)
   }"

definition scene_manager_get_current_scene :: "'c SceneManager \<Rightarrow> nat option" where
  "scene_manager_get_current_scene sm =
     (if scene_id_stack sm = [] then None else Some (last (scene_id_stack sm)))"

definition scene_manager_stop :: "'c SceneManagerHandlers \<Rightarrow> 'c scene_handler" where
  "scene_manager_stop h sm =
     (if scene_id_stack sm \<noteq> [] then call_exit h (last (scene_id_stack sm)) sm else Some sm)"

subsection \<open>Events\<close>

definition scene_manager_handle_custom_event ::
    "'c SceneManagerHandlers \<Rightarrow> nat \<Rightarrow> 'c SceneManager \<Rightarrow> (bool \<times> 'c SceneManager) option" where
  "scene_manager_handle_custom_event h custom_event sm =
     (if scene_id_stack sm \<noteq> [] then
        call_event h (last (scene_id_stack sm))
          \<lparr>ev_type = SceneManagerEventTypeCustom, ev_event = custom_event\<rparr> sm
      else Some (False, sm))"

definition scene_manager_handle_back_event ::
    "'c SceneManagerHandlers \<Rightarrow> 'c SceneManager \<Rightarrow> (bool \<times> 'c SceneManager) option" where
  "scene_manager_handle_back_event h sm = do {
     (consumed, sm) \<leftarrow>
       (if scene_id_stack sm \<noteq> [] then
          call_event h (last (scene_id_stack sm)) \<lparr>ev_type = SceneManagerEventTypeBack, ev_event = 0\<rparr> sm
        else Some (False, sm));
     if \<not> consumed then scene_manager_previous_scene h sm else Some (consumed, sm)
   }"

definition scene_manager_handle_tick_event :: "'c SceneManagerHandlers \<Rightarrow> 'c scene_handler" where
  "scene_manager_handle_tick_event h sm =
     (if scene_id_stack sm \<noteq> [] then do {
        (_, sm) \<leftarrow> call_event h (last (scene_id_stack sm))
          \<lparr>ev_type = SceneManagerEventTypeTick, ev_event = 0\<rparr> sm;
        Some sm
      } else Some sm)"

subsection \<open>Searching\<close>

lemma search_down_Some:
  "search_down st scene_id n = Some k \<longleftrightarrow>
     k < n \<and> st ! k = scene_id \<and> (\<forall>j. k < j \<and> j < n \<longrightarrow> st ! j \<noteq> scene_id)"
proof (induction n)
  case (Suc n)
  show ?case
  proof (cases "st ! n = scene_id")
    case True
    then show ?thesis by (auto simp: less_Suc_eq)
  next
    case False
    then have "search_down st scene_id (Suc n) = search_down st scene_id n" by simp
    with Suc False show ?thesis by (auto simp: less_Suc_eq)
  qed
qed simp

lemma search_down_None: "search_down st scene_id n = None \<longleftrightarrow> (\<forall>k < n. st ! k \<noteq> scene_id)"
  by (induction n) (auto simp: less_Suc_eq)

lemma has_previous_scene_iff:
  "scene_manager_has_previous_scene sm scene_id \<longleftrightarrow> scene_id \<in> set (butlast (scene_id_stack sm))"
proof -
  have "(\<exists>k < length st - 1. st ! k = scene_id) \<longleftrightarrow> scene_id \<in> set (butlast st)" for st :: "nat list"
    by (auto simp: in_set_conv_nth nth_butlast)
  then show ?thesis
    unfolding scene_manager_has_previous_scene_def
    by (auto simp: search_down_None)
qed

subsection \<open>Handlers that leave navigation to the manager\<close>

text \<open>
  \<open>scene_app\<close> is what the manager relies on, for a set of scenes and an invariant of the
  context: the enter and exit handlers of these scenes return, keep the invariant and do
  not move between scenes themselves (they may change the context and the scene states).
\<close>

definition stays :: "'c SceneManager \<Rightarrow> 'c SceneManager \<Rightarrow> bool" where
  "stays sm sm' \<longleftrightarrow> scene_id_stack sm' = scene_id_stack sm \<and> length (scene sm') = length (scene sm)"

definition sm_ok :: "'c SceneManagerHandlers \<Rightarrow> 'c SceneManager \<Rightarrow> bool" where
  "sm_ok h sm \<longleftrightarrow> (\<forall>i \<in> set (scene_id_stack sm). i < scene_num h) \<and> length (scene sm) = scene_num h"

locale scene_app =
  fixes h :: "'c SceneManagerHandlers" and scenes :: "nat set" and P :: "'c SceneManager \<Rightarrow> bool"
  assumes numbered: "i \<in> scenes \<Longrightarrow> i < scene_num h"
    and stack_free: "P (sm\<lparr>scene_id_stack := st\<rparr>) = P sm"
    and enter: "i \<in> scenes \<Longrightarrow> P sm \<Longrightarrow> \<exists>sm'. call_enter h i sm = Some sm' \<and> stays sm sm' \<and> P sm'"
    and exit: "i \<in> scenes \<Longrightarrow> P sm \<Longrightarrow> \<exists>sm'. call_exit h i sm = Some sm' \<and> stays sm sm' \<and> P sm'"
begin

definition ok :: "'c SceneManager \<Rightarrow> bool" where
  "ok sm \<longleftrightarrow> set (scene_id_stack sm) \<subseteq> scenes \<and> P sm"

lemma stop_stays: "ok sm \<Longrightarrow> \<exists>sm'. scene_manager_stop h sm = Some sm' \<and> stays sm sm' \<and> P sm'"
proof (cases "scene_id_stack sm = []")
  case False
  assume "ok sm"
  then have "last (scene_id_stack sm) \<in> scenes" "P sm" using last_in_set [OF False] by (auto simp: ok_def)
  from exit [OF this] False show ?thesis by (simp add: scene_manager_stop_def)
qed (simp add: scene_manager_stop_def stays_def ok_def)

lemma next_scene_stack:
  assumes "ok sm" "next \<in> scenes"
  shows "\<exists>sm'. scene_manager_next_scene h next sm = Some sm' \<and> ok sm' \<and>
    scene_id_stack sm' = scene_id_stack sm @ [next]"
proof -
  obtain sm1 where 1: "(if scene_id_stack sm \<noteq> [] then call_exit h (last (scene_id_stack sm)) sm
      else Some sm) = Some sm1" "stays sm sm1" "P sm1"
    using stop_stays [OF assms(1)] by (auto simp: scene_manager_stop_def)
  let ?s = "sm1\<lparr>scene_id_stack := scene_id_stack sm1 @ [next]\<rparr>"
  obtain sm2 where "call_enter h next ?s = Some sm2" "stays ?s sm2" "P sm2"
    using enter [OF assms(2), of ?s] 1(3) by (auto simp: stack_free)
  with 1 assms show ?thesis
    using numbered [OF assms(2)] by (auto simp: scene_manager_next_scene_def ok_def stays_def)
qed

text \<open>Leaving one scene for another below a given stack: what the three backward moves do.\<close>

lemma switch:
  assumes "ok sm" "set st \<subseteq> scenes" "cur \<in> scenes" "prev \<in> scenes"
  shows "\<exists>sm1 sm'. call_exit h cur (sm\<lparr>scene_id_stack := st\<rparr>) = Some sm1 \<and>
    call_enter h prev sm1 = Some sm' \<and> ok sm' \<and> scene_id_stack sm' = st"
proof -
  obtain sm1 where 1: "call_exit h cur (sm\<lparr>scene_id_stack := st\<rparr>) = Some sm1" "scene_id_stack sm1 = st" "P sm1"
    using exit [OF assms(3), of "sm\<lparr>scene_id_stack := st\<rparr>"] assms(1) by (auto simp: ok_def stack_free stays_def)
  obtain sm' where "call_enter h prev sm1 = Some sm'" "scene_id_stack sm' = st" "P sm'"
    using enter [OF assms(4) 1(3)] 1(2) by (auto simp: stays_def)
  with 1(1) assms(2) show ?thesis by (auto simp: ok_def)
qed

lemma previous_scene_stack:
  assumes sm: "ok sm"
  shows "\<exists>sm'. scene_manager_previous_scene h sm = Some (length (scene_id_stack sm) > 1, sm') \<and>
    ok sm' \<and> scene_id_stack sm' = butlast (scene_id_stack sm)"
proof (cases "scene_id_stack sm = []")
  case False
  let ?st = "butlast (scene_id_stack sm)"
  have st: "set ?st \<subseteq> scenes" "last (scene_id_stack sm) \<in> scenes"
    using sm False last_in_set [OF False] by (auto simp: ok_def dest: in_set_butlastD)
  have more: "(?st = []) = (length (scene_id_stack sm) \<le> 1)"
    using False by (cases "scene_id_stack sm" rule: rev_cases) auto
  show ?thesis
  proof (cases "?st = []")
    case True
    obtain sm1 where "call_exit h (last (scene_id_stack sm)) (sm\<lparr>scene_id_stack := ?st\<rparr>) = Some sm1"
      "scene_id_stack sm1 = ?st" "P sm1"
      using exit [OF st(2), of "sm\<lparr>scene_id_stack := ?st\<rparr>"] sm by (auto simp: ok_def stack_free stays_def)
    with True more False show ?thesis
      by (auto simp: scene_manager_previous_scene_def Let_def ok_def)
  next
    case no: False
    then have "last ?st \<in> scenes" using st(1) last_in_set by blast
    from switch [OF sm st this] no more False show ?thesis
      by (auto simp: scene_manager_previous_scene_def Let_def)
  qed
qed (use sm in \<open>simp add: scene_manager_previous_scene_def\<close>)

lemma next_then_previous:
  assumes "ok sm" "next \<in> scenes"
  shows "\<exists>sm1 sm2. scene_manager_next_scene h next sm = Some sm1 \<and>
    scene_manager_previous_scene h sm1 = Some (scene_id_stack sm \<noteq> [], sm2) \<and>
    ok sm2 \<and> scene_id_stack sm2 = scene_id_stack sm"
  using next_scene_stack [OF assms] previous_scene_stack by fastforce

lemma search_previous_stack:
  assumes sm: "ok sm"
  shows "\<exists>sm'. scene_manager_search_and_switch_to_previous_scene h scene_id sm =
      Some (scene_id \<in> set (butlast (scene_id_stack sm)), sm') \<and> ok sm' \<and>
    (if scene_id \<in> set (butlast (scene_id_stack sm))
     then \<exists>below above. scene_id_stack sm = below @ [scene_id] @ above \<and> above \<noteq> [] \<and>
       scene_id \<notin> set (butlast above) \<and> scene_id_stack sm' = below @ [scene_id]
     else sm' = sm)"
proof (cases "search_down (scene_id_stack sm) scene_id (length (scene_id_stack sm) - 1)")
  case None
  then show ?thesis
    using sm has_previous_scene_iff [of sm scene_id]
    by (auto simp: scene_manager_search_and_switch_to_previous_scene_def
        scene_manager_has_previous_scene_def)
next
  case (Some k)
  let ?st = "scene_id_stack sm"
  have ne: "?st \<noteq> []" using Some by auto
  have k: "k < length ?st - 1" "?st ! k = scene_id"
    and later: "\<forall>j. k < j \<and> j < length ?st - 1 \<longrightarrow> ?st ! j \<noteq> scene_id"
    using Some by (auto simp: search_down_Some)
  have mem: "scene_id \<in> set (butlast ?st)"
    using Some ne has_previous_scene_iff [of sm scene_id] by (simp add: scene_manager_has_previous_scene_def)
  have split: "?st = take k ?st @ [scene_id] @ drop (k + 1) ?st"
    using k by (metis add.commute append_Cons append_Nil id_take_nth_drop less_diff_conv plus_1_eq_Suc add_lessD1)
  have take: "take (k + 1) ?st = take k ?st @ [scene_id]"
    using k by (simp add: take_Suc_conv_app_nth Suc_eq_plus1 [symmetric])
  have above: "drop (k + 1) ?st \<noteq> []" using k by simp
  have notin: "scene_id \<notin> set (butlast (drop (k + 1) ?st))"
    using later k by (auto simp: in_set_conv_nth nth_butlast)
  have sub: "set (take (k + 1) ?st) \<subseteq> scenes" "last ?st \<in> scenes" "scene_id \<in> scenes"
    using sm mem last_in_set [OF ne] by (auto simp: ok_def dest: in_set_takeD in_set_butlastD)
  from switch [OF sm sub] obtain sm1 sm' where "call_exit h (last ?st) (sm\<lparr>scene_id_stack := take (k + 1) ?st\<rparr>) = Some sm1"
    "call_enter h scene_id sm1 = Some sm'" "ok sm'" "scene_id_stack sm' = take (k + 1) ?st"
    by blast
  with Some ne mem k(2) take above notin split show ?thesis
    by (auto simp: scene_manager_search_and_switch_to_previous_scene_def Let_def)
qed

lemma search_one_of_ok:
  assumes "ok sm"
  shows "\<exists>sm'. scene_manager_search_and_switch_to_previous_scene_one_of h ids sm =
      Some (\<exists>i \<in> set ids. i \<in> set (butlast (scene_id_stack sm)), sm') \<and> ok sm'"
proof (induction ids)
  case (Cons i ids)
  show ?case
  proof (cases "scene_manager_has_previous_scene sm i")
    case True
    then show ?thesis
      using search_previous_stack [OF assms, of i] has_previous_scene_iff [of sm i] by auto
  next
    case False
    then show ?thesis using Cons has_previous_scene_iff [of sm i] by auto
  qed
qed (use assms in simp)

lemma switch_to_another_stack:
  assumes "ok sm" "scene_id \<in> scenes" "scene_id_stack sm \<noteq> []"
  shows "\<exists>sm'. scene_manager_search_and_switch_to_another_scene h scene_id sm = Some (True, sm') \<and>
    ok sm' \<and> scene_id_stack sm' = [hd (scene_id_stack sm), scene_id]"
proof -
  have t: "take 1 (scene_id_stack sm) = [hd (scene_id_stack sm)]"
    using assms(3) by (cases "scene_id_stack sm") (auto simp: One_nat_def)
  have "set [hd (scene_id_stack sm), scene_id] \<subseteq> scenes" "last (scene_id_stack sm) \<in> scenes"
    using assms last_in_set [OF assms(3)] hd_in_set [OF assms(3)] by (auto simp: ok_def)
  from switch [OF assms(1) this assms(2)] t numbered [OF assms(2)] assms(3) show ?thesis
    by (auto simp: scene_manager_search_and_switch_to_another_scene_def Let_def)
qed

end

subsection \<open>Scenes are entered and left in pairs\<close>

text \<open>
  The navigation requests an application can make, as a step relation. A context that
  records which handlers ran shows the discipline: replaying the record never enters a scene
  while another one is open and never leaves a scene that is not the open one.
\<close>

inductive navigates :: "'c SceneManagerHandlers \<Rightarrow> 'c SceneManager \<Rightarrow> 'c SceneManager \<Rightarrow> bool"
  for h where
  nav_start: "navigates h sm sm"
| nav_next: "navigates h sm0 sm \<Longrightarrow> scene_manager_next_scene h i sm = Some sm' \<Longrightarrow> navigates h sm0 sm'"
| nav_previous: "navigates h sm0 sm \<Longrightarrow> scene_manager_previous_scene h sm = Some (b, sm') \<Longrightarrow>
    navigates h sm0 sm'"
| nav_search: "navigates h sm0 sm \<Longrightarrow>
    scene_manager_search_and_switch_to_previous_scene h i sm = Some (b, sm') \<Longrightarrow> navigates h sm0 sm'"
| nav_one_of: "navigates h sm0 sm \<Longrightarrow>
    scene_manager_search_and_switch_to_previous_scene_one_of h ids sm = Some (b, sm') \<Longrightarrow>
    navigates h sm0 sm'"
| nav_another: "navigates h sm0 sm \<Longrightarrow>
    scene_manager_search_and_switch_to_another_scene h i sm = Some (b, sm') \<Longrightarrow> navigates h sm0 sm'"
| nav_state: "navigates h sm0 sm \<Longrightarrow> scene_manager_set_scene_state h i s sm = Some sm' \<Longrightarrow>
    navigates h sm0 sm'"

fun replay :: "(bool \<times> nat) list \<Rightarrow> nat option \<Rightarrow> nat option option" where
  "replay [] open_scene = Some open_scene"
| "replay ((True, i) # log) None = replay log (Some i)"
| "replay ((False, i) # log) (Some j) = (if i = j then replay log None else None)"
| "replay ((True, i) # log) (Some j) = None"
| "replay ((False, i) # log) None = None"

lemma replay_append: "replay (xs @ ys) s = Option.bind (replay xs s) (replay ys)"
  by (induction xs s rule: replay.induct) auto

definition traced :: "'c SceneManagerHandlers \<Rightarrow> ('c \<Rightarrow> (bool \<times> nat) list) \<Rightarrow> bool" where
  "traced h tr \<longleftrightarrow> (\<forall>i < scene_num h. \<forall>sm.
     (\<exists>sm'. call_enter h i sm = Some sm' \<and> stays sm sm' \<and>
        tr (sm_context sm') = tr (sm_context sm) @ [(True, i)]) \<and>
     (\<exists>sm'. call_exit h i sm = Some sm' \<and> stays sm sm' \<and>
        tr (sm_context sm') = tr (sm_context sm) @ [(False, i)]))"

definition top_scene :: "'c SceneManager \<Rightarrow> nat option" where
  "top_scene sm = (if scene_id_stack sm = [] then None else Some (last (scene_id_stack sm)))"

definition paired :: "'c SceneManagerHandlers \<Rightarrow> ('c \<Rightarrow> (bool \<times> nat) list) \<Rightarrow> 'c SceneManager \<Rightarrow> bool" where
  "paired h tr sm \<longleftrightarrow> sm_ok h sm \<and> replay (tr (sm_context sm)) None = Some (top_scene sm)"

lemma traced_enter:
  assumes "traced h tr" "i < scene_num h" "call_enter h i sm = Some sm'"
  shows "scene_id_stack sm' = scene_id_stack sm" "length (scene sm') = length (scene sm)"
    "tr (sm_context sm') = tr (sm_context sm) @ [(True, i)]"
  using assms unfolding traced_def stays_def by (metis option.inject)+

lemma traced_exit:
  assumes "traced h tr" "i < scene_num h" "call_exit h i sm = Some sm'"
  shows "scene_id_stack sm' = scene_id_stack sm" "length (scene sm') = length (scene sm)"
    "tr (sm_context sm') = tr (sm_context sm) @ [(False, i)]"
  using assms unfolding traced_def stays_def by (metis option.inject)+

lemma paired_switch:
  assumes tr: "traced h tr" and p: "paired h tr sm" and ne: "scene_id_stack sm \<noteq> []"
    and st: "st \<noteq> []" "set st \<subseteq> {i. i < scene_num h}"
    and run: "call_exit h (last (scene_id_stack sm)) (sm\<lparr>scene_id_stack := st\<rparr>) = Some sm1"
      "call_enter h (last st) sm1 = Some sm'"
  shows "paired h tr sm'"
proof -
  have cur: "last (scene_id_stack sm) < scene_num h" "last st < scene_num h"
    using p ne st(2) last_in_set [OF st(1)] by (auto simp: paired_def sm_ok_def)
  note ex = traced_exit [OF tr cur(1) run(1)] and en = traced_enter [OF tr cur(2) run(2)]
  show ?thesis
    using p ne st ex en by (auto simp: paired_def sm_ok_def top_scene_def replay_append)
qed

lemma paired_next:
  assumes tr: "traced h tr" and p: "paired h tr sm" and run: "scene_manager_next_scene h i sm = Some sm'"
  shows "paired h tr sm'"
proof -
  have i: "i < scene_num h" using run by (auto simp: scene_manager_next_scene_def split: if_splits)
  obtain sm1 where sm1: "(if scene_id_stack sm \<noteq> [] then call_exit h (last (scene_id_stack sm)) sm
      else Some sm) = Some sm1"
    and en: "call_enter h i (sm1\<lparr>scene_id_stack := scene_id_stack sm1 @ [i]\<rparr>) = Some sm'"
    using run i by (auto simp: scene_manager_next_scene_def bind_eq_Some_conv)
  have 1: "scene_id_stack sm1 = scene_id_stack sm" "length (scene sm1) = length (scene sm)"
    "replay (tr (sm_context sm1)) None = Some None"
  proof -
    have "last (scene_id_stack sm) < scene_num h" if "scene_id_stack sm \<noteq> []"
      using p that by (auto simp: paired_def sm_ok_def)
    then show "scene_id_stack sm1 = scene_id_stack sm" "length (scene sm1) = length (scene sm)"
      "replay (tr (sm_context sm1)) None = Some None"
      using sm1 p traced_exit [OF tr, of "last (scene_id_stack sm)" sm sm1]
      by (auto simp: paired_def top_scene_def replay_append split: if_splits)
  qed
  show ?thesis
    using traced_enter [OF tr i en] 1 p i by (auto simp: paired_def sm_ok_def top_scene_def replay_append)
qed

lemma paired_previous:
  assumes tr: "traced h tr" and p: "paired h tr sm"
    and run: "scene_manager_previous_scene h sm = Some (b, sm')"
  shows "paired h tr sm'"
proof (cases "butlast (scene_id_stack sm) = []")
  case True
  show ?thesis
  proof (cases "scene_id_stack sm = []")
    case False
    have "last (scene_id_stack sm) < scene_num h" using p False by (auto simp: paired_def sm_ok_def)
    then show ?thesis
      using run True False p traced_exit [OF tr, of "last (scene_id_stack sm)" "sm\<lparr>scene_id_stack := []\<rparr>" sm']
      by (auto simp: scene_manager_previous_scene_def bind_eq_Some_conv paired_def sm_ok_def
          top_scene_def replay_append)
  qed (use run p in \<open>simp add: scene_manager_previous_scene_def\<close>)
next
  case False
  then have ne: "scene_id_stack sm \<noteq> []" by auto
  have sub: "set (butlast (scene_id_stack sm)) \<subseteq> {i. i < scene_num h}"
    using p by (auto simp: paired_def sm_ok_def dest: in_set_butlastD)
  show ?thesis
    using run ne False paired_switch [OF tr p ne False sub]
    by (auto simp: scene_manager_previous_scene_def bind_eq_Some_conv Let_def)
qed

lemma paired_search:
  assumes tr: "traced h tr" and p: "paired h tr sm"
    and run: "scene_manager_search_and_switch_to_previous_scene h i sm = Some (b, sm')"
  shows "paired h tr sm'"
proof (cases "search_down (scene_id_stack sm) i (length (scene_id_stack sm) - 1)")
  case None
  then show ?thesis using run p by (auto simp: scene_manager_search_and_switch_to_previous_scene_def split: if_splits)
next
  case (Some k)
  then have ne: "scene_id_stack sm \<noteq> []" and k: "k < length (scene_id_stack sm)"
    by (auto simp: search_down_Some)
  have l: "take (k + 1) (scene_id_stack sm) \<noteq> []" "last (take (k + 1) (scene_id_stack sm)) = scene_id_stack sm ! k"
    using k by (simp_all add: take_Suc_conv_app_nth Suc_eq_plus1 [symmetric])
  have sub: "set (take (k + 1) (scene_id_stack sm)) \<subseteq> {i. i < scene_num h}"
    using p by (auto simp: paired_def sm_ok_def dest: in_set_takeD)
  show ?thesis
    using run ne Some paired_switch [OF tr p ne l(1) sub] l(2)
    by (auto simp: scene_manager_search_and_switch_to_previous_scene_def bind_eq_Some_conv Let_def)
qed

lemma paired_one_of:
  assumes "traced h tr" "paired h tr sm"
    "scene_manager_search_and_switch_to_previous_scene_one_of h ids sm = Some (b, sm')"
  shows "paired h tr sm'"
  using assms
  by (induction ids) (auto simp: bind_eq_Some_conv split: if_splits intro: paired_search)

lemma paired_another:
  assumes tr: "traced h tr" and p: "paired h tr sm"
    and run: "scene_manager_search_and_switch_to_another_scene h i sm = Some (b, sm')"
  shows "paired h tr sm'"
proof (cases "scene_id_stack sm = []")
  case True
  then show ?thesis using run p by (auto simp: scene_manager_search_and_switch_to_another_scene_def split: if_splits)
next
  case False
  have i: "i < scene_num h"
    using run by (auto simp: scene_manager_search_and_switch_to_another_scene_def split: if_splits)
  then have sub: "set (take 1 (scene_id_stack sm) @ [i]) \<subseteq> {i. i < scene_num h}"
    using p by (auto simp: paired_def sm_ok_def dest: in_set_takeD)
  show ?thesis
    using run False i paired_switch [OF tr p False _ sub]
    by (auto simp: scene_manager_search_and_switch_to_another_scene_def bind_eq_Some_conv Let_def)
qed

lemma navigates_paired:
  assumes "traced h tr" "navigates h (scene_manager_alloc h ctx) sm" "tr ctx = []"
  shows "paired h tr sm"
  using assms(2)
proof (induction "scene_manager_alloc h ctx" sm rule: navigates.induct)
  case nav_start
  then show ?case
    using assms(3) by (simp add: paired_def sm_ok_def scene_manager_alloc_def top_scene_def)
next
  case (nav_state sm i s sm')
  then show ?case
    by (auto simp: scene_manager_set_scene_state_def bind_eq_Some_conv wr_Some_iff paired_def
        sm_ok_def top_scene_def split: if_splits)
qed (auto intro: paired_next paired_previous paired_search paired_one_of paired_another assms(1))


text \<open>C6: Whatever sequence of navigation requests an application makes, its scenes
  are entered and left in pairs: replaying the handlers that ran never enters a scene while
  another one is open, never leaves a scene that is not open, and the scene left open at the
  end is the one on top of the stack. The application's handlers only have to leave the
  stack alone and record themselves.\<close>

theorem scenes_paired:
  assumes "traced h tr" "tr ctx = []" "navigates h (scene_manager_alloc h ctx) sm"
  shows "replay (tr (sm_context sm)) None = Some (top_scene sm) \<and> sm_ok h sm"
  using navigates_paired [OF assms(1,3,2)] by (simp add: paired_def)

text \<open>An application whose handlers do nothing but record themselves in the context.\<close>

definition recording_app :: "nat \<Rightarrow> (bool \<times> nat) list SceneManagerHandlers" where
  "recording_app n = \<lparr>
     on_enter_handlers = map (\<lambda>i sm. Some (sm\<lparr>sm_context := sm_context sm @ [(True, i)]\<rparr>)) [0..<n],
     on_event_handlers = replicate n (\<lambda>_ sm. Some (False, sm)),
     on_exit_handlers = map (\<lambda>i sm. Some (sm\<lparr>sm_context := sm_context sm @ [(False, i)]\<rparr>)) [0..<n],
     scene_num = n\<rparr>"

lemma recording_app_traced: "traced (recording_app n) id"
  by (simp add: traced_def recording_app_def call_enter_def call_exit_def rd_def stays_def)

theorem scenes_paired_witness:
  "\<exists>sm1 sm2 sm3. scene_manager_next_scene (recording_app 3) 0 (scene_manager_alloc (recording_app 3) []) = Some sm1 \<and>
    scene_manager_next_scene (recording_app 3) 2 sm1 = Some sm2 \<and>
    scene_manager_previous_scene (recording_app 3) sm2 = Some (True, sm3) \<and>
    sm_context sm3 = [(True, 0), (False, 0), (True, 2), (False, 2), (True, 0)] \<and>
    replay (sm_context sm3) None = Some (Some 0)"
proof -
  note ev = scene_manager_next_scene_def scene_manager_previous_scene_def scene_manager_alloc_def
    recording_app_def call_enter_def call_exit_def rd_def Let_def
  obtain sm1 where 1: "scene_manager_next_scene (recording_app 3) 0 (scene_manager_alloc (recording_app 3) []) = Some sm1"
    "scene_id_stack sm1 = [0]" "sm_context sm1 = [(True, 0)]" by (simp add: ev)
  then obtain sm2 where 2: "scene_manager_next_scene (recording_app 3) 2 sm1 = Some sm2"
    "scene_id_stack sm2 = [0, 2]" "sm_context sm2 = [(True, 0), (False, 0), (True, 2)]" by (simp add: ev)
  then obtain sm3 where 3: "scene_manager_previous_scene (recording_app 3) sm2 = Some (True, sm3)"
    "scene_id_stack sm3 = [0]" "sm_context sm3 = [(True, 0), (False, 0), (True, 2), (False, 2), (True, 0)]"
    by (simp add: ev)
  have "navigates (recording_app 3) (scene_manager_alloc (recording_app 3) []) sm3"
    using nav_previous [OF nav_next [OF nav_next [OF nav_start 1(1)] 2(1)] 3(1)] .
  then have "replay (id (sm_context sm3)) None = Some (top_scene sm3) \<and> sm_ok (recording_app 3) sm3"
    by (intro scenes_paired [OF recording_app_traced]) simp_all
  with 1(1) 2(1) 3 show ?thesis by (auto simp: top_scene_def)
qed

end
