(* ===== verification/Desktop.thy ===== *)
theory Desktop
  imports Desktop_Views View_Stack Scene_Manager
begin

text \<open>
  The desktop service (firmware/applications/services/desktop/desktop.c) and its scenes
  (desktop/scenes): home screen, control center, lock screen with PIN, Quick Actions
  (favorites) and Recent. The whole state is the scene manager's, with the \<open>Desktop\<close>
  struct as its context: the struct, the RTC backup registers the service uses, the queue of
  custom events of its view dispatcher and a log of the calls it makes into other services.

  What other services answer (settings read from storage, USB state, the animation manager,
  scenes whose code is not modelled) is an argument, \<open>desktop_env\<close>.
\<close>

subsection \<open>State\<close>

datatype DesktopViewId =
  DesktopViewIdMain | DesktopViewIdLockMenu | DesktopViewIdQuickSettings | DesktopViewIdLocked |
  DesktopViewIdDebug | DesktopViewIdPopup | DesktopViewIdPinInput | DesktopViewIdPinTimeout |
  DesktopViewIdSlideshow | DesktopViewIdFavorites | DesktopViewIdRecent

definition DesktopSceneMain :: nat where [simp]: "DesktopSceneMain = 0"
definition DesktopSceneLockMenu :: nat where [simp]: "DesktopSceneLockMenu = 1"
definition DesktopSceneDebug :: nat where [simp]: "DesktopSceneDebug = 2"
definition DesktopSceneHwMismatch :: nat where [simp]: "DesktopSceneHwMismatch = 3"
definition DesktopSceneFault :: nat where [simp]: "DesktopSceneFault = 4"
definition DesktopSceneLocked :: nat where [simp]: "DesktopSceneLocked = 5"
definition DesktopScenePinInput :: nat where [simp]: "DesktopScenePinInput = 6"
definition DesktopScenePinTimeout :: nat where [simp]: "DesktopScenePinTimeout = 7"
definition DesktopSceneSlideshow :: nat where [simp]: "DesktopSceneSlideshow = 8"
definition DesktopSceneSecureEnclave :: nat where [simp]: "DesktopSceneSecureEnclave = 9"
definition DesktopSceneQuickSettings :: nat where [simp]: "DesktopSceneQuickSettings = 10"
definition DesktopSceneFavorites :: nat where [simp]: "DesktopSceneFavorites = 11"
definition DesktopSceneRecent :: nat where [simp]: "DesktopSceneRecent = 12"
definition DesktopSceneNum :: nat where [simp]: "DesktopSceneNum = 13"

definition FavoriteAppNumber :: nat where [simp]: "FavoriteAppNumber = 5"
definition DummyAppNumber :: nat where [simp]: "DummyAppNumber = 9"

text \<open>Character arrays are the strings they hold, without the terminating zero.\<close>

record DesktopSettings =
  auto_lock_delay_ms :: u32
  usb_inhibit_auto_lock :: bool
  dummy_mode :: bool
  display_clock :: bool
  favorite_apps :: "string list"
  dummy_apps :: "string list"
  menu_style :: string

datatype desktop_call =
    LoaderStart string "string option"
  | LoaderShowMenu
  | LoaderSetMenuStyle string
  | SwitchToView DesktopViewId
  | AnimationUnload | AnimationLoad | AnimationCheck | AnimationNewIdle | AnimationDummyMode bool
  | SemaphoreRelease
  | CliVcpEnabled bool
  | LockIcon bool | DummyIcon bool | StealthIcon bool | ClockIcon bool
  | GuiLockdown bool
  | PublishStatus bool
  | SettingsSave DesktopSettings
  | BtSetEnabled bool
  | PinErrorNotify | RedLight bool | BacklightOff
  | WrongPinTimer bool
  | WrongAttempts u32

text \<open>An entry of a submenu: label, index and whether it has a callback.\<close>

type_synonym submenu_item = "string \<times> nat \<times> bool"

record Desktop =
  d_view :: DesktopViewId
  locked_view :: DesktopViewLocked
  main_view :: DesktopMainView
  pin_input_view :: DesktopViewPinInput
  pin_timeout_view :: DesktopViewPinTimeout
  lock_menu :: DesktopLockMenuView
  favorites_submenu :: "submenu_item list"
  recent_submenu :: "submenu_item list"
  new_idle_callback :: bool
  check_callback :: bool
  interact_callback :: bool
  input_events_subscription :: bool
  auto_lock_timer :: "u32 option"
  update_clock_timer :: bool
  dashboard_update_timer :: bool
  settings :: DesktopSettings
  pending_app_name :: string
  recent_apps :: "string list"
  recent_apps_count :: nat
  in_transition :: bool
  app_running :: bool
  locked :: bool
  rtc_pin_value :: u32
  rtc_pin_fails :: u32
  rtc_flag_lock :: bool
  rtc_flag_stealth :: bool
  rtc_flag_debug :: bool
  bt_enabled :: bool
  event_queue :: "nat list"
  calls :: "desktop_call list"

type_synonym desktop_world = "Desktop SceneManager"

record desktop_env =
  env_furi_debug :: bool
  env_usb_locked :: bool
  env_animation_loaded :: bool
  env_interact :: bool
  env_settings :: DesktopSettings
  env_sd_ok :: bool
  env_pin_scene_state :: u32
  env_dolphin_input :: "InputEvent \<Rightarrow> bool"
  env_submenu_input :: "InputEvent \<Rightarrow> bool"
  env_enter :: "nat \<Rightarrow> Desktop scene_handler"
  env_event :: "nat \<Rightarrow> SceneManagerEvent \<Rightarrow> desktop_world \<Rightarrow> (bool \<times> desktop_world) option"
  env_exit :: "nat \<Rightarrow> Desktop scene_handler"
  env_view_input :: "DesktopViewId \<Rightarrow> InputEvent \<Rightarrow> bool \<times> nat list"

definition DESKTOP_RECENT_APPS_COUNT :: nat where [simp]: "DESKTOP_RECENT_APPS_COUNT = 6"
definition DESKTOP_RECENT_APP_NAME_LEN :: nat where [simp]: "DESKTOP_RECENT_APP_NAME_LEN = 40"

definition on_desktop :: "(Desktop \<Rightarrow> Desktop) \<Rightarrow> desktop_world \<Rightarrow> desktop_world" where
  "on_desktop f sm = sm\<lparr>sm_context := f (sm_context sm)\<rparr>"

definition send_events :: "nat list \<Rightarrow> Desktop \<Rightarrow> Desktop" where
  "send_events es d = d\<lparr>event_queue := event_queue d @ es\<rparr>"

definition desktop_call :: "desktop_call \<Rightarrow> Desktop \<Rightarrow> Desktop" where
  "desktop_call c d = d\<lparr>calls := calls d @ [c]\<rparr>"

text \<open>Switching the dispatcher's view leaves the old view and enters the new one; of the
  desktop's views only the PIN input has such callbacks.\<close>

definition switch_to_view :: "DesktopViewId \<Rightarrow> Desktop \<Rightarrow> Desktop" where
  "switch_to_view v d =
     (let d = (if d_view d = DesktopViewIdPinInput
               then d\<lparr>pin_input_view := desktop_view_pin_input_exit (pin_input_view d)\<rparr> else d);
          d = d\<lparr>d_view := v\<rparr>;
          d = (if v = DesktopViewIdPinInput
               then d\<lparr>pin_input_view := desktop_view_pin_input_enter (pin_input_view d)\<rparr> else d)
      in desktop_call (SwitchToView v) d)"

subsection \<open>Recent apps\<close>

text \<open>\<open>strlcpy\<close> into a buffer of \<open>n\<close> bytes keeps \<open>n - 1\<close> characters;
  \<open>strncmp(a, b, n) == 0\<close> compares the first \<open>n\<close>.\<close>

definition strlcpy :: "string \<Rightarrow> nat \<Rightarrow> string" where
  "strlcpy src n = take (n - 1) src"

definition desktop_recent_apps_push :: "string \<Rightarrow> Desktop \<Rightarrow> Desktop" where
  "desktop_recent_apps_push name d =
     (if name = [] then d
      else if recent_apps_count d > 0 \<and>
        take DESKTOP_RECENT_APP_NAME_LEN (recent_apps d ! 0) = take DESKTOP_RECENT_APP_NAME_LEN name then d
      else
        let count = (if recent_apps_count d < DESKTOP_RECENT_APPS_COUNT
                     then recent_apps_count d + 1 else recent_apps_count d);
            apps = fold (\<lambda>i apps. apps[i := strlcpy (apps ! (i - 1)) DESKTOP_RECENT_APP_NAME_LEN])
              (rev [1..<count]) (recent_apps d);
            apps = apps[0 := strlcpy name DESKTOP_RECENT_APP_NAME_LEN]
        in d\<lparr>recent_apps := apps, recent_apps_count := count\<rparr>)"

subsection \<open>Auto lock\<close>

definition desktop_start_auto_lock_timer :: "Desktop \<Rightarrow> Desktop" where
  "desktop_start_auto_lock_timer d = d\<lparr>auto_lock_timer := Some (auto_lock_delay_ms (settings d))\<rparr>"

definition desktop_stop_auto_lock_timer :: "Desktop \<Rightarrow> Desktop" where
  "desktop_stop_auto_lock_timer d = d\<lparr>auto_lock_timer := None\<rparr>"

definition desktop_auto_lock_arm :: "Desktop \<Rightarrow> Desktop" where
  "desktop_auto_lock_arm d =
     (if auto_lock_delay_ms (settings d) \<noteq> 0
      then desktop_start_auto_lock_timer (d\<lparr>input_events_subscription := True\<rparr>) else d)"

definition desktop_auto_lock_inhibit :: "Desktop \<Rightarrow> Desktop" where
  "desktop_auto_lock_inhibit d = (desktop_stop_auto_lock_timer d)\<lparr>input_events_subscription := False\<rparr>"

definition desktop_input_event_callback :: "InputEvent \<Rightarrow> Desktop \<Rightarrow> Desktop" where
  "desktop_input_event_callback event d =
     (if type event = InputTypePress then desktop_start_auto_lock_timer d else d)"

definition desktop_auto_lock_timer_callback :: "Desktop \<Rightarrow> Desktop" where
  "desktop_auto_lock_timer_callback d = send_events [DesktopGlobalAutoLock] d"

subsection \<open>Messages from other services\<close>

datatype LoaderEvent = LoaderEventTypeApplicationBeforeLoad "string option" | LoaderEventTypeOther |
  LoaderEventTypeNoMoreAppsInQueue

text \<open>
  \<open>desktop_loader_callback\<close> runs on the loader's thread. Before an application starts it posts the
  event and then waits up to three seconds for the desktop's thread to release the semaphore
  (\<open>furi_check(furi_semaphore_acquire(...) == FuriStatusOk)\<close>). The desktop goes on in between, so
  the wait is an operation of its own, with the answer of the semaphore as its argument.
\<close>

definition desktop_loader_callback :: "LoaderEvent \<Rightarrow> Desktop \<Rightarrow> Desktop" where
  "desktop_loader_callback event d =
     (case event of
        LoaderEventTypeApplicationBeforeLoad name \<Rightarrow>
          send_events [DesktopGlobalBeforeAppStarted]
            (d\<lparr>pending_app_name := (case name of
                Some n \<Rightarrow> strlcpy n DESKTOP_RECENT_APP_NAME_LEN | None \<Rightarrow> [])\<rparr>)
      | LoaderEventTypeNoMoreAppsInQueue \<Rightarrow> send_events [DesktopGlobalAfterAppFinished] d
      | LoaderEventTypeOther \<Rightarrow> d)"

definition desktop_loader_wait :: "bool \<Rightarrow> Desktop \<Rightarrow> Desktop option" where
  "desktop_loader_wait acquired d = do { furi_check acquired; Some d }"

definition desktop_storage_callback :: "bool \<Rightarrow> Desktop \<Rightarrow> Desktop" where
  "desktop_storage_callback card_mount d =
     (if card_mount then send_events [DesktopGlobalReloadSettings] d else d)"

definition desktop_api_is_locked :: "Desktop \<Rightarrow> bool" where
  "desktop_api_is_locked d = rtc_flag_lock d"

definition desktop_api_unlock :: "Desktop \<Rightarrow> Desktop" where
  "desktop_api_unlock d = send_events [DesktopGlobalApiUnlock] d"

definition desktop_api_reload_settings :: "Desktop \<Rightarrow> Desktop" where
  "desktop_api_reload_settings d = send_events [DesktopGlobalReloadSettings] d"

definition desktop_api_get_settings :: "Desktop \<Rightarrow> DesktopSettings" where
  "desktop_api_get_settings d = settings d"

definition desktop_api_set_settings :: "DesktopSettings \<Rightarrow> Desktop \<Rightarrow> Desktop" where
  "desktop_api_set_settings s d = send_events [DesktopGlobalSaveSettings] (d\<lparr>settings := s\<rparr>)"

subsection \<open>Settings and modes\<close>

text \<open>The clock's digits are drawn elsewhere; reconfiguring it starts or stops its timer.\<close>

definition desktop_clock_reconfigure :: "Desktop \<Rightarrow> Desktop" where
  "desktop_clock_reconfigure d =
     desktop_call (ClockIcon (display_clock (settings d)))
       (d\<lparr>update_clock_timer := display_clock (settings d)\<rparr>)"

text \<open>The hour that the status bar shows.\<close>

definition desktop_clock_hour :: "bool \<Rightarrow> nat \<Rightarrow> nat" where
  "desktop_clock_hour format_12 hour =
     (if format_12 then
        let hour = (if hour > 12 then hour - 12 else hour) in if hour = 0 then 12 else hour
      else hour)"

definition desktop_apply_settings :: "Desktop \<Rightarrow> Desktop" where
  "desktop_apply_settings d =
     (let d = d\<lparr>in_transition := True\<rparr>;
          d = desktop_clock_reconfigure d;
          d = desktop_call (DummyIcon (dummy_mode (settings d))) d;
          d = d\<lparr>main_view := desktop_main_set_dummy_mode_state (dummy_mode (settings d)) (main_view d)\<rparr>;
          d = desktop_call (AnimationDummyMode (dummy_mode (settings d))) d;
          d = desktop_call (LoaderSetMenuStyle (menu_style (settings d))) d;
          d = (if \<not> app_running d \<and> \<not> locked d then desktop_auto_lock_arm d else d)
      in d\<lparr>in_transition := False\<rparr>)"

definition desktop_init_settings :: "desktop_env \<Rightarrow> Desktop \<Rightarrow> Desktop" where
  "desktop_init_settings env d =
     (if \<not> env_sd_ok env then d else desktop_apply_settings (d\<lparr>settings := env_settings env\<rparr>))"

definition desktop_set_dummy_mode_state :: "bool \<Rightarrow> Desktop \<Rightarrow> Desktop" where
  "desktop_set_dummy_mode_state enabled d =
     (let d = d\<lparr>in_transition := True\<rparr>;
          d = desktop_call (DummyIcon enabled) d;
          d = d\<lparr>main_view := desktop_main_set_dummy_mode_state enabled (main_view d)\<rparr>;
          d = desktop_call (AnimationDummyMode enabled) d;
          d = d\<lparr>settings := (settings d)\<lparr>dummy_mode := enabled\<rparr>\<rparr>;
          d = d\<lparr>in_transition := False\<rparr>
      in desktop_call (SettingsSave (settings d)) d)"

definition desktop_set_stealth_mode_state :: "bool \<Rightarrow> Desktop \<Rightarrow> Desktop" where
  "desktop_set_stealth_mode_state enabled d =
     (let d = d\<lparr>in_transition := True\<rparr>;
          d = d\<lparr>rtc_flag_stealth := enabled\<rparr>;
          d = desktop_call (StealthIcon enabled) d
      in d\<lparr>in_transition := False\<rparr>)"

subsection \<open>Locking and unlocking\<close>

definition DesktopSceneLockedStateFirstEnter :: u32 where [simp]: "DesktopSceneLockedStateFirstEnter = 0"
definition DesktopSceneLockedStateRepeatEnter :: u32 where [simp]: "DesktopSceneLockedStateRepeatEnter = 1"

definition desktop_lock :: "bool \<Rightarrow> Desktop SceneManagerHandlers \<Rightarrow> Desktop scene_handler" where
  "desktop_lock furi_debug h sm = do {
     furi_assert furi_debug (\<not> locked (sm_context sm));
     let sm = on_desktop (\<lambda>d. d\<lparr>rtc_flag_lock := True\<rparr>) sm;
     let sm = on_desktop (\<lambda>d. if desktop_pin_code_is_set (rtc_pin_value d)
                               then desktop_call (CliVcpEnabled False) d else d) sm;
     let sm = on_desktop desktop_auto_lock_inhibit sm;
     sm \<leftarrow> scene_manager_set_scene_state h DesktopSceneLocked DesktopSceneLockedStateFirstEnter sm;
     sm \<leftarrow> scene_manager_next_scene h DesktopSceneLocked sm;
     Some (on_desktop (\<lambda>d. (desktop_call (PublishStatus True) d)\<lparr>locked := True\<rparr>) sm)
   }"

definition desktop_unlock :: "bool \<Rightarrow> Desktop SceneManagerHandlers \<Rightarrow> Desktop scene_handler" where
  "desktop_unlock furi_debug h sm = do {
     furi_assert furi_debug (locked (sm_context sm));
     let sm = on_desktop (\<lambda>d. desktop_call (GuiLockdown False) (desktop_call (LockIcon False) d)) sm;
     let sm = on_desktop (\<lambda>d. d\<lparr>locked_view := desktop_view_locked_unlock (locked_view d)\<rparr>) sm;
     (_, sm) \<leftarrow> scene_manager_search_and_switch_to_previous_scene h DesktopSceneMain sm;
     let sm = on_desktop desktop_auto_lock_arm sm;
     let sm = on_desktop (\<lambda>d. d\<lparr>rtc_flag_lock := False, rtc_pin_fails := 0\<rparr>) sm;
     let sm = on_desktop (\<lambda>d. if desktop_pin_code_is_set (rtc_pin_value d)
                               then desktop_call (CliVcpEnabled True) d else d) sm;
     Some (on_desktop (\<lambda>d. (desktop_call (PublishStatus False) d)\<lparr>locked := False\<rparr>) sm)
   }"

end
