(* ===== verification/Desktop_Scenes.thy ===== *)
theory Desktop_Scenes
  imports Desktop
begin

text \<open>
  The handlers of the desktop's scenes (firmware/applications/services/desktop/scenes) and
  the callbacks of its view dispatcher. Only the locked scene's enter handler navigates, and
  only to the PIN timeout; its table of handlers is therefore built first without it. The
  scenes that are not modelled (debug, hardware mismatch, fault, slideshow, secure enclave,
  quick settings) are taken from \<open>desktop_env\<close>.
\<close>

subsection \<open>Enter and exit handlers\<close>

definition desktop_scene_main_on_enter :: "Desktop scene_handler" where
  "desktop_scene_main_on_enter sm =
     Some (on_desktop (\<lambda>d.
       let d = d\<lparr>new_idle_callback := True, check_callback := True, interact_callback := True\<rparr>;
           d = d\<lparr>main_view := (main_view d)\<lparr>mv_callback := True\<rparr>\<rparr>;
           d = d\<lparr>main_view := desktop_main_update_dashboard ''Everyday'' (main_view d)\<rparr>;
           d = d\<lparr>dashboard_update_timer := True\<rparr>
       in switch_to_view DesktopViewIdMain d) sm)"

definition desktop_scene_main_on_exit :: "Desktop scene_handler" where
  "desktop_scene_main_on_exit sm =
     Some (on_desktop (\<lambda>d. d\<lparr>dashboard_update_timer := False, new_idle_callback := False,
       check_callback := False, interact_callback := False\<rparr>) sm)"

definition desktop_scene_lock_menu_on_enter ::
    "bool \<Rightarrow> Desktop SceneManagerHandlers \<Rightarrow> Desktop scene_handler" where
  "desktop_scene_lock_menu_on_enter furi_debug h sm = do {
     sm \<leftarrow> scene_manager_set_scene_state h DesktopSceneLockMenu 0 sm;
     let d = sm_context sm;
     let v = (lock_menu d)\<lparr>lm_callback := True, lm_dummy_mode := dummy_mode (settings d),
               lm_stealth_mode := rtc_flag_stealth d, lm_bt_mode := bt_enabled d\<rparr>;
     v \<leftarrow> desktop_lock_menu_set_idx furi_debug 0 v;
     Some (on_desktop (\<lambda>d. switch_to_view DesktopViewIdLockMenu (d\<lparr>lock_menu := v\<rparr>)) sm)
   }"

definition desktop_scene_lock_menu_on_exit :: "Desktop scene_handler" where
  "desktop_scene_lock_menu_on_exit sm = Some sm"

definition desktop_scene_locked_on_enter ::
    "bool \<Rightarrow> Desktop SceneManagerHandlers \<Rightarrow> Desktop scene_handler" where
  "desktop_scene_locked_on_enter furi_debug h sm = do {
     let sm = on_desktop (\<lambda>d. d\<lparr>new_idle_callback := True, check_callback := False,
                                interact_callback := False,
                                locked_view := desktop_view_locked_set_callback (locked_view d)\<rparr>) sm;
     state \<leftarrow> scene_manager_get_scene_state h sm DesktopSceneLocked;
     (switch_to_timeout_scene, sm) \<leftarrow>
       (if state = DesktopSceneLockedStateFirstEnter then do {
          let sm = on_desktop (\<lambda>d. desktop_call (GuiLockdown True) (desktop_call (LockIcon True) d)) sm;
          (switch_to_timeout_scene, sm) \<leftarrow>
            (if desktop_pin_code_is_set (rtc_pin_value (sm_context sm)) then do {
               v \<leftarrow> desktop_view_locked_lock furi_debug True (locked_view (sm_context sm));
               let sm = on_desktop (\<lambda>d. d\<lparr>locked_view := v\<rparr>) sm;
               let pin_timeout = desktop_pin_lock_get_fail_timeout (rtc_pin_fails (sm_context sm));
               if pin_timeout > 0 then do {
                 sm \<leftarrow> scene_manager_set_scene_state h DesktopScenePinTimeout pin_timeout sm;
                 Some (True, sm)
               } else do {
                 v \<leftarrow> desktop_view_locked_close_doors furi_debug (locked_view (sm_context sm));
                 Some (False, on_desktop (\<lambda>d. d\<lparr>locked_view := v\<rparr>) sm)
               }
             } else do {
               v \<leftarrow> desktop_view_locked_lock furi_debug False (locked_view (sm_context sm));
               v \<leftarrow> desktop_view_locked_close_doors furi_debug v;
               Some (False, on_desktop (\<lambda>d. d\<lparr>locked_view := v\<rparr>) sm)
             });
          sm \<leftarrow> scene_manager_set_scene_state h DesktopSceneLocked DesktopSceneLockedStateRepeatEnter sm;
          Some (switch_to_timeout_scene, sm)
        } else Some (False, sm));
     if switch_to_timeout_scene then scene_manager_next_scene h DesktopScenePinTimeout sm
     else Some (on_desktop (switch_to_view DesktopViewIdLocked) sm)
   }"

definition desktop_scene_locked_on_exit :: "Desktop scene_handler" where
  "desktop_scene_locked_on_exit sm = Some sm"

text \<open>The scene state is the address of a freshly allocated block.\<close>

definition desktop_scene_pin_input_update_wrong_count :: "Desktop \<Rightarrow> Desktop" where
  "desktop_scene_pin_input_update_wrong_count d = desktop_call (WrongAttempts (rtc_pin_fails d)) d"

definition desktop_scene_pin_input_on_enter ::
    "u32 \<Rightarrow> Desktop SceneManagerHandlers \<Rightarrow> Desktop scene_handler" where
  "desktop_scene_pin_input_on_enter state h sm = do {
     sm \<leftarrow> scene_manager_set_scene_state h DesktopScenePinInput state sm;
     Some (on_desktop (\<lambda>d.
       let d = d\<lparr>pin_input_view := desktop_view_pin_input_hide_pin True (pin_input_view d)\<rparr>;
           d = desktop_scene_pin_input_update_wrong_count d;
           d = d\<lparr>pin_input_view := desktop_view_pin_input_reset_pin (pin_input_view d)\<rparr>
       in switch_to_view DesktopViewIdPinInput d) sm)
   }"

definition desktop_scene_pin_input_on_exit :: "Desktop SceneManagerHandlers \<Rightarrow> Desktop scene_handler" where
  "desktop_scene_pin_input_on_exit h sm = do {
     let sm = on_desktop (desktop_call (RedLight False)) sm;
     state \<leftarrow> scene_manager_get_scene_state h sm DesktopScenePinInput;
     Some (on_desktop (desktop_call (WrongPinTimer False)) sm)
   }"

definition desktop_scene_pin_timeout_on_enter :: "Desktop SceneManagerHandlers \<Rightarrow> Desktop scene_handler" where
  "desktop_scene_pin_timeout_on_enter h sm = do {
     timeout \<leftarrow> scene_manager_get_scene_state h sm DesktopScenePinTimeout;
     Some (on_desktop (\<lambda>d.
       let v = desktop_view_pin_timeout_start timeout (pin_timeout_view d);
           v = desktop_view_pin_timeout_set_callback v
       in switch_to_view DesktopViewIdPinTimeout (d\<lparr>pin_timeout_view := v\<rparr>)) sm)
   }"

definition desktop_scene_pin_timeout_on_exit :: "Desktop scene_handler" where
  "desktop_scene_pin_timeout_on_exit sm = Some sm"

definition desktop_favorites_labels :: "string list" where
  "desktop_favorites_labels =
     [''Left'', ''Left (hold)'', ''Right'', ''Right (hold)'', ''OK (hold)'']"

text \<open>\<open>str[1] == 0 && str[0] == '?'\<close> for a string held in a larger array.\<close>

definition desktop_scene_check_none :: "string \<Rightarrow> bool" where
  "desktop_scene_check_none str \<longleftrightarrow> str = ''?''"

definition desktop_scene_favorites_on_enter :: "Desktop scene_handler" where
  "desktop_scene_favorites_on_enter sm = do {
     let d = (sm_context sm)\<lparr>favorites_submenu := []\<rparr>;
     items \<leftarrow> ofold (\<lambda>i items. do {
         label \<leftarrow> rd desktop_favorites_labels i;
         path \<leftarrow> rd (favorite_apps (settings d)) i;
         let shown = (if path = [] then ''Apps Menu''
                      else if desktop_scene_check_none path then ''(none)'' else path);
         Some (items @ [(label @ '': '' @ shown, i, True)])
       }) [0..<FavoriteAppNumber] [];
     Some (on_desktop (\<lambda>d. switch_to_view DesktopViewIdFavorites (d\<lparr>favorites_submenu := items\<rparr>)) sm)
   }"

definition desktop_scene_favorites_on_exit :: "Desktop scene_handler" where
  "desktop_scene_favorites_on_exit sm = Some (on_desktop (\<lambda>d. d\<lparr>favorites_submenu := []\<rparr>) sm)"

definition desktop_scene_recent_on_enter :: "Desktop scene_handler" where
  "desktop_scene_recent_on_enter sm = do {
     let d = sm_context sm;
     items \<leftarrow>
       (if recent_apps_count d = 0 then Some [(''No recent apps yet'', 0, False)]
        else ofold (\<lambda>i items. do { name \<leftarrow> rd (recent_apps d) i; Some (items @ [(name, i, True)]) })
               [0..<recent_apps_count d] []);
     Some (on_desktop (\<lambda>d. switch_to_view DesktopViewIdRecent (d\<lparr>recent_submenu := items\<rparr>)) sm)
   }"

definition desktop_scene_recent_on_exit :: "Desktop scene_handler" where
  "desktop_scene_recent_on_exit sm = Some (on_desktop (\<lambda>d. d\<lparr>recent_submenu := []\<rparr>) sm)"

text \<open>
  The handler table (desktop/scenes/desktop\_scene\_config.h gives the order). The inner
  table serves the state accesses of the handlers themselves; \<open>desktop_quiet_handlers\<close>
  has no navigating enter handler, and \<open>desktop_navigation_handlers\<close> completes it.
\<close>

definition desktop_scene_states :: "Desktop SceneManagerHandlers" where
  "desktop_scene_states = \<lparr>on_enter_handlers = [], on_event_handlers = [], on_exit_handlers = [],
     scene_num = DesktopSceneNum\<rparr>"

definition desktop_exit_handlers :: "desktop_env \<Rightarrow> Desktop scene_handler list" where
  "desktop_exit_handlers env =
     [desktop_scene_main_on_exit, desktop_scene_lock_menu_on_exit, env_exit env DesktopSceneDebug,
      env_exit env DesktopSceneHwMismatch, env_exit env DesktopSceneFault, desktop_scene_locked_on_exit,
      desktop_scene_pin_input_on_exit desktop_scene_states, desktop_scene_pin_timeout_on_exit,
      env_exit env DesktopSceneSlideshow, env_exit env DesktopSceneSecureEnclave,
      env_exit env DesktopSceneQuickSettings, desktop_scene_favorites_on_exit, desktop_scene_recent_on_exit]"

definition desktop_enter_handlers ::
    "desktop_env \<Rightarrow> Desktop scene_handler \<Rightarrow> Desktop scene_handler list" where
  "desktop_enter_handlers env locked_on_enter =
     [desktop_scene_main_on_enter,
      desktop_scene_lock_menu_on_enter (env_furi_debug env) desktop_scene_states,
      env_enter env DesktopSceneDebug, env_enter env DesktopSceneHwMismatch,
      env_enter env DesktopSceneFault, locked_on_enter,
      desktop_scene_pin_input_on_enter (env_pin_scene_state env) desktop_scene_states,
      desktop_scene_pin_timeout_on_enter desktop_scene_states, env_enter env DesktopSceneSlideshow,
      env_enter env DesktopSceneSecureEnclave, env_enter env DesktopSceneQuickSettings,
      desktop_scene_favorites_on_enter, desktop_scene_recent_on_enter]"

definition desktop_quiet_handlers :: "desktop_env \<Rightarrow> Desktop SceneManagerHandlers" where
  "desktop_quiet_handlers env = desktop_scene_states\<lparr>
     on_enter_handlers := desktop_enter_handlers env (\<lambda>sm. None),
     on_exit_handlers := desktop_exit_handlers env\<rparr>"

definition desktop_navigation_handlers :: "desktop_env \<Rightarrow> Desktop SceneManagerHandlers" where
  "desktop_navigation_handlers env = desktop_scene_states\<lparr>
     on_enter_handlers := desktop_enter_handlers env
       (desktop_scene_locked_on_enter (env_furi_debug env) (desktop_quiet_handlers env)),
     on_exit_handlers := desktop_exit_handlers env\<rparr>"

subsection \<open>Event handlers\<close>

definition LOADER_APPLICATIONS_NAME :: string where [simp]: "LOADER_APPLICATIONS_NAME = ''Apps''"

definition desktop_scene_main_open_app_or_profile :: "string \<Rightarrow> Desktop \<Rightarrow> Desktop" where
  "desktop_scene_main_open_app_or_profile name d =
     (if name \<noteq> [] then
        (if \<not> desktop_scene_check_none name then desktop_call (LoaderStart name None) d else d)
      else desktop_call (LoaderStart ''Passport'' None) d)"

definition desktop_scene_main_start_favorite :: "string \<Rightarrow> Desktop \<Rightarrow> Desktop" where
  "desktop_scene_main_start_favorite name d =
     (if name \<noteq> [] then
        (if \<not> desktop_scene_check_none name then desktop_call (LoaderStart name None) d else d)
      else desktop_call (LoaderStart LOADER_APPLICATIONS_NAME None) d)"

text \<open>The callback given to the main view.\<close>

definition desktop_scene_main_callback :: "nat \<Rightarrow> Desktop \<Rightarrow> Desktop" where
  "desktop_scene_main_callback event d = (if in_transition d then d else send_events [event] d)"

definition on_favorite :: "nat \<Rightarrow> Desktop scene_handler" where
  "on_favorite i sm = do {
     name \<leftarrow> rd (favorite_apps (settings (sm_context sm))) i;
     Some (on_desktop (desktop_scene_main_start_favorite name) sm)
   }"

definition on_dummy :: "nat \<Rightarrow> Desktop scene_handler" where
  "on_dummy i sm = do {
     name \<leftarrow> rd (dummy_apps (settings (sm_context sm))) i;
     Some (on_desktop (desktop_scene_main_open_app_or_profile name) sm)
   }"

definition consumed_by :: "bool \<Rightarrow> desktop_world option \<Rightarrow> (bool \<times> desktop_world) option" where
  "consumed_by b r = map_option (\<lambda>sm. (b, sm)) r"

definition desktop_scene_main_on_event ::
    "desktop_env \<Rightarrow> Desktop SceneManagerHandlers \<Rightarrow> SceneManagerEvent \<Rightarrow> desktop_world \<Rightarrow>
     (bool \<times> desktop_world) option" where
  "desktop_scene_main_on_event env h event sm =
     (if ev_type event = SceneManagerEventTypeCustom then
        let e = ev_event event; d = sm_context sm in
        if e = DesktopMainEventOpenMenu then Some (True, on_desktop (desktop_call LoaderShowMenu) sm)
        else if e = DesktopMainEventLock then consumed_by True (do {
          sm \<leftarrow> scene_manager_set_scene_state h DesktopSceneLockMenu 0 sm;
          desktop_lock (env_furi_debug env) h sm
        })
        else if e = DesktopMainEventOpenLockMenu then
          consumed_by True (scene_manager_next_scene h DesktopSceneLockMenu sm)
        else if e = DesktopMainEventOpenDebug then
          consumed_by True (scene_manager_next_scene h DesktopSceneDebug sm)
        else if e = DesktopMainEventOpenFavorites then
          consumed_by True (scene_manager_next_scene h DesktopSceneFavorites sm)
        else if e = DesktopMainEventOpenRecent then
          consumed_by True (scene_manager_next_scene h DesktopSceneRecent sm)
        else if e = DesktopMainEventOpenPowerOff then
          Some (True, on_desktop (desktop_call (LoaderStart ''Power'' (Some ''off''))) sm)
        else if e = DesktopMainEventOpenFavoriteLeftShort then consumed_by True (on_favorite 0 sm)
        else if e = DesktopMainEventOpenFavoriteLeftLong then consumed_by True (on_favorite 1 sm)
        else if e = DesktopMainEventOpenFavoriteRightShort then consumed_by True (on_favorite 2 sm)
        else if e = DesktopMainEventOpenFavoriteRightLong then consumed_by True (on_favorite 3 sm)
        else if e = DesktopAnimationEventCheckAnimation then
          Some (True, on_desktop (desktop_call AnimationCheck) sm)
        else if e = DesktopAnimationEventNewIdleAnimation then
          Some (True, on_desktop (desktop_call AnimationNewIdle) sm)
        else if e = DesktopAnimationEventInteractAnimation then
          (if \<not> env_interact env then
             (if \<not> dummy_mode (settings d) then consumed_by True (do {
                name \<leftarrow> rd (favorite_apps (settings d)) 2;
                Some (on_desktop (desktop_scene_main_open_app_or_profile name) sm)
              })
              else consumed_by True (on_dummy 2 sm))
           else Some (True, sm))
        else if e = DesktopDummyEventOpenLeft then consumed_by False (on_dummy 0 sm)
        else if e = DesktopDummyEventOpenDown then consumed_by False (on_dummy 5 sm)
        else if e = DesktopDummyEventOpenOk then consumed_by False (on_dummy 7 sm)
        else if e = DesktopDummyEventOpenUpLong then do {
          name \<leftarrow> rd (dummy_apps (settings d)) 4;
          if \<not> desktop_scene_check_none name then
            Some (False, on_desktop (desktop_scene_main_open_app_or_profile name) sm)
          else consumed_by False (do {
            sm \<leftarrow> scene_manager_set_scene_state h DesktopSceneLockMenu 0 sm;
            desktop_lock (env_furi_debug env) h sm
          })
        }
        else if e = DesktopDummyEventOpenDownLong then consumed_by False (on_dummy 6 sm)
        else if e = DesktopDummyEventOpenLeftLong then consumed_by False (on_dummy 1 sm)
        else if e = DesktopDummyEventOpenRightLong then consumed_by False (on_dummy 3 sm)
        else if e = DesktopDummyEventOpenOkLong then consumed_by False (on_dummy 8 sm)
        else if e = DesktopLockedEventUpdate then do {
          (events, v) \<leftarrow> desktop_view_locked_update (locked_view d);
          Some (True, on_desktop (\<lambda>d. send_events events (d\<lparr>locked_view := v\<rparr>)) sm)
        }
        else Some (False, sm)
      else Some (False, sm))"

text \<open>The locked view's callback sends the event without a check.\<close>

definition desktop_scene_lock_menu_on_event ::
    "Desktop SceneManagerHandlers \<Rightarrow> SceneManagerEvent \<Rightarrow> desktop_world \<Rightarrow>
     (bool \<times> desktop_world) option" where
  "desktop_scene_lock_menu_on_event h event sm =
     (let back_home = (\<lambda>sm. do {
        (_, sm) \<leftarrow> scene_manager_search_and_switch_to_previous_scene h DesktopSceneMain sm;
        Some (False, sm)
      }) in
      if ev_type event = SceneManagerEventTypeTick then do {
        check_pin_changed \<leftarrow> scene_manager_get_scene_state h sm DesktopSceneLockMenu;
        if check_pin_changed \<noteq> 0 \<and> desktop_pin_code_is_set (rtc_pin_value (sm_context sm)) then
          consumed_by False (scene_manager_set_scene_state h DesktopSceneLockMenu 0 sm)
        else Some (False, sm)
      }
      else if ev_type event = SceneManagerEventTypeCustom then
        (let e = ev_event event in
         if e = DesktopLockMenuEventBt then
           back_home (on_desktop (\<lambda>d. desktop_call (BtSetEnabled (\<not> bt_enabled d))
             (d\<lparr>bt_enabled := \<not> bt_enabled d\<rparr>)) sm)
         else if e = DesktopLockMenuEventDummyModeOn then
           back_home (on_desktop (desktop_set_dummy_mode_state True) sm)
         else if e = DesktopLockMenuEventDummyModeOff then
           back_home (on_desktop (desktop_set_dummy_mode_state False) sm)
         else if e = DesktopLockMenuEventStealthModeOn then
           back_home (on_desktop (desktop_set_stealth_mode_state True) sm)
         else if e = DesktopLockMenuEventStealthModeOff then
           back_home (on_desktop (desktop_set_stealth_mode_state False) sm)
         else if e = DesktopLockMenuEventOpenQuickSettings then
           consumed_by True (scene_manager_next_scene h DesktopSceneQuickSettings sm)
         else Some (False, sm))
      else consumed_by False (scene_manager_set_scene_state h DesktopSceneLockMenu 0 sm))"

definition desktop_scene_locked_on_event ::
    "bool \<Rightarrow> Desktop SceneManagerHandlers \<Rightarrow> SceneManagerEvent \<Rightarrow> desktop_world \<Rightarrow>
     (bool \<times> desktop_world) option" where
  "desktop_scene_locked_on_event furi_debug h event sm =
     (if ev_type event = SceneManagerEventTypeCustom then
        let e = ev_event event in
        if e = DesktopLockedEventUnlocked \<or> e = DesktopGlobalApiUnlock then
          consumed_by True (desktop_unlock furi_debug h sm)
        else if e = DesktopLockedEventDoorsClosed then
          Some (True, on_desktop (desktop_call BacklightOff) sm)
        else if e = DesktopLockedEventUpdate then do {
          let sm = (if desktop_view_locked_is_locked_hint_visible (locked_view (sm_context sm))
                    then on_desktop (desktop_call BacklightOff) sm else sm);
          (events, v) \<leftarrow> desktop_view_locked_update (locked_view (sm_context sm));
          Some (True, on_desktop (\<lambda>d. send_events events (d\<lparr>locked_view := v\<rparr>)) sm)
        }
        else if e = DesktopLockedEventShowPinInput then
          consumed_by True (scene_manager_next_scene h DesktopScenePinInput sm)
        else if e = DesktopAnimationEventNewIdleAnimation then
          Some (True, on_desktop (desktop_call AnimationNewIdle) sm)
        else Some (False, sm)
      else Some (False, sm))"

definition desktop_scene_pin_input_done_callback :: "DesktopPinCode \<Rightarrow> Desktop \<Rightarrow> Desktop option" where
  "desktop_scene_pin_input_done_callback pin_code d = do {
     ok \<leftarrow> desktop_pin_code_check (rtc_pin_value d) pin_code;
     if ok then Some (send_events [DesktopPinInputEventUnlocked] d)
     else Some (send_events [DesktopPinInputEventUnlockFailed] (d\<lparr>rtc_pin_fails := rtc_pin_fails d + 1\<rparr>))
   }"

definition desktop_scene_pin_input_set_timer ::
    "bool \<Rightarrow> Desktop SceneManagerHandlers \<Rightarrow> bool \<Rightarrow> Desktop scene_handler" where
  "desktop_scene_pin_input_set_timer furi_debug h enable sm = do {
     state \<leftarrow> scene_manager_get_scene_state h sm DesktopScenePinInput;
     furi_assert furi_debug (state \<noteq> 0);
     Some (on_desktop (desktop_call (WrongPinTimer enable)) sm)
   }"

definition desktop_scene_pin_input_on_event ::
    "bool \<Rightarrow> Desktop SceneManagerHandlers \<Rightarrow> SceneManagerEvent \<Rightarrow> desktop_world \<Rightarrow>
     (bool \<times> desktop_world) option" where
  "desktop_scene_pin_input_on_event furi_debug h event sm = do {
     state \<leftarrow> scene_manager_get_scene_state h sm DesktopScenePinInput;
     if ev_type event = SceneManagerEventTypeCustom then
       (let e = ev_event event in
        if e = DesktopPinInputEventUnlockFailed then consumed_by True
          (let pin_timeout = desktop_pin_lock_get_fail_timeout (rtc_pin_fails (sm_context sm)) in
           if pin_timeout > 0 then do {
             let sm = on_desktop (desktop_call PinErrorNotify) sm;
             sm \<leftarrow> scene_manager_set_scene_state h DesktopScenePinTimeout pin_timeout sm;
             scene_manager_next_scene h DesktopScenePinTimeout sm
           } else do {
             let sm = on_desktop (desktop_call (RedLight True)) sm;
             sm \<leftarrow> desktop_scene_pin_input_set_timer furi_debug h True sm;
             Some (on_desktop (\<lambda>d.
               let d = desktop_scene_pin_input_update_wrong_count d
               in d\<lparr>pin_input_view := desktop_view_pin_input_reset_pin (pin_input_view d)\<rparr>) sm)
           })
        else if e = DesktopPinInputEventResetWrongPinLabel then
          Some (True, on_desktop (\<lambda>d.
            desktop_scene_pin_input_update_wrong_count (desktop_call (RedLight False) d)) sm)
        else if e = DesktopPinInputEventUnlocked \<or> e = DesktopGlobalApiUnlock then
          consumed_by True (desktop_unlock furi_debug h sm)
        else if e = DesktopPinInputEventBack then do {
          (_, sm) \<leftarrow> scene_manager_search_and_switch_to_previous_scene h DesktopSceneLocked sm;
          Some (True, on_desktop (desktop_call BacklightOff) sm)
        }
        else Some (False, sm))
     else Some (False, sm)
   }"

definition desktop_scene_pin_timeout_on_event ::
    "Desktop SceneManagerHandlers \<Rightarrow> SceneManagerEvent \<Rightarrow> desktop_world \<Rightarrow>
     (bool \<times> desktop_world) option" where
  "desktop_scene_pin_timeout_on_event h event sm =
     (if ev_type event = SceneManagerEventTypeCustom \<and> ev_event event = DesktopPinTimeoutExit then do {
        (_, sm) \<leftarrow> scene_manager_previous_scene h sm;
        Some (True, sm)
      } else Some (False, sm))"

definition desktop_scene_favorites_on_event ::
    "bool \<Rightarrow> Desktop SceneManagerHandlers \<Rightarrow> SceneManagerEvent \<Rightarrow> desktop_world \<Rightarrow>
     (bool \<times> desktop_world) option" where
  "desktop_scene_favorites_on_event furi_debug h event sm =
     (if ev_type event = SceneManagerEventTypeCustom then do {
        furi_assert furi_debug (ev_event event < FavoriteAppNumber);
        path \<leftarrow> rd (favorite_apps (settings (sm_context sm))) (ev_event event);
        let sm = on_desktop (\<lambda>d.
          if path = [] then desktop_call (LoaderStart LOADER_APPLICATIONS_NAME None) d
          else if \<not> desktop_scene_check_none path then desktop_call (LoaderStart path None) d
          else d) sm;
        (_, sm) \<leftarrow> scene_manager_previous_scene h sm;
        Some (True, sm)
      } else Some (False, sm))"

definition desktop_scene_recent_on_event ::
    "bool \<Rightarrow> Desktop SceneManagerHandlers \<Rightarrow> SceneManagerEvent \<Rightarrow> desktop_world \<Rightarrow>
     (bool \<times> desktop_world) option" where
  "desktop_scene_recent_on_event furi_debug h event sm =
     (if ev_type event = SceneManagerEventTypeCustom then do {
        sm \<leftarrow> (if recent_apps_count (sm_context sm) > 0 then do {
                 furi_assert furi_debug (ev_event event < recent_apps_count (sm_context sm));
                 name \<leftarrow> rd (recent_apps (sm_context sm)) (ev_event event);
                 Some (on_desktop (desktop_call (LoaderStart name None)) sm)
               } else Some sm);
        (_, sm) \<leftarrow> scene_manager_previous_scene h sm;
        Some (True, sm)
      } else Some (False, sm))"

definition desktop_scene_handlers :: "desktop_env \<Rightarrow> Desktop SceneManagerHandlers" where
  "desktop_scene_handlers env =
     (let h = desktop_navigation_handlers env; furi_debug = env_furi_debug env in
      h\<lparr>on_event_handlers :=
        [desktop_scene_main_on_event env h, desktop_scene_lock_menu_on_event h,
         env_event env DesktopSceneDebug, env_event env DesktopSceneHwMismatch,
         env_event env DesktopSceneFault, desktop_scene_locked_on_event furi_debug h,
         desktop_scene_pin_input_on_event furi_debug h, desktop_scene_pin_timeout_on_event h,
         env_event env DesktopSceneSlideshow, env_event env DesktopSceneSecureEnclave,
         env_event env DesktopSceneQuickSettings, desktop_scene_favorites_on_event furi_debug h,
         desktop_scene_recent_on_event furi_debug h]\<rparr>)"

subsection \<open>Callbacks of the view dispatcher\<close>

definition desktop_custom_event_callback ::
    "desktop_env \<Rightarrow> nat \<Rightarrow> desktop_world \<Rightarrow> (bool \<times> desktop_world) option" where
  "desktop_custom_event_callback env event sm =
     (if event = DesktopGlobalBeforeAppStarted then
        Some (True, on_desktop (\<lambda>d.
          let d = (if env_animation_loaded env then desktop_call AnimationUnload d else d);
              d = desktop_auto_lock_inhibit d;
              d = d\<lparr>app_running := True\<rparr>;
              d = desktop_recent_apps_push (pending_app_name d) d
          in desktop_call SemaphoreRelease d) sm)
      else if event = DesktopGlobalAfterAppFinished then
        Some (True, on_desktop (\<lambda>d.
          (desktop_auto_lock_arm (desktop_call AnimationLoad d))\<lparr>app_running := False\<rparr>) sm)
      else if event = DesktopGlobalAutoLock then
        (if \<not> app_running (sm_context sm) \<and> \<not> locked (sm_context sm) then
           (if usb_inhibit_auto_lock (settings (sm_context sm)) \<and> env_usb_locked env then Some (False, sm)
            else consumed_by True (desktop_lock (env_furi_debug env) (desktop_navigation_handlers env) sm))
         else Some (True, sm))
      else if event = DesktopGlobalSaveSettings then
        Some (True, on_desktop (\<lambda>d. desktop_apply_settings (desktop_call (SettingsSave (settings d)) d)) sm)
      else if event = DesktopGlobalReloadSettings then
        Some (True, on_desktop (\<lambda>d. desktop_apply_settings (d\<lparr>settings := env_settings env\<rparr>)) sm)
      else scene_manager_handle_custom_event (desktop_scene_handlers env) event sm)"

definition desktop_back_event_callback :: "desktop_env \<Rightarrow> desktop_world \<Rightarrow> (bool \<times> desktop_world) option" where
  "desktop_back_event_callback env sm = scene_manager_handle_back_event (desktop_scene_handlers env) sm"

definition desktop_tick_event_callback :: "desktop_env \<Rightarrow> Desktop scene_handler" where
  "desktop_tick_event_callback env sm = scene_manager_handle_tick_event (desktop_scene_handlers env) sm"

definition desktop_dashboard_update_timer_callback :: "Desktop \<Rightarrow> Desktop" where
  "desktop_dashboard_update_timer_callback d =
     d\<lparr>main_view := desktop_main_update_dashboard ''Everyday'' (main_view d)\<rparr>"

end
