(* ===== verification/Desktop_Steps.thy ===== *)
theory Desktop_Steps
  imports Desktop_Scenes
begin

text \<open>
  The running desktop: the view stacks that \<open>desktop_alloc\<close> builds, the boot sequence of
  \<open>desktop_srv\<close>, the input dispatch of firmware/applications/services/gui/view\_dispatcher.c
  over the desktop's views, and everything that can happen to the service as a step
  relation. The lemmas carry the guard of a device locked with a PIN from step to step.
\<close>

subsection \<open>View stacks\<close>

text \<open>Addresses of the views on the two stacks.\<close>

definition DESKTOP_MAIN_VIEW :: nat where [simp]: "DESKTOP_MAIN_VIEW = 10"
definition DOLPHIN_VIEW :: nat where [simp]: "DOLPHIN_VIEW = 11"
definition DASHBOARD_VIEW :: nat where [simp]: "DASHBOARD_VIEW = 12"
definition LOCKED_VIEW :: nat where [simp]: "LOCKED_VIEW = 13"
definition MAIN_STACK_VIEW :: nat where [simp]: "MAIN_STACK_VIEW = 14"
definition LOCKED_STACK_VIEW :: nat where [simp]: "LOCKED_STACK_VIEW = 15"

definition plain_view :: "bool \<Rightarrow> bool \<Rightarrow> View" where
  "plain_view draws takes_input = \<lparr>draw_callback = draws, input_callback = takes_input,
     enter_callback = False, exit_callback = False, update_callback = None,
     update_callback_context = None\<rparr>"

text \<open>The main view only takes input, the dashboard only draws, the others do both.\<close>

definition desktop_views :: views where
  "desktop_views = \<lparr>view_at = (\<lambda>v. plain_view (v \<noteq> DESKTOP_MAIN_VIEW) (v \<noteq> DASHBOARD_VIEW)),
     view_calls = []\<rparr>"

text \<open>The part of \<open>desktop_alloc\<close> that fills the stacks: four views on the main one.\<close>

definition desktop_alloc_view_stacks :: "bool \<Rightarrow> (ViewStack \<times> ViewStack \<times> views) option" where
  "desktop_alloc_view_stacks furi_debug = do {
     (main, w) \<leftarrow> view_stack_add_view furi_debug DESKTOP_MAIN_VIEW (view_stack_alloc MAIN_STACK_VIEW, desktop_views);
     (main, w) \<leftarrow> view_stack_add_view furi_debug DOLPHIN_VIEW (main, w);
     (main, w) \<leftarrow> view_stack_add_view furi_debug DASHBOARD_VIEW (main, w);
     (main, w) \<leftarrow> view_stack_add_view furi_debug LOCKED_VIEW (main, w);
     (lock, w) \<leftarrow> view_stack_add_view furi_debug DOLPHIN_VIEW (view_stack_alloc LOCKED_STACK_VIEW, w);
     (lock, w) \<leftarrow> view_stack_add_view furi_debug LOCKED_VIEW (lock, w);
     Some (main, lock, w)
   }"

lemmas view_stack_eval = view_stack_alloc_def view_stack_add_view_def MAX_VIEWS_def Let_def held_def

text \<open>
  The stack has three slots: a debug build stops while the desktop is allocated, and a
  release build goes on with a home screen whose stack does not hold the locked view.
\<close>

lemma desktop_alloc_debug: "desktop_alloc_view_stacks True = None"
  by (simp add: desktop_alloc_view_stacks_def view_stack_eval numeral_eq_Suc)

lemma desktop_alloc_release:
  "\<exists>main lock w. desktop_alloc_view_stacks False = Some (main, lock, w) \<and>
     vs_views main = [Some DESKTOP_MAIN_VIEW, Some DOLPHIN_VIEW, Some DASHBOARD_VIEW] \<and>
     vs_views lock = [Some DOLPHIN_VIEW, Some LOCKED_VIEW, None]"
  by (simp add: desktop_alloc_view_stacks_def view_stack_eval numeral_eq_Suc)

subsection \<open>Input\<close>

text \<open>The views of the stacks that a release build ends up with.\<close>

definition main_view_stack :: ViewStack where
  "main_view_stack = (case desktop_alloc_view_stacks False of
     Some (main, lock, w) \<Rightarrow> main | None \<Rightarrow> view_stack_alloc MAIN_STACK_VIEW)"

definition locked_view_stack :: ViewStack where
  "locked_view_stack = (case desktop_alloc_view_stacks False of
     Some (main, lock, w) \<Rightarrow> lock | None \<Rightarrow> view_stack_alloc LOCKED_STACK_VIEW)"

lemma stack_views [simp]:
  "vs_views main_view_stack = [Some DESKTOP_MAIN_VIEW, Some DOLPHIN_VIEW, Some DASHBOARD_VIEW]"
  "vs_views locked_view_stack = [Some DOLPHIN_VIEW, Some LOCKED_VIEW, None]"
  using desktop_alloc_release by (auto simp: main_view_stack_def locked_view_stack_def)

definition stacked_view_input ::
    "desktop_env \<Rightarrow> u32 \<Rightarrow> nat \<Rightarrow> InputEvent \<Rightarrow> Desktop \<Rightarrow> (bool \<times> Desktop) option" where
  "stacked_view_input env now v event d =
     (if v = DESKTOP_MAIN_VIEW then do {
        (consumed, events, mv) \<leftarrow> desktop_main_input_callback (rtc_flag_debug d) event (main_view d);
        Some (consumed, fold desktop_scene_main_callback events (d\<lparr>main_view := mv\<rparr>))
      } else if v = DOLPHIN_VIEW then Some (env_dolphin_input env event, d)
      else if v = LOCKED_VIEW then do {
        (consumed, events, lv) \<leftarrow> desktop_view_locked_input now event (locked_view d);
        Some (consumed, send_events events (d\<lparr>locked_view := lv\<rparr>))
      } else None)"

text \<open>\<open>view_input\<close> of the dispatcher's view with the given identifier.\<close>

definition desktop_view_input ::
    "desktop_env \<Rightarrow> u32 \<Rightarrow> DesktopViewId \<Rightarrow> InputEvent \<Rightarrow> Desktop \<Rightarrow> (bool \<times> Desktop) option" where
  "desktop_view_input env now v event d =
     (case v of
        DesktopViewIdMain \<Rightarrow>
          view_stack_input (stacked_view_input env now) desktop_views main_view_stack event d
      | DesktopViewIdLocked \<Rightarrow>
          view_stack_input (stacked_view_input env now) desktop_views locked_view_stack event d
      | DesktopViewIdPinInput \<Rightarrow> do {
          (call, pv) \<leftarrow> desktop_view_pin_input_input event (pin_input_view d);
          let d = d\<lparr>pin_input_view := pv\<rparr>;
          d \<leftarrow> (case call of
                 Some (PinDone pin) \<Rightarrow> desktop_scene_pin_input_done_callback pin d
               | Some PinBack \<Rightarrow> Some (send_events [DesktopPinInputEventBack] d)
               | None \<Rightarrow> Some d);
          Some (True, d)
        }
      | DesktopViewIdPinTimeout \<Rightarrow> Some (desktop_view_pin_timeout_input event, d)
      | DesktopViewIdLockMenu \<Rightarrow> do {
          (consumed, events, lm) \<leftarrow> desktop_lock_menu_input_callback event (lock_menu d);
          Some (consumed, send_events events (d\<lparr>lock_menu := lm\<rparr>))
        }
      | DesktopViewIdFavorites \<Rightarrow> Some (env_submenu_input env event, d)
      | DesktopViewIdRecent \<Rightarrow> Some (env_submenu_input env event, d)
      | other \<Rightarrow> (case env_view_input env other event of
          (consumed, events) \<Rightarrow> Some (consumed, send_events events d)))"

text \<open>
  The dispatcher remembers which keys are down and the view that was current when the first
  of them was pressed; only that view gets the rest of the sequence. None of the desktop's
  views has a previous callback, so an unconsumed Back goes to the navigation callback.
\<close>

record desktop_system =
  world :: desktop_world
  ongoing_input :: u8
  ongoing_input_view :: "DesktopViewId option"

definition key_bit :: "InputKey \<Rightarrow> u8" where
  "key_bit k = push_bit (unat (key_code k)) 1"

text \<open>The second half of \<open>view_dispatcher_handle_input\<close>: deliver the event.\<close>

definition deliver_input ::
    "desktop_env \<Rightarrow> u32 \<Rightarrow> InputEvent \<Rightarrow> desktop_system \<Rightarrow> desktop_system option" where
  "deliver_input env now event s =
     (let current = d_view (sm_context (world s)) in
      if ongoing_input_view s = Some current then do {
        (consumed, d) \<leftarrow> desktop_view_input env now current event (sm_context (world s));
        let sm = (world s)\<lparr>sm_context := d\<rparr>;
        if \<not> consumed \<and> key event = InputKeyBack \<and>
           (type event = InputTypeShort \<or> type event = InputTypeLong) then do {
          (_, sm) \<leftarrow> desktop_back_event_callback env sm;
          Some (s\<lparr>world := sm\<rparr>)
        } else Some (s\<lparr>world := sm\<rparr>)
      }
      else (case ongoing_input_view s of
        Some v \<Rightarrow>
          if type event = InputTypeRelease then do {
            (_, d) \<leftarrow> desktop_view_input env now v event (sm_context (world s));
            Some (s\<lparr>world := (world s)\<lparr>sm_context := d\<rparr>\<rparr>)
          } else Some s
      | None \<Rightarrow> Some s))"

definition view_dispatcher_handle_input ::
    "desktop_env \<Rightarrow> u32 \<Rightarrow> InputEvent \<Rightarrow> desktop_system \<Rightarrow> desktop_system option" where
  "view_dispatcher_handle_input env now event s =
     (let bit = key_bit (key event) in
      if type event \<noteq> InputTypePress \<and> type event \<noteq> InputTypeRelease \<and> ongoing_input s AND bit = 0
      then Some s
      else
        let s = (if type event = InputTypePress then s\<lparr>ongoing_input := ongoing_input s OR bit\<rparr>
                 else if type event = InputTypeRelease then s\<lparr>ongoing_input := ongoing_input s AND NOT bit\<rparr>
                 else s);
            s = (if ongoing_input s AND NOT bit = 0 \<and> type event = InputTypePress
                 then s\<lparr>ongoing_input_view := Some (d_view (sm_context (world s)))\<rparr> else s)
        in deliver_input env now event s)"

subsection \<open>Everything that can happen\<close>

datatype stimulus =
    Key u32 InputEvent
  | Dispatch
  | Tick
  | LockedViewTimer | PoweroffTimer | AutoLockTimer | PinTimeoutTimer | PinInactivityTimer
  | WrongPinLabelTimer | DashboardTimer
  | NewIdleAnimation | CheckAnimation | InteractAnimation
  | SubmenuSelect nat
  | LoaderMessage LoaderEvent
  | LoaderWait bool
  | CardMount
  | AnyInput InputEvent
  | ApiUnlock | ApiReloadSettings | ApiSetSettings DesktopSettings

definition with_desktop :: "(Desktop \<Rightarrow> Desktop) \<Rightarrow> desktop_system \<Rightarrow> desktop_system" where
  "with_desktop f s = s\<lparr>world := on_desktop f (world s)\<rparr>"

abbreviation desk :: "desktop_system \<Rightarrow> Desktop" where
  "desk s \<equiv> sm_context (world s)"

text \<open>
  A timer that does not run and a callback that is not set do nothing. \<open>LoaderWait\<close> is the end of the
  loader's wait for the desktop; it stops the firmware when the semaphore was not released in time.
\<close>

definition desktop_react :: "desktop_env \<Rightarrow> stimulus \<Rightarrow> desktop_system \<Rightarrow> desktop_system option" where
  "desktop_react env stim s =
     (case stim of
        Key now event \<Rightarrow> view_dispatcher_handle_input env now event s
      | Dispatch \<Rightarrow>
          (case event_queue (desk s) of
             [] \<Rightarrow> Some s
           | e # es \<Rightarrow> do {
               (_, sm) \<leftarrow> desktop_custom_event_callback env e (on_desktop (\<lambda>d. d\<lparr>event_queue := es\<rparr>) (world s));
               Some (s\<lparr>world := sm\<rparr>)
             })
      | Tick \<Rightarrow> do { sm \<leftarrow> desktop_tick_event_callback env (world s); Some (s\<lparr>world := sm\<rparr>) }
      | LockedViewTimer \<Rightarrow>
          (if lv_timer (locked_view (desk s)) = None then Some s
           else do {
             events \<leftarrow> locked_view_timer_callback (locked_view (desk s));
             Some (with_desktop (send_events events) s)
           })
      | PoweroffTimer \<Rightarrow>
          (if \<not> mv_poweroff_timer (main_view (desk s)) then Some s
           else do {
             events \<leftarrow> desktop_main_poweroff_timer_callback (main_view (desk s));
             Some (with_desktop (\<lambda>d. fold desktop_scene_main_callback events
               (d\<lparr>main_view := (main_view d)\<lparr>mv_poweroff_timer := False\<rparr>\<rparr>)) s)
           })
      | AutoLockTimer \<Rightarrow>
          (if auto_lock_timer (desk s) = None then Some s
           else Some (with_desktop (\<lambda>d. desktop_auto_lock_timer_callback (d\<lparr>auto_lock_timer := None\<rparr>)) s))
      | PinTimeoutTimer \<Rightarrow>
          (if \<not> pt_timer (pin_timeout_view (desk s)) then Some s
           else do {
             (events, v) \<leftarrow> desktop_view_pin_timeout_timer_callback (pin_timeout_view (desk s));
             Some (with_desktop (\<lambda>d. send_events events (d\<lparr>pin_timeout_view := v\<rparr>)) s)
           })
      | PinInactivityTimer \<Rightarrow>
          (if \<not> pi_timer (pin_input_view (desk s)) then Some s
           else Some (with_desktop (\<lambda>d. send_events [DesktopPinInputEventBack]
             (d\<lparr>pin_input_view := (pin_input_view d)\<lparr>pi_timer := False\<rparr>\<rparr>)) s))
      | WrongPinLabelTimer \<Rightarrow> Some (with_desktop (send_events [DesktopPinInputEventResetWrongPinLabel]) s)
      | DashboardTimer \<Rightarrow>
          (if \<not> dashboard_update_timer (desk s) then Some s
           else Some (with_desktop desktop_dashboard_update_timer_callback s))
      | NewIdleAnimation \<Rightarrow>
          Some (if new_idle_callback (desk s)
                then with_desktop (send_events [DesktopAnimationEventNewIdleAnimation]) s else s)
      | CheckAnimation \<Rightarrow>
          Some (if check_callback (desk s)
                then with_desktop (send_events [DesktopAnimationEventCheckAnimation]) s else s)
      | InteractAnimation \<Rightarrow>
          Some (if interact_callback (desk s)
                then with_desktop (send_events [DesktopAnimationEventInteractAnimation]) s else s)
      | SubmenuSelect i \<Rightarrow>
          (let items = (if d_view (desk s) = DesktopViewIdFavorites then favorites_submenu (desk s)
                        else if d_view (desk s) = DesktopViewIdRecent then recent_submenu (desk s) else [])
           in if i < length items \<and> snd (snd (items ! i))
              then Some (with_desktop (send_events [fst (snd (items ! i))]) s) else Some s)
      | LoaderMessage event \<Rightarrow> Some (with_desktop (desktop_loader_callback event) s)
      | LoaderWait acquired \<Rightarrow> do { d \<leftarrow> desktop_loader_wait acquired (desk s); Some (with_desktop (\<lambda>_. d) s) }
      | CardMount \<Rightarrow> Some (with_desktop (desktop_storage_callback True) s)
      | AnyInput event \<Rightarrow>
          Some (if input_events_subscription (desk s)
                then with_desktop (desktop_input_event_callback event) s else s)
      | ApiUnlock \<Rightarrow> Some (with_desktop desktop_api_unlock s)
      | ApiReloadSettings \<Rightarrow> Some (with_desktop desktop_api_reload_settings s)
      | ApiSetSettings st \<Rightarrow> Some (with_desktop (desktop_api_set_settings st) s))"

text \<open>Runs of the service; the answers of the other services may change at every step.\<close>

inductive desktop_runs ::
    "desktop_system \<Rightarrow> (desktop_env \<times> stimulus \<times> desktop_system) list \<Rightarrow> desktop_system \<Rightarrow> bool" where
  runs_refl: "desktop_runs s [] s"
| runs_step: "desktop_runs s steps t \<Longrightarrow> desktop_react env stim t = Some u \<Longrightarrow>
    desktop_runs s (steps @ [(env, stim, t)]) u"

inductive_cases desktop_runs_snocE: "desktop_runs s (steps @ [x]) u"

subsection \<open>Boot\<close>

text \<open>The part of \<open>desktop_srv\<close> between loading the settings and the event loop; the
  conditions of the optional scenes are arguments.\<close>

definition desktop_srv_boot ::
    "desktop_env \<Rightarrow> bool \<Rightarrow> bool \<Rightarrow> bool \<Rightarrow> bool \<Rightarrow> desktop_world \<Rightarrow> desktop_world option" where
  "desktop_srv_boot env slideshow hw_mismatch fault enclave_failed sm = do {
     let h = desktop_navigation_handlers env;
     sm \<leftarrow> scene_manager_next_scene h DesktopSceneMain sm;
     sm \<leftarrow> (if desktop_pin_code_is_set (rtc_pin_value (sm_context sm))
            then desktop_lock (env_furi_debug env) h sm
            else Some (on_desktop (desktop_call (CliVcpEnabled True)) sm));
     sm \<leftarrow> (if slideshow then scene_manager_next_scene h DesktopSceneSlideshow sm else Some sm);
     sm \<leftarrow> (if hw_mismatch then scene_manager_next_scene h DesktopSceneHwMismatch sm else Some sm);
     sm \<leftarrow> (if fault then scene_manager_next_scene h DesktopSceneFault sm else Some sm);
     sm \<leftarrow> (if enclave_failed then scene_manager_next_scene h DesktopSceneSecureEnclave sm else Some sm);
     Some (if app_running (sm_context sm) \<and> env_animation_loaded env
           then on_desktop (desktop_call AnimationUnload) sm else sm)
   }"

end
