(* ===== verification/Desktop_Lock.thy ===== *)
theory Desktop_Lock
  imports Desktop_Steps
begin

text \<open>
  The lock screen is a guard: from the moment the desktop is locked with a PIN, nothing but
  the right PIN or an explicit unlock request over the API brings the home screen back. The
  guard is an invariant of \<open>desktop_react\<close>; the lemmas follow it through the scene
  handlers, the views and the dispatcher.
\<close>

subsection \<open>The guard\<close>

definition unlock_events :: "nat set" where
  "unlock_events = {DesktopLockedEventUnlocked, DesktopPinInputEventUnlocked, DesktopGlobalApiUnlock}"

text \<open>What the environment must not do: post one of these events from a view that is not
  modelled, or hand out a null pointer as allocated memory.\<close>

definition env_ok :: "desktop_env \<Rightarrow> bool" where
  "env_ok env \<longleftrightarrow> env_pin_scene_state env \<noteq> 0 \<and>
     (\<forall>v event. set (snd (env_view_input env v event)) \<inter> unlock_events = {})"

definition desk_guarded :: "Desktop \<Rightarrow> bool" where
  "desk_guarded d \<longleftrightarrow> locked d \<and> rtc_flag_lock d \<and> desktop_pin_code_is_set (rtc_pin_value d) \<and>
     lv_guarded (locked_view d) \<and> pi_ok (pin_input_view d) \<and>
     (pt_timer (pin_timeout_view d) \<longrightarrow> pt_callback (pin_timeout_view d)) \<and>
     (mv_poweroff_timer (main_view d) \<longrightarrow> mv_callback (main_view d)) \<and>
     set (event_queue d) \<inter> unlock_events = {}"

fun guard_view :: "nat list \<Rightarrow> DesktopViewId" where
  "guard_view tops = (if tops = [] then DesktopViewIdLocked
     else if last tops = DesktopScenePinInput then DesktopViewIdPinInput else DesktopViewIdPinTimeout)"

definition guard_tops :: "nat list set" where
  "guard_tops = {[], [DesktopScenePinInput], [DesktopScenePinTimeout],
     [DesktopScenePinInput, DesktopScenePinTimeout]}"

definition guarded :: "desktop_world \<Rightarrow> bool" where
  "guarded sm \<longleftrightarrow> desk_guarded (sm_context sm) \<and> length (scene sm) = DesktopSceneNum \<and>
     scene sm ! DesktopSceneLocked \<noteq> DesktopSceneLockedStateFirstEnter \<and>
     (\<exists>base tops. scene_id_stack sm = base @ DesktopSceneLocked # tops \<and> DesktopSceneMain \<in> set base \<and>
        tops \<in> guard_tops \<and> (DesktopScenePinInput \<in> set tops \<longrightarrow> scene sm ! DesktopScenePinInput \<noteq> 0) \<and>
        d_view (sm_context sm) = guard_view tops)"

lemma on_desktop_simps [simp]:
  "scene_id_stack (on_desktop f sm) = scene_id_stack sm"
  "scene (on_desktop f sm) = scene sm"
  "sm_context (on_desktop f sm) = f (sm_context sm)"
  by (simp_all add: on_desktop_def)

subsection \<open>Handlers of the guarding scenes\<close>

lemmas handler_tables = desktop_navigation_handlers_def desktop_quiet_handlers_def desktop_scene_states_def
  desktop_enter_handlers_def desktop_exit_handlers_def

lemma num_scenes [simp]:
  "scene_num (desktop_navigation_handlers env) = 13" "scene_num desktop_scene_states = 13"
  "scene_num (desktop_quiet_handlers env) = 13" "scene_num (desktop_scene_handlers env) = 13"
  by (simp_all add: handler_tables desktop_scene_handlers_def Let_def)

lemma exit_calls [simp]:
  "call_exit (desktop_navigation_handlers env) 0 sm = desktop_scene_main_on_exit sm"
  "call_exit (desktop_navigation_handlers env) 5 sm = Some sm"
  "call_exit (desktop_navigation_handlers env) 6 sm = desktop_scene_pin_input_on_exit desktop_scene_states sm"
  "call_exit (desktop_navigation_handlers env) 7 sm = Some sm"
  by (simp_all add: call_exit_def handler_tables rd_def desktop_scene_locked_on_exit_def
      desktop_scene_pin_timeout_on_exit_def)

lemma enter_calls [simp]:
  "call_enter (desktop_navigation_handlers env) 0 sm = desktop_scene_main_on_enter sm"
  "call_enter (desktop_navigation_handlers env) 5 sm =
     desktop_scene_locked_on_enter (env_furi_debug env) (desktop_quiet_handlers env) sm"
  "call_enter (desktop_navigation_handlers env) 6 sm =
     desktop_scene_pin_input_on_enter (env_pin_scene_state env) desktop_scene_states sm"
  "call_enter (desktop_navigation_handlers env) 7 sm = desktop_scene_pin_timeout_on_enter desktop_scene_states sm"
  by (simp_all add: call_enter_def handler_tables rd_def)

lemma event_calls [simp]:
  "call_event (desktop_scene_handlers env) 5 ev sm =
     desktop_scene_locked_on_event (env_furi_debug env) (desktop_navigation_handlers env) ev sm"
  "call_event (desktop_scene_handlers env) 6 ev sm =
     desktop_scene_pin_input_on_event (env_furi_debug env) (desktop_navigation_handlers env) ev sm"
  "call_event (desktop_scene_handlers env) 7 ev sm =
     desktop_scene_pin_timeout_on_event (desktop_navigation_handlers env) ev sm"
  by (simp_all add: call_event_def desktop_scene_handlers_def Let_def rd_def)

lemma set_state [simp]:
  "length (scene sm) = 13 \<Longrightarrow> i < 13 \<Longrightarrow> scene_num h = 13 \<Longrightarrow>
   scene_manager_set_scene_state h i s sm = Some (sm\<lparr>scene := (scene sm)[i := s]\<rparr>)"
  by (simp add: scene_manager_set_scene_state_def wr_def)

lemma get_state [simp]:
  "length (scene sm) = 13 \<Longrightarrow> i < 13 \<Longrightarrow> scene_num h = 13 \<Longrightarrow>
   scene_manager_get_scene_state h sm i = Some (scene sm ! i)"
  by (simp add: scene_manager_get_scene_state_def rd_def)

lemma pi_ok_simps [simp]:
  "pi_ok (desktop_view_pin_input_exit v) = pi_ok v" "pi_ok (desktop_view_pin_input_enter v) = pi_ok v"
  "pi_ok (desktop_view_pin_input_hide_pin b v) = pi_ok v"
  "pi_ok v \<Longrightarrow> pi_ok (desktop_view_pin_input_reset_pin v)"
  by (simp_all add: pi_ok_def pin_ok_def desktop_view_pin_input_exit_def desktop_view_pin_input_enter_def
      desktop_view_pin_input_hide_pin_def desktop_view_pin_input_reset_pin_def)

lemma switch_to_view_guarded [simp]:
  "desk_guarded (switch_to_view v d) = desk_guarded d" "d_view (switch_to_view v d) = v"
  by (simp_all add: switch_to_view_def desktop_call_def desk_guarded_def Let_def)

lemma desktop_call_simps [simp]:
  "desk_guarded (desktop_call c d) = desk_guarded d" "d_view (desktop_call c d) = d_view d"
  "rtc_pin_fails (desktop_call c d) = rtc_pin_fails d" "rtc_pin_value (desktop_call c d) = rtc_pin_value d"
  "locked_view (desktop_call c d) = locked_view d" "pin_input_view (desktop_call c d) = pin_input_view d"
  "event_queue (desktop_call c d) = event_queue d"
  by (simp_all add: desktop_call_def desk_guarded_def)

text \<open>Entering and leaving one of the three scenes keeps the guard and shows its view.\<close>

lemma exit_guard:
  assumes "i \<in> {5, 6, 7}" "length (scene sm) = 13"
  shows "\<exists>c. call_exit (desktop_navigation_handlers env) i sm = Some (on_desktop c sm) \<and>
    (\<forall>d. desk_guarded (c d) = desk_guarded d) \<and> (\<forall>d. d_view (c d) = d_view d)"
proof -
  have "call_exit (desktop_navigation_handlers env) i sm = Some (on_desktop id sm)" if "i \<noteq> 6"
    using assms that by (auto simp: on_desktop_def)
  moreover have "call_exit (desktop_navigation_handlers env) 6 sm =
      Some (on_desktop (\<lambda>d. desktop_call (WrongPinTimer False) (desktop_call (RedLight False) d)) sm)"
    using assms(2) by (simp add: desktop_scene_pin_input_on_exit_def on_desktop_def)
  ultimately show ?thesis
    by (cases "i = 6") (auto intro: exI [of _ id])
qed

lemma guarded_callback [simp]:
  "desk_guarded (d\<lparr>new_idle_callback := a, check_callback := b, interact_callback := c\<rparr>) = desk_guarded d"
  by (simp add: desk_guarded_def)

lemma enter_guard:
  assumes "i \<in> {5, 6, 7}" "length (scene sm) = 13" "scene sm ! 5 \<noteq> 0" "desk_guarded (sm_context sm)" "env_ok env"
  shows "\<exists>sm'. call_enter (desktop_navigation_handlers env) i sm = Some sm' \<and>
    scene_id_stack sm' = scene_id_stack sm \<and> length (scene sm') = 13 \<and> scene sm' ! 5 \<noteq> 0 \<and>
    (i = 6 \<or> scene sm ! 6 \<noteq> 0 \<longrightarrow> scene sm' ! 6 \<noteq> 0) \<and> desk_guarded (sm_context sm') \<and>
    d_view (sm_context sm') = (if i = 5 then DesktopViewIdLocked else if i = 6 then DesktopViewIdPinInput
       else DesktopViewIdPinTimeout)"
proof -
  consider "i = 5" | "i = 6" | "i = 7" using assms(1) by blast
  then show ?thesis
  proof cases
    case 1
    with assms show ?thesis
      by (simp add: desktop_scene_locked_on_enter_def Let_def desk_guarded_def lv_guarded_def
          desktop_view_locked_set_callback_def switch_to_view_def desktop_call_def)
  next
    case 2
    with assms show ?thesis
      by (simp add: desktop_scene_pin_input_on_enter_def Let_def desk_guarded_def env_ok_def
          desktop_scene_pin_input_update_wrong_count_def switch_to_view_def desktop_call_def)
  next
    case 3
    with assms show ?thesis
      by (simp add: desktop_scene_pin_timeout_on_enter_def Let_def desk_guarded_def
          desktop_view_pin_timeout_set_callback_def desktop_view_pin_timeout_start_def
          switch_to_view_def desktop_call_def)
  qed
qed

subsection \<open>Navigation under the guard\<close>

lemma guard_tops_last: "tops \<in> guard_tops \<Longrightarrow> last (5 # tops) \<in> {5, 6, 7 :: nat}"
  by (auto simp: guard_tops_def)

lemma guard_enter:
  assumes "desk_guarded (sm_context sm)" "length (scene sm) = 13" "scene sm ! 5 \<noteq> 0" "env_ok env"
    and "scene_id_stack sm = base @ 5 # tops" "0 \<in> set base" "tops \<in> guard_tops"
    and "tops = [6, 7] \<Longrightarrow> scene sm ! 6 \<noteq> 0"
  shows "\<exists>sm'. call_enter (desktop_navigation_handlers env) (last (5 # tops)) sm = Some sm' \<and> guarded sm'"
proof -
  obtain sm' where sm': "call_enter (desktop_navigation_handlers env) (last (5 # tops)) sm = Some sm'"
    "scene_id_stack sm' = scene_id_stack sm" "length (scene sm') = 13" "scene sm' ! 5 \<noteq> 0"
    "last (5 # tops) = 6 \<or> scene sm ! 6 \<noteq> 0 \<longrightarrow> scene sm' ! 6 \<noteq> 0" "desk_guarded (sm_context sm')"
    "d_view (sm_context sm') = (if last (5 # tops) = 5 then DesktopViewIdLocked
       else if last (5 # tops) = 6 then DesktopViewIdPinInput else DesktopViewIdPinTimeout)"
    using enter_guard [OF guard_tops_last [OF assms(7)] assms(2,3,1,4)] by metis
  have "6 \<in> set tops \<longrightarrow> scene sm' ! 6 \<noteq> 0" "d_view (sm_context sm') = guard_view tops"
    using sm'(5,7) assms(7,8) by (auto simp: guard_tops_def)
  with sm' assms(5-7) show ?thesis by (auto simp: guarded_def)
qed

lemma guard_leave_enter:
  assumes g: "guarded sm" and env: "env_ok env" and cur: "cur \<in> {5, 6, 7}"
    and st: "0 \<in> set base" "tops \<in> guard_tops" "tops = [6, 7] \<Longrightarrow> scene sm ! 6 \<noteq> 0"
  shows "\<exists>sm1 sm'. call_exit (desktop_navigation_handlers env) cur (sm\<lparr>scene_id_stack := base @ 5 # tops\<rparr>) = Some sm1 \<and>
    call_enter (desktop_navigation_handlers env) (last (5 # tops)) sm1 = Some sm' \<and> guarded sm'"
proof -
  let ?s = "sm\<lparr>scene_id_stack := base @ 5 # tops\<rparr>"
  have len: "length (scene ?s) = 13" "scene ?s ! 5 \<noteq> 0" "desk_guarded (sm_context ?s)"
    using g by (auto simp: guarded_def)
  obtain c where c: "call_exit (desktop_navigation_handlers env) cur ?s = Some (on_desktop c ?s)"
    "\<forall>d. desk_guarded (c d) = desk_guarded d"
    using exit_guard [OF cur len(1)] by blast
  have "\<exists>sm'. call_enter (desktop_navigation_handlers env) (last (5 # tops)) (on_desktop c ?s) = Some sm' \<and> guarded sm'"
    by (rule guard_enter) (use len c st env in \<open>simp_all add: on_desktop_def\<close>)
  with c(1) show ?thesis by blast
qed

lemma guard_next:
  assumes g: "guarded sm" and env: "env_ok env"
    and st: "scene_id_stack sm = base @ 5 # tops" "0 \<in> set base" "tops \<in> guard_tops" "tops @ [i] \<in> guard_tops"
    and six: "6 \<in> set tops \<Longrightarrow> scene sm ! 6 \<noteq> 0"
  shows "\<exists>sm'. scene_manager_next_scene (desktop_navigation_handlers env) i sm = Some sm' \<and> guarded sm'"
proof -
  have i: "i = 6 \<or> i = 7" using st(4) by (auto simp: guard_tops_def append_eq_Cons_conv)
  have len: "length (scene sm) = 13" "scene sm ! 5 \<noteq> 0" "desk_guarded (sm_context sm)"
    using g by (auto simp: guarded_def)
  have cur: "last (scene_id_stack sm) \<in> {5, 6, 7}" using guard_tops_last [OF st(3)] st(1) by simp
  obtain c where c: "call_exit (desktop_navigation_handlers env) (last (scene_id_stack sm)) sm = Some (on_desktop c sm)"
    "\<forall>d. desk_guarded (c d) = desk_guarded d"
    using exit_guard [OF cur len(1)] by blast
  let ?s = "(on_desktop c sm)\<lparr>scene_id_stack := scene_id_stack sm @ [i]\<rparr>"
  have "\<exists>sm'. call_enter (desktop_navigation_handlers env) (last (5 # tops @ [i])) ?s = Some sm' \<and> guarded sm'"
    by (rule guard_enter) (use len c st env six in \<open>auto simp: guard_tops_def\<close>)
  with c(1) i st(1) show ?thesis by (auto simp: scene_manager_next_scene_def)
qed

lemma guard_previous:
  assumes g: "guarded sm" and env: "env_ok env"
    and st: "scene_id_stack sm = base @ 5 # tops @ [i]" "0 \<in> set base" "tops @ [i] \<in> guard_tops"
  shows "\<exists>sm'. scene_manager_previous_scene (desktop_navigation_handlers env) sm = Some (True, sm') \<and> guarded sm'"
proof -
  have i: "i \<in> {5, 6, 7}" and tops: "tops \<in> guard_tops" "tops \<noteq> [6, 7]"
    using st(3) by (auto simp: guard_tops_def append_eq_Cons_conv)
  have bl: "butlast (scene_id_stack sm) = base @ 5 # tops" "last (scene_id_stack sm) = i"
    using st(1) by (simp_all add: butlast_append)
  have "last (base @ 5 # tops) = last (5 # tops)" by simp
  with guard_leave_enter [OF g env i st(2) tops(1)] tops(2) bl st(1) show ?thesis
    by (fastforce simp: scene_manager_previous_scene_def Let_def)
qed

lemma search_down_top:
  "search_down (base @ x # [y]) x (length (base @ x # [y]) - 1) = Some (length base)"
proof -
  have "length (base @ x # [y]) - 1 = Suc (length base)" by simp
  then show ?thesis by (simp only:) simp
qed

lemma guard_search_locked:
  assumes g: "guarded sm" and env: "env_ok env"
    and st: "scene_id_stack sm = base @ [5, 6]" "0 \<in> set base"
  shows "\<exists>sm'. scene_manager_search_and_switch_to_previous_scene (desktop_navigation_handlers env) 5 sm =
    Some (True, sm') \<and> guarded sm'"
proof -
  have "take (length base + 1) (base @ [5, 6]) = base @ [5]" "(base @ [5, 6]) ! length base = 5"
    by (simp_all add: One_nat_def)
  with guard_leave_enter [OF g env _ st(2), of 6 "[]"] st(1) search_down_top [of base 5 6] show ?thesis
    by (auto simp: scene_manager_search_and_switch_to_previous_scene_def Let_def guard_tops_def)
qed

subsection \<open>Events under the guard\<close>

lemma guardedE:
  assumes "guarded sm"
  obtains base tops where "scene_id_stack sm = base @ 5 # tops" "0 \<in> set base" "tops \<in> guard_tops"
    "6 \<in> set tops \<Longrightarrow> scene sm ! 6 \<noteq> 0" "d_view (sm_context sm) = guard_view tops"
    "desk_guarded (sm_context sm)" "length (scene sm) = 13" "scene sm ! 5 \<noteq> 0"
    "last (scene_id_stack sm) = last (5 # tops)" "last (5 # tops) \<in> {5, 6, 7}"
  using assms guard_tops_last by (fastforce simp: guarded_def)

text \<open>A change of the context that keeps the guard of the context.\<close>

lemma guarded_on_desktop:
  assumes "guarded sm" "desk_guarded (sm_context sm) \<Longrightarrow> desk_guarded (f (sm_context sm))"
    and "d_view (f (sm_context sm)) = d_view (sm_context sm)"
  shows "guarded (on_desktop f sm)"
  using assms by (auto simp: guarded_def)

lemma desk_guarded_send [simp]:
  "desk_guarded (send_events es d) \<longleftrightarrow> desk_guarded d \<and> set es \<inter> unlock_events = {}"
  by (auto simp: desk_guarded_def send_events_def)

lemma d_view_send [simp]: "d_view (send_events es d) = d_view d"
  by (simp add: send_events_def)

lemma guarded_scene_state:
  assumes "guarded sm" "i \<noteq> 5" "i \<noteq> 6"
  shows "guarded (sm\<lparr>scene := (scene sm)[i := s]\<rparr>)"
  using assms by (auto simp: guarded_def)

lemma guarded_set_timeout [simp]:
  "guarded sm \<Longrightarrow> scene_manager_set_scene_state (desktop_navigation_handlers env) 7 s sm =
     Some (sm\<lparr>scene := (scene sm)[7 := s]\<rparr>)"
  by (simp add: guarded_def)

definition custom :: "nat \<Rightarrow> SceneManagerEvent" where
  "custom e = \<lparr>ev_type = SceneManagerEventTypeCustom, ev_event = e\<rparr>"

lemma desk_guarded_locked_view: "desk_guarded d \<Longrightarrow> lv_guarded v \<Longrightarrow> desk_guarded (d\<lparr>locked_view := v\<rparr>)"
  by (simp add: desk_guarded_def)

lemma locked_on_event_guard:
  assumes g: "guarded sm" and env: "env_ok env" and top: "scene_id_stack sm = base @ [5]" "0 \<in> set base"
    and e: "e \<notin> unlock_events"
  shows "\<exists>b sm'. desktop_scene_locked_on_event (env_furi_debug env) (desktop_navigation_handlers env)
    (custom e) sm = Some (b, sm') \<and> guarded sm'"
proof -
  have lv: "lv_guarded (locked_view (sm_context sm))" using g by (simp add: guarded_def desk_guarded_def)
  obtain events v where upd: "desktop_view_locked_update (locked_view (sm_context sm)) = Some (events, v)"
    "lv_guarded v" "set events \<subseteq> {DesktopLockedEventDoorsClosed}"
    using locked_update_guarded [OF lv] by blast
  have 1: "guarded (on_desktop (\<lambda>d. send_events events (d\<lparr>locked_view := v\<rparr>)) (if b then on_desktop (desktop_call c) sm else sm))" for b c
  proof (rule guarded_on_desktop)
    show "guarded (if b then on_desktop (desktop_call c) sm else sm)"
      using guarded_on_desktop [OF g, of "desktop_call c"] g by simp
  qed (use upd(2,3) in \<open>auto simp: unlock_events_def intro: desk_guarded_locked_view\<close>)
  have 2: "guarded (on_desktop (desktop_call c) sm)" for c by (rule guarded_on_desktop [OF g]) simp_all
  have 3: "\<exists>sm'. scene_manager_next_scene (desktop_navigation_handlers env) 6 sm = Some sm' \<and> guarded sm'"
    by (rule guard_next [OF g env, of base "[]"]) (use top in \<open>simp_all add: guard_tops_def\<close>)
  show ?thesis
    using e upd(1) 1 [of True BacklightOff] 1 [of False BacklightOff] 2 3 g
    by (auto simp: desktop_scene_locked_on_event_def custom_def Let_def unlock_events_def consumed_by_def)
qed

lemma pin_input_on_event_guard:
  assumes g: "guarded sm" and env: "env_ok env" and top: "scene_id_stack sm = base @ [5, 6]" "0 \<in> set base"
    and six: "scene sm ! 6 \<noteq> 0" and e: "e \<notin> unlock_events"
  shows "\<exists>b sm'. desktop_scene_pin_input_on_event (env_furi_debug env) (desktop_navigation_handlers env)
    (custom e) sm = Some (b, sm') \<and> guarded sm'"
proof -
  have len: "length (scene sm) = 13" using g by (simp add: guarded_def)
  have call: "guarded (on_desktop (desktop_call c) s)" if "guarded s" for c s
    by (rule guarded_on_desktop [OF that]) simp_all
  have timeout: "\<exists>sm'. scene_manager_next_scene (desktop_navigation_handlers env) 7
      ((on_desktop (desktop_call c) sm)\<lparr>scene := (scene sm)[7 := s]\<rparr>) = Some sm' \<and> guarded sm'" for c s
    by (rule guard_next [OF _ env, of _ base "[6]"])
      (use top six guarded_scene_state [OF call [OF g], of 7 c s] in \<open>simp_all add: guard_tops_def\<close>)
  obtain sm1 where home: "scene_manager_search_and_switch_to_previous_scene (desktop_navigation_handlers env) 5 sm = Some (True, sm1)"
    "guarded sm1" using guard_search_locked [OF g env top] by blast
  have retry: "guarded (on_desktop f sm)"
    if "f = (\<lambda>d. let d = desktop_scene_pin_input_update_wrong_count (desktop_call b (desktop_call a d))
       in d\<lparr>pin_input_view := desktop_view_pin_input_reset_pin (pin_input_view d)\<rparr>)" for f a b
    by (rule guarded_on_desktop [OF g])
      (auto simp: that Let_def desktop_scene_pin_input_update_wrong_count_def desktop_call_def desk_guarded_def)
  have label: "guarded (on_desktop (\<lambda>d. desktop_scene_pin_input_update_wrong_count (desktop_call c d)) sm)" for c
    by (rule guarded_on_desktop [OF g]) (simp_all add: desktop_scene_pin_input_update_wrong_count_def)
  have od: "on_desktop f (on_desktop k s) = on_desktop (\<lambda>d. f (k d)) s" for f k s by (simp add: on_desktop_def)
  show ?thesis
    using e timeout [where c = PinErrorNotify
        and s = "desktop_pin_lock_get_fail_timeout (rtc_pin_fails (sm_context sm))"]
      call [OF home(2), of BacklightOff] home(1) len six label retry [OF refl] g
    by (auto simp: desktop_scene_pin_input_on_event_def desktop_scene_pin_input_set_timer_def custom_def Let_def
        unlock_events_def consumed_by_def od)
qed

lemma pin_timeout_on_event_guard:
  assumes g: "guarded sm" and env: "env_ok env"
    and top: "scene_id_stack sm = base @ 5 # tops @ [7]" "0 \<in> set base" "tops @ [7] \<in> guard_tops"
  shows "\<exists>b sm'. desktop_scene_pin_timeout_on_event (desktop_navigation_handlers env) ev sm = Some (b, sm') \<and>
    guarded sm'"
  using guard_previous [OF g env top] g by (auto simp: desktop_scene_pin_timeout_on_event_def)

lemma scene_event_guard:
  assumes g: "guarded sm" and env: "env_ok env"
    and ev: "ev_type ev = SceneManagerEventTypeCustom \<Longrightarrow> ev_event ev \<notin> unlock_events"
  shows "\<exists>b sm'. call_event (desktop_scene_handlers env) (last (scene_id_stack sm)) ev sm = Some (b, sm') \<and>
    guarded sm'"
proof -
  from g obtain base tops where st: "scene_id_stack sm = base @ 5 # tops" "0 \<in> set base" "tops \<in> guard_tops"
    "6 \<in> set tops \<Longrightarrow> scene sm ! 6 \<noteq> 0" "length (scene sm) = 13"
    using guardedE [OF g] by metis
  show ?thesis
  proof (cases "ev_type ev = SceneManagerEventTypeCustom")
    case True
    then have cu: "ev = custom (ev_event ev)" by (simp add: custom_def)
    note no = ev [OF True]
    consider "tops = []" | "tops = [6]" | us where "tops = us @ [7]"
      using st(3) by (auto simp: guard_tops_def) 
    then show ?thesis
    proof cases
      case 1
      then show ?thesis using locked_on_event_guard [OF g env _ st(2) no] st(1) cu by simp
    next
      case 2
      then show ?thesis using pin_input_on_event_guard [OF g env _ st(2) _ no] st cu by simp
    next
      case 3
      then show ?thesis using pin_timeout_on_event_guard [OF g env _ st(2), of us ev] st by simp
    qed
  next
    case False
    have "last (scene_id_stack sm) \<in> {5, 6, 7}" using guard_tops_last [OF st(3)] st(1) by simp
    then show ?thesis
      using False g st(5)
      by (auto simp: desktop_scene_locked_on_event_def desktop_scene_pin_input_on_event_def
          desktop_scene_pin_timeout_on_event_def)
  qed
qed

lemma guarded_nonempty: "guarded sm \<Longrightarrow> scene_id_stack sm \<noteq> []"
  by (auto simp: guarded_def)

lemma arm_guard [simp]: "desk_guarded (desktop_auto_lock_arm d) = desk_guarded d"
  "d_view (desktop_auto_lock_arm d) = d_view d"
  by (simp_all add: desktop_auto_lock_arm_def desktop_start_auto_lock_timer_def desk_guarded_def)

lemma inhibit_guard [simp]: "desk_guarded (desktop_auto_lock_inhibit d) = desk_guarded d"
  "d_view (desktop_auto_lock_inhibit d) = d_view d"
  by (simp_all add: desktop_auto_lock_inhibit_def desktop_stop_auto_lock_timer_def desk_guarded_def)

lemma recent_push_guard [simp]: "desk_guarded (desktop_recent_apps_push n d) = desk_guarded d"
  "d_view (desktop_recent_apps_push n d) = d_view d"
  by (simp_all add: desktop_recent_apps_push_def desk_guarded_def Let_def)

lemma guarded_flags [simp]:
  "desk_guarded (d\<lparr>app_running := b\<rparr>) = desk_guarded d"
  "desk_guarded (d\<lparr>in_transition := b\<rparr>) = desk_guarded d"
  "desk_guarded (d\<lparr>settings := st\<rparr>) = desk_guarded d"
  "desk_guarded (d\<lparr>update_clock_timer := b\<rparr>) = desk_guarded d"
  "desk_guarded (d\<lparr>main_view := desktop_main_set_dummy_mode_state b (main_view d)\<rparr>) = desk_guarded d"
  by (simp_all add: desk_guarded_def desktop_main_set_dummy_mode_state_def)

lemma apply_settings_guard [simp]: "desk_guarded (desktop_apply_settings d) = desk_guarded d"
  "d_view (desktop_apply_settings d) = d_view d"
  by (simp_all add: desktop_apply_settings_def desktop_clock_reconfigure_def Let_def)

lemma custom_event_guard:
  assumes g: "guarded sm" and env: "env_ok env" and e: "e \<notin> unlock_events"
  shows "\<exists>b sm'. desktop_custom_event_callback env e sm = Some (b, sm') \<and> guarded sm'"
proof -
  have "locked (sm_context sm)" using g by (simp add: guarded_def desk_guarded_def)
  moreover have "\<exists>b sm'. scene_manager_handle_custom_event (desktop_scene_handlers env) e sm = Some (b, sm') \<and> guarded sm'"
    using scene_event_guard [OF g env, of "custom e"] e guarded_nonempty [OF g]
    by (simp add: scene_manager_handle_custom_event_def custom_def)
  ultimately show ?thesis
    using g by (auto simp: desktop_custom_event_callback_def Let_def intro!: guarded_on_desktop)
qed

lemma tick_guard:
  assumes g: "guarded sm" and env: "env_ok env"
  shows "\<exists>sm'. desktop_tick_event_callback env sm = Some sm' \<and> guarded sm'"
  using scene_event_guard [OF g env, of "\<lparr>ev_type = SceneManagerEventTypeTick, ev_event = 0\<rparr>"]
    guarded_nonempty [OF g]
  by (auto simp: desktop_tick_event_callback_def scene_manager_handle_tick_event_def)

subsection \<open>Input under the guard\<close>

definition pin_entered :: "InputEvent \<Rightarrow> Desktop \<Rightarrow> bool" where
  "pin_entered event d \<longleftrightarrow> d_view d = DesktopViewIdPinInput \<and>
     type event = InputTypeShort \<and> key event = InputKeyOk \<and>
     desktop_pin_code_check (rtc_pin_value d) (pi_pin (pin_input_view d)) = Some True"

lemma locked_stack_guard:
  assumes "desk_guarded d"
  shows "\<exists>es. desktop_view_input env now DesktopViewIdLocked event d = Some (True, send_events es d) \<and>
    set es \<inter> unlock_events = {}"
proof -
  have "lv_guarded (locked_view d)" using assms by (simp add: desk_guarded_def)
  then obtain es where "desktop_view_locked_input now event (locked_view d) = Some (True, es, locked_view d)"
    "set es \<subseteq> {DesktopLockedEventShowPinInput}"
    using locked_input_guarded by blast
  moreover then have "set es \<inter> unlock_events = {}" by (auto simp: unlock_events_def dest: subsetD)
  ultimately show ?thesis
    by (auto simp: desktop_view_input_def view_stack_input_def view_input_def desktop_views_def
        plain_view_def stacked_view_input_def)
qed

lemma done_callback_guard:
  assumes "desk_guarded d" "pin_ok p" "desktop_pin_code_check (rtc_pin_value d) p \<noteq> Some True"
  shows "\<exists>d'. desktop_scene_pin_input_done_callback p d = Some d' \<and> desk_guarded d' \<and> d_view d' = d_view d"
proof -
  obtain r where "desktop_pin_code_pack p = Some r" using pack_total assms(2) by blast
  then show ?thesis
    using assms(1,3)
    by (auto simp: desktop_scene_pin_input_done_callback_def desktop_pin_code_check_def unlock_events_def)
      (simp add: desk_guarded_def)
qed

lemma pin_view_guard:
  assumes d: "desk_guarded d" and no: "d_view d = DesktopViewIdPinInput \<Longrightarrow> \<not> pin_entered event d"
    and v: "d_view d \<noteq> DesktopViewIdPinInput \<Longrightarrow> type event = InputTypeRelease"
  shows "\<exists>d'. desktop_view_input env now DesktopViewIdPinInput event d = Some (True, d') \<and>
    desk_guarded d' \<and> d_view d' = d_view d"
proof -
  have ok: "pi_ok (pin_input_view d)" using d by (simp add: desk_guarded_def)
  obtain call pv where pv: "desktop_view_pin_input_input event (pin_input_view d) = Some (call, pv)" "pi_ok pv"
    "\<And>p. call = Some (PinDone p) \<Longrightarrow> p = pi_pin (pin_input_view d) \<and> pin_ok p \<and>
       type event = InputTypeShort \<and> key event = InputKeyOk"
    using pin_input_keeps [OF ok, of event] by blast
  let ?d = "d\<lparr>pin_input_view := pv\<rparr>"
  have d': "desk_guarded ?d" "rtc_pin_value ?d = rtc_pin_value d" "d_view ?d = d_view d"
    using d pv(2) by (simp_all add: desk_guarded_def)
  show ?thesis
  proof (cases call)
    case None
    then show ?thesis using pv(1) d' by (simp add: desktop_view_input_def)
  next
    case (Some c)
    show ?thesis
    proof (cases c)
      case (PinDone p)
      then have p: "p = pi_pin (pin_input_view d)" "pin_ok p" "type event = InputTypeShort" "key event = InputKeyOk"
        using pv(3) Some by auto
      then have "d_view d = DesktopViewIdPinInput" using v by auto
      then have "desktop_pin_code_check (rtc_pin_value ?d) p \<noteq> Some True"
        using no p by (auto simp: pin_entered_def)
      then show ?thesis
        using done_callback_guard [OF d'(1) p(2)] pv(1) Some PinDone by (auto simp: desktop_view_input_def)
    next
      case PinBack
      then show ?thesis using pv(1) Some d' by (simp add: desktop_view_input_def unlock_events_def)
    qed
  qed
qed

lemma current_view_guard:
  assumes g: "guarded sm" and no: "\<not> pin_entered event (sm_context sm)"
  shows "\<exists>d'. desktop_view_input env now (d_view (sm_context sm)) event (sm_context sm) = Some (True, d') \<and>
    desk_guarded d' \<and> d_view d' = d_view (sm_context sm)"
proof -
  have d: "desk_guarded (sm_context sm)" using g by (simp add: guarded_def)
  have "d_view (sm_context sm) \<in> {DesktopViewIdLocked, DesktopViewIdPinInput, DesktopViewIdPinTimeout}"
    using g by (auto simp: guarded_def split: if_splits)
  then show ?thesis
    using locked_stack_guard [OF d, of env now event] pin_view_guard [OF d, of event env now] no d
    by (auto simp: desktop_view_input_def [where v = DesktopViewIdPinTimeout]
        desktop_view_pin_timeout_input_def)
qed

lemma desk_guarded_main_view:
  "desk_guarded d \<Longrightarrow> mv_callback v = mv_callback (main_view d) \<Longrightarrow>
   (mv_poweroff_timer v \<longrightarrow> mv_poweroff_timer (main_view d)) \<Longrightarrow> desk_guarded (d\<lparr>main_view := v\<rparr>)"
  by (auto simp: desk_guarded_def)

lemma desk_guarded_lock_menu [simp]: "desk_guarded (d\<lparr>lock_menu := v\<rparr>) = desk_guarded d"
  by (simp add: desk_guarded_def)

lemma main_release:
  assumes "type event = InputTypeRelease"
  shows "\<exists>v'. desktop_main_input_callback f event v = Some (True, [], v') \<and> mv_callback v' = mv_callback v \<and>
    (mv_poweroff_timer v' \<longrightarrow> mv_poweroff_timer v)"
  using assms by (auto simp: desktop_main_input_callback_def desktop_main_event_def)

lemma lock_menu_release:
  assumes "type event = InputTypeRelease"
  shows "\<exists>c v'. desktop_lock_menu_input_callback event v = Some (c, [], v')"
  using assms by (auto simp: desktop_lock_menu_input_callback_def Let_def)

text \<open>The end of a key press that began on another view goes to that view.\<close>

lemma release_guard:
  assumes d: "desk_guarded d" and env: "env_ok env" and rel: "type event = InputTypeRelease"
  shows "\<exists>c d'. desktop_view_input env now v event d = Some (c, d') \<and> desk_guarded d' \<and> d_view d' = d_view d"
proof -
  have no: "\<not> pin_entered event d" using rel by (simp add: pin_entered_def)
  obtain mv where mv: "desktop_main_input_callback (rtc_flag_debug d) event (main_view d) = Some (True, [], mv)"
    "desk_guarded (d\<lparr>main_view := mv\<rparr>)"
    using main_release [OF rel] desk_guarded_main_view [OF d] by metis
  obtain c lm where lm: "desktop_lock_menu_input_callback event (lock_menu d) = Some (c, [], lm)"
    using lock_menu_release [OF rel] by blast
  have es: "set (snd (env_view_input env v event)) \<inter> unlock_events = {}" for v
    using env by (simp add: env_ok_def)
  consider "v = DesktopViewIdMain" | "v = DesktopViewIdLocked" | "v = DesktopViewIdPinInput" |
    "v = DesktopViewIdLockMenu" |
    "v \<in> {DesktopViewIdFavorites, DesktopViewIdRecent, DesktopViewIdPinTimeout}" |
    "v \<in> {DesktopViewIdQuickSettings, DesktopViewIdDebug, DesktopViewIdPopup, DesktopViewIdSlideshow}"
    by (cases v) auto
  then show ?thesis
  proof cases
    case 1
    then show ?thesis
      using mv d by (auto simp: desktop_view_input_def view_stack_input_def view_input_def desktop_views_def
          plain_view_def stacked_view_input_def)
  next
    case 2
    then show ?thesis using locked_stack_guard [OF d, of env now event] d by auto
  next
    case 3
    then show ?thesis using pin_view_guard [OF d, of event env now] no rel by blast
  next
    case 4
    then show ?thesis using lm d by (auto simp: desktop_view_input_def)
  next
    case 5
    then show ?thesis using d by (auto simp: desktop_view_input_def)
  next
    case 6
    obtain c posted where io: "env_view_input env v event = (c, posted)" by fastforce
    then have "set posted \<inter> unlock_events = {}" using es [of v] by simp
    moreover have "desktop_view_input env now v event d = Some (c, send_events posted d)"
      using 6 io by (auto simp: desktop_view_input_def)
    ultimately show ?thesis using d by simp
  qed
qed

lemma guarded_context:
  "guarded sm \<Longrightarrow> desk_guarded d \<Longrightarrow> d_view d = d_view (sm_context sm) \<Longrightarrow> guarded (sm\<lparr>sm_context := d\<rparr>)"
  by (auto simp: guarded_def)

lemma deliver_guard:
  assumes g: "guarded (world s)" and env: "env_ok env" and no: "\<not> pin_entered event (desk s)"
  shows "\<exists>s'. deliver_input env now event s = Some s' \<and> guarded (world s')"
proof -
  have d: "desk_guarded (desk s)" using g by (simp add: guarded_def)
  obtain d1 where d1: "desktop_view_input env now (d_view (desk s)) event (desk s) = Some (True, d1)"
    "guarded ((world s)\<lparr>sm_context := d1\<rparr>)"
    using current_view_guard [OF g no] guarded_context [OF g] by blast
  have rel: "\<exists>c d'. desktop_view_input env now v event (desk s) = Some (c, d') \<and> guarded ((world s)\<lparr>sm_context := d'\<rparr>)"
    if "type event = InputTypeRelease" for v
    using release_guard [OF d env that] guarded_context [OF g] by metis
  show ?thesis
  proof (cases "ongoing_input_view s = Some (d_view (desk s))")
    case True
    then show ?thesis using d1 by (simp add: deliver_input_def)
  next
    case False
    show ?thesis
    proof (cases "ongoing_input_view s")
      case None
      then show ?thesis using g by (simp add: deliver_input_def)
    next
      case (Some v)
      then show ?thesis using False rel [of v] g by (auto simp: deliver_input_def)
    qed
  qed
qed

lemma handle_input_guard:
  assumes g: "guarded (world s)" and env: "env_ok env" and no: "\<not> pin_entered event (desk s)"
  shows "\<exists>s'. view_dispatcher_handle_input env now event s = Some s' \<and> guarded (world s')"
proof -
  have "\<exists>s'. deliver_input env now event t = Some s' \<and> guarded (world s')" if "world t = world s" for t
    using deliver_guard [of t env event now] g env no that by simp
  then show ?thesis using g unfolding view_dispatcher_handle_input_def Let_def by simp
qed

subsection \<open>Steps and runs under the guard\<close>

definition enters_pin :: "stimulus \<Rightarrow> desktop_system \<Rightarrow> bool" where
  "enters_pin stim s \<longleftrightarrow> (\<exists>now event. stim = Key now event \<and> pin_entered event (desk s))"

lemma with_desktop_guard:
  assumes "guarded (world s)" "desk_guarded (f (desk s))" "d_view (f (desk s)) = d_view (desk s)"
  shows "guarded (world (with_desktop f s))"
  using guarded_on_desktop [OF assms(1), of f] assms(2,3) by (simp add: with_desktop_def)

lemma desk_guarded_fields [simp]:
  "desk_guarded (d\<lparr>auto_lock_timer := a\<rparr>) = desk_guarded d"
  "desk_guarded (d\<lparr>pending_app_name := n\<rparr>) = desk_guarded d"
  by (simp_all add: desk_guarded_def)

lemma queue_tail_guard: "desk_guarded d \<Longrightarrow> event_queue d = e # es \<Longrightarrow>
  desk_guarded (d\<lparr>event_queue := es\<rparr>) \<and> e \<notin> unlock_events"
  by (auto simp: desk_guarded_def)

lemma pin_timeout_timer_guard:
  assumes "desk_guarded d" "pt_timer (pin_timeout_view d)"
  shows "\<exists>es v. desktop_view_pin_timeout_timer_callback (pin_timeout_view d) = Some (es, v) \<and>
    set es \<inter> unlock_events = {} \<and> desk_guarded (d\<lparr>pin_timeout_view := v\<rparr>)"
  using assms by (auto simp: desktop_view_pin_timeout_timer_callback_def post_def desk_guarded_def unlock_events_def)

lemma poweroff_guard:
  assumes "desk_guarded d" "mv_poweroff_timer (main_view d)"
  shows "\<exists>es. desktop_main_poweroff_timer_callback (main_view d) = Some es \<and>
    desk_guarded (fold desktop_scene_main_callback es (d\<lparr>main_view := (main_view d)\<lparr>mv_poweroff_timer := False\<rparr>\<rparr>)) \<and>
    d_view (fold desktop_scene_main_callback es (d\<lparr>main_view := (main_view d)\<lparr>mv_poweroff_timer := False\<rparr>\<rparr>)) = d_view d"
  using assms
  by (auto simp: desktop_main_poweroff_timer_callback_def post_def desktop_scene_main_callback_def
      desk_guarded_def unlock_events_def send_events_def)

lemma react_guard:
  assumes g: "guarded (world s)" and env: "env_ok env" and no: "\<not> enters_pin stim s" "stim \<noteq> ApiUnlock"
    and waited: "stim \<noteq> LoaderWait False"
  shows "\<exists>s'. desktop_react env stim s = Some s' \<and> guarded (world s')"
proof -
  have d: "desk_guarded (desk s)" using g by (simp add: guarded_def)
  have view: "d_view (desk s) \<in> {DesktopViewIdLocked, DesktopViewIdPinInput, DesktopViewIdPinTimeout}"
    using g by (auto simp: guarded_def split: if_splits)
  note wd = with_desktop_guard [OF g]
  show ?thesis
  proof (cases stim)
    case (Key now event)
    then show ?thesis using handle_input_guard [OF g env] no(1) by (simp add: desktop_react_def enters_pin_def)
  next
    case Dispatch
    show ?thesis
    proof (cases "event_queue (desk s)")
      case (Cons e es)
      note q = queue_tail_guard [OF d Cons]
      have "guarded (on_desktop (\<lambda>d. d\<lparr>event_queue := es\<rparr>) (world s))"
        by (rule guarded_on_desktop [OF g]) (use q in simp_all)
      from custom_event_guard [OF this env q [THEN conjunct2]] show ?thesis
        using Dispatch Cons by (auto simp: desktop_react_def)
    qed (use Dispatch g in \<open>simp add: desktop_react_def\<close>)
  next
    case Tick
    then show ?thesis using tick_guard [OF g env] by (auto simp: desktop_react_def)
  next
    case LockedViewTimer
    have "lv_callback (locked_view (desk s))" using d by (simp add: desk_guarded_def lv_guarded_def)
    then show ?thesis
      using LockedViewTimer g d
      by (auto simp: desktop_react_def locked_view_timer_callback_def post_def unlock_events_def intro!: wd)
  next
    case PoweroffTimer
    then show ?thesis using poweroff_guard [OF d] g by (auto simp: desktop_react_def intro!: wd)
  next
    case PinTimeoutTimer
    then show ?thesis using pin_timeout_timer_guard [OF d] g by (auto simp: desktop_react_def intro!: wd)
  next
    case PinInactivityTimer
    have "desk_guarded ((desk s)\<lparr>pin_input_view := (pin_input_view (desk s))\<lparr>pi_timer := False\<rparr>\<rparr>)"
      using d by (simp add: desk_guarded_def pi_ok_def)
    then show ?thesis using PinInactivityTimer g by (auto simp: desktop_react_def unlock_events_def intro!: wd)
  next
    case DashboardTimer
    then show ?thesis
      using g d by (auto simp: desktop_react_def desktop_dashboard_update_timer_callback_def
          desktop_main_update_dashboard_def intro!: wd desk_guarded_main_view)
  next
    case (SubmenuSelect i)
    then show ?thesis using g view by (auto simp: desktop_react_def)
  next
    case (LoaderMessage event)
    then show ?thesis
      using g d by (auto simp: desktop_react_def desktop_loader_callback_def unlock_events_def
          split: LoaderEvent.split intro!: wd)
  next
    case (LoaderWait acquired)
    then show ?thesis using g d waited by (auto simp: desktop_react_def desktop_loader_wait_def intro!: wd)
  next
    case (AnyInput event)
    then show ?thesis
      using g d by (auto simp: desktop_react_def desktop_input_event_callback_def
          desktop_start_auto_lock_timer_def intro!: wd)
  next
    case (ApiSetSettings st)
    then show ?thesis
      using g d by (auto simp: desktop_react_def desktop_api_set_settings_def unlock_events_def intro!: wd)
  qed (use g d no(2) in \<open>auto simp: desktop_react_def desktop_auto_lock_timer_callback_def
    desktop_storage_callback_def desktop_api_reload_settings_def unlock_events_def intro!: wd\<close>)
qed

definition unlock_requested :: "(desktop_env \<times> stimulus \<times> desktop_system) list \<Rightarrow> bool" where
  "unlock_requested steps \<longleftrightarrow> (\<exists>(env, stim, s) \<in> set steps. stim = ApiUnlock \<or> enters_pin stim s)"

lemma runs_guard:
  assumes "desktop_runs s steps t" "guarded (world s)" "\<forall>(env, stim, u) \<in> set steps. env_ok env"
    and "\<not> unlock_requested steps"
  shows "guarded (world t)"
  using assms
proof (induction rule: desktop_runs.induct)
  case (runs_step s steps t env stim u)
  then have "guarded (world t)" "env_ok env" "\<not> enters_pin stim t" "stim \<noteq> ApiUnlock"
    by (auto simp: unlock_requested_def)
  moreover have "stim \<noteq> LoaderWait False" using runs_step.hyps(2) by (auto simp: desktop_react_def desktop_loader_wait_def)
  ultimately show ?case using react_guard [of t env stim] runs_step.hyps(2) by auto
qed


subsection \<open>Locking puts the guard up\<close>

text \<open>What the rest of the desktop keeps while it is not locked.\<close>

definition lockable :: "desktop_env \<Rightarrow> desktop_world \<Rightarrow> bool" where
  "lockable env sm \<longleftrightarrow>
     (let d = sm_context sm in
      \<not> locked d \<and> desktop_pin_code_is_set (rtc_pin_value d) \<and> pi_ok (pin_input_view d) \<and>
      (env_furi_debug env \<longrightarrow> lv_view_state (locked_view d) = DesktopViewLockedStateUnlocked) \<and>
      (pt_timer (pin_timeout_view d) \<longrightarrow> pt_callback (pin_timeout_view d)) \<and>
      (mv_poweroff_timer (main_view d) \<longrightarrow> mv_callback (main_view d)) \<and>
      set (event_queue d) \<inter> unlock_events = {} \<and> length (scene sm) = DesktopSceneNum \<and>
      DesktopSceneMain \<in> set (scene_id_stack sm) \<and>
      last (scene_id_stack sm) \<in> {DesktopSceneMain, DesktopSceneLockMenu, DesktopSceneFavorites, DesktopSceneRecent})"

lemma menu_exit:
  assumes "i \<in> {0, 1, 11, 12}"
  shows "\<exists>f. call_exit (desktop_navigation_handlers env) i sm = Some (on_desktop f sm) \<and>
    (\<forall>d. locked_view (f d) = locked_view d \<and> main_view (f d) = main_view d \<and>
       pin_input_view (f d) = pin_input_view d \<and> pin_timeout_view (f d) = pin_timeout_view d \<and>
       event_queue (f d) = event_queue d \<and> rtc_pin_value (f d) = rtc_pin_value d \<and>
       rtc_pin_fails (f d) = rtc_pin_fails d \<and> rtc_flag_lock (f d) = rtc_flag_lock d \<and> locked (f d) = locked d)"
proof -
  consider "i = 0" | "i = 1" | "i = 11" | "i = 12" using assms by blast
  then show ?thesis
  proof cases
    case 1
    then show ?thesis by (auto simp: desktop_scene_main_on_exit_def)
  next
    case 2
    have "call_exit (desktop_navigation_handlers env) 1 sm = Some (on_desktop id sm)"
      by (simp add: call_exit_def handler_tables rd_def desktop_scene_lock_menu_on_exit_def on_desktop_def One_nat_def)
    then show ?thesis using 2 by (intro exI [of _ id]) simp
  next
    case 3
    then show ?thesis
      by (auto simp: call_exit_def handler_tables rd_def desktop_scene_favorites_on_exit_def)
  next
    case 4
    then show ?thesis
      by (auto simp: call_exit_def handler_tables rd_def desktop_scene_recent_on_exit_def)
  qed
qed

text \<open>The first entry of the locked scene with a PIN: with failed attempts behind it, the
  timeout comes first.\<close>

lemma first_enter_guard:
  assumes "length (scene sm) = 13" "scene sm ! 5 = 0" "scene_id_stack sm = base @ [5]" "0 \<in> set base"
    and d: "d = sm_context sm" "desktop_pin_code_is_set (rtc_pin_value d)" "pi_ok (pin_input_view d)"
      "f \<longrightarrow> lv_view_state (locked_view d) = DesktopViewLockedStateUnlocked"
      "pt_timer (pin_timeout_view d) \<longrightarrow> pt_callback (pin_timeout_view d)"
      "mv_poweroff_timer (main_view d) \<longrightarrow> mv_callback (main_view d)"
      "set (event_queue d) \<inter> unlock_events = {}" "rtc_flag_lock d"
  shows "\<exists>sm'. desktop_scene_locked_on_enter f (desktop_quiet_handlers env) sm = Some sm' \<and>
    guarded (on_desktop (\<lambda>d. d\<lparr>locked := True\<rparr>) sm')"
proof -
  have lock: "furi_assert f (lv_view_state (locked_view d) = DesktopViewLockedStateUnlocked) = Some ()"
    using d(4) by (simp add: furi_assert_def)
  note ev = desktop_scene_locked_on_enter_def Let_def desktop_view_locked_lock_def desktop_view_locked_close_doors_def
    desktop_view_locked_set_callback_def scene_manager_next_scene_def call_exit_def call_enter_def handler_tables
    rd_def desktop_scene_locked_on_exit_def desktop_scene_pin_timeout_on_enter_def
    desktop_view_pin_timeout_set_callback_def desktop_view_pin_timeout_start_def
  define tops where "tops = (if desktop_pin_lock_get_fail_timeout (rtc_pin_fails d) > 0 then [7] else [] :: nat list)"
  have "\<exists>sm'. desktop_scene_locked_on_enter f (desktop_quiet_handlers env) sm = Some sm' \<and>
    scene_id_stack sm' = base @ 5 # tops \<and> length (scene sm') = 13 \<and> scene sm' ! 5 \<noteq> 0 \<and>
    d_view (sm_context sm') = guard_view tops \<and> desk_guarded ((sm_context sm')\<lparr>locked := True\<rparr>)"
    (is "\<exists>sm'. ?P sm'")
  proof (cases "desktop_pin_lock_get_fail_timeout (rtc_pin_fails d) > 0")
    case True
    then show ?thesis
      using assms lock unfolding tops_def
      by (simp add: ev desk_guarded_def lv_guarded_def switch_to_view_def desktop_call_def on_desktop_def)
  next
    case False
    then show ?thesis
      using assms lock unfolding tops_def
      by (simp add: ev desk_guarded_def lv_guarded_def switch_to_view_def desktop_call_def on_desktop_def)
  qed
  then obtain sm' where sm': "?P sm'" ..
  have "tops \<in> guard_tops" "6 \<notin> set tops" by (auto simp: tops_def guard_tops_def)
  with sm' assms(4) have "guarded (on_desktop (\<lambda>d. d\<lparr>locked := True\<rparr>) sm')"
    by (auto simp: guarded_def)
  with sm' show ?thesis by blast
qed

lemma lock_guard:
  assumes ok: "lockable env sm"
  shows "\<exists>sm'. desktop_lock (env_furi_debug env) (desktop_navigation_handlers env) sm = Some sm' \<and> guarded sm'"
proof -
  let ?h = "desktop_navigation_handlers env"
  let ?k = "\<lambda>d. desktop_auto_lock_inhibit (desktop_call (CliVcpEnabled False) (d\<lparr>rtc_flag_lock := True\<rparr>))"
  let ?s = "(on_desktop ?k sm)\<lparr>scene := (scene sm)[5 := 0]\<rparr>"
  have pin: "desktop_pin_code_is_set (rtc_pin_value (sm_context sm))" "\<not> locked (sm_context sm)"
    "length (scene sm) = 13" "0 \<in> set (scene_id_stack sm)" "last (scene_id_stack sm) \<in> {0, 1, 11, 12}"
    using ok by (auto simp: lockable_def Let_def)
  then have ne: "scene_id_stack ?s \<noteq> []" by auto
  obtain f where f: "call_exit ?h (last (scene_id_stack ?s)) ?s = Some (on_desktop f ?s)"
    "\<forall>d. locked_view (f d) = locked_view d \<and> main_view (f d) = main_view d \<and>
       pin_input_view (f d) = pin_input_view d \<and> pin_timeout_view (f d) = pin_timeout_view d \<and>
       event_queue (f d) = event_queue d \<and> rtc_pin_value (f d) = rtc_pin_value d \<and>
       rtc_pin_fails (f d) = rtc_pin_fails d \<and> rtc_flag_lock (f d) = rtc_flag_lock d \<and> locked (f d) = locked d"
    using menu_exit [of "last (scene_id_stack ?s)" env ?s] pin(5) by auto
  let ?t = "(on_desktop f ?s)\<lparr>scene_id_stack := scene_id_stack sm @ [5]\<rparr>"
  have "\<exists>sm'. desktop_scene_locked_on_enter (env_furi_debug env) (desktop_quiet_handlers env) ?t = Some sm' \<and>
    guarded (on_desktop (\<lambda>d. d\<lparr>locked := True\<rparr>) sm')"
    by (rule first_enter_guard [where base = "scene_id_stack sm" and d = "sm_context ?t"])
      (use ok f(2) pin in \<open>simp_all add: lockable_def Let_def desktop_auto_lock_inhibit_def
        desktop_stop_auto_lock_timer_def desktop_call_def\<close>)
  then obtain sm' where sm': "call_enter ?h 5 ?t = Some sm'" "guarded (on_desktop (\<lambda>d. d\<lparr>locked := True\<rparr>) sm')"
    by auto
  have pub: "guarded (on_desktop (\<lambda>d. (desktop_call c d)\<lparr>locked := True\<rparr>) s)"
    if "guarded (on_desktop (\<lambda>d. d\<lparr>locked := True\<rparr>) s)" for c s
    using that by (auto simp: guarded_def desk_guarded_def desktop_call_def)
  have od: "on_desktop g (on_desktop k s) = on_desktop (\<lambda>d. g (k d)) s" for g k s by (simp add: on_desktop_def)
  have "scene_manager_next_scene ?h 5 ?s = Some sm'"
    using f(1) sm'(1) ne by (simp add: scene_manager_next_scene_def)
  moreover have eq: "on_desktop desktop_auto_lock_inhibit (on_desktop (\<lambda>d. if desktop_pin_code_is_set (rtc_pin_value d)
      then desktop_call (CliVcpEnabled False) d else d) (on_desktop (\<lambda>d. d\<lparr>rtc_flag_lock := True\<rparr>) sm)) = on_desktop ?k sm"
    using pin(1) by (simp add: on_desktop_def)
  moreover have "scene_manager_set_scene_state ?h 5 0 (on_desktop ?k sm) = Some ?s"
    using pin(3) by simp
  ultimately have "desktop_lock (env_furi_debug env) ?h sm =
      Some (on_desktop (\<lambda>d. (desktop_call (PublishStatus True) d)\<lparr>locked := True\<rparr>) sm')"
    unfolding desktop_lock_def Let_def eq using pin(2) by simp
  then show ?thesis using pub [OF sm'(2), of "PublishStatus True"] by blast
qed

subsection \<open>Unlocking takes it down\<close>

definition home_again :: "desktop_world \<Rightarrow> bool" where
  "home_again sm \<longleftrightarrow>
     (let d = sm_context sm in
      \<not> locked d \<and> \<not> rtc_flag_lock d \<and> rtc_pin_fails d = 0 \<and>
      scene_id_stack sm \<noteq> [] \<and> last (scene_id_stack sm) = DesktopSceneMain \<and> d_view d = DesktopViewIdMain \<and>
      \<not> lv_pin_locked (locked_view d) \<and>
      lv_view_state (locked_view d) = DesktopViewLockedStateUnlockedHintShown)"

lemma unlock_home:
  assumes g: "guarded sm"
  shows "\<exists>sm'. desktop_unlock f (desktop_navigation_handlers env) sm = Some sm' \<and> home_again sm'"
proof -
  let ?h = "desktop_navigation_handlers env"
  from g obtain base tops where st: "scene_id_stack sm = base @ 5 # tops" "0 \<in> set base"
    "length (scene sm) = 13" "last (scene_id_stack sm) \<in> {5, 6, 7}" "tops \<in> guard_tops"
    using guardedE [OF g] by metis
  let ?d = "\<lambda>d. desktop_call (GuiLockdown False) (desktop_call (LockIcon False) d)"
  let ?u = "\<lambda>d. (?d d)\<lparr>locked_view := desktop_view_locked_unlock (locked_view d)\<rparr>"
  let ?s = "on_desktop ?u sm"
  have "0 \<in> set (butlast (scene_id_stack sm))" using st by (simp add: butlast_append)
  then obtain k where k: "search_down (scene_id_stack sm) 0 (length (scene_id_stack sm) - 1) = Some k"
    using has_previous_scene_iff [of sm 0] by (auto simp: scene_manager_has_previous_scene_def)
  then have k0: "scene_id_stack sm ! k = 0" "k < length (scene_id_stack sm)" by (auto simp: search_down_Some)
  have lk: "last (take (k + 1) (scene_id_stack sm)) = 0" "take (k + 1) (scene_id_stack sm) \<noteq> []"
    using k0 by (simp_all add: take_Suc_conv_app_nth Suc_eq_plus1 [symmetric])
  let ?t = "?s\<lparr>scene_id_stack := take (k + 1) (scene_id_stack sm)\<rparr>"
  obtain c where c: "call_exit ?h (last (scene_id_stack sm)) ?t = Some (on_desktop c ?t)"
      "\<And>d. locked_view (c d) = locked_view d" "\<And>d. rtc_pin_value (c d) = rtc_pin_value d"
  proof -
    have "call_exit ?h 6 ?t = Some (on_desktop (\<lambda>d. desktop_call (WrongPinTimer False) (desktop_call (RedLight False) d)) ?t)"
      using st(3) by (simp add: desktop_scene_pin_input_on_exit_def on_desktop_def)
    moreover have "call_exit ?h i ?t = Some (on_desktop id ?t)" if "i = 5 \<or> i = 7" for i
      using that by (auto simp: on_desktop_def)
    ultimately show ?thesis using st(4) that [of id]
        that [of "\<lambda>d. desktop_call (WrongPinTimer False) (desktop_call (RedLight False) d)"] by auto
  qed
  have lock: "locked (sm_context sm)" using g by (simp add: guarded_def desk_guarded_def)
  obtain t where t: "desktop_scene_main_on_enter (on_desktop c ?t) = Some t"
      "scene_id_stack t = take (k + 1) (scene_id_stack sm)" "d_view (sm_context t) = DesktopViewIdMain"
      "locked_view (sm_context t) = desktop_view_locked_unlock (locked_view (sm_context sm))"
    using c(2) by (simp add: desktop_scene_main_on_enter_def Let_def switch_to_view_def desktop_call_def)
  have run: "scene_manager_search_and_switch_to_previous_scene ?h 0 ?s = Some (True, t)"
    using k k0 c(1) st(1) t(1) by (simp add: scene_manager_search_and_switch_to_previous_scene_def Let_def)
  have eq: "on_desktop (\<lambda>d. d\<lparr>locked_view := desktop_view_locked_unlock (locked_view d)\<rparr>) (on_desktop ?d sm) = ?s"
    by (simp add: on_desktop_def)
  have arm: "locked_view (desktop_auto_lock_arm d) = locked_view d" for d
    by (simp add: desktop_auto_lock_arm_def desktop_start_auto_lock_timer_def)
  have "\<exists>u. desktop_unlock f ?h sm = Some u \<and> scene_id_stack u = scene_id_stack t \<and>
      \<not> locked (sm_context u) \<and> \<not> rtc_flag_lock (sm_context u) \<and> rtc_pin_fails (sm_context u) = 0 \<and>
      d_view (sm_context u) = DesktopViewIdMain \<and> locked_view (sm_context u) = locked_view (sm_context t)"
    unfolding desktop_unlock_def Let_def eq DesktopSceneMain_def run
    using lock t(3) by (simp add: desktop_call_def arm)
  then show ?thesis
    using lk t(2,4) by (auto simp: home_again_def Let_def desktop_view_locked_unlock_def)
qed

end
