(* ===== verification/Desktop_Home.thy ===== *)
theory Desktop_Home
  imports Desktop_Lock
begin

text \<open>
  What the home screen adds: the list of recently started applications, its menu, the Quick
  Actions menu, and what their scenes do with events that were not meant for them.
\<close>

subsection \<open>The list of recent applications\<close>

definition short_name :: "string \<Rightarrow> string" where
  "short_name n = take (DESKTOP_RECENT_APP_NAME_LEN - 1) n"

definition recent_list :: "Desktop \<Rightarrow> string list" where
  "recent_list d = take (recent_apps_count d) (recent_apps d)"

definition recent_ok :: "Desktop \<Rightarrow> bool" where
  "recent_ok d \<longleftrightarrow> length (recent_apps d) = DESKTOP_RECENT_APPS_COUNT \<and>
     recent_apps_count d \<le> DESKTOP_RECENT_APPS_COUNT \<and>
     (\<forall>n \<in> set (recent_apps d). length n < DESKTOP_RECENT_APP_NAME_LEN) \<and>
     (\<forall>n \<in> set (recent_list d). n \<noteq> [])"

text \<open>The loop moves every name one place down, from the end.\<close>

lemma shift_loop:
  assumes "\<forall>n \<in> set xs. length n < 40" "m \<le> length xs"
  shows "fold (\<lambda>i apps. apps[i := strlcpy (apps ! (i - 1)) DESKTOP_RECENT_APP_NAME_LEN]) (rev [1..<m]) xs =
    take 1 xs @ take (m - 1) xs @ drop (max 1 m) xs" (is "fold ?f _ xs = _")
proof -
  have copy: "strlcpy n DESKTOP_RECENT_APP_NAME_LEN = n" if "n \<in> set xs" for n
    using assms(1) that by (auto simp: strlcpy_def)
  have inv: "k < m \<Longrightarrow> fold ?f (rev [Suc k..<m]) xs = take (Suc k) xs @ take (m - Suc k) (drop k xs) @ drop m xs" for k
  proof (induction "m - Suc k" arbitrary: k)
    case 0
    then have "m = Suc k" by simp
    then show ?case by simp
  next
    case (Suc j)
    then have k: "Suc k < m" by simp
    have l: "rev [Suc k..<m] = rev [Suc (Suc k)..<m] @ [Suc k]" using k by (simp add: upt_conv_Cons)
    let ?ys = "take (Suc (Suc k)) xs @ take (m - Suc (Suc k)) (drop (Suc k) xs) @ drop m xs"
    have ih: "fold ?f (rev [Suc (Suc k)..<m]) xs = ?ys" using Suc.hyps(1) [of "Suc k"] Suc.hyps(2) k by simp
    have "?ys ! k = xs ! k" using k assms(2) by (simp add: nth_append)
    moreover have "xs ! k \<in> set xs" using k assms(2) by simp
    ultimately have "fold ?f (rev [Suc k..<m]) xs = ?ys[Suc k := xs ! k]"
      unfolding l fold_append comp_def ih using copy by simp
    also have "\<dots> = take (Suc k) xs @ take (m - Suc k) (drop k xs) @ drop m xs"
    proof -
      have "take (Suc (Suc k)) xs = take (Suc k) xs @ [xs ! Suc k]"
        using k assms(2) by (simp add: take_Suc_conv_app_nth)
      moreover have "drop k xs = xs ! k # drop (Suc k) xs" using k assms(2) by (simp add: Cons_nth_drop_Suc)
      moreover have "m - Suc k = Suc (m - Suc (Suc k))" using k by simp
      ultimately show ?thesis using k assms(2) by (simp add: list_update_append)
    qed
    finally show ?case .
  qed
  show ?thesis
  proof (cases "m = 0")
    case False
    then show ?thesis using inv [of 0] by (simp add: One_nat_def max_def)
  qed (cases xs, simp_all add: One_nat_def)
qed

lemma recent_push_list:
  assumes "recent_ok d" "name \<noteq> []"
  shows "recent_list (desktop_recent_apps_push name d) =
    (if recent_list d \<noteq> [] \<and> hd (recent_list d) = take 40 name then recent_list d
     else take 6 (short_name name # recent_list d))"
    and "recent_ok (desktop_recent_apps_push name d)"
proof -
  have ok: "length (recent_apps d) = 6" "recent_apps_count d \<le> 6" "\<forall>n \<in> set (recent_apps d). length n < 40"
    "\<forall>n \<in> set (recent_list d). n \<noteq> []"
    using assms(1) by (auto simp: recent_ok_def)
  have first: "recent_apps d ! 0 \<in> set (recent_apps d)" using ok(1) by simp
  have hd: "hd (recent_list d) = recent_apps d ! 0" if "recent_apps_count d > 0"
    using that ok(1,2) by (cases "recent_apps d") (simp_all add: recent_list_def)
  have nil: "recent_list d = [] \<longleftrightarrow> recent_apps_count d = 0"
    using ok(1) by (auto simp: recent_list_def)
  have t40: "take 40 (recent_apps d ! 0) = recent_apps d ! 0" using ok(3) first by auto
  have "recent_list (desktop_recent_apps_push name d) =
      (if recent_list d \<noteq> [] \<and> hd (recent_list d) = take 40 name then recent_list d
       else take 6 (short_name name # recent_list d)) \<and> recent_ok (desktop_recent_apps_push name d)"
  proof (cases "recent_apps_count d > 0 \<and> recent_apps d ! 0 = take 40 name")
    case True
    then show ?thesis
      using assms hd nil t40 by (auto simp: desktop_recent_apps_push_def)
  next
    case False
    define m where "m = (if recent_apps_count d < 6 then recent_apps_count d + 1 else recent_apps_count d)"
    have m: "1 \<le> m" "m \<le> 6" using ok(2) by (auto simp: m_def)
    let ?apps = "short_name name # take (m - 1) (recent_apps d) @ drop m (recent_apps d)"
    have "max 1 m = m" using m(1) by simp
    then have loop: "fold (\<lambda>i apps. apps[i := strlcpy (apps ! (i - 1)) DESKTOP_RECENT_APP_NAME_LEN]) (rev [1..<m]) (recent_apps d)
        = take 1 (recent_apps d) @ take (m - 1) (recent_apps d) @ drop m (recent_apps d)"
      using shift_loop [OF ok(3), of m] ok(1) m(2) by simp
    obtain x xs where x: "recent_apps d = x # xs" using ok(1) by (cases "recent_apps d") auto
    have "take 1 (recent_apps d) = [x]" using x by (simp add: One_nat_def)
    with loop have upd: "(fold (\<lambda>i apps. apps[i := strlcpy (apps ! (i - 1)) DESKTOP_RECENT_APP_NAME_LEN]) (rev [1..<m]) (recent_apps d))
        [0 := strlcpy name DESKTOP_RECENT_APP_NAME_LEN] = ?apps"
      by (simp add: short_name_def strlcpy_def)
    have push: "desktop_recent_apps_push name d = d\<lparr>recent_apps := ?apps, recent_apps_count := m\<rparr>"
    proof -
      have mm: "(if recent_apps_count d < DESKTOP_RECENT_APPS_COUNT then recent_apps_count d + 1
          else recent_apps_count d) = m" by (simp add: m_def)
      have "\<not> (recent_apps_count d > 0 \<and>
          take DESKTOP_RECENT_APP_NAME_LEN (recent_apps d ! 0) = take DESKTOP_RECENT_APP_NAME_LEN name)"
        using False t40 by simp
      then show ?thesis
        unfolding desktop_recent_apps_push_def Let_def mm upd using assms(2) by (simp only: if_False)
    qed
    have "take m ?apps = short_name name # take (m - 1) (recent_apps d)"
      using m ok(1) by (cases m) simp_all
    also have "\<dots> = take 6 (short_name name # recent_list d)"
      using ok(1,2) by (auto simp: m_def recent_list_def)
    finally have list: "recent_list (desktop_recent_apps_push name d) = take 6 (short_name name # recent_list d)"
      by (simp add: push recent_list_def)
    have "length (short_name name) < 40" "short_name name \<noteq> []"
      using assms(2) by (auto simp: short_name_def)
    then have "recent_ok (desktop_recent_apps_push name d)"
      using list ok m push unfolding recent_ok_def
      by (auto dest!: in_set_takeD in_set_dropD)
    then show ?thesis using list False hd nil by auto
  qed
  then show "recent_list (desktop_recent_apps_push name d) =
      (if recent_list d \<noteq> [] \<and> hd (recent_list d) = take 40 name then recent_list d
       else take 6 (short_name name # recent_list d))"
    and "recent_ok (desktop_recent_apps_push name d)" by blast+
qed

subsection \<open>The menus reached from home\<close>

text \<open>
  Home, control center, Quick Actions and Recent leave navigation to the scene manager while
  the settings hold one name per shortcut.
\<close>

definition home_ok :: "desktop_world \<Rightarrow> bool" where
  "home_ok sm \<longleftrightarrow> length (scene sm) = DesktopSceneNum \<and>
     length (favorite_apps (settings (sm_context sm))) = FavoriteAppNumber \<and>
     length (dummy_apps (settings (sm_context sm))) = DummyAppNumber \<and> recent_ok (sm_context sm)"

definition home_scenes :: "nat set" where
  "home_scenes = {DesktopSceneMain, DesktopSceneLockMenu, DesktopSceneFavorites, DesktopSceneRecent}"

lemma recent_ok_fields [simp]:
  "recent_ok (switch_to_view v d) = recent_ok d" "settings (switch_to_view v d) = settings d"
  by (simp_all add: switch_to_view_def Let_def desktop_call_def recent_ok_def recent_list_def)

lemma recent_ok_cong:
  "recent_apps d' = recent_apps d \<Longrightarrow> recent_apps_count d' = recent_apps_count d \<Longrightarrow> recent_ok d' = recent_ok d"
  by (simp add: recent_ok_def recent_list_def)

lemma favorites_items:
  assumes "length (favorite_apps s) = 5"
  shows "\<exists>items. ofold (\<lambda>i items. do {
       label \<leftarrow> rd desktop_favorites_labels i;
       path \<leftarrow> rd (favorite_apps s) i;
       let shown = (if path = [] then ''Apps Menu''
                    else if desktop_scene_check_none path then ''(none)'' else path);
       Some (items @ [(label @ '': '' @ shown, i, True)])
     }) [0..<5] [] = Some (items :: submenu_item list) \<and> length items = 5 \<and>
     (\<forall>i < 5. snd (items ! i) = (i, True))"
proof -
  have labels: "length desktop_favorites_labels = 5" by (simp add: desktop_favorites_labels_def)
  have "\<exists>items. ofold (\<lambda>i items. do {
       label \<leftarrow> rd desktop_favorites_labels i;
       path \<leftarrow> rd (favorite_apps s) i;
       let shown = (if path = [] then ''Apps Menu''
                    else if desktop_scene_check_none path then ''(none)'' else path);
       Some (items @ [(label @ '': '' @ shown, i, True)])
     }) [0..<5] [] = Some (items :: submenu_item list) \<and>
     (length items = 5 \<and> (\<forall>i < 5. snd (items ! i) = (i, True)))"
    by (rule ofold_upt_inv [where I = "\<lambda>n items. length items = n \<and> (\<forall>i < n. snd (items ! i) = (i, True))"])
      (use assms in \<open>auto simp: rd_def labels Let_def nth_append less_Suc_eq\<close>)
  then show ?thesis by blast
qed

lemma recent_items:
  assumes "n \<le> length names"
  shows "ofold (\<lambda>i items. do { name \<leftarrow> rd names i; Some (items @ [(name, i, True)]) }) [0..<n] [] =
    Some (map (\<lambda>i. (names ! i, i, True)) [0..<n])"
  using assms by (induction n) (auto simp: ofold_append rd_def)

lemma favorites_enter:
  assumes "length (favorite_apps (settings (sm_context sm))) = 5"
  shows "\<exists>items. desktop_scene_favorites_on_enter sm =
      Some (on_desktop (\<lambda>d. switch_to_view DesktopViewIdFavorites (d\<lparr>favorites_submenu := items\<rparr>)) sm) \<and>
    length items = 5 \<and> (\<forall>i < 5. snd (items ! i) = (i, True))"
  using favorites_items [OF assms] by (auto simp: desktop_scene_favorites_on_enter_def Let_def)

lemma recent_enter:
  assumes "recent_ok (sm_context sm)"
  shows "desktop_scene_recent_on_enter sm =
      Some (on_desktop (\<lambda>d. switch_to_view DesktopViewIdRecent (d\<lparr>recent_submenu :=
        (if recent_list (sm_context sm) = [] then [(''No recent apps yet'', 0, False)]
         else map (\<lambda>i. (recent_list (sm_context sm) ! i, i, True)) [0..<length (recent_list (sm_context sm))])\<rparr>)) sm)"
proof -
  let ?d = "sm_context sm"
  have ok: "length (recent_apps ?d) = 6" "recent_apps_count ?d \<le> 6" using assms by (auto simp: recent_ok_def)
  have "map (\<lambda>i. (recent_apps ?d ! i, i, True)) [0..<recent_apps_count ?d] =
      map (\<lambda>i. (recent_list ?d ! i, i, True)) [0..<length (recent_list ?d)]"
    using ok by (auto simp: recent_list_def)
  moreover have "recent_list ?d = [] \<longleftrightarrow> recent_apps_count ?d = 0" using ok by (auto simp: recent_list_def)
  ultimately show ?thesis
    using recent_items [of "recent_apps_count ?d" "recent_apps ?d"] ok
    by (simp add: desktop_scene_recent_on_enter_def Let_def)
qed

lemma home_tables:
  "call_enter (desktop_navigation_handlers env) 1 sm =
     desktop_scene_lock_menu_on_enter (env_furi_debug env) desktop_scene_states sm"
  "call_enter (desktop_navigation_handlers env) 11 sm = desktop_scene_favorites_on_enter sm"
  "call_enter (desktop_navigation_handlers env) 12 sm = desktop_scene_recent_on_enter sm"
  "call_exit (desktop_navigation_handlers env) 1 sm = Some sm"
  "call_exit (desktop_navigation_handlers env) 11 sm = desktop_scene_favorites_on_exit sm"
  "call_exit (desktop_navigation_handlers env) 12 sm = desktop_scene_recent_on_exit sm"
  by (simp_all add: call_enter_def call_exit_def handler_tables rd_def desktop_scene_lock_menu_on_exit_def One_nat_def)

lemma home_ok_desktop:
  "home_ok sm \<Longrightarrow> recent_apps (f (sm_context sm)) = recent_apps (sm_context sm) \<Longrightarrow>
   recent_apps_count (f (sm_context sm)) = recent_apps_count (sm_context sm) \<Longrightarrow>
   settings (f (sm_context sm)) = settings (sm_context sm) \<Longrightarrow> home_ok (on_desktop f sm)"
  using recent_ok_cong [of "f (sm_context sm)" "sm_context sm"] by (simp add: home_ok_def)

lemma switch_to_view_fields [simp]:
  "recent_apps (switch_to_view v d) = recent_apps d"
  "recent_apps_count (switch_to_view v d) = recent_apps_count d"
  by (simp_all add: switch_to_view_def Let_def desktop_call_def)

interpretation home: scene_app "desktop_navigation_handlers env" home_scenes home_ok
proof
  fix i :: nat and sm :: desktop_world and st
  show "i < scene_num (desktop_navigation_handlers env)" if "i \<in> home_scenes"
    using that by (auto simp: home_scenes_def)
  show "home_ok (sm\<lparr>scene_id_stack := st\<rparr>) = home_ok sm" by (simp add: home_ok_def)
  assume i: "i \<in> home_scenes" and P: "home_ok sm"
  have cases: "i = 0 \<or> i = 1 \<or> i = 11 \<or> i = 12" using i by (auto simp: home_scenes_def)
  have fav: "length (favorite_apps (settings (sm_context sm))) = 5" "recent_ok (sm_context sm)"
    "length (scene sm) = 13" using P by (auto simp: home_ok_def)
  show "\<exists>sm'. call_enter (desktop_navigation_handlers env) i sm = Some sm' \<and> stays sm sm' \<and> home_ok sm'"
    using cases
  proof (elim disjE)
    assume "i = 0"
    then show ?thesis
      using home_ok_desktop [OF P] by (auto simp: desktop_scene_main_on_enter_def Let_def stays_def)
  next
    assume "i = 1"
    then show ?thesis
      using P recent_ok_cong by (auto simp: home_tables desktop_scene_lock_menu_on_enter_def fav Let_def
          desktop_lock_menu_set_idx_def stays_def home_ok_def recent_ok_def recent_list_def)
  next
    assume "i = 11"
    then show ?thesis
      using favorites_enter [OF fav(1)] home_ok_desktop [OF P] by (auto simp: home_tables stays_def)
  next
    assume "i = 12"
    then show ?thesis
      using recent_enter [OF fav(2)] home_ok_desktop [OF P] by (auto simp: home_tables stays_def)
  qed
  show "\<exists>sm'. call_exit (desktop_navigation_handlers env) i sm = Some sm' \<and> stays sm sm' \<and> home_ok sm'"
    using cases home_ok_desktop [OF P] P
    by (auto simp: home_tables stays_def desktop_scene_main_on_exit_def desktop_scene_favorites_on_exit_def
        desktop_scene_recent_on_exit_def)
qed


subsection \<open>A freshly allocated desktop\<close>

text \<open>\<open>malloc\<close> zeroes the struct; the settings and the RTC registers come from outside.\<close>

definition desktop_fresh :: "DesktopSettings \<Rightarrow> u32 \<Rightarrow> u32 \<Rightarrow> Desktop" where
  "desktop_fresh s pin_value pin_fails =
     \<lparr>d_view = DesktopViewIdMain, locked_view = desktop_view_locked_alloc, main_view = desktop_main_alloc,
      pin_input_view = desktop_view_pin_input_alloc, pin_timeout_view = desktop_view_pin_timeout_alloc,
      lock_menu = \<lparr>lm_callback = False, lm_idx = 0, lm_dummy_mode = False, lm_stealth_mode = False,
        lm_bt_mode = False\<rparr>,
      favorites_submenu = [], recent_submenu = [], new_idle_callback = False, check_callback = False,
      interact_callback = False, input_events_subscription = False, auto_lock_timer = None,
      update_clock_timer = False, dashboard_update_timer = False, settings = s, pending_app_name = [],
      recent_apps = replicate DESKTOP_RECENT_APPS_COUNT [], recent_apps_count = 0, in_transition = False,
      app_running = False, locked = False, rtc_pin_value = pin_value, rtc_pin_fails = pin_fails,
      rtc_flag_lock = False, rtc_flag_stealth = False, rtc_flag_debug = False, bt_enabled = False,
      event_queue = [], calls = []\<rparr>"

definition desktop_fresh_world :: "DesktopSettings \<Rightarrow> u32 \<Rightarrow> u32 \<Rightarrow> desktop_world" where
  "desktop_fresh_world s pin_value pin_fails =
     scene_manager_alloc desktop_scene_states (desktop_fresh s pin_value pin_fails)"

lemmas fresh_defs = desktop_fresh_world_def desktop_fresh_def scene_manager_alloc_def
  desktop_view_locked_alloc_def desktop_main_alloc_def desktop_view_pin_timeout_alloc_def

lemma enter_main_fresh:
  "\<exists>sm. scene_manager_next_scene (desktop_navigation_handlers env) DesktopSceneMain
      (desktop_fresh_world s pin_value pin_fails) = Some sm \<and>
    scene_id_stack sm = [0] \<and> length (scene sm) = 13 \<and> rtc_pin_value (sm_context sm) = pin_value \<and>
    (desktop_pin_code_is_set pin_value \<longrightarrow> lockable env sm)"
  using pin_input_alloc_ok
  by (auto simp: scene_manager_next_scene_def fresh_defs desktop_scene_main_on_enter_def Let_def lockable_def
      switch_to_view_def desktop_call_def desktop_main_update_dashboard_def)

lemma boot_guarded:
  assumes "desktop_pin_code_is_set pin_value"
  shows "\<exists>sm. desktop_srv_boot env False False False False (desktop_fresh_world s pin_value pin_fails) = Some sm \<and>
    guarded sm"
proof -
  obtain sm where sm: "scene_manager_next_scene (desktop_navigation_handlers env) DesktopSceneMain
      (desktop_fresh_world s pin_value pin_fails) = Some sm" "rtc_pin_value (sm_context sm) = pin_value" "lockable env sm"
    using enter_main_fresh [of env s pin_value pin_fails] assms by blast
  obtain sm' where "desktop_lock (env_furi_debug env) (desktop_navigation_handlers env) sm = Some sm'" "guarded sm'"
    using lock_guard [OF sm(3)] by blast
  then show ?thesis
    using sm(1,2) assms guarded_on_desktop [of sm' "desktop_call AnimationUnload"]
    by (auto simp: desktop_srv_boot_def)
qed

subsection \<open>Entering the PIN\<close>

lemma pin_scene_top:
  assumes "guarded sm" "d_view (sm_context sm) = DesktopViewIdPinInput"
  shows "\<exists>base. scene_id_stack sm = base @ [5, 6] \<and> 0 \<in> set base \<and> scene sm ! 6 \<noteq> 0"
  using assms by (auto simp: guarded_def guard_tops_def)

lemma pin_ok_key:
  assumes g: "guarded (world s)" and v: "d_view (desk s) = DesktopViewIdPinInput"
    and ong: "ongoing_input s AND key_bit InputKeyOk \<noteq> 0" "ongoing_input_view s = Some DesktopViewIdPinInput"
    and len: "pin_length (pi_pin (pin_input_view (desk s))) \<ge> 4"
  shows "desktop_react env (Key now \<lparr>key = InputKeyOk, type = InputTypeShort\<rparr>) s =
    map_option (\<lambda>d. s\<lparr>world := (world s)\<lparr>sm_context := d\<rparr>\<rparr>)
      (desktop_scene_pin_input_done_callback (pi_pin (pin_input_view (desk s)))
        ((desk s)\<lparr>pin_input_view := (pin_input_view (desk s))\<lparr>pi_timer := True\<rparr>\<rparr>))"
  using v ong len
  by (cases "desktop_scene_pin_input_done_callback (pi_pin (pin_input_view (desk s)))
        ((desk s)\<lparr>pin_input_view := (pin_input_view (desk s))\<lparr>pi_timer := True\<rparr>\<rparr>)")
    (simp_all add: desktop_react_def view_dispatcher_handle_input_def Let_def deliver_input_def
      desktop_view_input_def desktop_view_pin_input_input_def)

lemma pin_timer_guard: "guarded sm \<Longrightarrow>
  guarded (on_desktop (\<lambda>d. d\<lparr>pin_input_view := (pin_input_view d)\<lparr>pi_timer := True\<rparr>, event_queue := []\<rparr>) sm)"
  by (rule guarded_on_desktop) (auto simp: desk_guarded_def pi_ok_def)

lemma pin_scene_event:
  assumes g: "guarded sm" and v: "d_view (sm_context sm) = DesktopViewIdPinInput"
    and e: "e \<in> {DesktopPinInputEventUnlocked, DesktopPinInputEventUnlockFailed}"
  shows "desktop_custom_event_callback env e sm =
    desktop_scene_pin_input_on_event (env_furi_debug env) (desktop_navigation_handlers env) (custom e) sm"
proof -
  obtain base where "scene_id_stack sm = base @ [5, 6]" using pin_scene_top [OF g v] by blast
  then show ?thesis
    using e by (auto simp: desktop_custom_event_callback_def scene_manager_handle_custom_event_def custom_def)
qed

lemma dispatch_eq:
  "event_queue (desk s) = e # es \<Longrightarrow> desktop_react env Dispatch s =
     map_option (\<lambda>(_, sm). s\<lparr>world := sm\<rparr>)
       (desktop_custom_event_callback env e (on_desktop (\<lambda>d. d\<lparr>event_queue := es\<rparr>) (world s)))"
  by (cases "desktop_custom_event_callback env e (on_desktop (\<lambda>d. d\<lparr>event_queue := es\<rparr>) (world s))")
    (auto simp: desktop_react_def)

text \<open>C2: While the device is locked and the PIN view is on screen, pressing OK with
  the right PIN entered and handling the event it posts brings the home screen back: the
  device is unlocked, the RTC lock flag is cleared, the failed attempts are forgotten, and the
  scene stack ends with the home scene.\<close>

theorem pin_unlocks:
  assumes g: "guarded (world s)" and v: "d_view (desk s) = DesktopViewIdPinInput"
    and q: "event_queue (desk s) = []"
    and ong: "ongoing_input s AND key_bit InputKeyOk \<noteq> 0" "ongoing_input_view s = Some DesktopViewIdPinInput"
    and len: "pin_length (pi_pin (pin_input_view (desk s))) \<ge> DESKTOP_PIN_CODE_MIN_LEN"
    and right: "desktop_pin_code_check (rtc_pin_value (desk s)) (pi_pin (pin_input_view (desk s))) = Some True"
  shows "\<exists>s1 s2. desktop_react env (Key now \<lparr>key = InputKeyOk, type = InputTypeShort\<rparr>) s = Some s1 \<and>
    desktop_react env Dispatch s1 = Some s2 \<and> home_again (world s2)"
proof -
  let ?d = "(desk s)\<lparr>pin_input_view := (pin_input_view (desk s))\<lparr>pi_timer := True\<rparr>\<rparr>"
  let ?s1 = "s\<lparr>world := (world s)\<lparr>sm_context := send_events [DesktopPinInputEventUnlocked] ?d\<rparr>\<rparr>"
  let ?w = "on_desktop (\<lambda>d. d\<lparr>pin_input_view := (pin_input_view d)\<lparr>pi_timer := True\<rparr>, event_queue := []\<rparr>) (world s)"
  have s1: "desktop_react env (Key now \<lparr>key = InputKeyOk, type = InputTypeShort\<rparr>) s = Some ?s1"
    using pin_ok_key [OF g v ong, of env now] len right by (simp add: desktop_scene_pin_input_done_callback_def)
  have w: "guarded ?w" by (rule pin_timer_guard [OF g])
  have vw: "d_view (sm_context ?w) = DesktopViewIdPinInput" using v by simp
  obtain sm' where sm': "desktop_unlock (env_furi_debug env) (desktop_navigation_handlers env) ?w = Some sm'" "home_again sm'"
    using unlock_home [OF w] by blast
  have len13: "length (scene ?w) = 13" using w by (simp add: guarded_def)
  have cb: "desktop_custom_event_callback env DesktopPinInputEventUnlocked ?w = Some (True, sm')"
    using pin_scene_event [OF w vw, of DesktopPinInputEventUnlocked env] sm'(1) len13
    by (simp add: desktop_scene_pin_input_on_event_def custom_def consumed_by_def del: on_desktop_simps)
  have eq: "on_desktop (\<lambda>d. d\<lparr>event_queue := []\<rparr>) (world ?s1) = ?w"
    using q by (simp add: on_desktop_def send_events_def)
  have "desktop_react env Dispatch ?s1 = map_option (\<lambda>(_, sm). ?s1\<lparr>world := sm\<rparr>)
      (desktop_custom_event_callback env DesktopPinInputEventUnlocked (on_desktop (\<lambda>d. d\<lparr>event_queue := []\<rparr>) (world ?s1)))"
    by (rule dispatch_eq) (use q in \<open>simp add: send_events_def\<close>)
  then have "desktop_react env Dispatch ?s1 = Some (?s1\<lparr>world := sm'\<rparr>)"
    unfolding eq cb by simp
  with s1 sm'(2) show ?thesis by auto
qed

text \<open>C3: With a wrong PIN the same key press counts a failed attempt, and handling the
  event keeps the device locked: from the fourth failure on (the count that
  \<open>desktop_pin_lock_get_fail_timeout\<close> punishes) the timeout screen with that many
  seconds replaces the PIN view, and before that the PIN is cleared for another try.\<close>

theorem wrong_pin_counts:
  assumes g: "guarded (world s)" and env: "env_ok env" and v: "d_view (desk s) = DesktopViewIdPinInput"
    and q: "event_queue (desk s) = []"
    and ong: "ongoing_input s AND key_bit InputKeyOk \<noteq> 0" "ongoing_input_view s = Some DesktopViewIdPinInput"
    and len: "pin_length (pi_pin (pin_input_view (desk s))) \<ge> DESKTOP_PIN_CODE_MIN_LEN"
    and wrong: "desktop_pin_code_check (rtc_pin_value (desk s)) (pi_pin (pin_input_view (desk s))) = Some False"
  shows "\<exists>s1 s2. desktop_react env (Key now \<lparr>key = InputKeyOk, type = InputTypeShort\<rparr>) s = Some s1 \<and>
    desktop_react env Dispatch s1 = Some s2 \<and> guarded (world s2) \<and>
    rtc_pin_fails (desk s2) = rtc_pin_fails (desk s) + 1 \<and>
    (let t = desktop_pin_lock_get_fail_timeout (rtc_pin_fails (desk s) + 1) in
     if t > 0 then d_view (desk s2) = DesktopViewIdPinTimeout \<and> pt_time_left (pin_timeout_view (desk s2)) = t
     else d_view (desk s2) = DesktopViewIdPinInput \<and> pin_length (pi_pin (pin_input_view (desk s2))) = 0)"
proof -
  let ?n = "rtc_pin_fails (desk s) + 1"
  let ?d = "(desk s)\<lparr>pin_input_view := (pin_input_view (desk s))\<lparr>pi_timer := True\<rparr>\<rparr>"
  let ?s1 = "s\<lparr>world := (world s)\<lparr>sm_context :=
    send_events [DesktopPinInputEventUnlockFailed] (?d\<lparr>rtc_pin_fails := ?n\<rparr>)\<rparr>\<rparr>"
  let ?w0 = "on_desktop (\<lambda>d. d\<lparr>pin_input_view := (pin_input_view d)\<lparr>pi_timer := True\<rparr>, event_queue := []\<rparr>) (world s)"
  let ?w = "on_desktop (\<lambda>d. d\<lparr>rtc_pin_fails := ?n\<rparr>) ?w0"
  have s1: "desktop_react env (Key now \<lparr>key = InputKeyOk, type = InputTypeShort\<rparr>) s = Some ?s1"
    using pin_ok_key [OF g v ong, of env now] len wrong by (simp add: desktop_scene_pin_input_done_callback_def)
  have w: "guarded ?w"
    by (rule guarded_on_desktop [OF pin_timer_guard [OF g]]) (auto simp: desk_guarded_def)
  have vw: "d_view (sm_context ?w) = DesktopViewIdPinInput" using v by simp
  obtain base where top: "scene_id_stack ?w = base @ [5, 6]" "0 \<in> set base" "scene ?w ! 6 \<noteq> 0"
    using pin_scene_top [OF w vw] by blast
  have len13: "length (scene ?w) = 13" using w by (simp add: guarded_def)
  obtain b sm' where sm': "desktop_scene_pin_input_on_event (env_furi_debug env) (desktop_navigation_handlers env)
      (custom DesktopPinInputEventUnlockFailed) ?w = Some (b, sm')" "guarded sm'"
    using pin_input_on_event_guard [OF w env top, of DesktopPinInputEventUnlockFailed]
    by (auto simp: unlock_events_def)
  have eq: "on_desktop (\<lambda>d. d\<lparr>event_queue := []\<rparr>) (world ?s1) = ?w"
    using q by (simp add: on_desktop_def send_events_def)
  have cb: "desktop_custom_event_callback env DesktopPinInputEventUnlockFailed ?w = Some (b, sm')"
    using sm'(1) pin_scene_event [OF w vw, of DesktopPinInputEventUnlockFailed env] by simp
  have "desktop_react env Dispatch ?s1 = map_option (\<lambda>(_, sm). ?s1\<lparr>world := sm\<rparr>)
      (desktop_custom_event_callback env DesktopPinInputEventUnlockFailed (on_desktop (\<lambda>d. d\<lparr>event_queue := []\<rparr>) (world ?s1)))"
    by (rule dispatch_eq) (use q in \<open>simp add: send_events_def\<close>)
  then have "desktop_react env Dispatch ?s1 = Some (?s1\<lparr>world := sm'\<rparr>)"
    unfolding eq cb by simp
  moreover have "rtc_pin_fails (sm_context sm') = ?n \<and>
    (let t = desktop_pin_lock_get_fail_timeout ?n in
     if t > 0 then d_view (sm_context sm') = DesktopViewIdPinTimeout \<and> pt_time_left (pin_timeout_view (sm_context sm')) = t
     else d_view (sm_context sm') = DesktopViewIdPinInput \<and> pin_length (pi_pin (pin_input_view (sm_context sm'))) = 0)"
  proof (cases "desktop_pin_lock_get_fail_timeout ?n > 0")
    case True
    then show ?thesis
      using sm'(1) top len13 unfolding Let_def
      by (auto simp: desktop_scene_pin_input_on_event_def custom_def consumed_by_def scene_manager_next_scene_def
          desktop_scene_pin_input_on_exit_def desktop_scene_pin_timeout_on_enter_def Let_def on_desktop_def
          switch_to_view_def desktop_call_def desktop_view_pin_timeout_start_def
          desktop_view_pin_timeout_set_callback_def)
  next
    case False
    then show ?thesis
      using sm'(1) v top(3) len13 unfolding Let_def
      by (auto simp: desktop_scene_pin_input_on_event_def custom_def consumed_by_def
          desktop_scene_pin_input_set_timer_def desktop_scene_pin_input_update_wrong_count_def
          desktop_view_pin_input_reset_pin_def on_desktop_def desktop_call_def)
  qed
  ultimately show ?thesis using s1 sm'(2) by (auto simp: Let_def)
qed


subsection \<open>A concrete device\<close>

text \<open>A device with the PIN up, down, right, left, for the instances of the properties.\<close>

definition demo_settings :: DesktopSettings where
  "demo_settings = \<lparr>auto_lock_delay_ms = 0, usb_inhibit_auto_lock = False, dummy_mode = False,
     display_clock = False, favorite_apps = replicate 5 [], dummy_apps = replicate 9 [], menu_style = []\<rparr>"

definition demo_env :: desktop_env where
  "demo_env = \<lparr>env_furi_debug = False, env_usb_locked = False, env_animation_loaded = False,
     env_interact = False, env_settings = demo_settings, env_sd_ok = True, env_pin_scene_state = 1,
     env_dolphin_input = (\<lambda>_. False), env_submenu_input = (\<lambda>_. True), env_enter = (\<lambda>_. Some),
     env_event = (\<lambda>_ _ sm. Some (False, sm)), env_exit = (\<lambda>_. Some), env_view_input = (\<lambda>_ _. (False, []))\<rparr>"

definition demo_pin_value :: u32 where "demo_pin_value = 1073742052"

definition demo_pin :: DesktopPinCode where
  "demo_pin = \<lparr>pin_data = [0, 1, 2, 3, 0, 0, 0, 0, 0, 0], pin_length = 4\<rparr>"

definition wrong_demo_pin :: DesktopPinCode where
  "wrong_demo_pin = \<lparr>pin_data = [0, 1, 2, 2, 0, 0, 0, 0, 0, 0], pin_length = 4\<rparr>"

lemma demo_pin_facts:
  "desktop_pin_code_is_set demo_pin_value"
  "desktop_pin_code_check demo_pin_value demo_pin = Some True"
  "desktop_pin_code_check demo_pin_value wrong_demo_pin = Some False"
  by code_simp+

lemma all_less_4: "(\<forall>k < (4::nat). P k) \<longleftrightarrow> P 0 \<and> P 1 \<and> P 2 \<and> P 3"
  by (auto simp: numeral_eq_Suc less_Suc_eq One_nat_def)

lemma demo_pin_ok: "pin_ok demo_pin" "pin_ok wrong_demo_pin"
  by (simp_all add: pin_ok_def demo_pin_def wrong_demo_pin_def all_less_4)

text \<open>The PIN view is on screen over the locked scene and OK is being held.\<close>

definition demo_locked :: "DesktopPinCode \<Rightarrow> u32 \<Rightarrow> desktop_system" where
  "demo_locked pin fails = \<lparr>world =
     \<lparr>scene_id_stack = [0, 5, 6], scene = [0, 0, 0, 0, 0, 1, 1, 0, 0, 0, 0, 0, 0],
      sm_context = (desktop_fresh demo_settings demo_pin_value fails)\<lparr>
        d_view := DesktopViewIdPinInput, locked := True, rtc_flag_lock := True,
        locked_view := desktop_view_locked_alloc\<lparr>lv_callback := True, lv_pin_locked := True,
          lv_view_state := DesktopViewLockedStateLocked\<rparr>,
        pin_input_view := desktop_view_pin_input_alloc\<lparr>pi_pin := pin\<rparr>\<rparr>\<rparr>,
     ongoing_input = 16, ongoing_input_view = Some DesktopViewIdPinInput\<rparr>"

lemma guardedI:
  "desk_guarded (sm_context sm) \<Longrightarrow> scene_id_stack sm = base @ 5 # tops \<Longrightarrow> 0 \<in> set base \<Longrightarrow> tops \<in> guard_tops \<Longrightarrow>
   length (scene sm) = 13 \<Longrightarrow> scene sm ! 5 \<noteq> 0 \<Longrightarrow> scene sm ! 6 \<noteq> 0 \<Longrightarrow>
   d_view (sm_context sm) = guard_view tops \<Longrightarrow> guarded sm"
  by (auto simp: guarded_def)

lemma demo_locked_guarded: "pin_ok pin \<Longrightarrow> guarded (world (demo_locked pin fails))"
  using demo_pin_facts(1)
  by (intro guardedI [of _ "[0]" "[6]"])
    (simp_all add: desk_guarded_def demo_locked_def fresh_defs lv_guarded_def pi_ok_def guard_tops_def)

lemma demo_env_ok: "env_ok demo_env"
  by (simp add: env_ok_def demo_env_def)

lemma demo_locked_simps:
  "d_view (desk (demo_locked pin fails)) = DesktopViewIdPinInput" "event_queue (desk (demo_locked pin fails)) = []"
  "ongoing_input (demo_locked pin fails) AND key_bit InputKeyOk \<noteq> 0"
  "ongoing_input_view (demo_locked pin fails) = Some DesktopViewIdPinInput"
  "pi_pin (pin_input_view (desk (demo_locked pin fails))) = pin"
  "rtc_pin_value (desk (demo_locked pin fails)) = demo_pin_value"
  "rtc_pin_fails (desk (demo_locked pin fails)) = fails"
  by (simp_all add: demo_locked_def fresh_defs key_bit_def)

theorem pin_unlocks_witness:
  "\<exists>s1 s2. desktop_react demo_env (Key 0 \<lparr>key = InputKeyOk, type = InputTypeShort\<rparr>) (demo_locked demo_pin 2) = Some s1 \<and>
    desktop_react demo_env Dispatch s1 = Some s2 \<and> home_again (world s2)"
  by (rule pin_unlocks [OF demo_locked_guarded [OF demo_pin_ok(1)]])
    (simp_all add: demo_locked_simps demo_pin_facts, simp add: demo_pin_def)

theorem wrong_pin_counts_witness:
  "\<exists>s1 s2. desktop_react demo_env (Key 0 \<lparr>key = InputKeyOk, type = InputTypeShort\<rparr>) (demo_locked wrong_demo_pin 3) = Some s1 \<and>
    desktop_react demo_env Dispatch s1 = Some s2 \<and> guarded (world s2) \<and> rtc_pin_fails (desk s2) = 4 \<and>
    d_view (desk s2) = DesktopViewIdPinTimeout \<and> pt_time_left (pin_timeout_view (desk s2)) = 30"
proof -
  have "\<exists>s1 s2. desktop_react demo_env (Key 0 \<lparr>key = InputKeyOk, type = InputTypeShort\<rparr>) (demo_locked wrong_demo_pin 3) = Some s1 \<and>
    desktop_react demo_env Dispatch s1 = Some s2 \<and> guarded (world s2) \<and>
    rtc_pin_fails (desk s2) = rtc_pin_fails (desk (demo_locked wrong_demo_pin 3)) + 1 \<and>
    (let t = desktop_pin_lock_get_fail_timeout (rtc_pin_fails (desk (demo_locked wrong_demo_pin 3)) + 1) in
     if t > 0 then d_view (desk s2) = DesktopViewIdPinTimeout \<and> pt_time_left (pin_timeout_view (desk s2)) = t
     else d_view (desk s2) = DesktopViewIdPinInput \<and> pin_length (pi_pin (pin_input_view (desk s2))) = 0)"
    by (rule wrong_pin_counts [OF demo_locked_guarded [OF demo_pin_ok(2)] demo_env_ok])
      (simp_all add: demo_locked_simps demo_pin_facts, simp add: wrong_demo_pin_def)
  moreover have "desktop_pin_lock_get_fail_timeout 4 = 30" by code_simp
  ultimately show ?thesis by (auto simp: demo_locked_simps Let_def)
qed

text \<open>C1: Once the desktop is locked with a PIN set, it stays locked: in every run of
  input events, timers, animation callbacks, loader and storage messages and API calls in which
  nobody asks for an unlock over the API and nobody presses OK on the right PIN, the lock flag
  stays set and only the locked view, the PIN view or the timeout view is ever on screen.\<close>

theorem lock_holds:
  assumes "lockable env sm"
  shows "\<exists>sm'. desktop_lock (env_furi_debug env) (desktop_navigation_handlers env) sm = Some sm' \<and>
    (\<forall>s steps t. world s = sm' \<longrightarrow> desktop_runs s steps t \<longrightarrow> (\<forall>(e, stim, u) \<in> set steps. env_ok e) \<longrightarrow>
       \<not> unlock_requested steps \<longrightarrow>
       locked (desk t) \<and> desktop_api_is_locked (desk t) \<and>
       d_view (desk t) \<in> {DesktopViewIdLocked, DesktopViewIdPinInput, DesktopViewIdPinTimeout})"
proof -
  obtain sm' where sm': "desktop_lock (env_furi_debug env) (desktop_navigation_handlers env) sm = Some sm'" "guarded sm'"
    using lock_guard [OF assms] by blast
  have "locked (desk t) \<and> desktop_api_is_locked (desk t) \<and>
      d_view (desk t) \<in> {DesktopViewIdLocked, DesktopViewIdPinInput, DesktopViewIdPinTimeout}"
    if "guarded (world t)" for t
    using that by (auto simp: guarded_def desk_guarded_def desktop_api_is_locked_def split: if_splits)
  with sm' runs_guard show ?thesis by metis
qed

definition demo_home :: desktop_world where
  "demo_home = (desktop_fresh_world demo_settings demo_pin_value 0)\<lparr>scene_id_stack := [0]\<rparr>"

lemma demo_home_lockable: "lockable demo_env demo_home"
  using demo_pin_facts(1) pin_input_alloc_ok
  by (simp add: lockable_def demo_home_def fresh_defs Let_def demo_env_def desktop_scene_states_def)

theorem lock_holds_witness:
  "\<exists>sm'. desktop_lock False (desktop_navigation_handlers demo_env) demo_home = Some sm' \<and>
    (\<exists>t. desktop_runs \<lparr>world = sm', ongoing_input = 0, ongoing_input_view = None\<rparr> [] t \<and> locked (desk t))"
proof -
  have "\<exists>sm'. desktop_lock (env_furi_debug demo_env) (desktop_navigation_handlers demo_env) demo_home = Some sm' \<and>
    (\<forall>s steps t. world s = sm' \<longrightarrow> desktop_runs s steps t \<longrightarrow> (\<forall>(e, stim, u) \<in> set steps. env_ok e) \<longrightarrow>
       \<not> unlock_requested steps \<longrightarrow>
       locked (desk t) \<and> desktop_api_is_locked (desk t) \<and>
       d_view (desk t) \<in> {DesktopViewIdLocked, DesktopViewIdPinInput, DesktopViewIdPinTimeout})"
    by (rule lock_holds [OF demo_home_lockable])
  then obtain sm' where sm': "desktop_lock False (desktop_navigation_handlers demo_env) demo_home = Some sm'"
    and stay: "\<And>s steps t. world s = sm' \<Longrightarrow> desktop_runs s steps t \<Longrightarrow> (\<forall>(e, stim, u) \<in> set steps. env_ok e) \<Longrightarrow>
       \<not> unlock_requested steps \<Longrightarrow> locked (desk t)"
    by (auto simp: demo_env_def)
  let ?s = "\<lparr>world = sm', ongoing_input = 0, ongoing_input_view = None\<rparr>"
  have "locked (desk ?s)" by (rule stay [of ?s "[]"]) (auto intro: runs_refl simp: unlock_requested_def)
  then show ?thesis using sm' runs_refl [of ?s] by blast
qed

text \<open>C5: A device with a PIN boots locked, when none of the start-up screens is shown: if the slideshow
  has been seen, the hardware matches, no fault was recorded and the secure enclave is valid, the
  start-up sequence of the service does not crash and ends under the guard of the lock screen,
  whatever the settings and the number of failed attempts. (The start-up screens are opened on top
  of the lock screen; their scenes are arguments of the model and the claim says nothing of them.)\<close>

theorem boot_locked:
  assumes "desktop_pin_code_is_set pin_value"
  shows "\<exists>sm. desktop_srv_boot env False False False False (desktop_fresh_world s pin_value fails) = Some sm \<and>
    guarded sm \<and> locked (sm_context sm) \<and> desktop_api_is_locked (sm_context sm)"
proof -
  have "guarded sm \<Longrightarrow> locked (sm_context sm) \<and> desktop_api_is_locked (sm_context sm)" for sm
    by (simp add: guarded_def desk_guarded_def desktop_api_is_locked_def)
  with boot_guarded [OF assms] show ?thesis by blast
qed

theorem boot_locked_witness:
  "\<exists>sm. desktop_srv_boot demo_env False False False False (desktop_fresh_world demo_settings demo_pin_value 7) = Some sm \<and>
    guarded sm \<and> locked (sm_context sm) \<and> desktop_api_is_locked (sm_context sm)"
  by (rule boot_locked [OF demo_pin_facts(1)])

text \<open>C4: Under the guard of the lock screen every stimulus is handled without a crash and the guard still
  holds afterwards, with three exceptions: OK on the right PIN and an API unlock, which open the
  lock, and the end of the loader's wait without the desktop's semaphore
  (\<open>desktop_loader_callback\<close>, three seconds), which stops the firmware. The views that are not
  modelled are taken to post no unlock event, and allocated memory is not null (\<open>env_ok\<close>).\<close>

theorem locked_total:
  assumes "guarded (world s)" "env_ok env" "\<not> enters_pin stim s" "stim \<noteq> ApiUnlock" "stim \<noteq> LoaderWait False"
  shows "\<exists>s'. desktop_react env stim s = Some s' \<and> guarded (world s')"
  by (rule react_guard [OF assms])

theorem locked_total_witness:
  "\<exists>s'. desktop_react demo_env (Key 0 \<lparr>key = InputKeyOk, type = InputTypeShort\<rparr>) (demo_locked wrong_demo_pin 0) = Some s' \<and>
    guarded (world s')"
  by (rule locked_total [OF demo_locked_guarded [OF demo_pin_ok(2)] demo_env_ok])
    (auto simp: enters_pin_def pin_entered_def demo_locked_simps demo_pin_facts)

text \<open>C37: The packed PIN in the RTC register identifies the PIN: for PINs as the view
  produces them, the check against a stored PIN succeeds exactly when
  \<open>desktop_pin_code_is_equal\<close> says the two are the same.\<close>

theorem pin_check_exact:
  assumes "pin_ok p" "pin_ok q" "desktop_pin_code_pack p = Some stored"
  shows "desktop_pin_code_check stored q = desktop_pin_code_is_equal p q"
proof -
  obtain r where r: "desktop_pin_code_pack q = Some r" using pack_total [OF assms(2)] by blast
  have "pin_length p \<le> 10" "pin_length q \<le> 10" using assms(1,2) by (auto simp: pin_ok_def)
  then show ?thesis
    using pack_eq_iff [OF assms(1,2)] assms(3) r
    by (auto simp: desktop_pin_code_check_def desktop_pin_code_is_equal_def)
qed

theorem pin_check_exact_witness:
  "desktop_pin_code_check demo_pin_value wrong_demo_pin = desktop_pin_code_is_equal demo_pin wrong_demo_pin"
  by (rule pin_check_exact [OF demo_pin_ok]) code_simp


lemma fail_timeout_nat:
  assumes "n \<le> 70000000"
  shows "unat (desktop_pin_lock_get_fail_timeout (of_nat n)) =
    (if n \<le> 3 then 0 else if n \<le> 9 then 30 * (n - 3) else 180 + (n - 9) * 60)"
proof (cases "n \<le> 9")
  case True
  then have "n \<in> {0, 1, 2, 3, 4, 5, 6, 7, 8, 9}" by auto
  then show ?thesis
    by (auto simp: desktop_pin_lock_get_fail_timeout_def desktop_helpers_fails_timeout_def Let_def)
next
  case False
  have n: "unat (of_nat n :: u32) = n" using assms by (simp add: unat_of_nat)
  have le: "\<not> (of_nat n :: u32) \<le> 9" using False n by (simp add: word_le_nat_alt)
  have "(of_nat n :: u32) - 9 = of_nat (n - 9)" using False by simp
  then have "180 + ((of_nat n :: u32) - 9) * 60 = of_nat (180 + (n - 9) * 60)" by simp
  moreover have "unat (of_nat (180 + (n - 9) * 60) :: u32) = 180 + (n - 9) * 60"
    using assms by (simp only: unat_of_nat) simp
  ultimately show ?thesis
    using False le by (simp add: desktop_pin_lock_get_fail_timeout_def desktop_helpers_fails_timeout_def Let_def)
qed

text \<open>More failed attempts never shorten the lock-out: up to a count at which the
  seconds no longer fit 32 bits, \<open>desktop_pin_lock_get_fail_timeout\<close> is monotone, and
  every count from four on costs at least half a minute.\<close>

theorem fail_timeout_mono:
  assumes "m \<le> n" "n \<le> 70000000"
  shows "desktop_pin_lock_get_fail_timeout (of_nat m) \<le> desktop_pin_lock_get_fail_timeout (of_nat n) \<and>
    (4 \<le> n \<longrightarrow> 30 \<le> desktop_pin_lock_get_fail_timeout (of_nat n))"
proof -
  have "unat (desktop_pin_lock_get_fail_timeout (of_nat m)) \<le> unat (desktop_pin_lock_get_fail_timeout (of_nat n))"
    using assms by (auto simp: fail_timeout_nat)
  moreover have "4 \<le> n \<longrightarrow> 30 \<le> unat (desktop_pin_lock_get_fail_timeout (of_nat n))"
    using assms(2) by (auto simp: fail_timeout_nat)
  ultimately show ?thesis by (simp add: word_le_nat_alt)
qed

theorem fail_timeout_mono_witness:
  "desktop_pin_lock_get_fail_timeout (of_nat 3) \<le> desktop_pin_lock_get_fail_timeout (of_nat 12) \<and>
   30 \<le> desktop_pin_lock_get_fail_timeout (of_nat 12)"
  using fail_timeout_mono [of 3 12] by linarith

lemma distinct_adj_take: "distinct_adj xs \<Longrightarrow> distinct_adj (take n xs)"
  by (metis append_take_drop_id distinct_adj_appendD1)

text \<open>C26: Starting an application whose name fits the buffer \<open>pending_app_name\<close> (at most 39 characters, as
  every name that \<open>desktop_loader_callback\<close> stores there) puts the name at the head of the recent
  list, unless it is there already; the rest moves down, the list never holds more than six names,
  every name fits its buffer, and no name ever follows itself. (Called with a longer name the
  function itself would store its first 39 characters again at every call.)\<close>

theorem recent_push_spec:
  assumes "recent_ok d" "distinct_adj (recent_list d)" "name \<noteq> []" "length name < DESKTOP_RECENT_APP_NAME_LEN"
  shows "recent_ok (desktop_recent_apps_push name d) \<and>
    distinct_adj (recent_list (desktop_recent_apps_push name d)) \<and>
    recent_list (desktop_recent_apps_push name d) =
      (if recent_list d \<noteq> [] \<and> hd (recent_list d) = name then recent_list d
       else take DESKTOP_RECENT_APPS_COUNT (name # recent_list d))"
proof -
  have "take 40 name = name" "short_name name = name" using assms(4) by (simp_all add: short_name_def)
  then have list: "recent_list (desktop_recent_apps_push name d) =
      (if recent_list d \<noteq> [] \<and> hd (recent_list d) = name then recent_list d
       else take DESKTOP_RECENT_APPS_COUNT (name # recent_list d))"
    using recent_push_list(1) [OF assms(1,3)] by simp
  have "distinct_adj (recent_list (desktop_recent_apps_push name d))"
  proof (cases "recent_list d \<noteq> [] \<and> hd (recent_list d) = name")
    case True
    then show ?thesis unfolding list using assms(2) by simp
  next
    case False
    then have "distinct_adj (name # recent_list d)" using assms(2) by (cases "recent_list d") auto
    then show ?thesis unfolding list if_not_P [OF False] by (rule distinct_adj_take)
  qed
  with list show ?thesis using recent_push_list(2) [OF assms(1,3)] by blast
qed

lemma fresh_recent_ok: "recent_ok (desktop_fresh s v n)"
  by (simp add: recent_ok_def recent_list_def desktop_fresh_def)

theorem recent_push_spec_witness:
  "recent_list (desktop_recent_apps_push ''NFC'' (desktop_fresh demo_settings 0 0)) = [''NFC'']"
  using recent_push_spec [OF fresh_recent_ok [of demo_settings 0 0], of "''NFC''"]
  by (simp add: recent_list_def desktop_fresh_def short_name_def)

lemma before_load_recent:
  assumes "recent_ok d" "name \<noteq> []" "take 39 name \<notin> set (recent_list d)"
  shows "recent_list (desktop_recent_apps_push (strlcpy name DESKTOP_RECENT_APP_NAME_LEN) d) =
    take 6 (take 39 name # recent_list d)"
proof -
  have n: "strlcpy name DESKTOP_RECENT_APP_NAME_LEN = take 39 name" "take 39 name \<noteq> []" "take 40 (take 39 name) = take 39 name"
    using assms(2) by (simp_all add: strlcpy_def)
  have "hd (recent_list d) \<noteq> take 39 name" if "recent_list d \<noteq> []"
    using that assms(3) by (metis hd_in_set)
  then show ?thesis
    using recent_push_list(1) [OF assms(1) n(2)] n by (auto simp: short_name_def)
qed

lemma recent_list_fields [simp]:
  "recent_list (switch_to_view v d) = recent_list d"
  by (simp add: recent_list_def)

lemma recent_first_entry:
  assumes "home_ok sm" "scene_id_stack sm = [0]" "recent_list (sm_context sm) = n # ns"
  shows "\<exists>sm2. scene_manager_next_scene (desktop_navigation_handlers env) DesktopSceneRecent sm = Some sm2 \<and>
    recent_submenu (sm_context sm2) ! 0 = (n, 0, True) \<and>
    (\<exists>sm3. desktop_scene_recent_on_event f (desktop_navigation_handlers env) (custom 0) sm2 = Some (True, sm3) \<and>
       scene_id_stack sm3 = [0] \<and> LoaderStart n None \<in> set (calls (sm_context sm3)))"
proof -
  let ?g = "\<lambda>d. d\<lparr>dashboard_update_timer := False, new_idle_callback := False, check_callback := False,
    interact_callback := False\<rparr>"
  let ?s = "(on_desktop ?g sm)\<lparr>scene_id_stack := [0, 12]\<rparr>"
  have same: "recent_apps (sm_context ?s) = recent_apps (sm_context sm)"
    "recent_apps_count (sm_context ?s) = recent_apps_count (sm_context sm)"
    by simp_all
  have ok: "recent_ok (sm_context ?s)"
    unfolding recent_ok_cong [OF same] using assms(1) by (simp add: home_ok_def)
  have list: "recent_list (sm_context ?s) = n # ns" using assms(3) same by (simp add: recent_list_def)
  have cnt: "0 < recent_apps_count (sm_context sm)" "recent_apps (sm_context sm) ! 0 = n" "recent_apps (sm_context sm) \<noteq> []"
    using assms(3) by (auto simp: recent_list_def take_Cons' split: if_splits)
      (cases "recent_apps (sm_context sm)"; cases "recent_apps_count (sm_context sm)"; auto)+
  obtain sm2 where sm2: "scene_manager_next_scene (desktop_navigation_handlers env) 12 sm = Some sm2"
      "scene_id_stack sm2 = [0, 12]" "recent_submenu (sm_context sm2) ! 0 = (n, 0, True)"
      "recent_apps (sm_context sm2) = recent_apps (sm_context sm)"
      "recent_apps_count (sm_context sm2) = recent_apps_count (sm_context sm)"
    using recent_enter [OF ok] assms(2) list
    by (simp add: scene_manager_next_scene_def home_tables desktop_scene_main_on_exit_def nth_append
        switch_to_view_def Let_def desktop_call_def upt_conv_Cons)
  have "\<exists>sm3. desktop_scene_recent_on_event f (desktop_navigation_handlers env) (custom 0) sm2 = Some (True, sm3) \<and>
       scene_id_stack sm3 = [0] \<and> LoaderStart n None \<in> set (calls (sm_context sm3))"
    using sm2 cnt
    by (simp add: desktop_scene_recent_on_event_def custom_def rd_def scene_manager_previous_scene_def Let_def
        home_tables desktop_scene_recent_on_exit_def desktop_scene_main_on_enter_def on_desktop_def
        switch_to_view_def desktop_call_def)
  with sm2(1,3) show ?thesis by auto
qed

text \<open>C38: What the Recent menu starts is not always what was started: after the
  loader announces an application under the name \<open>n\<close> and the desktop has handled the
  announcement, choosing the first entry asks the loader for the first 39 characters of
  \<open>n\<close>, which for a longer path of an external application is another file name.\<close>

theorem recent_relaunch_truncates:
  assumes ok: "home_ok (world s)" "scene_id_stack (world s) = [DesktopSceneMain]" "event_queue (desk s) = []"
    and name: "name \<noteq> []" "take 39 name \<notin> set (recent_list (desk s))"
  shows "\<exists>s1 s2 sm3 sm4. desktop_react env (LoaderMessage (LoaderEventTypeApplicationBeforeLoad (Some name))) s = Some s1 \<and>
    desktop_react env Dispatch s1 = Some s2 \<and>
    scene_manager_next_scene (desktop_navigation_handlers env) DesktopSceneRecent (world s2) = Some sm3 \<and>
    recent_submenu (sm_context sm3) ! 0 = (take 39 name, 0, True) \<and>
    desktop_scene_recent_on_event f (desktop_navigation_handlers env) (custom 0) sm3 = Some (True, sm4) \<and>
    LoaderStart (take 39 name) None \<in> set (calls (sm_context sm4))"
proof -
  let ?n = "strlcpy name DESKTOP_RECENT_APP_NAME_LEN"
  let ?e = "if env_animation_loaded env then desktop_call AnimationUnload else id"
  let ?f = "\<lambda>d. desktop_call SemaphoreRelease (desktop_recent_apps_push (pending_app_name d)
     ((desktop_auto_lock_inhibit (?e d))\<lparr>app_running := True\<rparr>))"
  let ?g = "\<lambda>d. ?f (d\<lparr>pending_app_name := ?n, event_queue := []\<rparr>)"
  let ?s1 = "with_desktop (\<lambda>d. send_events [DesktopGlobalBeforeAppStarted] (d\<lparr>pending_app_name := ?n\<rparr>)) s"
  have s1: "desktop_react env (LoaderMessage (LoaderEventTypeApplicationBeforeLoad (Some name))) s = Some ?s1"
    by (simp add: desktop_react_def desktop_loader_callback_def with_desktop_def)
  have pend: "pending_app_name ((desktop_auto_lock_inhibit (?e d))\<lparr>app_running := True\<rparr>) = pending_app_name d" for d
    by (simp add: desktop_auto_lock_inhibit_def desktop_stop_auto_lock_timer_def desktop_call_def)
  have rec: "recent_apps ((desktop_auto_lock_inhibit (?e d))\<lparr>app_running := True\<rparr>) = recent_apps d"
    "recent_apps_count ((desktop_auto_lock_inhibit (?e d))\<lparr>app_running := True\<rparr>) = recent_apps_count d"
    "settings ((desktop_auto_lock_inhibit (?e d))\<lparr>app_running := True\<rparr>) = settings d" for d
    by (simp_all add: desktop_auto_lock_inhibit_def desktop_stop_auto_lock_timer_def desktop_call_def)
  have cb: "desktop_custom_event_callback env DesktopGlobalBeforeAppStarted sm = Some (True, on_desktop ?f sm)" for sm
    using pend by (simp add: desktop_custom_event_callback_def Let_def desktop_auto_lock_inhibit_def
        desktop_stop_auto_lock_timer_def desktop_call_def)
  have eq: "on_desktop ?f (on_desktop (\<lambda>d. d\<lparr>event_queue := []\<rparr>) (world ?s1)) = on_desktop ?g (world s)"
    using ok(3) by (simp add: on_desktop_def with_desktop_def send_events_def)
  have "desktop_react env Dispatch ?s1 = map_option (\<lambda>(_, sm). ?s1\<lparr>world := sm\<rparr>)
      (desktop_custom_event_callback env DesktopGlobalBeforeAppStarted
        (on_desktop (\<lambda>d. d\<lparr>event_queue := []\<rparr>) (world ?s1)))"
    by (rule dispatch_eq) (use ok(3) in \<open>simp add: send_events_def with_desktop_def\<close>)
  then have s2: "desktop_react env Dispatch ?s1 = Some (?s1\<lparr>world := on_desktop ?g (world s)\<rparr>)"
    unfolding cb eq by simp
  define d where "d = (desktop_auto_lock_inhibit (?e ((desk s)\<lparr>pending_app_name := ?n, event_queue := []\<rparr>)))\<lparr>app_running := True\<rparr>"
  have d: "recent_apps d = recent_apps (desk s)" "recent_apps_count d = recent_apps_count (desk s)"
    "settings d = settings (desk s)"
    unfolding d_def using rec by simp_all
  have dok: "recent_ok d" "recent_list d = recent_list (desk s)"
    unfolding recent_ok_cong [OF d(1,2)] recent_list_def d(1,2) using ok(1) by (simp_all add: home_ok_def)
  have ctx: "sm_context (on_desktop ?g (world s)) = desktop_call SemaphoreRelease (desktop_recent_apps_push ?n d)"
    by (simp add: d_def)
  have list: "recent_list (sm_context (on_desktop ?g (world s))) = take 39 name # take 5 (recent_list (desk s))"
    unfolding ctx using before_load_recent [OF dok(1) name(1)] name(2) dok(2) d(1,2)
    by (simp add: desktop_call_def recent_list_def)
  have "?n \<noteq> []" using name(1) by (simp add: strlcpy_def)
  then have "recent_ok (desktop_recent_apps_push ?n d)" using recent_push_list(2) [OF dok(1)] by blast
  moreover have "recent_ok (desktop_call c x) = recent_ok x" "settings (desktop_call c x) = settings x"
    "settings (desktop_recent_apps_push n x) = settings x" for c x n
    by (simp_all add: desktop_call_def recent_ok_def recent_list_def desktop_recent_apps_push_def Let_def)
  ultimately have "home_ok (on_desktop ?g (world s))"
    using ok(1) d(3) unfolding home_ok_def ctx on_desktop_simps(2) by simp
  from recent_first_entry [OF this _ list, of env f] ok(2) s1 s2 show ?thesis by auto
qed

theorem recent_relaunch_truncates_witness:
  "\<exists>s1 s2 sm3 sm4. desktop_react demo_env (LoaderMessage (LoaderEventTypeApplicationBeforeLoad
      (Some ''/ext/apps/Bluetooth/remote_controller_for_media.fap'')))
      \<lparr>world = demo_home, ongoing_input = 0, ongoing_input_view = None\<rparr> = Some s1 \<and>
    desktop_react demo_env Dispatch s1 = Some s2 \<and>
    scene_manager_next_scene (desktop_navigation_handlers demo_env) DesktopSceneRecent (world s2) = Some sm3 \<and>
    desktop_scene_recent_on_event False (desktop_navigation_handlers demo_env) (custom 0) sm3 = Some (True, sm4) \<and>
    LoaderStart ''/ext/apps/Bluetooth/remote_controller_f'' None \<in> set (calls (sm_context sm4))"
proof -
  let ?name = "''/ext/apps/Bluetooth/remote_controller_for_media.fap''"
  let ?s = "\<lparr>world = demo_home, ongoing_input = 0, ongoing_input_view = None\<rparr>"
  have "home_ok demo_home" using fresh_recent_ok [of demo_settings demo_pin_value 0]
    by (simp add: home_ok_def demo_home_def desktop_fresh_world_def scene_manager_alloc_def desktop_scene_states_def
        desktop_fresh_def demo_settings_def)
  then have "\<exists>s1 s2 sm3 sm4. desktop_react demo_env (LoaderMessage (LoaderEventTypeApplicationBeforeLoad (Some ?name))) ?s = Some s1 \<and>
    desktop_react demo_env Dispatch s1 = Some s2 \<and>
    scene_manager_next_scene (desktop_navigation_handlers demo_env) DesktopSceneRecent (world s2) = Some sm3 \<and>
    recent_submenu (sm_context sm3) ! 0 = (take 39 ?name, 0, True) \<and>
    desktop_scene_recent_on_event False (desktop_navigation_handlers demo_env) (custom 0) sm3 = Some (True, sm4) \<and>
    LoaderStart (take 39 ?name) None \<in> set (calls (sm_context sm4))"
    by (intro recent_relaunch_truncates)
      (simp_all add: demo_home_def fresh_defs recent_list_def)
  moreover have "take 39 ?name = ''/ext/apps/Bluetooth/remote_controller_f''" by simp
  ultimately show ?thesis by metis
qed


subsection \<open>Events that were meant for another scene\<close>

text \<open>C39: An API unlock that arrives while Quick Actions is open, or while Recent is
  open with entries in it, is taken for a menu index far outside the arrays: the handler reads
  beyond the five favorites or the six recent names, in a release build as well, whatever the
  table of scene handlers and the rest of the state.\<close>

theorem unlock_request_in_menus:
  assumes "home_ok sm" "recent_list (sm_context sm) \<noteq> []"
  shows "event_queue (desktop_api_unlock d) = event_queue d @ [DesktopGlobalApiUnlock] \<and>
    desktop_scene_favorites_on_event furi_debug h (custom DesktopGlobalApiUnlock) sm = None \<and>
    desktop_scene_recent_on_event furi_debug h (custom DesktopGlobalApiUnlock) sm = None"
  using assms
  by (auto simp: desktop_api_unlock_def send_events_def desktop_scene_favorites_on_event_def
      desktop_scene_recent_on_event_def custom_def rd_def home_ok_def recent_ok_def recent_list_def)

theorem unlock_request_in_menus_witness:
  "let sm = on_desktop (desktop_recent_apps_push ''NFC'') demo_home in
   desktop_scene_favorites_on_event False (desktop_navigation_handlers demo_env) (custom DesktopGlobalApiUnlock) sm = None \<and>
   desktop_scene_recent_on_event False (desktop_navigation_handlers demo_env) (custom DesktopGlobalApiUnlock) sm = None"
proof -
  let ?d = "desktop_fresh demo_settings demo_pin_value 0"
  let ?sm = "on_desktop (desktop_recent_apps_push ''NFC'') demo_home"
  have d: "sm_context demo_home = ?d" by (simp add: demo_home_def desktop_fresh_world_def scene_manager_alloc_def)
  have r: "recent_ok (desktop_recent_apps_push ''NFC'' ?d)" "recent_list (desktop_recent_apps_push ''NFC'' ?d) \<noteq> []"
    using recent_push_list [OF fresh_recent_ok, of "''NFC''" demo_settings demo_pin_value 0]
    by (auto simp: short_name_def)
  have "settings (desktop_recent_apps_push ''NFC'' ?d) = demo_settings"
    by (simp add: desktop_recent_apps_push_def Let_def desktop_fresh_def)
  then have "home_ok ?sm" using r(1) d
    by (simp add: home_ok_def demo_settings_def)
      (simp add: demo_home_def desktop_fresh_world_def scene_manager_alloc_def desktop_scene_states_def)
  moreover have "recent_list (sm_context ?sm) \<noteq> []" using r(2) d by simp
  ultimately show ?thesis using unlock_request_in_menus [of ?sm] unfolding Let_def by blast
qed

subsection \<open>Views of the home screen\<close>

text \<open>A frame draws only the views of the stack.\<close>

lemma drawn_held:
  assumes "Drawn v \<in> set (view_calls (view_stack_draw vs w))" "Drawn v \<notin> set (view_calls w)"
  shows "v \<in> set (held vs)"
proof -
  have "Drawn v \<in> set (view_calls (fold (\<lambda>slot. case slot of None \<Rightarrow> id | Some v \<Rightarrow> view_draw v) slots w)) \<Longrightarrow>
      Drawn v \<notin> set (view_calls w) \<Longrightarrow> Some v \<in> set slots" for slots w
  proof (induction slots arbitrary: w)
    case (Cons slot slots)
    show ?case
    proof (cases slot)
      case None
      then show ?thesis using Cons by auto
    next
      case (Some u)
      show ?thesis
      proof (cases "u = v")
        case False
        then have "Drawn v \<notin> set (view_calls (view_draw u w))"
          using Cons.prems(2) by (simp add: view_draw_def log_call_def)
        then show ?thesis using Cons.IH [of "view_draw u w"] Cons.prems(1) Some by simp
      qed (use Some in simp)
    qed
  qed simp
  then show ?thesis using assms by (simp add: view_stack_draw_def each_view_def set_held)
qed

text \<open>The home screen needs four views on a stack of three slots. A debug
  build of the firmware stops in \<open>view_stack_add_view\<close> while the desktop is allocated; a
  release build runs on with a home screen that never draws the locked view (which shows
  "Unlocked" there) and never offers it input.\<close>

theorem home_view_stack_overflow:
  "desktop_alloc_view_stacks True = None \<and>
   (\<exists>main lock w. desktop_alloc_view_stacks False = Some (main, lock, w) \<and>
     held main = [DESKTOP_MAIN_VIEW, DOLPHIN_VIEW, DASHBOARD_VIEW] \<and>
     held lock = [DOLPHIN_VIEW, LOCKED_VIEW] \<and>
     Drawn LOCKED_VIEW \<notin> set (view_calls (view_stack_draw main (w\<lparr>view_calls := []\<rparr>))))"
proof -
  obtain main lock w where r: "desktop_alloc_view_stacks False = Some (main, lock, w)"
    "vs_views main = [Some DESKTOP_MAIN_VIEW, Some DOLPHIN_VIEW, Some DASHBOARD_VIEW]"
    "vs_views lock = [Some DOLPHIN_VIEW, Some LOCKED_VIEW, None]"
    using desktop_alloc_release by blast
  then have h: "held main = [DESKTOP_MAIN_VIEW, DOLPHIN_VIEW, DASHBOARD_VIEW]" "held lock = [DOLPHIN_VIEW, LOCKED_VIEW]"
    by (simp_all add: held_def)
  have "Drawn LOCKED_VIEW \<notin> set (view_calls (view_stack_draw main (w\<lparr>view_calls := []\<rparr>)))"
  proof
    assume "Drawn LOCKED_VIEW \<in> set (view_calls (view_stack_draw main (w\<lparr>view_calls := []\<rparr>)))"
    then have "LOCKED_VIEW \<in> set (held main)" by (rule drawn_held) simp
    then show False using h by simp
  qed
  with r(1) h desktop_alloc_debug show ?thesis by blast
qed

text \<open>On the home screen an event is offered to the animation first and to the
  main view only when the animation leaves it; the dashboard, which lies on top, never takes
  part. The main view consumes whatever it is offered, so Back never reaches the scenes.\<close>

theorem home_input_order:
  "desktop_view_input env now DesktopViewIdMain event d =
     (if env_dolphin_input env event then Some (True, d)
      else do {
        (consumed, events, mv) \<leftarrow> desktop_main_input_callback (rtc_flag_debug d) event (main_view d);
        Some (True, fold desktop_scene_main_callback events (d\<lparr>main_view := mv\<rparr>))
      })"
proof -
  have consumes: "c" if "desktop_main_input_callback f e v = Some (c, es, mv)" for f e v c es mv
    using that by (auto simp: desktop_main_input_callback_def bind_eq_Some_conv)
  show ?thesis
    by (cases "desktop_main_input_callback (rtc_flag_debug d) event (main_view d)")
      (auto simp: desktop_view_input_def view_stack_input_def view_input_def desktop_views_def plain_view_def
        stacked_view_input_def dest: consumes)
qed

text \<open>From home, opening the control center, Quick Actions or Recent and going back
  returns to exactly the scene stack from which it was opened, without a crash, for every
  state of the settings arrays and of the recent list.\<close>

theorem home_menus_return:
  assumes "set (scene_id_stack sm) \<subseteq> home_scenes" "home_ok sm" "menu \<in> home_scenes"
  shows "\<exists>sm1 sm2. scene_manager_next_scene (desktop_navigation_handlers env) menu sm = Some sm1 \<and>
    scene_manager_previous_scene (desktop_navigation_handlers env) sm1 = Some (scene_id_stack sm \<noteq> [], sm2) \<and>
    home_ok sm2 \<and> scene_id_stack sm2 = scene_id_stack sm"
  using home.next_then_previous [of sm menu env] assms by (auto simp: home.ok_def)

lemma demo_home_ok: "home_ok demo_home"
  using fresh_recent_ok [of demo_settings demo_pin_value 0]
  by (simp add: home_ok_def demo_home_def desktop_fresh_world_def scene_manager_alloc_def desktop_scene_states_def
      desktop_fresh_def demo_settings_def)

theorem home_menus_return_witness:
  "\<exists>sm1 sm2. scene_manager_next_scene (desktop_navigation_handlers demo_env) DesktopSceneFavorites demo_home = Some sm1 \<and>
    scene_manager_previous_scene (desktop_navigation_handlers demo_env) sm1 = Some (True, sm2) \<and>
    scene_id_stack sm2 = [DesktopSceneMain]"
  using home_menus_return [of demo_home DesktopSceneFavorites demo_env, OF _ demo_home_ok]
  by (auto simp: demo_home_def home_scenes_def)

end
