(* ===== verification/Loader_Queue.thy ===== *)
theory Loader_Queue
  imports Firmware_Prelude
begin

text \<open>
  The loader's queue of deferred launches
  (firmware/applications/services/loader/loader\_queue.c): an array of
  \<open>LOADER_QUEUE_MAX_SIZE\<close> records and a count. The strings a record owns are modelled
  by their contents; freeing them has no effect on the queue's contents.

  The interface \<open>bounded_fifo\<close> states what a bounded queue promises and is what the
  proofs about launch order use.
\<close>

record LoaderDeferredLaunchRecord =
  name_or_path :: string
  launch_args :: "string option"
  launch_flags :: u32

definition LOADER_QUEUE_MAX_SIZE :: nat where "LOADER_QUEUE_MAX_SIZE = 4"

record LoaderLaunchQueue =
  lq_items :: "LoaderDeferredLaunchRecord list"
  item_cnt :: nat

text \<open>\<open>memmove(&items[0], &items[1], n * sizeof(record))\<close>.\<close>

definition shift_items :: "'a list \<Rightarrow> nat \<Rightarrow> 'a list option" where
  "shift_items items n = (if n + 1 \<le> length items then Some (take n (drop 1 items) @ drop n items) else None)"

definition loader_queue_pop ::
    "LoaderLaunchQueue \<Rightarrow> (LoaderDeferredLaunchRecord option \<times> LoaderLaunchQueue) option" where
  "loader_queue_pop queue =
     (if item_cnt queue = 0 then Some (None, queue)
      else do {
        item \<leftarrow> rd (lq_items queue) 0;
        let n = item_cnt queue - 1;
        items \<leftarrow> shift_items (lq_items queue) n;
        Some (Some item, queue\<lparr>lq_items := items, item_cnt := n\<rparr>)
      })"

definition loader_queue_push ::
    "LoaderLaunchQueue \<Rightarrow> LoaderDeferredLaunchRecord \<Rightarrow> (bool \<times> LoaderLaunchQueue) option" where
  "loader_queue_push queue item =
     (if item_cnt queue = LOADER_QUEUE_MAX_SIZE then Some (False, queue)
      else do {
        items \<leftarrow> wr (lq_items queue) (item_cnt queue) item;
        Some (True, queue\<lparr>lq_items := items, item_cnt := item_cnt queue + 1\<rparr>)
      })"

definition loader_queue_clear :: "LoaderLaunchQueue \<Rightarrow> LoaderLaunchQueue" where
  "loader_queue_clear queue = queue\<lparr>item_cnt := 0\<rparr>"

subsection \<open>The contract of a bounded queue\<close>

locale bounded_fifo =
  fixes inv :: "'q \<Rightarrow> bool" and contents :: "'q \<Rightarrow> 'a list" and bound :: nat
    and push :: "'q \<Rightarrow> 'a \<Rightarrow> (bool \<times> 'q) option"
    and pop :: "'q \<Rightarrow> ('a option \<times> 'q) option"
  assumes bounded: "inv q \<Longrightarrow> length (contents q) \<le> bound"
    and push_room: "inv q \<Longrightarrow> length (contents q) < bound \<Longrightarrow>
      \<exists>q'. push q x = Some (True, q') \<and> inv q' \<and> contents q' = contents q @ [x]"
    and push_full: "inv q \<Longrightarrow> length (contents q) = bound \<Longrightarrow> push q x = Some (False, q)"
    and pop_some: "inv q \<Longrightarrow> contents q = x # xs \<Longrightarrow>
      \<exists>q'. pop q = Some (Some x, q') \<and> inv q' \<and> contents q' = xs"
    and pop_none: "inv q \<Longrightarrow> contents q = [] \<Longrightarrow> pop q = Some (None, q)"
begin

text \<open>Push a list of items, stopping the firmware where one is refused, as the loader does.\<close>

definition push_all :: "'a list \<Rightarrow> 'q \<Rightarrow> 'q option" where
  "push_all xs = ofold (\<lambda>x q. do { (ok, q) \<leftarrow> push q x; furi_check ok; Some q }) xs"

fun pop_n :: "nat \<Rightarrow> 'q \<Rightarrow> ('a list \<times> 'q) option" where
  "pop_n 0 q = Some ([], q)"
| "pop_n (Suc n) q = do {
     (x, q) \<leftarrow> pop q;
     case x of None \<Rightarrow> Some ([], q)
     | Some x \<Rightarrow> do { (xs, q) \<leftarrow> pop_n n q; Some (x # xs, q) }
   }"

lemma push_all_room:
  "inv q \<Longrightarrow> length (contents q) + length xs \<le> bound \<Longrightarrow>
   \<exists>q'. push_all xs q = Some q' \<and> inv q' \<and> contents q' = contents q @ xs"
proof (induction xs arbitrary: q)
  case (Cons x xs)
  then obtain q1 where 1: "push q x = Some (True, q1)" "inv q1" "contents q1 = contents q @ [x]"
    using push_room by fastforce
  with Cons.IH [OF 1(2)] Cons.prems show ?case by (auto simp: push_all_def)
qed (simp add: push_all_def)

lemma push_all_crash:
  "inv q \<Longrightarrow> bound < length (contents q) + length xs \<Longrightarrow> push_all xs q = None"
proof (induction xs arbitrary: q)
  case Nil
  then show ?case using bounded by fastforce
next
  case (Cons x xs)
  show ?case
  proof (cases "length (contents q) = bound")
    case True
    then show ?thesis using push_full [OF Cons.prems(1) True] by (simp add: push_all_def)
  next
    case False
    then obtain q1 where 1: "push q x = Some (True, q1)" "inv q1" "contents q1 = contents q @ [x]"
      using push_room bounded [OF Cons.prems(1)] Cons.prems(1) by (metis le_neq_implies_less)
    with Cons.IH [OF 1(2)] Cons.prems show ?thesis by (auto simp: push_all_def)
  qed
qed

lemma pop_n_contents:
  "inv q \<Longrightarrow> \<exists>q'. pop_n n q = Some (take n (contents q), q') \<and> inv q' \<and> contents q' = drop n (contents q)"
proof (induction n arbitrary: q)
  case (Suc n)
  show ?case
  proof (cases "contents q")
    case Nil
    then show ?thesis using pop_none [OF Suc.prems Nil] Suc.prems by simp
  next
    case (Cons x xs)
    then obtain q1 where "pop q = Some (Some x, q1)" "inv q1" "contents q1 = xs"
      using pop_some [OF Suc.prems] by blast
    with Suc.IH [of q1] Cons show ?thesis by auto
  qed
qed simp

lemma fifo_order:
  assumes "inv q" "contents q = []" "length xs \<le> bound"
  shows "\<exists>q1 q2. push_all xs q = Some q1 \<and> pop_n (length xs) q1 = Some (xs, q2) \<and> contents q2 = []"
proof -
  obtain q1 where 1: "push_all xs q = Some q1" "inv q1" "contents q1 = xs"
    using push_all_room [OF assms(1)] assms by auto
  with pop_n_contents [OF 1(2), of "length xs"] show ?thesis by auto
qed

end

definition lq_ok :: "LoaderLaunchQueue \<Rightarrow> bool" where
  "lq_ok q \<longleftrightarrow> length (lq_items q) = LOADER_QUEUE_MAX_SIZE \<and> item_cnt q \<le> LOADER_QUEUE_MAX_SIZE"

definition lq_contents :: "LoaderLaunchQueue \<Rightarrow> LoaderDeferredLaunchRecord list" where
  "lq_contents q = take (item_cnt q) (lq_items q)"

lemmas lq_defs = lq_ok_def lq_contents_def LOADER_QUEUE_MAX_SIZE_def

interpretation lq: bounded_fifo lq_ok lq_contents LOADER_QUEUE_MAX_SIZE loader_queue_push loader_queue_pop
proof
  fix q assume q: "lq_ok q"
  show "length (lq_contents q) \<le> LOADER_QUEUE_MAX_SIZE" using q by (simp add: lq_defs)
  show "\<exists>q'. loader_queue_push q x = Some (True, q') \<and> lq_ok q' \<and> lq_contents q' = lq_contents q @ [x]"
    if "length (lq_contents q) < LOADER_QUEUE_MAX_SIZE" for x
    using q that by (simp add: lq_defs loader_queue_push_def wr_def take_Suc_conv_app_nth Suc_eq_plus1 [symmetric]
        del: One_nat_def)
  show "loader_queue_push q x = Some (False, q)" if "length (lq_contents q) = LOADER_QUEUE_MAX_SIZE" for x
    using q that by (simp add: lq_defs loader_queue_push_def)
  show "\<exists>q'. loader_queue_pop q = Some (Some x, q') \<and> lq_ok q' \<and> lq_contents q' = xs"
    if c: "lq_contents q = x # xs" for x xs
  proof -
    obtain y ys where items: "lq_items q = y # ys" using q c by (cases "lq_items q") (auto simp: lq_defs)
    obtain n where n: "item_cnt q = Suc n" using c items by (cases "item_cnt q") (simp_all add: lq_defs)
    have "y = x" "take n ys = xs" "n \<le> length ys" "length ys = 3"
      using c items n q by (auto simp: lq_defs)
    then show ?thesis
      using items n q by (auto simp: lq_defs loader_queue_pop_def rd_def shift_items_def One_nat_def)
  qed
  show "loader_queue_pop q = Some (None, q)" if "lq_contents q = []"
    using q that by (auto simp: lq_defs loader_queue_pop_def)
qed

lemma loader_queue_clear_empty: "lq_ok q \<Longrightarrow> lq_ok (loader_queue_clear q) \<and> lq_contents (loader_queue_clear q) = []"
  by (simp add: lq_defs loader_queue_clear_def)


lemma push_all_eq: "lq.push_all xs q = ofold (\<lambda>x q. do { (ok, q) \<leftarrow> loader_queue_push q x; furi_check ok; Some q }) xs q"
  by (simp add: lq.push_all_def)

definition enqueue_all :: "LoaderDeferredLaunchRecord list \<Rightarrow> LoaderLaunchQueue \<Rightarrow> LoaderLaunchQueue option" where
  "enqueue_all = ofold (\<lambda>x q. do { (ok, q) \<leftarrow> loader_queue_push q x; furi_check ok; Some q })"

fun dequeue :: "nat \<Rightarrow> LoaderLaunchQueue \<Rightarrow> (LoaderDeferredLaunchRecord list \<times> LoaderLaunchQueue) option" where
  "dequeue 0 q = Some ([], q)"
| "dequeue (Suc n) q = do {
     (x, q) \<leftarrow> loader_queue_pop q;
     case x of None \<Rightarrow> Some ([], q)
     | Some x \<Rightarrow> do { (xs, q) \<leftarrow> dequeue n q; Some (x # xs, q) }
   }"

lemma dequeue_eq: "dequeue n q = lq.pop_n n q"
proof (induction n arbitrary: q)
  case (Suc n)
  then have eq: "dequeue n = lq.pop_n n" by blast
  show ?case unfolding dequeue.simps lq.pop_n.simps eq by (rule refl)
qed simp

lemma enqueue_all_eq: "enqueue_all xs q = lq.push_all xs q"
  by (simp add: enqueue_all_def push_all_eq)

text \<open>C7: The launch queue is a bounded first-in first-out queue: pushing up to four
  launches and popping them returns them in the order they were pushed, and a launch pushed
  beyond the fourth is the one at which \<open>furi_check\<close> stops the loader.\<close>

theorem launch_queue_fifo:
  assumes "lq_ok q" "item_cnt q = 0"
  shows "if length xs \<le> LOADER_QUEUE_MAX_SIZE
    then \<exists>q1 q2. enqueue_all xs q = Some q1 \<and> dequeue (length xs) q1 = Some (xs, q2) \<and> item_cnt q2 = 0
    else enqueue_all xs q = None"
proof (cases "length xs \<le> LOADER_QUEUE_MAX_SIZE")
  case True
  have empty: "lq_contents q = []" using assms by (simp add: lq_defs)
  obtain q1 where 1: "lq.push_all xs q = Some q1" "lq_ok q1" "lq_contents q1 = xs"
    using lq.push_all_room [OF assms(1), of xs] True empty by auto
  obtain q2 where 2: "lq.pop_n (length xs) q1 = Some (xs, q2)" "lq_ok q2" "lq_contents q2 = []"
    using lq.pop_n_contents [OF 1(2), of "length xs"] 1(3) by auto
  have "item_cnt q2 = 0" using 2(2,3) by (auto simp: lq_defs)
  with 1 2 True show ?thesis by (auto simp: enqueue_all_eq dequeue_eq)
next
  case False
  then have "enqueue_all xs q = None"
    using lq.push_all_crash [OF assms(1)] assms by (simp add: enqueue_all_eq lq_defs)
  with False show ?thesis by (simp only: if_False)
qed

definition demo_launch :: "string \<Rightarrow> LoaderDeferredLaunchRecord" where
  "demo_launch name = \<lparr>name_or_path = name, launch_args = None, launch_flags = 0\<rparr>"

definition demo_queue :: LoaderLaunchQueue where
  "demo_queue = \<lparr>lq_items = replicate 4 (demo_launch []), item_cnt = 0\<rparr>"

theorem launch_queue_fifo_witness:
  "\<exists>q1 q2. enqueue_all [demo_launch ''NFC'', demo_launch ''Infrared''] demo_queue = Some q1 \<and>
    dequeue 2 q1 = Some ([demo_launch ''NFC'', demo_launch ''Infrared''], q2) \<and> item_cnt q2 = 0"
proof -
  have "lq_ok demo_queue" by (simp add: lq_defs demo_queue_def)
  from launch_queue_fifo [OF this, of "[demo_launch ''NFC'', demo_launch ''Infrared'']"] show ?thesis
    by (auto simp: demo_queue_def LOADER_QUEUE_MAX_SIZE_def numeral_2_eq_2)
qed

end
