(* ===== verification/Spec2Isabelle.thy ===== *)
theory Spec2Isabelle
  imports Lfrfid_Em4100_Line Lfrfid_Em4100_Facts Lfrfid_Em4100 Toolbox_Manchester Datetime Mf_Classic_Whole_Card Mf_Classic_Poller_Sync Mf_Classic_Read_Mode Mf_Classic_Link Mf_Classic_Authentication Mf_Classic_Session Mf_Classic_Cipher Mf_Classic_Poller_Modes Mf_Classic_Poller Mf_Classic_Listener_Facts Mf_Classic_Listener Mf_Classic_Text Mf_Classic_Facts Mf_Classic Toolbox_Hex Iso14443_3a_Facts Iso14443_3a Infrared_Limits Infrared_Transmission Infrared_Nec Infrared_Line Infrared_Facts Infrared_Signal Infrared_Protocols Infrared_Common Subghz_Linear Subghz_Gap_Codes Subghz_Came Subghz_Common Subghz_Blocks Subghz_Math Keeloq
    Crypto1_Facts Crypto1 Nfc_Crc_Facts Nfc_Crc Desktop_Home Desktop_Lock Desktop_Steps Desktop_Scenes Desktop
    Desktop_Views Loader_Queue View_Stack Scene_Manager Bit_Lib_Facts Bit_Buffer_Facts
begin

text \<open>
  A verification library for the firmware of a handheld multi-tool (directory firmware of the
  repository, written in C). The firmware runs services (applications/services) over the furi
  core and the hardware abstraction layer; applications and services use the libraries under
  lib. This development models parts whose behaviour is a matter of computation rather than of
  registers and threads, and proves what makes them correct.

  \<^bold>\<open>Reading the models.\<close> Structs are records, enumerations are datatypes, integers are words of
  their width; \<open>size_t\<close> values are natural numbers, with the 32-bit wrap-around written out
  where a subtraction can go below zero. A C function that can stop in \<open>furi_check\<close> or touch
  memory outside its object is a function into \<open>option\<close>, where \<open>None\<close> means that the call
  does not return normally; so an equation \<open>f x = Some y\<close> also says that the call is safe. State
  passed by pointer is an argument and a result. \<open>furi_assert\<close> takes the build mode as an
  argument. \<open>for\<close> loops are \<open>ofold\<close> or \<open>fold\<close> over the values of the counter, so they
  terminate by construction; the only fuel is the number of pulses that a
  driver may ask an encoder for (\<open>transmit\<close>, \<open>infrared_send\<close>): the theorems on transmissions say how many
  pulses are enough. Loops whose end depends on a protocol's functions are partial functions, and that
  they return is proved.

  \<^bold>\<open>Prelude.\<close> \<^theory_text>\<open>Firmware_Prelude\<close>: machine types, checks (furi/core/check.h), memory accesses, loops
  and lemmas on bits and lists.

  \<^bold>\<open>Bits and buffers.\<close> \<^theory_text>\<open>Bit_Lib\<close> is lib/bit\_lib/bit\_lib.c, \<^theory_text>\<open>Bit_Buffer\<close> is
  lib/toolbox/bit\_buffer.c. The facts theories show what each operation does to the bit
  sequence, that bit fields, parity groups and numbers survive a round trip, that the optimised
  reversals are reversals, that checksums have residue zero, that every buffer operation keeps
  the buffer invariant, and that a frame sent with parity bits is received unchanged.

  \<^bold>\<open>Graphical framework.\<close> \<^theory_text>\<open>Scene_Manager\<close> is gui/scene\_manager.c with the handlers of the
  application as arguments; a trace semantics shows that scenes are entered and left in pairs
  in every history. \<^theory_text>\<open>View_Stack\<close> is gui/view\_stack.c and the part of view.c it uses.

  \<^bold>\<open>Desktop service.\<close> \<^theory_text>\<open>Loader_Queue\<close> is loader/loader\_queue.c, refined to a bounded queue through
  a locale of queues. \<^theory_text>\<open>Desktop_Views\<close> (input events, PIN codes, views), \<^theory_text>\<open>Desktop\<close> (desktop.c),
  \<^theory_text>\<open>Desktop_Scenes\<close> (its scenes) and \<^theory_text>\<open>Desktop_Steps\<close> (dispatch and boot) compose into a
  step function \<open>desktop_react\<close> on the stimuli the service receives: input events, custom
  events, timers and messages of other services. \<^theory_text>\<open>Desktop_Lock\<close> states the invariant of a
  locked desktop and proves that every stimulus keeps it (a wait of the loader for the desktop that runs out stops the
  firmware, and is a stimulus of its own); \<^theory_text>\<open>Desktop_Home\<close> holds the properties:
  the lock holds in every run, the right PIN unlocks, wrong PINs are counted and delayed, a
  device with a PIN boots locked when no start-up screen is shown, menus return home, and the recent list keeps its shape.

  \<^bold>\<open>NFC.\<close> \<^theory_text>\<open>Nfc_Crc\<close> holds the three checksum helpers of lib/nfc/helpers; \<^theory_text>\<open>Nfc_Crc_Facts\<close> states
  their contract as the locale \<open>crc_trailer\<close> and interprets it on each of them. \<^theory_text>\<open>Crypto1\<close> is
  the Mifare Classic cipher (crypto1.c) and the parity helpers (nfc\_util.c); \<^theory_text>\<open>Crypto1_Facts\<close>
  shows that rolling the register back inverts it, that two ends of a session understand each
  other, and that an encrypted nonce is recovered. \<^theory_text>\<open>Iso14443_3a\<close> is the poller (collision resolution and
  frame exchange) and the listener of lib/nfc/protocols/iso14443\_3a, over a driver that is a parameter; its facts
  theory shows that activation ends for every driver and finds the card that is in the field.

  \<^bold>\<open>Mifare Classic.\<close> \<^theory_text>\<open>Toolbox_Hex\<close> is lib/toolbox/hex.c. \<^theory_text>\<open>Mf_Classic\<close> is the data of a card
  (mf\_classic.c): sectors, known keys and blocks, access conditions, value blocks and the lines of the file;
  \<^theory_text>\<open>Mf_Classic_Facts\<close> and \<^theory_text>\<open>Mf_Classic_Text\<close> show that sectors partition the blocks, which blocks are values, and
  that saved lines restore the card. \<^theory_text>\<open>Mf_Classic_Listener\<close> is the card that the firmware emulates
  (mf\_classic\_listener.c), from the events of the ISO 14443-3 A listener to the frames that it sends;
  the signed additions of its value commands, whose overflow C leaves undefined, are taken to wrap.
  \<^theory_text>\<open>Mf_Classic_Listener_Facts\<close> gives the invariant of its state and shows that every event keeps it, and that blocks
  change only as the access conditions allow. \<^theory_text>\<open>Mf_Classic_Poller\<close> is the reader: the commands of mf\_classic\_poller\_i.c
  (nonces, authentication, blocks, values, halt); \<^theory_text>\<open>Mf_Classic_Poller_Modes\<close> is its state machine in
  mf\_classic\_poller.c (detection of the type, reading, writing), with the dictionary attacks as an argument; and
  \<^theory_text>\<open>Mf_Classic_Poller_Sync\<close> the calls of applications that wait for a command or for the whole card
  (mf\_classic\_poller\_sync.c).

  \<^bold>\<open>Reader against card.\<close> The driver \<open>air\<close> of \<^theory_text>\<open>Mf_Classic_Session\<close> hands the frames of the reader to the listener and
  back, so that both models run against each other; the frames of the collision resolution are answered from the UID,
  ATQA and SAK of the emulated card, as the hardware below the listener does. \<^theory_text>\<open>Mf_Classic_Cipher\<close> collects what both ends need of the cipher;
  \<^theory_text>\<open>Mf_Classic_Session\<close> follows a read, a write and a halt in a session, \<^theory_text>\<open>Mf_Classic_Authentication\<close> shows that the
  right key opens one, \<^theory_text>\<open>Mf_Classic_Link\<close> composes them: blocks read as the card holds them, and written blocks read
  back. \<^theory_text>\<open>Mf_Classic_Read_Mode\<close> follows the state machine over a sector, block by block, and \<^theory_text>\<open>Mf_Classic_Whole_Card\<close>
  over all sectors for which the caller of the synchronous read has a key: the events of the poller's thread
  (\<open>nfc_worker_poller\<close>, \<open>nfc_poller_start_callback\<close>) go through the ISO 14443-3 A poller, which activates the card again
  after the halt at the end of each sector; they end, and what the reader then knows is what the card holds. The number
  of events that the last theorem names is enough for one event per request, one per block and two at the end. It
  starts when the type of the card is known, and all keys of the caller are right.

  \<^bold>\<open>Sub-GHz.\<close> \<^theory_text>\<open>Keeloq\<close> is lib/subghz/protocols/keeloq\_common.c: the locale \<open>round_cipher\<close> gives
  that decryption and encryption undo each other. \<^theory_text>\<open>Subghz_Math\<close> and \<^theory_text>\<open>Subghz_Blocks\<close> are
  lib/subghz/blocks. \<^theory_text>\<open>Subghz_Common\<close> is protocols/common.c together with the loops that every
  upload uses and three locales: \<open>pulse_code\<close> (what a bit symbol does to a decoder),
  \<open>header_frames\<close> (frames around the bits) and \<open>link\<close> (an encoder and a decoder of one
  protocol). \<^theory_text>\<open>Subghz_Came\<close>, \<^theory_text>\<open>Subghz_Gap_Codes\<close> (Nice FLO, Gate TX, Holtek, Ansonic) and
  \<^theory_text>\<open>Subghz_Linear\<close> model the protocols and interpret the locales: what an encoder yields,
  repeat by repeat, is decoded to the message that was encoded.

  \<^bold>\<open>Infrared.\<close> \<^theory_text>\<open>Infrared_Common\<close> is the engine of lib/infrared/encoder\_decoder/common, \<^theory_text>\<open>Infrared_Protocols\<close>
  the eight protocol families and the dispatch of infrared.c, \<^theory_text>\<open>Infrared_Signal\<close> the validity of
  signals and the callbacks that feed the driver. \<^theory_text>\<open>Infrared_Facts\<close> states the contract of a protocol as
  locales and shows that a decoder that keeps it survives every pulse; \<^theory_text>\<open>Infrared_Line\<close> follows pulses from an
  encoder to a decoder in the locale \<open>pulse_distance\<close>; \<^theory_text>\<open>Infrared_Nec\<close> and \<^theory_text>\<open>Infrared_Transmission\<close>
  show that messages of NEC, RCA, Kaseikyo and Samsung32 arrive as they were sent; \<^theory_text>\<open>Infrared_Limits\<close> collects
  what holds for every signal, and a signal that stops the firmware.

  \<^bold>\<open>LF RFID.\<close> \<^theory_text>\<open>Toolbox_Manchester\<close> is the Manchester coder of lib/toolbox with the locale \<open>manchester_receiver\<close>: a
  protocol that classifies pulses and hands their bits on hears what was sent, for all durations inside its windows.
  \<^theory_text>\<open>Lfrfid_Em4100\<close> is lib/lfrfid/protocols/protocol\_em4100.c. \<^theory_text>\<open>Lfrfid_Em4100_Facts\<close> gives the frame of a card number as
  a list of bits and shows that the encoder builds it and the decoder reads it; \<^theory_text>\<open>Lfrfid_Em4100_Line\<close> shows where in the
  stream of repeated frames the decoder reports a card, and composes encoder, line and decoder.

  \<^bold>\<open>Dates.\<close> \<^theory_text>\<open>Datetime\<close> is lib/datetime/datetime.c: its loops over years and months end, and timestamps and dates are
  turned into each other up to the end of 2038. From 2039 on the conversion of a date overflows a signed integer, which
  is undefined in C: it has no result.

  \<^bold>\<open>Parameters.\<close> Scene handlers of applications, the scenes of the desktop that are not modelled,
  and the contents of freshly allocated memory are arguments of the definitions that use them.
  A decoder's callback is taken to be set; its calls are recorded in a list.

  \<^bold>\<open>Not modelled.\<close> Drawing, text output and logging; threads, timers and message queues of the furi
  core beyond the order of their effects; storage and file formats (saving and loading messages,
  settings); register level code under targets; third-party libraries (u8g2, fatfs, mjs,
  mbedtls). Of the Mifare Classic reader the dictionary attacks are left out, and a
  request from another thread to stop the reading. The remaining sub-GHz protocols, the other NFC protocol stacks and LF RFID protocols, iButton
  and the rest of the toolbox are planned in this order: toolbox coders and parsers, further sub-GHz protocols
  (Princeton, KeeLoq, Nice FloR-S, Somfy Telis), ISO 14443-4 blocks.
\<close>

end
